(* ===== verification/Prelude.thy ===== *)
theory Prelude
  imports Complex_Main "HOL-Library.Word" "HOL-Library.List_Lexorder"
begin

text \<open>
  The prelude of the development: the JavaScript values every component works on (strings as
  UTF-16 code units, numbers with NaN and the infinities), the insertion-ordered \<open>Map\<close> of the
  language with its interface as a locale, stable sorting by a comparator, and the generic list
  lemmas and fact collections the component theories share.
\<close>

named_theorems js_eval \<open>equations that evaluate string and number literals\<close>
named_theorems step_simps \<open>unfolding equations of the state machines\<close>

section \<open>Strings\<close>

text \<open>
  A JavaScript string is a sequence of 16-bit code units. \<open>js\<close> writes an ASCII literal.
\<close>

type_synonym code_unit = "16 word"
type_synonym jsstr = "code_unit list"

definition js :: "string \<Rightarrow> jsstr" where
  "js s = map of_char s"

lemma js_Nil [simp, js_eval]: "js [] = []"
  by (simp add: js_def)

lemma js_Cons [js_eval]: "js (c # cs) = of_char c # js cs"
  by (simp add: js_def)

lemma js_append: "js (a @ b) = js a @ js b"
  by (simp add: js_def)

lemma js_inj: "js s = js t \<longleftrightarrow> s = t"
proof
  have "c = d" if e: "(of_char c :: code_unit) = of_char d" for c d
  proof -
    have "of_nat (of_char c) = (of_nat (of_char d) :: code_unit)"
      using e by (simp only: of_nat_of_char)
    then have "(of_char c :: nat) mod 65536 = of_char d mod 65536"
      by (simp only: word_of_nat_eq_iff) (simp add: take_bit_eq_mod)
    moreover have "(of_char x :: nat) < 65536" for x :: char
      using nat_of_char_less_256 [of x] by linarith
    ultimately have "(of_char c :: nat) = of_char d" by simp
    then show ?thesis by simp
  qed
  then have "inj (of_char :: char \<Rightarrow> code_unit)" by (rule injI)
  moreover assume "js s = js t"
  ultimately show "s = t" by (simp add: js_def inj_map_eq_map)
qed simp

lemma length_js [simp]: "length (js s) = length s"
  by (simp add: js_def)

text \<open>\<open>s.startsWith(p)\<close>, \<open>s.endsWith(p)\<close> and \<open>s.includes(p)\<close>.\<close>

primrec starts_with :: "'a list \<Rightarrow> 'a list \<Rightarrow> bool" where
  "starts_with s [] = True"
| "starts_with s (p # ps) = (case s of [] \<Rightarrow> False | c # cs \<Rightarrow> c = p \<and> starts_with cs ps)"

definition ends_with :: "'a list \<Rightarrow> 'a list \<Rightarrow> bool" where
  "ends_with s p = starts_with (rev s) (rev p)"

primrec includes_str :: "'a list \<Rightarrow> 'a list \<Rightarrow> bool" where
  "includes_str [] p = (p = [])"
| "includes_str (c # cs) p = (starts_with (c # cs) p \<or> includes_str cs p)"

lemma starts_with_iff: "starts_with s p \<longleftrightarrow> (\<exists>r. s = p @ r)"
  by (induction p arbitrary: s) (auto split: list.splits)

lemma ends_with_iff: "ends_with s p \<longleftrightarrow> (\<exists>r. s = r @ p)"
proof
  assume "ends_with s p"
  then obtain r where "rev s = rev p @ r"
    by (auto simp: ends_with_def starts_with_iff)
  then have "s = rev r @ p" by (metis rev_append rev_rev_ident)
  then show "\<exists>r. s = r @ p" ..
qed (auto simp: ends_with_def starts_with_iff)

lemma starts_with_append [simp]: "starts_with (p @ r) p"
  by (auto simp: starts_with_iff)

lemma starts_with_length: "starts_with s p \<Longrightarrow> length p \<le> length s"
  by (auto simp: starts_with_iff)

lemma starts_with_drop: "starts_with s p \<Longrightarrow> p @ drop (length p) s = s"
  by (auto simp: starts_with_iff)

text \<open>\<open>s.split(sep)\<close> for a one-unit separator; the result is never empty.\<close>

fun split_on :: "'a \<Rightarrow> 'a list \<Rightarrow> 'a list list" where
  "split_on d [] = [[]]"
| "split_on d (c # cs) =
     (if c = d then [] # split_on d cs
      else case split_on d cs of [] \<Rightarrow> [[c]] | w # ws \<Rightarrow> (c # w) # ws)"

lemma split_on_nonempty [simp]: "split_on d s \<noteq> []"
  by (induction s) (auto split: list.splits)

lemma split_on_no_sep: "w \<in> set (split_on d s) \<Longrightarrow> d \<notin> set w"
proof (induction s arbitrary: w)
  case (Cons c cs)
  then show ?case
    by (cases "split_on d cs") (auto split: if_splits)
qed simp

text \<open>\<open>parts.join(sep)\<close>.\<close>

fun join_with :: "'a list \<Rightarrow> 'a list list \<Rightarrow> 'a list" where
  "join_with sep [] = []"
| "join_with sep [w] = w"
| "join_with sep (w # v # ws) = w @ sep @ join_with sep (v # ws)"

lemma join_split [simp]: "join_with [d] (split_on d s) = s"
proof (induction s)
  case (Cons c cs)
  show ?case
  proof (cases "split_on d cs")
    case Nil
    then show ?thesis by (metis split_on_nonempty)
  next
    case (Cons w ws)
    with Cons.IH show ?thesis by (cases ws) auto
  qed
qed simp

lemma split_on_app: "d \<notin> set w \<Longrightarrow> split_on d (w @ d # s) = w # split_on d s"
  by (induction w) auto

lemma split_on_plain: "d \<notin> set w \<Longrightarrow> split_on d w = [w]"
  by (induction w) auto

lemma split_join: "ws \<noteq> [] \<Longrightarrow> \<forall>w \<in> set ws. d \<notin> set w \<Longrightarrow> split_on d (join_with [d] ws) = ws"
  by (induction "[d]" ws rule: join_with.induct) (auto simp: split_on_app split_on_plain)

lemma join_mem: "w \<in> set ws \<Longrightarrow> u \<in> set w \<Longrightarrow> u \<in> set (join_with sep ws)"
  by (induction sep ws rule: join_with.induct) auto

lemma split_on_units: "w \<in> set (split_on d s) \<Longrightarrow> u \<in> set w \<Longrightarrow> u \<in> set s"
  by (metis join_mem join_split)

lemma join_units: "u \<in> set (join_with sep ws) \<Longrightarrow> u \<in> set sep \<or> (\<exists>w \<in> set ws. u \<in> set w)"
  by (induction sep ws rule: join_with.induct) auto

section \<open>Numbers\<close>

text \<open>
  A number is a finite value or one of the three special values. Finite values are kept as
  exact rationals: every finite double is one; the rounding of arithmetic is not modelled.
\<close>

datatype jsnum = Fin rat | PosInf | NegInf | NaN

definition is_finite :: "jsnum \<Rightarrow> bool" where
  "is_finite x = (case x of Fin _ \<Rightarrow> True | _ \<Rightarrow> False)"

definition num_lt :: "jsnum \<Rightarrow> jsnum \<Rightarrow> bool" where
  "num_lt x y =
     (case x of
        NaN \<Rightarrow> False
      | Fin a \<Rightarrow> (case y of Fin b \<Rightarrow> a < b | PosInf \<Rightarrow> True | _ \<Rightarrow> False)
      | NegInf \<Rightarrow> (case y of Fin _ \<Rightarrow> True | PosInf \<Rightarrow> True | _ \<Rightarrow> False)
      | PosInf \<Rightarrow> False)"

definition num_eq :: "jsnum \<Rightarrow> jsnum \<Rightarrow> bool" where
  "num_eq x y = (x \<noteq> NaN \<and> x = y)"

definition num_le :: "jsnum \<Rightarrow> jsnum \<Rightarrow> bool" where
  "num_le x y = (num_lt x y \<or> num_eq x y)"

definition num_neg :: "jsnum \<Rightarrow> jsnum" where
  "num_neg x = (case x of Fin a \<Rightarrow> Fin (- a) | PosInf \<Rightarrow> NegInf | NegInf \<Rightarrow> PosInf | NaN \<Rightarrow> NaN)"

definition num_add :: "jsnum \<Rightarrow> jsnum \<Rightarrow> jsnum" where
  "num_add x y =
     (case x of
        NaN \<Rightarrow> NaN
      | Fin a \<Rightarrow> (case y of Fin b \<Rightarrow> Fin (a + b) | _ \<Rightarrow> y)
      | PosInf \<Rightarrow> (if y = NegInf \<or> y = NaN then NaN else PosInf)
      | NegInf \<Rightarrow> (if y = PosInf \<or> y = NaN then NaN else NegInf))"

definition num_sub :: "jsnum \<Rightarrow> jsnum \<Rightarrow> jsnum" where
  "num_sub x y = num_add x (num_neg y)"

lemmas num_defs = is_finite_def num_lt_def num_eq_def num_le_def num_neg_def num_add_def num_sub_def

lemma num_Fin [simp, js_eval]:
  "is_finite (Fin a)"
  "num_lt (Fin a) (Fin b) = (a < b)"
  "num_le (Fin a) (Fin b) = (a \<le> b)"
  "num_eq (Fin a) (Fin b) = (a = b)"
  "num_add (Fin a) (Fin b) = Fin (a + b)"
  "num_sub (Fin a) (Fin b) = Fin (a - b)"
  "num_neg (Fin a) = Fin (- a)"
  by (auto simp: num_defs)

lemma is_finite_iff: "is_finite x \<longleftrightarrow> (\<exists>a. x = Fin a)"
  by (cases x) (auto simp: is_finite_def)

lemma num_NaN [simp]: "\<not> num_lt NaN x" "\<not> num_lt x NaN" "\<not> num_le NaN x" "\<not> num_le x NaN"
  by (cases x; simp add: num_defs)+

text \<open>\<open>Number.isSafeInteger\<close>: integers up to \<open>2 ^ 53 - 1\<close> in magnitude.\<close>

definition max_safe :: int where
  "max_safe = 9007199254740991"

lemma max_safe_eq: "max_safe = 2 ^ 53 - 1"
  by (simp add: max_safe_def)

definition safe_integer :: "jsnum \<Rightarrow> bool" where
  "safe_integer x = (case x of Fin q \<Rightarrow> of_int \<lfloor>q\<rfloor> = q \<and> \<bar>\<lfloor>q\<rfloor>\<bar> \<le> max_safe | _ \<Rightarrow> False)"

lemma safe_integer_iff: "safe_integer x \<longleftrightarrow> (\<exists>n. x = Fin (of_int n) \<and> \<bar>n\<bar> \<le> max_safe)"
proof
  assume "safe_integer x"
  then obtain q where "x = Fin q" "of_int \<lfloor>q\<rfloor> = q" "\<bar>\<lfloor>q\<rfloor>\<bar> \<le> max_safe"
    by (auto simp: safe_integer_def split: jsnum.splits)
  then show "\<exists>n. x = Fin (of_int n) \<and> \<bar>n\<bar> \<le> max_safe"
    by (intro exI [of _ "\<lfloor>q\<rfloor>"]) auto
qed (auto simp: safe_integer_def)

lemma safe_integer_of_int [simp]: "safe_integer (Fin (of_int n)) \<longleftrightarrow> \<bar>n\<bar> \<le> max_safe"
  by (simp add: safe_integer_def)

section \<open>Indexing\<close>

text \<open>\<open>xs[i]\<close> is undefined past the end.\<close>

definition item_at :: "'a list \<Rightarrow> nat \<Rightarrow> 'a option" where
  "item_at xs i = (if i < length xs then Some (xs ! i) else None)"

lemma item_at_Some: "item_at xs i = Some x \<longleftrightarrow> i < length xs \<and> xs ! i = x"
  by (auto simp: item_at_def)

text \<open>The list without its element at a position, for requests in flight that are answered in any order.\<close>

definition remove_at :: "nat \<Rightarrow> 'a list \<Rightarrow> 'a list" where
  "remove_at k xs = take k xs @ drop (Suc k) xs"

lemma remove_at_set: "x \<in> set (remove_at k xs) \<Longrightarrow> x \<in> set xs"
  by (auto simp: remove_at_def dest: in_set_takeD in_set_dropD)

lemma remove_at_distinct:
  assumes "distinct (map f xs)" "item_at xs k = Some x"
  shows "distinct (map f (remove_at k xs))" "y \<in> set (remove_at k xs) \<Longrightarrow> f y \<noteq> f x"
proof -
  from assms(2) have "xs = take k xs @ x # drop (Suc k) xs" by (auto simp: item_at_Some id_take_nth_drop)
  then have "distinct (map f (take k xs @ x # drop (Suc k) xs))" using assms(1) by metis
  then have "distinct (map f (remove_at k xs))" "f x \<notin> f ` set (remove_at k xs)" by (auto simp: remove_at_def)
  then show "distinct (map f (remove_at k xs))" "y \<in> set (remove_at k xs) \<Longrightarrow> f y \<noteq> f x" by (auto intro: rev_image_eqI)
qed

lemma item_at_mem: "item_at xs k = Some x \<Longrightarrow> x \<in> set xs"
  by (auto simp: item_at_Some)

lemma map_update_same: "item_at xs i = Some x \<Longrightarrow> f y = f x \<Longrightarrow> map f (xs[i := y]) = map f xs"
  by (auto simp: item_at_Some map_update list_update_same_conv)

section \<open>The insertion-ordered Map\<close>

text \<open>
  \<open>Map.set\<close> keeps the position of a key it already has and appends a new one; \<open>delete\<close>
  removes the entry. The iteration order is the order of the entries.
\<close>

type_synonym ('k, 'v) amap = "('k \<times> 'v) list"

primrec amap_put :: "'k \<Rightarrow> 'v \<Rightarrow> ('k, 'v) amap \<Rightarrow> ('k, 'v) amap" where
  "amap_put k v [] = [(k, v)]"
| "amap_put k v (p # m) = (if fst p = k then (k, v) # m else p # amap_put k v m)"

definition amap_del :: "'k \<Rightarrow> ('k, 'v) amap \<Rightarrow> ('k, 'v) amap" where
  "amap_del k m = filter (\<lambda>p. fst p \<noteq> k) m"

definition amap_keys :: "('k, 'v) amap \<Rightarrow> 'k list" where
  "amap_keys m = map fst m"

definition amap_vals :: "('k, 'v) amap \<Rightarrow> 'v list" where
  "amap_vals m = map snd m"

definition amap_has :: "('k, 'v) amap \<Rightarrow> 'k \<Rightarrow> bool" where
  "amap_has m k = (k \<in> set (amap_keys m))"

definition amap_ok :: "('k, 'v) amap \<Rightarrow> bool" where
  "amap_ok m = distinct (amap_keys m)"

lemma amap_get_put [simp]: "map_of (amap_put k v m) = (map_of m)(k \<mapsto> v)"
  by (induction m) (auto simp: fun_eq_iff)

lemma amap_keys_put: "amap_keys (amap_put k v m) =
    (if k \<in> set (amap_keys m) then amap_keys m else amap_keys m @ [k])"
  by (induction m) (auto simp: amap_keys_def)

lemma amap_get_del: "map_of (amap_del k m) = (map_of m)(k := None)"
  by (induction m) (auto simp: amap_del_def fun_eq_iff)

lemma amap_keys_del: "amap_keys (amap_del k m) = filter (\<lambda>x. x \<noteq> k) (amap_keys m)"
  by (induction m) (auto simp: amap_del_def amap_keys_def)

lemma amap_keys_dom: "set (amap_keys m) = dom (map_of m)"
  by (induction m) (auto simp: amap_keys_def)

lemma amap_has_iff: "amap_has m k \<longleftrightarrow> map_of m k \<noteq> None"
  by (auto simp: amap_has_def amap_keys_dom dom_def)

lemma amap_put_cases: "p \<in> set (amap_put k v m) \<Longrightarrow> p = (k, v) \<or> p \<in> set m"
  by (induction m) (auto split: if_splits)

text \<open>
  The interface the components rely on: what a lookup returns after each operation, the order of
  the keys, and the invariant that no key occurs twice.
\<close>

locale ordered_map =
  fixes get :: "'m \<Rightarrow> 'k \<Rightarrow> 'v option"
    and put :: "'k \<Rightarrow> 'v \<Rightarrow> 'm \<Rightarrow> 'm"
    and del :: "'k \<Rightarrow> 'm \<Rightarrow> 'm"
    and keys :: "'m \<Rightarrow> 'k list"
    and ok :: "'m \<Rightarrow> bool"
  assumes get_put: "get (put k v m) = (get m)(k \<mapsto> v)"
    and get_del: "get (del k m) = (get m)(k := None)"
    and keys_put: "keys (put k v m) = (if k \<in> set (keys m) then keys m else keys m @ [k])"
    and keys_del: "keys (del k m) = filter (\<lambda>x. x \<noteq> k) (keys m)"
    and keys_dom: "set (keys m) = dom (get m)"
    and ok_keys: "ok m \<longleftrightarrow> distinct (keys m)"
begin

lemma ok_put: "ok m \<Longrightarrow> ok (put k v m)"
  by (simp add: ok_keys keys_put)

lemma ok_del: "ok m \<Longrightarrow> ok (del k m)"
  by (simp add: ok_keys keys_del)

definition put_all :: "('a \<Rightarrow> 'k) \<Rightarrow> ('a \<Rightarrow> 'v) \<Rightarrow> 'a list \<Rightarrow> 'm \<Rightarrow> 'm" where
  "put_all f g xs m = fold (\<lambda>x. put (f x) (g x)) xs m"

lemma put_all_simps [simp]:
  "put_all f g [] m = m"
  "put_all f g (x # xs) m = put_all f g xs (put (f x) (g x) m)"
  by (simp_all add: put_all_def)

lemma put_all_append: "put_all f g (xs @ ys) m = put_all f g ys (put_all f g xs m)"
  by (simp add: put_all_def)

lemma ok_put_all: "ok m \<Longrightarrow> ok (put_all f g xs m)"
  by (induction xs arbitrary: m) (auto simp: ok_put)

lemma keys_put_all: "set (keys (put_all f g xs m)) = set (keys m) \<union> f ` set xs"
  by (induction xs arbitrary: m) (auto simp: keys_put)

lemma get_put_all_other: "k \<notin> f ` set xs \<Longrightarrow> get (put_all f g xs m) k = get m k"
  by (induction xs arbitrary: m) (auto simp: get_put)

lemma get_put_all_last:
  assumes "f x = k" "k \<notin> f ` set ys"
  shows "get (put_all f g (xs @ x # ys) m) k = Some (g x)"
  using assms by (simp add: put_all_append get_put_all_other get_put)

lemma get_put_all_in:
  "k \<in> f ` set xs \<Longrightarrow> \<exists>x \<in> set xs. f x = k \<and> get (put_all f g xs m) k = Some (g x)"
proof (induction xs arbitrary: m)
  case (Cons x xs)
  show ?case
  proof (cases "k \<in> f ` set xs")
    case True
    with Cons.IH show ?thesis by fastforce
  next
    case False
    with Cons.prems show ?thesis by (auto simp: get_put_all_other get_put)
  qed
qed simp

lemma get_put_all_cases:
  "get (put_all f g xs m) k = Some v \<Longrightarrow> get m k = Some v \<or> (\<exists>x \<in> set xs. f x = k \<and> g x = v)"
proof (cases "k \<in> f ` set xs")
  case True
  then obtain x where "x \<in> set xs" "f x = k" "get (put_all f g xs m) k = Some (g x)"
    using get_put_all_in [of k f xs g m] by blast
  moreover assume "get (put_all f g xs m) k = Some v"
  ultimately show ?thesis by auto
qed (simp add: get_put_all_other)

end

interpretation am: ordered_map map_of amap_put amap_del amap_keys amap_ok
  by unfold_locales
    (simp_all add: amap_keys_put amap_get_del amap_keys_del amap_keys_dom amap_ok_def)

lemma amap_ok_Nil [simp]: "amap_ok []"
  by (simp add: amap_ok_def amap_keys_def)

lemma amap_vals_mem: "amap_ok m \<Longrightarrow> v \<in> set (amap_vals m) \<longleftrightarrow> (\<exists>k. map_of m k = Some v)"
  by (force simp: amap_ok_def amap_vals_def amap_keys_def dest: map_of_SomeD intro: map_of_is_SomeI)

text \<open>\<open>new Map(xs.map(x => [f(x), g(x)]))\<close>.\<close>

definition amap_from :: "('a \<Rightarrow> 'k) \<Rightarrow> ('a \<Rightarrow> 'v) \<Rightarrow> 'a list \<Rightarrow> ('k, 'v) amap" where
  "amap_from f g xs = fold (\<lambda>x. amap_put (f x) (g x)) xs []"

lemma amap_from_put_all: "amap_from f g xs = am.put_all f g xs []"
  by (simp add: amap_from_def am.put_all_def)

lemma amap_put_new: "k \<notin> set (amap_keys m) \<Longrightarrow> amap_put k v m = m @ [(k, v)]"
  by (induction m) (auto simp: amap_keys_def)

lemma put_all_new: "distinct (amap_keys m @ map f xs) \<Longrightarrow>
    fold (\<lambda>x. amap_put (f x) (g x)) xs m = m @ map (\<lambda>x. (f x, g x)) xs"
  by (induction xs arbitrary: m) (auto simp: amap_put_new amap_keys_def)

lemma amap_from_distinct: "distinct (map f xs) \<Longrightarrow> amap_from f g xs = map (\<lambda>x. (f x, g x)) xs"
  using put_all_new [where m = "[]"] by (simp add: amap_from_def amap_keys_def)

section \<open>Stable sorting by a comparator\<close>

text \<open>
  \<open>Array.prototype.sort\<close> is stable. \<open>le a b\<close> stands for a comparator whose result is not
  positive; equal elements keep their order.
\<close>

primrec insert_by :: "('a \<Rightarrow> 'a \<Rightarrow> bool) \<Rightarrow> 'a \<Rightarrow> 'a list \<Rightarrow> 'a list" where
  "insert_by le x [] = [x]"
| "insert_by le x (y # ys) = (if le x y then x # y # ys else y # insert_by le x ys)"

definition sort_by :: "('a \<Rightarrow> 'a \<Rightarrow> bool) \<Rightarrow> 'a list \<Rightarrow> 'a list" where
  "sort_by le xs = foldr (insert_by le) xs []"

lemma sort_by_simps [simp]: "sort_by le [] = []" "sort_by le (x # xs) = insert_by le x (sort_by le xs)"
  by (simp_all add: sort_by_def)

lemma set_insert_by [simp]: "set (insert_by le x xs) = insert x (set xs)"
  by (induction xs) auto

lemma set_sort_by [simp]: "set (sort_by le xs) = set xs"
  by (induction xs) auto

lemma length_insert_by [simp]: "length (insert_by le x xs) = Suc (length xs)"
  by (induction xs) auto

lemma length_sort_by [simp]: "length (sort_by le xs) = length xs"
  by (induction xs) auto

lemma distinct_insert_by [simp]: "distinct (insert_by le x xs) \<longleftrightarrow> x \<notin> set xs \<and> distinct xs"
  by (induction xs) auto

lemma distinct_sort_by [simp]: "distinct (sort_by le xs) = distinct xs"
  by (induction xs) auto

text \<open>A comparator the language accepts: a total preorder.\<close>

locale comparator =
  fixes le :: "'a \<Rightarrow> 'a \<Rightarrow> bool"
  assumes total: "le a b \<or> le b a"
    and trans: "le a b \<Longrightarrow> le b c \<Longrightarrow> le a c"
begin

lemma sorted_insert_by: "sorted_wrt le xs \<Longrightarrow> sorted_wrt le (insert_by le x xs)"
proof (induction xs)
  case (Cons y ys)
  show ?case
  proof (cases "le x y")
    case True
    with Cons.prems show ?thesis by (auto intro: trans)
  next
    case False
    with total have "le y x" by blast
    with Cons False show ?thesis by auto
  qed
qed simp

lemma sorted_sort_by: "sorted_wrt le (sort_by le xs)"
  by (induction xs) (auto intro: sorted_insert_by)

end

section \<open>Generic lemmas\<close>

lemma list_all_nth_iff: "list_all P xs \<longleftrightarrow> (\<forall>i < length xs. P (xs ! i))"
  by (simp add: list_all_length)

lemma length_filter_update:
  "w < length ws \<Longrightarrow>
    length (filter P (ws[w := x])) + of_bool (P (ws ! w)) = length (filter P ws) + of_bool (P x)"
proof (induction ws arbitrary: w)
  case (Cons y ws)
  then show ?case by (cases w) auto
qed simp

lemma distinct_mapI: "distinct (map f xs) \<Longrightarrow> distinct xs"
  by (induction xs) auto

lemma takeWhile_dropWhile_length: "length (takeWhile P xs) + length (dropWhile P xs) = length xs"
  by (metis length_append takeWhile_dropWhile_id)

lemma sum_list_update_le:
  "i < length xs \<Longrightarrow> sum_list (xs[i := (v::nat)]) + xs ! i = sum_list xs + v"
proof (induction xs arbitrary: i)
  case (Cons x xs)
  then show ?case by (cases i) auto
qed simp

text \<open>\<open>findIndex\<close>.\<close>

primrec find_index :: "('a \<Rightarrow> bool) \<Rightarrow> 'a list \<Rightarrow> nat option" where
  "find_index P [] = None"
| "find_index P (x # xs) = (if P x then Some 0 else map_option Suc (find_index P xs))"

lemma find_index_Some: "find_index P xs = Some i \<Longrightarrow> i < length xs \<and> P (xs ! i)"
  by (induction xs arbitrary: i) (auto split: if_splits)

lemma find_index_None: "find_index P xs = None \<longleftrightarrow> (\<forall>x \<in> set xs. \<not> P x)"
  by (induction xs) auto

lemma find_index_nth: "distinct xs \<Longrightarrow> i < length xs \<Longrightarrow> find_index (\<lambda>x. x = xs ! i) xs = Some i"
proof (induction xs arbitrary: i)
  case (Cons x xs)
  then show ?case by (cases i) auto
qed simp

text \<open>White space of \<open>\s\<close> and \<open>trim\<close>.\<close>

definition space_unit :: "code_unit \<Rightarrow> bool" where
  "space_unit c \<longleftrightarrow> c \<in> {9, 10, 11, 12, 13, 0x20, 0xA0, 0x1680, 0x2028, 0x2029, 0x202F, 0x205F, 0x3000, 0xFEFF} \<or>
     (0x2000 \<le> c \<and> c \<le> 0x200A)"

definition js_trim :: "jsstr \<Rightarrow> jsstr" where
  "js_trim s = rev (dropWhile space_unit (rev (dropWhile space_unit s)))"

end
