(* ===== verification/Pwa_Worker.thy ===== *)
theory Pwa_Worker
  imports Prelude
begin

text \<open>
  The service worker of the installed application, \<open>web/features/pwa/service-worker.js\<close>, and the page's side of
  an update, \<open>web/features/pwa/worker-client.ts\<close>. Caches are ordered by their creation, the entries of a cache
  by their last \<open>put\<close>; what the network and the storage answer is given with each event.
\<close>

section \<open>Names\<close>

datatype cache_kind = Shell | Static

definition pwa_prefix :: jsstr where "pwa_prefix = js ''retrom-pwa-''"

definition kind_prefix :: "cache_kind \<Rightarrow> jsstr" where
  "kind_prefix k = pwa_prefix @ (case k of Shell \<Rightarrow> js ''shell-'' | Static \<Rightarrow> js ''static-'')"

definition cache_name :: "jsstr \<Rightarrow> cache_kind \<Rightarrow> jsstr" where
  "cache_name version k = kind_prefix k @ version"

definition shellPaths :: "jsstr list" where
  "shellPaths = [js ''/offline'', js ''/pwa/icons/icon-192.png'', js ''/pwa/icons/icon-512.png'',
     js ''/pwa/icons/maskable-512.png'', js ''/pwa/icons/apple-180.png'']"

text \<open>\<open>/^\/(?:w|\<dots>)(?:\/|$)/u\<close> for a list of words.\<close>

definition under_word :: "string list \<Rightarrow> jsstr \<Rightarrow> bool" where
  "under_word ws p \<longleftrightarrow> list_ex (\<lambda>w. p = js (CHR ''/'' # w) \<or> starts_with p (js (CHR ''/'' # w @ ''/''))) ws"

definition excluded :: "jsstr \<Rightarrow> bool" where
  "excluded p = under_word [''api'', ''health'', ''content'', ''runtime'', ''__retrom'', ''run''] p"

section \<open>Requests and responses\<close>

record pwa_request =
  rq_origin :: jsstr
  rq_path :: jsstr
  rq_search :: jsstr
  rq_method :: jsstr
  rq_range :: bool
  rq_navigate :: bool
  rq_iframe :: bool

record pwa_response =
  ps_status :: nat
  ps_redirected :: bool
  ps_cacheControl :: "jsstr option"
  ps_body :: nat

definition resp_ok :: "pwa_response \<Rightarrow> bool" where
  "resp_ok r \<longleftrightarrow> 200 \<le> ps_status r \<and> ps_status r \<le> 299"

text \<open>A cache is the list of its entries; the key of an entry is the path with the query.\<close>

type_synonym cache = "(jsstr, pwa_response) amap"
type_synonym caches = "(jsstr, cache) amap"

definition cache_put :: "jsstr \<Rightarrow> pwa_response \<Rightarrow> cache \<Rightarrow> cache" where
  "cache_put k r c = amap_del k c @ [(k, r)]"

definition open_cache :: "jsstr \<Rightarrow> caches \<Rightarrow> caches" where
  "open_cache n cs = (if amap_has cs n then cs else cs @ [(n, [])])"

definition opened :: "jsstr \<Rightarrow> caches \<Rightarrow> cache" where
  "opened n cs = (case map_of cs n of Some c \<Rightarrow> c | None \<Rightarrow> [])"

section \<open>Installation and activation\<close>

text \<open>The network's answers for the shell paths; \<open>None\<close> is a failed fetch.\<close>

definition installShell :: "jsstr \<Rightarrow> (jsstr \<Rightarrow> pwa_response option) \<Rightarrow> caches \<Rightarrow> caches option" where
  "installShell version net cs =
     (if list_all (\<lambda>p. case net p of None \<Rightarrow> False | Some r \<Rightarrow> resp_ok r \<and> \<not> ps_redirected r) shellPaths
      then let n = cache_name version Shell; cs' = open_cache n cs in
        Some (amap_put n (fold (\<lambda>p. cache_put p (the (net p))) shellPaths (opened n cs')) cs')
      else None)"

definition activate_kind :: "jsstr \<Rightarrow> jsstr list \<Rightarrow> cache_kind \<Rightarrow> caches \<Rightarrow> caches" where
  "activate_kind version keys kind cs =
     (let owned = filter (\<lambda>k. starts_with k (kind_prefix kind)) keys;
          current = cache_name version kind;
          others = filter (\<lambda>k. k \<noteq> current) owned;
          previous = (if others = [] then None else Some (last others)) in
      fold amap_del (filter (\<lambda>k. k \<noteq> current \<and> Some k \<noteq> previous) owned) cs)"

definition activate :: "jsstr \<Rightarrow> caches \<Rightarrow> caches" where
  "activate version cs =
     (let keys = amap_keys cs in activate_kind version keys Static (activate_kind version keys Shell cs))"

section \<open>The update message\<close>

datatype update_answer = NoAnswer | AnswerPlaying | AnswerActivating

definition playing_path :: "jsstr \<Rightarrow> bool" where
  "playing_path p = under_word [''play'', ''immersive''] p"

definition update_message :: "jsstr \<Rightarrow> jsstr \<Rightarrow> jsstr option \<Rightarrow> nat \<Rightarrow> jsstr list \<Rightarrow> update_answer" where
  "update_message origin type source_origin ports client_paths =
     (if type \<noteq> js ''RETROM_ACTIVATE_UPDATE'' \<or> source_origin = None \<or> ports \<noteq> 1 then NoAnswer
      else if source_origin \<noteq> Some origin then NoAnswer
      else if list_ex playing_path client_paths then AnswerPlaying
      else AnswerActivating)"

section \<open>Fetches\<close>

datatype handling = Passed | Navigate | ShellResource | StaticResource

definition handling_of :: "jsstr \<Rightarrow> bool \<Rightarrow> pwa_request \<Rightarrow> handling" where
  "handling_of origin cache_static r =
     (if rq_origin r \<noteq> origin \<or> rq_method r \<noteq> js ''GET'' \<or> rq_range r \<or> excluded (rq_path r) then Passed
      else if rq_navigate r \<and> \<not> rq_iframe r then Navigate
      else if rq_path r \<in> set shellPaths \<and> rq_search r = [] then ShellResource
      else if cache_static \<and> starts_with (rq_path r) (js ''/_next/static/'') then StaticResource
      else Passed)"

definition entry_key :: "pwa_request \<Rightarrow> jsstr" where
  "entry_key r = rq_path r @ rq_search r"

text \<open>
  The answer of the worker (\<open>None\<close> is a failed response) and the caches afterwards. \<open>storage\<close> tells whether
  the cache storage can be used, \<open>net\<close> is the answer of the network, \<open>None\<close> when the fetch fails.
\<close>

definition offline_page :: "jsstr \<Rightarrow> bool \<Rightarrow> caches \<Rightarrow> pwa_response option \<times> caches" where
  "offline_page version storage cs =
     (if storage then (map_of (opened (cache_name version Shell) cs) (js ''/offline''), open_cache (cache_name version Shell) cs)
      else (None, cs))"

definition navigate :: "jsstr \<Rightarrow> bool \<Rightarrow> pwa_response option \<Rightarrow> caches \<Rightarrow> pwa_response option \<times> caches" where
  "navigate version storage net cs =
     (case net of
        Some r \<Rightarrow> if ps_status r < 500 then (Some r, cs) else offline_page version storage cs
      | None \<Rightarrow> offline_page version storage cs)"

definition shellResource :: "jsstr \<Rightarrow> bool \<Rightarrow> pwa_request \<Rightarrow> pwa_response option \<Rightarrow> caches \<Rightarrow> pwa_response option \<times> caches" where
  "shellResource version storage r net cs =
     (if storage then
        (case map_of (opened (cache_name version Shell) cs) (entry_key r) of
           Some c \<Rightarrow> (Some c, open_cache (cache_name version Shell) cs)
         | None \<Rightarrow> (net, open_cache (cache_name version Shell) cs))
      else (net, cs))"

fun first_match :: "jsstr \<Rightarrow> cache list \<Rightarrow> pwa_response option" where
  "first_match k [] = None"
| "first_match k (c # cs) = (case map_of c k of Some r \<Rightarrow> Some r | None \<Rightarrow> first_match k cs)"

definition findStatic :: "jsstr \<Rightarrow> bool \<Rightarrow> caches \<Rightarrow> pwa_response option" where
  "findStatic k storage cs =
     (if storage
      then first_match k (map snd (rev (filter (\<lambda>(n, c). starts_with n (kind_prefix Static)) cs)))
      else None)"

definition maximum_static :: nat where "maximum_static = 192"

definition store_static :: "jsstr \<Rightarrow> pwa_response \<Rightarrow> cache \<Rightarrow> cache" where
  "store_static k r c = (let c' = cache_put k r c in drop (length c' - maximum_static) c')"

definition cacheable :: "pwa_response \<Rightarrow> bool" where
  "cacheable r \<longleftrightarrow> resp_ok r \<and> \<not> ps_redirected r \<and>
     (case ps_cacheControl r of Some h \<Rightarrow> includes_str h (js ''immutable'') | None \<Rightarrow> False)"

definition staticResource :: "jsstr \<Rightarrow> bool \<Rightarrow> pwa_request \<Rightarrow> pwa_response option \<Rightarrow> caches \<Rightarrow> pwa_response option \<times> caches" where
  "staticResource version storage r net cs =
     (case findStatic (entry_key r) storage cs of
        Some c \<Rightarrow> (Some c, cs)
      | None \<Rightarrow>
          (case net of
             None \<Rightarrow> (None, cs)
           | Some n \<Rightarrow>
               (Some n,
                if cacheable n \<and> storage then
                  let name = cache_name version Static; cs' = open_cache name cs in
                  amap_put name (store_static (entry_key r) n (opened name cs')) cs'
                else cs)))"

definition pwa_fetch :: "jsstr \<Rightarrow> jsstr \<Rightarrow> bool \<Rightarrow> bool \<Rightarrow> pwa_request \<Rightarrow> pwa_response option \<Rightarrow> caches \<Rightarrow>
    (pwa_response option) option \<times> caches" where
  "pwa_fetch origin version cache_static storage r net cs =
     (case handling_of origin cache_static r of
        Passed \<Rightarrow> (None, cs)
      | Navigate \<Rightarrow> apfst Some (navigate version storage net cs)
      | ShellResource \<Rightarrow> apfst Some (shellResource version storage r net cs)
      | StaticResource \<Rightarrow> apfst Some (staticResource version storage r net cs))"

section \<open>Runs\<close>

datatype pwa_event =
    Installs "jsstr \<Rightarrow> pwa_response option"
  | Activates
  | Fetches bool pwa_request "pwa_response option"

text \<open>The caches after an event of the worker of one version on a site with one origin.\<close>

definition pwa_step :: "jsstr \<Rightarrow> jsstr \<Rightarrow> bool \<Rightarrow> pwa_event \<Rightarrow> caches \<Rightarrow> caches" where
  "pwa_step origin version cache_static e cs =
     (case e of
        Installs net \<Rightarrow> (case installShell version net cs of Some cs' \<Rightarrow> cs' | None \<Rightarrow> cs)
      | Activates \<Rightarrow> activate version cs
      | Fetches storage r net \<Rightarrow> snd (pwa_fetch origin version cache_static storage r net cs))"

section \<open>The page's side of an update\<close>

datatype update_result = Updated | Playing | NotFinished | NoUpdate | NotAvailable

record update_wait =
  uw_approved :: bool
  uw_controlled :: bool
  uw_result :: "update_result option"

datatype update_event = TimerFires | ControllerChanges | WorkerSays jsstr bool

text \<open>\<open>finish\<close> removes the listeners, so only the first call has an effect.\<close>

definition finish_update :: "update_result \<Rightarrow> update_wait \<Rightarrow> update_wait" where
  "finish_update r u = u\<lparr>uw_result := Some r\<rparr>"

text \<open>\<open>WorkerSays status current\<close>: \<open>current\<close> tells whether the waiting worker is the controller by then.\<close>

definition update_step :: "update_event \<Rightarrow> update_wait \<Rightarrow> update_wait" where
  "update_step e u =
     (if uw_result u \<noteq> None then u
      else case e of
        TimerFires \<Rightarrow> finish_update NotFinished u
      | ControllerChanges \<Rightarrow>
          let u' = u\<lparr>uw_controlled := True\<rparr> in if uw_approved u then finish_update Updated u' else u'
      | WorkerSays status current \<Rightarrow>
          if status = js ''playing'' then finish_update Playing u
          else if status = js ''activating'' then
            (let u' = u\<lparr>uw_approved := True\<rparr> in
             if uw_controlled u \<or> current then finish_update Updated u' else u')
          else u)"

definition activateUpdate :: "bool \<Rightarrow> bool \<Rightarrow> update_wait" where
  "activateUpdate waiting posted =
     (let u = \<lparr>uw_approved = False, uw_controlled = False, uw_result = None\<rparr> in
      if \<not> waiting then finish_update NoUpdate u
      else if \<not> posted then finish_update NotAvailable u
      else u)"

definition update_run :: "update_event list \<Rightarrow> update_wait \<Rightarrow> update_wait" where
  "update_run es u = fold update_step es u"

section \<open>observeWorker\<close>

record worker_state =
  wk_ready :: bool
  wk_update :: bool
  wk_error :: bool

record observed =
  ob_registered :: bool
  ob_disposed :: bool
  ob_lastCheck :: nat
  ob_checks :: nat
  ob_changed :: "worker_state list"

text \<open>
  The registration's state comes with each event: whether it has an active and a waiting worker. A check runs
  from \<open>ChecksAt\<close> to \<open>CheckEnds\<close>, several at a time; \<open>Visible\<close> and \<open>Online\<close> start one.
\<close>

datatype observe_event = ChecksAt nat | CheckEnds bool bool bool | VisibleAt bool nat | OnlineAt nat
  | ControllerChanged bool bool | InstallingChanged bool bool bool | Disposed

definition publish_worker :: "bool \<Rightarrow> bool \<Rightarrow> bool \<Rightarrow> observed \<Rightarrow> observed" where
  "publish_worker active waiting failed s =
     (if ob_disposed s \<or> \<not> failed \<and> \<not> ob_registered s then s
      else s\<lparr>ob_changed := ob_changed s @
        [\<lparr>wk_ready = (ob_registered s \<and> active), wk_update = (ob_registered s \<and> waiting), wk_error = failed\<rparr>]\<rparr>)"

definition check_begins :: "nat \<Rightarrow> observed \<Rightarrow> observed" where
  "check_begins now s = (if ob_disposed s then s else s\<lparr>ob_lastCheck := now, ob_checks := Suc (ob_checks s)\<rparr>)"

definition observe_start :: "nat \<Rightarrow> observed" where
  "observe_start now = check_begins now
     \<lparr>ob_registered = False, ob_disposed = False, ob_lastCheck = 0, ob_checks = 0, ob_changed = []\<rparr>"

definition observe_step :: "observe_event \<Rightarrow> observed \<Rightarrow> observed" where
  "observe_step e s =
     (case e of
        ChecksAt now \<Rightarrow> check_begins now s
      | OnlineAt now \<Rightarrow> if ob_disposed s then s else check_begins now s
      | VisibleAt visible now \<Rightarrow>
          if \<not> ob_disposed s \<and> visible \<and> 60000 < now - ob_lastCheck s then check_begins now s else s
      | CheckEnds ok active waiting \<Rightarrow>
          if ob_checks s = 0 then s
          else (let s' = s\<lparr>ob_checks := ob_checks s - 1\<rparr> in
            if \<not> ok then publish_worker active waiting True s'
            else if ob_disposed s then s'
            else publish_worker active waiting False (s'\<lparr>ob_registered := True\<rparr>))
      | ControllerChanged active waiting \<Rightarrow> publish_worker active waiting False s
      | InstallingChanged redundant active waiting \<Rightarrow>
          if ob_registered s then publish_worker active waiting redundant s else s
      | Disposed \<Rightarrow> s\<lparr>ob_disposed := True\<rparr>)"

end
