(* ===== verification/Pwa_Properties.thy ===== *)
theory Pwa_Properties
  imports Pwa_Worker
begin

text \<open>
  What the worker of the installed application guarantees: it never touches the paths of the server, of the
  games and of other sites, its caches hold complete public responses only and stay bounded, an activation
  keeps one older version, and an update ends with one answer.
\<close>

section \<open>What it answers\<close>

text \<open>
  The worker answers only \<open>GET\<close> requests of its own origin without a range whose path is none of the
  interface, health, content, runtime, isolation and run paths; everything else goes to the network, and the
  caches stay as they were.
\<close>

theorem worker_keeps_out:
  "pwa_fetch origin version cache_static storage r net cs = (None, cs) \<or>
   rq_origin r = origin \<and> rq_method r = js ''GET'' \<and> \<not> rq_range r \<and> \<not> excluded (rq_path r) \<and>
   (rq_navigate r \<and> \<not> rq_iframe r \<or> rq_path r \<in> set shellPaths \<and> rq_search r = [] \<or>
    cache_static \<and> starts_with (rq_path r) (js ''/_next/static/''))"
  by (auto simp: pwa_fetch_def handling_of_def)

section \<open>What it keeps\<close>

definition clean_cache :: "cache \<Rightarrow> bool" where
  "clean_cache c \<longleftrightarrow> amap_ok c \<and> list_all (\<lambda>(k, r). resp_ok r \<and> \<not> ps_redirected r) c"

definition clean_caches :: "caches \<Rightarrow> bool" where
  "clean_caches cs \<longleftrightarrow> amap_ok cs \<and>
     list_all (\<lambda>(n, c). clean_cache c \<and> (\<not> starts_with n (kind_prefix Static) \<or> length c \<le> maximum_static)) cs"

lemma kinds_differ: "\<not> starts_with (cache_name version Shell) (kind_prefix Static)"
  "\<not> starts_with (cache_name version Static) (kind_prefix Shell)"
  "starts_with (cache_name version k) (kind_prefix k)"
  by (simp_all add: cache_name_def kind_prefix_def pwa_prefix_def js_def)

lemma clean_Nil [simp]: "clean_cache []" by (simp add: clean_cache_def)

lemma clean_put: "clean_cache c \<Longrightarrow> resp_ok r \<Longrightarrow> \<not> ps_redirected r \<Longrightarrow> clean_cache (cache_put k r c)"
  by (auto simp: clean_cache_def cache_put_def amap_ok_def amap_keys_def list_all_iff amap_del_def distinct_map_filter)

lemma clean_drop: "clean_cache c \<Longrightarrow> clean_cache (drop n c)"
  by (auto simp: clean_cache_def amap_ok_def amap_keys_def list_all_iff drop_map [symmetric] dest: in_set_dropD)

lemma clean_store: "clean_cache c \<Longrightarrow> cacheable r \<Longrightarrow> clean_cache (store_static k r c) \<and> length (store_static k r c) \<le> maximum_static"
  by (auto simp: store_static_def Let_def cacheable_def clean_put clean_drop)

lemma clean_open: "clean_caches cs \<Longrightarrow> clean_caches (open_cache n cs)"
  by (auto simp: clean_caches_def open_cache_def amap_has_def amap_ok_def amap_keys_def)

lemma clean_opened: "clean_caches cs \<Longrightarrow> clean_cache (opened n cs)"
  by (auto simp: clean_caches_def opened_def list_all_iff dest!: map_of_SomeD split: option.split)

lemma clean_replace:
  "clean_caches cs \<Longrightarrow> clean_cache c \<Longrightarrow> \<not> starts_with n (kind_prefix Static) \<or> length c \<le> maximum_static \<Longrightarrow>
    clean_caches (amap_put n c cs)"
  by (auto simp: clean_caches_def amap_ok_def amap_keys_put list_all_iff dest!: amap_put_cases)

lemma clean_del: "clean_caches cs \<Longrightarrow> clean_caches (amap_del n cs)"
  by (auto simp: clean_caches_def list_all_iff am.ok_del) (auto simp: amap_del_def)

lemma clean_activate: "clean_caches cs \<Longrightarrow> clean_caches (activate version cs)"
proof -
  have "clean_caches cs \<Longrightarrow> clean_caches (fold amap_del ks cs)" for ks cs
    by (induction ks arbitrary: cs) (auto simp: clean_del)
  then show "clean_caches cs \<Longrightarrow> ?thesis" by (simp add: activate_def activate_kind_def Let_def)
qed

lemma clean_install:
  assumes "clean_caches cs" "installShell version net cs = Some cs'"
  shows "clean_caches cs'"
proof -
  have ok: "\<forall>p \<in> set shellPaths. resp_ok (the (net p)) \<and> \<not> ps_redirected (the (net p))"
    using assms(2) by (auto simp: installShell_def list_all_iff split: if_splits option.splits)
  have "(\<forall>p \<in> set ps. resp_ok (the (net p)) \<and> \<not> ps_redirected (the (net p))) \<Longrightarrow> clean_cache c \<Longrightarrow>
      clean_cache (fold (\<lambda>p. cache_put p (the (net p))) ps c)" for ps c
    by (induction ps arbitrary: c) (auto simp: clean_put)
  then show ?thesis using assms ok clean_replace clean_opened clean_open kinds_differ(1)
    by (auto simp: installShell_def Let_def split: if_splits)
qed

lemma clean_fetch: "clean_caches cs \<Longrightarrow> clean_caches (snd (pwa_fetch origin version cache_static storage r net cs))"
proof -
  assume c: "clean_caches cs"
  have n: "clean_caches (snd (navigate version storage net cs))"
    using c clean_open by (simp add: navigate_def offline_page_def split: option.split)
  have s: "clean_caches (snd (shellResource version storage r net cs))"
    using c clean_open by (simp add: shellResource_def split: option.split)
  have t: "clean_caches (snd (staticResource version storage r net cs))"
    using c clean_open clean_opened clean_store clean_replace
    by (simp add: staticResource_def Let_def split: option.split)
  show ?thesis using c n s t by (cases "handling_of origin cache_static r") (simp_all add: pwa_fetch_def)
qed

lemma clean_step: "clean_caches cs \<Longrightarrow> clean_caches (pwa_step origin version cache_static e cs)"
  by (cases e) (auto simp: pwa_step_def clean_activate clean_fetch clean_install split: option.split)


section \<open>Activation\<close>

definition other_names :: "jsstr \<Rightarrow> cache_kind \<Rightarrow> caches \<Rightarrow> jsstr list" where
  "other_names version kind cs =
     filter (\<lambda>n. starts_with n (kind_prefix kind) \<and> n \<noteq> cache_name version kind) (amap_keys cs)"

text \<open>A name survives when it is foreign, the current one, or the newest other one of its kind.\<close>

definition survives :: "jsstr \<Rightarrow> caches \<Rightarrow> jsstr \<Rightarrow> bool" where
  "survives version cs n \<longleftrightarrow>
     list_all (\<lambda>kind. \<not> starts_with n (kind_prefix kind) \<or> n = cache_name version kind \<or>
       (other_names version kind cs \<noteq> [] \<and> n = last (other_names version kind cs))) [Shell, Static]"

lemma get_fold_del: "map_of (fold amap_del ks cs) n = (if n \<in> set ks then None else map_of cs n)"
  by (induction ks arbitrary: cs) (auto simp: amap_get_del)

lemma filter_others: "filter (\<lambda>k. k \<noteq> c) (filter P ks) = filter (\<lambda>k. P k \<and> k \<noteq> c) ks"
  by (induction ks) auto

lemma activate_kind_get:
  "map_of (activate_kind version (amap_keys cs) kind ds) n =
     (if n \<in> set (amap_keys cs) \<and> starts_with n (kind_prefix kind) \<and> n \<noteq> cache_name version kind \<and>
         \<not> (other_names version kind cs \<noteq> [] \<and> n = last (other_names version kind cs))
      then None else map_of ds n)"
  by (auto simp: activate_kind_def Let_def get_fold_del other_names_def filter_others)

text \<open>
  An activation keeps the caches of the current version and of the newest other one of each kind with all their
  entries, and those that are not the worker's; it deletes the rest.
\<close>

theorem activation_keeps_two:
  "map_of (activate version cs) n = (if survives version cs n then map_of cs n else None)"
proof (cases "n \<in> set (amap_keys cs)")
  case True
  then show ?thesis by (auto simp: activate_def Let_def activate_kind_get survives_def)
next
  case False
  then have "map_of cs n = None" by (simp add: amap_keys_dom domIff)
  then show ?thesis by (simp add: activate_def Let_def activate_kind_get)
qed

section \<open>Updates\<close>

definition honest_result :: "update_event list \<Rightarrow> update_wait \<Rightarrow> bool" where
  "honest_result es u \<longleftrightarrow>
     (case uw_result u of
        Some Updated \<Rightarrow> uw_approved u \<and> list_ex (\<lambda>e. e = ControllerChanges \<or> e = WorkerSays (js ''activating'') True) es
      | Some Playing \<Rightarrow> list_ex (\<lambda>e. \<exists>b. e = WorkerSays (js ''playing'') b) es
      | Some NotFinished \<Rightarrow> TimerFires \<in> set es
      | _ \<Rightarrow> True)"

lemma update_run_snoc: "update_run (es @ [e]) u = update_step e (update_run es u)"
  by (simp add: update_run_def)

lemma update_run_honest:
  "honest_result es (update_run es (activateUpdate w p)) \<and>
   (\<not> uw_controlled (update_run es (activateUpdate w p)) \<or> ControllerChanges \<in> set es) \<and>
   (TimerFires \<notin> set es \<or> uw_result (update_run es (activateUpdate w p)) \<noteq> None)"
proof (induction es rule: rev_induct)
  case Nil
  show ?case by (simp add: update_run_def activateUpdate_def Let_def finish_update_def honest_result_def)
next
  case (snoc e es)
  let ?u = "update_run es (activateUpdate w p)"
  show ?case
  proof (cases "uw_result ?u")
    case (Some r)
    then show ?thesis using snoc by (cases r) (auto simp: update_run_snoc update_step_def honest_result_def)
  next
    case None
    then show ?thesis using snoc
      by (cases e) (auto simp: update_run_snoc update_step_def honest_result_def finish_update_def Let_def
          list_ex_iff)
  qed
qed

text \<open>The timer has not fired or there is an answer; an answer is that of every longer run.\<close>

definition answered_in_time :: "update_event list \<Rightarrow> update_wait \<Rightarrow> bool" where
  "answered_in_time es u \<longleftrightarrow> TimerFires \<notin> set es \<or> uw_result u \<noteq> None"

definition keeps_answer :: "update_wait \<Rightarrow> update_wait \<Rightarrow> bool" where
  "keeps_answer u v \<longleftrightarrow> uw_result u = None \<or> uw_result v = uw_result u"

text \<open>
  An update that was asked for ends at the latest when its timer fires, and its answer never changes: it is
  updated only after the worker agreed and took control, and not while a game is open in any window.
\<close>

theorem update_has_one_answer:
  "honest_result es (update_run es (activateUpdate w p)) \<and>
   answered_in_time es (update_run es (activateUpdate w p)) \<and>
   keeps_answer (update_run es (activateUpdate w p)) (update_run (es @ more_events) (activateUpdate w p))"
proof -
  have "uw_result u \<noteq> None \<Longrightarrow> update_run es' u = u" for es' u
    by (induction es') (auto simp: update_run_def update_step_def)
  moreover have "update_run (es @ more_events) v = update_run more_events (update_run es v)" for v
    by (simp add: update_run_def)
  ultimately show ?thesis using update_run_honest unfolding answered_in_time_def keeps_answer_def by metis
qed

lemma observe_disposed:
  "ob_disposed s \<Longrightarrow> ob_disposed (observe_step e s) \<and> ob_changed (observe_step e s) = ob_changed s"
  by (cases e) (auto simp: observe_step_def publish_worker_def check_begins_def Let_def)

text \<open>After it is disposed of, the observer reports nothing.\<close>

theorem observer_ends: "ob_changed (fold observe_step es (observe_step Disposed s)) = ob_changed s"
proof -
  have "ob_disposed s \<Longrightarrow> ob_changed (fold observe_step es s) = ob_changed s" for s
    by (induction es arbitrary: s) (auto simp: observe_disposed)
  then show ?thesis by (simp add: observe_step_def)
qed

end
