(* ===== verification/Browser_Storage.thy ===== *)
theory Browser_Storage
  imports Prelude
begin

text \<open>
  The browser storage page: \<open>web/features/accounts/browser-storage.ts\<close>. The cache manager of a Provider module
  clears the content cache batch by batch; its answers are a parameter. The loop ends because every next key
  is a digest greater than the last one.
\<close>

section \<open>Site usage\<close>

datatype storage_error = NoEstimate | EstimateFailed | NoManager | Aborted | ManagerFailed nat
  | BadBatch | OutOfRange

text \<open>The outer \<open>None\<close> is a browser without \<open>estimate\<close>, the inner one an absent \<open>usage\<close>.\<close>

definition readSiteUsage :: "jsnum option option \<Rightarrow> storage_error + jsnum" where
  "readSiteUsage estimate =
     (case estimate of
        None \<Rightarrow> Inl NoEstimate
      | Some None \<Rightarrow> Inl EstimateFailed
      | Some (Some usage) \<Rightarrow>
          if \<not> safe_integer usage \<or> num_lt usage (Fin 0) then Inl EstimateFailed else Inr usage)"

text \<open>One verified module stands for all of them: the first reference.\<close>

definition loadContentCacheManager :: "'r list \<Rightarrow> ('r \<Rightarrow> storage_error + 'm) \<Rightarrow> storage_error + 'm" where
  "loadContentCacheManager items load_module = (case items of [] \<Rightarrow> Inl NoManager | r # _ \<Rightarrow> load_module r)"

section \<open>Clearing\<close>

record clear_progress =
  cp_reclaimedBytes :: jsnum
  cp_removedObjects :: jsnum
  cp_skippedObjects :: jsnum

record clear_batch = clear_progress +
  cb_nextKey :: "jsstr option"

definition counts_of :: "'a clear_progress_scheme \<Rightarrow> jsnum list" where
  "counts_of p = [cp_reclaimedBytes p, cp_removedObjects p, cp_skippedObjects p]"

definition hex_digit :: "code_unit \<Rightarrow> bool" where
  "hex_digit c \<longleftrightarrow> 97 \<le> c \<and> c \<le> 102 \<or> 48 \<le> c \<and> c \<le> 57"

text \<open>\<open>/^[a-f0-9]{64}$/u\<close>\<close>

definition cache_key :: "jsstr \<Rightarrow> bool" where
  "cache_key k \<longleftrightarrow> length k = 64 \<and> list_all hex_digit k"

definition validateBatch :: "clear_batch \<Rightarrow> jsstr option \<Rightarrow> bool" where
  "validateBatch batch afterKey \<longleftrightarrow>
     list_all (\<lambda>v. safe_integer v \<and> \<not> num_lt v (Fin 0)) (counts_of batch) \<and>
     (case cb_nextKey batch of
        None \<Rightarrow> True
      | Some k \<Rightarrow> cache_key k \<and> (case afterKey of None \<Rightarrow> True | Some a \<Rightarrow> a < k))"

text \<open>
  The sums of one batch, key by key; the first sum that is not a safe integer throws, and the progress that is
  not returned is not seen.
\<close>

definition add_batch :: "clear_progress \<Rightarrow> clear_batch \<Rightarrow> clear_progress option" where
  "add_batch p batch =
     (let p' = \<lparr>cp_reclaimedBytes = num_add (cp_reclaimedBytes p) (cp_reclaimedBytes batch),
               cp_removedObjects = num_add (cp_removedObjects p) (cp_removedObjects batch),
               cp_skippedObjects = num_add (cp_skippedObjects p) (cp_skippedObjects batch)\<rparr> in
      if list_all safe_integer (counts_of p') then Some p' else None)"

definition keys_after :: "jsstr option \<Rightarrow> jsstr set" where
  "keys_after afterKey = {k. cache_key k \<and> (case afterKey of None \<Rightarrow> True | Some a \<Rightarrow> a < k)}"

lemma finite_keys_after: "finite (keys_after a)"
proof (rule finite_subset)
  show "keys_after a \<subseteq> {xs. set xs \<subseteq> UNIV \<and> length xs = 64}"
    by (auto simp: keys_after_def cache_key_def)
qed (rule finite_lists_length_eq, simp)

lemma keys_after_less:
  assumes "validateBatch batch a" "cb_nextKey batch = Some k"
  shows "card (keys_after (Some k)) < card (keys_after a)"
proof (rule psubset_card_mono [OF finite_keys_after], rule psubsetI)
  have k: "cache_key k" "case a of None \<Rightarrow> True | Some a \<Rightarrow> a < k"
    using assms by (auto simp: validateBatch_def)
  then show "keys_after (Some k) \<subseteq> keys_after a"
    by (auto simp: keys_after_def split: option.splits)
  have "k \<in> keys_after a" "k \<notin> keys_after (Some k)" using k by (auto simp: keys_after_def)
  then show "keys_after (Some k) \<noteq> keys_after a" by blast
qed

text \<open>
  The loop, with the number of the call, the requested keys and the reported progress as its trace;
  \<open>aborted n\<close> is the state of the signal before call \<open>n\<close>.
\<close>

function clear_loop :: "(nat \<Rightarrow> jsstr option \<Rightarrow> nat + clear_batch) \<Rightarrow> (nat \<Rightarrow> bool) \<Rightarrow> nat \<Rightarrow> jsstr option \<Rightarrow>
    clear_progress \<Rightarrow> (storage_error + clear_progress) \<times> jsstr option list \<times> clear_progress list" where
  "clear_loop manager aborted n afterKey p =
     (if aborted n then (Inl Aborted, [], [])
      else case manager n afterKey of
        Inl e \<Rightarrow> (Inl (ManagerFailed e), [afterKey], [])
      | Inr batch \<Rightarrow>
          if \<not> validateBatch batch afterKey then (Inl BadBatch, [afterKey], [])
          else case add_batch p batch of
            None \<Rightarrow> (Inl OutOfRange, [afterKey], [])
          | Some p' \<Rightarrow>
              (case cb_nextKey batch of
                 None \<Rightarrow> (Inr p', [afterKey], [p'])
               | Some k \<Rightarrow>
                   (case clear_loop manager aborted (Suc n) (Some k) p' of
                      (r, asked, reports) \<Rightarrow> (r, afterKey # asked, p' # reports))))"
  by pat_completeness auto
termination
  by (relation "measure (\<lambda>(manager, aborted, n, afterKey, p). card (keys_after afterKey))")
    (auto simp: keys_after_less)

declare clear_loop.simps [simp del]

definition nothing_cleared :: clear_progress where
  "nothing_cleared = \<lparr>cp_reclaimedBytes = Fin 0, cp_removedObjects = Fin 0, cp_skippedObjects = Fin 0\<rparr>"

definition clearManagedContentCache :: "(nat \<Rightarrow> jsstr option \<Rightarrow> nat + clear_batch) \<Rightarrow> (nat \<Rightarrow> bool) \<Rightarrow>
    (storage_error + clear_progress) \<times> jsstr option list \<times> clear_progress list" where
  "clearManagedContentCache manager aborted = clear_loop manager aborted 0 None nothing_cleared"

section \<open>What a run reports\<close>

text \<open>The sum of the batches a manager has answered the keys with, from call \<open>n\<close> on.\<close>

definition batch_at :: "(nat \<Rightarrow> jsstr option \<Rightarrow> nat + clear_batch) \<Rightarrow> nat \<Rightarrow> jsstr option \<Rightarrow> clear_batch" where
  "batch_at manager n k = projr (manager n k)"

definition sum_counts :: "(clear_batch \<Rightarrow> jsnum) \<Rightarrow> clear_batch list \<Rightarrow> jsnum \<Rightarrow> jsnum" where
  "sum_counts f bs x = fold (\<lambda>b acc. num_add acc (f b)) bs x"

fun answered_batches :: "(nat \<Rightarrow> jsstr option \<Rightarrow> nat + clear_batch) \<Rightarrow> nat \<Rightarrow> jsstr option list \<Rightarrow> clear_batch list" where
  "answered_batches manager n [] = []"
| "answered_batches manager n (k # ks) = batch_at manager n k # answered_batches manager (Suc n) ks"

definition totals :: "clear_batch list \<Rightarrow> clear_progress \<Rightarrow> clear_progress" where
  "totals bs p = \<lparr>cp_reclaimedBytes = sum_counts cp_reclaimedBytes bs (cp_reclaimedBytes p),
     cp_removedObjects = sum_counts cp_removedObjects bs (cp_removedObjects p),
     cp_skippedObjects = sum_counts cp_skippedObjects bs (cp_skippedObjects p)\<rparr>"

lemma totals_simps [simp]: "totals [] p = p"
  "add_batch p b = Some q \<Longrightarrow> totals (b # bs) p = totals bs q"
  by (auto simp: totals_def sum_counts_def add_batch_def Let_def split: if_splits)

definition counted_well :: "(nat \<Rightarrow> jsstr option \<Rightarrow> nat + clear_batch) \<Rightarrow> nat \<Rightarrow> clear_progress \<Rightarrow>
    (storage_error + clear_progress) \<times> jsstr option list \<times> clear_progress list \<Rightarrow> bool" where
  "counted_well manager n p r \<longleftrightarrow>
     (case r of
        (Inr q, asked, reports) \<Rightarrow> q = totals (answered_batches manager n asked) p \<and> reports \<noteq> [] \<and> last reports = q \<and>
          list_all safe_integer (counts_of q) \<and> length reports = length asked
      | (Inl e, asked, reports) \<Rightarrow> length reports \<le> length asked)"

lemma clear_loop_counts: "counted_well manager n p (clear_loop manager aborted n a p)"
proof (induction manager aborted n a p rule: clear_loop.induct)
  case (1 manager aborted n a p)
  show ?case
  proof (cases "aborted n \<or> (\<exists>e. manager n a = Inl e)")
    case True
    then show ?thesis by (auto simp: clear_loop.simps [of manager aborted n a p] counted_well_def)
  next
    case False
    then obtain batch where b: "\<not> aborted n" "manager n a = Inr batch" by (cases "manager n a") auto
    show ?thesis
    proof (cases "validateBatch batch a \<and> add_batch p batch \<noteq> None")
      case False
      then show ?thesis using b by (auto simp: clear_loop.simps [of manager aborted n a p] counted_well_def)
    next
      case True
      then obtain q where q: "validateBatch batch a" "add_batch p batch = Some q" by auto
      then have s: "list_all safe_integer (counts_of q)" by (auto simp: add_batch_def Let_def split: if_splits)
      show ?thesis
      proof (cases "cb_nextKey batch")
        case None
        then show ?thesis using b q s
          by (simp add: clear_loop.simps [of manager aborted n a p] counted_well_def batch_at_def)
      next
        case (Some k)
        obtain r asked reports where c: "clear_loop manager aborted (Suc n) (Some k) q = (r, asked, reports)"
          using prod_cases3 by blast
        have "counted_well manager (Suc n) q (r, asked, reports)" using "1.IH" [OF b _ q(2) Some] q(1) c by simp
        then show ?thesis using b q Some c
          by (cases r) (auto simp: clear_loop.simps [of manager aborted n a p] counted_well_def batch_at_def)
      qed
    qed
  qed
qed

definition later :: "jsstr option \<Rightarrow> jsstr option \<Rightarrow> bool" where
  "later a b \<longleftrightarrow> (\<exists>k. b = Some k \<and> cache_key k \<and> (case a of None \<Rightarrow> True | Some j \<Rightarrow> j < k))"

lemma later_trans: "later a b \<Longrightarrow> later b c \<Longrightarrow> later a c"
  by (auto simp: later_def split: option.splits)

lemma clear_loop_keys:
  "sorted_wrt later (fst (snd (clear_loop manager aborted n a p))) \<and>
   list_all (\<lambda>k. k = a \<or> later a k) (fst (snd (clear_loop manager aborted n a p)))"
proof (induction manager aborted n a p rule: clear_loop.induct)
  case (1 manager aborted n a p)
  show ?case
  proof (cases "\<exists>batch q k. \<not> aborted n \<and> manager n a = Inr batch \<and> validateBatch batch a \<and> add_batch p batch = Some q \<and>
      cb_nextKey batch = Some k")
    case False
    then show ?thesis
      by (auto simp: clear_loop.simps [of manager aborted n a p] split: sum.split option.split)
  next
    case True
    then obtain batch q k where b: "\<not> aborted n" "manager n a = Inr batch" "validateBatch batch a"
      "add_batch p batch = Some q" "cb_nextKey batch = Some k" by blast
    obtain r asked reports where c: "clear_loop manager aborted (Suc n) (Some k) q = (r, asked, reports)"
      using prod_cases3 by blast
    have l: "later a (Some k)" using b(3,5) by (auto simp: validateBatch_def later_def)
    have i: "sorted_wrt later asked" "list_all (\<lambda>x. x = Some k \<or> later (Some k) x) asked"
      using "1.IH" [OF b(1,2) _ b(4,5)] b(3) c by auto
    then have "list_all (later a) asked" using l later_trans by (auto simp: list_all_iff)
    then show ?thesis using b c i(1)
      by (auto simp: clear_loop.simps [of manager aborted n a p] list_all_iff)
  qed
qed

text \<open>
  Clearing the cache always ends, whatever the manager answers: the keys it asks from are digests that grow
  strictly. When it succeeds, the result is the exact sum of the answered batches, in the range of safe
  integers, and it is the last progress that was shown.
\<close>

theorem cache_clear_sums:
  "counted_well manager 0 nothing_cleared (clearManagedContentCache manager aborted) \<and>
   sorted_wrt later (fst (snd (clearManagedContentCache manager aborted)))"
  unfolding clearManagedContentCache_def using clear_loop_counts clear_loop_keys by blast

end
