(* ===== verification/Paging.thy ===== *)
theory Paging
  imports Prelude
begin

text \<open>
  Pages of long lists: \<open>web/features/immersive/list-jump.ts\<close> (the arithmetic of page and letter jumps), the two
  functions that merge a page into the loaded items (\<open>merge\<close> of \<open>use-entry-window.ts\<close>, \<open>mergePage\<close> of
  \<open>web/lib/use-infinite-resource.ts\<close>), and the slices of a list a server returns.
\<close>

section \<open>Jumps\<close>

datatype direction = Previous | Next

record letter_start =
  ls_letter :: jsstr
  ls_offset :: nat
  ls_count :: nat

record jump_target =
  jt_index :: nat
  jt_loadMore :: bool

definition pageTarget :: "nat \<Rightarrow> nat \<Rightarrow> direction \<Rightarrow> nat \<Rightarrow> bool \<Rightarrow> jump_target" where
  "pageTarget selected pageSize direction loaded hasMore =
     (let last = loaded - 1 in
      case direction of
        Previous \<Rightarrow> \<lparr>jt_index = selected - pageSize, jt_loadMore = False\<rparr>
      | Next \<Rightarrow> \<lparr>jt_index = min last (selected + pageSize), jt_loadMore = (hasMore \<and> last \<le> selected + pageSize)\<rparr>)"

text \<open>\<open>findLastIndex\<close>, \<open>None\<close> for \<open>-1\<close>.\<close>

primrec find_last_index :: "('a \<Rightarrow> bool) \<Rightarrow> 'a list \<Rightarrow> nat option" where
  "find_last_index P [] = None"
| "find_last_index P (x # xs) =
     (case find_last_index P xs of Some i \<Rightarrow> Some (Suc i) | None \<Rightarrow> if P x then Some 0 else None)"

definition letterAt :: "letter_start list \<Rightarrow> nat \<Rightarrow> jsstr" where
  "letterAt letters position =
     (case find_last_index (\<lambda>l. ls_offset l \<le> position) letters of Some i \<Rightarrow> ls_letter (letters ! i) | None \<Rightarrow> [])"

definition letterTarget :: "letter_start list \<Rightarrow> nat \<Rightarrow> direction \<Rightarrow> nat option" where
  "letterTarget letters position direction =
     (case direction of
        Next \<Rightarrow> map_option ls_offset (find (\<lambda>l. position < ls_offset l) letters)
      | Previous \<Rightarrow>
          (case find_last_index (\<lambda>l. ls_offset l \<le> position) letters of
             None \<Rightarrow> None
           | Some i \<Rightarrow>
               if ls_offset (letters ! i) < position then Some (ls_offset (letters ! i))
               else if 0 < i then Some (ls_offset (letters ! (i - 1))) else None))"

section \<open>Pages\<close>

record 'a page =
  pg_items :: "'a list"
  pg_offset :: nat
  pg_limit :: nat
  pg_total :: nat

definition merge :: "('a \<Rightarrow> jsstr) \<Rightarrow> 'a list \<Rightarrow> 'a list \<Rightarrow> 'a list" where
  "merge key first second = amap_vals (amap_from key id (first @ second))"

definition mergePage :: "('a \<Rightarrow> jsstr) \<Rightarrow> 'a page option \<Rightarrow> 'a page \<Rightarrow> 'a page" where
  "mergePage key previous page =
     page\<lparr>pg_items := merge key (case previous of None \<Rightarrow> [] | Some p \<Rightarrow> pg_items p) (pg_items page)\<rparr>"

text \<open>The page a server with the list \<open>L\<close> answers with, and the pages that are slices of it.\<close>

definition served :: "'a list \<Rightarrow> nat \<Rightarrow> nat \<Rightarrow> 'a page" where
  "served L offset limit =
     \<lparr>pg_items = take limit (drop offset L), pg_offset = offset, pg_limit = limit, pg_total = length L\<rparr>"

definition is_slice :: "'a list \<Rightarrow> 'a page \<Rightarrow> bool" where
  "is_slice L p \<longleftrightarrow> pg_total p = length L \<and> pg_items p = take (length (pg_items p)) (drop (pg_offset p) L)"

section \<open>Lemmas\<close>

lemma merge_distinct: "distinct (map key (xs @ ys)) \<Longrightarrow> merge key xs ys = xs @ ys"
  using put_all_new [of "[]" key "xs @ ys" id]
  by (simp add: merge_def amap_from_def amap_vals_def amap_keys_def comp_def)

lemma merge_slices:
  assumes "distinct (map key L)" "off + n = off'"
  shows "merge key (take n (drop off L)) (take m (drop off' L)) = take (n + m) (drop off L)"
proof -
  have e: "take n (drop off L) @ take m (drop off' L) = take (n + m) (drop off L)"
    using assms(2) by (simp add: take_add [of n m] add.commute [of off n])
  have "distinct (map key (take (n + m) (drop off L)))"
    using assms(1) by (metis distinct_drop distinct_take drop_map take_map)
  then show ?thesis using merge_distinct [of key "take n (drop off L)" "take m (drop off' L)"] e by simp
qed

lemma served_slice: "is_slice L (served L offset limit)"
  by (cases "limit \<le> length L - offset") (auto simp: served_def is_slice_def min_def)

lemma served_simps [simp]:
  "pg_items (served L offset limit) = take limit (drop offset L)" "pg_offset (served L offset limit) = offset"
  "pg_total (served L offset limit) = length L"
  by (simp_all add: served_def)

lemma slice_end: "is_slice L p \<Longrightarrow> length (pg_items p) \<le> length L - pg_offset p"
  unfolding is_slice_def by (metis length_drop length_take min.cobounded1)

lemma slice_nth: "is_slice L p \<Longrightarrow> i < length (pg_items p) \<Longrightarrow> pg_items p ! i = L ! (pg_offset p + i)"
proof -
  assume a: "is_slice L p" "i < length (pg_items p)"
  then have "pg_items p ! i = take (length (pg_items p)) (drop (pg_offset p) L) ! i" by (simp add: is_slice_def)
  then show ?thesis using a slice_end [OF a(1)] by (simp add: nth_drop)
qed

lemma find_last_index_None: "find_last_index P xs = None \<longleftrightarrow> (\<forall>x \<in> set xs. \<not> P x)"
  by (induction xs) (auto split: option.splits)

lemma find_last_index_Some:
  "find_last_index P xs = Some i \<Longrightarrow> i < length xs \<and> P (xs ! i) \<and> (\<forall>j < length xs. i < j \<longrightarrow> \<not> P (xs ! j))"
proof (induction xs arbitrary: i)
  case (Cons x xs)
  show ?case
  proof (cases "find_last_index P xs")
    case None
    then have "\<forall>y \<in> set xs. \<not> P y" using find_last_index_None by metis
    then show ?thesis using Cons.prems None by (auto simp: less_Suc_eq_0_disj split: if_splits)
  next
    case (Some k)
    then show ?thesis using Cons by (auto simp: less_Suc_eq_0_disj)
  qed
qed simp

end
