(* ===== verification/Infinite_List.thy ===== *)
theory Infinite_List
  imports Paging
begin

text \<open>
  The list that grows page by page, \<open>web/lib/use-infinite-resource.ts\<close>: the reads of one effect with their
  \<open>readPages\<close> loop, cut at the \<open>await\<close> of each page. A read that has been replaced publishes nothing, so only
  the current one is kept.
\<close>

definition LIST_PAGE :: nat where "LIST_PAGE = 24"

text \<open>The variables of a running \<open>readPages\<close>.\<close>

record 'a reading =
  rd_data :: "'a page option"
  rd_offset :: nat
  rd_target :: nat
  rd_refresh :: bool

record 'a infinite =
  inf_data :: "'a page option"
  inf_error :: jsstr
  inf_loading :: bool
  inf_loadingMore :: bool
  inf_moreError :: jsstr
  inf_hasMore :: bool
  inf_nextOffset :: nat
  inf_request :: "'a reading option"
  inf_retryRefresh :: bool

definition infinite_initial :: "'a infinite" where
  "infinite_initial = \<lparr>inf_data = None, inf_error = [], inf_loading = True, inf_loadingMore = False,
     inf_moreError = [], inf_hasMore = False, inf_nextOffset = 0, inf_request = None, inf_retryRefresh = False\<rparr>"

definition infinite_read :: "nat \<Rightarrow> bool \<Rightarrow> 'a infinite \<Rightarrow> 'a infinite" where
  "infinite_read initialCount refresh s =
     (if \<not> refresh \<and> (inf_request s \<noteq> None \<or> \<not> inf_hasMore s) then s
      else s\<lparr>inf_request := Some
          \<lparr>rd_data = (if refresh then None else inf_data s), rd_offset = (if refresh then 0 else inf_nextOffset s),
           rd_target = (if refresh then max LIST_PAGE (max initialCount (inf_nextOffset s)) else inf_nextOffset s + LIST_PAGE),
           rd_refresh = refresh\<rparr>,
        inf_retryRefresh := refresh, inf_error := [], inf_moreError := [],
        inf_loadingMore := (inf_data s \<noteq> None), inf_loading := (inf_data s = None)\<rparr>)"

definition infinite_start :: "nat \<Rightarrow> 'a infinite" where
  "infinite_start initialCount = infinite_read initialCount True infinite_initial"

definition infinite_more :: "nat \<Rightarrow> 'a infinite \<Rightarrow> 'a infinite" where
  "infinite_more initialCount s = infinite_read initialCount (if inf_moreError s \<noteq> [] then inf_retryRefresh s else False) s"

definition infinite_reload :: "nat \<Rightarrow> 'a infinite \<Rightarrow> 'a infinite" where
  "infinite_reload initialCount s = infinite_read initialCount True s"

text \<open>One page for the current read: the next round of the loop, or its end.\<close>

definition infinite_page :: "('a \<Rightarrow> jsstr) \<Rightarrow> 'a page \<Rightarrow> 'a infinite \<Rightarrow> 'a infinite" where
  "infinite_page key page s =
     (case inf_request s of
        None \<Rightarrow> s
      | Some r \<Rightarrow>
          let data = mergePage key (rd_data r) page;
              offset = pg_offset page + length (pg_items page);
              hasMore = (pg_items page \<noteq> [] \<and> offset < pg_total page) in
          if rd_refresh r \<and> hasMore \<and> offset < rd_target r
          then s\<lparr>inf_request := Some (r\<lparr>rd_data := Some data, rd_offset := offset\<rparr>)\<rparr>
          else s\<lparr>inf_request := None, inf_nextOffset := offset, inf_data := Some data, inf_loading := False,
                 inf_loadingMore := False, inf_hasMore := hasMore\<rparr>)"

definition infinite_failed :: "jsstr \<Rightarrow> 'a infinite \<Rightarrow> 'a infinite" where
  "infinite_failed message s =
     (case inf_request s of
        None \<Rightarrow> s
      | Some r \<Rightarrow>
          (if inf_data s \<noteq> None then s\<lparr>inf_request := None, inf_loadingMore := False, inf_moreError := message\<rparr>
           else s\<lparr>inf_request := None, inf_loading := False, inf_error := message\<rparr>))"

datatype list_event = WantsMore | WantsReload | PageArrives | PageFails jsstr

text \<open>The events against a server whose list \<open>L\<close> does not change.\<close>

definition infinite_step :: "('a \<Rightarrow> jsstr) \<Rightarrow> 'a list \<Rightarrow> nat \<Rightarrow> list_event \<Rightarrow> 'a infinite \<Rightarrow> 'a infinite" where
  "infinite_step key L initialCount e s =
     (case e of
        WantsMore \<Rightarrow> infinite_more initialCount s
      | WantsReload \<Rightarrow> infinite_reload initialCount s
      | PageArrives \<Rightarrow>
          (case inf_request s of
             None \<Rightarrow> s
           | Some r \<Rightarrow> infinite_page key (served L (rd_offset r) LIST_PAGE) s)
      | PageFails m \<Rightarrow> infinite_failed m s)"

definition infinite_run :: "('a \<Rightarrow> jsstr) \<Rightarrow> 'a list \<Rightarrow> nat \<Rightarrow> list_event list \<Rightarrow> 'a infinite \<Rightarrow> 'a infinite" where
  "infinite_run key L initialCount es s = fold (infinite_step key L initialCount) es s"

section \<open>The list is a beginning that never shrinks\<close>

definition beginning :: "'a list \<Rightarrow> 'a page option \<Rightarrow> nat \<Rightarrow> bool" where
  "beginning L data n \<longleftrightarrow> n \<le> length L \<and> (case data of None \<Rightarrow> n = 0 | Some d \<Rightarrow> pg_items d = take n L)"

definition list_inv :: "'a list \<Rightarrow> 'a infinite \<Rightarrow> bool" where
  "list_inv L s \<longleftrightarrow>
     beginning L (inf_data s) (inf_nextOffset s) \<and> (inf_hasMore s \<longleftrightarrow> inf_data s \<noteq> None \<and> inf_nextOffset s < length L) \<and>
     (case inf_request s of
        None \<Rightarrow> \<not> inf_loading s \<and> \<not> inf_loadingMore s
      | Some r \<Rightarrow> beginning L (rd_data r) (rd_offset r) \<and> inf_nextOffset s \<le> rd_target r \<and>
          (rd_refresh r \<or> rd_offset r = inf_nextOffset s) \<and>
          inf_loading s = (inf_data s = None) \<and> inf_loadingMore s = (inf_data s \<noteq> None))"

lemma beginning_None [simp]: "beginning L None n \<longleftrightarrow> n = 0"
  by (auto simp: beginning_def)

lemma list_inv_read:
  assumes "list_inv L s"
  shows "list_inv L (infinite_read c refresh s) \<and> inf_nextOffset (infinite_read c refresh s) = inf_nextOffset s"
proof (cases "\<not> refresh \<and> (inf_request s \<noteq> None \<or> \<not> inf_hasMore s)")
  case True
  then show ?thesis using assms by (simp add: infinite_read_def)
next
  case False
  then have e: "infinite_read c refresh s = s\<lparr>inf_request := Some
      \<lparr>rd_data = (if refresh then None else inf_data s), rd_offset = (if refresh then 0 else inf_nextOffset s),
       rd_target = (if refresh then max LIST_PAGE (max c (inf_nextOffset s)) else inf_nextOffset s + LIST_PAGE),
       rd_refresh = refresh\<rparr>,
    inf_retryRefresh := refresh, inf_error := [], inf_moreError := [],
    inf_loadingMore := (inf_data s \<noteq> None), inf_loading := (inf_data s = None)\<rparr>"
    by (simp only: infinite_read_def if_not_P [OF False] if_False)
  have "beginning L (inf_data s) (inf_nextOffset s)" 
    "inf_hasMore s \<longleftrightarrow> inf_data s \<noteq> None \<and> inf_nextOffset s < length L"
    using assms by (simp_all add: list_inv_def)
  then show ?thesis unfolding e by (cases refresh) (simp_all add: list_inv_def)
qed

lemma beginning_merge:
  assumes "distinct (map key L)" "beginning L data n"
  shows "pg_items (mergePage key data (served L n LIST_PAGE)) = take (n + LIST_PAGE) L"
proof (cases data)
  case None
  then show ?thesis using assms merge_slices [of key L 0 0 0 LIST_PAGE] by (simp add: mergePage_def beginning_def)
next
  case (Some d)
  then show ?thesis using assms merge_slices [of key L 0 n n LIST_PAGE] by (simp add: mergePage_def beginning_def)
qed

lemma list_inv_page:
  assumes "list_inv L s" "distinct (map key L)" "inf_request s = Some r"
  shows "list_inv L (infinite_page key (served L (rd_offset r) LIST_PAGE) s) \<and>
    inf_nextOffset s \<le> inf_nextOffset (infinite_page key (served L (rd_offset r) LIST_PAGE) s)"
proof -
  let ?page = "served L (rd_offset r) LIST_PAGE"
  let ?offset = "rd_offset r + length (pg_items ?page)"
  have r: "beginning L (rd_data r) (rd_offset r)" "inf_nextOffset s \<le> rd_target r"
    "rd_refresh r \<or> rd_offset r = inf_nextOffset s" "inf_nextOffset s \<le> length L"
    using assms(1,3) by (auto simp: list_inv_def beginning_def)
  have b: "beginning L (Some (mergePage key (rd_data r) ?page)) ?offset"
    using beginning_merge [OF assms(2) r(1)] r(1)
    by (cases "rd_offset r + LIST_PAGE \<le> length L") (auto simp: beginning_def min_def)
  have m: "pg_items ?page = [] \<longleftrightarrow> rd_offset r = length L"
    using r(1) by (auto simp: beginning_def LIST_PAGE_def)
  show ?thesis
  proof (cases "rd_refresh r \<and> pg_items ?page \<noteq> [] \<and> ?offset < length L \<and> ?offset < rd_target r")
    case True
    then show ?thesis using assms(1,3) b by (simp add: infinite_page_def Let_def list_inv_def)
  next
    case False
    then have e: "infinite_page key ?page s = s\<lparr>inf_request := None, inf_nextOffset := ?offset,
        inf_data := Some (mergePage key (rd_data r) ?page), inf_loading := False, inf_loadingMore := False,
        inf_hasMore := (pg_items ?page \<noteq> [] \<and> ?offset < length L)\<rparr>"
      using assms(3) by (auto simp: infinite_page_def Let_def)
    have "pg_items ?page = [] \<Longrightarrow> ?offset = length L" using m by simp
    moreover have "inf_nextOffset s \<le> ?offset"
      using False r m by (auto simp: min_def)
    moreover have "0 < LIST_PAGE" by (simp add: LIST_PAGE_def)
    ultimately show ?thesis using b unfolding e by (auto simp: list_inv_def)
  qed
qed

lemma list_inv_step:
  assumes "list_inv L s" "distinct (map key L)"
  shows "list_inv L (infinite_step key L c e s) \<and> inf_nextOffset s \<le> inf_nextOffset (infinite_step key L c e s)"
proof (cases e)
  case PageArrives
  then show ?thesis using list_inv_page [OF assms] assms(1) by (auto simp: infinite_step_def split: option.split)
next
  case (PageFails m)
  then show ?thesis using assms(1)
    by (auto simp: infinite_step_def infinite_failed_def list_inv_def split: option.split)
qed (use list_inv_read [OF assms(1)] in \<open>auto simp: infinite_step_def infinite_more_def infinite_reload_def\<close>)

lemma list_inv_start: "list_inv L (infinite_start c)"
  by (simp add: list_inv_def infinite_start_def infinite_read_def infinite_initial_def beginning_def)

lemma list_inv_run:
  assumes "list_inv L s" "distinct (map key L)"
  shows "list_inv L (infinite_run key L c es s) \<and> inf_nextOffset s \<le> inf_nextOffset (infinite_run key L c es s)"
  using assms(1)
proof (induction es arbitrary: s)
  case (Cons e es)
  then show ?case using list_inv_step [OF Cons.prems assms(2), of c e] by (fastforce simp: infinite_run_def)
qed (simp add: infinite_run_def)

text \<open>
  Over a list without repeated keys that does not change, after any sequence of requests, answers, failures and
  refreshes: the loaded items are a beginning of the list, \<open>hasMore\<close> says whether it is all of it, the loading
  flags are off when no read runs, and what is loaded never gets shorter.
\<close>

theorem infinite_list_grows:
  assumes "distinct (map key L)" and "s = infinite_run key L c es (infinite_start c)"
    and "t = infinite_run key L c es' s"
  shows "list_inv L s \<and> inf_nextOffset s \<le> inf_nextOffset t"
  using list_inv_run [OF list_inv_start assms(1)] list_inv_run [OF _ assms(1), of s c es'] assms(2,3) by blast

theorem infinite_list_grows_witness:
  "inf_nextOffset (infinite_run (\<lambda>n. [of_nat n]) [0..<30] 24 [PageArrives] (infinite_start 24)) \<le>
   inf_nextOffset (infinite_run (\<lambda>n. [of_nat n]) [0..<30] 24 [PageArrives, WantsMore, PageArrives, WantsReload] (infinite_start 24))"
  using infinite_list_grows [of "\<lambda>n. [of_nat n]" "[0..<30]", OF _ refl refl, of 24 "[PageArrives]" "[WantsMore, PageArrives, WantsReload]"]
  by (simp add: infinite_run_def upt_conv_Cons)

end
