(* ===== verification/Entry_Window.thy ===== *)
theory Entry_Window
  imports Paging
begin

text \<open>
  The window of a long list that can start anywhere, \<open>web/features/immersive/use-entry-window.ts\<close>, and the
  navigation over it, \<open>use-list-navigation.ts\<close>. Every asynchronous callback is cut at its \<open>await\<close>s: a window
  keeps the one request that is not aborted with what its continuation will do, and the aborted ones whose
  continuations have not run yet.
\<close>

section \<open>State\<close>

record entry =
  en_game :: jsstr
  en_save :: "jsstr option"
  en_lastPlayed :: "nat option"

definition PAGE_SIZE :: nat where "PAGE_SIZE = 24"

text \<open>
  What a request is for: the first and the second read of \<open>open\<close>, \<open>loadMore\<close> with the data it started from,
  \<open>loadBefore\<close> with the offset it reads, and the reads of \<open>reload\<close> with the wanted count and the page so far.
\<close>

datatype purpose = OpenFirst nat | OpenEnd | More "entry page" | Before nat | Refresh nat "entry page option"

record entry_window =
  wi_data :: "entry page option"
  wi_error :: jsstr
  wi_loading :: bool
  wi_loadingMore :: bool
  wi_moreError :: jsstr
  wi_loadingBefore :: bool
  wi_request :: "(nat \<times> nat \<times> purpose) option"
  wi_aborted :: "purpose list"
  wi_start :: nat

definition window_initial :: "nat \<Rightarrow> entry_window" where
  "window_initial start = \<lparr>wi_data = None, wi_error = [], wi_loading = True, wi_loadingMore = False,
     wi_moreError = [], wi_loadingBefore = False, wi_request = None, wi_aborted = [], wi_start = start\<rparr>"

text \<open>The text an error shows when it is not an \<open>Error\<close>.\<close>

definition load_failed :: jsstr where
  "load_failed = [0x52A0, 0x8F7D, 0x5931, 0x8D25, 0xFF0C, 0x8BF7, 0x91CD, 0x8BD5, 0x3002]"

section \<open>Requests\<close>

definition abort_request :: "entry_window \<Rightarrow> entry_window" where
  "abort_request s = s\<lparr>wi_request := None,
     wi_aborted := wi_aborted s @ (case wi_request s of Some (_, _, p) \<Rightarrow> [p] | None \<Rightarrow> [])\<rparr>"

definition read_page :: "nat \<Rightarrow> nat \<Rightarrow> purpose \<Rightarrow> entry_window \<Rightarrow> entry_window" where
  "read_page offset limit p s = (abort_request s)\<lparr>wi_request := Some (offset, limit, p)\<rparr>"

definition page_end :: "entry page \<Rightarrow> nat" where
  "page_end p = pg_offset p + length (pg_items p)"

definition open_window :: "nat \<Rightarrow> entry_window \<Rightarrow> entry_window" where
  "open_window offset s =
     read_page offset PAGE_SIZE (OpenFirst offset)
       (s\<lparr>wi_loading := (wi_data s = None), wi_loadingMore := (wi_data s \<noteq> None), wi_error := [], wi_moreError := []\<rparr>)"

text \<open>The effect that starts a new list.\<close>

definition restart :: "nat \<Rightarrow> entry_window \<Rightarrow> entry_window" where
  "restart start s =
     open_window start ((window_initial start)\<lparr>wi_aborted := wi_aborted (abort_request s)\<rparr>)"

definition loadMore :: "entry_window \<Rightarrow> entry_window" where
  "loadMore s =
     (case wi_data s of
        None \<Rightarrow> s
      | Some data \<Rightarrow>
          if wi_request s \<noteq> None \<or> pg_total data \<le> page_end data then s
          else read_page (page_end data) PAGE_SIZE (More data) (s\<lparr>wi_loadingMore := True, wi_moreError := []\<rparr>))"

definition loadBefore :: "entry_window \<Rightarrow> entry_window" where
  "loadBefore s =
     (case wi_data s of
        None \<Rightarrow> s
      | Some data \<Rightarrow>
          if pg_offset data = 0 \<or> wi_request s \<noteq> None then s
          else let start = pg_offset data - PAGE_SIZE in
            read_page start (pg_offset data - start) (Before start) (s\<lparr>wi_loadingBefore := True, wi_moreError := []\<rparr>))"

text \<open>\<open>moveTo\<close>: the index of a loaded target (\<open>Inl\<close>), or the window opened for it (\<open>Inr\<close>).\<close>

definition moveTo :: "nat \<Rightarrow> entry_window \<Rightarrow> nat + entry_window" where
  "moveTo offset s =
     (case wi_data s of
        None \<Rightarrow> Inr (open_window offset s)
      | Some data \<Rightarrow>
          let followed = (offset + PAGE_SIZE div 2 \<le> page_end data \<or> pg_total data \<le> page_end data) in
          if pg_offset data \<le> offset \<and> offset < page_end data \<and> followed then Inl (offset - pg_offset data)
          else Inr (open_window offset s))"

text \<open>What \<open>moveTo\<close> resolves with once its \<open>open\<close> has succeeded.\<close>

definition moved :: "nat \<Rightarrow> entry_window \<Rightarrow> nat" where
  "moved offset s = offset - (case wi_data s of Some d \<Rightarrow> pg_offset d | None \<Rightarrow> offset)"

definition reload :: "entry_window \<Rightarrow> entry_window" where
  "reload s =
     (let offset = (case wi_data s of Some d \<Rightarrow> pg_offset d | None \<Rightarrow> wi_start s);
          wanted = max PAGE_SIZE (case wi_data s of Some d \<Rightarrow> length (pg_items d) | None \<Rightarrow> 0) in
      read_page offset PAGE_SIZE (Refresh wanted None)
        (s\<lparr>wi_loading := (wi_data s = None), wi_loadingMore := (wi_data s \<noteq> None), wi_error := [], wi_moreError := []\<rparr>))"

section \<open>Answers\<close>

definition publish_page :: "entry page \<Rightarrow> entry_window \<Rightarrow> entry_window" where
  "publish_page page s = s\<lparr>wi_data := Some page, wi_loading := False, wi_loadingMore := False\<rparr>"

definition publish_failure :: "jsstr \<Rightarrow> entry_window \<Rightarrow> entry_window" where
  "publish_failure message s =
     (if wi_data s \<noteq> None then s\<lparr>wi_loadingMore := False, wi_moreError := message\<rparr>
      else s\<lparr>wi_loading := False, wi_error := message\<rparr>)"

text \<open>The loop of \<open>reload\<close> at its head, with the page read so far.\<close>

definition reload_loop :: "nat \<Rightarrow> entry page \<Rightarrow> entry_window \<Rightarrow> entry_window" where
  "reload_loop wanted page s =
     (if length (pg_items page) < wanted \<and> page_end page < pg_total page
      then read_page (page_end page) PAGE_SIZE (Refresh wanted (Some page)) s
      else publish_page page s)"

definition continue_with :: "purpose \<Rightarrow> entry page \<Rightarrow> entry_window \<Rightarrow> entry_window" where
  "continue_with p page s =
     (case p of
        OpenFirst offset \<Rightarrow>
          if pg_items page = [] \<and> 0 < offset \<and> 0 < pg_total page
          then read_page (pg_total page - PAGE_SIZE) PAGE_SIZE OpenEnd s
          else publish_page page s
      | OpenEnd \<Rightarrow> publish_page page s
      | More data \<Rightarrow>
          let latest = (case wi_data s of Some d \<Rightarrow> d | None \<Rightarrow> data) in
          s\<lparr>wi_data := Some (latest\<lparr>pg_total := pg_total page, pg_items := merge en_game (pg_items latest) (pg_items page)\<rparr>),
            wi_loadingMore := False\<rparr>
      | Before start \<Rightarrow>
          let latest = (case wi_data s of Some d \<Rightarrow> d | None \<Rightarrow> page) in
          s\<lparr>wi_data := Some (latest\<lparr>pg_offset := start, pg_total := pg_total page,
               pg_items := merge en_game (pg_items page) (pg_items latest)\<rparr>), wi_loadingBefore := False\<rparr>
      | Refresh wanted None \<Rightarrow> reload_loop wanted page s
      | Refresh wanted (Some before) \<Rightarrow>
          if pg_items page = [] then publish_page before s
          else reload_loop wanted
            (page\<lparr>pg_offset := pg_offset before, pg_items := merge en_game (pg_items before) (pg_items page)\<rparr>) s)"

definition answered :: "entry page \<Rightarrow> entry_window \<Rightarrow> entry_window" where
  "answered page s =
     (case wi_request s of
        None \<Rightarrow> s
      | Some (_, _, p) \<Rightarrow> continue_with p page (s\<lparr>wi_request := None\<rparr>))"

text \<open>A failed read; \<open>message\<close> is that of the \<open>Error\<close>, if it is one.\<close>

definition read_failed :: "jsstr option \<Rightarrow> entry_window \<Rightarrow> entry_window" where
  "read_failed thrown s =
     (let message = (case thrown of Some m \<Rightarrow> m | None \<Rightarrow> load_failed); s' = s\<lparr>wi_request := None\<rparr> in
      case wi_request s of
        None \<Rightarrow> s
      | Some (_, _, More data) \<Rightarrow> s'\<lparr>wi_loadingMore := False, wi_moreError := message\<rparr>
      | Some (_, _, Before start) \<Rightarrow> s'\<lparr>wi_loadingBefore := False, wi_moreError := message\<rparr>
      | Some _ \<Rightarrow> publish_failure message s')"

text \<open>The continuation of the \<open>i\<close>th aborted request: only \<open>loadBefore\<close> publishes something.\<close>

definition abort_settles :: "nat \<Rightarrow> entry_window \<Rightarrow> entry_window" where
  "abort_settles i s =
     (if i < length (wi_aborted s) then
        let s' = s\<lparr>wi_aborted := take i (wi_aborted s) @ drop (Suc i) (wi_aborted s)\<rparr> in
        (case wi_aborted s ! i of
           Before start \<Rightarrow> s'\<lparr>wi_loadingBefore := False, wi_moreError := []\<rparr>
         | _ \<Rightarrow> s')
      else s)"

section \<open>Runs\<close>

datatype window_event = Restarted nat | LoadsMore | LoadsBefore | MovesTo nat | Reloads
  | Answers "entry page" | Fails "jsstr option" | AbortSettles nat

definition window_step :: "window_event \<Rightarrow> entry_window \<Rightarrow> entry_window" where
  "window_step e s =
     (case e of
        Restarted start \<Rightarrow> restart start s
      | LoadsMore \<Rightarrow> loadMore s
      | LoadsBefore \<Rightarrow> loadBefore s
      | MovesTo offset \<Rightarrow> (case moveTo offset s of Inl _ \<Rightarrow> s | Inr s' \<Rightarrow> s')
      | Reloads \<Rightarrow> reload s
      | Answers page \<Rightarrow> answered page s
      | Fails thrown \<Rightarrow> read_failed thrown s
      | AbortSettles i \<Rightarrow> abort_settles i s)"

text \<open>The server's list does not change: an answer is the page of \<open>L\<close> that was asked for.\<close>

definition honest :: "entry list \<Rightarrow> entry_window \<Rightarrow> window_event \<Rightarrow> bool" where
  "honest L s e \<longleftrightarrow>
     (case (e, wi_request s) of (Answers page, Some (offset, limit, _)) \<Rightarrow> page = served L offset limit | _ \<Rightarrow> True)"

inductive window_reachable :: "entry list \<Rightarrow> entry_window \<Rightarrow> bool" for L where
  window_starts: "window_reachable L (restart start (window_initial start))"
| window_goes_on: "window_reachable L s \<Longrightarrow> honest L s e \<Longrightarrow> window_reachable L (window_step e s)"

section \<open>Navigation\<close>

text \<open>
  What a key press does, in order: calls of the window, and the position that is selected and shown. \<open>MoveTo\<close>
  selects and shows its target only when \<open>moveTo\<close> does not resolve with \<open>null\<close>.
\<close>

datatype nav_action = DoLoadBefore | DoLoadMore | SetPosition int | ShowHint nat | DoMoveTo nat

definition base_of :: "entry_window \<Rightarrow> nat" where
  "base_of s = (case wi_data s of Some d \<Rightarrow> pg_offset d | None \<Rightarrow> 0)"

definition loaded_of :: "entry_window \<Rightarrow> nat" where
  "loaded_of s = (case wi_data s of Some d \<Rightarrow> length (pg_items d) | None \<Rightarrow> 0)"

definition hasMore_of :: "entry_window \<Rightarrow> bool" where
  "hasMore_of s = (case wi_data s of Some d \<Rightarrow> page_end d < pg_total d | None \<Rightarrow> False)"

datatype step_direction = Up | Down

definition nav_step :: "entry_window \<Rightarrow> nat \<Rightarrow> step_direction \<Rightarrow> nav_action list" where
  "nav_step s selected d =
     (let position = base_of s + selected in
      case d of
        Up \<Rightarrow>
          if position = 0 then []
          else (if selected = 0 then [DoLoadBefore] else []) @ [SetPosition (int position - 1)]
      | Down \<Rightarrow>
          let last = int (base_of s + loaded_of s) - 1 in
          SetPosition (min (int position + 1) (last + (if hasMore_of s then 1 else 0))) #
          (if last \<le> int position + 1 \<and> hasMore_of s \<and> wi_moreError s = [] then [DoLoadMore] else []))"

definition nav_page :: "entry_window \<Rightarrow> nat \<Rightarrow> nat \<Rightarrow> direction \<Rightarrow> nav_action list" where
  "nav_page s rows selected d =
     (case d of
        Previous \<Rightarrow>
          let target = base_of s + selected - rows in
          (if target < base_of s then [DoLoadBefore] else []) @ [SetPosition (int target), ShowHint target]
      | Next \<Rightarrow>
          let target = pageTarget selected rows Next (loaded_of s) (hasMore_of s) in
          SetPosition (int (base_of s + jt_index target)) #
          (if jt_loadMore target \<and> wi_moreError s = [] then [DoLoadMore] else []) @
          [ShowHint (base_of s + jt_index target)])"

definition nav_jump :: "entry_window \<Rightarrow> letter_start list \<Rightarrow> nat \<Rightarrow> nat \<Rightarrow> bool \<Rightarrow> direction \<Rightarrow> nav_action list" where
  "nav_jump s letters rows selected by_page d =
     (if loaded_of s = 0 then []
      else if by_page then nav_page s rows selected d
      else case letterTarget letters (base_of s + selected) d of Some t \<Rightarrow> [DoMoveTo t] | None \<Rightarrow> [])"

end
