(* ===== verification/Window_Properties.thy ===== *)
theory Window_Properties
  imports Entry_Window
begin

text \<open>
  What the windowed list guarantees over a list that does not change: the loaded items are always a contiguous
  part of it whatever requests are aborted or fail, no loading flag stays on, a jump lands on its target, and
  the letter jumps go to the nearest group.
\<close>

lemma slice_take: "pg_items p = take n (drop (pg_offset p) L) \<Longrightarrow> pg_total p = length L \<Longrightarrow> is_slice L p"
  by (cases "n \<le> length L - pg_offset p") (auto simp: is_slice_def min_def)

lemma slice_more:
  assumes "distinct (map key L)" "is_slice L d" "pg_offset p = pg_offset d" "pg_total p = length L"
    "pg_items p = merge key (pg_items d) (take m (drop (pg_offset d + length (pg_items d)) L))"
  shows "is_slice L p"
proof (rule slice_take)
  have "pg_items d = take (length (pg_items d)) (drop (pg_offset d) L)" using assms(2) by (simp add: is_slice_def)
  then show "pg_items p = take (length (pg_items d) + m) (drop (pg_offset p) L)"
    using merge_slices [OF assms(1) refl, of "length (pg_items d)" "pg_offset d" m] assms(3,5) by simp
qed (use assms in simp)

lemma slice_before:
  assumes "distinct (map key L)" "is_slice L d" "pg_offset p + m = pg_offset d" "pg_total p = length L"
    "pg_items p = merge key (take m (drop (pg_offset p) L)) (pg_items d)"
  shows "is_slice L p"
proof (rule slice_take)
  have "pg_items d = take (length (pg_items d)) (drop (pg_offset d) L)" using assms(2) by (simp add: is_slice_def)
  then show "pg_items p = take (m + length (pg_items d)) (drop (pg_offset p) L)"
    using merge_slices [OF assms(1,3), of "length (pg_items d)"] assms(5) by simp
qed (use assms in simp)

section \<open>The window is contiguous\<close>

definition request_fits :: "entry list \<Rightarrow> entry page option \<Rightarrow> (nat \<times> nat \<times> purpose) option \<Rightarrow> bool" where
  "request_fits L data request \<longleftrightarrow>
     (case request of
        Some (off, cnt, More d) \<Rightarrow> data = Some d \<and> off = page_end d
      | Some (off, cnt, Before start) \<Rightarrow> (\<exists>d. data = Some d \<and> off = start \<and> off + cnt = pg_offset d)
      | Some (off, cnt, Refresh wanted (Some b)) \<Rightarrow> is_slice L b \<and> off = page_end b
      | _ \<Rightarrow> True)"

definition contiguous :: "entry list \<Rightarrow> entry_window \<Rightarrow> bool" where
  "contiguous L s \<longleftrightarrow> (case wi_data s of Some d \<Rightarrow> is_slice L d | None \<Rightarrow> True) \<and>
     request_fits L (wi_data s) (wi_request s)"

lemma request_fits_simps [simp]:
  "request_fits L data None"
  "request_fits L data (Some (off, cnt, OpenFirst o'))" "request_fits L data (Some (off, cnt, OpenEnd))"
  "request_fits L data (Some (off, cnt, Refresh w None))"
  "request_fits L data (Some (off, cnt, More d)) \<longleftrightarrow> data = Some d \<and> off = page_end d"
  "request_fits L data (Some (off, cnt, Before start)) \<longleftrightarrow> (\<exists>d. data = Some d \<and> off = start \<and> off + cnt = pg_offset d)"
  "request_fits L data (Some (off, cnt, Refresh w (Some b))) \<longleftrightarrow> is_slice L b \<and> off = page_end b"
  by (simp_all add: request_fits_def)

lemma read_page_simps [simp]:
  "wi_data (read_page off cnt p s) = wi_data s" "wi_request (read_page off cnt p s) = Some (off, cnt, p)"
  "wi_loading (read_page off cnt p s) = wi_loading s" "wi_loadingMore (read_page off cnt p s) = wi_loadingMore s"
  "wi_loadingBefore (read_page off cnt p s) = wi_loadingBefore s"
  "wi_aborted (read_page off cnt p s) = wi_aborted s @ (case wi_request s of Some (_, _, p) \<Rightarrow> [p] | None \<Rightarrow> [])"
  by (simp_all add: read_page_def abort_request_def)

lemma contiguous_cong: "wi_data t = wi_data s \<Longrightarrow> wi_request t = wi_request s \<Longrightarrow> contiguous L t = contiguous L s"
  by (simp add: contiguous_def)

lemma contiguous_open: "contiguous L s \<Longrightarrow> contiguous L (open_window off s)"
  by (simp add: contiguous_def open_window_def)

lemma contiguous_restart: "contiguous L (restart start s)"
  by (simp add: contiguous_def open_window_def restart_def window_initial_def)

lemma contiguous_loadMore:
  assumes "contiguous L s"
  shows "contiguous L (loadMore s)"
proof (cases "loadMore s = s")
  case False
  then obtain d where d: "wi_data s = Some d"
    "loadMore s = read_page (page_end d) PAGE_SIZE (More d) (s\<lparr>wi_loadingMore := True, wi_moreError := []\<rparr>)"
    by (auto simp: loadMore_def split: option.splits if_splits)
  then show ?thesis using assms unfolding d(2) by (simp add: contiguous_def)
qed (use assms in simp)

lemma contiguous_loadBefore:
  assumes "contiguous L s"
  shows "contiguous L (loadBefore s)"
proof (cases "loadBefore s = s")
  case False
  then obtain d where d: "wi_data s = Some d"
    "loadBefore s = read_page (pg_offset d - PAGE_SIZE) (pg_offset d - (pg_offset d - PAGE_SIZE))
       (Before (pg_offset d - PAGE_SIZE)) (s\<lparr>wi_loadingBefore := True, wi_moreError := []\<rparr>)"
    by (auto simp: loadBefore_def Let_def split: option.splits if_splits)
  then show ?thesis using assms unfolding d(2) by (simp add: contiguous_def)
qed (use assms in simp)

lemma contiguous_reload: "contiguous L s \<Longrightarrow> contiguous L (reload s)"
  by (simp add: contiguous_def reload_def Let_def)

lemma contiguous_publish: "is_slice L p \<Longrightarrow> wi_request s = None \<Longrightarrow> contiguous L (publish_page p s)"
  by (simp add: contiguous_def publish_page_def)

lemma contiguous_reload_loop:
  "contiguous L s \<Longrightarrow> is_slice L p \<Longrightarrow> wi_request s = None \<Longrightarrow> contiguous L (reload_loop wanted p s)"
  by (simp add: reload_loop_def contiguous_publish) (simp add: contiguous_def)

lemma contiguous_failed: "contiguous L s \<Longrightarrow> contiguous L (read_failed m s)"
proof (cases "wi_request s")
  case (Some r)
  obtain off cnt p where r: "r = (off, cnt, p)" by (cases r)
  assume "contiguous L s"
  then show ?thesis using Some r
    by (cases p) (auto simp: contiguous_def read_failed_def Let_def publish_failure_def)
qed (simp add: read_failed_def)

lemma abort_settles_simps [simp]:
  "wi_data (abort_settles i s) = wi_data s" "wi_request (abort_settles i s) = wi_request s"
  "wi_loading (abort_settles i s) = wi_loading s" "wi_loadingMore (abort_settles i s) = wi_loadingMore s"
  by (cases "wi_aborted s ! i"; simp add: abort_settles_def Let_def)+

lemma contiguous_abort_settles: "contiguous L s \<Longrightarrow> contiguous L (abort_settles i s)"
  using contiguous_cong [of "abort_settles i s" s L] by simp

lemma contiguous_answered:
  assumes c: "contiguous L s" and r: "wi_request s = Some (off, cnt, p)" and d: "distinct (map en_game L)"
  shows "contiguous L (answered (served L off cnt) s)"
proof -
  let ?s = "s\<lparr>wi_request := None\<rparr>"
  have c': "contiguous L ?s" using c by (simp add: contiguous_def)
  show ?thesis
  proof (cases p)
    case (OpenFirst o')
    have "contiguous L (read_page (length L - PAGE_SIZE) PAGE_SIZE OpenEnd ?s)"
      using c' by (simp add: contiguous_def)
    then show ?thesis using contiguous_publish [OF served_slice, of ?s L off cnt] OpenFirst r
      by (simp add: answered_def continue_with_def)
  next
    case OpenEnd
    then show ?thesis using contiguous_publish [OF served_slice] r by (simp add: answered_def continue_with_def)
  next
    case (More data)
    then have "wi_data s = Some data" "off = page_end data" "is_slice L data"
      using c r by (auto simp: contiguous_def)
    then show ?thesis using More r slice_more [OF d, of data _ cnt]
      by (simp add: answered_def continue_with_def Let_def contiguous_def page_end_def)
  next
    case (Before start)
    then obtain data where b: "wi_data s = Some data" "off = start" "off + cnt = pg_offset data" "is_slice L data"
      using c r by (auto simp: contiguous_def)
    then show ?thesis using Before r slice_before [OF d, of data _ cnt]
      by (simp add: answered_def continue_with_def Let_def contiguous_def)
  next
    case (Refresh wanted before)
    show ?thesis
    proof (cases before)
      case None
      then show ?thesis using Refresh r contiguous_reload_loop [OF c' served_slice]
        by (simp add: answered_def continue_with_def)
    next
      case (Some b)
      then have b: "is_slice L b" "off = page_end b" using c r Refresh by (auto simp: contiguous_def)
      then have "is_slice L ((served L off cnt)\<lparr>pg_offset := pg_offset b,
          pg_items := merge en_game (pg_items b) (pg_items (served L off cnt))\<rparr>)"
        using slice_more [OF d b(1), of _ cnt] by (simp add: page_end_def)
      then show ?thesis using Some Refresh r contiguous_reload_loop [OF c'] contiguous_publish [OF b(1)]
        by (simp add: answered_def continue_with_def)
    qed
  qed
qed

section \<open>No loading flag stays on\<close>

definition page_flags :: "entry page option \<Rightarrow> (nat \<times> nat \<times> purpose) option \<Rightarrow> bool \<Rightarrow> bool \<Rightarrow> bool" where
  "page_flags data request loading adding \<longleftrightarrow>
     (case request of
        None \<Rightarrow> \<not> loading \<and> \<not> adding
      | Some (off, cnt, More d) \<Rightarrow> \<not> loading
      | Some (off, cnt, Before start) \<Rightarrow> \<not> loading \<and> \<not> adding
      | Some _ \<Rightarrow> loading = (data = None) \<and> adding = (data \<noteq> None))"

lemma page_flags_simps [simp]:
  "page_flags data None loading adding \<longleftrightarrow> \<not> loading \<and> \<not> adding"
  "page_flags data (Some (off, cnt, More d)) loading adding \<longleftrightarrow> \<not> loading"
  "page_flags data (Some (off, cnt, Before start)) loading adding \<longleftrightarrow> \<not> loading \<and> \<not> adding"
  "page_flags data (Some (off, cnt, OpenFirst o')) loading adding \<longleftrightarrow> loading = (data = None) \<and> adding = (data \<noteq> None)"
  "page_flags data (Some (off, cnt, OpenEnd)) loading adding \<longleftrightarrow> loading = (data = None) \<and> adding = (data \<noteq> None)"
  "page_flags data (Some (off, cnt, Refresh w b)) loading adding \<longleftrightarrow> loading = (data = None) \<and> adding = (data \<noteq> None)"
  by (simp_all add: page_flags_def)

fun is_before :: "purpose \<Rightarrow> bool" where
  "is_before (Before start) = True"
| "is_before p = False"

definition before_flag :: "bool \<Rightarrow> purpose list \<Rightarrow> (nat \<times> nat \<times> purpose) option \<Rightarrow> bool" where
  "before_flag loading aborted request \<longleftrightarrow>
     \<not> loading \<or> list_ex is_before aborted \<or> (case request of Some (_, _, p) \<Rightarrow> is_before p | None \<Rightarrow> False)"

lemma before_flag_read:
  "before_flag b ab request \<Longrightarrow>
     before_flag b (ab @ (case request of Some (_, _, p) \<Rightarrow> [p] | None \<Rightarrow> [])) (Some (off, cnt, p))"
  by (auto simp: before_flag_def split: option.splits)

lemma before_flag_simps [simp]: "before_flag False ab r" "before_flag b ab (Some (off, cnt, Before start))"
  by (simp_all add: before_flag_def)

definition flags_ok :: "entry_window \<Rightarrow> bool" where
  "flags_ok s \<longleftrightarrow> page_flags (wi_data s) (wi_request s) (wi_loading s) (wi_loadingMore s) \<and>
     before_flag (wi_loadingBefore s) (wi_aborted s) (wi_request s)"

lemma flags_open: "flags_ok s \<Longrightarrow> flags_ok (open_window off s)"
  by (simp add: flags_ok_def open_window_def before_flag_read)

lemma flags_reload: "flags_ok s \<Longrightarrow> flags_ok (reload s)"
  by (simp add: flags_ok_def reload_def Let_def before_flag_read)

lemma flags_restart: "flags_ok (restart start s)"
  by (simp add: flags_ok_def restart_def open_window_def window_initial_def)

lemma flags_loadMore:
  assumes "flags_ok s" shows "flags_ok (loadMore s)"
proof (cases "loadMore s = s")
  case False
  then obtain d where d: "wi_data s = Some d" "wi_request s = None"
    "loadMore s = read_page (page_end d) PAGE_SIZE (More d) (s\<lparr>wi_loadingMore := True, wi_moreError := []\<rparr>)"
    by (cases "wi_request s") (auto simp: loadMore_def split: option.splits if_splits)
  then show ?thesis using assms unfolding d(3) by (auto simp: flags_ok_def before_flag_def)
qed (use assms in simp)

lemma flags_loadBefore:
  assumes "flags_ok s" shows "flags_ok (loadBefore s)"
proof (cases "loadBefore s = s")
  case False
  then obtain d where d: "wi_data s = Some d" "wi_request s = None"
    "loadBefore s = read_page (pg_offset d - PAGE_SIZE) (pg_offset d - (pg_offset d - PAGE_SIZE))
       (Before (pg_offset d - PAGE_SIZE)) (s\<lparr>wi_loadingBefore := True, wi_moreError := []\<rparr>)"
    by (cases "wi_request s") (auto simp: loadBefore_def Let_def split: option.splits if_splits)
  then show ?thesis using assms unfolding d(3) by (auto simp: flags_ok_def before_flag_def)
qed (use assms in simp)

lemma before_flag_done:
  "before_flag b ab (Some (off, cnt, p)) \<Longrightarrow> \<not> is_before p \<Longrightarrow> before_flag b ab r"
  by (auto simp: before_flag_def)

lemma flags_reload_loop:
  assumes "flags_ok s" "wi_request s = Some (off, cnt, Refresh w b)"
  shows "flags_ok (reload_loop wanted page (s\<lparr>wi_request := None\<rparr>))" "flags_ok (publish_page page (s\<lparr>wi_request := None\<rparr>))"
  using assms by (auto simp: flags_ok_def reload_loop_def publish_page_def intro: before_flag_done)

lemma flags_answered: "flags_ok s \<Longrightarrow> flags_ok (answered page s)"
proof (cases "wi_request s")
  case (Some r)
  obtain off cnt p where r: "r = (off, cnt, p)" by (cases r)
  assume f: "flags_ok s"
  show ?thesis
  proof (cases p)
    case (Refresh w b)
    then show ?thesis using flags_reload_loop [OF f Some [unfolded r Refresh]] Some r
      by (auto simp: answered_def continue_with_def split: option.split)
  qed (use f Some r in \<open>auto simp: flags_ok_def answered_def continue_with_def publish_page_def Let_def
      intro: before_flag_done\<close>)
qed (simp add: answered_def)

lemma flags_failed: "flags_ok s \<Longrightarrow> flags_ok (read_failed m s)"
proof (cases "wi_request s")
  case (Some r)
  obtain off cnt p where r: "r = (off, cnt, p)" by (cases r)
  assume f: "flags_ok s"
  then show ?thesis using Some r
    by (cases p) (auto simp: flags_ok_def read_failed_def Let_def publish_failure_def intro: before_flag_done)
qed (simp add: read_failed_def)

lemma list_ex_remove: "\<not> P (xs ! i) \<Longrightarrow> i < length xs \<Longrightarrow> list_ex P (take i xs @ drop (Suc i) xs) = list_ex P xs"
  by (subst (2) id_take_nth_drop [of i xs]) auto

lemma flags_abort_settles: "flags_ok s \<Longrightarrow> flags_ok (abort_settles i s)"
proof (cases "i < length (wi_aborted s) \<and> \<not> is_before (wi_aborted s ! i)")
  case True
  then have "before_flag b (take i (wi_aborted s) @ drop (Suc i) (wi_aborted s)) r = before_flag b (wi_aborted s) r" for b r
    unfolding before_flag_def by (simp add: list_ex_remove del: list_ex_append)
  moreover assume "flags_ok s"
  ultimately show ?thesis using True
    by (cases "wi_aborted s ! i") (simp_all add: flags_ok_def abort_settles_def Let_def)
next
  case False
  moreover assume "flags_ok s"
  ultimately show ?thesis
    by (cases "wi_aborted s ! i") (auto simp: flags_ok_def abort_settles_def Let_def)
qed

section \<open>Every run\<close>

lemma window_invs:
  assumes "window_reachable L s" "distinct (map en_game L)"
  shows "contiguous L s \<and> flags_ok s"
  using assms(1)
proof (induction rule: window_reachable.induct)
  case (window_starts start)
  show ?case by (simp add: contiguous_restart flags_restart)
next
  case (window_goes_on s e)
  then have c: "contiguous L s" and f: "flags_ok s" by auto
  show ?case
  proof (cases e)
    case (MovesTo off)
    then show ?thesis using c f contiguous_open flags_open
      by (auto simp: window_step_def moveTo_def Let_def split: option.split)
  next
    case (Answers page)
    have "contiguous L (answered page s)"
    proof (cases "wi_request s")
      case (Some r)
      obtain off cnt p where "r = (off, cnt, p)" by (cases r)
      then show ?thesis using contiguous_answered [OF c _ assms(2)] Some Answers window_goes_on(2)
        by (auto simp: honest_def)
    qed (use c in \<open>simp add: answered_def\<close>)
    then show ?thesis using Answers f flags_answered by (simp add: window_step_def)
  qed (use c f in \<open>simp_all add: window_step_def contiguous_restart flags_restart contiguous_loadMore flags_loadMore
      contiguous_loadBefore flags_loadBefore contiguous_reload flags_reload contiguous_failed flags_failed
      contiguous_abort_settles flags_abort_settles\<close>)
qed

text \<open>
  C10. Over a list without repeated games that does not change, whatever is loaded, reloaded, aborted or fails: the
  loaded items are a contiguous part of the list starting at the window's offset, and once no request is
  outstanding no loading flag is on.
\<close>

theorem window_is_contiguous:
  assumes "window_reachable L s" and "distinct (map en_game L)"
  shows "(case wi_data s of Some d \<Rightarrow> is_slice L d | None \<Rightarrow> True) \<and>
    (wi_request s \<noteq> None \<or> wi_aborted s \<noteq> [] \<or> \<not> (wi_loading s \<or> wi_loadingMore s \<or> wi_loadingBefore s))"
  using window_invs [OF assms]
  by (cases "wi_request s"; cases "wi_aborted s") (simp_all add: contiguous_def flags_ok_def before_flag_def)

definition sample_list :: "entry list" where
  "sample_list = map (\<lambda>n. \<lparr>en_game = [of_nat n], en_save = None, en_lastPlayed = None\<rparr>) [0..<30]"

lemma sample_distinct: "distinct (map en_game sample_list)"
  by (simp add: sample_list_def upt_conv_Cons)

lemma sample_opened: "window_reachable sample_list (window_step (Answers (served sample_list 3 24)) (restart 3 (window_initial 3)))"
  by (rule window_reachable.intros(2) [OF window_reachable.intros(1)])
    (simp add: honest_def restart_def open_window_def PAGE_SIZE_def)

theorem window_is_contiguous_witness:
  "is_slice sample_list (served sample_list 3 24)"
  using window_is_contiguous [OF sample_opened sample_distinct]
  by (simp add: window_step_def answered_def restart_def open_window_def continue_with_def publish_page_def sample_list_def)

section \<open>Jumps\<close>

definition shows_at :: "entry list \<Rightarrow> entry_window \<Rightarrow> nat \<Rightarrow> nat \<Rightarrow> bool" where
  "shows_at L s i offset \<longleftrightarrow>
     (case wi_data s of Some d \<Rightarrow> i < length (pg_items d) \<and> pg_items d ! i = L ! offset | None \<Rightarrow> False)"

lemma shows_slice: "wi_data s = Some d \<Longrightarrow> is_slice L d \<Longrightarrow> pg_offset d \<le> offset \<Longrightarrow> offset < page_end d \<Longrightarrow>
    shows_at L s (offset - pg_offset d) offset"
  by (simp add: shows_at_def page_end_def slice_nth)

lemma open_answer:
  assumes "offset < length L"
  shows "wi_data (answered (served L offset PAGE_SIZE) (open_window offset s)) = Some (served L offset PAGE_SIZE)"
  using assms by (auto simp: answered_def open_window_def continue_with_def publish_page_def PAGE_SIZE_def)

text \<open>
  A jump lands on its target: \<open>moveTo\<close> answers with an index whose item is the game at that place of the whole
  list, either at once or when the window opened for it has been read.
\<close>

theorem move_lands:
  assumes "window_reachable L s" and "distinct (map en_game L)" and "offset < length L"
  shows "(case moveTo offset s of
      Inl i \<Rightarrow> shows_at L s i offset
    | Inr t \<Rightarrow> (let u = answered (served L offset PAGE_SIZE) t in shows_at L u (moved offset u) offset))"
proof (cases "moveTo offset s")
  case (Inl i)
  then obtain d where d: "wi_data s = Some d" "pg_offset d \<le> offset" "offset < page_end d" "i = offset - pg_offset d"
    by (auto simp: moveTo_def Let_def split: option.splits if_splits)
  then show ?thesis using Inl window_invs [OF assms(1,2)] shows_slice [OF d(1) _ d(2,3)]
    by (simp add: contiguous_def)
next
  case (Inr t)
  then have t: "t = open_window offset s"
    by (auto simp: moveTo_def Let_def split: option.splits if_splits)
  have "shows_at L (answered (served L offset PAGE_SIZE) t) 0 offset"
    using open_answer [OF assms(3), of s] assms(3) unfolding t by (simp add: shows_at_def PAGE_SIZE_def)
  then show ?thesis using Inr open_answer [OF assms(3), of s] unfolding t by (simp add: Let_def moved_def)
qed

theorem move_lands_witness:
  "(case moveTo 20 (window_step (Answers (served sample_list 3 24)) (restart 3 (window_initial 3))) of
      Inl i \<Rightarrow> False | Inr t \<Rightarrow> moved 20 (answered (served sample_list 20 PAGE_SIZE) t) = 0 \<and>
        shows_at sample_list (answered (served sample_list 20 PAGE_SIZE) t) 0 20)"
proof -
  let ?s = "window_step (Answers (served sample_list 3 24)) (restart 3 (window_initial 3))"
  have l: "20 < length sample_list" by (simp add: sample_list_def)
  have d: "wi_data ?s = Some (served sample_list 3 24)"
    by (simp add: window_step_def answered_def restart_def open_window_def continue_with_def publish_page_def sample_list_def)
  have m: "moveTo 20 ?s = Inr (open_window 20 ?s)"
    unfolding moveTo_def d by (simp add: page_end_def sample_list_def PAGE_SIZE_def)
  show ?thesis using move_lands [OF sample_opened sample_distinct l] open_answer [OF l, of ?s]
    unfolding m by (simp add: Let_def moved_def)
qed

section \<open>Letters\<close>

definition nearest_after :: "nat set \<Rightarrow> nat \<Rightarrow> nat option" where
  "nearest_after offsets n = (if \<exists>x \<in> offsets. n < x then Some (Min {x \<in> offsets. n < x}) else None)"

definition nearest_before :: "nat set \<Rightarrow> nat \<Rightarrow> nat option" where
  "nearest_before offsets n = (if \<exists>x \<in> offsets. x < n then Some (Max {x \<in> offsets. x < n}) else None)"

lemma find_nearest: "sorted_wrt (<) (map f xs) \<Longrightarrow> map_option f (find (\<lambda>l. n < f l) xs) = nearest_after (f ` set xs) (n :: nat)"
proof (induction xs)
  case (Cons x xs)
  show ?case
  proof (cases "n < f x")
    case True
    have "Min {y \<in> f ` set (x # xs). n < y} = f x"
      by (rule Min_eqI) (use Cons.prems True in auto)
    then show ?thesis using True by (simp add: nearest_after_def)
  next
    case False
    then have "{y \<in> f ` set (x # xs). n < y} = {y \<in> f ` set xs. n < y}" by auto
    then show ?thesis using Cons False by (auto simp: nearest_after_def)
  qed
qed (simp add: nearest_after_def)

lemma nearest_beforeI:
  assumes "finite offsets" "x \<in> offsets" "x < n" "\<And>y. y \<in> offsets \<Longrightarrow> y < n \<Longrightarrow> y \<le> x"
  shows "nearest_before offsets n = Some x"
proof -
  have "Max {y \<in> offsets. y < n} = x" by (rule Max_eqI) (use assms in auto)
  then show ?thesis using assms(2,3) by (auto simp: nearest_before_def)
qed

lemma nearest_before_nth:
  assumes "sorted_wrt (<) (map ls_offset letters)" "i < length letters" "ls_offset (letters ! i) < n"
    and "\<And>j. j < length letters \<Longrightarrow> ls_offset (letters ! j) < n \<Longrightarrow> j \<le> i"
  shows "nearest_before (ls_offset ` set letters) n = Some (ls_offset (letters ! i))"
proof (rule nearest_beforeI)
  fix y assume "y \<in> ls_offset ` set letters" "y < n"
  then obtain j where j: "j < length letters" "y = ls_offset (letters ! j)" by (auto simp: in_set_conv_nth)
  then have "j \<le> i" using assms(4) \<open>y < n\<close> by simp
  then show "y \<le> ls_offset (letters ! i)"
    using assms(1,2) j by (cases "j = i") (auto simp: sorted_wrt_iff_nth_less le_less)
qed (use assms in auto)

text \<open>C35. The letter keys jump to the nearest start of a letter group in their direction, if there is one.\<close>

theorem letter_jump_nearest:
  assumes "sorted_wrt (<) (map ls_offset letters)"
  shows "letterTarget letters position Next = nearest_after (ls_offset ` set letters) position \<and>
    letterTarget letters position Previous = nearest_before (ls_offset ` set letters) position"
proof
  let ?O = "ls_offset ` set letters"
  show "letterTarget letters position Next = nearest_after ?O position"
    using find_nearest [OF assms] by (simp add: letterTarget_def)
  show "letterTarget letters position Previous = nearest_before ?O position"
  proof (cases "find_last_index (\<lambda>l. ls_offset l \<le> position) letters")
    case None
    then have "\<not> (\<exists>x \<in> ?O. x < position)" by (auto simp: find_last_index_None)
    then show ?thesis using None by (simp add: letterTarget_def nearest_before_def)
  next
    case (Some i)
    then have i: "i < length letters" "ls_offset (letters ! i) \<le> position"
      and later: "\<And>j. j < length letters \<Longrightarrow> i < j \<Longrightarrow> position < ls_offset (letters ! j)"
      using find_last_index_Some [OF Some] by (auto simp: not_le)
    have below: "j \<le> i" if "j < length letters" "ls_offset (letters ! j) < position" for j
      using later [OF that(1)] that(2) by linarith
    consider "ls_offset (letters ! i) < position" | "ls_offset (letters ! i) = position" "i = 0"
      | k where "ls_offset (letters ! i) = position" "i = Suc k" using i(2) by (cases i) (auto simp: le_less)
    then show ?thesis
    proof cases
      case 1
      then show ?thesis using Some nearest_before_nth [OF assms i(1) 1 below] by (simp add: letterTarget_def)
    next
      case 2
      then have "\<not> (\<exists>x \<in> ?O. x < position)" using below by (metis image_iff in_set_conv_nth le_zero_eq less_irrefl)
      then show ?thesis using Some 2 by (simp add: letterTarget_def nearest_before_def)
    next
      case (3 k)
      have "ls_offset (letters ! k) < position" using assms i(1) 3 by (auto simp: sorted_wrt_iff_nth_less)
      moreover have "j \<le> k" if "j < length letters" "ls_offset (letters ! j) < position" for j
        using below [OF that] that 3 by (metis le_SucE less_irrefl)
      ultimately show ?thesis using Some 3 i(1) nearest_before_nth [OF assms, of k position] by (simp add: letterTarget_def)
    qed
  qed
qed

theorem letter_jump_nearest_witness:
  "letterTarget [\<lparr>ls_letter = js ''a'', ls_offset = 0, ls_count = 4\<rparr>, \<lparr>ls_letter = js ''b'', ls_offset = 4, ls_count = 2\<rparr>] 4 Previous
     = nearest_before {0, 4} 4"
  using letter_jump_nearest [of "[\<lparr>ls_letter = js ''a'', ls_offset = 0, ls_count = 4\<rparr>, \<lparr>ls_letter = js ''b'', ls_offset = 4, ls_count = 2\<rparr>]" 4]
  by simp

section \<open>The selection stays inside\<close>

primrec inside :: "nat \<Rightarrow> nav_action \<Rightarrow> bool" where
  "inside n DoLoadBefore = True"
| "inside n DoLoadMore = True"
| "inside n (SetPosition p) = (0 \<le> p \<and> p < int n)"
| "inside n (ShowHint p) = (p < n)"
| "inside n (DoMoveTo p) = (p < n)"

lemma letterTarget_member: "letterTarget letters p d = Some t \<Longrightarrow> t \<in> ls_offset ` set letters"
  by (cases d) (auto simp: letterTarget_def find_Some_iff split: option.splits if_splits
      dest!: find_last_index_Some)

text \<open>
  From a selected game, no key leaves the list: every position that is selected, shown or jumped to is that of
  a game, also where the loaded part ends and for letter groups the server has reported.
\<close>

theorem navigation_stays_inside:
  assumes "wi_data s = Some d" and "is_slice L d" and "selected < length (pg_items d)"
    and "list_all (\<lambda>l. ls_offset l < length L) letters"
  shows "list_all (inside (length L)) (nav_step s selected way) \<and> list_all (inside (length L)) (nav_jump s letters rows selected by_page dir)"
proof
  have e: "page_end d \<le> length L" "pg_total d = length L"
    using slice_end [OF assms(2)] assms(2,3) by (auto simp: page_end_def is_slice_def)
  note defs = base_of_def loaded_of_def hasMore_of_def
  show "list_all (inside (length L)) (nav_step s selected way)"
    using e assms(1,3) by (cases way) (auto simp: nav_step_def defs Let_def page_end_def)
  have "list_all (inside (length L)) (nav_page s rows selected dir)"
    using e assms(1,3) by (cases dir) (auto simp: nav_page_def defs Let_def page_end_def pageTarget_def)
  moreover have "t < length L" if "letterTarget letters p dir = Some t" for p t
    using letterTarget_member [OF that] assms(4) by (auto simp: list_all_iff)
  ultimately show "list_all (inside (length L)) (nav_jump s letters rows selected by_page dir)"
    by (auto simp: nav_jump_def split: option.split)
qed

theorem navigation_stays_inside_witness:
  "list_all (inside 30) (nav_step ((window_initial 0)\<lparr>wi_data := Some (served sample_list 3 24)\<rparr>) 23 Down)"
proof -
  have l: "length sample_list = 30" by (simp add: sample_list_def)
  show ?thesis
    using navigation_stays_inside [of "(window_initial 0)\<lparr>wi_data := Some (served sample_list 3 24)\<rparr>" _
        sample_list 23 "[]" Down, OF _ served_slice]
    by (simp add: l)
qed

end
