(* ===== verification/Review_Approval.thy ===== *)
theory Review_Approval
  imports Prelude
begin

text \<open>
  The bulk approval of games under review: \<open>web/features/games/review-approval.ts\<close>. \<open>reviewSnapshot\<close> collects
  every matching game page by page; \<open>approveReviewSnapshot\<close> checks them in batches of a hundred and publishes
  the ones that are ready with three workers. The two server calls are parameters, a step relation says in
  which order the answers may arrive.
\<close>

section \<open>Data\<close>

record review_candidate =
  rc_id :: jsstr
  rc_title :: jsstr
  rc_version :: nat

record review_readiness =
  rr_id :: jsstr
  rr_version :: nat
  rr_error :: "jsstr option"
  rr_biosSatisfied :: "bool option"
  rr_missingBios :: "jsstr list"
  rr_missingRomMembers :: "jsstr list"
  rr_crcWarnings :: "jsstr list"

text \<open>A thrown value: an \<open>ApiError\<close> with its status, another \<open>Error\<close>, or anything else.\<close>

datatype message = Said jsstr | CannotCheck | GameChanged | ApprovalFailed

datatype failure = ApiError nat message | PlainError message | NotAnError

primrec failure_message :: "failure \<Rightarrow> message" where
  "failure_message (ApiError status m) = m"
| "failure_message (PlainError m) = m"
| "failure_message NotAnError = ApprovalFailed"

primrec not_allowed :: "failure \<Rightarrow> bool" where
  "not_allowed (ApiError status m) = (status = 401 \<or> status = 403)"
| "not_allowed (PlainError m) = False"
| "not_allowed NotAnError = False"

record summary =
  sm_total :: nat
  sm_checked :: nat
  sm_approved :: nat
  sm_missingBios :: nat
  sm_missingFiles :: nat
  sm_crcMismatch :: nat
  sm_failed :: nat
  sm_interrupted :: bool
  sm_failures :: "(review_candidate \<times> message) list"
  sm_missingBiosDetails :: "(review_candidate \<times> jsstr list) list"
  sm_missingFileDetails :: "(review_candidate \<times> jsstr list) list"
  sm_crcDetails :: "(review_candidate \<times> jsstr list) list"

section \<open>reviewSnapshot\<close>

datatype snapshot_error = TooManyGames | LoadFailed nat

type_synonym review_page = "review_candidate list \<times> nat"

text \<open>\<open>Math.min(total, page.total)\<close> with \<open>None\<close> for \<open>Infinity\<close>.\<close>

definition lower :: "nat option \<Rightarrow> nat \<Rightarrow> nat" where
  "lower amount n = (case amount of None \<Rightarrow> n | Some t \<Rightarrow> min t n)"

definition below :: "nat \<Rightarrow> nat option \<Rightarrow> bool" where
  "below offset amount = (case amount of None \<Rightarrow> True | Some t \<Rightarrow> offset < t)"

definition add_games :: "review_candidate list \<Rightarrow> (jsstr, review_candidate) amap \<Rightarrow> (jsstr, review_candidate) amap" where
  "add_games page games = fold (\<lambda>g. amap_put (rc_id g) g) page games"

text \<open>\<open>aborted offset\<close> is the signal's state at the head of the loop.\<close>

function snapshot_loop :: "(nat \<Rightarrow> nat + review_page) \<Rightarrow> (nat \<Rightarrow> bool) \<Rightarrow> nat \<Rightarrow> nat option \<Rightarrow>
    (jsstr, review_candidate) amap \<Rightarrow> snapshot_error + (jsstr, review_candidate) amap" where
  "snapshot_loop load aborted offset amount games =
     (if \<not> (below offset amount \<and> \<not> aborted offset) then Inr games
      else if 100000 < offset then Inl TooManyGames
      else case load offset of
        Inl e \<Rightarrow> Inl (LoadFailed e)
      | Inr (items, n) \<Rightarrow>
          let games' = add_games items games in
          if length items < 100 then Inr games'
          else snapshot_loop load aborted (offset + 100) (Some (lower amount n)) games')"
  by pat_completeness auto
termination by (relation "measure (\<lambda>(load, aborted, offset, amount, games). 100001 - offset)") auto

declare snapshot_loop.simps [simp del]

definition reviewSnapshot :: "(nat \<Rightarrow> nat + review_page) \<Rightarrow> (nat \<Rightarrow> bool) \<Rightarrow> snapshot_error + review_candidate list" where
  "reviewSnapshot load aborted =
     (case snapshot_loop load aborted 0 None [] of Inl e \<Rightarrow> Inl e | Inr games \<Rightarrow> Inr (amap_vals games))"

section \<open>One game\<close>

definition eligible :: "review_candidate \<Rightarrow> review_readiness option \<Rightarrow> failure + bool" where
  "eligible game readiness =
     (case readiness of
        None \<Rightarrow> Inl (PlainError CannotCheck)
      | Some r \<Rightarrow>
          (case (rr_error r, rr_biosSatisfied r) of
             (Some m, _) \<Rightarrow> Inl (PlainError (if m = [] then CannotCheck else Said m))
           | (None, None) \<Rightarrow> Inl (PlainError CannotCheck)
           | (None, Some ok) \<Rightarrow>
               if rr_version r \<noteq> rc_version game then Inl (PlainError GameChanged) else Inr ok))"

definition failed :: "review_candidate \<Rightarrow> failure \<Rightarrow> summary \<Rightarrow> summary" where
  "failed game f s = s\<lparr>sm_failed := Suc (sm_failed s),
     sm_failures := sm_failures s @ [(game, failure_message f)],
     sm_interrupted := sm_interrupted s \<or> not_allowed f\<rparr>"

text \<open>
  The part of a worker's turn up to the approval: \<open>None\<close> when the game is to be approved, otherwise the
  summary with the game counted.
\<close>

definition classify :: "review_candidate \<Rightarrow> review_readiness option \<Rightarrow> summary \<Rightarrow> summary option" where
  "classify game readiness s =
     (case eligible game readiness of
        Inl f \<Rightarrow> Some (failed game f s)
      | Inr mayPublish \<Rightarrow>
          let r = the readiness in
          if rr_missingRomMembers r \<noteq> [] then
            Some (s\<lparr>sm_missingFiles := Suc (sm_missingFiles s),
                    sm_missingFileDetails := sm_missingFileDetails s @ [(game, rr_missingRomMembers r)]\<rparr>)
          else if \<not> mayPublish then
            Some (s\<lparr>sm_missingBios := Suc (sm_missingBios s),
                    sm_missingBiosDetails := sm_missingBiosDetails s @ [(game, rr_missingBios r)]\<rparr>)
          else if rr_crcWarnings r \<noteq> [] then
            Some (s\<lparr>sm_crcMismatch := Suc (sm_crcMismatch s),
                    sm_crcDetails := sm_crcDetails s @ [(game, rr_crcWarnings r)]\<rparr>)
          else None)"

section \<open>The run\<close>

datatype approver = Ready | Approving review_candidate | Finished

datatype approval_phase = Between nat | Running nat | Over

record approval =
  ap_phase :: approval_phase
  ap_batch :: "review_candidate list"
  ap_ready :: "(jsstr, review_readiness) amap"
  ap_next :: nat
  ap_workers :: "approver list"
  ap_aborted :: bool
  ap_summary :: summary
  ap_shown :: "summary list"
  ap_calls :: "review_candidate list"

text \<open>The summary given to \<open>progress\<close>: the details cut to twenty entries.\<close>

definition shown :: "summary \<Rightarrow> summary" where
  "shown s = s\<lparr>sm_failures := take 20 (sm_failures s), sm_missingBiosDetails := take 20 (sm_missingBiosDetails s),
     sm_missingFileDetails := take 20 (sm_missingFileDetails s), sm_crcDetails := take 20 (sm_crcDetails s)\<rparr>"

definition publish :: "approval \<Rightarrow> approval" where
  "publish a = a\<lparr>ap_shown := ap_shown a @ [shown (ap_summary a)]\<rparr>"

definition empty_summary :: "nat \<Rightarrow> summary" where
  "empty_summary n = \<lparr>sm_total = n, sm_checked = 0, sm_approved = 0, sm_missingBios = 0, sm_missingFiles = 0,
     sm_crcMismatch = 0, sm_failed = 0, sm_interrupted = False, sm_failures = [], sm_missingBiosDetails = [],
     sm_missingFileDetails = [], sm_crcDetails = []\<rparr>"

definition approval_start :: "review_candidate list \<Rightarrow> approval" where
  "approval_start games =
     publish \<lparr>ap_phase = Between 0, ap_batch = [], ap_ready = [], ap_next = 0, ap_workers = [], ap_aborted = False,
       ap_summary = empty_summary (length games), ap_shown = [], ap_calls = []\<rparr>"

text \<open>The end of a worker's turn: one more game is checked, and every tenth or the last one is reported.\<close>

definition checked_one :: "approval \<Rightarrow> approval" where
  "checked_one a =
     (let s = ap_summary a; s' = s\<lparr>sm_checked := Suc (sm_checked s)\<rparr>; a' = a\<lparr>ap_summary := s'\<rparr> in
      if sm_checked s' mod 10 = 0 \<or> sm_checked s' = sm_total s' then publish a' else a')"

definition all_failed :: "review_candidate list \<Rightarrow> failure \<Rightarrow> summary \<Rightarrow> summary" where
  "all_failed items f s =
     (let s' = fold (\<lambda>g. failed g f) items s in s'\<lparr>sm_checked := sm_checked s' + length items\<rparr>)"

definition may_go_on :: "approval \<Rightarrow> bool" where
  "may_go_on a \<longleftrightarrow> \<not> ap_aborted a \<and> \<not> sm_interrupted (ap_summary a)"

definition batch_of :: "review_candidate list \<Rightarrow> nat \<Rightarrow> review_candidate list" where
  "batch_of games offset = take 100 (drop offset games)"

text \<open>One turn of worker \<open>w\<close>, up to its end or to the call of \<open>approve\<close>.\<close>

definition take_game :: "nat \<Rightarrow> approval \<Rightarrow> approval" where
  "take_game w a =
     (let game = ap_batch a ! ap_next a; a' = a\<lparr>ap_next := Suc (ap_next a)\<rparr> in
      case classify game (map_of (ap_ready a) (rc_id game)) (ap_summary a) of
        Some s \<Rightarrow> checked_one (a'\<lparr>ap_summary := s\<rparr>)
      | None \<Rightarrow> a'\<lparr>ap_workers := (ap_workers a)[w := Approving game], ap_calls := ap_calls a @ [game]\<rparr>)"

definition approve_answer :: "nat \<Rightarrow> review_candidate \<Rightarrow> failure option \<Rightarrow> approval \<Rightarrow> approval" where
  "approve_answer w game r a =
     (let s = ap_summary a;
          s' = (case r of None \<Rightarrow> s\<lparr>sm_approved := Suc (sm_approved s)\<rparr> | Some f \<Rightarrow> failed game f s) in
      checked_one (a\<lparr>ap_summary := s', ap_workers := (ap_workers a)[w := Ready]\<rparr>))"

inductive approval_step :: "review_candidate list \<Rightarrow> (review_candidate list \<Rightarrow> failure + review_readiness list) \<Rightarrow>
    (review_candidate \<Rightarrow> failure option) \<Rightarrow> approval \<Rightarrow> approval \<Rightarrow> bool"
  for games readiness approve where
  batch_starts: "ap_phase a = Between offset \<Longrightarrow> offset < length games \<Longrightarrow> may_go_on a \<Longrightarrow>
    readiness (batch_of games offset) = Inr rs \<Longrightarrow>
    approval_step games readiness approve a
      (a\<lparr>ap_phase := Running offset, ap_batch := batch_of games offset, ap_ready := amap_from rr_id id rs,
         ap_next := 0, ap_workers := replicate (min 3 (length (batch_of games offset))) Ready\<rparr>)"
| batch_fails: "ap_phase a = Between offset \<Longrightarrow> offset < length games \<Longrightarrow> may_go_on a \<Longrightarrow>
    readiness (batch_of games offset) = Inl f \<Longrightarrow>
    approval_step games readiness approve a
      (publish (a\<lparr>ap_phase := Between (offset + 100), ap_summary := all_failed (batch_of games offset) f (ap_summary a)\<rparr>))"
| run_ends: "ap_phase a = Between offset \<Longrightarrow> \<not> (offset < length games \<and> may_go_on a) \<Longrightarrow>
    approval_step games readiness approve a
      (publish (a\<lparr>ap_phase := Over, ap_summary := (ap_summary a)\<lparr>sm_interrupted := \<not> may_go_on a\<rparr>\<rparr>))"
| takes: "ap_phase a = Running offset \<Longrightarrow> w < length (ap_workers a) \<Longrightarrow> ap_workers a ! w = Ready \<Longrightarrow>
    ap_next a < length (ap_batch a) \<Longrightarrow> may_go_on a \<Longrightarrow> approval_step games readiness approve a (take_game w a)"
| stops: "ap_phase a = Running offset \<Longrightarrow> w < length (ap_workers a) \<Longrightarrow> ap_workers a ! w = Ready \<Longrightarrow>
    \<not> (ap_next a < length (ap_batch a) \<and> may_go_on a) \<Longrightarrow>
    approval_step games readiness approve a (a\<lparr>ap_workers := (ap_workers a)[w := Finished]\<rparr>)"
| answers: "ap_phase a = Running offset \<Longrightarrow> w < length (ap_workers a) \<Longrightarrow> ap_workers a ! w = Approving game \<Longrightarrow>
    approval_step games readiness approve a (approve_answer w game (approve game) a)"
| batch_ends: "ap_phase a = Running offset \<Longrightarrow> list_all (\<lambda>w. w = Finished) (ap_workers a) \<Longrightarrow>
    approval_step games readiness approve a (a\<lparr>ap_phase := Between (offset + 100), ap_batch := [], ap_next := 0, ap_workers := []\<rparr>)"
| aborts: "ap_phase a \<noteq> Over \<Longrightarrow> \<not> ap_aborted a \<Longrightarrow> approval_step games readiness approve a (a\<lparr>ap_aborted := True\<rparr>)"

inductive approval_reachable :: "review_candidate list \<Rightarrow> (review_candidate list \<Rightarrow> failure + review_readiness list) \<Rightarrow>
    (review_candidate \<Rightarrow> failure option) \<Rightarrow> approval \<Rightarrow> bool"
  for games readiness approve where
  start: "approval_reachable games readiness approve (approval_start games)"
| step: "approval_reachable games readiness approve a \<Longrightarrow> approval_step games readiness approve a b \<Longrightarrow>
    approval_reachable games readiness approve b"

end
