(* ===== verification/Review_Properties.thy ===== *)
theory Review_Properties
  imports Review_Approval "HOL-Library.Sublist"
begin

text \<open>
  What the bulk approval guarantees: the snapshot holds every matching game, only games that are ready are
  published and none twice, the counters of the summary account for every game, and a run ends.
\<close>

section \<open>The snapshot\<close>

definition listed :: "review_candidate list \<Rightarrow> nat \<Rightarrow> nat + review_page" where
  "listed games offset = Inr (take 100 (drop offset games), length games)"

lemma snapshot_loop_listed:
  "offset \<le> length games \<Longrightarrow> length games \<le> 100100 \<Longrightarrow> 100 dvd offset \<Longrightarrow>
   amount = None \<and> offset = 0 \<or> amount = Some (length games) \<Longrightarrow>
   snapshot_loop (listed games) (\<lambda>_. False) offset amount (add_games (take offset games) [])
     = Inr (add_games games [])"
proof (induction "length games - offset" arbitrary: offset amount rule: less_induct)
  case less
  show ?case
  proof (cases "below offset amount")
    case False
    then have "offset = length games" using less.prems by (auto simp: below_def)
    then show ?thesis using False by (simp add: snapshot_loop.simps)
  next
    case below: True
    have small: "\<not> 100000 < offset"
      using below less.prems by (auto simp: below_def elim!: dvdE)
    have taken: "add_games (take 100 (drop offset games)) (add_games (take offset games) []) =
        add_games (take (offset + 100) games) []"
      by (simp add: add_games_def take_add)
    show ?thesis
    proof (cases "length games < offset + 100")
      case True
      then show ?thesis using below small taken
        by (auto simp: snapshot_loop.simps [of _ _ offset] listed_def Let_def)
    next
      case False
      have "snapshot_loop (listed games) (\<lambda>_. False) (offset + 100) (Some (length games))
          (add_games (take (offset + 100) games) []) = Inr (add_games games [])"
        using less.hyps [of "offset + 100" "Some (length games)"] less.prems False by simp
      moreover have "lower amount (length games) = length games"
        using less.prems by (auto simp: lower_def)
      ultimately show ?thesis using below small taken False
        by (simp add: snapshot_loop.simps [of _ _ offset] listed_def Let_def)
    qed
  qed
qed

lemma add_games_vals: "distinct (map rc_id games) \<Longrightarrow> amap_vals (add_games games []) = games"
  by (simp add: add_games_def amap_vals_def put_all_new amap_keys_def comp_def)

text \<open>
  On a list that does not change, of at most 100100 games with different ids, the snapshot is the whole list in
  its order.
\<close>

theorem snapshot_is_complete:
  assumes "distinct (map rc_id games)" and "length games \<le> 100100"
  shows "reviewSnapshot (listed games) (\<lambda>_. False) = Inr games"
  using snapshot_loop_listed [of 0 games None] add_games_vals [OF assms(1)] assms(2)
  by (simp add: reviewSnapshot_def add_games_def)

section \<open>The counters\<close>

definition counted :: "summary \<Rightarrow> nat" where
  "counted s = sm_approved s + sm_missingBios s + sm_missingFiles s + sm_crcMismatch s + sm_failed s"

definition detailed :: "summary \<Rightarrow> bool" where
  "detailed s \<longleftrightarrow> length (sm_failures s) = sm_failed s \<and> length (sm_missingBiosDetails s) = sm_missingBios s \<and>
     length (sm_missingFileDetails s) = sm_missingFiles s \<and> length (sm_crcDetails s) = sm_crcMismatch s"

definition one_more :: "summary \<Rightarrow> summary \<Rightarrow> bool" where
  "one_more s t \<longleftrightarrow> counted t = Suc (counted s) \<and> (detailed t \<or> \<not> detailed s) \<and> sm_total t = sm_total s \<and>
     sm_checked t = sm_checked s \<and> (sm_interrupted t \<or> \<not> sm_interrupted s)"

lemma one_more_failed: "one_more s (failed game f s)"
  by (auto simp: one_more_def failed_def counted_def detailed_def)

lemma one_more_approved: "one_more s (s\<lparr>sm_approved := Suc (sm_approved s)\<rparr>)"
  by (auto simp: one_more_def counted_def detailed_def)

lemma classify_one_more:
  assumes "classify game r s = Some t"
  shows "one_more s t"
proof (cases "eligible game r")
  case (Inl f)
  then show ?thesis using one_more_failed assms by (auto simp: classify_def)
next
  case (Inr ok)
  then show ?thesis using assms
    by (auto simp: classify_def Let_def one_more_def counted_def detailed_def split: if_splits)
qed

definition publishable :: "review_candidate \<Rightarrow> review_readiness \<Rightarrow> bool" where
  "publishable game r \<longleftrightarrow> rr_error r = None \<and> rr_biosSatisfied r = Some True \<and> rr_version r = rc_version game \<and>
     rr_missingRomMembers r = [] \<and> rr_crcWarnings r = []"

lemma classify_None: "classify game r s = None \<longleftrightarrow> (\<exists>x. r = Some x \<and> publishable game x)"
  by (cases r) (auto simp: classify_def eligible_def publishable_def Let_def split: option.splits)

lemma all_failed_counts:
  "counted (all_failed items f s) = counted s + length items"
  "sm_checked (all_failed items f s) = sm_checked s + length items"
  "sm_total (all_failed items f s) = sm_total s"
  "detailed s \<Longrightarrow> detailed (all_failed items f s)"
proof -
  have "counted (fold (\<lambda>g. failed g f) items s) = counted s + length items \<and>
    sm_checked (fold (\<lambda>g. failed g f) items s) = sm_checked s \<and>
    sm_total (fold (\<lambda>g. failed g f) items s) = sm_total s \<and>
    (detailed s \<longrightarrow> detailed (fold (\<lambda>g. failed g f) items s))" for s
    by (induction items arbitrary: s) (auto simp: failed_def counted_def detailed_def)
  from this [of s] show
    "counted (all_failed items f s) = counted s + length items"
    "sm_checked (all_failed items f s) = sm_checked s + length items"
    "sm_total (all_failed items f s) = sm_total s"
    "detailed s \<Longrightarrow> detailed (all_failed items f s)"
    by (auto simp: all_failed_def Let_def counted_def detailed_def)
qed

lemma checked_one_simps [simp]:
  "ap_phase (checked_one a) = ap_phase a" "ap_batch (checked_one a) = ap_batch a"
  "ap_ready (checked_one a) = ap_ready a" "ap_next (checked_one a) = ap_next a"
  "ap_workers (checked_one a) = ap_workers a" "ap_aborted (checked_one a) = ap_aborted a"
  "ap_calls (checked_one a) = ap_calls a"
  "ap_summary (checked_one a) = (ap_summary a)\<lparr>sm_checked := Suc (sm_checked (ap_summary a))\<rparr>"
  by (simp_all add: checked_one_def Let_def publish_def)

lemma publish_simps [simp]:
  "ap_phase (publish a) = ap_phase a" "ap_batch (publish a) = ap_batch a"
  "ap_ready (publish a) = ap_ready a" "ap_next (publish a) = ap_next a"
  "ap_workers (publish a) = ap_workers a" "ap_aborted (publish a) = ap_aborted a"
  "ap_calls (publish a) = ap_calls a" "ap_summary (publish a) = ap_summary a"
  by (simp_all add: publish_def)

lemma counted_checked [simp]: "counted (s\<lparr>sm_checked := n\<rparr>) = counted s" "detailed (s\<lparr>sm_checked := n\<rparr>) = detailed s"
  by (simp_all add: counted_def detailed_def)

definition in_flight :: "approval \<Rightarrow> nat" where
  "in_flight a = length (filter (\<lambda>w. w \<noteq> Ready \<and> w \<noteq> Finished) (ap_workers a))"

definition accounted :: "nat \<Rightarrow> summary \<Rightarrow> bool" where
  "accounted n s \<longleftrightarrow> counted s = sm_checked s \<and> detailed s \<and> sm_total s = n \<and> sm_checked s \<le> n"

definition placed :: "review_candidate list \<Rightarrow> approval \<Rightarrow> bool" where
  "placed games a \<longleftrightarrow>
     (case ap_phase a of
        Between off \<Rightarrow> \<not> may_go_on a \<or> sm_checked (ap_summary a) = min off (length games)
      | Running off \<Rightarrow> off < length games \<and> ap_batch a = batch_of games off \<and> ap_next a \<le> length (ap_batch a) \<and>
          ap_workers a \<noteq> [] \<and> sm_checked (ap_summary a) + in_flight a = off + ap_next a \<and>
          (Finished \<notin> set (ap_workers a) \<or> \<not> (ap_next a < length (ap_batch a) \<and> may_go_on a))
      | Over \<Rightarrow> sm_interrupted (ap_summary a) \<or> sm_checked (ap_summary a) = length games)"

lemma batch_length: "length (batch_of games off) = min 100 (length games - off)"
  by (simp add: batch_of_def)

lemma take_game_cases:
  assumes "take_game w a = b"
  obtains (counted) s where "classify (ap_batch a ! ap_next a) (map_of (ap_ready a) (rc_id (ap_batch a ! ap_next a))) (ap_summary a) = Some s"
      "b = checked_one (a\<lparr>ap_next := Suc (ap_next a), ap_summary := s\<rparr>)"
    | (called) r where "map_of (ap_ready a) (rc_id (ap_batch a ! ap_next a)) = Some r" "publishable (ap_batch a ! ap_next a) r"
      "b = a\<lparr>ap_next := Suc (ap_next a), ap_workers := (ap_workers a)[w := Approving (ap_batch a ! ap_next a)],
         ap_calls := ap_calls a @ [ap_batch a ! ap_next a]\<rparr>"
proof (cases "classify (ap_batch a ! ap_next a) (map_of (ap_ready a) (rc_id (ap_batch a ! ap_next a))) (ap_summary a)")
  case None
  then obtain r where "map_of (ap_ready a) (rc_id (ap_batch a ! ap_next a)) = Some r"
      "publishable (ap_batch a ! ap_next a) r" using classify_None by blast
  with None show ?thesis using assms called by (simp add: take_game_def Let_def)
next
  case (Some s)
  then show ?thesis using assms counted by (auto simp: take_game_def Let_def)
qed

lemma may_go_on_simps [simp]:
  "may_go_on (a\<lparr>ap_workers := ws\<rparr>) = may_go_on a" "may_go_on (a\<lparr>ap_next := n\<rparr>) = may_go_on a"
  "may_go_on (a\<lparr>ap_calls := c\<rparr>) = may_go_on a" "may_go_on (a\<lparr>ap_phase := p\<rparr>) = may_go_on a"
  "may_go_on (a\<lparr>ap_batch := l\<rparr>) = may_go_on a" "may_go_on (a\<lparr>ap_ready := rs\<rparr>) = may_go_on a"
  by (simp_all add: may_go_on_def)

lemma accounted_one_more:
  "accounted n s \<Longrightarrow> one_more s t \<Longrightarrow> sm_checked s < n \<Longrightarrow> accounted n (t\<lparr>sm_checked := Suc (sm_checked s)\<rparr>)"
  by (auto simp: accounted_def one_more_def)

lemma running_bounds:
  assumes "ap_phase a = Running off" "placed games a"
  shows "off + ap_next a \<le> length games" "sm_checked (ap_summary a) + in_flight a = off + ap_next a"
    "ap_next a < length (ap_batch a) \<Longrightarrow> off + ap_next a < length games"
  using assms by (auto simp: placed_def batch_length)

lemma in_flight_worker:
  "w < length (ap_workers a) \<Longrightarrow> ap_workers a ! w = Ready \<Longrightarrow>
     in_flight (a\<lparr>ap_workers := (ap_workers a)[w := Approving g]\<rparr>) = Suc (in_flight a)"
  "w < length (ap_workers a) \<Longrightarrow> ap_workers a ! w = Ready \<Longrightarrow>
     in_flight (a\<lparr>ap_workers := (ap_workers a)[w := Finished]\<rparr>) = in_flight a"
  "w < length (ap_workers a) \<Longrightarrow> ap_workers a ! w = Approving g \<Longrightarrow>
     Suc (in_flight (a\<lparr>ap_workers := (ap_workers a)[w := Ready]\<rparr>)) = in_flight a"
  using length_filter_update [of w "ap_workers a" "\<lambda>w. w \<noteq> Ready \<and> w \<noteq> Finished"]
  by (simp_all add: in_flight_def)

lemma placed_takes:
  assumes "ap_phase a = Running off" "w < length (ap_workers a)" "ap_workers a ! w = Ready"
    "ap_next a < length (ap_batch a)" "may_go_on a" "placed games a" "accounted (length games) (ap_summary a)"
  shows "placed games (take_game w a) \<and> accounted (length games) (ap_summary (take_game w a))"
proof -
  note b = running_bounds [OF assms(1,6)]
  have p: "off < length games" "ap_batch a = batch_of games off" "ap_workers a \<noteq> []" "Finished \<notin> set (ap_workers a)"
    using assms by (auto simp: placed_def)
  from refl [of "take_game w a"] show ?thesis
  proof (cases rule: take_game_cases)
    case (counted s)
    then have o: "one_more (ap_summary a) s" by (intro classify_one_more)
    have "sm_checked (ap_summary a) < length games" using b assms(4) by linarith
    from accounted_one_more [OF assms(7) o this] o show ?thesis
      using counted(2) b p assms(1,4) by (simp add: placed_def one_more_def in_flight_def)
  next
    case (called r)
    have "in_flight (take_game w a) = Suc (in_flight a)"
      using in_flight_worker(1) [OF assms(2,3)] called(3) by (simp add: in_flight_def)
    then show ?thesis using called(3) b p assms(1,4,7)
      by (auto simp: placed_def dest!: set_update_subset_insert [THEN subsetD])
  qed
qed

lemma placed_answers:
  assumes "ap_phase a = Running off" "w < length (ap_workers a)" "ap_workers a ! w = Approving g"
    "placed games a" "accounted (length games) (ap_summary a)"
  shows "placed games (approve_answer w g r a) \<and> accounted (length games) (ap_summary (approve_answer w g r a))"
proof -
  note b = running_bounds [OF assms(1,4)]
  define t where "t = (case r of None \<Rightarrow> (ap_summary a)\<lparr>sm_approved := Suc (sm_approved (ap_summary a))\<rparr>
    | Some f \<Rightarrow> failed g f (ap_summary a))"
  have e: "approve_answer w g r a = checked_one (a\<lparr>ap_summary := t, ap_workers := (ap_workers a)[w := Ready]\<rparr>)"
    by (simp add: approve_answer_def t_def Let_def)
  have o: "one_more (ap_summary a) t"
    unfolding t_def using one_more_approved one_more_failed by (cases r) auto
  have f: "Suc (in_flight (approve_answer w g r a)) = in_flight a"
    using in_flight_worker(3) [OF assms(2,3)] by (simp add: in_flight_def e)
  then have "sm_checked (ap_summary a) < length games" using b by linarith
  from accounted_one_more [OF assms(5) o this]
  have acc: "accounted (length games) (ap_summary (approve_answer w g r a))"
    using o by (simp add: e one_more_def)
  have go: "\<not> may_go_on (approve_answer w g r a) \<or> may_go_on a"
    using o by (auto simp: may_go_on_def e one_more_def)
  have m: "Finished \<in> set ((ap_workers a)[w := Ready]) \<Longrightarrow> Finished \<in> set (ap_workers a)"
    by (auto dest!: set_update_subset_insert [THEN subsetD])
  have "sm_checked (ap_summary (approve_answer w g r a)) = Suc (sm_checked (ap_summary a))"
    using o by (simp add: e one_more_def)
  moreover have "ap_workers (approve_answer w g r a) = (ap_workers a)[w := Ready]" 
    "ap_phase (approve_answer w g r a) = Running off" "ap_batch (approve_answer w g r a) = ap_batch a"
    "ap_next (approve_answer w g r a) = ap_next a" using assms(1) by (simp_all add: e)
  ultimately have "placed games (approve_answer w g r a)"
    using assms(1,4) f go m unfolding placed_def by auto
  with acc show ?thesis by blast
qed

lemma accounting_step:
  assumes "approval_step games readiness approve a b" "placed games a" "accounted (length games) (ap_summary a)"
  shows "placed games b \<and> accounted (length games) (ap_summary b)"
  using assms
proof (induction rule: approval_step.cases)
  case (batch_starts u off rs)
  then show ?case by (auto simp: placed_def batch_length in_flight_def)
next
  case (batch_fails u off f)
  then show ?case
    by (auto simp: placed_def accounted_def all_failed_counts batch_length)
next
  case (run_ends u off)
  then show ?case
    by (auto simp: placed_def accounted_def counted_def detailed_def)
next
  case (takes u off w)
  then show ?case using placed_takes by simp
next
  case (stops u off w)
  then show ?case using in_flight_worker(2) [of w u] by (auto simp: placed_def)
next
  case (answers u off w g)
  then show ?case using placed_answers by simp
next
  case (batch_ends u off)
  then have "in_flight u = 0" by (auto simp: in_flight_def list_all_iff filter_empty_conv)
  moreover have "Finished \<in> set (ap_workers u)" using batch_ends by (cases "ap_workers u") (auto simp: placed_def)
  ultimately show ?case using batch_ends by (auto simp: placed_def batch_length)
next
  case (aborts u)
  then show ?case by (auto simp: placed_def may_go_on_def in_flight_def split: approval_phase.splits)
qed

definition reported :: "approval \<Rightarrow> bool" where
  "reported a \<longleftrightarrow> ap_shown a \<noteq> [] \<and>
     list_all (\<lambda>s. length (sm_failures s) \<le> 20 \<and> length (sm_missingBiosDetails s) \<le> 20 \<and>
       length (sm_missingFileDetails s) \<le> 20 \<and> length (sm_crcDetails s) \<le> 20) (ap_shown a) \<and>
     (ap_phase a \<noteq> Over \<or> last (ap_shown a) = shown (ap_summary a))"

lemma reported_checked: "reported a \<Longrightarrow> ap_phase a \<noteq> Over \<Longrightarrow> reported (checked_one a)"
  by (auto simp: reported_def checked_one_def Let_def publish_def shown_def)

lemma reported_same: "reported a \<Longrightarrow> ap_shown b = ap_shown a \<Longrightarrow> ap_phase b \<noteq> Over \<Longrightarrow> reported b"
  by (simp add: reported_def)

lemma reported_step: "approval_step games readiness approve a b \<Longrightarrow> reported a \<Longrightarrow> reported b"
proof (induction rule: approval_step.cases)
  case (takes u off w)
  from refl [of "take_game w u"] show ?case
  proof (cases rule: take_game_cases)
    case (counted s)
    then show ?thesis using takes reported_checked reported_same by simp
  next
    case (called r)
    then show ?thesis using takes reported_same by simp
  qed
next
  case (answers u off w g)
  then show ?case using reported_checked reported_same by (simp add: approve_answer_def Let_def)
qed (auto simp: reported_def publish_def shown_def)

lemma approval_invs:
  "approval_reachable games readiness approve a \<Longrightarrow>
     placed games a \<and> accounted (length games) (ap_summary a) \<and> reported a"
proof (induction rule: approval_reachable.induct)
  case start
  show ?case by (simp add: approval_start_def placed_def accounted_def counted_def detailed_def empty_summary_def
        reported_def publish_def shown_def)
next
  case (step a b)
  then show ?case using accounting_step reported_step by blast
qed

section \<open>The published games\<close>

definition cleared :: "review_candidate list \<Rightarrow> (review_candidate list \<Rightarrow> failure + review_readiness list) \<Rightarrow>
    review_candidate \<Rightarrow> bool" where
  "cleared games readiness g \<longleftrightarrow>
     (\<exists>off rs. readiness (batch_of games off) = Inr rs \<and> g \<in> set (batch_of games off) \<and>
        (\<exists>r \<in> set rs. rr_id r = rc_id g \<and> publishable g r))"

definition position :: "review_candidate list \<Rightarrow> approval \<Rightarrow> nat" where
  "position games a = (case ap_phase a of Between off \<Rightarrow> off | Running off \<Rightarrow> off + ap_next a | Over \<Rightarrow> length games)"

definition called_well :: "review_candidate list \<Rightarrow> (review_candidate list \<Rightarrow> failure + review_readiness list) \<Rightarrow>
    approval \<Rightarrow> bool" where
  "called_well games readiness a \<longleftrightarrow>
     subseq (ap_calls a) (take (position games a) games) \<and> (\<forall>g \<in> set (ap_calls a). cleared games readiness g) \<and>
     (\<forall>off. ap_phase a = Running off \<longrightarrow>
        (\<exists>rs. readiness (batch_of games off) = Inr rs \<and> ap_ready a = amap_from rr_id id rs))"

lemma subseq_take_mono: "subseq xs (take m ys) \<Longrightarrow> m \<le> n \<Longrightarrow> subseq xs (take n ys)"
  by (auto simp: le_iff_add take_add intro: list_emb_prefix)

lemma called_well_step:
  assumes "approval_step games readiness approve a b" "placed games a" "called_well games readiness a"
  shows "called_well games readiness b"
  using assms
proof (induction rule: approval_step.cases)
  case (takes u off w)
  let ?g = "ap_batch u ! ap_next u"
  have p: "off < length games" "ap_batch u = batch_of games off" using takes by (auto simp: placed_def)
  then have g: "?g = games ! (off + ap_next u)" "off + ap_next u < length games"
    using takes(6) by (auto simp: batch_of_def)
  have m: "?g \<in> set (batch_of games off)" using takes(6) p(2) nth_mem by metis
  from refl [of "take_game w u"] show ?case
  proof (cases rule: take_game_cases)
    case (counted s)
    then show ?thesis using takes subseq_take_mono [of "ap_calls u" "off + ap_next u" games "Suc (off + ap_next u)"]
      by (auto simp: called_well_def position_def)
  next
    case (called r)
    obtain rs where rs: "readiness (batch_of games off) = Inr rs" "ap_ready u = amap_from rr_id id rs"
      using takes by (auto simp: called_well_def)
    then have "r \<in> set rs" "rr_id r = rc_id ?g"
      using called(1) am.get_put_all_cases [of rr_id id rs "[]" "rc_id ?g" r] by (auto simp: amap_from_put_all)
    then have "cleared games readiness ?g" using rs(1) m called(2) unfolding cleared_def by blast
    moreover have "subseq (ap_calls u @ [?g]) (take (Suc (off + ap_next u)) games)"
      using takes g by (simp add: take_Suc_conv_app_nth called_well_def position_def list_emb_append_mono)
    ultimately show ?thesis using takes called(3) by (auto simp: called_well_def position_def)
  qed
next
  case (batch_ends u off)
  then show ?case using subseq_take_mono [of "ap_calls u" "off + ap_next u" games "off + 100"]
    by (auto simp: called_well_def position_def placed_def batch_length)
next
  case (batch_fails u off f)
  then show ?case using subseq_take_mono [of "ap_calls u" off games "off + 100"]
    by (auto simp: called_well_def position_def)
next
  case (run_ends u off)
  then show ?case using subseq_take_mono [of "ap_calls u" off games "max off (length games)"]
    by (auto simp: called_well_def position_def)
qed (auto simp: called_well_def position_def approve_answer_def Let_def split: approval_phase.splits)

lemma approval_called_well: "approval_reachable games readiness approve a \<Longrightarrow> called_well games readiness a"
proof (induction rule: approval_reachable.induct)
  case start
  show ?case by (simp add: approval_start_def called_well_def position_def)
next
  case (step a b)
  then show ?case using called_well_step approval_invs by blast
qed

section \<open>A run with one game\<close>

definition demo_game :: review_candidate where
  "demo_game = \<lparr>rc_id = js ''a'', rc_title = js ''A'', rc_version = 2\<rparr>"

definition demo_ready :: "review_candidate list \<Rightarrow> failure + review_readiness list" where
  "demo_ready gs = Inr [\<lparr>rr_id = js ''a'', rr_version = 2, rr_error = None, rr_biosSatisfied = Some True,
     rr_missingBios = [], rr_missingRomMembers = [], rr_crcWarnings = []\<rparr>]"

definition demo_approve :: "review_candidate \<Rightarrow> failure option" where
  "demo_approve g = None"

lemma demo_called:
  "approval_reachable [demo_game] demo_ready demo_approve
     (take_game 0 ((approval_start [demo_game])\<lparr>ap_phase := Running 0, ap_batch := [demo_game],
        ap_ready := amap_from rr_id id (projr (demo_ready [])), ap_next := 0, ap_workers := [Ready]\<rparr>))"
    (is "?reach (take_game 0 ?running)")
proof -
  have b: "batch_of [demo_game] 0 = [demo_game]" by (simp add: batch_of_def)
  have go: "may_go_on (approval_start [demo_game])" and p: "ap_phase (approval_start [demo_game]) = Between 0"
    by (simp_all add: approval_start_def may_go_on_def empty_summary_def)
  have r: "demo_ready gs = Inr (projr (demo_ready []))" for gs by (simp add: demo_ready_def)
  have "?reach ?running"
    using approval_reachable.step [OF approval_reachable.start approval_step.batch_starts [OF p _ go r]] b by simp
  from approval_reachable.step [OF this approval_step.takes [where w = 0 and offset = 0]] show ?thesis using go
    by simp
qed

lemma demo_calls: "ap_calls (take_game 0 ((approval_start [demo_game])\<lparr>ap_phase := Running 0, ap_batch := [demo_game],
    ap_ready := amap_from rr_id id (projr (demo_ready [])), ap_next := 0, ap_workers := [Ready]\<rparr>)) = [demo_game]"
  by (simp add: take_game_def Let_def classify_def eligible_def amap_from_def demo_ready_def demo_game_def approval_start_def)

theorem snapshot_is_complete_witness: "reviewSnapshot (listed [demo_game]) (\<lambda>_. False) = Inr [demo_game]"
  using snapshot_is_complete [of "[demo_game]"] by simp

text \<open>
  C8. Only games are published that the last check found complete, unchanged and without warnings, in the order of
  the list and each at most once.
\<close>

theorem only_ready_games_published:
  assumes "approval_reachable games readiness approve a"
  shows "subseq (ap_calls a) games \<and> list_all (cleared games readiness) (ap_calls a)"
  using approval_called_well [OF assms] subseq_order.trans [OF _ prefix_imp_subseq [OF take_is_prefix]]
  by (auto simp: called_well_def list_all_iff)

theorem only_ready_games_published_witness:
  "cleared [demo_game] demo_ready demo_game \<and> subseq [demo_game] [demo_game]"
  using only_ready_games_published [OF demo_called] unfolding demo_calls by simp

text \<open>
  In every state the counters of the summary add up to the checked games and the lists of details hold one
  entry for each; when a run is over, all games are checked or it is marked as interrupted, and the last
  report shows that summary.
\<close>

theorem approval_accounts:
  assumes "approval_reachable games readiness approve a"
  shows "accounted (length games) (ap_summary a) \<and>
    (ap_phase a \<noteq> Over \<or> (sm_interrupted (ap_summary a) \<or> sm_checked (ap_summary a) = length games) \<and>
       last (ap_shown a) = shown (ap_summary a))"
  using approval_invs [OF assms] by (auto simp: placed_def reported_def)

theorem approval_accounts_witness: "accounted 0 (empty_summary 0) \<and> last (ap_shown (approval_start [])) = shown (empty_summary 0)"
proof -
  let ?a = "publish ((approval_start [])\<lparr>ap_phase := Over,
      ap_summary := (empty_summary 0)\<lparr>sm_interrupted := \<not> may_go_on (approval_start [])\<rparr>\<rparr>)"
  have go: "may_go_on (approval_start [])" and p: "ap_phase (approval_start []) = Between 0"
    and m: "ap_summary (approval_start []) = empty_summary 0"
    by (simp_all add: approval_start_def may_go_on_def empty_summary_def)
  have "approval_reachable [] demo_ready demo_approve ?a"
    using approval_reachable.step [OF approval_reachable.start approval_step.run_ends [OF p]] m by simp
  from approval_accounts [OF this] show ?thesis
    using go by (simp add: empty_summary_def approval_start_def publish_def)
qed

section \<open>The end of a run\<close>

definition approver_cost :: "approver \<Rightarrow> nat" where
  "approver_cost w = (case w of Ready \<Rightarrow> 1 | Approving g \<Rightarrow> 2 | Finished \<Rightarrow> 0)"

definition run_work :: "review_candidate list \<Rightarrow> approval \<Rightarrow> nat" where
  "run_work games a =
     of_bool (\<not> ap_aborted a) + 2 * (length (ap_batch a) - ap_next a) + sum_list (map approver_cost (ap_workers a)) +
     (case ap_phase a of Over \<Rightarrow> 0 | Between off \<Rightarrow> 1 + 9 * (length games - off)
      | Running off \<Rightarrow> 2 + 9 * (length games - (off + 100)))"

text \<open>Between two batches nothing of the last one is left.\<close>

definition tidy :: "approval \<Rightarrow> bool" where
  "tidy a \<longleftrightarrow> (case ap_phase a of Running off \<Rightarrow> True | _ \<Rightarrow> ap_batch a = [] \<and> ap_workers a = [])"

lemma tidy_step: "approval_step games readiness approve a b \<Longrightarrow> tidy a \<Longrightarrow> tidy b"
proof (induction rule: approval_step.cases)
  case (takes u off w)
  from refl [of "take_game w u"] show ?case
    by (cases rule: take_game_cases) (use takes in \<open>auto simp: tidy_def\<close>)
qed (auto simp: tidy_def approve_answer_def Let_def split: approval_phase.splits)

lemma approver_cost_update: "w < length ws \<Longrightarrow>
    sum_list (map approver_cost (ws[w := x])) + approver_cost (ws ! w) = sum_list (map approver_cost ws) + approver_cost x"
proof (induction ws arbitrary: w)
  case (Cons y ws)
  then show ?case by (cases w) auto
qed simp

lemma run_work_decreases:
  assumes "approval_step games readiness approve a b" "placed games a" "tidy a"
  shows "run_work games b < run_work games a"
  using assms
proof (induction rule: approval_step.cases)
  case (batch_starts u off rs)
  then show ?case by (simp add: run_work_def tidy_def batch_length sum_list_replicate approver_cost_def)
next
  case (takes u off w)
  from refl [of "take_game w u"] show ?case
  proof (cases rule: take_game_cases)
    case (counted s)
    then show ?thesis using takes by (simp add: run_work_def)
  next
    case (called r)
    then show ?thesis using takes approver_cost_update [of w "ap_workers u" "Approving (ap_batch u ! ap_next u)"]
      by (simp add: run_work_def approver_cost_def)
  qed
next
  case (stops u off w)
  then show ?case using approver_cost_update [of w "ap_workers u" Finished]
    by (simp add: run_work_def approver_cost_def)
next
  case (answers u off w g)
  then show ?case using approver_cost_update [of w "ap_workers u" Ready]
    by (simp add: run_work_def approver_cost_def approve_answer_def Let_def)
qed (auto simp: run_work_def tidy_def)

lemma approval_can_step: "ap_phase a = Over \<or> (\<exists>b. approval_step games readiness approve a b)"
proof (cases "ap_phase a")
  case (Between off)
  show ?thesis
  proof (cases "off < length games \<and> may_go_on a")
    case True
    then show ?thesis
      using approval_step.batch_starts [OF Between] approval_step.batch_fails [OF Between]
      by (cases "readiness (batch_of games off)") blast+
  next
    case False
    then show ?thesis using approval_step.run_ends [OF Between] by blast
  qed
next
  case (Running off)
  show ?thesis
  proof (cases "list_all (\<lambda>w. w = Finished) (ap_workers a)")
    case True
    then show ?thesis using approval_step.batch_ends [OF Running] by blast
  next
    case False
    then obtain w where w: "w < length (ap_workers a)" "ap_workers a ! w \<noteq> Finished"
      by (auto simp: list_all_length)
    then show ?thesis
      using approval_step.takes [OF Running w(1)] approval_step.stops [OF Running w(1)]
        approval_step.answers [OF Running w(1)]
      by (cases "ap_workers a ! w") blast+
  qed
qed simp

text \<open>
  C30. A run ends, whatever the order of the answers: it takes at most the \<open>run_work\<close> of its state many steps, and
  it can go on until it is over.
\<close>

theorem approval_ends:
  assumes "approval_reachable games readiness approve a" and "(approval_step games readiness approve ^^ n) a b"
  shows "n + run_work games b \<le> run_work games a \<and> (ap_phase b = Over \<or> (\<exists>c. approval_step games readiness approve b c))"
proof -
  have tidy: "approval_reachable games readiness approve c \<Longrightarrow> tidy c" for c
  proof (induction rule: approval_reachable.induct)
    case start
    show ?case by (simp add: approval_start_def tidy_def)
  qed (use tidy_step in blast)
  have "approval_reachable games readiness approve b \<and> n + run_work games b \<le> run_work games a"
    using assms(2)
  proof (induction n arbitrary: b)
    case (Suc n)
    then obtain c where c: "(approval_step games readiness approve ^^ n) a c" "approval_step games readiness approve c b"
      by auto
    then have r: "approval_reachable games readiness approve c" "n + run_work games c \<le> run_work games a"
      using Suc.IH by auto
    then show ?case using run_work_decreases [OF c(2) _ tidy] approval_invs approval_reachable.step c(2) by fastforce
  qed (use assms(1) in simp)
  then show ?thesis using approval_can_step by blast
qed

theorem approval_ends_witness: "run_work [demo_game] (approval_start [demo_game]) = 11 \<and>
    0 + run_work [demo_game] (approval_start [demo_game]) \<le> run_work [demo_game] (approval_start [demo_game])"
proof -
  have "(approval_step [demo_game] demo_ready demo_approve ^^ 0) (approval_start [demo_game]) (approval_start [demo_game])"
    by simp
  from approval_ends [OF approval_reachable.start this] show ?thesis
    by (simp add: run_work_def approval_start_def publish_def)
qed

end
