(* ===== verification/Upload_Transfer.thy ===== *)
theory Upload_Transfer
  imports Prelude
begin

text \<open>
  The upload of a game collection: \<open>web/features/scans/upload-transfer.ts\<close> (the check of a selection, the
  chunks of a file with their retries, the two parallel workers) against the server it talks to,
  \<open>Uploads.Append\<close> of \<open>internal/storage/uploads.go\<close>. Files are their bytes; an environment says for each
  attempt what the network and the server's disk do.
\<close>

section \<open>The check of a selection\<close>

definition slash :: code_unit where "slash = of_char CHR ''/''"

definition limit_file_bytes :: nat where "limit_file_bytes = 4 * 1024 ^ 3"
definition limit_total_bytes :: nat where "limit_total_bytes = 20 * 1024 ^ 3"
definition limit_files :: nat where "limit_files = 50000"
definition limit_depth :: nat where "limit_depth = 24"

lemmas upload_limits = limit_file_bytes_def limit_total_bytes_def limit_files_def limit_depth_def

type_synonym upload_entry = "jsstr \<times> nat"

datatype problem = NothingSelected | TooManyFiles | FileTooLarge jsstr | UnsafePath jsstr | DuplicatePath jsstr
  | FileAndFolder jsstr | SelectionTooLarge

definition upload_safePath :: "jsstr \<Rightarrow> bool" where
  "upload_safePath path \<longleftrightarrow> 0 < length path \<and> length path \<le> 1024 \<and> 0x5C \<notin> set path \<and> 0 \<notin> set path \<and>
     length (split_on slash path) \<le> limit_depth + 1 \<and>
     list_all (\<lambda>part. part \<noteq> [] \<and> part \<noteq> js ''.'' \<and> part \<noteq> js ''..'') (split_on slash path)"

text \<open>\<open>path.lastIndexOf("/")\<close> as the text before it; \<open>None\<close> when there is none.\<close>

definition before_last_slash :: "jsstr \<Rightarrow> jsstr option" where
  "before_last_slash path =
     (if slash \<in> set path then Some (rev (tl (dropWhile (\<lambda>c. c \<noteq> slash) (rev path)))) else None)"

definition parentOf :: "jsstr \<Rightarrow> jsstr" where
  "parentOf path = (case before_last_slash path of Some p \<Rightarrow> p | None \<Rightarrow> [])"

lemma parentOf_shorter: "parentOf path \<noteq> [] \<Longrightarrow> length (parentOf path) < length path"
proof -
  assume "parentOf path \<noteq> []"
  then have s: "slash \<in> set path" by (auto simp: parentOf_def before_last_slash_def split: if_splits)
  then have "dropWhile (\<lambda>c. c \<noteq> slash) (rev path) \<noteq> []" by (auto simp: dropWhile_eq_Nil_conv)
  moreover have "length (dropWhile (\<lambda>c. c \<noteq> slash) (rev path)) \<le> length path"
    using length_dropWhile_le [of "\<lambda>c. c \<noteq> slash" "rev path"] by simp
  moreover have "0 < length path" using s by (cases path) auto
  ultimately have "length (dropWhile (\<lambda>c. c \<noteq> slash) (rev path)) - 1 < length path" by linarith
  then show ?thesis using s by (simp add: parentOf_def before_last_slash_def)
qed

text \<open>The inner loop over the folders of a path.\<close>

function folder_clash :: "jsstr set \<Rightarrow> jsstr \<Rightarrow> jsstr option" where
  "folder_clash paths parent =
     (if parent = [] then None
      else if parent \<in> paths then Some parent
      else folder_clash paths (parentOf parent))"
  by pat_completeness auto
termination
proof (relation "measure (\<lambda>(paths, parent). length parent)", goal_cases)
  case (2 paths parent)
  then show ?case using parentOf_shorter [of parent] by (cases "parentOf parent") auto
qed simp

declare folder_clash.simps [simp del]

primrec scan_entries :: "upload_entry list \<Rightarrow> jsstr list \<Rightarrow> nat \<Rightarrow> problem + (jsstr list \<times> nat)" where
  "scan_entries [] paths amount = Inr (paths, amount)"
| "scan_entries (e # es) paths amount =
     (if limit_file_bytes < snd e then Inl (FileTooLarge (fst e))
      else if \<not> upload_safePath (fst e) then Inl (UnsafePath (fst e))
      else if fst e \<in> set paths then Inl (DuplicatePath (fst e))
      else scan_entries es (paths @ [fst e]) (amount + snd e))"

primrec first_clash :: "jsstr set \<Rightarrow> jsstr list \<Rightarrow> jsstr option" where
  "first_clash paths [] = None"
| "first_clash paths (p # ps) =
     (case folder_clash paths (parentOf p) of Some f \<Rightarrow> Some f | None \<Rightarrow> first_clash paths ps)"

definition uploadProblem :: "upload_entry list \<Rightarrow> problem option" where
  "uploadProblem entries =
     (if entries = [] then Some NothingSelected
      else if limit_files < length entries then Some TooManyFiles
      else case scan_entries entries [] 0 of
        Inl p \<Rightarrow> Some p
      | Inr (paths, amount) \<Rightarrow>
          (case first_clash (set paths) paths of
             Some f \<Rightarrow> Some (FileAndFolder f)
           | None \<Rightarrow> if limit_total_bytes < amount then Some SelectionTooLarge else None))"

section \<open>Sessions\<close>

record upload_file =
  up_path :: jsstr
  up_sizeBytes :: nat
  up_receivedBytes :: nat

definition matchesUpload :: "upload_entry list \<Rightarrow> upload_file list \<Rightarrow> bool" where
  "matchesUpload entries files =
     (let declared = amap_from up_path up_sizeBytes files in
      length entries = length declared \<and> list_all (\<lambda>(path, sz). map_of declared path = Some sz) entries)"

text \<open>The entries of \<open>openUpload\<close> in the order of the session's files.\<close>

definition session_entries :: "upload_entry list \<Rightarrow> upload_file list \<Rightarrow> upload_entry option list" where
  "session_entries entries files =
     (let byPath = amap_from fst id entries in map (\<lambda>f. map_of byPath (up_path f)) files)"

section \<open>The server\<close>

type_synonym content = "8 word list"

text \<open>
  \<open>Append\<close> on the part of one file of \<open>sz\<close> declared bytes: the status and the received count of the answer,
  and the new content. A fault is another writer of the same file, a failed write (the part is truncated to the
  offset), a failed sync or publication after the write, or a refusal before the storage with the status
  \<open>400 + n\<close>.
\<close>

datatype fault = NoFault | OtherWriter | WriteFails | SyncFails | Refuses nat

definition append_chunk :: "fault \<Rightarrow> nat \<Rightarrow> nat \<Rightarrow> content \<Rightarrow> content \<Rightarrow> (nat \<times> nat) \<times> content" where
  "append_chunk fault sz offset chunk part =
     (case fault of
        OtherWriter \<Rightarrow> ((409, 0), part)
      | Refuses n \<Rightarrow> ((400 + n, 0), part)
      | _ \<Rightarrow>
        if offset \<noteq> length part \<or> length part = sz then ((409, length part), part)
        else if fault = WriteFails then ((500, offset), part)
        else if sz < length part + length chunk then ((400, offset), part)
        else if fault = SyncFails then ((500, 0), part @ chunk)
        else ((200, length part + length chunk), part @ chunk))"

section \<open>sendChunk\<close>

datatype attempt = Reached fault | LostBefore | LostAfter fault

datatype send_error = SendAborted | NetworkError | ApiFailure nat

record upload_env =
  attempt_at :: "nat \<Rightarrow> attempt"
  abort_at :: "nat \<Rightarrow> bool"
  read_failure :: "nat \<Rightarrow> nat option"

definition retries :: nat where "retries = 5"

text \<open>
  One attempt: what the client sees (\<open>None\<close> for a failed fetch) and the content of the part afterwards.
\<close>

definition put_chunk :: "attempt \<Rightarrow> nat \<Rightarrow> nat \<Rightarrow> content \<Rightarrow> content \<Rightarrow> (nat \<times> nat) option \<times> content" where
  "put_chunk a sz offset chunk part =
     (case a of
        LostBefore \<Rightarrow> (None, part)
      | LostAfter f \<Rightarrow> (None, snd (append_chunk f sz offset chunk part))
      | Reached f \<Rightarrow> (Some (fst (append_chunk f sz offset chunk part)), snd (append_chunk f sz offset chunk part)))"

text \<open>
  The loop of \<open>sendChunk\<close>, with \<open>left\<close> retries to go and \<open>k\<close> counting all requests of the environment:
  the result, the content, and the next request number. A 409 reads the received count of the session instead.
\<close>

primrec send_attempts :: "nat \<Rightarrow> upload_env \<Rightarrow> nat \<Rightarrow> nat \<Rightarrow> content \<Rightarrow> nat \<Rightarrow> content \<Rightarrow>
    (send_error + nat) \<times> content \<times> nat" where
  "send_attempts 0 env sz offset chunk k part =
     (if abort_at env k then (Inl SendAborted, part, k)
      else case put_chunk (attempt_at env k) sz offset chunk part of
        (None, part') \<Rightarrow> (Inl NetworkError, part', Suc k)
      | (Some (st, n), part') \<Rightarrow>
          if st = 200 then (Inr n, part', Suc k)
          else if st = 409 then
            ((case read_failure env k of Some e \<Rightarrow> Inl (ApiFailure e) | None \<Rightarrow> Inr (length part')), part', Suc k)
          else (Inl (ApiFailure st), part', Suc k))"
| "send_attempts (Suc left) env sz offset chunk k part =
     (if abort_at env k then (Inl SendAborted, part, k)
      else case put_chunk (attempt_at env k) sz offset chunk part of
        (None, part') \<Rightarrow> send_attempts left env sz offset chunk (Suc k) part'
      | (Some (st, n), part') \<Rightarrow>
          if st = 200 then (Inr n, part', Suc k)
          else if st = 409 then
            ((case read_failure env k of Some e \<Rightarrow> Inl (ApiFailure e) | None \<Rightarrow> Inr (length part')), part', Suc k)
          else if st < 500 then (Inl (ApiFailure st), part', Suc k)
          else send_attempts left env sz offset chunk (Suc k) part')"

definition sendChunk :: "upload_env \<Rightarrow> nat \<Rightarrow> nat \<Rightarrow> content \<Rightarrow> nat \<Rightarrow> content \<Rightarrow> (send_error + nat) \<times> content \<times> nat" where
  "sendChunk env sz offset chunk k part = send_attempts retries env sz offset chunk k part"

section \<open>transferUpload\<close>

text \<open>The bytes \<open>file.slice(offset, Math.min(file.size, offset + chunkSize))\<close>.\<close>

definition chunk_of :: "content \<Rightarrow> nat \<Rightarrow> nat \<Rightarrow> content" where
  "chunk_of file chunk_size offset = take (min (length file) (offset + chunk_size) - offset) (drop offset file)"

datatype upload_worker = WorkerIdle | WorkerSending nat | WorkerEnded | WorkerCrashed send_error

record transfer =
  received :: "nat list"
  queued_files :: "nat list"
  upload_workers :: "upload_worker list"
  parts :: "content list"
  requests :: nat

definition transfer_start :: "content list \<Rightarrow> content list \<Rightarrow> transfer" where
  "transfer_start files stored =
     \<lparr>received = map length stored,
      queued_files = filter (\<lambda>i. length (stored ! i) < length (files ! i)) [0..<length files],
      upload_workers = [WorkerIdle, WorkerIdle], parts = stored, requests = 0\<rparr>"

text \<open>The progress report: received and total bytes, completed and all files.\<close>

definition upload_totals :: "upload_file list \<Rightarrow> nat list \<Rightarrow> nat \<times> nat \<times> nat \<times> nat" where
  "upload_totals files got =
     (sum_list got, sum_list (map up_sizeBytes files),
      length (filter (\<lambda>(f, r). r = up_sizeBytes f) (zip files got)), length files)"

text \<open>
  The steps of the two workers. A whole \<open>sendChunk\<close> is one step: the workers hold different files, and no
  other state is shared.
\<close>

inductive transfer_step :: "content list \<Rightarrow> nat \<Rightarrow> upload_env \<Rightarrow> transfer \<Rightarrow> transfer \<Rightarrow> bool"
  for files chunk_size env where
  take_file: "w < length (upload_workers s) \<Longrightarrow> upload_workers s ! w = WorkerIdle \<Longrightarrow> queued_files s = i # rest \<Longrightarrow>
    transfer_step files chunk_size env s
      (s\<lparr>queued_files := rest, upload_workers := (upload_workers s)[w := WorkerSending i]\<rparr>)"
| no_file: "w < length (upload_workers s) \<Longrightarrow> upload_workers s ! w = WorkerIdle \<Longrightarrow> queued_files s = [] \<Longrightarrow>
    transfer_step files chunk_size env s (s\<lparr>upload_workers := (upload_workers s)[w := WorkerEnded]\<rparr>)"
| chunk_sent: "w < length (upload_workers s) \<Longrightarrow> upload_workers s ! w = WorkerSending i \<Longrightarrow>
    received s ! i < length (files ! i) \<Longrightarrow>
    sendChunk env (length (files ! i)) (received s ! i) (chunk_of (files ! i) chunk_size (received s ! i)) (requests s) (parts s ! i)
      = (Inr n, part, k) \<Longrightarrow>
    transfer_step files chunk_size env s (s\<lparr>received := (received s)[i := n], parts := (parts s)[i := part], requests := k\<rparr>)"
| chunk_failed: "w < length (upload_workers s) \<Longrightarrow> upload_workers s ! w = WorkerSending i \<Longrightarrow>
    received s ! i < length (files ! i) \<Longrightarrow>
    sendChunk env (length (files ! i)) (received s ! i) (chunk_of (files ! i) chunk_size (received s ! i)) (requests s) (parts s ! i)
      = (Inl e, part, k) \<Longrightarrow>
    transfer_step files chunk_size env s
      (s\<lparr>upload_workers := (upload_workers s)[w := WorkerCrashed e], parts := (parts s)[i := part], requests := k\<rparr>)"
| file_done: "w < length (upload_workers s) \<Longrightarrow> upload_workers s ! w = WorkerSending i \<Longrightarrow>
    \<not> received s ! i < length (files ! i) \<Longrightarrow>
    transfer_step files chunk_size env s (s\<lparr>upload_workers := (upload_workers s)[w := WorkerIdle]\<rparr>)"

inductive transfer_reachable :: "content list \<Rightarrow> nat \<Rightarrow> upload_env \<Rightarrow> content list \<Rightarrow> transfer \<Rightarrow> bool"
  for files chunk_size env stored where
  start: "transfer_reachable files chunk_size env stored (transfer_start files stored)"
| step: "transfer_reachable files chunk_size env stored s \<Longrightarrow> transfer_step files chunk_size env s t \<Longrightarrow>
    transfer_reachable files chunk_size env stored t"

inductive_cases transfer_stepE: "transfer_step files chunk_size env s t"

end
