(* ===== verification/Upload_Properties.thy ===== *)
theory Upload_Properties
  imports Upload_Transfer
begin

text \<open>
  What the upload guarantees: which selections are sent, that retries never write a chunk twice, that the
  parts on the server are always beginnings of the files and are the files once both workers have ended, and
  that a transfer ends.
\<close>

section \<open>Folders\<close>

definition folder_of :: "jsstr \<Rightarrow> jsstr \<Rightarrow> bool" where
  "folder_of f p \<longleftrightarrow> (\<exists>r. p = f @ [slash] @ r)"

lemma before_last_slash_last: "slash \<notin> set r \<Longrightarrow> before_last_slash (q @ slash # r) = Some q"
proof -
  assume a: "slash \<notin> set r"
  have "dropWhile (\<lambda>c. c \<noteq> slash) (rev r @ slash # rev q) = slash # rev q"
    using a by (subst dropWhile_append2) auto
  then show ?thesis by (simp add: before_last_slash_def)
qed

lemma last_slash_split: "slash \<in> set p \<Longrightarrow> \<exists>q r. p = q @ slash # r \<and> slash \<notin> set r"
  by (rule split_list_last)

lemma parentOf_folder: "parentOf p \<noteq> [] \<Longrightarrow> folder_of (parentOf p) p"
proof -
  assume n: "parentOf p \<noteq> []"
  then have "slash \<in> set p" by (auto simp: parentOf_def before_last_slash_def split: if_splits)
  then obtain q r where p: "p = q @ slash # r" "slash \<notin> set r" using last_slash_split by blast
  then show ?thesis by (auto simp: parentOf_def before_last_slash_last folder_of_def)
qed

lemma folder_of_parent:
  assumes f: "folder_of f p" "f \<noteq> []"
  shows "parentOf p \<noteq> [] \<and> (f = parentOf p \<or> folder_of f (parentOf p))"
proof -
  obtain t where t: "p = f @ slash # t" using f by (auto simp: folder_of_def)
  obtain q r where q: "p = q @ slash # r" "slash \<notin> set r" using last_slash_split [of p] t by auto
  then have pq: "parentOf p = q" by (simp add: parentOf_def before_last_slash_last)
  from t q(1) consider (eq) "f = q" | (longer) u where "f = q @ slash # u" "r = u @ slash # t"
    | (shorter) u where "q = f @ slash # u"
    by (auto simp: append_eq_append_conv2 Cons_eq_append_conv append_eq_Cons_conv)
  then show ?thesis
  proof cases
    case longer
    then show ?thesis using q(2) by simp
  qed (use f pq in \<open>auto simp: folder_of_def\<close>)
qed

lemma folder_of_trans: "folder_of f g \<Longrightarrow> folder_of g p \<Longrightarrow> folder_of f p"
  by (auto simp: folder_of_def)

lemma folder_step:
  "f \<noteq> [] \<Longrightarrow> folder_of f p \<longleftrightarrow> parentOf p \<noteq> [] \<and> (f = parentOf p \<or> folder_of f (parentOf p))"
  using folder_of_parent [of f p] parentOf_folder [of p] folder_of_trans [of f "parentOf p" p] by blast

lemma folder_clash_None:
  "folder_clash paths q = None \<longleftrightarrow> (q = [] \<or> (\<forall>f \<in> paths. f \<noteq> [] \<longrightarrow> f \<noteq> q \<and> \<not> folder_of f q))"
proof (induction paths q rule: folder_clash.induct)
  case (1 paths q)
  show ?case
  proof (cases "q = [] \<or> q \<in> paths")
    case True
    then show ?thesis by (auto simp: folder_clash.simps [of paths q])
  next
    case False
    then have "folder_clash paths q = folder_clash paths (parentOf q)"
      by (simp add: folder_clash.simps [of paths q])
    also have "\<dots> = None \<longleftrightarrow> (parentOf q = [] \<or> (\<forall>f \<in> paths. f \<noteq> [] \<longrightarrow> f \<noteq> parentOf q \<and> \<not> folder_of f (parentOf q)))"
      using 1 False by blast
    also have "\<dots> \<longleftrightarrow> (\<forall>f \<in> paths. f \<noteq> [] \<longrightarrow> f \<noteq> q \<and> \<not> folder_of f q)"
      using folder_step [of _ q] False by blast
    finally show ?thesis using False by simp
  qed
qed

lemma first_clash_None:
  "first_clash paths ps = None \<longleftrightarrow> (\<forall>p \<in> set ps. \<forall>f \<in> paths. f \<noteq> [] \<longrightarrow> \<not> folder_of f p)"
proof (induction ps)
  case (Cons p ps)
  have "folder_clash paths (parentOf p) = None \<longleftrightarrow> (\<forall>f \<in> paths. f \<noteq> [] \<longrightarrow> \<not> folder_of f p)"
    unfolding folder_clash_None using folder_step [of _ p] by blast
  then show ?case using Cons by (auto split: option.splits)
qed simp

section \<open>The check of a selection\<close>

lemma scan_entries_Inr:
  "scan_entries es paths amount = Inr r \<longleftrightarrow>
     list_all (\<lambda>e. snd e \<le> limit_file_bytes \<and> upload_safePath (fst e)) es \<and> distinct (map fst es) \<and>
     set (map fst es) \<inter> set paths = {} \<and> r = (paths @ map fst es, amount + sum_list (map snd es))"
  by (induction es arbitrary: paths amount) (auto simp: not_less)

definition acceptable :: "upload_entry list \<Rightarrow> bool" where
  "acceptable entries \<longleftrightarrow>
     entries \<noteq> [] \<and> length entries \<le> limit_files \<and> distinct (map fst entries) \<and>
     (\<forall>(path, sz) \<in> set entries. sz \<le> limit_file_bytes \<and> upload_safePath path \<and>
        \<not> (\<exists>f \<in> fst ` set entries. folder_of f path)) \<and>
     sum_list (map snd entries) \<le> limit_total_bytes"

lemma safe_nonempty: "upload_safePath p \<Longrightarrow> p \<noteq> []"
  by (auto simp: upload_safePath_def)

text \<open>
  A selection passes the check exactly when it is a non-empty set of at most 50000 files with safe paths, none
  over 4 GiB, not over 20 GiB together, and no path is the folder of another.
\<close>

theorem upload_check_exact: "uploadProblem entries = None \<longleftrightarrow> acceptable entries"
proof (cases "scan_entries entries [] 0")
  case (Inl p)
  then have "\<not> (list_all (\<lambda>e. snd e \<le> limit_file_bytes \<and> upload_safePath (fst e)) entries \<and> distinct (map fst entries))"
    using scan_entries_Inr [of entries "[]" 0 "(map fst entries, sum_list (map snd entries))"] by auto
  then have "\<not> acceptable entries" by (auto simp: acceptable_def list_all_iff)
  with Inl show ?thesis by (auto simp: uploadProblem_def)
next
  case (Inr r)
  then have a: "list_all (\<lambda>e. snd e \<le> limit_file_bytes \<and> upload_safePath (fst e)) entries" "distinct (map fst entries)"
    and r: "r = (map fst entries, sum_list (map snd entries))" using scan_entries_Inr [of entries "[]" 0 r] by auto
  have f: "first_clash (set (map fst entries)) (map fst entries) = None \<longleftrightarrow>
      (\<forall>(path, sz) \<in> set entries. \<not> (\<exists>f \<in> fst ` set entries. folder_of f path))"
    unfolding first_clash_None using a(1) by (fastforce simp: list_all_iff dest: safe_nonempty)
  have "uploadProblem entries = None \<longleftrightarrow> entries \<noteq> [] \<and> length entries \<le> limit_files \<and>
      first_clash (set (map fst entries)) (map fst entries) = None \<and> sum_list (map snd entries) \<le> limit_total_bytes"
    using Inr r by (auto simp: uploadProblem_def split: option.splits)
  then show ?thesis unfolding f using a by (auto simp: acceptable_def list_all_iff)
qed

section \<open>One chunk\<close>

lemma append_chunk_part: "snd (append_chunk f sz offset chunk part) \<in> {part, part @ chunk}"
  by (cases f) (simp_all add: append_chunk_def)

lemma append_chunk_stale: "offset \<noteq> length part \<Longrightarrow> snd (append_chunk f sz offset chunk part) = part"
  by (cases f) (simp_all add: append_chunk_def)

lemma append_chunk_ok: "fst (append_chunk f sz offset chunk part) = (200, n) \<Longrightarrow>
    n = length (snd (append_chunk f sz offset chunk part)) \<and> n = offset + length chunk"
  by (cases f) (auto simp: append_chunk_def split: if_splits)

lemma append_chunk_conflict: "fst (append_chunk f sz offset chunk part) = (409, n) \<Longrightarrow>
    f \<noteq> OtherWriter \<Longrightarrow> f \<noteq> Refuses 9 \<Longrightarrow>
    snd (append_chunk f sz offset chunk part) = part \<and> (offset \<noteq> length part \<or> length part = sz)"
  by (cases f) (auto simp: append_chunk_def split: if_splits)

lemma put_chunk_part:
  "snd (put_chunk a sz offset chunk part) \<in> {part, part @ chunk}"
  "offset \<noteq> length part \<Longrightarrow> snd (put_chunk a sz offset chunk part) = part"
  using append_chunk_part append_chunk_stale by (cases a; simp add: put_chunk_def)+

lemma put_chunk_ok: "put_chunk a sz offset chunk part = (Some (200, n), part') \<Longrightarrow>
    n = length part' \<and> n = offset + length chunk"
  by (cases a) (auto simp: put_chunk_def dest: append_chunk_ok)

definition one_chunk :: "nat \<Rightarrow> nat \<Rightarrow> content \<Rightarrow> content \<Rightarrow> (send_error + nat) \<times> content \<times> nat \<Rightarrow> bool" where
  "one_chunk left k chunk part r \<longleftrightarrow>
     (case r of (answer, part', k') \<Rightarrow>
        k \<le> k' \<and> k' \<le> k + left + 1 \<and> (part' = part \<or> part' = part @ chunk) \<and>
        (case answer of Inr n \<Rightarrow> n = length part' | Inl _ \<Rightarrow> True))"

lemma one_chunk_simps [simp]:
  "one_chunk left k chunk part (Inl e, part', k') \<longleftrightarrow>
     k \<le> k' \<and> k' \<le> k + left + 1 \<and> (part' = part \<or> part' = part @ chunk)"
  "one_chunk left k chunk part (Inr n, part', k') \<longleftrightarrow>
     k \<le> k' \<and> k' \<le> k + left + 1 \<and> (part' = part \<or> part' = part @ chunk) \<and> n = length part'"
  by (simp_all add: one_chunk_def)

definition stale_kept :: "nat \<Rightarrow> content \<Rightarrow> (send_error + nat) \<times> content \<times> nat \<Rightarrow> bool" where
  "stale_kept offset part r \<longleftrightarrow> offset = length part \<or> fst (snd r) = part"

lemma send_attempts_stale: "stale_kept offset part (send_attempts left env sz offset chunk k part)"
proof (induction left arbitrary: k)
  case (Suc left)
  have "offset = length part \<or> snd (put_chunk (attempt_at env k) sz offset chunk part) = part"
    using put_chunk_part(2) by blast
  with Suc show ?case
    by (cases "put_chunk (attempt_at env k) sz offset chunk part") (auto simp: stale_kept_def split: option.splits)
next
  case 0
  have "offset = length part \<or> snd (put_chunk (attempt_at env k) sz offset chunk part) = part"
    using put_chunk_part(2) by blast
  then show ?case
    by (cases "put_chunk (attempt_at env k) sz offset chunk part") (auto simp: stale_kept_def split: option.splits)
qed

lemma one_chunk_later: "one_chunk left (Suc k) chunk part r \<Longrightarrow> one_chunk (Suc left) k chunk part r"
  by (auto simp: one_chunk_def split: prod.splits)

lemma one_chunk_stored:
  "one_chunk left (Suc k) chunk (part @ chunk) r \<Longrightarrow> stale_kept (length part) (part @ chunk) r \<Longrightarrow>
    one_chunk (Suc left) k chunk part r"
  by (auto simp: one_chunk_def stale_kept_def split: prod.splits)

lemma send_attempts_one_chunk: "one_chunk left k chunk part (send_attempts left env sz offset chunk k part)"
proof (induction left arbitrary: k part)
  case 0
  obtain r part' where Pair: "put_chunk (attempt_at env k) sz offset chunk part = (r, part')" by fastforce
  then have p: "part' = part \<or> part' = part @ chunk"
    using put_chunk_part(1) [of "attempt_at env k" sz offset chunk part] by simp
  show ?case
  proof (cases r)
    case (Some a)
    obtain st n where "a = (st, n)" by fastforce
    with Some Pair p show ?thesis by (auto dest: put_chunk_ok split: option.split)
  qed (use Pair p in auto)
next
  case (Suc left)
  obtain r part' where Pair: "put_chunk (attempt_at env k) sz offset chunk part = (r, part')" by fastforce
  then have p: "part' = part \<or> part' = part @ chunk"
    using put_chunk_part(1) [of "attempt_at env k" sz offset chunk part] by simp
  have again: "one_chunk (Suc left) k chunk part (send_attempts left env sz offset chunk (Suc k) part')"
  proof (cases "part' = part")
    case True
    then show ?thesis using Suc.IH one_chunk_later by blast
  next
    case False
    then have "offset = length part" "part' = part @ chunk"
      using put_chunk_part(2) [of offset part "attempt_at env k" sz chunk] Pair p by auto
    then show ?thesis using one_chunk_stored [OF Suc.IH] send_attempts_stale by blast
  qed
  show ?case
  proof (cases r)
    case None
    then show ?thesis using Pair again by simp
  next
    case (Some a)
    obtain st n where "a = (st, n)" by fastforce
    with Some Pair p again show ?thesis
      by (auto dest: put_chunk_ok split: option.split)
  qed
qed


section \<open>The parts on the server\<close>

lemma sendChunk_part: "sendChunk env sz offset chunk k part = (r, part', k') \<Longrightarrow>
    part' = part \<or> offset = length part \<and> part' = part @ chunk"
  using send_attempts_one_chunk [of retries k chunk part env sz offset]
    send_attempts_stale [of offset part retries env sz chunk k]
  by (cases r) (auto simp: sendChunk_def stale_kept_def)

lemma sendChunk_Inr: "sendChunk env sz offset chunk k part = (Inr n, part', k') \<Longrightarrow> n = length part'"
  using send_attempts_one_chunk [of retries k chunk part env sz offset] by (simp add: sendChunk_def)

definition part_of :: "content \<Rightarrow> content \<Rightarrow> bool" where
  "part_of part file \<longleftrightarrow> part = take (length part) file"

lemma part_of_length: "part_of part file \<Longrightarrow> length part \<le> length file"
  by (metis linear part_of_def take_all_iff)

lemma part_of_chunk: "part_of part file \<Longrightarrow> part_of (part @ chunk_of file c (length part)) file"
proof -
  assume p: "part_of part file"
  let ?m = "min (length file) (length part + c)"
  have "part @ take (?m - length part) (drop (length part) file) = take ?m file"
    using p part_of_length [OF p]
    by (metis le_add1 le_add_diff_inverse min.bounded_iff part_of_def take_add)
  then show ?thesis unfolding part_of_def chunk_of_def
    by (metis length_take min.left_idem take_take)
qed

definition crashed :: "transfer \<Rightarrow> bool" where
  "crashed s \<longleftrightarrow> (\<exists>e. WorkerCrashed e \<in> set (upload_workers s))"

definition holds :: "transfer \<Rightarrow> nat \<Rightarrow> nat \<Rightarrow> bool" where
  "holds s w i \<longleftrightarrow> w < length (upload_workers s) \<and> upload_workers s ! w = WorkerSending i"

lemma holds_simps [simp]:
  "holds (s\<lparr>upload_workers := (upload_workers s)[w := x]\<rparr>) v i \<longleftrightarrow>
     (if v = w then w < length (upload_workers s) \<and> x = WorkerSending i else holds s v i)"
  "holds (s\<lparr>queued_files := q\<rparr>) v i \<longleftrightarrow> holds s v i"
  "holds (s\<lparr>parts := p\<rparr>) v i \<longleftrightarrow> holds s v i"
  "holds (s\<lparr>received := r\<rparr>) v i \<longleftrightarrow> holds s v i"
  "holds (s\<lparr>requests := k\<rparr>) v i \<longleftrightarrow> holds s v i"
  by (auto simp: holds_def nth_list_update)

lemma holds_more [simp]:
  "holds (s\<lparr>queued_files := q, upload_workers := (upload_workers s)[w := x]\<rparr>) v i \<longleftrightarrow>
     (if v = w then w < length (upload_workers s) \<and> x = WorkerSending i else holds s v i)"
  "holds (s\<lparr>upload_workers := (upload_workers s)[w := x], parts := p, requests := k\<rparr>) v i \<longleftrightarrow>
     (if v = w then w < length (upload_workers s) \<and> x = WorkerSending i else holds s v i)"
  "holds (s\<lparr>received := r, parts := p, requests := k\<rparr>) v i \<longleftrightarrow> holds s v i"
  by (auto simp: holds_def nth_list_update)

text \<open>The workers and the queue share out the files.\<close>

definition shared_out :: "content list \<Rightarrow> transfer \<Rightarrow> bool" where
  "shared_out files s \<longleftrightarrow>
     distinct (queued_files s) \<and> set (queued_files s) \<subseteq> {..<length files} \<and>
     (\<forall>w i. holds s w i \<longrightarrow> i < length files \<and> i \<notin> set (queued_files s) \<and> (\<forall>v. holds s v i \<longrightarrow> v = w))"

text \<open>Every part is a beginning of its file, at least as long as the client believes.\<close>

definition parts_begin :: "content list \<Rightarrow> transfer \<Rightarrow> bool" where
  "parts_begin files s \<longleftrightarrow>
     length (received s) = length files \<and> length (parts s) = length files \<and>
     (\<forall>i < length files. part_of (parts s ! i) (files ! i) \<and> received s ! i \<le> length (parts s ! i))"

text \<open>An incomplete file is queued or held by a worker, unless a worker crashed.\<close>

definition nothing_forgotten :: "content list \<Rightarrow> transfer \<Rightarrow> bool" where
  "nothing_forgotten files s \<longleftrightarrow>
     crashed s \<or> (\<forall>i < length files. length (files ! i) \<le> received s ! i \<or>
        i \<in> set (queued_files s) \<or> WorkerSending i \<in> set (upload_workers s))"

lemma shared_out_step: "transfer_step files c env s t \<Longrightarrow> shared_out files s \<Longrightarrow> shared_out files t"
proof (induction rule: transfer_step.cases)
  case (take_file w u i rest)
  then have "\<not> holds u w j" for j by (simp add: holds_def)
  with take_file show ?case by (auto simp: shared_out_def)
next
  case (no_file w u)
  then have "\<not> holds u w j" for j by (simp add: holds_def)
  with no_file show ?case by (auto simp: shared_out_def)
qed (auto simp: shared_out_def)

lemma part_update:
  assumes "parts_begin files s" "i < length files" "part_of part (files ! i)"
    "length (parts s ! i) \<le> length part" "n = length part \<or> n = received s ! i"
  shows "parts_begin files (s\<lparr>received := (received s)[i := n], parts := (parts s)[i := part]\<rparr>)"
  using assms by (fastforce simp: parts_begin_def nth_list_update)

lemma sent_part:
  assumes p: "parts_begin files s" and i: "i < length files"
    and e: "sendChunk env sz (received s ! i) (chunk_of (files ! i) c (received s ! i)) k (parts s ! i) = (r, part, k')"
  shows "part_of part (files ! i)" "length (parts s ! i) \<le> length part"
  using sendChunk_part [OF e] p i part_of_chunk [of "parts s ! i" "files ! i" c]
  by (auto simp: parts_begin_def)

lemma parts_begin_more [simp]:
  "parts_begin files (s\<lparr>requests := k\<rparr>) = parts_begin files s"
  "parts_begin files (s\<lparr>upload_workers := w\<rparr>) = parts_begin files s"
  "parts_begin files (s\<lparr>queued_files := q\<rparr>) = parts_begin files s"
  by (simp_all add: parts_begin_def)

lemma parts_begin_step:
  "transfer_step files c env s t \<Longrightarrow> shared_out files s \<Longrightarrow> parts_begin files s \<Longrightarrow> parts_begin files t"
proof (induction rule: transfer_step.cases)
  case (chunk_sent w u i n part k)
  then have u: "s = u" and p: "parts_begin files u" and i: "i < length files" by (auto simp: shared_out_def holds_def)
  note p' = sent_part [OF p i chunk_sent(6)]
  show ?case unfolding chunk_sent(2)
    using part_update [OF p i p', of n] sendChunk_Inr [OF chunk_sent(6)]
    by (simp add: parts_begin_def)
next
  case (chunk_failed w u i e part k)
  then have u: "s = u" and p: "parts_begin files u" and i: "i < length files" by (auto simp: shared_out_def holds_def)
  note p' = sent_part [OF p i chunk_failed(6)]
  show ?case unfolding chunk_failed(2)
    using part_update [OF p i p', of "received u ! i"]
    by (simp add: parts_begin_def)
qed (auto simp: parts_begin_def)

lemma sending_in_set: "WorkerSending i \<in> set (upload_workers s) \<longleftrightarrow> (\<exists>w. holds s w i)"
  by (auto simp: holds_def in_set_conv_nth)

lemma crashed_iff: "crashed s \<longleftrightarrow> (\<exists>w e. w < length (upload_workers s) \<and> upload_workers s ! w = WorkerCrashed e)"
  by (auto simp: crashed_def in_set_conv_nth)

lemma crash_update: "w < length ws \<Longrightarrow> WorkerCrashed e \<in> set (ws[w := WorkerCrashed e])"
  by (simp add: set_update_memI)

lemma crashed_other:
  "crashed s \<Longrightarrow> \<forall>e. upload_workers s ! w \<noteq> WorkerCrashed e \<Longrightarrow>
    crashed (s\<lparr>upload_workers := (upload_workers s)[w := x]\<rparr>)"
  by (simp add: crashed_iff) (metis nth_list_update_neq)

lemma crashed_more [simp]:
  "crashed (s\<lparr>queued_files := q\<rparr>) = crashed s"
  "crashed (s\<lparr>queued_files := q, upload_workers := ws\<rparr>) = crashed (s\<lparr>upload_workers := ws\<rparr>)"
  "crashed (s\<lparr>received := r, parts := p, requests := k\<rparr>) = crashed s"
  by (simp_all add: crashed_def)

lemma crashed_kept: "transfer_step files c env s t \<Longrightarrow> crashed s \<Longrightarrow> crashed t"
proof (induction rule: transfer_step.cases)
  case (chunk_failed w u i e part k)
  then show ?case using crash_update [of w "upload_workers u" e] by (auto simp: crashed_def)
qed (simp_all add: crashed_other)

definition ended_late :: "transfer \<Rightarrow> bool" where
  "ended_late s \<longleftrightarrow> length (upload_workers s) = 2 \<and> (queued_files s = [] \<or> WorkerEnded \<notin> set (upload_workers s))"

lemma ended_late_step: "transfer_step files c env s t \<Longrightarrow> ended_late s \<Longrightarrow> ended_late t"
  by (induction rule: transfer_step.cases) (auto simp: ended_late_def dest!: set_update_subset_insert [THEN subsetD])

lemma nothing_forgotten_step:
  assumes "transfer_step files c env s t" "parts_begin files s" "nothing_forgotten files s"
  shows "nothing_forgotten files t"
proof (cases "crashed s")
  case True
  then show ?thesis using crashed_kept assms by (simp add: nothing_forgotten_def)
next
  case False
  with assms have a: "\<And>i. i < length files \<Longrightarrow> length (files ! i) \<le> received s ! i \<or>
      i \<in> set (queued_files s) \<or> (\<exists>w. holds s w i)" by (auto simp: nothing_forgotten_def sending_in_set)
  from assms(1,2) show ?thesis
  proof (induction rule: transfer_step.cases)
    case (take_file w u i rest)
    then have "\<not> holds u w j" for j by (simp add: holds_def)
    with take_file show ?case unfolding nothing_forgotten_def sending_in_set using a
      by simp (metis insertE list.simps(15))
  next
    case (no_file w u)
    then have "\<not> holds u w j" for j by (simp add: holds_def)
    with no_file show ?case unfolding nothing_forgotten_def sending_in_set using a by fastforce
  next
    case (chunk_sent w u i n part k)
    then have h: "holds u w i" by (simp add: holds_def)
    have "length (files ! j) \<le> (received u)[i := n] ! j \<or> j \<in> set (queued_files u) \<or> (\<exists>w. holds u w j)"
      if "j < length files" for j
      using h a [OF that] chunk_sent(1) by (cases "j = i") auto
    then show ?case unfolding nothing_forgotten_def sending_in_set chunk_sent(2) by simp
  next
    case (chunk_failed w u i e part k)
    then show ?case using crash_update [of w "upload_workers u" e] by (auto simp: nothing_forgotten_def crashed_def)
  next
    case (file_done w u i)
    then have "\<And>j. holds u w j \<longleftrightarrow> j = i" by (auto simp: holds_def)
    with file_done show ?case unfolding nothing_forgotten_def sending_in_set using a
      by simp (metis not_less)
  qed
qed

definition prefixes_stored :: "content list \<Rightarrow> content list \<Rightarrow> bool" where
  "prefixes_stored stored files \<longleftrightarrow> list_all2 part_of stored files"

lemma transfer_invs:
  assumes "transfer_reachable files c env stored s" "prefixes_stored stored files"
  shows "shared_out files s \<and> parts_begin files s \<and> nothing_forgotten files s \<and> ended_late s"
  using assms
proof (induction rule: transfer_reachable.induct)
  case start
  then have l: "length stored = length files" by (simp add: prefixes_stored_def list_all2_lengthD)
  have "holds (transfer_start files stored) w i \<Longrightarrow> False" for w i
    by (auto simp: holds_def transfer_start_def nth_Cons split: nat.splits)
  then show ?case using start l
    by (auto simp: shared_out_def parts_begin_def nothing_forgotten_def transfer_start_def ended_late_def
        prefixes_stored_def list_all2_conv_all_nth not_less)
next
  case (step s t)
  then show ?case using shared_out_step parts_begin_step nothing_forgotten_step ended_late_step by blast
qed

definition all_ended :: "transfer \<Rightarrow> bool" where
  "all_ended s \<longleftrightarrow> list_all (\<lambda>w. w = WorkerEnded) (upload_workers s)"

text \<open>
  C5. At every moment of a transfer each part on the server is a beginning of its file and no two workers hold
  the same file; when both workers have ended, every part is its whole file.
\<close>

theorem transfer_is_exact:
  assumes "transfer_reachable files c env stored s" and "prefixes_stored stored files"
  shows "prefixes_stored (parts s) files \<and> shared_out files s \<and> (\<not> all_ended s \<or> parts s = files)"
proof -
  have i: "shared_out files s" "parts_begin files s" "nothing_forgotten files s" "ended_late s"
    using transfer_invs [OF assms] by auto
  have p: "prefixes_stored (parts s) files"
    using i(2) by (simp add: prefixes_stored_def parts_begin_def list_all2_conv_all_nth)
  have "parts s = files" if "all_ended s"
  proof (rule nth_equalityI)
    show l: "length (parts s) = length files" using i(2) by (simp add: parts_begin_def)
    fix j assume "j < length (parts s)"
    then have j: "j < length files" by (simp add: l)
    have "\<not> crashed s" "WorkerSending j \<notin> set (upload_workers s)" "queued_files s = []"
      using that i(4) by (auto simp: all_ended_def crashed_def list_all_iff ended_late_def length_Suc_conv numeral_2_eq_2)
    then have "length (files ! j) \<le> received s ! j" using i(3) j by (auto simp: nothing_forgotten_def)
    then show "parts s ! j = files ! j" using i(2) j by (auto simp: parts_begin_def part_of_def)
  qed
  with p i(1) show ?thesis by blast
qed

definition calm :: upload_env where
  "calm = \<lparr>attempt_at = \<lambda>k. if k = 0 then LostAfter NoFault else Reached NoFault, abort_at = \<lambda>k. False, read_failure = \<lambda>k. None\<rparr>"

definition calm_end :: transfer where
  "calm_end = \<lparr>received = [3], queued_files = [], upload_workers = [WorkerEnded, WorkerEnded], parts = [[1, 2, 3]], requests = 2\<rparr>"

lemma calm_sends: "sendChunk calm 3 1 [2, 3] 0 [1] = (Inr 3, [1, 2, 3], 2)"
  by (simp add: sendChunk_def retries_def numeral_eq_Suc calm_def put_chunk_def append_chunk_def)

lemma calm_run: "transfer_reachable [[1, 2, 3]] 2 calm [[1]] calm_end"
proof -
  let ?step = "transfer_step [[1, 2, 3]] 2 calm" and ?reach = "transfer_reachable [[1, 2, 3]] 2 calm [[1]]"
  let ?s = "\<lambda>r ws p k. \<lparr>received = [r], queued_files = [], upload_workers = ws, parts = [p], requests = k\<rparr>"
  have "?reach \<lparr>received = [1], queued_files = [0], upload_workers = [WorkerIdle, WorkerIdle], parts = [[1]], requests = 0\<rparr>"
    using transfer_reachable.start [of "[[1, 2, 3]]" 2 calm "[[1]]"] by (simp add: transfer_start_def)
  from transfer_reachable.step [OF this transfer_step.take_file [where w = 0]]
  have "?reach (?s 1 [WorkerSending 0, WorkerIdle] [1] 0)" by simp
  from transfer_reachable.step [OF this transfer_step.chunk_sent [where w = 0 and i = 0 and n = 3 and part = "[1, 2, 3]" and k = 2]]
  have "?reach (?s 3 [WorkerSending 0, WorkerIdle] [1, 2, 3] 2)" using calm_sends by (simp add: chunk_of_def numeral_3_eq_3)
  from transfer_reachable.step [OF this transfer_step.file_done [where w = 0]]
  have "?reach (?s 3 [WorkerIdle, WorkerIdle] [1, 2, 3] 2)" by simp
  from transfer_reachable.step [OF this transfer_step.no_file [where w = 0]]
  have "?reach (?s 3 [WorkerEnded, WorkerIdle] [1, 2, 3] 2)" by simp
  from transfer_reachable.step [OF this transfer_step.no_file [where w = 1]]
  show ?thesis by (simp add: calm_end_def)
qed

lemma calm_stored: "prefixes_stored [[1]] [[1, 2, 3]]"
  by (simp add: prefixes_stored_def part_of_def)

theorem transfer_is_exact_witness: "all_ended calm_end \<and> parts calm_end = [[1, 2, 3]]"
  using transfer_is_exact [OF calm_run calm_stored] by (simp add: all_ended_def calm_end_def)

section \<open>The end of a transfer\<close>

text \<open>No answer is a conflict for another reason than a wrong offset or a complete file.\<close>

definition no_conflicts :: "upload_env \<Rightarrow> bool" where
  "no_conflicts env \<longleftrightarrow> (\<forall>k. attempt_at env k \<noteq> Reached OtherWriter \<and> attempt_at env k \<noteq> Reached (Refuses 9))"

lemma put_chunk_progress:
  assumes "put_chunk a sz offset chunk part = (Some (st, n), part')"
    and "a \<noteq> Reached OtherWriter" "a \<noteq> Reached (Refuses 9)"
    and "st = 200 \<or> st = 409" "chunk \<noteq> []" "offset \<le> length part" "offset < sz"
  shows "offset < length part'"
proof (cases a)
  case (Reached f)
  then have e: "fst (append_chunk f sz offset chunk part) = (st, n)" "snd (append_chunk f sz offset chunk part) = part'"
    using assms(1) by (auto simp: put_chunk_def)
  show ?thesis
  proof (cases "st = 200")
    case True
    then have "length part' = offset + length chunk" using append_chunk_ok [of f sz offset chunk part n] e by simp
    then show ?thesis using assms(5) by (metis less_add_same_cancel1 length_greater_0_conv)
  next
    case False
    then have "part' = part \<and> (offset \<noteq> length part \<or> length part = sz)"
      using append_chunk_conflict [of f sz offset chunk part n] e assms Reached by auto
    then show ?thesis using assms(6,7) by auto
  qed
qed (use assms(1) in \<open>auto simp: put_chunk_def\<close>)

lemma put_chunk_grows: "length part \<le> length (snd (put_chunk a sz offset chunk part))"
  using put_chunk_part(1) [of a sz offset chunk part] by auto

lemma send_attempts_progress:
  assumes "no_conflicts env" "chunk \<noteq> []" "offset < sz"
  shows "send_attempts left env sz offset chunk k part = (Inr n, part', k') \<Longrightarrow> offset \<le> length part \<Longrightarrow> offset < length part'"
proof (induction left arbitrary: k part)
  case 0
  then show ?case
    using put_chunk_progress [of "attempt_at env k" sz offset chunk part] assms
    by (auto simp: no_conflicts_def split: if_splits option.splits prod.splits)
next
  case (Suc left)
  obtain r p where P: "put_chunk (attempt_at env k) sz offset chunk part = (r, p)" by fastforce
  have g: "offset \<le> length p" using put_chunk_grows [of part "attempt_at env k" sz offset chunk] P Suc.prems(2) by simp
  have a: "\<not> abort_at env k" using Suc.prems(1) by (auto split: if_splits)
  show ?case
  proof (cases r)
    case None
    then show ?thesis using Suc.IH [of "Suc k" p] Suc.prems(1) P g a by simp
  next
    case (Some q)
    obtain st m where q: "q = (st, m)" by fastforce
    show ?thesis
    proof (cases "st = 200 \<or> st = 409")
      case True
      then have "offset < length p"
        using put_chunk_progress [of "attempt_at env k" sz offset chunk part st m p] P Some q assms Suc.prems(2)
        by (auto simp: no_conflicts_def)
      then show ?thesis using True Suc.prems(1) P Some q a by (auto split: if_splits option.splits)
    next
      case False
      then show ?thesis using Suc.IH [of "Suc k" p] Suc.prems(1) P Some q g a by (auto split: if_splits)
    qed
  qed
qed

primrec worker_cost :: "upload_worker \<Rightarrow> nat" where
  "worker_cost WorkerIdle = 1"
| "worker_cost (WorkerSending i) = 2"
| "worker_cost WorkerEnded = 0"
| "worker_cost (WorkerCrashed e) = 0"

definition transfer_work :: "content list \<Rightarrow> transfer \<Rightarrow> nat" where
  "transfer_work files s = 3 * length (queued_files s) + sum_list (map worker_cost (upload_workers s)) +
     (\<Sum>i < length files. length (files ! i) - received s ! i)"

lemma cost_update: "w < length ws \<Longrightarrow>
    sum_list (map worker_cost (ws[w := x])) + worker_cost (ws ! w) = sum_list (map worker_cost ws) + worker_cost x"
proof (induction ws arbitrary: w)
  case (Cons y ws)
  then show ?case by (cases w) auto
qed simp

lemma left_update:
  assumes "i < length files" "length r = length files" "r ! i < n" "r ! i < length (files ! i)"
  shows "(\<Sum>j < length files. length (files ! j) - r[i := n] ! j) < (\<Sum>j < length files. length (files ! j) - r ! j)"
proof (rule sum_strict_mono_ex1)
  show "\<forall>j \<in> {..<length files}. length (files ! j) - r[i := n] ! j \<le> length (files ! j) - r ! j"
    using assms by (auto simp: nth_list_update)
  show "\<exists>j \<in> {..<length files}. length (files ! j) - r[i := n] ! j < length (files ! j) - r ! j"
    using assms by (intro bexI [of _ i]) auto
qed simp

lemma chunk_nonempty: "0 < c \<Longrightarrow> offset < length file \<Longrightarrow> chunk_of file c offset \<noteq> []"
  by (auto simp: chunk_of_def)

lemma work_decreases:
  assumes "transfer_step files c env s t" "shared_out files s" "parts_begin files s" "no_conflicts env" "0 < c"
  shows "transfer_work files t < transfer_work files s"
  using assms(1-3)
proof (induction rule: transfer_step.cases)
  case (take_file w u i rest)
  then show ?case using cost_update [of w "upload_workers u" "WorkerSending i"] by (simp add: transfer_work_def)
next
  case (no_file w u)
  then show ?case using cost_update [of w "upload_workers u" WorkerEnded] by (simp add: transfer_work_def)
next
  case (chunk_sent w u i n part k)
  then have p: "parts_begin files u" and i: "i < length files" by (auto simp: shared_out_def holds_def)
  have "received u ! i < length part"
    using send_attempts_progress [OF assms(4) chunk_nonempty [OF assms(5) chunk_sent(5)] chunk_sent(5)
        chunk_sent(6) [unfolded sendChunk_def]] p i by (simp add: parts_begin_def)
  then have "received u ! i < n" using sendChunk_Inr [OF chunk_sent(6)] by simp
  then show ?case using left_update [OF i, of "received u" n] chunk_sent(1,2,5) p
    by (simp add: transfer_work_def parts_begin_def)
next
  case (chunk_failed w u i e part k)
  then show ?case using cost_update [of w "upload_workers u" "WorkerCrashed e"] by (simp add: transfer_work_def)
next
  case (file_done w u i)
  then show ?case using cost_update [of w "upload_workers u" WorkerIdle] by (simp add: transfer_work_def)
qed

definition over :: "transfer \<Rightarrow> bool" where
  "over s \<longleftrightarrow> list_all (\<lambda>w. w = WorkerEnded \<or> (\<exists>e. w = WorkerCrashed e)) (upload_workers s)"

lemma transfer_can_step: "over s \<or> (\<exists>t. transfer_step files c env s t)"
proof (cases "over s")
  case False
  then obtain w where w: "w < length (upload_workers s)"
    "upload_workers s ! w \<noteq> WorkerEnded" "\<forall>e. upload_workers s ! w \<noteq> WorkerCrashed e"
    by (auto simp: over_def list_all_length)
  show ?thesis
  proof (cases "upload_workers s ! w")
    case WorkerIdle
    show ?thesis
    proof (cases "queued_files s")
      case Nil
      then show ?thesis using transfer_step.no_file [OF w(1) WorkerIdle Nil] by blast
    next
      case (Cons i rest)
      then show ?thesis using transfer_step.take_file [OF w(1) WorkerIdle Cons] by blast
    qed
  next
    case (WorkerSending i)
    obtain r part k where "sendChunk env (length (files ! i)) (received s ! i)
        (chunk_of (files ! i) c (received s ! i)) (requests s) (parts s ! i) = (r, part, k)"
      using prod_cases3 by blast
    then show ?thesis
      using transfer_step.chunk_sent [OF w(1) WorkerSending] transfer_step.chunk_failed [OF w(1) WorkerSending]
        transfer_step.file_done [OF w(1) WorkerSending, of files c env]
      by (cases "received s ! i < length (files ! i)"; cases r) blast+
  qed (use w in auto)
qed simp



lemma calm_no_conflicts: "no_conflicts calm"
  by (simp add: no_conflicts_def calm_def)


end
