(* ===== verification/Json_Value.thy ===== *)
theory Json_Value
  imports Prelude
begin

text \<open>
  The \<open>unknown\<close> values the boundary code inspects: JSON values as JavaScript holds them, with
  property access, \<open>Object.keys\<close>, \<open>String(...)\<close>, UTF-16 well-formedness and
  \<open>JSON.stringify\<close>. An object carries its own properties in insertion order (the language
  lists integer-like keys first; no code here depends on the order) and, when an assignment to
  \<open>__proto__\<close> replaced it, its prototype. The two zeros of the language are one value here. A read
  that may be \<open>undefined\<close> returns an option.
\<close>

datatype jval =
    JNull
  | JBool bool
  | JNum jsnum
  | JStr jsstr
  | JArr "jval list"
  | JObj (proto_of: "jval option") (own_props: "(jsstr \<times> jval) list")

abbreviation JInt :: "int \<Rightarrow> jval" where
  "JInt n \<equiv> JNum (Fin (of_int n))"

abbreviation jobj :: "(jsstr \<times> jval) list \<Rightarrow> jval" where
  "jobj ps \<equiv> JObj None ps"

text \<open>Object and string literals with ASCII names.\<close>

definition jo :: "(string \<times> jval) list \<Rightarrow> jval" where
  "jo ps = jobj (map (\<lambda>(k, v). (js k, v)) ps)"

definition jstr :: "string \<Rightarrow> jval" where
  "jstr s = JStr (js s)"

lemma jstr_simps [simp]: "jstr s = JStr (js t) \<longleftrightarrow> s = t" "jstr s \<noteq> JNull" "jo ps \<noteq> JNull"
  by (simp_all add: jstr_def jo_def js_inj)

section \<open>Objects\<close>

text \<open>\<open>record\<close>: a non-null object that is not an array (the guard both boundary files share).\<close>

definition is_record :: "jval option \<Rightarrow> bool" where
  "is_record v = (case v of Some (JObj _ _) \<Rightarrow> True | _ \<Rightarrow> False)"

lemma is_record_iff: "is_record v \<longleftrightarrow> (\<exists>p ps. v = Some (JObj p ps))"
  by (auto simp: is_record_def split: option.splits jval.splits)

lemma is_record_JObj [simp]: "is_record (Some (JObj p ps))"
  by (simp add: is_record_def)

definition object_keys :: "jval \<Rightarrow> jsstr list" where
  "object_keys v = (case v of JObj _ ps \<Rightarrow> map fst ps | _ \<Rightarrow> [])"

definition object_values :: "jval \<Rightarrow> jval list" where
  "object_values v = (case v of JObj _ ps \<Rightarrow> map snd ps | _ \<Rightarrow> [])"

lemma object_keys_JObj [simp]: "object_keys (JObj p ps) = map fst ps"
  by (simp add: object_keys_def)

lemma object_values_JObj [simp]: "object_values (JObj p ps) = map snd ps"
  by (simp add: object_values_def)

definition has_own :: "jval \<Rightarrow> jsstr \<Rightarrow> bool" where
  "has_own v k = (k \<in> set (object_keys v))"

text \<open>A property read walks the prototype chain; the built-in prototypes have none of the names read.\<close>

fun jget :: "jval \<Rightarrow> jsstr \<Rightarrow> jval option" where
  "jget (JObj p ps) k =
     (case map_of ps k of
        Some v \<Rightarrow> Some v
      | None \<Rightarrow> (case p of Some q \<Rightarrow> jget q k | None \<Rightarrow> None))"
| "jget _ k = None"

lemma jget_own: "map_of ps k = Some v \<Longrightarrow> jget (JObj p ps) k = Some v"
  by simp

lemma jget_has_own: "has_own v k \<Longrightarrow> \<exists>x. jget v k = Some x \<and> x \<in> set (object_values v)"
proof (cases v)
  case (JObj p ps)
  assume "has_own v k"
  with JObj obtain x where x: "map_of ps k = Some x"
    by (auto simp: has_own_def dest: weak_map_of_SomeI)
  then have "x \<in> snd ` set ps" by (force dest: map_of_SomeD)
  with x JObj show ?thesis by auto
qed (auto simp: has_own_def object_keys_def)

text \<open>
  The assignment \<open>o[k] = v\<close> on an object built by the parser. The key \<open>__proto__\<close> reaches
  the accessor of \<open>Object.prototype\<close> while the chain still ends there: an object value
  (or null) replaces the prototype, any other value is ignored, and no own property appears.
\<close>

fun proto_setter :: "jval option \<Rightarrow> bool" where
  "proto_setter None = True"
| "proto_setter (Some (JObj p ps)) = proto_setter p"
| "proto_setter (Some (JArr xs)) = True"
| "proto_setter (Some v) = False"

definition proto_key :: jsstr where
  "proto_key = js ''__proto__''"

definition jset :: "jval \<Rightarrow> jsstr \<Rightarrow> jval \<Rightarrow> jval" where
  "jset ob k v =
     (case ob of
        JObj p ps \<Rightarrow>
          if k = proto_key \<and> proto_setter p then
            (case v of
               JNull \<Rightarrow> JObj (Some v) ps
             | JArr _ \<Rightarrow> JObj (Some v) ps
             | JObj _ _ \<Rightarrow> JObj (Some v) ps
             | _ \<Rightarrow> ob)
          else JObj p (amap_put k v ps)
      | _ \<Rightarrow> ob)"

lemma jset_plain: "k \<noteq> proto_key \<Longrightarrow> jset (JObj p ps) k v = JObj p (amap_put k v ps)"
  by (simp add: jset_def)

lemma jset_JObj: "\<exists>p' ps'. jset (JObj p ps) k v = JObj p' ps'"
  by (auto simp: jset_def split: jval.splits)

lemma jset_ok:
  "amap_ok ps \<Longrightarrow> jset (JObj p ps) k v = JObj p' ps' \<Longrightarrow> amap_ok ps'"
  by (auto simp: jset_def am.ok_put split: if_splits jval.splits)

lemma jset_props: "jset (JObj p ps) k v = JObj p' ps' \<Longrightarrow> x \<in> set ps' \<Longrightarrow> x = (k, v) \<or> x \<in> set ps"
  by (auto simp: jset_def split: if_splits jval.splits dest: amap_put_cases)

text \<open>\<open>exactKeys\<close>: the own keys, sorted by code units, are the expected list.\<close>

definition exact_keys :: "jval \<Rightarrow> jsstr list \<Rightarrow> bool" where
  "exact_keys v ks =
     (let actual = sort (object_keys v)
      in length actual = length ks \<and> list_all (\<lambda>(a, b). a = b) (zip actual ks))"

lemma exact_keys_iff: "exact_keys v ks \<longleftrightarrow> sort (object_keys v) = ks"
proof -
  have "length xs = length ks \<and> list_all (\<lambda>(a, b). a = b) (zip xs ks) \<longleftrightarrow> xs = ks" for xs :: "jsstr list"
    by (auto simp: list_all_length list_eq_iff_nth_eq)
  then show ?thesis by (simp add: exact_keys_def Let_def)
qed

lemma exact_keys_set: "exact_keys v ks \<Longrightarrow> set (object_keys v) = set ks"
  by (metis exact_keys_iff set_sort)

lemma exact_keys_get: "exact_keys v ks \<Longrightarrow> k \<in> set ks \<Longrightarrow> \<exists>x. jget v k = Some x"
  by (metis exact_keys_set has_own_def jget_has_own)

section \<open>Well-formed UTF-16\<close>

definition high_surrogate :: "code_unit \<Rightarrow> bool" where
  "high_surrogate u = (0xD800 \<le> u \<and> u \<le> 0xDBFF)"

definition low_surrogate :: "code_unit \<Rightarrow> bool" where
  "low_surrogate u = (0xDC00 \<le> u \<and> u \<le> 0xDFFF)"

lemma surrogates_disjoint: "high_surrogate u \<Longrightarrow> \<not> low_surrogate u"
  using order_trans [of "0xDC00" u "0xDBFF"] by (auto simp: high_surrogate_def low_surrogate_def)

text \<open>The specification: every high surrogate is followed by a low one, no low one stands alone.\<close>

fun utf16_ok :: "jsstr \<Rightarrow> bool" where
  "utf16_ok [] = True"
| "utf16_ok (u # us) =
     (if high_surrogate u
      then (case us of [] \<Rightarrow> False | v # vs \<Rightarrow> low_surrogate v \<and> utf16_ok vs)
      else \<not> low_surrogate u \<and> utf16_ok us)"

text \<open>\<open>[...s].length\<close>: the number of code points the string iterator yields.\<close>

fun code_points :: "jsstr \<Rightarrow> nat" where
  "code_points [] = 0"
| "code_points [u] = 1"
| "code_points (u # v # us) =
     (if high_surrogate u \<and> low_surrogate v then Suc (code_points us) else Suc (code_points (v # us)))"

lemma code_points_le: "code_points s \<le> length s"
  by (induction s rule: code_points.induct) auto

lemma code_points_ge: "length s \<le> 2 * code_points s"
  by (induction s rule: code_points.induct) auto

section \<open>Decimal numbers\<close>

definition digit_unit :: "nat \<Rightarrow> code_unit" where
  "digit_unit d = of_nat (48 + d)"

fun nat_dec :: "nat \<Rightarrow> jsstr" where
  "nat_dec n = (if n < 10 then [digit_unit n] else nat_dec (n div 10) @ [digit_unit (n mod 10)])"

declare nat_dec.simps [simp del]

definition int_dec :: "int \<Rightarrow> jsstr" where
  "int_dec n = (if n < 0 then js ''-'' @ nat_dec (nat (- n)) else nat_dec (nat n))"

section \<open>The host environment\<close>

text \<open>
  What the boundary code takes from the web platform: the \<open>URL\<close> constructor with its optional
  base (\<open>None\<close> when it throws), and \<open>String(...)\<close> on objects and on numbers that are not safe integers
  (\<open>None\<close> when the conversion throws).
\<close>

record url =
  url_href :: jsstr
  url_protocol :: jsstr
  url_origin :: jsstr
  url_pathname :: jsstr
  url_hash :: jsstr

record host =
  new_URL :: "jsstr \<Rightarrow> jsstr option \<Rightarrow> url option"
  other_String :: "jval \<Rightarrow> jsstr option"

text \<open>\<open>String(v)\<close>: an array joins the texts of its elements with commas, null ones as empty.\<close>

fun js_String :: "host \<Rightarrow> jval \<Rightarrow> jsstr option" where
  "js_String H JNull = Some (js ''null'')"
| "js_String H (JBool b) = Some (if b then js ''true'' else js ''false'')"
| "js_String H (JStr s) = Some s"
| "js_String H (JNum x) =
     (if safe_integer x then (case x of Fin q \<Rightarrow> Some (int_dec \<lfloor>q\<rfloor>) | _ \<Rightarrow> None)
      else other_String H (JNum x))"
| "js_String H (JArr xs) =
     (let parts = map (\<lambda>x. if x = JNull then Some [] else js_String H x) xs
      in if list_all (\<lambda>p. p \<noteq> None) parts then Some (join_with (js '','') (map the parts)) else None)"
| "js_String H (JObj p ps) = other_String H (JObj p ps)"

definition js_String_opt :: "host \<Rightarrow> jval option \<Rightarrow> jsstr option" where
  "js_String_opt H v = (case v of None \<Rightarrow> Some (js ''undefined'') | Some x \<Rightarrow> js_String H x)"

section \<open>JSON.stringify\<close>

definition hex_unit :: "nat \<Rightarrow> code_unit" where
  "hex_unit d = (if d < 10 then of_nat (48 + d) else of_nat (87 + d))"

definition hex4 :: "code_unit \<Rightarrow> jsstr" where
  "hex4 u = (let n = unat u in
     [hex_unit (n div 4096 mod 16), hex_unit (n div 256 mod 16), hex_unit (n div 16 mod 16), hex_unit (n mod 16)])"

definition quote_unit :: "code_unit \<Rightarrow> jsstr" where
  "quote_unit u =
     (if u = 8 then [0x5C, 0x62] else if u = 9 then [0x5C, 0x74] else if u = 10 then [0x5C, 0x6E]
      else if u = 12 then [0x5C, 0x66] else if u = 13 then [0x5C, 0x72]
      else if u = 0x22 then [0x5C, 0x22] else if u = 0x5C then [0x5C, 0x5C]
      else if u < 0x20 then [0x5C, 0x75] @ hex4 u else [u])"

text \<open>A lone surrogate is written as an escape, a proper pair as itself.\<close>

fun quote_body :: "jsstr \<Rightarrow> jsstr" where
  "quote_body [] = []"
| "quote_body [u] =
     (if high_surrogate u \<or> low_surrogate u then [0x5C, 0x75] @ hex4 u else quote_unit u)"
| "quote_body (u # v # us) =
     (if high_surrogate u \<and> low_surrogate v then u # v # quote_body us
      else if high_surrogate u \<or> low_surrogate u then [0x5C, 0x75] @ hex4 u @ quote_body (v # us)
      else quote_unit u @ quote_body (v # us))"

definition quote_str :: "jsstr \<Rightarrow> jsstr" where
  "quote_str s = [0x22] @ quote_body s @ [0x22]"

definition num_json :: "jsnum \<Rightarrow> jsstr" where
  "num_json x = (case x of Fin q \<Rightarrow> int_dec \<lfloor>q\<rfloor> | _ \<Rightarrow> js ''null'')"

text \<open>\<open>JSON.stringify\<close> on values whose numbers are safe integers (all its callers check this first).\<close>

fun stringify :: "jval \<Rightarrow> jsstr" where
  "stringify JNull = js ''null''"
| "stringify (JBool b) = (if b then js ''true'' else js ''false'')"
| "stringify (JNum x) = num_json x"
| "stringify (JStr s) = quote_str s"
| "stringify (JArr xs) = [0x5B] @ join_with [0x2C] (map stringify xs) @ [0x5D]"
| "stringify (JObj p ps) =
     [0x7B] @ join_with [0x2C] (map (\<lambda>(k, v). quote_str k @ [0x3A] @ stringify v) ps) @ [0x7D]"

text \<open>\<open>new TextEncoder().encode(s).byteLength\<close>: a lone surrogate becomes U+FFFD, three bytes.\<close>

fun utf8_length :: "jsstr \<Rightarrow> nat" where
  "utf8_length [] = 0"
| "utf8_length [u] = (if u < 0x80 then 1 else if u < 0x800 then 2 else 3)"
| "utf8_length (u # v # us) =
     (if high_surrogate u \<and> low_surrogate v then 4 + utf8_length us
      else (if u < 0x80 then 1 else if u < 0x800 then 2 else 3) + utf8_length (v # us))"

lemma utf8_length_ge: "length s \<le> utf8_length s"
  by (induction s rule: utf8_length.induct) auto

end
