(* ===== verification/Provider_Contract.thy ===== *)
theory Provider_Contract
  imports Json_Value
begin

text \<open>
  \<open>web/features/player/runtime/generated/provider-module-v1.ts\<close>: the types of the Provider
  contract. The types of data that cross the boundary as \<open>unknown\<close> are predicates on
  \<open>jval option\<close> (\<open>None\<close> is \<open>undefined\<close>); a value belongs to a type when the predicate
  holds. The types the host only computes with are datatypes and records.
\<close>

section \<open>Type formers\<close>

text \<open>A property read on a value known to be a record.\<close>

definition fld :: "jval \<Rightarrow> string \<Rightarrow> jval option" where
  "fld v n = jget v (js n)"

lemma fld_jo: "fld (jo ps) k = map_of ps k"
proof -
  have "map_of (map (\<lambda>(k, v). (js k, v)) ps) (js k) = map_of ps k"
    by (induction ps) (auto simp: js_inj)
  then show ?thesis by (simp add: fld_def jo_def split: option.splits)
qed

lemma is_record_jo [simp]: "is_record (Some (jo ps))"
  by (simp add: jo_def)

definition ts_string :: "jval option \<Rightarrow> bool" where
  "ts_string v = (case v of Some (JStr _) \<Rightarrow> True | _ \<Rightarrow> False)"

definition ts_number :: "jval option \<Rightarrow> bool" where
  "ts_number v = (case v of Some (JNum _) \<Rightarrow> True | _ \<Rightarrow> False)"

definition ts_boolean :: "jval option \<Rightarrow> bool" where
  "ts_boolean v = (case v of Some (JBool _) \<Rightarrow> True | _ \<Rightarrow> False)"

definition ts_null :: "jval option \<Rightarrow> bool" where
  "ts_null v = (v = Some JNull)"

definition ts_one :: "jval option \<Rightarrow> bool" where
  "ts_one v = (v = Some (JInt 1))"

text \<open>A union of string literals.\<close>

definition ts_lit :: "string list \<Rightarrow> jval option \<Rightarrow> bool" where
  "ts_lit ls v = (case v of Some (JStr s) \<Rightarrow> s \<in> set (map js ls) | _ \<Rightarrow> False)"

definition ts_array :: "(jval option \<Rightarrow> bool) \<Rightarrow> jval option \<Rightarrow> bool" where
  "ts_array P v = (case v of Some (JArr xs) \<Rightarrow> list_all (\<lambda>x. P (Some x)) xs | _ \<Rightarrow> False)"

text \<open>An object type; an optional property's predicate accepts \<open>None\<close>.\<close>

definition ts_object :: "(string \<times> (jval option \<Rightarrow> bool)) list \<Rightarrow> jval option \<Rightarrow> bool" where
  "ts_object fs v = (is_record v \<and> list_all (\<lambda>(n, P). P (fld (the v) n)) fs)"

definition ts_opt :: "(jval option \<Rightarrow> bool) \<Rightarrow> jval option \<Rightarrow> bool" where
  "ts_opt P v = (v = None \<or> P v)"

lemma ts_object_simps [simp]:
  "ts_object [] v = is_record v"
  "ts_object ((n, P) # fs) v = (P (fld (the v) n) \<and> ts_object fs v)"
  by (auto simp: ts_object_def)

lemma ts_array_iff: "ts_array P v \<longleftrightarrow> (\<exists>xs. v = Some (JArr xs) \<and> (\<forall>x \<in> set xs. P (Some x)))"
  by (auto simp: ts_array_def list_all_iff split: option.splits jval.splits)

lemma ts_string_iff: "ts_string v \<longleftrightarrow> (\<exists>s. v = Some (JStr s))"
  by (auto simp: ts_string_def split: option.splits jval.splits)

lemma ts_number_iff: "ts_number v \<longleftrightarrow> (\<exists>x. v = Some (JNum x))"
  by (auto simp: ts_number_def split: option.splits jval.splits)

lemma ts_boolean_iff: "ts_boolean v \<longleftrightarrow> (\<exists>b. v = Some (JBool b))"
  by (auto simp: ts_boolean_def split: option.splits jval.splits)

lemma ts_lit_iff: "ts_lit ls v \<longleftrightarrow> (\<exists>s. v = Some (JStr s) \<and> s \<in> set (map js ls))"
  by (auto simp: ts_lit_def split: option.splits jval.splits)

lemmas ts_iffs = ts_string_iff ts_number_iff ts_boolean_iff ts_lit_iff ts_array_iff

section \<open>The data of a launch\<close>

definition RuntimePurposeV1 :: "jval option \<Rightarrow> bool" where
  "RuntimePurposeV1 = ts_lit [''PRODUCT'', ''REVIEW_PREVIEW'']"

definition RuntimeModeV1 :: "jval option \<Rightarrow> bool" where
  "RuntimeModeV1 = ts_lit [''SINGLE'']"

definition RuntimeFrameModeV1 :: "jval option \<Rightarrow> bool" where
  "RuntimeFrameModeV1 =
     ts_lit [''NONE'', ''SAME_ORIGIN_BLANK'', ''SAME_ORIGIN_RESOURCE'', ''ISOLATED_ORIGIN_RESOURCE'']"

definition RuntimeVideoModeV1 :: "jval option \<Rightarrow> bool" where
  "RuntimeVideoModeV1 =
     ts_lit [''original'', ''pixel'', ''smooth'', ''sharp-bilinear'', ''adaptive-sharpen'']"

definition RuntimeContentLoadingV1 :: "jval option \<Rightarrow> bool" where
  "RuntimeContentLoadingV1 = ts_lit [''ON_DEMAND_AND_PRELOAD'', ''PRELOAD_ONLY'']"

definition RuntimeCapabilitiesV1 :: "jval option \<Rightarrow> bool" where
  "RuntimeCapabilitiesV1 = ts_object
     [(''contentLoading'', ts_opt RuntimeContentLoadingV1),
      (''pause'', ts_boolean), (''screenshot'', ts_boolean), (''checkpoint'', ts_boolean),
      (''standardGamepad'', ts_boolean), (''frameCounter'', ts_boolean), (''volume'', ts_boolean),
      (''nativeSettings'', ts_boolean), (''inputFilter'', ts_boolean),
      (''videoModes'', ts_array RuntimeVideoModeV1), (''requiresThreads'', ts_boolean),
      (''frameMode'', RuntimeFrameModeV1)]"

definition RestoreDescriptorV1 :: "jval option \<Rightarrow> bool" where
  "RestoreDescriptorV1 v \<longleftrightarrow>
     ts_object [(''kind'', ts_lit [''HTTP'']), (''url'', ts_string), (''format'', ts_string),
       (''sha256'', ts_string), (''sizeBytes'', ts_number)] v \<or>
     ts_object [(''kind'', ts_lit [''LOCAL'']), (''format'', ts_string),
       (''sha256'', ts_string), (''sizeBytes'', ts_number)] v"

definition RuntimeResourceIdentityV1 :: "jval option \<Rightarrow> bool" where
  "RuntimeResourceIdentityV1 = ts_object [(''role'', ts_string), (''ordinal'', ts_number)]"

definition RuntimeBlobResourceV1 :: "jval option \<Rightarrow> bool" where
  "RuntimeBlobResourceV1 v \<longleftrightarrow> RuntimeResourceIdentityV1 v \<and>
     ts_object [(''kind'', ts_lit [''ROM_BLOB'', ''SEEKABLE_BLOB'', ''WASM4_CART'']),
       (''url'', ts_string), (''sha256'', ts_string), (''sizeBytes'', ts_number),
       (''rangeRequired'', ts_boolean)] v"

definition RuntimeFileTreeResourceV1 :: "jval option \<Rightarrow> bool" where
  "RuntimeFileTreeResourceV1 v \<longleftrightarrow> RuntimeResourceIdentityV1 v \<and>
     ts_object [(''kind'', ts_lit [''FILE_TREE'']), (''indexUrl'', ts_string),
       (''contentDigest'', ts_string)] v"

definition RuntimeWebResourceV1 :: "jval option \<Rightarrow> bool" where
  "RuntimeWebResourceV1 v \<longleftrightarrow> RuntimeResourceIdentityV1 v \<and>
     ts_object [(''kind'', ts_lit [''NATIVE_WEB'', ''ISOLATED_WEB'']), (''bridgeUrl'', ts_string),
       (''indexUrl'', ts_string), (''origin'', ts_string), (''entryUrl'', ts_string),
       (''entryFile'', ts_string), (''contentDigest'', ts_string)] v"

definition RuntimeFileEntryV1 :: "jval option \<Rightarrow> bool" where
  "RuntimeFileEntryV1 = ts_object
     [(''logicalName'', ts_string), (''virtualPath'', ts_string), (''url'', ts_string),
      (''sha256'', ts_string), (''sizeBytes'', ts_number)]"

definition RuntimeFileSetResourceV1 :: "jval option \<Rightarrow> bool" where
  "RuntimeFileSetResourceV1 v \<longleftrightarrow> RuntimeResourceIdentityV1 v \<and>
     ts_object [(''kind'', ts_lit [''BIOS_BUNDLE'', ''EXTERNAL_FILE_SET'']),
       (''files'', ts_array RuntimeFileEntryV1)] v"

definition RuntimeResourceV1 :: "jval option \<Rightarrow> bool" where
  "RuntimeResourceV1 v \<longleftrightarrow> RuntimeBlobResourceV1 v \<or> RuntimeFileTreeResourceV1 v \<or>
     RuntimeWebResourceV1 v \<or> RuntimeFileSetResourceV1 v"

text \<open>Every \<open>jval\<close> is a \<open>RuntimeJSONValueV1\<close>, so the options are any record.\<close>

definition TargetOptionsV1 :: "jval option \<Rightarrow> bool" where
  "TargetOptionsV1 = is_record"

definition SessionV1 :: "jval option \<Rightarrow> bool" where
  "SessionV1 = ts_object
     [(''id'', ts_string), (''purpose'', RuntimePurposeV1), (''mode'', RuntimeModeV1),
      (''title'', ts_string), (''platformName'', ts_string), (''coreName'', ts_string),
      (''returnTo'', ts_string), (''warnings'', ts_array ts_string)]"

definition CheckpointContractV1 :: "jval option \<Rightarrow> bool" where
  "CheckpointContractV1 v \<longleftrightarrow> ts_null v \<or>
     ts_object [(''writeFormat'', ts_string), (''readFormats'', ts_array ts_string),
       (''maxBytes'', ts_number), (''semantics'', ts_lit [''INSTANT'', ''GAME_SAVE''])] v"

definition LaunchRuntimeV1 :: "jval option \<Rightarrow> bool" where
  "LaunchRuntimeV1 = ts_object
     [(''coreId'', ts_string), (''coreFingerprint'', ts_string), (''romHash'', ts_string),
      (''providerId'', ts_string), (''providerVersion'', ts_string),
      (''providerApiVersion'', ts_one), (''bundleSha256'', ts_string), (''targetId'', ts_string),
      (''capabilities'', RuntimeCapabilitiesV1), (''checkpoint'', CheckpointContractV1),
      (''moduleUrl'', ts_string), (''moduleSha256'', ts_string), (''runtimeBaseUrl'', ts_string)]"

definition LaunchEnvelopeV1 :: "jval option \<Rightarrow> bool" where
  "LaunchEnvelopeV1 = ts_object
     [(''schemaVersion'', ts_one), (''session'', SessionV1), (''runtime'', LaunchRuntimeV1),
      (''resources'', ts_array RuntimeResourceV1), (''targetOptions'', TargetOptionsV1),
      (''restore'', \<lambda>v. ts_null v \<or> RestoreDescriptorV1 v)]"

definition ProviderModuleReferenceV1 :: "jval option \<Rightarrow> bool" where
  "ProviderModuleReferenceV1 = ts_object
     [(''providerId'', ts_string), (''providerVersion'', ts_string), (''providerApiVersion'', ts_one),
      (''bundleSha256'', ts_string), (''moduleSha256'', ts_string), (''moduleUrl'', ts_string),
      (''runtimeBaseUrl'', ts_string)]"

section \<open>The runtime's states and errors\<close>

datatype RuntimeStateV1 =
    CREATED | MOUNTING | RUNNING | PAUSED | CHECKPOINTING | EXITING | EXITED | FAILED

text \<open>\<open>errors.ts\<close>: the codes of \<open>PlayerRuntimeError\<close>.\<close>

datatype PlayerRuntimeErrorCode =
    PLAYER_LAUNCH_ENVELOPE_INVALID
  | PLAYER_PROVIDER_MODULE_INVALID
  | PLAYER_PROVIDER_MODULE_DIGEST_INVALID
  | PLAYER_RUNTIME_DIAGNOSTIC_INVALID
  | PLAYER_RUNTIME_FRAME_INVALID
  | PLAYER_RUNTIME_CONTRACT_INVALID
  | PLAYER_RUNTIME_RESTORE_INVALID
  | PLAYER_RUNTIME_THREADS_UNAVAILABLE

text \<open>
  What a call can throw: a coded error of the player, a \<open>TypeError\<close> of the language, an
  abort, or any other error value, named by its message.
\<close>

datatype thrown =
    PlayerRuntimeError PlayerRuntimeErrorCode
  | TypeError
  | AbortError
  | OtherError string

end
