(* ===== verification/Js_Regex.thy ===== *)
theory Js_Regex
  imports Prelude
begin

text \<open>
  The anchored regular expressions of the code (\<open>/^...$/u\<close> with \<open>.test\<close>), transcribed
  literally into the datatype \<open>rx\<close>. \<open>rx_matches\<close> says what a pattern means;
  \<open>rx_test\<close> is the executable test by derivatives, proved equal to it. All character classes
  of these patterns are ASCII, so matching by code unit and by code point agree.
\<close>

datatype rx =
    RZero
  | ROne
  | RCls "(code_unit \<times> code_unit) list"
  | RSeq rx rx
  | RAlt rx rx
  | RStar rx

definition in_cls :: "(code_unit \<times> code_unit) list \<Rightarrow> code_unit \<Rightarrow> bool" where
  "in_cls rs c = list_ex (\<lambda>(lo, hi). lo \<le> c \<and> c \<le> hi) rs"

inductive rx_matches :: "rx \<Rightarrow> jsstr \<Rightarrow> bool" where
  one: "rx_matches ROne []"
| cls: "in_cls rs c \<Longrightarrow> rx_matches (RCls rs) [c]"
| seq: "rx_matches r s \<Longrightarrow> rx_matches q t \<Longrightarrow> rx_matches (RSeq r q) (s @ t)"
| alt1: "rx_matches r s \<Longrightarrow> rx_matches (RAlt r q) s"
| alt2: "rx_matches q s \<Longrightarrow> rx_matches (RAlt r q) s"
| star0: "rx_matches (RStar r) []"
| star1: "rx_matches r s \<Longrightarrow> rx_matches (RStar r) t \<Longrightarrow> rx_matches (RStar r) (s @ t)"

inductive_simps rx_matches_simps [simp]:
  "rx_matches RZero s"
  "rx_matches ROne s"
  "rx_matches (RCls rs) s"
  "rx_matches (RAlt r q) s"

inductive_simps rx_matches_seq: "rx_matches (RSeq r q) s"

primrec rx_null :: "rx \<Rightarrow> bool" where
  "rx_null RZero = False"
| "rx_null ROne = True"
| "rx_null (RCls rs) = False"
| "rx_null (RSeq r q) = (rx_null r \<and> rx_null q)"
| "rx_null (RAlt r q) = (rx_null r \<or> rx_null q)"
| "rx_null (RStar r) = True"

definition mk_seq :: "rx \<Rightarrow> rx \<Rightarrow> rx" where
  "mk_seq r q = (case r of RZero \<Rightarrow> RZero | ROne \<Rightarrow> q | _ \<Rightarrow> RSeq r q)"

definition mk_alt :: "rx \<Rightarrow> rx \<Rightarrow> rx" where
  "mk_alt r q = (case r of RZero \<Rightarrow> q | _ \<Rightarrow> (case q of RZero \<Rightarrow> r | _ \<Rightarrow> RAlt r q))"

primrec rx_deriv :: "code_unit \<Rightarrow> rx \<Rightarrow> rx" where
  "rx_deriv c RZero = RZero"
| "rx_deriv c ROne = RZero"
| "rx_deriv c (RCls rs) = (if in_cls rs c then ROne else RZero)"
| "rx_deriv c (RSeq r q) =
     (let d = mk_seq (rx_deriv c r) q in if rx_null r then mk_alt d (rx_deriv c q) else d)"
| "rx_deriv c (RAlt r q) = mk_alt (rx_deriv c r) (rx_deriv c q)"
| "rx_deriv c (RStar r) = mk_seq (rx_deriv c r) (RStar r)"

primrec rx_test :: "rx \<Rightarrow> jsstr \<Rightarrow> bool" where
  "rx_test r [] = rx_null r"
| "rx_test r (c # cs) = rx_test (rx_deriv c r) cs"

lemma rx_null_iff: "rx_null r \<longleftrightarrow> rx_matches r []"
  by (induction r) (auto simp: rx_matches_seq intro: rx_matches.star0)

lemma mk_seq_matches [simp]: "rx_matches (mk_seq r q) s \<longleftrightarrow> rx_matches (RSeq r q) s"
  by (cases r) (auto simp: mk_seq_def rx_matches_seq)

lemma mk_alt_matches [simp]: "rx_matches (mk_alt r q) s \<longleftrightarrow> rx_matches (RAlt r q) s"
  by (cases r; cases q) (auto simp: mk_alt_def)

lemma star_Cons:
  "rx_matches (RStar r) (c # s) \<longleftrightarrow>
     (\<exists>u v. s = u @ v \<and> rx_matches r (c # u) \<and> rx_matches (RStar r) v)"
proof
  assume "rx_matches (RStar r) (c # s)"
  then show "\<exists>u v. s = u @ v \<and> rx_matches r (c # u) \<and> rx_matches (RStar r) v"
  proof (induction "RStar r" "c # s" arbitrary: c s rule: rx_matches.induct)
    case (star1 u t)
    then show ?case by (cases u) auto
  qed
next
  assume "\<exists>u v. s = u @ v \<and> rx_matches r (c # u) \<and> rx_matches (RStar r) v"
  then show "rx_matches (RStar r) (c # s)"
    using rx_matches.star1 [of r "c # _"] by auto
qed

lemma seq_Cons:
  "rx_matches (RSeq r q) (c # s) \<longleftrightarrow>
     (\<exists>u v. s = u @ v \<and> rx_matches r (c # u) \<and> rx_matches q v) \<or>
     (rx_matches r [] \<and> rx_matches q (c # s))"
  by (auto simp: rx_matches_seq Cons_eq_append_conv)

lemma seq_split: "rx_matches (RSeq r q) w \<longleftrightarrow> (\<exists>u v. w = u @ v \<and> rx_matches r u \<and> rx_matches q v)"
  by (simp add: rx_matches_seq)

lemma rx_deriv_matches: "rx_matches (rx_deriv c r) s \<longleftrightarrow> rx_matches r (c # s)"
proof (induction r arbitrary: s)
  case (RSeq r q)
  then show ?case
    by (simp add: Let_def seq_Cons rx_null_iff seq_split [of "rx_deriv c r" q])
next
  case (RStar r)
  then show ?case
    by (simp add: star_Cons seq_split [of "rx_deriv c r" "RStar r"])
qed auto

lemma seq_cls: "rx_matches (RSeq (RCls rs) q) s \<longleftrightarrow>
    (case s of [] \<Rightarrow> False | c # t \<Rightarrow> in_cls rs c \<and> rx_matches q t)"
proof (cases s)
  case Nil
  then show ?thesis by (simp add: seq_split)
next
  case (Cons c t)
  then show ?thesis unfolding Cons seq_Cons by auto
qed

theorem rx_test_iff: "rx_test r s \<longleftrightarrow> rx_matches r s"
  by (induction s arbitrary: r) (simp_all add: rx_null_iff rx_deriv_matches)

section \<open>Derived patterns\<close>

text \<open>\<open>r?\<close>, \<open>r+\<close>, \<open>r{n}\<close>, \<open>r{0,n}\<close>, \<open>r{m,n}\<close> and a literal.\<close>

definition rx_opt :: "rx \<Rightarrow> rx" where
  "rx_opt r = RAlt r ROne"

definition rx_plus :: "rx \<Rightarrow> rx" where
  "rx_plus r = RSeq r (RStar r)"

primrec rx_rep :: "rx \<Rightarrow> nat \<Rightarrow> rx" where
  "rx_rep r 0 = ROne"
| "rx_rep r (Suc n) = RSeq r (rx_rep r n)"

primrec rx_upto :: "rx \<Rightarrow> nat \<Rightarrow> rx" where
  "rx_upto r 0 = ROne"
| "rx_upto r (Suc n) = RAlt ROne (RSeq r (rx_upto r n))"

definition rx_lit :: "string \<Rightarrow> rx" where
  "rx_lit s = foldr (\<lambda>c r. RSeq (RCls [(of_char c, of_char c)]) r) s ROne"

definition rx_cls :: "(char \<times> char) list \<Rightarrow> rx" where
  "rx_cls rs = RCls (map (\<lambda>(a, b). (of_char a, of_char b)) rs)"

definition rx_alts :: "rx list \<Rightarrow> rx" where
  "rx_alts rs = foldr RAlt rs RZero"

lemma rx_cls_matches: "rx_matches (rx_cls rs) s \<longleftrightarrow>
    (\<exists>c. s = [c] \<and> in_cls (map (\<lambda>(a, b). (of_char a, of_char b)) rs) c)"
  by (auto simp: rx_cls_def)

lemma rx_rep_cls: "rx_matches (rx_rep (RCls rs) n) s \<longleftrightarrow> length s = n \<and> list_all (in_cls rs) s"
proof (induction n arbitrary: s)
  case (Suc n)
  then show ?case by (cases s) (auto simp: seq_cls)
qed auto

lemma rx_upto_cls: "rx_matches (rx_upto (RCls rs) n) s \<longleftrightarrow> length s \<le> n \<and> list_all (in_cls rs) s"
proof (induction n arbitrary: s)
  case (Suc n)
  then show ?case by (cases s) (auto simp: seq_cls)
qed auto

lemma rx_star_cls: "rx_matches (RStar (RCls rs)) s \<longleftrightarrow> list_all (in_cls rs) s"
proof (induction s)
  case (Cons c s)
  have "rx_matches (RStar (RCls rs)) (c # s) \<longleftrightarrow> in_cls rs c \<and> rx_matches (RStar (RCls rs)) s"
    unfolding star_Cons by auto
  with Cons.IH show ?case by simp
qed (simp add: rx_matches.star0)

text \<open>Every unit of a matched word belongs to one of the classes of the pattern.\<close>

primrec rx_units :: "rx \<Rightarrow> (code_unit \<times> code_unit) list" where
  "rx_units RZero = []"
| "rx_units ROne = []"
| "rx_units (RCls rs) = rs"
| "rx_units (RSeq r q) = rx_units r @ rx_units q"
| "rx_units (RAlt r q) = rx_units r @ rx_units q"
| "rx_units (RStar r) = rx_units r"

lemma in_cls_append [simp]: "in_cls (a @ b) c \<longleftrightarrow> in_cls a c \<or> in_cls b c"
  by (simp add: in_cls_def)

lemma rx_matches_units: "rx_matches r s \<Longrightarrow> c \<in> set s \<Longrightarrow> in_cls (rx_units r) c"
  by (induction r s rule: rx_matches.induct) auto

lemmas rx_eval = rx_opt_def rx_plus_def rx_lit_def rx_cls_def rx_alts_def
  mk_seq_def mk_alt_def in_cls_def

end
