(* ===== verification/Canonical_Json.thy ===== *)
theory Canonical_Json
  imports Json_Value
begin

text \<open>
  \<open>web/features/player/runtime/canonical-json.ts\<close>: the strict JSON reader of launch envelopes.
  The closure variable \<open>offset\<close> is modelled by the unread suffix of the source, each local
  function by a parser on that suffix, \<open>fail\<close> by \<open>Inl Syntax\<close>. The mutually recursive
  readers of values, arrays and objects take fuel; \<open>parse_total\<close> in Json_Roundtrip shows that
  the fuel given is never used up.
\<close>

datatype parse_error = Syntax | OutOfFuel

type_synonym 'a parsed = "parse_error + ('a \<times> jsstr)"

section \<open>Whitespace, words and escapes\<close>

definition json_ws :: "code_unit \<Rightarrow> bool" where
  "json_ws u = (u = 0x20 \<or> u = 0x09 \<or> u = 0x0D \<or> u = 0x0A)"

definition p_whitespace :: "jsstr \<Rightarrow> jsstr" where
  "p_whitespace s = dropWhile json_ws s"

definition p_word :: "jsstr \<Rightarrow> jval \<Rightarrow> jsstr \<Rightarrow> jval parsed" where
  "p_word expected v s =
     (if take (length expected) s \<noteq> expected then Inl Syntax else Inr (v, drop (length expected) s))"

definition hex_digit :: "code_unit \<Rightarrow> bool" where
  "hex_digit u = (0x30 \<le> u \<and> u \<le> 0x39 \<or> 0x41 \<le> u \<and> u \<le> 0x46 \<or> 0x61 \<le> u \<and> u \<le> 0x66)"

definition hex_value :: "code_unit \<Rightarrow> nat" where
  "hex_value u = (if u \<le> 0x39 then unat u - 48 else if u \<le> 0x46 then unat u - 55 else unat u - 87)"

lemma below_16: "d < 16 \<Longrightarrow> d \<in> {0, 1, 2, 3, 4, 5, 6, 7, 8, 9, 10, 11, 12, 13, 14, 15 :: nat}"
  unfolding insert_iff empty_iff by presburger

lemma hex_unit_digit: "d < 16 \<Longrightarrow> hex_digit (hex_unit d) \<and> hex_value (hex_unit d) = d"
  by (drule below_16) (auto simp: hex_unit_def hex_digit_def hex_value_def)

definition p_hex_unit :: "jsstr \<Rightarrow> nat parsed" where
  "p_hex_unit s =
     (let digits = take 4 s
      in if \<not> (length digits = 4 \<and> list_all hex_digit digits) then Inl Syntax
         else Inr (foldl (\<lambda>n u. 16 * n + hex_value u) 0 digits, drop 4 s))"

text \<open>\<open>String.fromCodePoint\<close> above the basic plane: the surrogate pair.\<close>

definition from_code_point :: "nat \<Rightarrow> jsstr" where
  "from_code_point n =
     (if n < 0x10000 then [of_nat n]
      else [of_nat (0xD800 + (n - 0x10000) div 0x400), of_nat (0xDC00 + (n - 0x10000) mod 0x400)])"

definition simple_escape :: "code_unit \<Rightarrow> jsstr option" where
  "simple_escape u = map_of
     [(0x22, [0x22]), (0x5C, [0x5C]), (0x2F, [0x2F]), (0x62, [0x08]),
      (0x66, [0x0C]), (0x6E, [0x0A]), (0x72, [0x0D]), (0x74, [0x09])] u"

text \<open>\<open>escapedStringUnit\<close>, from the unit after the backslash.\<close>

definition p_escape :: "jsstr \<Rightarrow> jsstr parsed" where
  "p_escape s =
     (case s of
        [] \<Rightarrow> Inl Syntax
      | e # r \<Rightarrow>
          if e \<noteq> 0x75 then (case simple_escape e of None \<Rightarrow> Inl Syntax | Some t \<Rightarrow> Inr (t, r))
          else (case p_hex_unit r of
            Inl err \<Rightarrow> Inl err
          | Inr (first, r1) \<Rightarrow>
              if 0xDC00 \<le> first \<and> first \<le> 0xDFFF then Inl Syntax
              else if first < 0xD800 \<or> first > 0xDBFF then Inr ([of_nat first], r1)
              else if take 2 r1 \<noteq> [0x5C, 0x75] then Inl Syntax
              else (case p_hex_unit (drop 2 r1) of
                Inl err \<Rightarrow> Inl err
              | Inr (second, r2) \<Rightarrow>
                  if second < 0xDC00 \<or> second > 0xDFFF then Inl Syntax
                  else Inr (from_code_point (0x10000 + (first - 0xD800) * 0x400 + second - 0xDC00), r2))))"

lemma p_hex_unit_shrinks: "p_hex_unit s = Inr (n, r) \<Longrightarrow> length r < length s"
  by (auto simp: p_hex_unit_def Let_def split: if_splits)

lemma p_escape_shrinks: "p_escape s = Inr (t, r) \<Longrightarrow> length r < length s"
  by (auto simp: p_escape_def split: list.splits if_splits option.splits sum.splits prod.splits
      dest!: p_hex_unit_shrinks)

section \<open>Strings\<close>

text \<open>
  The loop of \<open>string\<close>. At a high surrogate that ends the source \<open>charCodeAt\<close> is NaN and
  both comparisons are false, but the offset then passes the end and the loop fails.
\<close>

function p_chars :: "jsstr \<Rightarrow> jsstr \<Rightarrow> jsstr parsed" where
  "p_chars acc [] = Inl Syntax"
| "p_chars acc (c # r) =
     (if c = 0x22 then Inr (acc, r)
      else if c = 0x5C then
        (case p_escape r of Inl err \<Rightarrow> Inl err | Inr (t, r1) \<Rightarrow> p_chars (acc @ t) r1)
      else if c < 0x20 \<or> low_surrogate c then Inl Syntax
      else if high_surrogate c then
        (case r of
           [] \<Rightarrow> Inl Syntax
         | d # r1 \<Rightarrow> if \<not> low_surrogate d then Inl Syntax else p_chars (acc @ [c, d]) r1)
      else p_chars (acc @ [c]) r)"
  by pat_completeness auto
termination
  by (relation "measure (\<lambda>(acc, s). length s)") (auto dest: p_escape_shrinks)

definition p_string :: "jsstr \<Rightarrow> jsstr parsed" where
  "p_string s = (case s of [] \<Rightarrow> Inl Syntax | c # r \<Rightarrow> if c \<noteq> 0x22 then Inl Syntax else p_chars [] r)"

lemma p_chars_shrinks: "p_chars acc s = Inr (t, r) \<Longrightarrow> length r < length s"
proof (induction acc s rule: p_chars.induct)
  case (2 acc c s)
  then show ?case
    by (fastforce split: if_splits sum.splits prod.splits list.splits dest: p_escape_shrinks)
qed simp

lemma p_string_shrinks: "p_string s = Inr (t, r) \<Longrightarrow> length r < length s"
  by (auto simp: p_string_def split: list.splits if_splits dest: p_chars_shrinks)

section \<open>Numbers\<close>

definition digit :: "code_unit \<Rightarrow> bool" where
  "digit u = (0x30 \<le> u \<and> u \<le> 0x39)"

definition dec_value :: "jsstr \<Rightarrow> nat" where
  "dec_value ds = foldl (\<lambda>n u. 10 * n + (unat u - 48)) 0 ds"

definition p_number :: "jsstr \<Rightarrow> jval parsed" where
  "p_number s =
     (let neg = (case s of u # _ \<Rightarrow> u = 0x2D | [] \<Rightarrow> False);
          s1 = (if neg then tl s else s)
      in case s1 of
           [] \<Rightarrow> Inl Syntax
         | c # r \<Rightarrow>
             if c = 0x30 then
               (case r of
                  d # _ \<Rightarrow> if digit d then Inl Syntax else Inr (JInt 0, r)
                | [] \<Rightarrow> Inr (JInt 0, r))
             else if \<not> (0x31 \<le> c \<and> c \<le> 0x39) then Inl Syntax
             else (let ds = takeWhile digit s1;
                       n = (if neg then - int (dec_value ds) else int (dec_value ds))
                   in if \<bar>n\<bar> \<le> max_safe then Inr (JInt n, dropWhile digit s1) else Inl Syntax))"

lemma digit_nonzero: "0x31 \<le> c \<Longrightarrow> c \<le> 0x39 \<Longrightarrow> digit c"
  using order_trans [of "0x30" "0x31" c] by (simp add: digit_def)

lemma p_number_shrinks:
  assumes "p_number s = Inr (v, r)"
  shows "length r < length s"
proof -
  define s1 where "s1 = (if (case s of u # _ \<Rightarrow> u = 0x2D | [] \<Rightarrow> False) then tl s else s)"
  have s1: "length s1 \<le> length s" by (simp add: s1_def)
  obtain c t where c: "s1 = c # t"
    using assms by (cases s1) (simp_all add: p_number_def flip: s1_def)
  have "length r < length s1"
  proof (cases "c = 0x30")
    case True
    with assms c show ?thesis
      by (auto simp: p_number_def simp flip: s1_def split: list.splits if_splits)
  next
    case False
    with assms c have "digit c" "r = dropWhile digit s1"
      by (auto simp: p_number_def Let_def digit_nonzero simp flip: s1_def split: if_splits)
    with c show ?thesis by (simp add: le_imp_less_Suc length_dropWhile_le)
  qed
  with s1 show ?thesis by simp
qed

section \<open>Values, arrays and objects\<close>

fun p_value :: "nat \<Rightarrow> jsstr \<Rightarrow> jval parsed"
  and p_elems :: "nat \<Rightarrow> jval list \<Rightarrow> jsstr \<Rightarrow> jval parsed"
  and p_members :: "nat \<Rightarrow> jval \<Rightarrow> jsstr \<Rightarrow> jval parsed" where
  "p_value 0 s = Inl OutOfFuel"
| "p_value (Suc n) s =
     (case p_whitespace s of
        [] \<Rightarrow> p_number []
      | c # r \<Rightarrow>
          if c = 0x22 then
            (case p_string (c # r) of Inl e \<Rightarrow> Inl e | Inr (t, r1) \<Rightarrow> Inr (JStr t, r1))
          else if c = 0x7B then
            (case p_whitespace r of
               [] \<Rightarrow> p_members n (jobj []) []
             | d # r1 \<Rightarrow> if d = 0x7D then Inr (jobj [], r1) else p_members n (jobj []) (d # r1))
          else if c = 0x5B then
            (case p_whitespace r of
               [] \<Rightarrow> p_elems n [] []
             | d # r1 \<Rightarrow> if d = 0x5D then Inr (JArr [], r1) else p_elems n [] (d # r1))
          else if c = 0x74 then p_word (js ''true'') (JBool True) (c # r)
          else if c = 0x66 then p_word (js ''false'') (JBool False) (c # r)
          else if c = 0x6E then p_word (js ''null'') JNull (c # r)
          else p_number (c # r))"
| "p_elems 0 acc s = Inl OutOfFuel"
| "p_elems (Suc n) acc s =
     (case p_value n s of
        Inl e \<Rightarrow> Inl e
      | Inr (v, r) \<Rightarrow>
          (case p_whitespace r of
             [] \<Rightarrow> Inl Syntax
           | c # r1 \<Rightarrow>
               if c = 0x5D then Inr (JArr (acc @ [v]), r1)
               else if c \<noteq> 0x2C then Inl Syntax
               else p_elems n (acc @ [v]) (p_whitespace r1)))"
| "p_members 0 ob s = Inl OutOfFuel"
| "p_members (Suc n) ob s =
     (case p_string s of
        Inl e \<Rightarrow> Inl e
      | Inr (k, r) \<Rightarrow>
          if has_own ob k then Inl Syntax
          else (case p_whitespace r of
             [] \<Rightarrow> Inl Syntax
           | c # r1 \<Rightarrow>
               if c \<noteq> 0x3A then Inl Syntax
               else (case p_value n (p_whitespace r1) of
                  Inl e \<Rightarrow> Inl e
                | Inr (v, r2) \<Rightarrow>
                    (let ob1 = jset ob k v in
                     case p_whitespace r2 of
                       [] \<Rightarrow> Inl Syntax
                     | d # r3 \<Rightarrow>
                         if d = 0x7D then Inr (ob1, r3)
                         else if d \<noteq> 0x2C then Inl Syntax
                         else p_members n ob1 (p_whitespace r3)))))"

definition parse_fuel :: "jsstr \<Rightarrow> nat" where
  "parse_fuel s = 2 * length s + 1"

definition parse_canonical_json :: "jsstr \<Rightarrow> parse_error + jval" where
  "parse_canonical_json s =
     (case p_value (parse_fuel s) s of
        Inl e \<Rightarrow> Inl e
      | Inr (v, r) \<Rightarrow> if p_whitespace r \<noteq> [] then Inl Syntax else Inr v)"

end
