(* ===== verification/Envelope.thy ===== *)
theory Envelope
  imports Provider_Contract Js_Regex Canonical_Json
begin

text \<open>
  \<open>web/features/player/runtime/envelope.ts\<close>: the boundary check of a launch envelope and of a
  Provider module reference. Each local function is a definition of the same name. A check
  that calls \<open>String(...)\<close> on an unchecked value can throw a \<open>TypeError\<close>; those checks
  return \<open>bool option\<close>, \<open>None\<close> when they throw.
\<close>

section \<open>The patterns\<close>

definition digest_rx :: rx where
  "digest_rx = rx_rep (rx_cls [(CHR ''0'', CHR ''9''), (CHR ''a'', CHR ''f'')]) 64"

definition alnum_rx :: rx where
  "alnum_rx = rx_cls [(CHR ''a'', CHR ''z''), (CHR ''0'', CHR ''9'')]"

definition identity_rx :: rx where
  "identity_rx = RSeq alnum_rx (rx_opt (RSeq
     (rx_upto (rx_cls [(CHR ''a'', CHR ''z''), (CHR ''0'', CHR ''9''), (CHR ''-'', CHR ''-'')]) 62)
     alnum_rx))"

definition core_identity_rx :: rx where
  "core_identity_rx = RSeq (rx_plus alnum_rx) (RStar (RSeq
     (rx_cls [(CHR ''-'', CHR ''-''), (CHR ''_'', CHR ''_'')]) (rx_plus alnum_rx)))"

definition token_rx :: rx where
  "token_rx = RSeq alnum_rx (rx_opt (RSeq
     (rx_upto (rx_cls [(CHR ''a'', CHR ''z''), (CHR ''0'', CHR ''9''),
                       (CHR ''.'', CHR ''.''), (CHR ''-'', CHR ''-'')]) 62)
     alnum_rx))"

definition digit_rx :: rx where
  "digit_rx = rx_cls [(CHR ''0'', CHR ''9'')]"

definition decimal_rx :: rx where
  "decimal_rx = RAlt (rx_lit ''0'') (RSeq (rx_cls [(CHR ''1'', CHR ''9'')]) (RStar digit_rx))"

definition word_rx :: rx where
  "word_rx = rx_cls [(CHR ''0'', CHR ''9''), (CHR ''A'', CHR ''Z''), (CHR ''a'', CHR ''z''), (CHR ''-'', CHR ''-'')]"

definition prerelease_rx :: rx where
  "prerelease_rx = RAlt decimal_rx
     (RSeq (RStar word_rx) (RSeq
       (rx_cls [(CHR ''A'', CHR ''Z''), (CHR ''a'', CHR ''z''), (CHR ''-'', CHR ''-'')]) (RStar word_rx)))"

definition semver_rx :: rx where
  "semver_rx = RSeq decimal_rx (RSeq (rx_lit ''.'') (RSeq decimal_rx (RSeq (rx_lit ''.'') (RSeq decimal_rx
     (rx_opt (RSeq (rx_lit ''-'') (RSeq prerelease_rx (RStar (RSeq (rx_lit ''.'') prerelease_rx)))))))))"

definition uuid_rx :: rx where
  "uuid_rx = (let h = rx_cls [(CHR ''0'', CHR ''9''), (CHR ''a'', CHR ''f'')]; d = rx_lit ''-'' in
     RSeq (rx_rep h 8) (RSeq d (RSeq (rx_rep h 4) (RSeq d
       (RSeq (rx_cls [(CHR ''1'', CHR ''8'')]) (RSeq (rx_rep h 3) (RSeq d
       (RSeq (rx_cls [(CHR ''8'', CHR ''9''), (CHR ''a'', CHR ''b'')]) (RSeq (rx_rep h 3) (RSeq d
       (rx_rep h 12)))))))))))"

section \<open>Leaf checks\<close>

definition validIdentity :: "jval option \<Rightarrow> bool" where
  "validIdentity v = (case v of Some (JStr s) \<Rightarrow> rx_test identity_rx s | _ \<Rightarrow> False)"

definition validCoreIdentity :: "jval option \<Rightarrow> bool" where
  "validCoreIdentity v =
     (case v of Some (JStr s) \<Rightarrow> length s \<le> 64 \<and> rx_test core_identity_rx s | _ \<Rightarrow> False)"

definition validToken :: "jval option \<Rightarrow> bool" where
  "validToken v = (case v of Some (JStr s) \<Rightarrow> rx_test token_rx s | _ \<Rightarrow> False)"

definition validDigest :: "jval option \<Rightarrow> bool" where
  "validDigest v = (case v of Some (JStr s) \<Rightarrow> rx_test digest_rx s | _ \<Rightarrow> False)"

definition validVersion :: "jval option \<Rightarrow> bool" where
  "validVersion v = (case v of Some (JStr s) \<Rightarrow> rx_test semver_rx s | _ \<Rightarrow> False)"

definition uuid :: "jval option \<Rightarrow> bool" where
  "uuid v = (case v of Some (JStr s) \<Rightarrow> rx_test uuid_rx s | _ \<Rightarrow> False)"

definition positiveInteger :: "jval option \<Rightarrow> bool" where
  "positiveInteger v = (case v of Some (JNum x) \<Rightarrow> safe_integer x \<and> num_lt (Fin 0) x | _ \<Rightarrow> False)"

definition nonNegativeInteger :: "jval option \<Rightarrow> bool" where
  "nonNegativeInteger v = (case v of Some (JNum x) \<Rightarrow> safe_integer x \<and> num_le (Fin 0) x | _ \<Rightarrow> False)"

text \<open>
  \<open>wellFormed\<close>: past the end \<open>charCodeAt\<close> is NaN, so after a high surrogate at the very
  end both comparisons are false and the loop ends with \<open>true\<close>.
\<close>

fun wellFormed :: "jsstr \<Rightarrow> bool" where
  "wellFormed [] = True"
| "wellFormed [u] = (if high_surrogate u then True else \<not> low_surrogate u)"
| "wellFormed (u # v # us) =
     (if high_surrogate u then (if v < 0xDC00 \<or> 0xDFFF < v then False else wellFormed us)
      else if low_surrogate u then False
      else wellFormed (v # us))"

definition bounded :: "jval option \<Rightarrow> nat \<Rightarrow> nat \<Rightarrow> bool" where
  "bounded v minimum maximum =
     (case v of
        Some (JStr s) \<Rightarrow> wellFormed s \<and> minimum \<le> code_points s \<and> code_points s \<le> maximum
      | _ \<Rightarrow> False)"

text \<open>Only a single printable ASCII unit is a character between the space and the tilde.\<close>

definition relativeURL :: "jval option \<Rightarrow> bool" where
  "relativeURL v =
     (case v of
        Some (JStr s) \<Rightarrow>
          length s \<le> 2048 \<and> starts_with s (js ''/'') \<and> \<not> starts_with s (js ''//'') \<and>
          \<not> includes_str s [0x5C] \<and> \<not> includes_str s (js ''#'') \<and>
          list_all (\<lambda>u. 0x20 \<le> u \<and> u \<le> 0x7E) s
      | _ \<Rightarrow> False)"

definition safePath :: "jval option \<Rightarrow> nat \<Rightarrow> bool" where
  "safePath v maximum =
     (case v of
        Some (JStr s) \<Rightarrow>
          1 \<le> length s \<and> length s \<le> maximum \<and> \<not> starts_with s (js ''/'') \<and>
          \<not> list_ex (\<lambda>u. u = 0x5C \<or> u \<le> 0x1F \<or> u = 0x7F) s \<and>
          list_all (\<lambda>part. part \<notin> set [[], js ''.'', js ''..'']) (split_on 0x2F s)
      | _ \<Rightarrow> False)"

definition http_protocol :: "url \<Rightarrow> bool" where
  "http_protocol u = (url_protocol u \<in> set [js ''http:'', js ''https:''])"

definition validOrigin :: "host \<Rightarrow> jval option \<Rightarrow> bool" where
  "validOrigin H v =
     (case v of
        Some (JStr s) \<Rightarrow>
          (case new_URL H s None of
             Some u \<Rightarrow> http_protocol u \<and> url_origin u = s
           | None \<Rightarrow> False)
      | _ \<Rightarrow> False)"

definition sameOrigin :: "host \<Rightarrow> jval option \<Rightarrow> jval option \<Rightarrow> bool" where
  "sameOrigin H v origin =
     (case v of
        Some (JStr s) \<Rightarrow>
          (case new_URL H s None of
             Some u \<Rightarrow> http_protocol u \<and> Some (JStr (url_origin u)) = origin \<and> url_hash u = []
           | None \<Rightarrow> False)
      | _ \<Rightarrow> False)"

definition string_of :: "jval option \<Rightarrow> jsstr" where
  "string_of v = (case v of Some (JStr s) \<Rightarrow> s | _ \<Rightarrow> [])"

definition sortedUnique :: "jval option list \<Rightarrow> bool" where
  "sortedUnique vs =
     (list_all ts_string vs \<and> length (remdups vs) = length vs \<and>
      list_all (\<lambda>i. i = 0 \<or> string_of (vs ! (i - 1)) < string_of (vs ! i)) [0..<length vs])"

fun jsonValue :: "jval \<Rightarrow> nat \<Rightarrow> bool" where
  "jsonValue v depth =
     (if 8 < depth then False
      else case v of
        JNull \<Rightarrow> True
      | JBool _ \<Rightarrow> True
      | JStr s \<Rightarrow> wellFormed s
      | JNum x \<Rightarrow> safe_integer x
      | JArr xs \<Rightarrow> length xs \<le> 256 \<and> list_all (\<lambda>x. jsonValue x (Suc depth)) xs
      | JObj p ps \<Rightarrow>
          length ps \<le> 64 \<and> list_all wellFormed (map fst ps) \<and>
          list_all (\<lambda>x. jsonValue x (Suc depth)) (map snd ps))"

declare jsonValue.simps [simp del]

definition jsonRecord :: "jval option \<Rightarrow> bool" where
  "jsonRecord v =
     (is_record v \<and> length (object_keys (the v)) \<le> 64 \<and>
      list_all wellFormed (object_keys (the v)) \<and> jsonValue (the v) 0)"

section \<open>Checks that can throw\<close>

text \<open>\<open>a && b && ...\<close>, left to right: the first conjunct that is false or throws decides.\<close>

primrec js_and :: "bool option list \<Rightarrow> bool option" where
  "js_and [] = Some True"
| "js_and (c # cs) = (if c = Some True then js_and cs else c)"

lemma js_and_True [simp]: "js_and cs = Some True \<longleftrightarrow> (\<forall>c \<in> set cs. c = Some True)"
  by (induction cs) auto

lemma js_and_cases: "js_and cs = None \<Longrightarrow> None \<in> set cs"
  by (induction cs) (auto split: if_splits)

lemma js_and_pure: "js_and (map Some bs) = Some (list_all (\<lambda>b. b) bs)"
  by (induction bs) auto

declare js_and.simps [simp del]

text \<open>\<open>[l1, l2, ...].includes(String(v))\<close>\<close>

definition includes_String :: "host \<Rightarrow> string list \<Rightarrow> jval option \<Rightarrow> bool option" where
  "includes_String H ls v = map_option (\<lambda>s. s \<in> set (map js ls)) (js_String_opt H v)"

definition array_all :: "(jval option \<Rightarrow> bool) \<Rightarrow> jval option \<Rightarrow> bool" where
  "array_all P v = (case v of Some (JArr xs) \<Rightarrow> list_all (\<lambda>x. P (Some x)) xs | _ \<Rightarrow> False)"

definition array_length :: "jval option \<Rightarrow> nat" where
  "array_length v = (case v of Some (JArr xs) \<Rightarrow> length xs | _ \<Rightarrow> 0)"

definition array_items :: "jval option \<Rightarrow> jval option list" where
  "array_items v = (case v of Some (JArr xs) \<Rightarrow> map Some xs | _ \<Rightarrow> [])"

definition is_array :: "jval option \<Rightarrow> bool" where
  "is_array v = (case v of Some (JArr xs) \<Rightarrow> True | _ \<Rightarrow> False)"

definition validSession :: "host \<Rightarrow> jval option \<Rightarrow> bool option" where
  "validSession H value =
     (if \<not> is_record value then Some False
      else let o1 = the value in js_and
       [Some (exact_keys o1 (map js [''coreName'', ''id'', ''mode'', ''platformName'', ''purpose'',
          ''returnTo'', ''title'', ''warnings''])),
        Some (uuid (fld o1 ''id'')),
        includes_String H [''PRODUCT'', ''REVIEW_PREVIEW''] (fld o1 ''purpose''),
        includes_String H [''SINGLE''] (fld o1 ''mode''),
        Some (bounded (fld o1 ''title'') 1 500),
        Some (bounded (fld o1 ''platformName'') 1 200),
        Some (bounded (fld o1 ''coreName'') 1 200),
        Some (relativeURL (fld o1 ''returnTo'')),
        Some (is_array (fld o1 ''warnings'')),
        Some (array_length (fld o1 ''warnings'') \<le> 16),
        Some (array_all (\<lambda>w. bounded w 1 200) (fld o1 ''warnings''))])"

definition capability_keys :: "jval \<Rightarrow> jsstr list" where
  "capability_keys v = map js
     ([''checkpoint''] @ (if has_own v (js ''contentLoading'') then [''contentLoading''] else []) @
      [''frameCounter'', ''frameMode'', ''inputFilter'', ''nativeSettings'', ''pause'',
       ''requiresThreads'', ''screenshot'', ''standardGamepad'', ''videoModes'', ''volume''])"

definition validCapabilities :: "host \<Rightarrow> jval option \<Rightarrow> bool option" where
  "validCapabilities H value =
     (if \<not> is_record value \<or> \<not> exact_keys (the value) (capability_keys (the value)) then Some False
      else let o1 = the value in
      if has_own o1 (js ''contentLoading'') \<and>
         fld o1 ''contentLoading'' \<noteq> Some (JStr (js ''ON_DEMAND_AND_PRELOAD'')) \<and>
         fld o1 ''contentLoading'' \<noteq> Some (JStr (js ''PRELOAD_ONLY'')) then Some False
      else if \<not> list_all (\<lambda>key. ts_boolean (fld o1 key))
         [''checkpoint'', ''frameCounter'', ''inputFilter'', ''nativeSettings'', ''pause'',
          ''requiresThreads'', ''screenshot'', ''standardGamepad'', ''volume''] then Some False
      else js_and
       [includes_String H [''NONE'', ''SAME_ORIGIN_BLANK'', ''SAME_ORIGIN_RESOURCE'',
          ''ISOLATED_ORIGIN_RESOURCE''] (fld o1 ''frameMode''),
        Some (is_array (fld o1 ''videoModes'')),
        Some (sortedUnique (array_items (fld o1 ''videoModes''))),
        Some (array_all (\<lambda>mode. mode \<in> set (map (Some \<circ> JStr \<circ> js)
          [''original'', ''pixel'', ''smooth'', ''sharp-bilinear'', ''adaptive-sharpen'']))
          (fld o1 ''videoModes''))])"

definition validCheckpoint :: "jval option \<Rightarrow> bool \<Rightarrow> bool" where
  "validCheckpoint value enabled =
     (if \<not> enabled then value = Some JNull
      else if \<not> is_record value then False
      else let o1 = the value in
        exact_keys o1 (map js [''maxBytes'', ''readFormats'', ''semantics'', ''writeFormat'']) \<and>
        (fld o1 ''semantics'' = Some (JStr (js ''INSTANT'')) \<or>
         fld o1 ''semantics'' = Some (JStr (js ''GAME_SAVE''))) \<and>
        positiveInteger (fld o1 ''maxBytes'') \<and>
        validToken (fld o1 ''writeFormat'') \<and>
        is_array (fld o1 ''readFormats'') \<and>
        sortedUnique (array_items (fld o1 ''readFormats'')) \<and>
        array_all validToken (fld o1 ''readFormats'') \<and>
        fld o1 ''writeFormat'' \<in> set (array_items (fld o1 ''readFormats'')))"

section \<open>Resources\<close>

definition validBlobResource :: "host \<Rightarrow> jval \<Rightarrow> bool option" where
  "validBlobResource H v = js_and
     [Some (exact_keys v (map js [''kind'', ''ordinal'', ''rangeRequired'', ''role'', ''sha256'', ''sizeBytes'', ''url''])),
      Some (validDigest (fld v ''sha256'')),
      Some (positiveInteger (fld v ''sizeBytes'')),
      Some (relativeURL (fld v ''url'')),
      map_option (\<lambda>b. fld v ''rangeRequired'' = Some (JBool b))
        (includes_String H [''SEEKABLE_BLOB''] (fld v ''kind''))]"

definition validFileTreeResource :: "jval \<Rightarrow> bool" where
  "validFileTreeResource v \<longleftrightarrow>
     exact_keys v (map js [''contentDigest'', ''indexUrl'', ''kind'', ''ordinal'', ''role'']) \<and>
     validDigest (fld v ''contentDigest'') \<and>
     relativeURL (fld v ''indexUrl'')"

definition validWebResource :: "host \<Rightarrow> jval \<Rightarrow> bool" where
  "validWebResource H v \<longleftrightarrow>
     exact_keys v (map js [''bridgeUrl'', ''contentDigest'', ''entryFile'', ''entryUrl'', ''indexUrl'',
       ''kind'', ''ordinal'', ''origin'', ''role'']) \<and>
     validDigest (fld v ''contentDigest'') \<and>
     relativeURL (fld v ''bridgeUrl'') \<and>
     relativeURL (fld v ''indexUrl'') \<and>
     validOrigin H (fld v ''origin'') \<and>
     sameOrigin H (fld v ''entryUrl'') (fld v ''origin'') \<and>
     safePath (fld v ''entryFile'') 1024"

definition validFileEntry :: "jval option \<Rightarrow> bool" where
  "validFileEntry value \<longleftrightarrow>
     is_record value \<and>
     exact_keys (the value) (map js [''logicalName'', ''sha256'', ''sizeBytes'', ''url'', ''virtualPath'']) \<and>
     bounded (fld (the value) ''logicalName'') 1 240 \<and>
     safePath (fld (the value) ''virtualPath'') 240 \<and>
     relativeURL (fld (the value) ''url'') \<and>
     validDigest (fld (the value) ''sha256'') \<and>
     positiveInteger (fld (the value) ''sizeBytes'')"

definition validFileSetResource :: "jval \<Rightarrow> bool" where
  "validFileSetResource v \<longleftrightarrow>
     exact_keys v (map js [''files'', ''kind'', ''ordinal'', ''role'']) \<and>
     is_array (fld v ''files'') \<and>
     array_length (fld v ''files'') > 0 \<and>
     array_all validFileEntry (fld v ''files'') \<and>
     sortedUnique (map (\<lambda>entry. if is_record entry then fld (the entry) ''virtualPath'' else Some JNull)
       (array_items (fld v ''files'')))"

definition validResource :: "host \<Rightarrow> jval \<Rightarrow> bool option" where
  "validResource H v =
     (case includes_String H [''ROM_BLOB'', ''SEEKABLE_BLOB'', ''WASM4_CART''] (fld v ''kind'') of
        None \<Rightarrow> None
      | Some True \<Rightarrow> validBlobResource H v
      | Some False \<Rightarrow>
          if fld v ''kind'' = Some (JStr (js ''FILE_TREE'')) then Some (validFileTreeResource v)
          else if fld v ''kind'' = Some (JStr (js ''NATIVE_WEB'')) \<or>
                  fld v ''kind'' = Some (JStr (js ''ISOLATED_WEB'')) then Some (validWebResource H v)
          else if fld v ''kind'' = Some (JStr (js ''BIOS_BUNDLE'')) \<or>
                  fld v ''kind'' = Some (JStr (js ''EXTERNAL_FILE_SET'')) then Some (validFileSetResource v)
          else Some False)"

text \<open>\<open>`${item.role}\0${item.ordinal}`\<close>, for a string and a safe integer.\<close>

definition ordinal_of :: "jval \<Rightarrow> int" where
  "ordinal_of item = (case fld item ''ordinal'' of Some (JNum (Fin q)) \<Rightarrow> \<lfloor>q\<rfloor> | _ \<Rightarrow> 0)"

definition role_of :: "jval \<Rightarrow> jsstr" where
  "role_of item = string_of (fld item ''role'')"

definition resource_key :: "jval \<Rightarrow> jsstr" where
  "resource_key item = role_of item @ [0] @ int_dec (ordinal_of item)"

primrec resource_loop :: "host \<Rightarrow> jsstr list \<Rightarrow> jval list \<Rightarrow> bool option" where
  "resource_loop H identities [] = Some True"
| "resource_loop H identities (item # items) =
     (if \<not> is_record (Some item) \<or> \<not> validIdentity (fld item ''role'') \<or>
         \<not> nonNegativeInteger (fld item ''ordinal'') \<or>
         resource_key item \<in> set identities then Some False
      else case validResource H item of
        Some True \<Rightarrow> resource_loop H (resource_key item # identities) items
      | other \<Rightarrow> other)"

definition contiguous_roles :: "jval list \<Rightarrow> bool" where
  "contiguous_roles items =
     list_all (\<lambda>role.
       (let group = filter (\<lambda>item. fld item ''role'' = Some (JStr role)) items in
        list_all (\<lambda>(item, index). fld item ''ordinal'' = Some (JInt (int index)))
          (zip group [0..<length group])))
       (remdups (map role_of items))"

definition validResources :: "host \<Rightarrow> jval option \<Rightarrow> bool option" where
  "validResources H value =
     (case value of
        Some (JArr items) \<Rightarrow>
          if 128 < length items then Some False
          else (case resource_loop H [] items of
            Some True \<Rightarrow> Some (contiguous_roles items)
          | other \<Rightarrow> other)
      | _ \<Rightarrow> Some False)"

definition validResourceBridge :: "host \<Rightarrow> jsstr \<Rightarrow> jval option \<Rightarrow> bool option" where
  "validResourceBridge H base resource =
     (let o1 = the resource; bridge = string_of (fld o1 ''bridgeUrl'') in
      if fld o1 ''kind'' \<noteq> Some (JStr (js ''NATIVE_WEB'')) \<and> fld o1 ''kind'' \<noteq> Some (JStr (js ''ISOLATED_WEB''))
      then Some True
      else case new_URL H bridge (Some (js ''https://retrom.invalid'')) of
        None \<Rightarrow> None
      | Some u \<Rightarrow> Some
          (url_pathname u = bridge \<and>
           starts_with bridge (base @ js ''assets/'') \<and>
           ends_with bridge (js ''/bridge.js'') \<and>
           safePath (Some (JStr (drop (length base) bridge))) 240))"

definition validResourceBridges :: "host \<Rightarrow> jval option \<Rightarrow> jsstr \<Rightarrow> bool option" where
  "validResourceBridges H resources base =
     js_and (map (validResourceBridge H base) (array_items resources))"

section \<open>Options, restore and the runtime\<close>

definition validTargetOptions :: "jval option \<Rightarrow> bool" where
  "validTargetOptions value \<longleftrightarrow>
     jsonRecord value \<and> utf8_length (stringify (the value)) \<le> 16 * 1024"

definition number_le :: "jval option \<Rightarrow> jval option \<Rightarrow> bool" where
  "number_le a b =
     (case a of
        Some (JNum x) \<Rightarrow> (case b of Some (JNum y) \<Rightarrow> num_le x y | _ \<Rightarrow> False)
      | _ \<Rightarrow> False)"

definition validRestoreAddress :: "jval \<Rightarrow> bool" where
  "validRestoreAddress v =
     (if fld v ''kind'' = Some (JStr (js ''LOCAL''))
      then exact_keys v (map js [''format'', ''kind'', ''sha256'', ''sizeBytes''])
      else fld v ''kind'' = Some (JStr (js ''HTTP'')) \<and>
           exact_keys v (map js [''format'', ''kind'', ''sha256'', ''sizeBytes'', ''url'']) \<and>
           relativeURL (fld v ''url''))"

definition validRestore :: "jval option \<Rightarrow> jval option \<Rightarrow> bool" where
  "validRestore value checkpoint =
     (if value = Some JNull then True
      else is_record checkpoint \<and> is_record value \<and>
        validRestoreAddress (the value) \<and>
        is_array (fld (the checkpoint) ''readFormats'') \<and>
        fld (the value) ''format'' \<in> set (array_items (fld (the checkpoint) ''readFormats'')) \<and>
        validDigest (fld (the value) ''sha256'') \<and>
        positiveInteger (fld (the value) ''sizeBytes'') \<and>
        ts_number (fld (the checkpoint) ''maxBytes'') \<and>
        number_le (fld (the value) ''sizeBytes'') (fld (the checkpoint) ''maxBytes''))"

definition validRuntimeIdentity :: "jval \<Rightarrow> bool" where
  "validRuntimeIdentity v \<longleftrightarrow>
     fld v ''providerApiVersion'' = Some (JInt 1) \<and>
     validCoreIdentity (fld v ''coreId'') \<and>
     validIdentity (fld v ''providerId'') \<and>
     validIdentity (fld v ''targetId'') \<and>
     validVersion (fld v ''providerVersion'')"

definition validRuntimeDigests :: "jval \<Rightarrow> bool" where
  "validRuntimeDigests v \<longleftrightarrow>
     validDigest (fld v ''bundleSha256'') \<and> validDigest (fld v ''moduleSha256'') \<and>
     validDigest (fld v ''coreFingerprint'') \<and> validDigest (fld v ''romHash'')"

text \<open>
  A template literal writes a string property as itself and a missing one as \<open>undefined\<close>;
  both callers pass strings here.
\<close>

definition provider_base :: "jval \<Rightarrow> jsstr" where
  "provider_base v = js ''/runtime/providers/'' @ string_of (fld v ''providerId'') @ js ''/'' @
     string_of (fld v ''bundleSha256'') @ js ''/''"

definition validProviderModuleURLs :: "jval \<Rightarrow> bool" where
  "validProviderModuleURLs v =
     (let base = provider_base v in
      fld v ''runtimeBaseUrl'' \<in> set (map (Some \<circ> JStr)
        [base, base @ js ''dev/'' @ string_of (fld v ''moduleSha256'') @ js ''/'']) \<and>
      fld v ''moduleUrl'' = Some (JStr (string_of (fld v ''runtimeBaseUrl'') @ js ''client.mjs'')))"

definition runtime_keys :: "jsstr list" where
  "runtime_keys = map js [''bundleSha256'', ''capabilities'', ''checkpoint'', ''coreFingerprint'', ''coreId'',
     ''moduleSha256'', ''moduleUrl'', ''providerApiVersion'', ''providerId'', ''providerVersion'',
     ''romHash'', ''runtimeBaseUrl'', ''targetId'']"

definition true_value :: "jval option \<Rightarrow> bool" where
  "true_value v = (v = Some (JBool True))"

text \<open>\<open>launchRuntime\<close>: the runtime part when it is valid (\<open>Some True\<close>), null otherwise.\<close>

definition launchRuntime :: "host \<Rightarrow> jval option \<Rightarrow> bool option" where
  "launchRuntime H value =
     (if \<not> is_record value then Some False
      else let o1 = the value in js_and
       [Some (exact_keys o1 runtime_keys),
        Some (validRuntimeIdentity o1),
        Some (validRuntimeDigests o1),
        validCapabilities H (fld o1 ''capabilities''),
        Some (validCheckpoint (fld o1 ''checkpoint'')
          (true_value (fld (the (fld o1 ''capabilities'')) ''checkpoint'')))])"

definition validEnvelopeBody :: "host \<Rightarrow> jval \<Rightarrow> jval \<Rightarrow> bool option" where
  "validEnvelopeBody H value runtime = js_and
     [Some (validProviderModuleURLs runtime),
      validResources H (fld value ''resources''),
      validResourceBridges H (fld value ''resources'') (string_of (fld runtime ''runtimeBaseUrl'')),
      Some (validTargetOptions (fld value ''targetOptions'')),
      Some (validRestore (fld value ''restore'') (fld runtime ''checkpoint''))]"

section \<open>The boundary\<close>

definition envelope_keys :: "jsstr list" where
  "envelope_keys = map js [''resources'', ''restore'', ''runtime'', ''schemaVersion'', ''session'', ''targetOptions'']"

definition envelope_check :: "host \<Rightarrow> jval option \<Rightarrow> bool option" where
  "envelope_check H value =
     (if \<not> is_record value then Some False
      else let o1 = the value in js_and
       [Some (exact_keys o1 envelope_keys),
        Some (fld o1 ''schemaVersion'' = Some (JInt 1)),
        validSession H (fld o1 ''session''),
        launchRuntime H (fld o1 ''runtime''),
        validEnvelopeBody H o1 (the (fld o1 ''runtime''))])"

definition validateLaunchEnvelopeBoundary :: "host \<Rightarrow> jval option \<Rightarrow> thrown + jval" where
  "validateLaunchEnvelopeBoundary H value =
     (case envelope_check H value of
        None \<Rightarrow> Inl TypeError
      | Some ok \<Rightarrow>
          if ok then Inr (the value) else Inl (PlayerRuntimeError PLAYER_LAUNCH_ENVELOPE_INVALID))"

definition parseLaunchEnvelopeJSON :: "host \<Rightarrow> jsstr \<Rightarrow> thrown + jval" where
  "parseLaunchEnvelopeJSON H source =
     (case parse_canonical_json source of
        Inl _ \<Rightarrow> Inl (PlayerRuntimeError PLAYER_LAUNCH_ENVELOPE_INVALID)
      | Inr v \<Rightarrow>
          (case validateLaunchEnvelopeBoundary H (Some v) of
             Inl _ \<Rightarrow> Inl (PlayerRuntimeError PLAYER_LAUNCH_ENVELOPE_INVALID)
           | Inr w \<Rightarrow> Inr w))"

definition reference_keys :: "jsstr list" where
  "reference_keys = map js [''bundleSha256'', ''moduleSha256'', ''moduleUrl'', ''providerApiVersion'',
     ''providerId'', ''providerVersion'', ''runtimeBaseUrl'']"

definition validateProviderModuleReference :: "jval option \<Rightarrow> thrown + jval" where
  "validateProviderModuleReference value =
     (if \<not> is_record value \<or>
         \<not> (let o1 = the value in
             exact_keys o1 reference_keys \<and>
             fld o1 ''providerApiVersion'' = Some (JInt 1) \<and>
             validIdentity (fld o1 ''providerId'') \<and>
             validVersion (fld o1 ''providerVersion'') \<and>
             validDigest (fld o1 ''bundleSha256'') \<and> validDigest (fld o1 ''moduleSha256'') \<and>
             ts_string (fld o1 ''moduleUrl'') \<and> ts_string (fld o1 ''runtimeBaseUrl'') \<and>
             validProviderModuleURLs o1)
      then Inl (PlayerRuntimeError PLAYER_LAUNCH_ENVELOPE_INVALID)
      else Inr (the value))"

end
