(* ===== verification/Provider_Dispatcher.thy ===== *)
theory Provider_Dispatcher
  imports Envelope
begin

text \<open>
  \<open>web/features/player/runtime/provider-dispatcher.ts\<close>: fetching, verifying and importing a
  Provider module, and creating a runtime with it. The environment (fetch, digest, object URLs,
  dynamic import) is a record of functions; an operation returns its outcome together with the
  effects it had, in order. A rejected promise of the environment is \<open>None\<close>.
\<close>

section \<open>The environment\<close>

type_synonym byte = "8 word"

text \<open>A body stream as its reads: a chunk, or a failure; the end of the list is \<open>done\<close>.\<close>

datatype stream_read = Chunk "byte list" | Broken

record response =
  resp_ok :: bool
  content_type :: "jsstr option"
  content_length :: "jsstr option"
  resp_body :: "stream_read list option"

record dispatcher =
  createModuleUrl :: "byte list \<Rightarrow> jsstr"
  crossOriginIsolated :: bool
  fetcher :: "jsstr \<Rightarrow> response option"
  sha256 :: "byte list \<Rightarrow> jsstr option"

record overrides =
  o_createModuleUrl :: "(byte list \<Rightarrow> jsstr) option"
  o_crossOriginIsolated :: "bool option"
  o_fetcher :: "(jsstr \<Rightarrow> response option) option"
  o_sha256 :: "(byte list \<Rightarrow> jsstr option) option"

text \<open>The browser: \<open>createObjectURL\<close>, \<open>crossOriginIsolated\<close>, \<open>fetch\<close>, \<open>crypto.subtle.digest\<close>.\<close>

record browser =
  createObjectURL :: "byte list \<Rightarrow> jsstr"
  global_isolated :: bool
  global_fetch :: "jsstr \<Rightarrow> response option"
  subtle_digest :: "byte list \<Rightarrow> byte list option"

text \<open>\<open>value.toString(16).padStart(2, "0")\<close>\<close>

definition hex_byte :: "byte \<Rightarrow> jsstr" where
  "hex_byte b = [hex_unit (unat b div 16), hex_unit (unat b mod 16)]"

definition digestSha256 :: "browser \<Rightarrow> byte list \<Rightarrow> jsstr option" where
  "digestSha256 B bytes = map_option (\<lambda>d. concat (map hex_byte d)) (subtle_digest B bytes)"

definition dispatcherEnvironment :: "browser \<Rightarrow> overrides \<Rightarrow> dispatcher" where
  "dispatcherEnvironment B ov =
     \<lparr>createModuleUrl = (case o_createModuleUrl ov of Some f \<Rightarrow> f | None \<Rightarrow> createObjectURL B),
      crossOriginIsolated = (case o_crossOriginIsolated ov of Some b \<Rightarrow> b | None \<Rightarrow> global_isolated B),
      fetcher = (case o_fetcher ov of Some f \<Rightarrow> f | None \<Rightarrow> global_fetch B),
      sha256 = (case o_sha256 ov of Some f \<Rightarrow> f | None \<Rightarrow> digestSha256 B)\<rparr>"

section \<open>Modules and runtimes\<close>

text \<open>A property of a module or a runtime is a function or another value.\<close>

datatype member = Function | Value jval

type_synonym members = "(jsstr \<times> member) list"

definition is_function :: "members \<Rightarrow> string \<Rightarrow> bool" where
  "is_function ms n = (map_of ms (js n) = Some Function)"

text \<open>
  What \<open>createRuntime\<close> resolves with: not a record, or an object with its members and the results
  of the two getters the check calls.
\<close>

datatype created =
    NoRecord
  | Runtime (rt_members: members) (rt_state: "thrown + jval option") (rt_capabilities: "thrown + jval option")

text \<open>What \<open>import(url)\<close> resolves with, and what its functions do when called.\<close>

datatype imported =
    NoModule
  | Module (md_members: members) (md_create: "jval \<Rightarrow> thrown + created") (md_reclaim: "thrown + jval")

datatype effect =
    Fetched jsstr
  | ReaderLocked
  | ReaderReleased
  | Created jsstr "byte list"
  | Imported jsstr
  | Revoked jsstr
  | CreateCalled
  | ReclaimCalled

type_synonym 'a run = "(thrown + 'a) \<times> effect list"

definition run_bind :: "'a run \<Rightarrow> ('a \<Rightarrow> 'b run) \<Rightarrow> 'b run" where
  "run_bind m f =
     (case m of
        (Inl e, t) \<Rightarrow> (Inl e, t)
      | (Inr x, t) \<Rightarrow> (case f x of (r, u) \<Rightarrow> (r, t @ u)))"

abbreviation invalidModule :: thrown where
  "invalidModule \<equiv> PlayerRuntimeError PLAYER_PROVIDER_MODULE_INVALID"

section \<open>Reading the body\<close>

definition maximumModuleBytes :: nat where
  "maximumModuleBytes = 8 * 1024 * 1024"

fun read_loop :: "nat \<Rightarrow> nat \<Rightarrow> byte list list \<Rightarrow> stream_read list \<Rightarrow> thrown + (byte list list \<times> nat)" where
  "read_loop maximum amount chunks [] = Inr (chunks, amount)"
| "read_loop maximum amount chunks (Chunk value # reads) =
     (if maximum < amount + length value then Inl invalidModule
      else read_loop maximum (amount + length value) (chunks @ [value]) reads)"
| "read_loop maximum amount chunks (Broken # reads) = Inl (OtherError ''stream'')"

text \<open>\<open>bytes.set(chunk, offset)\<close> on a buffer that has the room.\<close>

definition set_at :: "nat \<Rightarrow> byte list \<Rightarrow> byte list \<Rightarrow> byte list" where
  "set_at offset chunk bytes = take offset bytes @ chunk @ drop (offset + length chunk) bytes"

primrec copy_chunks :: "nat \<Rightarrow> byte list list \<Rightarrow> byte list \<Rightarrow> byte list" where
  "copy_chunks offset [] bytes = bytes"
| "copy_chunks offset (chunk # chunks) bytes =
     copy_chunks (offset + length chunk) chunks (set_at offset chunk bytes)"

definition readBoundedBody :: "stream_read list option \<Rightarrow> nat \<Rightarrow> byte list run" where
  "readBoundedBody body maximum =
     (case body of
        None \<Rightarrow> (Inl invalidModule, [])
      | Some reads \<Rightarrow>
          (case read_loop maximum 0 [] reads of
             Inl e \<Rightarrow> (Inl e, [ReaderLocked, ReaderReleased])
           | Inr (chunks, amount) \<Rightarrow>
               (Inr (copy_chunks 0 chunks (replicate amount 0)), [ReaderLocked, ReaderReleased])))"

section \<open>Fetching the module\<close>

definition javascript_type :: jsstr where
  "javascript_type = js ''text/javascript; charset=utf-8''"

text \<open>The declared length is refused when it is no decimal number, zero, or above the limit.\<close>

definition bad_length :: "jsstr option \<Rightarrow> bool" where
  "bad_length declared =
     (case declared of
        None \<Rightarrow> False
      | Some s \<Rightarrow> \<not> rx_test decimal_rx s \<or> dec_value s < 1 \<or> maximumModuleBytes < dec_value s)"

text \<open>The body of the \<open>try\<close>, and the \<open>catch\<close> that keeps coded errors only.\<close>

definition fetch_try :: "dispatcher \<Rightarrow> jval \<Rightarrow> byte list run" where
  "fetch_try D runtime =
     (let url = string_of (fld runtime ''moduleUrl'') in
      case fetcher D url of
        None \<Rightarrow> (Inl (OtherError ''fetch''), [Fetched url])
      | Some response \<Rightarrow>
          run_bind (Inr (), [Fetched url]) (\<lambda>_.
          if \<not> resp_ok response \<or> content_type response \<noteq> Some javascript_type then (Inl invalidModule, [])
          else if bad_length (content_length response) then (Inl invalidModule, [])
          else run_bind (readBoundedBody (resp_body response) maximumModuleBytes) (\<lambda>bytes.
            if length bytes < 1 \<or>
               (case content_length response of None \<Rightarrow> False | Some s \<Rightarrow> length bytes \<noteq> dec_value s)
            then (Inl invalidModule, [])
            else case sha256 D bytes of
              None \<Rightarrow> (Inl (OtherError ''sha256''), [])
            | Some d \<Rightarrow>
                if Some (JStr d) \<noteq> fld runtime ''moduleSha256''
                then (Inl (PlayerRuntimeError PLAYER_PROVIDER_MODULE_DIGEST_INVALID), [])
                else (Inr bytes, []))))"

definition fetchProviderModule :: "dispatcher \<Rightarrow> jval \<Rightarrow> byte list run" where
  "fetchProviderModule D runtime =
     (case fetch_try D runtime of
        (Inl e, t) \<Rightarrow> (Inl (case e of PlayerRuntimeError c \<Rightarrow> e | _ \<Rightarrow> invalidModule), t)
      | (Inr bytes, t) \<Rightarrow> (Inr bytes, t))"

section \<open>Checking what was imported\<close>

definition module_keys :: "jsstr list" where
  "module_keys = map js [''clearContentCache'', ''createRuntime'', ''inspectContentCache'',
     ''providerApiVersion'', ''providerId'', ''providerVersion'', ''reclaimContentCache'']"

definition member_value :: "members \<Rightarrow> string \<Rightarrow> jval option" where
  "member_value ms n = (case map_of ms (js n) of Some (Value v) \<Rightarrow> Some v | _ \<Rightarrow> None)"

definition validateProviderModule :: "imported \<Rightarrow> jval \<Rightarrow> thrown + imported" where
  "validateProviderModule value runtime =
     (case value of
        NoModule \<Rightarrow> Inl invalidModule
      | Module ms create reclaim \<Rightarrow>
          if sort (map fst ms) \<noteq> module_keys \<or>
             member_value ms ''providerId'' \<noteq> fld runtime ''providerId'' \<or>
             member_value ms ''providerVersion'' \<noteq> fld runtime ''providerVersion'' \<or>
             member_value ms ''providerApiVersion'' \<noteq> fld runtime ''providerApiVersion'' \<or>
             \<not> is_function ms ''createRuntime'' \<or> \<not> is_function ms ''inspectContentCache'' \<or>
             \<not> is_function ms ''clearContentCache'' \<or> \<not> is_function ms ''reclaimContentCache''
          then Inl invalidModule else Inr value)"

definition runtime_methods :: "string list" where
  "runtime_methods = [''mount'', ''pause'', ''resume'', ''checkpoint'', ''screenshot'', ''exit'', ''getState'',
     ''getCapabilities'', ''getCheckpointAvailability'', ''getInputCapabilities'', ''getCanvas'',
     ''getFrameCount'', ''setVolume'', ''setVideoMode'', ''openNativeSettings'', ''closeNativeSettings'',
     ''setInputFilter'', ''setHostShortcutPolicy'', ''subscribe'']"

definition stringArraysEqual :: "jval option \<Rightarrow> jval option list \<Rightarrow> bool" where
  "stringArraysEqual actual expected =
     (is_array actual \<and> length (array_items actual) = length expected \<and>
      list_all (\<lambda>(v, w). v = w) (zip (array_items actual) expected))"

definition scalarKeys :: "string list" where
  "scalarKeys = [''checkpoint'', ''frameCounter'', ''frameMode'', ''inputFilter'', ''nativeSettings'',
     ''pause'', ''requiresThreads'', ''screenshot'', ''standardGamepad'', ''volume'']"

definition validSessionCapabilities :: "jval option \<Rightarrow> jval \<Rightarrow> bool" where
  "validSessionCapabilities actual expected =
     (if \<not> is_record actual \<or> \<not> exact_keys (the actual) (capability_keys (the actual)) then False
      else fld (the actual) ''contentLoading'' = fld expected ''contentLoading'' \<and>
        list_all (\<lambda>key. fld (the actual) key = fld expected key) scalarKeys \<and>
        stringArraysEqual (fld (the actual) ''videoModes'') (array_items (fld expected ''videoModes'')))"

definition runtime_part :: "jval \<Rightarrow> jval" where
  "runtime_part envelope = the (fld envelope ''runtime'')"

definition capabilities_part :: "jval \<Rightarrow> jval" where
  "capabilities_part envelope = the (fld (runtime_part envelope) ''capabilities'')"

text \<open>\<open>envelope.runtime.checkpoint?.semantics === "GAME_SAVE"\<close>\<close>

definition game_save :: "jval \<Rightarrow> bool" where
  "game_save envelope =
     (case fld (runtime_part envelope) ''checkpoint'' of
        Some c \<Rightarrow> fld c ''semantics'' = Some (JStr (js ''GAME_SAVE''))
      | None \<Rightarrow> False)"

definition validatePlayerRuntime :: "created \<Rightarrow> jval \<Rightarrow> thrown + created" where
  "validatePlayerRuntime value envelope =
     (case value of
        NoRecord \<Rightarrow> Inl invalidModule
      | Runtime ms state caps \<Rightarrow>
          if \<not> list_all (is_function ms) runtime_methods then Inl invalidModule
          else if game_save envelope \<and> \<not> is_function ms ''acknowledgeCheckpoint'' then Inl invalidModule
          else (case state of
            Inl e \<Rightarrow> Inl e
          | Inr s \<Rightarrow>
              if s \<noteq> Some (JStr (js ''CREATED'')) then Inl invalidModule
              else (case caps of
                Inl e \<Rightarrow> Inl e
              | Inr c \<Rightarrow>
                  if \<not> validSessionCapabilities c (capabilities_part envelope) then Inl invalidModule
                  else Inr value)))"

section \<open>Loading\<close>

definition loadProviderModule :: "dispatcher \<Rightarrow> (jsstr \<Rightarrow> imported option) \<Rightarrow> jval \<Rightarrow> imported run" where
  "loadProviderModule D importer runtime =
     run_bind (fetchProviderModule D runtime) (\<lambda>bytes.
       let url = createModuleUrl D bytes in
       ((case importer url of
           None \<Rightarrow> Inl invalidModule
         | Some m \<Rightarrow> validateProviderModule m runtime),
        [Created url bytes, Imported url, Revoked url]))"

definition loadProviderRuntime ::
  "host \<Rightarrow> browser \<Rightarrow> overrides \<Rightarrow> (jsstr \<Rightarrow> imported option) \<Rightarrow> jval option \<Rightarrow> created run" where
  "loadProviderRuntime H B ov importer value =
     (case validateLaunchEnvelopeBoundary H value of
        Inl e \<Rightarrow> (Inl e, [])
      | Inr envelope \<Rightarrow>
          (let D = dispatcherEnvironment B ov in
           if true_value (fld (capabilities_part envelope) ''requiresThreads'') \<and> \<not> crossOriginIsolated D
           then (Inl (PlayerRuntimeError PLAYER_RUNTIME_THREADS_UNAVAILABLE), [])
           else run_bind (loadProviderModule D importer (runtime_part envelope)) (\<lambda>provider.
             run_bind (md_create provider envelope, [CreateCalled]) (\<lambda>runtime.
               (validatePlayerRuntime runtime envelope, [])))))"

text \<open>
  A signal is observed at the points where the code asks it; \<open>aborted n\<close> is its state at the
  \<open>n\<close>-th. For the reclamation the signal is the caller's or the timeout of 15 seconds.
\<close>

definition throwIfAborted :: "bool \<Rightarrow> unit run" where
  "throwIfAborted a = (if a then Inl AbortError else Inr (), [])"

definition any_signal :: "(nat \<Rightarrow> bool) \<Rightarrow> (nat \<Rightarrow> bool) option \<Rightarrow> nat \<Rightarrow> bool" where
  "any_signal timeout request n = (timeout n \<or> (case request of Some s \<Rightarrow> s n | None \<Rightarrow> False))"

definition reclaimProviderContentCache ::
  "host \<Rightarrow> browser \<Rightarrow> overrides \<Rightarrow> (jsstr \<Rightarrow> imported option) \<Rightarrow> (nat \<Rightarrow> bool) \<Rightarrow> (nat \<Rightarrow> bool) option \<Rightarrow>
     jval option \<Rightarrow> jval run" where
  "reclaimProviderContentCache H B ov importer timeout request value =
     (case validateLaunchEnvelopeBoundary H value of
        Inl e \<Rightarrow> (Inl e, [])
      | Inr envelope \<Rightarrow>
          (let aborted = any_signal timeout request in
           run_bind (throwIfAborted (aborted 0)) (\<lambda>_.
           run_bind (loadProviderModule (dispatcherEnvironment B ov) importer (runtime_part envelope)) (\<lambda>provider.
           run_bind (throwIfAborted (aborted 1)) (\<lambda>_.
             (md_reclaim provider, [ReclaimCalled]))))))"

definition loadInstalledProviderModule ::
  "browser \<Rightarrow> overrides \<Rightarrow> (jsstr \<Rightarrow> imported option) \<Rightarrow> (nat \<Rightarrow> bool) \<Rightarrow> jval option \<Rightarrow> imported run" where
  "loadInstalledProviderModule B ov importer aborted reference =
     run_bind (throwIfAborted (aborted 0)) (\<lambda>_.
       case validateProviderModuleReference reference of
         Inl e \<Rightarrow> (Inl e, [])
       | Inr runtime \<Rightarrow>
           run_bind (loadProviderModule (dispatcherEnvironment B ov) importer runtime) (\<lambda>provider.
           run_bind (throwIfAborted (aborted 1)) (\<lambda>_. (Inr provider, []))))"

section \<open>Lemmas\<close>

lemma run_bind_simps [simp]:
  "run_bind (Inl e, t) f = (Inl e, t)"
  "run_bind (Inr x, t) f = (fst (f x), t @ snd (f x))"
  by (simp_all add: run_bind_def split: prod.splits)

lemma run_bind_Inr: "run_bind m f = (Inr y, t) \<longleftrightarrow>
    (\<exists>x u v. m = (Inr x, u) \<and> f x = (Inr y, v) \<and> t = u @ v)"
  by (cases m; cases "fst m") (auto simp: run_bind_def split: prod.splits)

lemma snd_run_bind: "snd (run_bind m f) = snd m @ (case fst m of Inl e \<Rightarrow> [] | Inr x \<Rightarrow> snd (f x))"
  by (cases m; cases "fst m") (auto simp: run_bind_def split: prod.splits)

lemma set_at_append: "length front = n \<Longrightarrow> length chunk \<le> length room \<Longrightarrow>
    set_at n chunk (front @ room) = front @ chunk @ drop (length chunk) room"
  by (simp add: set_at_def)

lemma copy_chunks_concat:
  "sum_list (map length chunks) \<le> length room \<Longrightarrow>
     copy_chunks (length front) chunks (front @ room) =
       front @ concat chunks @ drop (sum_list (map length chunks)) room"
proof (induction chunks arbitrary: front room)
  case (Cons chunk chunks)
  have "copy_chunks (length (front @ chunk)) chunks ((front @ chunk) @ drop (length chunk) room) =
      (front @ chunk) @ concat chunks @ drop (sum_list (map length chunks)) (drop (length chunk) room)"
    by (rule Cons.IH) (use Cons.prems in simp)
  then show ?case using Cons.prems by (simp add: set_at_append add.commute)
qed simp

lemma read_loop_result:
  "read_loop m n cs reads = Inr (ds, k) \<Longrightarrow>
     \<exists>es. reads = map Chunk es \<and> ds = cs @ es \<and> k = n + sum_list (map length es) \<and> (es = [] \<or> k \<le> m)"
proof (induction m n cs reads rule: read_loop.induct)
  case (2 m n cs c reads)
  then obtain es where es: "reads = map Chunk es" "ds = (cs @ [c]) @ es" "k = n + length c + sum_list (map length es)"
    "es = [] \<or> k \<le> m" "n + length c \<le> m" by (auto split: if_splits)
  then show ?case by (intro exI [of _ "c # es"]) auto
qed auto

lemma read_loop_chunks:
  "n + sum_list (map length es) \<le> m \<Longrightarrow>
     read_loop m n cs (map Chunk es) = Inr (cs @ es, n + sum_list (map length es))"
  by (induction es arbitrary: n cs) auto

lemma read_loop_over:
  "n \<le> m \<Longrightarrow> m < n + sum_list (map length es) \<Longrightarrow> read_loop m n cs (map Chunk es) = Inl invalidModule"
  by (induction es arbitrary: n cs) auto

lemma readBoundedBody_Inr:
  "fst (readBoundedBody body m) = Inr bytes \<longleftrightarrow>
     (\<exists>es. body = Some (map Chunk es) \<and> bytes = concat es \<and> length bytes \<le> m)"
proof
  assume "fst (readBoundedBody body m) = Inr bytes"
  then obtain reads ds k where b: "body = Some reads" "read_loop m 0 [] reads = Inr (ds, k)"
    "bytes = copy_chunks 0 ds (replicate k 0)"
    by (auto simp: readBoundedBody_def split: option.splits sum.splits)
  from read_loop_result [OF b(2)] have e: "reads = map Chunk ds" "k = sum_list (map length ds)" "ds = [] \<or> k \<le> m"
    by auto
  have "bytes = concat ds"
    using copy_chunks_concat [of ds "replicate k 0" "[]"] b(3) e(2) by simp
  moreover from e this have "length bytes \<le> m" by (auto simp: length_concat)
  ultimately show "\<exists>es. body = Some (map Chunk es) \<and> bytes = concat es \<and> length bytes \<le> m"
    using b(1) e(1) by blast
next
  assume "\<exists>es. body = Some (map Chunk es) \<and> bytes = concat es \<and> length bytes \<le> m"
  then obtain es where e: "body = Some (map Chunk es)" "bytes = concat es" "length bytes \<le> m" by blast
  then have "read_loop m 0 [] (map Chunk es) = Inr (es, sum_list (map length es))"
    using read_loop_chunks [of 0 es m "[]"] by (simp add: length_concat)
  then show "fst (readBoundedBody body m) = Inr bytes"
    using e copy_chunks_concat [of es "replicate (sum_list (map length es)) 0" "[]"]
    by (simp add: readBoundedBody_def)
qed

text \<open>What a successful fetch has checked.\<close>

definition verified :: "dispatcher \<Rightarrow> jval \<Rightarrow> byte list \<Rightarrow> bool" where
  "verified D runtime bytes \<longleftrightarrow>
     (\<exists>response es. fetcher D (string_of (fld runtime ''moduleUrl'')) = Some response \<and> resp_ok response \<and>
        content_type response = Some javascript_type \<and> resp_body response = Some (map Chunk es) \<and>
        bytes = concat es \<and>
        (\<forall>s. content_length response = Some s \<longrightarrow> rx_test decimal_rx s \<and> dec_value s = length bytes)) \<and>
     bytes \<noteq> [] \<and> length bytes \<le> maximumModuleBytes \<and>
     map_option JStr (sha256 D bytes) = fld runtime ''moduleSha256'' \<and> sha256 D bytes \<noteq> None"

lemma fetch_verified: "fst (fetchProviderModule D runtime) = Inr bytes \<Longrightarrow> verified D runtime bytes"
proof -
  assume "fst (fetchProviderModule D runtime) = Inr bytes"
  then have "fst (fetch_try D runtime) = Inr bytes"
    by (auto simp: fetchProviderModule_def split: prod.splits sum.splits)
  then obtain response where r: "fetcher D (string_of (fld runtime ''moduleUrl'')) = Some response"
    "resp_ok response" "content_type response = Some javascript_type" "\<not> bad_length (content_length response)"
    and b: "fst (run_bind (readBoundedBody (resp_body response) maximumModuleBytes) (\<lambda>bytes.
            if length bytes < 1 \<or>
               (case content_length response of None \<Rightarrow> False | Some s \<Rightarrow> length bytes \<noteq> dec_value s)
            then (Inl invalidModule, [])
            else case sha256 D bytes of
              None \<Rightarrow> (Inl (OtherError ''sha256''), [])
            | Some d \<Rightarrow>
                if Some (JStr d) \<noteq> fld runtime ''moduleSha256''
                then (Inl (PlayerRuntimeError PLAYER_PROVIDER_MODULE_DIGEST_INVALID), [])
                else (Inr bytes, []))) = Inr bytes"
    by (auto simp: fetch_try_def Let_def split: option.splits if_splits)
  obtain x t where x: "readBoundedBody (resp_body response) maximumModuleBytes = (x, t)" by force
  with b obtain got where got: "x = Inr got" by (cases x) auto
  with b x have g: "got = bytes" "bytes \<noteq> []"
    "\<forall>s. content_length response = Some s \<longrightarrow> length bytes = dec_value s"
    "map_option JStr (sha256 D bytes) = fld runtime ''moduleSha256''" "sha256 D bytes \<noteq> None"
    by (auto split: if_splits option.splits)
  from x got have "fst (readBoundedBody (resp_body response) maximumModuleBytes) = Inr bytes" using g(1) by simp
  then obtain es where "resp_body response = Some (map Chunk es)" "bytes = concat es" "length bytes \<le> maximumModuleBytes"
    unfolding readBoundedBody_Inr by blast
  with r g show ?thesis
    unfolding verified_def by (auto simp: bad_length_def)
qed

text \<open>The fetch leaves no effect but the request and the paired reader effects.\<close>

definition url_effect :: "effect \<Rightarrow> bool" where
  "url_effect e = (case e of Created _ _ \<Rightarrow> True | Imported _ \<Rightarrow> True | Revoked _ \<Rightarrow> True | _ \<Rightarrow> False)"

lemma readBoundedBody_effects: "snd (readBoundedBody b m) \<in> {[], [ReaderLocked, ReaderReleased]}"
  by (auto simp: readBoundedBody_def split: option.splits sum.splits)

lemma fetch_try_effects:
  "snd (fetch_try D r) \<in> {[Fetched (string_of (fld r ''moduleUrl''))],
     [Fetched (string_of (fld r ''moduleUrl'')), ReaderLocked, ReaderReleased]}"
  using readBoundedBody_effects
  by (fastforce simp: fetch_try_def Let_def snd_run_bind split: option.splits sum.splits)

lemma fetch_effects:
  "snd (fetchProviderModule D r) \<in> {[Fetched (string_of (fld r ''moduleUrl''))],
     [Fetched (string_of (fld r ''moduleUrl'')), ReaderLocked, ReaderReleased]}"
  using fetch_try_effects [of D r] by (auto simp: fetchProviderModule_def split: prod.splits sum.splits)

lemma fetch_no_url: "filter url_effect (snd (fetchProviderModule D r)) = []"
  using fetch_effects [of D r] by (auto simp: url_effect_def)

lemma fetch_errors:
  "fst (fetchProviderModule D r) = Inl e \<Longrightarrow>
     e \<in> {invalidModule, PlayerRuntimeError PLAYER_PROVIDER_MODULE_DIGEST_INVALID}"
proof -
  assume "fst (fetchProviderModule D r) = Inl e"
  then obtain x where x: "fst (fetch_try D r) = Inl x" "e = (case x of PlayerRuntimeError c \<Rightarrow> x | _ \<Rightarrow> invalidModule)"
    by (auto simp: fetchProviderModule_def split: prod.splits sum.splits)
  have body: "fst (readBoundedBody b m) = Inl y \<Longrightarrow> y \<in> {invalidModule, OtherError ''stream''}" for b m y
  proof -
    have "read_loop m n cs reads = Inl y \<Longrightarrow> y \<in> {invalidModule, OtherError ''stream''}" for n cs reads
      by (induction m n cs reads rule: read_loop.induct) (auto split: if_splits)
    then show "fst (readBoundedBody b m) = Inl y \<Longrightarrow> ?thesis"
      by (auto simp: readBoundedBody_def split: option.splits sum.splits)
  qed
  have body': "readBoundedBody b m = (Inl y, t) \<Longrightarrow> y = invalidModule \<or> y = OtherError ''stream''" for b m y t
    using body [of b m y] by simp
  have "x \<in> {invalidModule, PlayerRuntimeError PLAYER_PROVIDER_MODULE_DIGEST_INVALID, OtherError ''stream'',
      OtherError ''fetch'', OtherError ''sha256''}"
    using x(1) unfolding fetch_try_def Let_def
    by (auto simp: run_bind_def split: option.splits if_splits prod.splits sum.splits dest: body')
  with x(2) show ?thesis by auto
qed

lemma load_effects:
  "filter url_effect (snd (loadProviderModule D importer r)) = [] \<or>
   (\<exists>bytes. verified D r bytes \<and> filter url_effect (snd (loadProviderModule D importer r)) =
      [Created (createModuleUrl D bytes) bytes, Imported (createModuleUrl D bytes), Revoked (createModuleUrl D bytes)])"
proof (cases "fst (fetchProviderModule D r)")
  case (Inr bytes)
  then have "verified D r bytes" by (rule fetch_verified)
  then show ?thesis
    using Inr fetch_no_url [of D r] by (auto simp: loadProviderModule_def snd_run_bind Let_def url_effect_def)
qed (simp add: loadProviderModule_def snd_run_bind fetch_no_url)

lemma load_Inr:
  assumes "fst (loadProviderModule D importer r) = Inr m"
  shows "\<exists>bytes. verified D r bytes \<and> importer (createModuleUrl D bytes) = Some m \<and>
    validateProviderModule m r = Inr m"
proof -
  obtain o1 t where f: "fetchProviderModule D r = (o1, t)" by force
  with assms obtain bytes where b: "o1 = Inr bytes" by (cases o1) (auto simp: loadProviderModule_def)
  with assms f have "importer (createModuleUrl D bytes) = Some m \<and> validateProviderModule m r = Inr m"
    by (auto simp: loadProviderModule_def Let_def validateProviderModule_def split: option.splits imported.splits if_splits)
  moreover have "verified D r bytes" by (rule fetch_verified) (simp add: f b)
  ultimately show ?thesis by blast
qed

lemma load_errors:
  assumes "fst (loadProviderModule D importer r) = Inl e"
  shows "e \<in> {invalidModule, PlayerRuntimeError PLAYER_PROVIDER_MODULE_DIGEST_INVALID}"
proof -
  obtain o1 t where f: "fetchProviderModule D r = (o1, t)" by force
  show ?thesis
  proof (cases o1)
    case (Inl x)
    with assms f show ?thesis using fetch_errors [of D r x] by (simp add: loadProviderModule_def)
  next
    case (Inr bytes)
    with assms f show ?thesis
      by (auto simp: loadProviderModule_def Let_def validateProviderModule_def split: option.splits imported.splits if_splits)
  qed
qed

section \<open>The digest text\<close>

lemma hex_byte_value: "hex_byte b = [h, l] \<Longrightarrow> b = of_nat (16 * hex_value h + hex_value l)"
proof -
  assume "hex_byte b = [h, l]"
  moreover have "unat b < 256" using unsigned_less [of b, where ?'a = nat] by simp
  ultimately have "hex_value h = unat b div 16" "hex_value l = unat b mod 16"
    using hex_unit_digit [of "unat b div 16"] hex_unit_digit [of "unat b mod 16"] by (auto simp: hex_byte_def)
  then show ?thesis by simp
qed

lemma hex_byte_inj: "hex_byte a = hex_byte b \<Longrightarrow> a = b"
  using hex_byte_value by (metis hex_byte_def)

lemma hex_text_inj: "concat (map hex_byte xs) = concat (map hex_byte ys) \<Longrightarrow> xs = ys"
proof (induction xs arbitrary: ys)
  case Nil
  then show ?case by (cases ys) (auto simp: hex_byte_def)
next
  case (Cons x xs)
  then obtain y zs where ys: "ys = y # zs" by (cases ys) (auto simp: hex_byte_def)
  with Cons.prems have "hex_byte x @ concat (map hex_byte xs) = hex_byte y @ concat (map hex_byte zs)" by simp
  moreover have "length (hex_byte x) = length (hex_byte y)" by (simp add: hex_byte_def)
  ultimately have "hex_byte x = hex_byte y" "concat (map hex_byte xs) = concat (map hex_byte zs)"
    by simp_all
  with Cons.IH ys hex_byte_inj show ?case by blast
qed

end
