(* ===== verification/Json_Roundtrip.thy ===== *)
theory Json_Roundtrip
  imports Canonical_Json
begin

text \<open>
  What the strict JSON reader guarantees: it always answers (the fuel is never used up), every value
  it accepts is canonical (safe integers, well-formed text, no repeated own key), and it reads back
  exactly what \<open>JSON.stringify\<close> writes for a canonical value.
\<close>

section \<open>Progress and totality\<close>

lemma p_whitespace_le: "length (p_whitespace s) \<le> length s"
  by (simp add: p_whitespace_def length_dropWhile_le)

lemma p_whitespace_Cons: "p_whitespace s = c # r \<Longrightarrow> length r < length s"
  using p_whitespace_le [of s] by simp

lemma p_word_shrinks: "p_word e v s = Inr (w, r) \<Longrightarrow> e \<noteq> [] \<Longrightarrow> length r < length s"
  by (cases e; cases s) (auto simp: p_word_def split: if_splits)

lemma no_fuel_used:
  "p_word e v s \<noteq> Inl OutOfFuel"
  "p_hex_unit s \<noteq> Inl OutOfFuel"
  "p_number s \<noteq> Inl OutOfFuel"
  by (auto simp: p_word_def p_hex_unit_def p_number_def Let_def split: list.splits)

lemma p_escape_fuel: "p_escape s \<noteq> Inl OutOfFuel"
  using no_fuel_used(2) by (auto simp: p_escape_def split: list.splits option.splits sum.splits)

lemma p_chars_fuel: "p_chars acc s \<noteq> Inl OutOfFuel"
  using p_escape_fuel by (induction acc s rule: p_chars.induct) (auto split: list.splits sum.splits)

lemma p_string_fuel: "p_string s \<noteq> Inl OutOfFuel"
  using p_chars_fuel by (auto simp: p_string_def split: list.splits)

lemmas leaf_fuel = no_fuel_used p_string_fuel

text \<open>What a successful step of each reader has pre.\<close>

lemma p_value_Suc_cases:
  assumes "p_value (Suc n) s = Inr (v, r)"
  obtains (string) w t where "length w \<le> length s" "p_string w = Inr (t, r)" "v = JStr t"
  | (number) w where "length w \<le> length s" "p_number w = Inr (v, r)"
  | (word) w e where "length w \<le> length s" "e \<noteq> []" "p_word e v w = Inr (v, r)"
      "v \<in> {JNull, JBool True, JBool False}"
  | (empty) "length r < length s" "v \<in> {jobj [], JArr []}"
  | (members) w where "length w < length s" "p_members n (jobj []) w = Inr (v, r)"
  | (elems) w where "length w < length s" "p_elems n [] w = Inr (v, r)"
proof (cases "p_whitespace s")
  case Nil
  with assms number [of "[]"] show thesis by simp
next
  case (Cons c t)
  have le: "length (c # t) \<le> length s" using p_whitespace_le [of s] Cons by simp
  from le have pos: "s \<noteq> []" by auto
  note step = assms [simplified, unfolded Cons list.case]
  consider "c = 0x22" | "c = 0x7B" | "c = 0x5B" | "c = 0x74" | "c = 0x66" | "c = 0x6E"
    | "c \<notin> {0x22, 0x7B, 0x5B, 0x74, 0x66, 0x6E}" by blast
  then show thesis
  proof cases
    case 1
    with step le string [of "c # t"] show thesis by (auto split: sum.splits)
  next
    case 2
    show thesis
    proof (cases "p_whitespace t")
      case Nil
      with step 2 pos members [of "[]"] show thesis by simp
    next
      case (Cons d t')
      with step 2 le members [of "d # t'"] empty p_whitespace_le [of t] show thesis
        by (auto split: if_splits)
    qed
  next
    case 3
    show thesis
    proof (cases "p_whitespace t")
      case Nil
      with step 3 pos elems [of "[]"] show thesis by simp
    next
      case (Cons d t')
      with step 3 le elems [of "d # t'"] empty p_whitespace_le [of t] show thesis
        by (auto split: if_splits)
    qed
  next
    case 4
    with step le word [of "c # t" "js ''true''"] show thesis by (auto simp: p_word_def js_eval split: if_splits)
  next
    case 5
    with step le word [of "c # t" "js ''false''"] show thesis by (auto simp: p_word_def js_eval split: if_splits)
  next
    case 6
    with step le word [of "c # t" "js ''null''"] show thesis by (auto simp: p_word_def js_eval split: if_splits)
  next
    case 7
    with step le number [of "c # t"] show thesis by simp
  qed
qed

lemma p_elems_Suc_cases:
  assumes "p_elems (Suc n) acc s = Inr (v, r)"
  obtains (last) x r1 where "p_value n s = Inr (x, r1)" "v = JArr (acc @ [x])" "length r < length r1"
  | (more) x r1 w where "p_value n s = Inr (x, r1)" "length w < length r1"
      "p_elems n (acc @ [x]) w = Inr (v, r)"
proof -
  from assms obtain x r1 where v: "p_value n s = Inr (x, r1)" by (auto split: sum.splits)
  with assms obtain c t where t: "p_whitespace r1 = c # t" by (auto split: list.splits)
  have lt: "length t < length r1" "length (p_whitespace t) < length r1"
    using p_whitespace_Cons [OF t] p_whitespace_le [of t] by simp_all
  show thesis
    using assms v t lt last [OF v] more [OF v lt(2)] by (auto split: if_splits)
qed

lemma p_members_Suc_cases:
  assumes "p_members (Suc n) ob s = Inr (v, r)"
  obtains (last) k x r1 w r2 where "p_string s = Inr (k, r1)" "\<not> has_own ob k" "length w < length r1"
      "p_value n w = Inr (x, r2)" "v = jset ob k x" "length r < length r2"
  | (more) k x r1 w r2 w2 where "p_string s = Inr (k, r1)" "\<not> has_own ob k" "length w < length r1"
      "p_value n w = Inr (x, r2)" "length w2 < length r2" "p_members n (jset ob k x) w2 = Inr (v, r)"
proof -
  from assms obtain k r1 where k: "p_string s = Inr (k, r1)" by (auto split: sum.splits)
  with assms have own: "\<not> has_own ob k" by auto
  with assms k obtain c t where t: "p_whitespace r1 = c # t" by (auto split: list.splits)
  have lt: "length (p_whitespace t) < length r1"
    using p_whitespace_Cons [OF t] p_whitespace_le [of t] by simp
  from assms k own t obtain x r2 where x: "p_value n (p_whitespace t) = Inr (x, r2)"
    by (auto split: if_splits sum.splits)
  with assms k own t obtain d u where u: "p_whitespace r2 = d # u"
    by (auto simp: Let_def split: if_splits list.splits)
  have lu: "length u < length r2" "length (p_whitespace u) < length r2"
    using p_whitespace_Cons [OF u] p_whitespace_le [of u] by simp_all
  show thesis
    using assms k own t x u lu last [OF k own lt x] more [OF k own lt x lu(2)]
    by (auto simp: Let_def split: if_splits)
qed

lemma reader_shrinks:
  "(\<forall>s v r. p_value n s = Inr (v, r) \<longrightarrow> length r < length s) \<and>
   (\<forall>acc s v r. p_elems n acc s = Inr (v, r) \<longrightarrow> length r < length s) \<and>
   (\<forall>ob s v r. p_members n ob s = Inr (v, r) \<longrightarrow> length r < length s)"
proof (induction n)
  case (Suc n)
  have v: "length r < length s" if "p_value (Suc n) s = Inr (v, r)" for s v r
    using that
  proof (cases rule: p_value_Suc_cases)
    case (members w)
    with Suc show ?thesis by (meson order.strict_trans)
  next
    case (elems w)
    with Suc show ?thesis by (meson order.strict_trans)
  qed (auto dest: p_string_shrinks p_number_shrinks p_word_shrinks)
  have e: "length r < length s" if "p_elems (Suc n) acc s = Inr (v, r)" for acc s v r
    using that by (cases rule: p_elems_Suc_cases) (meson Suc order.strict_trans)+
  have m: "length r < length s" if "p_members (Suc n) ob s = Inr (v, r)" for ob s v r
    using that by (cases rule: p_members_Suc_cases) (meson Suc p_string_shrinks order.strict_trans)+
  from v e m show ?case by blast
qed simp

lemma p_value_shrinks: "p_value n s = Inr (v, r) \<Longrightarrow> length r < length s"
  using reader_shrinks [of n] by blast

lemma reader_fuel:
  "(\<forall>s. 2 * length s < n \<longrightarrow> p_value n s \<noteq> Inl OutOfFuel) \<and>
   (\<forall>acc s. 2 * length s + 1 < n \<longrightarrow> p_elems n acc s \<noteq> Inl OutOfFuel) \<and>
   (\<forall>ob s. 2 * length s + 1 < n \<longrightarrow> p_members n ob s \<noteq> Inl OutOfFuel)"
proof (induction n)
  case (Suc n)
  have v: "p_value (Suc n) s \<noteq> Inl OutOfFuel" if len: "2 * length s < Suc n" for s
  proof (cases "p_whitespace s")
    case Nil
    then show ?thesis by (simp add: leaf_fuel)
  next
    case (Cons c t)
    then have t: "2 * length t + 2 < Suc n" using len p_whitespace_Cons [OF Cons] by simp
    then have "2 * length (p_whitespace t) + 2 < Suc n" using p_whitespace_le [of t] by linarith
    with Cons show ?thesis
      using Suc by (auto simp: leaf_fuel split: list.splits sum.splits)
  qed
  have e: "p_elems (Suc n) acc s \<noteq> Inl OutOfFuel" if len: "2 * length s + 1 < Suc n" for acc s
  proof (cases "p_value n s")
    case (Inl e)
    with Suc len show ?thesis by auto
  next
    case (Inr x)
    obtain v r where x: "x = (v, r)" by (cases x)
    with Inr have lr: "length r < length s" using p_value_shrinks by blast
    show ?thesis
    proof (cases "p_whitespace r")
      case (Cons c t)
      have "2 * length (p_whitespace t) + 1 < n"
        using len lr p_whitespace_le [of t] p_whitespace_Cons [OF Cons] by linarith
      with Inr x Cons Suc show ?thesis by simp
    qed (simp add: Inr x)
  qed
  have m: "p_members (Suc n) ob s \<noteq> Inl OutOfFuel" if len: "2 * length s + 1 < Suc n" for ob s
  proof (cases "p_string s")
    case (Inl e)
    then show ?thesis using p_string_fuel [of s] by auto
  next
    case (Inr x)
    obtain k r where x: "x = (k, r)" by (cases x)
    with Inr have lr: "length r < length s" using p_string_shrinks by blast
    show ?thesis
    proof (cases "p_whitespace r")
      case (Cons c t)
      have lt: "length (p_whitespace t) < length s"
        using lr p_whitespace_le [of t] p_whitespace_Cons [OF Cons] by linarith
      then have pv: "p_value n (p_whitespace t) \<noteq> Inl OutOfFuel" using Suc len by simp
      show ?thesis
      proof (cases "p_value n (p_whitespace t)")
        case (Inr y)
        obtain w r2 where y: "y = (w, r2)" by (cases y)
        with Inr have "length r2 < length s" using p_value_shrinks lt by fastforce
        then have "2 * length (p_whitespace u) + 1 < n" if "p_whitespace r2 = d # u" for d u
          using len p_whitespace_le [of u] p_whitespace_Cons [OF that] by linarith
        then show ?thesis
          using \<open>p_string s = Inr x\<close> x Cons Inr y Suc by (auto simp: Let_def split: list.splits)
      qed (use \<open>p_string s = Inr x\<close> x Cons pv in auto)
    qed (simp add: Inr x)
  qed
  from v e m show ?case by blast
qed simp

section \<open>Accepted values are canonical\<close>

fun canonical :: "jval \<Rightarrow> bool" where
  "canonical JNull = True"
| "canonical (JBool b) = True"
| "canonical (JNum x) = safe_integer x"
| "canonical (JStr s) = utf16_ok s"
| "canonical (JArr xs) = list_all canonical xs"
| "canonical (JObj p ps) =
     (amap_ok ps \<and> list_all (\<lambda>(k, v). utf16_ok k \<and> canonical v) ps \<and>
      (case p of None \<Rightarrow> True | Some q \<Rightarrow> canonical q))"

lemma utf16_ok_append: "utf16_ok a \<Longrightarrow> utf16_ok (a @ b) = utf16_ok b"
proof (induction a rule: utf16_ok.induct)
  case (2 u us)
  show ?case
  proof (cases "high_surrogate u")
    case True
    with "2.prems" obtain v vs where "us = v # vs" by (cases us) auto
    with True 2 show ?thesis by simp
  next
    case False
    with 2 show ?thesis by simp
  qed
qed simp

lemma hex_value_lt: "hex_digit u \<Longrightarrow> hex_value u < 16"
  by (auto simp: hex_digit_def hex_value_def word_le_nat_alt)

lemma p_hex_unit_bound: "p_hex_unit s = Inr (n, r) \<Longrightarrow> n < 65536"
proof -
  assume "p_hex_unit s = Inr (n, r)"
  then have n: "n = foldl (\<lambda>n u. 16 * n + hex_value u) 0 (take 4 s)"
    and l: "length (take 4 s) = 4" and h: "list_all hex_digit (take 4 s)"
    by (auto simp: p_hex_unit_def Let_def split: if_splits)
  have "\<exists>a b c d. xs = [a, b, c, d]" if "length xs = 4" for xs :: jsstr
    using that by (auto simp: numeral_eq_Suc length_Suc_conv)
  with l obtain a b c d where t: "take 4 s = [a, b, c, d]" by blast
  with h have "hex_value a < 16" "hex_value b < 16" "hex_value c < 16" "hex_value d < 16"
    by (auto dest: hex_value_lt)
  with n t show ?thesis by simp
qed

lemma surrogate_nat:
  "n < 65536 \<Longrightarrow> high_surrogate (of_nat n) \<longleftrightarrow> 0xD800 \<le> n \<and> n \<le> 0xDBFF"
  "n < 65536 \<Longrightarrow> low_surrogate (of_nat n) \<longleftrightarrow> 0xDC00 \<le> n \<and> n \<le> 0xDFFF"
  by (simp_all add: high_surrogate_def low_surrogate_def word_le_nat_alt unat_of_nat)

lemma from_code_point_pair:
  "0x10000 \<le> n \<Longrightarrow> n < 0x110000 \<Longrightarrow>
     \<exists>h l. from_code_point n = [h, l] \<and> high_surrogate h \<and> low_surrogate l"
proof -
  assume n: "0x10000 \<le> n" "n < 0x110000"
  then have "(n - 0x10000) div 0x400 < 0x400" "(n - 0x10000) mod 0x400 < 0x400" by simp_all
  then have "high_surrogate (of_nat (0xD800 + (n - 0x10000) div 0x400))"
    "low_surrogate (of_nat (0xDC00 + (n - 0x10000) mod 0x400))"
    by (subst surrogate_nat; linarith)+
  with n show ?thesis by (auto simp: from_code_point_def simp del: of_nat_add)
qed

lemma simple_escape_ok: "simple_escape e = Some t \<Longrightarrow> utf16_ok t"
  by (auto simp: simple_escape_def high_surrogate_def low_surrogate_def split: if_splits)

lemma p_escape_ok:
  assumes "p_escape s = Inr (t, r)"
  shows "utf16_ok t"
proof (cases s)
  case (Cons e rest)
  show ?thesis
  proof (cases "e = 0x75")
    case False
    with assms Cons show ?thesis by (auto simp: p_escape_def simple_escape_ok split: option.splits)
  next
    case True
    with assms Cons obtain first r1 where f: "p_hex_unit rest = Inr (first, r1)"
      by (auto simp: p_escape_def split: sum.splits)
    note bound = p_hex_unit_bound [OF f]
    show ?thesis
    proof (cases "first < 0xD800 \<or> first > 0xDBFF")
      case True
      with assms Cons f \<open>e = 0x75\<close> bound show ?thesis
        by (auto simp: p_escape_def surrogate_nat split: if_splits)
    next
      case False
      with assms Cons f \<open>e = 0x75\<close> obtain second r2 where
        g: "p_hex_unit (drop 2 r1) = Inr (second, r2)" and "0xDC00 \<le> second" "second \<le> 0xDFFF"
        and t: "t = from_code_point (0x10000 + (first - 0xD800) * 0x400 + second - 0xDC00)"
        by (auto simp: p_escape_def split: sum.splits if_splits)
      let ?n = "0x10000 + (first - 0xD800) * 0x400 + second - 0xDC00"
      have "0x10000 \<le> ?n" "?n < 0x110000"
        using False \<open>0xDC00 \<le> second\<close> \<open>second \<le> 0xDFFF\<close> by linarith+
      from from_code_point_pair [OF this] t
      obtain h l where "t = [h, l]" "high_surrogate h" "low_surrogate l" by blast
      then show ?thesis by simp
    qed
  qed
qed (use assms in \<open>simp add: p_escape_def\<close>)

lemma p_chars_ok: "p_chars acc s = Inr (t, r) \<Longrightarrow> utf16_ok acc \<Longrightarrow> utf16_ok t"
proof (induction acc s rule: p_chars.induct)
  case (2 acc c s)
  then show ?case
    by (auto simp: utf16_ok_append p_escape_ok split: if_splits sum.splits list.splits)
qed simp

lemma p_string_ok: "p_string s = Inr (t, r) \<Longrightarrow> utf16_ok t"
  by (auto simp: p_string_def split: list.splits if_splits dest: p_chars_ok)

lemma p_number_int: "p_number s = Inr (v, r) \<Longrightarrow> \<exists>n. v = JInt n \<and> \<bar>n\<bar> \<le> max_safe"
  by (force simp: p_number_def Let_def max_safe_def split: list.splits if_splits
      simp del: of_int_minus of_int_of_nat_eq)

lemma p_number_ok: "p_number s = Inr (v, r) \<Longrightarrow> canonical v"
  by (auto dest: p_number_int)

lemma p_word_ok: "p_word e v s = Inr (w, r) \<Longrightarrow> w = v"
  by (simp add: p_word_def split: if_splits)

lemma jset_canonical:
  assumes "canonical ob" "utf16_ok k" "canonical v"
  shows "canonical (jset ob k v)"
proof (cases ob)
  case (JObj p ps)
  have "list_all (\<lambda>(k, v). utf16_ok k \<and> canonical v) (amap_put k v ps)"
    using assms JObj by (auto simp: list_all_iff dest: amap_put_cases)
  with assms JObj show ?thesis
    by (auto simp: jset_def am.ok_put split: jval.splits)
qed (use assms in \<open>simp_all add: jset_def\<close>)

lemma jset_record: "is_record (Some ob) \<Longrightarrow> is_record (Some (jset ob k v))"
  by (auto simp: is_record_iff jset_JObj)

lemma reader_canonical:
  "(\<forall>s v r. p_value n s = Inr (v, r) \<longrightarrow> canonical v) \<and>
   (\<forall>acc s v r. list_all canonical acc \<longrightarrow> p_elems n acc s = Inr (v, r) \<longrightarrow> canonical v) \<and>
   (\<forall>ob s v r. canonical ob \<longrightarrow> p_members n ob s = Inr (v, r) \<longrightarrow> canonical v)"
proof (induction n)
  case (Suc n)
  have v: "canonical v" if "p_value (Suc n) s = Inr (v, r)" for s v r
    using that
  proof (cases rule: p_value_Suc_cases)
    case (members w)
    with Suc.IH show ?thesis by (metis amap_ok_Nil canonical.simps(6) list.pred_inject(1) option.simps(4))
  next
    case (elems w)
    with Suc.IH show ?thesis by (metis list.pred_inject(1))
  qed (auto dest: p_string_ok p_number_ok)
  have e: "canonical v" if "p_elems (Suc n) acc s = Inr (v, r)" "list_all canonical acc" for acc s v r
    using that(1)
  proof (cases rule: p_elems_Suc_cases)
    case (last x r1)
    with Suc that(2) show ?thesis by auto
  next
    case (more x r1 w)
    with Suc that(2) have "list_all canonical (acc @ [x])" by auto
    with Suc more show ?thesis by blast
  qed
  have m: "canonical v" if "p_members (Suc n) ob s = Inr (v, r)" "canonical ob" for ob s v r
    using that(1)
    by (cases rule: p_members_Suc_cases) (use Suc that(2) in \<open>metis jset_canonical p_string_ok\<close>)+
  from v e m show ?case by blast
qed simp

section \<open>The theorems\<close>

lemma parse_total: "parse_canonical_json s \<noteq> Inl OutOfFuel"
  using reader_fuel [of "parse_fuel s"]
  by (auto simp: parse_canonical_json_def parse_fuel_def split: sum.splits)

lemma parse_canonical:
  assumes "parse_canonical_json s = Inr v"
  shows "canonical v"
proof -
  from assms obtain r where "p_value (parse_fuel s) s = Inr (v, r)"
    by (auto simp: parse_canonical_json_def split: sum.splits if_splits)
  with reader_canonical show ?thesis by blast
qed

section \<open>Reading back what \<open>JSON.stringify\<close> writes\<close>

text \<open>
  The values \<open>JSON.stringify\<close> can hand to the reader without loss: canonical, ordinary
  prototypes, and no key \<open>__proto__\<close> (the reader's assignment would reach the accessor).
\<close>

fun storable :: "jval \<Rightarrow> bool" where
  "storable JNull = True"
| "storable (JBool b) = True"
| "storable (JNum x) = safe_integer x"
| "storable (JStr s) = utf16_ok s"
| "storable (JArr xs) = list_all storable xs"
| "storable (JObj p ps) =
     (p = None \<and> amap_ok ps \<and> list_all (\<lambda>(k, v). utf16_ok k \<and> k \<noteq> proto_key \<and> storable v) ps)"

subsection \<open>Strings\<close>

lemma p_hex_unit_hex4: "p_hex_unit (hex4 u @ r) = Inr (unat u, r)"
proof -
  define n where "n = unat u"
  have "n < 65536" using unsigned_less [of u, where ?'a = nat] by (simp add: n_def)
  then have n4: "n div 4096 < 16" by simp
  then have n: "n div 4096 mod 16 = n div 4096" by simp
  then have top: "n div 4096 mod 16 = n div 256 div 16" by (simp add: div_mult2_eq [symmetric])
  have mid: "n div 256 = n div 16 div 16" by (simp add: div_mult2_eq [symmetric])
  have "16 * (16 * (16 * (n div 4096 mod 16) + n div 256 mod 16) + n div 16 mod 16) + n mod 16 = n"
    unfolding top mult_div_mod_eq unfolding mid mult_div_mod_eq ..
  then show ?thesis
    using n hex_unit_digit [OF n4] by (simp add: p_hex_unit_def hex4_def Let_def hex_unit_digit n_def [symmetric])
qed

lemma control_small: "(u :: code_unit) < 0x20 \<Longrightarrow> unat u < 32"
  by (simp add: word_less_nat_alt)

lemma p_chars_quote_unit:
  assumes "\<not> high_surrogate u" "\<not> low_surrogate u"
  shows "p_chars acc (quote_unit u @ r) = p_chars (acc @ [u]) r"
proof -
  consider "u \<in> {8, 9, 10, 12, 13, 0x22, 0x5C}" | "u < 0x20" "u \<notin> {8, 9, 10, 12, 13}"
    | "\<not> u < 0x20" "u \<noteq> 0x22" "u \<noteq> 0x5C" by blast
  then show ?thesis
  proof cases
    case 1
    then show ?thesis by (auto simp: quote_unit_def p_escape_def simple_escape_def)
  next
    case 2
    then have "u \<noteq> 0x22" "u \<noteq> 0x5C" by auto
    with 2 have q: "quote_unit u @ r = 0x5C # 0x75 # hex4 u @ r" by (simp add: quote_unit_def)
    from 2 have "unat u < 32" by (simp add: control_small)
    then have "p_escape (0x75 # hex4 u @ r) = Inr ([u], r)"
      by (simp add: p_escape_def p_hex_unit_hex4)
    then show ?thesis unfolding q by simp
  next
    case 3
    then have "quote_unit u = [u]" by (auto simp: quote_unit_def)
    with 3 assms show ?thesis by simp
  qed
qed

lemma surrogate_plain: "high_surrogate u \<Longrightarrow> u \<noteq> 0x22 \<and> u \<noteq> 0x5C \<and> \<not> u < 0x20"
  by (auto simp: high_surrogate_def word_le_nat_alt word_less_nat_alt)

lemma p_chars_quote: "utf16_ok s \<Longrightarrow> p_chars acc (quote_body s @ 0x22 # r) = Inr (acc @ s, r)"
proof (induction s arbitrary: acc rule: quote_body.induct)
  case (2 u)
  then show ?case by (auto simp: p_chars_quote_unit split: if_splits)
next
  case (3 u v us)
  show ?case
  proof (cases "high_surrogate u")
    case True
    with 3 surrogate_plain [OF True] surrogates_disjoint [OF True] show ?thesis by auto
  next
    case False
    with 3 show ?thesis by (auto simp: p_chars_quote_unit)
  qed
qed simp

lemma p_string_quote: "utf16_ok s \<Longrightarrow> p_string (quote_str s @ r) = Inr (s, r)"
  using p_chars_quote [of s "[]" r] by (simp add: p_string_def quote_str_def)

subsection \<open>Numbers\<close>

definition no_digit :: "jsstr \<Rightarrow> bool" where
  "no_digit r = (case r of [] \<Rightarrow> True | c # _ \<Rightarrow> \<not> digit c)"

lemma below_10: "d < 10 \<Longrightarrow> d \<in> {0, 1, 2, 3, 4, 5, 6, 7, 8, 9 :: nat}"
  by auto

lemma digit_unit_digit: "d < 10 \<Longrightarrow> digit (digit_unit d) \<and> unat (digit_unit d) = 48 + d"
  by (drule below_10) (auto simp: digit_unit_def digit_def)

lemma dec_value_snoc: "dec_value (xs @ [d]) = 10 * dec_value xs + (unat d - 48)"
  by (simp add: dec_value_def)

lemma nat_dec_digits: "list_all digit (nat_dec n) \<and> dec_value (nat_dec n) = n \<and> nat_dec n \<noteq> []"
proof (induction n rule: nat_dec.induct)
  case (1 n)
  show ?case
  proof (cases "n < 10")
    case True
    then show ?thesis
      using digit_unit_digit [of n] by (subst (1 2 3) nat_dec.simps) (simp add: dec_value_def)
  next
    case False
    with 1 digit_unit_digit [of "n mod 10"] show ?thesis
      by (subst (1 2 3) nat_dec.simps) (simp add: dec_value_snoc)
  qed
qed

lemma nat_dec_head: "0 < n \<Longrightarrow> \<exists>c t. nat_dec n = c # t \<and> 0x31 \<le> c \<and> c \<le> 0x39"
proof (induction n rule: nat_dec.induct)
  case (1 n)
  show ?case
  proof (cases "n < 10")
    case True
    with "1.prems" have "n \<in> {1, 2, 3, 4, 5, 6, 7, 8, 9}" by auto
    then show ?thesis by (subst nat_dec.simps) (auto simp: digit_unit_def)
  next
    case False
    with 1 obtain c t where "nat_dec (n div 10) = c # t" "0x31 \<le> c" "c \<le> 0x39" by fastforce
    with False show ?thesis by (subst nat_dec.simps) simp
  qed
qed

lemma digit_span:
  assumes "list_all digit ds" "no_digit r"
  shows "takeWhile digit (ds @ r) = ds" "dropWhile digit (ds @ r) = r"
  using assms by (induction ds) (auto simp: no_digit_def split: list.splits)

lemma p_number_nat:
  assumes n: "0 < n" "int n \<le> max_safe" and r: "no_digit r"
  shows "p_number (nat_dec n @ r) = Inr (JInt (int n), r)"
    and "p_number (0x2D # nat_dec n @ r) = Inr (JInt (- int n), r)"
proof -
  from nat_dec_head [OF n(1)] obtain c t where c: "nat_dec n = c # t" "0x31 \<le> c" "c \<le> 0x39" by blast
  have ne: "c \<noteq> 0x2D" "c \<noteq> 0x30" using c(2) by auto
  have span: "takeWhile digit (nat_dec n @ r) = nat_dec n" "dropWhile digit (nat_dec n @ r) = r"
    using digit_span nat_dec_digits r by blast+
  have val: "dec_value (nat_dec n) = n" using nat_dec_digits by blast
  show "p_number (nat_dec n @ r) = Inr (JInt (int n), r)"
    using c ne span val n
    by (simp add: p_number_def Let_def del: of_int_of_nat_eq takeWhile.simps dropWhile.simps)
  show "p_number (0x2D # nat_dec n @ r) = Inr (JInt (- int n), r)"
    using c ne span val n
    by (simp add: p_number_def Let_def del: of_int_of_nat_eq of_int_minus takeWhile.simps dropWhile.simps)
qed

lemma p_number_int_dec:
  assumes "\<bar>n\<bar> \<le> max_safe" "no_digit r"
  shows "p_number (int_dec n @ r) = Inr (JInt n, r)"
proof -
  consider "n = 0" | "0 < n" | "n < 0" by linarith
  then show ?thesis
  proof cases
    case 1
    have "int_dec n = [0x30]" using 1 by (simp add: int_dec_def nat_dec.simps digit_unit_def)
    with assms(2) 1 show ?thesis by (auto simp: p_number_def no_digit_def split: list.splits)
  next
    case 2
    with p_number_nat(1) [of "nat n" r] assms show ?thesis by (simp add: int_dec_def)
  next
    case 3
    with p_number_nat(2) [of "nat (- n)" r] assms show ?thesis by (simp add: int_dec_def js_eval)
  qed
qed

subsection \<open>Values\<close>

lemma p_whitespace_skip: "\<not> json_ws c \<Longrightarrow> p_whitespace (c # r) = c # r"
  by (simp add: p_whitespace_def)

lemma no_ws [simp]:
  "\<not> json_ws 0x22" "\<not> json_ws 0x7B" "\<not> json_ws 0x7D" "\<not> json_ws 0x5B" "\<not> json_ws 0x5D"
  "\<not> json_ws 0x2C" "\<not> json_ws 0x3A"
  by (simp_all add: json_ws_def)

text \<open>The first unit of a printed value decides the reader's branch.\<close>

lemma digit_range: "digit c \<Longrightarrow> 48 \<le> unat c \<and> unat c \<le> 57"
  by (simp add: digit_def word_le_nat_alt)

lemma digit_head: "digit c \<Longrightarrow>
    \<not> json_ws c \<and> c \<noteq> 0x22 \<and> c \<noteq> 0x7B \<and> c \<noteq> 0x5B \<and> c \<noteq> 0x5D \<and> c \<noteq> 0x74 \<and> c \<noteq> 0x66 \<and> c \<noteq> 0x6E"
  by (drule digit_range) (auto simp: json_ws_def)

lemma int_dec_head: "\<exists>c t. int_dec n = c # t \<and> (digit c \<or> c = 0x2D)"
proof (cases "n < 0")
  case True
  then show ?thesis by (simp add: int_dec_def js_eval)
next
  case False
  with nat_dec_digits [of "nat n"] show ?thesis
    by (cases "nat_dec (nat n)") (auto simp: int_dec_def)
qed

lemma number_branch:
  assumes "\<bar>m\<bar> \<le> max_safe" "no_digit r"
  shows "p_value (Suc n) (int_dec m @ r) = Inr (JInt m, r)"
proof -
  from int_dec_head [of m] obtain c t where c: "int_dec m = c # t" "digit c \<or> c = 0x2D" by blast
  then have "\<not> json_ws c \<and> c \<noteq> 0x22 \<and> c \<noteq> 0x7B \<and> c \<noteq> 0x5B \<and> c \<noteq> 0x74 \<and> c \<noteq> 0x66 \<and> c \<noteq> 0x6E"
    using digit_head by (auto simp: json_ws_def)
  with p_number_int_dec [OF assms] c(1) show ?thesis by (simp add: p_whitespace_skip)
qed

lemma stringify_head: "storable v \<Longrightarrow> \<exists>c t. stringify v = c # t \<and> \<not> json_ws c \<and> c \<noteq> 0x5D"
proof (cases v)
  case (JNum x)
  assume "storable v"
  with JNum obtain m where "x = Fin (of_int m)" by (auto simp: safe_integer_iff)
  moreover obtain c t where "int_dec m = c # t" "digit c \<or> c = 0x2D" using int_dec_head by blast
  ultimately show ?thesis using JNum digit_head by (auto simp: num_json_def json_ws_def)
qed (auto simp: js_eval json_ws_def quote_str_def)

text \<open>The text of a value, read in front of any rest that does not continue a number.\<close>

definition reads_back :: "jval \<Rightarrow> bool" where
  "reads_back v \<longleftrightarrow> (\<forall>n r. no_digit r \<longrightarrow> 2 * length (stringify v @ r) < n \<longrightarrow>
     p_value n (stringify v @ r) = Inr (v, r))"

definition elems_text :: "jval list \<Rightarrow> jsstr" where
  "elems_text xs = join_with [0x2C] (map stringify xs)"

definition member_text :: "jsstr \<times> jval \<Rightarrow> jsstr" where
  "member_text m = quote_str (fst m) @ [0x3A] @ stringify (snd m)"

definition members_text :: "(jsstr \<times> jval) list \<Rightarrow> jsstr" where
  "members_text ps = join_with [0x2C] (map member_text ps)"

lemma stringify_texts:
  "stringify (JArr xs) = 0x5B # elems_text xs @ [0x5D]"
  "stringify (JObj p ps) = 0x7B # members_text ps @ [0x7D]"
proof -
  have "(\<lambda>(k, v). quote_str k @ [0x3A] @ stringify v) = member_text"
    by (auto simp: fun_eq_iff member_text_def)
  then show "stringify (JArr xs) = 0x5B # elems_text xs @ [0x5D]"
    "stringify (JObj p ps) = 0x7B # members_text ps @ [0x7D]"
    by (simp_all add: elems_text_def members_text_def)
qed

lemma no_digit_marks [simp]: "no_digit (0x2C # r)" "no_digit (0x5D # r)" "no_digit (0x7D # r)" "no_digit []"
  by (simp_all add: no_digit_def digit_def)

lemma skip_stringify: "storable v \<Longrightarrow> p_whitespace (stringify v @ r) = stringify v @ r"
  using stringify_head [of v] by (auto simp: p_whitespace_skip)

lemma skip_elems: "storable x \<Longrightarrow> p_whitespace (elems_text (x # xs) @ r) = elems_text (x # xs) @ r"
  using stringify_head [of x] by (cases xs) (auto simp: p_whitespace_skip elems_text_def)

lemma p_elems_back:
  assumes "xs \<noteq> []" "list_all storable xs" "list_all reads_back xs"
    and "2 * length (elems_text xs @ 0x5D # r) + 1 < n"
  shows "p_elems n acc (elems_text xs @ 0x5D # r) = Inr (JArr (acc @ xs), r)"
  using assms
proof (induction xs arbitrary: n acc)
  case (Cons x xs)
  from Cons.prems obtain m where n: "n = Suc m" by (cases n) auto
  show ?case
  proof (cases xs)
    case Nil
    have "p_value m (stringify x @ 0x5D # r) = Inr (x, 0x5D # r)"
      using Cons.prems n Nil by (simp add: reads_back_def elems_text_def)
    with n Nil show ?thesis by (simp add: elems_text_def p_whitespace_skip)
  next
    case (Cons y ys)
    let ?w = "elems_text xs @ 0x5D # r"
    have split: "elems_text (x # xs) @ 0x5D # r = stringify x @ 0x2C # ?w"
      using Cons by (simp add: elems_text_def)
    have "p_value m (stringify x @ 0x2C # ?w) = Inr (x, 0x2C # ?w)"
      using Cons.prems n unfolding split by (simp add: reads_back_def)
    moreover have "p_whitespace ?w = ?w" using Cons Cons.prems skip_elems by simp
    moreover have "p_elems m (acc @ [x]) ?w = Inr (JArr (acc @ x # xs), r)"
      using Cons.IH [of m "acc @ [x]"] Cons.prems n Cons unfolding split by simp
    ultimately show ?thesis unfolding split n by (simp add: p_whitespace_skip)
  qed
qed simp

lemma skip_members: "p_whitespace (members_text (m # ps) @ r) = members_text (m # ps) @ r"
  by (cases ps) (simp_all add: p_whitespace_skip members_text_def member_text_def quote_str_def)

text \<open>One member: its key is new, so it is appended to the own properties.\<close>

lemma p_member_step:
  assumes "utf16_ok k" "k \<noteq> proto_key" "k \<notin> fst ` set pre" "storable v" "reads_back v"
    and "no_digit r" "2 * length (stringify v @ r) < n" "p_whitespace r = c # rest" "c = 0x7D \<or> c = 0x2C"
  shows "p_members (Suc n) (jobj pre) (member_text (k, v) @ r) =
    (if c = 0x7D then Inr (jobj (pre @ [(k, v)]), rest) else p_members n (jobj (pre @ [(k, v)])) (p_whitespace rest))"
proof -
  have put: "jset (jobj pre) k v = jobj (pre @ [(k, v)])"
    using assms(2,3) by (induction pre) (auto simp: jset_def)
  have own: "\<not> has_own (jobj pre) k" using assms(3) by (auto simp: has_own_def)
  have "p_value n (stringify v @ r) = Inr (v, r)" using assms(5-7) by (simp add: reads_back_def)
  with assms own put skip_stringify [of v r] show ?thesis
    by (auto simp: member_text_def p_string_quote p_whitespace_skip Let_def)
qed

lemma p_members_back:
  assumes "ps \<noteq> []" "list_all (\<lambda>(k, v). utf16_ok k \<and> k \<noteq> proto_key \<and> storable v \<and> reads_back v) ps"
    and "distinct (map fst (pre @ ps))" "2 * length (members_text ps @ 0x7D # r) + 1 < n"
  shows "p_members n (jobj pre) (members_text ps @ 0x7D # r) = Inr (jobj (pre @ ps), r)"
  using assms
proof (induction ps arbitrary: n pre)
  case (Cons p ps)
  obtain k v where p: "p = (k, v)" by (cases p)
  from Cons.prems obtain m where n: "n = Suc m" by (cases n) auto
  have new: "k \<notin> fst ` set pre" using Cons.prems(3) p by auto
  show ?case
  proof (cases ps)
    case Nil
    have eqn: "members_text (p # ps) @ 0x7D # r = member_text (k, v) @ 0x7D # r"
      using Nil p by (simp add: members_text_def)
    have "2 * length (stringify v @ 0x7D # r) < m"
      using Cons.prems(4) n unfolding eqn by (simp add: member_text_def)
    then show ?thesis
      unfolding eqn n using p_member_step [of k pre v "0x7D # r" m "0x7D" r] Cons.prems Nil p new
      by (simp add: p_whitespace_skip del: p_members.simps)
  next
    case (Cons q qs)
    let ?w = "members_text ps @ 0x7D # r"
    have split: "members_text (p # ps) @ 0x7D # r = member_text p @ 0x2C # ?w"
      using Cons by (simp add: members_text_def)
    have "2 * length (stringify v @ 0x2C # ?w) < m"
      using Cons.prems(4) n p unfolding split by (simp add: member_text_def)
    with Cons.prems n p new have "p_members n (jobj pre) (member_text p @ 0x2C # ?w) =
        p_members m (jobj (pre @ [p])) (p_whitespace ?w)"
      by (simp add: p_member_step [where c = "0x2C" and rest = ?w] p_whitespace_skip del: p_members.simps)
    moreover have "p_whitespace ?w = ?w" using Cons skip_members by simp
    moreover have "p_members m (jobj (pre @ [p])) ?w = Inr (jobj (pre @ p # ps), r)"
      using Cons.IH [of "pre @ [p]" m] Cons.prems n Cons unfolding split by simp
    ultimately show ?thesis unfolding split by simp
  qed
qed simp

lemma reads_backI:
  "(\<And>n r. no_digit r \<Longrightarrow> p_value (Suc n) (stringify v @ r) = Inr (v, r)) \<Longrightarrow> reads_back v"
  by (auto simp: reads_back_def simp del: p_value.simps dest!: less_imp_Suc_add)

lemma reads_back_storable: "storable v \<Longrightarrow> reads_back v"
proof (induction v)
  case (JNum x)
  then obtain m where m: "x = Fin (of_int m)" "\<bar>m\<bar> \<le> max_safe" by (auto simp: safe_integer_iff)
  show ?case
    by (rule reads_backI) (use number_branch [OF m(2)] m(1) in \<open>simp add: num_json_def del: p_value.simps\<close>)
next
  case (JStr s)
  show ?case
  proof (rule reads_backI)
    fix n r
    show "p_value (Suc n) (stringify (JStr s) @ r) = Inr (JStr s, r)"
      using JStr p_string_quote [of s r] by (simp add: quote_str_def p_whitespace_skip)
  qed
next
  case (JArr xs)
  show ?case unfolding reads_back_def
  proof (intro allI impI)
    fix n r
    assume fuel: "2 * length (stringify (JArr xs) @ r) < n"
    then obtain m where n: "n = Suc m" by (cases n) auto
    show "p_value n (stringify (JArr xs) @ r) = Inr (JArr xs, r)"
    proof (cases xs)
      case Nil
      with n show ?thesis by (simp add: p_whitespace_skip)
    next
      case (Cons x ys)
      have all: "list_all storable xs" "list_all reads_back xs"
        using JArr by (auto simp: list_all_iff)
      have rd: "p_elems m [] (elems_text xs @ 0x5D # r) = Inr (JArr xs, r)"
        using p_elems_back [of xs r m "[]"] all fuel n Cons unfolding stringify_texts by simp
      from Cons all(1) have st: "storable x" by simp
      from stringify_head [OF st] obtain c t where c: "stringify x = c # t" "c \<noteq> 0x5D" by blast
      then obtain t' where t': "elems_text xs @ 0x5D # r = c # t'" using Cons by (cases ys) (auto simp: elems_text_def)
      have "p_whitespace (elems_text xs @ 0x5D # r) = c # t'"
        using skip_elems [OF st, of ys "0x5D # r"] t' Cons by simp
      with rd t' c(2) n show ?thesis unfolding stringify_texts by (simp add: p_whitespace_skip)
    qed
  qed
next
  case (JObj p ps)
  show ?case unfolding reads_back_def
  proof (intro allI impI)
    fix n r
    assume fuel: "2 * length (stringify (JObj p ps) @ r) < n"
    then obtain m where n: "n = Suc m" by (cases n) auto
    from JObj.prems have p: "p = None" by simp
    show "p_value n (stringify (JObj p ps) @ r) = Inr (JObj p ps, r)"
    proof (cases ps)
      case Nil
      with n p show ?thesis by (simp add: p_whitespace_skip)
    next
      case (Cons q qs)
      have all: "list_all (\<lambda>(k, v). utf16_ok k \<and> k \<noteq> proto_key \<and> storable v \<and> reads_back v) ps"
        using JObj by (fastforce simp: list_all_iff)
      have rd: "p_members m (jobj []) (members_text ps @ 0x7D # r) = Inr (jobj ps, r)"
        using p_members_back [of ps "[]" r m] all JObj.prems fuel n Cons unfolding stringify_texts
        by (simp add: amap_ok_def amap_keys_def)
      obtain t' where t': "members_text ps @ 0x7D # r = 0x22 # t'"
        using Cons by (cases qs) (auto simp: members_text_def member_text_def quote_str_def)
      then have "p_whitespace (members_text ps @ 0x7D # r) = 0x22 # t'" by (simp add: p_whitespace_skip)
      with rd t' n p show ?thesis unfolding stringify_texts by (simp add: p_whitespace_skip)
    qed
  qed
qed (auto intro!: reads_backI simp: p_word_def js_eval p_whitespace_def json_ws_def)

lemma parse_stringify: "storable v \<Longrightarrow> parse_canonical_json (stringify v) = Inr v"
  using reads_back_storable [of v]
  by (auto simp: reads_back_def parse_canonical_json_def parse_fuel_def p_whitespace_def
      dest: spec [of _ "Suc (2 * length (stringify v))"])

text \<open>A repeated key is refused, wherever the second occurrence stands.\<close>

lemma p_members_repeated:
  assumes "list_all (\<lambda>(k, v). utf16_ok k \<and> k \<noteq> proto_key \<and> storable v) ps"
    and "\<not> distinct (map fst (pre @ ps))" "distinct (map fst pre)"
    and "2 * length (members_text ps @ 0x7D # r) + 1 < n"
  shows "p_members n (jobj pre) (members_text ps @ 0x7D # r) = Inl Syntax"
  using assms
proof (induction ps arbitrary: n pre)
  case (Cons p ps)
  obtain k v where p: "p = (k, v)" by (cases p)
  from Cons.prems obtain m where n: "n = Suc m" by (cases n) auto
  show ?case
  proof (cases "k \<in> fst ` set pre")
    case True
    have "\<exists>w. members_text (p # ps) @ 0x7D # r = quote_str k @ w"
      using p by (cases ps) (auto simp: members_text_def member_text_def)
    moreover have "has_own (jobj pre) k" using True by (simp add: has_own_def)
    ultimately show ?thesis using Cons.prems(1) n p by (auto simp: p_string_quote)
  next
    case False
    with Cons.prems(2,3) p have "ps \<noteq> []" by auto
    let ?w = "members_text ps @ 0x7D # r"
    have split: "members_text (p # ps) @ 0x7D # r = member_text p @ 0x2C # ?w"
      using \<open>ps \<noteq> []\<close> by (cases ps) (auto simp: members_text_def)
    have "2 * length (stringify v @ 0x2C # ?w) < m"
      using Cons.prems(4) n p unfolding split by (simp add: member_text_def)
    with Cons.prems n p False have "p_members n (jobj pre) (member_text p @ 0x2C # ?w) =
        p_members m (jobj (pre @ [p])) (p_whitespace ?w)"
      by (simp add: p_member_step [where c = "0x2C" and rest = ?w] p_whitespace_skip reads_back_storable del: p_members.simps)
    moreover have "p_whitespace ?w = ?w" using \<open>ps \<noteq> []\<close> skip_members by (cases ps) auto
    moreover have "p_members m (jobj (pre @ [p])) ?w = Inl Syntax"
      using Cons.IH [of "pre @ [p]" m] Cons.prems n p False unfolding split by simp
    ultimately show ?thesis unfolding split by simp
  qed
qed auto

lemma parse_repeated_key:
  assumes "list_all (\<lambda>(k, v). utf16_ok k \<and> k \<noteq> proto_key \<and> storable v) ps" "\<not> distinct (map fst ps)"
  shows "parse_canonical_json (stringify (jobj ps)) = Inl Syntax"
proof -
  from assms(2) obtain q qs where q: "ps = q # qs" by (cases ps) auto
  then obtain t' where t': "members_text ps @ [0x7D] = 0x22 # t'"
    using q by (cases qs) (auto simp: members_text_def member_text_def quote_str_def)
  then have ws: "p_whitespace (members_text ps @ [0x7D]) = 0x22 # t'" by (simp add: p_whitespace_skip)
  have "p_members (2 * length (stringify (jobj ps))) (jobj []) (0x22 # t') = Inl Syntax"
    using p_members_repeated [of ps "[]" "[]" "2 * length (stringify (jobj ps))"] assms t'
    unfolding stringify_texts by simp
  with ws t' show ?thesis
    unfolding parse_canonical_json_def parse_fuel_def stringify_texts by (simp add: p_whitespace_skip)
qed

end
