(* ===== verification/Envelope_Laws.thy ===== *)
theory Envelope_Laws
  imports Envelope Json_Roundtrip
begin

text \<open>
  What a validated launch envelope guarantees: the leaf checks against their specifications, the
  shape of the Provider's addresses, the resources, the restore descriptor, and membership in the
  type \<open>LaunchEnvelopeV1\<close> the code casts to.
\<close>

section \<open>Leaf checks against specifications\<close>

definition lower_hex :: "code_unit \<Rightarrow> bool" where
  "lower_hex u = (0x30 \<le> u \<and> u \<le> 0x39 \<or> 0x61 \<le> u \<and> u \<le> 0x66)"

definition alnum :: "code_unit \<Rightarrow> bool" where
  "alnum u = (0x61 \<le> u \<and> u \<le> 0x7A \<or> 0x30 \<le> u \<and> u \<le> 0x39)"

lemma digest_rx_iff: "rx_test digest_rx s \<longleftrightarrow> length s = 64 \<and> list_all lower_hex s"
proof -
  have "in_cls [(0x30, 0x39), (0x61, 0x66)] = lower_hex"
    by (auto simp: fun_eq_iff in_cls_def lower_hex_def)
  then show ?thesis
    by (simp add: rx_test_iff digest_rx_def rx_cls_def rx_rep_cls)
qed

lemma alnum_cls: "in_cls [(0x61, 0x7A), (0x30, 0x39)] = alnum"
  by (auto simp: fun_eq_iff in_cls_def alnum_def)

lemma alnum_rx_matches: "rx_matches alnum_rx s \<longleftrightarrow> (\<exists>c. s = [c] \<and> alnum c)"
  by (auto simp: alnum_rx_def rx_cls_def alnum_cls)

lemma edged_word:
  "rx_matches (RSeq alnum_rx (rx_opt (RSeq (rx_upto (RCls cs) 62) alnum_rx))) s \<longleftrightarrow>
     1 \<le> length s \<and> length s \<le> 64 \<and> alnum (hd s) \<and> alnum (last s) \<and> list_all (in_cls cs) (butlast (tl s))"
  (is "?m \<longleftrightarrow> ?w")
proof
  assume ?m
  then obtain c t where s: "s = c # t" "alnum c" and t: "t = [] \<or> (\<exists>m d. t = m @ [d] \<and> alnum d \<and>
      length m \<le> 62 \<and> list_all (in_cls cs) m)"
    by (auto simp: seq_split alnum_rx_matches rx_opt_def rx_upto_cls)
  then show ?w by auto
next
  assume w: ?w
  then obtain c t where s: "s = c # t" by (cases s) auto
  show ?m
  proof (cases "t = []")
    case True
    with w s show ?thesis
      unfolding seq_split [of alnum_rx] alnum_rx_matches
      by (intro exI [of _ "[c]"] exI [of _ "[]"]) (simp add: rx_opt_def)
  next
    case False
    with w s have "t = butlast t @ [last t]" "alnum (last t)" "alnum c" "length (butlast t) \<le> 62"
      "list_all (in_cls cs) (butlast t)" by auto
    then have "rx_matches (RSeq (rx_upto (RCls cs) 62) alnum_rx) t"
      unfolding seq_split rx_upto_cls alnum_rx_matches by blast
    with \<open>alnum c\<close> s show ?thesis
      unfolding seq_split [of alnum_rx] alnum_rx_matches
      by (intro exI [of _ "[c]"] exI [of _ t]) (simp add: rx_opt_def)
  qed
qed

lemma identity_rx_iff:
  "rx_test identity_rx s \<longleftrightarrow> 1 \<le> length s \<and> length s \<le> 64 \<and> alnum (hd s) \<and> alnum (last s) \<and>
     list_all (\<lambda>u. alnum u \<or> u = 0x2D) (butlast (tl s))"
proof -
  have "in_cls [(0x61, 0x7A), (0x30, 0x39), (0x2D, 0x2D)] = (\<lambda>u. alnum u \<or> u = 0x2D)"
    by (auto simp: fun_eq_iff in_cls_def alnum_def)
  then show ?thesis
    using edged_word [of "[(0x61, 0x7A), (0x30, 0x39), (0x2D, 0x2D)]" s]
    by (simp add: rx_test_iff identity_rx_def rx_cls_def)
qed

lemma wellFormed_utf16: "utf16_ok s \<Longrightarrow> wellFormed s"
  by (induction s rule: wellFormed.induct) (auto simp: low_surrogate_def split: if_splits)

lemma wellFormed_cases:
  "wellFormed s \<longleftrightarrow> utf16_ok s \<or> (\<exists>t h. s = t @ [h] \<and> utf16_ok t \<and> high_surrogate h)"
proof (induction s rule: wellFormed.induct)
  case (2 u)
  then show ?case by (auto simp: Cons_eq_append_conv)
next
  case (3 u v us)
  show ?case
  proof (cases "high_surrogate u")
    case True
    have "(v < 0xDC00 \<or> 0xDFFF < v) \<longleftrightarrow> \<not> low_surrogate v"
      by (auto simp: low_surrogate_def)
    then show ?thesis using True 3(1) by (auto simp: Cons_eq_append_conv)
  next
    case False
    then show ?thesis using 3(2) by (auto simp: Cons_eq_append_conv)
  qed
qed auto

section \<open>Paths\<close>

lemma split_on_app2: "split_on d (q @ d # w) = split_on d q @ split_on d w"
proof (induction q)
  case (Cons c q)
  then show ?case by (cases "split_on d q") (auto split: list.splits)
qed simp

lemma last_segment:
  assumes "d \<notin> set w" "a @ d # r = t @ d # w"
  shows "last (split_on d r) = w"
proof -
  have "r = w \<or> (\<exists>q. r = q @ d # w)"
    using assms by (auto simp: append_eq_append_conv2 Cons_eq_append_conv append_eq_Cons_conv)
  with assms(1) show ?thesis by (auto simp: split_on_plain split_on_app2)
qed

text \<open>A segment that names an entry of a directory, and nothing else.\<close>

definition safe_segment :: "jsstr \<Rightarrow> bool" where
  "safe_segment w \<longleftrightarrow> w \<notin> {[], [0x2E], [0x2E, 0x2E]} \<and>
     list_all (\<lambda>u. u \<noteq> 0x2F \<and> u \<noteq> 0x5C \<and> 0x1F < u \<and> u \<noteq> 0x7F) w"

lemma safePath_segments:
  "safePath (Some (JStr s)) m \<longleftrightarrow>
     length s \<le> m \<and> (\<exists>ws. ws \<noteq> [] \<and> s = join_with [0x2F] ws \<and> list_all safe_segment ws)"
  (is "?p \<longleftrightarrow> ?q")
proof
  assume p: ?p
  then have unit: "u \<noteq> 0x5C \<and> 0x1F < u \<and> u \<noteq> 0x7F" if "u \<in> set s" for u
    using that by (auto simp: safePath_def list_ex_iff not_le)
  have "safe_segment w" if w: "w \<in> set (split_on 0x2F s)" for w
  proof -
    have "w \<notin> {[], [0x2E], [0x2E, 0x2E]}" using p w by (auto simp: safePath_def list_all_iff js_eval)
    moreover have "u \<noteq> 0x2F \<and> u \<noteq> 0x5C \<and> 0x1F < u \<and> u \<noteq> 0x7F" if "u \<in> set w" for u
      using that unit split_on_no_sep [OF w] split_on_units [OF w that] by blast
    ultimately show ?thesis by (simp add: safe_segment_def list_all_iff)
  qed
  then have *: "list_all safe_segment (split_on 0x2F s)" by (simp add: list_all_iff)
  with p show ?q
    by (auto simp: safePath_def intro!: exI [of _ "split_on 0x2F s"])
next
  assume ?q
  then obtain ws where ws: "ws \<noteq> []" "s = join_with [0x2F] ws" "list_all safe_segment ws" and l: "length s \<le> m"
    by blast
  then have split: "split_on 0x2F s = ws"
    by (auto intro!: split_join simp: list_all_iff safe_segment_def)
  obtain w ws' where w: "ws = w # ws'" using ws(1) by (cases ws) auto
  then obtain c t where c: "w = c # t" "c \<noteq> 0x2F"
    using ws(3) by (cases w) (auto simp: safe_segment_def)
  then have "\<exists>r. s = c # r" using ws(2) w by (cases ws') auto
  moreover have "\<not> list_ex (\<lambda>u. u = 0x5C \<or> u \<le> 0x1F \<or> u = 0x7F) s"
  proof -
    have "u \<noteq> 0x5C \<and> 0x1F < u \<and> u \<noteq> 0x7F" if "u \<in> set s" for u
      using join_units [of u "[0x2F]" ws] that ws(2,3)
      by (cases "u = 0x2F") (auto simp: list_all_iff safe_segment_def)
    then show ?thesis by (auto simp: list_ex_iff not_le)
  qed
  moreover have "list_all (\<lambda>part. part \<notin> set [[], js ''.'', js ''..'']) ws"
    using ws(3) by (auto simp: list_all_iff safe_segment_def js_eval)
  ultimately show ?p using l c split by (auto simp: safePath_def js_eval)
qed

section \<open>What an accepted envelope has\<close>

lemma fld_exact: "exact_keys v ks \<Longrightarrow> js k \<in> set ks \<Longrightarrow> \<exists>x. fld v k = Some x"
  by (simp add: fld_def exact_keys_get)

lemma array_all_iff: "array_all P v \<longleftrightarrow> (\<exists>xs. v = Some (JArr xs) \<and> (\<forall>x \<in> set xs. P (Some x)))"
  by (auto simp: array_all_def list_all_iff split: option.splits jval.splits)

lemma is_array_iff: "is_array v \<longleftrightarrow> (\<exists>xs. v = Some (JArr xs))"
  by (auto simp: is_array_def split: option.splits jval.splits)

lemma leaf_strings:
  "validIdentity v \<Longrightarrow> ts_string v" "validCoreIdentity v \<Longrightarrow> ts_string v" "validToken v \<Longrightarrow> ts_string v"
  "validDigest v \<Longrightarrow> ts_string v" "validVersion v \<Longrightarrow> ts_string v" "uuid v \<Longrightarrow> ts_string v"
  "bounded v a b \<Longrightarrow> ts_string v" "relativeURL v \<Longrightarrow> ts_string v" "safePath v m \<Longrightarrow> ts_string v"
  "validOrigin H v \<Longrightarrow> ts_string v" "sameOrigin H v w \<Longrightarrow> ts_string v"
  by (auto simp: validIdentity_def validCoreIdentity_def validToken_def validDigest_def validVersion_def
      uuid_def bounded_def relativeURL_def safePath_def validOrigin_def sameOrigin_def ts_string_def
      split: option.splits jval.splits)

lemma leaf_numbers: "positiveInteger v \<Longrightarrow> ts_number v" "nonNegativeInteger v \<Longrightarrow> ts_number v"
  by (auto simp: positiveInteger_def nonNegativeInteger_def ts_number_def split: option.splits jval.splits)

lemma nonNegativeInteger_iff:
  "nonNegativeInteger v \<longleftrightarrow> (\<exists>n. v = Some (JInt n) \<and> 0 \<le> n \<and> n \<le> max_safe)"
  by (force simp: nonNegativeInteger_def safe_integer_iff split: option.splits jval.splits)

lemma positiveInteger_iff:
  "positiveInteger v \<longleftrightarrow> (\<exists>n. v = Some (JInt n) \<and> 0 < n \<and> n \<le> max_safe)"
  by (force simp: positiveInteger_def safe_integer_iff split: option.splits jval.splits)

text \<open>
  \<open>String(v)\<close> equal to a literal: for a string this is membership in the union type. An array
  holding just that string converts to the same text.
\<close>

lemma includes_String_str [simp]:
  "includes_String H ls (Some (JStr s)) = Some (s \<in> set (map js ls))"
  by (simp add: includes_String_def js_String_opt_def)

lemma includes_String_lit:
  "ts_string v \<Longrightarrow> includes_String H ls v = Some True \<Longrightarrow> ts_lit ls v"
  by (auto simp: ts_iffs)

section \<open>Resources\<close>

text \<open>The scan visits every item: each is a record with a fresh identity, and valid.\<close>

lemma resource_loop_items:
  "resource_loop H ids items = Some True \<Longrightarrow>
     (\<forall>item \<in> set items. is_record (Some item) \<and> validIdentity (fld item ''role'') \<and>
        nonNegativeInteger (fld item ''ordinal'') \<and> validResource H item = Some True) \<and>
     distinct (map resource_key items) \<and> set (map resource_key items) \<inter> set ids = {}"
proof (induction items arbitrary: ids)
  case (Cons item items)
  then have here: "is_record (Some item)" "validIdentity (fld item ''role'')"
      "nonNegativeInteger (fld item ''ordinal'')" "resource_key item \<notin> set ids" "validResource H item = Some True"
    and rest: "resource_loop H (resource_key item # ids) items = Some True"
    by (auto split: if_splits option.splits bool.splits)
  from Cons.IH [OF rest] here show ?case by auto
qed simp

lemma validResources_items:
  "validResources H v = Some True \<Longrightarrow>
     \<exists>items. v = Some (JArr items) \<and> length items \<le> 128 \<and> resource_loop H [] items = Some True \<and>
       contiguous_roles items"
  by (auto simp: validResources_def split: option.splits jval.splits if_splits bool.splits)

lemma contiguous_ordinals:
  assumes "contiguous_roles items" and role: "role \<in> set (map role_of items)"
  shows "map (\<lambda>item. fld item ''ordinal'') (filter (\<lambda>item. fld item ''role'' = Some (JStr role)) items) =
    map (\<lambda>i. Some (JInt (int i))) [0..<length (filter (\<lambda>item. fld item ''role'' = Some (JStr role)) items)]"
    (is "map ?f ?g = map ?h [0..<length ?g]")
proof -
  have "list_all (\<lambda>(item, index). ?f item = ?h index) (zip ?g [0..<length ?g])"
    using assms by (auto simp: contiguous_roles_def Let_def list_all_iff)
  then have "?f (?g ! i) = ?h i" if "i < length ?g" for i
    using that by (auto simp: list_all_length)
  then show ?thesis by (intro nth_equalityI) simp_all
qed

section \<open>Membership in the contract's types\<close>

text \<open>
  The values whose type the conversion \<open>String(...)\<close> leaves open, and the property an object
  can inherit from a prototype that a \<open>__proto__\<close> key has set.
\<close>

definition plain_unions :: "jval \<Rightarrow> bool" where
  "plain_unions v =
     (let session = the (fld v ''session''); caps = the (fld (the (fld v ''runtime'')) ''capabilities'') in
      ts_string (fld session ''purpose'') \<and> ts_string (fld session ''mode'') \<and>
      ts_string (fld caps ''frameMode'') \<and> proto_of caps = None \<and>
      array_all (\<lambda>item. ts_string (fld (the item) ''kind'')) (fld v ''resources''))"

lemma inherited_nothing:
  "is_record v \<Longrightarrow> proto_of (the v) = None \<Longrightarrow> \<not> has_own (the v) (js k) \<Longrightarrow> fld (the v) k = None"
  by (auto simp: is_record_iff fld_def has_own_def map_of_eq_None_iff split: option.splits)

lemma validCapabilities_type:
  assumes "validCapabilities H v = Some True" "ts_string (fld (the v) ''frameMode'')" "proto_of (the v) = None"
  shows "RuntimeCapabilitiesV1 v"
proof -
  let ?o = "the v"
  from assms(1) have r: "is_record v"
    and b: "ts_boolean (fld ?o ''checkpoint'')" "ts_boolean (fld ?o ''frameCounter'')"
      "ts_boolean (fld ?o ''inputFilter'')" "ts_boolean (fld ?o ''nativeSettings'')"
      "ts_boolean (fld ?o ''pause'')" "ts_boolean (fld ?o ''requiresThreads'')"
      "ts_boolean (fld ?o ''screenshot'')" "ts_boolean (fld ?o ''standardGamepad'')"
      "ts_boolean (fld ?o ''volume'')"
    and f: "includes_String H [''NONE'', ''SAME_ORIGIN_BLANK'', ''SAME_ORIGIN_RESOURCE'',
          ''ISOLATED_ORIGIN_RESOURCE''] (fld ?o ''frameMode'') = Some True"
    and m: "array_all (\<lambda>mode. mode \<in> set (map (Some \<circ> JStr \<circ> js)
          [''original'', ''pixel'', ''smooth'', ''sharp-bilinear'', ''adaptive-sharpen'']))
          (fld ?o ''videoModes'')"
    and c: "has_own ?o (js ''contentLoading'') \<longrightarrow>
      fld ?o ''contentLoading'' = Some (JStr (js ''ON_DEMAND_AND_PRELOAD'')) \<or>
      fld ?o ''contentLoading'' = Some (JStr (js ''PRELOAD_ONLY''))"
    by (auto simp: validCapabilities_def Let_def split: if_splits)
  have "ts_opt RuntimeContentLoadingV1 (fld ?o ''contentLoading'')"
    using c inherited_nothing [OF r assms(3), of "''contentLoading''"]
    by (auto simp: ts_opt_def RuntimeContentLoadingV1_def ts_lit_def)
  moreover have "ts_array RuntimeVideoModeV1 (fld ?o ''videoModes'')"
    using m by (fastforce simp: array_all_iff ts_array_iff RuntimeVideoModeV1_def ts_lit_def)
  moreover have "RuntimeFrameModeV1 (fld ?o ''frameMode'')"
    unfolding RuntimeFrameModeV1_def using includes_String_lit [OF assms(2) f] .
  ultimately show ?thesis using r b by (simp add: RuntimeCapabilitiesV1_def)
qed

lemma validSession_type:
  assumes "validSession H v = Some True" "ts_string (fld (the v) ''purpose'')" "ts_string (fld (the v) ''mode'')"
  shows "SessionV1 v"
proof -
  let ?o = "the v"
  from assms(1) have r: "is_record v"
    and s: "uuid (fld ?o ''id'')" "bounded (fld ?o ''title'') 1 500" "bounded (fld ?o ''platformName'') 1 200"
      "bounded (fld ?o ''coreName'') 1 200" "relativeURL (fld ?o ''returnTo'')"
    and p: "includes_String H [''PRODUCT'', ''REVIEW_PREVIEW''] (fld ?o ''purpose'') = Some True"
    and m: "includes_String H [''SINGLE''] (fld ?o ''mode'') = Some True"
    and w: "array_all (\<lambda>w. bounded w 1 200) (fld ?o ''warnings'')"
    by (auto simp: validSession_def Let_def split: if_splits)
  have "ts_array ts_string (fld ?o ''warnings'')"
    using w by (auto simp: array_all_iff ts_array_iff dest: leaf_strings(7))
  then show ?thesis
    using r s includes_String_lit [OF assms(2) p] includes_String_lit [OF assms(3) m]
    by (simp add: SessionV1_def RuntimePurposeV1_def RuntimeModeV1_def leaf_strings)
qed

lemma validCheckpoint_type: "validCheckpoint v b \<Longrightarrow> CheckpointContractV1 v"
  by (auto simp: validCheckpoint_def CheckpointContractV1_def ts_null_def Let_def array_all_iff ts_array_iff
      ts_lit_def leaf_strings leaf_numbers split: if_splits)

lemma validResource_type:
  assumes "validResource H item = Some True" "is_record (Some item)" "validIdentity (fld item ''role'')"
    and "nonNegativeInteger (fld item ''ordinal'')" "ts_string (fld item ''kind'')"
  shows "RuntimeResourceV1 (Some item)"
proof -
  have i: "RuntimeResourceIdentityV1 (Some item)"
    using assms by (simp add: RuntimeResourceIdentityV1_def leaf_strings leaf_numbers)
  obtain k where k: "fld item ''kind'' = Some (JStr k)" using assms(5) by (auto simp: ts_string_iff)
  consider (blob) "k \<in> set (map js [''ROM_BLOB'', ''SEEKABLE_BLOB'', ''WASM4_CART''])" "validBlobResource H item = Some True"
    | (tree) "k = js ''FILE_TREE''" "validFileTreeResource item"
    | (web) "k \<in> set (map js [''NATIVE_WEB'', ''ISOLATED_WEB''])" "validWebResource H item"
    | (files) "k \<in> set (map js [''BIOS_BUNDLE'', ''EXTERNAL_FILE_SET''])" "validFileSetResource item"
    using assms(1) k by (auto simp: validResource_def split: if_splits bool.splits)
  then show ?thesis
  proof cases
    case blob
    then have "ts_boolean (fld item ''rangeRequired'')" "relativeURL (fld item ''url'')"
      "validDigest (fld item ''sha256'')" "positiveInteger (fld item ''sizeBytes'')"
      using k by (auto simp: validBlobResource_def ts_boolean_iff)
    with blob(1) i k assms(2) show ?thesis
      by (auto simp: RuntimeResourceV1_def RuntimeBlobResourceV1_def ts_lit_def leaf_strings leaf_numbers)
  next
    case tree
    with i k assms(2) show ?thesis
      by (simp add: RuntimeResourceV1_def RuntimeFileTreeResourceV1_def validFileTreeResource_def ts_lit_def leaf_strings)
  next
    case web
    then have "ts_string (fld item ''origin'')" "ts_string (fld item ''entryUrl'')" "ts_string (fld item ''entryFile'')"
      "ts_string (fld item ''bridgeUrl'')" "ts_string (fld item ''indexUrl'')" "ts_string (fld item ''contentDigest'')"
      by (auto simp: validWebResource_def leaf_strings)
    with web(1) i k assms(2) show ?thesis
      by (auto simp: RuntimeResourceV1_def RuntimeWebResourceV1_def ts_lit_def)
  next
    case files
    have entry: "validFileEntry x \<Longrightarrow> RuntimeFileEntryV1 x" for x
      by (auto simp: validFileEntry_def RuntimeFileEntryV1_def leaf_strings leaf_numbers)
    with files i k assms(2) show ?thesis
      by (auto simp: RuntimeResourceV1_def RuntimeFileSetResourceV1_def validFileSetResource_def ts_lit_def
          array_all_iff ts_array_iff)
  qed
qed

lemma checkpoint_formats:
  assumes "validCheckpoint c b" "is_record c" "x \<in> set (array_items (fld (the c) ''readFormats''))"
  shows "validToken x"
proof -
  from assms(1,2) have "array_all validToken (fld (the c) ''readFormats'')"
    by (auto simp: validCheckpoint_def is_record_iff Let_def split: if_splits)
  with assms(3) show ?thesis by (auto simp: array_all_iff array_items_def)
qed

lemma validRestore_type:
  assumes "validRestore v c" "validCheckpoint c b" shows "ts_null v \<or> RestoreDescriptorV1 v"
proof (cases "v = Some JNull")
  case False
  with assms have *: "is_record c" "is_record v" "validRestoreAddress (the v)" "validDigest (fld (the v) ''sha256'')"
    "positiveInteger (fld (the v) ''sizeBytes'')"
    "fld (the v) ''format'' \<in> set (array_items (fld (the c) ''readFormats''))"
    by (auto simp: validRestore_def)
  then have "ts_string (fld (the v) ''format'')"
    using checkpoint_formats [OF assms(2)] leaf_strings(3) by blast
  with * show ?thesis
    by (auto simp: validRestoreAddress_def RestoreDescriptorV1_def ts_lit_def leaf_strings leaf_numbers split: if_splits)
qed (simp add: ts_null_def)

section \<open>The whole envelope\<close>

text \<open>The conjuncts of an accepted envelope.\<close>

lemma accepted_envelope:
  assumes "validateLaunchEnvelopeBoundary H v = Inr w"
  shows "v = Some w" and "is_record (Some w)" and "exact_keys w envelope_keys"
    and "fld w ''schemaVersion'' = Some (JInt 1)"
    and "validSession H (fld w ''session'') = Some True"
    and "launchRuntime H (fld w ''runtime'') = Some True"
    and "validEnvelopeBody H w (the (fld w ''runtime'')) = Some True"
proof -
  from assms have "envelope_check H v = Some True" "w = the v"
    by (auto simp: validateLaunchEnvelopeBoundary_def split: option.splits if_splits)
  then show "v = Some w" "is_record (Some w)" "exact_keys w envelope_keys"
    "fld w ''schemaVersion'' = Some (JInt 1)" "validSession H (fld w ''session'') = Some True"
    "launchRuntime H (fld w ''runtime'') = Some True"
    "validEnvelopeBody H w (the (fld w ''runtime'')) = Some True"
    by (cases v; simp add: envelope_check_def Let_def is_record_def split: if_splits)+
qed

lemma accepted_runtime:
  assumes "launchRuntime H v = Some True"
  shows "is_record v" and "exact_keys (the v) runtime_keys" and "validRuntimeIdentity (the v)"
    and "validRuntimeDigests (the v)" and "validCapabilities H (fld (the v) ''capabilities'') = Some True"
    and "validCheckpoint (fld (the v) ''checkpoint'')
      (true_value (fld (the (fld (the v) ''capabilities'')) ''checkpoint''))"
  using assms by (auto simp: launchRuntime_def Let_def split: if_splits)

lemma accepted_body:
  assumes "validEnvelopeBody H w r = Some True"
  shows "validProviderModuleURLs r" and "validResources H (fld w ''resources'') = Some True"
    and "validResourceBridges H (fld w ''resources'') (string_of (fld r ''runtimeBaseUrl'')) = Some True"
    and "validTargetOptions (fld w ''targetOptions'')"
    and "validRestore (fld w ''restore'') (fld r ''checkpoint'')"
  using assms by (simp_all add: validEnvelopeBody_def)

lemma module_urls:
  assumes "validProviderModuleURLs r"
  shows "\<exists>base. fld r ''runtimeBaseUrl'' = Some (JStr base) \<and>
      base \<in> {provider_base r, provider_base r @ js ''dev/'' @ string_of (fld r ''moduleSha256'') @ js ''/''} \<and>
      fld r ''moduleUrl'' = Some (JStr (base @ js ''client.mjs''))"
  using assms by (auto simp: validProviderModuleURLs_def Let_def string_of_def)

lemma launchRuntime_type:
  assumes "launchRuntime H v = Some True" "validProviderModuleURLs (the v)"
    and "ts_string (fld (the (fld (the v) ''capabilities'')) ''frameMode'')"
    and "proto_of (the (fld (the v) ''capabilities'')) = None"
  shows "LaunchRuntimeV1 v"
proof -
  note r = accepted_runtime [OF assms(1)]
  have "ts_string (fld (the v) ''runtimeBaseUrl'')" "ts_string (fld (the v) ''moduleUrl'')"
    using module_urls [OF assms(2)] by (auto simp: ts_string_iff)
  then show ?thesis
    using r(1,3,4) validCapabilities_type [OF r(5) assms(3,4)] validCheckpoint_type [OF r(6)]
    by (simp add: LaunchRuntimeV1_def validRuntimeIdentity_def validRuntimeDigests_def leaf_strings ts_one_def)
qed

lemma validResources_type:
  assumes "validResources H v = Some True" "array_all (\<lambda>item. ts_string (fld (the item) ''kind'')) v"
  shows "ts_array RuntimeResourceV1 v"
proof -
  obtain items where v: "v = Some (JArr items)" and l: "resource_loop H [] items = Some True"
    using validResources_items [OF assms(1)] by blast
  have "RuntimeResourceV1 (Some item)" if "item \<in> set items" for item
    using resource_loop_items [OF l] that assms(2) v
    by (intro validResource_type [of H]) (auto simp: array_all_iff)
  with v show ?thesis by (simp add: ts_array_iff)
qed

lemma envelope_type:
  assumes "validateLaunchEnvelopeBoundary H v = Inr w" "plain_unions w"
  shows "LaunchEnvelopeV1 (Some w)"
proof -
  note e = accepted_envelope [OF assms(1)]
  note b = accepted_body [OF e(7)]
  from assms(2) have u: "ts_string (fld (the (fld w ''session'')) ''purpose'')" "ts_string (fld (the (fld w ''session'')) ''mode'')"
    "ts_string (fld (the (fld (the (fld w ''runtime'')) ''capabilities'')) ''frameMode'')"
    "proto_of (the (fld (the (fld w ''runtime'')) ''capabilities'')) = None"
    "array_all (\<lambda>item. ts_string (fld (the item) ''kind'')) (fld w ''resources'')"
    by (simp_all add: plain_unions_def Let_def)
  have "TargetOptionsV1 (fld w ''targetOptions'')"
    using b(4) by (simp add: TargetOptionsV1_def validTargetOptions_def jsonRecord_def)
  then show ?thesis
    using e validSession_type [OF e(5) u(1,2)] launchRuntime_type [OF e(6) b(1) u(3,4)]
      validResources_type [OF b(2) u(5)] validRestore_type [OF b(5) accepted_runtime(6) [OF e(6)]]
    by (simp add: LaunchEnvelopeV1_def ts_one_def)
qed

section \<open>A concrete launch\<close>

text \<open>An envelope of a web game with a restore descriptor, in a host that resolves its addresses.\<close>

definition hex64 :: "char \<Rightarrow> jval" where
  "hex64 c = JStr (replicate 64 (of_char c))"

definition example_host :: host where
  "example_host = \<lparr>new_URL = (\<lambda>s base.
       if base = None then Some \<lparr>url_href = s, url_protocol = js ''https:'',
         url_origin = js ''https://g.example'', url_pathname = js ''/'', url_hash = []\<rparr>
       else Some \<lparr>url_href = js ''https://retrom.invalid'' @ s, url_protocol = js ''https:'',
         url_origin = js ''https://retrom.invalid'', url_pathname = s, url_hash = []\<rparr>),
     other_String = (\<lambda>v. None)\<rparr>"

definition example_base :: jsstr where
  "example_base = js ''/runtime/providers/web/'' @ replicate 64 (of_char (CHR ''a'')) @ js ''/''"

definition example_session :: "jval \<Rightarrow> jval" where
  "example_session purpose = jo
     [(''id'', jstr ''12345678-1234-4234-8234-123456789abc''), (''purpose'', purpose),
      (''mode'', jstr ''SINGLE''), (''title'', jstr ''Game''), (''platformName'', jstr ''Web''),
      (''coreName'', jstr ''Core''), (''returnTo'', jstr ''/games/1''), (''warnings'', JArr [])]"

definition example_capabilities :: jval where
  "example_capabilities = jo
     [(''pause'', JBool True), (''screenshot'', JBool True), (''checkpoint'', JBool True),
      (''standardGamepad'', JBool True), (''frameCounter'', JBool False), (''volume'', JBool True),
      (''nativeSettings'', JBool False), (''inputFilter'', JBool False),
      (''videoModes'', JArr [jstr ''original'', jstr ''pixel'']), (''requiresThreads'', JBool False),
      (''frameMode'', jstr ''ISOLATED_ORIGIN_RESOURCE'')]"

definition example_runtime :: "jval \<Rightarrow> jval" where
  "example_runtime caps = jo
     [(''coreId'', jstr ''core_1''), (''coreFingerprint'', hex64 (CHR ''b'')), (''romHash'', hex64 (CHR ''c'')),
      (''providerId'', jstr ''web''), (''providerVersion'', jstr ''1.2.3''), (''providerApiVersion'', JInt 1),
      (''bundleSha256'', hex64 (CHR ''a'')), (''targetId'', jstr ''target''), (''capabilities'', caps),
      (''checkpoint'', jo [(''writeFormat'', jstr ''raw''), (''readFormats'', JArr [jstr ''raw'']),
        (''maxBytes'', JInt 1024), (''semantics'', jstr ''INSTANT'')]),
      (''moduleUrl'', JStr (example_base @ js ''client.mjs'')), (''moduleSha256'', hex64 (CHR ''d'')),
      (''runtimeBaseUrl'', JStr example_base)]"

definition example_resource :: jval where
  "example_resource = jo
     [(''role'', jstr ''game''), (''ordinal'', JInt 0), (''kind'', jstr ''ISOLATED_WEB''),
      (''bridgeUrl'', JStr (example_base @ js ''assets/bridge.js'')), (''indexUrl'', jstr ''/content/index''),
      (''origin'', jstr ''https://g.example''), (''entryUrl'', jstr ''https://g.example/index.html''),
      (''entryFile'', jstr ''index.html''), (''contentDigest'', hex64 (CHR ''e''))]"

definition example_envelope :: "jval \<Rightarrow> jval \<Rightarrow> jval" where
  "example_envelope purpose caps = jo
     [(''schemaVersion'', JInt 1), (''session'', example_session purpose), (''runtime'', example_runtime caps),
      (''resources'', JArr [example_resource]),
      (''targetOptions'', jo [(''volume'', JInt 5)]),
      (''restore'', jo [(''kind'', jstr ''LOCAL''), (''format'', jstr ''raw''),
        (''sha256'', hex64 (CHR ''f'')), (''sizeBytes'', JInt 100)])]"

lemmas example_defs = example_envelope_def example_session_def example_capabilities_def example_runtime_def
  example_resource_def

lemma example_keys:
  "exact_keys (jo [(''schemaVersion'', a), (''session'', b), (''runtime'', c), (''resources'', d),
     (''targetOptions'', e), (''restore'', f)]) envelope_keys"
  "exact_keys (jo [(''coreId'', a), (''coreFingerprint'', b), (''romHash'', c), (''providerId'', d),
     (''providerVersion'', e), (''providerApiVersion'', f), (''bundleSha256'', g), (''targetId'', h),
     (''capabilities'', i), (''checkpoint'', j), (''moduleUrl'', k), (''moduleSha256'', l),
     (''runtimeBaseUrl'', m)]) runtime_keys"
  by code_simp+

lemma example_fields:
  "exact_keys (example_envelope p c) envelope_keys"
  "fld (example_envelope p c) ''schemaVersion'' = Some (JInt 1)"
  "fld (example_envelope p c) ''session'' = Some (example_session p)"
  "fld (example_envelope p c) ''runtime'' = Some (example_runtime c)"
  "fld (example_envelope p c) ''resources'' = Some (JArr [example_resource])"
  "fld (example_envelope p c) ''targetOptions'' = Some (jo [(''volume'', JInt 5)])"
  "is_record (Some (example_envelope p c))"
  "is_record (Some (example_runtime c))"
  "exact_keys (example_runtime c) runtime_keys"
  "fld (example_runtime c) ''capabilities'' = Some c"
  "fld (example_runtime c) ''runtimeBaseUrl'' = Some (JStr example_base)"
  by (simp_all add: example_envelope_def example_runtime_def fld_jo example_keys)

lemma example_leaves:
  "validDigest (Some (hex64 (CHR ''a'')))" "validDigest (Some (hex64 (CHR ''b'')))"
  "validDigest (Some (hex64 (CHR ''c'')))" "validDigest (Some (hex64 (CHR ''d'')))"
  "validDigest (Some (hex64 (CHR ''e'')))" "validDigest (Some (hex64 (CHR ''f'')))"
  "validIdentity (Some (jstr ''web''))" "validIdentity (Some (jstr ''target''))"
  "validIdentity (Some (jstr ''game''))" "validCoreIdentity (Some (jstr ''core_1''))"
  "validVersion (Some (jstr ''1.2.3''))"
  by code_simp+

lemma example_checkpoint:
  "validCheckpoint (Some (jo [(''writeFormat'', jstr ''raw''), (''readFormats'', JArr [jstr ''raw'']),
     (''maxBytes'', JNum (Fin 1024)), (''semantics'', jstr ''INSTANT'')])) True"
  by code_simp

lemma example_restore_keys:
  "exact_keys (jo [(''kind'', a), (''format'', b), (''sha256'', c), (''sizeBytes'', d)])
     (map js [''format'', ''kind'', ''sha256'', ''sizeBytes''])"
  by code_simp

lemma example_runtime_parts:
  "validRuntimeIdentity (example_runtime c)"
  "validRuntimeDigests (example_runtime c)"
  "validCheckpoint (fld (example_runtime c) ''checkpoint'') True"
  by (simp_all add: validRuntimeIdentity_def validRuntimeDigests_def example_runtime_def fld_jo example_leaves
      example_checkpoint)

lemma example_urls: "validProviderModuleURLs (example_runtime c)"
  by (simp add: validProviderModuleURLs_def example_runtime_def fld_jo provider_base_def string_of_def
      hex64_def jstr_def example_base_def js_eval)

lemma example_restore: "validRestore (fld (example_envelope p c) ''restore'') (fld (example_runtime c) ''checkpoint'')"
  by (simp add: validRestore_def validRestoreAddress_def example_runtime_def example_envelope_def fld_jo
      example_leaves example_restore_keys [simplified] array_items_def is_array_def positiveInteger_def safe_integer_def
      max_safe_def ts_number_def number_le_def)

lemma example_resource_keys:
  "exact_keys (jo [(''role'', a), (''ordinal'', b), (''kind'', c), (''bridgeUrl'', d), (''indexUrl'', e),
     (''origin'', f), (''entryUrl'', g), (''entryFile'', h), (''contentDigest'', i)])
     (map js [''bridgeUrl'', ''contentDigest'', ''entryFile'', ''entryUrl'', ''indexUrl'',
       ''kind'', ''ordinal'', ''origin'', ''role''])"
  by code_simp

lemma example_paths:
  "relativeURL (Some (JStr (example_base @ js ''assets/bridge.js'')))"
  "relativeURL (Some (jstr ''/content/index''))"
  "safePath (Some (jstr ''index.html'')) 1024"
  "safePath (Some (JStr (js ''assets/bridge.js''))) 240"
  by code_simp+

lemma example_bridge_text:
  "ends_with (example_base @ js ''assets/bridge.js'') (js ''/bridge.js'')"
  "starts_with (example_base @ js ''assets/bridge.js'') (example_base @ js ''assets/'')"
  by (code_simp, simp add: starts_with_iff js_eval)

lemma example_web: "validWebResource example_host example_resource"
  by (simp add: validWebResource_def example_resource_def fld_jo example_resource_keys [simplified]
      example_leaves example_paths validOrigin_def sameOrigin_def jstr_def http_protocol_def example_host_def)
    (simp_all add: js_inj example_leaves example_paths example_paths [unfolded jstr_def] flip: jstr_def)

lemma example_bridge: "validResourceBridge example_host example_base (Some example_resource) = Some True"
  by (simp add: validResourceBridge_def example_resource_def fld_jo string_of_def example_host_def
      example_bridge_text example_paths)

lemma example_resource_parts:
  "validResource example_host example_resource = Some True"
  "validIdentity (fld example_resource ''role'')"
  "nonNegativeInteger (fld example_resource ''ordinal'')"
  "is_record (Some example_resource)"
  "contiguous_roles [example_resource]"
  "validTargetOptions (Some (jo [(''volume'', JNum (Fin 5))]))"
proof -
  show "validTargetOptions (Some (jo [(''volume'', JNum (Fin 5))]))" by code_simp
  show "validResource example_host example_resource = Some True"
    using example_web
    by (simp add: validResource_def example_resource_def fld_jo jstr_def js_inj)
qed (simp_all add: example_resource_def fld_jo example_leaves nonNegativeInteger_def safe_integer_def max_safe_def
    contiguous_roles_def role_of_def string_of_def jstr_def [of "''game''"] example_leaves [unfolded jstr_def])

lemma example_accepted_if:
  assumes "validSession example_host (Some (example_session p)) = Some True"
    and "validCapabilities example_host (Some c) = Some True" "true_value (fld c ''checkpoint'')"
  shows "validateLaunchEnvelopeBoundary example_host (Some (example_envelope p c)) = Inr (example_envelope p c)"
  using assms example_urls example_restore [of p c]
  by (simp add: validateLaunchEnvelopeBoundary_def envelope_check_def example_fields launchRuntime_def
      example_runtime_parts validEnvelopeBody_def validResources_def example_resource_parts
      validResourceBridges_def array_items_def string_of_def example_bridge js_and.simps)
lemma example_session_keys:
  "exact_keys (jo [(''id'', a), (''purpose'', b), (''mode'', c), (''title'', d), (''platformName'', e),
     (''coreName'', f), (''returnTo'', g), (''warnings'', h)])
     (map js [''coreName'', ''id'', ''mode'', ''platformName'', ''purpose'', ''returnTo'', ''title'', ''warnings''])"
  by code_simp

lemma example_session_leaves:
  "uuid (Some (jstr ''12345678-1234-4234-8234-123456789abc''))"
  "bounded (Some (jstr ''Game'')) (Suc 0) 500" "bounded (Some (jstr ''Web'')) (Suc 0) 200"
  "bounded (Some (jstr ''Core'')) (Suc 0) 200" "relativeURL (Some (jstr ''/games/1''))"
  by code_simp+

lemma includes_jstr: "includes_String H ls (Some (jstr s)) = Some (s \<in> set ls)"
proof -
  have "js s \<in> js ` set ls \<longleftrightarrow> s \<in> set ls" by (auto simp: js_inj)
  then show ?thesis by (simp add: jstr_def)
qed

lemma example_session_if:
  assumes "includes_String example_host [''PRODUCT'', ''REVIEW_PREVIEW''] (Some p) = Some True"
  shows "validSession example_host (Some (example_session p)) = Some True"
  using assms
  by (simp add: validSession_def example_session_def fld_jo example_session_keys [simplified]
      example_session_leaves includes_jstr is_array_def array_length_def array_all_def js_and.simps)

text \<open>An array that holds just the expected text converts to it.\<close>

definition coerced_purpose :: jval where
  "coerced_purpose = JArr [jstr ''PRODUCT'']"

lemma coerced_includes:
  "includes_String example_host [''PRODUCT'', ''REVIEW_PREVIEW''] (Some coerced_purpose) = Some True"
  by (simp add: coerced_purpose_def includes_String_def js_String_opt_def jstr_def)

definition capabilities_props :: "(jsstr \<times> jval) list" where
  "capabilities_props = map (\<lambda>(k, v). (js k, v))
     [(''pause'', JBool True), (''screenshot'', JBool True), (''checkpoint'', JBool True),
      (''standardGamepad'', JBool True), (''frameCounter'', JBool False), (''volume'', JBool True),
      (''nativeSettings'', JBool False), (''inputFilter'', JBool False),
      (''videoModes'', JArr [jstr ''original'', jstr ''pixel'']), (''requiresThreads'', JBool False),
      (''frameMode'', jstr ''ISOLATED_ORIGIN_RESOURCE'')]"

text \<open>Capabilities whose prototype was set to an object with an arbitrary \<open>contentLoading\<close>.\<close>

definition inherited_capabilities :: jval where
  "inherited_capabilities = JObj (Some (jo [(''contentLoading'', JInt 123)])) capabilities_props"

lemma example_capabilities_valid:
  "validCapabilities example_host (Some example_capabilities) = Some True"
  "validCapabilities example_host (Some inherited_capabilities) = Some True"
  by code_simp+

lemma example_accepted:
  "validateLaunchEnvelopeBoundary example_host (Some (example_envelope (jstr ''PRODUCT'') example_capabilities)) =
     Inr (example_envelope (jstr ''PRODUCT'') example_capabilities)"
  "validateLaunchEnvelopeBoundary example_host (Some (example_envelope coerced_purpose example_capabilities)) =
     Inr (example_envelope coerced_purpose example_capabilities)"
  "validateLaunchEnvelopeBoundary example_host (Some (example_envelope (jstr ''PRODUCT'') inherited_capabilities)) =
     Inr (example_envelope (jstr ''PRODUCT'') inherited_capabilities)"
proof -
  have c: "true_value (fld example_capabilities ''checkpoint'')"
    by (simp add: true_value_def example_capabilities_def fld_jo)
  have i: "true_value (fld inherited_capabilities ''checkpoint'')"
    by (simp add: true_value_def inherited_capabilities_def capabilities_props_def fld_def js_inj)
  have p: "validSession example_host (Some (example_session (jstr ''PRODUCT''))) = Some True"
    by (simp add: example_session_if includes_jstr)
  show "validateLaunchEnvelopeBoundary example_host (Some (example_envelope (jstr ''PRODUCT'') example_capabilities)) =
     Inr (example_envelope (jstr ''PRODUCT'') example_capabilities)"
    by (rule example_accepted_if [OF p example_capabilities_valid(1) c])
  show "validateLaunchEnvelopeBoundary example_host (Some (example_envelope coerced_purpose example_capabilities)) =
     Inr (example_envelope coerced_purpose example_capabilities)"
    by (rule example_accepted_if [OF example_session_if [OF coerced_includes] example_capabilities_valid(1) c])
  show "validateLaunchEnvelopeBoundary example_host (Some (example_envelope (jstr ''PRODUCT'') inherited_capabilities)) =
     Inr (example_envelope (jstr ''PRODUCT'') inherited_capabilities)"
    by (rule example_accepted_if [OF p example_capabilities_valid(2) i])
qed

lemma example_plain: "plain_unions (example_envelope (jstr ''PRODUCT'') example_capabilities)"
  by (simp add: plain_unions_def example_fields example_session_def example_capabilities_def example_resource_def
      fld_jo array_all_def ts_string_def jstr_def)
    (simp add: jo_def)

section \<open>Consequences the properties share\<close>

lemma accepted_resources:
  assumes "validateLaunchEnvelopeBoundary H v = Inr w"
  obtains items where "fld w ''resources'' = Some (JArr items)" "length items \<le> 128"
    "resource_loop H [] items = Some True" "contiguous_roles items"
  using validResources_items [OF accepted_body(2) [OF accepted_envelope(7) [OF assms]]] by blast

lemma int_map_eq: "map (\<lambda>item. fld item k) xs = map (\<lambda>i. Some (JInt (int i))) ns \<Longrightarrow>
    map (\<lambda>item. case fld item k of Some (JNum (Fin q)) \<Rightarrow> \<lfloor>q\<rfloor> | _ \<Rightarrow> 0) xs = map int ns"
proof (induction xs arbitrary: ns)
  case (Cons x xs)
  then obtain n ns' where "ns = n # ns'" by (cases ns) auto
  with Cons show ?case by (simp del: of_int_of_nat_eq)
qed simp

lemma resources_law:
  assumes "resource_loop H [] items = Some True" "contiguous_roles items"
  shows "distinct (map (\<lambda>item. (role_of item, ordinal_of item)) items)"
    and "map ordinal_of (filter (\<lambda>item. role_of item = role) items) =
      map int [0..<length (filter (\<lambda>item. role_of item = role) items)]"
proof -
  note items = resource_loop_items [OF assms(1)]
  have "map resource_key items =
      map (\<lambda>(r, n). r @ [0] @ int_dec n) (map (\<lambda>item. (role_of item, ordinal_of item)) items)"
    by (simp add: resource_key_def)
  then have "distinct (map (\<lambda>(r, n). r @ [0] @ int_dec n) (map (\<lambda>item. (role_of item, ordinal_of item)) items))"
    using items by presburger
  then show "distinct (map (\<lambda>item. (role_of item, ordinal_of item)) items)"
    by (rule distinct_mapI)
  show "map ordinal_of (filter (\<lambda>item. role_of item = role) items) =
      map int [0..<length (filter (\<lambda>item. role_of item = role) items)]"
  proof (cases "role \<in> set (map role_of items)")
    case True
    have "(role_of item = role) = (fld item ''role'' = Some (JStr role))" if "item \<in> set items" for item
    proof -
      have "ts_string (fld item ''role'')" using items that leaf_strings(1) by blast
      then show ?thesis by (auto simp: role_of_def string_of_def ts_string_iff)
    qed
    then have "filter (\<lambda>item. role_of item = role) items = filter (\<lambda>item. fld item ''role'' = Some (JStr role)) items"
      by (rule filter_cong [OF refl])
    then show ?thesis
      using int_map_eq [OF contiguous_ordinals [OF assms(2) True]] by (simp add: ordinal_of_def [abs_def])
  next
    case False
    then have "filter (\<lambda>item. role_of item = role) items = []" by (auto simp: filter_empty_conv)
    then show ?thesis by simp
  qed
qed

lemma bridge_law:
  assumes "validResourceBridge H base (Some item) = Some True"
    and "fld item ''kind'' \<in> {Some (JStr (js ''NATIVE_WEB'')), Some (JStr (js ''ISOLATED_WEB''))}"
  shows "\<exists>ws. string_of (fld item ''bridgeUrl'') = base @ join_with [0x2F] (js ''assets'' # ws) \<and> ws \<noteq> [] \<and>
    last ws = js ''bridge.js'' \<and> list_all safe_segment ws"
proof -
  let ?b = "string_of (fld item ''bridgeUrl'')"
  from assms have b: "starts_with ?b (base @ js ''assets/'')" "ends_with ?b (js ''/bridge.js'')"
    "safePath (Some (JStr (drop (length base) ?b))) 240"
    by (auto simp: validResourceBridge_def Let_def split: option.splits)
  from b(1) obtain r where r: "?b = base @ js ''assets'' @ 0x2F # r" by (auto simp: starts_with_iff js_eval)
  then have d: "drop (length base) ?b = js ''assets'' @ 0x2F # r" by simp
  from b(3) obtain us where us: "us \<noteq> []" "js ''assets'' @ 0x2F # r = join_with [0x2F] us" "list_all safe_segment us"
    unfolding d safePath_segments by blast
  have noslash: "0x2F \<notin> set u" if "u \<in> set us" for u
    using us(3) that by (auto simp: list_all_iff safe_segment_def)
  have "us = split_on 0x2F (js ''assets'' @ 0x2F # r)" using us(1,2) noslash split_join [of us "0x2F"] by simp
  also have "\<dots> = js ''assets'' # split_on 0x2F r" by (rule split_on_app) (simp add: js_eval)
  finally have u: "us = js ''assets'' # split_on 0x2F r" .
  have "0x2F \<notin> set (js ''bridge.js'')" by (simp add: js_eval)
  moreover obtain t where "(base @ js ''assets'') @ 0x2F # r = t @ 0x2F # js ''bridge.js''"
    using b(2) r by (auto simp: ends_with_iff js_Cons)
  ultimately have "last (split_on 0x2F r) = js ''bridge.js''" by (rule last_segment)
  with us u r show ?thesis
    by (intro exI [of _ "split_on 0x2F r"]) (simp del: join_with.simps)
qed

text \<open>The reference a launch's runtime part contains.\<close>

definition reference_of :: "jval \<Rightarrow> jval" where
  "reference_of r = jo (map (\<lambda>k. (k, the (fld r k)))
     [''bundleSha256'', ''moduleSha256'', ''moduleUrl'', ''providerApiVersion'', ''providerId'',
      ''providerVersion'', ''runtimeBaseUrl''])"

lemma reference_law:
  assumes "validRuntimeIdentity r" "validRuntimeDigests r" "validProviderModuleURLs r"
  shows "validateProviderModuleReference (Some (reference_of r)) = Inr (reference_of r)"
proof -
  have k: "exact_keys (reference_of r) reference_keys"
    unfolding reference_of_def by code_simp
  have some: "ts_string v \<Longrightarrow> Some (the v) = v" for v by (auto simp: ts_string_iff)
  from assms(1,2) have s: "ts_string (fld r ''bundleSha256'')" "ts_string (fld r ''moduleSha256'')"
    "ts_string (fld r ''providerId'')" "ts_string (fld r ''providerVersion'')"
    by (auto simp: validRuntimeIdentity_def validRuntimeDigests_def leaf_strings)
  have u: "ts_string (fld r ''moduleUrl'')" "ts_string (fld r ''runtimeBaseUrl'')"
    using module_urls [OF assms(3)] by (auto simp: ts_string_iff)
  have f: "fld (reference_of r) ''bundleSha256'' = fld r ''bundleSha256''"
    "fld (reference_of r) ''moduleSha256'' = fld r ''moduleSha256''"
    "fld (reference_of r) ''moduleUrl'' = fld r ''moduleUrl''"
    "fld (reference_of r) ''providerId'' = fld r ''providerId''"
    "fld (reference_of r) ''providerVersion'' = fld r ''providerVersion''"
    "fld (reference_of r) ''runtimeBaseUrl'' = fld r ''runtimeBaseUrl''"
    "fld (reference_of r) ''providerApiVersion'' = Some (JInt 1)"
    using s u assms(1) by (simp_all add: reference_of_def fld_jo some validRuntimeIdentity_def)
  have "validProviderModuleURLs (reference_of r)"
    using assms(3) by (simp add: validProviderModuleURLs_def provider_base_def f)
  moreover have "is_record (Some (reference_of r))" by (simp add: reference_of_def)
  ultimately show ?thesis
    using k assms(1,2) f u by (simp add: validateProviderModuleReference_def validRuntimeIdentity_def validRuntimeDigests_def)
qed

end
