(* ===== verification/Dispatcher_Properties.thy ===== *)
theory Dispatcher_Properties
  imports Provider_Dispatcher Envelope_Laws
begin

text \<open>
  The properties of \<open>provider-dispatcher.ts\<close>: only verified bytes are imported, every module
  address is revoked, and a returned runtime honours the contract of the envelope.
\<close>

section \<open>Effects and outcome of loading a runtime\<close>

lemma runtime_effects:
  "(filter url_effect (snd (loadProviderRuntime H B ov importer v)) = []) \<or>
   (\<exists>w bytes. validateLaunchEnvelopeBoundary H v = Inr w \<and>
      verified (dispatcherEnvironment B ov) (runtime_part w) bytes \<and>
      (let u = createModuleUrl (dispatcherEnvironment B ov) bytes in
       filter url_effect (snd (loadProviderRuntime H B ov importer v)) = [Created u bytes, Imported u, Revoked u]))"
proof (cases "validateLaunchEnvelopeBoundary H v")
  case (Inr w)
  let ?D = "dispatcherEnvironment B ov"
  have tail: "filter url_effect (snd (run_bind (md_create p w, [CreateCalled])
      (\<lambda>runtime. (validatePlayerRuntime runtime w, [])))) = []" for p
    by (simp add: snd_run_bind url_effect_def split: sum.splits)
  have "filter url_effect (snd (loadProviderRuntime H B ov importer v)) = [] \<or>
      filter url_effect (snd (loadProviderRuntime H B ov importer v)) =
        filter url_effect (snd (loadProviderModule ?D importer (runtime_part w)))"
    using Inr tail by (auto simp: loadProviderRuntime_def Let_def snd_run_bind split: sum.splits)
  then show ?thesis
    using load_effects [of ?D importer "runtime_part w"] Inr by (fastforce simp: Let_def)
qed (simp add: loadProviderRuntime_def)

lemma runtime_outcome:
  assumes "fst (loadProviderRuntime H B ov importer v) = Inr rt"
  obtains w provider where "validateLaunchEnvelopeBoundary H v = Inr w"
    "true_value (fld (capabilities_part w) ''requiresThreads'') \<longrightarrow> crossOriginIsolated (dispatcherEnvironment B ov)"
    "fst (loadProviderModule (dispatcherEnvironment B ov) importer (runtime_part w)) = Inr provider"
    "md_create provider w = Inr rt" "validatePlayerRuntime rt w = Inr rt"
proof -
  let ?D = "dispatcherEnvironment B ov"
  from assms obtain w where w: "validateLaunchEnvelopeBoundary H v = Inr w"
    by (auto simp: loadProviderRuntime_def split: sum.splits)
  with assms have t: "\<not> (true_value (fld (capabilities_part w) ''requiresThreads'') \<and> \<not> crossOriginIsolated ?D)"
    by (auto simp: loadProviderRuntime_def Let_def split: if_splits)
  obtain o1 u where l: "loadProviderModule ?D importer (runtime_part w) = (o1, u)" by force
  with assms w t obtain provider where p: "o1 = Inr provider"
    by (cases o1) (auto simp: loadProviderRuntime_def Let_def)
  with assms w t l obtain r where r: "md_create provider w = Inr r"
    by (cases "md_create provider w") (auto simp: loadProviderRuntime_def Let_def)
  with assms w t l p have "validatePlayerRuntime r w = Inr rt"
    by (auto simp: loadProviderRuntime_def Let_def)
  moreover from this have "r = rt"
    by (auto simp: validatePlayerRuntime_def split: created.splits if_splits sum.splits)
  ultimately show thesis using that w t l p r by auto
qed

definition capability_names :: "string list" where
  "capability_names = [''checkpoint'', ''contentLoading'', ''frameCounter'', ''frameMode'', ''inputFilter'',
     ''nativeSettings'', ''pause'', ''requiresThreads'', ''screenshot'', ''standardGamepad'', ''videoModes'', ''volume'']"

lemma array_eq:
  "is_array a \<Longrightarrow> is_array b \<Longrightarrow> stringArraysEqual a (array_items b) \<Longrightarrow> a = b"
proof -
  assume "is_array a" "is_array b" "stringArraysEqual a (array_items b)"
  then obtain xs ys where "a = Some (JArr xs)" "b = Some (JArr ys)" "length xs = length ys"
    "list_all (\<lambda>(v, w). v = w) (zip (map Some xs) (map Some ys))"
    by (auto simp: is_array_iff stringArraysEqual_def array_items_def)
  then show "a = b" by (auto simp: list_all_length list_eq_iff_nth_eq)
qed

lemma session_capabilities_equal:
  assumes "validSessionCapabilities (Some c) e" "is_array (fld e ''videoModes'')"
  shows "\<forall>k \<in> set capability_names. fld c k = fld e k"
proof -
  from assms(1) have s: "fld c ''contentLoading'' = fld e ''contentLoading''"
    "list_all (\<lambda>key. fld c key = fld e key) scalarKeys"
    and v: "stringArraysEqual (fld c ''videoModes'') (array_items (fld e ''videoModes''))"
    by (auto simp: validSessionCapabilities_def split: if_splits)
  from v have "is_array (fld c ''videoModes'')" by (simp add: stringArraysEqual_def)
  with v assms(2) have "fld c ''videoModes'' = fld e ''videoModes''" by (intro array_eq)
  with s show ?thesis by (simp add: capability_names_def scalarKeys_def)
qed

lemma accepted_video_modes:
  assumes "validateLaunchEnvelopeBoundary H v = Inr w"
  shows "is_array (fld (capabilities_part w) ''videoModes'')"
  using accepted_runtime(5) [OF accepted_envelope(6) [OF assms]]
  by (auto simp: capabilities_part_def runtime_part_def validCapabilities_def Let_def split: if_splits)

section \<open>A concrete load\<close>

definition example_module :: imported where
  "example_module = Module
     [(js ''providerId'', Value (jstr ''web'')), (js ''providerVersion'', Value (jstr ''1.2.3'')),
      (js ''providerApiVersion'', Value (JInt 1)), (js ''createRuntime'', Function),
      (js ''reclaimContentCache'', Function), (js ''inspectContentCache'', Function),
      (js ''clearContentCache'', Function)]
     (\<lambda>request. Inr (Runtime (map (\<lambda>n. (js n, Function)) runtime_methods)
        (Inr (Some (jstr ''CREATED''))) (Inr (Some example_capabilities))))
     (Inr JNull)"

definition example_browser :: browser where
  "example_browser = \<lparr>createObjectURL = (\<lambda>bytes. js ''blob:1''), global_isolated = False,
     global_fetch = (\<lambda>url. Some \<lparr>resp_ok = True, content_type = Some javascript_type,
       content_length = Some (js ''5''), resp_body = Some [Chunk [1, 2], Chunk [3, 4, 5]]\<rparr>),
     subtle_digest = (\<lambda>bytes. if bytes = [1, 2, 3, 4, 5] then Some (replicate 32 0xDD) else None)\<rparr>"

definition no_overrides :: overrides where
  "no_overrides = \<lparr>o_createModuleUrl = None, o_crossOriginIsolated = None, o_fetcher = None, o_sha256 = None\<rparr>"

definition example_importer :: "jsstr \<Rightarrow> imported option" where
  "example_importer u = (if u = js ''blob:1'' then Some example_module else None)"

lemma example_body:
  "readBoundedBody (Some [Chunk [1, 2], Chunk [3, 4, 5]]) maximumModuleBytes =
     (Inr [1, 2, 3, 4, 5], [ReaderLocked, ReaderReleased])"
proof -
  have r: "replicate 5 (0 :: byte) = [0, 0, 0, 0, 0]" by (simp add: numeral_eq_Suc)
  show ?thesis by (simp add: readBoundedBody_def maximumModuleBytes_def r set_at_def)
qed

lemma example_length: "rx_test decimal_rx (js ''5'')" "dec_value (js ''5'') = 5"
  by code_simp+

lemma example_length_good: "\<not> bad_length (Some (js ''5''))"
  by (simp add: bad_length_def example_length maximumModuleBytes_def)

lemma example_fetch:
  "fetchProviderModule (dispatcherEnvironment example_browser no_overrides) (example_runtime c) =
     (Inr [1, 2, 3, 4, 5], [Fetched (example_base @ js ''client.mjs''), ReaderLocked, ReaderReleased])"
proof -
  have "hex_byte 0xDD = [0x64, 0x64]" by (simp add: hex_byte_def hex_unit_def)
  then have "concat (map hex_byte (replicate 32 0xDD)) = replicate 64 0x64" by (simp add: numeral_eq_Suc)
  then have "Some (JStr (concat (map hex_byte (replicate 32 0xDD)))) = fld (example_runtime c) ''moduleSha256''"
    by (simp add: example_runtime_def fld_jo hex64_def)
  then show ?thesis
    by (simp add: fetchProviderModule_def fetch_try_def dispatcherEnvironment_def example_browser_def no_overrides_def
        example_body example_length_good example_length digestSha256_def example_runtime_def fld_jo string_of_def)
qed

lemma example_module_keys: "sort (map fst (md_members example_module)) = module_keys"
  by code_simp

lemma example_module_valid: "validateProviderModule example_module (example_runtime c) = Inr example_module"
  using example_module_keys
  by (simp add: validateProviderModule_def example_module_def member_value_def is_function_def js_inj
      example_runtime_def fld_jo)

lemma example_capability_keys:
  "exact_keys example_capabilities (capability_keys example_capabilities)"
  by code_simp

lemma example_player: "validatePlayerRuntime (Runtime (map (\<lambda>n. (js n, Function)) runtime_methods)
    (Inr (Some (jstr ''CREATED''))) (Inr (Some example_capabilities))) (example_envelope p example_capabilities) =
  Inr (Runtime (map (\<lambda>n. (js n, Function)) runtime_methods)
    (Inr (Some (jstr ''CREATED''))) (Inr (Some example_capabilities)))"
proof -
  have "list_all (is_function (map (\<lambda>n. (js n, Function)) runtime_methods)) runtime_methods"
    by (simp add: runtime_methods_def is_function_def js_inj)
  moreover have "capabilities_part (example_envelope p example_capabilities) = example_capabilities"
    by (simp add: capabilities_part_def runtime_part_def example_fields)
  moreover have "\<not> game_save (example_envelope p example_capabilities)"
    by (simp add: game_save_def runtime_part_def example_fields) (simp add: example_runtime_def fld_jo)
  moreover have "validSessionCapabilities (Some example_capabilities) example_capabilities"
    using example_capability_keys
    by (simp add: validSessionCapabilities_def list_all_iff stringArraysEqual_def zip_same_conv_map)
      (simp add: example_capabilities_def fld_jo is_array_def)
  ultimately show ?thesis by (simp add: validatePlayerRuntime_def)
qed

definition example_player_runtime :: created where
  "example_player_runtime = Runtime (map (\<lambda>n. (js n, Function)) runtime_methods)
     (Inr (Some (jstr ''CREATED''))) (Inr (Some example_capabilities))"

definition example_launch :: jval where
  "example_launch = example_envelope (jstr ''PRODUCT'') example_capabilities"

lemma example_load:
  "loadProviderRuntime example_host example_browser no_overrides example_importer (Some example_launch) =
     (Inr example_player_runtime,
      [Fetched (example_base @ js ''client.mjs''), ReaderLocked, ReaderReleased,
       Created (js ''blob:1'') [1, 2, 3, 4, 5], Imported (js ''blob:1''), Revoked (js ''blob:1''), CreateCalled])"
proof -
  have r: "runtime_part example_launch = example_runtime example_capabilities"
    by (simp add: runtime_part_def example_launch_def example_fields)
  have "capabilities_part example_launch = example_capabilities"
    using r by (simp add: capabilities_part_def example_fields)
  then have t: "\<not> true_value (fld (capabilities_part example_launch) ''requiresThreads'')"
    by (simp add: true_value_def example_capabilities_def fld_jo)
  have u: "createModuleUrl (dispatcherEnvironment example_browser no_overrides) bytes = js ''blob:1''" for bytes
    by (simp add: dispatcherEnvironment_def no_overrides_def example_browser_def)
  have c: "md_create example_module e = Inr example_player_runtime" for e
    by (simp add: example_module_def example_player_runtime_def)
  show ?thesis
    using example_accepted(1) r t example_player [of "jstr ''PRODUCT''"]
    by (simp add: loadProviderRuntime_def example_launch_def [symmetric] loadProviderModule_def Let_def example_fetch u
        example_importer_def example_module_valid c example_player_runtime_def [symmetric])
qed

section \<open>Properties\<close>

text \<open>
  C9. Only verified code runs: whenever loading a runtime imports a module address, that address was
  created from bytes that came from the envelope's \<open>moduleUrl\<close> with status ok and the JavaScript
  content type, have between 1 and 8 MiB, match a declared length, and hash to \<open>moduleSha256\<close>.
\<close>

theorem only_verified_modules_run:
  assumes "Imported u \<in> set (snd (loadProviderRuntime H B ov importer v))"
  shows "\<exists>w bytes. validateLaunchEnvelopeBoundary H v = Inr w \<and>
    verified (dispatcherEnvironment B ov) (runtime_part w) bytes \<and>
    u = createModuleUrl (dispatcherEnvironment B ov) bytes"
proof -
  from assms have i: "Imported u \<in> set (filter url_effect (snd (loadProviderRuntime H B ov importer v)))"
    by (simp add: url_effect_def)
  from runtime_effects [of H B ov importer v] show ?thesis
  proof
    assume "filter url_effect (snd (loadProviderRuntime H B ov importer v)) = []"
    with i have False by (metis empty_iff list.set(1))
    then show ?thesis ..
  next
    assume "\<exists>w bytes. validateLaunchEnvelopeBoundary H v = Inr w \<and>
      verified (dispatcherEnvironment B ov) (runtime_part w) bytes \<and>
      (let u = createModuleUrl (dispatcherEnvironment B ov) bytes in
       filter url_effect (snd (loadProviderRuntime H B ov importer v)) = [Created u bytes, Imported u, Revoked u])"
    then obtain w bytes where w: "validateLaunchEnvelopeBoundary H v = Inr w"
      "verified (dispatcherEnvironment B ov) (runtime_part w) bytes"
      "filter url_effect (snd (loadProviderRuntime H B ov importer v)) =
        [Created (createModuleUrl (dispatcherEnvironment B ov) bytes) bytes,
         Imported (createModuleUrl (dispatcherEnvironment B ov) bytes),
         Revoked (createModuleUrl (dispatcherEnvironment B ov) bytes)]"
      by (auto simp: Let_def)
    with i have "u = createModuleUrl (dispatcherEnvironment B ov) bytes" unfolding w(3) by simp
    with w show ?thesis by blast
  qed
qed

theorem only_verified_modules_run_witness:
  "\<exists>w bytes. validateLaunchEnvelopeBoundary example_host (Some example_launch) = Inr w \<and>
    verified (dispatcherEnvironment example_browser no_overrides) (runtime_part w) bytes \<and>
    js ''blob:1'' = createModuleUrl (dispatcherEnvironment example_browser no_overrides) bytes"
  by (rule only_verified_modules_run [of _ _ _ _ example_importer]) (simp add: example_load)

text \<open>
  No module address leaks: on every path, failures included, loading a runtime either touches no
  object URL at all, or creates exactly one, imports it and revokes it, in this order.
\<close>

theorem module_url_lifecycle:
  "filter url_effect (snd (loadProviderRuntime H B ov importer v)) = [] \<or>
   (\<exists>u bytes. filter url_effect (snd (loadProviderRuntime H B ov importer v)) =
      [Created u bytes, Imported u, Revoked u])"
  using runtime_effects [of H B ov importer v] by (auto simp: Let_def)

text \<open>
  The contract of a returned runtime: the envelope was accepted, thread support is there when it is
  required, the object has all the methods of the contract (and \<open>acknowledgeCheckpoint\<close> when the
  launch saves inside the game), its state is CREATED, and each of its capabilities equals the
  envelope's.
\<close>

theorem loaded_runtime_contract:
  assumes "fst (loadProviderRuntime H B ov importer v) = Inr rt"
  shows "\<exists>w ms c. validateLaunchEnvelopeBoundary H v = Inr w \<and>
    rt = Runtime ms (Inr (Some (JStr (js ''CREATED'')))) (Inr (Some c)) \<and>
    list_all (is_function ms) runtime_methods \<and>
    (game_save w \<longrightarrow> is_function ms ''acknowledgeCheckpoint'') \<and>
    (\<forall>k \<in> set capability_names. fld c k = fld (capabilities_part w) k) \<and>
    (fld (capabilities_part w) ''requiresThreads'' = Some (JBool True) \<longrightarrow>
       crossOriginIsolated (dispatcherEnvironment B ov))"
proof -
  from assms obtain w provider where w: "validateLaunchEnvelopeBoundary H v = Inr w"
    "true_value (fld (capabilities_part w) ''requiresThreads'') \<longrightarrow> crossOriginIsolated (dispatcherEnvironment B ov)"
    "validatePlayerRuntime rt w = Inr rt" by (rule runtime_outcome)
  from w(3) obtain ms caps where rt: "rt = Runtime ms (Inr (Some (JStr (js ''CREATED'')))) (Inr caps)"
    "list_all (is_function ms) runtime_methods" "game_save w \<longrightarrow> is_function ms ''acknowledgeCheckpoint''"
    "validSessionCapabilities caps (capabilities_part w)"
    by (auto simp: validatePlayerRuntime_def split: created.splits if_splits sum.splits)
  from rt(4) obtain c where c: "caps = Some c"
    by (auto simp: validSessionCapabilities_def is_record_iff split: if_splits)
  with rt(4) have "\<forall>k \<in> set capability_names. fld c k = fld (capabilities_part w) k"
    using session_capabilities_equal accepted_video_modes [OF w(1)] by blast
  with w rt c show ?thesis by (auto simp: true_value_def)
qed

theorem loaded_runtime_contract_witness:
  "\<exists>w ms c. validateLaunchEnvelopeBoundary example_host (Some example_launch) = Inr w \<and>
    example_player_runtime = Runtime ms (Inr (Some (JStr (js ''CREATED'')))) (Inr (Some c)) \<and>
    list_all (is_function ms) runtime_methods \<and>
    (game_save w \<longrightarrow> is_function ms ''acknowledgeCheckpoint'') \<and>
    (\<forall>k \<in> set capability_names. fld c k = fld (capabilities_part w) k) \<and>
    (fld (capabilities_part w) ''requiresThreads'' = Some (JBool True) \<longrightarrow>
       crossOriginIsolated (dispatcherEnvironment example_browser no_overrides))"
  by (rule loaded_runtime_contract [of _ _ _ example_importer]) (simp add: example_load)

text \<open>
  The bounded reader against its specification: it returns exactly the concatenation of the chunks
  of a stream that ends, when their total is within the limit, and nothing else.
\<close>

theorem bounded_body_spec:
  "fst (readBoundedBody body m) = Inr bytes \<longleftrightarrow>
     (\<exists>es. body = Some (map Chunk es) \<and> bytes = concat es \<and> length bytes \<le> m)"
  by (rule readBoundedBody_Inr)

text \<open>
  The digest text is faithful: two hashes have the same hexadecimal text only when they are equal,
  and the text of a 32-byte hash passes \<open>validDigest\<close>.
\<close>

theorem digest_text_faithful:
  "(concat (map hex_byte xs) = concat (map hex_byte ys) \<longleftrightarrow> xs = ys) \<and>
   (length xs \<noteq> 32 \<or> validDigest (Some (JStr (concat (map hex_byte xs)))))"
proof -
  have h: "d < 16 \<Longrightarrow> lower_hex (hex_unit d)" for d
    by (drule below_16) (auto simp: hex_unit_def lower_hex_def)
  have "lower_hex u" if "u \<in> set (hex_byte b)" for u b
    using that h unsigned_less [of b, where ?'a = nat] by (auto simp: hex_byte_def)
  then have "list_all lower_hex (concat (map hex_byte xs))" by (auto simp: list_all_iff)
  moreover have "length (concat (map hex_byte xs)) = 2 * length xs"
    by (induction xs) (simp_all add: hex_byte_def)
  ultimately show ?thesis
    using hex_text_inj [of xs ys] by (auto simp: validDigest_def digest_rx_iff)
qed

text \<open>
  Reclaiming a Provider's cache calls the Provider only for an accepted envelope, after importing the
  verified module, and only when the signal was not aborted before the load nor after it.
\<close>

theorem reclaim_after_checks:
  assumes "ReclaimCalled \<in> set (snd (reclaimProviderContentCache H B ov importer timeout request v))"
  shows "\<exists>w bytes. validateLaunchEnvelopeBoundary H v = Inr w \<and>
    verified (dispatcherEnvironment B ov) (runtime_part w) bytes \<and>
    \<not> any_signal timeout request 0 \<and> \<not> any_signal timeout request 1"
proof -
  let ?D = "dispatcherEnvironment B ov"
  from assms obtain w where w: "validateLaunchEnvelopeBoundary H v = Inr w" and a0: "\<not> any_signal timeout request 0"
    by (auto simp: reclaimProviderContentCache_def throwIfAborted_def Let_def split: sum.splits if_splits)
  obtain o1 t where l: "loadProviderModule ?D importer (runtime_part w) = (o1, t)" by force
  have nt: "ReclaimCalled \<notin> set t"
  proof -
    have "ReclaimCalled \<notin> set (snd (fetchProviderModule ?D (runtime_part w)))"
      using fetch_effects [of ?D "runtime_part w"] by auto
    then have "ReclaimCalled \<notin> set (snd (loadProviderModule ?D importer (runtime_part w)))"
      by (auto simp: loadProviderModule_def snd_run_bind Let_def split: sum.splits)
    with l show ?thesis by simp
  qed
  from assms w a0 l nt obtain provider where p: "o1 = Inr provider"
    by (cases o1) (auto simp: reclaimProviderContentCache_def throwIfAborted_def Let_def)
  with assms w a0 l nt have "\<not> any_signal timeout request 1"
    by (auto simp: reclaimProviderContentCache_def throwIfAborted_def Let_def split: if_splits)
  moreover from l p have "fst (loadProviderModule ?D importer (runtime_part w)) = Inr provider" by simp
  then obtain bytes where "verified ?D (runtime_part w) bytes" using load_Inr by blast
  ultimately show ?thesis using w a0 by blast
qed

theorem reclaim_after_checks_witness:
  "\<exists>w bytes. validateLaunchEnvelopeBoundary example_host (Some example_launch) = Inr w \<and>
    verified (dispatcherEnvironment example_browser no_overrides) (runtime_part w) bytes \<and>
    \<not> any_signal (\<lambda>n. False) None 0 \<and> \<not> any_signal (\<lambda>n. False) None 1"
proof (rule reclaim_after_checks [of _ _ _ example_importer])
  have r: "runtime_part example_launch = example_runtime example_capabilities"
    by (simp add: runtime_part_def example_launch_def example_fields)
  have u: "createModuleUrl (dispatcherEnvironment example_browser no_overrides) bytes = js ''blob:1''" for bytes
    by (simp add: dispatcherEnvironment_def no_overrides_def example_browser_def)
  show "ReclaimCalled \<in> set (snd (reclaimProviderContentCache example_host example_browser no_overrides
      example_importer (\<lambda>n. False) None (Some example_launch)))"
    using example_accepted(1) r
    by (simp add: reclaimProviderContentCache_def example_launch_def [symmetric] throwIfAborted_def any_signal_def
        loadProviderModule_def Let_def example_fetch u example_importer_def example_module_valid snd_run_bind)
qed

end
