(* ===== verification/Launch_Properties.thy ===== *)
theory Launch_Properties
  imports Envelope_Laws
begin

text \<open>
  The properties of the launch boundary: the strict JSON reader of \<open>canonical-json.ts\<close> and the
  envelope check of \<open>envelope.ts\<close>.
\<close>

section \<open>The strict JSON reader\<close>

text \<open>
  C2. Reading back: for every canonical value (safe integers, well-formed text, no repeated key, no
  \<open>__proto__\<close> key), \<open>parseCanonicalJSON(JSON.stringify(v))\<close> returns exactly \<open>v\<close>.
\<close>

theorem json_read_back:
  assumes "storable v"
  shows "parse_canonical_json (stringify v) = Inr v"
  using assms by (rule parse_stringify)

theorem json_read_back_witness:
  "parse_canonical_json (stringify (jobj [([0x61], JArr [JInt 7, JNull]), ([0x62, 0x22], JStr [0xD83D, 0xDE00])])) =
     Inr (jobj [([0x61], JArr [JInt 7, JNull]), ([0x62, 0x22], JStr [0xD83D, 0xDE00])])"
  by (rule json_read_back)
    (simp add: safe_integer_def max_safe_def high_surrogate_def low_surrogate_def amap_ok_def amap_keys_def
      proto_key_def js_eval)

text \<open>
  C18. The reader always answers, and what it accepts is canonical: every number is a safe integer,
  every string and key is well-formed UTF-16 and no object repeats an own key.
\<close>

theorem json_total_canonical:
  "case parse_canonical_json s of Inl e \<Rightarrow> e = Syntax | Inr v \<Rightarrow> canonical v"
proof (cases "parse_canonical_json s")
  case (Inl e)
  then show ?thesis using parse_total [of s] by (cases e) auto
qed (simp add: parse_canonical)

text \<open>
  An object text in which a key occurs twice is refused, wherever the occurrences stand.
\<close>

theorem json_repeated_key:
  assumes "list_all (\<lambda>(k, v). utf16_ok k \<and> k \<noteq> proto_key \<and> storable v) ps" "\<not> distinct (map fst ps)"
  shows "parse_canonical_json (stringify (jobj ps)) = Inl Syntax"
  using assms by (rule parse_repeated_key)

theorem json_repeated_key_witness:
  "parse_canonical_json (stringify (jobj [([0x61], JInt 1), ([0x62], JNull), ([0x61], JInt 2)])) = Inl Syntax"
  by (rule json_repeated_key)
    (simp_all add: safe_integer_def max_safe_def high_surrogate_def low_surrogate_def proto_key_def js_eval)

text \<open>
  The one key for which the refusal of repeated keys fails: an assignment to \<open>__proto__\<close> reaches the
  accessor of the prototype, so \<open>{"__proto__":1,"__proto__":2}\<close> is accepted as the empty
  object and both values are lost.
\<close>

theorem json_proto_key_lost:
  "parse_canonical_json (stringify (jobj [(proto_key, JInt 1), (proto_key, JInt 2)])) = Inr (jobj [])"
  by code_simp

section \<open>The envelope\<close>

text \<open>
  C1. Type soundness of the boundary: an accepted envelope is the value given, and it belongs to the
  type \<open>LaunchEnvelopeV1\<close> the code casts it to, provided that the four fields checked through
  \<open>String(...)\<close> are strings and the capabilities have no replaced prototype.
\<close>

theorem envelope_is_typed:
  assumes "validateLaunchEnvelopeBoundary H v = Inr w" "plain_unions w"
  shows "v = Some w \<and> LaunchEnvelopeV1 (Some w)"
  using accepted_envelope(1) [OF assms(1)] envelope_type [OF assms] by simp

theorem envelope_is_typed_witness:
  "LaunchEnvelopeV1 (Some (example_envelope (jstr ''PRODUCT'') example_capabilities))"
  using envelope_is_typed [OF example_accepted(1) example_plain] by simp

text \<open>
  The proviso of type soundness is needed: an envelope whose \<open>session.purpose\<close> is the array
  \<open>["PRODUCT"]\<close> is accepted and returned as a \<open>LaunchEnvelopeV1\<close>, which it is not.
\<close>

theorem envelope_coerced_purpose:
  "validateLaunchEnvelopeBoundary example_host (Some (example_envelope coerced_purpose example_capabilities)) =
     Inr (example_envelope coerced_purpose example_capabilities) \<and>
   \<not> LaunchEnvelopeV1 (Some (example_envelope coerced_purpose example_capabilities))"
  using example_accepted(2)
  by (simp add: LaunchEnvelopeV1_def example_fields SessionV1_def example_session_def fld_jo RuntimePurposeV1_def
      ts_lit_def coerced_purpose_def)

text \<open>
  C16. Reading an envelope from text fails only with \<open>PLAYER_LAUNCH_ENVELOPE_INVALID\<close>; when it
  succeeds the value is canonical and passes the boundary check unchanged.
\<close>

theorem parse_envelope_outcome:
  "case parseLaunchEnvelopeJSON H s of
     Inl e \<Rightarrow> e = PlayerRuntimeError PLAYER_LAUNCH_ENVELOPE_INVALID
   | Inr w \<Rightarrow> canonical w \<and> validateLaunchEnvelopeBoundary H (Some w) = Inr w"
proof (cases "parse_canonical_json s")
  case (Inr v)
  then show ?thesis
    using parse_canonical [OF Inr] accepted_envelope(1) [of H "Some v"]
    by (auto simp: parseLaunchEnvelopeJSON_def split: sum.splits)
qed (simp add: parseLaunchEnvelopeJSON_def)

text \<open>
  Resources of an accepted envelope: at most 128, no two share role and ordinal, and the
  ordinals of each role, in list order, are 0, 1, 2, and so on.
\<close>

theorem resources_are_numbered:
  assumes "validateLaunchEnvelopeBoundary H v = Inr w"
  shows "\<exists>items. fld w ''resources'' = Some (JArr items) \<and> length items \<le> 128 \<and>
    distinct (map (\<lambda>item. (role_of item, ordinal_of item)) items) \<and>
    (\<forall>role. map ordinal_of (filter (\<lambda>item. role_of item = role) items) =
       map int [0..<length (filter (\<lambda>item. role_of item = role) items)])"
  using assms by (rule accepted_resources) (use resources_law in blast)

theorem resources_are_numbered_witness:
  "\<exists>items. fld (example_envelope (jstr ''PRODUCT'') example_capabilities) ''resources'' = Some (JArr items) \<and>
     length items \<le> 128 \<and> distinct (map (\<lambda>item. (role_of item, ordinal_of item)) items) \<and>
     (\<forall>role. map ordinal_of (filter (\<lambda>item. role_of item = role) items) =
        map int [0..<length (filter (\<lambda>item. role_of item = role) items)])"
  by (rule resources_are_numbered [OF example_accepted(1)])

text \<open>
  The module of an accepted envelope is always the file \<open>client.mjs\<close> of its Provider's own
  bundle directory (or its development directory): the Provider identity is a lower-case word
  without a slash, the digests are 64 hexadecimal digits, and the address is put together from them.
\<close>

theorem module_in_bundle:
  assumes "validateLaunchEnvelopeBoundary H v = Inr w"
  shows "\<exists>r id sha msha base.
    fld w ''runtime'' = Some r \<and> fld r ''moduleUrl'' = Some (JStr (base @ js ''client.mjs'')) \<and>
    base \<in> {js ''/runtime/providers/'' @ id @ js ''/'' @ sha @ js ''/'',
            js ''/runtime/providers/'' @ id @ js ''/'' @ sha @ js ''/'' @ js ''dev/'' @ msha @ js ''/''} \<and>
    id \<noteq> [] \<and> length id \<le> 64 \<and> list_all (\<lambda>u. alnum u \<or> u = 0x2D) id \<and>
    length sha = 64 \<and> list_all lower_hex sha \<and> length msha = 64 \<and> list_all lower_hex msha"
proof -
  note e = accepted_envelope [OF assms]
  note r = accepted_runtime [OF e(6)]
  obtain o1 where o1: "fld w ''runtime'' = Some o1" using r(1) by (auto simp: is_record_iff)
  obtain id where id: "fld o1 ''providerId'' = Some (JStr id)" "rx_test identity_rx id"
    using r(3) o1 by (auto simp: validRuntimeIdentity_def validIdentity_def split: option.splits jval.splits)
  obtain sha where sha: "fld o1 ''bundleSha256'' = Some (JStr sha)" "rx_test digest_rx sha"
    using r(4) o1 by (auto simp: validRuntimeDigests_def validDigest_def split: option.splits jval.splits)
  obtain msha where msha: "fld o1 ''moduleSha256'' = Some (JStr msha)" "rx_test digest_rx msha"
    using r(4) o1 by (auto simp: validRuntimeDigests_def validDigest_def split: option.splits jval.splits)
  note word = id(2) [unfolded identity_rx_iff]
  have "list_all (\<lambda>u. alnum u \<or> u = 0x2D) id"
  proof -
    have "1 \<le> length id" using word by simp
    then obtain c t where c: "id = c # t" by (cases id) auto
    then have "t = [] \<or> t = butlast t @ [last id]" by (cases t rule: rev_cases) auto
    then have "set t \<subseteq> set (butlast t) \<union> {last id}"
      by (metis Un_iff empty_iff list.set(1) list.simps(15) set_append subsetI)
    with word c show ?thesis by (auto simp: list_all_iff)
  qed
  moreover have "id \<noteq> []" "length id \<le> 64" using word by auto
  moreover obtain base where "fld o1 ''moduleUrl'' = Some (JStr (base @ js ''client.mjs''))"
    "base \<in> {provider_base o1, provider_base o1 @ js ''dev/'' @ msha @ js ''/''}"
    using module_urls [OF accepted_body(1) [OF e(7)]] o1 msha(1) by (auto simp: string_of_def)
  ultimately show ?thesis
    using o1 id(1) sha msha
    by (intro exI [of _ o1] exI [of _ id] exI [of _ sha] exI [of _ msha] exI [of _ base])
      (simp add: provider_base_def string_of_def digest_rx_iff)
qed

theorem module_in_bundle_witness:
  "\<exists>r id sha msha base.
    fld (example_envelope (jstr ''PRODUCT'') example_capabilities) ''runtime'' = Some r \<and>
    fld r ''moduleUrl'' = Some (JStr (base @ js ''client.mjs'')) \<and>
    base \<in> {js ''/runtime/providers/'' @ id @ js ''/'' @ sha @ js ''/'',
            js ''/runtime/providers/'' @ id @ js ''/'' @ sha @ js ''/'' @ js ''dev/'' @ msha @ js ''/''} \<and>
    id \<noteq> [] \<and> length id \<le> 64 \<and> list_all (\<lambda>u. alnum u \<or> u = 0x2D) id \<and>
    length sha = 64 \<and> list_all lower_hex sha \<and> length msha = 64 \<and> list_all lower_hex msha"
  by (rule module_in_bundle [OF example_accepted(1)])

text \<open>
  The bridge script of every web resource of an accepted envelope lies under the \<open>assets\<close>
  directory of the Provider's base address: no segment is empty, a dot or a double dot, so the path
  cannot leave it, and the file is \<open>bridge.js\<close>.
\<close>

theorem bridge_in_assets:
  assumes "validateLaunchEnvelopeBoundary H v = Inr w" "fld w ''resources'' = Some (JArr items)" "item \<in> set items"
    and "fld item ''kind'' \<in> {Some (JStr (js ''NATIVE_WEB'')), Some (JStr (js ''ISOLATED_WEB''))}"
  shows "\<exists>base ws. fld (the (fld w ''runtime'')) ''runtimeBaseUrl'' = Some (JStr base) \<and>
    string_of (fld item ''bridgeUrl'') = base @ join_with [0x2F] (js ''assets'' # ws) \<and> ws \<noteq> [] \<and>
    last ws = js ''bridge.js'' \<and> list_all safe_segment ws"
proof -
  note b = accepted_body [OF accepted_envelope(7) [OF assms(1)]]
  obtain base where base: "fld (the (fld w ''runtime'')) ''runtimeBaseUrl'' = Some (JStr base)"
    using module_urls [OF b(1)] by blast
  have "validResourceBridge H base (Some item) = Some True"
    using b(3) assms(2,3) base by (simp add: validResourceBridges_def array_items_def string_of_def)
  from bridge_law [OF this assms(4)] base show ?thesis by simp
qed

theorem bridge_in_assets_witness:
  "\<exists>base ws. fld (the (fld (example_envelope (jstr ''PRODUCT'') example_capabilities) ''runtime'')) ''runtimeBaseUrl'' =
      Some (JStr base) \<and>
    string_of (fld example_resource ''bridgeUrl'') = base @ join_with [0x2F] (js ''assets'' # ws) \<and> ws \<noteq> [] \<and>
    last ws = js ''bridge.js'' \<and> list_all safe_segment ws"
  by (rule bridge_in_assets [OF example_accepted(1), of "[example_resource]"])
    (simp_all add: example_fields example_resource_def fld_jo jstr_def)

text \<open>
  A restore descriptor in an accepted envelope implies a checkpoint contract: the capability is
  declared, the descriptor's format is one the runtime reads, and its size is positive and within
  the contract's limit.
\<close>

theorem restore_fits_checkpoint:
  assumes "validateLaunchEnvelopeBoundary H v = Inr w" "fld w ''restore'' \<noteq> Some JNull"
  shows "\<exists>r d c n m. fld w ''runtime'' = Some r \<and> fld w ''restore'' = Some d \<and> fld r ''checkpoint'' = Some c \<and>
    c \<noteq> JNull \<and> fld (the (fld r ''capabilities'')) ''checkpoint'' = Some (JBool True) \<and>
    fld d ''format'' \<in> set (array_items (fld c ''readFormats'')) \<and> validToken (fld d ''format'') \<and>
    fld d ''sizeBytes'' = Some (JInt n) \<and> fld c ''maxBytes'' = Some (JInt m) \<and> 0 < n \<and> n \<le> m"
proof -
  note e = accepted_envelope [OF assms(1)]
  note r = accepted_runtime [OF e(6)]
  note b = accepted_body [OF e(7)]
  obtain o1 where o1: "fld w ''runtime'' = Some o1" using r(1) by (auto simp: is_record_iff)
  from b(5) assms(2) o1 have restore: "is_record (fld o1 ''checkpoint'')" "is_record (fld w ''restore'')"
    "fld (the (fld w ''restore'')) ''format'' \<in> set (array_items (fld (the (fld o1 ''checkpoint'')) ''readFormats''))"
    "positiveInteger (fld (the (fld w ''restore'')) ''sizeBytes'')"
    "number_le (fld (the (fld w ''restore'')) ''sizeBytes'') (fld (the (fld o1 ''checkpoint'')) ''maxBytes'')"
    by (auto simp: validRestore_def)
  obtain c where c: "fld o1 ''checkpoint'' = Some c" "c \<noteq> JNull" using restore(1) by (auto simp: is_record_iff)
  obtain d where d: "fld w ''restore'' = Some d" using restore(2) by (auto simp: is_record_iff)
  have enabled: "true_value (fld (the (fld o1 ''capabilities'')) ''checkpoint'')"
    and max: "positiveInteger (fld c ''maxBytes'')"
    using r(6) c o1 by (auto simp: validCheckpoint_def Let_def split: if_splits)
  have token: "validToken (fld d ''format'')"
    using checkpoint_formats [OF r(6)] o1 c d restore(1,3) by simp
  obtain n m where nm: "fld d ''sizeBytes'' = Some (JInt n)" "0 < n" "fld c ''maxBytes'' = Some (JInt m)"
    using restore(4) max d by (auto simp: positiveInteger_iff)
  with restore(5) c d have "n \<le> m" by (simp add: number_le_def)
  with o1 c d enabled restore(3) token nm show ?thesis by (auto simp: true_value_def)
qed

theorem restore_fits_checkpoint_witness:
  "\<exists>r d c n m. fld (example_envelope (jstr ''PRODUCT'') example_capabilities) ''runtime'' = Some r \<and>
    fld (example_envelope (jstr ''PRODUCT'') example_capabilities) ''restore'' = Some d \<and> fld r ''checkpoint'' = Some c \<and>
    c \<noteq> JNull \<and> fld (the (fld r ''capabilities'')) ''checkpoint'' = Some (JBool True) \<and>
    fld d ''format'' \<in> set (array_items (fld c ''readFormats'')) \<and> validToken (fld d ''format'') \<and>
    fld d ''sizeBytes'' = Some (JInt n) \<and> fld c ''maxBytes'' = Some (JInt m) \<and> 0 < n \<and> n \<le> m"
  by (rule restore_fits_checkpoint [OF example_accepted(1)]) (simp add: example_envelope_def fld_jo)

text \<open>
  \<open>wellFormed\<close> against well-formed UTF-16: it accepts exactly the well-formed strings and,
  beyond them, those that end in one lone high surrogate after a well-formed prefix.
\<close>

theorem wellFormed_accepts:
  "wellFormed s \<longleftrightarrow> utf16_ok s \<or> (\<exists>t h. s = t @ [h] \<and> utf16_ok t \<and> high_surrogate h)"
  by (rule wellFormed_cases)

text \<open>
  \<open>safePath\<close> accepts exactly the relative paths of at most the given length whose
  segments are proper names: joined by single slashes, none empty, a dot or a double dot, none with a
  backslash or a control character.
\<close>

theorem safePath_accepts:
  "safePath (Some (JStr s)) m \<longleftrightarrow>
     length s \<le> m \<and> (\<exists>ws. ws \<noteq> [] \<and> s = join_with [0x2F] ws \<and> list_all safe_segment ws)"
  by (rule safePath_segments)

text \<open>
  The two boundary checks agree: the module reference contained in the runtime part of any
  accepted envelope is accepted by \<open>validateProviderModuleReference\<close>.
\<close>

theorem envelope_reference_accepted:
  assumes "validateLaunchEnvelopeBoundary H v = Inr w"
  shows "validateProviderModuleReference (Some (reference_of (the (fld w ''runtime'')))) =
    Inr (reference_of (the (fld w ''runtime'')))"
  using accepted_runtime(3,4) [OF accepted_envelope(6) [OF assms]] accepted_body(1) [OF accepted_envelope(7) [OF assms]]
  by (rule reference_law)

theorem envelope_reference_accepted_witness:
  "validateProviderModuleReference (Some (reference_of (example_runtime example_capabilities))) =
    Inr (reference_of (example_runtime example_capabilities))"
  using envelope_reference_accepted [OF example_accepted(1)] by (simp add: example_fields)

end
