(* ===== verification/Runtime_Frames.thy ===== *)
theory Runtime_Frames
  imports Provider_Contract
begin

text \<open>
  The frames of a runtime: \<open>blank-frame.ts\<close> and \<open>isolated-frame.ts\<close> (the promises as
  event-driven machines), and \<open>mountFrame\<close> with its abort handler in \<open>runtime-host.ts\<close>
  (a step relation over all the frames of one host).
\<close>

section \<open>prepareBlankFrame\<close>

datatype settled = Pending | Resolved | Rejected thrown

record blank_frame =
  bf_promise :: settled
  bf_timer :: bool
  bf_listening :: bool
  bf_attached :: bool
  bf_src :: jsstr

datatype blank_event = Loaded | LoadFailed | Aborted | TimedOut

definition blank_start :: blank_frame where
  "blank_start = \<lparr>bf_promise = Pending, bf_timer = True, bf_listening = True, bf_attached = True,
     bf_src = js ''about:blank''\<rparr>"

text \<open>\<open>finish(error?)\<close>: the timer and the three listeners go; an error removes the frame. A settled
  promise keeps its first outcome.\<close>

definition settle :: "settled \<Rightarrow> settled \<Rightarrow> settled" where
  "settle old new = (if old = Pending then new else old)"

definition blank_finish :: "thrown option \<Rightarrow> blank_frame \<Rightarrow> blank_frame" where
  "blank_finish err s =
     (let t = s\<lparr>bf_timer := False, bf_listening := False\<rparr> in
      case err of
        Some e \<Rightarrow> t\<lparr>bf_attached := False, bf_promise := settle (bf_promise s) (Rejected e)\<rparr>
      | None \<Rightarrow> t\<lparr>bf_promise := settle (bf_promise s) Resolved\<rparr>)"

text \<open>An event reaches its handler while the listener (or the timer) is there.\<close>

fun blank_step :: "blank_frame \<Rightarrow> blank_event \<Rightarrow> blank_frame" where
  "blank_step s Loaded = (if bf_listening s then blank_finish None s else s)"
| "blank_step s LoadFailed =
     (if bf_listening s then blank_finish (Some (OtherError ''PLAYER_RUNTIME_FRAME_INVALID'')) s else s)"
| "blank_step s Aborted = (if bf_listening s then blank_finish (Some AbortError) s else s)"
| "blank_step s TimedOut =
     (if bf_timer s then blank_finish (Some (OtherError ''PLAYER_RUNTIME_FRAME_TIMEOUT'')) s else s)"

definition prepareBlankFrame :: "bool \<Rightarrow> blank_event list \<Rightarrow> thrown + blank_frame" where
  "prepareBlankFrame aborted events =
     (if aborted then Inl AbortError else Inr (foldl blank_step blank_start events))"

definition blank_outcome :: "blank_event \<Rightarrow> settled" where
  "blank_outcome e = (case e of
       Loaded \<Rightarrow> Resolved
     | LoadFailed \<Rightarrow> Rejected (OtherError ''PLAYER_RUNTIME_FRAME_INVALID'')
     | Aborted \<Rightarrow> Rejected AbortError
     | TimedOut \<Rightarrow> Rejected (OtherError ''PLAYER_RUNTIME_FRAME_TIMEOUT''))"

lemma blank_settled_stays:
  "\<not> bf_timer s \<Longrightarrow> \<not> bf_listening s \<Longrightarrow> foldl blank_step s es = s"
proof (induction es)
  case (Cons e es)
  then show ?case by (cases e) auto
qed simp

lemma blank_first_event:
  "foldl blank_step blank_start (e # es) =
     \<lparr>bf_promise = blank_outcome e, bf_timer = False, bf_listening = False, bf_attached = (e = Loaded),
      bf_src = js ''about:blank''\<rparr>"
  by (cases e) (simp_all add: blank_start_def blank_finish_def settle_def blank_outcome_def blank_settled_stays)

section \<open>prepareIsolatedFrame\<close>

text \<open>What the fetch of the bridge script yields: a rejection, a status, or a text.\<close>

datatype bridge_fetch = BridgeRejected thrown | BridgeStatus bool "thrown + jsstr"

record isolated_config =
  ic_parentOrigin :: jsstr
  ic_runId :: jsstr
  ic_entryFile :: jsstr
  ic_bridge :: jsstr

record isolated_frame =
  if_promise :: settled
  if_timer :: bool
  if_listening :: bool
  if_posted :: "(nat option \<times> isolated_config \<times> jsstr) list"
  if_src :: jsstr

record message =
  msg_source :: "nat option"
  msg_origin :: jsstr
  msg_data :: "jval option"

datatype isolated_event = Message message | IAborted | ITimedOut

definition ready_message :: "jval option \<Rightarrow> bool" where
  "ready_message data =
     (case data of
        Some v \<Rightarrow> fld v ''type'' = Some (JStr (js ''RETROM_ISOLATION_READY''))
      | None \<Rightarrow> False)"

definition isolated_finish :: "thrown option \<Rightarrow> isolated_frame \<Rightarrow> isolated_frame" where
  "isolated_finish err s =
     s\<lparr>if_timer := False, if_listening := False,
       if_promise := settle (if_promise s) (case err of Some e \<Rightarrow> Rejected e | None \<Rightarrow> Resolved)\<rparr>"

text \<open>
  \<open>receive\<close>: the message must come from the frame's own window and the resource's origin. The window
  is \<open>None\<close> when the frame is not in a document; nothing is posted then.
\<close>

definition isolated_receive ::
  "nat option \<Rightarrow> jsstr \<Rightarrow> isolated_config \<Rightarrow> message \<Rightarrow> isolated_frame \<Rightarrow> isolated_frame" where
  "isolated_receive window origin config m s =
     (if msg_source m \<noteq> window \<or> msg_origin m \<noteq> origin \<or> \<not> ready_message (msg_data m) then s
      else isolated_finish None
        (if window = None then s else s\<lparr>if_posted := if_posted s @ [(window, config, origin)]\<rparr>))"

fun isolated_step ::
  "nat option \<Rightarrow> jsstr \<Rightarrow> isolated_config \<Rightarrow> isolated_frame \<Rightarrow> isolated_event \<Rightarrow> isolated_frame" where
  "isolated_step window origin config s (Message m) =
     (if if_listening s then isolated_receive window origin config m s else s)"
| "isolated_step window origin config s IAborted =
     (if if_listening s then isolated_finish (Some AbortError) s else s)"
| "isolated_step window origin config s ITimedOut =
     (if if_timer s then isolated_finish (Some (OtherError ''PLAYER_RUNTIME_FRAME_TIMEOUT'')) s else s)"

definition isolation_shell :: "jsstr \<Rightarrow> jsstr" where
  "isolation_shell runId = js ''/__retrom/runtime-isolation/'' @ runId @ js ''/shell.html''"

definition prepareIsolatedFrame ::
  "host \<Rightarrow> jsstr \<Rightarrow> jval \<Rightarrow> jval \<Rightarrow> bridge_fetch \<Rightarrow> nat option \<Rightarrow> isolated_event list \<Rightarrow> thrown + isolated_frame" where
  "prepareIsolatedFrame H location envelope resource fetched window events =
     (let field = (\<lambda>v n. (case fld v n of Some (JStr s) \<Rightarrow> s | _ \<Rightarrow> []));
          runId = field (the (fld envelope ''session'')) ''id'';
          origin = field resource ''origin'' in
      case new_URL H (isolation_shell runId) (Some origin) of
        None \<Rightarrow> Inl TypeError
      | Some url \<Rightarrow>
          (case fetched of
             BridgeRejected e \<Rightarrow> Inl e
           | BridgeStatus ok text \<Rightarrow>
               if \<not> ok then Inl (OtherError ''PLAYER_RUNTIME_BRIDGE_UNAVAILABLE'')
               else (case text of
                 Inl e \<Rightarrow> Inl e
               | Inr bridge \<Rightarrow>
                   if 2 * 1024 * 1024 < length bridge then Inl (OtherError ''PLAYER_RUNTIME_BRIDGE_INVALID'')
                   else Inr (foldl (isolated_step window origin
                     \<lparr>ic_parentOrigin = location, ic_runId = runId, ic_entryFile = field resource ''entryFile'',
                      ic_bridge = bridge\<rparr>)
                     \<lparr>if_promise = Pending, if_timer = True, if_listening = True, if_posted = [],
                      if_src = url_href url\<rparr> events))))"

definition waiting_frame :: "isolated_frame \<Rightarrow> bool" where
  "waiting_frame s \<longleftrightarrow> if_promise s = Pending \<and> if_timer s \<and> if_listening s \<and> if_posted s = []"

definition quiet_frame :: "nat option \<Rightarrow> jsstr \<Rightarrow> isolated_config \<Rightarrow> isolated_frame \<Rightarrow> bool" where
  "quiet_frame window origin config s \<longleftrightarrow> if_promise s \<noteq> Pending \<and> \<not> if_timer s \<and> \<not> if_listening s \<and>
     if_posted s \<in> {[], [(window, config, origin)]} \<and>
     (if_posted s \<noteq> [] \<longrightarrow> if_promise s = Resolved) \<and> (if_promise s = Resolved \<and> window \<noteq> None \<longrightarrow> if_posted s \<noteq> [])"

lemma isolated_step_inv:
  "waiting_frame s \<or> quiet_frame w og c s \<Longrightarrow>
     waiting_frame (isolated_step w og c s e) \<or> quiet_frame w og c (isolated_step w og c s e)"
  by (cases e) (auto simp: waiting_frame_def quiet_frame_def isolated_receive_def isolated_finish_def settle_def)

lemma isolated_run_inv:
  "waiting_frame s \<or> quiet_frame w og c s \<Longrightarrow>
     waiting_frame (foldl (isolated_step w og c) s es) \<or> quiet_frame w og c (foldl (isolated_step w og c) s es)"
  by (induction es arbitrary: s) (use isolated_step_inv in auto)

lemma isolated_posted_source:
  "if_posted (foldl (isolated_step w og c) s es) \<noteq> if_posted s \<Longrightarrow>
     \<exists>m. Message m \<in> set es \<and> msg_source m = w \<and> msg_origin m = og \<and> ready_message (msg_data m)"
proof (induction es arbitrary: s)
  case (Cons e es)
  show ?case
  proof (cases "if_posted (isolated_step w og c s e) = if_posted s")
    case True
    with Cons show ?thesis by fastforce
  next
    case False
    then show ?thesis
      by (cases e) (auto simp: isolated_receive_def isolated_finish_def split: if_splits)
  qed
qed simp

section \<open>The frames of a host\<close>

text \<open>
  One host: whether its signal is aborted, the set \<open>frames\<close> it keeps, the frames that are in the
  document, and the mounts that wait for a frame to become ready.
\<close>

record frame_host =
  fh_aborted :: bool
  fh_frames :: "nat set"
  fh_attached :: "nat set"
  fh_waiting :: "nat set"
  fh_next :: nat

definition host_start :: frame_host where
  "host_start = \<lparr>fh_aborted = False, fh_frames = {}, fh_attached = {}, fh_waiting = {}, fh_next = 0\<rparr>"

text \<open>The kinds of a mount request, as \<open>mountFrame\<close> decides them.\<close>

datatype mount_kind = BlankMount | WebMount | InvalidMount

definition is_web_resource :: "jval \<Rightarrow> bool" where
  "is_web_resource r \<longleftrightarrow> fld r ''kind'' = Some (JStr (js ''NATIVE_WEB'')) \<or> fld r ''kind'' = Some (JStr (js ''ISOLATED_WEB''))"

definition find_resource :: "jval list \<Rightarrow> jsstr option \<Rightarrow> jval option" where
  "find_resource resources role =
     find (\<lambda>item. fld item ''role'' = Some (case role of Some s \<Rightarrow> JStr s | None \<Rightarrow> JNull) \<and>
       fld item ''ordinal'' = Some (JInt 0)) resources"

definition mount_kind :: "jval list \<Rightarrow> jval option \<Rightarrow> jsstr \<Rightarrow> jsstr option \<Rightarrow> mount_kind" where
  "mount_kind resources frameMode location role =
     (if role = None \<and> frameMode = Some (JStr (js ''SAME_ORIGIN_BLANK'')) then BlankMount
      else case find_resource resources role of
        None \<Rightarrow> InvalidMount
      | Some r \<Rightarrow>
          if \<not> is_web_resource r \<or> fld r ''origin'' = Some (JStr location) then InvalidMount else WebMount)"

text \<open>
  The synchronous part of \<open>mountFrame\<close>: the frame joins \<open>frames\<close> and the document; an invalid
  resource throws with the frame left in both. \<open>None\<close>: the call threw because the signal was aborted.
\<close>

definition mount_begin :: "mount_kind \<Rightarrow> frame_host \<Rightarrow> frame_host option" where
  "mount_begin kind s =
     (if fh_aborted s then None
      else let f = fh_next s;
               t = s\<lparr>fh_next := Suc f, fh_frames := insert f (fh_frames s), fh_attached := insert f (fh_attached s)\<rparr>
           in Some (if kind = InvalidMount then t else t\<lparr>fh_waiting := insert f (fh_waiting s)\<rparr>))"

text \<open>The abort listener of the host runs once; the listeners of the waiting mounts reject them.\<close>

definition host_abort :: "frame_host \<Rightarrow> frame_host" where
  "host_abort s =
     (if fh_aborted s then s
      else s\<lparr>fh_aborted := True, fh_attached := fh_attached s - fh_frames s, fh_frames := {}, fh_waiting := {}\<rparr>)"

inductive host_step :: "frame_host \<Rightarrow> frame_host \<Rightarrow> bool" where
  mount: "mount_begin kind s = Some t \<Longrightarrow> host_step s t"
| ready: "f \<in> fh_waiting s \<Longrightarrow> host_step s (s\<lparr>fh_waiting := fh_waiting s - {f}\<rparr>)"
| blank_failed: "f \<in> fh_waiting s \<Longrightarrow>
    host_step s (s\<lparr>fh_waiting := fh_waiting s - {f}, fh_attached := fh_attached s - {f}\<rparr>)"
| abort: "host_step s (host_abort s)"

inductive_cases host_stepE: "host_step s t"

inductive host_reachable :: "frame_host \<Rightarrow> bool" where
  init: "host_reachable host_start"
| step: "host_reachable s \<Longrightarrow> host_step s t \<Longrightarrow> host_reachable t"

definition frames_inv :: "frame_host \<Rightarrow> bool" where
  "frames_inv s \<longleftrightarrow> fh_attached s \<subseteq> fh_frames s \<and> fh_waiting s \<subseteq> fh_frames s \<and>
     (\<forall>f \<in> fh_frames s. f < fh_next s) \<and> (fh_aborted s \<longrightarrow> fh_frames s = {})"

lemma frames_inv_step: "host_step s t \<Longrightarrow> frames_inv s \<Longrightarrow> frames_inv t"
  by (erule host_stepE)
    (auto simp: frames_inv_def mount_begin_def host_abort_def Let_def less_Suc_eq split: if_splits)

lemma frames_inv_reachable: "host_reachable s \<Longrightarrow> frames_inv s"
proof (induction rule: host_reachable.induct)
  case init
  then show ?case by (simp add: frames_inv_def host_start_def)
next
  case (step s t)
  then show ?case by (blast intro: frames_inv_step)
qed

section \<open>Properties\<close>

text \<open>
  A blank frame is settled by the first of load, error, abort and timeout, whatever follows: the
  promise has that event's outcome, the timer and the listeners are gone, and the frame is in the
  document exactly when it loaded.
\<close>

theorem blank_frame_settles_once:
  "prepareBlankFrame False (e # es) =
     Inr \<lparr>bf_promise = blank_outcome e, bf_timer = False, bf_listening = False, bf_attached = (e = Loaded),
          bf_src = js ''about:blank''\<rparr>"
  by (simp only: prepareBlankFrame_def if_False blank_first_event)

text \<open>
  The isolation handshake: whatever messages arrive, the bridge configuration is posted at most once,
  only to the resource's origin and the frame's window, only after a ready message from that window and
  origin; and once the promise is settled no timer or listener is left.
\<close>

theorem isolation_handshake:
  assumes "prepareIsolatedFrame H location envelope resource fetched window events = Inr s"
  shows "(if_promise s = Pending \<or> (\<not> if_timer s \<and> \<not> if_listening s)) \<and>
    length (if_posted s) \<le> 1 \<and>
    (\<forall>w c og. (w, c, og) \<in> set (if_posted s) \<longrightarrow>
       w = window \<and> Some (JStr og) = (case fld resource ''origin'' of Some (JStr r) \<Rightarrow> Some (JStr r) | _ \<Rightarrow> Some (JStr [])) \<and>
       if_promise s = Resolved \<and> length (ic_bridge c) \<le> 2 * 1024 * 1024 \<and>
       (\<exists>m. Message m \<in> set events \<and> msg_source m = window \<and> msg_origin m = og \<and> ready_message (msg_data m)))"
proof -
  from assms obtain og c s0 where s: "s = foldl (isolated_step window og c) s0 events"
    and og: "og = (case fld resource ''origin'' of Some (JStr r) \<Rightarrow> r | _ \<Rightarrow> [])"
    and c: "length (ic_bridge c) \<le> 2 * 1024 * 1024"
    and s0: "waiting_frame s0"
    by (auto simp: prepareIsolatedFrame_def Let_def waiting_frame_def split: option.splits bridge_fetch.splits
        if_splits sum.splits)
  have inv: "waiting_frame s \<or> quiet_frame window og c s"
    unfolding s using s0 by (intro isolated_run_inv) simp
  have src: "if_posted s \<noteq> [] \<Longrightarrow>
      \<exists>m. Message m \<in> set events \<and> msg_source m = window \<and> msg_origin m = og \<and> ready_message (msg_data m)"
    using isolated_posted_source [of window og c s0 events] s0 by (auto simp: s waiting_frame_def)
  show ?thesis
    using inv
  proof
    assume "waiting_frame s"
    then show ?thesis by (simp add: waiting_frame_def)
  next
    assume q: "quiet_frame window og c s"
    then have "w = window \<and> c' = c \<and> og' = og \<and> if_promise s = Resolved" if "(w, c', og') \<in> set (if_posted s)" for w c' og'
      using that by (auto simp: quiet_frame_def)
    then show ?thesis
      using q c og src by (auto simp: quiet_frame_def split: option.splits jval.splits)
  qed
qed

definition tiny_host :: host where
  "tiny_host = \<lparr>new_URL = (\<lambda>s b. Some \<lparr>url_href = the b @ s, url_protocol = js ''https:'', url_origin = the b,
     url_pathname = s, url_hash = []\<rparr>), other_String = (\<lambda>v. None)\<rparr>"

definition ready_frame :: isolated_frame where
  "ready_frame = \<lparr>if_promise = Resolved, if_timer = False, if_listening = False,
     if_posted = [(Some 1, \<lparr>ic_parentOrigin = js ''http://r'', ic_runId = js ''run'', ic_entryFile = js ''index.html'',
       ic_bridge = js ''code''\<rparr>, js ''https://g'')],
     if_src = js ''https://g'' @ isolation_shell (js ''run'')\<rparr>"

lemma ready_run:
  "prepareIsolatedFrame tiny_host (js ''http://r'') (jo [(''session'', jo [(''id'', jstr ''run'')])])
     (jo [(''origin'', jstr ''https://g''), (''entryFile'', jstr ''index.html'')])
     (BridgeStatus True (Inr (js ''code''))) (Some 1)
     [Message \<lparr>msg_source = Some 2, msg_origin = js ''https://g'', msg_data = Some (jo [(''type'', jstr ''RETROM_ISOLATION_READY'')])\<rparr>,
      Message \<lparr>msg_source = Some 1, msg_origin = js ''https://g'', msg_data = Some (jo [(''type'', jstr ''RETROM_ISOLATION_READY'')])\<rparr>,
      ITimedOut] = Inr ready_frame"
  by (simp add: prepareIsolatedFrame_def tiny_host_def fld_jo jstr_def isolated_receive_def isolated_finish_def
      settle_def ready_frame_def ready_message_def Let_def)

theorem isolation_handshake_witness:
  "if_posted ready_frame \<noteq> [] \<and> length (if_posted ready_frame) \<le> 1 \<and> \<not> if_timer ready_frame"
  using isolation_handshake [OF ready_run] by (simp add: ready_frame_def)

text \<open>
  Frames never outlive their host: in every reachable state each frame in the document is one the
  host still keeps, so the abort handler removes it; once the signal is aborted no frame is left and no
  mount succeeds.
\<close>

theorem aborted_host_has_no_frames:
  assumes "host_reachable s"
  shows "fh_attached s \<subseteq> fh_frames s \<and>
    (fh_aborted s \<longrightarrow> fh_attached s = {} \<and> fh_waiting s = {} \<and> (\<forall>kind. mount_begin kind s = None)) \<and>
    fh_attached (host_abort s) = {}"
  using frames_inv_reachable [OF assms] by (auto simp: frames_inv_def mount_begin_def host_abort_def)

definition host_example :: frame_host where
  "host_example = host_abort (the (mount_begin WebMount (the (mount_begin BlankMount host_start))))"

lemma host_example_reachable: "host_reachable host_example"
proof -
  have m: "host_reachable t" if "mount_begin k s = Some t" "host_reachable s" for k s t
    using that by (blast intro: host_reachable.step host_step.mount)
  have "host_reachable (the (mount_begin BlankMount host_start))"
    by (rule m [of BlankMount host_start]) (simp_all add: mount_begin_def host_start_def host_reachable.init [unfolded host_start_def] Let_def)
  then have "host_reachable (the (mount_begin WebMount (the (mount_begin BlankMount host_start))))"
    by (rule m [of WebMount, rotated]) (simp add: mount_begin_def host_start_def Let_def)
  then show ?thesis unfolding host_example_def by (rule host_reachable.step) (rule host_step.abort)
qed

theorem aborted_host_has_no_frames_witness:
  "fh_aborted host_example \<and> fh_next host_example = 2 \<and> fh_attached host_example = {}"
  using aborted_host_has_no_frames [OF host_example_reachable]
  by (simp add: host_example_def host_abort_def mount_begin_def host_start_def Let_def)

end
