(* ===== verification/Runtime_Lifecycle.thy ===== *)
theory Runtime_Lifecycle
  imports Provider_Dispatcher
begin

text \<open>
  The rest of the runtime host: \<open>createRuntimeHost\<close>'s preferences and \<open>loadRestore\<close>
  (\<open>runtime-host.ts\<close>), the wait for a native save (\<open>wait-native-save.ts\<close>) and the
  disposal of a runtime with its final snapshot (\<open>dispose-runtime.ts\<close>).
\<close>

section \<open>Host preferences\<close>

datatype content_loading = ON_DEMAND | PRELOAD

definition host_content_loading :: "jval \<Rightarrow> content_loading \<Rightarrow> content_loading" where
  "host_content_loading envelope preferred =
     (if fld (capabilities_part envelope) ''contentLoading'' = Some (JStr (js ''PRELOAD_ONLY''))
      then PRELOAD else preferred)"

section \<open>loadRestore\<close>

datatype restore_descriptor =
    HTTP jsstr jsstr jsstr int
  | LOCAL jsstr jsstr int

text \<open>The checkpoint contract of the runtime: formats it reads and the amount limit.\<close>

record checkpoint_contract =
  cc_readFormats :: "jsstr list"
  cc_maxBytes :: int

datatype restore_response = RestoreRejected thrown | RestoreResponse bool "thrown + byte list"

text \<open>
  The outcome and whether a request was sent. \<open>digest\<close> is the hexadecimal SHA-256 of
  \<open>digestSha256\<close>; it rejects when the platform's hash does.
\<close>

definition loadRestore ::
  "browser \<Rightarrow> checkpoint_contract option \<Rightarrow> byte list option \<Rightarrow> (jsstr \<Rightarrow> restore_response) \<Rightarrow>
     restore_descriptor option \<Rightarrow> byte list option run" where
  "loadRestore B contract localRestore fetch descriptor =
     (let invalid = OtherError ''PLAYER_RUNTIME_RESTORE_INVALID'' in
      case descriptor of
        None \<Rightarrow> (Inr None, [])
      | Some (LOCAL format sha amount) \<Rightarrow>
          (case localRestore of
             None \<Rightarrow> (Inl invalid, [])
           | Some bytes \<Rightarrow>
               if int (length bytes) \<noteq> amount then (Inl invalid, [])
               else (case digestSha256 B bytes of
                 None \<Rightarrow> (Inl (OtherError ''digest''), [])
               | Some d \<Rightarrow> if d \<noteq> sha then (Inl invalid, []) else (Inr (Some bytes), [])))
      | Some (HTTP url format sha amount) \<Rightarrow>
          if \<not> starts_with url (js ''/api/v1/saves/'') \<or>
             (case contract of None \<Rightarrow> True
              | Some c \<Rightarrow> format \<notin> set (cc_readFormats c) \<or> cc_maxBytes c < amount)
          then (Inl invalid, [])
          else (case fetch url of
            RestoreRejected e \<Rightarrow> (Inl e, [Fetched url])
          | RestoreResponse ok body \<Rightarrow>
              if \<not> ok then (Inl (OtherError ''PLAYER_RUNTIME_RESTORE_UNAVAILABLE''), [Fetched url])
              else (case body of
                Inl e \<Rightarrow> (Inl e, [Fetched url])
              | Inr bytes \<Rightarrow>
                  if int (length bytes) \<noteq> amount then (Inl invalid, [Fetched url])
                  else (case digestSha256 B bytes of
                    None \<Rightarrow> (Inl (OtherError ''digest''), [Fetched url])
                  | Some d \<Rightarrow>
                      if d \<noteq> sha then (Inl invalid, [Fetched url]) else (Inr (Some bytes), [Fetched url])))))"

section \<open>waitForNativeSave\<close>

record availability =
  av_available :: bool
  av_reason :: "string option"
  av_revision :: "string option"

text \<open>
  What one turn of the loop observes: the signal, the runtime's answer, its state, and the clock.
\<close>

record poll =
  po_aborted :: bool
  po_availability :: availability
  po_state :: RuntimeStateV1
  po_now :: rat

definition save_deadline :: "rat \<Rightarrow> rat" where
  "save_deadline start = start + 10000"

text \<open>
  The loop from its \<open>n\<close>-th turn, with fuel for the turns; \<open>None\<close> when the fuel is used up.
\<close>

fun wait_loop :: "nat \<Rightarrow> rat \<Rightarrow> (nat \<Rightarrow> poll) \<Rightarrow> nat \<Rightarrow> (thrown + availability) option" where
  "wait_loop 0 deadline polls n = None"
| "wait_loop (Suc fuel) deadline polls n =
     (let p = polls n; a = po_availability p in
      if po_aborted p then Some (Inl AbortError)
      else if av_reason a = Some ''FAILED'' \<and> po_state p \<noteq> FAILED then Some (Inl (OtherError ''save unconfirmed''))
      else if av_reason a \<noteq> Some ''BUSY'' then Some (Inr a)
      else if deadline \<le> po_now p then Some (Inl (OtherError ''save still writing''))
      else wait_loop fuel deadline polls (Suc n))"

definition waitForNativeSave :: "nat \<Rightarrow> rat \<Rightarrow> (nat \<Rightarrow> poll) \<Rightarrow> (thrown + availability) option" where
  "waitForNativeSave fuel start polls = wait_loop fuel (save_deadline start) polls 0"

text \<open>The turn that ends the loop, if the loop gets there.\<close>

definition turn_ends :: "rat \<Rightarrow> poll \<Rightarrow> bool" where
  "turn_ends deadline p \<longleftrightarrow> po_aborted p \<or> av_reason (po_availability p) \<noteq> Some ''BUSY'' \<or> deadline \<le> po_now p"

lemma wait_loop_ends:
  "turn_ends d (polls (n + k)) \<Longrightarrow> k < fuel \<Longrightarrow> \<exists>r. wait_loop fuel d polls n = Some r"
proof (induction k arbitrary: n fuel)
  case 0
  then obtain m where "fuel = Suc m" by (cases fuel) auto
  with 0 show ?case by (auto simp: turn_ends_def Let_def)
next
  case (Suc k)
  then obtain m where m: "fuel = Suc m" "k < m" by (cases fuel) auto
  from Suc.prems(1) have "turn_ends d (polls (Suc n + k))" by simp
  from Suc.IH [OF this m(2)] show ?case by (simp add: m(1) Let_def)
qed

lemma wait_loop_result:
  "wait_loop fuel d polls n = Some (Inr a) \<Longrightarrow>
     \<exists>k. a = po_availability (polls k) \<and> \<not> po_aborted (polls k) \<and> av_reason a \<noteq> Some ''BUSY'' \<and>
       (av_reason a = Some ''FAILED'' \<longrightarrow> po_state (polls k) = FAILED)"
proof (induction fuel d polls n rule: wait_loop.induct)
  case (2 fuel d polls n)
  then show ?case by (auto simp: Let_def split: if_splits)
qed simp

section \<open>disposeRuntime\<close>

datatype checkpoint_image = NoImage | Unchanged | Image

record checkpoint_data =
  cd_bytes :: "byte list"
  cd_image :: checkpoint_image

text \<open>The screenshot of a checkpoint: its own image, none, or the current frame (none when that fails).\<close>

datatype shot = OwnImage | CurrentFrame | NoShot

definition checkpointScreenshot :: "bool \<Rightarrow> checkpoint_data \<Rightarrow> bool \<Rightarrow> shot" where
  "checkpointScreenshot frame_ok checkpoint keepsImage =
     (if cd_image checkpoint = Image then OwnImage
      else if cd_image checkpoint = Unchanged \<and> keepsImage then NoShot
      else if frame_ok then CurrentFrame else NoShot)"

text \<open>The calls of a disposal and what each answers.\<close>

record disposal =
  di_before :: "thrown + unit"
  di_state :: RuntimeStateV1
  di_wait :: "thrown + availability"
  di_checkpoint :: "thrown + checkpoint_data"
  di_frame_ok :: bool
  di_snapshot :: "thrown + unit"
  di_exit :: "thrown + unit"

datatype dispose_call = BeforeSnapshot | Waited | Exported | Saved checkpoint_data shot | Exited

definition dispose_try :: "disposal \<Rightarrow> (thrown + unit) \<times> dispose_call list" where
  "dispose_try d =
     (case di_before d of
        Inl e \<Rightarrow> (Inl e, [BeforeSnapshot])
      | Inr _ \<Rightarrow>
          if di_state d = CREATED then (Inr (), [BeforeSnapshot])
          else (case di_wait d of
            Inl e \<Rightarrow> (Inl e, [BeforeSnapshot, Waited])
          | Inr a \<Rightarrow>
              if av_available a \<and> av_revision a \<notin> {None, Some ''''} then
                (case di_checkpoint d of
                   Inl e \<Rightarrow> (Inl e, [BeforeSnapshot, Waited, Exported])
                 | Inr c \<Rightarrow> (di_snapshot d,
                     [BeforeSnapshot, Waited, Exported, Saved c (checkpointScreenshot (di_frame_ok d) c True)]))
              else (Inr (), [BeforeSnapshot, Waited])))"

definition is_saved :: "dispose_call \<Rightarrow> bool" where
  "is_saved c = (case c of Saved _ _ \<Rightarrow> True | _ \<Rightarrow> False)"

text \<open>The \<open>finally\<close>: the runtime exits, and an error of the exit replaces the outcome.\<close>

definition disposeRuntime :: "disposal \<Rightarrow> (thrown + unit) \<times> dispose_call list" where
  "disposeRuntime d =
     (let (r, calls) = dispose_try d in
      ((case di_exit d of Inl e \<Rightarrow> Inl e | Inr _ \<Rightarrow> r), calls @ [Exited]))"

section \<open>Properties\<close>

text \<open>
  A restore hands over only what the descriptor names: the bytes have its size and its SHA-256; an
  address outside the saves API, a format the runtime does not read, or a size beyond the contract is
  refused before any request; and nothing is requested for a local restore.
\<close>

theorem restore_bytes_verified:
  assumes "loadRestore B contract localRestore fetch (Some d) = (Inr (Some bytes), effects)"
  shows "case d of
    LOCAL format sha amount \<Rightarrow> effects = [] \<and> localRestore = Some bytes \<and> int (length bytes) = amount \<and>
      digestSha256 B bytes = Some sha
  | HTTP url format sha amount \<Rightarrow> effects = [Fetched url] \<and> fetch url = RestoreResponse True (Inr bytes) \<and>
      starts_with url (js ''/api/v1/saves/'') \<and> int (length bytes) = amount \<and> digestSha256 B bytes = Some sha \<and>
      (\<exists>c. contract = Some c \<and> format \<in> set (cc_readFormats c) \<and> amount \<le> cc_maxBytes c)"
  using assms
  by (auto simp: loadRestore_def Let_def split: restore_descriptor.splits option.splits if_splits
      restore_response.splits sum.splits)

definition hash_browser :: browser where
  "hash_browser = \<lparr>createObjectURL = (\<lambda>b. []), global_isolated = True, global_fetch = (\<lambda>u. None),
     subtle_digest = (\<lambda>b. Some [0xAB])\<rparr>"

theorem restore_bytes_verified_witness:
  "digestSha256 hash_browser [1, 2] = Some (js ''ab'')"
proof -
  have "loadRestore hash_browser None (Some [1, 2]) (\<lambda>u. RestoreRejected TypeError)
      (Some (LOCAL (js ''raw'') (js ''ab'') 2)) = (Inr (Some [1, 2]), [])"
    by (simp add: loadRestore_def hash_browser_def digestSha256_def hex_byte_def hex_unit_def js_eval)
  from restore_bytes_verified [OF this] show ?thesis by simp
qed

text \<open>
  The wait for a native save ends: when one of the first \<open>fuel\<close> turns finds the runtime not
  busy, the signal aborted, or the clock past the deadline of ten seconds, it answers; in particular
  201 turns suffice when each lets at least 50 milliseconds pass.
\<close>

theorem native_save_wait_ends:
  assumes "\<And>n. start + 50 * of_nat n \<le> po_now (polls n)"
  shows "\<exists>r. waitForNativeSave 201 start polls = Some r"
proof -
  have "turn_ends (save_deadline start) (polls (0 + 200))"
    using assms [of 200] by (simp add: turn_ends_def save_deadline_def)
  then show ?thesis unfolding waitForNativeSave_def by (rule wait_loop_ends) simp
qed

definition busy_polls :: "nat \<Rightarrow> poll" where
  "busy_polls n = \<lparr>po_aborted = False,
     po_availability = \<lparr>av_available = False, av_reason = Some ''BUSY'', av_revision = None\<rparr>,
     po_state = RUNNING, po_now = 50 * of_nat n\<rparr>"

theorem native_save_wait_ends_witness:
  "\<exists>r. waitForNativeSave 201 0 busy_polls = Some r"
  by (rule native_save_wait_ends) (simp add: busy_polls_def)

text \<open>
  What the wait returns is never a busy answer, was not taken under an aborted signal, and reports
  a failed save only for a runtime that has failed itself.
\<close>

theorem native_save_answer:
  assumes "waitForNativeSave fuel start polls = Some (Inr a)"
  shows "\<exists>k. a = po_availability (polls k) \<and> \<not> po_aborted (polls k) \<and> av_reason a \<noteq> Some ''BUSY'' \<and>
    (av_reason a = Some ''FAILED'' \<longrightarrow> po_state (polls k) = FAILED)"
  using assms unfolding waitForNativeSave_def by (rule wait_loop_result)

definition late_polls :: "nat \<Rightarrow> poll" where
  "late_polls n = (busy_polls n)\<lparr>po_availability := \<lparr>av_available = True,
     av_reason = (if n < 3 then Some ''BUSY'' else None), av_revision = Some ''r1''\<rparr>\<rparr>"

theorem native_save_answer_witness:
  "\<exists>k. \<lparr>av_available = True, av_reason = None, av_revision = Some ''r1''\<rparr> = po_availability (late_polls k) \<and>
    \<not> po_aborted (late_polls k) \<and> None \<noteq> Some ''BUSY'' \<and>
    (None = Some ''FAILED'' \<longrightarrow> po_state (late_polls k) = FAILED)"
proof -
  have "waitForNativeSave (Suc (Suc (Suc (Suc 0)))) 0 late_polls =
      Some (Inr \<lparr>av_available = True, av_reason = None, av_revision = Some ''r1''\<rparr>)"
    by (simp add: waitForNativeSave_def save_deadline_def late_polls_def busy_polls_def)
  from native_save_answer [OF this] show ?thesis by simp
qed

text \<open>
  Disposal always exits the runtime, as its last call and exactly once, on every path; a snapshot
  is saved only before that, only for a runtime that was started, with a native save that is available
  and has a revision; and an error of any step is reported, not swallowed.
\<close>

theorem dispose_always_exits:
  "\<exists>calls. snd (disposeRuntime d) = calls @ [Exited] \<and> Exited \<notin> set calls \<and>
    (filter is_saved calls = [] \<or> (di_state d \<noteq> CREATED \<and> di_before d = Inr () \<and>
       (\<exists>a. di_wait d = Inr a \<and> av_available a \<and> av_revision a \<noteq> None))) \<and>
    ((\<exists>e. fst (disposeRuntime d) = Inl e) \<or> (di_exit d = Inr () \<and> di_before d = Inr () \<and>
       (filter is_saved calls = [] \<or> di_snapshot d = Inr ())))"
  by (cases d; cases "di_snapshot d") (auto simp: disposeRuntime_def dispose_try_def is_saved_def split: sum.splits)

end
