(* ===== verification/Gamepad_Input.thy ===== *)
theory Gamepad_Input
  imports Prelude
begin

text \<open>
  The input model of the immersive library: \<open>web/features/immersive/input-model.ts\<close> (navigation with
  a neutral gate, key repeat and axis hysteresis; the claim of a gamepad), \<open>active-gamepad.ts\<close> and
  \<open>gamepad-source.ts\<close>. Times are the finite values of \<open>performance.now()\<close>; button and axis
  values may be any number. The thresholds 0.6 and 0.35 are kept as exact decimals.
\<close>

section \<open>Snapshots\<close>

record button =
  pressed :: bool
  button_value :: jsnum

record gamepad =
  axes :: "jsnum list"
  buttons :: "button list"
  connected :: bool
  index :: int
  mapping :: string

datatype direction = DLeft | DRight | DUp | DDown
datatype jump_action = PagePrevious | PageNext | GroupPrevious | GroupNext

datatype action = Move direction | Confirm | Cancel | Menu | Favorite | Jump jump_action

definition flag :: "bool list \<Rightarrow> nat \<Rightarrow> bool" where
  "flag xs i = (item_at xs i = Some True)"

definition isStandardGamepad :: "gamepad \<Rightarrow> bool" where
  "isStandardGamepad g \<longleftrightarrow> connected g \<and> mapping g = ''standard'' \<and> 16 \<le> length (buttons g) \<and>
     list_all (\<lambda>b. is_finite (button_value b)) (buttons g) \<and> list_all is_finite (axes g)"

definition buttonPressed :: "button option \<Rightarrow> bool" where
  "buttonPressed b = (case b of None \<Rightarrow> False | Some c \<Rightarrow> pressed c \<or> num_le (Fin (1/2)) (button_value c))"

definition axisValue :: "gamepad \<Rightarrow> nat \<Rightarrow> rat" where
  "axisValue g i = (case item_at (axes g) i of Some (Fin a) \<Rightarrow> a | _ \<Rightarrow> 0)"

definition exit_threshold :: rat where "exit_threshold = 35/100"
definition enter_threshold :: rat where "enter_threshold = 6/10"

definition isNeutral :: "gamepad \<Rightarrow> bool" where
  "isNeutral g \<longleftrightarrow> \<not> list_ex (\<lambda>b. buttonPressed (Some b)) (buttons g) \<and>
     \<bar>axisValue g 0\<bar> < exit_threshold \<and> \<bar>axisValue g 1\<bar> < exit_threshold"

section \<open>Directions\<close>

definition digitalDirection :: "gamepad \<Rightarrow> direction option" where
  "digitalDirection g =
     (let down = (\<lambda>i. buttonPressed (item_at (buttons g) i));
          horizontal = (if down 14 then -1 else if down 15 then 1 else 0 :: int);
          vertical = (if down 12 then -1 else if down 13 then 1 else 0 :: int) in
      if horizontal \<noteq> 0 \<and> vertical \<noteq> 0 then Some (if horizontal < 0 then DLeft else DRight)
      else if horizontal \<noteq> 0 then Some (if horizontal < 0 then DLeft else DRight)
      else if vertical \<noteq> 0 then Some (if vertical < 0 then DUp else DDown)
      else None)"

definition enteredDirection :: "rat \<Rightarrow> rat \<Rightarrow> direction option" where
  "enteredDirection horizontal vertical =
     (if enter_threshold \<le> max \<bar>horizontal\<bar> \<bar>vertical\<bar>
      then Some (if \<bar>vertical\<bar> \<le> \<bar>horizontal\<bar>
                 then (if horizontal < 0 then DLeft else DRight)
                 else (if vertical < 0 then DUp else DDown))
      else None)"

definition axisDirection :: "gamepad \<Rightarrow> direction option \<Rightarrow> direction option" where
  "axisDirection g previous =
     (let horizontal = axisValue g 0; vertical = axisValue g 1;
          entered = enteredDirection horizontal vertical in
      if entered \<noteq> None \<and> entered \<noteq> previous then entered
      else case previous of
        None \<Rightarrow> entered
      | Some p \<Rightarrow>
          (let previousValue = (if p = DLeft \<or> p = DRight then horizontal else vertical);
               sameSign = (if p = DLeft \<or> p = DUp then previousValue < 0 else previousValue > 0) in
           if sameSign \<and> exit_threshold \<le> \<bar>previousValue\<bar> then previous else entered))"

definition risingButtonAction :: "bool list \<Rightarrow> bool list \<Rightarrow> action option" where
  "risingButtonAction now previous =
     (if flag now 1 \<and> \<not> flag previous 1 then Some Cancel
      else if flag now 0 \<and> \<not> flag previous 0 then Some Confirm
      else if flag now 8 \<and> \<not> flag previous 8 then Some Menu
      else if flag now 3 \<and> \<not> flag previous 3 then Some Favorite
      else None)"

definition jumpButtons :: "(nat \<times> jump_action) list" where
  "jumpButtons = [(4, PagePrevious), (5, PageNext), (6, GroupPrevious), (7, GroupNext)]"

section \<open>NavigationInputModel\<close>

record navigation =
  previousButtons :: "bool list"
  nav_direction :: "direction option"
  nextRepeatAtMs :: rat
  nav_jump :: "jump_action option"
  nextJumpAtMs :: rat
  neutralSinceMs :: "rat option"
  neutralDelayMs :: rat
  armed :: bool
  beforeNeutral :: bool

definition new_navigation :: "bool \<Rightarrow> navigation" where
  "new_navigation allow = \<lparr>previousButtons = [], nav_direction = None, nextRepeatAtMs = 0, nav_jump = None,
     nextJumpAtMs = 0, neutralSinceMs = None, neutralDelayMs = 120, armed = False, beforeNeutral = allow\<rparr>"

definition nav_reset :: "rat \<Rightarrow> navigation \<Rightarrow> navigation" where
  "nav_reset delay m = m\<lparr>previousButtons := [], nav_direction := None, nextRepeatAtMs := 0, nav_jump := None,
     nextJumpAtMs := 0, neutralSinceMs := None, neutralDelayMs := delay, armed := False\<rparr>"

record nav_update =
  actions :: "action list"
  neutral :: bool
  neutralReady :: bool

definition heldJump :: "bool list \<Rightarrow> rat \<Rightarrow> navigation \<Rightarrow> jump_action option \<times> navigation" where
  "heldJump now t m =
     (case find (\<lambda>(i, j). flag now i) jumpButtons of
        None \<Rightarrow> (None, m\<lparr>nav_jump := None\<rparr>)
      | Some (_, next) \<Rightarrow>
          if Some next \<noteq> nav_jump m then (Some next, m\<lparr>nav_jump := Some next, nextJumpAtMs := t + 350\<rparr>)
          else if t < nextJumpAtMs m then (None, m)
          else (Some next, m\<lparr>nextJumpAtMs := t + 120\<rparr>))"

definition next_direction :: "gamepad \<Rightarrow> navigation \<Rightarrow> direction option" where
  "next_direction g m =
     (case digitalDirection g of Some d \<Rightarrow> Some d | None \<Rightarrow> axisDirection g (nav_direction m))"

definition direct :: "gamepad \<Rightarrow> rat \<Rightarrow> navigation \<Rightarrow> action list \<times> navigation" where
  "direct g t m =
     (case next_direction g m of
        None \<Rightarrow> ([], m\<lparr>nav_direction := None, nextRepeatAtMs := 0\<rparr>)
      | Some d \<Rightarrow>
          if Some d \<noteq> nav_direction m then ([Move d], m\<lparr>nav_direction := Some d, nextRepeatAtMs := t + 350\<rparr>)
          else if nextRepeatAtMs m \<le> t then ([Move d], m\<lparr>nextRepeatAtMs := t + 120\<rparr>)
          else ([], m))"

definition actionsFor :: "gamepad \<Rightarrow> bool list \<Rightarrow> rat \<Rightarrow> bool \<Rightarrow> navigation \<Rightarrow> action list \<times> navigation" where
  "actionsFor g now t buttonsAllowed m =
     (let (moves, m1) = direct g t m;
          buttonAction = (if buttonsAllowed then risingButtonAction now (previousButtons m1) else None);
          (jump, m2) = (if buttonsAllowed then heldJump now t m1 else (None, m1)) in
      (moves @ (case buttonAction of Some a \<Rightarrow> [a] | None \<Rightarrow> []) @ (case jump of Some j \<Rightarrow> [Jump j] | None \<Rightarrow> []),
       m2))"

text \<open>The neutral gate at the start of \<open>update\<close>.\<close>

definition gate :: "bool \<Rightarrow> rat \<Rightarrow> navigation \<Rightarrow> navigation" where
  "gate isneutral t m =
     (let m1 = (if \<not> armed m \<and> \<not> isneutral then m\<lparr>neutralSinceMs := None\<rparr>
                else if \<not> armed m \<and> neutralSinceMs m = None then m\<lparr>neutralSinceMs := Some t\<rparr>
                else m) in
      if \<not> armed m1 \<and> (case neutralSinceMs m1 of Some s \<Rightarrow> neutralDelayMs m1 \<le> t - s | None \<Rightarrow> False)
      then m1\<lparr>armed := True, beforeNeutral := False\<rparr> else m1)"

definition nav_update :: "gamepad option \<Rightarrow> rat \<Rightarrow> navigation \<Rightarrow> nav_update \<times> navigation" where
  "nav_update gp t m =
     (case gp of
        None \<Rightarrow> (\<lparr>actions = [], neutral = False, neutralReady = False\<rparr>, nav_reset (neutralDelayMs m) m)
      | Some g \<Rightarrow>
          if \<not> isStandardGamepad g
          then (\<lparr>actions = [], neutral = False, neutralReady = False\<rparr>, nav_reset (neutralDelayMs m) m)
          else (let m1 = gate (isNeutral g) t m;
                    now = map (\<lambda>b. buttonPressed (Some b)) (buttons g);
                    (acts, m2) = (if armed m1 \<or> beforeNeutral m1 then actionsFor g now t (armed m1) m1 else ([], m1))
                in (\<lparr>actions = acts, neutral = isNeutral g, neutralReady = armed m1\<rparr>,
                    m2\<lparr>previousButtons := now\<rparr>)))"

section \<open>GamepadClaimModel\<close>

type_synonym claim = "(int, bool list) amap"

definition pressed_of :: "gamepad \<Rightarrow> bool list" where
  "pressed_of g = map (\<lambda>b. buttonPressed (Some b)) (buttons g)"

definition claim_reset :: "gamepad list \<Rightarrow> claim" where
  "claim_reset gs = amap_from index pressed_of gs"

definition edge :: "claim \<Rightarrow> gamepad \<Rightarrow> bool" where
  "edge previous g =
     (let before = (case map_of previous (index g) of Some p \<Rightarrow> p | None \<Rightarrow> []); now = pressed_of g in
      list_ex (\<lambda>i. flag now i \<and> \<not> flag before i) [0..<length now])"

primrec claim_loop :: "gamepad list \<Rightarrow> int option \<times> bool \<times> claim \<Rightarrow> int option \<times> bool \<times> claim" where
  "claim_loop [] s = s"
| "claim_loop (g # gs) s =
     (case s of (claimed, unsupported, previous) \<Rightarrow>
        claim_loop gs
          (if edge previous g \<and> isStandardGamepad g \<and> claimed = None then Some (index g) else claimed,
           unsupported \<or> (edge previous g \<and> \<not> isStandardGamepad g),
           amap_put (index g) (pressed_of g) previous))"

text \<open>\<open>(left, right) => left.index - right.index\<close>\<close>

definition index_order :: "gamepad \<Rightarrow> gamepad \<Rightarrow> bool" where
  "index_order l r = (index l - index r \<le> 0)"

definition claim_update :: "gamepad list \<Rightarrow> claim \<Rightarrow> (int option \<times> bool) \<times> claim" where
  "claim_update gs previous =
     (case claim_loop (sort_by index_order gs) (None, False, previous) of
        (claimed, unsupported, p) \<Rightarrow>
          ((claimed, unsupported),
           fold (\<lambda>i q. if i \<in> index ` set gs then q else amap_del i q) (amap_keys p) p))"

interpretation by_index: comparator index_order
  by unfold_locales (auto simp: index_order_def)

section \<open>The module state of active-gamepad.ts\<close>

record active_gamepad =
  activeIndex :: "int option"
  returnPending :: bool

definition setActiveImmersiveGamepadIndex :: "int option \<Rightarrow> active_gamepad \<Rightarrow> active_gamepad" where
  "setActiveImmersiveGamepadIndex i s = s\<lparr>activeIndex := i\<rparr>"

definition markImmersivePlayerReturn :: "active_gamepad \<Rightarrow> active_gamepad" where
  "markImmersivePlayerReturn s = s\<lparr>returnPending := True\<rparr>"

definition consumeImmersivePlayerReturn :: "active_gamepad \<Rightarrow> bool \<times> active_gamepad" where
  "consumeImmersivePlayerReturn s = (returnPending s, s\<lparr>returnPending := False\<rparr>)"

section \<open>BrowserGamepadSource\<close>

text \<open>
  The listeners in subscription order, the handle of the requested animation frame, whether the four
  DOM listeners are attached, and the frames the browser still has to run. A tick hands a frame to
  the listeners, which may subscribe and unsubscribe meanwhile.
\<close>

record source =
  listeners :: "nat list"
  animationFrame :: "nat option"
  dom_attached :: bool
  browser_frames :: "nat set"
  next_handle :: nat

definition source_start :: source where
  "source_start = \<lparr>listeners = [], animationFrame = None, dom_attached = False, browser_frames = {}, next_handle = 0\<rparr>"

definition schedule :: "source \<Rightarrow> source" where
  "schedule s =
     (if animationFrame s = None \<and> listeners s \<noteq> [] then
        s\<lparr>animationFrame := Some (next_handle s), browser_frames := insert (next_handle s) (browser_frames s),
          next_handle := Suc (next_handle s)\<rparr>
      else s)"

definition stop :: "source \<Rightarrow> source" where
  "stop s =
     s\<lparr>browser_frames := (case animationFrame s of Some h \<Rightarrow> browser_frames s - {h} | None \<Rightarrow> browser_frames s),
       animationFrame := None, dom_attached := False\<rparr>"

definition subscribe :: "nat \<Rightarrow> source \<Rightarrow> source" where
  "subscribe l s =
     (let t = s\<lparr>listeners := (if l \<in> set (listeners s) then listeners s else listeners s @ [l])\<rparr> in
      if length (listeners t) = 1 then schedule (t\<lparr>dom_attached := True\<rparr>) else t)"

definition unsubscribe :: "nat \<Rightarrow> source \<Rightarrow> source" where
  "unsubscribe l s =
     (let t = s\<lparr>listeners := filter (\<lambda>k. k \<noteq> l) (listeners s)\<rparr> in
      if listeners t = [] then stop t else t)"

datatype subscription = Subscribe nat | Unsubscribe nat

definition apply_subscription :: "subscription \<Rightarrow> source \<Rightarrow> source" where
  "apply_subscription c s = (case c of Subscribe l \<Rightarrow> subscribe l s | Unsubscribe l \<Rightarrow> unsubscribe l s)"

text \<open>The browser runs frame \<open>h\<close>; \<open>emitted\<close> are the subscriptions the listeners change.\<close>

definition tick :: "nat \<Rightarrow> subscription list \<Rightarrow> source \<Rightarrow> source" where
  "tick h emitted s =
     (let t = s\<lparr>browser_frames := browser_frames s - {h}, animationFrame := None\<rparr> in
      schedule (fold apply_subscription emitted t))"

inductive source_step :: "source \<Rightarrow> source \<Rightarrow> bool" where
  change: "source_step s (apply_subscription c s)"
| run_frame: "h \<in> browser_frames s \<Longrightarrow> source_step s (tick h emitted s)"
| connection: "dom_attached s \<Longrightarrow> source_step s (schedule s)"
| suspended: "dom_attached s \<Longrightarrow> source_step s (fold apply_subscription emitted s)"

inductive source_reachable :: "source \<Rightarrow> bool" where
  start: "source_reachable source_start"
| step: "source_reachable s \<Longrightarrow> source_step s t \<Longrightarrow> source_reachable t"

end
