(* ===== verification/Gamepad_Properties.thy ===== *)
theory Gamepad_Properties
  imports Gamepad_Input
begin

text \<open>
  The properties of the immersive input model: the neutral gate, the key repeat, the hysteresis of
  the axes, the claim of a gamepad, and the animation frames of the gamepad source.
\<close>

section \<open>The neutral gate\<close>

type_synonym frame = "gamepad option \<times> rat"

definition nav_state :: "navigation \<Rightarrow> frame list \<Rightarrow> navigation" where
  "nav_state m fs = foldl (\<lambda>m (g, t). snd (nav_update g t m)) m fs"

lemma nav_state_simps [simp]:
  "nav_state m [] = m"
  "nav_state m (fs @ [(g, t)]) = snd (nav_update g t (nav_state m fs))"
  by (simp_all add: nav_state_def)

definition standard_frame :: "frame \<Rightarrow> bool" where
  "standard_frame f = (case fst f of Some g \<Rightarrow> isStandardGamepad g | None \<Rightarrow> False)"

definition neutral_frame :: "frame \<Rightarrow> bool" where
  "neutral_frame f = (case fst f of Some g \<Rightarrow> isStandardGamepad g \<and> isNeutral g | None \<Rightarrow> False)"

text \<open>
  The frames contain an uninterrupted neutral stretch at least as long as the delay, and the gamepad
  has been there ever since.
\<close>

definition released_for :: "rat \<Rightarrow> frame list \<Rightarrow> bool" where
  "released_for d fs \<longleftrightarrow>
     (\<exists>pre w post. fs = pre @ w @ post \<and> w \<noteq> [] \<and> list_all neutral_frame w \<and>
        d \<le> snd (last w) - snd (hd w) \<and> list_all standard_frame post)"

definition gate_inv :: "rat \<Rightarrow> bool \<Rightarrow> frame list \<Rightarrow> navigation \<Rightarrow> bool" where
  "gate_inv d allow fs m \<longleftrightarrow> neutralDelayMs m = d \<and> (beforeNeutral m \<longrightarrow> allow) \<and>
     (armed m \<longrightarrow> released_for d fs) \<and>
     (\<not> armed m \<longrightarrow> (\<forall>s. neutralSinceMs m = Some s \<longrightarrow>
        (\<exists>pre w. fs = pre @ w \<and> w \<noteq> [] \<and> list_all neutral_frame w \<and> snd (hd w) = s)))"

lemma direct_keeps [simp]:
  "armed (snd (direct g t m)) = armed m" "neutralSinceMs (snd (direct g t m)) = neutralSinceMs m"
  "neutralDelayMs (snd (direct g t m)) = neutralDelayMs m" "beforeNeutral (snd (direct g t m)) = beforeNeutral m"
  "previousButtons (snd (direct g t m)) = previousButtons m"
  by (simp_all add: direct_def split: option.split)

lemma heldJump_keeps [simp]:
  "armed (snd (heldJump n t m)) = armed m" "neutralSinceMs (snd (heldJump n t m)) = neutralSinceMs m"
  "neutralDelayMs (snd (heldJump n t m)) = neutralDelayMs m" "beforeNeutral (snd (heldJump n t m)) = beforeNeutral m"
  "nav_direction (snd (heldJump n t m)) = nav_direction m" "nextRepeatAtMs (snd (heldJump n t m)) = nextRepeatAtMs m"
  by (simp_all add: heldJump_def split: option.split prod.split)

text \<open>The three parts of \<open>actionsFor\<close>.\<close>

lemma actionsFor_state:
  "snd (actionsFor g n t b m) = (if b then snd (heldJump n t (snd (direct g t m))) else snd (direct g t m))"
  by (simp add: actionsFor_def Let_def split: prod.split)

lemma actionsFor_actions:
  "set (fst (actionsFor g n t b m)) = set (fst (direct g t m)) \<union>
     (if b then set_option (risingButtonAction n (previousButtons m)) \<union>
        Jump ` set_option (fst (heldJump n t (snd (direct g t m)))) else {})"
proof -
  obtain moves m1 where d: "direct g t m = (moves, m1)" by force
  have p: "previousButtons m1 = previousButtons m" using direct_keeps(5) [of g t m] by (simp add: d)
  obtain j m2 where h: "heldJump n t m1 = (j, m2)" by force
  show ?thesis
    by (cases j; cases "risingButtonAction n (previousButtons m)")
      (auto simp: actionsFor_def Let_def d h p)
qed

lemma actionsFor_keeps [simp]:
  "armed (snd (actionsFor g n t b m)) = armed m"
  "neutralSinceMs (snd (actionsFor g n t b m)) = neutralSinceMs m"
  "neutralDelayMs (snd (actionsFor g n t b m)) = neutralDelayMs m"
  "beforeNeutral (snd (actionsFor g n t b m)) = beforeNeutral m"
  by (simp_all add: actionsFor_state)

text \<open>One frame of a standard gamepad.\<close>

lemma nav_update_standard:
  assumes "isStandardGamepad g"
  shows "nav_update (Some g) t m =
    (let m1 = gate (isNeutral g) t m; now = map (\<lambda>b. buttonPressed (Some b)) (buttons g);
         r = (if armed m1 \<or> beforeNeutral m1 then actionsFor g now t (armed m1) m1 else ([], m1)) in
     (\<lparr>actions = fst r, neutral = isNeutral g, neutralReady = armed m1\<rparr>, (snd r)\<lparr>previousButtons := now\<rparr>))"
  using assms by (simp add: nav_update_def Let_def split: prod.split)

text \<open>What the gate leaves in the model after one frame.\<close>

lemma nav_update_gate:
  assumes "isStandardGamepad g"
  shows "armed (snd (nav_update (Some g) t m)) = armed (gate (isNeutral g) t m)"
    "neutralSinceMs (snd (nav_update (Some g) t m)) = neutralSinceMs (gate (isNeutral g) t m)"
    "neutralDelayMs (snd (nav_update (Some g) t m)) = neutralDelayMs (gate (isNeutral g) t m)"
    "beforeNeutral (snd (nav_update (Some g) t m)) = beforeNeutral (gate (isNeutral g) t m)"
  using assms by (simp_all add: nav_update_standard Let_def)

lemma released_snoc: "released_for d fs \<Longrightarrow> standard_frame f \<Longrightarrow> released_for d (fs @ [f])"
proof -
  assume "released_for d fs" "standard_frame f"
  then obtain pre w post where "fs = pre @ w @ post" "w \<noteq> []" "list_all neutral_frame w"
    "d \<le> snd (last w) - snd (hd w)" "list_all standard_frame post"
    by (auto simp: released_for_def)
  with \<open>standard_frame f\<close> show ?thesis
    unfolding released_for_def by (intro exI [of _ pre] exI [of _ w] exI [of _ "post @ [f]"]) simp
qed

lemma gate_inv_frame:
  assumes "gate_inv d allow fs m" "isStandardGamepad g"
  shows "gate_inv d allow (fs @ [(Some g, t)]) (gate (isNeutral g) t m)"
proof (cases "armed m")
  case True
  then have "gate (isNeutral g) t m = m" by (simp add: gate_def)
  with assms True show ?thesis
    by (auto simp: gate_inv_def standard_frame_def intro: released_snoc)
next
  case False
  show ?thesis
  proof (cases "isNeutral g")
    case neutral: True
    obtain s pre w where w: "fs @ [(Some g, t)] = pre @ w" "w \<noteq> []" "list_all neutral_frame w" "snd (hd w) = s"
      "last w = (Some g, t)" and s: "s = (case neutralSinceMs m of Some s \<Rightarrow> s | None \<Rightarrow> t)"
    proof (cases "neutralSinceMs m")
      case None
      show thesis
        by (rule that [of fs "[(Some g, t)]" t]) (use assms neutral None in \<open>auto simp: neutral_frame_def\<close>)
    next
      case (Some s)
      with assms(1) False obtain pre w where "fs = pre @ w" "w \<noteq> []" "list_all neutral_frame w" "snd (hd w) = s"
        by (auto simp: gate_inv_def)
      then show thesis
        by (intro that [of pre "w @ [(Some g, t)]" s]) (use assms neutral Some in \<open>auto simp: neutral_frame_def\<close>)
    qed
    let ?m = "gate (isNeutral g) t m"
    have m: "neutralSinceMs ?m = Some s" "neutralDelayMs ?m = d" "beforeNeutral ?m \<longrightarrow> beforeNeutral m"
      "armed ?m \<longleftrightarrow> d \<le> t - s"
      using False neutral s assms(1) by (auto simp: gate_def Let_def gate_inv_def split: option.splits)
    have "released_for d (fs @ [(Some g, t)])" if "d \<le> t - s"
      unfolding released_for_def
      by (intro exI [of _ pre] exI [of _ w] exI [of _ "[]"]) (use w that in auto)
    with m w assms(1) show ?thesis by (auto simp: gate_inv_def)
  next
    case moving: False
    with False assms show ?thesis by (auto simp: gate_def gate_inv_def Let_def)
  qed
qed

lemma gate_inv_step:
  assumes "gate_inv d allow fs m"
  shows "gate_inv d allow (fs @ [(gp, t)]) (snd (nav_update gp t m))"
proof (cases "\<exists>g. gp = Some g \<and> isStandardGamepad g")
  case True
  then obtain g where g: "gp = Some g" "isStandardGamepad g" by blast
  from gate_inv_frame [OF assms g(2), of t] show ?thesis
    unfolding g(1) gate_inv_def nav_update_gate [OF g(2)] .
next
  case False
  then have "snd (nav_update gp t m) = nav_reset (neutralDelayMs m) m"
    by (auto simp: nav_update_def split: option.splits)
  with assms show ?thesis by (simp add: gate_inv_def nav_reset_def)
qed

lemma gate_inv_run: "gate_inv d allow [] m \<Longrightarrow> gate_inv d allow fs (nav_state m fs)"
proof (induction fs rule: rev_induct)
  case (snoc f fs)
  then show ?case by (cases f) (simp add: gate_inv_step)
qed simp

text \<open>Without an armed gate only moves are emitted, and only when moves are allowed early.\<close>

lemma direct_moves: "a \<in> set (fst (direct g t m)) \<Longrightarrow> \<exists>d. a = Move d"
  by (auto simp: direct_def split: option.splits if_splits)

lemma actions_need_gate:
  assumes "isStandardGamepad g" "a \<in> set (actions (fst (nav_update (Some g) t m)))"
  shows "armed (gate (isNeutral g) t m) \<or> (beforeNeutral (gate (isNeutral g) t m) \<and> (\<exists>d. a = Move d))"
  using assms
  by (auto simp: nav_update_standard Let_def actionsFor_actions dest: direct_moves split: if_splits)

section \<open>The key repeat\<close>

text \<open>The times at which a frame sequence emits a move.\<close>

primrec emitted_at :: "direction \<Rightarrow> frame list \<Rightarrow> navigation \<Rightarrow> rat list" where
  "emitted_at d [] m = []"
| "emitted_at d (f # fs) m =
     (case nav_update (fst f) (snd f) m of (u, m') \<Rightarrow>
        (if Move d \<in> set (actions u) then [snd f] else []) @ emitted_at d fs m')"

text \<open>Direction \<open>d\<close> is held: every frame is a standard gamepad whose direction stays \<open>d\<close>.\<close>

definition holds_direction :: "direction \<Rightarrow> frame \<Rightarrow> bool" where
  "holds_direction d f = (case fst f of
       Some g \<Rightarrow> isStandardGamepad g \<and> digitalDirection g = Some d
     | None \<Rightarrow> False)"

definition enabled :: "navigation \<Rightarrow> bool" where
  "enabled m \<longleftrightarrow> armed m \<or> beforeNeutral m"

lemma gate_keeps:
  "nav_direction (gate n t m) = nav_direction m" "nextRepeatAtMs (gate n t m) = nextRepeatAtMs m"
  "armed m \<Longrightarrow> gate n t m = m"
  by (simp_all add: gate_def Let_def split: option.splits)

lemma held_frame:
  assumes "holds_direction d (gp, t)" "nav_direction m = Some d" "armed m"
  shows "(Move d \<in> set (actions (fst (nav_update gp t m)))) = (nextRepeatAtMs m \<le> t)"
    and "nav_direction (snd (nav_update gp t m)) = Some d" "armed (snd (nav_update gp t m))"
    and "nextRepeatAtMs (snd (nav_update gp t m)) = (if nextRepeatAtMs m \<le> t then t + 120 else nextRepeatAtMs m)"
proof -
  from assms(1) obtain g where g: "gp = Some g" "isStandardGamepad g" "digitalDirection g = Some d"
    by (auto simp: holds_direction_def split: option.splits)
  have rising: "Move d \<notin> set_option (risingButtonAction n p)" for n p
    by (auto simp: risingButtonAction_def)
  have direct: "direct g t m = (if nextRepeatAtMs m \<le> t then ([Move d], m\<lparr>nextRepeatAtMs := t + 120\<rparr>) else ([], m))"
    using assms(2) g(3) by (simp add: direct_def next_direction_def)
  show "(Move d \<in> set (actions (fst (nav_update gp t m)))) = (nextRepeatAtMs m \<le> t)"
    using assms(3) g rising by (auto simp: nav_update_standard Let_def gate_keeps(3) actionsFor_actions direct)
  show "nav_direction (snd (nav_update gp t m)) = Some d" "armed (snd (nav_update gp t m))"
    "nextRepeatAtMs (snd (nav_update gp t m)) = (if nextRepeatAtMs m \<le> t then t + 120 else nextRepeatAtMs m)"
    using assms(2,3) g by (simp_all add: nav_update_standard Let_def gate_keeps(3) actionsFor_state direct)
qed

text \<open>While a direction is held its repeats are at least 120 ms apart.\<close>

lemma held_repeats:
  assumes "list_all (holds_direction d) fs" "nav_direction m = Some d" "armed m"
  shows "list_all (\<lambda>t. nextRepeatAtMs m \<le> t) (emitted_at d fs m) \<and>
    sorted_wrt (\<lambda>a b. a + 120 \<le> b) (emitted_at d fs m)"
  using assms
proof (induction fs arbitrary: m)
  case (Cons f fs)
  obtain gp t where f: "f = (gp, t)" by (cases f)
  obtain u m' where u: "nav_update gp t m = (u, m')" by force
  from Cons.prems f have h: "holds_direction d (gp, t)" by simp
  note frame = held_frame [OF h Cons.prems(2,3), unfolded u fst_conv snd_conv]
  from Cons.IH [OF _ frame(2,3)] Cons.prems(1)
  have "list_all (\<lambda>s. nextRepeatAtMs m' \<le> s) (emitted_at d fs m')"
    "sorted_wrt (\<lambda>a b. a + 120 \<le> b) (emitted_at d fs m')" by simp_all
  then show ?case using frame(1,4) by (fastforce simp: f u list_all_iff)
qed simp

section \<open>The claim of a gamepad\<close>

definition claims :: "claim \<Rightarrow> gamepad \<Rightarrow> bool" where
  "claims previous g \<longleftrightarrow> edge previous g \<and> isStandardGamepad g"

lemma edge_put: "index g \<noteq> i \<Longrightarrow> edge (amap_put i v p) g = edge p g"
  by (simp add: edge_def)

lemma claim_loop_result:
  assumes "distinct (map index gs)"
  shows "claim_loop gs (c, u, p) =
    (if c = None then map_option index (find (claims p) gs) else c,
     u \<or> (\<exists>g \<in> set gs. edge p g \<and> \<not> isStandardGamepad g),
     am.put_all index pressed_of gs p)"
  using assms
proof (induction gs arbitrary: c u p)
  case (Cons g gs)
  let ?p = "amap_put (index g) (pressed_of g) p"
  have other: "edge ?p h = edge p h" if "h \<in> set gs" for h
  proof (rule edge_put)
    from Cons.prems have "index g \<notin> index ` set gs" by simp
    with that show "index h \<noteq> index g" by (metis image_eqI)
  qed
  then have "find (claims ?p) gs = find (claims p) gs"
    by (intro find_cong) (auto simp: claims_def)
  with Cons other show ?case by (auto simp: claims_def)
qed simp

lemma find_sorted_least:
  assumes "sorted_wrt index_order gs" "find P gs = Some g"
  shows "g \<in> set gs \<and> P g \<and> (\<forall>h \<in> set gs. P h \<longrightarrow> index g \<le> index h)"
  using assms by (induction gs) (auto simp: index_order_def split: if_splits)

lemma fold_delete:
  "map_of (fold (\<lambda>i q. if i \<in> S then q else amap_del i q) ks p) k =
     (if k \<in> set ks \<and> k \<notin> S then None else map_of p k)"
  by (induction ks arbitrary: p) (auto simp: amap_get_del)

lemma put_all_same_keys:
  "distinct (map index gs) \<Longrightarrow> g \<in> set gs \<Longrightarrow> map_of (am.put_all index pressed_of gs p) (index g) = Some (pressed_of g)"
proof -
  assume d: "distinct (map index gs)" and g: "g \<in> set gs"
  from g have "index g \<in> index ` set gs" by simp
  then obtain h where h: "h \<in> set gs" "index h = index g"
    "map_of (am.put_all index pressed_of gs p) (index g) = Some (pressed_of h)"
    using am.get_put_all_in [of "index g" index gs pressed_of p] by auto
  moreover from d g h have "h = g" by (auto simp: distinct_map inj_on_def)
  ultimately show ?thesis by simp
qed

lemma distinct_sorted_pads: "distinct (map index gs) \<Longrightarrow> distinct (map index (sort_by le gs))"
proof (induction gs)
  case (Cons g gs)
  have "distinct (map index (insert_by le g xs)) \<longleftrightarrow> index g \<notin> index ` set xs \<and> distinct (map index xs)" for xs
    by (induction xs) auto
  with Cons show ?case by simp
qed simp

lemma claim_update_result:
  assumes d: "distinct (map index gs)" and u: "claim_update gs p = ((claimed, unsupported), q)"
  shows "claimed = Some i \<longleftrightarrow> (\<exists>g \<in> set gs. index g = i \<and> claims p g \<and> (\<forall>h \<in> set gs. claims p h \<longrightarrow> i \<le> index h))"
    and "unsupported \<longleftrightarrow> (\<exists>g \<in> set gs. edge p g \<and> \<not> isStandardGamepad g)"
    and "map_of q i = (case find (\<lambda>g. index g = i) gs of Some g \<Rightarrow> Some (pressed_of g) | None \<Rightarrow> None)"
proof -
  let ?s = "sort_by index_order gs"
  have ds: "distinct (map index ?s)" using d by (rule distinct_sorted_pads)
  from u have c: "claimed = map_option index (find (claims p) ?s)"
    and un: "unsupported \<longleftrightarrow> (\<exists>g \<in> set gs. edge p g \<and> \<not> isStandardGamepad g)"
    and q: "q = fold (\<lambda>i q. if i \<in> index ` set gs then q else amap_del i q)
        (amap_keys (am.put_all index pressed_of ?s p)) (am.put_all index pressed_of ?s p)"
    by (simp_all add: claim_update_def claim_loop_result [OF ds])
  show "unsupported \<longleftrightarrow> (\<exists>g \<in> set gs. edge p g \<and> \<not> isStandardGamepad g)" by (rule un)
  show "claimed = Some i \<longleftrightarrow> (\<exists>g \<in> set gs. index g = i \<and> claims p g \<and> (\<forall>h \<in> set gs. claims p h \<longrightarrow> i \<le> index h))"
  proof (cases "find (claims p) ?s")
    case None
    then have "\<not> claims p g" if "g \<in> set gs" for g using that by (auto simp: find_None_iff)
    with None c show ?thesis by auto
  next
    case (Some g)
    from find_sorted_least [OF by_index.sorted_sort_by Some]
    have "g \<in> set gs" "claims p g" "\<And>h. h \<in> set gs \<Longrightarrow> claims p h \<Longrightarrow> index g \<le> index h" by auto
    with Some c show ?thesis by (force intro: antisym)
  qed
  show "map_of q i = (case find (\<lambda>g. index g = i) gs of Some g \<Rightarrow> Some (pressed_of g) | None \<Rightarrow> None)"
  proof (cases "find (\<lambda>g. index g = i) gs")
    case None
    then have i: "i \<notin> index ` set gs" by (auto simp: find_None_iff)
    then show ?thesis using None by (auto simp: q fold_delete amap_keys_dom)
  next
    case (Some g)
    then have g: "g \<in> set gs" "index g = i" by (auto simp: find_Some_iff)
    then have "map_of (am.put_all index pressed_of ?s p) i = Some (pressed_of g)"
      using put_all_same_keys [OF ds, of g p] by simp
    moreover from g have "i \<in> index ` set gs" by auto
    ultimately show ?thesis using Some by (simp add: q fold_delete)
  qed
qed

section \<open>The animation frames of the source\<close>

text \<open>Between two steps, and in the middle of one (\<open>source_mid\<close>).\<close>

definition source_mid :: "source \<Rightarrow> bool" where
  "source_mid s \<longleftrightarrow> browser_frames s = set_option (animationFrame s) \<and> distinct (listeners s) \<and>
     (dom_attached s \<longleftrightarrow> listeners s \<noteq> []) \<and> (animationFrame s \<noteq> None \<longrightarrow> listeners s \<noteq> [])"

definition source_inv :: "source \<Rightarrow> bool" where
  "source_inv s \<longleftrightarrow> source_mid s \<and> (listeners s \<noteq> [] \<longrightarrow> animationFrame s \<noteq> None)"

lemma schedule_inv: "source_mid s \<Longrightarrow> source_inv (schedule s)"
  by (auto simp: source_mid_def source_inv_def schedule_def)

lemma apply_mid: "source_mid s \<Longrightarrow> source_mid (apply_subscription c s)"
  by (cases c) (auto simp: apply_subscription_def source_mid_def subscribe_def unsubscribe_def schedule_def stop_def
      Let_def length_Suc_conv split: option.splits)

lemma apply_inv: "source_inv s \<Longrightarrow> source_inv (apply_subscription c s)"
  by (cases c) (auto simp: apply_subscription_def source_inv_def source_mid_def subscribe_def unsubscribe_def
      schedule_def stop_def Let_def length_Suc_conv split: option.splits)

lemma fold_apply_mid: "source_mid s \<Longrightarrow> source_mid (fold apply_subscription cs s)"
  by (induction cs arbitrary: s) (auto intro: apply_mid)

lemma fold_apply_inv: "source_inv s \<Longrightarrow> source_inv (fold apply_subscription cs s)"
  by (induction cs arbitrary: s) (auto intro: apply_inv)

lemma tick_inv: "source_inv s \<Longrightarrow> h \<in> browser_frames s \<Longrightarrow> source_inv (tick h cs s)"
  unfolding tick_def Let_def
  by (intro schedule_inv fold_apply_mid) (auto simp: source_inv_def source_mid_def)

lemma source_inv_reachable: "source_reachable s \<Longrightarrow> source_inv s"
proof (induction rule: source_reachable.induct)
  case start
  then show ?case by (simp add: source_inv_def source_mid_def source_start_def)
next
  case (step s t)
  from step.hyps(2) step.IH show ?case
    by (cases rule: source_step.cases)
      (auto intro: apply_inv tick_inv fold_apply_inv schedule_inv simp: source_inv_def [of s])
qed

section \<open>Axes\<close>

definition axis_of :: "direction \<Rightarrow> gamepad \<Rightarrow> rat" where
  "axis_of d g = (case d of
       DLeft \<Rightarrow> - axisValue g 0 | DRight \<Rightarrow> axisValue g 0 | DUp \<Rightarrow> - axisValue g 1 | DDown \<Rightarrow> axisValue g 1)"

lemma entered_axis:
  "enteredDirection (axisValue g 0) (axisValue g 1) = Some d \<Longrightarrow> enter_threshold \<le> axis_of d g"
  by (auto simp: enteredDirection_def axis_of_def max_def split: if_splits)

lemma axisDirection_Some:
  assumes "axisDirection g previous = Some d"
  shows "enter_threshold \<le> axis_of d g \<or> (previous = Some d \<and> exit_threshold \<le> axis_of d g)"
proof (cases "enteredDirection (axisValue g 0) (axisValue g 1) = Some d")
  case True
  then show ?thesis using entered_axis by blast
next
  case False
  with assms obtain p where p: "previous = Some p" "p = d"
    by (auto simp: axisDirection_def Let_def split: if_splits option.splits)
  with assms False show ?thesis
    by (cases d) (auto simp: axisDirection_def Let_def axis_of_def split: if_splits)
qed

lemma axisDirection_None:
  "axisDirection g previous = None \<longleftrightarrow>
     \<bar>axisValue g 0\<bar> < enter_threshold \<and> \<bar>axisValue g 1\<bar> < enter_threshold \<and>
     (\<forall>d. previous = Some d \<longrightarrow> axis_of d g < exit_threshold)"
proof -
  have pos: "0 < exit_threshold" by (simp add: exit_threshold_def)
  show ?thesis
  proof (cases previous)
    case None
    then show ?thesis by (auto simp: axisDirection_def enteredDirection_def Let_def max_def split: if_splits)
  next
    case (Some d)
    then show ?thesis using pos
      by (cases d) (auto simp: axisDirection_def enteredDirection_def Let_def max_def axis_of_def split: if_splits)
  qed
qed

lemma action_after_neutral:
  assumes "a \<in> set (actions (fst (nav_update gp t (nav_state (nav_reset d (new_navigation allow)) fs))))"
  shows "released_for d (fs @ [(gp, t)]) \<or> (allow \<and> (\<exists>dir. a = Move dir))"
proof -
  let ?m = "nav_state (nav_reset d (new_navigation allow)) fs"
  from assms obtain g where g: "gp = Some g" "isStandardGamepad g"
    by (auto simp: nav_update_def split: option.splits if_splits)
  have "gate_inv d allow [] (nav_reset d (new_navigation allow))"
    by (simp add: gate_inv_def nav_reset_def new_navigation_def)
  then have "gate_inv d allow fs ?m" by (rule gate_inv_run)
  from gate_inv_frame [OF this g(2)] have "gate_inv d allow (fs @ [(Some g, t)]) (gate (isNeutral g) t ?m)" .
  with actions_need_gate [OF g(2), of a t ?m] assms g show ?thesis by (auto simp: gate_inv_def)
qed

text \<open>A model that allows no early moves, as its owners use it: the frames it was given since its last reset.\<close>

definition nav_since :: "navigation \<Rightarrow> frame list \<Rightarrow> bool" where
  "nav_since m fs \<longleftrightarrow> m = nav_state (nav_reset 120 (new_navigation False)) fs"

lemma nav_since_before: "nav_since m fs \<Longrightarrow> \<not> beforeNeutral m"
proof -
  have "\<not> beforeNeutral m \<Longrightarrow> \<not> beforeNeutral (snd (nav_update g t m))" for g t m
  proof -
    assume m: "\<not> beforeNeutral m"
    have gated: "\<not> beforeNeutral (gate i t m)" for i using m by (simp add: gate_def Let_def)
    show "\<not> beforeNeutral (snd (nav_update g t m))"
    proof (cases "\<exists>p. g = Some p \<and> isStandardGamepad p")
      case True
      then show ?thesis using gated by (auto simp only: nav_update_gate(4))
    next
      case False
      then have "snd (nav_update g t m) = nav_reset (neutralDelayMs m) m" by (cases g) (simp_all add: nav_update_def)
      then show ?thesis using m by (simp add: nav_reset_def)
    qed
  qed
  moreover have "\<not> beforeNeutral (nav_reset 120 (new_navigation False))" by (simp add: nav_reset_def new_navigation_def)
  ultimately have "\<not> beforeNeutral (nav_state (nav_reset 120 (new_navigation False)) fs)"
    by (induction fs rule: rev_induct) auto
  then show "nav_since m fs \<Longrightarrow> \<not> beforeNeutral m" by (simp add: nav_since_def)
qed

lemma nav_since_new: "nav_since (new_navigation False) []"
  by (simp add: nav_since_def nav_reset_def new_navigation_def)

lemma nav_since_reset: "nav_since m fs \<Longrightarrow> nav_since (nav_reset 120 m) []"
  unfolding nav_since_def [of "nav_reset 120 m"] by (drule nav_since_before) (simp add: nav_reset_def new_navigation_def)

lemma nav_since_update: "nav_since m fs \<Longrightarrow> nav_since (snd (nav_update g t m)) (fs @ [(g, t)])"
  by (simp add: nav_since_def)

lemma nav_since_action: "nav_since m fs \<Longrightarrow> a \<in> set (actions (fst (nav_update g t m))) \<Longrightarrow> released_for 120 (fs @ [(g, t)])"
  using action_after_neutral [of a g t 120 False fs] by (simp add: nav_since_def)

section \<open>Properties\<close>

text \<open>
  The neutral gate: whatever frames came before, an action is emitted only after the gamepad was
  released for an uninterrupted stretch of at least the configured delay and has stayed connected since;
  the only exception are moves, in a model that was created to allow them early.
\<close>

theorem no_action_before_neutral:
  assumes "a \<in> set (actions (fst (nav_update gp t (nav_state (nav_reset d (new_navigation allow)) fs))))"
  shows "released_for d (fs @ [(gp, t)]) \<or> (allow \<and> (\<exists>dir. a = Move dir))"
  using assms by (rule action_after_neutral)

definition pad :: "nat list \<Rightarrow> gamepad" where
  "pad down = \<lparr>axes = [Fin 0, Fin 0],
     buttons = map (\<lambda>i. \<lparr>pressed = i \<in> set down, button_value = Fin 0\<rparr>) [0..<16],
     connected = True, index = 0, mapping = ''standard''\<rparr>"

theorem no_action_before_neutral_witness:
  "released_for 120 [(Some (pad []), 0), (Some (pad []), 130), (Some (pad [0]), 140)]"
proof -
  have "Confirm \<in> set (actions (fst (nav_update (Some (pad [0])) 140
      (nav_state (nav_reset 120 (new_navigation False)) [(Some (pad []), 0), (Some (pad []), 130)]))))"
    by code_simp
  from no_action_before_neutral [OF this] show ?thesis by simp
qed

text \<open>
  Key repeat: while a direction is held on an armed model, its moves come no earlier than the next
  repeat time and are at least 120 milliseconds apart, however often frames arrive.
\<close>

theorem held_direction_repeat_rate:
  assumes "list_all (holds_direction d) fs" "nav_direction m = Some d" "armed m"
  shows "list_all (\<lambda>t. nextRepeatAtMs m \<le> t) (emitted_at d fs m) \<and>
    sorted_wrt (\<lambda>a b. a + 120 \<le> b) (emitted_at d fs m)"
  using assms by (rule held_repeats)

definition held_model :: navigation where
  "held_model = (new_navigation False)\<lparr>nav_direction := Some DLeft, nextRepeatAtMs := 350, armed := True\<rparr>"

theorem held_direction_repeat_rate_witness:
  "emitted_at DLeft [(Some (pad [14]), 100), (Some (pad [14]), 360), (Some (pad [14]), 400), (Some (pad [14]), 490)]
     held_model = [360, 490] \<and>
   list_all (\<lambda>t. nextRepeatAtMs held_model \<le> t) [360, 490] \<and> sorted_wrt (\<lambda>a b. a + 120 \<le> b) [360, 490 :: rat]"
proof -
  have h: "list_all (holds_direction DLeft)
      [(Some (pad [14]), 100), (Some (pad [14]), 360), (Some (pad [14]), 400), (Some (pad [14]), 490)]" by code_simp
  have e: "emitted_at DLeft [(Some (pad [14]), 100), (Some (pad [14]), 360), (Some (pad [14]), 400), (Some (pad [14]), 490)]
     held_model = [360, 490]" by code_simp
  from held_direction_repeat_rate [OF h, of held_model] e show ?thesis
    by (simp add: held_model_def)
qed

text \<open>
  Hysteresis of the stick: a direction is taken up only at 0.6 and kept only at 0.35 or more on its
  own side; the stick is idle exactly when both axes are below 0.6 and the previous direction's side is
  below 0.35.
\<close>

theorem axis_hysteresis:
  "(\<forall>d. axisDirection g previous \<noteq> Some d \<or> enter_threshold \<le> axis_of d g \<or>
      (previous = Some d \<and> exit_threshold \<le> axis_of d g)) \<and>
   (axisDirection g previous = None \<longleftrightarrow>
      \<bar>axisValue g 0\<bar> < enter_threshold \<and> \<bar>axisValue g 1\<bar> < enter_threshold \<and>
      (previous = None \<or> axis_of (the previous) g < exit_threshold))"
  using axisDirection_Some [of g previous] axisDirection_None [of g previous] by (cases previous) auto

text \<open>
  The claim: with distinct indices, the gamepad claimed is the standard one with the lowest index
  that has a newly pressed button, in whatever order the browser lists them; an edge on a non-standard
  gamepad is reported; and afterwards exactly the connected gamepads are remembered, with their buttons.
\<close>

theorem claim_lowest_standard_edge:
  assumes "distinct (map index gs)" "claim_update gs p = ((claimed, unsupported), q)"
  shows "(claimed = Some i \<longleftrightarrow> (\<exists>g \<in> set gs. index g = i \<and> claims p g \<and> (\<forall>h \<in> set gs. claims p h \<longrightarrow> i \<le> index h))) \<and>
    (unsupported \<longleftrightarrow> (\<exists>g \<in> set gs. edge p g \<and> \<not> isStandardGamepad g)) \<and>
    map_of q i = (case find (\<lambda>g. index g = i) gs of Some g \<Rightarrow> Some (pressed_of g) | None \<Rightarrow> None)"
  using claim_update_result [OF assms] by blast

theorem claim_lowest_standard_edge_witness:
  "\<exists>g \<in> set [(pad [0])\<lparr>index := 3\<rparr>, (pad [1])\<lparr>index := 1\<rparr>]. index g = 1 \<and>
     claims [(7, [])] g \<and> (\<forall>h \<in> set [(pad [0])\<lparr>index := 3\<rparr>, (pad [1])\<lparr>index := 1\<rparr>]. claims [(7, [])] h \<longrightarrow> 1 \<le> index h)"
proof -
  obtain c u q where q: "claim_update [(pad [0])\<lparr>index := 3\<rparr>, (pad [1])\<lparr>index := 1\<rparr>] [(7, [])] = ((c, u), q)"
    by (metis prod.collapse)
  have "fst (fst (claim_update [(pad [0])\<lparr>index := 3\<rparr>, (pad [1])\<lparr>index := 1\<rparr>] [(7, [])])) = Some 1" by code_simp
  with q have "c = Some 1" by simp
  then show ?thesis using claim_lowest_standard_edge [OF _ q, of 1] by simp
qed

text \<open>
  The gamepad source never runs two animation frames at once: in every reachable state, also after
  listeners subscribe and unsubscribe while a frame is delivered, the browser holds exactly the one frame
  of the source while there is a listener, none otherwise, and the DOM listeners are attached exactly then.
\<close>

theorem one_animation_frame:
  assumes "source_reachable s"
  shows "(listeners s \<noteq> [] \<longrightarrow> (\<exists>h. animationFrame s = Some h \<and> browser_frames s = {h}) \<and> dom_attached s) \<and>
    (listeners s = [] \<longrightarrow> animationFrame s = None \<and> browser_frames s = {} \<and> \<not> dom_attached s) \<and>
    distinct (listeners s)"
  using source_inv_reachable [OF assms] by (auto simp: source_inv_def source_mid_def)

lemma source_example_reachable: "source_reachable (tick 0 [Unsubscribe 1, Subscribe 2] (subscribe 1 source_start))"
proof -
  have "source_reachable (apply_subscription (Subscribe 1) source_start)"
    by (rule source_reachable.step [OF source_reachable.start source_step.change])
  then have s: "source_reachable (subscribe 1 source_start)" by (simp add: apply_subscription_def)
  have "0 \<in> browser_frames (subscribe 1 source_start)"
    by (simp add: subscribe_def schedule_def source_start_def)
  with s show ?thesis by (blast intro: source_reachable.step source_step.run_frame)
qed

theorem one_animation_frame_witness:
  "\<exists>h. browser_frames (tick 0 [Unsubscribe 1, Subscribe 2] (subscribe 1 source_start)) = {h}"
proof -
  have "listeners (tick 0 [Unsubscribe 1, Subscribe 2] (subscribe 1 source_start)) = [2]"
    by (simp add: tick_def subscribe_def schedule_def source_start_def apply_subscription_def unsubscribe_def stop_def Let_def)
  with one_animation_frame [OF source_example_reachable] show ?thesis by auto
qed

end
