(* ===== verification/Chord_Detector.thy ===== *)
theory Chord_Detector
  imports Prelude
begin

text \<open>
  \<open>web/features/player/immersive-controls.ts\<close>: the detector of the double select-start chord that
  opens the player menu, and the neutral gate after it. The clock is any number, as the code accepts;
  a time that is not finite or goes backwards resets the detector.
\<close>

section \<open>The detector\<close>

datatype reserved = Select | Start

record reserved_output =
  openMenu :: bool
  out_select :: bool
  out_start :: bool

record pair =
  p_select :: bool
  p_start :: bool

definition of_key :: "reserved \<Rightarrow> pair \<Rightarrow> bool" where
  "of_key k p = (case k of Select \<Rightarrow> p_select p | Start \<Rightarrow> p_start p)"

record chord_candidate =
  cand_first :: reserved
  startedAtMs :: jsnum
  cand_second :: bool

record detector =
  previous :: pair
  downSelect :: "jsnum option"
  downStart :: "jsnum option"
  candidate :: "chord_candidate option"
  chord :: "bool option"
  firstChordCompletedAtMs :: "jsnum option"
  lastNowMs :: jsnum

definition IMMERSIVE_CHORD_WINDOW_MS :: jsnum where "IMMERSIVE_CHORD_WINDOW_MS = Fin 100"
definition IMMERSIVE_CHORD_RELEASE_MS :: jsnum where "IMMERSIVE_CHORD_RELEASE_MS = Fin 60"
definition IMMERSIVE_SECOND_CHORD_MS :: jsnum where "IMMERSIVE_SECOND_CHORD_MS = Fin 650"
definition IMMERSIVE_NEUTRAL_MS :: jsnum where "IMMERSIVE_NEUTRAL_MS = Fin 120"

lemmas chord_constants = IMMERSIVE_CHORD_WINDOW_MS_def IMMERSIVE_CHORD_RELEASE_MS_def
  IMMERSIVE_SECOND_CHORD_MS_def IMMERSIVE_NEUTRAL_MS_def

definition detector_reset :: detector where
  "detector_reset = \<lparr>previous = \<lparr>p_select = False, p_start = False\<rparr>, downSelect = None, downStart = None,
     candidate = None, chord = None, firstChordCompletedAtMs = None, lastNowMs = Fin 0\<rparr>"

definition down_at :: "reserved \<Rightarrow> detector \<Rightarrow> jsnum option" where
  "down_at k d = (case k of Select \<Rightarrow> downSelect d | Start \<Rightarrow> downStart d)"

definition updateDownTimes :: "pair \<Rightarrow> jsnum \<Rightarrow> detector \<Rightarrow> detector" where
  "updateDownTimes rising now d =
     (let d1 = (if p_select rising then d\<lparr>downSelect := Some now\<rparr> else d) in
      if p_start rising then d1\<lparr>downStart := Some now\<rparr> else d1)"

definition no_output :: reserved_output where
  "no_output = \<lparr>openMenu = False, out_select = False, out_start = False\<rparr>"

definition finishChordWhenReleased :: "pair \<Rightarrow> jsnum \<Rightarrow> detector \<Rightarrow> reserved_output \<times> detector" where
  "finishChordWhenReleased current now d =
     (if p_select current \<or> p_start current then (no_output, d)
      else (no_output,
        (if chord d \<noteq> Some True then d\<lparr>firstChordCompletedAtMs := Some now\<rparr> else d)\<lparr>chord := None\<rparr>))"

definition expireFirstChord :: "jsnum \<Rightarrow> detector \<Rightarrow> detector" where
  "expireFirstChord now d =
     (case firstChordCompletedAtMs d of
        Some f \<Rightarrow> if num_lt IMMERSIVE_SECOND_CHORD_MS (num_sub now f)
                  then d\<lparr>firstChordCompletedAtMs := None\<rparr> else d
      | None \<Rightarrow> d)"

definition newCandidate :: "pair \<Rightarrow> jsnum \<Rightarrow> detector \<Rightarrow> detector" where
  "newCandidate rising now d =
     (if candidate d \<noteq> None then d
      else let first = (if p_select rising then Some Select else if p_start rising then Some Start else None) in
        case first of
          None \<Rightarrow> d
        | Some k \<Rightarrow>
            (let elapsed = (case firstChordCompletedAtMs d of None \<Rightarrow> None | Some f \<Rightarrow> Some (num_sub now f)) in
             d\<lparr>candidate := Some \<lparr>cand_first = k, startedAtMs = now,
               cand_second = (case elapsed of None \<Rightarrow> False
                 | Some e \<Rightarrow> num_le IMMERSIVE_CHORD_RELEASE_MS e \<and> num_le e IMMERSIVE_SECOND_CHORD_MS)\<rparr>\<rparr>))"

definition recognizeChord :: "pair \<Rightarrow> pair \<Rightarrow> jsnum \<Rightarrow> detector \<Rightarrow> reserved_output option \<times> detector" where
  "recognizeChord current rising now d =
     (let d1 = newCandidate rising now d in
      case candidate d1 of
        None \<Rightarrow> (None, d1)
      | Some c \<Rightarrow>
          (let other = (if cand_first c = Select then Start else Select) in
           if \<not> of_key other rising \<or> \<not> of_key (cand_first c) current \<or>
              num_lt IMMERSIVE_CHORD_WINDOW_MS (num_sub now (startedAtMs c))
           then (None, d1)
           else (let d2 = d1\<lparr>chord := Some (cand_second c), candidate := None, downSelect := None, downStart := None\<rparr>;
                     d3 = (if cand_second c then d2\<lparr>firstChordCompletedAtMs := None\<rparr> else d2) in
                 (Some \<lparr>openMenu = cand_second c, out_select = False, out_start = False\<rparr>, d3))))"

definition expireCandidate :: "pair \<Rightarrow> jsnum \<Rightarrow> detector \<Rightarrow> detector" where
  "expireCandidate current now d =
     (case candidate d of
        None \<Rightarrow> d
      | Some c \<Rightarrow>
          if \<not> of_key (cand_first c) current \<or> num_le IMMERSIVE_CHORD_WINDOW_MS (num_sub now (startedAtMs c))
          then d\<lparr>candidate := None\<rparr> else d)"

definition singleButtonOutput :: "reserved \<Rightarrow> bool \<Rightarrow> bool \<Rightarrow> jsnum \<Rightarrow> detector \<Rightarrow> bool" where
  "singleButtonOutput key current falling now d =
     (if candidate d \<noteq> None \<or> chord d \<noteq> None then False
      else case down_at key d of
        Some t \<Rightarrow>
          if current then num_le IMMERSIVE_CHORD_WINDOW_MS (num_sub now t)
          else falling \<and> num_lt (num_sub now t) IMMERSIVE_CHORD_WINDOW_MS
      | None \<Rightarrow> False)"

definition reduceGesture :: "pair \<Rightarrow> pair \<Rightarrow> pair \<Rightarrow> jsnum \<Rightarrow> detector \<Rightarrow> reserved_output \<times> detector" where
  "reduceGesture current rising falling now d =
     (if chord d \<noteq> None then finishChordWhenReleased current now d
      else (case recognizeChord current rising now (expireFirstChord now d) of
          (Some recognition, d2) \<Rightarrow> (recognition, d2)
        | (None, d2) \<Rightarrow>
            (let d3 = expireCandidate current now d2 in
             (\<lparr>openMenu = False,
               out_select = singleButtonOutput Select (p_select current) (p_select falling) now d3,
               out_start = singleButtonOutput Start (p_start current) (p_start falling) now d3\<rparr>, d3))))"

definition detector_update :: "bool \<Rightarrow> bool \<Rightarrow> jsnum \<Rightarrow> detector \<Rightarrow> reserved_output \<times> detector" where
  "detector_update select start now d =
     (let d0 = (if \<not> is_finite now \<or> num_lt now (lastNowMs d) then detector_reset else d)\<lparr>lastNowMs := now\<rparr>;
          current = \<lparr>p_select = select, p_start = start\<rparr>;
          rising = \<lparr>p_select = select \<and> \<not> p_select (previous d0), p_start = start \<and> \<not> p_start (previous d0)\<rparr>;
          falling = \<lparr>p_select = \<not> select \<and> p_select (previous d0), p_start = \<not> start \<and> p_start (previous d0)\<rparr>;
          (out, d2) = reduceGesture current rising falling now (updateDownTimes rising now d0);
          d3 = (if p_select falling then d2\<lparr>downSelect := None\<rparr> else d2);
          d4 = (if p_start falling then d3\<lparr>downStart := None\<rparr> else d3) in
      (out, d4\<lparr>previous := current\<rparr>))"

section \<open>ImmersiveNeutralGate\<close>

definition neutral_gate_update :: "bool \<Rightarrow> jsnum \<Rightarrow> jsnum option \<Rightarrow> bool \<times> jsnum option" where
  "neutral_gate_update neutral now since =
     (if \<not> neutral then (False, None)
      else let s = (case since of None \<Rightarrow> now | Some t \<Rightarrow> t) in
        (num_le IMMERSIVE_NEUTRAL_MS (num_sub now s), Some s))"

section \<open>The history of a chord\<close>

type_synonym sample = "(bool \<times> bool) \<times> jsnum"

definition both_down :: "sample \<Rightarrow> bool" where
  "both_down x = (fst (fst x) \<and> snd (fst x))"

definition both_up :: "sample \<Rightarrow> bool" where
  "both_up x = (\<not> fst (fst x) \<and> \<not> snd (fst x))"

definition run_detector :: "detector \<Rightarrow> sample list \<Rightarrow> detector" where
  "run_detector d xs = foldl (\<lambda>d ((a, b), t). snd (detector_update a b t d)) d xs"

lemma run_detector_simps [simp]:
  "run_detector d [] = d"
  "run_detector d (xs @ [((a, b), t)]) = snd (detector_update a b t (run_detector d xs))"
  by (simp_all add: run_detector_def)

text \<open>A chord was held and both buttons were released at time \<open>f\<close>.\<close>

definition chord_released_at :: "jsnum \<Rightarrow> sample list \<Rightarrow> bool" where
  "chord_released_at f xs \<longleftrightarrow>
     (\<exists>pre x post. xs = pre @ x # post \<and> both_up x \<and> snd x = f \<and> list_ex both_down pre)"

text \<open>After that, one button went down at time \<open>s\<close>, between 60 and 650 milliseconds later.\<close>

definition second_started_at :: "jsnum \<Rightarrow> sample list \<Rightarrow> bool" where
  "second_started_at s xs \<longleftrightarrow>
     (\<exists>f pre x post. xs = pre @ x # post \<and> chord_released_at f pre \<and> snd x = s \<and> (fst (fst x) \<or> snd (fst x)) \<and>
        num_le IMMERSIVE_CHORD_RELEASE_MS (num_sub s f) \<and> num_le (num_sub s f) IMMERSIVE_SECOND_CHORD_MS)"

text \<open>A second chord: both buttons are down, at most 100 milliseconds after one of them went down.\<close>

definition double_chord_at :: "bool \<Rightarrow> bool \<Rightarrow> jsnum \<Rightarrow> sample list \<Rightarrow> bool" where
  "double_chord_at a b now xs \<longleftrightarrow> a \<and> b \<and> (\<exists>s. second_started_at s (xs @ [((a, b), now)]) \<and>
     \<not> num_lt IMMERSIVE_CHORD_WINDOW_MS (num_sub now s))"

definition detector_inv :: "sample list \<Rightarrow> detector \<Rightarrow> bool" where
  "detector_inv xs d \<longleftrightarrow>
     (chord d \<noteq> None \<longrightarrow> list_ex both_down xs) \<and>
     (\<forall>f. firstChordCompletedAtMs d = Some f \<longrightarrow> chord_released_at f xs) \<and>
     (\<forall>c. candidate d = Some c \<longrightarrow> cand_second c \<longrightarrow> second_started_at (startedAtMs c) xs)"

lemma chord_released_snoc: "chord_released_at f xs \<Longrightarrow> chord_released_at f (xs @ ys)"
  unfolding chord_released_at_def by (metis append.assoc append_Cons)

lemma second_started_snoc: "second_started_at s xs \<Longrightarrow> second_started_at s (xs @ ys)"
  unfolding second_started_at_def by (metis append.assoc append_Cons)

lemma newCandidate_second:
  assumes "candidate (newCandidate rising now d) = Some c" "cand_second c" "detector_inv xs d"
    and "p_select rising \<longrightarrow> a" "p_start rising \<longrightarrow> b"
  shows "second_started_at (startedAtMs c) (xs @ [((a, b), now)])"
proof (cases "candidate d")
  case None
  with assms obtain f where f: "firstChordCompletedAtMs d = Some f"
    "num_le IMMERSIVE_CHORD_RELEASE_MS (num_sub now f)" "num_le (num_sub now f) IMMERSIVE_SECOND_CHORD_MS"
    "startedAtMs c = now" "a \<or> b"
    by (auto simp: newCandidate_def Let_def split: if_splits option.splits)
  moreover from f(1) assms(3) have "chord_released_at f xs" by (simp add: detector_inv_def)
  ultimately show ?thesis
    unfolding second_started_at_def
    by (intro exI [of _ f] exI [of _ xs] exI [of _ "((a, b), now)"] exI [of _ "[]"]) auto
next
  case (Some c')
  with assms(1) have "candidate d = Some c" by (simp add: newCandidate_def)
  with assms(2,3) have "second_started_at (startedAtMs c) xs" by (simp add: detector_inv_def)
  then show ?thesis by (rule second_started_snoc)
qed

lemma detector_inv_snoc: "detector_inv xs d \<Longrightarrow> detector_inv (xs @ ys) d"
  by (auto simp: detector_inv_def intro: chord_released_snoc second_started_snoc)

lemma inv_expireFirst: "detector_inv xs d \<Longrightarrow> detector_inv xs (expireFirstChord now d)"
  by (auto simp: detector_inv_def expireFirstChord_def split: option.splits)

lemma inv_expireCandidate: "detector_inv xs d \<Longrightarrow> detector_inv xs (expireCandidate current now d)"
  by (auto simp: detector_inv_def expireCandidate_def split: option.splits)

lemma inv_newCandidate:
  assumes "detector_inv xs d" "p_select rising \<longrightarrow> a" "p_start rising \<longrightarrow> b"
  shows "detector_inv (xs @ [((a, b), now)]) (newCandidate rising now d)"
proof -
  have "chord (newCandidate rising now d) = chord d"
    "firstChordCompletedAtMs (newCandidate rising now d) = firstChordCompletedAtMs d"
    by (simp_all add: newCandidate_def Let_def split: option.split)
  then show ?thesis
    using detector_inv_snoc [OF assms(1), of "[((a, b), now)]"] newCandidate_second [OF _ _ assms]
    by (simp add: detector_inv_def)
qed

lemma inv_finish:
  assumes "detector_inv xs d" "chord d \<noteq> None"
  shows "detector_inv (xs @ [((a, b), now)]) (snd (finishChordWhenReleased \<lparr>p_select = a, p_start = b\<rparr> now d))"
proof (cases "a \<or> b")
  case True
  with assms show ?thesis by (simp add: finishChordWhenReleased_def detector_inv_snoc)
next
  case False
  have "list_ex both_down xs" using assms by (simp add: detector_inv_def)
  then have "chord_released_at now (xs @ [((a, b), now)])"
    unfolding chord_released_at_def
    by (intro exI [of _ xs] exI [of _ "((a, b), now)"] exI [of _ "[]"]) (use False in \<open>simp add: both_up_def\<close>)
  with False detector_inv_snoc [OF assms(1), of "[((a, b), now)]"] show ?thesis
    by (simp add: finishChordWhenReleased_def detector_inv_def)
qed

text \<open>A recognised chord, and what its output says of the history.\<close>

lemma recognize_cases:
  assumes "recognizeChord \<lparr>p_select = a, p_start = b\<rparr> rising now d = (r, d2)" "detector_inv xs d"
    and "p_select rising \<longrightarrow> a" "p_start rising \<longrightarrow> b"
  shows "detector_inv (xs @ [((a, b), now)]) d2 \<and>
    (\<forall>out. r = Some out \<longrightarrow> a \<and> b \<and> \<not> out_select out \<and> \<not> out_start out \<and>
      (openMenu out \<longrightarrow> double_chord_at a b now xs))"
proof -
  let ?xs = "xs @ [((a, b), now)]" and ?d = "newCandidate rising now d"
  have inv: "detector_inv ?xs ?d" by (rule inv_newCandidate [OF assms(2-4)])
  show ?thesis
  proof (cases r)
    case None
    with assms(1) have "d2 = ?d" by (auto simp: recognizeChord_def Let_def split: option.splits if_splits)
    with inv None show ?thesis by simp
  next
    case (Some out)
    with assms(1) obtain c where c: "candidate ?d = Some c"
      "of_key (if cand_first c = Select then Start else Select) rising"
      "of_key (cand_first c) \<lparr>p_select = a, p_start = b\<rparr>"
      "\<not> num_lt IMMERSIVE_CHORD_WINDOW_MS (num_sub now (startedAtMs c))"
      and out: "out = \<lparr>openMenu = cand_second c, out_select = False, out_start = False\<rparr>"
      and d2: "chord d2 = Some (cand_second c)" "candidate d2 = None"
        "firstChordCompletedAtMs d2 = (if cand_second c then None else firstChordCompletedAtMs ?d)"
      by (auto simp: recognizeChord_def Let_def split: option.splits if_splits)
    have ab: "a \<and> b" using c(2,3) assms(3,4) by (cases "cand_first c") (auto simp: of_key_def)
    then have "detector_inv ?xs d2" using inv d2 by (simp add: detector_inv_def both_down_def)
    moreover have "second_started_at (startedAtMs c) ?xs" if "cand_second c"
      using inv c(1) that by (simp add: detector_inv_def)
    ultimately show ?thesis using ab out Some c(4) by (auto simp: double_chord_at_def)
  qed
qed

lemma inv_update:
  assumes "detector_inv xs d" "detector_update a b now d = (out, d')"
  shows "detector_inv (xs @ [((a, b), now)]) d'"
    and "openMenu out \<longrightarrow> double_chord_at a b now xs"
proof -
  let ?xs = "xs @ [((a, b), now)]" and ?c = "\<lparr>p_select = a, p_start = b\<rparr>"
  define d0 where "d0 = (if \<not> is_finite now \<or> num_lt now (lastNowMs d) then detector_reset else d)\<lparr>lastNowMs := now\<rparr>"
  define rising where "rising = \<lparr>p_select = a \<and> \<not> p_select (previous d0), p_start = b \<and> \<not> p_start (previous d0)\<rparr>"
  define falling where "falling = \<lparr>p_select = \<not> a \<and> p_select (previous d0), p_start = \<not> b \<and> p_start (previous d0)\<rparr>"
  define d1 where "d1 = updateDownTimes rising now d0"
  have i0: "detector_inv xs d0" using assms(1) by (simp add: d0_def detector_inv_def detector_reset_def)
  then have i1: "detector_inv xs d1" by (simp add: d1_def updateDownTimes_def detector_inv_def Let_def)
  obtain o2 d2 where r: "reduceGesture ?c rising falling now d1 = (o2, d2)" by force
  have out: "out = o2" "chord d' = chord d2" "firstChordCompletedAtMs d' = firstChordCompletedAtMs d2"
    "candidate d' = candidate d2"
    using assms(2) r by (auto simp: detector_update_def Let_def d0_def rising_def falling_def d1_def)
  have main: "detector_inv ?xs d2 \<and> (openMenu o2 \<longrightarrow> double_chord_at a b now xs)"
  proof (cases "chord d1 = None")
    case False
    with r have "d2 = snd (finishChordWhenReleased ?c now d1)" "\<not> openMenu o2"
      by (auto simp: reduceGesture_def finishChordWhenReleased_def no_output_def split: if_splits)
    with inv_finish [OF i1 False, of a b now] show ?thesis by simp
  next
    case True
    obtain r' e where e: "recognizeChord ?c rising now (expireFirstChord now d1) = (r', e)" by force
    from recognize_cases [OF e inv_expireFirst [OF i1]] have rec: "detector_inv ?xs e"
      "\<forall>out. r' = Some out \<longrightarrow> openMenu out \<longrightarrow> double_chord_at a b now xs"
      by (auto simp: rising_def)
    then show ?thesis
      using r True e inv_expireCandidate [OF rec(1), of ?c now]
      by (cases r') (auto simp: reduceGesture_def Let_def)
  qed
  then show "detector_inv ?xs d'" using out by (simp add: detector_inv_def)
  show "openMenu out \<longrightarrow> double_chord_at a b now xs"
    using main out by simp
qed

lemma inv_run: "detector_inv xs (run_detector detector_reset xs)"
proof (induction xs rule: rev_induct)
  case Nil
  then show ?case by (simp add: detector_inv_def detector_reset_def)
next
  case (snoc x xs)
  obtain a b t where x: "x = ((a, b), t)" by (metis prod.exhaust)
  obtain out d' where u: "detector_update a b t (run_detector detector_reset xs) = (out, d')" by force
  from inv_update(1) [OF snoc u] show ?case by (simp add: x u)
qed

section \<open>The neutral gate against its history\<close>

definition run_gate :: "(bool \<times> rat) list \<Rightarrow> jsnum option" where
  "run_gate xs = foldl (\<lambda>s (n, t). snd (neutral_gate_update n (Fin t) s)) None xs"

lemma run_gate_since:
  "run_gate xs = (case rev (takeWhile fst (rev xs)) of [] \<Rightarrow> None | x # _ \<Rightarrow> Some (Fin (snd x)))"
proof (induction xs rule: rev_induct)
  case (snoc x xs)
  obtain n t where x: "x = (n, t)" by force
  show ?case
    using snoc by (auto simp: x run_gate_def neutral_gate_update_def Let_def split: list.splits option.splits)
qed (simp add: run_gate_def)

lemma chord_opened:
  assumes "openMenu (fst (detector_update a b now (run_detector detector_reset xs)))"
  shows "double_chord_at a b now xs"
proof -
  obtain out d' where u: "detector_update a b now (run_detector detector_reset xs) = (out, d')" by force
  with assms inv_update(2) [OF inv_run [of xs] u] show ?thesis by simp
qed

section \<open>Properties\<close>

text \<open>
  The menu opens only on a double chord: whatever was pressed and whatever the clock did before,
  \<open>openMenu\<close> is reported only while both buttons are down, no more than 100 milliseconds after one of
  them went down, and this was 60 to 650 milliseconds after the release of an earlier chord in which both
  had been down.
\<close>

theorem menu_needs_double_chord:
  assumes "openMenu (fst (detector_update a b now (run_detector detector_reset xs)))"
  shows "double_chord_at a b now xs"
  using assms by (rule chord_opened)

definition double_chord :: "sample list" where
  "double_chord = [((True, False), Fin 1000), ((True, True), Fin 1050), ((False, False), Fin 1200),
     ((False, True), Fin 1400)]"

theorem menu_needs_double_chord_witness:
  "double_chord_at True True (Fin 1450) double_chord"
proof -
  have "openMenu (fst (detector_update True True (Fin 1450) (run_detector detector_reset double_chord)))"
    by code_simp
  from menu_needs_double_chord [OF this] show ?thesis .
qed

text \<open>
  A chord is never leaked to the game: while a chord is held, and on the frame that recognises one,
  neither button is reported on its own.
\<close>

theorem chord_hides_buttons:
  assumes "detector_update a b now d = (out, d')" "is_finite now" "\<not> num_lt now (lastNowMs d)"
    and "chord d \<noteq> None \<or> chord d' \<noteq> None"
  shows "\<not> out_select out \<and> \<not> out_start out"
proof -
  have first: "chord (expireFirstChord now d1) = chord d1" for d1
    by (simp add: expireFirstChord_def split: option.split)
  have cand: "chord (expireCandidate c now d1) = chord d1" for c d1
    by (simp add: expireCandidate_def split: option.split)
  have none: "recognizeChord c r now d1 = (None, d2) \<Longrightarrow> chord d2 = chord d1" for c r d1 d2
    by (auto simp: recognizeChord_def newCandidate_def Let_def split: option.splits if_splits)
  have some: "recognizeChord c r now d1 = (Some rec, d2) \<Longrightarrow> \<not> out_select rec \<and> \<not> out_start rec" for c r d1 d2 rec
    by (auto simp: recognizeChord_def Let_def split: option.splits if_splits)
  have down: "chord (updateDownTimes r now d1) = chord d1" for r d1
    by (simp add: updateDownTimes_def Let_def)
  obtain current rising falling d1 d2 where r: "reduceGesture current rising falling now d1 = (out, d2)"
    "chord d' = chord d2" "chord d1 = chord d"
    using assms(1-3) by (auto simp: detector_update_def Let_def down split: prod.splits)
  show ?thesis
  proof (cases "chord d1 = None")
    case False
    with r show ?thesis
      by (auto simp: reduceGesture_def finishChordWhenReleased_def no_output_def split: if_splits)
  next
    case True
    with assms(4) r have "chord d2 \<noteq> None" by simp
    then show ?thesis
      using r(1) True some none first cand
      by (auto simp: reduceGesture_def Let_def singleButtonOutput_def split: prod.splits option.splits if_splits)
  qed
qed

theorem chord_hides_buttons_witness:
  "\<not> out_select (fst (detector_update True True (Fin 1450) (run_detector detector_reset double_chord))) \<and>
   \<not> out_start (fst (detector_update True True (Fin 1450) (run_detector detector_reset double_chord)))"
proof -
  obtain out d' where u: "detector_update True True (Fin 1450) (run_detector detector_reset double_chord) = (out, d')"
    by force
  have "chord (snd (detector_update True True (Fin 1450) (run_detector detector_reset double_chord))) = Some True"
    "\<not> num_lt (Fin 1450) (lastNowMs (run_detector detector_reset double_chord))" by code_simp+
  with u have "chord d' \<noteq> None" "\<not> num_lt (Fin 1450) (lastNowMs (run_detector detector_reset double_chord))"
    by simp_all
  then show ?thesis using chord_hides_buttons [OF u num_Fin(1)] u by simp
qed

text \<open>
  The neutral gate against its specification: it opens exactly when the latest sample is neutral and
  the unbroken neutral stretch it ends began at least 120 milliseconds earlier.
\<close>

theorem neutral_gate_spec:
  "fst (neutral_gate_update n (Fin t) (run_gate xs)) \<longleftrightarrow>
     n \<and> 120 \<le> t - snd (hd (rev (takeWhile fst (rev (xs @ [(n, t)])))))"
  by (auto simp: neutral_gate_update_def run_gate_since Let_def chord_constants split: list.splits)

end
