(* ===== verification/Startup_Timeline.thy ===== *)
theory Startup_Timeline
  imports Prelude
begin

text \<open>
  The startup display of the player: \<open>startup-task-model.ts\<close> (the bounded timeline of startup tasks),
  \<open>startupScrollSlots\<close> of \<open>startup-task-motion.ts\<close>, \<open>startup-label.ts\<close> and
  \<open>runtime-failure-message.ts\<close> (all in \<open>web/features/player\<close>). Tasks are values of the contract's
  type, so the checks of \<open>validTask\<close> on the shape of the object hold by typing and its checks on values
  are modelled. The Chinese texts are lists of UTF-16 units.
\<close>

section \<open>Tasks and their texts\<close>

datatype RuntimeStartupKindV1 =
    LAUNCH_CONFIG | PROVIDER_MODULE | ENVIRONMENT | BIOS | GAME_CONTENT | DEPENDENCIES | CORE_ASSETS
  | CORE_INITIALIZATION | CONTENT_MOUNT | RESTORE_LOAD | RESTORE_APPLY | GAME_START | PLAYER_SETUP

datatype task_state = TaskRunning | TaskCompleted | TaskFailed

record task =
  task_id :: jsstr
  task_kind :: RuntimeStartupKindV1
  task_state :: task_state
  task_progress :: "(jsnum \<times> jsnum) option"
  task_summary :: "bool option"

text \<open>\<open>startupLabels\<close>: the text of a running and of a finished task.\<close>

primrec startupLabels :: "RuntimeStartupKindV1 \<Rightarrow> jsstr \<times> jsstr" where
  "startupLabels LAUNCH_CONFIG = ([0x542F, 0x52A8, 0x4FE1, 0x606F, 0x51C6, 0x5907, 0x4E2D],
     [0x542F, 0x52A8, 0x4FE1, 0x606F, 0x5DF2, 0x5C31, 0x7EEA])"
| "startupLabels PROVIDER_MODULE = ([0x8FD0, 0x884C, 0x6A21, 0x5757, 0x51C6, 0x5907, 0x4E2D],
     [0x8FD0, 0x884C, 0x6A21, 0x5757, 0x5DF2, 0x5C31, 0x7EEA])"
| "startupLabels ENVIRONMENT = ([0x8FD0, 0x884C, 0x73AF, 0x5883, 0x51C6, 0x5907, 0x4E2D],
     [0x8FD0, 0x884C, 0x73AF, 0x5883, 0x5DF2, 0x5C31, 0x7EEA])"
| "startupLabels BIOS = ([0x42, 0x49, 0x4F, 0x53, 0x20, 0x51C6, 0x5907, 0x4E2D],
     [0x42, 0x49, 0x4F, 0x53, 0x20, 0x5DF2, 0x5C31, 0x7EEA])"
| "startupLabels GAME_CONTENT = ([0x6E38, 0x620F, 0x5185, 0x5BB9, 0x51C6, 0x5907, 0x4E2D],
     [0x6E38, 0x620F, 0x5185, 0x5BB9, 0x5DF2, 0x5C31, 0x7EEA])"
| "startupLabels DEPENDENCIES = ([0x4F9D, 0x8D56, 0x8D44, 0x6E90, 0x51C6, 0x5907, 0x4E2D],
     [0x4F9D, 0x8D56, 0x8D44, 0x6E90, 0x5DF2, 0x5C31, 0x7EEA])"
| "startupLabels CORE_ASSETS = ([0x6838, 0x5FC3, 0x8D44, 0x6E90, 0x51C6, 0x5907, 0x4E2D],
     [0x6838, 0x5FC3, 0x8D44, 0x6E90, 0x5DF2, 0x5C31, 0x7EEA])"
| "startupLabels CORE_INITIALIZATION = ([0x6838, 0x5FC3, 0x521D, 0x59CB, 0x5316, 0x4E2D],
     [0x6838, 0x5FC3, 0x521D, 0x59CB, 0x5316, 0x5B8C, 0x6210])"
| "startupLabels CONTENT_MOUNT = ([0x6E38, 0x620F, 0x5185, 0x5BB9, 0x88C5, 0x8F7D, 0x4E2D],
     [0x6E38, 0x620F, 0x5185, 0x5BB9, 0x88C5, 0x8F7D, 0x5B8C, 0x6210])"
| "startupLabels RESTORE_LOAD = ([0x5B58, 0x6863, 0x51C6, 0x5907, 0x4E2D],
     [0x5B58, 0x6863, 0x5DF2, 0x5C31, 0x7EEA])"
| "startupLabels RESTORE_APPLY = ([0x5B58, 0x6863, 0x6062, 0x590D, 0x4E2D],
     [0x5B58, 0x6863, 0x6062, 0x590D, 0x5B8C, 0x6210])"
| "startupLabels GAME_START = ([0x6E38, 0x620F, 0x542F, 0x52A8, 0x4E2D],
     [0x6E38, 0x620F, 0x542F, 0x52A8, 0x5B8C, 0x6210])"
| "startupLabels PLAYER_SETUP = ([0x753B, 0x9762, 0x4E0E, 0x63A7, 0x5236, 0x51C6, 0x5907, 0x4E2D],
     [0x753B, 0x9762, 0x4E0E, 0x63A7, 0x5236, 0x5DF2, 0x5C31, 0x7EEA])"

primrec startupTaskNames :: "RuntimeStartupKindV1 \<Rightarrow> jsstr" where
  "startupTaskNames LAUNCH_CONFIG = [0x542F, 0x52A8, 0x4FE1, 0x606F]"
| "startupTaskNames PROVIDER_MODULE = [0x8FD0, 0x884C, 0x65F6, 0x6A21, 0x5757]"
| "startupTaskNames ENVIRONMENT = [0x8FD0, 0x884C, 0x73AF, 0x5883]"
| "startupTaskNames BIOS = [0x42, 0x49, 0x4F, 0x53]"
| "startupTaskNames GAME_CONTENT = [0x6E38, 0x620F, 0x5185, 0x5BB9]"
| "startupTaskNames DEPENDENCIES = [0x4F9D, 0x8D56, 0x8D44, 0x6E90]"
| "startupTaskNames CORE_ASSETS = [0x6838, 0x5FC3, 0x8D44, 0x6E90]"
| "startupTaskNames CORE_INITIALIZATION = [0x6838, 0x5FC3, 0x521D, 0x59CB, 0x5316]"
| "startupTaskNames CONTENT_MOUNT = [0x5185, 0x5BB9, 0x88C5, 0x8F7D]"
| "startupTaskNames RESTORE_LOAD = [0x5B58, 0x6863, 0x52A0, 0x8F7D]"
| "startupTaskNames RESTORE_APPLY = [0x5B58, 0x6863, 0x6062, 0x590D]"
| "startupTaskNames GAME_START = [0x6E38, 0x620F, 0x542F, 0x52A8]"
| "startupTaskNames PLAYER_SETUP = [0x753B, 0x9762, 0x4E0E, 0x63A7, 0x5236]"

primrec startupLabel :: "RuntimeStartupKindV1 \<Rightarrow> jsstr" where
  "startupLabel LAUNCH_CONFIG = [0x6B63, 0x5728, 0x51C6, 0x5907, 0x542F, 0x52A8, 0x914D, 0x7F6E, 0x2026]"
| "startupLabel PROVIDER_MODULE = [0x6B63, 0x5728, 0x52A0, 0x8F7D, 0x8FD0, 0x884C, 0x6A21, 0x5757, 0x2026]"
| "startupLabel ENVIRONMENT = [0x6B63, 0x5728, 0x68C0, 0x67E5, 0x8FD0, 0x884C, 0x73AF, 0x5883, 0x2026]"
| "startupLabel BIOS = [0x6B63, 0x5728, 0x52A0, 0x8F7D, 0x20, 0x42, 0x49, 0x4F, 0x53, 0x2026]"
| "startupLabel GAME_CONTENT = [0x6B63, 0x5728, 0x52A0, 0x8F7D, 0x6E38, 0x620F, 0x5185, 0x5BB9, 0x2026]"
| "startupLabel DEPENDENCIES = [0x6B63, 0x5728, 0x52A0, 0x8F7D, 0x6E38, 0x620F, 0x4F9D, 0x8D56, 0x2026]"
| "startupLabel CORE_ASSETS = [0x6B63, 0x5728, 0x52A0, 0x8F7D, 0x8FD0, 0x884C, 0x6838, 0x5FC3, 0x2026]"
| "startupLabel CORE_INITIALIZATION = [0x6B63, 0x5728, 0x521D, 0x59CB, 0x5316, 0x8FD0, 0x884C, 0x6838, 0x5FC3, 0x2026]"
| "startupLabel CONTENT_MOUNT = [0x6B63, 0x5728, 0x51C6, 0x5907, 0x6E38, 0x620F, 0x8D44, 0x6E90, 0x2026]"
| "startupLabel RESTORE_LOAD = [0x6B63, 0x5728, 0x8BFB, 0x53D6, 0x5B58, 0x6863, 0x2026]"
| "startupLabel RESTORE_APPLY = [0x6B63, 0x5728, 0x6062, 0x590D, 0x6E38, 0x620F, 0x8FDB, 0x5EA6, 0x2026]"
| "startupLabel GAME_START = [0x6B63, 0x5728, 0x5F00, 0x59CB, 0x6E38, 0x620F, 0x2026]"
| "startupLabel PLAYER_SETUP = [0x6B63, 0x5728, 0x51C6, 0x5907, 0x64AD, 0x653E, 0x5668, 0x2026]"

definition starting_text :: jsstr where
  "starting_text = [0x6B63, 0x5728, 0x542F, 0x52A8, 0x6E38, 0x620F, 0x2026]"

section \<open>runtimeFailureMessage\<close>

datatype failure_category = FailContent | FailNetwork | FailStorage | FailSecurity | FailCore | FailConfiguration

datatype diagnostic_source = FromCore | FromRuntime

record failure =
  fail_code :: jsstr
  fail_category :: failure_category
  fail_diagnostics :: "(diagnostic_source \<times> jsstr) list"

primrec failure_summary :: "failure_category \<Rightarrow> jsstr" where
  "failure_summary FailContent = [0x6838, 0x5FC3, 0x65E0, 0x6CD5, 0x52A0, 0x8F7D, 0x6E38, 0x620F, 0x6587, 0x4EF6, 0xFF0C, 0x8BF7, 0x68C0, 0x67E5, 0x6E38, 0x620F, 0x5185, 0x5BB9, 0x548C, 0x8FD0, 0x884C, 0x914D, 0x7F6E, 0x3002]"
| "failure_summary FailNetwork = [0x6E38, 0x620F, 0x8D44, 0x6E90, 0x52A0, 0x8F7D, 0x5931, 0x8D25, 0xFF0C, 0x8BF7, 0x68C0, 0x67E5, 0x7F51, 0x7EDC, 0x8FDE, 0x63A5, 0x540E, 0x91CD, 0x8BD5, 0x3002]"
| "failure_summary FailStorage = [0x6D4F, 0x89C8, 0x5668, 0x5B58, 0x50A8, 0x4E0D, 0x53EF, 0x7528, 0xFF0C, 0x8BF7, 0x68C0, 0x67E5, 0x5B58, 0x50A8, 0x7A7A, 0x95F4, 0x548C, 0x6743, 0x9650, 0x540E, 0x91CD, 0x8BD5, 0x3002]"
| "failure_summary FailSecurity = [0x6D4F, 0x89C8, 0x5668, 0x963B, 0x6B62, 0x4E86, 0x6E38, 0x620F, 0x8FD0, 0x884C, 0xFF0C, 0x8BF7, 0x68C0, 0x67E5, 0x6D4F, 0x89C8, 0x5668, 0x6743, 0x9650, 0x3002]"
| "failure_summary FailConfiguration = [0x8FD0, 0x884C, 0x914D, 0x7F6E, 0x4E0D, 0x53EF, 0x7528, 0xFF0C, 0x8BF7, 0x68C0, 0x67E5, 0x6838, 0x5FC3, 0x548C, 0x6E38, 0x620F, 0x914D, 0x7F6E, 0x3002]"
| "failure_summary FailCore = [0x8FD0, 0x884C, 0x6838, 0x5FC3, 0x53D1, 0x751F, 0x9519, 0x8BEF, 0xFF0C, 0x8BF7, 0x8FD4, 0x56DE, 0x540E, 0x91CD, 0x8BD5, 0x3002]"

definition encrypted_text :: jsstr where
  "encrypted_text = [0x6838, 0x5FC3, 0x65E0, 0x6CD5, 0x52A0, 0x8F7D, 0x5F53, 0x524D, 0x52A0, 0x5BC6, 0x5185, 0x5BB9, 0xFF0C, 0x8BF7, 0x68C0, 0x67E5, 0x6E38, 0x620F, 0x6587, 0x4EF6, 0x548C, 0x8FD0, 0x884C, 0x914D, 0x7F6E, 0x3002]"

definition runtimeFailureMessage :: "failure \<Rightarrow> jsstr" where
  "runtimeFailureMessage f =
     (let summary = (if fail_code f = js ''PLAYER_CONTENT_ENCRYPTED'' then encrypted_text
                     else failure_summary (fail_category f));
          native = map snd (filter (\<lambda>(s, m). s = FromCore) (fail_diagnostics f)) in
      join_with [0x0A] (summary # native))"

section \<open>The timeline\<close>

record timeline =
  rows :: "task list"
  hiddenActive :: "(jsstr, task) amap"
  summaries :: "(jsstr, task) amap"
  seen :: "jsstr list"

definition new_timeline :: timeline where
  "new_timeline = \<lparr>rows = [], hiddenActive = [], summaries = [], seen = []\<rparr>"

text \<open>\<open>!!task.summary\<close>\<close>

definition is_summary :: "task \<Rightarrow> bool" where
  "is_summary t = (task_summary t = Some True)"

definition running :: "task \<Rightarrow> bool" where
  "running t = (task_state t = TaskRunning)"

definition validTask :: "task \<Rightarrow> bool" where
  "validTask t \<longleftrightarrow> 1 \<le> length (task_id t) \<and> length (task_id t) \<le> 128 \<and>
     (case task_progress t of
        None \<Rightarrow> True
      | Some (loaded, amount) \<Rightarrow> safe_integer loaded \<and> safe_integer amount \<and>
          num_lt (Fin 0) amount \<and> num_le (Fin 0) loaded \<and> num_le loaded amount)"

text \<open>\<open>xs.at(-1)\<close>\<close>

definition last_of :: "'a list \<Rightarrow> 'a option" where
  "last_of xs = (if xs = [] then None else Some (last xs))"

definition visibleSummary :: "timeline \<Rightarrow> task option" where
  "visibleSummary s = (if list_ex running (rows s) then None else last_of (amap_vals (summaries s)))"

text \<open>The loop of \<open>snapshot\<close>: rows beyond the room leave at the front; running ones are hidden.\<close>

function shift_rows :: "nat \<Rightarrow> task list \<Rightarrow> (jsstr, task) amap \<Rightarrow> task list \<times> (jsstr, task) amap" where
  "shift_rows room rs hidden =
     (if room < length rs
      then shift_rows room (tl rs) (if running (hd rs) then amap_put (task_id (hd rs)) (hd rs) hidden else hidden)
      else (rs, hidden))"
  by pat_completeness auto
termination
  by (relation "measure (\<lambda>(room, rs, hidden). length rs)") auto

declare shift_rows.simps [simp del]

definition snapshot :: "timeline \<Rightarrow> task list \<times> timeline" where
  "snapshot s =
     (let ordered = filter (\<lambda>t. \<not> running t) (rows s) @ filter running (rows s);
          summary = visibleSummary (s\<lparr>rows := ordered\<rparr>);
          (rs, hidden) = shift_rows (if summary = None then 3 else 2) ordered (hiddenActive s) in
      ((case summary of Some t \<Rightarrow> rs @ [t] | None \<Rightarrow> rs), s\<lparr>rows := rs, hiddenActive := hidden\<rparr>))"

definition receiveSummary :: "task \<Rightarrow> timeline \<Rightarrow> timeline" where
  "receiveSummary t s =
     (case map_of (summaries s) (task_id t) of
        Some current \<Rightarrow>
          if task_kind current \<noteq> task_kind t then s
          else if running t then s\<lparr>summaries := amap_put (task_id t) t (summaries s)\<rparr>
          else (let s1 = (if map_option task_id (visibleSummary s) = Some (task_id t)
                          then s\<lparr>rows := rows s @ [t]\<rparr> else s) in
                s1\<lparr>summaries := amap_del (task_id t) (summaries s1)\<rparr>)
      | None \<Rightarrow>
          if running t \<and> task_id t \<notin> set (seen s)
          then s\<lparr>seen := task_id t # seen s, summaries := amap_put (task_id t) t (summaries s)\<rparr>
          else s)"

text \<open>What \<open>receive\<close> changes before it takes the snapshot.\<close>

definition accept_task :: "task \<Rightarrow> timeline \<Rightarrow> timeline" where
  "accept_task t s =
     (case map_of (hiddenActive s) (task_id t) of
        Some current \<Rightarrow>
          if task_kind current \<noteq> task_kind t \<or> is_summary current \<noteq> is_summary t then s
          else if \<not> running t then s\<lparr>hiddenActive := amap_del (task_id t) (hiddenActive s)\<rparr>
          else s
      | None \<Rightarrow>
          (case find (\<lambda>r. task_id r = task_id t) (rows s) of
             Some current \<Rightarrow>
               if task_kind current \<noteq> task_kind t \<or> \<not> running current \<or> is_summary current \<noteq> is_summary t then s
               else s\<lparr>rows := (let i = length (takeWhile (\<lambda>r. task_id r \<noteq> task_id t) (rows s)) in (rows s)[i := t])\<rparr>
           | None \<Rightarrow>
               if is_summary t then receiveSummary t s
               else if running t \<and> task_id t \<notin> set (seen s)
               then s\<lparr>seen := task_id t # seen s, rows := rows s @ [t]\<rparr>
               else s))"

definition receive :: "task \<Rightarrow> timeline \<Rightarrow> task list \<times> timeline" where
  "receive t s = (if \<not> validTask t then snapshot s else snapshot (accept_task t s))"

definition message :: "timeline \<Rightarrow> jsstr \<times> timeline" where
  "message s =
     (let (shown, s1) = snapshot s;
          active = (case last_of (filter running shown) of
              Some t \<Rightarrow> Some t | None \<Rightarrow> last_of (amap_vals (hiddenActive s1))) in
      ((case active of Some t \<Rightarrow> fst (startupLabels (task_kind t)) | None \<Rightarrow> starting_text), s1))"

text \<open>\<open>Math.floor(loadedBytes * 100 / totalBytes)\<close>, for the safe integers of a valid task.\<close>

definition startupPercentage :: "task \<Rightarrow> int option" where
  "startupPercentage t =
     (case task_progress t of
        Some (Fin l, Fin n) \<Rightarrow> Some \<lfloor>l * 100 / n\<rfloor>
      | _ \<Rightarrow> None)"

section \<open>Scrolling\<close>

definition index_of :: "'a \<Rightarrow> 'a list \<Rightarrow> int" where
  "index_of x xs = (if x \<in> set xs then int (length (takeWhile (\<lambda>y. y \<noteq> x) xs)) else -1)"

definition scroll_shifts :: "jsstr list \<Rightarrow> jsstr list \<Rightarrow> int list" where
  "scroll_shifts previous nxt =
     concat (map (\<lambda>(i, index). let old = index_of i previous in
       if old < 0 then [] else [int (length nxt) - int (length previous) + old - int index])
       (zip nxt [0..<length nxt]))"

definition startupScrollSlots :: "jsstr list \<Rightarrow> jsstr list \<Rightarrow> int" where
  "startupScrollSlots previous nxt =
     (if previous = [] then 1
      else let shifts = scroll_shifts previous nxt in
        if shifts \<noteq> [] \<and> list_all (\<lambda>s. s = hd shifts) shifts then max 0 (hd shifts) else 0)"

end
