(* ===== verification/Startup_Properties.thy ===== *)
theory Startup_Properties
  imports Startup_Timeline
begin

text \<open>
  The startup display keeps its promise of a bounded visible history: the invariant of the timeline (no
  task is in two places, every task was seen), what a snapshot shows, the range of a percentage, and the
  number of slots the list scrolls.
\<close>

section \<open>The invariant\<close>

definition keyed :: "(jsstr, task) amap \<Rightarrow> bool" where
  "keyed m \<longleftrightarrow> amap_ok m \<and> (\<forall>k t. map_of m k = Some t \<longrightarrow> task_id t = k)"

definition row_ids :: "timeline \<Rightarrow> jsstr set" where
  "row_ids s = task_id ` set (rows s)"

definition timeline_inv :: "timeline \<Rightarrow> bool" where
  "timeline_inv s \<longleftrightarrow> distinct (map task_id (rows s)) \<and> keyed (hiddenActive s) \<and> keyed (summaries s) \<and>
     row_ids s \<inter> dom (map_of (hiddenActive s)) = {} \<and>
     (row_ids s \<union> dom (map_of (hiddenActive s))) \<inter> dom (map_of (summaries s)) = {} \<and>
     row_ids s \<union> dom (map_of (hiddenActive s)) \<union> dom (map_of (summaries s)) \<subseteq> set (seen s)"

lemma keyed_Nil [simp]: "keyed []"
  by (simp add: keyed_def)

lemma keyed_put [simp]: "keyed m \<Longrightarrow> keyed (amap_put (task_id t) t m)"
  by (auto simp: keyed_def am.ok_put)

lemma keyed_del [simp]: "keyed m \<Longrightarrow> keyed (amap_del k m)"
  by (auto simp: keyed_def am.ok_del amap_get_del)

lemma keyed_vals: "keyed m \<Longrightarrow> t \<in> set (amap_vals m) \<Longrightarrow> task_id t \<in> dom (map_of m)"
  by (auto simp: keyed_def amap_vals_mem dom_def)

lemma dom_put [simp]: "dom (map_of (amap_put k v m)) = insert k (dom (map_of m))"
  by simp

text \<open>The loop of the snapshot keeps the last rows and hides the running ones it drops.\<close>

lemma shift_rows_keeps:
  "shift_rows room rs hidden = (out, hidden') \<Longrightarrow> keyed hidden \<Longrightarrow>
     out = drop (length rs - room) rs \<and> keyed hidden' \<and>
     dom (map_of hidden') = dom (map_of hidden) \<union>
       task_id ` set (filter running (take (length rs - room) rs))"
proof (induction room rs hidden rule: shift_rows.induct)
  case (1 room rs hidden)
  show ?case
  proof (cases "room < length rs")
    case True
    then obtain r rs' where rs: "rs = r # rs'" "room \<le> length rs'" by (cases rs) auto
    let ?h = "if running r then amap_put (task_id r) r hidden else hidden"
    have "shift_rows room rs' ?h = (out, hidden')"
      using 1(2) True rs by (cases "running r") (simp_all add: shift_rows.simps [of room "r # rs'"])
    moreover have "keyed ?h" "dom (map_of ?h) = dom (map_of hidden) \<union> (if running r then {task_id r} else {})"
      using 1(3) by simp_all
    ultimately have "out = drop (length rs' - room) rs' \<and> keyed hidden' \<and>
        dom (map_of hidden') = dom (map_of ?h) \<union> task_id ` set (filter running (take (length rs' - room) rs'))"
      using 1(1) [OF True] rs by (cases "running r") (simp_all del: amap_get_put)
    moreover have "length rs - room = Suc (length rs' - room)" using rs by simp
    ultimately show ?thesis using rs by (cases "running r") (auto simp del: amap_get_put)
  next
    case False
    with 1(2,3) show ?thesis by (simp add: shift_rows.simps [of room rs])
  qed
qed

text \<open>A running task does not stand above a settled one.\<close>

definition settled_first :: "task \<Rightarrow> task \<Rightarrow> bool" where
  "settled_first a b = (running a \<longrightarrow> running b)"

definition ordered_rows :: "timeline \<Rightarrow> task list" where
  "ordered_rows s = filter (\<lambda>t. \<not> running t) (rows s) @ filter running (rows s)"

lemma distinct_partition:
  "distinct (map f (filter (\<lambda>x. \<not> P x) xs @ filter P xs)) = distinct (map f xs)"
  by (induction xs) auto

lemma ordered_rows_simps:
  "set (ordered_rows s) = set (rows s)"
  "distinct (map task_id (ordered_rows s)) = distinct (map task_id (rows s))"
  by (auto simp: ordered_rows_def distinct_partition simp del: map_append)

lemma ordered_rows_sorted: "sorted_wrt settled_first (ordered_rows s)"
proof -
  have "sorted_wrt settled_first xs" if "list_all running xs \<or> list_all (\<lambda>t. \<not> running t) xs" for xs
    using that by (induction xs) (auto simp: list_all_iff settled_first_def)
  then show ?thesis by (auto simp: ordered_rows_def sorted_wrt_append list_all_iff settled_first_def)
qed

text \<open>What a snapshot shows and what it leaves.\<close>

lemma snapshot_result:
  assumes "snapshot s = (shown, s')" "timeline_inv s"
  defines "summary \<equiv> visibleSummary (s\<lparr>rows := ordered_rows s\<rparr>)"
  shows "rows s' = drop (length (rows s) - (if summary = None then 3 else 2)) (ordered_rows s)"
    and "shown = (case summary of None \<Rightarrow> rows s' | Some t \<Rightarrow> rows s' @ [t])"
    and "summaries s' = summaries s" "seen s' = seen s"
    and "timeline_inv s'" "row_ids s' \<union> dom (map_of (hiddenActive s')) \<subseteq> row_ids s \<union> dom (map_of (hiddenActive s))"
    and "row_ids s' \<subseteq> row_ids s"
proof -
  let ?room = "if summary = None then 3 else 2 :: nat" and ?o = "ordered_rows s"
  have len: "length ?o = length (rows s)" using sum_length_filter_compl [of running "rows s"] by (simp add: ordered_rows_def)
  obtain rs h where sh: "shift_rows ?room ?o (hiddenActive s) = (rs, h)" by force
  with assms(1) show st: "rows s' = drop (length (rows s) - ?room) ?o"
      "shown = (case summary of None \<Rightarrow> rows s' | Some t \<Rightarrow> rows s' @ [t])"
      "summaries s' = summaries s" "seen s' = seen s"
    using shift_rows_keeps [OF sh] assms(2) len
    by (auto simp: snapshot_def Let_def timeline_inv_def summary_def simp flip: ordered_rows_def split: option.splits)
  have h: "hiddenActive s' = h"
    using assms(1) sh by (auto simp: snapshot_def Let_def summary_def simp flip: ordered_rows_def split: option.splits)
  let ?n = "length (rows s) - ?room"
  have kh: "keyed h" "dom (map_of h) = dom (map_of (hiddenActive s)) \<union> task_id ` set (filter running (take ?n ?o))"
    using shift_rows_keeps [OF sh] assms(2) len by (auto simp: timeline_inv_def)
  have "distinct (map task_id (take ?n ?o @ drop ?n ?o))"
    using assms(2) by (simp only: append_take_drop_id ordered_rows_simps timeline_inv_def)
  then have d: "distinct (map task_id (drop ?n ?o))"
    "task_id ` set (take ?n ?o) \<inter> task_id ` set (drop ?n ?o) = {}"
    by (simp_all only: map_append distinct_append set_map)
  have sub: "set (take ?n ?o) \<subseteq> set (rows s)" "set (drop ?n ?o) \<subseteq> set (rows s)"
    unfolding ordered_rows_simps(1) [of s, symmetric] by (rule set_take_subset, rule set_drop_subset)
  then show "row_ids s' \<union> dom (map_of (hiddenActive s')) \<subseteq> row_ids s \<union> dom (map_of (hiddenActive s))"
    using kh(2) by (auto simp: row_ids_def st h)
  from sub(2) show rows_sub: "row_ids s' \<subseteq> row_ids s" by (auto simp: row_ids_def st)
  have dis: "row_ids s' \<inter> task_id ` set (take ?n ?o) = {}" using d(2) unfolding row_ids_def st(1) by blast
  have taken: "task_id ` set (filter running (take ?n ?o)) \<subseteq> row_ids s \<inter> task_id ` set (take ?n ?o)"
    using sub(1) by (auto simp: row_ids_def)
  have "row_ids s \<inter> dom (map_of (hiddenActive s)) = {}" using assms(2) by (simp add: timeline_inv_def)
  then have hid: "row_ids s' \<inter> dom (map_of h) = {}" "dom (map_of h) \<subseteq> row_ids s \<union> dom (map_of (hiddenActive s))"
    unfolding kh(2) using taken dis rows_sub by blast+
  have sums: "(row_ids s \<union> dom (map_of (hiddenActive s))) \<inter> dom (map_of (summaries s)) = {}"
    "row_ids s \<union> dom (map_of (hiddenActive s)) \<union> dom (map_of (summaries s)) \<subseteq> set (seen s)" "keyed (summaries s)"
    using assms(2) by (simp_all add: timeline_inv_def)
  have "(row_ids s' \<union> dom (map_of h)) \<inter> dom (map_of (summaries s)) = {}" using sums(1) hid(2) rows_sub by blast
  moreover have "row_ids s' \<union> dom (map_of h) \<union> dom (map_of (summaries s)) \<subseteq> set (seen s)"
    using sums(2) hid(2) rows_sub by blast
  moreover have "distinct (map task_id (rows s'))" using d(1) by (simp add: st)
  ultimately show "timeline_inv s'"
    using kh(1) hid(1) sums(3) by (simp add: timeline_inv_def st(3,4) h del: map_append)
qed

lemma visibleSummary_mem: "visibleSummary s = Some t \<Longrightarrow> t \<in> set (amap_vals (summaries s)) \<and> \<not> list_ex running (rows s)"
  by (auto simp: visibleSummary_def last_of_def split: if_splits)

section \<open>What one task changes\<close>

lemma inv_ids:
  assumes "timeline_inv s"
  shows "t \<in> set (rows s) \<Longrightarrow> task_id t \<in> set (seen s)"
    and "map_of (hiddenActive s) k = Some t \<Longrightarrow> task_id t = k"
    and "map_of (summaries s) k = Some t \<Longrightarrow> task_id t = k"
  using assms by (auto simp: timeline_inv_def row_ids_def keyed_def)

lemma find_row: "find (\<lambda>r. task_id r = i) rs = None \<longleftrightarrow> i \<notin> task_id ` set rs"
  by (auto simp: find_None_iff)

lemma replaced_row_ids:
  "map task_id (rs[length (takeWhile (\<lambda>r. task_id r \<noteq> task_id t) rs) := t]) = map task_id rs"
  by (induction rs) auto

lemma inv_receiveSummary:
  assumes "timeline_inv s" "task_id t \<notin> row_ids s" "map_of (hiddenActive s) (task_id t) = None"
  shows "timeline_inv (receiveSummary t s)"
  using assms
  by (auto simp: receiveSummary_def timeline_inv_def row_ids_def Let_def amap_get_del split: option.splits)

lemma inv_accept: "timeline_inv s \<Longrightarrow> timeline_inv (accept_task t s)"
proof -
  assume s: "timeline_inv s"
  show ?thesis
  proof (cases "map_of (hiddenActive s) (task_id t)")
    case (Some c)
    with s show ?thesis
      by (auto simp: accept_task_def timeline_inv_def amap_get_del row_ids_def)
  next
    case hidden: None
    show ?thesis
    proof (cases "find (\<lambda>r. task_id r = task_id t) (rows s)")
      case (Some c)
      let ?rs = "(rows s)[length (takeWhile (\<lambda>r. task_id r \<noteq> task_id t) (rows s)) := t]"
      have "map task_id ?rs = map task_id (rows s)" by (rule replaced_row_ids)
      then have "task_id ` set ?rs = row_ids s" "distinct (map task_id ?rs) = distinct (map task_id (rows s))"
        by (metis row_ids_def list.set_map, simp)
      with s have "timeline_inv (s\<lparr>rows := ?rs\<rparr>)" by (simp add: timeline_inv_def row_ids_def)
      with s hidden Some show ?thesis by (simp add: accept_task_def Let_def)
    next
      case None
      then have "task_id t \<notin> row_ids s" by (simp add: find_row row_ids_def)
      with s hidden None inv_receiveSummary [OF s _ hidden] show ?thesis
        by (auto simp: accept_task_def timeline_inv_def row_ids_def)
    qed
  qed
qed

lemma inv_receive: "timeline_inv s \<Longrightarrow> timeline_inv (snd (receive t s))"
  using snapshot_result(5) [of s "fst (snapshot s)" "snd (snapshot s)"]
    snapshot_result(5) [of "accept_task t s" "fst (snapshot (accept_task t s))" "snd (snapshot (accept_task t s))"]
  by (auto simp: receive_def inv_accept)

section \<open>A sequence of tasks\<close>

definition timeline_after :: "task list \<Rightarrow> timeline" where
  "timeline_after ts = foldl (\<lambda>s t. snd (receive t s)) new_timeline ts"

text \<open>What the player shows after the tasks \<open>ts\<close> and then \<open>t\<close> arrived.\<close>

definition shown_after :: "task list \<Rightarrow> task \<Rightarrow> task list" where
  "shown_after ts t = fst (receive t (timeline_after ts))"

lemma timeline_after_simps [simp]:
  "timeline_after [] = new_timeline"
  "timeline_after (ts @ [t]) = snd (receive t (timeline_after ts))"
  by (simp_all add: timeline_after_def)

lemma inv_after: "timeline_inv (timeline_after ts)"
  by (induction ts rule: rev_induct)
    (simp_all add: inv_receive, simp add: timeline_inv_def new_timeline_def row_ids_def)

lemma receive_snapshot: "\<exists>s'. receive t s = snapshot s' \<and> (timeline_inv s \<longrightarrow> timeline_inv s')"
  by (auto simp: receive_def inv_accept)

lemma snapshot_shown:
  assumes "snapshot s = (shown, s')" "timeline_inv s"
  shows "length shown \<le> 3 \<and> distinct (map task_id shown) \<and> sorted_wrt settled_first (rows s') \<and>
    set shown \<subseteq> set (rows s') \<union> set (amap_vals (summaries s')) \<and> set (rows s') \<subseteq> set shown"
proof -
  define summary where "summary = visibleSummary (s\<lparr>rows := ordered_rows s\<rparr>)"
  note r = snapshot_result [OF assms, folded summary_def]
  have len: "length (ordered_rows s) = length (rows s)"
    using sum_length_filter_compl [of running "rows s"] by (simp add: ordered_rows_def)
  have sorted: "sorted_wrt settled_first (rows s')"
    unfolding r(1) by (rule sorted_wrt_drop [OF ordered_rows_sorted])
  have d: "distinct (map task_id (rows s'))" using r(5) by (simp add: timeline_inv_def)
  show ?thesis
  proof (cases summary)
    case None
    with r(1,2) len d sorted show ?thesis by auto
  next
    case (Some t)
    from Some visibleSummary_mem [of "s\<lparr>rows := ordered_rows s\<rparr>" t] have t: "t \<in> set (amap_vals (summaries s'))"
      by (simp add: summary_def r(3))
    then have "task_id t \<in> dom (map_of (summaries s'))" using r(5) keyed_vals by (auto simp: timeline_inv_def)
    then have "task_id t \<notin> row_ids s'" using r(5) by (auto simp: timeline_inv_def)
    then have "distinct (map task_id (rows s' @ [t]))" using d by (simp add: row_ids_def)
    moreover have "length (rows s') \<le> 2" using Some r(1) len by simp
    ultimately show ?thesis using r(2) Some sorted t by auto
  qed
qed

definition gone :: "jsstr \<Rightarrow> timeline \<Rightarrow> bool" where
  "gone i s \<longleftrightarrow> i \<in> set (seen s) \<and> i \<notin> row_ids s \<and> i \<notin> dom (map_of (summaries s))"

definition settled_row :: "jsstr \<Rightarrow> timeline \<Rightarrow> bool" where
  "settled_row i s \<longleftrightarrow> i \<in> set (seen s) \<and> i \<notin> dom (map_of (summaries s))"

lemma receive_keeps_settled: "timeline_inv s \<Longrightarrow> settled_row i s \<Longrightarrow> settled_row i (snd (receive t s))"
proof -
  assume s: "timeline_inv s" "settled_row i s"
  then have a: "settled_row i (accept_task t s)"
    by (auto simp: accept_task_def receiveSummary_def settled_row_def Let_def amap_get_del split: option.splits if_splits)
  have "settled_row i (snd (snapshot u)) = settled_row i u" if "timeline_inv u" for u
    using snapshot_result(3,4) [OF _ that, of "fst (snapshot u)" "snd (snapshot u)"] by (simp add: settled_row_def)
  with s a inv_accept [OF s(1), of t] show ?thesis by (simp add: receive_def)
qed

lemma accept_keeps_gone: "timeline_inv s \<Longrightarrow> gone i s \<Longrightarrow> gone i (accept_task t s)"
proof -
  assume s: "timeline_inv s" "gone i s"
  have "task_id ` set ((rows s)[length (takeWhile (\<lambda>r. task_id r \<noteq> task_id t) (rows s)) := t]) = row_ids s"
    by (metis row_ids_def list.set_map replaced_row_ids)
  with s show ?thesis
    by (auto simp: accept_task_def receiveSummary_def gone_def row_ids_def Let_def amap_get_del split: option.splits if_splits)
qed

lemma receive_keeps_gone: "timeline_inv s \<Longrightarrow> gone i s \<Longrightarrow> gone i (snd (receive t s))"
proof -
  assume s: "timeline_inv s" "gone i s"
  have "gone i (snd (snapshot u))" if "timeline_inv u" "gone i u" for u
    using snapshot_result(3,4,7) [OF _ that(1), of "fst (snapshot u)" "snd (snapshot u)"] that(2)
    by (auto simp: gone_def)
  with s inv_accept [OF s(1)] accept_keeps_gone [OF s] show ?thesis by (simp add: receive_def)
qed

lemma settled_after: "settled_row i (timeline_after ts) \<Longrightarrow> settled_row i (timeline_after (ts @ us))"
  by (induction us rule: rev_induct) (simp_all add: receive_keeps_settled inv_after flip: append_assoc)

lemma gone_after: "gone i (timeline_after ts) \<Longrightarrow> gone i (timeline_after (ts @ us))"
  by (induction us rule: rev_induct) (simp_all add: receive_keeps_gone inv_after flip: append_assoc)

text \<open>The list on the screen, read back from the state.\<close>

lemma shown_state:
  "set (shown_after ts t) \<subseteq> set (rows (timeline_after (ts @ [t]))) \<union> set (amap_vals (summaries (timeline_after (ts @ [t]))))"
  "set (rows (timeline_after (ts @ [t]))) \<subseteq> set (shown_after ts t)"
proof -
  obtain s' where s: "receive t (timeline_after ts) = snapshot s'" "timeline_inv s'"
    using receive_snapshot inv_after by blast
  obtain sh u where "snapshot s' = (sh, u)" by force
  with snapshot_shown [OF this s(2)] s(1)
  show "set (shown_after ts t) \<subseteq> set (rows (timeline_after (ts @ [t]))) \<union> set (amap_vals (summaries (timeline_after (ts @ [t]))))"
    "set (rows (timeline_after (ts @ [t]))) \<subseteq> set (shown_after ts t)"
    by (simp_all add: shown_after_def)
qed

lemma gone_not_shown: "gone i (timeline_after (ts @ [t])) \<Longrightarrow> i \<notin> task_id ` set (shown_after ts t)"
proof
  assume g: "gone i (timeline_after (ts @ [t]))" and "i \<in> task_id ` set (shown_after ts t)"
  then obtain x where x: "x \<in> set (shown_after ts t)" "task_id x = i" by blast
  with shown_state(1) [of ts t] g have "x \<in> set (amap_vals (summaries (timeline_after (ts @ [t]))))"
    by (auto simp: gone_def row_ids_def)
  with inv_after [of "ts @ [t]"] keyed_vals have "i \<in> dom (map_of (summaries (timeline_after (ts @ [t]))))"
    unfolding timeline_inv_def x(2) [symmetric] by blast
  with g show False by (simp add: gone_def)
qed

definition summaries_ok :: "timeline \<Rightarrow> bool" where
  "summaries_ok s \<longleftrightarrow> (\<forall>k t. map_of (summaries s) k = Some t \<longrightarrow> is_summary t)"

lemma snapshot_summaries: "summaries (snd (snapshot s)) = summaries s"
  by (simp add: snapshot_def Let_def split: prod.split)

lemma summaries_ok_keep [simp]:
  "summaries_ok (s\<lparr>rows := q\<rparr>) = summaries_ok s"
  "summaries_ok (s\<lparr>hiddenActive := h\<rparr>) = summaries_ok s"
  "summaries_ok (s\<lparr>seen := i\<rparr>) = summaries_ok s"
  by (simp_all add: summaries_ok_def)

lemma summaries_ok_after: "summaries_ok (timeline_after ts)"
proof (induction ts rule: rev_induct)
  case (snoc t ts)
  have put: "summaries_ok (s\<lparr>seen := q, summaries := amap_put (task_id t) t (summaries s)\<rparr>)"
    if "summaries_ok s" "is_summary t" for s q using that by (simp add: summaries_ok_def)
  have del: "summaries_ok (s\<lparr>rows := q, summaries := amap_del k (summaries s)\<rparr>)" if "summaries_ok s" for s k q
    using that by (simp add: summaries_ok_def amap_get_del)
  have "summaries_ok (receiveSummary t s)" if "summaries_ok s" "is_summary t" for s
    using that put [OF that, of "seen s"] put [OF that] del [where q = "rows s", OF that(1)] del [OF that(1)]
    by (simp add: receiveSummary_def Let_def split: option.split)
  then have "summaries_ok (accept_task t s)" if "summaries_ok s" for s
    using that by (simp add: accept_task_def Let_def split: option.split)
  with snoc show ?case by (simp add: receive_def summaries_ok_def snapshot_summaries)
qed (simp add: summaries_ok_def new_timeline_def)

lemma shown_row:
  assumes "x \<in> set (shown_after ts t)" "\<not> is_summary x"
  shows "settled_row (task_id x) (timeline_after (ts @ [t]))"
proof -
  let ?s = "timeline_after (ts @ [t])"
  have inv: "timeline_inv ?s" by (rule inv_after)
  have "x \<notin> set (amap_vals (summaries ?s))"
    using summaries_ok_after [of "ts @ [t]"] assms(2) inv
    by (auto simp: summaries_ok_def timeline_inv_def keyed_def amap_vals_mem)
  with assms(1) shown_state(1) [of ts t] have "x \<in> set (rows ?s)" by blast
  then have "task_id x \<in> row_ids ?s" by (auto simp: row_ids_def)
  with inv show ?thesis unfolding timeline_inv_def settled_row_def by blast
qed

lemma startupScroll_survivors:
  assumes "scroll_shifts previous nxt = replicate n (int k)" "previous \<noteq> []" "0 < n"
  shows "startupScrollSlots previous nxt = int k"
  using assms by (simp add: startupScrollSlots_def Let_def list_all_iff)

lemma index_of_drop:
  assumes "distinct xs" "i < length xs"
  shows "index_of (xs ! i) xs = int i"
proof -
  have "length (takeWhile (\<lambda>y. y \<noteq> xs ! i) xs) = i"
    using assms by (induction xs arbitrary: i) (auto simp: nth_Cons split: nat.splits)
  with assms show ?thesis by (simp add: index_of_def)
qed

lemma scroll_shifts_drop:
  assumes "distinct previous" "k \<le> length previous" "set previous \<inter> set new = {}"
  shows "scroll_shifts previous (drop k previous @ new) = replicate (length previous - k) (int (length new))"
proof -
  let ?n = "length previous - k" and ?next = "drop k previous @ new"
  let ?f = "\<lambda>(i, index). let old = index_of i previous in
       if old < 0 then [] else [int (length ?next) - int (length previous) + old - int index]"
  have a: "map ?f (zip (drop k previous) [0..<?n]) = map (\<lambda>j. [int (length new)]) [0..<?n]"
    using assms by (intro nth_equalityI) (auto simp: index_of_drop)
  have b: "map ?f (zip new [?n..<length ?next]) = map (\<lambda>j. []) [?n..<length ?next]"
    using assms by (intro nth_equalityI) (auto simp: index_of_def Let_def disjoint_iff)
  have "zip ?next [0..<length ?next] = zip (drop k previous) [0..<?n] @ zip new [?n..<length ?next]"
    by (simp add: zip_append1 upt_add_eq_append [of 0 ?n])
  then have "scroll_shifts previous ?next =
      concat (map (\<lambda>j. [int (length new)]) [0..<?n]) @ concat (map (\<lambda>j. []) [?n..<length ?next])"
    by (simp only: scroll_shifts_def map_append concat_append a b)
  then show ?thesis by (simp add: map_replicate_const)
qed

section \<open>Properties\<close>

text \<open>
  The visible history is bounded: whatever tasks arrive, valid or not, at most three rows are shown,
  no task twice, and every running task of the list stands below the settled ones.
\<close>

theorem startup_view_bounded:
  "length (shown_after ts t) \<le> 3 \<and> distinct (map task_id (shown_after ts t)) \<and>
   sorted_wrt settled_first (rows (timeline_after (ts @ [t])))"
proof -
  obtain s' where s: "receive t (timeline_after ts) = snapshot s'" "timeline_inv s'"
    using receive_snapshot inv_after by blast
  obtain sh u where "snapshot s' = (sh, u)" by force
  with snapshot_shown [OF this s(2)] s(1) show ?thesis by (simp add: shown_after_def)
qed

text \<open>
  A row that left the display never comes back: once a step that is not a summary was shown and later
  was not, no further task, also no progress or completion of that step, makes it visible again.
\<close>

theorem hidden_step_stays_hidden:
  assumes "x \<in> set (shown_after ts t)" "\<not> is_summary x"
    and "task_id x \<notin> task_id ` set (shown_after (ts @ t # us) u)"
  shows "task_id x \<notin> task_id ` set (shown_after (ts @ t # us @ u # vs) v)"
proof -
  let ?mid = "ts @ t # us @ [u]"
  have "settled_row (task_id x) (timeline_after (ts @ [t] @ us @ [u]))"
    using settled_after [OF shown_row [OF assms(1,2)], of "us @ [u]"] by simp
  moreover have "row_ids (timeline_after ?mid) \<subseteq> task_id ` set (shown_after (ts @ t # us) u)"
    using shown_state(2) [of "ts @ t # us" u] by (auto simp: row_ids_def)
  ultimately have "gone (task_id x) (timeline_after ?mid)"
    using assms(3) by (auto simp: gone_def settled_row_def)
  from gone_after [OF this, of "vs @ [v]"] show ?thesis
    using gone_not_shown [of "task_id x" "ts @ t # us @ u # vs" v] by simp
qed

definition step_task :: "16 word \<Rightarrow> task_state \<Rightarrow> task" where
  "step_task n st = \<lparr>task_id = [n], task_kind = BIOS, task_state = st, task_progress = None, task_summary = None\<rparr>"

theorem hidden_step_stays_hidden_witness:
  "task_id (step_task 1 TaskRunning) \<notin>
     task_id ` set (shown_after (map (\<lambda>n. step_task n TaskRunning) [1, 2, 3, 4] @ [step_task 2 TaskFailed])
       (step_task 1 TaskCompleted))"
proof -
  have a: "step_task 1 TaskRunning \<in> set (shown_after [] (step_task 1 TaskRunning))" by code_simp
  have b: "\<not> is_summary (step_task 1 TaskRunning)" by code_simp
  have c: "task_id (step_task 1 TaskRunning) \<notin>
    task_id ` set (shown_after ([] @ step_task 1 TaskRunning # [step_task 2 TaskRunning, step_task 3 TaskRunning]) (step_task 4 TaskRunning))"
    by code_simp
  from hidden_step_stays_hidden [OF a b c, of "[step_task 2 TaskFailed]" "step_task 1 TaskCompleted"]
  show ?thesis by simp
qed

text \<open>
  The percentage of a valid task lies between 0 and 100, and is missing exactly when the task reports
  no progress.
\<close>

theorem startup_percentage_range:
  assumes "validTask t"
  shows "(startupPercentage t = None \<longleftrightarrow> task_progress t = None) \<and>
    (\<forall>p. startupPercentage t = Some p \<longrightarrow> 0 \<le> p \<and> p \<le> 100)"
proof (cases "task_progress t")
  case (Some lt)
  then obtain l n where p: "task_progress t = Some (Fin l, Fin n)" "0 < n" "0 \<le> l" "l \<le> n"
    using assms by (cases lt) (auto simp: validTask_def safe_integer_def split: jsnum.splits)
  have "l * 100 / n \<le> 100" using p by (simp add: divide_le_eq)
  then have "\<lfloor>l * 100 / n\<rfloor> \<le> 100" by (metis floor_mono floor_numeral)
  with p show ?thesis by (simp add: startupPercentage_def)
qed (simp add: startupPercentage_def)

theorem startup_percentage_range_witness:
  "startupPercentage ((step_task 1 TaskRunning)\<lparr>task_progress := Some (Fin 50, Fin 64)\<rparr>) = Some 78 \<and> (0::int) \<le> 78 \<and> (78::int) \<le> 100"
proof -
  have v: "validTask ((step_task 1 TaskRunning)\<lparr>task_progress := Some (Fin 50, Fin 64)\<rparr>)" by code_simp
  have p: "startupPercentage ((step_task 1 TaskRunning)\<lparr>task_progress := Some (Fin 50, Fin 64)\<rparr>) = Some 78" by code_simp
  from startup_percentage_range [OF v] p show ?thesis by blast
qed

text \<open>
  The list scrolls by the number of new rows: when some rows left at the top and \<open>new\<close> ones arrived
  at the bottom, and a row survives, the computed shift is the number of new rows.
\<close>

theorem scroll_by_new_rows:
  assumes "distinct previous" "k < length previous" "set previous \<inter> set new = {}"
  shows "startupScrollSlots previous (drop k previous @ new) = int (length new)"
  using startupScroll_survivors [OF scroll_shifts_drop [of previous k new]] assms by (cases previous) simp_all

theorem scroll_by_new_rows_witness:
  "startupScrollSlots [[1], [2], [3]] (drop 1 [[1], [2], [3]] @ [[4]]) = int (length [[4 :: 16 word]])"
  by (rule scroll_by_new_rows) simp_all

end
