(* ===== verification/Content_Slots.thy ===== *)
theory Content_Slots
  imports Prelude
begin

text \<open>
  The request slots of the isolated content worker (\<open>acquireRequestSlot\<close> and
  \<open>releaseRequestSlot\<close> of \<open>web/public/runtime-isolation/service-worker.js\<close>): at most 128
  requests run, at most 256 wait in order, more are refused. The code keeps a counter and the resolvers of
  the waiting calls; the model names the calls, and \<open>holders\<close> lists those whose acquisition was
  answered and who have not released yet.
\<close>

section \<open>The interface of a waiting line\<close>

text \<open>
  What a client of a first-come first-served resource relies on: an arrival joins at the back or not at
  all, and a release serves the head of the line. \<open>served\<close> lists the callers a release lets in.
\<close>

locale waiting_line =
  fixes line :: "'s \<Rightarrow> 'c list"
    and arrive :: "'c \<Rightarrow> 's \<Rightarrow> 's"
    and leave :: "'c \<Rightarrow> 's \<Rightarrow> 's"
    and served :: "'s \<Rightarrow> 'c list"
  assumes line_arrive: "line (arrive c s) = line s \<or> line (arrive c s) = line s @ [c]"
    and line_leave: "line (leave c s) = tl (line s)"
    and served_leave: "served s = take 1 (line s)"
begin

text \<open>Arrivals are \<open>Inl\<close>, departures \<open>Inr\<close>; the result lists everyone served from the line.\<close>

fun run_line :: "('c + 'c) list \<Rightarrow> 's \<Rightarrow> 'c list \<times> 's" where
  "run_line [] s = ([], s)"
| "run_line (Inl c # es) s = run_line es (arrive c s)"
| "run_line (Inr c # es) s = (let (out, t) = run_line es (leave c s) in (served s @ out, t))"

definition departures :: "('c + 'c) list \<Rightarrow> nat" where
  "departures es = length (filter (\<lambda>e. case e of Inr _ \<Rightarrow> True | Inl _ \<Rightarrow> False) es)"

lemma departures_simps [simp]:
  "departures [] = 0" "departures (Inl c # es) = departures es" "departures (Inr c # es) = Suc (departures es)"
  by (simp_all add: departures_def)

text \<open>Whoever has \<open>k\<close> callers ahead is served by the departure number \<open>k + 1\<close>, whoever arrives later.\<close>

lemma served_in_turn:
  "k < length (line s) \<Longrightarrow> k < departures es \<Longrightarrow> take (Suc k) (fst (run_line es s)) = take (Suc k) (line s)"
proof (induction es s arbitrary: k rule: run_line.induct)
  case (2 c es s)
  from line_arrive [of c s] 2(2) have "k < length (line (arrive c s))" "take (Suc k) (line (arrive c s)) = take (Suc k) (line s)"
    by auto
  with 2 show ?case by simp
next
  case (3 c es s)
  obtain out t where r: "run_line es (leave c s) = (out, t)" by force
  obtain x xs where l: "line s = x # xs" using 3(2) by (cases "line s") auto
  show ?case
  proof (cases k)
    case 0
    with l r show ?thesis by (simp add: served_leave [of s])
  next
    case (Suc j)
    with 3 l r have "take (Suc j) out = take (Suc j) xs" by (simp add: line_leave)
    with Suc l r show ?thesis by (simp add: served_leave [of s])
  qed
qed simp

end

section \<open>The slots\<close>

definition maximumActiveRequests :: int where "maximumActiveRequests = 128"
definition maximumQueuedRequests :: nat where "maximumQueuedRequests = 256"

record slots =
  activeRequests :: int
  waitingRequests :: "nat list"
  holders :: "nat list"

datatype acquire_answer = SlotGranted | SlotQueued | CapacityExceeded

definition slots_start :: slots where
  "slots_start = \<lparr>activeRequests = 0, waitingRequests = [], holders = []\<rparr>"

definition acquireRequestSlot :: "nat \<Rightarrow> slots \<Rightarrow> acquire_answer \<times> slots" where
  "acquireRequestSlot c s =
     (if activeRequests s < maximumActiveRequests
      then (SlotGranted, s\<lparr>activeRequests := activeRequests s + 1, holders := holders s @ [c]\<rparr>)
      else if maximumQueuedRequests \<le> length (waitingRequests s) then (CapacityExceeded, s)
      else (SlotQueued, s\<lparr>waitingRequests := waitingRequests s @ [c]\<rparr>))"

definition releaseRequestSlot :: "nat \<Rightarrow> slots \<Rightarrow> slots" where
  "releaseRequestSlot c s =
     (let t = s\<lparr>holders := remove1 c (holders s)\<rparr> in
      case waitingRequests t of
        nxt # rest \<Rightarrow> t\<lparr>waitingRequests := rest, holders := holders t @ [nxt]\<rparr>
      | [] \<Rightarrow> t\<lparr>activeRequests := activeRequests t - 1\<rparr>)"

lemmas slot_defs = acquireRequestSlot_def releaseRequestSlot_def maximumActiveRequests_def maximumQueuedRequests_def

interpretation sl: waiting_line waitingRequests "\<lambda>c s. snd (acquireRequestSlot c s)" releaseRequestSlot
  "\<lambda>s. take 1 (waitingRequests s)"
  by unfold_locales (auto simp: slot_defs Let_def split: list.split)

inductive slots_step :: "slots \<Rightarrow> slots \<Rightarrow> bool" where
  acquire: "c \<notin> set (holders s) \<union> set (waitingRequests s) \<Longrightarrow> slots_step s (snd (acquireRequestSlot c s))"
| release: "c \<in> set (holders s) \<Longrightarrow> slots_step s (releaseRequestSlot c s)"

inductive slots_reachable :: "slots \<Rightarrow> bool" where
  start: "slots_reachable slots_start"
| step: "slots_reachable s \<Longrightarrow> slots_step s t \<Longrightarrow> slots_reachable t"

definition slots_inv :: "slots \<Rightarrow> bool" where
  "slots_inv s \<longleftrightarrow> activeRequests s = int (length (holders s)) \<and> length (holders s) \<le> 128 \<and>
     length (waitingRequests s) \<le> 256 \<and> distinct (holders s @ waitingRequests s) \<and>
     (waitingRequests s = [] \<or> length (holders s) = 128)"

lemma slots_inv_start: "slots_inv slots_start"
  by (simp add: slots_inv_def slots_start_def)

lemma slots_inv_acquire:
  "slots_inv s \<Longrightarrow> c \<notin> set (holders s) \<union> set (waitingRequests s) \<Longrightarrow> slots_inv (snd (acquireRequestSlot c s))"
  by (auto simp: slots_inv_def slot_defs)

lemma slots_inv_release:
  assumes "slots_inv s" "c \<in> set (holders s)"
  shows "slots_inv (releaseRequestSlot c s)"
proof -
  have "length (remove1 c (holders s)) = length (holders s) - 1" "0 < length (holders s)"
    using assms(2) by (auto simp: length_remove1)
  then show ?thesis using assms
    by (cases "waitingRequests s") (auto simp: slots_inv_def slot_defs of_nat_diff Suc_leI)
qed

lemma slots_inv_reachable: "slots_reachable s \<Longrightarrow> slots_inv s"
  by (induction rule: slots_reachable.induct)
    (auto elim!: slots_step.cases intro: slots_inv_start slots_inv_acquire slots_inv_release)

section \<open>The abstract line\<close>

text \<open>
  The specification is one list of calls in the order of their arrival: it holds at most 384 calls, the
  first 128 are running, and a finished call simply leaves.
\<close>

definition spec_acquire :: "nat \<Rightarrow> nat list \<Rightarrow> acquire_answer \<times> nat list" where
  "spec_acquire c q = (if length q < 128 then (SlotGranted, q @ [c])
     else if length q < 384 then (SlotQueued, q @ [c]) else (CapacityExceeded, q))"

definition spec_release :: "nat \<Rightarrow> nat list \<Rightarrow> nat list" where
  "spec_release c q = remove1 c q"

definition slots_abs :: "slots \<Rightarrow> nat list" where
  "slots_abs s = holders s @ waitingRequests s"

lemma running_abs: "slots_inv s \<Longrightarrow> holders s = take 128 (slots_abs s)"
  by (auto simp: slots_inv_def slots_abs_def)

lemma acquire_refines:
  "slots_inv s \<Longrightarrow> acquireRequestSlot c s = (a, t) \<Longrightarrow> (a, slots_abs t) = spec_acquire c (slots_abs s)"
  by (auto simp: slots_inv_def slots_abs_def slot_defs spec_acquire_def split: if_splits)

lemma release_refines:
  "slots_inv s \<Longrightarrow> c \<in> set (holders s) \<Longrightarrow> slots_abs (releaseRequestSlot c s) = spec_release c (slots_abs s)"
  by (cases "waitingRequests s") (auto simp: slots_abs_def slot_defs spec_release_def remove1_append)

section \<open>Properties\<close>

text \<open>
  C33. The slots implement one first-come first-served line: in every reachable state the running calls
  are the first 128 of the line, an arrival is answered as the line of 384 places says, and a release
  removes just its call from the line.
\<close>

theorem slots_refine_line:
  assumes "slots_reachable s"
  shows "holders s = take 128 (slots_abs s) \<and> activeRequests s = int (length (holders s)) \<and>
    (fst (acquireRequestSlot c s), slots_abs (snd (acquireRequestSlot c s))) = spec_acquire c (slots_abs s) \<and>
    (c \<notin> set (holders s) \<or> slots_abs (releaseRequestSlot c s) = spec_release c (slots_abs s))"
proof -
  have inv: "slots_inv s" by (rule slots_inv_reachable [OF assms])
  then have "activeRequests s = int (length (holders s))" by (simp add: slots_inv_def)
  moreover obtain a t where "acquireRequestSlot c s = (a, t)" by force
  ultimately show ?thesis
    using running_abs [OF inv] acquire_refines [OF inv, of c] release_refines [OF inv, of c] by simp
qed

lemma slots_example_reachable: "slots_reachable (snd (acquireRequestSlot 7 slots_start))"
  by (rule slots_reachable.step [OF slots_reachable.start slots_step.acquire]) (simp add: slots_start_def)

theorem slots_refine_line_witness:
  "slots_abs (releaseRequestSlot 7 (snd (acquireRequestSlot 7 slots_start))) = []"
proof -
  have h: "7 \<in> set (holders (snd (acquireRequestSlot 7 slots_start)))" by code_simp
  have e: "spec_release 7 (slots_abs (snd (acquireRequestSlot 7 slots_start))) = []" by code_simp
  from slots_refine_line [OF slots_example_reachable, of 7] h e show ?thesis by simp
qed

text \<open>
  No waiting call starves: a call with \<open>k\<close> calls ahead of it in the line gets its slot with the
  release number \<open>k + 1\<close> at the latest, whoever arrives meanwhile, and calls are served in their order.
\<close>

theorem waiting_call_is_served:
  assumes "k < length (waitingRequests s)" "k < sl.departures es"
  shows "take (Suc k) (fst (sl.run_line es s)) = take (Suc k) (waitingRequests s)"
  using assms by (rule sl.served_in_turn)

theorem waiting_call_is_served_witness:
  "take 2 (fst (sl.run_line [Inr 1, Inl 9, Inr 2] \<lparr>activeRequests = 128, waitingRequests = [5, 6], holders = [1, 2]\<rparr>)) = [5, 6]"
  using waiting_call_is_served [of 1 "\<lparr>activeRequests = 128, waitingRequests = [5, 6], holders = [1, 2]\<rparr>" "[Inr 1, Inl 9, Inr 2]"]
  by (simp add: numeral_2_eq_2 slot_defs sl.departures_def)

end
