(* ===== verification/Content_Requests.thy ===== *)
theory Content_Requests
  imports Content_Slots
begin

text \<open>
  The request path of the isolated content worker (\<open>request\<close>, \<open>sendRequest\<close>, \<open>bind\<close>,
  \<open>renewQueuedReads\<close> and the reconnection of \<open>service-worker.js\<close>): calls take a slot, wait for a
  connection, post a numbered message and settle by a reply, a timeout or a failed post. Every await is a
  boundary between steps; a step names the call or the event that runs.
\<close>

section \<open>State\<close>

text \<open>A pending request: its options, the time its timer fires, the port it was posted to and its call.\<close>

record pending_request =
  req_read :: bool
  admitted :: bool
  networkBytes :: jsnum
  fires_at :: rat
  req_port :: nat
  req_call :: nat

datatype port_type = READ_STARTED | READ_PROGRESS | OtherType

text \<open>A message of the port: \<open>port_bytes\<close> is present when \<open>bytes\<close> is a \<open>Uint8Array\<close>.\<close>

record port_data =
  port_id :: "nat option"
  port_type :: port_type
  port_networkBytes :: jsnum
  port_status :: jsnum
  port_bytes :: "nat list option"

datatype io_outcome =
    Reply port_data | CONTENT_IO_TIMEOUT | CONTENT_IO_POST_FAILED | CONTENT_IO_UNAVAILABLE
  | CONTENT_IO_CAPACITY_EXCEEDED | CONTENT_IO_RECONNECT_FAILED

text \<open>
  Where a call of \<open>request\<close> stands; \<open>Resumed\<close> and \<open>Refused\<close> are after the reconnection it awaited.
\<close>

datatype phase = Waiting | Starting | Reconnecting | Resumed | Refused | InFlight nat | Settled io_outcome

record worker =
  io_slots :: slots
  configured :: bool
  connection :: "nat option"
  sequence :: nat
  pending :: "(nat, pending_request) amap"
  reconnecting :: bool
  calls :: "nat \<Rightarrow> phase option"
  reads :: "nat \<Rightarrow> bool"

definition worker_start :: worker where
  "worker_start = \<lparr>io_slots = slots_start, configured = False, connection = None, sequence = 0, pending = [],
     reconnecting = False, calls = Map.empty, reads = (\<lambda>_. False)\<rparr>"

section \<open>Operations\<close>

text \<open>\<open>request.renew()\<close>\<close>

definition renew :: "rat \<Rightarrow> pending_request \<Rightarrow> pending_request" where
  "renew now p = p\<lparr>fires_at := now + 15000\<rparr>"

definition renewQueuedReads :: "rat \<Rightarrow> (nat, pending_request) amap \<Rightarrow> (nat, pending_request) amap" where
  "renewQueuedReads now m = map (\<lambda>(i, p). (i, if req_read p \<and> \<not> admitted p then renew now p else p)) m"

text \<open>The promise of the call settles and its \<open>finally\<close> releases the slot, which lets the next call start.\<close>

definition settle_call :: "nat \<Rightarrow> io_outcome \<Rightarrow> worker \<Rightarrow> worker" where
  "settle_call c out w =
     (let granted = take 1 (waitingRequests (io_slots w)) in
      w\<lparr>io_slots := releaseRequestSlot c (io_slots w),
        calls := (\<lambda>d. if d \<in> set granted then Some Starting else ((calls w)(c \<mapsto> Settled out)) d)\<rparr>)"

definition bind_port :: "nat \<Rightarrow> worker \<Rightarrow> worker" where
  "bind_port p w = w\<lparr>configured := True, connection := Some p\<rparr>"

text \<open>
  The message listener: a port is bound only for a \<open>CONNECT\<close> with two ports from the shell page of the
  worker's own run. \<open>parse\<close> gives the origin and the path of a client's URL.
\<close>

record connect_event =
  ev_connect :: bool
  ev_ports :: nat
  ev_source :: "jsstr option"
  ev_runId :: "jsstr option"

definition on_connect :: "(jsstr \<Rightarrow> jsstr \<times> jsstr) \<Rightarrow> jsstr \<Rightarrow> jsstr \<Rightarrow> connect_event \<Rightarrow> nat \<Rightarrow> worker \<Rightarrow> worker" where
  "on_connect parse own_origin runId ev port w =
     (case ev_source ev of
        None \<Rightarrow> w
      | Some url \<Rightarrow>
          if \<not> ev_connect ev \<or> ev_ports ev \<noteq> 2 then w
          else if fst (parse url) \<noteq> own_origin \<or>
            snd (parse url) \<noteq> js ''/__retrom/runtime-isolation/'' @ runId @ js ''/shell.html'' \<or> ev_runId ev \<noteq> Some runId
          then w
          else bind_port port w)"

lemma on_connect_keeps [simp]:
  "pending (on_connect parse own_origin runId ev port w) = pending w"
  "calls (on_connect parse own_origin runId ev port w) = calls w"
  by (simp_all add: on_connect_def bind_port_def split: option.split)

definition onmessage :: "port_data \<Rightarrow> rat \<Rightarrow> worker \<Rightarrow> worker" where
  "onmessage data now w =
     (case port_id data of None \<Rightarrow> w | Some i \<Rightarrow>
      (case map_of (pending w) i of None \<Rightarrow> w | Some p \<Rightarrow>
        if port_type data = READ_STARTED then
          (if req_read p \<and> \<not> admitted p
           then w\<lparr>pending := amap_put i (renew now (p\<lparr>admitted := True\<rparr>)) (pending w)\<rparr> else w)
        else if port_type data = READ_PROGRESS then
          (if req_read p \<and> admitted p \<and> safe_integer (port_networkBytes data) \<and>
              num_lt (networkBytes p) (port_networkBytes data)
           then w\<lparr>pending := renewQueuedReads now
                  (amap_put i (renew now (p\<lparr>networkBytes := port_networkBytes data\<rparr>)) (pending w))\<rparr>
           else w)
        else
          (let rest = amap_del i (pending w);
               got_bytes = (req_read p \<and> port_status data = Fin 200 \<and>
                  (case port_bytes data of Some bs \<Rightarrow> bs \<noteq> [] | None \<Rightarrow> False)) in
           settle_call (req_call p) (Reply data)
             (w\<lparr>pending := if got_bytes then renewQueuedReads now rest else rest\<rparr>))))"

definition timed_out :: "nat \<Rightarrow> worker \<Rightarrow> worker" where
  "timed_out i w =
     (case map_of (pending w) i of None \<Rightarrow> w | Some p \<Rightarrow>
        settle_call (req_call p) CONTENT_IO_TIMEOUT
          (w\<lparr>pending := amap_del i (pending w),
             connection := if connection w = Some (req_port p) then None else connection w\<rparr>))"

text \<open>\<open>sendRequest\<close>; \<open>posted\<close> tells whether \<open>postMessage\<close> returned.\<close>

definition sendRequest :: "nat \<Rightarrow> nat \<Rightarrow> bool \<Rightarrow> rat \<Rightarrow> worker \<Rightarrow> worker" where
  "sendRequest c port posted now w =
     (let i = Suc (sequence w);
          p = \<lparr>req_read = reads w c, admitted = False, networkBytes = Fin 0, fires_at = now + 15000,
               req_port = port, req_call = c\<rparr>;
          w1 = w\<lparr>sequence := i, pending := amap_put i p (pending w), calls := (calls w)(c \<mapsto> InFlight i)\<rparr> in
      if posted then w1
      else settle_call c CONTENT_IO_POST_FAILED (w1\<lparr>pending := amap_del i (pending w1)\<rparr>))"

text \<open>A call of \<open>request(body)\<close> up to its first await.\<close>

definition begin_request :: "nat \<Rightarrow> bool \<Rightarrow> worker \<Rightarrow> worker" where
  "begin_request c read w =
     (case acquireRequestSlot c (io_slots w) of (answer, s) \<Rightarrow>
        w\<lparr>io_slots := s, reads := (reads w)(c := read),
          calls := (calls w)(c \<mapsto> (case answer of SlotGranted \<Rightarrow> Starting | SlotQueued \<Rightarrow> Waiting
             | CapacityExceeded \<Rightarrow> Settled CONTENT_IO_CAPACITY_EXCEEDED))\<rparr>)"

text \<open>The call has its slot: it sends, or awaits the shared reconnection.\<close>

definition start_request :: "nat \<Rightarrow> bool \<Rightarrow> rat \<Rightarrow> worker \<Rightarrow> worker" where
  "start_request c posted now w =
     (case connection w of
        Some port \<Rightarrow> if configured w then sendRequest c port posted now w
          else w\<lparr>reconnecting := True, calls := (calls w)(c \<mapsto> Reconnecting)\<rparr>
      | None \<Rightarrow> w\<lparr>reconnecting := True, calls := (calls w)(c \<mapsto> Reconnecting)\<rparr>)"

text \<open>After the reconnection: the check is repeated.\<close>

definition resume_request :: "nat \<Rightarrow> bool \<Rightarrow> rat \<Rightarrow> worker \<Rightarrow> worker" where
  "resume_request c posted now w =
     (case connection w of
        Some port \<Rightarrow> if configured w then sendRequest c port posted now w
          else settle_call c CONTENT_IO_UNAVAILABLE w
      | None \<Rightarrow> settle_call c CONTENT_IO_UNAVAILABLE w)"

text \<open>
  The shared promise of \<open>reconnect\<close> settles for every call that awaits it; a fulfilled one has bound the
  new port before.
\<close>

definition reconnected :: "nat option \<Rightarrow> worker \<Rightarrow> worker" where
  "reconnected port w =
     (let w1 = (case port of Some p \<Rightarrow> bind_port p w | None \<Rightarrow> w) in
      w1\<lparr>reconnecting := False,
         calls := (\<lambda>c. if calls w1 c = Some Reconnecting
                       then Some (if port = None then Refused else Resumed) else calls w1 c)\<rparr>)"

inductive worker_step :: "worker \<Rightarrow> worker \<Rightarrow> bool" where
  begin_call: "calls w c = None \<Longrightarrow> worker_step w (begin_request c read w)"
| start_call: "calls w c = Some Starting \<Longrightarrow> worker_step w (start_request c posted now w)"
| resume_call: "calls w c = Some Resumed \<Longrightarrow> worker_step w (resume_request c posted now w)"
| refuse_call: "calls w c = Some Refused \<Longrightarrow> worker_step w (settle_call c CONTENT_IO_RECONNECT_FAILED w)"
| connect: "worker_step w (on_connect parse own_origin runId ev port w)"
| reconnect_settles: "reconnecting w \<Longrightarrow> worker_step w (reconnected port w)"
| message: "worker_step w (onmessage data now w)"
| timer: "map_of (pending w) i = Some p \<Longrightarrow> fires_at p \<le> now \<Longrightarrow> worker_step w (timed_out i w)"

inductive worker_reachable :: "worker \<Rightarrow> bool" where
  start: "worker_reachable worker_start"
| step: "worker_reachable w \<Longrightarrow> worker_step w v \<Longrightarrow> worker_reachable v"

section \<open>The invariant\<close>

definition running_phase :: "phase \<Rightarrow> bool" where
  "running_phase ph = (case ph of Waiting \<Rightarrow> False | Settled _ \<Rightarrow> False | _ \<Rightarrow> True)"

lemma running_phase_simps [simp]:
  "\<not> running_phase Waiting" "\<not> running_phase (Settled out)" "running_phase Starting" "running_phase Reconnecting"
  "running_phase Resumed" "running_phase Refused" "running_phase (InFlight i)"
  by (simp_all add: running_phase_def)

text \<open>Calls and slots agree.\<close>

definition slots_agree :: "worker \<Rightarrow> bool" where
  "slots_agree w \<longleftrightarrow> slots_inv (io_slots w) \<and>
     (\<forall>c. c \<in> set (waitingRequests (io_slots w)) \<longleftrightarrow> calls w c = Some Waiting) \<and>
     (\<forall>c. c \<in> set (holders (io_slots w)) \<longleftrightarrow> (\<exists>ph. calls w c = Some ph \<and> running_phase ph)) \<and>
     (\<forall>c. calls w c = Some Reconnecting \<longrightarrow> reconnecting w)"

text \<open>Requests and calls agree, except for the call \<open>x\<close> that is just settling.\<close>

definition requests_agree :: "nat option \<Rightarrow> worker \<Rightarrow> bool" where
  "requests_agree x w \<longleftrightarrow> amap_ok (pending w) \<and>
     (\<forall>i p. map_of (pending w) i = Some p \<longrightarrow> i \<le> sequence w \<and> calls w (req_call p) = Some (InFlight i) \<and> Some (req_call p) \<noteq> x) \<and>
     (\<forall>c i. calls w c = Some (InFlight i) \<longrightarrow> Some c = x \<or> (\<exists>p. map_of (pending w) i = Some p \<and> req_call p = c))"

definition worker_inv :: "worker \<Rightarrow> bool" where
  "worker_inv w \<longleftrightarrow> slots_agree w \<and> requests_agree None w"

lemma settle_inv:
  assumes "slots_agree w" "requests_agree (Some c) w" "calls w c = Some ph" "running_phase ph"
  shows "worker_inv (settle_call c out w)"
proof -
  let ?s = "io_slots w" and ?v = "settle_call c out w"
  have c: "c \<in> set (holders ?s)" using assms(1,3,4) by (auto simp: slots_agree_def)
  have si: "slots_inv ?s" using assms(1) by (simp add: slots_agree_def)
  then have d: "distinct (holders ?s)" "set (holders ?s) \<inter> set (waitingRequests ?s) = {}" "distinct (waitingRequests ?s)"
    by (auto simp: slots_inv_def)
  have inv: "slots_inv (releaseRequestSlot c ?s)" by (rule slots_inv_release [OF si c])
  show ?thesis
  proof (cases "waitingRequests ?s")
    case Nil
    then have st: "waitingRequests (io_slots ?v) = []" "set (holders (io_slots ?v)) = set (holders ?s) - {c}"
      "calls ?v = (calls w)(c \<mapsto> Settled out)"
      using d(1) by (simp_all add: settle_call_def releaseRequestSlot_def Let_def fun_eq_iff)
    have "slots_agree ?v"
      using assms(1,3,4) inv c Nil st unfolding slots_agree_def
      by (auto simp: settle_call_def Let_def)
    moreover have "requests_agree None ?v"
      using assms(2) st(3) unfolding requests_agree_def by (auto simp: settle_call_def Let_def)
    ultimately show ?thesis by (simp add: worker_inv_def)
  next
    case (Cons n ns)
    have n: "calls w n = Some Waiting" "n \<noteq> c" "n \<notin> set ns"
      using assms(1) Cons c d by (auto simp: slots_agree_def)
    from Cons have st: "waitingRequests (io_slots ?v) = ns" "set (holders (io_slots ?v)) = insert n (set (holders ?s) - {c})"
      "calls ?v = (calls w)(c \<mapsto> Settled out, n \<mapsto> Starting)"
      using d(1) n by (auto simp: settle_call_def releaseRequestSlot_def Let_def fun_eq_iff)
    have "slots_agree ?v"
      using assms(1,3,4) inv c Cons st n unfolding slots_agree_def
      by (auto simp: settle_call_def Let_def)
    moreover have "requests_agree None ?v"
      using assms(2) st(3) n unfolding requests_agree_def by (auto simp: settle_call_def Let_def)
    ultimately show ?thesis by (simp add: worker_inv_def)
  qed
qed

lemma renewQueuedReads_get:
  "map_of (renewQueuedReads now m) i =
     map_option (\<lambda>p. if req_read p \<and> \<not> admitted p then renew now p else p) (map_of m i)"
proof (induction m)
  case (Cons a m)
  then show ?case by (cases a) (simp add: renewQueuedReads_def)
qed (simp add: renewQueuedReads_def)

lemma renewQueuedReads_ok [simp]: "amap_ok (renewQueuedReads now m) = amap_ok m"
proof -
  have "amap_keys (renewQueuedReads now m) = amap_keys m"
    by (auto simp: amap_keys_def renewQueuedReads_def)
  then show ?thesis by (simp add: amap_ok_def)
qed

lemma renew_simps [simp]:
  "req_call (renew now p) = req_call p" "req_read (renew now p) = req_read p" "admitted (renew now p) = admitted p"
  "networkBytes (renew now p) = networkBytes p" "req_port (renew now p) = req_port p"
  by (simp_all add: renew_def)

text \<open>Only the identity of requests and their calls matters to the agreement.\<close>

lemma requests_agree_renewed:
  assumes "requests_agree x w" "amap_ok m"
    and "\<And>i. map_option req_call (map_of m i) = map_option req_call (map_of (pending w) i)"
  shows "requests_agree x (w\<lparr>pending := m\<rparr>)"
proof -
  have a: "map_of m i = Some p \<Longrightarrow> \<exists>q. map_of (pending w) i = Some q \<and> req_call q = req_call p" for i p
    using assms(3) [of i] by (auto simp: map_option_case split: option.splits)
  have b: "map_of (pending w) i = Some q \<Longrightarrow> \<exists>p. map_of m i = Some p \<and> req_call p = req_call q" for i q
    using assms(3) [of i] by (auto simp: map_option_case split: option.splits)
  let ?v = "w\<lparr>pending := m\<rparr>"
  have "i \<le> sequence ?v \<and> calls ?v (req_call p) = Some (InFlight i) \<and> Some (req_call p) \<noteq> x"
    if m: "map_of (pending ?v) i = Some p" for i p
  proof -
    obtain q where q: "map_of (pending w) i = Some q" "req_call q = req_call p" using a [of i p] m by auto
    from assms(1) q(1) have "i \<le> sequence w \<and> calls w (req_call q) = Some (InFlight i) \<and> Some (req_call q) \<noteq> x"
      unfolding requests_agree_def by blast
    with q(2) show ?thesis by simp
  qed
  moreover have "Some c = x \<or> (\<exists>p. map_of (pending ?v) i = Some p \<and> req_call p = c)"
    if m: "calls ?v c = Some (InFlight i)" for c i
  proof (cases "Some c = x")
    case False
    have "calls w c = Some (InFlight i)" using m by simp
    with False assms(1) obtain q where "map_of (pending w) i = Some q" "req_call q = c"
      unfolding requests_agree_def by blast
    with b show ?thesis by auto
  qed simp
  ultimately show ?thesis using assms(2) unfolding requests_agree_def by simp
qed

lemma requests_agree_removed:
  assumes "requests_agree None w" "map_of (pending w) i = Some p"
  shows "requests_agree (Some (req_call p)) (w\<lparr>pending := amap_del i (pending w)\<rparr>)"
proof -
  have "calls w (req_call p) = Some (InFlight i)" using assms by (auto simp: requests_agree_def)
  then have other: "map_of (pending w) j = Some q \<Longrightarrow> j \<noteq> i \<Longrightarrow> req_call q \<noteq> req_call p" for j q
    using assms(1) unfolding requests_agree_def by (metis option.inject phase.inject)
  have "calls w c = Some (InFlight j) \<Longrightarrow> c \<noteq> req_call p \<Longrightarrow> j \<noteq> i \<and> (\<exists>q. map_of (pending w) j = Some q \<and> req_call q = c)"
    for c j using assms unfolding requests_agree_def by (metis option.discI option.inject)
  with assms other show ?thesis
    unfolding requests_agree_def by (auto simp: am.ok_del amap_get_del)
qed

lemma slots_agree_pending [simp]: "slots_agree (w\<lparr>pending := m\<rparr>) = slots_agree w"
  by (simp add: slots_agree_def)

lemma slots_agree_connection [simp]: "slots_agree (w\<lparr>connection := k\<rparr>) = slots_agree w"
  by (simp add: slots_agree_def)

lemma requests_agree_connection [simp]: "requests_agree x (w\<lparr>connection := k\<rparr>) = requests_agree x w"
  by (simp add: requests_agree_def)

lemma inv_onmessage: "worker_inv w \<Longrightarrow> worker_inv (onmessage data now w)"
proof -
  assume w: "worker_inv w"
  show ?thesis
  proof (cases "port_id data")
    case (Some i)
    show ?thesis
    proof (cases "map_of (pending w) i")
      case p: (Some p)
      have ok: "amap_ok (pending w)" using w by (simp add: worker_inv_def requests_agree_def)
      have ph: "calls w (req_call p) = Some (InFlight i)"
        using w p by (auto simp: worker_inv_def requests_agree_def)
      consider "port_type data = READ_STARTED" | "port_type data = READ_PROGRESS" | "port_type data = OtherType"
        by (cases "port_type data") auto
      then show ?thesis
      proof cases
        case 1
        with w p Some ok show ?thesis
          by (auto simp: onmessage_def worker_inv_def am.ok_put intro!: requests_agree_renewed)
      next
        case 2
        with w p Some ok show ?thesis
          by (auto simp: onmessage_def worker_inv_def am.ok_put renewQueuedReads_get map_option_case
              intro!: requests_agree_renewed split: option.split)
      next
        case 3
        let ?rest = "amap_del i (pending w)"
        have r: "requests_agree (Some (req_call p)) (w\<lparr>pending := ?rest\<rparr>)"
          using w p by (simp add: worker_inv_def requests_agree_removed)
        have "requests_agree (Some (req_call p)) (w\<lparr>pending := renewQueuedReads now ?rest\<rparr>)"
          using requests_agree_renewed [OF r, of "renewQueuedReads now ?rest"] ok
          by (auto simp: am.ok_del renewQueuedReads_get map_option_case split: option.split)
        with r have "requests_agree (Some (req_call p)) (w\<lparr>pending := if b then renewQueuedReads now ?rest else ?rest\<rparr>)" for b
          by simp
        then have "worker_inv (settle_call (req_call p) out (w\<lparr>pending := if b then renewQueuedReads now ?rest else ?rest\<rparr>))" for out b
          using w ph by (intro settle_inv [where ph = "InFlight i"]) (simp_all add: worker_inv_def)
        with 3 p Some show ?thesis by (simp add: onmessage_def Let_def)
      qed
    qed (use w Some in \<open>simp add: onmessage_def\<close>)
  qed (use w in \<open>simp add: onmessage_def\<close>)
qed

lemma inv_timed_out: "worker_inv w \<Longrightarrow> worker_inv (timed_out i w)"
proof (cases "map_of (pending w) i")
  case (Some p)
  assume w: "worker_inv w"
  then have "calls w (req_call p) = Some (InFlight i)" using Some by (auto simp: worker_inv_def requests_agree_def)
  moreover have "requests_agree (Some (req_call p)) (w\<lparr>pending := amap_del i (pending w)\<rparr>)"
    using w Some by (simp add: worker_inv_def requests_agree_removed)
  ultimately have "worker_inv (settle_call (req_call p) CONTENT_IO_TIMEOUT
      (w\<lparr>pending := amap_del i (pending w), connection := k\<rparr>))" for k
    using w requests_agree_connection [where w = "w\<lparr>pending := amap_del i (pending w)\<rparr>"]
    by (intro settle_inv [where ph = "InFlight i"]) (simp_all add: worker_inv_def)
  with Some show ?thesis by (simp add: timed_out_def)
qed (simp add: timed_out_def)

text \<open>A running call that is not in flight may move to another phase.\<close>

lemma slots_agree_phase:
  assumes "slots_agree w" "calls w c = Some ph" "running_phase ph" "running_phase ph'"
    and "ph' = Reconnecting \<longrightarrow> b" "reconnecting w \<longrightarrow> b"
  shows "slots_agree (w\<lparr>reconnecting := b, calls := (calls w)(c \<mapsto> ph')\<rparr>)"
proof -
  have c: "c \<in> set (holders (io_slots w))" using assms(1-3) by (auto simp: slots_agree_def)
  moreover have "c \<notin> set (waitingRequests (io_slots w))" using assms(1-3) by (auto simp: slots_agree_def)
  moreover have "ph' \<noteq> Waiting" using assms(4) by auto
  ultimately show ?thesis using assms(1,4-) unfolding slots_agree_def by simp blast
qed

lemma requests_agree_phase:
  assumes "requests_agree None w" "calls w c = Some ph" "\<And>i. ph \<noteq> InFlight i" "\<And>i. ph' \<noteq> InFlight i"
  shows "requests_agree None (w\<lparr>reconnecting := b, calls := (calls w)(c \<mapsto> ph')\<rparr>)"
proof -
  have "req_call p \<noteq> c" if "map_of (pending w) i = Some p" for i p
    using that assms(1-3) unfolding requests_agree_def by (metis option.inject)
  with assms show ?thesis unfolding requests_agree_def by simp
qed

lemma inv_sendRequest:
  assumes "worker_inv w" "calls w c = Some ph" "running_phase ph" "\<And>i. ph \<noteq> InFlight i"
  shows "worker_inv (sendRequest c port posted now w)"
proof -
  let ?i = "Suc (sequence w)"
  let ?p = "\<lparr>req_read = reads w c, admitted = False, networkBytes = Fin 0, fires_at = now + 15000,
               req_port = port, req_call = c\<rparr>"
  let ?w1 = "w\<lparr>sequence := ?i, pending := amap_put ?i ?p (pending w), calls := (calls w)(c \<mapsto> InFlight ?i)\<rparr>"
  have r: "requests_agree None w" and sl: "slots_agree w" using assms(1) by (simp_all add: worker_inv_def)
  have fresh: "map_of (pending w) ?i = None" "\<And>i p. map_of (pending w) i = Some p \<Longrightarrow> req_call p \<noteq> c"
    using r assms(2,4) unfolding requests_agree_def by (metis not_less_eq_eq order_refl option.exhaust, metis option.inject)
  have "slots_agree (w\<lparr>reconnecting := reconnecting w, calls := (calls w)(c \<mapsto> InFlight ?i)\<rparr>)"
    by (rule slots_agree_phase [OF sl assms(2,3)]) simp_all
  then have sl1: "slots_agree ?w1" by (simp add: slots_agree_def)
  have nf: "calls w d \<noteq> Some (InFlight ?i)" for d
    using r fresh(1) unfolding requests_agree_def by (metis option.distinct(1))
  have r1: "requests_agree None ?w1"
    using r fresh nf unfolding requests_agree_def by (auto simp: am.ok_put le_SucI)
  show ?thesis
  proof (cases posted)
    case True
    with sl1 r1 show ?thesis by (simp add: sendRequest_def Let_def worker_inv_def)
  next
    case False
    have "requests_agree (Some c) (?w1\<lparr>pending := amap_del ?i (pending ?w1)\<rparr>)"
      using requests_agree_removed [OF r1, of ?i ?p] by simp
    then have "worker_inv (settle_call c CONTENT_IO_POST_FAILED (?w1\<lparr>pending := amap_del ?i (pending ?w1)\<rparr>))"
      by (rule settle_inv [rotated, where ph = "InFlight ?i"]) (use sl1 in \<open>simp_all only: slots_agree_pending, simp_all\<close>)
    with False show ?thesis by (simp add: sendRequest_def Let_def)
  qed
qed

lemma settle_running:
  assumes "worker_inv w" "calls w c = Some ph" "running_phase ph" "\<And>i. ph \<noteq> InFlight i"
  shows "worker_inv (settle_call c out w)"
proof (rule settle_inv)
  have "req_call p \<noteq> c" if "map_of (pending w) i = Some p" for i p
    using that assms unfolding worker_inv_def requests_agree_def by (metis option.inject)
  with assms(1) show "requests_agree (Some c) w" by (auto simp: worker_inv_def requests_agree_def)
qed (use assms in \<open>auto simp: worker_inv_def\<close>)

lemma inv_begin: "worker_inv w \<Longrightarrow> calls w c = None \<Longrightarrow> worker_inv (begin_request c read w)"
proof -
  assume w: "worker_inv w" "calls w c = None"
  let ?s = "io_slots w"
  have fresh: "c \<notin> set (holders ?s) \<union> set (waitingRequests ?s)" and si: "slots_inv ?s"
    using w by (auto simp: worker_inv_def slots_agree_def)
  have si': "slots_inv (snd (acquireRequestSlot c ?s))" by (rule slots_inv_acquire [OF si fresh])
  have nr: "\<And>i p. map_of (pending w) i = Some p \<Longrightarrow> req_call p \<noteq> c"
    using w unfolding worker_inv_def requests_agree_def by (metis option.distinct(1))
  have "slots_agree (begin_request c read w)"
    using w si' fresh
    by (cases "acquireRequestSlot c ?s")
      (auto simp: begin_request_def worker_inv_def slots_agree_def acquireRequestSlot_def split: if_splits)
  moreover have "requests_agree None (begin_request c read w)"
    using w nr
    by (cases "acquireRequestSlot c ?s")
      (auto simp: begin_request_def worker_inv_def requests_agree_def split: acquire_answer.split)
  ultimately show ?thesis by (simp add: worker_inv_def)
qed

lemma inv_reconnecting:
  assumes "worker_inv w" "calls w c = Some Starting"
  shows "worker_inv (w\<lparr>reconnecting := True, calls := (calls w)(c \<mapsto> Reconnecting)\<rparr>)"
  using slots_agree_phase [of w c Starting Reconnecting True] requests_agree_phase [of w c Starting Reconnecting True] assms
  by (simp add: worker_inv_def)

lemma inv_reconnected: "worker_inv w \<Longrightarrow> worker_inv (reconnected port w)"
proof -
  assume w: "worker_inv w"
  let ?v = "reconnected port w"
  have f: "calls ?v c = (if calls w c = Some Reconnecting then Some (if port = None then Refused else Resumed) else calls w c)"
    "io_slots ?v = io_slots w" "pending ?v = pending w" "sequence ?v = sequence w" for c
    by (simp_all add: reconnected_def bind_port_def Let_def split: option.split)
  have "slots_agree ?v" using w by (auto simp: worker_inv_def slots_agree_def f)
  moreover have "requests_agree None ?v" using w by (auto simp: worker_inv_def requests_agree_def f split: if_splits)
  ultimately show ?thesis by (simp add: worker_inv_def)
qed

lemma inv_step: "worker_step w v \<Longrightarrow> worker_inv w \<Longrightarrow> worker_inv v"
proof (induction rule: worker_step.induct)
  case (start_call w c posted now)
  then show ?case by (auto simp: start_request_def inv_reconnecting intro: inv_sendRequest split: option.split)
next
  case (resume_call w c posted now)
  then show ?case by (auto simp: resume_request_def intro: inv_sendRequest settle_running split: option.split)
next
  case (connect w parse own_origin runId ev port)
  then show ?case
    by (simp add: on_connect_def worker_inv_def bind_port_def slots_agree_def requests_agree_def split: option.split)
qed (auto intro: inv_begin settle_running inv_reconnected inv_onmessage inv_timed_out)

lemma inv_start: "worker_inv worker_start"
  by (simp add: worker_start_def worker_inv_def slots_agree_def requests_agree_def slots_inv_start)
    (simp add: slots_start_def)

lemma inv_reachable: "worker_reachable w \<Longrightarrow> worker_inv w"
  by (induction rule: worker_reachable.induct) (auto intro: inv_step inv_start)

section \<open>What a step does to other calls and timers\<close>

lemma settle_call_pending [simp]: "pending (settle_call c out w) = pending w"
  by (simp add: settle_call_def Let_def)

lemma settled_stays_settle:
  assumes "worker_inv w" "calls w d = Some (Settled out)" "d \<noteq> c"
  shows "calls (settle_call c out' (w\<lparr>pending := m, connection := k\<rparr>)) d = Some (Settled out)"
proof -
  have "d \<notin> set (waitingRequests (io_slots w))" using assms(1,2) by (auto simp: worker_inv_def slots_agree_def)
  then have "d \<notin> set (take 1 (waitingRequests (io_slots w)))" by (meson in_set_takeD)
  with assms(2,3) show ?thesis by (simp add: settle_call_def Let_def)
qed

text \<open>A timer moves only for a read that was admitted just now, waits for admission, or made progress.\<close>

definition renewed_for_progress :: "pending_request \<Rightarrow> pending_request \<Rightarrow> bool" where
  "renewed_for_progress p q \<longleftrightarrow>
     req_read p \<and> (\<not> admitted p \<or> (admitted q \<and> num_lt (networkBytes p) (networkBytes q)))"

lemma renewQueued_timer:
  "map_of (renewQueuedReads now m) i = Some q \<Longrightarrow> \<exists>p. map_of m i = Some p \<and> req_call q = req_call p \<and>
     (q = p \<or> renewed_for_progress p q)"
  by (auto simp: renewQueuedReads_get renewed_for_progress_def split: if_splits)

lemma onmessage_timer:
  assumes "map_of (pending w) i = Some p" "map_of (pending (onmessage data now w)) i = Some q"
  shows "fires_at q = fires_at p \<or> renewed_for_progress p q"
proof (cases "port_id data")
  case (Some j)
  show ?thesis
  proof (cases "map_of (pending w) j")
    case r: (Some r)
    consider "port_type data = READ_STARTED" | "port_type data = READ_PROGRESS" | "port_type data = OtherType"
      by (cases "port_type data") auto
    then show ?thesis
    proof cases
      case 1
      with assms Some r show ?thesis
        by (auto simp: onmessage_def renewed_for_progress_def split: if_splits)
    next
      case 2
      show ?thesis
      proof (cases "i = j")
        case True
        with 2 assms Some r show ?thesis
          by (auto simp: onmessage_def renewed_for_progress_def renewQueuedReads_get split: if_splits)
      next
        case False
        with 2 assms Some r show ?thesis
          by (auto simp: onmessage_def renewed_for_progress_def renewQueuedReads_get split: if_splits)
      qed
    next
      case 3
      with assms Some r show ?thesis
        by (auto simp: onmessage_def Let_def renewed_for_progress_def renewQueuedReads_get amap_get_del split: if_splits)
    qed
  qed (use assms Some in \<open>simp add: onmessage_def\<close>)
qed (use assms in \<open>simp add: onmessage_def\<close>)

lemma pending_id: "worker_inv w \<Longrightarrow> map_of (pending w) i = Some p \<Longrightarrow> i \<noteq> Suc (sequence w)"
  unfolding worker_inv_def requests_agree_def by fastforce

lemma sendRequest_keeps:
  assumes "worker_inv w" "map_of (pending w) i = Some p"
  shows "map_of (pending (sendRequest c port posted now w)) i = Some p"
  using pending_id [OF assms] assms(2) by (auto simp: sendRequest_def Let_def amap_get_del)

lemma sendRequest_settled:
  assumes "worker_inv w" "calls w d = Some (Settled out)" "d \<noteq> c"
  shows "calls (sendRequest c port posted now w) d = Some (Settled out)"
proof -
  have "d \<notin> set (waitingRequests (io_slots w))" using assms(1,2) by (auto simp: worker_inv_def slots_agree_def)
  then have "d \<notin> set (take 1 (waitingRequests (io_slots w)))" by (meson in_set_takeD)
  with assms(2,3) show ?thesis by (simp add: sendRequest_def settle_call_def Let_def)
qed

lemma onmessage_other:
  assumes "port_id data = Some i" "map_of (pending w) i = Some p" "port_type data = OtherType"
  shows "\<exists>m. onmessage data now w = settle_call (req_call p) (Reply data) (w\<lparr>pending := m\<rparr>)"
  unfolding onmessage_def using assms by (simp add: Let_def) (intro conjI impI; rule exI; rule refl)

lemma settled_step:
  assumes "worker_step w v" "worker_inv w" "calls w d = Some (Settled out)"
  shows "calls v d = Some (Settled out)"
proof -
  have settle: "calls (settle_call c out' (w\<lparr>pending := m, connection := k\<rparr>)) d = Some (Settled out)" if "d \<noteq> c" for c out' m k
    by (rule settled_stays_settle [OF assms(2,3) that])
  have settle': "calls (settle_call c out' (w\<lparr>pending := m\<rparr>)) d = Some (Settled out)" if "d \<noteq> c" for c out' m
    using settle [where m = m and k = "connection w", OF that] by simp
  have settle'': "calls (settle_call c out' w) d = Some (Settled out)" if "d \<noteq> c" for c out'
    using settle' [where m = "pending w", OF that] by simp
  have flying: "d \<noteq> req_call p" if "map_of (pending w) i = Some p" for i p
    using that assms(2,3) unfolding worker_inv_def requests_agree_def by (metis option.inject phase.simps)
  from assms(1) show ?thesis
  proof (cases rule: worker_step.cases)
    case (begin_call c read)
    with assms(3) show ?thesis by (auto simp: begin_request_def split: prod.split)
  next
    case (start_call c posted now)
    with assms have "d \<noteq> c" by auto
    with start_call assms show ?thesis
      by (auto simp: start_request_def intro: sendRequest_settled split: option.split)
  next
    case (resume_call c posted now)
    with assms have "d \<noteq> c" by auto
    with resume_call assms settle'' show ?thesis
      by (auto simp: resume_request_def intro: sendRequest_settled split: option.split)
  next
    case (refuse_call c)
    with assms have "d \<noteq> c" by auto
    with refuse_call settle'' show ?thesis by simp
  next
    case (connect parse own_origin runId ev port)
    with assms show ?thesis by simp
  next
    case (reconnect_settles port)
    with assms show ?thesis by (simp add: reconnected_def bind_port_def Let_def split: option.split)
  next
    case (message data now)
    show ?thesis
    proof (cases "Option.bind (port_id data) (map_of (pending w))")
      case None
      then have "v = w" unfolding message(1) by (cases "port_id data") (simp_all add: onmessage_def)
      with assms(3) show ?thesis by simp
    next
      case (Some p)
      then obtain i where i: "port_id data = Some i" "map_of (pending w) i = Some p" by (cases "port_id data") auto
      note final = settle' [OF flying [OF i(2)]]
      show ?thesis
      proof (cases "port_type data = OtherType")
        case True
        from onmessage_other [OF i this, of now] obtain m
          where m: "onmessage data now w = settle_call (req_call p) (Reply data) (w\<lparr>pending := m\<rparr>)" by blast
        show ?thesis unfolding message(1) m by (rule final)
      next
        case False
        then have "calls v = calls w" using message i by (cases "port_type data") (simp_all add: onmessage_def)
        with assms(3) show ?thesis by simp
      qed
    qed
  next
    case (timer i p now)
    with assms flying settle show ?thesis
      by (auto simp: timed_out_def)
  qed
qed

lemma timer_step:
  assumes "worker_step w v" "worker_inv w" "map_of (pending w) i = Some p" "map_of (pending v) i = Some q"
  shows "fires_at q = fires_at p \<or> renewed_for_progress p q"
proof -
  note send = sendRequest_keeps [OF assms(2,3)]
  from assms(1) show ?thesis
  proof (cases rule: worker_step.cases)
    case (start_call c posted now)
    then have "map_of (pending v) i = Some p" using send assms(3) by (auto simp: start_request_def split: option.split)
    with assms(4) show ?thesis by simp
  next
    case (resume_call c posted now)
    then have "map_of (pending v) i = Some p" using send assms(3) by (auto simp: resume_request_def split: option.split)
    with assms(4) show ?thesis by simp
  next
    case (message data now)
    with assms onmessage_timer show ?thesis by blast
  next
    case (timer j r now)
    with assms(3,4) show ?thesis by (auto simp: timed_out_def amap_get_del split: if_splits)
  qed (use assms(3,4) in \<open>auto simp: begin_request_def bind_port_def reconnected_def Let_def split: prod.splits option.splits\<close>)
qed

lemma pending_bounded:
  assumes "worker_inv w"
  shows "length (pending w) \<le> 128"
proof -
  let ?caller = "\<lambda>i. req_call (the (map_of (pending w) i))"
  have ok: "distinct (amap_keys (pending w))" using assms by (simp add: worker_inv_def requests_agree_def amap_ok_def)
  have key: "\<exists>p. map_of (pending w) i = Some p \<and> calls w (req_call p) = Some (InFlight i)" if "i \<in> set (amap_keys (pending w))" for i
    using that assms by (auto simp: amap_keys_dom worker_inv_def requests_agree_def)
  have "inj_on ?caller (set (amap_keys (pending w)))"
    by (rule inj_onI) (metis key option.sel option.inject phase.inject(1))
  moreover have "?caller ` set (amap_keys (pending w)) \<subseteq> set (holders (io_slots w))"
    using key assms by (force simp: worker_inv_def slots_agree_def)
  ultimately have "card (set (amap_keys (pending w))) \<le> card (set (holders (io_slots w)))"
    by (metis card_inj_on_le List.finite_set)
  also have "\<dots> \<le> 128"
    using assms card_length [of "holders (io_slots w)"] by (simp add: worker_inv_def slots_agree_def slots_inv_def)
  finally show ?thesis using distinct_card [OF ok] by (simp add: amap_keys_def)
qed

section \<open>Properties\<close>

text \<open>
  C13. Slots, calls and requests agree in every reachable state of the worker: a call holds a slot exactly
  while it runs, the counter is the number of running calls, a call waits in line exactly in its waiting
  phase, and at most 128 requests are pending, each for the call in flight under its number.
\<close>

theorem worker_accounting:
  assumes "worker_reachable w"
  shows "set (holders (io_slots w)) = {c. \<exists>ph. calls w c = Some ph \<and> running_phase ph} \<and>
    set (waitingRequests (io_slots w)) = {c. calls w c = Some Waiting} \<and>
    activeRequests (io_slots w) = int (card {c. \<exists>ph. calls w c = Some ph \<and> running_phase ph}) \<and>
    length (pending w) \<le> 128 \<and>
    {(i, req_call p) |i p. map_of (pending w) i = Some p} = {(i, c). calls w c = Some (InFlight i)}"
proof -
  have inv: "worker_inv w" by (rule inv_reachable [OF assms])
  then have h: "set (holders (io_slots w)) = {c. \<exists>ph. calls w c = Some ph \<and> running_phase ph}"
    and wt: "set (waitingRequests (io_slots w)) = {c. calls w c = Some Waiting}"
    by (auto simp: worker_inv_def slots_agree_def)
  have "activeRequests (io_slots w) = int (card (set (holders (io_slots w))))"
    using inv by (simp add: worker_inv_def slots_agree_def slots_inv_def distinct_card)
  moreover have "{(i, req_call p) |i p. map_of (pending w) i = Some p} = {(i, c). calls w c = Some (InFlight i)}"
    using inv by (fastforce simp: worker_inv_def requests_agree_def)
  ultimately show ?thesis using h wt pending_bounded [OF inv] by simp
qed

definition shell_connect :: "worker \<Rightarrow> worker" where
  "shell_connect = on_connect (\<lambda>url. ([], url)) [] [] \<lparr>ev_connect = True, ev_ports = 2,
     ev_source = Some (js ''/__retrom/runtime-isolation//shell.html''), ev_runId = Some []\<rparr> 3"

definition example_worker :: worker where
  "example_worker = start_request 7 True 100 (shell_connect (begin_request 7 True worker_start))"

lemma example_worker_reachable: "worker_reachable example_worker"
proof -
  have "worker_reachable (begin_request 7 True worker_start)"
    by (rule worker_reachable.step [OF worker_reachable.start worker_step.begin_call]) (simp add: worker_start_def)
  then have "worker_reachable (shell_connect (begin_request 7 True worker_start))"
    unfolding shell_connect_def by (rule worker_reachable.step [OF _ worker_step.connect])
  moreover have "calls (shell_connect (begin_request 7 True worker_start)) 7 = Some Starting" by code_simp
  ultimately show ?thesis
    unfolding example_worker_def by (rule worker_reachable.step [OF _ worker_step.start_call])
qed

theorem worker_accounting_witness:
  "{c. \<exists>ph. calls example_worker c = Some ph \<and> running_phase ph} = {7}"
proof -
  have "holders (io_slots example_worker) = [7]" by code_simp
  with worker_accounting [OF example_worker_reachable] show ?thesis by simp
qed

text \<open>
  A call settles once: no later step changes the outcome of a settled call, so a late reply, a timer
  or a lost connection cannot settle it again.
\<close>

theorem outcome_is_final:
  assumes "worker_reachable w" "worker_step w v" "calls w c = Some (Settled out)"
  shows "calls v c = Some (Settled out)"
  using settled_step [OF assms(2) inv_reachable [OF assms(1)] assms(3)] .

theorem outcome_is_final_witness:
  "calls (onmessage \<lparr>port_id = Some 1, port_type = OtherType, port_networkBytes = NaN, port_status = Fin 404, port_bytes = None\<rparr>
     16000 (timed_out 1 example_worker)) 7 = Some (Settled CONTENT_IO_TIMEOUT)"
proof -
  have p: "map_of (pending example_worker) 1 = Some \<lparr>req_read = True, admitted = False, networkBytes = Fin 0,
      fires_at = 15100, req_port = 3, req_call = 7\<rparr>" by code_simp
  have "worker_step example_worker (timed_out 1 example_worker)"
    by (rule worker_step.timer [OF p, of 15100]) simp
  then have r: "worker_reachable (timed_out 1 example_worker)"
    by (rule worker_reachable.step [OF example_worker_reachable])
  have "calls (timed_out 1 example_worker) 7 = Some (Settled CONTENT_IO_TIMEOUT)" by code_simp
  from outcome_is_final [OF r worker_step.message this] show ?thesis .
qed

text \<open>
  The 15 second timer of a pending request moves only for progress of a read: for a read that was not
  admitted yet, or an admitted one whose count of network bytes strictly grew. The timer of any other
  request keeps the time it was sent with.
\<close>

theorem timer_moves_only_for_progress:
  assumes "worker_reachable w" "worker_step w v"
    and "map_of (pending w) i = Some p" "map_of (pending v) i = Some q"
  shows "fires_at q = fires_at p \<or>
    (req_read p \<and> (\<not> admitted p \<or> (admitted q \<and> num_lt (networkBytes p) (networkBytes q))))"
  using timer_step [OF assms(2) inv_reachable [OF assms(1)] assms(3,4)] by (simp add: renewed_for_progress_def)

definition started_message :: port_data where
  "started_message = \<lparr>port_id = Some 1, port_type = READ_STARTED, port_networkBytes = NaN, port_status = NaN, port_bytes = None\<rparr>"

theorem timer_moves_only_for_progress_witness:
  "map_option fires_at (map_of (pending (onmessage started_message 500 example_worker)) 1) = Some 15500 \<and>
   map_option req_read (map_of (pending example_worker) 1) = Some True"
proof -
  let ?v = "onmessage started_message 500 example_worker"
  obtain p q where pq: "map_of (pending example_worker) 1 = Some p" "map_of (pending ?v) 1 = Some q"
    "fires_at p = 15100" "fires_at q = 15500"
  proof -
    have "map_option fires_at (map_of (pending example_worker) 1) = Some 15100"
      "map_option fires_at (map_of (pending ?v) 1) = Some 15500" by code_simp+
    with that show ?thesis by blast
  qed
  from timer_moves_only_for_progress [OF example_worker_reachable worker_step.message pq(1,2)] pq show ?thesis by simp
qed

text \<open>
  C11. No call is lost: whatever happened, every call that is not settled either waits behind 128 running
  calls, can run its next step, awaits a reconnection that is under way, or has a pending request whose
  timer settles it.
\<close>

theorem no_call_is_lost:
  assumes "worker_reachable w" "calls w c = Some ph"
  shows "(\<exists>out. ph = Settled out) \<or> ph \<in> {Starting, Resumed, Refused} \<or>
    (ph = Waiting \<and> length (holders (io_slots w)) = 128) \<or> (ph = Reconnecting \<and> reconnecting w) \<or>
    (\<exists>i p. ph = InFlight i \<and> map_of (pending w) i = Some p \<and> req_call p = c \<and>
       calls (timed_out i w) c = Some (Settled CONTENT_IO_TIMEOUT))"
proof -
  have inv: "worker_inv w" by (rule inv_reachable [OF assms(1)])
  show ?thesis
  proof (cases ph)
    case Waiting
    then have "waitingRequests (io_slots w) \<noteq> []" using inv assms(2) by (force simp: worker_inv_def slots_agree_def)
    with inv Waiting show ?thesis by (simp add: worker_inv_def slots_agree_def slots_inv_def)
  next
    case Reconnecting
    with inv assms(2) show ?thesis unfolding worker_inv_def slots_agree_def by blast
  next
    case (InFlight i)
    then obtain p where p: "map_of (pending w) i = Some p" "req_call p = c"
      using inv assms(2) unfolding worker_inv_def requests_agree_def by blast
    have "c \<notin> set (waitingRequests (io_slots w))"
      using inv assms(2) InFlight by (simp add: worker_inv_def slots_agree_def)
    then have "c \<notin> set (take 1 (waitingRequests (io_slots w)))" by (meson in_set_takeD)
    with p InFlight show ?thesis by (simp add: timed_out_def settle_call_def Let_def)
  qed auto
qed

theorem no_call_is_lost_witness:
  "calls (timed_out 1 example_worker) 7 = Some (Settled CONTENT_IO_TIMEOUT)"
proof -
  have "calls example_worker 7 = Some (InFlight 1)" by code_simp
  from no_call_is_lost [OF example_worker_reachable this] show ?thesis by auto
qed

end
