(* ===== verification/Content_Serving.thy ===== *)
theory Content_Serving
  imports Canonical_Json
begin

text \<open>
  What the isolated content worker answers (\<open>range\<close>, \<open>block\<close>, \<open>stream\<close>, \<open>entryBytes\<close>, \<open>serve\<close>
  and the fetch listener of \<open>web/public/runtime-isolation/service-worker.js\<close>). The content requests are
  a parameter \<open>read\<close> that answers or fails; \<open>decodeURIComponent\<close>, \<open>TextDecoder\<close> and
  \<open>TextEncoder\<close> are parameters of the functions that call them. Sizes are natural numbers, as the page reports them.
\<close>

section \<open>Range requests\<close>

record byte_range =
  range_offset :: nat
  range_length :: nat
  range_partial :: bool

text \<open>\<open>/^bytes=(\d*)-(\d*)$/.exec(header)\<close>: the two digit groups.\<close>

definition range_match :: "jsstr \<Rightarrow> (jsstr \<times> jsstr) option" where
  "range_match h =
     (if \<not> starts_with h (js ''bytes='') then None
      else let s = drop 6 h; first = takeWhile digit s; rest = dropWhile digit s in
        case rest of
          [] \<Rightarrow> None
        | c # second \<Rightarrow> if c = of_char CHR ''-'' \<and> list_all digit second then Some (first, second) else None)"

text \<open>
  \<open>range(header, size)\<close>. A decimal number beyond the safe integers is rounded by \<open>Number\<close>; the result
  is then refused as the exact value is.
\<close>

definition content_range :: "jsstr option \<Rightarrow> nat \<Rightarrow> byte_range option" where
  "content_range header sz =
     (case header of
        None \<Rightarrow> Some \<lparr>range_offset = 0, range_length = sz, range_partial = False\<rparr>
      | Some h \<Rightarrow>
          (case range_match h of
             None \<Rightarrow> None
           | Some (m1, m2) \<Rightarrow>
               if (m1 = [] \<and> m2 = []) \<or> sz = 0 then None
               else let first = (if m1 \<noteq> [] then int (dec_value m1) else max 0 (int sz - int (dec_value m2)));
                        last = (if m1 \<noteq> [] \<and> m2 \<noteq> [] then min (int sz - 1) (int (dec_value m2)) else int sz - 1) in
                 if max_safe < \<bar>first\<bar> \<or> max_safe < \<bar>last\<bar> \<or> first < 0 \<or> int sz \<le> first \<or> last < first then None
                 else Some \<lparr>range_offset = nat first, range_length = nat (last - first + 1), range_partial = True\<rparr>))"

section \<open>Blocks and streams\<close>

type_synonym bytes = "8 word list"

text \<open>A reply to \<open>READ\<close>: its status, and its bytes when they are a \<open>Uint8Array\<close>.\<close>

record read_reply =
  reply_status :: jsnum
  reply_bytes :: "bytes option"

type_synonym reader = "nat \<Rightarrow> nat \<Rightarrow> read_reply option"

definition block :: "reader \<Rightarrow> nat \<Rightarrow> nat \<Rightarrow> bytes option" where
  "block read offset len =
     (case read offset len of
        None \<Rightarrow> None
      | Some reply \<Rightarrow>
          (case reply_bytes reply of
             Some bs \<Rightarrow> if reply_status reply = Fin 200 \<and> length bs = len then Some bs else None
           | None \<Rightarrow> None))"

definition block_bytes :: nat where "block_bytes = 262144"

text \<open>One \<open>pull\<close> of the stream: it closes, enqueues a block and moves on, or fails.\<close>

datatype pull = Close | Enqueue bytes nat | PullError

definition stream_pull :: "reader \<Rightarrow> nat \<Rightarrow> nat \<Rightarrow> nat \<Rightarrow> pull" where
  "stream_pull read offset len position =
     (if position = offset + len then Close
      else let count = min block_bytes (offset + len - position) in
        case block read position count of
          None \<Rightarrow> PullError
        | Some bs \<Rightarrow> Enqueue bs (position + count))"

text \<open>
  A consumer that pulls to the end: the chunks it got and whether the stream closed. The position never
  passes the end, so the guard only makes the recursion total.
\<close>

function stream_from :: "reader \<Rightarrow> nat \<Rightarrow> nat \<Rightarrow> nat \<Rightarrow> bytes list \<times> bool" where
  "stream_from read offset len position =
     (if offset + len < position then ([], False)
      else case stream_pull read offset len position of
        Close \<Rightarrow> ([], True)
      | PullError \<Rightarrow> ([], False)
      | Enqueue bs next \<Rightarrow> (let (rest, ok) = stream_from read offset len next in (bs # rest, ok)))"
  by pat_completeness auto
termination
  by (relation "measure (\<lambda>(read, offset, len, position). offset + len - position)")
    (auto simp: stream_pull_def Let_def block_bytes_def split: if_splits option.splits)

declare stream_from.simps [simp del]

definition stream :: "reader \<Rightarrow> nat \<Rightarrow> nat \<Rightarrow> bytes list \<times> bool" where
  "stream read offset len = stream_from read offset len offset"

text \<open>The loop of \<open>entryBytes\<close> that fills the array from the front.\<close>

function entry_blocks :: "reader \<Rightarrow> nat \<Rightarrow> nat \<Rightarrow> bytes option" where
  "entry_blocks read sz offset =
     (if sz \<le> offset then Some []
      else case block read offset (min block_bytes (sz - offset)) of
        None \<Rightarrow> None
      | Some bs \<Rightarrow> map_option ((@) bs) (entry_blocks read sz (offset + block_bytes)))"
  by pat_completeness auto
termination
  by (relation "measure (\<lambda>(read, sz, offset). sz - offset)") (auto simp: block_bytes_def)

declare entry_blocks.simps [simp del]

definition maximum_entry_bytes :: nat where "maximum_entry_bytes = 2 * 1024 * 1024"

section \<open>The entry document\<close>

definition js_space :: "code_unit \<Rightarrow> bool" where
  "js_space c \<longleftrightarrow> c \<in> {9, 10, 11, 12, 13, 32, 0xA0, 0x1680, 0x2028, 0x2029, 0x202F, 0x205F, 0x3000, 0xFEFF} \<or>
     (0x2000 \<le> c \<and> c \<le> 0x200A)"

definition lower_unit :: "code_unit \<Rightarrow> code_unit" where
  "lower_unit c = (if 0x41 \<le> c \<and> c \<le> 0x5A then c + 32 else c)"

text \<open>\<open>s\<close> begins with the lower-case ASCII text \<open>p\<close>, whatever its case.\<close>

definition starts_ci :: "jsstr \<Rightarrow> jsstr \<Rightarrow> bool" where
  "starts_ci s p = (map lower_unit (take (length p) s) = p)"

text \<open>
  \<open>(?:[^"'<>]|"[^"]*"|'[^']*')*>\<close> at the start of the text, and what follows the match. The
  alternatives differ in their first unit and none of them starts with the closing bracket, so the match is
  unique.
\<close>

function tag_rest :: "jsstr \<Rightarrow> jsstr option" where
  "tag_rest [] = None"
| "tag_rest (c # cs) =
     (if c = of_char CHR ''>'' then Some cs
      else if c = 0x22 \<or> c = 0x27 then
        (case dropWhile (\<lambda>d. d \<noteq> c) cs of [] \<Rightarrow> None | _ # r \<Rightarrow> tag_rest r)
      else if c = of_char CHR ''<'' then None
      else tag_rest cs)"
  by pat_completeness auto
termination
proof (relation "measure length", goal_cases)
  case (2 c cs x xs)
  then have "length (dropWhile (\<lambda>d. d \<noteq> c) cs) = Suc (length xs)" by simp
  moreover have "length (dropWhile (\<lambda>d. d \<noteq> c) cs) \<le> length cs" by (rule length_dropWhile_le)
  ultimately show ?case by simp
qed auto

declare tag_rest.simps [simp del]

text \<open>A whole tag of the given name; \<open>ends\<close> is the lookahead after the name. The result is what follows it.\<close>

definition tag_at :: "jsstr \<Rightarrow> (code_unit \<Rightarrow> bool) \<Rightarrow> jsstr \<Rightarrow> jsstr option" where
  "tag_at name ends s =
     (if starts_ci s name then
        (case drop (length name) s of
           [] \<Rightarrow> None
         | c # _ \<Rightarrow> if ends c then tag_rest (drop (length name) s) else None)
      else None)"

lemma tag_rest_shrinks: "tag_rest s = Some r \<Longrightarrow> length r < length s"
proof (induction s rule: tag_rest.induct)
  case (2 c cs)
  show ?case
  proof (cases "c = 0x22 \<or> c = 0x27")
    case True
    then obtain x xs where d: "dropWhile (\<lambda>d. d \<noteq> c) cs = x # xs" "tag_rest xs = Some r"
      using 2(3) by (auto simp: tag_rest.simps split: if_splits list.splits)
    with True have "length r < length xs" by (intro 2(1)) auto
    moreover have "length (dropWhile (\<lambda>d. d \<noteq> c) cs) \<le> length cs" by (rule length_dropWhile_le)
    ultimately show ?thesis using d(1) by simp
  next
    case False
    show ?thesis
    proof (cases "c = of_char CHR ''>''")
      case True
      with 2(3) show ?thesis by (simp add: tag_rest.simps)
    next
      case gt: False
      have lt: "c \<noteq> of_char CHR ''<''"
      proof
        assume "c = of_char CHR ''<''"
        with 2(3) gt False show False by (simp only: tag_rest.simps if_False if_True simp_thms option.distinct)
      qed
      have "tag_rest cs = Some r" using 2(3) gt False lt by (simp only: tag_rest.simps if_False)
      from 2(2) [OF gt False lt this] show ?thesis by simp
    qed
  qed
qed (simp add: tag_rest.simps)

lemma tag_at_shrinks: "tag_at name ends s = Some r \<Longrightarrow> length r < length s"
proof -
  assume "tag_at name ends s = Some r"
  then have "tag_rest (drop (length name) s) = Some r" by (auto simp: tag_at_def split: if_splits list.splits)
  from tag_rest_shrinks [OF this] show ?thesis by simp
qed

text \<open>\<open>replace(/<base(?=[\s/>])...>/gi, "")\<close>: one pass over the text.\<close>

definition base_tag :: "jsstr \<Rightarrow> jsstr option" where
  "base_tag = tag_at (js ''<base'') (\<lambda>c. js_space c \<or> c = of_char CHR ''/'' \<or> c = of_char CHR ''>'')"

function strip_base :: "jsstr \<Rightarrow> jsstr" where
  "strip_base [] = []"
| "strip_base (c # cs) = (case base_tag (c # cs) of Some r \<Rightarrow> strip_base r | None \<Rightarrow> c # strip_base cs)"
  by pat_completeness auto
termination
  by (relation "measure length") (auto simp: base_tag_def dest: tag_at_shrinks)

text \<open>The first \<open>head\<close> tag: the text up to its end, and the rest.\<close>

definition head_tag :: "jsstr \<Rightarrow> jsstr option" where
  "head_tag = tag_at (js ''<head'') (\<lambda>c. js_space c \<or> c = of_char CHR ''>'')"

primrec find_head :: "jsstr \<Rightarrow> (jsstr \<times> jsstr) option" where
  "find_head [] = None"
| "find_head (c # cs) =
     (case head_tag (c # cs) of
        Some r \<Rightarrow> Some (take (length (c # cs) - length r) (c # cs), r)
      | None \<Rightarrow> map_option (\<lambda>(a, b). (c # a, b)) (find_head cs))"

text \<open>\<open>replace(/<\/script/gi, "<\\/script")\<close> and \<open>replace(/</g, "\\u003c")\<close>\<close>

function escape_script :: "jsstr \<Rightarrow> jsstr" where
  "escape_script [] = []"
| "escape_script (c # cs) =
     (if starts_ci (c # cs) (js ''</script'') then js ''<'' @ [0x5C] @ js ''/script'' @ escape_script (drop 7 cs)
      else c # escape_script cs)"
  by pat_completeness auto
termination
  by (relation "measure length") auto

definition escape_lt :: "jsstr \<Rightarrow> jsstr" where
  "escape_lt s = concat (map (\<lambda>c. if c = of_char CHR ''<'' then 0x5C # js ''u003c'' else [c]) s)"

text \<open>\<open>encodeURIComponent\<close>; it throws on a lone surrogate.\<close>

definition unreserved :: "code_unit \<Rightarrow> bool" where
  "unreserved c \<longleftrightarrow> (0x41 \<le> c \<and> c \<le> 0x5A) \<or> (0x61 \<le> c \<and> c \<le> 0x7A) \<or> digit c \<or> c \<in> set (js ''-_.!~*()'') \<or> c = 0x27"

definition upper_hex :: "nat \<Rightarrow> code_unit" where
  "upper_hex d = (if d < 10 then of_nat (48 + d) else of_nat (55 + d))"

definition percent :: "nat \<Rightarrow> jsstr" where
  "percent b = [0x25, upper_hex (b div 16 mod 16), upper_hex (b mod 16)]"

definition percent_utf8 :: "nat \<Rightarrow> jsstr" where
  "percent_utf8 n =
     (if n < 0x80 then percent n
      else if n < 0x800 then percent (0xC0 + n div 0x40) @ percent (0x80 + n mod 0x40)
      else if n < 0x10000 then percent (0xE0 + n div 0x1000) @ percent (0x80 + n div 0x40 mod 0x40) @ percent (0x80 + n mod 0x40)
      else percent (0xF0 + n div 0x40000) @ percent (0x80 + n div 0x1000 mod 0x40) @
        percent (0x80 + n div 0x40 mod 0x40) @ percent (0x80 + n mod 0x40))"

fun encodeURIComponent :: "jsstr \<Rightarrow> jsstr option" where
  "encodeURIComponent [] = Some []"
| "encodeURIComponent (c # cs) =
     (if unreserved c then map_option ((#) c) (encodeURIComponent cs)
      else if low_surrogate c then None
      else if high_surrogate c then
        (case cs of
           [] \<Rightarrow> None
         | d # ds \<Rightarrow>
             if low_surrogate d
             then map_option ((@) (percent_utf8 (0x10000 + (unat c - 0xD800) * 0x400 + (unat d - 0xDC00)))) (encodeURIComponent ds)
             else None)
      else map_option ((@) (percent_utf8 (unat c))) (encodeURIComponent cs))"

text \<open>What the entry document needs of the configuration; \<open>cfg_json\<close> is its JSON text.\<close>

record content_config =
  entryFile :: jsstr
  parentOrigin :: jsstr
  bridge :: jsstr
  cfg_json :: jsstr

definition slash :: code_unit where "slash = of_char CHR ''/''"

primrec all_some :: "'a option list \<Rightarrow> 'a list option" where
  "all_some [] = Some []"
| "all_some (x # xs) = (case x of None \<Rightarrow> None | Some v \<Rightarrow> map_option ((#) v) (all_some xs))"

definition entry_root :: "jsstr \<Rightarrow> jsstr \<Rightarrow> jsstr option" where
  "entry_root runId path =
     (let directory = rev (dropWhile (\<lambda>c. c \<noteq> slash) (rev path)) in
      map_option (\<lambda>parts. js ''/run/'' @ runId @ js ''/'' @ join_with [slash] parts)
        (all_some (map encodeURIComponent (split_on slash directory))))"

definition relay_text :: "jsstr \<Rightarrow> content_config \<Rightarrow> jsstr" where
  "relay_text relay_source cfg = js ''('' @ relay_source @ js '')('' @ escape_lt (cfg_json cfg) @ js '')''"

definition quote :: jsstr where "quote = [0x22]"

definition injected :: "jsstr \<Rightarrow> jsstr \<Rightarrow> content_config \<Rightarrow> jsstr" where
  "injected relay_source href cfg =
     js ''<base href='' @ quote @ href @ quote @ js ''><script>'' @ relay_text relay_source cfg @
     js ''</script><script>'' @ escape_script (bridge cfg) @ js ''</script>''"

definition entry_document :: "jsstr \<Rightarrow> jsstr \<Rightarrow> content_config \<Rightarrow> jsstr \<Rightarrow> jsstr \<Rightarrow> jsstr option" where
  "entry_document relay_source runId cfg path html =
     (case find_head (strip_base html) of
        None \<Rightarrow> None
      | Some (before, after) \<Rightarrow>
          map_option (\<lambda>href. before @ injected relay_source href cfg @ after) (entry_root runId path))"

text \<open>The platform functions and texts the worker uses.\<close>

record content_host =
  decode_utf8 :: "bytes \<Rightarrow> jsstr option"
  encode_utf8 :: "jsstr \<Rightarrow> bytes"
  decode_uri :: "jsstr \<Rightarrow> jsstr option"
  relay_source :: jsstr
  host_runId :: jsstr

definition entryBytes :: "content_host \<Rightarrow> content_config \<Rightarrow> reader \<Rightarrow> jsstr \<Rightarrow> nat \<Rightarrow> bytes option" where
  "entryBytes h cfg read path sz =
     (if maximum_entry_bytes < sz then None
      else case entry_blocks read sz 0 of
        None \<Rightarrow> None
      | Some bs \<Rightarrow>
          (case decode_utf8 h bs of
             None \<Rightarrow> None
           | Some html \<Rightarrow> map_option (encode_utf8 h) (entry_document (relay_source h) (host_runId h) cfg path html)))"

section \<open>Responses\<close>

datatype body = NoBody | ByteBody bytes | StreamBody jsstr nat nat

record response =
  resp_status :: nat
  resp_headers :: "(string \<times> jsstr) list"
  resp_body :: body

definition plain_response :: "nat \<Rightarrow> response" where
  "plain_response st = \<lparr>resp_status = st, resp_headers = [], resp_body = NoBody\<rparr>"

record stat_reply =
  stat_status :: jsnum
  sizeBytes :: nat
  mediaType :: jsstr
  stat_path :: jsstr

record content_request =
  req_method :: string
  req_destination :: string
  req_range :: "jsstr option"

definition security_policy :: "jsstr \<Rightarrow> jsstr" where
  "security_policy parent_origin =
     js ''default-src 'self' blob: data:; script-src 'self' 'unsafe-inline' 'unsafe-eval' blob:; connect-src 'self' blob:; worker-src 'self' blob:; style-src 'self' 'unsafe-inline'; base-uri 'self'; object-src 'none'; frame-ancestors '' @ parent_origin"

definition base_headers :: "bool \<Rightarrow> jsstr \<Rightarrow> (string \<times> jsstr) list" where
  "base_headers entry media =
     [(''Content-Type'', media), (''X-Content-Type-Options'', js ''nosniff''), (''Cache-Control'', js ''no-store''),
      (''Cross-Origin-Resource-Policy'', if entry then js ''cross-origin'' else js ''same-origin''),
      (''Cross-Origin-Embedder-Policy'', js ''require-corp''), (''Accept-Ranges'', js ''bytes'')]"

definition content_range_text :: "byte_range \<Rightarrow> nat \<Rightarrow> jsstr" where
  "content_range_text r sz =
     js ''bytes '' @ nat_dec (range_offset r) @ js ''-'' @ nat_dec (range_offset r + range_length r - 1) @ js ''/'' @ nat_dec sz"

text \<open>The second half of \<open>serve\<close>, once the bytes of an entry document (\<open>bytes\<close>) are known.\<close>

definition file_response :: "content_config \<Rightarrow> bool \<Rightarrow> stat_reply \<Rightarrow> bytes option \<Rightarrow> content_request \<Rightarrow> response" where
  "file_response cfg entry st bytes input =
     (let sz = (case bytes of Some bs \<Rightarrow> length bs | None \<Rightarrow> sizeBytes st);
          headers = base_headers entry (mediaType st) in
      case content_range (req_range input) sz of
        None \<Rightarrow> \<lparr>resp_status = 416,
          resp_headers = headers @ [(''Content-Range'', js ''bytes */'' @ nat_dec sz)], resp_body = NoBody\<rparr>
      | Some selected \<Rightarrow>
          \<lparr>resp_status = (if range_partial selected then 206 else 200),
            resp_headers = headers @ [(''Content-Length'', nat_dec (range_length selected))] @
              (if range_partial selected then [(''Content-Range'', content_range_text selected sz)] else []) @
              [(''Content-Security-Policy'', security_policy (parentOrigin cfg))] @
              (if entry then [(''Cross-Origin-Opener-Policy'', js ''same-origin''), (''Referrer-Policy'', js ''no-referrer'')] else []),
            resp_body =
              (if req_method input = ''HEAD'' then NoBody
               else case bytes of
                 Some bs \<Rightarrow> ByteBody (take (range_length selected) (drop (range_offset selected) bs))
               | None \<Rightarrow> StreamBody (stat_path st) (range_offset selected) (range_length selected))\<rparr>)"

text \<open>
  \<open>serve(input, path)\<close>; \<open>stat\<close> is the answer to the \<open>STAT\<close> request (\<open>None\<close> when it fails) and
  the result \<open>None\<close> a rejection.
\<close>

definition serve :: "content_host \<Rightarrow> content_config \<Rightarrow> stat_reply option \<Rightarrow> reader \<Rightarrow> content_request \<Rightarrow> jsstr \<Rightarrow> response option" where
  "serve h cfg stat read input path =
     (if req_method input \<notin> {''GET'', ''HEAD''} \<or> req_destination input = ''serviceworker''
      then Some (plain_response 404)
      else case stat of
        None \<Rightarrow> None
      | Some st \<Rightarrow>
          if stat_status st \<noteq> Fin 200 then Some (plain_response (if stat_status st = Fin 404 then 404 else 502))
          else if path = entryFile cfg
          then map_option (\<lambda>bs. file_response cfg True st (Some bs) input) (entryBytes h cfg read path (sizeBytes st))
          else Some (file_response cfg False st None input))"

text \<open>
  The fetch listener: \<open>None\<close> leaves the request to the browser. \<open>same_origin\<close> compares the origin of the
  request with the worker's.
\<close>

definition traversing :: "jsstr \<Rightarrow> bool" where
  "traversing path \<longleftrightarrow> list_ex (\<lambda>part. part \<in> {[], js ''.'', js ''..''}) (split_on slash path) \<or> 0x5C \<in> set path"

definition on_fetch :: "content_host \<Rightarrow> content_config \<Rightarrow> (jsstr \<Rightarrow> stat_reply option) \<Rightarrow> (jsstr \<Rightarrow> reader) \<Rightarrow>
    bool \<Rightarrow> jsstr \<Rightarrow> content_request \<Rightarrow> response option" where
  "on_fetch h cfg stat read same_origin pathname input =
     (let prefix = js ''/run/'' @ host_runId h @ js ''/'' in
      if \<not> same_origin \<or> \<not> starts_with pathname prefix then None
      else case decode_uri h (drop (length prefix) pathname) of
        None \<Rightarrow> Some (plain_response 400)
      | Some path \<Rightarrow>
          if traversing path then Some (plain_response 404)
          else Some (case serve h cfg (stat path) (read path) input path of
            Some r \<Rightarrow> r | None \<Rightarrow> plain_response 502))"

end
