(* ===== verification/Content_Properties.thy ===== *)
theory Content_Properties
  imports Content_Serving Json_Roundtrip
begin

text \<open>
  What the isolated content worker promises of its answers: the byte ranges, the streams, the injected
  document and the responses of \<open>Content_Serving\<close>.
\<close>

section \<open>Ranges\<close>

lemma digit_minus: "\<not> digit (of_char CHR ''-'')"
  by (simp add: digit_def)

lemma range_match_dec:
  "list_all digit a \<Longrightarrow> list_all digit b \<Longrightarrow> range_match (js ''bytes='' @ a @ js ''-'' @ b) = Some (a, b)"
proof -
  assume a: "list_all digit a" and b: "list_all digit b"
  have d: "drop 6 (js ''bytes='' @ a @ js ''-'' @ b) = a @ of_char CHR ''-'' # b"
    by (simp add: js_def)
  have "takeWhile digit (a @ of_char CHR ''-'' # b) = a" "dropWhile digit (a @ of_char CHR ''-'' # b) = of_char CHR ''-'' # b"
    using a digit_minus by (simp_all add: takeWhile_append dropWhile_append list_all_iff)
  with d b show ?thesis by (simp add: range_match_def Let_def)
qed

lemmas dec_text = nat_dec_digits [THEN conjunct1] nat_dec_digits [THEN conjunct2, THEN conjunct1]
  nat_dec_digits [THEN conjunct2, THEN conjunct2]

lemma range_both:
  assumes "int sz \<le> max_safe"
  shows "content_range (Some (js ''bytes='' @ nat_dec a @ js ''-'' @ nat_dec b)) sz =
    (if a < sz \<and> a \<le> b then Some \<lparr>range_offset = a, range_length = min b (sz - 1) + 1 - a, range_partial = True\<rparr> else None)"
  using assms by (auto simp: content_range_def range_match_dec dec_text Let_def min_def nat_diff_distrib)

lemma range_from:
  assumes "int sz \<le> max_safe"
  shows "content_range (Some (js ''bytes='' @ nat_dec a @ js ''-'')) sz =
    (if a < sz then Some \<lparr>range_offset = a, range_length = sz - a, range_partial = True\<rparr> else None)"
  using assms range_match_dec [of "nat_dec a" "[]"]
  by (auto simp: content_range_def dec_text Let_def)

lemma range_suffix:
  assumes "int sz \<le> max_safe"
  shows "content_range (Some (js ''bytes=-'' @ nat_dec n)) sz =
    (if 0 < n \<and> 0 < sz then Some \<lparr>range_offset = sz - n, range_length = min n sz, range_partial = True\<rparr> else None)"
proof -
  have "range_match (js ''bytes=-'' @ nat_dec n) = Some ([], nat_dec n)"
    using range_match_dec [of "[]" "nat_dec n"] by (simp add: dec_text js_def)
  then show ?thesis
    using assms by (auto simp: content_range_def dec_text Let_def max_def min_def)
qed

lemma range_inside:
  "content_range header sz = Some r \<Longrightarrow>
     range_offset r + range_length r \<le> sz \<and> (range_partial r \<longrightarrow> 0 < range_length r) \<and> (range_partial r \<longleftrightarrow> header \<noteq> None)"
  by (auto simp: content_range_def Let_def split: option.splits prod.splits if_splits)

section \<open>Streams\<close>

lemma stream_from_exact:
  "position \<le> offset + len \<Longrightarrow> stream_from read offset len position = (chunks, ok) \<Longrightarrow>
     length (concat chunks) \<le> offset + len - position \<and> (ok \<longleftrightarrow> length (concat chunks) = offset + len - position) \<and>
     list_all (\<lambda>c. length c \<le> block_bytes) chunks"
proof (induction read offset len position arbitrary: chunks ok rule: stream_from.induct)
  case (1 read offset len position)
  show ?case
  proof (cases "stream_pull read offset len position")
    case Close
    with 1(2,3) show ?thesis
      by (simp add: stream_from.simps [of read offset len position] stream_pull_def Let_def split: if_splits option.splits)
  next
    case PullError
    with 1(2,3) show ?thesis
      by (simp add: stream_from.simps [of read offset len position] stream_pull_def Let_def split: if_splits option.splits)
  next
    case (Enqueue bs nxt)
    obtain rest k where r: "stream_from read offset len nxt = (rest, k)" by force
    from Enqueue have b: "block read position (min block_bytes (offset + len - position)) = Some bs"
      "nxt = position + min block_bytes (offset + len - position)" "position \<noteq> offset + len"
      by (auto simp: stream_pull_def Let_def split: if_splits option.splits)
    then have len: "length bs = min block_bytes (offset + len - position)"
      by (auto simp: block_def split: option.splits if_splits)
    have "nxt \<le> offset + len" using b(2) 1(2) by simp
    with 1(1) [OF _ Enqueue _ r] 1(2) have ih: "length (concat rest) \<le> offset + len - nxt"
      "k \<longleftrightarrow> length (concat rest) = offset + len - nxt" "list_all (\<lambda>c. length c \<le> block_bytes) rest" by simp_all
    have "chunks = bs # rest" "ok = k"
      using 1(2,3) Enqueue r by (simp_all add: stream_from.simps [of read offset len position])
    with ih len b(2) 1(2) show ?thesis by (auto; arith)
  qed
qed

text \<open>The page answers every read inside the file with its bytes.\<close>

definition reads_file :: "reader \<Rightarrow> bytes \<Rightarrow> bool" where
  "reads_file read file \<longleftrightarrow> (\<forall>offset len. offset + len \<le> length file \<longrightarrow>
     read offset len = Some \<lparr>reply_status = Fin 200, reply_bytes = Some (take len (drop offset file))\<rparr>)"

lemma block_of_file: "reads_file read file \<Longrightarrow> offset + len \<le> length file \<Longrightarrow> block read offset len = Some (take len (drop offset file))"
  by (simp add: reads_file_def block_def)

lemma take_split: "n \<le> m \<Longrightarrow> take n xs @ take (m - n) (drop n xs) = take m xs"
  by (metis le_add_diff_inverse take_add)

lemma stream_from_file:
  "reads_file read file \<Longrightarrow> offset + len \<le> length file \<Longrightarrow> position \<le> offset + len \<Longrightarrow>
    concat (fst (stream_from read offset len position)) = take (offset + len - position) (drop position file) \<and>
    snd (stream_from read offset len position)"
proof (induction read offset len position rule: stream_from.induct)
  case (1 read offset len position)
  show ?case
  proof (cases "position = offset + len")
    case True
    then show ?thesis by (simp add: stream_from.simps [of read offset len "offset + len"] stream_pull_def)
  next
    case False
    let ?n = "min block_bytes (offset + len - position)"
    have b: "block read position ?n = Some (take ?n (drop position file))"
      by (rule block_of_file [OF 1(2)]) (use 1(3,4) in auto)
    then have e: "stream_pull read offset len position = Enqueue (take ?n (drop position file)) (position + ?n)"
      using False by (simp add: stream_pull_def Let_def)
    have "position + ?n \<le> offset + len" using 1(4) by simp
    with 1(1) [OF _ e] 1(2-4)
    have ih: "concat (fst (stream_from read offset len (position + ?n))) =
        take (offset + len - (position + ?n)) (drop (position + ?n) file)"
      "snd (stream_from read offset len (position + ?n))" by auto
    have "take ?n (drop position file) @ take (offset + len - position - ?n) (drop ?n (drop position file)) =
        take (offset + len - position) (drop position file)"
      by (rule take_split) simp
    then show ?thesis
      using 1(4) e ih by (simp add: stream_from.simps [of read offset len position] Let_def case_prod_beta add.commute)
  qed
qed

section \<open>The injected document\<close>

text \<open>Whether the text contains a match of \<open>/<\/script/i\<close>.\<close>

primrec closes_script :: "jsstr \<Rightarrow> bool" where
  "closes_script [] = False"
| "closes_script (c # cs) = (starts_ci (c # cs) (js ''</script'') \<or> closes_script cs)"

abbreviation lt :: code_unit where "lt \<equiv> 0x3C"

lemma script_texts:
  "js ''</script'' = lt # js ''/script''" "js ''<'' = [lt]" "of_char CHR ''<'' = lt"
  "lt \<notin> set (js ''/script'')" "length (js ''/script'') = 7"
  by (simp_all add: js_def)

lemma closes_script_lt: "closes_script s \<Longrightarrow> lt \<in> set s"
proof (induction s)
  case (Cons c cs)
  have "starts_ci (c # cs) (lt # js ''/script'') \<Longrightarrow> c = lt"
    by (auto simp: starts_ci_def lower_unit_def split: if_splits)
  with Cons show ?case by (auto simp: script_texts)
qed simp

lemma escape_script_match:
  "starts_ci (c # cs) (js ''</script'') \<Longrightarrow> escape_script (c # cs) = lt # 0x5C # js ''/script'' @ escape_script (drop 7 cs)"
  by (simp add: script_texts)

lemma escape_script_keep: "\<not> starts_ci (c # cs) (js ''</script'') \<Longrightarrow> escape_script (c # cs) = c # escape_script cs"
  by simp

declare escape_script.simps(2) [simp del]

text \<open>Escaping leaves a text without the bracket where it stood.\<close>

lemma escape_script_prefix:
  "lt \<notin> set p \<Longrightarrow> map lower_unit (take (length p) (escape_script s)) = p \<Longrightarrow> map lower_unit (take (length p) s) = p"
proof (induction p arbitrary: s)
  case (Cons x xs)
  show ?case
  proof (cases s)
    case Nil
    with Cons.prems show ?thesis by simp
  next
    case (Cons c cs)
    show ?thesis
    proof (cases "starts_ci (c # cs) (js ''</script'')")
      case True
      with Cons Cons.prems show ?thesis by (simp add: escape_script_match lower_unit_def)
    next
      case False
      with Cons Cons.prems Cons.IH [of cs] show ?thesis by (simp add: escape_script_keep)
    qed
  qed
qed simp

lemma closes_script_skip: "lt \<notin> set p \<Longrightarrow> closes_script (p @ s) = closes_script s"
proof (induction p)
  case (Cons c cs)
  have "\<not> starts_ci (c # cs @ s) (js ''</script'')"
    using Cons.prems by (auto simp: starts_ci_def script_texts lower_unit_def split: if_splits)
  with Cons show ?case by simp
qed simp

lemma escape_script_safe: "\<not> closes_script (escape_script s)"
proof (induction s rule: escape_script.induct)
  case (2 c cs)
  show ?case
  proof (cases "starts_ci (c # cs) (js ''</script'')")
    case True
    have "lt \<notin> set (0x5C # js ''/script'')" using script_texts(4) by simp
    from closes_script_skip [OF this, of "escape_script (drop 7 cs)"] 2(1) [OF True]
    have rest: "\<not> closes_script (0x5C # js ''/script'' @ escape_script (drop 7 cs))" by simp
    have "\<not> starts_ci (lt # 0x5C # js ''/script'' @ escape_script (drop 7 cs)) (js ''</script'')"
      by (simp add: starts_ci_def js_def lower_unit_def)
    with rest show ?thesis using True by (simp add: escape_script_match)
  next
    case False
    have "\<not> starts_ci (c # escape_script cs) (js ''</script'')"
    proof
      assume "starts_ci (c # escape_script cs) (js ''</script'')"
      then have c: "lower_unit c = lt" "map lower_unit (take 7 (escape_script cs)) = js ''/script''"
        by (auto simp: starts_ci_def script_texts numeral_eq_Suc)
      have "map lower_unit (take (length (js ''/script'')) cs) = js ''/script''"
        by (rule escape_script_prefix [OF script_texts(4)]) (simp only: script_texts c)
      then have "map lower_unit (take 7 cs) = js ''/script''" by (simp only: script_texts)
      with c(1) False show False by (simp add: starts_ci_def script_texts numeral_eq_Suc)
    qed
    with 2(2) [OF False] False show ?thesis by (simp add: escape_script_keep)
  qed
qed simp

lemma escape_lt_safe: "lt \<notin> set (escape_lt s)"
  by (auto simp: escape_lt_def js_def split: if_splits)

section \<open>Responses\<close>

lemma file_response_length:
  fixes bytes :: "bytes option"
  assumes "resp_status (file_response cfg entry st bytes input) \<in> {200, 206}"
  shows "map_of (resp_headers (file_response cfg entry st bytes input)) ''Content-Security-Policy'' = Some (security_policy (parentOrigin cfg))"
    and "resp_body (file_response cfg entry st bytes input) = ByteBody bs \<Longrightarrow>
      map_of (resp_headers (file_response cfg entry st bytes input)) ''Content-Length'' = Some (nat_dec (length bs))"
    and "resp_body (file_response cfg entry st bytes input) = StreamBody p off n \<Longrightarrow>
      map_of (resp_headers (file_response cfg entry st bytes input)) ''Content-Length'' = Some (nat_dec n) \<and>
      off + n \<le> sizeBytes st \<and> p = stat_path st"
proof -
  let ?sz = "case bytes of Some bs \<Rightarrow> length bs | None \<Rightarrow> sizeBytes st"
  from assms obtain selected where sel: "content_range (req_range input) ?sz = Some selected"
    by (auto simp: file_response_def Let_def split: option.splits)
  have inside: "range_offset selected + range_length selected \<le> ?sz" using range_inside [OF sel] by blast
  let ?r = "file_response cfg entry st bytes input"
  show "map_of (resp_headers ?r) ''Content-Security-Policy'' = Some (security_policy (parentOrigin cfg))"
    using sel by (simp add: file_response_def Let_def base_headers_def)
  have len: "map_of (resp_headers ?r) ''Content-Length'' = Some (nat_dec (range_length selected))"
    using sel by (simp add: file_response_def Let_def base_headers_def)
  show "map_of (resp_headers ?r) ''Content-Length'' = Some (nat_dec (length bs))" if "resp_body ?r = ByteBody bs"
    using that sel len inside by (auto simp: file_response_def Let_def split: if_splits option.splits)
  show "map_of (resp_headers ?r) ''Content-Length'' = Some (nat_dec n) \<and> off + n \<le> sizeBytes st \<and> p = stat_path st"
    if "resp_body ?r = StreamBody p off n"
    using that sel len inside by (auto simp: file_response_def Let_def split: if_splits option.splits)
qed

lemma serve_file:
  assumes "serve h cfg stat read input path = Some r" "resp_status r \<in> {200, 206, 416}"
  shows "\<exists>st entry bytes. stat = Some st \<and> r = file_response cfg entry st bytes input \<and> req_method input \<in> {''GET'', ''HEAD''}"
  using assms by (auto simp: serve_def plain_response_def split: if_splits option.splits)

text \<open>An answer with one of these statuses came from a served path.\<close>

lemma on_fetch_served:
  assumes "on_fetch h cfg stat read same_origin pathname input = Some r" "resp_status r \<in> {200, 206, 416}"
  obtains path where "decode_uri h (drop (length (js ''/run/'' @ host_runId h @ js ''/'')) pathname) = Some path"
    "starts_with pathname (js ''/run/'' @ host_runId h @ js ''/'')" "same_origin" "\<not> traversing path"
    "serve h cfg (stat path) (read path) input path = Some r"
proof -
  from assms obtain path where p: "decode_uri h (drop (length (js ''/run/'' @ host_runId h @ js ''/'')) pathname) = Some path"
    "starts_with pathname (js ''/run/'' @ host_runId h @ js ''/'')" "same_origin"
    by (auto simp: on_fetch_def Let_def plain_response_def split: if_splits option.splits)
  with assms(1) have r: "r = (if traversing path then plain_response 404
      else case serve h cfg (stat path) (read path) input path of Some r \<Rightarrow> r | None \<Rightarrow> plain_response 502)"
    by (auto simp: on_fetch_def Let_def split: if_splits)
  with assms(2) have t: "\<not> traversing path" by (auto simp: plain_response_def)
  with r assms(2) have "serve h cfg (stat path) (read path) input path = Some r"
    by (auto simp: plain_response_def split: option.splits)
  with p t that show thesis by blast
qed

section \<open>Properties\<close>

text \<open>
  Byte ranges follow the protocol: for a file of up to \<open>2^53 - 1\<close> bytes, a first and last byte, an open
  end and a suffix select exactly the bytes they name, clipped to the file, and are refused exactly when they
  name none.
\<close>

theorem byte_range_meaning:
  assumes "int sz \<le> max_safe"
  shows "content_range (Some (js ''bytes='' @ nat_dec a @ js ''-'' @ nat_dec b)) sz =
      (if a < sz \<and> a \<le> b then Some \<lparr>range_offset = a, range_length = min b (sz - 1) + 1 - a, range_partial = True\<rparr> else None) \<and>
    content_range (Some (js ''bytes='' @ nat_dec a @ js ''-'')) sz =
      (if a < sz then Some \<lparr>range_offset = a, range_length = sz - a, range_partial = True\<rparr> else None) \<and>
    content_range (Some (js ''bytes=-'' @ nat_dec b)) sz =
      (if 0 < b \<and> 0 < sz then Some \<lparr>range_offset = sz - b, range_length = min b sz, range_partial = True\<rparr> else None)"
  using range_both [OF assms] range_from [OF assms] range_suffix [OF assms] by blast

theorem byte_range_meaning_witness:
  "content_range (Some (js ''bytes='' @ nat_dec 5 @ js ''-'' @ nat_dec 99)) 10 =
     Some \<lparr>range_offset = 5, range_length = 5, range_partial = True\<rparr>"
  using byte_range_meaning [of 10 5 99] by (simp add: max_safe_def)

text \<open>
  C32. A stream over a page that answers with the bytes of the file delivers exactly the selected range and
  then closes.
\<close>

theorem stream_delivers_range:
  assumes "reads_file read file" "offset + len \<le> length file"
  shows "concat (fst (stream read offset len)) = take len (drop offset file) \<and> snd (stream read offset len)"
  using stream_from_file [OF assms, of offset] by (simp add: stream_def)

definition array_reader :: "bytes \<Rightarrow> reader" where
  "array_reader file offset len = Some \<lparr>reply_status = Fin 200, reply_bytes = Some (take len (drop offset file))\<rparr>"

theorem stream_delivers_range_witness:
  "concat (fst (stream (array_reader [1, 2, 3, 4]) 1 2)) = [2, 3]"
proof -
  have "reads_file (array_reader [1, 2, 3, 4]) [1, 2, 3, 4]" by (simp add: reads_file_def array_reader_def)
  from stream_delivers_range [OF this, of 1 2] show ?thesis by simp
qed

text \<open>
  A stream never ends short: whatever the page answers, also with failures and blocks of a wrong length,
  it closes exactly when it has delivered as many bytes as the response announced, never delivers more, and
  no chunk is larger than 256 KiB.
\<close>

theorem stream_never_short:
  "(snd (stream read offset len) \<longleftrightarrow> length (concat (fst (stream read offset len))) = len) \<and>
   length (concat (fst (stream read offset len))) \<le> len \<and>
   list_all (\<lambda>c. length c \<le> 262144) (fst (stream read offset len))"
proof -
  obtain chunks ok where s: "stream_from read offset len offset = (chunks, ok)" by force
  from stream_from_exact [OF _ this] show ?thesis by (simp add: stream_def s block_bytes_def)
qed

text \<open>
  What is injected into the entry document cannot leave its script element: the escaped bridge contains
  no closing script tag in any case, and the escaped configuration no opening bracket at all.
\<close>

theorem injection_stays_in_script:
  "\<not> closes_script (escape_script (bridge cfg)) \<and> 0x3C \<notin> set (escape_lt (cfg_json cfg))"
  using escape_script_safe escape_lt_safe by blast

text \<open>
  The announced length is the length sent: every answer with a body carries its exact
  \<open>Content-Length\<close>, the range lies inside the file, and every answer of the file itself carries the security
  policy of the isolated document.
\<close>

theorem response_length_exact:
  assumes "serve h cfg stat read input path = Some r" "resp_status r \<in> {200, 206}"
  shows "map_of (resp_headers r) ''Content-Security-Policy'' = Some (security_policy (parentOrigin cfg)) \<and>
    (\<forall>bs. resp_body r = ByteBody bs \<longrightarrow> map_of (resp_headers r) ''Content-Length'' = Some (nat_dec (length bs))) \<and>
    (\<forall>p off n. resp_body r = StreamBody p off n \<longrightarrow> map_of (resp_headers r) ''Content-Length'' = Some (nat_dec n) \<and>
       off + n \<le> sizeBytes (the stat) \<and> p = stat_path (the stat))"
proof -
  from serve_file [OF assms(1)] assms(2) obtain st entry bytes
    where "stat = Some st" "r = file_response cfg entry st bytes input" by auto
  with file_response_length [of cfg entry st bytes input] assms(2) show ?thesis by simp
qed

definition example_host :: content_host where
  "example_host = \<lparr>decode_utf8 = (\<lambda>bs. Some (map ucast bs)), encode_utf8 = map ucast, decode_uri = Some,
     relay_source = [], host_runId = js ''r''\<rparr>"

definition example_config :: content_config where
  "example_config = \<lparr>entryFile = js ''index.html'', parentOrigin = [], bridge = [], cfg_json = []\<rparr>"

definition example_stat :: stat_reply where
  "example_stat = \<lparr>stat_status = Fin 200, sizeBytes = 4, mediaType = [], stat_path = js ''a''\<rparr>"

definition get_request :: content_request where
  "get_request = \<lparr>req_method = ''GET'', req_destination = [], req_range = None\<rparr>"

lemma example_serves:
  "serve example_host example_config (Some example_stat) (array_reader [1, 2, 3, 4]) get_request (js ''a'') =
     Some (file_response example_config False example_stat None get_request)"
  "resp_status (file_response example_config False example_stat None get_request) = 200"
  "resp_body (file_response example_config False example_stat None get_request) = StreamBody (js ''a'') 0 4"
  by (simp_all add: serve_def example_config_def example_stat_def get_request_def file_response_def content_range_def Let_def js_def)

theorem response_length_exact_witness:
  "map_of (resp_headers (file_response example_config False example_stat None get_request)) ''Content-Length'' = Some (nat_dec 4)"
  using response_length_exact [OF example_serves(1)] example_serves(2,3) by simp

text \<open>
  No path leaves the content root: whatever the page requests, the worker asks for content only under
  its own prefix, for a decoded path without empty, dot or double-dot segments and without backslashes, and
  only for reading methods.
\<close>

theorem no_traversal:
  assumes "on_fetch h cfg stat read same_origin pathname input = Some r" "resp_status r \<in> {200, 206, 416}"
  shows "\<exists>path. decode_uri h (drop (length (js ''/run/'' @ host_runId h @ js ''/'')) pathname) = Some path \<and>
    starts_with pathname (js ''/run/'' @ host_runId h @ js ''/'') \<and> same_origin \<and>
    list_all (\<lambda>part. part \<noteq> [] \<and> part \<noteq> js ''.'' \<and> part \<noteq> js ''..'') (split_on slash path) \<and> 0x5C \<notin> set path \<and>
    serve h cfg (stat path) (read path) input path = Some r \<and> req_method input \<in> {''GET'', ''HEAD''}"
proof -
  from assms obtain path where p: "decode_uri h (drop (length (js ''/run/'' @ host_runId h @ js ''/'')) pathname) = Some path"
    "starts_with pathname (js ''/run/'' @ host_runId h @ js ''/'')" "same_origin" "\<not> traversing path"
    "serve h cfg (stat path) (read path) input path = Some r"
    by (rule on_fetch_served)
  moreover have "req_method input \<in> {''GET'', ''HEAD''}" using serve_file [OF p(5) assms(2)] by blast
  ultimately show ?thesis by (auto simp: traversing_def list_ex_iff list_all_iff)
qed

theorem no_traversal_witness:
  "\<exists>path. decode_uri example_host (js ''a'') = Some path \<and>
     list_all (\<lambda>part. part \<noteq> [] \<and> part \<noteq> js ''.'' \<and> part \<noteq> js ''..'') (split_on slash path)"
proof -
  have "on_fetch example_host example_config (\<lambda>_. Some example_stat) (\<lambda>_. array_reader [1, 2, 3, 4]) True (js ''/run/r/a'') get_request =
      Some (file_response example_config False example_stat None get_request)"
    using example_serves(1) by (simp add: on_fetch_def Let_def example_host_def js_def traversing_def slash_def)
  from no_traversal [OF this] example_serves(2) show ?thesis
    by (auto simp: example_host_def js_def)
qed

text \<open>
  C7. One pass of the base filter is not enough: a base tag written around another one stands in the text the
  worker serves after the inner one was removed.
\<close>

theorem base_tag_reassembled:
  "strip_base (js ''<ba<base >se >x'') = js ''<base >x'' \<and> base_tag (js ''<base >x'') = Some (js ''x'')"
  by code_simp

end
