(* ===== verification/Save_Drafts.thy ===== *)
theory Save_Drafts
  imports Json_Value
begin

text \<open>
  The unsynchronised saves of the player: \<open>save-drafts.ts\<close> (drafts in IndexedDB and in memory) and
  \<open>draft-upload.ts\<close> (their upload, with one renewal of an expired run), both in
  \<open>web/features/player\<close>. A world holds the two stores and the calls made so far; what the browser and the
  server answer is a parameter that may depend on all calls made before. Creation time and identifiers come
  from the caller, blobs are their bytes.
\<close>

section \<open>Drafts\<close>

type_synonym blob = "8 word list"

record save_metadata =
  commitId :: jsstr
  meta_runId :: jsstr
  meta_name :: jsstr
  is_native :: bool
  meta_slot :: "jsstr option"
  extinfo :: jval
  meta_version :: "int option"

record draft =
  draft_id :: jsstr
  draft_userId :: jsstr
  gameId :: jsstr
  gameTitle :: jsstr
  createdAtMs :: int
  metadata :: save_metadata
  saveId :: "jsstr option"
  payload :: blob
  screenshot :: "blob option"
  checkpointMetadata :: jval
  mismatch_noted :: bool

text \<open>A record of the object store: a draft, or any other object under its key path.\<close>

datatype stored = StoredDraft draft | OtherRecord jsstr

definition stored_user :: "stored \<Rightarrow> jsstr option" where
  "stored_user r = (case r of StoredDraft d \<Rightarrow> Some (draft_userId d) | OtherRecord _ \<Rightarrow> None)"

definition stored_id :: "stored \<Rightarrow> jsstr" where
  "stored_id r = (case r of StoredDraft d \<Rightarrow> draft_id d | OtherRecord i \<Rightarrow> i)"

section \<open>Errors, calls and the world\<close>

datatype net_error = ApiError jsstr nat | NetworkFailure

datatype save_error =
    DraftStorageFailure | StorageError | OtherAccountAccess | OtherAccountUpload | DraftsUnreadable
  | DraftIdentityMismatch | VersionConflictKept nat | RequestError net_error

datatype storage_failure = QuotaExceeded | OtherStorageFailure

datatype net_call =
    Commit jsstr "jsstr option" jsstr
  | OpenRun jsstr jval "jsstr option"
  | CloseRun jsstr
  | SaveFailureEvent jsstr

datatype call = Transaction | Reclaim int | Net net_call

record renewed_run =
  renewed_id :: jsstr
  renewed_extinfo :: jval

record save_env =
  tx_failure :: "call list \<Rightarrow> storage_failure option"
  reclaim_fails :: "call list \<Rightarrow> bool"
  commit_answer :: "call list \<Rightarrow> net_error + jsstr"
  open_answer :: "call list \<Rightarrow> net_error + renewed_run"
  close_answer :: "call list \<Rightarrow> net_error option"

record world =
  volatileDrafts :: "(jsstr, draft) amap"
  object_store :: "(jsstr, stored) amap"
  past_calls :: "call list"

definition note_call :: "call \<Rightarrow> world \<Rightarrow> world" where
  "note_call c w = w\<lparr>past_calls := past_calls w @ [c]\<rparr>"

text \<open>
  \<open>transaction(mode, action)\<close>: the native transaction completes and the action took effect, or it aborts and
  the store is unchanged.
\<close>

definition run_transaction :: "save_env \<Rightarrow> ((jsstr, stored) amap \<Rightarrow> 'a \<times> (jsstr, stored) amap) \<Rightarrow> world \<Rightarrow>
    (storage_failure + 'a) \<times> world" where
  "run_transaction env action w =
     (let w1 = note_call Transaction w in
      case tx_failure env (past_calls w) of
        Some f \<Rightarrow> (Inl f, w1)
      | None \<Rightarrow> (let (x, m) = action (object_store w1) in (Inr x, w1\<lparr>object_store := m\<rparr>)))"

definition put_stored :: "draft \<Rightarrow> (jsstr, stored) amap \<Rightarrow> unit \<times> (jsstr, stored) amap" where
  "put_stored d m = ((), amap_put (draft_id d) (StoredDraft d) m)"

section \<open>save-drafts.ts\<close>

definition reclaim_target :: "draft \<Rightarrow> int" where
  "reclaim_target d = max (32 * 1024 * 1024)
     (2 * (int (length (payload d)) + (case screenshot d of Some s \<Rightarrow> int (length s) | None \<Rightarrow> 0)))"

text \<open>\<open>putDraft(draft, reclaim)\<close>; \<open>reclaim\<close> tells whether the callback was passed.\<close>

definition putDraft :: "save_env \<Rightarrow> bool \<Rightarrow> draft \<Rightarrow> world \<Rightarrow> (save_error + unit) \<times> world" where
  "putDraft env reclaim d w =
     (let w1 = w\<lparr>volatileDrafts := amap_put (draft_id d) d (volatileDrafts w)\<rparr>;
          forget = (\<lambda>v. v\<lparr>volatileDrafts := amap_del (draft_id d) (volatileDrafts v)\<rparr>) in
      case run_transaction env (put_stored d) w1 of
        (Inr _, w2) \<Rightarrow> (Inr (), forget w2)
      | (Inl failure, w2) \<Rightarrow>
          if \<not> reclaim \<or> failure \<noteq> QuotaExceeded then (Inl DraftStorageFailure, w2)
          else (let w3 = note_call (Reclaim (reclaim_target d)) w2 in
            if reclaim_fails env (past_calls w2) then (Inl DraftStorageFailure, w3)
            else case run_transaction env (put_stored d) w3 of
              (Inr _, w4) \<Rightarrow> (Inr (), forget w4)
            | (Inl _, w4) \<Rightarrow> (Inl DraftStorageFailure, w4)))"

definition removeDraft :: "save_env \<Rightarrow> jsstr \<Rightarrow> jsstr \<Rightarrow> world \<Rightarrow> (save_error + unit) \<times> world" where
  "removeDraft env user i w =
     (if (case map_of (volatileDrafts w) i of Some d \<Rightarrow> draft_userId d \<noteq> user | None \<Rightarrow> False)
      then (Inl OtherAccountAccess, w)
      else case run_transaction env (\<lambda>m. (map_of m i, m)) w of
        (Inl _, w1) \<Rightarrow> (Inl StorageError, w1)
      | (Inr None, w1) \<Rightarrow> (Inr (), w1\<lparr>volatileDrafts := amap_del i (volatileDrafts w1)\<rparr>)
      | (Inr (Some r), w1) \<Rightarrow>
          if stored_user r \<noteq> Some user then (Inl OtherAccountAccess, w1)
          else case run_transaction env (\<lambda>m. ((), amap_del i m)) w1 of
            (Inl _, w2) \<Rightarrow> (Inl StorageError, w2)
          | (Inr _, w2) \<Rightarrow> (Inr (), w2\<lparr>volatileDrafts := amap_del i (volatileDrafts w2)\<rparr>))"

text \<open>\<open>getAll()\<close> lists the records by key. The comparator of the final sort is newest first.\<close>

definition get_all :: "(jsstr, stored) amap \<Rightarrow> stored list" where
  "get_all m = map (\<lambda>k. the (map_of m k)) (sort (amap_keys m))"

definition newest_first :: "draft \<Rightarrow> draft \<Rightarrow> bool" where
  "newest_first a b = (createdAtMs b - createdAtMs a \<le> 0)"

interpretation newest: comparator newest_first
  by unfold_locales (auto simp: newest_first_def)

definition user_drafts :: "jsstr \<Rightarrow> stored list \<Rightarrow> draft list" where
  "user_drafts user rs = concat (map (\<lambda>r. case r of StoredDraft d \<Rightarrow> if draft_userId d = user then [d] else [] | OtherRecord _ \<Rightarrow> []) rs)"

definition listDrafts :: "save_env \<Rightarrow> jsstr \<Rightarrow> world \<Rightarrow> (save_error + draft list) \<times> world" where
  "listDrafts env user w =
     (case run_transaction env (\<lambda>m. (get_all m, m)) w of
        (Inl _, w1) \<Rightarrow>
          if list_ex (\<lambda>d. draft_userId d = user) (amap_vals (volatileDrafts w1))
          then (Inr (sort_by newest_first (user_drafts user (amap_vals
            (fold (\<lambda>d. amap_put (draft_id d) (StoredDraft d)) (amap_vals (volatileDrafts w1)) [])))), w1)
          else (Inl DraftsUnreadable, w1)
      | (Inr records, w1) \<Rightarrow>
          (Inr (sort_by newest_first (user_drafts user (amap_vals
            (fold (\<lambda>d. amap_put (draft_id d) (StoredDraft d)) (amap_vals (volatileDrafts w1))
              (amap_from stored_id id records))))), w1))"

section \<open>draft-upload.ts\<close>

text \<open>
  \<open>sameIdentity(left, right)\<close>. The values come from different sources, so the first test holds only for
  equal primitive values; \<open>NaN\<close> differs from itself.
\<close>

function sameIdentity :: "jval \<Rightarrow> jval \<Rightarrow> bool" where
  "sameIdentity (JArr xs) (JArr ys) = (length xs = length ys \<and> list_all (\<lambda>(x, y). sameIdentity x y) (zip xs ys))"
| "sameIdentity (JObj p ps) (JObj q qs) =
     (length ps = length qs \<and>
      list_all (\<lambda>(k, v). case map_of qs k of Some w \<Rightarrow> sameIdentity v w | None \<Rightarrow> False) ps)"
| "sameIdentity JNull r = (r = JNull)"
| "sameIdentity (JBool b) r = (r = JBool b)"
| "sameIdentity (JNum n) r = (case r of JNum m \<Rightarrow> num_eq n m | _ \<Rightarrow> False)"
| "sameIdentity (JStr s) r = (r = JStr s)"
| "sameIdentity (JArr xs) JNull = False"
| "sameIdentity (JArr xs) (JBool b) = False"
| "sameIdentity (JArr xs) (JNum n) = False"
| "sameIdentity (JArr xs) (JStr s) = False"
| "sameIdentity (JArr xs) (JObj q qs) = False"
| "sameIdentity (JObj p ps) JNull = False"
| "sameIdentity (JObj p ps) (JBool b) = False"
| "sameIdentity (JObj p ps) (JNum n) = False"
| "sameIdentity (JObj p ps) (JStr s) = False"
| "sameIdentity (JObj p ps) (JArr xs) = False"
  by pat_completeness auto
termination
proof (relation "measure (\<lambda>(l, r). size l)", goal_cases)
  case (2 xs ys z x y)
  then have "x \<in> set xs" by (auto dest: set_zip_leftD)
  then have "size x \<le> size_list size xs" by (rule size_list_estimation') simp
  then show ?case by simp
next
  case (3 p ps q qs z k v w)
  then have "z \<in> set ps" "z = (k, v)" by auto
  then have "size v < size_list (size_prod (\<lambda>_. 0) size) ps"
    by (intro size_list_estimation [of z]) (auto simp: size_prod_simp)
  then show ?case by simp
qed simp

definition version_conflict :: jsstr where "version_conflict = js ''VERSION_CONFLICT''"
definition context_expired :: jsstr where "context_expired = js ''CONTEXT_EXPIRED''"

definition commit :: "save_env \<Rightarrow> draft \<Rightarrow> jsstr \<Rightarrow> world \<Rightarrow> (save_error + jsstr) \<times> world" where
  "commit env d runId w =
     ((case commit_answer env (past_calls w) of
         Inr save \<Rightarrow> Inr save
       | Inl (ApiError code st) \<Rightarrow>
           if code = version_conflict then Inl (VersionConflictKept st) else Inl (RequestError (ApiError code st))
       | Inl NetworkFailure \<Rightarrow> Inl (RequestError NetworkFailure)),
      note_call (Net (Commit runId (saveId d) (commitId (metadata d)))) w)"

text \<open>\<open>closeRenewal\<close> never throws: every failure but a missing run is reported as an event.\<close>

definition closeRenewal :: "save_env \<Rightarrow> jsstr \<Rightarrow> jsstr \<Rightarrow> world \<Rightarrow> world" where
  "closeRenewal env runId user w =
     (let w1 = note_call (Net (CloseRun runId)) w in
      case close_answer env (past_calls w) of
        None \<Rightarrow> w1
      | Some (ApiError code st) \<Rightarrow> if st \<noteq> 404 then note_call (Net (SaveFailureEvent user)) w1 else w1
      | Some NetworkFailure \<Rightarrow> note_call (Net (SaveFailureEvent user)) w1)"

definition core_of :: "draft \<Rightarrow> jval" where
  "core_of d = (case jget (extinfo (metadata d)) (js ''coreId'') of Some v \<Rightarrow> v | None \<Rightarrow> JNull)"

definition uploadWithRenewal :: "save_env \<Rightarrow> draft \<Rightarrow> world \<Rightarrow> (save_error + jsstr) \<times> world" where
  "uploadWithRenewal env d w =
     (case commit env d (meta_runId (metadata d)) w of
        (Inr save, w1) \<Rightarrow> (Inr save, w1)
      | (Inl e, w1) \<Rightarrow>
          if (case e of RequestError (ApiError code st) \<Rightarrow> code \<noteq> context_expired | _ \<Rightarrow> True) then (Inl e, w1)
          else (let w2 = note_call (Net (OpenRun (gameId d) (core_of d) (saveId d))) w1 in
            case open_answer env (past_calls w1) of
              Inl err \<Rightarrow> (Inl (RequestError err), w2)
            | Inr run \<Rightarrow>
                if \<not> sameIdentity (extinfo (metadata d)) (renewed_extinfo run)
                then (Inl DraftIdentityMismatch, closeRenewal env (renewed_id run) (draft_userId d) w2)
                else (let (r, w3) = commit env d (renewed_id run) w2 in
                  (r, closeRenewal env (renewed_id run) (draft_userId d) w3))))"

definition uploadDraft :: "save_env \<Rightarrow> bool \<Rightarrow> draft \<Rightarrow> jsstr \<Rightarrow> world \<Rightarrow> (save_error + jsstr) \<times> world" where
  "uploadDraft env reclaim d currentUser w =
     (if draft_userId d \<noteq> currentUser then (Inl OtherAccountUpload, w)
      else case uploadWithRenewal env d w of
        (Inl DraftIdentityMismatch, w1) \<Rightarrow>
          (case putDraft env reclaim (d\<lparr>mismatch_noted := True\<rparr>) w1 of
             (Inl e, w2) \<Rightarrow> (Inl e, w2)
           | (Inr _, w2) \<Rightarrow> (Inl DraftIdentityMismatch, w2))
      | (Inl e, w1) \<Rightarrow> (Inl e, w1)
      | (Inr save, w1) \<Rightarrow>
          (case removeDraft env currentUser (draft_id d) w1 of
             (Inl e, w2) \<Rightarrow> (Inl e, w2)
           | (Inr _, w2) \<Rightarrow> (Inr save, w2)))"

end
