(* ===== verification/Save_Properties.thy ===== *)
theory Save_Properties
  imports Save_Drafts
begin

text \<open>
  No draft is lost and no account touches another's: what every operation on drafts keeps, whatever the
  browser and the server answer, what a list shows, the calls of an upload, and the meaning of
  \<open>sameIdentity\<close>.
\<close>

section \<open>Identities\<close>

text \<open>JSON as the server sends it: no key twice, no NaN, the plain prototype.\<close>

fun json_plain :: "jval \<Rightarrow> bool" where
  "json_plain (JNum n) = (n \<noteq> NaN)"
| "json_plain (JArr xs) = list_all json_plain xs"
| "json_plain (JObj p ps) = (p = None \<and> distinct (map fst ps) \<and> list_all (\<lambda>(k, v). json_plain v) ps)"
| "json_plain _ = True"

text \<open>The specification: equal after sorting the keys of every object.\<close>

fun sort_keys :: "jval \<Rightarrow> jval" where
  "sort_keys (JArr xs) = JArr (map sort_keys xs)"
| "sort_keys (JObj p ps) = JObj p (sort_key fst (map (\<lambda>(k, v). (k, sort_keys v)) ps))"
| "sort_keys v = v"

lemma sorted_keys_eq:
  assumes "distinct (map fst xs)" "distinct (map fst ys)"
  shows "sort_key fst xs = sort_key fst ys \<longleftrightarrow> set xs = set ys"
proof
  assume "set xs = set ys"
  then show "sort_key fst xs = sort_key fst ys"
    using assms
    by (intro map_sorted_distinct_set_unique [where f = fst])
      (auto simp: distinct_map sorted_sort_key intro: inj_on_subset)
qed (metis set_sort)

lemma same_members:
  assumes d: "distinct (map fst ps)" "distinct (map fst qs)"
    and eq: "\<And>k v w. (k, v) \<in> set ps \<Longrightarrow> (k, w) \<in> set qs \<Longrightarrow> same v w \<longleftrightarrow> f v = f w"
  shows "(length ps = length qs \<and> list_all (\<lambda>(k, v). case map_of qs k of Some w \<Rightarrow> same v w | None \<Rightarrow> False) ps) \<longleftrightarrow>
    set (map (\<lambda>(k, v). (k, f v)) ps) = set (map (\<lambda>(k, v). (k, f v)) qs)"
    (is "?l \<longleftrightarrow> ?P = ?Q")
proof
  have dq: "map fst (map (\<lambda>(k, v). (k, f v)) xs) = map fst xs" for xs :: "('a \<times> 'b) list" by (induction xs) auto
  have card: "card (set (map (\<lambda>(k, v). (k, f v)) xs)) = length xs" if "distinct (map fst xs)" for xs :: "('a \<times> 'b) list"
  proof -
    have "distinct (map (\<lambda>(k, v). (k, f v)) xs)" using that dq [of xs] by (metis distinct_mapI)
    then show ?thesis using distinct_card by fastforce
  qed
  { assume l: ?l
    have "?P \<subseteq> ?Q"
    proof
      fix z assume "z \<in> ?P"
      then obtain k v where z: "z = (k, f v)" "(k, v) \<in> set ps" by auto
      with l obtain w where w: "map_of qs k = Some w" "same v w" by (fastforce simp: list_all_iff split: option.splits)
      then have "(k, w) \<in> set qs" by (simp add: map_of_SomeD)
      with eq z w show "z \<in> ?Q" by force
    qed
    then show "?P = ?Q" using card d l by (intro card_subset_eq) auto }
  { assume PQ: "?P = ?Q"
    then have "length ps = length qs" using card d by metis
    moreover have "case map_of qs k of Some w \<Rightarrow> same v w | None \<Rightarrow> False" if kv: "(k, v) \<in> set ps" for k v
    proof -
      from kv PQ have "(k, f v) \<in> ?Q" by force
      then obtain w where w: "(k, w) \<in> set qs" "f v = f w" by auto
      with d(2) have "map_of qs k = Some w" by simp
      with eq kv w show ?thesis by simp
    qed
    ultimately show ?l by (auto simp: list_all_iff) }
qed

lemma same_identity_iff:
  "json_plain a \<Longrightarrow> json_plain b \<Longrightarrow> sameIdentity a b \<longleftrightarrow> sort_keys a = sort_keys b"
proof (induction a b rule: sameIdentity.induct)
  case (1 xs ys)
  have "list_all (\<lambda>(x, y). sameIdentity x y) (zip xs ys) \<longleftrightarrow> map sort_keys xs = map sort_keys ys" if l: "length xs = length ys"
  proof -
    have "sameIdentity (xs ! i) (ys ! i) \<longleftrightarrow> sort_keys (xs ! i) = sort_keys (ys ! i)" if "i < length xs" for i
      using that l 1 by (intro 1(1) [of "(xs ! i, ys ! i)"]) (auto simp: list_all_length in_set_zip)
    then show ?thesis using l by (auto simp: list_all_length list_eq_iff_nth_eq)
  qed
  then show ?case by (auto dest: map_eq_imp_length_eq)
next
  case (2 p ps q qs)
  have d: "distinct (map fst ps)" "distinct (map fst qs)" and p: "p = None" "q = None" using 2(2,3) by auto
  have eq: "sameIdentity v w \<longleftrightarrow> sort_keys v = sort_keys w" if "(k, v) \<in> set ps" "(k, w) \<in> set qs" for k v w
    using that d 2(2,3) by (intro 2(1) [of "(k, v)" k v w]) (auto simp: list_all_iff)
  have dq: "map fst (map (\<lambda>(k, v). (k, sort_keys v)) xs) = map fst xs" for xs :: "(jsstr \<times> jval) list" by (induction xs) auto
  have m: "(length ps = length qs \<and> list_all (\<lambda>(k, v). case map_of qs k of Some w \<Rightarrow> sameIdentity v w | None \<Rightarrow> False) ps) \<longleftrightarrow>
      set (map (\<lambda>(k, v). (k, sort_keys v)) ps) = set (map (\<lambda>(k, v). (k, sort_keys v)) qs)"
    by (rule same_members [OF d]) (rule eq)
  have s: "sort_key fst (map (\<lambda>(k, v). (k, sort_keys v)) ps) = sort_key fst (map (\<lambda>(k, v). (k, sort_keys v)) qs) \<longleftrightarrow>
      set (map (\<lambda>(k, v). (k, sort_keys v)) ps) = set (map (\<lambda>(k, v). (k, sort_keys v)) qs)"
    by (rule sorted_keys_eq) (simp_all only: dq d)
  show ?case by (simp only: sameIdentity.simps sort_keys.simps jval.inject m s p simp_thms)
next
  case (3 r)
  then show ?case by (cases r) auto
next
  case (4 b r)
  then show ?case by (cases r) auto
next
  case (5 n r)
  then show ?case by (cases r) (auto simp: num_eq_def split: jsnum.splits)
next
  case (6 t r)
  then show ?case by (cases r) auto
qed simp_all

section \<open>What operations keep\<close>

text \<open>The draft under this id is kept for the user, in memory or in the store.\<close>

definition retained :: "jsstr \<Rightarrow> jsstr \<Rightarrow> world \<Rightarrow> bool" where
  "retained i user w \<longleftrightarrow>
     (\<exists>d. map_of (volatileDrafts w) i = Some d \<and> draft_userId d = user) \<or>
     (\<exists>r. map_of (object_store w) i = Some r \<and> stored_user r = Some user)"

lemma note_call_simps [simp]:
  "volatileDrafts (note_call c w) = volatileDrafts w" "object_store (note_call c w) = object_store w"
  "past_calls (note_call c w) = past_calls w @ [c]"
  by (simp_all add: note_call_def)

lemma retained_note [simp]: "retained i u (note_call c w) = retained i u w"
  by (simp add: retained_def)

lemma transaction_cases:
  assumes "run_transaction env action w = (r, v)"
  shows "volatileDrafts v = volatileDrafts w \<and> past_calls v = past_calls w @ [Transaction] \<and>
    ((\<exists>f. r = Inl f \<and> object_store v = object_store w) \<or> (r = Inr (fst (action (object_store w))) \<and> object_store v = snd (action (object_store w))))"
  using assms by (auto simp: run_transaction_def Let_def split: option.splits prod.splits)

text \<open>A put keeps the draft whatever happens, and all other drafts.\<close>

lemma putDraft_result:
  assumes "putDraft env reclaim d w = (r, v)"
  shows "(r = Inr () \<and> map_of (object_store v) (draft_id d) = Some (StoredDraft d) \<and> map_of (volatileDrafts v) (draft_id d) = None) \<or>
    (r = Inl DraftStorageFailure \<and> map_of (volatileDrafts v) (draft_id d) = Some d)"
    and "k \<noteq> draft_id d \<Longrightarrow> map_of (volatileDrafts v) k = map_of (volatileDrafts w) k \<and> map_of (object_store v) k = map_of (object_store w) k"
proof -
  let ?w1 = "w\<lparr>volatileDrafts := amap_put (draft_id d) d (volatileDrafts w)\<rparr>"
  obtain r2 w2 where t: "run_transaction env (put_stored d) ?w1 = (r2, w2)" by force
  note t' = transaction_cases [OF t]
  let ?w3 = "note_call (Reclaim (reclaim_target d)) w2"
  obtain r4 w4 where u: "run_transaction env (put_stored d) ?w3 = (r4, w4)" by force
  note u' = transaction_cases [OF u]
  show "(r = Inr () \<and> map_of (object_store v) (draft_id d) = Some (StoredDraft d) \<and> map_of (volatileDrafts v) (draft_id d) = None) \<or>
    (r = Inl DraftStorageFailure \<and> map_of (volatileDrafts v) (draft_id d) = Some d)"
    using assms t u t' u'
    by (auto simp: putDraft_def Let_def put_stored_def amap_get_del split: sum.splits if_splits)
  show "k \<noteq> draft_id d \<Longrightarrow> map_of (volatileDrafts v) k = map_of (volatileDrafts w) k \<and> map_of (object_store v) k = map_of (object_store w) k"
    using assms t u t' u'
    by (auto simp: putDraft_def Let_def put_stored_def amap_get_del split: sum.splits if_splits)
qed

lemma removeDraft_result:
  assumes "removeDraft env user i w = (r, v)"
  shows "(\<exists>e. r = Inl e \<and> volatileDrafts v = volatileDrafts w \<and> object_store v = object_store w) \<or>
    (r = Inr () \<and> volatileDrafts v = amap_del i (volatileDrafts w) \<and> map_of (object_store v) = (map_of (object_store w))(i := None) \<and>
      (\<forall>d. map_of (volatileDrafts w) i = Some d \<longrightarrow> draft_userId d = user) \<and>
      (\<forall>s. map_of (object_store w) i = Some s \<longrightarrow> stored_user s = Some user))"
proof (cases "case map_of (volatileDrafts w) i of Some d \<Rightarrow> draft_userId d \<noteq> user | None \<Rightarrow> False")
  case True
  with assms show ?thesis by (auto simp: removeDraft_def)
next
  case False
  then have own: "\<forall>d. map_of (volatileDrafts w) i = Some d \<longrightarrow> draft_userId d = user" by (auto split: option.splits)
  obtain r1 w1 where t: "run_transaction env (\<lambda>m. (map_of m i, m)) w = (r1, w1)" by force
  note t' = transaction_cases [OF t]
  obtain r2 w2 where u: "run_transaction env (\<lambda>m. ((), amap_del i m)) w1 = (r2, w2)" by force
  note u' = transaction_cases [OF u]
  show ?thesis
    using assms False t u t' u' own
    by (auto simp: removeDraft_def amap_get_del fun_eq_iff split: sum.splits option.splits if_splits)
qed

lemma commit_keeps [simp]:
  "volatileDrafts (snd (commit env d run w)) = volatileDrafts w" "object_store (snd (commit env d run w)) = object_store w"
  by (simp_all add: commit_def)

lemma closeRenewal_keeps [simp]:
  "volatileDrafts (closeRenewal env run u w) = volatileDrafts w" "object_store (closeRenewal env run u w) = object_store w"
  by (simp_all add: closeRenewal_def Let_def split: option.split net_error.split)

lemma upload_renewal_keeps:
  assumes "uploadWithRenewal env d w = (r, v)"
  shows "volatileDrafts v = volatileDrafts w \<and> object_store v = object_store w"
proof -
  obtain e w1 where c: "commit env d (meta_runId (metadata d)) w = (e, w1)" by force
  have "volatileDrafts w1 = volatileDrafts w" "object_store w1 = object_store w"
    using commit_keeps [of env d "meta_runId (metadata d)" w] c by simp_all
  with assms c show ?thesis
    by (auto simp: uploadWithRenewal_def Let_def split: sum.splits if_splits prod.splits)
      (metis commit_keeps snd_conv note_call_simps(1,2))+
qed

section \<open>Sequences of operations\<close>

datatype draft_op = PutOp bool draft | RemoveOp jsstr jsstr | UploadOp bool draft jsstr | ListOp jsstr

definition succeeded :: "(save_error + 'a) \<times> world \<Rightarrow> bool \<times> world" where
  "succeeded p = (case fst p of Inr _ \<Rightarrow> True | Inl _ \<Rightarrow> False, snd p)"

definition run_op :: "save_env \<Rightarrow> draft_op \<Rightarrow> world \<Rightarrow> bool \<times> world" where
  "run_op env op w =
     (case op of
        PutOp reclaim d \<Rightarrow> succeeded (putDraft env reclaim d w)
      | RemoveOp user i \<Rightarrow> succeeded (removeDraft env user i w)
      | UploadOp reclaim d user \<Rightarrow> succeeded (uploadDraft env reclaim d user w)
      | ListOp user \<Rightarrow> succeeded (listDrafts env user w))"

primrec run_ops :: "save_env \<Rightarrow> draft_op list \<Rightarrow> world \<Rightarrow> bool list \<times> world" where
  "run_ops env [] w = ([], w)"
| "run_ops env (op # ops) w =
     (let (ok, w1) = run_op env op w; (oks, w2) = run_ops env ops w1 in (ok # oks, w2))"

text \<open>The operation stores a draft of another account under this id.\<close>

definition overwrites :: "jsstr \<Rightarrow> jsstr \<Rightarrow> draft_op \<Rightarrow> bool" where
  "overwrites i user op =
     (case op of PutOp _ d \<Rightarrow> draft_id d = i \<and> draft_userId d \<noteq> user
      | UploadOp _ d _ \<Rightarrow> draft_id d = i \<and> draft_userId d \<noteq> user | _ \<Rightarrow> False)"

text \<open>The user discards or uploads the draft.\<close>

definition discharges :: "jsstr \<Rightarrow> jsstr \<Rightarrow> draft_op \<Rightarrow> bool" where
  "discharges i user op =
     (case op of RemoveOp u j \<Rightarrow> u = user \<and> j = i
      | UploadOp _ d u \<Rightarrow> u = user \<and> draft_id d = i | _ \<Rightarrow> False)"

lemma put_retains:
  assumes "putDraft env reclaim d w = (r, v)" "retained i u w" "draft_id d = i \<longrightarrow> draft_userId d = u"
  shows "retained i u v"
proof (cases "draft_id d = i")
  case True
  then show ?thesis using putDraft_result(1) [OF assms(1)] assms(3) by (auto simp: retained_def stored_user_def)
next
  case False
  then show ?thesis using putDraft_result(2) [OF assms(1), of i] assms(2) by (auto simp: retained_def)
qed

lemma remove_retains:
  assumes "removeDraft env user j w = (r, v)" "retained i u w" "\<not> (user = u \<and> j = i \<and> r = Inr ())"
  shows "retained i u v"
  using removeDraft_result [OF assms(1)] assms(2,3)
  by (cases "j = i") (auto simp: retained_def amap_get_del)

lemma renewal_retains:
  "uploadWithRenewal env d w = (r, v) \<Longrightarrow> retained i u v = retained i u w"
  using upload_renewal_keeps [of env d w r v] by (simp add: retained_def)

lemma upload_retains:
  assumes "uploadDraft env reclaim d user w = (r, v)" "retained i u w" "draft_id d = i \<longrightarrow> draft_userId d = u"
    and "\<not> (user = u \<and> draft_id d = i \<and> (\<exists>s. r = Inr s))"
  shows "retained i u v"
proof (cases "draft_userId d = user")
  case own: True
  obtain r1 w1 where up: "uploadWithRenewal env d w = (r1, w1)" by force
  then have w1: "retained i u w1" using renewal_retains assms(2) by blast
  show ?thesis
  proof (cases r1)
    case (Inr save)
    obtain r2 w2 where rm: "removeDraft env user (draft_id d) w1 = (r2, w2)" by force
    have "v = w2" "(\<exists>s. r = Inr s) = (\<exists>x. r2 = Inr x)"
      using assms(1) own up Inr rm by (auto simp: uploadDraft_def split: sum.splits)
    with remove_retains [OF rm w1] assms(4) show ?thesis by auto
  next
    case (Inl e)
    show ?thesis
    proof (cases "e = DraftIdentityMismatch")
      case True
      obtain r2 w2 where pt: "putDraft env reclaim (d\<lparr>mismatch_noted := True\<rparr>) w1 = (r2, w2)" by force
      then have "v = w2" using assms(1) own up Inl True by (auto simp: uploadDraft_def split: sum.splits)
      with put_retains [OF pt w1] assms(3) show ?thesis by simp
    next
      case False
      then have "v = w1" using assms(1) own up Inl by (auto simp: uploadDraft_def split: save_error.splits)
      with w1 show ?thesis by simp
    qed
  qed
qed (use assms in \<open>simp add: uploadDraft_def\<close>)

lemma list_keeps:
  assumes "listDrafts env user w = (r, v)"
  shows "volatileDrafts v = volatileDrafts w \<and> object_store v = object_store w"
proof -
  obtain r1 w1 where t: "run_transaction env (\<lambda>m. (get_all m, m)) w = (r1, w1)" by force
  with assms transaction_cases [OF t] show ?thesis
    by (auto simp: listDrafts_def split: sum.splits if_splits)
qed

lemma op_retains:
  assumes "run_op env op w = (ok, v)" "retained i u w" "\<not> overwrites i u op" "\<not> (ok \<and> discharges i u op)"
  shows "retained i u v"
proof (cases op)
  case (PutOp b d)
  obtain r x where "putDraft env b d w = (r, x)" by force
  with PutOp assms put_retains [OF this] show ?thesis by (simp add: run_op_def succeeded_def overwrites_def)
next
  case (RemoveOp user j)
  obtain r x where "removeDraft env user j w = (r, x)" by force
  with RemoveOp assms remove_retains [OF this] show ?thesis
    by (auto simp: run_op_def succeeded_def discharges_def split: sum.splits)
next
  case (UploadOp b d user)
  obtain r x where "uploadDraft env b d user w = (r, x)" by force
  with UploadOp assms upload_retains [OF this, of i u] show ?thesis
    by (auto simp: run_op_def succeeded_def discharges_def overwrites_def split: sum.splits)
next
  case (ListOp user)
  obtain r x where "listDrafts env user w = (r, x)" by force
  with ListOp assms list_keeps [OF this] show ?thesis by (simp add: run_op_def succeeded_def retained_def)
qed

lemma ops_retain:
  "retained i u w \<Longrightarrow> run_ops env ops w = (oks, v) \<Longrightarrow>
   list_all (\<lambda>(op, ok). \<not> overwrites i u op \<and> \<not> (ok \<and> discharges i u op)) (zip ops oks) \<Longrightarrow> retained i u v"
proof (induction ops arbitrary: w oks)
  case (Cons op ops)
  obtain ok w1 where a: "run_op env op w = (ok, w1)" by force
  obtain rest w2 where b: "run_ops env ops w1 = (rest, w2)" by force
  from Cons.prems a b have e: "oks = ok # rest" "v = w2" by auto
  with Cons.prems op_retains [OF a] have "retained i u w1" by simp
  with Cons.IH b e Cons.prems(3) show ?case by simp
qed simp

section \<open>Lists\<close>

definition drafts_ok :: "world \<Rightarrow> bool" where
  "drafts_ok w \<longleftrightarrow> amap_ok (volatileDrafts w) \<and> amap_ok (object_store w) \<and>
     (\<forall>k d. map_of (volatileDrafts w) k = Some d \<longrightarrow> draft_id d = k) \<and>
     (\<forall>k r. map_of (object_store w) k = Some r \<longrightarrow> stored_id r = k)"

lemma keyed_put_all:
  assumes "\<And>k x. map_of m k = Some x \<Longrightarrow> f x = k" "amap_ok m"
  shows "map_of (am.put_all f g (amap_vals m) base) k = (case map_of m k of Some x \<Rightarrow> Some (g x) | None \<Rightarrow> map_of base k)"
proof (cases "k \<in> f ` set (amap_vals m)")
  case True
  from am.get_put_all_in [OF this, of g base] obtain x where x: "x \<in> set (amap_vals m)" "f x = k"
    "map_of (am.put_all f g (amap_vals m) base) k = Some (g x)" by blast
  then obtain k' where "map_of m k' = Some x" using assms(2) by (auto simp: amap_vals_mem)
  with assms(1) [of k' x] x show ?thesis by simp
next
  case False
  have "map_of m k = None"
  proof (rule ccontr)
    assume "map_of m k \<noteq> None"
    then obtain x where "map_of m k = Some x" by auto
    with assms False show False by (force simp: amap_vals_mem)
  qed
  with am.get_put_all_other [OF False, of g base] show ?thesis by simp
qed

lemma get_all_members:
  assumes "amap_ok m"
  shows "r \<in> set (get_all m) \<longleftrightarrow> r \<in> set (amap_vals m)"
  using assms by (auto simp: get_all_def amap_vals_mem amap_keys_dom dom_def image_iff)

lemma get_all_map:
  assumes "amap_ok m" "\<And>k r. map_of m k = Some r \<Longrightarrow> stored_id r = k"
  shows "map_of (amap_from stored_id id (get_all m)) k = map_of m k"
proof (cases "k \<in> stored_id ` set (get_all m)")
  case True
  from am.get_put_all_in [OF this, of id "[]"] obtain r where r: "r \<in> set (get_all m)" "stored_id r = k"
    "map_of (amap_from stored_id id (get_all m)) k = Some r" by (auto simp: amap_from_put_all)
  then obtain k' where "map_of m k' = Some r" using assms(1) by (auto simp: get_all_members amap_vals_mem)
  with assms(2) [of k' r] r show ?thesis by simp
next
  case False
  have "map_of m k = None"
  proof (rule ccontr)
    assume "map_of m k \<noteq> None"
    then obtain r where "map_of m k = Some r" by auto
    with assms False show False by (force simp: get_all_members amap_vals_mem)
  qed
  with am.get_put_all_other [OF False, of id "[]"] show ?thesis by (simp add: amap_from_put_all)
qed

lemma user_drafts_mem: "d \<in> set (user_drafts user rs) \<longleftrightarrow> StoredDraft d \<in> set rs \<and> draft_userId d = user"
  by (auto simp: user_drafts_def split: stored.splits if_splits)

lemma user_drafts_distinct:
  "distinct (map stored_id rs) \<Longrightarrow> distinct (map draft_id (user_drafts user rs))"
proof (induction rs)
  case (Cons r rs)
  have "draft_id d \<noteq> stored_id r" if "d \<in> set (user_drafts user rs)" for d
  proof -
    from that have "stored_id (StoredDraft d) \<in> stored_id ` set rs" by (simp add: user_drafts_mem)
    with Cons.prems show ?thesis by (auto simp: stored_id_def)
  qed
  with Cons show ?case by (force simp: user_drafts_def stored_id_def split: stored.splits)
qed (simp add: user_drafts_def)

text \<open>The list built from a map of records.\<close>

lemma listed:
  fixes user :: jsstr
  assumes "amap_ok m" "\<And>k r. map_of m k = Some r \<Longrightarrow> stored_id r = k"
  defines "ds \<equiv> sort_by newest_first (user_drafts user (amap_vals m))"
  shows "sorted_wrt newest_first ds" "distinct (map draft_id ds)"
    and "d \<in> set ds \<longleftrightarrow> map_of m (draft_id d) = Some (StoredDraft d) \<and> draft_userId d = user"
proof -
  show "sorted_wrt newest_first ds" by (simp add: ds_def newest.sorted_sort_by)
  have "map stored_id (amap_vals m) = amap_keys m"
    using assms(1,2) by (auto simp: amap_vals_def amap_keys_def amap_ok_def)
  with assms(1) have "distinct (map draft_id (user_drafts user (amap_vals m)))"
    by (intro user_drafts_distinct) (simp add: amap_ok_def)
  then show "distinct (map draft_id ds)" by (simp add: ds_def distinct_map)
  have "StoredDraft d \<in> set (amap_vals m) \<longleftrightarrow> map_of m (draft_id d) = Some (StoredDraft d)"
    using assms(1,2) by (metis amap_vals_mem stored_id_def stored.simps(5))
  then show "d \<in> set ds \<longleftrightarrow> map_of m (draft_id d) = Some (StoredDraft d) \<and> draft_userId d = user"
    by (auto simp: ds_def user_drafts_mem)
qed

section \<open>Properties\<close>

text \<open>
  C3. A draft survives: once \<open>putDraft\<close> was called for it, whether it reported success or failure, no
  sequence of operations of any account, with any failures of the browser and the server, loses it; only its
  owner's successful removal or upload ends it, unless another account's draft is stored under the same id.
\<close>

theorem draft_survives:
  assumes "run_ops env (PutOp reclaim d # ops) w = (ok # oks, v)"
    and "list_all (\<lambda>(op, ok). \<not> overwrites (draft_id d) (draft_userId d) op \<and>
      \<not> (ok \<and> discharges (draft_id d) (draft_userId d) op)) (zip ops oks)"
  shows "retained (draft_id d) (draft_userId d) v"
proof -
  obtain r w1 where p: "putDraft env reclaim d w = (r, w1)" by force
  then have "retained (draft_id d) (draft_userId d) w1"
    using putDraft_result(1) [OF p] by (auto simp: retained_def stored_user_def)
  moreover have "run_ops env ops w1 = (oks, v)"
    using assms(1) p by (auto simp: run_op_def succeeded_def split: prod.splits)
  ultimately show ?thesis using ops_retain assms(2) by blast
qed

definition example_draft :: draft where
  "example_draft = \<lparr>draft_id = js ''d'', draft_userId = js ''u'', gameId = js ''g'', gameTitle = [], createdAtMs = 5,
     metadata = \<lparr>commitId = js ''d'', meta_runId = js ''run'', meta_name = [], is_native = False, meta_slot = None,
       extinfo = jo [(''coreId'', jstr ''c'')], meta_version = None\<rparr>,
     saveId = None, payload = [1], screenshot = None, checkpointMetadata = JNull, mismatch_noted = False\<rparr>"

text \<open>An unlucky world: every transaction fails, the run has expired and the renewed run differs.\<close>

definition unlucky_env :: save_env where
  "unlucky_env = \<lparr>tx_failure = (\<lambda>_. Some QuotaExceeded), reclaim_fails = (\<lambda>_. False),
     commit_answer = (\<lambda>_. Inl (ApiError context_expired 409)),
     open_answer = (\<lambda>_. Inr \<lparr>renewed_id = js ''run2'', renewed_extinfo = jo [(''coreId'', jstr ''x'')]\<rparr>),
     close_answer = (\<lambda>_. Some NetworkFailure)\<rparr>"

definition empty_world :: world where
  "empty_world = \<lparr>volatileDrafts = [], object_store = [], past_calls = []\<rparr>"

theorem draft_survives_witness:
  "retained (js ''d'') (js ''u'') (snd (run_ops unlucky_env
     [PutOp True example_draft, RemoveOp (js ''v'') (js ''d''), UploadOp True example_draft (js ''u'')] empty_world))"
proof -
  obtain oks v where r: "run_ops unlucky_env
     [PutOp True example_draft, RemoveOp (js ''v'') (js ''d''), UploadOp True example_draft (js ''u'')] empty_world = (oks, v)"
    by force
  have "fst (run_ops unlucky_env
     [PutOp True example_draft, RemoveOp (js ''v'') (js ''d''), UploadOp True example_draft (js ''u'')] empty_world) = [False, False, False]"
    by code_simp
  with r have oks: "oks = [False, False, False]" by simp
  from draft_survives [OF r [unfolded oks]] have "retained (js ''d'') (js ''u'') v"
    by (simp add: overwrites_def example_draft_def)
  with r show ?thesis by simp
qed

text \<open>
  The list of a user's drafts is exact: newest first, no id twice, only this user's; it holds the draft of
  the memory for every id that has one there, and else the stored draft, unless the store could not be read,
  when it holds those in memory.
\<close>

theorem draft_list_exact:
  assumes "drafts_ok w" "listDrafts env user w = (Inr ds, v)"
  shows "sorted_wrt newest_first ds \<and> distinct (map draft_id ds) \<and>
    (\<forall>d. d \<in> set ds \<longleftrightarrow> draft_userId d = user \<and>
      (case map_of (volatileDrafts w) (draft_id d) of
         Some e \<Rightarrow> d = e
       | None \<Rightarrow> tx_failure env (past_calls w) = None \<and> map_of (object_store w) (draft_id d) = Some (StoredDraft d)))"
proof -
  have ok: "amap_ok (volatileDrafts w)" "amap_ok (object_store w)"
    "\<And>k d. map_of (volatileDrafts w) k = Some d \<Longrightarrow> draft_id d = k"
    "\<And>k r. map_of (object_store w) k = Some r \<Longrightarrow> stored_id r = k"
    using assms(1) by (auto simp: drafts_ok_def)
  define base where "base = (if tx_failure env (past_calls w) = None then amap_from stored_id id (get_all (object_store w)) else [])"
  define m where "m = am.put_all draft_id StoredDraft (amap_vals (volatileDrafts w)) base"
  obtain r1 w1 where t: "run_transaction env (\<lambda>m. (get_all m, m)) w = (r1, w1)" by force
  have tx: "r1 = (if tx_failure env (past_calls w) = None then Inr (get_all (object_store w)) else Inl (the (tx_failure env (past_calls w))))"
    using t by (auto simp: run_transaction_def Let_def split: option.splits)
  have vol: "volatileDrafts w1 = volatileDrafts w" using transaction_cases [OF t] by simp
  have ds: "ds = sort_by newest_first (user_drafts user (amap_vals m))"
    using assms(2) t tx vol
    by (auto simp: listDrafts_def m_def base_def am.put_all_def split: if_splits option.splits)
  have base_get: "map_of base k = (if tx_failure env (past_calls w) = None then map_of (object_store w) k else None)" for k
    using get_all_map [OF ok(2,4)] by (simp add: base_def)
  have m_get: "map_of m k = (case map_of (volatileDrafts w) k of Some x \<Rightarrow> Some (StoredDraft x) | None \<Rightarrow> map_of base k)" for k
    unfolding m_def by (rule keyed_put_all [OF ok(3,1)])
  have "amap_ok base" by (simp add: base_def amap_from_put_all am.ok_put_all)
  then have "amap_ok m" by (simp add: m_def am.ok_put_all)
  moreover have sid: "stored_id r = k" if "map_of m k = Some r" for k r
    using that ok(3,4) by (auto simp: m_get base_get stored_id_def split: option.splits if_splits)
  ultimately have l: "sorted_wrt newest_first ds" "distinct (map draft_id ds)"
    "\<And>d. d \<in> set ds \<longleftrightarrow> map_of m (draft_id d) = Some (StoredDraft d) \<and> draft_userId d = user"
    unfolding ds using listed [of m] by blast+
  have "map_of m (draft_id d) = Some (StoredDraft d) \<longleftrightarrow>
      (case map_of (volatileDrafts w) (draft_id d) of
         Some e \<Rightarrow> d = e
       | None \<Rightarrow> tx_failure env (past_calls w) = None \<and> map_of (object_store w) (draft_id d) = Some (StoredDraft d))" for d
    by (auto simp: m_get base_get split: option.split)
  with l show ?thesis by auto
qed

theorem draft_list_exact_witness:
  "\<exists>ds v. listDrafts (unlucky_env\<lparr>tx_failure := (\<lambda>_. None)\<rparr>) (js ''u'')
     (empty_world\<lparr>volatileDrafts := [(js ''d'', example_draft)]\<rparr>) = (Inr ds, v) \<and> example_draft \<in> set ds"
proof -
  let ?w = "empty_world\<lparr>volatileDrafts := [(js ''d'', example_draft)]\<rparr>"
  have ok: "drafts_ok ?w" by (simp add: drafts_ok_def empty_world_def example_draft_def amap_ok_def amap_keys_def)
  obtain ds v where l: "listDrafts (unlucky_env\<lparr>tx_failure := (\<lambda>_. None)\<rparr>) (js ''u'') ?w = (Inr ds, v)"
    by (simp add: listDrafts_def run_transaction_def Let_def unlucky_env_def)
  have "example_draft \<in> set ds"
    using draft_list_exact [OF ok l] by (auto simp: example_draft_def)
  with l show ?thesis by blast
qed

text \<open>The requests of an upload that opened the renewed run \<open>run\<close>, with its result.\<close>

definition first_commit :: "draft \<Rightarrow> net_call" where
  "first_commit d = Commit (meta_runId (metadata d)) (saveId d) (commitId (metadata d))"

definition renewal :: "draft \<Rightarrow> net_call" where
  "renewal d = OpenRun (gameId d) (core_of d) (saveId d)"

definition renewal_trace :: "draft \<Rightarrow> renewed_run \<Rightarrow> save_error + jsstr \<Rightarrow> net_call list \<Rightarrow> bool" where
  "renewal_trace d run res new \<longleftrightarrow>
     (\<exists>report. (report = [] \<or> report = [SaveFailureEvent (draft_userId d)]) \<and>
       (if sameIdentity (extinfo (metadata d)) (renewed_extinfo run)
        then new = [first_commit d, renewal d, Commit (renewed_id run) (saveId d) (commitId (metadata d)), CloseRun (renewed_id run)] @ report
        else new = [first_commit d, renewal d, CloseRun (renewed_id run)] @ report \<and> res = Inl DraftIdentityMismatch))"

text \<open>The requests of closing a renewed run, of an upload that needs no renewal, and of one whose renewed run is used or refused.\<close>

lemma closeRenewal_calls:
  "\<exists>report. report \<in> {[], [SaveFailureEvent u]} \<and>
    past_calls (closeRenewal env run u v) = past_calls v @ map Net (CloseRun run # report)"
proof -
  have "past_calls (closeRenewal env run u v) = past_calls v @ map Net (CloseRun run # []) \<or>
      past_calls (closeRenewal env run u v) = past_calls v @ map Net (CloseRun run # [SaveFailureEvent u])"
    by (simp add: closeRenewal_def Let_def split: option.split net_error.split)
  then show ?thesis by blast
qed

lemma commit_calls: "commit env d run w = (r, w') \<Longrightarrow> past_calls w' = past_calls w @ [Net (Commit run (saveId d) (commitId (metadata d)))]"
  by (auto simp: commit_def)

lemma unexpired_uploads_once:
  assumes "commit env d (meta_runId (metadata d)) w = (r, w1)" "\<nexists>st. r = Inl (RequestError (ApiError context_expired st))"
  shows "snd (uploadWithRenewal env d w) = w1"
proof (cases r)
  case (Inl e)
  show ?thesis
  proof (cases "\<exists>code st. e = RequestError (ApiError code st)")
    case True
    with assms Inl show ?thesis by (auto simp: uploadWithRenewal_def)
  next
    case False
    then have "case e of RequestError (ApiError code st) \<Rightarrow> code \<noteq> context_expired | _ \<Rightarrow> True"
      by (auto split: save_error.split net_error.split)
    with assms(1) Inl show ?thesis by (simp add: uploadWithRenewal_def)
  qed
qed (use assms(1) in \<open>simp add: uploadWithRenewal_def\<close>)

lemma renewed_uploads:
  assumes "commit env d (meta_runId (metadata d)) w = (Inl (RequestError (ApiError context_expired st)), w1)"
    and "open_answer env (past_calls w1) = Inr run"
  shows "\<exists>new. past_calls (snd (uploadWithRenewal env d w)) = past_calls w1 @ map Net new \<and>
    renewal_trace d run (fst (uploadWithRenewal env d w)) (first_commit d # new)"
proof (cases "sameIdentity (extinfo (metadata d)) (renewed_extinfo run)")
  case False
  let ?w2 = "note_call (Net (renewal d)) w1"
  from False assms have o: "uploadWithRenewal env d w = (Inl DraftIdentityMismatch, closeRenewal env (renewed_id run) (draft_userId d) ?w2)"
    by (auto simp: uploadWithRenewal_def Let_def renewal_def)
  from closeRenewal_calls [of "draft_userId d" env "renewed_id run" ?w2] obtain report where
    r: "report \<in> {[], [SaveFailureEvent (draft_userId d)]}"
    "past_calls (snd (uploadWithRenewal env d w)) = past_calls ?w2 @ map Net (CloseRun (renewed_id run) # report)" by (auto simp: o)
  then show ?thesis using False o
    by (intro exI [of _ "[renewal d, CloseRun (renewed_id run)] @ report"]) (auto simp: renewal_trace_def)
next
  case True
  let ?w2 = "note_call (Net (renewal d)) w1"
  obtain r3 w3 where c3: "commit env d (renewed_id run) ?w2 = (r3, w3)" by force
  have o: "snd (uploadWithRenewal env d w) = closeRenewal env (renewed_id run) (draft_userId d) w3"
    using True assms c3 by (auto simp: uploadWithRenewal_def Let_def renewal_def)
  from closeRenewal_calls [of "draft_userId d" env "renewed_id run" w3] obtain report where
    r: "report \<in> {[], [SaveFailureEvent (draft_userId d)]}"
    "past_calls (snd (uploadWithRenewal env d w)) = past_calls w3 @ map Net (CloseRun (renewed_id run) # report)" by (auto simp: o)
  then show ?thesis using True commit_calls [OF c3]
    by (intro exI [of _ "[renewal d, Commit (renewed_id run) (saveId d) (commitId (metadata d)), CloseRun (renewed_id run)] @ report"])
      (auto simp: renewal_trace_def)
qed

text \<open>
  The calls of an upload: it commits under the draft's own run first; only when that run has expired it
  opens one renewed run, commits to it only when the identity of the content, core and configuration is the
  same, and whatever happens then closes the renewed run, which is its last request.
\<close>

theorem renewed_run_is_closed:
  "\<exists>new. past_calls (snd (uploadWithRenewal env d w)) = past_calls w @ map Net new \<and>
    (new = [first_commit d] \<or> new = [first_commit d, renewal d] \<or>
     (\<exists>run. renewal_trace d run (fst (uploadWithRenewal env d w)) new))"
proof -
  let ?out = "uploadWithRenewal env d w"
  obtain r1 w1 where c: "commit env d (meta_runId (metadata d)) w = (r1, w1)" by force
  have p1: "past_calls w1 = past_calls w @ [Net (first_commit d)]" using commit_calls [OF c] by (simp add: first_commit_def)
  show ?thesis
  proof (cases "\<exists>st. r1 = Inl (RequestError (ApiError context_expired st))")
    case False
    with p1 unexpired_uploads_once [OF c] show ?thesis by (intro exI [of _ "[first_commit d]"]) simp
  next
    case True
    then obtain st where e: "commit env d (meta_runId (metadata d)) w = (Inl (RequestError (ApiError context_expired st)), w1)" using c by auto
    show ?thesis
    proof (cases "open_answer env (past_calls w1)")
      case (Inl x)
      with e have "snd ?out = note_call (Net (renewal d)) w1" by (auto simp: uploadWithRenewal_def Let_def renewal_def)
      with p1 show ?thesis by (intro exI [of _ "[first_commit d, renewal d]"]) simp
    next
      case (Inr run)
      from renewed_uploads [OF e Inr] obtain new where
        n: "past_calls (snd ?out) = past_calls w1 @ map Net new" "renewal_trace d run (fst ?out) (first_commit d # new)" by blast
      then show ?thesis using p1 by (intro exI [of _ "first_commit d # new"]) auto
    qed
  qed
qed

text \<open>
  \<open>sameIdentity\<close> decides equality of JSON up to the order of object keys: on values as the server sends
  them it agrees with equality after sorting all keys.
\<close>

theorem same_identity_spec:
  assumes "json_plain a" "json_plain b"
  shows "sameIdentity a b \<longleftrightarrow> sort_keys a = sort_keys b"
  using assms by (rule same_identity_iff)

theorem same_identity_spec_witness:
  "sameIdentity (jo [(''a'', JNull), (''b'', JBool True)]) (jo [(''b'', JBool True), (''a'', JNull)])"
proof -
  have "json_plain (jo [(''a'', JNull), (''b'', JBool True)])" "json_plain (jo [(''b'', JBool True), (''a'', JNull)])"
    by (simp_all add: jo_def js_inj)
  moreover have "sort_keys (jo [(''a'', JNull), (''b'', JBool True)]) = sort_keys (jo [(''b'', JBool True), (''a'', JNull)])"
    by code_simp
  ultimately show ?thesis using same_identity_spec by blast
qed

end
