(* ===== verification/Save_Session.thy ===== *)
theory Save_Session
  imports Save_Drafts
begin

text \<open>
  The saving of a run: \<open>web/features/player/use-save-session.ts\<close>, with \<open>makeDraft\<close> and \<open>runTitle\<close> of
  \<open>save-drafts.ts\<close>. The asynchronous callbacks are cut at their \<open>await\<close>s: one operation (a capture, or a retry
  that may go on as a capture) is in flight, and beside it the commit of a final snapshot may run. The drafts
  themselves are those of \<open>Save_Drafts\<close>, on the same world.
\<close>

section \<open>Drafts of a run\<close>

record save_ref =
  sv_id :: jsstr
  sv_name :: jsstr
  sv_slot :: "jsstr option"
  sv_version :: int
  sv_hasScreenshot :: bool

record checkpoint =
  ck_format :: jsstr
  ck_bytes :: blob
  ck_metadata :: jval

record session_run =
  sr_id :: jsstr
  sr_gameId :: jsstr
  sr_envelope :: jval
  sr_extinfo :: jval
  sr_checkpointFormat :: jsstr
  sr_review :: bool
  sr_native :: bool
  sr_user :: jsstr
  sr_protected :: "jsstr option"
  sr_text :: "jval \<Rightarrow> jsstr"
  sr_save :: "jsstr \<Rightarrow> save_ref"

text \<open>The texts of the interface: the default title, and the names of new saves.\<close>

definition default_title :: jsstr where "default_title = [0x6E38, 0x620F, 0x5B58, 0x6863]"
definition native_name :: jsstr where "native_name = [0x539F, 0x751F, 0x5B58, 0x6863]"
definition manual_name :: jsstr where "manual_name = [0x624B, 0x52A8, 0x5B58, 0x6863]"

definition runTitle :: "session_run \<Rightarrow> jsstr" where
  "runTitle run =
     (case jget (sr_envelope run) (js ''session'') of
        Some (JObj p ps) \<Rightarrow>
          (case jget (JObj p ps) (js ''title'') of Some t \<Rightarrow> sr_text run t | None \<Rightarrow> default_title)
      | _ \<Rightarrow> default_title)"

definition makeDraft :: "session_run \<Rightarrow> jsstr \<Rightarrow> int \<Rightarrow> checkpoint \<Rightarrow> blob option \<Rightarrow> save_ref option \<Rightarrow> draft" where
  "makeDraft run uuid now ck shot save =
     \<lparr>draft_id = uuid, draft_userId = sr_user run, gameId = sr_gameId run, gameTitle = runTitle run,
      createdAtMs = now,
      metadata =
        \<lparr>commitId = uuid, meta_runId = sr_id run,
         meta_name = (case save of Some s \<Rightarrow> sv_name s | None \<Rightarrow> if sr_native run then native_name else manual_name),
         is_native = sr_native run, meta_slot = (case save of Some s \<Rightarrow> sv_slot s | None \<Rightarrow> None),
         extinfo = sr_extinfo run, meta_version = map_option sv_version save\<rparr>,
      saveId = map_option sv_id save, payload = ck_bytes ck, screenshot = shot,
      checkpointMetadata = ck_metadata ck, mismatch_noted = False\<rparr>"

text \<open>\<open>metadata.extinfo.checkpointFormat\<close> and \<open>sameDraftCheckpoint\<close>.\<close>

definition draft_format :: "draft \<Rightarrow> jval option" where
  "draft_format d = jget (extinfo (metadata d)) (js ''checkpointFormat'')"

definition sameDraftCheckpoint :: "draft \<Rightarrow> checkpoint \<Rightarrow> bool" where
  "sameDraftCheckpoint d ck \<longleftrightarrow>
     draft_format d = Some (JStr (ck_format ck)) \<and> length (payload d) = length (ck_bytes ck) \<and>
     list_all (\<lambda>(a, b). a = b) (zip (payload d) (ck_bytes ck))"

section \<open>State\<close>

datatype intent = Capture | Export

datatype feedback = Foreground | Background

datatype job =
    CaptureJob intent "save_ref option" feedback
  | RetryJob bool
  | FinalJob "save_ref option"

text \<open>
  Where a job waits: for the checkpoint, its screenshot, the comparison with the pending draft, the encoded
  screenshot, \<open>putDraft\<close>, \<open>uploadDraft\<close>, the acknowledgement of the runtime, the \<open>putDraft\<close> after a failed
  acknowledgement, or (a final snapshot) for the operation in flight.
\<close>

datatype pause =
    AtCheckpoint
  | AtScreenshot checkpoint
  | AtCompare checkpoint "blob option" bool
  | AtPrepare checkpoint "save_ref option"
  | AtPut draft
  | AtUpload draft
  | AtAck draft
  | AtPutBack draft
  | AtFlight checkpoint "blob option" "nat option"

type_synonym thread = "job \<times> pause"

record save_session =
  ss_saving :: bool
  ss_op :: "(nat \<times> thread) option"
  ss_final :: "thread option"
  ss_queued :: bool
  ss_pending :: "draft option"
  ss_draft :: "draft option"
  ss_message :: bool
  ss_busy :: bool
  ss_background :: bool
  ss_preview :: "(checkpoint \<times> blob option) option"
  ss_selected :: "save_ref option"
  ss_world :: world
  ss_count :: nat
  ss_created :: "draft list"
  ss_uploaded :: "draft list"

definition session_initial :: "save_ref option \<Rightarrow> session_run \<Rightarrow> world \<Rightarrow> save_session" where
  "session_initial save run w =
     \<lparr>ss_saving = False, ss_op = None, ss_final = None, ss_queued = False, ss_pending = None, ss_draft = None,
      ss_message = False, ss_busy = False, ss_background = False, ss_preview = None,
      ss_selected = (case save of Some s \<Rightarrow> if sr_protected run = Some (sv_id s) then None else Some s | None \<Rightarrow> None),
      ss_world = w, ss_count = 0, ss_created = [], ss_uploaded = []\<rparr>"

definition writableTarget :: "session_run \<Rightarrow> save_session \<Rightarrow> save_ref option \<Rightarrow> save_ref option" where
  "writableTarget run s target =
     (let chosen = (if sr_native run then ss_selected s else target) in
      case chosen of None \<Rightarrow> None | Some c \<Rightarrow> if sr_protected run = Some (sv_id c) then None else Some c)"

section \<open>Starting\<close>

definition set_op :: "thread \<Rightarrow> save_session \<Rightarrow> save_session" where
  "set_op t s = s\<lparr>ss_op := map_option (\<lambda>(i, _). (i, t)) (ss_op s)\<rparr>"

text \<open>\<open>captureWork\<close> up to its first \<open>await\<close>, as operation \<open>i\<close>; \<open>None\<close> in \<open>ss_op\<close> when it returns at once.\<close>

definition captureWork :: "session_run \<Rightarrow> nat \<Rightarrow> intent \<Rightarrow> save_ref option \<Rightarrow> feedback \<Rightarrow> save_session \<Rightarrow> save_session" where
  "captureWork run i intn target fb s =
     (if ss_saving s then s\<lparr>ss_queued := True, ss_op := None\<rparr>
      else if ss_pending s \<noteq> None then s\<lparr>ss_queued := sr_native run, ss_op := None\<rparr>
      else s\<lparr>ss_saving := True, ss_busy := True, ss_background := (fb = Background), ss_queued := False,
             ss_op := Some (i, CaptureJob intn target fb, AtCheckpoint)\<rparr>)"

definition capture :: "session_run \<Rightarrow> intent \<Rightarrow> save_ref option \<Rightarrow> feedback \<Rightarrow> save_session \<Rightarrow> save_session" where
  "capture run intn target fb s =
     (if ss_op s \<noteq> None then s\<lparr>ss_queued := True\<rparr>
      else captureWork run (ss_count s) intn target fb (s\<lparr>ss_count := Suc (ss_count s)\<rparr>))"

definition nativeChanged :: "session_run \<Rightarrow> save_session \<Rightarrow> save_session" where
  "nativeChanged run s =
     (if sr_native run \<and> \<not> sr_review run then capture run Export None Background s else s)"

definition retry :: "bool \<Rightarrow> save_session \<Rightarrow> save_session" where
  "retry has_runtime s =
     (if ss_op s \<noteq> None then s
      else case ss_pending s of
        None \<Rightarrow> s
      | Some r \<Rightarrow>
          if ss_saving s then s
          else s\<lparr>ss_saving := True, ss_busy := True, ss_background := False, ss_count := Suc (ss_count s),
                 ss_op := Some (ss_count s, RetryJob has_runtime, AtPut r)\<rparr>)"

text \<open>\<open>commit\<close> with no runtime, for one final snapshot at a time.\<close>

definition final_commit :: "checkpoint \<Rightarrow> blob option \<Rightarrow> save_ref option \<Rightarrow> save_session \<Rightarrow> save_session" where
  "final_commit ck shot target s =
     (if ss_final s \<noteq> None then s
      else s\<lparr>ss_final := Some (FinalJob target, AtFlight ck shot (map_option fst (ss_op s)))\<rparr>)"

section \<open>Ends\<close>

definition end_op :: "save_session \<Rightarrow> save_session" where
  "end_op s = s\<lparr>ss_saving := False, ss_busy := False, ss_background := False, ss_op := None\<rparr>"

text \<open>
  The rest of a job once its commit or upload has answered \<open>ok\<close>; \<open>available\<close> and \<open>exited\<close> are what the runtime
  reports then.
\<close>

definition job_done :: "session_run \<Rightarrow> job \<Rightarrow> bool \<Rightarrow> bool \<Rightarrow> bool \<Rightarrow> save_session \<Rightarrow> save_session" where
  "job_done run j ok available exited s =
     (case j of
        CaptureJob intn target fb \<Rightarrow>
          if \<not> ok then end_op s
          else if ss_queued s \<and> ss_pending s = None \<and> available \<and> \<not> exited
          then set_op (CaptureJob Export target Background, AtCheckpoint) (s\<lparr>ss_background := True, ss_queued := False\<rparr>)
          else end_op s
      | RetryJob has_runtime \<Rightarrow>
          let s' = s\<lparr>ss_saving := False, ss_busy := False\<rparr> in
          if ok \<and> sr_native run \<and> has_runtime \<and> available
          then captureWork run (case ss_op s of Some (i, _) \<Rightarrow> i | None \<Rightarrow> 0) Export None Background s'
          else s'\<lparr>ss_op := None\<rparr>
      | FinalJob target \<Rightarrow> s\<lparr>ss_final := None\<rparr>)"

definition job_throws :: "job \<Rightarrow> save_session \<Rightarrow> save_session" where
  "job_throws j s =
     (case j of
        CaptureJob intn target fb \<Rightarrow> end_op (s\<lparr>ss_message := True\<rparr>)
      | RetryJob has_runtime \<Rightarrow> s\<lparr>ss_message := True, ss_saving := False, ss_busy := False, ss_op := None\<rparr>
      | FinalJob target \<Rightarrow> s\<lparr>ss_final := None\<rparr>)"

definition put_thread :: "thread \<Rightarrow> save_session \<Rightarrow> save_session" where
  "put_thread t s = (case fst t of FinalJob _ \<Rightarrow> s\<lparr>ss_final := Some t\<rparr> | _ \<Rightarrow> set_op t s)"

fun job_target :: "job \<Rightarrow> save_ref option" where
  "job_target (CaptureJob intn target fb) = target"
| "job_target (RetryJob has_runtime) = None"
| "job_target (FinalJob target) = target"

text \<open>\<open>commit\<close> up to its first \<open>await\<close>.\<close>

definition enter_commit :: "session_run \<Rightarrow> job \<Rightarrow> checkpoint \<Rightarrow> blob option \<Rightarrow> bool \<Rightarrow> bool \<Rightarrow> save_session \<Rightarrow> save_session" where
  "enter_commit run j ck shot available exited s =
     (if sr_review run then job_done run j True available exited (s\<lparr>ss_preview := Some (ck, shot), ss_message := False\<rparr>)
      else if ck_format ck \<noteq> sr_checkpointFormat run then job_throws j s
      else case ss_pending s of
        Some d \<Rightarrow>
          if sr_native run then put_thread (j, AtCompare ck shot (sameDraftCheckpoint d ck)) s
          else put_thread (j, AtPrepare ck (writableTarget run s (job_target j))) s
      | None \<Rightarrow> put_thread (j, AtPrepare ck (writableTarget run s (job_target j))) s)"

section \<open>Going on\<close>

text \<open>
  What an \<open>await\<close> answers: a checkpoint or a failure, a screenshot, the encoded screenshot with the identifier
  and the time of the new draft, the acknowledgement (with a failure that counts only while the runtime is not
  exiting), or just that it is over; the drafts answer through their world.
\<close>

datatype reply = Taken checkpoint | Failed | Image "blob option" | Encoded "blob option" jsstr int | Acknowledged bool | Resumed

definition upload_synced :: "draft \<Rightarrow> save_session \<Rightarrow> save_session" where
  "upload_synced r s = s\<lparr>ss_draft := None, ss_pending := None, ss_message := False\<rparr>"

definition advance :: "session_run \<Rightarrow> save_env \<Rightarrow> job \<Rightarrow> pause \<Rightarrow> reply \<Rightarrow> bool \<Rightarrow> bool \<Rightarrow> save_session \<Rightarrow> save_session" where
  "advance run env j p r available exited s =
     (case p of
        AtCheckpoint \<Rightarrow>
          (case r of Taken ck \<Rightarrow> put_thread (j, AtScreenshot ck) s | Failed \<Rightarrow> job_throws j s | _ \<Rightarrow> s)
      | AtScreenshot ck \<Rightarrow>
          (case r of Image shot \<Rightarrow> enter_commit run j ck shot available exited s | _ \<Rightarrow> s)
      | AtCompare ck shot same \<Rightarrow>
          if same then job_done run j False available exited s
          else put_thread (j, AtPrepare ck (writableTarget run s (job_target j))) s
      | AtPrepare ck writable \<Rightarrow>
          (case r of
             Encoded shot uuid now \<Rightarrow>
               let d = makeDraft run uuid now ck shot writable in
               put_thread (j, AtPut d)
                 (s\<lparr>ss_draft := Some d, ss_pending := Some d, ss_created := ss_created s @ [d]\<rparr>)
           | _ \<Rightarrow> s)
      | AtPut d \<Rightarrow>
          (case putDraft env True d (ss_world s) of
             (Inr _, w) \<Rightarrow> put_thread (j, AtUpload d) (s\<lparr>ss_world := w\<rparr>)
           | (Inl _, w) \<Rightarrow> job_throws j (s\<lparr>ss_world := w\<rparr>))
      | AtUpload d \<Rightarrow>
          (case uploadDraft env True d (sr_user run) (ss_world s) of
             (Inl _, w) \<Rightarrow> job_done run j False available exited (s\<lparr>ss_world := w, ss_message := True\<rparr>)
           | (Inr save, w) \<Rightarrow>
               let s' = s\<lparr>ss_world := w, ss_selected := Some (sr_save run save), ss_uploaded := ss_uploaded s @ [d]\<rparr> in
               if sr_native run then put_thread (j, AtAck d) s'
               else job_done run j True available exited (upload_synced d s'))
      | AtAck d \<Rightarrow>
          (case r of
             Acknowledged ok \<Rightarrow>
               if ok then job_done run j True available exited (upload_synced d s)
               else put_thread (j, AtPutBack d) s
           | _ \<Rightarrow> s)
      | AtPutBack d \<Rightarrow>
          (case putDraft env True d (ss_world s) of
             (_, w) \<Rightarrow> job_done run j False available exited (s\<lparr>ss_world := w, ss_message := True\<rparr>))
      | AtFlight ck shot awaited \<Rightarrow>
          if awaited \<noteq> None \<and> map_option fst (ss_op s) = awaited then s
          else enter_commit run j ck shot available exited s)"

datatype session_event =
    NativeChanged
  | AsksCapture intent "save_ref option" feedback
  | AsksRetry bool
  | FinalSnapshot checkpoint "blob option" "save_ref option"
  | OpReply reply bool bool
  | FinalReply reply bool bool

definition session_step :: "session_run \<Rightarrow> save_env \<Rightarrow> session_event \<Rightarrow> save_session \<Rightarrow> save_session" where
  "session_step run env e s =
     (case e of
        NativeChanged \<Rightarrow> nativeChanged run s
      | AsksCapture intn target fb \<Rightarrow> capture run intn target fb s
      | AsksRetry has_runtime \<Rightarrow> retry has_runtime s
      | FinalSnapshot ck shot target \<Rightarrow> final_commit ck shot target s
      | OpReply r available exited \<Rightarrow>
          (case ss_op s of Some (i, j, p) \<Rightarrow> advance run env j p r available exited s | None \<Rightarrow> s)
      | FinalReply r available exited \<Rightarrow>
          (case ss_final s of Some (j, p) \<Rightarrow> advance run env j p r available exited s | None \<Rightarrow> s))"

definition session_run_of :: "session_run \<Rightarrow> save_env \<Rightarrow> session_event list \<Rightarrow> save_session \<Rightarrow> save_session" where
  "session_run_of run env es s = fold (session_step run env) es s"

end
