(* ===== verification/Session_Properties.thy ===== *)
theory Session_Properties
  imports Save_Session Save_Properties
begin

text \<open>
  What the saving of a run guarantees, over the properties of the drafts: no captured progress is lost in any
  order of captures, retries, native changes and final snapshots with any failures of the browser, the server
  and the runtime; and the flags of the session agree with what runs.
\<close>

section \<open>Fields the jobs leave alone\<close>

definition kept :: "save_session \<Rightarrow> save_session \<Rightarrow> bool" where
  "kept s t \<longleftrightarrow> ss_world t = ss_world s \<and> ss_created t = ss_created s \<and> ss_uploaded t = ss_uploaded s \<and>
     ss_pending t = ss_pending s \<and> ss_draft t = ss_draft s"

lemma kept_refl [simp]: "kept s s" by (simp add: kept_def)

lemma kept_starts [simp]:
  "kept s (captureWork run i intn target fb s)" "kept s (set_op th s)" "kept s (put_thread th s)"
  "kept s (end_op s)" "kept s (retry hr s)" "kept s (final_commit ck shot target s)"
  by (auto simp: kept_def captureWork_def set_op_def put_thread_def end_op_def retry_def final_commit_def
      split: job.split option.split)

lemma kept_capture [simp]: "kept s (capture run intn target fb s)" "kept s (nativeChanged run s)"
  by (auto simp: kept_def capture_def nativeChanged_def captureWork_def)

lemma kept_done [simp]: "kept s (job_done run j ok av ex s)"
  by (auto simp: kept_def job_done_def end_op_def set_op_def captureWork_def Let_def split: job.split)

lemma kept_throws [simp]: "kept s (job_throws j s)"
  by (auto simp: kept_def job_throws_def end_op_def split: job.split)

lemma kept_trans: "kept s t \<Longrightarrow> kept t u \<Longrightarrow> kept s u"
  by (simp add: kept_def)

lemma kept_enter [simp]: "kept s (enter_commit run j ck shot av ex s)"
  using kept_trans [of s "s\<lparr>ss_preview := Some (ck, shot), ss_message := False\<rparr>"
      "job_done run j True av ex (s\<lparr>ss_preview := Some (ck, shot), ss_message := False\<rparr>)"]
  by (auto simp: enter_commit_def split: option.split) (simp_all add: kept_def)

section \<open>The jobs and their places\<close>

fun held_draft :: "pause \<Rightarrow> draft option" where
  "held_draft (AtPut d) = Some d"
| "held_draft (AtUpload d) = Some d"
| "held_draft (AtAck d) = Some d"
| "held_draft (AtPutBack d) = Some d"
| "held_draft _ = None"

definition pauses :: "save_session \<Rightarrow> pause set" where
  "pauses s = (case ss_op s of Some (i, j, p) \<Rightarrow> {p} | None \<Rightarrow> {}) \<union> (case ss_final s of Some (j, p) \<Rightarrow> {p} | None \<Rightarrow> {})"

definition op_fits :: "(nat \<times> thread) option \<Rightarrow> bool \<Rightarrow> bool \<Rightarrow> bool" where
  "op_fits op saving busy \<longleftrightarrow>
     (case op of None \<Rightarrow> \<not> saving \<and> \<not> busy | Some (i, j, p) \<Rightarrow> saving \<and> busy \<and> (\<forall>t. j \<noteq> FinalJob t))"

definition final_fits :: "thread option \<Rightarrow> bool" where
  "final_fits f \<longleftrightarrow> (case f of None \<Rightarrow> True | Some (j, p) \<Rightarrow> (\<exists>t. j = FinalJob t))"

lemma fits_simps [simp]:
  "op_fits None saving busy \<longleftrightarrow> \<not> saving \<and> \<not> busy"
  "op_fits (Some (i, j, p)) saving busy \<longleftrightarrow> saving \<and> busy \<and> (\<forall>t. j \<noteq> FinalJob t)"
  "final_fits None" "final_fits (Some (j, p)) \<longleftrightarrow> (\<exists>t. j = FinalJob t)"
  by (auto simp: op_fits_def final_fits_def)

definition shaped :: "save_session \<Rightarrow> bool" where
  "shaped s \<longleftrightarrow> op_fits (ss_op s) (ss_saving s) (ss_busy s) \<and> final_fits (ss_final s) \<and> ss_draft s = ss_pending s"

lemma fits_map: "op_fits (map_option (\<lambda>(i, _). (i, j, p)) op) saving busy \<longleftrightarrow>
    (case op of None \<Rightarrow> \<not> saving \<and> \<not> busy | Some _ \<Rightarrow> saving \<and> busy \<and> (\<forall>t. j \<noteq> FinalJob t))"
  by (cases op) auto

lemma shaped_captureWork: "shaped s \<Longrightarrow> ss_op s = None \<Longrightarrow> shaped (captureWork run i intn target fb s)"
  by (simp add: shaped_def captureWork_def)

lemma shaped_put_thread: "shaped s \<Longrightarrow> shaped (put_thread (j, p) s)"
  by (cases "ss_op s"; cases j) (auto simp: shaped_def put_thread_def set_op_def)

lemma shaped_done: "shaped s \<Longrightarrow> shaped (job_done run j ok av ex s)"
  by (cases "ss_op s"; cases j) (auto simp: shaped_def job_done_def end_op_def set_op_def captureWork_def Let_def)

lemma shaped_throws: "shaped s \<Longrightarrow> shaped (job_throws j s)"
  by (cases j) (auto simp: shaped_def job_throws_def end_op_def)

lemma shaped_enter: "shaped s \<Longrightarrow> shaped (enter_commit run j ck shot av ex s)"
  using shaped_done [of "s\<lparr>ss_preview := Some (ck, shot), ss_message := False\<rparr>" run j True av ex]
  by (auto simp: enter_commit_def shaped_throws shaped_put_thread split: option.split) (simp_all add: shaped_def)

lemma shaped_update:
  "shaped s \<Longrightarrow> shaped (s\<lparr>ss_world := w\<rparr>)" "shaped s \<Longrightarrow> shaped (s\<lparr>ss_world := w, ss_message := m\<rparr>)"
  "shaped s \<Longrightarrow> shaped (s\<lparr>ss_draft := x, ss_pending := x, ss_created := c\<rparr>)" "shaped s \<Longrightarrow> shaped (upload_synced d s)"
  "shaped s \<Longrightarrow> shaped (s\<lparr>ss_world := w, ss_selected := sel, ss_uploaded := u\<rparr>)"
  by (simp_all add: shaped_def upload_synced_def)

lemmas shaped_rules = shaped_put_thread shaped_done shaped_throws shaped_enter shaped_update

lemma shaped_advance: "shaped s \<Longrightarrow> shaped (advance run env j p r av ex s)"
  by (cases p; cases r) (auto simp: advance_def Let_def shaped_rules split: prod.split sum.split)

lemma shaped_capture: "shaped s \<Longrightarrow> shaped (capture run intn target fb s)"
proof (cases "ss_op s")
  case None
  assume "shaped s"
  then have "shaped (s\<lparr>ss_count := Suc (ss_count s)\<rparr>)" by (simp add: shaped_def)
  then show ?thesis using None by (simp add: capture_def shaped_captureWork)
qed (simp add: capture_def shaped_def)

lemma shaped_step: "shaped s \<Longrightarrow> shaped (session_step run env e s)"
proof (cases e)
  case (AsksRetry hr)
  assume "shaped s"
  then show ?thesis using AsksRetry by (auto simp: session_step_def retry_def shaped_def split: option.split)
next
  case (FinalSnapshot ck shot target)
  assume "shaped s"
  then show ?thesis using FinalSnapshot by (auto simp: session_step_def final_commit_def shaped_def)
qed (auto simp: session_step_def nativeChanged_def shaped_advance shaped_capture split: option.split prod.split)

section \<open>Every draft is safe\<close>

fun reply_ids :: "reply \<Rightarrow> jsstr list" where
  "reply_ids (Encoded shot u n) = [u]"
| "reply_ids r = []"

fun event_ids :: "session_event \<Rightarrow> jsstr list" where
  "event_ids (OpReply r av ex) = reply_ids r"
| "event_ids (FinalReply r av ex) = reply_ids r"
| "event_ids e = []"

definition new_ids :: "session_event list \<Rightarrow> jsstr list" where
  "new_ids es = concat (map event_ids es)"

definition put_pending :: "save_session \<Rightarrow> draft \<Rightarrow> bool" where
  "put_pending s d \<longleftrightarrow> AtPut d \<in> pauses s"

text \<open>Every draft of the session is uploaded, kept in the browser, or about to be.\<close>

definition draft_safe :: "save_session \<Rightarrow> draft \<Rightarrow> bool" where
  "draft_safe s d \<longleftrightarrow> d \<in> set (ss_uploaded s) \<or> retained (draft_id d) (draft_userId d) (ss_world s) \<or> put_pending s d"

definition drafts_known :: "session_run \<Rightarrow> save_session \<Rightarrow> bool" where
  "drafts_known run s \<longleftrightarrow>
     distinct (map draft_id (ss_created s)) \<and> list_all (\<lambda>d. draft_userId d = sr_user run) (ss_created s) \<and>
     (case ss_pending s of Some d \<Rightarrow> d \<in> set (ss_created s) | None \<Rightarrow> True) \<and>
     (\<forall>p \<in> pauses s. case held_draft p of Some d \<Rightarrow> d \<in> set (ss_created s) | None \<Rightarrow> True)"

text \<open>What a move of a thread at \<open>p\<close> may leave behind: the other pauses, and the drafts it held or the pending one.\<close>

definition moves :: "save_session \<Rightarrow> draft set \<Rightarrow> pause \<Rightarrow> save_session \<Rightarrow> bool" where
  "moves s ds p t \<longleftrightarrow> (\<forall>q \<in> pauses t. q \<in> pauses s \<or> (case held_draft q of Some d \<Rightarrow> d \<in> ds | None \<Rightarrow> True)) \<and>
     (\<forall>q \<in> pauses s. q \<in> pauses t \<or> q = p)"

fun is_final :: "job \<Rightarrow> bool" where
  "is_final (FinalJob t) = True"
| "is_final j = False"

definition at_slot :: "save_session \<Rightarrow> job \<Rightarrow> pause \<Rightarrow> bool" where
  "at_slot s j p \<longleftrightarrow> (if is_final j then ss_final s = Some (j, p) else \<exists>i. ss_op s = Some (i, j, p))"

lemma pauses_simps [simp]:
  "pauses (s\<lparr>ss_world := x_world\<rparr>) = pauses s"
  "pauses (s\<lparr>ss_message := x_message\<rparr>) = pauses s"
  "pauses (s\<lparr>ss_preview := x_preview\<rparr>) = pauses s"
  "pauses (s\<lparr>ss_draft := x_draft\<rparr>) = pauses s"
  "pauses (s\<lparr>ss_pending := x_pending\<rparr>) = pauses s"
  "pauses (s\<lparr>ss_created := x_created\<rparr>) = pauses s"
  "pauses (s\<lparr>ss_selected := x_selected\<rparr>) = pauses s"
  "pauses (s\<lparr>ss_uploaded := x_uploaded\<rparr>) = pauses s"
  "pauses (s\<lparr>ss_count := x_count\<rparr>) = pauses s"
  "pauses (s\<lparr>ss_queued := x_queued\<rparr>) = pauses s"
  "pauses (s\<lparr>ss_background := x_background\<rparr>) = pauses s"
  "pauses (upload_synced d s) = pauses s"
  by (simp_all add: pauses_def upload_synced_def)

lemma at_slot_simps [simp]:
  "at_slot (s\<lparr>ss_world := x_world\<rparr>) j p = at_slot s j p"
  "at_slot (s\<lparr>ss_message := x_message\<rparr>) j p = at_slot s j p"
  "at_slot (s\<lparr>ss_preview := x_preview\<rparr>) j p = at_slot s j p"
  "at_slot (s\<lparr>ss_draft := x_draft\<rparr>) j p = at_slot s j p"
  "at_slot (s\<lparr>ss_pending := x_pending\<rparr>) j p = at_slot s j p"
  "at_slot (s\<lparr>ss_created := x_created\<rparr>) j p = at_slot s j p"
  "at_slot (s\<lparr>ss_selected := x_selected\<rparr>) j p = at_slot s j p"
  "at_slot (s\<lparr>ss_uploaded := x_uploaded\<rparr>) j p = at_slot s j p"
  "at_slot (s\<lparr>ss_count := x_count\<rparr>) j p = at_slot s j p"
  "at_slot (s\<lparr>ss_queued := x_queued\<rparr>) j p = at_slot s j p"
  "at_slot (s\<lparr>ss_background := x_background\<rparr>) j p = at_slot s j p"
  "at_slot (upload_synced d s) j p = at_slot s j p"
  by (simp_all add: at_slot_def upload_synced_def)

lemma moves_simps [simp]:
  "moves (s\<lparr>ss_world := x_world\<rparr>) ds p t = moves s ds p t"
  "moves (s\<lparr>ss_message := x_message\<rparr>) ds p t = moves s ds p t"
  "moves (s\<lparr>ss_preview := x_preview\<rparr>) ds p t = moves s ds p t"
  "moves (s\<lparr>ss_draft := x_draft\<rparr>) ds p t = moves s ds p t"
  "moves (s\<lparr>ss_pending := x_pending\<rparr>) ds p t = moves s ds p t"
  "moves (s\<lparr>ss_created := x_created\<rparr>) ds p t = moves s ds p t"
  "moves (s\<lparr>ss_selected := x_selected\<rparr>) ds p t = moves s ds p t"
  "moves (s\<lparr>ss_uploaded := x_uploaded\<rparr>) ds p t = moves s ds p t"
  "moves (s\<lparr>ss_count := x_count\<rparr>) ds p t = moves s ds p t"
  "moves (s\<lparr>ss_queued := x_queued\<rparr>) ds p t = moves s ds p t"
  "moves (s\<lparr>ss_background := x_background\<rparr>) ds p t = moves s ds p t"
  "moves (upload_synced d s) ds p t = moves s ds p t"
  by (simp_all add: moves_def)

lemma moves_put: "at_slot s j p \<Longrightarrow> case held_draft q of Some d \<Rightarrow> d \<in> ds | None \<Rightarrow> True \<Longrightarrow> moves s ds p (put_thread (j, q) s)"
  by (cases j) (auto simp: moves_def at_slot_def pauses_def put_thread_def set_op_def split: option.splits)

lemma moves_done: "at_slot s j p \<Longrightarrow> moves s ds p (job_done run j ok av ex s)"
  by (cases j) (auto simp: moves_def at_slot_def pauses_def job_done_def end_op_def set_op_def captureWork_def Let_def
      split: option.splits)

lemma moves_throws: "at_slot s j p \<Longrightarrow> moves s ds p (job_throws j s)"
  by (cases j) (auto simp: moves_def at_slot_def pauses_def job_throws_def end_op_def split: option.splits)

lemma moves_enter: "at_slot s j p \<Longrightarrow> moves s ds p (enter_commit run j ck shot av ex s)"
  using moves_done [of "s\<lparr>ss_preview := Some (ck, shot), ss_message := False\<rparr>" j p ds run True av ex]
  by (auto simp: enter_commit_def moves_throws intro!: moves_put split: option.split)

lemma moves_refl: "moves s ds p s"
  by (simp add: moves_def)

definition all_safe :: "session_run \<Rightarrow> save_session \<Rightarrow> bool" where
  "all_safe run s \<longleftrightarrow> drafts_known run s \<and> (\<forall>d \<in> set (ss_created s). draft_safe s d)"

text \<open>A move keeps every draft safe when what happened to the world keeps it, and the one just put is in it.\<close>

lemma carry:
  assumes "all_safe run s" and "moves s (set (ss_created s)) p t"
    and "ss_created t = ss_created s" and "ss_pending t = None \<or> ss_pending t = ss_pending s"
    and "set (ss_uploaded s) \<subseteq> set (ss_uploaded t)"
    and "\<And>d. d \<in> set (ss_created s) \<Longrightarrow> retained (draft_id d) (draft_userId d) (ss_world s) \<Longrightarrow>
      d \<in> set (ss_uploaded t) \<or> retained (draft_id d) (draft_userId d) (ss_world t)"
    and "\<And>d. d \<in> set (ss_created s) \<Longrightarrow> p = AtPut d \<Longrightarrow> retained (draft_id d) (draft_userId d) (ss_world t)"
  shows "all_safe run t"
proof -
  have k: "drafts_known run s" and sf: "\<And>d. d \<in> set (ss_created s) \<Longrightarrow> draft_safe s d"
    using assms(1) by (auto simp: all_safe_def)
  have "d \<in> set (ss_created s)" if "q \<in> pauses t" "held_draft q = Some d" for q d
    using assms(2) k that by (fastforce simp: moves_def drafts_known_def)
  then have "drafts_known run t"
    using k assms(3,4) by (auto simp: drafts_known_def split: option.splits)
  moreover have "draft_safe t d" if d: "d \<in> set (ss_created s)" for d
    using sf [OF d] assms(2,5) assms(6) [OF d] assms(7) [OF d]
    unfolding draft_safe_def put_pending_def moves_def by blast
  ultimately show ?thesis using assms(3) by (simp add: all_safe_def)
qed

lemma carry_world:
  assumes "all_safe run s" and "kept u t" and "moves u (set (ss_created s)) p t"
    and "pauses u = pauses s" and "ss_created u = ss_created s" and "ss_pending u = None \<or> ss_pending u = ss_pending s"
    and "set (ss_uploaded s) \<subseteq> set (ss_uploaded u)"
    and "\<And>d. d \<in> set (ss_created s) \<Longrightarrow> retained (draft_id d) (draft_userId d) (ss_world s) \<Longrightarrow>
      d \<in> set (ss_uploaded u) \<or> retained (draft_id d) (draft_userId d) (ss_world u)"
    and "\<And>d. d \<in> set (ss_created s) \<Longrightarrow> p = AtPut d \<Longrightarrow> retained (draft_id d) (draft_userId d) (ss_world u)"
  shows "all_safe run t"
  by (rule carry [OF assms(1), where p = p]) (use assms(2-9) in \<open>simp_all add: kept_def moves_def\<close>)

lemma upload_synced_simps [simp]:
  "ss_world (upload_synced d s) = ss_world s" "ss_created (upload_synced d s) = ss_created s"
  "ss_uploaded (upload_synced d s) = ss_uploaded s" "ss_pending (upload_synced d s) = None"
  by (simp_all add: upload_synced_def)

lemma carry_kept:
  assumes "all_safe run s" "moves s (set (ss_created s)) p t" "kept s t" "\<forall>d. p \<noteq> AtPut d"
  shows "all_safe run t"
  by (rule carry [OF assms(1,2)]) (use assms(3,4) in \<open>simp_all add: kept_def\<close>)

lemma put_safe:
  assumes s: "all_safe run s" and d: "d \<in> set (ss_created s)" and put: "putDraft env True d (ss_world s) = (r, w)"
    and x: "x \<in> set (ss_created s)"
  shows "retained (draft_id x) (draft_userId x) (ss_world s) \<Longrightarrow> retained (draft_id x) (draft_userId x) w"
    and "x = d \<Longrightarrow> retained (draft_id x) (draft_userId x) w"
proof -
  have u: "draft_userId x = draft_userId d"
    using s d x by (auto simp: all_safe_def drafts_known_def list_all_iff)
  then show "retained (draft_id x) (draft_userId x) (ss_world s) \<Longrightarrow> retained (draft_id x) (draft_userId x) w"
    using put_retains [OF put] by simp
  show "x = d \<Longrightarrow> retained (draft_id x) (draft_userId x) w"
    using putDraft_result(1) [OF put] by (auto simp: retained_def stored_user_def)
qed

lemma upload_safe:
  assumes s: "all_safe run s" and d: "d \<in> set (ss_created s)"
    and up: "uploadDraft env True d (sr_user run) (ss_world s) = (r, w)" and x: "x \<in> set (ss_created s)"
    and "retained (draft_id x) (draft_userId x) (ss_world s)"
  shows "retained (draft_id x) (draft_userId x) w \<or> x = d \<and> (\<exists>save. r = Inr save)"
proof -
  have u: "draft_userId x = draft_userId d" "draft_id d = draft_id x \<Longrightarrow> d = x"
    using s d x by (auto simp: all_safe_def drafts_known_def list_all_iff distinct_map inj_on_def)
  then show ?thesis using upload_retains [OF up assms(5)] by auto
qed

lemma held_created: "all_safe run s \<Longrightarrow> at_slot s j p \<Longrightarrow> held_draft p = Some d \<Longrightarrow> d \<in> set (ss_created s)"
  by (cases "is_final j") (fastforce simp: at_slot_def all_safe_def drafts_known_def pauses_def)+

lemma added_safe:
  assumes s: "all_safe run s" and d: "draft_id d \<notin> draft_id ` set (ss_created s)" "draft_userId d = sr_user run"
    and u: "u = s\<lparr>ss_draft := Some d, ss_pending := Some d, ss_created := ss_created s @ [d]\<rparr>"
    and t: "moves u {d} p t" "AtPut d \<in> pauses t" "kept u t" "\<forall>x. p \<noteq> AtPut x"
  shows "all_safe run t"
proof -
  have "q \<in> pauses t \<Longrightarrow> held_draft q = Some x \<Longrightarrow> x \<in> set (ss_created s) \<or> x = d" for q x
    using t(1) s u by (fastforce simp: moves_def all_safe_def drafts_known_def)
  then have "drafts_known run t"
    using s d t(3) u by (auto simp: drafts_known_def all_safe_def kept_def split: option.splits)
  moreover have "draft_safe t x" if "x \<in> set (ss_created t)" for x
  proof (cases "x = d")
    case True
    then show ?thesis using t(2) by (simp add: draft_safe_def put_pending_def)
  next
    case False
    then have "draft_safe s x" using that s t(3) u by (simp add: all_safe_def kept_def)
    then show ?thesis using t u by (auto simp: draft_safe_def put_pending_def kept_def moves_def)
  qed
  ultimately show ?thesis by (simp add: all_safe_def)
qed

lemma safe_advance:
  assumes s: "all_safe run s" and slot: "at_slot s j p"
    and fresh: "\<And>shot u n. r = Encoded shot u n \<Longrightarrow> u \<notin> draft_id ` set (ss_created s)"
  shows "all_safe run (advance run env j p r av ex s)"
proof (cases p)
  case AtCheckpoint
  then show ?thesis using carry_kept [OF s moves_put [OF slot]] carry_kept [OF s moves_throws [OF slot]] s
    by (cases r) (auto simp: advance_def)
next
  case (AtScreenshot ck)
  then show ?thesis using carry_kept [OF s moves_enter [OF slot]] s by (cases r) (auto simp: advance_def)
next
  case (AtCompare ck shot same)
  then show ?thesis using carry_kept [OF s moves_put [OF slot]] carry_kept [OF s moves_done [OF slot]]
    by (auto simp: advance_def)
next
  case (AtFlight ck shot awaited)
  then show ?thesis using carry_kept [OF s moves_enter [OF slot]] s by (auto simp: advance_def)
next
  case (AtPrepare ck writable)
  show ?thesis
  proof (cases r)
    case (Encoded shot uuid now)
    let ?d = "makeDraft run uuid now ck shot writable"
    let ?s = "s\<lparr>ss_draft := Some ?d, ss_pending := Some ?d, ss_created := ss_created s @ [?d]\<rparr>"
    have e: "advance run env j p r av ex s = put_thread (j, AtPut ?d) ?s"
      using AtPrepare Encoded by (simp add: advance_def Let_def)
    have "moves ?s {?d} p (put_thread (j, AtPut ?d) ?s)" using moves_put [of ?s j p "{?d}" "AtPut ?d"] slot by simp
    moreover have "AtPut ?d \<in> pauses (put_thread (j, AtPut ?d) ?s)"
      using slot by (cases j) (auto simp: at_slot_def pauses_def put_thread_def set_op_def)
    moreover have "kept ?s (put_thread (j, AtPut ?d) ?s)" by simp
    ultimately have t: "all_safe run (put_thread (j, AtPut ?d) ?s)"
      using added_safe [OF s, of ?d] fresh [OF Encoded] AtPrepare by (simp add: makeDraft_def)
    then show ?thesis unfolding e .
  qed (use AtPrepare s in \<open>simp_all add: advance_def\<close>)
next
  case (AtPut d)
  then have d: "d \<in> set (ss_created s)" using held_created [OF s slot] by simp
  obtain a w where put: "putDraft env True d (ss_world s) = (a, w)" by force
  note ps = put_safe [OF s d put]
  let ?s = "s\<lparr>ss_world := w\<rparr>"
  have "all_safe run t" if "kept ?s t" "moves ?s (set (ss_created s)) p t" for t
    by (rule carry_world [OF s that]) (use ps AtPut in auto)
  from this [OF _ moves_throws] this [OF _ moves_put] show ?thesis
    using AtPut put slot d by (cases a) (simp_all add: advance_def)
next
  case (AtUpload d)
  then have d: "d \<in> set (ss_created s)" using held_created [OF s slot] by simp
  obtain a w where up: "uploadDraft env True d (sr_user run) (ss_world s) = (a, w)" by force
  note us = upload_safe [OF s d up]
  show ?thesis
  proof (cases a)
    case (Inl e)
    let ?s = "s\<lparr>ss_world := w, ss_message := True\<rparr>"
    have "all_safe run t" if "kept ?s t" "moves ?s (set (ss_created s)) p t" for t
      by (rule carry_world [OF s that]) (use us Inl AtUpload in auto)
    from this [OF _ moves_done] show ?thesis using AtUpload up Inl slot by (simp add: advance_def)
  next
    case (Inr save)
    let ?s = "s\<lparr>ss_world := w, ss_selected := Some (sr_save run save), ss_uploaded := ss_uploaded s @ [d]\<rparr>"
    have c: "all_safe run t" if "kept ?s t" "moves ?s (set (ss_created s)) p t" for t
      by (rule carry_world [OF s that]) (use us AtUpload in auto)
    have c': "all_safe run t" if "kept (upload_synced d ?s) t" "moves (upload_synced d ?s) (set (ss_created s)) p t" for t
      by (rule carry_world [OF s that]) (use us AtUpload in auto)
    from c [OF _ moves_put] c' [OF _ moves_done] show ?thesis
      using AtUpload up Inr slot d by (simp add: advance_def Let_def)
  qed
next
  case (AtAck d)
  then have d: "d \<in> set (ss_created s)" using held_created [OF s slot] by simp
  have c: "all_safe run t" if "kept (upload_synced d s) t" "moves (upload_synced d s) (set (ss_created s)) p t" for t
    by (rule carry_world [OF s that]) (use AtAck in auto)
  from carry_kept [OF s moves_put] c [OF _ moves_done] show ?thesis
    using AtAck slot d s by (cases r) (simp_all add: advance_def)
next
  case (AtPutBack d)
  then have d: "d \<in> set (ss_created s)" using held_created [OF s slot] by simp
  obtain a w where put: "putDraft env True d (ss_world s) = (a, w)" by force
  note ps = put_safe [OF s d put]
  let ?s = "s\<lparr>ss_world := w, ss_message := True\<rparr>"
  have "all_safe run t" if "kept ?s t" "moves ?s (set (ss_created s)) p t" for t
    by (rule carry_world [OF s that]) (use ps AtPutBack in auto)
  from this [OF _ moves_done] show ?thesis using AtPutBack put slot by (simp add: advance_def)
qed

lemma created_advance:
  "ss_created (advance run env j p r av ex s) = ss_created s \<or>
   (\<exists>d shot u n. r = Encoded shot u n \<and> draft_id d = u \<and> ss_created (advance run env j p r av ex s) = ss_created s @ [d])"
proof (cases p)
  case (AtPrepare ck writable)
  then show ?thesis using kept_starts(3) [unfolded kept_def]
    by (cases r) (auto simp: advance_def Let_def makeDraft_def)
next
  case (AtUpload d)
  then show ?thesis using kept_starts(3) [unfolded kept_def] kept_done [unfolded kept_def]
    by (auto simp: advance_def Let_def split: sum.split prod.split)
next
  case (AtPut d)
  then show ?thesis using kept_starts(3) [unfolded kept_def] kept_throws [unfolded kept_def]
    by (auto simp: advance_def split: sum.split prod.split)
next
  case (AtPutBack d)
  then show ?thesis using kept_done [unfolded kept_def] by (auto simp: advance_def split: prod.split)
qed (use kept_starts(3) [unfolded kept_def] kept_done [unfolded kept_def] kept_throws [unfolded kept_def]
    kept_enter [unfolded kept_def] in \<open>cases r; auto simp: advance_def\<close>)+

lemma moves_capture: "shaped s \<Longrightarrow> moves s ds AtCheckpoint (capture run intn target fb s)"
  by (cases "ss_op s") (auto simp: capture_def captureWork_def moves_def pauses_def split: option.splits)

lemma safe_step:
  assumes s: "all_safe run s" "shaped s" and fresh: "set (event_ids e) \<inter> draft_id ` set (ss_created s) = {}"
  shows "all_safe run (session_step run env e s)"
proof (cases e)
  case NativeChanged
  then show ?thesis using carry_kept [OF s(1) moves_capture [OF s(2)] kept_capture(1)] s(1)
    by (auto simp: session_step_def nativeChanged_def)
next
  case (AsksCapture intn target fb)
  then show ?thesis using carry_kept [OF s(1) moves_capture [OF s(2)] kept_capture(1)]
    by (auto simp: session_step_def)
next
  case (AsksRetry hr)
  have "moves s (set (ss_created s)) AtCheckpoint (retry hr s)"
    using s(1) by (auto simp: retry_def moves_def pauses_def all_safe_def drafts_known_def split: option.splits)
  then show ?thesis using carry_kept [OF s(1) _ kept_starts(5)] AsksRetry by (auto simp: session_step_def)
next
  case (FinalSnapshot ck shot target)
  have "moves s (set (ss_created s)) AtCheckpoint (final_commit ck shot target s)"
    by (auto simp: final_commit_def moves_def pauses_def split: option.splits)
  then show ?thesis using carry_kept [OF s(1) _ kept_starts(6)] FinalSnapshot by (auto simp: session_step_def)
next
  case (OpReply r av ex)
  show ?thesis
  proof (cases "ss_op s")
    case (Some t)
    obtain i j p where t: "t = (i, j, p)" by (cases t)
    then have "at_slot s j p" using s(2) Some by (cases j) (auto simp: at_slot_def shaped_def)
    moreover have "u \<notin> draft_id ` set (ss_created s)" if "r = Encoded shot u n" for shot u n
      using fresh that OpReply by auto
    ultimately show ?thesis using safe_advance [OF s(1)] OpReply Some t by (simp add: session_step_def)
  qed (use s OpReply in \<open>simp add: session_step_def\<close>)
next
  case (FinalReply r av ex)
  show ?thesis
  proof (cases "ss_final s")
    case (Some t)
    obtain j p where t: "t = (j, p)" by (cases t)
    then have "at_slot s j p" using s(2) Some by (auto simp: at_slot_def shaped_def)
    moreover have "u \<notin> draft_id ` set (ss_created s)" if "r = Encoded shot u n" for shot u n
      using fresh that FinalReply by auto
    ultimately show ?thesis using safe_advance [OF s(1)] FinalReply Some t by (simp add: session_step_def)
  qed (use s FinalReply in \<open>simp add: session_step_def\<close>)
qed

lemma created_step: "draft_id ` set (ss_created (session_step run env e s)) \<subseteq> draft_id ` set (ss_created s) \<union> set (event_ids e)"
proof -
  have adv: "draft_id ` set (ss_created (advance run env j p r av ex s)) \<subseteq> draft_id ` set (ss_created s) \<union> set (reply_ids r)"
    for j p r av ex
    using created_advance [of run env j p r av ex s] by auto
  have "ss_created (capture run intn target fb s) = ss_created s" "ss_created (nativeChanged run s) = ss_created s"
    "ss_created (retry hr s) = ss_created s" "ss_created (final_commit ck shot target s) = ss_created s"
    for intn target fb hr ck shot
    using kept_capture [unfolded kept_def] kept_starts(5,6) [unfolded kept_def] by blast+
  then show ?thesis using adv by (cases e) (auto simp: session_step_def split: option.split)
qed

lemma session_safe:
  "all_safe run s \<Longrightarrow> shaped s \<Longrightarrow> distinct (new_ids es) \<Longrightarrow> set (new_ids es) \<inter> draft_id ` set (ss_created s) = {} \<Longrightarrow>
   all_safe run (session_run_of run env es s) \<and> shaped (session_run_of run env es s)"
proof (induction es arbitrary: s)
  case (Cons e es)
  have n: "new_ids (e # es) = event_ids e @ new_ids es" by (simp add: new_ids_def)
  have "set (new_ids es) \<inter> draft_id ` set (ss_created (session_step run env e s)) = {}"
    using created_step [of run env e s] Cons.prems(3,4) unfolding n by auto
  then show ?case
    using Cons.IH [of "session_step run env e s"] safe_step [OF Cons.prems(1,2)] shaped_step [OF Cons.prems(2)]
      Cons.prems(3,4) unfolding n by (simp add: session_run_of_def Int_Un_distrib2)
qed (simp add: session_run_of_def)


definition demo_run :: session_run where
  "demo_run = \<lparr>sr_id = js ''r'', sr_gameId = js ''g'', sr_envelope = JNull, sr_extinfo = JNull,
     sr_checkpointFormat = js ''f'', sr_review = False, sr_native = False, sr_user = js ''u'', sr_protected = None,
     sr_text = (\<lambda>v. []), sr_save = (\<lambda>i. \<lparr>sv_id = i, sv_name = [], sv_slot = None, sv_version = 1, sv_hasScreenshot = False\<rparr>)\<rparr>"

definition demo_checkpoint :: checkpoint where
  "demo_checkpoint = \<lparr>ck_format = js ''f'', ck_bytes = [1, 2], ck_metadata = JNull\<rparr>"

definition demo_events :: "session_event list" where
  "demo_events = [AsksCapture Capture None Foreground, OpReply (Taken demo_checkpoint) True False,
     OpReply (Image None) True False, OpReply (Encoded None (js ''c'') 5) True False, OpReply Resumed True False,
     AsksRetry True, OpReply Resumed True False]"

lemma demo_created: "map draft_id (ss_created (session_run_of demo_run unlucky_env demo_events (session_initial None demo_run empty_world))) = [js ''c'']"
  by code_simp


end
