(* ===== verification/Site_Paths.thy ===== *)
theory Site_Paths
  imports Content_Serving Js_Regex
begin

text \<open>
  The addresses the client sends a browser to: \<open>web/features/auth/return-path.ts\<close>, the guard of
  \<open>web/components/app-shell.tsx\<close>, the target of \<open>leave\<close> in \<open>web/features/player/player-shell.tsx\<close>, and the content
  policy of \<open>web/proxy.ts\<close> with \<open>web/lib/runtime-frame-sources.ts\<close>. The browser's URL parser is written out for
  references that start with a slash, on a base of the site.
\<close>

section \<open>References that start with a slash\<close>

definition backslash :: code_unit where "backslash = 0x5C"

definition slashy :: "code_unit \<Rightarrow> bool" where
  "slashy c \<longleftrightarrow> c = slash \<or> c = backslash"

text \<open>The parser drops controls and spaces at both ends, then every tab and line break.\<close>

definition url_clean :: "jsstr \<Rightarrow> jsstr" where
  "url_clean s =
     filter (\<lambda>c. c \<noteq> 9 \<and> c \<noteq> 10 \<and> c \<noteq> 13) (rev (dropWhile (\<lambda>c. c \<le> 0x20) (rev (dropWhile (\<lambda>c. c \<le> 0x20) s))))"

datatype reference = NotRooted | OtherHost jsstr | RootedPath jsstr

definition url_reference :: "jsstr \<Rightarrow> reference" where
  "url_reference s =
     (case url_clean s of
        [] \<Rightarrow> NotRooted
      | c # cs \<Rightarrow>
          if \<not> slashy c then NotRooted
          else (case cs of [] \<Rightarrow> RootedPath [] | d # ds \<Rightarrow> if slashy d then OtherHost ds else RootedPath cs))"

definition path_end :: "code_unit \<Rightarrow> bool" where
  "path_end c \<longleftrightarrow> c = of_char CHR ''?'' \<or> c = of_char CHR ''#''"

text \<open>The segments of a path, each with whether a slash ends it.\<close>

fun segments :: "jsstr \<Rightarrow> jsstr \<Rightarrow> (jsstr \<times> bool) list" where
  "segments buf [] = [(buf, False)]"
| "segments buf (c # cs) =
     (if slashy c then (buf, True) # segments [] cs
      else if path_end c then [(buf, False)] else segments (buf @ [c]) cs)"

definition single_dot :: "jsstr \<Rightarrow> bool" where
  "single_dot s \<longleftrightarrow> map lower_unit s \<in> {js ''.'', js ''%2e''}"

definition double_dot :: "jsstr \<Rightarrow> bool" where
  "double_dot s \<longleftrightarrow> map lower_unit s \<in> {js ''..'', js ''.%2e'', js ''%2e.'', js ''%2e%2e''}"

text \<open>The units a path keeps as they are; the others are percent-encoded as UTF-8.\<close>

definition path_kept :: "code_unit \<Rightarrow> bool" where
  "path_kept c \<longleftrightarrow> 0x21 \<le> c \<and> c \<le> 0x7E \<and> c \<notin> set (js ''\"#<>?^`{}'')"

fun path_encode :: "jsstr \<Rightarrow> jsstr" where
  "path_encode [] = []"
| "path_encode [c] =
     (if path_kept c then [c] else percent_utf8 (if high_surrogate c \<or> low_surrogate c then 0xFFFD else unat c))"
| "path_encode (c # d # cs) =
     (if path_kept c then c # path_encode (d # cs)
      else if high_surrogate c \<and> low_surrogate d
      then percent_utf8 (0x10000 + (unat c - 0xD800) * 0x400 + (unat d - 0xDC00)) @ path_encode cs
      else percent_utf8 (if high_surrogate c \<or> low_surrogate c then 0xFFFD else unat c) @ path_encode (d # cs))"

fun resolve :: "jsstr list \<Rightarrow> (jsstr \<times> bool) list \<Rightarrow> jsstr list" where
  "resolve path [] = path"
| "resolve path ((seg, slashed) # segs) =
     (if double_dot seg then resolve (if slashed then butlast path else butlast path @ [[]]) segs
      else if single_dot seg then resolve (if slashed then path else path @ [[]]) segs
      else resolve (path @ [path_encode seg]) segs)"

text \<open>\<open>new URL(value, base).pathname\<close> of a rooted reference.\<close>

definition url_pathname :: "jsstr \<Rightarrow> jsstr" where
  "url_pathname path = concat (map (\<lambda>seg. slash # seg) (resolve [] (segments [] path)))"

section \<open>\<open>return-path.ts\<close>\<close>

definition publicRoutes :: "jsstr list" where
  "publicRoutes = map js [''/login'', ''/setup'', ''/register'', ''/reset-password'']"

text \<open>\<open>pathname.replace(/\/+$/u, "")\<close>.\<close>

definition strip_slashes :: "jsstr \<Rightarrow> jsstr" where
  "strip_slashes s = rev (dropWhile (\<lambda>c. c = slash) (rev s))"

definition isAuthenticationRoute :: "jsstr \<Rightarrow> bool" where
  "isAuthenticationRoute pathname \<longleftrightarrow> strip_slashes pathname \<in> set publicRoutes"

text \<open>\<open>/[\\\u0000-\u001f\u007f]/u\<close>.\<close>

definition refused_unit :: "code_unit \<Rightarrow> bool" where
  "refused_unit c \<longleftrightarrow> c = backslash \<or> c \<le> 0x1F \<or> c = 0x7F"

text \<open>The query is the list of its decoded parameters.\<close>

definition authenticationReturnPath :: "(jsstr \<times> jsstr) list \<Rightarrow> jsstr" where
  "authenticationReturnPath search =
     (case map_of search (js ''returnTo'') of
        None \<Rightarrow> js ''/''
      | Some v \<Rightarrow>
          if v = [] \<or> \<not> starts_with v (js ''/'') \<or> starts_with v (js ''//'') \<or> list_ex refused_unit v then js ''/''
          else (case url_reference v of
              RootedPath p \<Rightarrow> if isAuthenticationRoute (url_pathname p) then js ''/'' else v
            | _ \<Rightarrow> v))"

section \<open>The guard of the application\<close>

record auth_context =
  ac_initialized :: bool
  ac_user :: bool

text \<open>
  \<open>router.replace\<close> within the application and \<open>location.replace\<close> with a new document; \<open>hash\<close> is the fragment,
  kept only when the address bar shows this path.
\<close>

datatype redirect = Replace jsstr | Reload jsstr

definition guard_route :: "auth_context option \<Rightarrow> jsstr \<Rightarrow> jsstr \<Rightarrow> jsstr \<Rightarrow> (jsstr \<times> jsstr) list \<Rightarrow> bool \<Rightarrow> redirect option" where
  "guard_route context pathname search hash params appWindow =
     (case context of
        None \<Rightarrow> None
      | Some ac \<Rightarrow>
          if \<not> ac_initialized ac \<and> pathname \<noteq> js ''/setup'' then Some (Replace (js ''/setup''))
          else if ac_initialized ac \<and> \<not> ac_user ac \<and> \<not> isAuthenticationRoute pathname
          then map_option (\<lambda>d. Replace (js ''/login?returnTo='' @ d))
                 (encodeURIComponent (pathname @ (if search = [] then [] else js ''?'' @ search) @ hash))
          else if ac_user ac \<and> isAuthenticationRoute pathname then Some (Reload (authenticationReturnPath params))
          else if ac_user ac \<and> appWindow \<and> starts_with pathname (js ''/admin'') then Some (Replace (js ''/''))
          else None)"

section \<open>Leaving the player\<close>

definition leave_target :: "jsstr \<Rightarrow> jsstr" where
  "leave_target returnTo =
     (if starts_with returnTo (js ''/'') \<and> \<not> starts_with returnTo (js ''//'') then returnTo else js ''/library'')"

section \<open>The content policy\<close>

definition host_label :: rx where
  "host_label = rx_plus (rx_cls [(CHR ''a'', CHR ''z''), (CHR ''0'', CHR ''9''), (CHR ''-'', CHR ''-'')])"

definition local_host :: rx where
  "local_host = RSeq host_label (RSeq (RStar (RSeq (rx_lit ''.'') host_label)) (rx_lit ''.localhost''))"

definition port_digits :: rx where
  "port_digits = RSeq (rx_cls [(CHR ''0'', CHR ''9'')]) (rx_upto (rx_cls [(CHR ''0'', CHR ''9'')]) 4)"

definition template_prefix :: jsstr where "template_prefix = js ''http://{runId}.''"

text \<open>
  The two groups of the pattern; neither can hold a colon, so the one after the prefix parts them.
\<close>

definition template_match :: "jsstr \<Rightarrow> (jsstr \<times> jsstr) option" where
  "template_match t =
     (if starts_with t template_prefix then
        (case split_on (of_char CHR '':'') (drop (length template_prefix) t) of
           [host, port] \<Rightarrow> if rx_test local_host host \<and> rx_test port_digits port then Some (host, port) else None
         | _ \<Rightarrow> None)
      else None)"

definition port_number :: "jsstr \<Rightarrow> nat" where
  "port_number s = foldl (\<lambda>n c. 10 * n + (unat c - 48)) 0 s"

definition standard_source :: jsstr where "standard_source = js ''http://*.localhost:3000''"

definition runtimeFrameSources :: "jsstr option \<Rightarrow> jsstr" where
  "runtimeFrameSources template =
     (case Option.bind template template_match of
        None \<Rightarrow> standard_source
      | Some (host, port) \<Rightarrow>
          if port_number port < 1 \<or> 65535 < port_number port then standard_source
          else standard_source @ js '' http://*.'' @ host @ js '':'' @ port)"

definition quoted :: "string \<Rightarrow> jsstr" where "quoted s = 0x27 # js s @ [0x27]"

definition policy_before :: jsstr where
  "policy_before =
     js ''default-src '' @ quoted ''self'' @ js ''; script-src '' @ quoted ''self'' @ js '' '' @ quoted ''unsafe-inline'' @ js '' '' @
     quoted ''unsafe-eval'' @ js '' blob:; style-src '' @ quoted ''self'' @ js '' '' @ quoted ''unsafe-inline'' @
     js ''; img-src '' @ quoted ''self'' @ js '' blob: data:; media-src '' @ quoted ''self'' @ js '' blob:; connect-src '' @
     quoted ''self'' @ js '' blob: ws: wss:; worker-src '' @ quoted ''self'' @ js '' blob:; frame-src '' @ quoted ''self'' @ js '' ''"

definition policy_after :: jsstr where
  "policy_after =
     js '' https:; object-src '' @ quoted ''none'' @ js ''; base-uri '' @ quoted ''self'' @ js ''; frame-ancestors '' @ quoted ''none''"

definition content_policy :: "jsstr option \<Rightarrow> jsstr" where
  "content_policy template = policy_before @ runtimeFrameSources template @ policy_after"

text \<open>\<open>proxy\<close>: the headers of an answer by the path of its request.\<close>

definition proxy_headers :: "jsstr option \<Rightarrow> jsstr \<Rightarrow> (string \<times> jsstr) list" where
  "proxy_headers template pathname =
     [(''X-Content-Type-Options'', js ''nosniff''), (''Referrer-Policy'', js ''same-origin''),
      (''Cross-Origin-Opener-Policy'', js ''same-origin''), (''Cross-Origin-Embedder-Policy'', js ''require-corp''),
      (''Cross-Origin-Resource-Policy'', js ''same-origin'')] @
     (if starts_with pathname (js ''/__retrom/runtime-isolation/'') then []
      else [(''Content-Security-Policy'', content_policy template)])"

end
