(* ===== verification/Site_Properties.thy ===== *)
theory Site_Properties
  imports Site_Paths
begin

text \<open>
  What holds of the addresses: a return path stays on the site and off the authentication pages, the guard of the
  application settles, the player's own check lets a foreign address through, and no configuration can add to the
  content policy more than one source.
\<close>

section \<open>Return paths\<close>

lemma slash_units: "slash = 47" "backslash = 92" "refused_unit backslash" "\<not> slash \<le> 32" "js ''/'' = [slash]" "js ''//'' = [slash, slash]"
  by (simp_all add: slash_def backslash_def refused_unit_def js_eval)

lemma clean_head:
  assumes "\<not> c \<le> 0x20" "\<not> list_ex refused_unit (c # cs)"
  shows "\<exists>ds. url_clean (c # cs) = c # ds \<and> (\<exists>r. cs = ds @ r)"
proof -
  let ?P = "\<lambda>c :: code_unit. c \<le> 0x20"
  define u where "u = rev (dropWhile ?P (rev (c # cs)))"
  have d: "dropWhile ?P (c # cs) = c # cs" using assms(1) by simp
  obtain t where r: "c # cs = u @ t"
    unfolding u_def by (metis rev_append rev_rev_ident takeWhile_dropWhile_id)
  have "u \<noteq> []" using assms(1) by (auto simp: u_def dropWhile_eq_Nil_conv)
  then obtain ds where ds: "u = c # ds" "\<exists>r. cs = ds @ r" using r by (cases u) auto
  have "filter (\<lambda>c. c \<noteq> 9 \<and> c \<noteq> 10 \<and> c \<noteq> 13) u = u"
  proof (rule filter_True)
    show "\<forall>x \<in> set u. x \<noteq> 9 \<and> x \<noteq> 10 \<and> x \<noteq> 13"
    proof
      fix x assume "x \<in> set u"
      then have "x \<in> set (c # cs)" by (subst r) simp
      then have "\<not> refused_unit x" using assms(2) by (auto simp: list_ex_iff)
      then show "x \<noteq> 9 \<and> x \<noteq> 10 \<and> x \<noteq> 13" by (auto simp: refused_unit_def)
    qed
  qed
  then show ?thesis using ds by (simp only: url_clean_def d u_def [symmetric]) simp
qed

definition on_site :: "jsstr \<Rightarrow> bool" where
  "on_site v \<longleftrightarrow> (case url_reference v of RootedPath p \<Rightarrow> \<not> isAuthenticationRoute (url_pathname p) | _ \<Rightarrow> False)"

lemma rooted_reference:
  assumes "starts_with v (js ''/'')" "\<not> starts_with v (js ''//'')" "\<not> list_ex refused_unit v"
  shows "\<exists>p. url_reference v = RootedPath p"
proof -
  from assms(1) obtain cs where v: "v = slash # cs" by (auto simp: slash_units split: list.splits)
  obtain ds r where ds: "url_clean v = slash # ds" "cs = ds @ r" using clean_head [of slash cs] assms(3) slash_units(4) v by auto
  show ?thesis
  proof (cases ds)
    case (Cons d ds')
    then have "d \<noteq> slash" using assms(2) v ds(2) by (auto simp: slash_units)
    moreover have "d \<noteq> backslash" using assms(3) v ds(2) Cons slash_units(3) by auto
    ultimately show ?thesis using ds(1) Cons by (auto simp: url_reference_def slashy_def)
  qed (simp add: url_reference_def ds(1) slashy_def)
qed

lemma home_on_site: "on_site (js ''/'')"
  by code_simp

lemma return_stays: "on_site (authenticationReturnPath search)"
proof (cases "map_of search (js ''returnTo'')")
  case None
  then show ?thesis by (simp add: authenticationReturnPath_def home_on_site)
next
  case (Some v)
  show ?thesis
  proof (cases "v = [] \<or> \<not> starts_with v (js ''/'') \<or> starts_with v (js ''//'') \<or> list_ex refused_unit v")
    case True
    then show ?thesis using Some by (simp add: authenticationReturnPath_def home_on_site)
  next
    case False
    then obtain p where "url_reference v = RootedPath p" using rooted_reference by blast
    then show ?thesis using Some False by (simp add: authenticationReturnPath_def home_on_site) (simp add: on_site_def)
  qed
qed

text \<open>
  After a login the browser goes to a page of this site that is not an authentication page, whatever the address
  asked for: the parser of the browser reads the answer as a path on the same host.
\<close>

theorem return_path_stays: "on_site (authenticationReturnPath search)"
  by (rule return_stays)

text \<open>
  The player's own check is weaker: an address with a backslash, or with a tab that the parser drops, passes it
  and leads to another host.
\<close>

theorem leave_can_reach_other_host:
  "leave_target (slash # backslash # js ''evil.example'') = slash # backslash # js ''evil.example'' \<and>
   url_reference (leave_target (slash # backslash # js ''evil.example'')) = OtherHost (js ''evil.example'') \<and>
   url_reference (leave_target (slash # 9 # slash # js ''evil.example'')) = OtherHost (js ''evil.example'')"
  by code_simp

section \<open>The guard\<close>

text \<open>Where a redirect leads: the path of its address.\<close>

definition landing :: "redirect \<Rightarrow> jsstr" where
  "landing r = (case r of Replace a \<Rightarrow> a | Reload a \<Rightarrow> a)"

definition path_of :: "jsstr \<Rightarrow> jsstr" where
  "path_of a = (case url_reference a of RootedPath p \<Rightarrow> url_pathname p | _ \<Rightarrow> [])"

definition guard_settled :: "auth_context \<Rightarrow> bool \<Rightarrow> jsstr \<Rightarrow> bool" where
  "guard_settled ac appWindow p \<longleftrightarrow> (\<forall>search hash params. guard_route (Some ac) p search hash params appWindow = None)"

definition sent_home :: "auth_context \<Rightarrow> bool \<Rightarrow> jsstr \<Rightarrow> bool" where
  "sent_home ac appWindow p \<longleftrightarrow>
     (\<forall>search hash params. guard_route (Some ac) p search hash params appWindow = Some (Replace (js ''/'')))"

lemma hex_visible: "d < 16 \<Longrightarrow> \<not> upper_hex d \<le> 0x20"
proof -
  assume "d < 16"
  then have "d \<in> {0, 1, 2, 3, 4, 5, 6, 7, 8, 9, 10, 11, 12, 13, 14, 15}" by (simp, arith)
  then show ?thesis by (elim insertE emptyE) (simp_all add: upper_hex_def)
qed

lemma percent_visible: "c \<in> set (percent_utf8 n) \<Longrightarrow> \<not> c \<le> 0x20"
  by (auto simp: percent_utf8_def percent_def hex_visible split: if_splits)

lemma unreserved_visible: "unreserved c \<Longrightarrow> \<not> c \<le> 0x20"
  by (auto simp: unreserved_def digit_def js_eval word_le_nat_alt)

definition visible :: "jsstr \<Rightarrow> bool" where
  "visible s \<longleftrightarrow> list_all (\<lambda>c. \<not> c \<le> 0x20) s"

lemma visible_simps [simp]:
  "visible []" "visible (c # cs) \<longleftrightarrow> \<not> c \<le> 0x20 \<and> visible cs" "visible (s @ t) \<longleftrightarrow> visible s \<and> visible t"
  "visible (percent_utf8 n)"
  by (auto simp: visible_def list_all_iff dest: percent_visible)

lemma encode_visible: "encodeURIComponent s = Some d \<Longrightarrow> visible d"
proof (induction s arbitrary: d rule: encodeURIComponent.induct)
  case (2 c cs)
  show ?case
  proof (cases "unreserved c")
    case True
    with 2 show ?thesis using unreserved_visible by auto
  next
    case False
    note f = this
    show ?thesis
    proof (cases "high_surrogate c")
      case True
      then obtain e es where e: "cs = e # es" "low_surrogate e"
        using 2 False by (auto split: if_splits list.splits)
      from 2(2) [OF f _ True e] show ?thesis using 2(4) f True e by (auto split: if_splits)
    qed (use 2 False in \<open>auto split: if_splits\<close>)
  qed
qed simp

lemma clean_visible: "visible s \<Longrightarrow> url_clean s = s"
proof -
  assume "visible s"
  then have a: "\<forall>c \<in> set s. \<not> c \<le> 0x20" by (simp add: visible_def list_all_iff)
  then have d: "dropWhile (\<lambda>c. c \<le> 0x20) s = s" by (cases s) auto
  have r: "dropWhile (\<lambda>c. c \<le> 0x20) (rev s) = rev s" 
    using a by (cases s rule: rev_cases) (auto simp: dropWhile_eq_self_iff)
  have "filter (\<lambda>c. c \<noteq> 9 \<and> c \<noteq> 10 \<and> c \<noteq> 13) s = s" using a by (auto intro!: filter_True)
  then show ?thesis by (simp add: url_clean_def d r)
qed

lemma login_landing:
  assumes "encodeURIComponent s = Some d"
  shows "path_of (js ''/login?returnTo='' @ d) = js ''/login''"
proof -
  have "url_clean (js ''/login?returnTo='' @ d) = js ''/login?returnTo='' @ d"
    by (rule clean_visible) (use encode_visible [OF assms] in \<open>simp add: js_eval\<close>)
  then show ?thesis
    by (simp add: path_of_def url_reference_def url_pathname_def js_eval slashy_def slash_def backslash_def path_end_def
        single_dot_def double_dot_def lower_unit_def path_kept_def)
qed

lemma route_facts:
  "isAuthenticationRoute (js ''/login'')" "isAuthenticationRoute (js ''/setup'')" "\<not> isAuthenticationRoute (js ''/'')"
  "\<not> starts_with (js ''/'') (js ''/admin'')" "path_of (js ''/setup'') = js ''/setup''" "path_of (js ''/'') = js ''/''"
  "js ''/login'' \<noteq> js ''/setup''"
  by code_simp+

text \<open>
  The guard of the application cannot loop: wherever it sends the browser it sends it no further, but for one
  step from the administration to the start page in the installed application, which is the last. (The server
  never reports a user before the first account exists.)
\<close>

theorem guard_settles:
  assumes "ac_initialized ac \<or> \<not> ac_user ac"
    and "guard_route (Some ac) pathname search hash params appWindow = Some r"
  shows "guard_settled ac appWindow (path_of (landing r)) \<or>
    sent_home ac appWindow (path_of (landing r)) \<and> guard_settled ac appWindow (path_of (js ''/''))"
proof -
  have site: "\<not> isAuthenticationRoute (path_of (authenticationReturnPath params))"
    using return_stays [of params] by (auto simp: on_site_def path_of_def split: reference.splits)
  have login: "guard_settled ac appWindow (js ''/login'')" if "ac_initialized ac" "\<not> ac_user ac"
    using that route_facts by (simp add: guard_settled_def guard_route_def)
  show ?thesis
  proof (cases "ac_initialized ac")
    case False
    then show ?thesis using assms route_facts by (auto simp: guard_route_def guard_settled_def landing_def split: if_splits)
  next
    case True
    show ?thesis
    proof (cases "ac_user ac")
      case False
      then show ?thesis using assms True login login_landing by (auto simp: guard_route_def landing_def split: if_splits)
    next
      case user: True
      have home: "guard_settled ac appWindow (path_of (js ''/''))"
        using True user route_facts by (simp add: guard_settled_def guard_route_def)
      consider "r = Replace (js ''/'')" | "r = Reload (authenticationReturnPath params)"
        using assms(2) True user by (auto simp: guard_route_def split: if_splits)
      then show ?thesis
        using home True user site
        by cases (auto simp: landing_def guard_settled_def sent_home_def guard_route_def)
    qed
  qed
qed

theorem guard_settles_witness:
  "guard_settled \<lparr>ac_initialized = True, ac_user = False\<rparr> False (js ''/login'')"
proof -
  have "guard_route (Some \<lparr>ac_initialized = True, ac_user = False\<rparr>) (js ''/a'') [] [] [] False =
      Some (Replace (js ''/login?returnTo=%2Fa''))"
    by code_simp
  from guard_settles [OF _ this] have
    "guard_settled \<lparr>ac_initialized = True, ac_user = False\<rparr> False (path_of (js ''/login?returnTo=%2Fa'')) \<or>
     sent_home \<lparr>ac_initialized = True, ac_user = False\<rparr> False (path_of (js ''/login?returnTo=%2Fa''))"
    by (auto simp: landing_def)
  moreover have "path_of (js ''/login?returnTo=%2Fa'') = js ''/login''" by code_simp
  moreover have "\<not> sent_home \<lparr>ac_initialized = True, ac_user = False\<rparr> False (js ''/login'')"
    using route_facts by (simp add: sent_home_def guard_route_def)
  ultimately show ?thesis by simp
qed

section \<open>The content policy\<close>

text \<open>What the pattern accepts, as a regular expression over the whole template.\<close>

definition policy_words :: "jsstr \<Rightarrow> jsstr list list" where
  "policy_words p = map (split_on (of_char CHR '' '')) (split_on (of_char CHR '';'') p)"

definition plain_host :: "jsstr \<Rightarrow> bool" where
  "plain_host h \<longleftrightarrow> list_all (\<lambda>c. digit c \<or> (0x61 \<le> c \<and> c \<le> 0x7A) \<or> c = 0x2D \<or> c = 0x2E) h \<and> ends_with h (js ''.localhost'')"

lemma split_append: "d \<notin> set m \<Longrightarrow> split_on d (a @ m @ b) =
   butlast (split_on d a) @ [last (split_on d a) @ m @ hd (split_on d b)] @ tl (split_on d b)"
proof (induction a)
  case Nil
  then show ?case
  proof (induction m)
    case (Cons x m)
    then show ?case by (cases "split_on d (m @ b)") auto
  qed simp
next
  case (Cons x a)
  then show ?case by (cases "split_on d a") (auto split: list.split)
qed

lemma rx_lit_matches: "rx_matches (rx_lit s) v \<longleftrightarrow> v = js s"
proof (induction s arbitrary: v)
  case (Cons c s)
  have "rx_lit (c # s) = RSeq (RCls [(of_char c, of_char c)]) (rx_lit s)" by (simp add: rx_lit_def)
  moreover have "in_cls [(a, a)] b \<longleftrightarrow> b = a" for a b by (auto simp: in_cls_def)
  ultimately show ?case by (cases v) (simp_all add: seq_cls js_Cons Cons.IH)
qed (simp add: rx_lit_def)

lemma host_shape:
  assumes "rx_test local_host h"
  shows "plain_host h"
proof -
  have m: "rx_matches local_host h" using assms by (simp add: rx_test_iff)
  have "digit c \<or> (0x61 \<le> c \<and> c \<le> 0x7A) \<or> c = 0x2D \<or> c = 0x2E" if "c \<in> set h" for c
    using rx_matches_units [OF m that]
    by (auto simp: local_host_def host_label_def rx_eval digit_def word_le_nat_alt)
      (auto simp: word_unat_eq_iff)
  moreover have "\<exists>u v. h = u @ v \<and> rx_matches (rx_lit ''.localhost'') v"
    using m unfolding local_host_def seq_split by (metis append.assoc)
  then have "ends_with h (js ''.localhost'')"
    by (auto simp: ends_with_iff rx_lit_matches)
  ultimately show ?thesis by (simp add: plain_host_def list_all_iff)
qed

lemma port_shape: "rx_test port_digits s \<Longrightarrow> list_all digit s"
  using rx_matches_units [of port_digits s]
  by (auto simp: rx_test_iff list_all_iff port_digits_def rx_eval digit_def numeral_eq_Suc)

lemma sources_shape:
  "runtimeFrameSources t = standard_source \<or>
   (\<exists>h p. runtimeFrameSources t = standard_source @ js '' '' @ (js ''http://*.'' @ h @ js '':'' @ p) \<and>
      plain_host h \<and> list_all digit p \<and> 1 \<le> port_number p \<and> port_number p \<le> 65535)"
proof (cases "Option.bind t template_match")
  case (Some hp)
  obtain h p where hp: "hp = (h, p)" by (cases hp)
  from Some obtain u where "template_match u = Some (h, p)" unfolding hp by (cases t) auto
  then have "rx_test local_host h" "rx_test port_digits p"
    by (auto simp: template_match_def split: if_splits list.splits)
  then have "plain_host h" "list_all digit p" by (simp_all add: host_shape port_shape)
  moreover have "runtimeFrameSources t = standard_source @ js '' '' @ (js ''http://*.'' @ h @ js '':'' @ p)"
    if "\<not> (port_number p < 1 \<or> 65535 < port_number p)"
    using that Some hp by (simp add: runtimeFrameSources_def js_eval)
  moreover have "runtimeFrameSources t = standard_source" if "port_number p < 1 \<or> 65535 < port_number p"
    using that Some hp by (simp add: runtimeFrameSources_def)
  ultimately show ?thesis by (metis not_less)
qed (simp add: runtimeFrameSources_def)

definition one_source :: "jsstr list \<Rightarrow> bool" where
  "one_source extra \<longleftrightarrow> extra = [] \<or>
     (\<exists>h p. extra = [js ''http://*.'' @ h @ js '':'' @ p] \<and> plain_host h \<and> list_all digit p \<and>
        1 \<le> port_number p \<and> port_number p \<le> 65535)"

definition frame_directive :: "jsstr list \<Rightarrow> jsstr list" where
  "frame_directive extra = [[], js ''frame-src'', quoted ''self'', standard_source] @ extra @ [js ''https:'']"

lemma policy_parts:
  "split_on (of_char CHR '';'') policy_before =
     butlast (split_on (of_char CHR '';'') policy_before) @ [js '' frame-src '' @ quoted ''self'' @ js '' '']"
  "split_on (of_char CHR '';'') policy_after = js '' https:'' # tl (split_on (of_char CHR '';'') policy_after)"
  "length (split_on (of_char CHR '';'') policy_before) = 8"
  by code_simp+

lemma frame_words:
  "split_on (of_char CHR '' '') (js '' frame-src '' @ quoted ''self'' @ js '' '' @ standard_source @ js '' https:'') = frame_directive []"
  "split_on (of_char CHR '' '') (js '' frame-src '' @ quoted ''self'' @ js '' '' @ standard_source @ js '' '') =
     [[], js ''frame-src'', quoted ''self'', standard_source, []]"
  "split_on (of_char CHR '' '') (js '' https:'') = [[], js ''https:'']"
  by code_simp+

lemma policy_split:
  assumes "of_char CHR '';'' \<notin> set m"
  shows "policy_words (policy_before @ m @ policy_after) =
     map (split_on (of_char CHR '' '')) (butlast (split_on (of_char CHR '';'') policy_before)) @
     [split_on (of_char CHR '' '') (js '' frame-src '' @ quoted ''self'' @ js '' '' @ m @ js '' https:'')] @
     map (split_on (of_char CHR '' '')) (tl (split_on (of_char CHR '';'') policy_after))"
proof -
  have "last (split_on (of_char CHR '';'') policy_before) = js '' frame-src '' @ quoted ''self'' @ js '' ''"
    by (subst policy_parts(1)) simp
  moreover have "hd (split_on (of_char CHR '';'') policy_after) = js '' https:''"
    by (subst policy_parts(2)) simp
  ultimately show ?thesis using split_append [OF assms] by (simp add: policy_words_def)
qed

text \<open>
  No configuration can widen the content policy by more than one frame source: its directives are those of the
  default one, and the frame sources gain at most one more, a plain host under \<open>localhost\<close> with a valid port.
\<close>

theorem policy_gains_one_source:
  "\<exists>extra. one_source extra \<and>
     policy_words (content_policy template) = (policy_words (content_policy None))[7 := frame_directive extra]"
proof -
  let ?semi = "of_char CHR '';'' :: code_unit" and ?space = "of_char CHR '' '' :: code_unit"
  have std: "?semi \<notin> set standard_source" by code_simp
  have len: "length (butlast (split_on ?semi policy_before)) = 7" using policy_parts(3) by simp
  have none: "policy_words (content_policy None) = policy_words (policy_before @ standard_source @ policy_after)"
    by (simp add: content_policy_def runtimeFrameSources_def)
  note base = none [unfolded policy_split [OF std]]
  from sources_shape [of template] show ?thesis
  proof (elim disjE exE conjE)
    assume "runtimeFrameSources template = standard_source"
    then have "policy_words (content_policy template) = policy_words (content_policy None)"
      by (simp add: content_policy_def runtimeFrameSources_def)
    also have "\<dots> = (policy_words (content_policy None))[7 := frame_directive []]"
      using len unfolding base frame_words(1) by (simp add: list_update_append)
    finally have "policy_words (content_policy template) = (policy_words (content_policy None))[7 := frame_directive []]" .
    then show ?thesis by (auto simp: one_source_def)
  next
    fix h p
    let ?m = "js ''http://*.'' @ h @ js '':'' @ p"
    assume r: "runtimeFrameSources template = standard_source @ js '' '' @ ?m"
      and h: "plain_host h" "list_all digit p" "1 \<le> port_number p" "port_number p \<le> 65535"
    have free: "?semi \<notin> set h" "?space \<notin> set h" "?semi \<notin> set p" "?space \<notin> set p"
      using h(1,2) by (auto simp: plain_host_def list_all_iff digit_def word_le_nat_alt)
    have free': "?semi \<notin> set (standard_source @ js '' '' @ ?m)" "?space \<notin> set ?m"
      using free std by (auto simp: js_eval)
    have "split_on ?space (js '' frame-src '' @ quoted ''self'' @ js '' '' @ (standard_source @ js '' '' @ ?m) @ js '' https:'') =
        frame_directive [?m]"
      using split_append [OF free'(2), of "js '' frame-src '' @ quoted ''self'' @ js '' '' @ standard_source @ js '' ''" "js '' https:''"]
      unfolding frame_words(2,3) by (simp add: frame_directive_def)
    note split = policy_split [OF free'(1), unfolded this]
    have "policy_words (content_policy template) = (policy_words (content_policy None))[7 := frame_directive [?m]]"
      using len unfolding content_policy_def [of template] r split base by (simp add: list_update_append)
    moreover have "one_source [?m]" using h by (auto simp: one_source_def)
    ultimately show ?thesis by blast
  qed
qed

end
