(* ===== verification/Player_Exit.thy ===== *)
theory Player_Exit
  imports Provider_Contract Gamepad_Input Chord_Detector
begin

text \<open>
  The exit dialogue of the player: \<open>web/features/player/use-player-exit.ts\<close>. The callbacks are cut at their
  \<open>await\<close>s; the props and the state a callback reads come from the render it was made in, so every call carries
  its view. Beside the dialogue: the wait for a running checkpoint and for gamepads at rest.
\<close>

section \<open>Waiting for a checkpoint\<close>

datatype runtime_note = StateChanged RuntimeStateV1 | FatalError | OtherNote

definition note_ends :: "runtime_note \<Rightarrow> bool" where
  "note_ends n = (case n of StateChanged st \<Rightarrow> st \<noteq> CHECKPOINTING | FatalError \<Rightarrow> True | OtherNote \<Rightarrow> False)"

record checkpoint_wait =
  cw_subscribed :: bool
  cw_listening :: bool
  cw_resolved :: bool

definition cw_finish :: "checkpoint_wait \<Rightarrow> checkpoint_wait" where
  "cw_finish w = \<lparr>cw_subscribed = False, cw_listening = False, cw_resolved = True\<rparr>"

text \<open>
  \<open>waitForCheckpoint\<close>: the runtime may report while \<open>subscribe\<close> still runs (\<open>replay\<close>), when the returned
  unsubscribe does not exist yet; the last line of the promise then ends the subscription.
\<close>

definition waitForCheckpoint :: "RuntimeStateV1 \<Rightarrow> runtime_note list \<Rightarrow> bool \<Rightarrow> RuntimeStateV1 \<Rightarrow> checkpoint_wait" where
  "waitForCheckpoint st replay aborted st_after =
     (if st \<noteq> CHECKPOINTING then \<lparr>cw_subscribed = False, cw_listening = False, cw_resolved = True\<rparr>
      else
        (let finished = list_ex note_ends replay;
             w = \<lparr>cw_subscribed = True, cw_listening = True, cw_resolved = finished\<rparr> in
         if finished \<or> aborted \<or> st_after \<noteq> CHECKPOINTING then cw_finish w else w))"

datatype wait_event = Note runtime_note | Aborts

definition cw_step :: "wait_event \<Rightarrow> checkpoint_wait \<Rightarrow> checkpoint_wait" where
  "cw_step e w =
     (case e of
        Note n \<Rightarrow> if cw_subscribed w \<and> note_ends n then cw_finish w else w
      | Aborts \<Rightarrow> if cw_listening w then cw_finish w else w)"

definition wait_event_ends :: "wait_event \<Rightarrow> bool" where
  "wait_event_ends e = (case e of Note n \<Rightarrow> note_ends n | Aborts \<Rightarrow> True)"

section \<open>Waiting for gamepads at rest\<close>

definition axis_centred :: "jsnum \<Rightarrow> bool" where
  "axis_centred a = (case a of Fin q \<Rightarrow> \<bar>q\<bar> < exit_threshold | _ \<Rightarrow> False)"

definition pads_neutral :: "gamepad list \<Rightarrow> bool" where
  "pads_neutral pads \<longleftrightarrow>
     list_all (\<lambda>p. \<not> list_ex (\<lambda>b. buttonPressed (Some b)) (buttons p) \<and> list_all axis_centred (axes p)) pads"

text \<open>One frame of \<open>waitForPlayerNeutral\<close>: whether the wait ends, and the gate after it.\<close>

definition waitForPlayerNeutral :: "bool \<Rightarrow> gamepad list \<Rightarrow> jsnum \<Rightarrow> jsnum option \<Rightarrow> bool \<times> jsnum option" where
  "waitForPlayerNeutral suspended pads now since =
     (if suspended then (False, since) else neutral_gate_update (pads_neutral pads) now since)"

section \<open>The dialogue\<close>

datatype save_mark = Idle | Saved | SaveError

record exit_view =
  ev_open :: bool
  ev_mark :: save_mark
  ev_hasDraft :: bool
  ev_saving :: bool

text \<open>
  The operation in flight: a request waits for the checkpoint, then for the pause; a cancel for neutral gamepads,
  then for the game to resume; a save for its answer; a confirmation for the native save, its capture, and the
  departure. Runtimes are numbered.
\<close>

datatype exit_op =
    Waiting nat
  | Pausing nat
  | Neutral
  | Resuming
  | Saving nat
  | NativeWait nat bool
  | NativeSave nat
  | Leaving

datatype exit_call = Pause nat | Resume nat | Retry nat | Capture nat | Leave | Report | FocusGame

record exit_state =
  xs_open :: bool
  xs_busy :: bool
  xs_mark :: save_mark
  xs_paused :: bool
  xs_pending :: bool
  xs_wait :: "bool option"
  xs_runtime :: "nat option"
  xs_op :: "exit_op option"
  xs_calls :: "exit_call list"

definition exit_initial :: exit_state where
  "exit_initial = \<lparr>xs_open = False, xs_busy = False, xs_mark = Idle, xs_paused = False, xs_pending = False,
     xs_wait = None, xs_runtime = None, xs_op = None, xs_calls = []\<rparr>"

definition add_call :: "exit_call \<Rightarrow> exit_state \<Rightarrow> exit_state" where
  "add_call c s = s\<lparr>xs_calls := xs_calls s @ [c]\<rparr>"

definition settle_op :: "exit_state \<Rightarrow> exit_state" where
  "settle_op s = s\<lparr>xs_pending := False, xs_busy := False, xs_op := None\<rparr>"

definition settle_wait :: "exit_state \<Rightarrow> exit_state" where
  "settle_wait s = (settle_op s)\<lparr>xs_wait := None\<rparr>"

definition start_op :: "exit_op \<Rightarrow> exit_state \<Rightarrow> exit_state" where
  "start_op op s = s\<lparr>xs_pending := True, xs_busy := True, xs_op := Some op\<rparr>"

definition open_dialog :: "exit_state \<Rightarrow> exit_state" where
  "open_dialog s = settle_wait (s\<lparr>xs_mark := Idle, xs_open := True\<rparr>)"

definition exit_request :: "exit_view \<Rightarrow> exit_state \<Rightarrow> exit_state" where
  "exit_request v s =
     (if ev_open v \<or> xs_pending s then s
      else case xs_runtime s of
        None \<Rightarrow> open_dialog (s\<lparr>xs_paused := False\<rparr>)
      | Some i \<Rightarrow> start_op (Waiting i) (s\<lparr>xs_wait := Some False\<rparr>))"

definition close_dialog :: "bool \<Rightarrow> exit_state \<Rightarrow> exit_state" where
  "close_dialog immersive s =
     (let s' = settle_op (s\<lparr>xs_open := False\<rparr>) in if immersive then add_call FocusGame s' else s')"

definition exit_cancel :: "bool \<Rightarrow> exit_view \<Rightarrow> exit_state \<Rightarrow> exit_state" where
  "exit_cancel immersive v s =
     (if xs_pending s \<or> ev_saving v then s
      else if immersive then start_op Neutral s else close_dialog False s)"

definition exit_save :: "exit_view \<Rightarrow> exit_state \<Rightarrow> exit_state" where
  "exit_save v s =
     (case xs_runtime s of
        None \<Rightarrow> s
      | Some i \<Rightarrow>
          if xs_pending s \<or> ev_saving v then s
          else start_op (Saving i) (add_call (if ev_hasDraft v then Retry i else Capture i) s))"

definition leave_now :: "exit_state \<Rightarrow> exit_state" where
  "leave_now s = start_op Leaving (add_call Leave s)"

definition exit_confirm :: "bool \<Rightarrow> exit_view \<Rightarrow> exit_state \<Rightarrow> exit_state" where
  "exit_confirm native v s =
     (if xs_pending s \<or> ev_saving v then s
      else
        (let s' = s\<lparr>xs_wait := Some False\<rparr> in
         case xs_runtime s of
           Some i \<Rightarrow>
             if native \<and> ev_mark v \<noteq> SaveError then start_op (NativeWait i (ev_hasDraft v)) s' else leave_now s'
         | None \<Rightarrow> leave_now s'))"

definition exit_dismiss :: "exit_view \<Rightarrow> exit_state \<Rightarrow> exit_state" where
  "exit_dismiss v s = (if xs_pending s \<or> ev_saving v then s else s\<lparr>xs_open := False, xs_mark := Idle\<rparr>)"

text \<open>
  What an \<open>await\<close> answers: the runtime observed after it, that it is over or threw, the outcome of a save, or the
  availability of a native save.
\<close>

datatype exit_answer = Observed RuntimeStateV1 bool | Done | Throws | SaveAnswer bool | Available bool

definition confirm_fails :: "bool \<Rightarrow> exit_state \<Rightarrow> exit_state" where
  "confirm_fails native s =
     settle_wait
       (if xs_wait s = Some True then s
        else add_call Report (if native then s\<lparr>xs_mark := SaveError\<rparr> else s))"

definition exit_answered :: "bool \<Rightarrow> bool \<Rightarrow> exit_op \<Rightarrow> exit_answer \<Rightarrow> exit_state \<Rightarrow> exit_state" where
  "exit_answered native immersive op a s =
     (case op of
        Waiting i \<Rightarrow>
          (case a of
             Observed st can \<Rightarrow>
               if xs_wait s = Some True \<or> xs_runtime s \<noteq> Some i then settle_wait s
               else if st = RUNNING \<and> can then start_op (Pausing i) (add_call (Pause i) (s\<lparr>xs_paused := True\<rparr>))
               else open_dialog (s\<lparr>xs_paused := False\<rparr>)
           | Throws \<Rightarrow> settle_wait (add_call Report s)
           | _ \<Rightarrow> s)
      | Pausing i \<Rightarrow>
          (case a of Done \<Rightarrow> open_dialog s | Throws \<Rightarrow> settle_wait (add_call Report s) | _ \<Rightarrow> s)
      | Neutral \<Rightarrow>
          (case a of
             Observed st can \<Rightarrow>
               (case xs_runtime s of
                  Some i \<Rightarrow>
                    if xs_paused s \<and> st = PAUSED then start_op Resuming (add_call (Resume i) s) else close_dialog immersive s
                | None \<Rightarrow> close_dialog immersive s)
           | Throws \<Rightarrow> settle_op (add_call Report s)
           | _ \<Rightarrow> s)
      | Resuming \<Rightarrow>
          (case a of Done \<Rightarrow> close_dialog immersive s | Throws \<Rightarrow> settle_op (add_call Report s) | _ \<Rightarrow> s)
      | Saving i \<Rightarrow>
          (case a of
             SaveAnswer ok \<Rightarrow> settle_op (s\<lparr>xs_mark := if ok then Saved else SaveError\<rparr>)
           | Throws \<Rightarrow> settle_op s
           | _ \<Rightarrow> s)
      | NativeWait i hasDraft \<Rightarrow>
          (case a of
             Available av \<Rightarrow>
               if xs_wait s = Some True \<or> xs_runtime s \<noteq> Some i then settle_wait s
               else if hasDraft \<or> av
               then start_op (NativeSave i) (add_call (if hasDraft then Retry i else Capture i) s)
               else leave_now s
           | Throws \<Rightarrow> confirm_fails native s
           | _ \<Rightarrow> s)
      | NativeSave i \<Rightarrow>
          (case a of
             SaveAnswer ok \<Rightarrow> if ok then leave_now s else settle_wait (s\<lparr>xs_mark := SaveError\<rparr>)
           | Throws \<Rightarrow> confirm_fails native s
           | _ \<Rightarrow> s)
      | Leaving \<Rightarrow>
          (case a of Done \<Rightarrow> settle_wait s | Throws \<Rightarrow> confirm_fails native s | _ \<Rightarrow> s))"

datatype exit_event =
    AskRequest exit_view
  | AskCancel exit_view
  | AskSave exit_view
  | AskConfirm exit_view
  | AskDismiss exit_view
  | Answer exit_answer
  | RuntimeIs "nat option"
  | Unmount

definition exit_step :: "bool \<Rightarrow> bool \<Rightarrow> exit_event \<Rightarrow> exit_state \<Rightarrow> exit_state" where
  "exit_step native immersive e s =
     (case e of
        AskRequest v \<Rightarrow> exit_request v s
      | AskCancel v \<Rightarrow> exit_cancel immersive v s
      | AskSave v \<Rightarrow> exit_save v s
      | AskConfirm v \<Rightarrow> exit_confirm native v s
      | AskDismiss v \<Rightarrow> exit_dismiss v s
      | Answer a \<Rightarrow> (case xs_op s of Some op \<Rightarrow> exit_answered native immersive op a s | None \<Rightarrow> s)
      | RuntimeIs r \<Rightarrow> s\<lparr>xs_runtime := r\<rparr>
      | Unmount \<Rightarrow> s\<lparr>xs_wait := map_option (\<lambda>a. True) (xs_wait s)\<rparr>)"

definition exit_run :: "bool \<Rightarrow> bool \<Rightarrow> exit_event list \<Rightarrow> exit_state" where
  "exit_run native immersive es = foldl (\<lambda>s e. exit_step native immersive e s) exit_initial es"

section \<open>The wait for a checkpoint\<close>

lemma cw_settled: "cw_resolved w \<Longrightarrow> \<not> cw_subscribed w \<Longrightarrow> \<not> cw_listening w \<Longrightarrow> fold cw_step es w = w"
  by (induction es) (auto simp: cw_step_def split: wait_event.split)

lemma cw_open: "cw_subscribed w \<Longrightarrow> cw_listening w \<Longrightarrow> \<not> cw_resolved w \<Longrightarrow>
   fold cw_step es w = (if list_ex wait_event_ends es then cw_finish w else w)"
proof (induction es arbitrary: w)
  case (Cons e es)
  have fin: "fold cw_step es (cw_finish w) = cw_finish w" by (rule cw_settled) (simp_all add: cw_finish_def)
  show ?case
  proof (cases "wait_event_ends e")
    case True
    then have "cw_step e w = cw_finish w"
      using Cons.prems by (auto simp: wait_event_ends_def cw_step_def split: wait_event.splits)
    then show ?thesis using True fin by simp
  next
    case False
    then have "cw_step e w = w" by (auto simp: wait_event_ends_def cw_step_def split: wait_event.splits)
    then show ?thesis using False Cons by simp
  qed
qed simp

text \<open>
  The wait for a checkpoint ends exactly when it should, even if the runtime reports while it is being subscribed
  to: no checkpoint runs, a report ends it, the request is aborted, or the state has changed meanwhile; and once
  it has ended, neither the subscription nor the abort listener is left.
\<close>

theorem checkpoint_wait_clean:
  "fold cw_step es (waitForCheckpoint st replay aborted st_after) =
     (if list_all id [st = CHECKPOINTING, \<not> list_ex note_ends replay, \<not> aborted, st_after = CHECKPOINTING,
        \<not> list_ex wait_event_ends es]
      then \<lparr>cw_subscribed = True, cw_listening = True, cw_resolved = False\<rparr>
      else \<lparr>cw_subscribed = False, cw_listening = False, cw_resolved = True\<rparr>)"
proof -
  let ?u = "\<lparr>cw_subscribed = True, cw_listening = True, cw_resolved = False\<rparr>"
  let ?d = "\<lparr>cw_subscribed = False, cw_listening = False, cw_resolved = True\<rparr>"
  have "waitForCheckpoint st replay aborted st_after =
      (if st = CHECKPOINTING \<and> \<not> list_ex note_ends replay \<and> \<not> aborted \<and> st_after = CHECKPOINTING then ?u else ?d)"
    by (simp add: waitForCheckpoint_def Let_def cw_finish_def)
  moreover have "fold cw_step es ?d = ?d" by (rule cw_settled) simp_all
  moreover have "fold cw_step es ?u = (if list_ex wait_event_ends es then ?d else ?u)"
    by (simp add: cw_open cw_finish_def)
  ultimately show ?thesis by auto
qed

section \<open>The dialogue\<close>

lemmas exit_defs = exit_step_def exit_request_def exit_cancel_def exit_save_def exit_confirm_def exit_dismiss_def
  exit_answered_def confirm_fails_def leave_now_def close_dialog_def open_dialog_def start_op_def settle_op_def settle_wait_def
  add_call_def Let_def

definition with_signal :: "exit_op \<Rightarrow> bool" where
  "with_signal op = (case op of Neutral \<Rightarrow> False | Resuming \<Rightarrow> False | Saving i \<Rightarrow> False | _ \<Rightarrow> True)"

text \<open>What the last call to the outside is while an operation waits for its answer.\<close>

definition called_for :: "exit_op \<Rightarrow> exit_call list \<Rightarrow> bool" where
  "called_for op calls =
     (case op of
        NativeSave i \<Rightarrow> \<exists>cs. calls = cs @ [Retry i] \<or> calls = cs @ [Capture i]
      | Leaving \<Rightarrow> \<exists>cs. calls = cs @ [Leave]
      | _ \<Rightarrow> True)"

definition exit_ok :: "exit_state \<Rightarrow> bool" where
  "exit_ok s \<longleftrightarrow> xs_busy s = xs_pending s \<and>
     (case xs_op s of
        None \<Rightarrow> \<not> xs_pending s \<and> xs_wait s = None
      | Some op \<Rightarrow> xs_pending s \<and> (xs_wait s \<noteq> None) = with_signal op \<and> called_for op (xs_calls s))"

lemma exit_ok_initial: "exit_ok exit_initial"
  by (simp add: exit_ok_def exit_initial_def)

lemma exit_ok_answered:
  assumes "exit_ok s" "xs_op s = Some op"
  shows "exit_ok (exit_answered native immersive op a s)"
  using assms
  by (cases op; cases a)
    (auto simp: exit_ok_def exit_defs with_signal_def called_for_def split: option.splits)

lemma exit_ok_step: "exit_ok s \<Longrightarrow> exit_ok (exit_step native immersive e s)"
proof (cases e)
  case (Answer a)
  assume "exit_ok s"
  with Answer show ?thesis by (cases "xs_op s") (auto simp: exit_step_def exit_ok_answered)
qed (auto simp: exit_ok_def exit_defs with_signal_def called_for_def split: option.splits)

lemma exit_ok_run: "exit_ok (exit_run native immersive es)"
  unfolding exit_run_def by (induction es rule: rev_induct) (simp_all add: exit_ok_initial exit_ok_step)

definition leaves :: "exit_state \<Rightarrow> exit_state \<Rightarrow> bool" where
  "leaves s t \<longleftrightarrow> count_list (xs_calls s) Leave < count_list (xs_calls t) Leave"

text \<open>
  The cases in which the game may be left: the confirmation of a game without native saves, without a runtime, or
  after a failed save was shown (the second choice); nothing to save; or the native save that the confirmation
  itself started has succeeded.
\<close>

definition may_leave :: "bool \<Rightarrow> exit_event \<Rightarrow> exit_state \<Rightarrow> bool" where
  "may_leave native e s \<longleftrightarrow>
     (case (e, xs_op s) of
        (AskConfirm v, None) \<Rightarrow> \<not> ev_saving v \<and> (\<not> native \<or> xs_runtime s = None \<or> ev_mark v = SaveError)
      | (Answer (Available av), Some (NativeWait i hasDraft)) \<Rightarrow>
          \<not> av \<and> \<not> hasDraft \<and> xs_runtime s = Some i \<and> xs_wait s = Some False
      | (Answer (SaveAnswer ok), Some (NativeSave i)) \<Rightarrow>
          ok \<and> (\<exists>cs. xs_calls s = cs @ [Retry i] \<or> xs_calls s = cs @ [Capture i])
      | _ \<Rightarrow> False)"

lemma leave_step: "exit_ok s \<Longrightarrow> leaves s (exit_step native immersive e s) \<Longrightarrow> may_leave native e s"
proof (cases e)
  case (Answer a)
  assume ok: "exit_ok s" and l: "leaves s (exit_step native immersive e s)"
  then obtain op where op: "xs_op s = Some op" using Answer by (cases "xs_op s") (auto simp: exit_step_def leaves_def)
  from ok l Answer op show ?thesis
    by (cases op; cases a)
      (auto simp: exit_defs leaves_def may_leave_def exit_ok_def called_for_def with_signal_def split: option.splits if_splits)
qed (auto simp: exit_defs leaves_def may_leave_def exit_ok_def split: option.splits if_splits)


definition demo_view :: exit_view where
  "demo_view = \<lparr>ev_open = True, ev_mark = Idle, ev_hasDraft = False, ev_saving = False\<rparr>"


definition op_rank :: "exit_op option \<Rightarrow> nat" where
  "op_rank op =
     (case op of
        None \<Rightarrow> 0
      | Some (NativeWait i d) \<Rightarrow> 3
      | Some (Waiting i) \<Rightarrow> 2 | Some (NativeSave i) \<Rightarrow> 2 | Some Neutral \<Rightarrow> 2
      | Some _ \<Rightarrow> 1)"

definition fits :: "exit_op option \<Rightarrow> exit_answer \<Rightarrow> bool" where
  "fits op a =
     (case (op, a) of
        (None, _) \<Rightarrow> False
      | (Some _, Throws) \<Rightarrow> True
      | (Some (Waiting i), Observed st can) \<Rightarrow> True
      | (Some Neutral, Observed st can) \<Rightarrow> True
      | (Some (Pausing i), Done) \<Rightarrow> True
      | (Some Resuming, Done) \<Rightarrow> True
      | (Some Leaving, Done) \<Rightarrow> True
      | (Some (Saving i), SaveAnswer ok) \<Rightarrow> True
      | (Some (NativeSave i), SaveAnswer ok) \<Rightarrow> True
      | (Some (NativeWait i d), Available av) \<Rightarrow> True
      | _ \<Rightarrow> False)"

text \<open>
  Every operation of the dialogue ends: an answer that fits what it waits for brings it strictly closer to its end,
  and a failure always fits, so at most three answers free the dialogue.
\<close>

theorem exit_answers_end:
  assumes "fits (xs_op s) a"
  shows "op_rank (xs_op (exit_step native immersive (Answer a) s)) < op_rank (xs_op s) \<and> op_rank (xs_op s) \<le> 3"
proof -
  from assms obtain op where op: "xs_op s = Some op" by (cases "xs_op s") (auto simp: fits_def)
  with assms show ?thesis
    by (cases op; cases a) (auto simp: exit_defs fits_def op_rank_def split: option.splits)
qed

theorem exit_answers_end_witness:
  "op_rank (xs_op (exit_step True False (Answer Throws) (exit_run True False [RuntimeIs (Some 1), AskConfirm demo_view]))) < 3"
proof -
  have "xs_op (exit_run True False [RuntimeIs (Some 1), AskConfirm demo_view]) = Some (NativeWait 1 False)"
    by (simp add: exit_run_def exit_initial_def exit_defs demo_view_def)
  then have "fits (xs_op (exit_run True False [RuntimeIs (Some 1), AskConfirm demo_view])) Throws" by (simp add: fits_def)
  from exit_answers_end [OF this, of True False] show ?thesis by linarith
qed

end
