(* ===== verification/Player_Session.thy ===== *)
theory Player_Session
  imports Runtime_Lifecycle Site_Paths
begin

text \<open>
  The life of a runtime on the player page: the effect of \<open>web/features/player/use-player-session.ts\<close> with its
  asynchronous \<open>start\<close> cut at the \<open>await\<close>s, and \<open>leave\<close> of \<open>player-shell.tsx\<close>. Every run of the effect is an
  attempt; attempts outlive their cleanup, so all of them are kept. What the page shows of the start (labels and
  tasks) belongs to the startup timeline and is left out here.
\<close>

section \<open>State\<close>

datatype start_phase = Hashing | LoadingProvider | Mounting | Posting | Exiting | Over

text \<open>
  One run of the effect: its inputs (the identity of the run, the restore, the user and the loading mode), where
  \<open>start\<close> waits, whether \<open>instance\<close> is set, its abort signal, \<open>started\<close> and \<open>fatalReceived\<close>, its subscription,
  whether its cleanup ran, and the calls of the runtime's \<open>exit\<close> and of the disposal.
\<close>

record start_attempt =
  at_inputs :: nat
  at_phase :: start_phase
  at_instance :: bool
  at_aborted :: bool
  at_started :: bool
  at_fatal :: bool
  at_subscribed :: bool
  at_cleaned :: bool
  at_exits :: nat
  at_disposing :: bool

definition new_attempt :: "nat \<Rightarrow> start_phase \<Rightarrow> start_attempt" where
  "new_attempt inputs p =
     \<lparr>at_inputs = inputs, at_phase = p, at_instance = False, at_aborted = False, at_started = False, at_fatal = False,
      at_subscribed = False, at_cleaned = False, at_exits = 0, at_disposing = False\<rparr>"

text \<open>The refs and the state of the page; an error is known by the attempt that reported it.\<close>

record player_session =
  pl_attempts :: "start_attempt list"
  pl_current :: "nat option"
  pl_runtime :: "nat option"
  pl_state :: RuntimeStateV1
  pl_error :: "nat option"
  pl_available :: bool
  pl_network :: bool
  pl_completed :: "nat option"
  pl_allowed :: bool
  pl_deps :: "(nat \<times> bool) option"
  pl_paused :: "nat list"
  pl_changes :: "nat list"
  pl_exitRequests :: "nat list"

definition player_initial :: player_session where
  "player_initial = \<lparr>pl_attempts = [], pl_current = None, pl_runtime = None, pl_state = CREATED, pl_error = None,
     pl_available = False, pl_network = False, pl_completed = None, pl_allowed = False, pl_deps = None, pl_paused = [],
     pl_changes = [], pl_exitRequests = []\<rparr>"

definition upd :: "nat \<Rightarrow> start_attempt \<Rightarrow> player_session \<Rightarrow> player_session" where
  "upd i a s = s\<lparr>pl_attempts := (pl_attempts s)[i := a]\<rparr>"

section \<open>Events of the runtime\<close>

datatype runtime_event =
    EvState RuntimeStateV1
  | EvFatal
  | EvExitRequested
  | EvAvailability bool bool
  | EvNetwork bool
  | EvOther

definition receive_event :: "nat \<Rightarrow> start_attempt \<Rightarrow> runtime_event \<Rightarrow> player_session \<Rightarrow> player_session" where
  "receive_event i a e s =
     (if at_aborted a then s
      else case e of
        EvState st \<Rightarrow>
          if st = RUNNING \<and> \<not> pl_allowed s then (if at_instance a then s\<lparr>pl_paused := pl_paused s @ [i]\<rparr> else s)
          else s\<lparr>pl_state := st\<rparr>
      | EvFatal \<Rightarrow> (upd i (a\<lparr>at_fatal := True\<rparr>) s)\<lparr>pl_network := False, pl_error := Some i\<rparr>
      | EvExitRequested \<Rightarrow> s\<lparr>pl_exitRequests := pl_exitRequests s @ [i]\<rparr>
      | EvAvailability av revised \<Rightarrow>
          (if at_instance a \<and> av \<and> revised then s\<lparr>pl_available := av, pl_changes := pl_changes s @ [i]\<rparr>
           else s\<lparr>pl_available := av\<rparr>)
      | EvNetwork waiting \<Rightarrow> s\<lparr>pl_network := waiting\<rparr>
      | EvOther \<Rightarrow> s)"

section \<open>Starting\<close>

text \<open>The \<open>catch\<close> of \<open>start\<close>.\<close>

definition start_fails :: "nat \<Rightarrow> start_attempt \<Rightarrow> player_session \<Rightarrow> player_session" where
  "start_fails i a s =
     (let s' = upd i (a\<lparr>at_phase := Over\<rparr>) s in
      if \<not> at_aborted a \<and> \<not> at_fatal a then s'\<lparr>pl_error := Some i\<rparr> else s')"

definition canStart :: "player_session \<Rightarrow> nat \<Rightarrow> bool" where
  "canStart s inputs \<longleftrightarrow> pl_allowed s \<or> pl_completed s = Some inputs"

text \<open>The run of the effect up to the first \<open>await\<close> of \<open>start\<close>; \<open>valid\<close> says whether the envelope passes its boundary.\<close>

definition begin_attempt :: "nat \<Rightarrow> bool \<Rightarrow> bool \<Rightarrow> player_session \<Rightarrow> player_session" where
  "begin_attempt inputs valid has_restore s =
     (let i = length (pl_attempts s);
          a = new_attempt inputs (if has_restore then Hashing else LoadingProvider);
          s' = s\<lparr>pl_attempts := pl_attempts s @ [a], pl_current := Some i, pl_state := MOUNTING, pl_error := None\<rparr> in
      if valid then s' else start_fails i a s')"

text \<open>The answers \<open>start\<close> waits for: the hash, the provider's runtime, its mount, the server, and \<open>exit\<close>.\<close>

definition hashed :: "nat \<Rightarrow> start_attempt \<Rightarrow> bool \<Rightarrow> player_session \<Rightarrow> player_session" where
  "hashed i a ok s =
     (if ok then upd i (a\<lparr>at_phase := LoadingProvider\<rparr>) s else start_fails i a s)"

definition loaded :: "nat \<Rightarrow> start_attempt \<Rightarrow> bool \<Rightarrow> bool \<Rightarrow> player_session \<Rightarrow> player_session" where
  "loaded i a ok has_mount s =
     (if \<not> ok then start_fails i a s
      else if at_aborted a \<or> \<not> pl_allowed s
      then upd i (a\<lparr>at_instance := True, at_exits := Suc (at_exits a), at_phase := Exiting\<rparr>) s
      else
        (let s' = s\<lparr>pl_runtime := Some i\<rparr>; a' = a\<lparr>at_instance := True, at_subscribed := True\<rparr> in
         if has_mount then upd i (a'\<lparr>at_phase := Mounting\<rparr>) s' else start_fails i a' s'))"

definition mounted :: "nat \<Rightarrow> start_attempt \<Rightarrow> bool \<Rightarrow> RuntimeStateV1 \<Rightarrow> bool \<Rightarrow> player_session \<Rightarrow> player_session" where
  "mounted i a ok st av s =
     (if \<not> ok then start_fails i a s
      else if at_aborted a \<or> \<not> pl_allowed s
      then upd i (a\<lparr>at_aborted := True, at_exits := Suc (at_exits a), at_phase := Exiting\<rparr>) s
      else (upd i (a\<lparr>at_started := True, at_phase := Posting\<rparr>) s)
        \<lparr>pl_completed := Some (at_inputs a), pl_state := st, pl_available := av\<rparr>)"

definition ended :: "nat \<Rightarrow> start_attempt \<Rightarrow> bool \<Rightarrow> player_session \<Rightarrow> player_session" where
  "ended i a ok s = (if ok then upd i (a\<lparr>at_phase := Over\<rparr>) s else start_fails i a s)"

section \<open>Cleaning up\<close>

definition live_state :: "RuntimeStateV1 \<Rightarrow> bool" where
  "live_state st \<longleftrightarrow> st = RUNNING \<or> st = PAUSED \<or> st = CHECKPOINTING"

definition cleanup :: "RuntimeStateV1 \<Rightarrow> player_session \<Rightarrow> player_session" where
  "cleanup st s =
     (case pl_current s of
        None \<Rightarrow> s
      | Some i \<Rightarrow>
          (let a = (pl_attempts s ! i)\<lparr>at_subscribed := False, at_cleaned := True\<rparr>;
               s' = s\<lparr>pl_runtime := None, pl_network := False, pl_current := None\<rparr> in
           if \<not> at_instance a then upd i (a\<lparr>at_aborted := True\<rparr>) s'
           else if \<not> (at_started a \<and> live_state st)
           then upd i (a\<lparr>at_aborted := True, at_exits := Suc (at_exits a)\<rparr>) s'
           else upd i (a\<lparr>at_disposing := True\<rparr>) s'))"

text \<open>
  The disposal ends (it always exits the runtime: \<open>dispose_always_exits\<close> of \<open>Runtime_Lifecycle\<close>), and its \<open>finally\<close>
  aborts the attempt.
\<close>

definition disposed :: "nat \<Rightarrow> start_attempt \<Rightarrow> player_session \<Rightarrow> player_session" where
  "disposed i a s =
     upd i (a\<lparr>at_disposing := False, at_exits := Suc (at_exits a), at_aborted := True\<rparr>) s"

datatype player_event =
    Render bool nat bool bool RuntimeStateV1
  | Unmounts RuntimeStateV1
  | Hashed nat bool
  | Loaded nat bool bool
  | Mounted nat bool RuntimeStateV1 bool
  | Posted nat bool
  | ExitDone nat bool
  | Disposed nat
  | Emits nat runtime_event

text \<open>
  A render runs the effect again when one of its inputs or \<open>canStart\<close> has changed; \<open>st\<close> is the state its runtime
  reports to the cleanup.
\<close>

definition render :: "bool \<Rightarrow> nat \<Rightarrow> bool \<Rightarrow> bool \<Rightarrow> RuntimeStateV1 \<Rightarrow> player_session \<Rightarrow> player_session" where
  "render allowed inputs valid has_restore st s =
     (let s1 = s\<lparr>pl_allowed := allowed\<rparr>; can = canStart s1 inputs in
      if pl_deps s = Some (inputs, can) then s1
      else
        (let s2 = (cleanup st s1)\<lparr>pl_deps := Some (inputs, can)\<rparr> in
         if can then begin_attempt inputs valid has_restore s2 else s2))"

definition on_attempt :: "nat \<Rightarrow> (start_attempt \<Rightarrow> bool) \<Rightarrow> (start_attempt \<Rightarrow> player_session \<Rightarrow> player_session) \<Rightarrow> player_session \<Rightarrow> player_session" where
  "on_attempt i P f s =
     (case item_at (pl_attempts s) i of Some a \<Rightarrow> if P a then f a s else s | None \<Rightarrow> s)"

definition player_step :: "player_event \<Rightarrow> player_session \<Rightarrow> player_session" where
  "player_step e s =
     (case e of
        Render allowed inputs valid has_restore st \<Rightarrow> render allowed inputs valid has_restore st s
      | Unmounts st \<Rightarrow> (cleanup st s)\<lparr>pl_deps := None\<rparr>
      | Hashed i ok \<Rightarrow> on_attempt i (\<lambda>a. at_phase a = Hashing) (\<lambda>a. hashed i a ok) s
      | Loaded i ok has_mount \<Rightarrow> on_attempt i (\<lambda>a. at_phase a = LoadingProvider) (\<lambda>a. loaded i a ok has_mount) s
      | Mounted i ok st av \<Rightarrow> on_attempt i (\<lambda>a. at_phase a = Mounting) (\<lambda>a. mounted i a ok st av) s
      | Posted i ok \<Rightarrow> on_attempt i (\<lambda>a. at_phase a = Posting) (\<lambda>a. ended i a ok) s
      | ExitDone i ok \<Rightarrow> on_attempt i (\<lambda>a. at_phase a = Exiting) (\<lambda>a. ended i a ok) s
      | Disposed i \<Rightarrow> on_attempt i at_disposing (\<lambda>a. disposed i a) s
      | Emits i ev \<Rightarrow> on_attempt i at_subscribed (\<lambda>a. receive_event i a ev) s)"

definition player_run :: "player_event list \<Rightarrow> player_session" where
  "player_run es = foldl (\<lambda>s e. player_step e s) player_initial es"

section \<open>Leaving the page\<close>

datatype leave_call = StopPresentation | ExitRuntime | RestorePresentation | DeleteRun | MarkReturn | Navigate jsstr

text \<open>
  \<open>leave\<close>: \<open>runtime\<close> says whether there is one and what its \<open>exit\<close> answers, the next flags what the restored
  presentation and the server answer.
\<close>

definition leave :: "bool option \<Rightarrow> bool \<Rightarrow> bool \<Rightarrow> bool \<Rightarrow> bool \<Rightarrow> jsstr \<Rightarrow> bool \<times> leave_call list" where
  "leave runtime restore_ok hasDraft delete_ok immersive returnTo =
     (let stopped = [StopPresentation] @ (if runtime = None then [] else [ExitRuntime]) @ [RestorePresentation];
          deleted = stopped @ (if hasDraft then [] else [DeleteRun]) in
      if runtime = Some False \<or> \<not> restore_ok then (False, stopped)
      else if \<not> hasDraft \<and> \<not> delete_ok then (False, deleted)
      else (True, deleted @ (if immersive then [MarkReturn] else []) @ [Navigate (leave_target returnTo)]))"

section \<open>No runtime is left running\<close>

text \<open>What holds of an attempt, by whether it is the current one and whether the page's ref shows it.\<close>

definition attempt_ok :: "bool \<Rightarrow> bool \<Rightarrow> start_attempt \<Rightarrow> bool" where
  "attempt_ok current shown a \<longleftrightarrow>
     (at_cleaned a \<longleftrightarrow> \<not> current) \<and> (shown \<longrightarrow> current \<and> at_instance a) \<and> (at_subscribed a \<longrightarrow> current \<and> at_instance a) \<and>
     (at_phase a \<in> {Hashing, LoadingProvider} \<longrightarrow> \<not> at_instance a) \<and> (at_instance a \<longrightarrow> shown \<or> 0 < at_exits a \<or> at_disposing a) \<and>
     (at_cleaned a \<and> (at_phase a \<in> {Hashing, LoadingProvider, Mounting} \<or> \<not> at_instance a) \<longrightarrow> at_aborted a) \<and>
     (at_phase a = Mounting \<longrightarrow> at_instance a \<and> \<not> at_started a) \<and> (at_phase a \<in> {Hashing, LoadingProvider} \<longrightarrow> \<not> at_started a) \<and>
     (at_disposing a \<longrightarrow> at_cleaned a \<and> at_instance a)"

definition player_ok :: "player_session \<Rightarrow> bool" where
  "player_ok s \<longleftrightarrow>
     (\<forall>i < length (pl_attempts s). attempt_ok (pl_current s = Some i) (pl_runtime s = Some i) (pl_attempts s ! i)) \<and>
     (\<forall>i. pl_current s = Some i \<or> pl_runtime s = Some i \<longrightarrow> i < length (pl_attempts s))"

lemma player_ok_initial: "player_ok player_initial"
  by (simp add: player_ok_def player_initial_def)

lemma player_okD:
  assumes "player_ok s"
  shows "i < length (pl_attempts s) \<Longrightarrow> attempt_ok (pl_current s = Some i) (pl_runtime s = Some i) (pl_attempts s ! i)"
    and "pl_current s = Some i \<Longrightarrow> i < length (pl_attempts s)" "pl_runtime s = Some i \<Longrightarrow> i < length (pl_attempts s)"
  using assms unfolding player_ok_def by blast+

lemma ok_upd:
  assumes "player_ok s" "pl_current t = pl_current s" "pl_runtime t = pl_runtime s" "pl_attempts t = (pl_attempts s)[i := a]"
    and "i < length (pl_attempts s) \<Longrightarrow> attempt_ok (pl_current s = Some i) (pl_runtime s = Some i) a"
  shows "player_ok t"
proof -
  have "attempt_ok (pl_current s = Some k) (pl_runtime s = Some k) ((pl_attempts s)[i := a] ! k)"
    if "k < length (pl_attempts s)" for k
    using player_okD(1) [OF assms(1) that] assms(5) that by (cases "k = i") simp_all
  then show ?thesis using assms(1-4) by (simp add: player_ok_def)
qed

lemma shown_current: "attempt_ok c True a \<Longrightarrow> c"
  by (simp add: attempt_ok_def)

lemma runtime_current:
  assumes "player_ok s" "pl_runtime s = Some i"
  shows "pl_current s = Some i"
  by (rule shown_current) (use player_okD(1) [OF assms(1) player_okD(3) [OF assms]] assms(2) in simp)

lemma others_ok:
  assumes "player_ok s" "k < length (pl_attempts s)" "pl_current s \<noteq> Some k"
  shows "attempt_ok False False (pl_attempts s ! k)"
proof -
  have "pl_runtime s \<noteq> Some k" using assms runtime_current by blast
  moreover have "attempt_ok (pl_current s = Some k) (pl_runtime s = Some k) (pl_attempts s ! k)"
    by (rule player_okD(1)) (use assms in simp_all)
  ultimately show ?thesis using assms(3) by simp
qed

text \<open>A step that changes one attempt and the refs, when no other attempt is current before or after.\<close>

lemma ok_replace:
  assumes "player_ok s" "i < length (pl_attempts s)" "pl_current s = Some i" "pl_attempts t = (pl_attempts s)[i := a]"
    and "attempt_ok (pl_current t = Some i) (pl_runtime t = Some i) a" "pl_current t \<in> {None, Some i}" "pl_runtime t \<in> {None, Some i}"
  shows "player_ok t"
proof -
  have "attempt_ok (pl_current t = Some k) (pl_runtime t = Some k) (pl_attempts t ! k)" if "k < length (pl_attempts s)" for k
  proof (cases "k = i")
    case True
    then show ?thesis using assms(2,4,5) by simp
  next
    case False
    then have "pl_current t \<noteq> Some k" "pl_runtime t \<noteq> Some k" using assms(6,7) by auto
    then show ?thesis using others_ok [OF assms(1) that] assms(3,4) False by simp
  qed
  then show ?thesis using assms(2,4,6,7) by (auto simp: player_ok_def)
qed

lemma ok_kept:
  "player_ok s \<Longrightarrow> pl_current t = pl_current s \<Longrightarrow> pl_runtime t = pl_runtime s \<Longrightarrow> pl_attempts t = pl_attempts s \<Longrightarrow> player_ok t"
  by (simp add: player_ok_def)

lemma fails_fields [simp]:
  "pl_current (start_fails i a s) = pl_current s" "pl_runtime (start_fails i a s) = pl_runtime s"
  "pl_attempts (start_fails i a s) = (pl_attempts s)[i := a\<lparr>at_phase := Over\<rparr>]"
  by (simp_all add: start_fails_def Let_def upd_def)

lemma on_attempt_ok:
  assumes "player_ok s"
    and "\<And>a. i < length (pl_attempts s) \<Longrightarrow> a = pl_attempts s ! i \<Longrightarrow> P a \<Longrightarrow>
      attempt_ok (pl_current s = Some i) (pl_runtime s = Some i) a \<Longrightarrow> player_ok (f a s)"
  shows "player_ok (on_attempt i P f s)"
  using assms by (auto simp: on_attempt_def item_at_def player_ok_def split: option.splits)

lemma hashed_ok:
  assumes "player_ok s" "i < length (pl_attempts s)" "a = pl_attempts s ! i" "at_phase a = Hashing"
    and "attempt_ok (pl_current s = Some i) (pl_runtime s = Some i) a"
  shows "player_ok (hashed i a ok s)"
  by (rule ok_upd [OF assms(1), where i = i and a = "a\<lparr>at_phase := if ok then LoadingProvider else Over\<rparr>"])
    (use assms(3-5) in \<open>auto simp: hashed_def upd_def attempt_ok_def\<close>)

lemma ended_ok:
  assumes "player_ok s" "i < length (pl_attempts s)" "a = pl_attempts s ! i" "at_phase a \<in> {Posting, Exiting}"
    and "attempt_ok (pl_current s = Some i) (pl_runtime s = Some i) a"
  shows "player_ok (ended i a ok s)"
  by (rule ok_upd [OF assms(1), where i = i and a = "a\<lparr>at_phase := Over\<rparr>"])
    (use assms(3-5) in \<open>auto simp: ended_def upd_def attempt_ok_def\<close>)

lemma mounted_ok:
  assumes "player_ok s" "i < length (pl_attempts s)" "a = pl_attempts s ! i" "at_phase a = Mounting"
    and "attempt_ok (pl_current s = Some i) (pl_runtime s = Some i) a"
  shows "player_ok (mounted i a ok st av s)"
proof -
  let ?a = "if \<not> ok then a\<lparr>at_phase := Over\<rparr>
    else if at_aborted a \<or> \<not> pl_allowed s then a\<lparr>at_aborted := True, at_exits := Suc (at_exits a), at_phase := Exiting\<rparr>
    else a\<lparr>at_started := True, at_phase := Posting\<rparr>"
  show ?thesis
    by (rule ok_upd [OF assms(1), where i = i and a = ?a])
      (use assms(3-5) in \<open>auto simp: mounted_def upd_def attempt_ok_def\<close>)
qed

lemma disposed_ok:
  assumes "player_ok s" "i < length (pl_attempts s)" "a = pl_attempts s ! i" "at_disposing a"
    and "attempt_ok (pl_current s = Some i) (pl_runtime s = Some i) a"
  shows "player_ok (disposed i a s)"
  by (rule ok_upd [OF assms(1), where i = i and
        a = "a\<lparr>at_disposing := False, at_exits := Suc (at_exits a), at_aborted := True\<rparr>"])
    (use assms(3-5) in \<open>auto simp: disposed_def upd_def attempt_ok_def\<close>)

lemma receive_ok:
  assumes "player_ok s" "i < length (pl_attempts s)" "a = pl_attempts s ! i"
    and "attempt_ok (pl_current s = Some i) (pl_runtime s = Some i) a"
  shows "player_ok (receive_event i a e s)"
proof -
  have "player_ok ((upd i (a\<lparr>at_fatal := True\<rparr>) s)\<lparr>pl_network := False, pl_error := Some i\<rparr>)"
    by (rule ok_upd [OF assms(1), where i = i and a = "a\<lparr>at_fatal := True\<rparr>"])
      (use assms(3,4) in \<open>auto simp: upd_def attempt_ok_def\<close>)
  then show ?thesis using assms(1)
    by (cases e) (auto simp: receive_event_def intro: ok_kept [OF assms(1)])
qed

lemma loaded_ok:
  assumes "player_ok s" "i < length (pl_attempts s)" "a = pl_attempts s ! i" "at_phase a = LoadingProvider"
    and "attempt_ok (pl_current s = Some i) (pl_runtime s = Some i) a"
  shows "player_ok (loaded i a ok has_mount s)"
proof (cases "ok \<and> \<not> at_aborted a \<and> pl_allowed s")
  case True
  then have c: "pl_current s = Some i" using assms(4,5) by (auto simp: attempt_ok_def)
  let ?a = "a\<lparr>at_instance := True, at_subscribed := True, at_phase := if has_mount then Mounting else Over\<rparr>"
  have "loaded i a ok has_mount s = (if has_mount then upd i ?a (s\<lparr>pl_runtime := Some i\<rparr>)
      else start_fails i (a\<lparr>at_instance := True, at_subscribed := True\<rparr>) (s\<lparr>pl_runtime := Some i\<rparr>))"
    using True by (simp add: loaded_def Let_def)
  then have t: "pl_current (loaded i a ok has_mount s) = Some i" "pl_runtime (loaded i a ok has_mount s) = Some i"
    "pl_attempts (loaded i a ok has_mount s) = (pl_attempts s)[i := ?a]"
    using c by (auto simp: upd_def)
  have "attempt_ok True True ?a" using assms(4,5) c by (auto simp: attempt_ok_def)
  then show ?thesis using ok_replace [OF assms(1,2) c t(3)] t(1,2) by simp
next
  case False
  let ?a = "if \<not> ok then a\<lparr>at_phase := Over\<rparr> else a\<lparr>at_instance := True, at_exits := Suc (at_exits a), at_phase := Exiting\<rparr>"
  show ?thesis
    by (rule ok_upd [OF assms(1), where i = i and a = ?a])
      (use False assms(3-5) in \<open>auto simp: loaded_def upd_def attempt_ok_def\<close>)
qed

lemma cleanup_current: "pl_current (cleanup st s) = None \<or> cleanup st s = s \<and> pl_current s = None"
  by (auto simp: cleanup_def upd_def Let_def split: option.split)

lemma cleanup_ok:
  assumes "player_ok s"
  shows "player_ok (cleanup st s)"
proof (cases "pl_current s")
  case (Some i)
  define b where "b = (pl_attempts s ! i)\<lparr>at_subscribed := False, at_cleaned := True\<rparr>"
  define a where "a = (if \<not> at_instance b then b\<lparr>at_aborted := True\<rparr>
    else if \<not> (at_started b \<and> live_state st) then b\<lparr>at_aborted := True, at_exits := Suc (at_exits b)\<rparr>
    else b\<lparr>at_disposing := True\<rparr>)"
  have i: "i < length (pl_attempts s)" and ai: "attempt_ok True (pl_runtime s = Some i) (pl_attempts s ! i)"
    using player_okD [OF assms, of i] Some by simp_all
  have t: "pl_attempts (cleanup st s) = (pl_attempts s)[i := a]" "pl_current (cleanup st s) = None"
    "pl_runtime (cleanup st s) = None"
    using Some by (simp_all add: cleanup_def Let_def a_def b_def upd_def)
  have "attempt_ok False False a" using ai by (auto simp: attempt_ok_def a_def b_def)
  then show ?thesis using ok_replace [OF assms i Some t(1)] t(2,3) by simp
qed (simp add: cleanup_def assms)

lemma begin_ok:
  assumes "player_ok s" "pl_current s = None"
  shows "player_ok (begin_attempt inputs valid has_restore s)"
proof -
  let ?n = "length (pl_attempts s)"
  define a where "a = new_attempt inputs (if has_restore then Hashing else LoadingProvider)"
  define b where "b = (if valid then a else a\<lparr>at_phase := Over\<rparr>)"
  have t: "pl_attempts (begin_attempt inputs valid has_restore s) = pl_attempts s @ [b]"
    "pl_current (begin_attempt inputs valid has_restore s) = Some ?n"
    "pl_runtime (begin_attempt inputs valid has_restore s) = pl_runtime s"
    by (simp_all add: begin_attempt_def Let_def a_def b_def)
  have r: "pl_runtime s = None" using runtime_current [OF assms(1)] assms(2) by (cases "pl_runtime s") auto
  have "attempt_ok True False b" by (simp add: attempt_ok_def b_def a_def new_attempt_def)
  then have "attempt_ok (Some ?n = Some k) False ((pl_attempts s @ [b]) ! k)" if "k < Suc ?n" for k
    using others_ok [OF assms(1), of k] assms(2) that by (cases "k = ?n") (auto simp: nth_append)
  then show ?thesis using t r by (simp add: player_ok_def)
qed

lemma player_ok_step:
  assumes "player_ok s"
  shows "player_ok (player_step e s)"
proof (cases e)
  case (Render allowed inputs valid has_restore st)
  let ?s = "s\<lparr>pl_allowed := allowed\<rparr>"
  have s1: "player_ok ?s" by (rule ok_kept [OF assms]) simp_all
  have s2: "player_ok ((cleanup st ?s)\<lparr>pl_deps := d\<rparr>)" for d by (rule ok_kept [OF cleanup_ok [OF s1]]) simp_all
  have "pl_current ((cleanup st ?s)\<lparr>pl_deps := d\<rparr>) = None" for d using cleanup_current [of st ?s] by auto
  from begin_ok [OF s2 this] show ?thesis
    using Render s1 s2 by (simp add: player_step_def render_def Let_def)
next
  case (Unmounts st)
  have "player_ok ((cleanup st s)\<lparr>pl_deps := None\<rparr>)" by (rule ok_kept [OF cleanup_ok [OF assms]]) simp_all
  then show ?thesis using Unmounts by (simp add: player_step_def)
next
  case (Hashed i ok)
  then show ?thesis by (auto simp: player_step_def intro!: on_attempt_ok [OF assms] hashed_ok [OF assms])
next
  case (Loaded i ok m)
  then show ?thesis by (auto simp: player_step_def intro!: on_attempt_ok [OF assms] loaded_ok [OF assms])
next
  case (Mounted i ok st av)
  then show ?thesis by (auto simp: player_step_def intro!: on_attempt_ok [OF assms] mounted_ok [OF assms])
next
  case (Posted i ok)
  then show ?thesis by (auto simp: player_step_def intro!: on_attempt_ok [OF assms] ended_ok [OF assms])
next
  case (ExitDone i ok)
  then show ?thesis by (auto simp: player_step_def intro!: on_attempt_ok [OF assms] ended_ok [OF assms])
next
  case (Disposed i)
  then show ?thesis by (auto simp: player_step_def intro!: on_attempt_ok [OF assms] disposed_ok [OF assms])
next
  case (Emits i ev)
  then show ?thesis by (auto simp: player_step_def intro!: on_attempt_ok [OF assms] receive_ok [OF assms])
qed

lemma player_ok_run: "player_ok (player_run es)"
  unfolding player_run_def by (induction es rule: rev_induct) (simp_all add: player_ok_initial player_ok_step)

text \<open>
  An attempt is accounted for when its runtime, if it got one, is the one the page holds, or was told to exit, or
  is being disposed of, and only the runtime the page holds feeds it.
\<close>

definition runtime_accounted :: "player_session \<Rightarrow> nat \<Rightarrow> start_attempt \<Rightarrow> bool" where
  "runtime_accounted s i a \<longleftrightarrow>
     (at_instance a \<longrightarrow> pl_runtime s = Some i \<or> 0 < at_exits a \<or> at_disposing a) \<and>
     (at_subscribed a \<longrightarrow> pl_current s = Some i)"

text \<open>
  C7. No runtime is left running behind the page: in every order of renders, unmounts, loads, mounts, failures, runtime
  events and disposals, each runtime that any attempt obtained is the one the page holds, or was told to exit, or is
  being disposed of (which ends in an exit); only the current attempt feeds the page; and the page holds a runtime
  only of the current attempt.
\<close>

theorem no_runtime_leaks:
  "list_all (\<lambda>i. runtime_accounted (player_run es) i (pl_attempts (player_run es) ! i)) [0..<length (pl_attempts (player_run es))] \<and>
   pl_runtime (player_run es) \<in> {None, pl_current (player_run es)}"
proof -
  let ?s = "player_run es"
  note ok = player_ok_run [of es, unfolded player_ok_def]
  have "runtime_accounted ?s i (pl_attempts ?s ! i)" if "i < length (pl_attempts ?s)" for i
  proof -
    have "attempt_ok (pl_current ?s = Some i) (pl_runtime ?s = Some i) (pl_attempts ?s ! i)" using ok that by blast
    then show ?thesis by (auto simp: attempt_ok_def runtime_accounted_def)
  qed
  moreover have "pl_current ?s = Some i" if "pl_runtime ?s = Some i" for i
  proof -
    have "i < length (pl_attempts ?s)" using ok that by blast
    then have "attempt_ok (pl_current ?s = Some i) (pl_runtime ?s = Some i) (pl_attempts ?s ! i)" using ok by blast
    then show ?thesis using that by (simp add: attempt_ok_def)
  qed
  ultimately show ?thesis by (cases "pl_runtime ?s") (auto simp: list_all_iff)
qed

text \<open>
  A replaced attempt can still report an error over its successor: while its mounted runtime is being disposed of
  its signal is not aborted, so the late failure of its request is shown on the new attempt's page.
\<close>

theorem stale_error_is_shown:
  "let s = player_run [Render True 0 True False CREATED, Loaded 0 True True, Mounted 0 True RUNNING True,
     Render True 1 True True RUNNING, Posted 0 False] in
   pl_current s = Some 1 \<and> pl_error s = Some 0"
  by code_simp

section \<open>Leaving\<close>

definition navigations :: "leave_call list \<Rightarrow> leave_call list" where
  "navigations cs = filter (\<lambda>c. case c of Navigate t \<Rightarrow> True | _ \<Rightarrow> False) cs"

definition leave_clean :: "bool option \<Rightarrow> bool \<Rightarrow> bool \<Rightarrow> jsstr \<Rightarrow> bool \<times> leave_call list \<Rightarrow> bool" where
  "leave_clean runtime hasDraft delete_ok returnTo r =
     (case r of (ok, calls) \<Rightarrow>
        RestorePresentation \<in> set calls \<and>
        (if ok then runtime \<noteq> Some False \<and> (hasDraft \<or> delete_ok) \<and> last calls = Navigate (leave_target returnTo) \<and>
           length (navigations calls) = 1
         else navigations calls = []))"

text \<open>
  Leaving the page always ends the presentation, the browser is sent on only after the runtime has exited and the run
  is deleted (or a draft keeps it), and then only once, as the last call.
\<close>

theorem leave_is_clean:
  "leave_clean runtime hasDraft delete_ok returnTo (leave runtime restore_ok hasDraft delete_ok immersive returnTo)"
  by (cases runtime) (auto simp: leave_def leave_clean_def navigations_def Let_def)

end
