(* ===== verification/Modal_Focus.thy ===== *)
theory Modal_Focus
  imports Prelude
begin

text \<open>
  The focus of dialogues: \<open>web/components/modal-focus.ts\<close>. The document is a parameter with what the code asks of
  it; elements are numbers. A layer is one open dialogue with the refs of its hook. Calling \<open>focus\<close> on an element
  that has the focus raises no event, as in a browser.
\<close>

section \<open>The document\<close>

text \<open>
  For a panel, the \<open>aria-controls\<close> of its expanded controls and its elements that match the focusable selector, in
  document order; elements by id, containment, whether an element is shown (no hidden or inert ancestor, displayed
  and visible), its position, whether it is an \<open>HTMLElement\<close>, an expanded combobox, and still in the document.
\<close>

record dom =
  dom_expanded :: "nat \<Rightarrow> jsstr list"
  dom_by_id :: "jsstr \<Rightarrow> nat option"
  dom_contains :: "nat \<Rightarrow> nat \<Rightarrow> bool"
  dom_matching :: "nat \<Rightarrow> nat list"
  dom_shown :: "nat \<Rightarrow> bool"
  dom_position :: "nat \<Rightarrow> nat"
  dom_html :: "nat \<Rightarrow> bool"
  dom_combobox :: "nat \<Rightarrow> bool"
  dom_connected :: "nat \<Rightarrow> bool"

text \<open>\<open>s.split(/\s+/)\<close>.\<close>

fun split_spaces :: "jsstr \<Rightarrow> jsstr \<Rightarrow> bool \<Rightarrow> jsstr list" where
  "split_spaces buf [] in_space = [buf]"
| "split_spaces buf (c # cs) in_space =
     (if space_unit c then (if in_space then split_spaces buf cs True else buf # split_spaces [] cs True)
      else split_spaces (buf @ [c]) cs False)"

definition ownedPanels :: "dom \<Rightarrow> nat \<Rightarrow> nat list" where
  "ownedPanels d panel =
     panel # filter (\<lambda>e. \<not> dom_contains d panel e)
       (List.map_filter (dom_by_id d) (concat (map (\<lambda>a. split_spaces [] a False) (dom_expanded d panel))))"

definition focusable :: "dom \<Rightarrow> nat \<Rightarrow> nat list" where
  "focusable d panel =
     sort_by (\<lambda>a b. dom_position d a \<le> dom_position d b)
       (filter (dom_shown d) (concat (map (dom_matching d) (ownedPanels d panel))))"

definition in_dialog :: "dom \<Rightarrow> nat \<Rightarrow> nat \<Rightarrow> bool" where
  "in_dialog d panel target \<longleftrightarrow> dom_html d target \<and> list_ex (\<lambda>owner. dom_contains d owner target) (ownedPanels d panel)"

definition childOwnsEscape :: "dom \<Rightarrow> nat \<Rightarrow> nat \<Rightarrow> bool" where
  "childOwnsEscape d panel target \<longleftrightarrow>
     dom_html d target \<and>
     (dom_combobox d target \<or> list_ex (\<lambda>owner. dom_contains d owner target) (tl (ownedPanels d panel)))"

section \<open>State\<close>

record layer =
  ly_node :: nat
  ly_locked :: bool
  ly_initial :: "nat option"
  ly_last :: "nat option"
  ly_previous :: "nat option"

record focus_state =
  fs_layers :: "layer list"
  fs_active :: "nat option"
  fs_cancels :: "nat list"

definition top_layer :: "focus_state \<Rightarrow> layer option" where
  "top_layer s = (if fs_layers s = [] then None else Some (last (fs_layers s)))"

definition set_top :: "layer \<Rightarrow> focus_state \<Rightarrow> focus_state" where
  "set_top l s = s\<lparr>fs_layers := butlast (fs_layers s) @ [l]\<rparr>"

definition choice :: "dom \<Rightarrow> layer \<Rightarrow> nat" where
  "choice d l =
     (let choices = focusable d (ly_node l);
          first = (case choices of [] \<Rightarrow> ly_node l | c # cs \<Rightarrow> c);
          preferred = (case ly_last l of Some x \<Rightarrow> Some x | None \<Rightarrow> ly_initial l) in
      if ly_locked l then ly_node l
      else case preferred of Some p \<Rightarrow> if p \<in> set choices then p else first | None \<Rightarrow> first)"

definition note_focus :: "nat \<Rightarrow> layer \<Rightarrow> layer" where
  "note_focus t l = (if t \<noteq> ly_node l \<and> \<not> ly_locked l then l\<lparr>ly_last := Some t\<rparr> else l)"

text \<open>\<open>restoreFocus\<close>; its choice lies inside the dialogue, so the event it raises is only noted.\<close>

definition restoreFocus :: "dom \<Rightarrow> focus_state \<Rightarrow> focus_state" where
  "restoreFocus d s =
     (case top_layer s of
        None \<Rightarrow> s
      | Some l \<Rightarrow>
          (let t = choice d l in
           if fs_active s = Some t then s else set_top (note_focus t l) (s\<lparr>fs_active := Some t\<rparr>)))"

definition onFocus :: "dom \<Rightarrow> nat \<Rightarrow> focus_state \<Rightarrow> focus_state" where
  "onFocus d t s =
     (case top_layer s of
        None \<Rightarrow> s
      | Some l \<Rightarrow> if in_dialog d (ly_node l) t then set_top (note_focus t l) s else restoreFocus d s)"

definition focus_on :: "dom \<Rightarrow> nat \<Rightarrow> focus_state \<Rightarrow> focus_state" where
  "focus_on d t s = (if fs_active s = Some t then s else onFocus d t (s\<lparr>fs_active := Some t\<rparr>))"

text \<open>\<open>onKey\<close>: whether the key is handled, and the state after it.\<close>

definition escape_key :: "dom \<Rightarrow> nat \<Rightarrow> focus_state \<Rightarrow> bool \<times> focus_state" where
  "escape_key d target s =
     (case top_layer s of
        None \<Rightarrow> (False, s)
      | Some l \<Rightarrow>
          if childOwnsEscape d (ly_node l) target then (False, s)
          else (True, if ly_locked l then s else s\<lparr>fs_cancels := fs_cancels s @ [ly_node l]\<rparr>))"

definition tab_key :: "dom \<Rightarrow> bool \<Rightarrow> focus_state \<Rightarrow> bool \<times> focus_state" where
  "tab_key d shift s =
     (case top_layer s of
        None \<Rightarrow> (False, s)
      | Some l \<Rightarrow>
          (let choices = (if ly_locked l then [] else focusable d (ly_node l)) in
           if choices = [] then (True, focus_on d (ly_node l) s)
           else
             (let outside = (case fs_active s of None \<Rightarrow> True | Some a \<Rightarrow> a \<notin> set choices);
                  edge = (if shift then hd choices else last choices) in
              if outside \<or> fs_active s = Some edge
              then (True, focus_on d (if shift then last choices else hd choices) s)
              else (False, s))))"

definition open_layer :: "dom \<Rightarrow> nat \<Rightarrow> bool \<Rightarrow> nat option \<Rightarrow> nat option \<Rightarrow> focus_state \<Rightarrow> focus_state" where
  "open_layer d node locked initial returnTo s =
     (let active = (case fs_active s of Some a \<Rightarrow> if dom_html d a then Some a else None | None \<Rightarrow> None);
          l = \<lparr>ly_node = node, ly_locked = locked, ly_initial = initial, ly_last = None,
               ly_previous = (case returnTo of Some r \<Rightarrow> Some r | None \<Rightarrow> active)\<rparr> in
      restoreFocus d (s\<lparr>fs_layers := fs_layers s @ [l]\<rparr>))"

fun remove_layer :: "nat \<Rightarrow> layer list \<Rightarrow> layer list" where
  "remove_layer node [] = []"
| "remove_layer node (l # ls) = (if ly_node l = node then ls else l # remove_layer node ls)"

definition close_layer :: "dom \<Rightarrow> nat \<Rightarrow> focus_state \<Rightarrow> focus_state" where
  "close_layer d node s =
     (case find (\<lambda>l. ly_node l = node) (fs_layers s) of
        None \<Rightarrow> s
      | Some l \<Rightarrow>
          (let wasTop = (ly_node (last (fs_layers s)) = node);
               s' = s\<lparr>fs_layers := remove_layer node (fs_layers s)\<rparr> in
           case ly_previous l of
             Some p \<Rightarrow> if wasTop \<and> dom_connected d p then focus_on d p s' else s'
           | None \<Rightarrow> s'))"

text \<open>The effect on \<open>locked\<close>: the top dialogue takes the focus again.\<close>

definition lock_layer :: "dom \<Rightarrow> nat \<Rightarrow> bool \<Rightarrow> focus_state \<Rightarrow> focus_state" where
  "lock_layer d node locked s =
     (let s' = s\<lparr>fs_layers := map (\<lambda>l. if ly_node l = node then l\<lparr>ly_locked := locked\<rparr> else l) (fs_layers s)\<rparr> in
      case top_layer s' of
        Some l \<Rightarrow> if ly_node l = node then restoreFocus d s' else s'
      | None \<Rightarrow> s')"

datatype focus_event =
    Opens nat bool "nat option" "nat option"
  | Closes nat
  | Locks nat bool
  | FocusIn nat
  | Escape nat
  | Tab bool

definition focus_step :: "dom \<Rightarrow> focus_event \<Rightarrow> focus_state \<Rightarrow> focus_state" where
  "focus_step d e s =
     (case e of
        Opens node locked initial returnTo \<Rightarrow> open_layer d node locked initial returnTo s
      | Closes node \<Rightarrow> close_layer d node s
      | Locks node locked \<Rightarrow> lock_layer d node locked s
      | FocusIn t \<Rightarrow> focus_on d t s
      | Escape target \<Rightarrow> snd (escape_key d target s)
      | Tab shift \<Rightarrow> snd (tab_key d shift s))"

section \<open>The focus stays inside the top dialogue\<close>

text \<open>
  What the document gives: an element contains itself, the elements that match in a panel are in it, and panels and
  matching elements are HTML elements.
\<close>

definition dom_ok :: "dom \<Rightarrow> bool" where
  "dom_ok d \<longleftrightarrow> (\<forall>n. dom_contains d n n) \<and> (\<forall>p. list_all (\<lambda>x. dom_contains d p x \<and> dom_html d x) (dom_matching d p))"

definition nodes_ok :: "dom \<Rightarrow> focus_state \<Rightarrow> bool" where
  "nodes_ok d s \<longleftrightarrow> list_all (\<lambda>l. dom_html d (ly_node l)) (fs_layers s)"

definition trapped :: "dom \<Rightarrow> focus_state \<Rightarrow> bool" where
  "trapped d s \<longleftrightarrow>
     (case top_layer s of
        None \<Rightarrow> True
      | Some l \<Rightarrow> (case fs_active s of None \<Rightarrow> False | Some t \<Rightarrow> in_dialog d (ly_node l) t))"

lemma focusable_inside: "dom_ok d \<Longrightarrow> t \<in> set (focusable d p) \<Longrightarrow> in_dialog d p t"
  by (auto simp: dom_ok_def focusable_def in_dialog_def list_all_iff list_ex_iff)

lemma node_inside: "dom_ok d \<Longrightarrow> dom_html d p \<Longrightarrow> in_dialog d p p"
  by (simp add: dom_ok_def in_dialog_def ownedPanels_def)

lemma choice_inside: "dom_ok d \<Longrightarrow> dom_html d (ly_node l) \<Longrightarrow> in_dialog d (ly_node l) (choice d l)"
  using focusable_inside [of d _ "ly_node l"] node_inside [of d "ly_node l"]
  by (auto simp: choice_def Let_def split: option.split list.split)

lemma note_node [simp]: "ly_node (note_focus t l) = ly_node l" "ly_previous (note_focus t l) = ly_previous l"
  "ly_locked (note_focus t l) = ly_locked l"
  by (simp_all add: note_focus_def)

lemma top_set [simp]: "top_layer (set_top l s) = Some l"
  by (simp add: top_layer_def set_top_def)

lemma top_active [simp]: "top_layer (s\<lparr>fs_active := a\<rparr>) = top_layer s" "fs_active (set_top l s) = fs_active s"
  by (simp_all add: top_layer_def set_top_def)

lemma trapped_set: "trapped d (set_top l s) \<longleftrightarrow> (case fs_active s of None \<Rightarrow> False | Some t \<Rightarrow> in_dialog d (ly_node l) t)"
  by (simp add: trapped_def)

lemma nodes_top: "nodes_ok d s \<Longrightarrow> top_layer s = Some l \<Longrightarrow> dom_html d (ly_node l)"
  by (auto simp: nodes_ok_def top_layer_def list_all_iff split: if_splits)

lemma restore_trapped: "dom_ok d \<Longrightarrow> nodes_ok d s \<Longrightarrow> trapped d (restoreFocus d s)"
  using choice_inside [of d] nodes_top [of d s]
  by (auto simp: restoreFocus_def trapped_set trapped_def Let_def split: option.split)

lemma onFocus_trapped:
  "dom_ok d \<Longrightarrow> nodes_ok d s \<Longrightarrow> fs_active s = Some t \<Longrightarrow> trapped d (onFocus d t s)"
  using restore_trapped [of d s] by (auto simp: onFocus_def trapped_set split: option.split) (simp add: trapped_def)

lemma nodes_active [simp]: "nodes_ok d (s\<lparr>fs_active := a\<rparr>) = nodes_ok d s" "nodes_ok d (s\<lparr>fs_cancels := c\<rparr>) = nodes_ok d s"
  by (simp_all add: nodes_ok_def)

lemma focus_trapped:
  "dom_ok d \<Longrightarrow> nodes_ok d s \<Longrightarrow> trapped d s \<or> fs_active s \<noteq> Some t \<Longrightarrow> trapped d (focus_on d t s)"
  using onFocus_trapped [of d "s\<lparr>fs_active := Some t\<rparr>" t] by (auto simp: focus_on_def)

text \<open>
  The events that bring the focus back whatever it was on, and those after which it can be lost: closing the top
  dialogue when the element that had the focus before it is gone, or has the focus already.
\<close>

definition regains :: "focus_event \<Rightarrow> bool" where
  "regains e \<longleftrightarrow> (case e of Opens n l i r \<Rightarrow> True | _ \<Rightarrow> False)"

definition loses :: "dom \<Rightarrow> focus_event \<Rightarrow> focus_state \<Rightarrow> bool" where
  "loses d e s \<longleftrightarrow>
     (case e of
        Closes node \<Rightarrow>
          (case find (\<lambda>l. ly_node l = node) (fs_layers s) of
             None \<Rightarrow> False
           | Some l \<Rightarrow> ly_node (last (fs_layers s)) = node \<and>
               (case ly_previous l of None \<Rightarrow> True | Some p \<Rightarrow> \<not> dom_connected d p \<or> fs_active s = Some p))
      | _ \<Rightarrow> False)"

definition panel_html :: "dom \<Rightarrow> focus_event \<Rightarrow> bool" where
  "panel_html d e \<longleftrightarrow> (case e of Opens node l i r \<Rightarrow> dom_html d node | _ \<Rightarrow> True)"

lemma remove_last: "ls \<noteq> [] \<Longrightarrow> ly_node (last ls) \<noteq> node \<Longrightarrow> remove_layer node ls \<noteq> [] \<and> last (remove_layer node ls) = last ls"
  by (induction ls) (auto split: if_splits)

lemma remove_subset: "set (remove_layer node ls) \<subseteq> set ls"
  by (induction ls) auto

lemma nodes_set_top: "nodes_ok d s \<Longrightarrow> dom_html d (ly_node l) \<Longrightarrow> nodes_ok d (set_top l s)"
  by (auto simp: nodes_ok_def set_top_def list_all_iff dest: in_set_butlastD)

lemma nodes_restore: "nodes_ok d s \<Longrightarrow> nodes_ok d (restoreFocus d s)"
  using nodes_top [of d s] by (auto simp: restoreFocus_def Let_def nodes_set_top split: option.split)

lemma nodes_onFocus: "nodes_ok d s \<Longrightarrow> nodes_ok d (onFocus d t s)"
  using nodes_top [of d s] by (auto simp: onFocus_def nodes_restore nodes_set_top split: option.split)

lemma nodes_focus: "nodes_ok d s \<Longrightarrow> nodes_ok d (focus_on d t s)"
  by (simp add: focus_on_def nodes_onFocus)

lemma nodes_tab: "nodes_ok d s \<Longrightarrow> nodes_ok d (snd (tab_key d shift s))"
  by (auto simp: tab_key_def Let_def nodes_focus split: option.split)

lemma nodes_escape: "nodes_ok d s \<Longrightarrow> nodes_ok d (snd (escape_key d t s))"
  by (auto simp: escape_key_def split: option.split)

lemma nodes_step: "nodes_ok d s \<Longrightarrow> panel_html d e \<Longrightarrow> nodes_ok d (focus_step d e s)"
proof (cases e)
  case (Opens node locked initial returnTo)
  assume "nodes_ok d s" "panel_html d e"
  with Opens show ?thesis
    by (auto simp: focus_step_def open_layer_def Let_def panel_html_def nodes_ok_def list_all_iff intro!: nodes_restore [unfolded nodes_ok_def list_all_iff])
next
  case (Closes node)
  assume "nodes_ok d s"
  then have "nodes_ok d (s\<lparr>fs_layers := remove_layer node (fs_layers s)\<rparr>)"
    using remove_subset [of node "fs_layers s"] by (auto simp: nodes_ok_def list_all_iff)
  then show ?thesis using Closes \<open>nodes_ok d s\<close> nodes_focus
    by (auto simp: focus_step_def close_layer_def Let_def split: option.split)
next
  case (Locks node locked)
  let ?s = "s\<lparr>fs_layers := map (\<lambda>l. if ly_node l = node then l\<lparr>ly_locked := locked\<rparr> else l) (fs_layers s)\<rparr>"
  assume "nodes_ok d s"
  then have "nodes_ok d ?s" by (auto simp: nodes_ok_def list_all_iff)
  then show ?thesis using Locks nodes_restore [of d ?s]
    by (auto simp: focus_step_def lock_layer_def Let_def split: option.split)
qed (simp_all add: focus_step_def nodes_focus nodes_tab nodes_escape)

lemma trapped_cancels [simp]: "trapped d (s\<lparr>fs_cancels := c\<rparr>) = trapped d s"
  by (simp add: trapped_def top_layer_def)

lemma close_trapped:
  assumes "dom_ok d" "nodes_ok d s" "trapped d s" "\<not> loses d (Closes node) s"
  shows "trapped d (close_layer d node s)"
proof (cases "find (\<lambda>l. ly_node l = node) (fs_layers s)")
  case (Some l)
  then have ne: "fs_layers s \<noteq> []" by (cases "fs_layers s") auto
  let ?s = "s\<lparr>fs_layers := remove_layer node (fs_layers s)\<rparr>"
  have n: "nodes_ok d ?s" using assms(2) remove_subset [of node "fs_layers s"] by (auto simp: nodes_ok_def list_all_iff)
  show ?thesis
  proof (cases "ly_node (last (fs_layers s)) = node")
    case True
    then obtain p where p: "ly_previous l = Some p" "dom_connected d p" "fs_active ?s \<noteq> Some p"
      using assms(4) Some by (auto simp: loses_def split: option.splits)
    have "trapped d (focus_on d p ?s)" by (rule focus_trapped [OF assms(1) n]) (use p(3) in blast)
    then show ?thesis using p True Some by (simp add: close_layer_def Let_def)
  next
    case False
    then have "trapped d ?s" using assms(3) ne remove_last [OF ne False] by (simp add: trapped_def top_layer_def)
    then show ?thesis using False Some by (auto simp: close_layer_def Let_def split: option.split)
  qed
qed (simp add: close_layer_def assms)

lemma trapped_step:
  assumes "dom_ok d" "nodes_ok d s" "panel_html d e" "trapped d s \<or> regains e" "\<not> loses d e s"
  shows "trapped d (focus_step d e s)"
proof (cases e)
  case (Opens node locked initial returnTo)
  define l where "l = \<lparr>ly_node = node, ly_locked = locked, ly_initial = initial, ly_last = None,
               ly_previous = (case returnTo of Some r \<Rightarrow> Some r | None \<Rightarrow>
                 (case fs_active s of Some a \<Rightarrow> if dom_html d a then Some a else None | None \<Rightarrow> None))\<rparr>"
  have "nodes_ok d (s\<lparr>fs_layers := fs_layers s @ [l]\<rparr>)"
    using assms(2,3) Opens by (simp add: nodes_ok_def panel_html_def l_def)
  from restore_trapped [OF assms(1) this] show ?thesis using Opens
    by (simp add: focus_step_def open_layer_def Let_def l_def)
next
  case (Closes node)
  then show ?thesis using close_trapped [OF assms(1,2)] assms(4,5) by (simp add: focus_step_def regains_def)
next
  case (Locks node locked)
  let ?s = "s\<lparr>fs_layers := map (\<lambda>l. if ly_node l = node then l\<lparr>ly_locked := locked\<rparr> else l) (fs_layers s)\<rparr>"
  have "nodes_ok d ?s" using assms(2) by (auto simp: nodes_ok_def list_all_iff)
  moreover have "trapped d ?s" using assms(4) Locks
    by (auto simp: trapped_def top_layer_def last_map regains_def split: option.splits if_splits)
  ultimately show ?thesis using Locks restore_trapped [OF assms(1)]
    by (auto simp: focus_step_def lock_layer_def Let_def split: option.split)
next
  case (FocusIn t)
  then show ?thesis using focus_trapped [OF assms(1,2), of t] assms(4) by (simp add: focus_step_def regains_def)
next
  case (Escape t)
  then show ?thesis using assms(4) by (auto simp: focus_step_def escape_key_def regains_def split: option.split)
next
  case (Tab shift)
  then show ?thesis using focus_trapped [OF assms(1,2)] assms(4)
    by (auto simp: focus_step_def tab_key_def regains_def Let_def split: option.split)
qed

text \<open>The events of a run, each with what may lose the focus excluded.\<close>

fun keeps_focus :: "dom \<Rightarrow> focus_event list \<Rightarrow> focus_state \<Rightarrow> bool" where
  "keeps_focus d [] s = True"
| "keeps_focus d (e # es) s = (panel_html d e \<and> \<not> loses d e s \<and> keeps_focus d es (focus_step d e s))"

lemma trapped_run:
  "dom_ok d \<Longrightarrow> nodes_ok d s \<Longrightarrow> trapped d s \<Longrightarrow> keeps_focus d es s \<Longrightarrow>
   trapped d (fold (focus_step d) es s)"
  by (induction es arbitrary: s) (simp_all add: nodes_step trapped_step)

definition focus_initial :: "nat option \<Rightarrow> focus_state" where
  "focus_initial active = \<lparr>fs_layers = [], fs_active = active, fs_cancels = []\<rparr>"


text \<open>Element 1 is a page button; panel 10 holds 11 and 12, panel 20 holds 21.\<close>

definition demo_dom :: dom where
  "demo_dom = \<lparr>dom_expanded = (\<lambda>p. []), dom_by_id = (\<lambda>i. None),
     dom_contains = (\<lambda>a b. a = b \<or> (a = 10 \<and> (b = 11 \<or> b = 12)) \<or> (a = 20 \<and> b = 21)),
     dom_matching = (\<lambda>p. if p = 10 then [11, 12] else if p = 20 then [21] else []),
     dom_shown = (\<lambda>e. True), dom_position = id, dom_html = (\<lambda>e. True), dom_combobox = (\<lambda>e. False), dom_connected = (\<lambda>e. True)\<rparr>"

definition demo_focus :: "focus_event list" where
  "demo_focus = [Opens 10 False None None, Tab True, FocusIn 1, Opens 20 True None None, Locks 20 False, Closes 20]"

lemma demo_focused: "fs_active (fold (focus_step demo_dom) demo_focus (focus_initial (Some 1))) = Some 12"
  by code_simp


section \<open>Returning the focus\<close>

definition inner :: "nat \<Rightarrow> focus_event \<Rightarrow> bool" where
  "inner node e \<longleftrightarrow> (case e of Opens n l i r \<Rightarrow> False | Closes n \<Rightarrow> False | _ \<Rightarrow> True)"

definition over_layers :: "layer list \<Rightarrow> nat \<Rightarrow> nat option \<Rightarrow> focus_state \<Rightarrow> bool" where
  "over_layers ls node p s \<longleftrightarrow> (\<exists>ks l. fs_layers s = ks @ [l] \<and> map ly_node ks = map ly_node ls \<and> ly_node l = node \<and> ly_previous l = p)"

lemma over_top: "over_layers ls node p s \<Longrightarrow> \<exists>l. top_layer s = Some l \<and> ly_node l = node \<and> ly_previous l = p"
  by (auto simp: over_layers_def top_layer_def)

lemma over_set: "over_layers ls node p s \<Longrightarrow> ly_node l = node \<Longrightarrow> ly_previous l = p \<Longrightarrow> over_layers ls node p (set_top l s)"
  by (auto simp: over_layers_def set_top_def)

lemma over_active [simp]: "over_layers ls node p (s\<lparr>fs_active := a\<rparr>) = over_layers ls node p s" "over_layers ls node p (s\<lparr>fs_cancels := c\<rparr>) = over_layers ls node p s"
  by (simp_all add: over_layers_def)

lemma over_restore: "over_layers ls node p s \<Longrightarrow> over_layers ls node p (restoreFocus d s)"
  using over_top [of ls node p s] by (auto simp: restoreFocus_def Let_def intro!: over_set)

lemma over_focus: "over_layers ls node p s \<Longrightarrow> over_layers ls node p (focus_on d t s)"
  using over_top [of ls node p s] by (auto simp: focus_on_def onFocus_def intro!: over_set over_restore)

lemma over_locks: "over_layers ls node p s \<Longrightarrow>
    over_layers ls node p (s\<lparr>fs_layers := map (\<lambda>l. if ly_node l = m then l\<lparr>ly_locked := b\<rparr> else l) (fs_layers s)\<rparr>)"
proof -
  assume "over_layers ls node p s"
  then obtain ks l where k: "fs_layers s = ks @ [l]" "map ly_node ks = map ly_node ls" "ly_node l = node" "ly_previous l = p"
    by (auto simp: over_layers_def)
  have "map ly_node (map (\<lambda>l. if ly_node l = m then l\<lparr>ly_locked := b\<rparr> else l) ks) = map ly_node ks" by simp
  then show ?thesis using k unfolding over_layers_def by simp
qed

lemma over_step: "over_layers ls node p s \<Longrightarrow> inner node e \<Longrightarrow> over_layers ls node p (focus_step d e s)"
  by (cases e)
    (auto simp: focus_step_def inner_def lock_layer_def tab_key_def escape_key_def Let_def over_focus
      split: option.split intro: over_locks over_restore [OF over_locks])

lemma over_fold: "over_layers ls node p s \<Longrightarrow> list_all (inner node) es \<Longrightarrow> over_layers ls node p (fold (focus_step d) es s)"
  by (induction es arbitrary: s) (simp_all add: over_step)

lemma remove_over: "node \<notin> ly_node ` set ks \<Longrightarrow> ly_node l = node \<Longrightarrow> remove_layer node (ks @ [l]) = ks"
  by (induction ks) auto

lemma find_over: "node \<notin> ly_node ` set ks \<Longrightarrow> ly_node l = node \<Longrightarrow> find (\<lambda>l. ly_node l = node) (ks @ [l]) = Some l"
  by (induction ks) auto

text \<open>
  A dialogue gives the focus back: after any moves, keys and locks while it is open, closing it takes it off the
  layers, and when it was the only one the focus is on the element it names, or else on the one that had it.
\<close>

theorem dialog_returns_focus:
  assumes "list_all (inner node) es" "fs_layers s = []" "fs_active s = Some a" "dom_html d a"
    and "dom_connected d (case returnTo of Some r \<Rightarrow> r | None \<Rightarrow> a)"
  shows "fs_layers (focus_step d (Closes node) (fold (focus_step d) es (focus_step d (Opens node locked initial returnTo) s))) = [] \<and>
    fs_active (focus_step d (Closes node) (fold (focus_step d) es (focus_step d (Opens node locked initial returnTo) s))) =
      Some (case returnTo of Some r \<Rightarrow> r | None \<Rightarrow> a)"
proof -
  let ?p = "case returnTo of Some r \<Rightarrow> r | None \<Rightarrow> a"
  let ?l = "\<lparr>ly_node = node, ly_locked = locked, ly_initial = initial, ly_last = None, ly_previous = Some ?p\<rparr>"
  have "focus_step d (Opens node locked initial returnTo) s = restoreFocus d (s\<lparr>fs_layers := [?l]\<rparr>)"
    using assms by (simp add: focus_step_def open_layer_def Let_def split: option.split)
  moreover have "over_layers [] node (Some ?p) (s\<lparr>fs_layers := [?l]\<rparr>)" by (simp add: over_layers_def)
  ultimately have "over_layers [] node (Some ?p) (fold (focus_step d) es (focus_step d (Opens node locked initial returnTo) s))"
    using over_fold [OF over_restore assms(1)] by metis
  then obtain l where l: "fs_layers (fold (focus_step d) es (focus_step d (Opens node locked initial returnTo) s)) = [l]"
    "ly_node l = node" "ly_previous l = Some ?p"
    by (auto simp: over_layers_def)
  have "focus_on d ?p u = u\<lparr>fs_active := Some ?p\<rparr>" if "fs_layers u = []" for u
    using that by (cases u) (simp add: focus_on_def onFocus_def top_layer_def)
  then show ?thesis using l assms(5)
    by (simp add: focus_step_def close_layer_def Let_def)
qed

theorem dialog_returns_focus_witness:
  "fs_active (focus_step demo_dom (Closes 10) (fold (focus_step demo_dom) [Tab False, Locks 10 True, Escape 11]
     (focus_step demo_dom (Opens 10 False None None) (focus_initial (Some 1))))) = Some 1"
proof -
  have "list_all (inner 10) [Tab False, Locks 10 True, Escape 11]" by (simp add: inner_def)
  from dialog_returns_focus [OF this, of "focus_initial (Some 1)" 1 demo_dom None False None]
  show ?thesis by (simp add: focus_initial_def demo_dom_def)
qed

end
