(* ===== verification/Content_Replacement.thy ===== *)
theory Content_Replacement
  imports Prelude
begin

text \<open>
  The progress of a content replacement: \<open>web/features/games/use-content-replacement.ts\<close>. Its effects run in
  \<open>after_change\<close>, after every change of the state; the polling effect keeps one poll with its generation. Messages are
  flags. The synchronizing effect reads only the state and the refs, so running it at every after_change is running it
  when its dependencies change.
\<close>

record replacement =
  rp_id :: jsstr
  rp_gameId :: jsstr
  rp_status :: jsstr
  rp_version :: "int option"
  rp_canCancel :: bool

definition replacementActive :: "replacement \<Rightarrow> bool" where
  "replacementActive v \<longleftrightarrow> rp_status v \<in> set (map js [''queued'', ''running'', ''canceling''])"

text \<open>A poll waits for its timer, for an answer, or has stopped.\<close>

datatype poll_phase = Timer | Request | Stopped

record progress_poll =
  pg_generation :: nat
  pg_operation :: "jsstr option"
  pg_phase :: poll_phase

type_synonym poll_key = "jsstr \<times> jsstr option \<times> bool \<times> nat"

text \<open>
  The state and the refs of the hook, the calls of \<open>start\<close> and \<open>cancel\<close> that wait for an answer, and what was
  reported: completed operations, and details that were only refreshed.
\<close>

record replace_state =
  rs_game :: jsstr
  rs_version :: int
  rs_value :: "replacement option"
  rs_checked :: bool
  rs_busy :: bool
  rs_error :: bool
  rs_expired :: bool
  rs_retry :: nat
  rs_generation :: nat
  rs_observed :: "jsstr option"
  rs_synchronized :: "jsstr option"
  rs_poll :: "progress_poll option"
  rs_deps :: "poll_key option"
  rs_calls :: nat
  rs_completed :: "jsstr list"
  rs_refreshed :: "jsstr list"

definition op_of :: "jsstr \<Rightarrow> replacement option \<Rightarrow> replacement option" where
  "op_of game value = (case value of Some v \<Rightarrow> if rp_gameId v = game then Some v else None | None \<Rightarrow> None)"

definition active_of :: "replacement option \<Rightarrow> bool \<Rightarrow> bool" where
  "active_of op expired \<longleftrightarrow> (case op of Some v \<Rightarrow> replacementActive v \<and> \<not> expired | None \<Rightarrow> False)"

definition operation :: "replace_state \<Rightarrow> replacement option" where
  "operation s = op_of (rs_game s) (rs_value s)"

definition operation_active :: "replace_state \<Rightarrow> bool" where
  "operation_active s \<longleftrightarrow> active_of (operation s) (rs_expired s)"

definition poll_deps :: "replace_state \<Rightarrow> poll_key" where
  "poll_deps s = (rs_game s, map_option rp_id (operation s), operation_active s, rs_retry s)"

section \<open>Effects\<close>

definition synchronize :: "replace_state \<Rightarrow> replace_state" where
  "synchronize s =
     (case operation s of
        None \<Rightarrow> s
      | Some v \<Rightarrow>
          if rp_status v \<noteq> js ''completed'' \<or> rs_synchronized s = Some (rp_id v) then s
          else if rs_observed s = Some (rp_id v)
          then s\<lparr>rs_observed := None, rs_synchronized := Some (rp_id v), rs_completed := rs_completed s @ [rp_id v]\<rparr>
          else case rp_version v of
            Some n \<Rightarrow>
              if rs_version s < n
              then s\<lparr>rs_synchronized := Some (rp_id v), rs_refreshed := rs_refreshed s @ [rp_id v]\<rparr> else s
          | None \<Rightarrow> s)"

definition start_poll :: "replace_state \<Rightarrow> replace_state" where
  "start_poll s =
     (if rs_deps s = Some (poll_deps s) then s
      else
        (let s' = s\<lparr>rs_deps := Some (poll_deps s), rs_poll := None\<rparr>; op = map_option rp_id (operation s) in
         if op \<noteq> None \<and> \<not> operation_active s then s'
         else s'\<lparr>rs_generation := Suc (rs_generation s),
                 rs_poll := Some \<lparr>pg_generation = Suc (rs_generation s), pg_operation = op,
                                 pg_phase = (if op = None then Request else Timer)\<rparr>\<rparr>))"

definition after_change :: "replace_state \<Rightarrow> replace_state" where
  "after_change s = start_poll (synchronize s)"

definition replace_initial :: "jsstr \<Rightarrow> int \<Rightarrow> replace_state" where
  "replace_initial game version =
     after_change \<lparr>rs_game = game, rs_version = version, rs_value = None, rs_checked = False, rs_busy = False, rs_error = False,
       rs_expired = False, rs_retry = 0, rs_generation = 0, rs_observed = None, rs_synchronized = None, rs_poll = None,
       rs_deps = None, rs_calls = 0, rs_completed = [], rs_refreshed = []\<rparr>"

section \<open>Polling\<close>

definition set_phase :: "poll_phase \<Rightarrow> replace_state \<Rightarrow> replace_state" where
  "set_phase p s = s\<lparr>rs_poll := map_option (\<lambda>q. q\<lparr>pg_phase := p\<rparr>) (rs_poll s)\<rparr>"

definition timer_fires :: "replace_state \<Rightarrow> replace_state" where
  "timer_fires s =
     (case rs_poll s of Some p \<Rightarrow> if pg_phase p = Timer then set_phase Request s else s | None \<Rightarrow> s)"

text \<open>\<open>NoAnswer\<close> stands for every failure, a rejected request or an error answer alike.\<close>

datatype read_answer = NotFound | NoAnswer | Progress replacement

definition poll_answered :: "read_answer \<Rightarrow> replace_state \<Rightarrow> replace_state" where
  "poll_answered r s =
     (case rs_poll s of
        None \<Rightarrow> s
      | Some p \<Rightarrow>
          if pg_phase p \<noteq> Request then s
          else if pg_generation p \<noteq> rs_generation s then set_phase Stopped s
          else case r of
            NotFound \<Rightarrow>
              after_change (set_phase Stopped
                (if pg_operation p \<noteq> None then s\<lparr>rs_checked := True, rs_expired := True, rs_error := True\<rparr>
                 else s\<lparr>rs_checked := True, rs_error := False\<rparr>))
          | NoAnswer \<Rightarrow> after_change (set_phase Stopped (s\<lparr>rs_error := True\<rparr>))
          | Progress v \<Rightarrow>
              after_change (set_phase (if replacementActive v then Timer else Stopped)
                (s\<lparr>rs_observed := if replacementActive v then Some (rp_id v) else rs_observed s,
                   rs_value := Some v, rs_checked := True, rs_error := False\<rparr>)))"

section \<open>Commands\<close>

definition asks :: "replace_state \<Rightarrow> replace_state" where
  "asks s = s\<lparr>rs_busy := True, rs_generation := Suc (rs_generation s), rs_calls := Suc (rs_calls s)\<rparr>"

definition ask_cancel :: "replace_state \<Rightarrow> replace_state" where
  "ask_cancel s =
     (case operation s of Some v \<Rightarrow> if rp_canCancel v then asks s else s | None \<Rightarrow> s)"

definition start_answered :: "replacement option \<Rightarrow> replace_state \<Rightarrow> replace_state" where
  "start_answered r s =
     (if rs_calls s = 0 then s
      else after_change ((case r of
          Some v \<Rightarrow> s\<lparr>rs_observed := Some (rp_id v), rs_expired := False, rs_error := False, rs_value := Some v\<rparr>
        | None \<Rightarrow> s\<lparr>rs_value := None, rs_checked := False, rs_retry := Suc (rs_retry s)\<rparr>)
        \<lparr>rs_busy := False, rs_calls := rs_calls s - 1\<rparr>))"

definition cancel_answered :: "replacement option \<Rightarrow> replace_state \<Rightarrow> replace_state" where
  "cancel_answered r s =
     (if rs_calls s = 0 then s
      else after_change ((case r of
          Some v \<Rightarrow> s\<lparr>rs_value := Some v, rs_error := False\<rparr>
        | None \<Rightarrow> s\<lparr>rs_error := True\<rparr>)
        \<lparr>rs_busy := False, rs_retry := Suc (rs_retry s), rs_calls := rs_calls s - 1\<rparr>))"

definition refresh :: "replace_state \<Rightarrow> replace_state" where
  "refresh s = after_change (s\<lparr>rs_expired := False, rs_retry := Suc (rs_retry s)\<rparr>)"

datatype replace_event =
    Props jsstr int
  | TimerFires
  | PollAnswer read_answer
  | AsksStart
  | AsksCancel
  | StartAnswer "replacement option"
  | CancelAnswer "replacement option"
  | AsksRefresh

definition replace_step :: "replace_event \<Rightarrow> replace_state \<Rightarrow> replace_state" where
  "replace_step e s =
     (case e of
        Props game version \<Rightarrow> after_change (s\<lparr>rs_game := game, rs_version := version\<rparr>)
      | TimerFires \<Rightarrow> timer_fires s
      | PollAnswer r \<Rightarrow> poll_answered r s
      | AsksStart \<Rightarrow> asks s
      | AsksCancel \<Rightarrow> ask_cancel s
      | StartAnswer r \<Rightarrow> start_answered r s
      | CancelAnswer r \<Rightarrow> cancel_answered r s
      | AsksRefresh \<Rightarrow> refresh s)"

definition replace_run :: "replace_event list \<Rightarrow> replace_state \<Rightarrow> replace_state" where
  "replace_run es s = fold replace_step es s"

section \<open>An active replacement is being polled\<close>

lemma sync_fields [simp]:
  "rs_game (synchronize s) = rs_game s" "rs_value (synchronize s) = rs_value s" "rs_expired (synchronize s) = rs_expired s"
  "rs_retry (synchronize s) = rs_retry s" "rs_generation (synchronize s) = rs_generation s" "rs_poll (synchronize s) = rs_poll s"
  "rs_deps (synchronize s) = rs_deps s" "rs_calls (synchronize s) = rs_calls s" "rs_error (synchronize s) = rs_error s"
  by (auto simp: synchronize_def split: option.split)

lemma sync_operation [simp]: "operation (synchronize s) = operation s" "operation_active (synchronize s) = operation_active s"
  "poll_deps (synchronize s) = poll_deps s"
  by (simp_all add: operation_def operation_active_def poll_deps_def)

text \<open>
  The poll against the state: it is the one of the current dependencies; it answers to the current generation unless
  a command waits for its answer; and it has stopped only with an error shown, or with no operation to follow.
\<close>

definition poll_fits :: "progress_poll option \<Rightarrow> replacement option \<Rightarrow> bool \<Rightarrow> nat \<Rightarrow> nat \<Rightarrow> bool \<Rightarrow> bool" where
  "poll_fits progress_poll op active generation calls failed \<longleftrightarrow>
     (case progress_poll of
        None \<Rightarrow> \<not> active
      | Some p \<Rightarrow> pg_operation p = map_option rp_id op \<and> (op = None \<or> active) \<and>
          pg_generation p \<le> generation \<and> (calls = 0 \<longrightarrow> pg_generation p = generation) \<and>
          (pg_phase p = Stopped \<and> pg_generation p = generation \<longrightarrow> failed \<or> op = None))"

definition poll_ok :: "replace_state \<Rightarrow> bool" where
  "poll_ok s \<longleftrightarrow> poll_fits (rs_poll s) (operation s) (operation_active s) (rs_generation s) (rs_calls s) (rs_error s)"

definition replace_ok :: "replace_state \<Rightarrow> bool" where
  "replace_ok s \<longleftrightarrow> rs_deps s = Some (poll_deps s) \<and> poll_ok s"

lemma start_fresh: "rs_deps s \<noteq> Some (poll_deps s) \<Longrightarrow> replace_ok (start_poll s)"
  by (auto simp: start_poll_def replace_ok_def poll_ok_def poll_fits_def poll_deps_def operation_def operation_active_def
      active_of_def Let_def)

lemma commit_ok: "rs_deps s = Some (poll_deps s) \<Longrightarrow> poll_ok s \<Longrightarrow> replace_ok (after_change s)"
  by (simp add: after_change_def start_poll_def replace_ok_def poll_ok_def)

lemma commit_fresh: "rs_deps s \<noteq> Some (poll_deps s) \<Longrightarrow> replace_ok (after_change s)"
  by (simp add: after_change_def start_fresh)

lemma commit_either: "(rs_deps s = Some (poll_deps s) \<Longrightarrow> poll_ok s) \<Longrightarrow> replace_ok (after_change s)"
  using commit_ok commit_fresh by blast

lemma initial_ok: "replace_ok (replace_initial game version)"
  unfolding replace_initial_def by (rule commit_fresh) simp

lemma phase_fields [simp]:
  "rs_game (set_phase p s) = rs_game s" "rs_value (set_phase p s) = rs_value s" "rs_expired (set_phase p s) = rs_expired s"
  "rs_retry (set_phase p s) = rs_retry s" "rs_generation (set_phase p s) = rs_generation s"
  "rs_deps (set_phase p s) = rs_deps s" "rs_calls (set_phase p s) = rs_calls s" "rs_error (set_phase p s) = rs_error s"
  "rs_observed (set_phase p s) = rs_observed s" "rs_completed (set_phase p s) = rs_completed s"
  "rs_poll (set_phase p s) = map_option (\<lambda>q. q\<lparr>pg_phase := p\<rparr>) (rs_poll s)"
  by (simp_all add: set_phase_def)

lemma phase_operation [simp]: "operation (set_phase p s) = operation s" "operation_active (set_phase p s) = operation_active s"
  "poll_deps (set_phase p s) = poll_deps s"
  by (simp_all add: operation_def operation_active_def poll_deps_def)

lemma timer_ok: "replace_ok s \<Longrightarrow> replace_ok (timer_fires s)"
  by (auto simp: timer_fires_def replace_ok_def poll_ok_def poll_fits_def split: option.split)

lemma answer_ok:
  assumes ok: "replace_ok s"
  shows "replace_ok (poll_answered r s)"
proof (cases "rs_poll s")
  case (Some p)
  have d: "rs_deps s = Some (poll_deps s)" and fit: "pg_operation p = map_option rp_id (operation s)"
    "operation s = None \<or> operation_active s" "rs_calls s = 0 \<Longrightarrow> pg_generation p = rs_generation s" "pg_generation p \<le> rs_generation s"
    using ok Some by (simp_all add: replace_ok_def poll_ok_def poll_fits_def)
  show ?thesis
  proof (cases "pg_phase p = Request \<and> pg_generation p = rs_generation s")
    case True
    have nf: "replace_ok (after_change (set_phase Stopped (s\<lparr>rs_checked := True, rs_expired := True, rs_error := True\<rparr>)))"
      if "operation s \<noteq> None"
    proof (rule commit_fresh)
      have "operation_active s" using fit(2) that by blast
      moreover have "\<not> operation_active (s\<lparr>rs_checked := True, rs_expired := True, rs_error := True\<rparr>)"
        by (simp add: operation_active_def active_of_def split: option.split)
      ultimately show "rs_deps (set_phase Stopped (s\<lparr>rs_checked := True, rs_expired := True, rs_error := True\<rparr>)) \<noteq>
          Some (poll_deps (set_phase Stopped (s\<lparr>rs_checked := True, rs_expired := True, rs_error := True\<rparr>)))"
        using d by (auto simp: poll_deps_def)
    qed
    have quiet: "replace_ok (after_change (set_phase Stopped (s\<lparr>rs_checked := True, rs_error := False\<rparr>)))" if "operation s = None"
      by (rule commit_ok) (use d that fit Some in
        \<open>simp_all add: poll_deps_def poll_ok_def poll_fits_def operation_def operation_active_def\<close>)
    have failed: "replace_ok (after_change (set_phase Stopped (s\<lparr>rs_error := True\<rparr>)))"
      by (rule commit_ok) (use d fit Some in
        \<open>simp_all add: poll_deps_def poll_ok_def poll_fits_def operation_def operation_active_def\<close>)
    have progress: "replace_ok (after_change (set_phase (if replacementActive v then Timer else Stopped)
        (s\<lparr>rs_observed := ob, rs_value := Some v, rs_checked := True, rs_error := False\<rparr>)))" for v ob
    proof (rule commit_either)
      let ?u = "set_phase (if replacementActive v then Timer else Stopped)
        (s\<lparr>rs_observed := ob, rs_value := Some v, rs_checked := True, rs_error := False\<rparr>)"
      assume "rs_deps ?u = Some (poll_deps ?u)"
      then have same: "map_option rp_id (operation ?u) = map_option rp_id (operation s)"
        "operation_active ?u = operation_active s"
        using d by (simp_all add: poll_deps_def)
      have "operation ?u = None \<or> operation_active s" using same(1) fit(2) by (cases "operation ?u") auto
      moreover have "operation_active ?u \<Longrightarrow> replacementActive v"
        by (simp add: operation_active_def active_of_def operation_def op_of_def split: if_splits)
      ultimately show "poll_ok ?u" using Some fit True same by (auto simp: poll_ok_def poll_fits_def)
    qed
    show ?thesis
      using Some True nf quiet failed progress fit(1)
      by (cases r; cases "operation s") (auto simp: poll_answered_def)
  next
    case False
    then show ?thesis using Some ok
      by (auto simp: poll_answered_def replace_ok_def poll_ok_def poll_fits_def)
  qed
qed (simp add: poll_answered_def ok)

lemma asks_ok: "replace_ok s \<Longrightarrow> replace_ok (asks s)"
  by (auto simp: asks_def replace_ok_def poll_ok_def poll_fits_def poll_deps_def operation_def operation_active_def split: option.splits)

lemma replaced_ok:
  assumes "replace_ok s" "rs_retry t = Suc (rs_retry s)" "rs_deps t = rs_deps s"
  shows "replace_ok (after_change t)"
  by (rule commit_fresh) (use assms in \<open>auto simp: replace_ok_def poll_deps_def\<close>)

text \<open>
  The server gives a replacement it accepts a fresh identifier, and it is one of the game that asked for it; a page
  shows one game, so the game does not change while a start waits.
\<close>

definition fresh_start :: "replace_event \<Rightarrow> replace_state \<Rightarrow> bool" where
  "fresh_start e s \<longleftrightarrow>
     (case e of
        StartAnswer (Some v) \<Rightarrow> rp_gameId v = rs_game s \<and> map_option rp_id (operation s) \<noteq> Some (rp_id v)
      | _ \<Rightarrow> True)"

lemma started_ok:
  assumes ok: "replace_ok s" and game: "rp_gameId v = rs_game s" and fresh: "map_option rp_id (operation s) \<noteq> Some (rp_id v)"
  shows "replace_ok (after_change (s\<lparr>rs_observed := Some (rp_id v), rs_expired := False, rs_error := False, rs_value := Some v,
    rs_busy := False, rs_calls := rs_calls s - 1\<rparr>))"
proof (rule commit_fresh)
  let ?t = "s\<lparr>rs_observed := Some (rp_id v), rs_expired := False, rs_error := False, rs_value := Some v,
    rs_busy := False, rs_calls := rs_calls s - 1\<rparr>"
  have "operation ?t = Some v" using game by (simp add: operation_def op_of_def)
  then have "map_option rp_id (operation ?t) = Some (rp_id v)" by (simp only: option.map)
  with fresh have "map_option rp_id (operation ?t) \<noteq> map_option rp_id (operation s)" by metis
  moreover have "rs_deps ?t = Some (poll_deps s)" using ok by (simp add: replace_ok_def)
  ultimately show "rs_deps ?t \<noteq> Some (poll_deps ?t)" by (simp add: poll_deps_def)
qed

lemma step_ok:
  assumes ok: "replace_ok s" and fresh: "fresh_start e s"
  shows "replace_ok (replace_step e s)"
proof (cases e)
  case (Props game version)
  have "poll_ok (s\<lparr>rs_game := game, rs_version := version\<rparr>)"
    if "rs_deps (s\<lparr>rs_game := game, rs_version := version\<rparr>) = Some (poll_deps (s\<lparr>rs_game := game, rs_version := version\<rparr>))"
  proof -
    have "game = rs_game s" using that ok by (simp add: replace_ok_def poll_deps_def)
    then show ?thesis using ok by (simp add: replace_ok_def poll_ok_def operation_def operation_active_def)
  qed
  from commit_either [OF this] show ?thesis using Props by (simp add: replace_step_def)
next
  case (StartAnswer r)
  show ?thesis
  proof (cases "rs_calls s = 0")
    case False
    show ?thesis
    proof (cases r)
      case None
      then show ?thesis using False StartAnswer replaced_ok [OF ok] by (simp add: replace_step_def start_answered_def)
    next
      case (Some v)
      then show ?thesis using False StartAnswer fresh started_ok [OF ok]
        by (simp add: replace_step_def start_answered_def fresh_start_def)
    qed
  qed (use StartAnswer ok in \<open>simp add: replace_step_def start_answered_def\<close>)
next
  case (CancelAnswer r)
  then show ?thesis using replaced_ok [OF ok] ok
    by (cases r) (simp_all add: replace_step_def cancel_answered_def)
next
  case AsksCancel
  then show ?thesis using ok asks_ok [OF ok] by (simp add: replace_step_def ask_cancel_def split: option.split)
next
  case AsksRefresh
  then show ?thesis using replaced_ok [OF ok] by (simp add: replace_step_def refresh_def)
qed (use ok in \<open>simp_all add: replace_step_def timer_ok answer_ok asks_ok\<close>)

fun fresh_run :: "replace_event list \<Rightarrow> replace_state \<Rightarrow> bool" where
  "fresh_run [] s = True"
| "fresh_run (e # es) s = (fresh_start e s \<and> fresh_run es (replace_step e s))"

lemma run_ok: "replace_ok s \<Longrightarrow> fresh_run es s \<Longrightarrow> replace_ok (replace_run es s)"
  by (induction es arbitrary: s) (simp_all add: replace_run_def step_ok)

definition being_polled :: "replace_state \<Rightarrow> bool" where
  "being_polled s \<longleftrightarrow>
     (case rs_poll s of
        None \<Rightarrow> False
      | Some p \<Rightarrow> pg_generation p = rs_generation s \<and> pg_phase p \<in> {Timer, Request} \<and> pg_operation p = map_option rp_id (operation s))"

text \<open>
  C15. A running replacement never freezes on the page: whenever it is shown as active, with no command waiting for its
  answer and no error shown, a poll of its own identifier is under way and its answer will be accepted.
\<close>

theorem active_is_polled:
  assumes "fresh_run es (replace_initial game version)" "s = replace_run es (replace_initial game version)"
    and "operation_active s" "rs_calls s = 0" "\<not> rs_error s"
  shows "being_polled s"
proof -
  have "replace_ok s" using run_ok [OF initial_ok assms(1)] assms(2) by simp
  then have fit: "poll_fits (rs_poll s) (operation s) True (rs_generation s) 0 False"
    using assms(3-5) by (simp add: replace_ok_def poll_ok_def)
  have op: "operation s \<noteq> None" using assms(3) by (auto simp: operation_active_def active_of_def split: option.splits)
  show ?thesis
  proof (cases "rs_poll s")
    case (Some p)
    then show ?thesis using fit op by (cases "pg_phase p") (auto simp: poll_fits_def being_polled_def)
  qed (use fit in \<open>simp add: poll_fits_def\<close>)
qed

definition demo_replacement :: "string \<Rightarrow> replacement" where
  "demo_replacement status = \<lparr>rp_id = js ''r'', rp_gameId = js ''g'', rp_status = js status, rp_version = None, rp_canCancel = True\<rparr>"

theorem active_is_polled_witness:
  "being_polled (replace_run [PollAnswer NotFound, AsksStart, StartAnswer (Some (demo_replacement ''queued'')), TimerFires,
     PollAnswer (Progress (demo_replacement ''running''))] (replace_initial (js ''g'') 1))"
proof -
  let ?es = "[PollAnswer NotFound, AsksStart, StartAnswer (Some (demo_replacement ''queued'')), TimerFires,
     PollAnswer (Progress (demo_replacement ''running''))]"
  let ?s = "replace_run ?es (replace_initial (js ''g'') 1)"
  have "fresh_run ?es (replace_initial (js ''g'') 1)" "operation_active ?s" "rs_calls ?s = 0" "\<not> rs_error ?s"
    by code_simp+
  from active_is_polled [OF this(1) refl this(2-4)] show ?thesis .
qed

section \<open>A completed replacement is reported once\<close>

text \<open>What an event tells of a replacement, when the page accepts its answer.\<close>

definition told :: "replace_event \<Rightarrow> replace_state \<Rightarrow> replacement option" where
  "told e s =
     (case e of
        PollAnswer (Progress v) \<Rightarrow>
          (case rs_poll s of
             Some p \<Rightarrow> if pg_phase p = Request \<and> pg_generation p = rs_generation s then Some v else None
           | None \<Rightarrow> None)
      | StartAnswer r \<Rightarrow> if rs_calls s = 0 then None else r
      | CancelAnswer r \<Rightarrow> if rs_calls s = 0 then None else r
      | _ \<Rightarrow> None)"

definition is_start :: "replace_event \<Rightarrow> bool" where
  "is_start e \<longleftrightarrow> (case e of StartAnswer r \<Rightarrow> True | _ \<Rightarrow> False)"

text \<open>
  A finished replacement stays finished: no later accepted answer says it runs, and no start is answered with it.
\<close>

definition finished_by :: "replace_event \<Rightarrow> replace_state \<Rightarrow> jsstr list" where
  "finished_by e s = (case told e s of Some v \<Rightarrow> if replacementActive v then [] else [rp_id v] | None \<Rightarrow> [])"

definition steady :: "jsstr list \<Rightarrow> replace_event \<Rightarrow> replace_state \<Rightarrow> bool" where
  "steady finished e s \<longleftrightarrow>
     (case told e s of Some v \<Rightarrow> (if replacementActive v \<or> is_start e then rp_id v \<notin> set finished else True) | None \<Rightarrow> True)"

fun steady_run :: "jsstr list \<Rightarrow> replace_event list \<Rightarrow> replace_state \<Rightarrow> bool" where
  "steady_run finished [] s = True"
| "steady_run finished (e # es) s =
     (steady finished e s \<and> steady_run (finished @ finished_by e s) es (replace_step e s))"

definition once_of :: "jsstr list \<Rightarrow> replacement option \<Rightarrow> jsstr option \<Rightarrow> jsstr list \<Rightarrow> bool" where
  "once_of finished value observed completed \<longleftrightarrow>
     (case value of Some v \<Rightarrow> (if replacementActive v then True else rp_id v \<in> set finished) | None \<Rightarrow> True) \<and>
     (case observed of Some x \<Rightarrow> x \<notin> set completed | None \<Rightarrow> True) \<and> set completed \<subseteq> set finished \<and> distinct completed"

definition once :: "jsstr list \<Rightarrow> replace_state \<Rightarrow> bool" where
  "once finished s \<longleftrightarrow> once_of finished (rs_value s) (rs_observed s) (rs_completed s)"

lemma completed_inactive: "rp_status v = js ''completed'' \<Longrightarrow> \<not> replacementActive v"
  by (auto simp: replacementActive_def js_inj)

lemma once_sync: "once finished s \<Longrightarrow> once finished (synchronize s)"
  using completed_inactive
  by (auto simp: once_def once_of_def synchronize_def operation_def op_of_def split: option.splits if_splits)

lemma once_poll: "once finished (start_poll s) = once finished s"
  by (simp add: start_poll_def once_def Let_def)

lemma once_commit: "once finished s \<Longrightarrow> once finished (after_change s)"
  by (simp add: after_change_def once_poll once_sync)

lemma once_fields: "rs_value t = rs_value s \<Longrightarrow> rs_observed t = rs_observed s \<Longrightarrow> rs_completed t = rs_completed s \<Longrightarrow>
    once finished t = once finished s"
  by (simp add: once_def)

lemma once_phase [simp]: "once finished (set_phase p s) = once finished s"
  by (rule once_fields) (simp_all add: set_phase_def)

lemma once_more: "once finished s \<Longrightarrow> once (finished @ more_ids) s"
  by (auto simp: once_def once_of_def split: option.splits if_splits)

lemma once_running:
  assumes "once finished s" "replacementActive v" "rp_id v \<notin> set finished"
    and "rs_observed t \<in> {rs_observed s, Some (rp_id v)}" "rs_value t = Some v" "rs_completed t = rs_completed s"
  shows "once finished t"
  using assms by (auto simp: once_def once_of_def split: option.splits)

lemma once_finished:
  assumes "once finished s" "\<not> replacementActive v"
    and "rs_observed t = rs_observed s \<or> rs_observed t = Some (rp_id v) \<and> rp_id v \<notin> set finished"
    and "rs_value t = Some v" "rs_completed t = rs_completed s"
  shows "once (finished @ [rp_id v]) t"
  using assms by (auto simp: once_def once_of_def split: option.splits)

lemma once_step:
  assumes s: "once finished s" and st: "steady finished e s"
  shows "once (finished @ finished_by e s) (replace_step e s)"
proof (cases "told e s")
  case None
  then have f: "finished_by e s = []" by (simp add: finished_by_def)
  have "once finished (replace_step e s)"
  proof (cases e)
    case (Props game version)
    have "once finished (s\<lparr>rs_game := game, rs_version := version\<rparr>)" using s by (simp add: once_def)
    then show ?thesis using Props by (simp add: replace_step_def once_commit)
  next
    case TimerFires
    then show ?thesis using s by (simp add: replace_step_def timer_fires_def split: option.split)
  next
    case (PollAnswer r)
    have k: "once finished (s\<lparr>rs_checked := True, rs_expired := True, rs_error := True\<rparr>)"
      "once finished (s\<lparr>rs_checked := True, rs_error := False\<rparr>)" "once finished (s\<lparr>rs_error := True\<rparr>)"
      using s by (simp_all add: once_def)
    show ?thesis
      using PollAnswer None s k
      by (cases r) (auto simp: replace_step_def poll_answered_def told_def once_commit split: option.splits if_splits)
  next
    case AsksStart
    then show ?thesis using s by (simp add: replace_step_def asks_def once_def)
  next
    case AsksCancel
    then show ?thesis using s by (simp add: replace_step_def ask_cancel_def asks_def once_def split: option.split)
  next
    case (StartAnswer r)
    have "once finished (s\<lparr>rs_value := None, rs_checked := False, rs_retry := Suc (rs_retry s), rs_busy := False,
        rs_calls := rs_calls s - 1\<rparr>)" using s by (simp add: once_def once_of_def)
    then show ?thesis using StartAnswer None s
      by (auto simp: replace_step_def start_answered_def told_def once_commit)
  next
    case (CancelAnswer r)
    have "once finished (s\<lparr>rs_error := True, rs_busy := False, rs_retry := Suc (rs_retry s), rs_calls := rs_calls s - 1\<rparr>)"
      using s by (simp add: once_def)
    then show ?thesis using CancelAnswer None s
      by (auto simp: replace_step_def cancel_answered_def told_def once_commit)
  next
    case AsksRefresh
    have "once finished (s\<lparr>rs_expired := False, rs_retry := Suc (rs_retry s)\<rparr>)" using s by (simp add: once_def)
    then show ?thesis using AsksRefresh by (simp add: replace_step_def refresh_def once_commit)
  qed
  then show ?thesis by (simp add: f)
next
  case (Some v)
  then have f: "finished_by e s = (if replacementActive v then [] else [rp_id v])" by (simp add: finished_by_def)
  have "once (finished @ (if replacementActive v then [] else [rp_id v])) (replace_step e s)"
  proof (cases e)
    case (PollAnswer r)
    then obtain p where p: "r = Progress v" "rs_poll s = Some p" "pg_phase p = Request" "pg_generation p = rs_generation s"
      using Some by (auto simp: told_def split: read_answer.splits option.splits if_splits)
    show ?thesis
      unfolding PollAnswer p(1) replace_step_def replace_event.case poll_answered_def p(2) option.case
      using p(3,4) st Some PollAnswer
      by (auto simp: steady_def is_start_def split: if_splits intro!: once_commit once_running [OF s] once_finished [OF s])
  next
    case (StartAnswer r)
    then have r: "r = Some v" "rs_calls s \<noteq> 0" using Some by (auto simp: told_def split: if_splits)
    show ?thesis unfolding StartAnswer r(1) replace_step_def replace_event.case start_answered_def option.case
      using r(2) st Some StartAnswer
      by (auto simp: steady_def is_start_def intro!: once_commit once_running [OF s, where v = v] once_finished [OF s, where v = v])
  next
    case (CancelAnswer r)
    then have r: "r = Some v" "rs_calls s \<noteq> 0" using Some by (auto simp: told_def split: if_splits)
    show ?thesis unfolding CancelAnswer r(1) replace_step_def replace_event.case cancel_answered_def option.case
      using r(2) st Some CancelAnswer
      by (cases "replacementActive v")
        (auto simp: steady_def is_start_def intro!: once_commit once_running [OF s, where v = v] once_finished [OF s, where v = v])
  qed (use Some in \<open>simp_all add: told_def\<close>)
  then show ?thesis by (simp only: f)
qed

lemma once_run: "once finished s \<Longrightarrow> steady_run finished es s \<Longrightarrow> \<exists>f. once f (replace_run es s)"
proof (induction es arbitrary: finished s)
  case (Cons e es)
  from Cons.IH [OF once_step [OF Cons.prems(1)]] Cons.prems(2) show ?case by (simp add: replace_run_def)
qed (auto simp: replace_run_def)

text \<open>
  The completion of a replacement is reported at most once, through any polls, restarts, cancellations, refreshes and
  changes of the page; answers of a poll that a command has overtaken are not accepted and so cannot repeat it.
\<close>

theorem completion_reported_once:
  assumes "steady_run [] es (replace_initial game version)"
  shows "distinct (rs_completed (replace_run es (replace_initial game version)))"
proof -
  have "once [] (replace_initial game version)"
    unfolding replace_initial_def by (rule once_commit) (simp add: once_def once_of_def)
  from once_run [OF this assms] show ?thesis by (auto simp: once_def once_of_def)
qed

theorem completion_reported_once_witness:
  "distinct (rs_completed (replace_run [PollAnswer NotFound, AsksStart, StartAnswer (Some (demo_replacement ''queued'')),
     TimerFires, PollAnswer (Progress (demo_replacement ''completed'')), AsksRefresh] (replace_initial (js ''g'') 1)))"
  by (rule completion_reported_once) code_simp

lemma completion_is_reported:
  "rs_completed (replace_run [PollAnswer NotFound, AsksStart, StartAnswer (Some (demo_replacement ''queued'')),
     TimerFires, PollAnswer (Progress (demo_replacement ''completed'')), AsksRefresh] (replace_initial (js ''g'') 1)) = [js ''r'']"
  by code_simp

end
