(* ===== verification/Player_Pause.thy ===== *)
theory Player_Pause
  imports Provider_Contract Content_Serving
begin

text \<open>
  Who pauses the game: the orientation gate of \<open>web/features/player/player-orientation.ts\<close> with the status of
  \<open>use-player-orientation.ts\<close>, and the pauses of the menus in \<open>use-player-surface-pause.ts\<close>. Both serialize their
  commands; a command of the runtime is cut at its \<open>await\<close>.
\<close>

section \<open>The orientation of a phone\<close>

fun mobile_on_line :: "jsstr \<Rightarrow> bool" where
  "mobile_on_line [] = False"
| "mobile_on_line (c # cs) =
     (starts_ci (c # cs) (js ''mobile'') \<or> (c \<notin> {10, 13, 0x2028, 0x2029} \<and> mobile_on_line cs))"

text \<open>\<open>/iPhone|iPod|Android.*Mobile/iu\<close>; no letter of it has a case variant outside ASCII.\<close>

fun phone_agent :: "jsstr \<Rightarrow> bool" where
  "phone_agent [] = False"
| "phone_agent (c # cs) =
     (starts_ci (c # cs) (js ''iphone'') \<or> starts_ci (c # cs) (js ''ipod'') \<or>
      (starts_ci (c # cs) (js ''android'') \<and> mobile_on_line (drop 7 (c # cs))) \<or> phone_agent cs)"

record browser_window =
  bw_mobile :: "bool option"
  bw_userAgent :: jsstr
  bw_screen :: "jsstr option"
  bw_angle :: "int option"
  bw_landscape :: bool

definition phoneLandscape :: "browser_window \<Rightarrow> bool option" where
  "phoneLandscape w =
     (let phone = (case bw_mobile w of Some m \<Rightarrow> m | None \<Rightarrow> phone_agent (bw_userAgent w)) in
      if \<not> phone then None
      else case bw_screen w of
        Some t \<Rightarrow> if t \<noteq> [] then Some (starts_with t (js ''landscape''))
                  else Some (case bw_angle w of Some a \<Rightarrow> \<bar>a\<bar> = 90 | None \<Rightarrow> bw_landscape w)
      | None \<Rightarrow> Some (case bw_angle w of Some a \<Rightarrow> \<bar>a\<bar> = 90 | None \<Rightarrow> bw_landscape w))"

text \<open>\<open>usePlayerOrientation\<close>: blocked, known and phone; \<open>None\<close> is the answer of the server, which knows nothing.\<close>

definition usePlayerOrientation :: "browser_window option \<Rightarrow> bool \<times> bool \<times> bool" where
  "usePlayerOrientation w =
     (case w of
        None \<Rightarrow> (True, False, False)
      | Some b \<Rightarrow> (phoneLandscape b = Some False, True, phoneLandscape b \<noteq> None))"

section \<open>The gate\<close>

datatype gate_stage = GateIdle | GatePausing | GateResuming

datatype gate_mark = PauseCalled | PauseDone | ResumeCalled | ManualPause | GateError

record pause_gate =
  pg_blocked :: bool
  pg_mayResume :: bool
  pg_owns :: bool
  pg_stopped :: bool
  pg_queue :: nat
  pg_stage :: gate_stage
  pg_log :: "gate_mark list"

definition new_gate :: pause_gate where
  "new_gate = \<lparr>pg_blocked = False, pg_mayResume = False, pg_owns = False, pg_stopped = False, pg_queue = 0,
     pg_stage = GateIdle, pg_log = []\<rparr>"

definition gate_log :: "gate_mark \<Rightarrow> pause_gate \<Rightarrow> pause_gate" where
  "gate_log m g = g\<lparr>pg_log := pg_log g @ [m]\<rparr>"

definition gate_update :: "bool \<Rightarrow> bool \<Rightarrow> pause_gate \<Rightarrow> pause_gate" where
  "gate_update blocked mayResume g = g\<lparr>pg_blocked := blocked, pg_mayResume := mayResume, pg_queue := Suc (pg_queue g)\<rparr>"

text \<open>The second half of a queued task, with the state the runtime reports then.\<close>

definition gate_release :: "RuntimeStateV1 \<Rightarrow> pause_gate \<Rightarrow> pause_gate" where
  "gate_release st g =
     (if \<not> pg_stopped g \<and> \<not> pg_blocked g \<and> pg_mayResume g \<and> pg_owns g \<and> st = PAUSED
      then gate_log ResumeCalled (g\<lparr>pg_owns := False, pg_stage := GateResuming\<rparr>)
      else g\<lparr>pg_stage := GateIdle\<rparr>)"

definition gate_task :: "RuntimeStateV1 \<Rightarrow> pause_gate \<Rightarrow> pause_gate" where
  "gate_task st g =
     (if pg_stage g \<noteq> GateIdle \<or> pg_queue g = 0 then g
      else
        (let g' = g\<lparr>pg_queue := pg_queue g - 1\<rparr> in
         if pg_stopped g then g'
         else if pg_blocked g \<and> st = RUNNING then gate_log PauseCalled (g'\<lparr>pg_stage := GatePausing\<rparr>)
         else gate_release st g'))"

definition gate_answered :: "bool \<Rightarrow> RuntimeStateV1 \<Rightarrow> pause_gate \<Rightarrow> pause_gate" where
  "gate_answered ok st g =
     (case pg_stage g of
        GateIdle \<Rightarrow> g
      | GatePausing \<Rightarrow>
          if ok then gate_release st (gate_log PauseDone (g\<lparr>pg_owns := True\<rparr>))
          else gate_log GateError (g\<lparr>pg_stage := GateIdle\<rparr>)
      | GateResuming \<Rightarrow> if ok then g\<lparr>pg_stage := GateIdle\<rparr> else gate_log GateError (g\<lparr>pg_stage := GateIdle\<rparr>))"

definition manualPause :: "pause_gate \<Rightarrow> pause_gate" where
  "manualPause g = gate_log ManualPause (g\<lparr>pg_owns := False\<rparr>)"

definition gate_stop :: "pause_gate \<Rightarrow> pause_gate" where
  "gate_stop g = g\<lparr>pg_stopped := True\<rparr>"

datatype gate_event =
    GateUpdate bool bool
  | GateTask RuntimeStateV1
  | GateAnswer bool RuntimeStateV1
  | GateManual
  | GateStop

definition gate_step :: "gate_event \<Rightarrow> pause_gate \<Rightarrow> pause_gate" where
  "gate_step e g =
     (case e of
        GateUpdate b m \<Rightarrow> gate_update b m g
      | GateTask st \<Rightarrow> gate_task st g
      | GateAnswer ok st \<Rightarrow> gate_answered ok st g
      | GateManual \<Rightarrow> manualPause g
      | GateStop \<Rightarrow> gate_stop g)"

definition gate_run :: "gate_event list \<Rightarrow> pause_gate" where
  "gate_run es = foldl (\<lambda>g e. gate_step e g) new_gate es"

section \<open>Pauses of the menus\<close>

datatype surface_target = ToRunning | ToPaused

text \<open>
  A queued operation with its instance and target; the head may have given its command to the runtime. \<open>pending\<close> is
  the last operation of the queue, and it is cleared when that one ends.
\<close>

record surface =
  sf_runtime :: "nat option"
  sf_queue :: "(nat option \<times> surface_target) list"
  sf_commanded :: bool
  sf_manual :: nat
  sf_errors :: nat

definition transition :: "bool \<Rightarrow> surface_target \<Rightarrow> surface \<Rightarrow> surface" where
  "transition blocked target s =
     (if blocked then s
      else
        (let s' = s\<lparr>sf_manual := Suc (sf_manual s)\<rparr> in
         if sf_queue s \<noteq> [] \<and> last (sf_queue s) = (sf_runtime s, target) then s'
         else s'\<lparr>sf_queue := sf_queue s @ [(sf_runtime s, target)]\<rparr>))"

definition wants_command :: "bool \<Rightarrow> RuntimeStateV1 \<Rightarrow> surface \<Rightarrow> bool" where
  "wants_command can st s \<longleftrightarrow>
     (case sf_queue s of
        [] \<Rightarrow> False
      | (i, target) # q \<Rightarrow>
          sf_runtime s = i \<and> i \<noteq> None \<and> can \<and>
          (target = ToPaused \<and> st = RUNNING \<or> target = ToRunning \<and> st = PAUSED))"

text \<open>The head of the queue starts: it commands the runtime, or ends at once.\<close>

definition surface_task :: "bool \<Rightarrow> RuntimeStateV1 \<Rightarrow> surface \<Rightarrow> surface" where
  "surface_task can st s =
     (if sf_commanded s \<or> sf_queue s = [] then s
      else if wants_command can st s then s\<lparr>sf_commanded := True\<rparr>
      else s\<lparr>sf_queue := tl (sf_queue s)\<rparr>)"

definition surface_answered :: "bool \<Rightarrow> surface \<Rightarrow> surface" where
  "surface_answered ok s =
     (if sf_commanded s
      then s\<lparr>sf_commanded := False, sf_queue := tl (sf_queue s), sf_errors := (if ok then sf_errors s else Suc (sf_errors s))\<rparr>
      else s)"

section \<open>The gate resumes only its own pause\<close>

definition owned :: "gate_mark list \<Rightarrow> bool" where
  "owned marks \<longleftrightarrow> (\<exists>a b. marks = a @ [PauseDone] @ b \<and> ResumeCalled \<notin> set b \<and> ManualPause \<notin> set b)"

lemma owned_append: "owned (marks @ [m]) \<longleftrightarrow> m = PauseDone \<or> (m \<noteq> ResumeCalled \<and> m \<noteq> ManualPause \<and> owned marks)"
proof
  assume "owned (marks @ [m])"
  then obtain a b where ab: "marks @ [m] = a @ [PauseDone] @ b" "ResumeCalled \<notin> set b" "ManualPause \<notin> set b"
    by (auto simp: owned_def)
  then show "m = PauseDone \<or> (m \<noteq> ResumeCalled \<and> m \<noteq> ManualPause \<and> owned marks)"
    by (cases b rule: rev_cases) (auto simp: owned_def)
next
  assume m: "m = PauseDone \<or> (m \<noteq> ResumeCalled \<and> m \<noteq> ManualPause \<and> owned marks)"
  show "owned (marks @ [m])"
  proof (cases "m = PauseDone")
    case True
    then show ?thesis unfolding owned_def by (intro exI [of _ marks] exI [of _ "[]"]) simp
  next
    case False
    with m obtain a b where "marks = a @ [PauseDone] @ b" "ResumeCalled \<notin> set b" "ManualPause \<notin> set b"
      by (auto simp: owned_def)
    with False m show ?thesis unfolding owned_def by (intro exI [of _ a] exI [of _ "b @ [m]"]) auto
  qed
qed

definition resumes_owned :: "gate_mark list \<Rightarrow> bool" where
  "resumes_owned marks \<longleftrightarrow> (\<forall>a b. marks = a @ [ResumeCalled] @ b \<longrightarrow> owned a)"

lemma resumes_append: "resumes_owned (marks @ [m]) \<longleftrightarrow> resumes_owned marks \<and> (m = ResumeCalled \<longrightarrow> owned marks)"
proof
  assume a: "resumes_owned (marks @ [m])"
  have "owned x" if "marks = x @ [ResumeCalled] @ y" for x y
    using a that unfolding resumes_owned_def by (elim allE [of _ x] allE [of _ "y @ [m]"]) simp
  moreover have "m = ResumeCalled \<Longrightarrow> owned marks"
    using a unfolding resumes_owned_def by (elim allE [of _ marks] allE [of _ "[]"]) simp
  ultimately show "resumes_owned marks \<and> (m = ResumeCalled \<longrightarrow> owned marks)" by (auto simp: resumes_owned_def)
next
  assume b: "resumes_owned marks \<and> (m = ResumeCalled \<longrightarrow> owned marks)"
  show "resumes_owned (marks @ [m])" unfolding resumes_owned_def
  proof (intro allI impI)
    fix x y assume "marks @ [m] = x @ [ResumeCalled] @ y"
    then show "owned x" using b by (cases y rule: rev_cases) (auto simp: resumes_owned_def)
  qed
qed

lemma append_two:
  "owned (marks @ [m, n]) \<longleftrightarrow> owned ((marks @ [m]) @ [n])" "resumes_owned (marks @ [m, n]) \<longleftrightarrow> resumes_owned ((marks @ [m]) @ [n])"
  by simp_all

lemma pause_gate_inv:
  assumes "pg_owns g \<longrightarrow> owned (pg_log g)" "resumes_owned (pg_log g)"
  shows "(pg_owns (gate_step e g) \<longrightarrow> owned (pg_log (gate_step e g))) \<and> resumes_owned (pg_log (gate_step e g))"
  using assms
  by (auto simp: gate_step_def gate_update_def gate_task_def gate_answered_def gate_release_def manualPause_def
      gate_stop_def gate_log_def append_two owned_append resumes_append Let_def simp del: append_assoc split: gate_event.split gate_stage.split)

text \<open>
  The gate resumes the game only after a pause that it made itself and that nothing has used up since: before every
  resume there is a pause of the gate that was done, with no other resume and no manual pause after it.
\<close>

theorem gate_resumes_own_pause: "resumes_owned (pg_log (gate_run es))"
proof -
  have "(pg_owns (gate_run es) \<longrightarrow> owned (pg_log (gate_run es))) \<and> resumes_owned (pg_log (gate_run es))"
  proof (induction es rule: rev_induct)
    case Nil
    then show ?case by (simp add: gate_run_def new_gate_def resumes_owned_def)
  next
    case (snoc e es)
    then show ?case using pause_gate_inv [of "gate_run es" e] by (simp add: gate_run_def)
  qed
  then show ?thesis ..
qed

text \<open>
  A manual pause that falls into a pending pause of the gate is forgotten: the pause then belongs to the gate, which
  resumes the game when the phone is turned back.
\<close>

theorem manual_pause_is_forgotten:
  "pg_log (gate_run [GateUpdate True False, GateTask RUNNING, GateUpdate False True, GateManual, GateAnswer True PAUSED]) =
     [PauseCalled, ManualPause, PauseDone, ResumeCalled]"
  by code_simp

section \<open>The last click wins\<close>

text \<open>
  The queue beside a runtime that obeys: a command that ends has put it into the target's state. No other command
  reaches the runtime meanwhile.
\<close>

datatype surface_event = Clicks surface_target | Starts | Ends

fun target_state :: "surface_target \<Rightarrow> RuntimeStateV1" where
  "target_state ToRunning = RUNNING"
| "target_state ToPaused = PAUSED"

definition surface_step :: "surface_event \<Rightarrow> surface \<times> RuntimeStateV1 \<Rightarrow> surface \<times> RuntimeStateV1" where
  "surface_step e x =
     (case x of (s, st) \<Rightarrow>
        (case e of
           Clicks t \<Rightarrow> (transition False t s, st)
         | Starts \<Rightarrow> (surface_task True st s, st)
         | Ends \<Rightarrow> (surface_answered True s,
             if sf_commanded s then (case sf_queue s of [] \<Rightarrow> st | (i, t) # q \<Rightarrow> target_state t) else st)))"

definition last_click :: "surface_event list \<Rightarrow> surface_target option" where
  "last_click es = (case rev (List.map_filter (\<lambda>e. case e of Clicks t \<Rightarrow> Some t | _ \<Rightarrow> None) es) of [] \<Rightarrow> None | t # ts \<Rightarrow> Some t)"

definition surface_ok :: "nat \<Rightarrow> surface_target option \<Rightarrow> surface \<times> RuntimeStateV1 \<Rightarrow> bool" where
  "surface_ok i click x \<longleftrightarrow>
     (case x of (s, st) \<Rightarrow>
        sf_runtime s = Some i \<and> list_all (\<lambda>q. fst q = Some i) (sf_queue s) \<and> st \<in> {RUNNING, PAUSED} \<and>
        (sf_commanded s \<longrightarrow> sf_queue s \<noteq> []) \<and>
        (case click of
           None \<Rightarrow> sf_queue s = []
         | Some t \<Rightarrow> if sf_queue s = [] then st = target_state t else snd (last (sf_queue s)) = t))"

lemma last_click_append: "last_click (es @ [e]) = (case e of Clicks t \<Rightarrow> Some t | _ \<Rightarrow> last_click es)"
  by (cases e) (simp_all add: last_click_def List.map_filter_def)

lemma surface_ok_click: "surface_ok i c (s, st) \<Longrightarrow> surface_ok i (Some t) (transition False t s, st)"
  by (auto simp: surface_ok_def transition_def Let_def split: option.splits if_splits)

lemma surface_ok_tl:
  assumes "surface_ok i c (s, st)" "sf_queue s = (j, t) # q"
    and "sf_runtime u = sf_runtime s" "sf_queue u = q" "\<not> sf_commanded u" "st' \<in> {RUNNING, PAUSED}" "q = [] \<Longrightarrow> st' = target_state t"
  shows "surface_ok i c (u, st')"
  using assms by (auto simp: surface_ok_def split: option.splits if_splits)

lemma surface_ok_step:
  assumes ok: "surface_ok i c (s, st)"
  shows "surface_ok i (case e of Clicks t \<Rightarrow> Some t | _ \<Rightarrow> c) (surface_step e (s, st))"
proof (cases e)
  case (Clicks t)
  then show ?thesis using surface_ok_click [OF ok] by (simp add: surface_step_def)
next
  case Starts
  show ?thesis
  proof (cases "sf_queue s")
    case Nil
    then show ?thesis using Starts ok by (simp add: surface_step_def surface_task_def)
  next
    case (Cons h q)
    obtain j t where h: "h = (j, t)" by (cases h)
    have j: "j = Some i" "sf_runtime s = Some i" "st = RUNNING \<or> st = PAUSED" using ok Cons h by (auto simp: surface_ok_def)
    have w: "wants_command True st s \<longleftrightarrow> st \<noteq> target_state t"
      using j Cons h by (cases t) (auto simp: wants_command_def)
    have d: "surface_ok i c (s\<lparr>sf_queue := q\<rparr>, st)" if "\<not> sf_commanded s" "st = target_state t"
      by (rule surface_ok_tl [OF ok Cons [unfolded h]]) (use that j in auto)
    have k: "surface_ok i c (s\<lparr>sf_commanded := True\<rparr>, st)"
      using ok Cons by (auto simp: surface_ok_def split: option.splits)
    show ?thesis using Starts Cons ok w d k by (simp add: surface_step_def surface_task_def)
  qed
next
  case Ends
  show ?thesis
  proof (cases "sf_commanded s")
    case True
    then obtain j t q where q: "sf_queue s = (j, t) # q" using ok by (cases "sf_queue s") (auto simp: surface_ok_def)
    have "surface_ok i c (surface_answered True s, target_state t)"
      by (rule surface_ok_tl [OF ok q]) (use True q in \<open>cases t; simp add: surface_answered_def\<close>)+
    then show ?thesis using Ends True q by (simp add: surface_step_def)
  qed (use Ends ok in \<open>simp add: surface_step_def surface_answered_def\<close>)
qed

definition surface_start :: "nat \<Rightarrow> surface" where
  "surface_start i = \<lparr>sf_runtime = Some i, sf_queue = [], sf_commanded = False, sf_manual = 0, sf_errors = 0\<rparr>"

text \<open>
  The last click wins: however clicks on the menu and on the game fall between the commands of a runtime that obeys,
  once the queue is empty the game is in the state the last click asked for.
\<close>

theorem last_click_wins:
  assumes "st \<in> {RUNNING, PAUSED}" "foldl (\<lambda>x e. surface_step e x) (surface_start i, st) es = (s, st')"
    and "sf_queue s = []" "last_click es = Some t"
  shows "st' = target_state t"
proof -
  have "surface_ok i (last_click es) (foldl (\<lambda>x e. surface_step e x) (surface_start i, st) es)"
  proof (induction es rule: rev_induct)
    case Nil
    then show ?case using assms(1) by (simp add: surface_ok_def surface_start_def last_click_def List.map_filter_def)
  next
    case (snoc e es)
    obtain u su where "foldl (\<lambda>x e. surface_step e x) (surface_start i, st) es = (u, su)" by force
    with snoc surface_ok_step [of i "last_click es" u su e] show ?case by (simp add: last_click_append)
  qed
  then show ?thesis using assms(2-4) by (simp add: surface_ok_def)
qed

theorem last_click_wins_witness:
  "snd (foldl (\<lambda>x e. surface_step e x) (surface_start 1, RUNNING)
     [Clicks ToPaused, Starts, Clicks ToRunning, Clicks ToPaused, Ends, Starts, Ends, Starts, Ends]) = target_state ToPaused"
proof -
  let ?es = "[Clicks ToPaused, Starts, Clicks ToRunning, Clicks ToPaused, Ends, Starts, Ends, Starts, Ends]"
  obtain s st where r: "foldl (\<lambda>x e. surface_step e x) (surface_start 1, RUNNING) ?es = (s, st)" by force
  have "sf_queue (fst (foldl (\<lambda>x e. surface_step e x) (surface_start 1, RUNNING) ?es)) = []"
    by (simp add: surface_step_def surface_start_def transition_def surface_task_def surface_answered_def wants_command_def Let_def)
  then have "sf_queue s = []" unfolding r by simp
  from last_click_wins [OF _ r this, of ToPaused] show ?thesis
    unfolding r by (simp add: last_click_def List.map_filter_def)
qed

end
