(* ===== verification/Upload_Files.thy ===== *)
theory Upload_Files
  imports Content_Serving
begin

text \<open>
  The selection of files to upload: \<open>web/features/scans/upload-files.ts\<close>. A dropped folder is the tree its reader
  lists, batch by batch, where a file or a batch may fail; the collation of the browser is a parameter.
\<close>

type_synonym 'f selected = "jsstr \<times> 'f"

section \<open>Input and dropped files\<close>

text \<open>\<open>inputEntries\<close>: a file with its path inside the chosen folder, which is empty for single files, and its name.\<close>

definition inputEntries :: "(jsstr \<times> jsstr \<times> 'f) list \<Rightarrow> 'f selected list" where
  "inputEntries files = map (\<lambda>(relative, name, f). (if relative \<noteq> [] then relative else name, f)) files"

datatype 'f tree =
    FileNode jsstr "'f option"
  | DirNode jsstr "'f tree list option list"

definition drop_slashes :: "jsstr \<Rightarrow> jsstr" where
  "drop_slashes p = dropWhile (\<lambda>c. c = slash) p"

text \<open>
  \<open>walk\<close>: the batches of a reader end with an empty one; \<open>None\<close> is a rejection.
\<close>

fun walk :: "'f tree \<Rightarrow> 'f selected list option"
  and walk_batches :: "'f tree list option list \<Rightarrow> 'f selected list option"
  and walk_children :: "'f tree list \<Rightarrow> 'f selected list option" where
  "walk (FileNode path f) = map_option (\<lambda>x. [(drop_slashes path, x)]) f"
| "walk (DirNode path batches) = walk_batches batches"
| "walk_batches [] = Some []"
| "walk_batches (b # bs) =
     (case b of
        None \<Rightarrow> None
      | Some ts \<Rightarrow>
          if ts = [] then Some []
          else (case walk_children ts of
              None \<Rightarrow> None
            | Some xs \<Rightarrow> (case walk_batches bs of None \<Rightarrow> None | Some ys \<Rightarrow> Some (xs @ ys))))"
| "walk_children [] = Some []"
| "walk_children (t # ts) =
     (case walk t of
        None \<Rightarrow> None
      | Some xs \<Rightarrow> (case walk_children ts of None \<Rightarrow> None | Some ys \<Rightarrow> Some (xs @ ys)))"

text \<open>\<open>droppedEntries\<close>: the entries of the items that are files or folders, or else the plain files.\<close>

definition droppedEntries :: "'f tree option list \<Rightarrow> (jsstr \<times> jsstr \<times> 'f) list \<Rightarrow> 'f selected list option" where
  "droppedEntries items files =
     (let roots = List.map_filter (\<lambda>i. i) items in
      if roots = [] then Some (inputEntries files) else walk_children roots)"

section \<open>The selection\<close>

definition mergeEntries :: "(jsstr \<Rightarrow> jsstr \<Rightarrow> bool) \<Rightarrow> 'f selected list \<Rightarrow> 'f selected list \<Rightarrow> 'f selected list" where
  "mergeEntries le current added =
     sort_by (\<lambda>a b. le (fst a) (fst b)) (fold (\<lambda>e. amap_put (fst e) (snd e)) added (amap_from fst snd current))"

definition singleFolder :: "'f selected list \<Rightarrow> jsstr" where
  "singleFolder entries =
     (let first = (case entries of [] \<Rightarrow> [] | e # es \<Rightarrow> hd (split_on slash (fst e))) in
      if first \<noteq> [] \<and> list_all (\<lambda>e. starts_with (fst e) (first @ [slash])) entries then first else [])"

definition unwrapFolder :: "'f selected list \<Rightarrow> jsstr \<Rightarrow> 'f selected list" where
  "unwrapFolder entries folder = map (\<lambda>e. (drop (length folder + 1) (fst e), snd e)) entries"

definition looksLikeLooseFolder :: "'f selected list \<Rightarrow> jsstr \<Rightarrow> bool" where
  "looksLikeLooseFolder entries folder \<longleftrightarrow>
     (let inner = unwrapFolder entries folder in inner \<noteq> [] \<and> list_all (\<lambda>e. slash \<notin> set (fst e)) inner)"

text \<open>\<open>/\.(png|jpe?g|webp)$/iu\<close>; its letters have no case variants outside ASCII.\<close>

definition cover_name :: "jsstr \<Rightarrow> bool" where
  "cover_name name \<longleftrightarrow>
     list_ex (\<lambda>e. ends_with (map lower_unit name) (js e)) [''.png'', ''.jpg'', ''.jpeg'', ''.webp'']"

text \<open>\<open>name.replace(/\.[^.]+$/u, "") || name\<close>.\<close>

definition dot :: code_unit where "dot = of_char CHR ''.''"

definition stem :: "jsstr \<Rightarrow> jsstr" where
  "stem name =
     (let extension = rev (takeWhile (\<lambda>c. c \<noteq> dot) (rev name));
          base = take (length name - length extension - 1) name in
      if dot \<in> set name \<and> extension \<noteq> [] \<and> base \<noteq> [] then base else name)"

definition looseTitles :: "(jsstr \<Rightarrow> jsstr \<Rightarrow> bool) \<Rightarrow> 'f selected list \<Rightarrow> jsstr list" where
  "looseTitles le entries =
     (let names = filter (\<lambda>n. \<not> starts_with n [dot]) (amap_keys (amap_from (\<lambda>e. hd (split_on slash (fst e))) (\<lambda>e. ()) entries));
          games = filter (\<lambda>name. \<not> cover_name name \<or>
            list_all (\<lambda>other. other = name \<or> stem other \<noteq> stem name \<or> cover_name other) names) names in
      sort_by le (map (\<lambda>name. if list_ex (\<lambda>e. starts_with (fst e) (name @ [slash])) entries then name else stem name) games))"

section \<open>Properties\<close>

text \<open>The files of a tree in the order of its reader, and the trees every part of which can be read.\<close>

fun tree_files :: "'f tree \<Rightarrow> (jsstr \<times> 'f) list" where
  "tree_files (FileNode path f) = (case f of None \<Rightarrow> [] | Some x \<Rightarrow> [(path, x)])"
| "tree_files (DirNode path batches) =
     concat (map (\<lambda>b. case b of None \<Rightarrow> [] | Some ts \<Rightarrow> concat (map tree_files ts)) batches)"

fun readable :: "'f tree \<Rightarrow> bool" where
  "readable (FileNode path f) \<longleftrightarrow> f \<noteq> None"
| "readable (DirNode path batches) \<longleftrightarrow>
     list_all (\<lambda>b. case b of None \<Rightarrow> False | Some ts \<Rightarrow> list_all readable ts) batches"

text \<open>The batches before the end of a listing are not empty.\<close>

fun fully_listed :: "'f tree \<Rightarrow> bool" where
  "fully_listed (FileNode path f) \<longleftrightarrow> True"
| "fully_listed (DirNode path batches) \<longleftrightarrow>
     list_all (\<lambda>b. case b of None \<Rightarrow> True | Some ts \<Rightarrow> ts \<noteq> [] \<and> list_all fully_listed ts) batches"

definition uploaded :: "(jsstr \<times> 'f) list \<Rightarrow> 'f selected list" where
  "uploaded files = map (\<lambda>(path, x). (drop_slashes path, x)) files"

lemma uploaded_append [simp]: "uploaded (a @ b) = uploaded a @ uploaded b" "uploaded [] = []"
  by (simp_all add: uploaded_def)

lemma walk_complete:
  fixes t :: "'f tree" and bs :: "'f tree list option list" and ts :: "'f tree list"
  shows "fully_listed t \<Longrightarrow> walk t = (if readable t then Some (uploaded (tree_files t)) else None)"
    and "list_all (\<lambda>b. case b of None \<Rightarrow> True | Some ts \<Rightarrow> ts \<noteq> [] \<and> list_all fully_listed ts) bs \<Longrightarrow>
      walk_batches bs = (if list_all (\<lambda>b. case b of None \<Rightarrow> False | Some ts \<Rightarrow> list_all readable ts) bs
        then Some (uploaded (concat (map (\<lambda>b. case b of None \<Rightarrow> [] | Some ts \<Rightarrow> concat (map tree_files ts)) bs))) else None)"
    and "list_all fully_listed ts \<Longrightarrow>
      walk_children ts = (if list_all readable ts then Some (uploaded (concat (map tree_files ts))) else None)"
proof (induction t and bs and ts rule: walk_walk_batches_walk_children.induct)
  case (1 path f)
  then show ?case by (cases f) (simp_all add: uploaded_def)
next
  case (4 b bs)
  then show ?case by (cases b) (auto split: if_splits)
next
  case (6 t ts)
  then show ?case by (auto split: if_splits)
qed simp_all

text \<open>
  Dropping folders selects every file in them, at any depth and in whatever batches the browser lists them, in
  that order and each with its path from the dropped folder on; when one part cannot be read, nothing is selected.
\<close>

theorem dropped_files_complete:
  assumes "roots = List.map_filter (\<lambda>i. i) items" "roots \<noteq> []" "list_all fully_listed roots"
  shows "droppedEntries items files =
    (if list_all readable roots then Some (uploaded (concat (map tree_files roots))) else None)"
  using assms walk_complete(3) [OF assms(3)] by (simp add: droppedEntries_def Let_def)

definition demo_roots :: "nat tree option list" where
  "demo_roots = [Some (DirNode (js ''/g'') [Some [FileNode (js ''/g/a'') (Some 1), DirNode (js ''/g/s'') []],
     Some [FileNode (js ''/g/b'') (Some 2)]]), None]"

theorem dropped_files_complete_witness:
  "droppedEntries demo_roots [] = Some [(js ''g/a'', 1), (js ''g/b'', 2)]"
proof -
  have r: "List.map_filter (\<lambda>i. i) demo_roots \<noteq> []" "list_all fully_listed (List.map_filter (\<lambda>i. i) demo_roots)"
    by (simp_all add: demo_roots_def List.map_filter_def)
  from dropped_files_complete [OF refl r, of "[]"] show ?thesis
    by (simp add: demo_roots_def List.map_filter_def uploaded_def drop_slashes_def slash_def js_eval)
qed

text \<open>What a collation gives: it orders any two paths, transitively.\<close>

lemma merged_keys:
  "set (mergeEntries le current added) =
     set (fold (\<lambda>e. amap_put (fst e) (snd e)) added (amap_from fst snd current))"
  by (simp add: mergeEntries_def)

lemma merged_ok: "amap_ok (fold (\<lambda>e. amap_put (fst e) (snd e)) added (amap_from fst snd current))"
proof -
  have "am.put_all fst snd added (am.put_all fst snd current []) =
      fold (\<lambda>e. amap_put (fst e) (snd e)) added (amap_from fst snd current)"
    by (simp add: am.put_all_def amap_from_def)
  then show ?thesis using am.ok_put_all [OF am.ok_put_all [OF amap_ok_Nil]] by metis
qed

lemma distinct_insert_keys: "distinct (map f (insert_by le x ys)) \<longleftrightarrow> f x \<notin> f ` set ys \<and> distinct (map f ys)"
  by (induction ys) auto

lemma distinct_sort_keys: "distinct (map f (sort_by le xs)) \<longleftrightarrow> distinct (map f xs)"
  by (induction xs) (simp_all add: distinct_insert_keys)

text \<open>The file chosen last for a path.\<close>

definition latest :: "'f selected list \<Rightarrow> jsstr \<Rightarrow> 'f option" where
  "latest entries path = map_of (rev entries) path"

text \<open>
  Adding to a selection keeps one file for each path, the one chosen last, and the list sorted by path for every
  collation that orders any two paths transitively.
\<close>

theorem merge_keeps_latest:
  assumes "\<And>a b. le a b \<or> le b a" "\<And>a b c. le a b \<Longrightarrow> le b c \<Longrightarrow> le a c"
  shows "distinct (map fst (mergeEntries le current added)) \<and>
    sorted_wrt le (map fst (mergeEntries le current added)) \<and>
    map_of (mergeEntries le current added) p = latest (current @ added) p"
proof -
  let ?m = "fold (\<lambda>e. amap_put (fst e) (snd e)) added (amap_from fst snd current)"
  have c: "comparator (\<lambda>a b :: jsstr \<times> 'b. le (fst a) (fst b))" by unfold_locales (use assms in blast)+
  have d: "distinct (map fst (mergeEntries le current added))"
    using merged_ok [of added current] by (simp add: mergeEntries_def distinct_sort_keys amap_ok_def amap_keys_def)
  have "sorted_wrt (\<lambda>a b. le (fst a) (fst b)) (mergeEntries le current added)"
    unfolding mergeEntries_def by (rule comparator.sorted_sort_by [OF c])
  then have s: "sorted_wrt le (map fst (mergeEntries le current added))" by (simp add: sorted_wrt_map)
  have put: "map_of (fold (\<lambda>e. amap_put (fst e) (snd e)) es m) p = (case map_of (rev es) p of None \<Rightarrow> map_of m p | Some v \<Rightarrow> Some v)"
    for es :: "(jsstr \<times> 'b) list" and m p
    by (induction es arbitrary: m) (auto simp: map_add_def split: option.splits)
  have "map_of ?m p = latest (current @ added) p"
    by (auto simp: put latest_def amap_from_def map_add_def split: option.split)
  moreover have "map_of (mergeEntries le current added) p = map_of ?m p"
    using d merged_ok [of added current] merged_keys [of le current added]
    by (metis (no_types, lifting) amap_keys_def amap_ok_def map_of_eq_Some_iff not_Some_eq)
  ultimately show ?thesis using d s by simp
qed

theorem merge_keeps_latest_witness:
  "map_of (mergeEntries (\<lambda>a b. length a \<le> length b) [(js ''a'', 1)] [(js ''bb'', 2), (js ''a'', 3)]) (js ''a'') = Some (3 :: nat)"
proof -
  have "map_of (mergeEntries (\<lambda>a b. length a \<le> length b) [(js ''a'', 1)] [(js ''bb'', 2), (js ''a'', 3)]) (js ''a'') =
      latest ([(js ''a'', 1)] @ [(js ''bb'', 2), (js ''a'', 3 :: nat)]) (js ''a'')"
    using merge_keeps_latest [of "\<lambda>a b. length a \<le> length b" "[(js ''a'', 1)]" "[(js ''bb'', 2), (js ''a'', 3 :: nat)]"
      "js ''a''"] by (meson le_cases order_trans)
  then show ?thesis by (simp add: latest_def js_eval)
qed

lemma unwrap_restores:
  assumes "singleFolder entries = folder" "folder \<noteq> []"
  shows "map (\<lambda>e. (folder @ [slash] @ fst e, snd e)) (unwrapFolder entries folder) = entries \<and> slash \<notin> set folder"
proof -
  from assms obtain e es where e: "entries = e # es" "folder = hd (split_on slash (fst e))"
    and a: "list_all (\<lambda>e. starts_with (fst e) (folder @ [slash])) entries"
    by (auto simp: singleFolder_def Let_def split: list.splits if_splits)
  have "slash \<notin> set folder" using split_on_no_sep [of folder slash "fst e"] e(2) by (simp add: hd_in_set)
  moreover have "folder @ [slash] @ drop (length folder + 1) (fst x) = fst x" if "x \<in> set entries" for x
    using starts_with_drop [of "fst x" "folder @ [slash]"] a that by (auto simp: list_all_iff)
  ultimately show ?thesis unfolding unwrapFolder_def by (auto intro!: map_idI simp: comp_def)
qed

end
