(* ===== verification/Resources.thy ===== *)
theory Resources
  imports Prelude
begin

text \<open>
  What the pages read: \<open>web/lib/use-resource.ts\<close>, and the polled reads of \<open>web/features/scans/use-scan-polling.ts\<close>.
  A read that its effect has replaced is aborted and publishes nothing. Loaders are numbered, and an answer carries
  the loader it came from.
\<close>

section \<open>\<open>useResource\<close>\<close>

record 'a resource =
  rc_loader :: nat
  rc_data :: "(nat \<times> 'a) option"
  rc_error :: bool
  rc_loading :: bool
  rc_source :: nat
  rc_effect :: nat
  rc_loaders :: "nat list"

definition resource_initial :: "nat \<Rightarrow> 'a resource" where
  "resource_initial l =
     \<lparr>rc_loader = l, rc_data = None, rc_error = False, rc_loading = True, rc_source = l, rc_effect = 0, rc_loaders = [l]\<rparr>"

text \<open>The effect runs again for another loader and for \<open>reload\<close>; \<open>rc_loaders\<close> keeps the loader of each effect.\<close>

definition run_effect :: "nat \<Rightarrow> 'a resource \<Rightarrow> 'a resource" where
  "run_effect l s = s\<lparr>rc_loader := l, rc_effect := length (rc_loaders s), rc_loaders := rc_loaders s @ [l]\<rparr>"

definition resource_answered :: "nat \<Rightarrow> 'a option \<Rightarrow> 'a resource \<Rightarrow> 'a resource" where
  "resource_answered k r s =
     (if k \<noteq> rc_effect s then s
      else s\<lparr>rc_data := map_option (\<lambda>d. (rc_loaders s ! k, d)) r, rc_error := (r = None), rc_loading := False,
             rc_source := rc_loaders s ! k\<rparr>)"

datatype 'a resource_event = Uses nat | Reloads | Answers nat "'a option"

definition resource_step :: "'a resource_event \<Rightarrow> 'a resource \<Rightarrow> 'a resource" where
  "resource_step e s =
     (case e of
        Uses l \<Rightarrow> if l = rc_loader s then s else run_effect l s
      | Reloads \<Rightarrow> run_effect (rc_loader s) s
      | Answers k r \<Rightarrow> resource_answered k r s)"

text \<open>What \<open>useResource\<close> returns: data, error and loading.\<close>

definition shown_resource :: "'a resource \<Rightarrow> (nat \<times> 'a) option \<times> bool \<times> bool" where
  "shown_resource s = (if rc_source s = rc_loader s then (rc_data s, rc_error s, rc_loading s) else (None, False, True))"

section \<open>\<open>useScanPolling\<close>\<close>

definition isScanRunning :: "jsstr option \<Rightarrow> bool" where
  "isScanRunning status \<longleftrightarrow> status = Some (js ''pending'') \<or> status = Some (js ''running'')"

record 'a scan_poll =
  sc_data :: "'a option"
  sc_error :: bool
  sc_loading :: bool
  sc_current :: bool
  sc_hidden :: bool
  sc_reading :: bool
  sc_timer :: bool

text \<open>\<open>read\<close> up to its \<open>await\<close>.\<close>

definition scan_read :: "'a scan_poll \<Rightarrow> 'a scan_poll" where
  "scan_read s = (if sc_reading s \<or> sc_hidden s then s\<lparr>sc_timer := False\<rparr> else s\<lparr>sc_timer := False, sc_reading := True\<rparr>)"

definition scan_initial :: "bool \<Rightarrow> 'a scan_poll" where
  "scan_initial hidden =
     scan_read \<lparr>sc_data = None, sc_error = False, sc_loading = True, sc_current = True, sc_hidden = hidden,
       sc_reading = False, sc_timer = False\<rparr>"

definition scan_answered :: "('a \<Rightarrow> bool) \<Rightarrow> 'a option \<Rightarrow> 'a scan_poll \<Rightarrow> 'a scan_poll" where
  "scan_answered isRunning r s =
     (if \<not> sc_reading s then s
      else case r of
        Some d \<Rightarrow> s\<lparr>sc_data := Some d, sc_error := False, sc_loading := False, sc_current := True, sc_reading := False,
                    sc_timer := (if isRunning d \<and> \<not> sc_hidden s then True else sc_timer s)\<rparr>
      | None \<Rightarrow> s\<lparr>sc_data := None, sc_error := True, sc_loading := False, sc_current := True, sc_reading := False\<rparr>)"

datatype 'a scan_event = Restarts bool | Visibility bool | ScanTimer | ScanAnswer "'a option"

definition scan_step :: "('a \<Rightarrow> bool) \<Rightarrow> 'a scan_event \<Rightarrow> 'a scan_poll \<Rightarrow> 'a scan_poll" where
  "scan_step isRunning e s =
     (case e of
        Restarts same \<Rightarrow> scan_read (s\<lparr>sc_reading := False, sc_timer := False, sc_current := sc_current s \<and> same\<rparr>)
      | Visibility hidden \<Rightarrow> scan_read (s\<lparr>sc_hidden := hidden, sc_timer := False\<rparr>)
      | ScanTimer \<Rightarrow> if sc_timer s then scan_read s else s
      | ScanAnswer r \<Rightarrow> scan_answered isRunning r s)"

section \<open>Properties\<close>

definition resource_ok :: "'a resource \<Rightarrow> bool" where
  "resource_ok s \<longleftrightarrow> rc_effect s < length (rc_loaders s) \<and> rc_loaders s ! rc_effect s = rc_loader s \<and>
     (case rc_data s of None \<Rightarrow> True | Some (l, d) \<Rightarrow> l = rc_source s)"

lemma resource_ok_step: "resource_ok s \<Longrightarrow> resource_ok (resource_step e s)"
  by (cases e) (auto simp: resource_ok_def resource_step_def run_effect_def resource_answered_def nth_append
      split: option.splits)

lemma resource_ok_run: "resource_ok (fold resource_step es (resource_initial l))"
proof -
  have "resource_ok s \<Longrightarrow> resource_ok (fold resource_step es s)" for s :: "'a resource"
    by (induction es arbitrary: s) (simp_all add: resource_ok_step)
  then show ?thesis by (simp add: resource_ok_def resource_initial_def)
qed

text \<open>
  A page never shows the data of another loader, in whatever order loaders change and old reads answer.
\<close>

theorem resource_shows_its_loader:
  assumes "s = fold resource_step es (resource_initial l)" "fst (shown_resource s) = Some (k, d)"
  shows "k = rc_loader s"
proof -
  have "resource_ok s" unfolding assms(1) by (rule resource_ok_run)
  then show ?thesis using assms(2) by (auto simp: shown_resource_def resource_ok_def split: if_splits)
qed

theorem resource_shows_its_loader_witness:
  "rc_loader (fold resource_step [Answers 0 (Some True), Uses 2, Answers 0 (Some False), Answers 1 (Some True)] (resource_initial 1)) = 2"
proof -
  let ?s = "fold resource_step [Answers 0 (Some True), Uses 2, Answers 0 (Some False), Answers 1 (Some True)] (resource_initial 1)"
  have "fst (shown_resource ?s) = Some (2, True)"
    by (simp add: shown_resource_def resource_step_def resource_initial_def run_effect_def resource_answered_def)
  from resource_shows_its_loader [OF refl this] show ?thesis by simp
qed

definition scan_ok :: "('a \<Rightarrow> bool) \<Rightarrow> 'a scan_poll \<Rightarrow> bool" where
  "scan_ok isRunning s \<longleftrightarrow>
     \<not> (sc_reading s \<and> sc_timer s) \<and>
     (sc_hidden s \<or> sc_reading s \<or> sc_timer s \<or> sc_error s \<or> (case sc_data s of Some d \<Rightarrow> \<not> isRunning d | None \<Rightarrow> False))"

lemma scan_ok_step: "scan_ok isRunning s \<Longrightarrow> scan_ok isRunning (scan_step isRunning e s)"
  by (cases e) (auto simp: scan_ok_def scan_step_def scan_read_def scan_answered_def split: option.splits)

text \<open>
  The reads of a scan never overlap and never stop early: at any moment at most one read or one timer is pending, and
  while the page is visible one of them is, unless an error is shown or the scan that is shown has ended.
\<close>

theorem scan_polling_continues: "scan_ok isRunning (fold (scan_step isRunning) es (scan_initial hidden))"
proof -
  have "scan_ok isRunning s \<Longrightarrow> scan_ok isRunning (fold (scan_step isRunning) es s)" for s
    by (induction es arbitrary: s) (simp_all add: scan_ok_step)
  then show ?thesis by (simp add: scan_initial_def scan_read_def scan_ok_def)
qed

end
