(* ===== verification/Save_Selection.thy ===== *)
theory Save_Selection
  imports Paging
begin

text \<open>
  Choosing a save of a game in the immersive library: \<open>web/features/immersive/use-save-selection.ts\<close>, with
  \<open>selectedEntryIndex\<close> of \<open>use-immersive-library.ts\<close>. A save is its identifier; the server answers a page request
  with the slice of its list. The empty string is no identifier.
\<close>

definition SAVE_PAGE_SIZE :: nat where "SAVE_PAGE_SIZE = 100"

datatype save_edge = EdgeFirst | EdgeLast

record save_selection =
  sel_entryId :: jsstr
  sel_offset :: "nat option"
  sel_saveId :: "jsstr option"
  sel_edge :: "save_edge option"

record restored_selection =
  rst_entryId :: jsstr
  rst_saveId :: jsstr
  rst_offset :: "nat option"

record save_request =
  rq_entryId :: jsstr
  rq_anchorId :: jsstr
  rq_offset :: "nat option"
  rq_saveId :: "jsstr option"
  rq_edge :: "save_edge option"

text \<open>\<open>entry\<close> is the identifier of the entry's game and the save it carries.\<close>

definition saveRequest :: "(jsstr \<times> jsstr option) option \<Rightarrow> restored_selection \<Rightarrow> save_selection option \<Rightarrow> save_request" where
  "saveRequest entry restored selection =
     (let entryId = (case entry of Some (i, s) \<Rightarrow> i | None \<Rightarrow> []);
          fallbackId = (case entry of Some (i, Some s) \<Rightarrow> s | _ \<Rightarrow> []);
          initial = (if rst_entryId restored = entryId then (rst_saveId restored, rst_offset restored) else (fallbackId, None));
          active = (case selection of Some s \<Rightarrow> if sel_entryId s = entryId then Some s else None | None \<Rightarrow> None) in
      \<lparr>rq_entryId = entryId, rq_anchorId = (if fst initial \<noteq> [] then fst initial else fallbackId),
       rq_offset = (case active of Some s \<Rightarrow> sel_offset s | None \<Rightarrow> snd initial),
       rq_saveId = (case active of Some s \<Rightarrow> sel_saveId s | None \<Rightarrow> Some (fst initial)),
       rq_edge = (case active of Some s \<Rightarrow> sel_edge s | None \<Rightarrow> None)\<rparr>)"

record resolved =
  rv_index :: nat
  rv_save :: "jsstr option"
  rv_hasPrevious :: bool
  rv_hasNext :: bool

definition resolveSave :: "jsstr page option \<Rightarrow> save_request \<Rightarrow> resolved" where
  "resolveSave page request =
     (case page of
        None \<Rightarrow> \<lparr>rv_index = 0, rv_save = None, rv_hasPrevious = False, rv_hasNext = False\<rparr>
      | Some p \<Rightarrow>
          (let requestedId = (if rq_edge request \<noteq> None then []
                 else case rq_saveId request of Some s \<Rightarrow> if s \<noteq> [] then s else rq_anchorId request | None \<Rightarrow> rq_anchorId request);
               index = (case find_index (\<lambda>s. s = requestedId) (pg_items p) of
                   Some i \<Rightarrow> i
                 | None \<Rightarrow> if rq_edge request = Some EdgeLast then length (pg_items p) - 1 else 0);
               save = item_at (pg_items p) index in
           \<lparr>rv_index = index, rv_save = save, rv_hasPrevious = (save \<noteq> None \<and> 0 < pg_offset p + index),
            rv_hasNext = (save \<noteq> None \<and> pg_offset p + index + 1 < pg_total p)\<rparr>))"

text \<open>
  \<open>loadSavePage\<close>: pages are read on until the save is found, from the first one, unless an offset is asked for.
  The fuel counts the requests; \<open>None\<close> when it does not suffice.
\<close>

fun load_pages :: "nat \<Rightarrow> (nat \<Rightarrow> jsstr page) \<Rightarrow> jsstr \<Rightarrow> bool \<Rightarrow> nat \<Rightarrow> jsstr page option" where
  "load_pages 0 server saveId requested offset = None"
| "load_pages (Suc fuel) server saveId requested offset =
     (let page = server offset in
      if requested \<or> saveId = [] \<or> saveId \<in> set (pg_items page) \<or> pg_items page = [] \<or>
         pg_total page \<le> offset + length (pg_items page)
      then Some page
      else load_pages fuel server saveId requested (offset + length (pg_items page)))"

definition loadSavePage :: "nat \<Rightarrow> (nat \<Rightarrow> jsstr page) \<Rightarrow> jsstr \<Rightarrow> nat option \<Rightarrow> jsstr page option" where
  "loadSavePage fuel server saveId requestedOffset =
     load_pages fuel server saveId (requestedOffset \<noteq> None) (case requestedOffset of Some n \<Rightarrow> n | None \<Rightarrow> 0)"

section \<open>The hook\<close>

definition select_save :: "jsstr page option \<Rightarrow> save_request \<Rightarrow> jsstr \<Rightarrow> save_selection option \<Rightarrow> save_selection option" where
  "select_save page request saveId selection =
     (case page of
        None \<Rightarrow> selection
      | Some p \<Rightarrow>
          if saveId \<in> set (pg_items p)
          then Some \<lparr>sel_entryId = rq_entryId request, sel_offset = rq_offset request, sel_saveId = Some saveId, sel_edge = None\<rparr>
          else selection)"

datatype save_direction = SaveLeft | SaveRight

definition move_save :: "jsstr page option \<Rightarrow> save_request \<Rightarrow> save_direction \<Rightarrow> save_selection option \<Rightarrow> save_selection option" where
  "move_save page request direction selection =
     (case (page, rv_save (resolveSave page request)) of
        (Some p, Some s) \<Rightarrow>
          (let next = int (rv_index (resolveSave page request)) + (if direction = SaveLeft then -1 else 1);
               goto = (\<lambda>offset edge. Some \<lparr>sel_entryId = rq_entryId request, sel_offset = Some offset, sel_saveId = None, sel_edge = Some edge\<rparr>) in
           if 0 \<le> next \<and> next < int (length (pg_items p)) then select_save page request (pg_items p ! nat next) selection
           else if next < 0 \<and> 0 < pg_offset p then goto (pg_offset p - SAVE_PAGE_SIZE) EdgeLast
           else if int (length (pg_items p)) \<le> next \<and> pg_offset p + length (pg_items p) < pg_total p
           then goto (pg_offset p + length (pg_items p)) EdgeFirst
           else selection)
      | _ \<Rightarrow> selection)"

text \<open>The save that may be previewed: the resolved one, or the entry's own until its page is read.\<close>

definition previewSave :: "bool \<Rightarrow> (jsstr \<times> jsstr option) option \<Rightarrow> jsstr page option \<Rightarrow> save_request \<Rightarrow> jsstr option" where
  "previewSave enabled entry page request =
     (case page of
        Some p \<Rightarrow> rv_save (resolveSave page request)
      | None \<Rightarrow>
          (case entry of
             Some (i, Some s) \<Rightarrow>
               if enabled \<and> rq_edge request = None \<and>
                  (case rq_saveId request of Some r \<Rightarrow> if r \<noteq> [] then r else rq_anchorId request | None \<Rightarrow> rq_anchorId request) = s
               then Some s else None
           | _ \<Rightarrow> None))"

definition selectedEntryIndex :: "jsstr list \<Rightarrow> jsstr \<Rightarrow> int \<Rightarrow> nat" where
  "selectedEntryIndex ids selectionId index =
     (case find_index (\<lambda>i. i = selectionId) ids of
        Some i \<Rightarrow> i
      | None \<Rightarrow> nat (max 0 (min index (int (length ids) - 1))))"

section \<open>The page that is shown\<close>

text \<open>The page of a request on a server with the list \<open>all\<close>, and the position of the save it resolves to.\<close>

definition page_of :: "jsstr list \<Rightarrow> save_request \<Rightarrow> jsstr page option" where
  "page_of all request = loadSavePage (Suc (length all)) (\<lambda>off. served all off SAVE_PAGE_SIZE) (rq_anchorId request) (rq_offset request)"

definition position_of :: "jsstr list \<Rightarrow> save_request \<Rightarrow> nat option" where
  "position_of all request =
     (case page_of all request of
        None \<Rightarrow> None
      | Some p \<Rightarrow>
          (case rv_save (resolveSave (Some p) request) of
             None \<Rightarrow> None
           | Some s \<Rightarrow> Some (pg_offset p + rv_index (resolveSave (Some p) request))))"

lemma load_served:
  "0 < fuel \<and> length all < offset + fuel \<Longrightarrow>
   \<exists>k. load_pages fuel (\<lambda>off. served all off SAVE_PAGE_SIZE) saveId requested offset = Some (served all (offset + k * SAVE_PAGE_SIZE) SAVE_PAGE_SIZE) \<and>
     (requested \<longrightarrow> k = 0) \<and> (\<not> requested \<and> saveId \<noteq> [] \<and> saveId \<in> set (drop offset all) \<longrightarrow>
       saveId \<in> set (take SAVE_PAGE_SIZE (drop (offset + k * SAVE_PAGE_SIZE) all)))"
proof (induction fuel arbitrary: offset)
  case (Suc fuel)
  let ?items = "take SAVE_PAGE_SIZE (drop offset all)"
  show ?case
  proof (cases "requested \<or> saveId = [] \<or> saveId \<in> set ?items \<or> ?items = [] \<or> length all \<le> offset + length ?items")
    case True
    have "saveId \<in> set ?items" if "\<not> requested" "saveId \<noteq> []" "saveId \<in> set (drop offset all)"
    proof -
      have "?items = drop offset all" if e: "?items = [] \<or> length all \<le> offset + length ?items"
      proof -
        have "length all - offset \<le> SAVE_PAGE_SIZE" using e by (auto simp: SAVE_PAGE_SIZE_def min_def split: if_splits)
        then show ?thesis by simp
      qed
      then have "set ?items = set (drop offset all)" if "?items = [] \<or> length all \<le> offset + length ?items" using that by metis
      then show ?thesis using True that by blast
    qed
    then show ?thesis using True by (intro exI [of _ 0]) (simp add: Let_def)
  next
    case False
    then have l: "length ?items = SAVE_PAGE_SIZE" "offset + SAVE_PAGE_SIZE < length all" by (auto simp: min_def split: if_splits)
    then have "0 < fuel \<and> length all < offset + SAVE_PAGE_SIZE + fuel" using Suc.prems by (simp add: SAVE_PAGE_SIZE_def)
    from Suc.IH [OF this] obtain k where
      k: "load_pages fuel (\<lambda>off. served all off SAVE_PAGE_SIZE) saveId requested (offset + SAVE_PAGE_SIZE) =
          Some (served all (offset + SAVE_PAGE_SIZE + k * SAVE_PAGE_SIZE) SAVE_PAGE_SIZE)"
        "requested \<longrightarrow> k = 0"
        "\<not> requested \<and> saveId \<noteq> [] \<and> saveId \<in> set (drop (offset + SAVE_PAGE_SIZE) all) \<longrightarrow>
          saveId \<in> set (take SAVE_PAGE_SIZE (drop (offset + SAVE_PAGE_SIZE + k * SAVE_PAGE_SIZE) all))" by blast
    have "drop offset all = ?items @ drop (offset + SAVE_PAGE_SIZE) all"
      by (metis append_take_drop_id drop_drop add.commute)
    then have "saveId \<in> set (drop offset all) \<Longrightarrow> saveId \<in> set (drop (offset + SAVE_PAGE_SIZE) all)"
      using False by (metis Un_iff set_append)
    then show ?thesis using False k l by (intro exI [of _ "Suc k"]) (auto simp: Let_def ac_simps)
  qed
qed auto

text \<open>Offsets that fall on the pages; the ones the page itself writes do.\<close>

definition aligned :: "save_request \<Rightarrow> bool" where
  "aligned r \<longleftrightarrow> (case rq_offset r of None \<Rightarrow> True | Some n \<Rightarrow> n mod SAVE_PAGE_SIZE = 0)"

lemma page_shape:
  assumes "aligned r"
  shows "\<exists>k. page_of all r = Some (served all (k * SAVE_PAGE_SIZE) SAVE_PAGE_SIZE) \<and> (rq_offset r \<noteq> None \<longrightarrow> rq_offset r = Some (k * SAVE_PAGE_SIZE))"
proof (cases "rq_offset r")
  case None
  from load_served [where fuel = "Suc (length all)" and all = all and offset = 0 and saveId = "rq_anchorId r" and requested = False] show ?thesis
    by (auto simp: page_of_def loadSavePage_def None)
next
  case (Some n)
  then have "n = n div SAVE_PAGE_SIZE * SAVE_PAGE_SIZE" using assms by (simp add: aligned_def mod_eq_0_iff_dvd)
  then show ?thesis by (intro exI [of _ "n div SAVE_PAGE_SIZE"]) (simp add: page_of_def loadSavePage_def Some)
qed

lemma requested_page: "rq_offset r = Some n \<Longrightarrow> page_of all r = Some (served all n SAVE_PAGE_SIZE)"
  by (simp add: page_of_def loadSavePage_def)

lemma request_selected:
  assumes "sel_entryId s = rq_entryId (saveRequest entry restored sel)"
  shows "saveRequest entry restored (Some s) =
    (saveRequest entry restored sel)\<lparr>rq_offset := sel_offset s, rq_saveId := sel_saveId s, rq_edge := sel_edge s\<rparr>"
  using assms by (simp add: saveRequest_def Let_def)

lemma resolve_named:
  assumes "distinct (pg_items p)" "i < length (pg_items p)" "pg_items p ! i \<noteq> []"
    and "rq_saveId r = Some (pg_items p ! i)" "rq_edge r = None"
  shows "rv_index (resolveSave (Some p) r) = i \<and> rv_save (resolveSave (Some p) r) = Some (pg_items p ! i)"
  using assms find_index_nth [OF assms(1,2)] by (simp add: resolveSave_def Let_def item_at_def)

lemma resolve_edge:
  assumes "[] \<notin> set (pg_items p)" "pg_items p \<noteq> []" "rq_edge r = Some e"
  shows "rv_index (resolveSave (Some p) r) = (if e = EdgeLast then length (pg_items p) - 1 else 0) \<and>
    rv_save (resolveSave (Some p) r) \<noteq> None"
proof -
  have "find_index (\<lambda>s. s = []) (pg_items p) = None" using assms(1) by (auto simp: find_index_None)
  then show ?thesis using assms by (simp add: resolveSave_def Let_def item_at_def)
qed

text \<open>One lemma per branch of \<open>move\<close>, over the index and the save the page resolves to.\<close>

lemma move_cases:
  fixes p :: "jsstr page" and r :: save_request
  defines "i \<equiv> rv_index (resolveSave (Some p) r)"
  assumes s: "rv_save (resolveSave (Some p) r) = Some s" and i: "i < length (pg_items p)"
  shows "i + 1 < length (pg_items p) \<Longrightarrow> move_save (Some p) r SaveRight sel = select_save (Some p) r (pg_items p ! (i + 1)) sel"
    and "i + 1 = length (pg_items p) \<Longrightarrow> move_save (Some p) r SaveRight sel =
      (if pg_offset p + length (pg_items p) < pg_total p
       then Some \<lparr>sel_entryId = rq_entryId r, sel_offset = Some (pg_offset p + length (pg_items p)), sel_saveId = None, sel_edge = Some EdgeFirst\<rparr>
       else sel)"
    and "i = Suc j \<Longrightarrow> move_save (Some p) r SaveLeft sel = select_save (Some p) r (pg_items p ! j) sel"
    and "i = 0 \<Longrightarrow> move_save (Some p) r SaveLeft sel =
      (if 0 < pg_offset p
       then Some \<lparr>sel_entryId = rq_entryId r, sel_offset = Some (pg_offset p - SAVE_PAGE_SIZE), sel_saveId = None, sel_edge = Some EdgeLast\<rparr>
       else sel)"
  using s i unfolding move_save_def i_def [symmetric] by (auto simp: Let_def nat_add_distrib)

lemma position_page:
  assumes "page_of all r = Some p" "rv_index (resolveSave (Some p) r) = i" "rv_save (resolveSave (Some p) r) \<noteq> None"
  shows "position_of all r = Some (pg_offset p + i)"
  using assms by (auto simp: position_of_def)

text \<open>
  Moving through the saves steps through the whole list of the game, across its pages: from a save at position
  \<open>g\<close> a move to the right selects the one at \<open>g + 1\<close> and a move to the left the one at \<open>g - 1\<close>, and at the ends of
  the list nothing changes.
\<close>

definition moves_to :: "save_direction \<Rightarrow> nat \<Rightarrow> nat \<Rightarrow> nat option" where
  "moves_to d g n = (case d of SaveLeft \<Rightarrow> if 0 < g then Some (g - 1) else None | SaveRight \<Rightarrow> if g + 1 < n then Some (g + 1) else None)"

text \<open>The request after a save of the page was selected, and after a move over the edge of a page.\<close>

lemma move_inside:
  assumes "r = saveRequest entry restored sel" "aligned r" "page_of all r = Some p" "p = served all (k * SAVE_PAGE_SIZE) SAVE_PAGE_SIZE"
    and "distinct all" "[] \<notin> set all" "j < length (pg_items p)" "m = select_save (Some p) r (pg_items p ! j) sel"
  shows "position_of all (saveRequest entry restored m) = Some (k * SAVE_PAGE_SIZE + j) \<and> aligned (saveRequest entry restored m)"
proof -
  have mem: "pg_items p ! j \<in> set (pg_items p)" using assms(7) by (rule nth_mem)
  have dp: "distinct (pg_items p)" "[] \<notin> set (pg_items p)"
    using assms(5,6) by (auto simp: assms(4) dest!: in_set_takeD in_set_dropD)
  then have ne: "pg_items p ! j \<noteq> []" using mem by metis
  let ?r = "r\<lparr>rq_saveId := Some (pg_items p ! j), rq_edge := None\<rparr>"
  have q: "saveRequest entry restored m = ?r"
    using assms(8) mem request_selected [of "\<lparr>sel_entryId = rq_entryId r, sel_offset = rq_offset r, sel_saveId = Some (pg_items p ! j), sel_edge = None\<rparr>" entry restored sel]
    by (simp add: select_save_def assms(1))
  have pg: "page_of all ?r = Some p" using assms(3) by (simp add: page_of_def)
  have "rv_index (resolveSave (Some p) ?r) = j \<and> rv_save (resolveSave (Some p) ?r) = Some (pg_items p ! j)"
    by (rule resolve_named) (use assms(7) dp ne in simp_all)
  then show ?thesis using position_page [OF pg] assms(2,4) by (simp add: q aligned_def)
qed

lemma move_over:
  assumes "r = saveRequest entry restored sel" "[] \<notin> set all" "h * SAVE_PAGE_SIZE < length all"
    and "m = Some \<lparr>sel_entryId = rq_entryId r, sel_offset = Some (h * SAVE_PAGE_SIZE), sel_saveId = None, sel_edge = Some e\<rparr>"
  shows "position_of all (saveRequest entry restored m) =
      Some (h * SAVE_PAGE_SIZE + (if e = EdgeLast then length (take SAVE_PAGE_SIZE (drop (h * SAVE_PAGE_SIZE) all)) - 1 else 0)) \<and>
      aligned (saveRequest entry restored m)"
proof -
  let ?q = "served all (h * SAVE_PAGE_SIZE) SAVE_PAGE_SIZE" and ?r = "r\<lparr>rq_offset := Some (h * SAVE_PAGE_SIZE), rq_saveId := None, rq_edge := Some e\<rparr>"
  have pos: "0 < SAVE_PAGE_SIZE" by (simp add: SAVE_PAGE_SIZE_def)
  have q: "saveRequest entry restored m = ?r" using assms(4) request_selected [of "the m" entry restored sel] assms(1) by simp
  have "[] \<notin> set (pg_items ?q)" "pg_items ?q \<noteq> []" using assms(2,3) pos by (auto dest!: in_set_takeD in_set_dropD)
  from resolve_edge [OF this, of ?r e] show ?thesis
    using position_page [OF requested_page, of ?r "h * SAVE_PAGE_SIZE" all] by (simp add: q aligned_def)
qed

text \<open>A move from position \<open>g\<close> lands where \<open>moves_to\<close> says; first to the right, then to the left, from save \<open>i\<close> of page \<open>k\<close>.\<close>

definition lands :: "jsstr list \<Rightarrow> (save_selection option \<Rightarrow> save_request) \<Rightarrow> nat option \<Rightarrow> save_selection option \<Rightarrow> save_selection option \<Rightarrow> bool" where
  "lands all request target sel m \<longleftrightarrow>
     (case target of None \<Rightarrow> m = sel | Some g' \<Rightarrow> position_of all (request m) = Some g' \<and> aligned (request m))"

lemma move_right:
  assumes d: "distinct all" "[] \<notin> set all" and r: "r = saveRequest entry restored sel" and al: "aligned r"
    and pg: "page_of all r = Some p" "p = served all (k * SAVE_PAGE_SIZE) SAVE_PAGE_SIZE"
    and s: "rv_save (resolveSave (Some p) r) = Some v" "rv_index (resolveSave (Some p) r) = i" "i < length (pg_items p)"
  shows "lands all (saveRequest entry restored) (moves_to SaveRight (k * SAVE_PAGE_SIZE + i) (length all)) sel (move_save (Some p) r SaveRight sel)"
proof -
  define m where "m = move_save (Some p) r SaveRight sel"
  have mc: "rv_save (resolveSave (Some p) r) = Some v" "rv_index (resolveSave (Some p) r) < length (pg_items p)" using s by simp_all
  have all_len: "k * SAVE_PAGE_SIZE + length (pg_items p) \<le> length all" using s(3) pg(2) by auto
  consider "i + 1 < length (pg_items p)" | "i + 1 = length (pg_items p)" "k * SAVE_PAGE_SIZE + i + 1 < length all"
    | "i + 1 = length (pg_items p)" "\<not> k * SAVE_PAGE_SIZE + i + 1 < length all" using s(3) by linarith
  then have "lands all (saveRequest entry restored) (moves_to SaveRight (k * SAVE_PAGE_SIZE + i) (length all)) sel m"
  proof cases
    case 1
    have "m = select_save (Some p) r (pg_items p ! (i + 1)) sel" using move_cases(1) [OF mc] 1 s(2) by (simp add: m_def)
    then show ?thesis using move_inside [OF r al pg d 1] 1 all_len by (simp add: moves_to_def lands_def)
  next
    case 2
    then have full: "length (pg_items p) = SAVE_PAGE_SIZE" using pg(2) by (auto simp: min_def split: if_splits)
    have "m = Some \<lparr>sel_entryId = rq_entryId r, sel_offset = Some (Suc k * SAVE_PAGE_SIZE), sel_saveId = None, sel_edge = Some EdgeFirst\<rparr>"
      using move_cases(2) [OF mc] 2 s(2) full by (simp add: m_def pg(2) add.commute)
    moreover have "Suc k * SAVE_PAGE_SIZE < length all" "k * SAVE_PAGE_SIZE + i + 1 = Suc k * SAVE_PAGE_SIZE" using 2 full by simp_all
    ultimately show ?thesis using move_over [OF r d(2), of "Suc k" m EdgeFirst] 2(2) by (simp add: moves_to_def lands_def)
  next
    case 3
    then have "m = sel" using move_cases(2) [OF mc] s(2) by (simp add: m_def pg(2))
    then show ?thesis using 3 by (simp add: moves_to_def lands_def)
  qed
  then show ?thesis by (simp add: m_def)
qed

lemma move_left:
  assumes d: "distinct all" "[] \<notin> set all" and r: "r = saveRequest entry restored sel" and al: "aligned r"
    and pg: "page_of all r = Some p" "p = served all (k * SAVE_PAGE_SIZE) SAVE_PAGE_SIZE"
    and s: "rv_save (resolveSave (Some p) r) = Some v" "rv_index (resolveSave (Some p) r) = i" "i < length (pg_items p)"
  shows "lands all (saveRequest entry restored) (moves_to SaveLeft (k * SAVE_PAGE_SIZE + i) (length all)) sel (move_save (Some p) r SaveLeft sel)"
proof -
  define m where "m = move_save (Some p) r SaveLeft sel"
  have mc: "rv_save (resolveSave (Some p) r) = Some v" "rv_index (resolveSave (Some p) r) < length (pg_items p)" using s by simp_all
  have pos: "0 < SAVE_PAGE_SIZE" by (simp add: SAVE_PAGE_SIZE_def)
  have all_len: "k * SAVE_PAGE_SIZE + i < length all" using s(3) pg(2) by auto
  consider j where "i = Suc j" | h where "i = 0" "k = Suc h" | "i = 0" "k = 0" by (cases i; cases k) auto
  then have "lands all (saveRequest entry restored) (moves_to SaveLeft (k * SAVE_PAGE_SIZE + i) (length all)) sel m"
  proof cases
    case (1 j)
    have "m = select_save (Some p) r (pg_items p ! j) sel" using move_cases(3) [OF mc] 1 s(2) by (simp add: m_def)
    then show ?thesis using move_inside [OF r al pg d, of j m] 1 s(3) by (simp add: moves_to_def lands_def)
  next
    case (2 h)
    have "m = Some \<lparr>sel_entryId = rq_entryId r, sel_offset = Some (h * SAVE_PAGE_SIZE), sel_saveId = None, sel_edge = Some EdgeLast\<rparr>"
      using move_cases(4) [OF mc] 2 s(2) pos by (simp add: m_def pg(2))
    moreover have "length (take SAVE_PAGE_SIZE (drop (h * SAVE_PAGE_SIZE) all)) = SAVE_PAGE_SIZE" "h * SAVE_PAGE_SIZE < length all"
      using all_len 2 by simp_all
    ultimately show ?thesis using move_over [OF r d(2), of h m EdgeLast] 2 pos by (simp add: moves_to_def lands_def)
  next
    case 3
    then have "m = sel" using move_cases(4) [OF mc] s(2) by (simp add: m_def pg(2))
    then show ?thesis using 3 by (simp add: moves_to_def lands_def)
  qed
  then show ?thesis by (simp add: m_def)
qed

lemma move_result:
  assumes d: "distinct all" "[] \<notin> set all" and r: "r = saveRequest entry restored sel" and al: "aligned r"
    and g: "position_of all r = Some g"
  shows "(case moves_to dir g (length all) of
      None \<Rightarrow> move_save (page_of all r) r dir sel = sel
    | Some g' \<Rightarrow> position_of all (saveRequest entry restored (move_save (page_of all r) r dir sel)) = Some g' \<and>
        aligned (saveRequest entry restored (move_save (page_of all r) r dir sel)))"
proof -
  from page_shape [OF al, of all] obtain k where k: "page_of all r = Some (served all (k * SAVE_PAGE_SIZE) SAVE_PAGE_SIZE)" by blast
  let ?p = "served all (k * SAVE_PAGE_SIZE) SAVE_PAGE_SIZE"
  define i where "i = rv_index (resolveSave (Some ?p) r)"
  obtain s where s: "rv_save (resolveSave (Some ?p) r) = Some s" "g = k * SAVE_PAGE_SIZE + i"
    using g k by (auto simp: position_of_def i_def split: option.splits)
  have i: "i < length (pg_items ?p)" using s(1) by (auto simp: resolveSave_def Let_def i_def item_at_Some)
  show ?thesis
    using move_right [OF d r al k refl s(1) i_def [symmetric] i] move_left [OF d r al k refl s(1) i_def [symmetric] i]
    by (cases dir) (simp_all only: lands_def k s(2))
qed


definition sample_saves :: "jsstr list" where
  "sample_saves = map (\<lambda>n. [word_of_nat (Suc n)]) [0..<3]"


text \<open>An address may name any offset. From the first save of a page that starts inside the first hundred the move to the
  left asks for the page at the start of the list and takes its last save, further right than the save it left.\<close>

lemma left_moves_forward:
  fixes p :: "jsstr page"
  assumes "rv_save (resolveSave (Some p) r) = Some s" "rv_index (resolveSave (Some p) r) = 0" "pg_items p \<noteq> []"
    and "0 < pg_offset p" "pg_offset p < SAVE_PAGE_SIZE"
  shows "move_save (Some p) r SaveLeft sel =
    Some \<lparr>sel_entryId = rq_entryId r, sel_offset = Some 0, sel_saveId = None, sel_edge = Some EdgeLast\<rparr>"
  using move_cases(4) [OF assms(1)] assms by simp

end
