(* ===== verification/Player_Controls.thy ===== *)
theory Player_Controls
  imports Provider_Contract Content_Serving Gamepad_Properties Chord_Detector
begin

text \<open>
  Keys and gamepads of the player: \<open>web/features/player/use-player-controls.ts\<close> with
  \<open>player-menu-navigation.ts\<close>. One step is a frame of the gamepad source, a key, or the effect that applies the input
  filter; it logs what it asks of the page and of the runtime. The document is a parameter of the step: a click
  does not move the focus while the actions of one frame are dispatched.
\<close>

section \<open>The page\<close>

datatype control_kind =
    ButtonControl
  | SelectControl nat int
  | RangeControl rat
  | OtherControl

text \<open>
  The focused element, the shown controls of the menu, what an element is, the dialogue around the focus, the first
  one of the player and the first one at all, the controls of a dialogue, and whether it takes Escape for itself.
\<close>

record player_page =
  pp_active :: "nat option"
  pp_menu :: "nat list"
  pp_kind :: "nat \<Rightarrow> control_kind"
  pp_closest :: "nat option"
  pp_player_dialog :: "nat option"
  pp_any_dialog :: "nat option"
  pp_controls :: "nat \<Rightarrow> nat list"
  pp_prevents :: "nat \<Rightarrow> bool"

datatype control_effect =
    ApplyFilter nat "int option" bool
  | FilterFailed
  | CallMenu
  | CallPause
  | CallCancel
  | PreventDefault
  | FocusOn nat
  | ClickOn nat
  | SelectAt nat int
  | RangeAt nat rat

section \<open>\<open>player-menu-navigation.ts\<close>\<close>

text \<open>\<open>(index + direction + length) % length\<close>, where the index is \<open>-1\<close> for an element that is not in the list.\<close>

definition wrapped :: "nat option \<Rightarrow> int \<Rightarrow> 'a list \<Rightarrow> 'a option" where
  "wrapped i step xs =
     (if xs = [] then None
      else item_at xs (nat (((case i of Some k \<Rightarrow> int k | None \<Rightarrow> -1) + step + int (length xs)) mod int (length xs))))"

definition focusPlayerMenu :: "player_page \<Rightarrow> control_effect list" where
  "focusPlayerMenu p = (case pp_menu p of [] \<Rightarrow> [] | c # cs \<Rightarrow> [FocusOn c])"

definition adjustControl :: "player_page \<Rightarrow> int \<Rightarrow> control_effect list" where
  "adjustControl p step =
     (case pp_active p of
        None \<Rightarrow> []
      | Some c \<Rightarrow>
          (case pp_kind p c of
             SelectControl n i \<Rightarrow> [SelectAt c (max 0 (min (int n - 1) (i + step)))]
           | RangeControl v \<Rightarrow> [RangeAt c (max 0 (min 100 (v + of_int step * 5)))]
           | _ \<Rightarrow> []))"

definition in_list :: "nat option \<Rightarrow> nat list \<Rightarrow> nat option" where
  "in_list active xs = (case active of None \<Rightarrow> None | Some c \<Rightarrow> find_index (\<lambda>x. x = c) xs)"

definition navigatePlayerMenu :: "player_page \<Rightarrow> action \<Rightarrow> control_effect list" where
  "navigatePlayerMenu p a =
     (case a of
        Confirm \<Rightarrow> (case pp_active p of Some c \<Rightarrow> if pp_kind p c = ButtonControl then [ClickOn c] else [] | None \<Rightarrow> [])
      | Move DLeft \<Rightarrow> adjustControl p (-1)
      | Move DRight \<Rightarrow> adjustControl p 1
      | Move d \<Rightarrow>
          (case wrapped (in_list (pp_active p) (pp_menu p)) (if d = DUp then -1 else 1) (pp_menu p) of
             Some c \<Rightarrow> [FocusOn c] | None \<Rightarrow> [])
      | _ \<Rightarrow> [])"

text \<open>The focused element after some effects.\<close>

primrec focused_after :: "control_effect list \<Rightarrow> nat option \<Rightarrow> nat option" where
  "focused_after [] active = active"
| "focused_after (e # es) active = focused_after es (case e of FocusOn c \<Rightarrow> Some c | _ \<Rightarrow> active)"

definition refocus :: "control_effect list \<Rightarrow> player_page \<Rightarrow> player_page" where
  "refocus es p = p\<lparr>pp_active := focused_after es (pp_active p)\<rparr>"

section \<open>Dispatching\<close>

text \<open>\<open>dispatchDialog\<close>: the panel and its controls are read once, the focus before each action.\<close>

definition dialog_panel :: "player_page \<Rightarrow> nat option" where
  "dialog_panel p =
     (case pp_closest p of Some d \<Rightarrow> Some d | None \<Rightarrow> (case pp_player_dialog p of Some d \<Rightarrow> Some d | None \<Rightarrow> pp_any_dialog p))"

definition dialog_action :: "nat \<Rightarrow> player_page \<Rightarrow> action \<Rightarrow> control_effect list" where
  "dialog_action panel p a =
     (case a of
        Cancel \<Rightarrow> if pp_prevents p panel then [] else [CallCancel]
      | Confirm \<Rightarrow>
          (case pp_active p of
             Some c \<Rightarrow> if pp_kind p c = ButtonControl \<and> c \<in> set (pp_controls p panel) then [ClickOn c] else []
           | None \<Rightarrow> [])
      | Move d \<Rightarrow>
          (case wrapped (in_list (pp_active p) (pp_controls p panel)) (if d \<in> {DLeft, DUp} then -1 else 1) (pp_controls p panel) of
             Some c \<Rightarrow> [FocusOn c] | None \<Rightarrow> [])
      | _ \<Rightarrow> [])"

primrec dialog_actions :: "nat \<Rightarrow> action list \<Rightarrow> player_page \<Rightarrow> control_effect list" where
  "dialog_actions panel [] p = []"
| "dialog_actions panel (a # as) p = dialog_action panel p a @ dialog_actions panel as (refocus (dialog_action panel p a) p)"

definition dispatchDialog :: "action list \<Rightarrow> player_page \<Rightarrow> control_effect list" where
  "dispatchDialog as p = (case dialog_panel p of None \<Rightarrow> [] | Some panel \<Rightarrow> dialog_actions panel as p)"

primrec menu_actions :: "action list \<Rightarrow> player_page \<Rightarrow> control_effect list" where
  "menu_actions [] p = []"
| "menu_actions (a # as) p =
     (let es = (if a \<in> {Cancel, Menu} then [CallMenu] else navigatePlayerMenu p a) in es @ menu_actions as (refocus es p))"

section \<open>The state of the hook\<close>

record control_config =
  cf_suppress :: bool
  cf_menuOpen :: bool
  cf_immersive :: bool
  cf_dialogOpen :: bool
  cf_state :: "RuntimeStateV1 option"

text \<open>\<open>runtime.current\<close>: the instance, its state, its input filter capability and its host shortcuts.\<close>

record runtime_view =
  rt_instance :: nat
  rt_state :: RuntimeStateV1
  rt_filter :: bool
  rt_menu :: bool
  rt_pause :: bool

record pad_frame =
  fr_suspended :: bool
  fr_gamepads :: "gamepad list"
  fr_now :: rat

text \<open>
  \<open>pc_filtered\<close> is the filter key, \<open>None\<close> for the empty string; \<open>pc_active\<close> the index kept by \<open>active-gamepad.ts\<close>. The last
  three fields are histories that nothing reads: what navigation and detector were given since their last reset, and
  every effect.
\<close>

record player_controls =
  pc_config :: control_config
  pc_active :: "int option"
  pc_index :: "int option"
  pc_filtered :: "(int option \<times> bool) option"
  pc_instance :: "nat option"
  pc_claim :: claim
  pc_navigation :: navigation
  pc_chord :: detector
  pc_pads :: "frame list"
  pc_samples :: "sample list"
  pc_log :: "control_effect list"

definition controls_initial :: "control_config \<Rightarrow> int option \<Rightarrow> player_controls" where
  "controls_initial cfg active =
     \<lparr>pc_config = cfg, pc_active = active, pc_index = active, pc_filtered = None, pc_instance = None, pc_claim = [],
      pc_navigation = new_navigation False, pc_chord = detector_reset, pc_pads = [], pc_samples = [], pc_log = []\<rparr>"

definition can_play :: "runtime_view \<Rightarrow> bool" where
  "can_play rt \<longleftrightarrow> rt_state rt = RUNNING \<or> rt_state rt = PAUSED"

definition applyFilter :: "runtime_view \<Rightarrow> int option \<Rightarrow> bool \<Rightarrow> control_effect list" where
  "applyFilter rt i suppress = (if rt_filter rt then [ApplyFilter (rt_instance rt) i suppress] else [])"

definition say :: "control_effect list \<Rightarrow> player_controls \<Rightarrow> player_controls" where
  "say es s = s\<lparr>pc_log := pc_log s @ es\<rparr>"

definition reset_navigation :: "player_controls \<Rightarrow> player_controls" where
  "reset_navigation s = s\<lparr>pc_navigation := nav_reset 120 (pc_navigation s), pc_pads := []\<rparr>"

definition reset_chord :: "player_controls \<Rightarrow> player_controls" where
  "reset_chord s = s\<lparr>pc_chord := detector_reset, pc_samples := []\<rparr>"

definition read_navigation :: "gamepad option \<Rightarrow> rat \<Rightarrow> player_controls \<Rightarrow> action list \<times> player_controls" where
  "read_navigation g t s =
     (actions (fst (nav_update g t (pc_navigation s))),
      s\<lparr>pc_navigation := snd (nav_update g t (pc_navigation s)), pc_pads := pc_pads s @ [(g, t)]\<rparr>)"

text \<open>\<open>buttonPressed(gamepad?.buttons[i])\<close>\<close>

definition pad_button :: "gamepad option \<Rightarrow> nat \<Rightarrow> bool" where
  "pad_button g i = (case g of None \<Rightarrow> False | Some p \<Rightarrow> buttonPressed (item_at (buttons p) i))"

definition dispatchGamepadMenu :: "player_page \<Rightarrow> gamepad option \<Rightarrow> rat \<Rightarrow> player_controls \<Rightarrow> player_controls" where
  "dispatchGamepadMenu p g t s =
     (if cf_dialogOpen (pc_config s) then (case read_navigation g t s of (as, s') \<Rightarrow> say (dispatchDialog as p) s')
      else if cf_menuOpen (pc_config s) then (case read_navigation g t s of (as, s') \<Rightarrow> say (menu_actions as p) s')
      else reset_navigation s)"

definition dispatchImmersiveGamepad :: "player_page \<Rightarrow> gamepad option \<Rightarrow> rat \<Rightarrow> player_controls \<Rightarrow> player_controls" where
  "dispatchImmersiveGamepad p g t s =
     (if cf_dialogOpen (pc_config s)
      then (case read_navigation g t (reset_chord s) of (as, s') \<Rightarrow> say (dispatchDialog as p) s')
      else
        (let s' = reset_navigation s in
         if cf_suppress (pc_config s) then s'
         else
           (let r = detector_update (pad_button g 8) (pad_button g 9) (Fin t) (pc_chord s') in
            say (if openMenu (fst r) then [CallMenu] else [])
              (s'\<lparr>pc_chord := snd r, pc_samples := pc_samples s' @ [((pad_button g 8, pad_button g 9), Fin t)]\<rparr>))))"

text \<open>The listener of the gamepad source: the claim of a gamepad, and the filter when its key or the instance changed.\<close>

definition claim_pad :: "gamepad list \<Rightarrow> player_controls \<Rightarrow> player_controls" where
  "claim_pad gs s =
     (let r = claim_update gs (pc_claim s); kept = (if \<exists>g \<in> set gs. Some (index g) = pc_index s then pc_index s else None) in
      if kept = None \<and> fst (fst r) \<noteq> None
      then s\<lparr>pc_claim := snd r, pc_index := fst (fst r), pc_active := fst (fst r)\<rparr>
      else s\<lparr>pc_claim := snd r, pc_index := kept\<rparr>)"

definition refilter :: "runtime_view \<Rightarrow> player_controls \<Rightarrow> player_controls" where
  "refilter rt s =
     (let key = (pc_index s, cf_suppress (pc_config s)) in
      if pc_instance s \<noteq> Some (rt_instance rt) \<or> pc_filtered s \<noteq> Some key
      then say (applyFilter rt (pc_index s) (cf_suppress (pc_config s)))
             (s\<lparr>pc_instance := Some (rt_instance rt), pc_filtered := Some key\<rparr>)
      else s)"

definition on_frame :: "player_page \<Rightarrow> runtime_view option \<Rightarrow> pad_frame \<Rightarrow> player_controls \<Rightarrow> player_controls" where
  "on_frame p runtime fr s =
     (case runtime of
        None \<Rightarrow> s
      | Some rt \<Rightarrow>
          if \<not> can_play rt then s
          else if fr_suspended fr
          then say (applyFilter rt (pc_index s) True) ((reset_navigation s)\<lparr>pc_filtered := None\<rparr>)
          else
            (let s1 = refilter rt (claim_pad (fr_gamepads fr) s);
                 g = find (\<lambda>g. Some (index g) = pc_index s1) (fr_gamepads fr) in
             if cf_immersive (pc_config s1) then dispatchImmersiveGamepad p g (fr_now fr) s1
             else dispatchGamepadMenu p g (fr_now fr) s1))"

text \<open>The effect of the filter runs with new options, when suppression or the state of the runtime changed.\<close>

definition on_options :: "control_config \<Rightarrow> runtime_view option \<Rightarrow> player_controls \<Rightarrow> player_controls" where
  "on_options cfg runtime s =
     (let s' = s\<lparr>pc_config := cfg\<rparr> in
      if cf_suppress cfg = cf_suppress (pc_config s) \<and> cf_state cfg = cf_state (pc_config s) then s'
      else case runtime of
        None \<Rightarrow> s'
      | Some rt \<Rightarrow> if can_play rt then say (applyFilter rt (pc_active s) (cf_suppress cfg)) s' else s')"

section \<open>Keys\<close>

record key_event =
  ke_key :: jsstr
  ke_code :: jsstr
  ke_prevented :: bool
  ke_repeat :: bool
  ke_composing :: bool
  ke_modified :: bool
  ke_in_field :: bool

text \<open>\<open>ke_modified\<close> is Control, Alt or Meta; \<open>ke_in_field\<close> a target inside an input, select, textarea or editable element.\<close>

definition keyboardOwnedByOverlay :: "key_event \<Rightarrow> control_config \<Rightarrow> bool" where
  "keyboardOwnedByOverlay e cfg \<longleftrightarrow>
     ke_prevented e \<or> cf_dialogOpen cfg \<or> (cf_suppress cfg \<and> \<not> cf_menuOpen cfg) \<or>
     ke_repeat e \<or> ke_composing e \<or> ke_modified e \<or> ke_in_field e"

definition menuKeys :: "jsstr \<Rightarrow> action option" where
  "menuKeys key = map_of [(js ''ArrowUp'', Move DUp), (js ''ArrowDown'', Move DDown), (js ''ArrowLeft'', Move DLeft),
     (js ''ArrowRight'', Move DRight), (js ''Enter'', Confirm)] key"

definition handleKeyboard :: "player_page \<Rightarrow> key_event \<Rightarrow> runtime_view option \<Rightarrow> control_config \<Rightarrow> control_effect list" where
  "handleKeyboard p e runtime cfg =
     (case runtime of
        None \<Rightarrow> []
      | Some rt \<Rightarrow>
          if \<not> can_play rt then []
          else if cf_immersive cfg
          then (if map lower_unit (ke_key e) = js ''m'' \<and> rt_menu rt then [PreventDefault, CallMenu] else [])
          else if ke_key e = js ''Escape'' \<and> rt_menu rt then [PreventDefault, CallMenu]
          else if (ke_key e = js ''Pause'' \<or> ke_code e = js ''KeyP'') \<and> rt_pause rt then [PreventDefault, CallPause]
          else if cf_menuOpen cfg
          then (case menuKeys (ke_key e) of Some a \<Rightarrow> PreventDefault # navigatePlayerMenu p a | None \<Rightarrow> [])
          else [])"

definition on_key :: "player_page \<Rightarrow> key_event \<Rightarrow> runtime_view option \<Rightarrow> player_controls \<Rightarrow> player_controls" where
  "on_key p e runtime s =
     (if keyboardOwnedByOverlay e (pc_config s) then s else say (handleKeyboard p e runtime (pc_config s)) s)"

datatype control_event =
    OnFrame player_page "runtime_view option" pad_frame
  | OnOptions control_config "runtime_view option"
  | OnKey player_page key_event "runtime_view option"
  | OnFilterFailure

definition control_step :: "control_event \<Rightarrow> player_controls \<Rightarrow> player_controls" where
  "control_step e s =
     (case e of
        OnFrame p rt fr \<Rightarrow> on_frame p rt fr s
      | OnOptions cfg rt \<Rightarrow> on_options cfg rt s
      | OnKey p k rt \<Rightarrow> on_key p k rt s
      | OnFilterFailure \<Rightarrow> say [FilterFailed] s)"

section \<open>What the gamepad does\<close>

lemma say_simps [simp]:
  "pc_log (say es s) = pc_log s @ es" "pc_config (say es s) = pc_config s" "pc_index (say es s) = pc_index s"
  "pc_navigation (say es s) = pc_navigation s" "pc_chord (say es s) = pc_chord s"
  "pc_pads (say es s) = pc_pads s" "pc_samples (say es s) = pc_samples s"
  by (simp_all add: say_def)

lemma reset_simps [simp]:
  "pc_log (reset_navigation s) = pc_log s" "pc_config (reset_navigation s) = pc_config s" "pc_index (reset_navigation s) = pc_index s"
  "pc_chord (reset_navigation s) = pc_chord s" "pc_samples (reset_navigation s) = pc_samples s"
  "pc_log (reset_chord s) = pc_log s" "pc_config (reset_chord s) = pc_config s" "pc_index (reset_chord s) = pc_index s"
  "pc_navigation (reset_chord s) = pc_navigation s" "pc_pads (reset_chord s) = pc_pads s"
  by (simp_all add: reset_navigation_def reset_chord_def)

lemma claim_simps [simp]:
  "pc_log (claim_pad gs s) = pc_log s" "pc_config (claim_pad gs s) = pc_config s" "pc_navigation (claim_pad gs s) = pc_navigation s"
  "pc_chord (claim_pad gs s) = pc_chord s" "pc_pads (claim_pad gs s) = pc_pads s" "pc_samples (claim_pad gs s) = pc_samples s"
  by (simp_all add: claim_pad_def Let_def)

lemma refilter_simps [simp]:
  "pc_config (refilter rt s) = pc_config s" "pc_navigation (refilter rt s) = pc_navigation s" "pc_index (refilter rt s) = pc_index s"
  "pc_chord (refilter rt s) = pc_chord s" "pc_pads (refilter rt s) = pc_pads s" "pc_samples (refilter rt s) = pc_samples s"
  by (simp_all add: refilter_def Let_def)

definition filters_only :: "control_effect list \<Rightarrow> bool" where
  "filters_only es \<longleftrightarrow> list_all (\<lambda>e. \<exists>n i b. e = ApplyFilter n i b) es"

lemma refilter_log: "\<exists>es. filters_only es \<and> pc_log (refilter rt s) = pc_log s @ es"
  by (auto simp: refilter_def Let_def applyFilter_def filters_only_def)

text \<open>The histories say how navigation and detector came to their states.\<close>

definition heard :: "player_controls \<Rightarrow> bool" where
  "heard s \<longleftrightarrow> nav_since (pc_navigation s) (pc_pads s) \<and> pc_chord s = run_detector detector_reset (pc_samples s)"

lemma heard_parts:
  "heard s \<Longrightarrow> heard (say es s)" "heard s \<Longrightarrow> heard (reset_navigation s)" "heard s \<Longrightarrow> heard (reset_chord s)"
  "heard s \<Longrightarrow> heard (snd (read_navigation g t s))" "heard s \<Longrightarrow> heard (claim_pad gs s)" "heard s \<Longrightarrow> heard (refilter rt s)"
  "heard (s\<lparr>pc_config := cfg\<rparr>) = heard s" "heard (s\<lparr>pc_filtered := f\<rparr>) = heard s"
  by (auto simp: heard_def reset_navigation_def reset_chord_def read_navigation_def intro: nav_since_reset nav_since_update)

lemma heard_sample:
  "heard s \<Longrightarrow>
   heard ((reset_navigation s)\<lparr>pc_chord := snd (detector_update a b t (pc_chord s)), pc_samples := pc_samples s @ [((a, b), t)]\<rparr>)"
  by (drule heard_parts(2)) (simp add: heard_def)

lemma heard_dispatch:
  assumes "heard s"
  shows "heard (dispatchImmersiveGamepad p g t s)" "heard (dispatchGamepadMenu p g t s)"
  using assms by (auto simp: dispatchImmersiveGamepad_def dispatchGamepadMenu_def Let_def case_prod_beta
      intro!: heard_parts(1-4) heard_sample)

lemma heard_step: "heard s \<Longrightarrow> heard (control_step e s)"
proof (cases e)
  case (OnFrame p rt fr)
  then show "heard s \<Longrightarrow> ?thesis"
    by (auto simp: control_step_def on_frame_def Let_def heard_parts(8) intro!: heard_parts(1,2,5,6) heard_dispatch split: option.split)
next
  case (OnOptions cfg rt)
  then show "heard s \<Longrightarrow> ?thesis"
    by (auto simp: control_step_def on_options_def Let_def heard_parts(7) intro!: heard_parts(1) split: option.split)
qed (auto simp: control_step_def on_key_def intro!: heard_parts(1))

lemma heard_run: "heard (fold control_step es (controls_initial cfg active))"
proof -
  have "heard s \<Longrightarrow> heard (fold control_step es s)" for s by (induction es arbitrary: s) (simp_all add: heard_step)
  then show ?thesis by (simp add: heard_def controls_initial_def nav_since_new)
qed

text \<open>What one step logs.\<close>

definition fresh :: "player_controls \<Rightarrow> player_controls \<Rightarrow> control_effect list" where
  "fresh s s' = drop (length (pc_log s)) (pc_log s')"

definition on_dialog :: "control_effect \<Rightarrow> bool" where
  "on_dialog e \<longleftrightarrow> (case e of CallCancel \<Rightarrow> True | FocusOn _ \<Rightarrow> True | ClickOn _ \<Rightarrow> True | _ \<Rightarrow> False)"

lemma dialog_effects: "list_all on_dialog (dispatchDialog as p)"
proof -
  have "list_all on_dialog (dialog_action panel p a)" for panel p a
    by (auto simp: dialog_action_def on_dialog_def split: action.split option.split)
  then have "list_all on_dialog (dialog_actions panel as p)" for panel
    by (induction as arbitrary: p) simp_all
  then show ?thesis by (simp add: dispatchDialog_def split: option.split)
qed

lemma quiet_without_actions: "dispatchDialog [] p = []" "menu_actions [] p = []"
  by (simp_all add: dispatchDialog_def split: option.split)

definition chosen_pad :: "pad_frame \<Rightarrow> player_controls \<Rightarrow> gamepad option" where
  "chosen_pad fr s = find (\<lambda>g. Some (index g) = pc_index (claim_pad (fr_gamepads fr) s)) (fr_gamepads fr)"

text \<open>A frame that reaches the dispatch: the filter is applied at most, and the gamepad is dispatched.\<close>

lemma frame_dispatch:
  assumes "e \<in> set (fresh s (on_frame p rt fr s))" "\<And>n i b. e \<noteq> ApplyFilter n i b"
  obtains s1 fs where "pc_log s1 = pc_log s @ fs" "filters_only fs" "pc_config s1 = pc_config s" "pc_navigation s1 = pc_navigation s"
    "pc_chord s1 = pc_chord s" "pc_pads s1 = pc_pads s" "pc_samples s1 = pc_samples s"
    "on_frame p rt fr s = (if cf_immersive (pc_config s) then dispatchImmersiveGamepad p (chosen_pad fr s) (fr_now fr) s1
       else dispatchGamepadMenu p (chosen_pad fr s) (fr_now fr) s1)"
proof -
  from assms obtain r where r: "rt = Some r" "can_play r" "\<not> fr_suspended fr"
    by (auto simp: fresh_def on_frame_def applyFilter_def split: option.splits if_splits)
  let ?s = "refilter r (claim_pad (fr_gamepads fr) s)"
  obtain fs where "filters_only fs" "pc_log ?s = pc_log s @ fs" using refilter_log [of r "claim_pad (fr_gamepads fr) s"] by auto
  with r that [of ?s fs] show thesis by (auto simp: on_frame_def Let_def chosen_pad_def)
qed

section \<open>Concrete runs\<close>

definition demo_page :: player_page where
  "demo_page = \<lparr>pp_active = Some 3, pp_menu = [], pp_kind = (\<lambda>_. ButtonControl), pp_closest = Some 1, pp_player_dialog = None,
     pp_any_dialog = Some 1, pp_controls = (\<lambda>_. [2, 3, 4]), pp_prevents = (\<lambda>_. False)\<rparr>"

definition demo_runtime :: runtime_view where
  "demo_runtime = \<lparr>rt_instance = 1, rt_state = RUNNING, rt_filter = True, rt_menu = True, rt_pause = True\<rparr>"

definition demo_frame :: "(nat list \<times> rat) \<Rightarrow> control_event" where
  "demo_frame x = OnFrame demo_page (Some demo_runtime) \<lparr>fr_suspended = False, fr_gamepads = [pad (fst x)], fr_now = snd x\<rparr>"

definition demo_config :: "bool \<Rightarrow> bool \<Rightarrow> control_config" where
  "demo_config immersive dialog = \<lparr>cf_suppress = False, cf_menuOpen = False, cf_immersive = immersive, cf_dialogOpen = dialog,
     cf_state = Some RUNNING\<rparr>"

definition chord_run :: player_controls where
  "chord_run = fold control_step (map demo_frame [([8], 1000), ([8, 9], 1050), ([], 1200), ([9], 1400)])
     (controls_initial (demo_config True False) None)"

text \<open>C40. In immersive mode a gamepad opens the menu of the player only by the double chord of its two reserved buttons, seen by the
  detector since it was last reset, and only while input is not suppressed and no dialogue is open.\<close>

theorem menu_opens_by_double_chord:
  assumes "s = fold control_step es (controls_initial cfg active)" "cf_immersive (pc_config s)"
    and "CallMenu \<in> set (fresh s (control_step (OnFrame p rt fr) s))"
  shows "\<not> cf_dialogOpen (pc_config s) \<and> \<not> cf_suppress (pc_config s) \<and>
    double_chord_at (pad_button (chosen_pad fr s) 8) (pad_button (chosen_pad fr s) 9) (Fin (fr_now fr)) (pc_samples s)"
proof -
  have m: "CallMenu \<in> set (fresh s (on_frame p rt fr s))" using assms(3) by (simp add: control_step_def)
  then obtain s1 fs where f: "pc_log s1 = pc_log s @ fs" "filters_only fs" "pc_config s1 = pc_config s" "pc_chord s1 = pc_chord s"
    "pc_samples s1 = pc_samples s" "on_frame p rt fr s = dispatchImmersiveGamepad p (chosen_pad fr s) (fr_now fr) s1"
    using assms(2) by (elim frame_dispatch) auto
  have "CallMenu \<notin> set fs" "CallMenu \<notin> set (dispatchDialog as p)" for as
    using f(2) dialog_effects [of as p] by (auto simp: filters_only_def list_all_iff on_dialog_def)
  then have "\<not> cf_dialogOpen (pc_config s)" "\<not> cf_suppress (pc_config s)"
    "openMenu (fst (detector_update (pad_button (chosen_pad fr s) 8) (pad_button (chosen_pad fr s) 9) (Fin (fr_now fr)) (pc_chord s)))"
    using m f by (auto simp: fresh_def dispatchImmersiveGamepad_def Let_def case_prod_beta read_navigation_def split: if_splits)
  moreover have "pc_chord s = run_detector detector_reset (pc_samples s)" using heard_run by (simp add: assms(1) heard_def)
  ultimately show ?thesis using chord_opened by simp
qed

lemma menu_opens_by_double_chord_witness:
  "double_chord_at True True (Fin 1450) (pc_samples chord_run)"
proof -
  let ?fr = "\<lparr>fr_suspended = False, fr_gamepads = [pad [8, 9]], fr_now = 1450\<rparr>"
  have "cf_immersive (pc_config chord_run)"
    "CallMenu \<in> set (fresh chord_run (control_step (OnFrame demo_page (Some demo_runtime) ?fr) chord_run))"
    by code_simp+
  from menu_opens_by_double_chord [OF chord_run_def this]
  have "double_chord_at (pad_button (chosen_pad ?fr chord_run) 8) (pad_button (chosen_pad ?fr chord_run) 9) (Fin 1450) (pc_samples chord_run)"
    by simp
  moreover have "pad_button (chosen_pad ?fr chord_run) 8" "pad_button (chosen_pad ?fr chord_run) 9" by code_simp+
  ultimately show ?thesis by simp
qed

definition acts_on_page :: "control_effect \<Rightarrow> bool" where
  "acts_on_page e \<longleftrightarrow> (case e of
      FocusOn _ \<Rightarrow> True | ClickOn _ \<Rightarrow> True | SelectAt _ _ \<Rightarrow> True | RangeAt _ _ \<Rightarrow> True | CallCancel \<Rightarrow> True | _ \<Rightarrow> False)"

text \<open>A gamepad moves, clicks or closes something on the page, in a dialogue or in the menu, only after everything on it was
  released for 120 milliseconds since navigation was last reset, which every frame of the running game does: the press
  that opened the menu or the dialogue does not act on it.\<close>

theorem press_is_not_heard_twice:
  assumes "s = fold control_step es (controls_initial cfg active)"
    and "e \<in> set (fresh s (control_step (OnFrame p rt fr) s))" "acts_on_page e"
  shows "(cf_dialogOpen (pc_config s) \<or> cf_menuOpen (pc_config s)) \<and> released_for 120 (pc_pads s @ [(chosen_pad fr s, fr_now fr)])"
proof -
  have m: "e \<in> set (fresh s (on_frame p rt fr s))" using assms(2) by (simp add: control_step_def)
  moreover have "e \<noteq> ApplyFilter n i b" for n i b using assms(3) by (auto simp: acts_on_page_def)
  ultimately obtain s1 fs where f: "pc_log s1 = pc_log s @ fs" "filters_only fs" "pc_config s1 = pc_config s"
    "pc_navigation s1 = pc_navigation s" "on_frame p rt fr s = (if cf_immersive (pc_config s)
       then dispatchImmersiveGamepad p (chosen_pad fr s) (fr_now fr) s1 else dispatchGamepadMenu p (chosen_pad fr s) (fr_now fr) s1)"
    by (elim frame_dispatch) auto
  let ?as = "actions (fst (nav_update (chosen_pad fr s) (fr_now fr) (pc_navigation s)))"
  have "e \<notin> set fs" "e \<noteq> CallMenu" using f(2) assms(3) by (auto simp: filters_only_def list_all_iff acts_on_page_def)
  then have "(cf_dialogOpen (pc_config s) \<or> cf_menuOpen (pc_config s)) \<and> ?as \<noteq> []"
    using m f by (auto simp: fresh_def dispatchImmersiveGamepad_def dispatchGamepadMenu_def Let_def case_prod_beta read_navigation_def
        quiet_without_actions split: if_splits)
  moreover have "nav_since (pc_navigation s) (pc_pads s)" using heard_run by (simp add: assms(1) heard_def)
  ultimately show ?thesis using nav_since_action [of "pc_navigation s" "pc_pads s" "hd ?as"] by (auto dest: hd_in_set)
qed

definition dialog_run :: player_controls where
  "dialog_run = fold control_step (map demo_frame [([0], 0), ([], 10), ([], 140)]) (controls_initial (demo_config False True) None)"

lemma press_is_not_heard_twice_witness:
  "released_for 120 (pc_pads dialog_run @ [(Some (pad [0]), 150)])"
proof -
  let ?fr = "\<lparr>fr_suspended = False, fr_gamepads = [pad [0]], fr_now = 150\<rparr>"
  have "ClickOn 3 \<in> set (fresh dialog_run (control_step (OnFrame demo_page (Some demo_runtime) ?fr) dialog_run))" by code_simp
  from press_is_not_heard_twice [OF dialog_run_def this]
  have "released_for 120 (pc_pads dialog_run @ [(chosen_pad ?fr dialog_run, 150)])" by (simp add: acts_on_page_def)
  moreover have "chosen_pad ?fr dialog_run = Some (pad [0])" by code_simp
  ultimately show ?thesis by simp
qed

section \<open>What the code leaves open\<close>

text \<open>With the focus outside the menu, up goes to the last control but one.\<close>

lemma up_skips_last_control:
  assumes "in_list (pp_active p) (pp_menu p) = None" "2 \<le> length (pp_menu p)"
  shows "navigatePlayerMenu p (Move DUp) = [FocusOn (pp_menu p ! (length (pp_menu p) - 2))]"
proof -
  have "nat ((- 1 + - 1 + int (length (pp_menu p))) mod int (length (pp_menu p))) = length (pp_menu p) - 2"
  proof -
    have "- 2 mod int (length (pp_menu p)) = (int (length (pp_menu p)) + - 2) mod int (length (pp_menu p))" by (simp only: mod_add_self1)
    also have "\<dots> = int (length (pp_menu p)) + - 2" by (rule mod_pos_pos_trivial) (use assms(2) in auto)
    finally show ?thesis using assms(2) by simp
  qed
  then show ?thesis using assms by (auto simp: navigatePlayerMenu_def wrapped_def item_at_def)
qed

text \<open>
  The hook forgets a gamepad that is unplugged, \<open>active-gamepad.ts\<close> does not: the effect that runs when the game
  pauses points the filter at it again, and no later frame corrects that.
\<close>

definition unplugged :: control_event where
  "unplugged = OnFrame demo_page (Some demo_runtime) \<lparr>fr_suspended = False, fr_gamepads = [], fr_now = 20\<rparr>"

lemma filter_returns_to_lost_pad:
  "pc_log (fold control_step [demo_frame ([], 0), unplugged, OnOptions (demo_config False False\<lparr>cf_state := Some PAUSED\<rparr>)
       (Some (demo_runtime\<lparr>rt_state := PAUSED\<rparr>)), unplugged]
     (controls_initial (demo_config False False) (Some 0))) =
   [ApplyFilter 1 (Some 0) False, ApplyFilter 1 None False, ApplyFilter 1 (Some 0) False]"
  by code_simp

end
