(* ===== verification/Immersive_Shell.thy ===== *)
theory Immersive_Shell
  imports Json_Value Gamepad_Properties
begin

text \<open>
  Immersive mode: the navigation hook \<open>web/features/immersive/use-navigation.ts\<close>, the system menu
  (\<open>system-menu-model.ts\<close>, \<open>use-immersive-system-menu.ts\<close>) with the stored audio preferences
  (\<open>immersive-audio-preferences.ts\<close>, \<open>commitPreference\<close> of \<open>immersive-audio-provider.tsx\<close>), and the dispatch of
  actions in \<open>immersive-shell.tsx\<close>.
\<close>

section \<open>\<open>useImmersiveNavigation\<close>\<close>

datatype nav_message = NoMessage | PadLost | PadUnsupported

text \<open>
  \<open>in_source\<close> is the module state of \<open>active-gamepad.ts\<close>. \<open>in_pads\<close> is a history that nothing reads: what the input
  model was given since its last reset.
\<close>

record immersive_nav =
  in_controller :: "int option"
  in_index :: "int option"
  in_source :: active_gamepad
  in_message :: nav_message
  in_keyboardReady :: bool
  in_claim :: claim
  in_navigation :: navigation
  in_pads :: "frame list"

text \<open>The first render and the effect that subscribes; the result says whether the new surface is focused.\<close>

definition nav_mount :: "active_gamepad \<Rightarrow> bool \<times> immersive_nav" where
  "nav_mount a =
     (let r = consumeImmersivePlayerReturn a in
      (fst r,
       \<lparr>in_controller = activeIndex a, in_index = activeIndex (snd r), in_source = snd r, in_message = NoMessage,
        in_keyboardReady = returnPending a, in_claim = [], in_navigation = new_navigation False, in_pads = []\<rparr>))"

definition nav_restart :: "immersive_nav \<Rightarrow> immersive_nav" where
  "nav_restart s = s\<lparr>in_navigation := nav_reset 120 (in_navigation s), in_pads := []\<rparr>"

definition nav_lost :: "gamepad list \<Rightarrow> immersive_nav \<Rightarrow> immersive_nav" where
  "nav_lost gs s =
     (if in_index s \<noteq> None \<and> \<not> list_ex (\<lambda>g. Some (index g) = in_index s \<and> isStandardGamepad g) gs
      then s\<lparr>in_index := None, in_controller := None, in_keyboardReady := False,
             in_source := setActiveImmersiveGamepadIndex None (in_source s), in_message := PadLost\<rparr>
      else s)"

definition nav_claim :: "gamepad list \<Rightarrow> immersive_nav \<Rightarrow> immersive_nav" where
  "nav_claim gs s =
     (let r = claim_update gs (in_claim s);
          s1 = s\<lparr>in_claim := snd r, in_message := (if snd (fst r) then PadUnsupported else in_message s)\<rparr> in
      case fst (fst r) of
        None \<Rightarrow> s1
      | Some i \<Rightarrow> nav_restart (s1\<lparr>in_index := Some i, in_controller := Some i,
          in_source := setActiveImmersiveGamepadIndex (Some i) (in_source s1), in_message := NoMessage\<rparr>))"

definition nav_frame :: "bool \<Rightarrow> gamepad list \<Rightarrow> rat \<Rightarrow> immersive_nav \<Rightarrow> action list \<times> immersive_nav" where
  "nav_frame suspended gs t s =
     (if suspended then ([], (nav_restart s)\<lparr>in_claim := claim_reset []\<rparr>)
      else
        (let s1 = nav_lost gs s in
         if in_index s1 = None then ([], nav_claim gs s1)
         else
           (let g = find (\<lambda>g. Some (index g) = in_index s1) gs; r = nav_update g t (in_navigation s1) in
            (actions (fst r), s1\<lparr>in_navigation := snd r, in_pads := in_pads s1 @ [(g, t)]\<rparr>))))"

definition nav_keys :: "jsstr \<Rightarrow> action option" where
  "nav_keys key = map_of [(js ''ArrowLeft'', Move DLeft), (js ''ArrowRight'', Move DRight), (js ''ArrowUp'', Move DUp),
     (js ''ArrowDown'', Move DDown), (js ''Enter'', Confirm), (js ''Escape'', Cancel), (js ''s'', Menu), (js ''S'', Menu),
     (js ''y'', Favorite), (js ''Y'', Favorite), (js ''PageUp'', Jump PagePrevious), (js ''PageDown'', Jump PageNext),
     (js ''Home'', Jump GroupPrevious), (js ''End'', Jump GroupNext)] key"

text \<open>The arguments: default prevented, a target inside a dialogue, and one that is a form field.\<close>

definition nav_keyboard :: "bool \<Rightarrow> bool \<Rightarrow> bool \<Rightarrow> jsstr \<Rightarrow> immersive_nav \<Rightarrow> action list \<times> immersive_nav" where
  "nav_keyboard prevented inDialog inField key s =
     (if prevented \<or> (inDialog \<and> key \<in> {js ''Tab'', js ''Enter''}) \<or> inField then ([], s)
      else case nav_keys key of
        None \<Rightarrow> ([], s)
      | Some a \<Rightarrow> ([a], s\<lparr>in_keyboardReady := True\<rparr>))"

definition nav_ready :: "immersive_nav \<Rightarrow> bool" where
  "nav_ready s \<longleftrightarrow> in_controller s \<noteq> None \<or> in_keyboardReady s"

text \<open>A frame, a key, and a change of \<open>inputBoundary\<close>.\<close>

datatype nav_event =
    NavFrame bool "gamepad list" rat
  | NavKey bool bool bool jsstr
  | NavBoundary

definition nav_event_step :: "nav_event \<Rightarrow> immersive_nav \<Rightarrow> action list \<times> immersive_nav" where
  "nav_event_step e s =
     (case e of
        NavFrame susp gs t \<Rightarrow> nav_frame susp gs t s
      | NavKey p d f k \<Rightarrow> nav_keyboard p d f k s
      | NavBoundary \<Rightarrow> ([], nav_restart s))"

definition nav_run :: "nav_event list \<Rightarrow> immersive_nav \<Rightarrow> immersive_nav" where
  "nav_run es s = fold (\<lambda>e s. snd (nav_event_step e s)) es s"

section \<open>Audio preferences\<close>

record audio_preferences =
  bgmVolume :: rat
  bgmMuted :: bool
  gameVolume :: rat
  gameMuted :: bool

definition DEFAULT_IMMERSIVE_AUDIO_PREFERENCES :: audio_preferences where
  "DEFAULT_IMMERSIVE_AUDIO_PREFERENCES = \<lparr>bgmVolume = 4/10, bgmMuted = False, gameVolume = 1, gameMuted = False\<rparr>"

definition preferenceKeys :: "jsstr list" where
  "preferenceKeys = [js ''bgmVolume'', js ''bgmMuted'', js ''gameVolume'', js ''gameMuted'']"

definition isVolume :: "jval option \<Rightarrow> rat option" where
  "isVolume v = (case v of Some (JNum (Fin q)) \<Rightarrow> if 0 \<le> q \<and> q \<le> 1 then Some q else None | _ \<Rightarrow> None)"

definition is_boolean :: "jval option \<Rightarrow> bool option" where
  "is_boolean v = (case v of Some (JBool b) \<Rightarrow> Some b | _ \<Rightarrow> None)"

text \<open>\<open>parse\<close> is \<open>JSON.parse\<close>, \<open>None\<close> when it throws.\<close>

definition parseImmersiveAudioPreferences :: "(jsstr \<Rightarrow> jval option) \<Rightarrow> jsstr option \<Rightarrow> audio_preferences option" where
  "parseImmersiveAudioPreferences parse raw =
     (case raw of
        None \<Rightarrow> None
      | Some text \<Rightarrow>
          (case parse text of
             None \<Rightarrow> None
           | Some v \<Rightarrow>
               if \<not> is_record (Some v) then None
               else if length (object_keys v) \<noteq> length preferenceKeys \<or> \<not> list_all (\<lambda>k. k \<in> set (object_keys v)) preferenceKeys
               then None
               else (case (isVolume (jget v (js ''bgmVolume'')), isVolume (jget v (js ''gameVolume'')),
                           is_boolean (jget v (js ''bgmMuted'')), is_boolean (jget v (js ''gameMuted''))) of
                   (Some bv, Some gv, Some bm, Some gm) \<Rightarrow>
                     Some \<lparr>bgmVolume = bv, bgmMuted = bm, gameVolume = gv, gameMuted = gm\<rparr>
                 | _ \<Rightarrow> None)))"

text \<open>The stored text; \<open>None\<close> when \<open>localStorage\<close> throws. The code runs in a browser, where \<open>window\<close> exists.\<close>

definition getImmersiveAudioPreferences :: "(jsstr \<Rightarrow> jval option) \<Rightarrow> jsstr option option \<Rightarrow> audio_preferences" where
  "getImmersiveAudioPreferences parse read =
     (case read of
        None \<Rightarrow> DEFAULT_IMMERSIVE_AUDIO_PREFERENCES
      | Some raw \<Rightarrow> (case parseImmersiveAudioPreferences parse raw of Some p \<Rightarrow> p | None \<Rightarrow> DEFAULT_IMMERSIVE_AUDIO_PREFERENCES))"

definition preferences_value :: "audio_preferences \<Rightarrow> jval" where
  "preferences_value p = jo [(''bgmVolume'', JNum (Fin (bgmVolume p))), (''bgmMuted'', JBool (bgmMuted p)),
     (''gameVolume'', JNum (Fin (gameVolume p))), (''gameMuted'', JBool (gameMuted p))]"

text \<open>\<open>print\<close> is \<open>JSON.stringify\<close>; a store that throws keeps what it had.\<close>

definition saveImmersiveAudioPreferences :: "(jval \<Rightarrow> jsstr) \<Rightarrow> bool \<Rightarrow> audio_preferences \<Rightarrow> jsstr option \<Rightarrow> jsstr option" where
  "saveImmersiveAudioPreferences print works p stored = (if works then Some (print (preferences_value p)) else stored)"

section \<open>The system menu\<close>

datatype menu_item = BgmVolume | BgmMuted | GameVolume | GameMuted | Fullscreen | ExitItem

datatype menu_adjustment = AdjustLeft | AdjustRight | AdjustConfirm

definition immersiveSystemMenuItems :: "menu_item list" where
  "immersiveSystemMenuItems = [BgmVolume, BgmMuted, GameVolume, GameMuted, Fullscreen, ExitItem]"

definition moveSystemMenuSelection :: "nat \<Rightarrow> bool \<Rightarrow> nat" where
  "moveSystemMenuSelection current up =
     nat ((int current + (if up then -1 else 1) + int (length immersiveSystemMenuItems)) mod int (length immersiveSystemMenuItems))"

text \<open>
  \<open>Math.round\<close> rounds halves up. Volumes are exact decimals here; the rounding to tenths is there to keep the floating-point
  values on them.
\<close>

definition adjustedVolume :: "rat \<Rightarrow> bool \<Rightarrow> rat" where
  "adjustedVolume v left = of_int \<lfloor>min 1 (max 0 (v + (if left then -1/10 else 1/10))) * 10 + 1/2\<rfloor> / 10"

definition adjusted_muted :: "bool \<Rightarrow> menu_adjustment \<Rightarrow> bool" where
  "adjusted_muted muted a = (case a of AdjustConfirm \<Rightarrow> \<not> muted | AdjustLeft \<Rightarrow> True | AdjustRight \<Rightarrow> False)"

text \<open>\<open>None\<close> is the same object, which \<open>commitPreference\<close> does not store.\<close>

definition adjustSystemMenuPreference :: "audio_preferences \<Rightarrow> menu_item \<Rightarrow> menu_adjustment \<Rightarrow> audio_preferences option" where
  "adjustSystemMenuPreference p item a =
     (case item of
        BgmVolume \<Rightarrow> if a \<noteq> AdjustConfirm then Some (p\<lparr>bgmVolume := adjustedVolume (bgmVolume p) (a = AdjustLeft)\<rparr>) else None
      | GameVolume \<Rightarrow> if a \<noteq> AdjustConfirm then Some (p\<lparr>gameVolume := adjustedVolume (gameVolume p) (a = AdjustLeft)\<rparr>) else None
      | BgmMuted \<Rightarrow> if adjusted_muted (bgmMuted p) a = bgmMuted p then None else Some (p\<lparr>bgmMuted := adjusted_muted (bgmMuted p) a\<rparr>)
      | GameMuted \<Rightarrow> if adjusted_muted (gameMuted p) a = gameMuted p then None else Some (p\<lparr>gameMuted := adjusted_muted (gameMuted p) a\<rparr>)
      | _ \<Rightarrow> None)"

datatype announcement = Silent | AlreadyFullscreen | NotSupported | EnteredFullscreen | FullscreenRefused

record system_menu =
  sm_open :: bool
  sm_selected :: nat
  sm_announcement :: announcement

section \<open>The shell\<close>

datatype shell_view = Platforms | Games | Favorites | Saves | Recent

datatype shell_effect =
    LeaveImmersive
  | LaunchGame
  | ToggleFavorite
  | SelectFirst
  | JumpList jump_action
  | StepList direction
  | MoveSave direction
  | SettleRestore bool
  | EnterFullscreen

text \<open>
  The destinations that are loaded, with the view each one opens, the state of the full screen, whether the store takes
  a write, and \<open>JSON.stringify\<close>.
\<close>

record shell_env =
  se_items :: "(jsstr \<times> shell_view) list option"
  se_fullscreen :: bool
  se_supported :: bool
  se_stores :: bool
  se_print :: "jval \<Rightarrow> jsstr"

record shell =
  sh_view :: shell_view
  sh_destinationId :: jsstr
  sh_exitOpen :: bool
  sh_exitLeave :: bool
  sh_restoreOpen :: bool
  sh_restoreLoad :: bool
  sh_menu :: system_menu
  sh_preferences :: audio_preferences
  sh_stored :: "jsstr option"
  sh_log :: "shell_effect list"

definition does :: "shell_effect \<Rightarrow> shell \<Rightarrow> shell" where
  "does e s = s\<lparr>sh_log := sh_log s @ [e]\<rparr>"

definition commitPreference :: "shell_env \<Rightarrow> menu_item \<Rightarrow> menu_adjustment \<Rightarrow> shell \<Rightarrow> shell" where
  "commitPreference v item a s =
     (case adjustSystemMenuPreference (sh_preferences s) item a of
        None \<Rightarrow> s
      | Some p \<Rightarrow> s\<lparr>sh_preferences := p, sh_stored := saveImmersiveAudioPreferences (se_print v) (se_stores v) p (sh_stored s)\<rparr>)"

definition announce :: "announcement \<Rightarrow> shell \<Rightarrow> shell" where
  "announce a s = s\<lparr>sh_menu := (sh_menu s)\<lparr>sm_announcement := a\<rparr>\<rparr>"

definition close_menu :: "shell \<Rightarrow> shell" where
  "close_menu s = s\<lparr>sh_menu := (sh_menu s)\<lparr>sm_open := False, sm_announcement := Silent\<rparr>\<rparr>"

definition select_item :: "nat \<Rightarrow> shell \<Rightarrow> shell" where
  "select_item i s = s\<lparr>sh_menu := (sh_menu s)\<lparr>sm_selected := i\<rparr>\<rparr>"

definition leave_immersive :: "shell \<Rightarrow> shell" where
  "leave_immersive s = does LeaveImmersive s"

definition activate_item :: "shell_env \<Rightarrow> menu_item \<Rightarrow> shell \<Rightarrow> shell" where
  "activate_item v item s =
     (case item of
        Fullscreen \<Rightarrow> if se_fullscreen v then announce AlreadyFullscreen s
                      else if \<not> se_supported v then announce NotSupported s
                      else does EnterFullscreen s
      | ExitItem \<Rightarrow> leave_immersive s
      | _ \<Rightarrow> commitPreference v item AdjustConfirm s)"

text \<open>
  The closures read the menu and the shell of the last render, \<open>r\<close>; what they set is pending in \<open>s\<close>, and a handler
  that runs twice before the next render reads the same \<open>r\<close> twice.
\<close>

fun handleOpenActions :: "shell_env \<Rightarrow> system_menu \<Rightarrow> action list \<Rightarrow> nat \<Rightarrow> shell \<Rightarrow> shell" where
  "handleOpenActions v r [] i s = (if i \<noteq> sm_selected r then select_item i s else s)"
| "handleOpenActions v r (a # as) i s =
     (case a of
        Cancel \<Rightarrow> close_menu s
      | Move DUp \<Rightarrow> handleOpenActions v r as (moveSystemMenuSelection i True) s
      | Move DDown \<Rightarrow> handleOpenActions v r as (moveSystemMenuSelection i False) s
      | Move DLeft \<Rightarrow> handleOpenActions v r as i (commitPreference v (immersiveSystemMenuItems ! i) AdjustLeft s)
      | Move DRight \<Rightarrow> handleOpenActions v r as i (commitPreference v (immersiveSystemMenuItems ! i) AdjustRight s)
      | Confirm \<Rightarrow> handleOpenActions v r as i (activate_item v (immersiveSystemMenuItems ! i) s)
      | _ \<Rightarrow> handleOpenActions v r as i s)"

definition changeView :: "shell_view \<Rightarrow> shell \<Rightarrow> shell" where
  "changeView w s = does SelectFirst (s\<lparr>sh_view := w\<rparr>)"

definition destination_items :: "shell_env \<Rightarrow> (jsstr \<times> shell_view) list" where
  "destination_items v = (case se_items v of Some xs \<Rightarrow> xs | None \<Rightarrow> [])"

definition destination :: "shell_env \<Rightarrow> shell \<Rightarrow> nat" where
  "destination v r = (case find_index (\<lambda>d. fst d = sh_destinationId r) (destination_items v) of Some i \<Rightarrow> i | None \<Rightarrow> 0)"

definition setDestination :: "shell_env \<Rightarrow> nat \<Rightarrow> shell \<Rightarrow> shell" where
  "setDestination v i s =
     s\<lparr>sh_destinationId := (case item_at (destination_items v) i of Some d \<Rightarrow> fst d | None \<Rightarrow> js ''all'')\<rparr>"

definition jumpPlatform :: "shell_env \<Rightarrow> shell \<Rightarrow> jump_action \<Rightarrow> shell \<Rightarrow> shell" where
  "jumpPlatform v r j s =
     (let count = length (destination_items v) in
      if count = 0 \<or> j \<in> {GroupPrevious, GroupNext} then s
      else setDestination v
        (nat ((int (destination v r) + (if j = PagePrevious then - (5 mod int count) else 5 mod int count) + int count) mod int count)) s)"

definition navigatePlatform :: "shell_env \<Rightarrow> shell \<Rightarrow> action \<Rightarrow> shell \<Rightarrow> shell" where
  "navigatePlatform v r a s =
     (let count = length (destination_items v) in
      if count = 0 then s
      else if a \<in> {Move DLeft, Move DRight}
      then setDestination v (nat ((int (destination v r) + (if a = Move DLeft then -1 else 1) + int count) mod int count)) s
      else if a = Confirm
      then (case item_at (destination_items v) (destination v r) of Some d \<Rightarrow> changeView (snd d) s | None \<Rightarrow> s)
      else s)"

definition navigateGames :: "shell \<Rightarrow> action \<Rightarrow> shell \<Rightarrow> shell" where
  "navigateGames r a s =
     (case a of
        Move d \<Rightarrow> if d \<in> {DUp, DDown} then does (StepList d) s else if sh_view r = Saves then does (MoveSave d) s else s
      | Confirm \<Rightarrow> does LaunchGame s
      | Favorite \<Rightarrow> does ToggleFavorite s
      | _ \<Rightarrow> s)"

definition navigate_shell :: "shell_env \<Rightarrow> shell \<Rightarrow> action \<Rightarrow> shell \<Rightarrow> shell" where
  "navigate_shell v r a s =
     (case a of
        Cancel \<Rightarrow> if sh_view r = Platforms then s\<lparr>sh_exitLeave := False, sh_exitOpen := True\<rparr> else changeView Platforms s
      | Jump j \<Rightarrow> if sh_view r = Platforms then jumpPlatform v r j s else does (JumpList j) s
      | _ \<Rightarrow> if sh_view r = Platforms then navigatePlatform v r a s else navigateGames r a s)"

definition handleActions :: "shell_env \<Rightarrow> shell \<Rightarrow> action list \<Rightarrow> shell \<Rightarrow> shell" where
  "handleActions v r as s =
     (if sm_open (sh_menu r) then handleOpenActions v (sh_menu r) as (sm_selected (sh_menu r)) s
      else if Menu \<in> set as
      then s\<lparr>sh_menu := \<lparr>sm_open = True, sm_selected = 0, sm_announcement = Silent\<rparr>\<rparr>
      else fold (navigate_shell v r) as s)"

definition settle_restore :: "bool \<Rightarrow> shell \<Rightarrow> shell" where
  "settle_restore b s = does (SettleRestore b) (s\<lparr>sh_restoreOpen := False\<rparr>)"

definition chooseExit :: "bool \<Rightarrow> shell \<Rightarrow> shell" where
  "chooseExit out s = (if out then leave_immersive s else s\<lparr>sh_exitOpen := False\<rparr>)"

definition shell_action :: "shell_env \<Rightarrow> shell \<Rightarrow> action \<Rightarrow> shell \<Rightarrow> shell" where
  "shell_action v r a s =
     (if sh_restoreOpen r
      then (case a of
          Move DLeft \<Rightarrow> s\<lparr>sh_restoreLoad := False\<rparr>
        | Move DRight \<Rightarrow> s\<lparr>sh_restoreLoad := True\<rparr>
        | Cancel \<Rightarrow> settle_restore False s
        | Confirm \<Rightarrow> settle_restore (sh_restoreLoad r) s
        | _ \<Rightarrow> s)
      else if \<not> sh_exitOpen r then handleActions v r [a] s
      else (case a of
          Move DLeft \<Rightarrow> s\<lparr>sh_exitLeave := False\<rparr>
        | Move DRight \<Rightarrow> s\<lparr>sh_exitLeave := True\<rparr>
        | Cancel \<Rightarrow> s\<lparr>sh_exitOpen := False\<rparr>
        | Confirm \<Rightarrow> chooseExit (sh_exitLeave r) s
        | _ \<Rightarrow> s))"

text \<open>\<open>inputBoundary\<close>: a dialogue or the menu is open.\<close>

definition boundary :: "shell \<Rightarrow> bool" where
  "boundary s \<longleftrightarrow> sh_restoreOpen s \<or> sh_exitOpen s \<or> sm_open (sh_menu s)"

text \<open>Input of the navigation hook, the pointer on menu and dialogues, the restore question of a launch, and answers.\<close>

datatype shell_event =
    ShellInput nav_event
  | MenuButton
  | MenuActivate menu_item
  | MenuAdjust menu_item menu_adjustment
  | MenuSelect nat
  | MenuClose
  | ChooseExit bool
  | ChooseRestore bool
  | AskRestore
  | FullscreenAnswer bool
  | FullscreenKey

definition shell_react :: "shell_env \<Rightarrow> shell_event \<Rightarrow> immersive_nav \<times> shell \<Rightarrow> immersive_nav \<times> shell" where
  "shell_react v e x =
     (case x of (n, s) \<Rightarrow>
        (case e of
           ShellInput i \<Rightarrow> (snd (nav_event_step i n), fold (shell_action v s) (fst (nav_event_step i n)) s)
         | MenuButton \<Rightarrow> (n, handleActions v s [Menu] s)
         | MenuActivate item \<Rightarrow> (n, activate_item v item s)
         | MenuAdjust item a \<Rightarrow> (n, commitPreference v item a s)
         | MenuSelect i \<Rightarrow> (n, select_item i s)
         | MenuClose \<Rightarrow> (n, close_menu s)
         | ChooseExit out \<Rightarrow> (n, chooseExit out s)
         | ChooseRestore b \<Rightarrow> (n, settle_restore b s)
         | AskRestore \<Rightarrow> (n, s\<lparr>sh_restoreLoad := False, sh_restoreOpen := True\<rparr>)
         | FullscreenAnswer ok \<Rightarrow> (n, announce (if ok then EnteredFullscreen else FullscreenRefused) s)
         | FullscreenKey \<Rightarrow> (n, does EnterFullscreen s)))"

text \<open>
  Leaving releases the active gamepad. The render after an event runs the effect that resets the input model when the
  boundary changed.
\<close>

definition news :: "shell \<Rightarrow> shell \<Rightarrow> shell_effect list" where
  "news s s' = drop (length (sh_log s)) (sh_log s')"

definition shell_step :: "shell_env \<Rightarrow> shell_event \<Rightarrow> immersive_nav \<times> shell \<Rightarrow> immersive_nav \<times> shell" where
  "shell_step v e x =
     (let (n, s) = shell_react v e x;
          n1 = (if LeaveImmersive \<in> set (news (snd x) s)
                then n\<lparr>in_source := setActiveImmersiveGamepadIndex None (in_source n)\<rparr> else n) in
      (if boundary s \<noteq> boundary (snd x) then nav_restart n1 else n1, s))"

definition shell_start :: "active_gamepad \<Rightarrow> shell_view \<Rightarrow> jsstr \<Rightarrow> (jsstr \<Rightarrow> jval option) \<Rightarrow> jsstr option \<Rightarrow> immersive_nav \<times> shell" where
  "shell_start a w d parse stored =
     (snd (nav_mount a),
      \<lparr>sh_view = w, sh_destinationId = d, sh_exitOpen = False, sh_exitLeave = False, sh_restoreOpen = False,
       sh_restoreLoad = False, sh_menu = \<lparr>sm_open = False, sm_selected = 0, sm_announcement = Silent\<rparr>,
       sh_preferences = getImmersiveAudioPreferences parse (Some stored), sh_stored = stored, sh_log = []\<rparr>)"

section \<open>Preferences\<close>

definition audible :: "audio_preferences \<Rightarrow> bool" where
  "audible p \<longleftrightarrow> 0 \<le> bgmVolume p \<and> bgmVolume p \<le> 1 \<and> 0 \<le> gameVolume p \<and> gameVolume p \<le> 1"

lemma adjusted_range: "0 \<le> adjustedVolume v left \<and> adjustedVolume v left \<le> 1"
proof -
  let ?x = "min 1 (max 0 (v + (if left then -1/10 else 1/10))) :: rat"
  have x: "0 \<le> ?x" "?x \<le> 1" by simp_all
  then have "0 \<le> \<lfloor>?x * 10 + 1/2\<rfloor>" by (simp add: le_floor_iff)
  moreover have "q * 10 + 1/2 < rat_of_int 11" if "q \<le> 1" for q :: rat using that by simp
  then have "?x * 10 + 1/2 < of_int 11" using x(2) by blast
  then have "\<lfloor>?x * 10 + 1/2\<rfloor> < 11" by (simp only: floor_less_iff)
  ultimately show ?thesis unfolding adjustedVolume_def by (simp add: field_simps)
qed

lemma adjust_audible: "audible p \<Longrightarrow> adjustSystemMenuPreference p item a = Some q \<Longrightarrow> audible q"
  by (cases item) (auto simp: adjustSystemMenuPreference_def audible_def adjusted_range split: if_splits)

lemma default_audible: "audible DEFAULT_IMMERSIVE_AUDIO_PREFERENCES"
  by (simp add: audible_def DEFAULT_IMMERSIVE_AUDIO_PREFERENCES_def)

lemma isVolume_Some: "isVolume v = Some q \<Longrightarrow> 0 \<le> q \<and> q \<le> 1"
  by (auto simp: isVolume_def split: option.splits jval.splits jsnum.splits if_splits)

lemma parse_audible: "parseImmersiveAudioPreferences parse raw = Some p \<Longrightarrow> audible p"
  by (auto simp: parseImmersiveAudioPreferences_def audible_def dest: isVolume_Some split: option.splits if_splits)

lemma get_audible: "audible (getImmersiveAudioPreferences parse read)"
  by (auto simp: getImmersiveAudioPreferences_def default_audible dest: parse_audible split: option.split)

text \<open>What is stored is read back.\<close>

lemma parse_stored:
  assumes "parse text = Some (preferences_value p)" "audible p"
  shows "parseImmersiveAudioPreferences parse (Some text) = Some p"
  using assms by (simp add: parseImmersiveAudioPreferences_def preferences_value_def jo_def preferenceKeys_def
      isVolume_def is_boolean_def audible_def js_inj)

definition stores :: "(jval \<Rightarrow> jsstr) \<Rightarrow> shell_env \<times> shell_event \<Rightarrow> bool" where
  "stores print x \<longleftrightarrow> se_stores (fst x) \<and> se_print (fst x) = print"

definition kept_preferences :: "(jsstr \<Rightarrow> jval option) \<Rightarrow> shell \<Rightarrow> bool" where
  "kept_preferences parse s \<longleftrightarrow> audible (sh_preferences s) \<and> getImmersiveAudioPreferences parse (Some (sh_stored s)) = sh_preferences s"

lemma kept_fields:
  "kept_preferences parse (does e s) = kept_preferences parse s" "kept_preferences parse (announce m s) = kept_preferences parse s" "kept_preferences parse (close_menu s) = kept_preferences parse s"
  "kept_preferences parse (select_item i s) = kept_preferences parse s" "kept_preferences parse (s\<lparr>sh_view := w\<rparr>) = kept_preferences parse s"
  "kept_preferences parse (s\<lparr>sh_exitOpen := b\<rparr>) = kept_preferences parse s" "kept_preferences parse (s\<lparr>sh_exitLeave := b\<rparr>) = kept_preferences parse s"
  "kept_preferences parse (s\<lparr>sh_restoreOpen := b\<rparr>) = kept_preferences parse s" "kept_preferences parse (s\<lparr>sh_restoreLoad := b\<rparr>) = kept_preferences parse s"
  "kept_preferences parse (s\<lparr>sh_menu := m'\<rparr>) = kept_preferences parse s" "kept_preferences parse (setDestination v i s) = kept_preferences parse s"
  by (simp_all add: kept_preferences_def does_def announce_def close_menu_def select_item_def setDestination_def)

lemma kept_commit:
  assumes "kept_preferences parse s" "se_stores v" "\<And>p. audible p \<Longrightarrow> parse (se_print v (preferences_value p)) = Some (preferences_value p)"
  shows "kept_preferences parse (commitPreference v item a s)"
proof (cases "adjustSystemMenuPreference (sh_preferences s) item a")
  case None
  then show ?thesis using assms(1) by (simp add: commitPreference_def)
next
  case (Some p)
  then have "audible p" using assms(1) by (auto simp: kept_preferences_def intro: adjust_audible)
  then have "parseImmersiveAudioPreferences parse (Some (se_print v (preferences_value p))) = Some p"
    using assms(3) by (intro parse_stored) auto
  then show ?thesis using \<open>audible p\<close> Some assms(2)
    by (simp add: commitPreference_def kept_preferences_def saveImmersiveAudioPreferences_def getImmersiveAudioPreferences_def)
qed

lemma kept_activate:
  assumes "kept_preferences parse s" "se_stores v" "\<And>p. audible p \<Longrightarrow> parse (se_print v (preferences_value p)) = Some (preferences_value p)"
  shows "kept_preferences parse (activate_item v item s)"
  using assms by (cases item) (simp_all add: activate_item_def kept_commit kept_fields leave_immersive_def)

lemma kept_open:
  "se_stores v \<Longrightarrow> (\<And>p. audible p \<Longrightarrow> parse (se_print v (preferences_value p)) = Some (preferences_value p)) \<Longrightarrow>
   kept_preferences parse s \<Longrightarrow> kept_preferences parse (handleOpenActions v r as i s)"
proof (induction as arbitrary: i s)
  case (Cons a as)
  have "kept_preferences parse (commitPreference v item b s)" for item b by (rule kept_commit) (use Cons.prems in auto)
  moreover have "kept_preferences parse (activate_item v item s)" for item by (rule kept_activate) (use Cons.prems in auto)
  ultimately show ?case using Cons by (auto simp: kept_fields split: action.split direction.split)
qed (simp add: kept_fields)

lemma kept_navigate: "kept_preferences parse s \<Longrightarrow> kept_preferences parse (navigate_shell v r a s)"
  by (simp add: navigate_shell_def changeView_def jumpPlatform_def navigatePlatform_def navigateGames_def Let_def kept_fields
      split: action.split direction.split option.split)

lemma kept_action:
  assumes "se_stores v" "\<And>p. audible p \<Longrightarrow> parse (se_print v (preferences_value p)) = Some (preferences_value p)"
    and "kept_preferences parse s"
  shows "kept_preferences parse (handleActions v r as s)" "kept_preferences parse (shell_action v r a s)"
proof -
  have "kept_preferences parse s \<Longrightarrow> kept_preferences parse (fold (navigate_shell v r) as s)" for as s
    by (induction as arbitrary: s) (simp_all add: kept_navigate)
  then show all: "kept_preferences parse (handleActions v r as s)" for as
    using assms by (simp add: handleActions_def kept_open kept_fields)
  show "kept_preferences parse (shell_action v r a s)"
    using assms(3) all by (simp add: shell_action_def settle_restore_def chooseExit_def leave_immersive_def kept_fields
        split: action.split direction.split)
qed

lemma kept_step:
  assumes "se_stores v" "\<And>p. audible p \<Longrightarrow> parse (se_print v (preferences_value p)) = Some (preferences_value p)"
    and "kept_preferences parse (snd x)"
  shows "kept_preferences parse (snd (shell_step v e x))"
proof -
  obtain n s where x: "x = (n, s)" by force
  have "kept_preferences parse s \<Longrightarrow> kept_preferences parse (fold (shell_action v r) as s)" for r as s
    using kept_action(2) [OF assms(1,2)] by (induction as arbitrary: s) simp_all
  then have "kept_preferences parse (snd (shell_react v e x))"
    using assms by (cases e) (simp_all add: x shell_react_def kept_fields kept_activate kept_commit kept_action(1)
        chooseExit_def settle_restore_def leave_immersive_def)
  then show ?thesis by (simp add: shell_step_def Let_def case_prod_beta)
qed

text \<open>C38. Whatever is pressed, the volumes stay between 0 and 1, and the preferences in use are the ones that a reload of the
  page would read from the store, as long as the store takes its writes and \<open>JSON.parse\<close> reads back what
  \<open>JSON.stringify\<close> wrote.\<close>

theorem preferences_survive_reload:
  assumes "\<And>p. audible p \<Longrightarrow> parse (print (preferences_value p)) = Some (preferences_value p)" "list_all (stores print) es"
    and "s = snd (fold (\<lambda>(v, e). shell_step v e) es (shell_start a w d parse stored))"
  shows "audible (sh_preferences s) \<and> getImmersiveAudioPreferences parse (Some (sh_stored s)) = sh_preferences s"
proof -
  have "kept_preferences parse (snd x) \<Longrightarrow> kept_preferences parse (snd (fold (\<lambda>(v, e). shell_step v e) es x))" for x
    using assms(2)
  proof (induction es arbitrary: x)
    case (Cons y es)
    have "kept_preferences parse (snd (shell_step (fst y) (snd y) x))"
      using Cons.prems assms(1) by (intro kept_step) (auto simp: stores_def)
    from Cons.IH [OF this] Cons.prems(2) show ?case by (simp add: case_prod_beta)
  qed simp
  moreover have "kept_preferences parse (snd (shell_start a w d parse stored))" by (simp add: shell_start_def kept_preferences_def get_audible)
  ultimately show ?thesis by (simp add: assms(3) kept_preferences_def)
qed

text \<open>A pair of functions that read back what they wrote: a rational is two runs of ones.\<close>

definition demo_rat :: "rat \<Rightarrow> jsstr" where
  "demo_rat q = replicate (nat (fst (quotient_of q))) 1 @ 0 # replicate (nat (snd (quotient_of q))) 1 @ [0]"

definition demo_read :: "jsstr \<Rightarrow> rat \<times> jsstr" where
  "demo_read xs =
     (let n = length (takeWhile (\<lambda>c. c = 1) xs); ys = drop (Suc n) xs; d = length (takeWhile (\<lambda>c. c = 1) ys) in
      (of_nat n / of_nat d, drop (Suc d) ys))"

definition demo_print :: "jval \<Rightarrow> jsstr" where
  "demo_print v =
     (case (isVolume (jget v (js ''bgmVolume'')), isVolume (jget v (js ''gameVolume'')),
            is_boolean (jget v (js ''bgmMuted'')), is_boolean (jget v (js ''gameMuted''))) of
        (Some b, Some g, Some bm, Some gm) \<Rightarrow> of_bool bm # of_bool gm # demo_rat b @ demo_rat g
      | _ \<Rightarrow> [])"

definition demo_parse :: "jsstr \<Rightarrow> jval option" where
  "demo_parse text =
     (case text of
        bm # gm # xs \<Rightarrow>
          (let (b, ys) = demo_read xs; (g, zs) = demo_read ys in
           Some (preferences_value \<lparr>bgmVolume = b, bgmMuted = bm = 1, gameVolume = g, gameMuted = gm = 1\<rparr>))
      | _ \<Rightarrow> None)"

lemma ones_length: "length (takeWhile (\<lambda>c. c = 1) (replicate n 1 @ (0::code_unit) # xs)) = n"
  by (induction n) simp_all

lemma ones_drop: "drop (Suc n) (replicate n 1 @ (0::code_unit) # xs) = xs"
  by (induction n) simp_all

lemma demo_read_back: "0 \<le> q \<Longrightarrow> demo_read (demo_rat q @ xs) = (q, xs)"
proof -
  assume q: "0 \<le> q"
  obtain a b where ab: "quotient_of q = (a, b)" by force
  then have "0 < b" by (rule quotient_of_denom_pos)
  moreover have e: "q = of_int a / of_int b" using ab by (rule quotient_of_div)
  ultimately have "0 \<le> a" using q by (simp add: zero_le_divide_iff)
  then have "rat_of_nat (nat a) / of_nat (nat b) = q" using \<open>0 < b\<close> e by simp
  moreover have "demo_rat q @ xs = replicate (nat a) 1 @ 0 # replicate (nat b) 1 @ 0 # xs" by (simp add: demo_rat_def ab)
  ultimately show ?thesis by (simp add: demo_read_def ones_length ones_drop Let_def)
qed

lemma demo_reads_back: "audible p \<Longrightarrow> demo_parse (demo_print (preferences_value p)) = Some (preferences_value p)"
  by (cases p) (simp add: audible_def demo_print_def preferences_value_def jo_def isVolume_def is_boolean_def js_inj demo_parse_def
      demo_read_back [of _ "[]", simplified] demo_read_back)

definition demo_shell_env :: shell_env where
  "demo_shell_env = \<lparr>se_items = None, se_fullscreen = False, se_supported = True, se_stores = True, se_print = demo_print\<rparr>"

lemma preferences_survive_reload_witness:
  "let s = snd (shell_step demo_shell_env (MenuAdjust BgmVolume AdjustRight)
      (shell_start \<lparr>activeIndex = None, returnPending = False\<rparr> Platforms [] demo_parse None)) in
   audible (sh_preferences s) \<and> getImmersiveAudioPreferences demo_parse (Some (sh_stored s)) = sh_preferences s"
proof -
  have "list_all (stores demo_print) [(demo_shell_env, MenuAdjust BgmVolume AdjustRight)]"
    by (simp add: stores_def demo_shell_env_def)
  from preferences_survive_reload [OF demo_reads_back this refl] show ?thesis by (simp add: Let_def)
qed

section \<open>Input\<close>

text \<open>What the input model heard since its last reset.\<close>

definition attentive :: "immersive_nav \<Rightarrow> bool" where
  "attentive n \<longleftrightarrow> nav_since (in_navigation n) (in_pads n) \<and> in_controller n = in_index n"

lemma attentive_step: "attentive n \<Longrightarrow> attentive (snd (nav_event_step e n))"
  by (cases e) (auto simp: attentive_def nav_event_step_def nav_frame_def nav_keyboard_def nav_lost_def nav_claim_def nav_restart_def
      Let_def intro: nav_since_reset nav_since_update split: option.split)

lemma attentive_shell: "attentive (fst x) \<Longrightarrow> attentive (fst (shell_step v e x))"
proof -
  assume a: "attentive (fst x)"
  then have "attentive (fst (shell_react v e x))"
    by (cases e) (auto simp: shell_react_def case_prod_beta attentive_step)
  moreover have "attentive n \<Longrightarrow> attentive (nav_restart n)" "attentive n \<Longrightarrow> attentive (n\<lparr>in_source := a\<rparr>)" for n a
    by (auto simp: attentive_def nav_restart_def intro: nav_since_reset)
  ultimately show ?thesis by (simp add: shell_step_def Let_def case_prod_beta)
qed

lemma attentive_run: "attentive (fst (fold (\<lambda>(v, e). shell_step v e) es (shell_start a w d parse stored)))"
proof -
  have "attentive (fst x) \<Longrightarrow> attentive (fst (fold (\<lambda>(v, e). shell_step v e) es x))" for x
    by (induction es arbitrary: x) (simp_all add: attentive_shell case_prod_beta)
  moreover have "attentive (fst (shell_start a w d parse stored))"
    by (simp add: attentive_def shell_start_def nav_mount_def Let_def nav_since_new consumeImmersivePlayerReturn_def)
  ultimately show ?thesis .
qed


definition demo_frames :: "(shell_env \<times> shell_event) list" where
  "demo_frames = [(demo_shell_env, ShellInput (NavFrame False [pad [0]] 0)), (demo_shell_env, ShellInput (NavFrame False [pad []] 10)),
     (demo_shell_env, ShellInput (NavFrame False [pad []] 140))]"

definition demo_played :: "immersive_nav \<times> shell" where
  "demo_played = fold (\<lambda>(v, e). shell_step v e) demo_frames
     (shell_start \<lparr>activeIndex = None, returnPending = False\<rparr> Platforms [] demo_parse None)"


section \<open>Leaving\<close>

text \<open>The events that ask to leave, read off the rendered shell.\<close>

definition asked_to_leave :: "shell_event \<Rightarrow> immersive_nav \<times> shell \<Rightarrow> bool" where
  "asked_to_leave e x \<longleftrightarrow>
     (case e of
        ChooseExit out \<Rightarrow> out
      | MenuActivate item \<Rightarrow> item = ExitItem
      | ShellInput i \<Rightarrow>
          Confirm \<in> set (fst (nav_event_step i (fst x))) \<and> \<not> sh_restoreOpen (snd x) \<and>
          (if sh_exitOpen (snd x) then sh_exitLeave (snd x)
           else sm_open (sh_menu (snd x)) \<and> immersiveSystemMenuItems ! sm_selected (sh_menu (snd x)) = ExitItem)
      | _ \<Rightarrow> False)"

text \<open>\<open>leaves_log f b\<close>: the function only adds to the log, and adds a leave exactly if \<open>b\<close>.\<close>

definition leaves_log :: "(shell \<Rightarrow> shell) \<Rightarrow> bool \<Rightarrow> bool" where
  "leaves_log f b \<longleftrightarrow> (\<forall>s. \<exists>es. sh_log (f s) = sh_log s @ es \<and> (LeaveImmersive \<in> set es \<longleftrightarrow> b))"

lemma leaves_log_same: "(\<And>s. sh_log (f s) = sh_log s) \<Longrightarrow> leaves_log f False"
  by (auto simp: leaves_log_def)

lemma leaves_log_does: "(\<And>s. sh_log (f s) = sh_log s @ [e]) \<Longrightarrow> leaves_log f (e = LeaveImmersive)"
  by (auto simp: leaves_log_def)

lemma leaves_log_comp:
  assumes "leaves_log f b" "leaves_log g c"
  shows "leaves_log (\<lambda>s. g (f s)) (b \<or> c)"
  unfolding leaves_log_def
proof
  fix s
  obtain es where "sh_log (f s) = sh_log s @ es" "LeaveImmersive \<in> set es \<longleftrightarrow> b" using assms(1) by (auto simp: leaves_log_def)
  moreover obtain fs where "sh_log (g (f s)) = sh_log (f s) @ fs" "LeaveImmersive \<in> set fs \<longleftrightarrow> c"
    using assms(2) by (auto simp: leaves_log_def)
  ultimately show "\<exists>es. sh_log (g (f s)) = sh_log s @ es \<and> (LeaveImmersive \<in> set es \<longleftrightarrow> b \<or> c)"
    by (intro exI [of _ "es @ fs"]) auto
qed

lemma leaves_log_fold:
  assumes "\<And>a. leaves_log (f a) (P a)"
  shows "leaves_log (fold f as) (\<exists>a \<in> set as. P a)"
proof (induction as)
  case (Cons a as)
  from leaves_log_comp [OF assms Cons.IH, of a] show ?case by (simp add: comp_def)
qed (simp add: leaves_log_def)

lemma leaves_commit: "leaves_log (commitPreference v item a) False"
  by (rule leaves_log_same) (simp add: commitPreference_def split: option.split)

lemma leaves_activate: "leaves_log (activate_item v item) (item = ExitItem)"
proof (cases item)
  case Fullscreen
  then show ?thesis by (auto simp: activate_item_def leaves_log_def announce_def does_def)
next
  case ExitItem
  then show ?thesis by (auto simp: activate_item_def leaves_log_def leave_immersive_def does_def)
qed (use leaves_commit in \<open>simp_all add: activate_item_def leaves_log_def\<close>)

text \<open>One action on an open menu adds a leave exactly for a confirmed exit item.\<close>

lemma leaves_open:
  "leaves_log (handleOpenActions v r [a] (sm_selected r)) (a = Confirm \<and> immersiveSystemMenuItems ! sm_selected r = ExitItem)"
proof (cases "a = Confirm")
  case True
  then show ?thesis using leaves_activate [of v "immersiveSystemMenuItems ! sm_selected r"] by (simp add: leaves_log_def)
next
  case False
  have "sh_log (select_item i s) = sh_log s" "sh_log (close_menu s) = sh_log s" for i s
    by (simp_all add: select_item_def close_menu_def)
  then show ?thesis using False leaves_commit
    by (auto simp: leaves_log_def split: action.split direction.split)
qed

lemma leaves_navigate: "leaves_log (navigate_shell v r a) False"
proof -
  have "sh_log (setDestination v i s) = sh_log s" for i s by (simp add: setDestination_def)
  then have "\<exists>es. sh_log (navigate_shell v r a s) = sh_log s @ es \<and> LeaveImmersive \<notin> set es" for s
    by (auto simp: navigate_shell_def changeView_def does_def jumpPlatform_def navigatePlatform_def navigateGames_def Let_def
        split: action.split option.split)
  then show ?thesis by (simp add: leaves_log_def)
qed

lemma leaves_handle:
  "leaves_log (handleActions v r [a])
    (sm_open (sh_menu r) \<and> a = Confirm \<and> immersiveSystemMenuItems ! sm_selected (sh_menu r) = ExitItem)"
proof (cases "sm_open (sh_menu r)")
  case True
  then show ?thesis using leaves_open [of v "sh_menu r" a] by (simp add: leaves_log_def handleActions_def)
next
  case False
  then show ?thesis using leaves_navigate [of v r a] by (cases "a = Menu") (simp_all add: leaves_log_def handleActions_def)
qed

lemma leaves_action:
  "leaves_log (shell_action v r a)
    (a = Confirm \<and> \<not> sh_restoreOpen r \<and>
      (if sh_exitOpen r then sh_exitLeave r
       else sm_open (sh_menu r) \<and> immersiveSystemMenuItems ! sm_selected (sh_menu r) = ExitItem))"
proof (cases "sh_restoreOpen r \<or> sh_exitOpen r")
  case True
  then show ?thesis
    by (auto simp: leaves_log_def shell_action_def settle_restore_def chooseExit_def leave_immersive_def does_def
        split: action.split direction.split)
next
  case False
  then show ?thesis using leaves_handle [of v r a] by (auto simp: leaves_log_def shell_action_def)
qed

lemma leaves_news: "leaves_log f b \<Longrightarrow> LeaveImmersive \<in> set (news s (f s)) \<longleftrightarrow> b"
proof -
  assume "leaves_log f b"
  then obtain es where "sh_log (f s) = sh_log s @ es" "LeaveImmersive \<in> set es \<longleftrightarrow> b" unfolding leaves_log_def by blast
  then show ?thesis by (simp add: news_def)
qed


text \<open>
  Two actions of one frame read the same render: a move to the left and a confirmation in one frame leave immersive
  mode although the move selects the choice to stay.
\<close>

definition exit_shell :: shell where
  "exit_shell = (snd (shell_start \<lparr>activeIndex = None, returnPending = False\<rparr> Platforms [] (\<lambda>_. None) None))
     \<lparr>sh_exitOpen := True, sh_exitLeave := True\<rparr>"

theorem stale_exit_choice:
  "let s = fold (shell_action v exit_shell) [Move DLeft, Confirm] exit_shell in \<not> sh_exitLeave s \<and> sh_log s = [LeaveImmersive]"
  by (simp add: exit_shell_def shell_start_def shell_action_def chooseExit_def leave_immersive_def does_def Let_def)

end
