(* ===== verification/Catalog.thy ===== *)
theory Catalog
  imports Paging
begin

text \<open>
  What the application knows about platforms, and what it recommends: \<open>web/features/directories/platform-category.ts\<close>,
  \<open>web/features/home/platform-art.ts\<close>, \<open>recommended-directory-templates.ts\<close> and \<open>recommended-directories.ts\<close>,
  \<open>web/features/tags/recommended-tags.ts\<close>, \<open>web/lib/status.ts\<close>. The two runs that create what is recommended pass the state
  of the server along; their actions are parameters.
\<close>

section \<open>Platforms\<close>

datatype DirectoryCategory =
    ArcadeCategory | ConsoleCategory | HandheldCategory | ComputerCategory | RuntimeCategory | OtherCategory

definition directoryCategories :: "(DirectoryCategory \<times> jsstr) list" where
  "directoryCategories = [(ArcadeCategory, [0x8857, 0x673A]), (ConsoleCategory, [0x5BB6, 0x7528, 0x4E3B, 0x673A]),
     (HandheldCategory, [0x638C, 0x673A]), (ComputerCategory, [0x7535, 0x8111]),
     (RuntimeCategory, [0x6E38, 0x620F, 0x5F15, 0x64CE, 0x4E0E, 0x8FD0, 0x884C, 0x73AF, 0x5883]),
     (OtherCategory, [0x5176, 0x4ED6])]"

definition platform_table :: "(string \<times> DirectoryCategory) list" where
  "platform_table = [
   (''3do'', ConsoleCategory), (''amiga'', ComputerCategory), (''amigacd32'', ConsoleCategory),
   (''amstradcpc'', ComputerCategory), (''apple2'', ComputerCategory), (''arcade'', ArcadeCategory),
   (''arduboy'', HandheldCategory), (''atari2600'', ConsoleCategory), (''atari5200'', ConsoleCategory),
   (''atari7800'', ConsoleCategory), (''atari800'', ComputerCategory), (''atarijaguar'', ConsoleCategory),
   (''atarist'', ComputerCategory), (''atom'', ComputerCategory), (''atomiswave'', ArcadeCategory),
   (''bbc'', ComputerCategory), (''bbkrpg'', ComputerCategory), (''butterscotch'', RuntimeCategory),
   (''c128'', ComputerCategory), (''c64'', ComputerCategory), (''cavestory'', RuntimeCategory),
   (''cdi'', ConsoleCategory), (''channelf'', ConsoleCategory), (''colecovision'', ConsoleCategory),
   (''daphne'', ArcadeCategory), (''doom'', RuntimeCategory), (''dos'', ComputerCategory),
   (''dreamcast'', ConsoleCategory), (''fds'', ConsoleCategory), (''flash'', RuntimeCategory),
   (''gamegear'', HandheldCategory), (''gba'', HandheldCategory), (''gbc'', HandheldCategory),
   (''gx4000'', ConsoleCategory), (''intellivision'', ConsoleCategory), (''j2me'', RuntimeCategory),
   (''kirikiri'', RuntimeCategory), (''lutro'', RuntimeCategory), (''lynx'', HandheldCategory),
   (''mastersystem'', ConsoleCategory), (''megadrive'', ConsoleCategory), (''megaduck'', HandheldCategory),
   (''model3'', ArcadeCategory), (''msx'', ComputerCategory), (''multivision'', ConsoleCategory),
   (''n64'', ConsoleCategory), (''naomi'', ArcadeCategory), (''naomi2'', ArcadeCategory),
   (''nds'', HandheldCategory), (''neogeocd'', ConsoleCategory), (''nes'', ConsoleCategory),
   (''ngpc'', HandheldCategory), (''nintendo3ds'', HandheldCategory), (''odyssey2'', ConsoleCategory),
   (''ons'', RuntimeCategory), (''openbor'', RuntimeCategory), (''pc88'', ComputerCategory),
   (''pc98'', ComputerCategory), (''pce'', ConsoleCategory), (''pcecd'', ConsoleCategory),
   (''pcfx'', ConsoleCategory), (''pet'', ComputerCategory), (''pico'', ConsoleCategory),
   (''pico8'', RuntimeCategory), (''plus4'', ComputerCategory), (''pokemini'', HandheldCategory),
   (''ps2'', ConsoleCategory), (''psp'', HandheldCategory), (''psx'', ConsoleCategory),
   (''pv1000'', ConsoleCategory), (''rpgmaker'', RuntimeCategory), (''samcoupe'', ComputerCategory),
   (''satellaview'', ConsoleCategory), (''saturn'', ConsoleCategory), (''scummvm'', RuntimeCategory),
   (''siglus'', RuntimeCategory), (''sega32x'', ConsoleCategory), (''segacd'', ConsoleCategory),
   (''sg1000'', ConsoleCategory), (''sgb'', HandheldCategory), (''snes'', ConsoleCategory),
   (''supergrafx'', ConsoleCategory), (''supervision'', HandheldCategory), (''thomson'', ComputerCategory),
   (''tic80'', RuntimeCategory), (''tyranoscript'', RuntimeCategory), (''uzebox'', ConsoleCategory),
   (''vectrex'', ConsoleCategory), (''vic20'', ComputerCategory), (''virtualboy'', ConsoleCategory),
   (''wasm4'', RuntimeCategory), (''wonderswan'', HandheldCategory), (''x68000'', ComputerCategory),
   (''xegs'', ConsoleCategory), (''zx81'', ComputerCategory), (''zxspectrum'', ComputerCategory)]"

definition platformCategory :: "jsstr \<Rightarrow> DirectoryCategory option" where
  "platformCategory i = map_of (map (\<lambda>(k, c). (js k, c)) platform_table) i"

text \<open>
  A plain object also answers to the names of \<open>Object.prototype\<close>: for them the result is a function and no category,
  which is \<open>None\<close> here.
\<close>

definition prototype_names :: "jsstr list" where
  "prototype_names = map js [''constructor'', ''__proto__'', ''hasOwnProperty'', ''isPrototypeOf'', ''propertyIsEnumerable'',
     ''toLocaleString'', ''toString'', ''valueOf'', ''__defineGetter__'', ''__defineSetter__'', ''__lookupGetter__'',
     ''__lookupSetter__'']"

definition categoryForPlatform :: "jsstr option \<Rightarrow> DirectoryCategory option" where
  "categoryForPlatform p =
     (case p of
        None \<Rightarrow> Some OtherCategory
      | Some i \<Rightarrow>
          if i = [] then Some OtherCategory
          else (case platformCategory i of
              Some c \<Rightarrow> Some c
            | None \<Rightarrow> if i \<in> set prototype_names then None else Some OtherCategory))"

definition categoryLabelForPlatform :: "jsstr option \<Rightarrow> jsstr" where
  "categoryLabelForPlatform p =
     (case find (\<lambda>(c, label). Some c = categoryForPlatform p) directoryCategories of
        Some (c, label) \<Rightarrow> label
      | None \<Rightarrow> [0x5176, 0x4ED6])"

definition artwork_table :: "(string \<times> string) list" where
  "artwork_table = [
   (''3do'', ''3do''), (''amiga'', ''amiga''), (''amigacd32'', ''amigacd32''), (''amstradcpc'', ''amstradcpc''),
   (''apple2'', ''apple2''), (''arcade'', ''arcade''), (''arduboy'', ''arduboy''), (''atari2600'', ''atari2600''),
   (''atari5200'', ''atari5200''), (''atari7800'', ''atari7800''), (''atari800'', ''atari800''),
   (''atarijaguar'', ''atarijaguar''), (''atarist'', ''home-computer''), (''atom'', ''bbc''),
   (''atomiswave'', ''atomiswave''), (''bbc'', ''bbc''), (''bbkrpg'', ''bbkrpg''),
   (''butterscotch'', ''butterscotch''), (''c128'', ''c64''), (''c64'', ''c64''), (''cavestory'', ''cavestory''),
   (''cdi'', ''cdi''), (''channelf'', ''channelf''), (''colecovision'', ''colecovision''), (''daphne'', ''daphne''),
   (''doom'', ''doom''), (''dos'', ''dos''), (''dreamcast'', ''dreamcast''), (''fds'', ''nes''),
   (''flash'', ''flash''), (''gamegear'', ''gamegear''), (''gba'', ''gba''), (''gbc'', ''gbc''),
   (''gx4000'', ''gx4000''), (''intellivision'', ''intellivision''), (''j2me'', ''j2me''),
   (''kirikiri'', ''kirikiri''), (''lutro'', ''lutro''), (''lynx'', ''lynx''), (''mastersystem'', ''mastersystem''),
   (''megadrive'', ''megadrive''), (''megaduck'', ''megaduck''), (''model3'', ''model3''), (''msx'', ''msx''),
   (''multivision'', ''multivision''), (''n64'', ''n64''), (''naomi'', ''naomi''), (''naomi2'', ''naomi2''),
   (''nds'', ''nds''), (''neogeocd'', ''neogeocd''), (''nes'', ''nes''), (''ngpc'', ''ngpc''),
   (''nintendo3ds'', ''nintendo3ds''), (''odyssey2'', ''odyssey2''), (''ons'', ''ons''), (''openbor'', ''openbor''),
   (''pc88'', ''pc98''), (''pc98'', ''pc98''), (''pce'', ''pce''), (''pcecd'', ''pcecd''), (''pcfx'', ''pcfx''),
   (''pet'', ''pet''), (''pico'', ''pico''), (''pico8'', ''pico8''), (''plus4'', ''c64''),
   (''pokemini'', ''pokemini''), (''ps2'', ''ps2''), (''psp'', ''psp''), (''psx'', ''psx''),
   (''pv1000'', ''pv1000''), (''rpgmaker'', ''rpgmaker''), (''samcoupe'', ''samcoupe''), (''satellaview'', ''snes''),
   (''saturn'', ''saturn''), (''scummvm'', ''scummvm''), (''sega32x'', ''sega32x''), (''segacd'', ''segacd''),
   (''sg1000'', ''sg1000''), (''sgb'', ''sgb''), (''snes'', ''snes''), (''supergrafx'', ''supergrafx''),
   (''supervision'', ''supervision''), (''thomson'', ''home-computer''), (''tic80'', ''tic80''),
   (''tyranoscript'', ''tyranoscript''), (''uzebox'', ''uzebox''), (''vectrex'', ''vectrex''), (''vic20'', ''c64''),
   (''virtualboy'', ''virtualboy''), (''wasm4'', ''wasm4''), (''wonderswan'', ''wonderswan''),
   (''x68000'', ''x68000''), (''xegs'', ''xegs''), (''zx81'', ''zx81''), (''zxspectrum'', ''zxspectrum'')]"

definition platformArt :: "jsstr \<Rightarrow> jsstr option" where
  "platformArt i =
     map_option (\<lambda>f. js ''/images/platforms/'' @ js f @ js ''.svg'') (map_of (map (\<lambda>(k, f). (js k, f)) artwork_table) i)"

section \<open>Recommended directories\<close>

text \<open>The words that end most names.\<close>

definition of_games :: jsstr where "of_games = [0x20, 0x6E38, 0x620F]"

definition recommendedDirectoryTemplates :: "(string \<times> string \<times> jsstr \<times> jsstr option) list" where
  "recommendedDirectoryTemplates = [
   (''nes'', ''fceumm'', js ''NES'' @ of_games, None), (''snes'', ''snes9x'', js ''SNES'' @ of_games, None),
   (''satellaview'', ''snes9x'', js ''Satellaview / BS-X'' @ of_games, None),
   (''gbc'', ''gambatte'', js ''Game Boy'' @ of_games, None),
   (''sgb'', ''gearboy'', js ''Super Game Boy'' @ of_games, None), (''gba'', ''mgba'', js ''GBA'' @ of_games, None),
   (''arcade'', ''fbneo'', js ''FBNeo'' @ of_games, None),
   (''arcade'', ''fbalpha'', js ''FBAlpha'' @ of_games, Some ([0x4F7F, 0x7528] @ js '' FBAlpha 0.2.97.44 '' @ [0x8FD0, 0x884C, 0x7684, 0x8857, 0x673A, 0x6E38, 0x620F, 0x3002])),
   (''arcade'', ''mame2003_plus'', js ''MAME 2003 Plus'' @ of_games, None),
   (''arcade'', ''mame_arcade'', js ''MAME Current'' @ of_games, Some ([0x4F7F, 0x7528] @ js '' MAME Current '' @ [0x6821, 0x9A8C, 0x7684, 0x8857, 0x673A] @ js '' ROM'' @ [0xFF0C, 0x53EF, 0x4F5C, 0x4E3A, 0x65E7, 0x6838, 0x5FC3, 0x7684, 0x53E6, 0x4E00, 0x79CD, 0x8FD0, 0x884C, 0x65B9, 0x5F0F, 0x3002])),
   (''arcade'', ''fbalpha2012_cps1'', js ''FB Alpha 2012 CPS-1'' @ of_games, None),
   (''arcade'', ''fbalpha2012_cps2'', js ''FB Alpha 2012 CPS-2'' @ of_games, None),
   (''dos'', ''dosbox_pure'', js ''DOS '' @ [0x7ECF, 0x5178, 0x6E38, 0x620F], None),
   (''nds'', ''desmume2015'', js ''Nintendo DS'' @ of_games, None),
   (''atari2600'', ''stella2014'', js ''Atari 2600'' @ of_games, None),
   (''atari5200'', ''a5200'', js ''Atari 5200'' @ of_games, None),
   (''atari7800'', ''prosystem'', js ''Atari 7800'' @ of_games, None),
   (''lynx'', ''handy'', js ''Atari Lynx'' @ of_games, None),
   (''megadrive'', ''genesis_plus_gx'', js ''Mega Drive'' @ of_games, None),
   (''segacd'', ''genesis_plus_gx'', js ''Sega CD / Mega-CD'' @ of_games, None),
   (''pce'', ''mednafen_pce'', js ''PC Engine'' @ of_games, None),
   (''ngpc'', ''mednafen_ngp'', js ''Neo Geo Pocket'' @ of_games, None),
   (''n64'', ''mupen64plus_next'', js ''Nintendo 64'' @ of_games, None),
   (''psx'', ''pcsx_rearmed'', js ''PlayStation'' @ of_games, None),
   (''saturn'', ''yabause'', js ''Sega Saturn'' @ of_games, None),
   (''dreamcast'', ''flycast'', js ''Dreamcast'' @ of_games, None),
   (''naomi'', ''flycast-naomi'', js ''NAOMI'' @ of_games, None),
   (''naomi2'', ''flycast-naomi2'', js ''NAOMI 2'' @ of_games, None),
   (''atomiswave'', ''flycast-atomiswave'', js ''Atomiswave'' @ of_games, None),
   (''pcfx'', ''mednafen_pcfx'', js ''PC-FX'' @ of_games, None), (''3do'', ''opera'', js ''3DO'' @ of_games, None),
   (''psp'', ''ppsspp'', js ''PSP'' @ of_games, None),
   (''virtualboy'', ''beetle_vb'', js ''Virtual Boy'' @ of_games, None),
   (''wonderswan'', ''mednafen_wswan'', js ''WonderSwan'' @ of_games, None),
   (''mastersystem'', ''smsplus'', js ''Master System'' @ of_games, None),
   (''nintendo3ds'', ''azahar'', js ''Nintendo 3DS'' @ of_games, None),
   (''rpgmaker'', ''rpgmaker'', js ''RPG Maker'' @ of_games, None),
   (''ons'', ''onscripter_yuri'', js ''ONS'' @ of_games, None),
   (''kirikiri'', ''kirikiri2'', js ''KiriKiri'' @ of_games, None),
   (''butterscotch'', ''butterscotch'', js ''GameMaker'' @ of_games, None),
   (''tyranoscript'', ''tyranoscript'', js ''TyranoScript'' @ of_games, None),
   (''siglus'', ''siglus'', js ''Siglus'' @ of_games, None), (''wasm4'', ''wasm4'', js ''WASM-4'' @ of_games, None),
   (''j2me'', ''j2me'', js ''Java ME'' @ of_games, None), (''tic80'', ''tic80'', js ''TIC-80'' @ of_games, None),
   (''pico8'', ''fake08'', js ''PICO-8'' @ of_games, None),
   (''scummvm'', ''scummvm'', js ''ScummVM'' @ of_games, None),
   (''zxspectrum'', ''fuse'', js ''ZX Spectrum'' @ of_games, None),
   (''c64'', ''vice_x64sc'', js ''Commodore 64'' @ of_games, None),
   (''colecovision'', ''gearcoleco'', js ''ColecoVision'' @ of_games, None),
   (''atarijaguar'', ''virtualjaguar'', js ''Atari Jaguar'' @ of_games, None),
   (''doom'', ''prboom'', js ''Doom'' @ of_games, None),
   (''c128'', ''vice_x128'', js ''Commodore 128'' @ of_games, None),
   (''vic20'', ''vice_xvic'', js ''Commodore VIC-20'' @ of_games, None),
   (''amiga'', ''puae'', js ''Commodore Amiga'' @ of_games, None),
   (''amigacd32'', ''puae'', js ''Amiga CD32'' @ of_games, None),
   (''flash'', ''ruffle'', js ''Flash'' @ of_games, None), (''msx'', ''webmsx'', js ''MSX'' @ of_games, None),
   (''x68000'', ''px68k'', js ''Sharp X68000'' @ of_games, None),
   (''pc98'', ''np2kai'', js ''PC-98'' @ of_games, None),
   (''openbor'', ''openbor'', js ''OpenBOR'' @ of_games, None),
   (''pcecd'', ''mednafen_pce'', js ''PC Engine CD'' @ of_games, None),
   (''zx81'', ''81'', js ''ZX81'' @ of_games, None),
   (''amstradcpc'', ''cap32'', js ''Amstrad CPC'' @ of_games, None),
   (''pet'', ''vice_xpet'', js ''Commodore PET'' @ of_games, None),
   (''plus4'', ''vice_xplus4'', js ''Commodore Plus/4'' @ of_games, None),
   (''cdi'', ''same_cdi'', js ''Philips CD-i'' @ of_games, None),
   (''vectrex'', ''vecx'', js ''Vectrex'' @ of_games, None),
   (''odyssey2'', ''o2em'', js ''Odyssey'' @ [0xB2] @ js '' / Videopac'' @ of_games, None),
   (''intellivision'', ''freeintv'', js ''Intellivision'' @ of_games, None),
   (''pc88'', ''quasi88'', js ''PC-88'' @ of_games, None),
   (''neogeocd'', ''neocd'', js ''Neo Geo CD'' @ of_games, None),
   (''pokemini'', ''gbe_plus'', js ''Pok'' @ [0xE9] @ js ''mon Mini'' @ of_games, None),
   (''cavestory'', ''nxengine'', [0x6D1E, 0x7A9F, 0x7269, 0x8BED], None),
   (''uzebox'', ''uzem'', js ''Uzebox'' @ of_games, None),
   (''bbkrpg'', ''gam4980'', [0x6B65, 0x6B65, 0x9AD8] @ js '' RPG'' @ of_games, None),
   (''gamegear'', ''genesis_plus_gx'', js ''Game Gear'' @ of_games, None),
   (''sg1000'', ''genesis_plus_gx'', js ''SG-1000'' @ of_games, None),
   (''multivision'', ''genesis_plus_gx'', js ''Multivision'' @ of_games, None),
   (''pico'', ''picodrive'', js ''Sega Pico'' @ of_games, None),
   (''sega32x'', ''picodrive'', js ''Sega 32X'' @ of_games, None),
   (''supergrafx'', ''mednafen_pce'', js ''SuperGrafx'' @ of_games, None),
   (''gx4000'', ''cap32'', js ''GX4000'' @ of_games, None),
   (''arduboy'', ''ardens'', js ''Arduboy'' @ of_games, None),
   (''atari800'', ''atari800'', js ''Atari 8-bit'' @ of_games, None),
   (''xegs'', ''atari800-xegs'', js ''Atari XEGS'' @ of_games, None),
   (''atarist'', ''hatarib'', js ''Atari ST'' @ of_games, None),
   (''bbc'', ''jsbeeb'', js ''BBC Micro'' @ of_games, None),
   (''atom'', ''mame_atom'', js ''Acorn Atom'' @ of_games, Some ([0x5355, 0x4E2A] @ js '' .atm '' @ [0x5FEB, 0x901F, 0x88C5, 0x8F7D, 0x6587, 0x4EF6, 0x3002])),
   (''pv1000'', ''mame_pv1000'', js ''PV-1000'' @ of_games, Some ([0x5355, 0x5F20] @ js '' 8/16/32 KiB .bin/.rom '' @ [0x5361, 0x5E26, 0x3002])),
   (''apple2'', ''apple2js'', js ''Apple II'' @ of_games, None),
   (''lutro'', ''lutro'', js ''Lutro'' @ of_games, None), (''daphne'', ''daphne'', js ''Daphne'' @ of_games, None),
   (''channelf'', ''freechaf'', js ''Channel F'' @ of_games, None),
   (''megaduck'', ''sameduck'', js ''Mega Duck'' @ of_games, None),
   (''model3'', ''supermodel'', js ''Sega Model 3'' @ of_games, None),
   (''samcoupe'', ''samcoupeweb'', js ''SAM Coup'' @ [0xE9] @ of_games, None),
   (''supervision'', ''potator'', js ''Supervision'' @ of_games, None),
   (''thomson'', ''theodore'', js ''Thomson'' @ of_games, None)]"

record dir_input =
  di_platform :: jsstr
  di_core :: jsstr
  di_name :: jsstr
  di_description :: jsstr
  di_coreIds :: "jsstr list"
  di_enabled :: bool
  di_slug :: jsstr

record catalog_core =
  cc_id :: jsstr
  cc_fingerprint :: jsstr
  cc_platforms :: "jsstr list"

definition slug_of :: "string \<Rightarrow> string \<Rightarrow> jsstr" where
  "slug_of p c = js (map (\<lambda>x. if x = CHR ''_'' then CHR ''-'' else x) (p @ ''-'' @ c))"

definition recommended_input :: "string \<times> string \<times> jsstr \<times> jsstr option \<Rightarrow> dir_input" where
  "recommended_input t =
     (case t of (p, c, name, description) \<Rightarrow>
        \<lparr>di_platform = js p, di_core = js c, di_name = name, di_description = (case description of Some d \<Rightarrow> d | None \<Rightarrow> []),
         di_coreIds = [js c], di_enabled = True, di_slug = slug_of p c\<rparr>)"

definition core_available :: "jsstr list \<Rightarrow> catalog_core list \<Rightarrow> dir_input \<Rightarrow> bool" where
  "core_available platforms cores t \<longleftrightarrow>
     di_platform t \<in> set platforms \<and>
     list_ex (\<lambda>c. cc_id c = di_core t \<and> cc_fingerprint c \<noteq> [] \<and> di_platform t \<in> set (cc_platforms c)) cores"

definition recommendedDirectories :: "jsstr list \<Rightarrow> catalog_core list \<Rightarrow> dir_input list" where
  "recommendedDirectories platforms cores =
     filter (core_available platforms cores) (map recommended_input recommendedDirectoryTemplates)"

record dir_row =
  dr_slug :: jsstr
  dr_platform :: jsstr
  dr_core :: jsstr
  dr_name :: jsstr

definition covered :: "dir_input \<Rightarrow> dir_row list \<Rightarrow> bool" where
  "covered t rows \<longleftrightarrow>
     list_ex (\<lambda>d. dr_slug d = di_slug t \<or>
       (dr_platform d = di_platform t \<and> (dr_core d = di_core t \<or> js_trim (dr_name d) = di_name t))) rows"

text \<open>A failed call: an \<open>ApiError\<close> with code and status, or another error.\<close>

datatype call_failure = ApiFailure jsstr nat | OtherFailure

record run_summary =
  su_created :: nat
  su_existing :: nat
  su_failures :: "jsstr list"

definition no_summary :: run_summary where
  "no_summary = \<lparr>su_created = 0, su_existing = 0, su_failures = []\<rparr>"

record 's dir_actions =
  da_list :: "'s \<Rightarrow> dir_row list option \<times> 's"
  da_create :: "dir_input \<Rightarrow> 's \<Rightarrow> (call_failure + dir_row) \<times> 's"
  da_aborted :: "'s \<Rightarrow> bool"

text \<open>After a conflict the list is read again; when that fails the old one is kept.\<close>

definition relist :: "'s dir_actions \<Rightarrow> call_failure \<Rightarrow> dir_row list \<Rightarrow> 's \<Rightarrow> dir_row list \<times> 's" where
  "relist a f rows s =
     (case f of
        ApiFailure code st \<Rightarrow>
          if st = 409 then (case da_list a s of (Some l, s') \<Rightarrow> (l, s') | (None, s') \<Rightarrow> (rows, s')) else (rows, s)
      | OtherFailure \<Rightarrow> (rows, s))"

definition is_conflict :: "call_failure \<Rightarrow> bool" where
  "is_conflict f \<longleftrightarrow> (case f of ApiFailure code st \<Rightarrow> st = 409 | OtherFailure \<Rightarrow> False)"

definition is_denied :: "call_failure \<Rightarrow> bool" where
  "is_denied f \<longleftrightarrow> (case f of ApiFailure code st \<Rightarrow> st = 401 \<or> st = 403 | OtherFailure \<Rightarrow> False)"

fun directories_loop :: "'s dir_actions \<Rightarrow> dir_input list \<Rightarrow> dir_row list \<Rightarrow> run_summary \<Rightarrow> 's \<Rightarrow> run_summary \<times> 's" where
  "directories_loop a [] rows m s = (m, s)"
| "directories_loop a (t # ts) rows m s =
     (if da_aborted a s then (m, s)
      else if covered t rows then directories_loop a ts rows (m\<lparr>su_existing := Suc (su_existing m)\<rparr>) s
      else
        (case da_create a t s of
           (Inr d, s1) \<Rightarrow> directories_loop a ts (rows @ [d]) (m\<lparr>su_created := Suc (su_created m)\<rparr>) s1
         | (Inl f, s1) \<Rightarrow>
             (case relist a f rows s1 of (rows', s2) \<Rightarrow>
                if is_conflict f \<and> covered t rows'
                then directories_loop a ts rows' (m\<lparr>su_existing := Suc (su_existing m)\<rparr>) s2
                else
                  (let m' = m\<lparr>su_failures := su_failures m @ [di_name t]\<rparr> in
                   if is_denied f then (m', s2) else directories_loop a ts rows' m' s2))))"

definition createRecommendedDirectories :: "'s dir_actions \<Rightarrow> dir_input list \<Rightarrow> 's \<Rightarrow> (run_summary option) \<times> 's" where
  "createRecommendedDirectories a ts s =
     (case da_list a s of
        (None, s') \<Rightarrow> (None, s')
      | (Some rows, s') \<Rightarrow> (case directories_loop a ts rows no_summary s' of (m, t) \<Rightarrow> (Some m, t)))"

section \<open>Recommended tags\<close>

definition recommendedTags :: "jsstr list" where
  "recommendedTags = [[0x52A8, 0x4F5C, 0x5192, 0x9669], [0x98DE, 0x884C, 0x5C04, 0x51FB], [0x683C, 0x6597, 0x5BF9, 0x6218],
     [0x89D2, 0x8272, 0x626E, 0x6F14], [0x6A21, 0x62DF, 0x7ECF, 0x8425], [0x5373, 0x65F6, 0x6218, 0x7565],
     [0x4F53, 0x80B2, 0x7ADE, 0x6280], [0x76CA, 0x667A, 0x89E3, 0x8C1C], [0x5149, 0x67AA, 0x5C04, 0x51FB],
     [0x751F, 0x5B58, 0x6050, 0x6016]]"

text \<open>\<open>\p{White_Space}\<close>, which has the next line and lacks the byte order mark.\<close>

definition unicode_space :: "code_unit \<Rightarrow> bool" where
  "unicode_space c \<longleftrightarrow> (space_unit c \<and> c \<noteq> 0xFEFF) \<or> c = 0x85"

fun collapse :: "bool \<Rightarrow> jsstr \<Rightarrow> jsstr" where
  "collapse inside [] = []"
| "collapse inside (c # cs) =
     (if unicode_space c then (if inside then collapse True cs else 0x20 # collapse True cs) else c # collapse False cs)"

definition drop_first_space :: "jsstr \<Rightarrow> jsstr" where
  "drop_first_space s = (case s of c # cs \<Rightarrow> if c = 0x20 then cs else s | [] \<Rightarrow> [])"

text \<open>\<open>lower\<close> is \<open>toLowerCase\<close>.\<close>

definition nameKey :: "(jsstr \<Rightarrow> jsstr) \<Rightarrow> jsstr \<Rightarrow> jsstr" where
  "nameKey lower name = lower (rev (drop_first_space (rev (drop_first_space (collapse False name)))))"

record 's tag_actions =
  ta_list :: "nat \<Rightarrow> 's \<Rightarrow> (jsstr list \<times> nat) option \<times> 's"
  ta_create :: "jsstr \<Rightarrow> 's \<Rightarrow> call_failure option \<times> 's"
  ta_aborted :: "'s \<Rightarrow> bool"

text \<open>The existing keys, page by page; \<open>Inl\<close> when a page fails, \<open>None\<close> when the fuel, one per page, does not suffice.\<close>

fun tag_pages :: "nat \<Rightarrow> (jsstr \<Rightarrow> jsstr) \<Rightarrow> 's tag_actions \<Rightarrow> nat \<Rightarrow> jsstr list \<Rightarrow> 's \<Rightarrow> ((unit + jsstr list) \<times> 's) option" where
  "tag_pages 0 lower a offset keys s = None"
| "tag_pages (Suc n) lower a offset keys s =
     (if ta_aborted a s then Some (Inr keys, s)
      else
        (case ta_list a offset s of
           (None, s') \<Rightarrow> Some (Inl (), s')
         | (Some (names, pages_total), s') \<Rightarrow>
             (let keys' = keys @ map (nameKey lower) names in
              if pages_total \<le> offset + 100 \<or> length names < 100 then Some (Inr keys', s')
              else tag_pages n lower a (offset + 100) keys' s')))"

fun tags_loop :: "(jsstr \<Rightarrow> jsstr) \<Rightarrow> 's tag_actions \<Rightarrow> jsstr list \<Rightarrow> jsstr list \<Rightarrow> run_summary \<Rightarrow> 's \<Rightarrow> run_summary \<times> 's" where
  "tags_loop lower a [] keys m s = (m, s)"
| "tags_loop lower a (name # names) keys m s =
     (if ta_aborted a s then (m, s)
      else if nameKey lower name \<in> set keys then tags_loop lower a names keys (m\<lparr>su_existing := Suc (su_existing m)\<rparr>) s
      else
        (case ta_create a name s of
           (None, s') \<Rightarrow> tags_loop lower a names keys (m\<lparr>su_created := Suc (su_created m)\<rparr>) s'
         | (Some f, s') \<Rightarrow>
             if (case f of ApiFailure code st \<Rightarrow> code = js ''TAG_NAME_CONFLICT'' | OtherFailure \<Rightarrow> False)
             then tags_loop lower a names keys (m\<lparr>su_existing := Suc (su_existing m)\<rparr>) s'
             else
               (let m' = m\<lparr>su_failures := su_failures m @ [name]\<rparr> in
                if is_denied f then (m', s') else tags_loop lower a names keys m' s')))"

definition createRecommendedTags :: "nat \<Rightarrow> (jsstr \<Rightarrow> jsstr) \<Rightarrow> 's tag_actions \<Rightarrow> 's \<Rightarrow> ((unit + run_summary) \<times> 's) option" where
  "createRecommendedTags fuel lower a s =
     (case tag_pages fuel lower a 0 [] s of
        None \<Rightarrow> None
      | Some (Inl u, s') \<Rightarrow> Some (Inl u, s')
      | Some (Inr keys, s') \<Rightarrow> (case tags_loop lower a recommendedTags keys no_summary s' of (m, t) \<Rightarrow> Some (Inr m, t)))"

section \<open>The tone of a status\<close>

datatype StatusTone = ToneGood | ToneWarn | ToneBad | ToneInfo | ToneNeutral

definition status_names :: "(StatusTone \<times> string list) list" where
  "status_names =
     [(ToneGood, [''READY'', ''AVAILABLE'', ''MATCHED'', ''COMPLETED'', ''PUBLISHED'', ''APPROVED'', ''ACTIVE'', ''ENABLED'']),
      (ToneWarn, [''HASH_WARNING'', ''UNKNOWN'', ''WARNING'']),
      (ToneBad, [''INCOMPATIBLE'', ''DEPENDENCY_MISSING'', ''MISSING'', ''BLOCKED'', ''FAILED'', ''VALIDATION_FAILED'', ''DELETED'',
         ''DISCARDED'', ''ERROR'', ''LAUNCH_BIOS_MISSING'', ''LAUNCH_PARENT_MISSING'', ''UNSUPPORTED_MERGED_ROMSET'',
         ''UNSUPPORTED_CHD'']),
      (ToneInfo, [''NEEDS_VALIDATION'', ''PENDING'', ''PARSING'', ''RUNNING'', ''QUEUED'', ''PROCESSING'', ''REVIEW_PENDING''])]"

text \<open>\<open>upper\<close> is \<open>toUpperCase\<close>.\<close>

definition statusTone :: "(jsstr \<Rightarrow> jsstr) \<Rightarrow> jsstr option \<Rightarrow> StatusTone" where
  "statusTone upper status =
     (let normalized = (case status of Some s \<Rightarrow> upper (js_trim s) | None \<Rightarrow> []) in
      case find (\<lambda>(tone, names). normalized \<in> set (map js names)) status_names of
        Some (tone, names) \<Rightarrow> tone
      | None \<Rightarrow> ToneNeutral)"

section \<open>Properties\<close>

text \<open>A server that lists what it has and refuses a second directory with the same slug.\<close>

definition row_of :: "dir_input \<Rightarrow> dir_row" where
  "row_of t = \<lparr>dr_slug = di_slug t, dr_platform = di_platform t, dr_core = di_core t, dr_name = di_name t\<rparr>"

definition ideal_directories :: "dir_row list dir_actions" where
  "ideal_directories =
     \<lparr>da_list = (\<lambda>s. (Some s, s)),
      da_create = (\<lambda>t s. if list_ex (\<lambda>d. dr_slug d = di_slug t) s then (Inl (ApiFailure (js ''CONFLICT'') 409), s)
        else (Inr (row_of t), s @ [row_of t])),
      da_aborted = (\<lambda>s. False)\<rparr>"

lemma ideal_simps [simp]:
  "da_list ideal_directories s = (Some s, s)" "da_aborted ideal_directories s = False"
  "da_create ideal_directories t s = (if list_ex (\<lambda>d. dr_slug d = di_slug t) s then (Inl (ApiFailure (js ''CONFLICT'') 409), s)
     else (Inr (row_of t), s @ [row_of t]))"
  by (simp_all add: ideal_directories_def)

lemma covered_simps [simp]: "covered t (rows @ rows') \<longleftrightarrow> covered t rows \<or> covered t rows'" "covered t (row_of t # rows)"
  by (auto simp: covered_def row_of_def)

lemma uncovered_slug: "\<not> covered t rows \<Longrightarrow> \<not> list_ex (\<lambda>d. dr_slug d = di_slug t) rows"
  by (auto simp: covered_def list_ex_iff)

lemma ideal_loop:
  "\<exists>m' rows'. directories_loop ideal_directories ts s m s = (m', s @ rows') \<and> list_all (\<lambda>t. covered t (s @ rows')) ts"
proof (induction ts arbitrary: s m)
  case (Cons t ts)
  show ?case
  proof (cases "covered t s")
    case True
    with Cons.IH [of s "m\<lparr>su_existing := Suc (su_existing m)\<rparr>"] show ?thesis by auto
  next
    case False
    from Cons.IH [of "s @ [row_of t]" "m\<lparr>su_created := Suc (su_created m)\<rparr>"] False uncovered_slug [OF False]
    show ?thesis by auto
  qed
qed simp

lemma covered_loop:
  "list_all (\<lambda>t. covered t s) ts \<Longrightarrow>
   directories_loop ideal_directories ts s m s = (m\<lparr>su_existing := su_existing m + length ts\<rparr>, s)"
  by (induction ts arbitrary: m) simp_all

text \<open>Asking for the recommended directories once more creates nothing: on a server that keeps what it accepted, a second run
  finds every template that the first one handled and counts it as existing.\<close>

theorem recommending_again_creates_nothing:
  "case createRecommendedDirectories ideal_directories ts s of (_, s1) \<Rightarrow>
     createRecommendedDirectories ideal_directories ts s1 = (Some (no_summary\<lparr>su_existing := length ts\<rparr>), s1)"
proof -
  obtain m' rows' where "directories_loop ideal_directories ts s no_summary s = (m', s @ rows')"
    "list_all (\<lambda>t. covered t (s @ rows')) ts" using ideal_loop by blast
  then show ?thesis using covered_loop [of "s @ rows'" ts no_summary]
    by (simp add: createRecommendedDirectories_def no_summary_def)
qed

definition accounted :: "run_summary \<Rightarrow> nat" where
  "accounted m = su_created m + su_existing m + length (su_failures m)"

text \<open>Neither an abort nor a refusal for lack of rights, in any state.\<close>

definition uninterrupted :: "'s dir_actions \<Rightarrow> bool" where
  "uninterrupted a \<longleftrightarrow> (\<forall>s. \<not> da_aborted a s) \<and> (\<forall>t s f s'. da_create a t s = (Inl f, s') \<longrightarrow> \<not> is_denied f)"

lemma uninterruptedD:
  "uninterrupted a \<Longrightarrow> \<not> da_aborted a s" "uninterrupted a \<Longrightarrow> da_create a t s = (Inl f, s') \<Longrightarrow> \<not> is_denied f"
  unfolding uninterrupted_def by blast+

lemma loop_reports:
  "accounted (fst (directories_loop a ts rows m s)) \<le> accounted m + length ts"
  "uninterrupted a \<Longrightarrow> accounted (fst (directories_loop a ts rows m s)) = accounted m + length ts"
  by (induction a ts rows m s rule: directories_loop.induct)
    (auto simp: accounted_def Let_def dest: uninterruptedD split: sum.split prod.split)

text \<open>On any server every template is reported at most once, as created, as existing or as failed; without an abort and
  without a refusal for lack of rights, exactly once.\<close>

theorem every_template_reported_once:
  assumes "createRecommendedDirectories a ts s = (Some m, s')"
  shows "accounted m \<le> length ts \<and> (uninterrupted a \<longrightarrow> accounted m = length ts)"
proof -
  obtain rows s1 where "da_list a s = (Some rows, s1)"
    using assms by (auto simp: createRecommendedDirectories_def split: prod.splits option.splits)
  then have "m = fst (directories_loop a ts rows no_summary s1)"
    using assms by (simp add: createRecommendedDirectories_def split: prod.splits)
  moreover have "accounted no_summary = 0" by (simp add: accounted_def no_summary_def)
  ultimately show ?thesis using loop_reports [of a ts rows no_summary s1] by simp
qed

lemma every_template_reported_once_witness:
  "accounted \<lparr>su_created = 1, su_existing = 1, su_failures = []\<rparr> = 2"
proof -
  let ?t = "\<lparr>di_platform = js ''nes'', di_core = js ''fceumm'', di_name = js ''NES'', di_description = [], di_coreIds = [js ''fceumm''],
    di_enabled = True, di_slug = js ''nes-fceumm''\<rparr>"
  have run: "createRecommendedDirectories ideal_directories [?t, ?t] [] = (Some \<lparr>su_created = 1, su_existing = 1, su_failures = []\<rparr>, [row_of ?t])"
    by (simp add: createRecommendedDirectories_def no_summary_def covered_def row_of_def)
  have "uninterrupted ideal_directories" by (simp add: uninterrupted_def is_denied_def)
  then show ?thesis using every_template_reported_once [OF run] by simp
qed

text \<open>The same for tags, against a server that refuses a name that is like one it has.\<close>

definition ideal_tags :: "(jsstr \<Rightarrow> jsstr \<Rightarrow> bool) \<Rightarrow> jsstr list tag_actions" where
  "ideal_tags same =
     \<lparr>ta_list = (\<lambda>offset s. (Some (take 100 (drop offset s), length s), s)),
      ta_create = (\<lambda>n s. if list_ex (same n) s then (Some (ApiFailure (js ''TAG_NAME_CONFLICT'') 409), s) else (None, s @ [n])),
      ta_aborted = (\<lambda>s. False)\<rparr>"

lemma ideal_tag_simps [simp]:
  "ta_list (ideal_tags same) offset s = (Some (take 100 (drop offset s), length s), s)"
  "ta_create (ideal_tags same) n s = (if list_ex (same n) s then (Some (ApiFailure (js ''TAG_NAME_CONFLICT'') 409), s) else (None, s @ [n]))"
  "ta_aborted (ideal_tags same) s = False"
  by (simp_all add: ideal_tags_def)

lemma ideal_pages:
  "0 < n \<Longrightarrow> length s < offset + 100 * n \<Longrightarrow>
   tag_pages n lower (ideal_tags same) offset keys s = Some (Inr (keys @ map (nameKey lower) (drop offset s)), s)"
proof (induction n arbitrary: offset keys)
  case (Suc n)
  show ?case
  proof (cases "length s \<le> offset + 100 \<or> length (take 100 (drop offset s)) < 100")
    case True
    then have "take 100 (drop offset s) = drop offset s" by (auto simp: min_def split: if_splits)
    then show ?thesis using True by (simp add: Let_def)
  next
    case False
    then have "0 < n" "length s < offset + 100 + 100 * n" using Suc.prems by auto
    moreover have "take 100 (drop offset s) @ drop (offset + 100) s = drop offset s"
      by (metis add.commute append_take_drop_id drop_drop)
    ultimately show ?thesis using False Suc.IH [of "offset + 100" "keys @ map (nameKey lower) (take 100 (drop offset s))"]
      by (simp add: Let_def flip: map_append)
  qed
qed simp

definition tag_known :: "(jsstr \<Rightarrow> jsstr) \<Rightarrow> (jsstr \<Rightarrow> jsstr \<Rightarrow> bool) \<Rightarrow> jsstr list \<Rightarrow> jsstr \<Rightarrow> bool" where
  "tag_known lower same s n \<longleftrightarrow> nameKey lower n \<in> set (map (nameKey lower) s) \<or> list_ex (same n) s"

lemma tag_known_more: "tag_known lower same s n \<Longrightarrow> tag_known lower same (s @ s') n"
  by (auto simp: tag_known_def)

lemma ideal_tag_loop:
  assumes "set keys \<subseteq> nameKey lower ` set s"
  shows "\<exists>m' s'. tags_loop lower (ideal_tags same) names keys m s = (m', s @ s') \<and>
    list_all (tag_known lower same (s @ s')) names \<and> length s' \<le> length names"
  using assms
proof (induction names arbitrary: s m)
  case (Cons n names)
  consider "nameKey lower n \<in> set keys" | "nameKey lower n \<notin> set keys" "list_ex (same n) s"
    | "nameKey lower n \<notin> set keys" "\<not> list_ex (same n) s" by blast
  then show ?case
  proof cases
    case 1
    then have "tag_known lower same s n" using Cons.prems by (auto simp: tag_known_def)
    with 1 Cons.IH [OF Cons.prems, of "m\<lparr>su_existing := Suc (su_existing m)\<rparr>"] show ?thesis by (auto intro: tag_known_more le_SucI)
  next
    case 2
    then have "tag_known lower same s n" by (simp add: tag_known_def)
    with 2 Cons.IH [OF Cons.prems, of "m\<lparr>su_existing := Suc (su_existing m)\<rparr>"] show ?thesis by (auto intro: tag_known_more le_SucI)
  next
    case 3
    have "set keys \<subseteq> nameKey lower ` set (s @ [n])" using Cons.prems by auto
    moreover have "tag_known lower same (s @ n # s') n" for s' by (simp add: tag_known_def)
    ultimately show ?thesis using 3 Cons.IH [of "s @ [n]" "m\<lparr>su_created := Suc (su_created m)\<rparr>"] by auto
  qed
qed simp

lemma known_tag_loop:
  "list_all (tag_known lower same s) names \<Longrightarrow>
   tags_loop lower (ideal_tags same) names (map (nameKey lower) s) m s = (m\<lparr>su_existing := su_existing m + length names\<rparr>, s)"
  by (induction names arbitrary: m) (auto simp: tag_known_def)

text \<open>Asking for the recommended tags once more creates nothing, whatever names the server takes for the same; one request
  per hundred tags is enough to know them all.\<close>

theorem recommending_tags_again_creates_nothing:
  assumes "length s + length recommendedTags < 100 * fuel"
  shows "\<exists>m s1. createRecommendedTags fuel lower (ideal_tags same) s = Some (Inr m, s1) \<and>
    createRecommendedTags fuel lower (ideal_tags same) s1 = Some (Inr (no_summary\<lparr>su_existing := length recommendedTags\<rparr>), s1)"
proof -
  have f: "0 < fuel" using assms by (cases fuel) simp_all
  have "set (map (nameKey lower) s) \<subseteq> nameKey lower ` set s" by simp
  from ideal_tag_loop [OF this, of same recommendedTags no_summary] obtain m s' where
    l: "tags_loop lower (ideal_tags same) recommendedTags (map (nameKey lower) s) no_summary s = (m, s @ s')"
      "list_all (tag_known lower same (s @ s')) recommendedTags" "length s' \<le> length recommendedTags" by blast
  have "length s < 0 + 100 * fuel" "length (s @ s') < 0 + 100 * fuel" using assms l(3) by auto
  from this [THEN ideal_pages [OF f]] l(1) known_tag_loop [OF l(2)]
  have "createRecommendedTags fuel lower (ideal_tags same) s = Some (Inr m, s @ s')"
    "createRecommendedTags fuel lower (ideal_tags same) (s @ s') = Some (Inr (no_summary\<lparr>su_existing := length recommendedTags\<rparr>), s @ s')"
    by (simp_all add: createRecommendedTags_def no_summary_def del: map_append)
  then show ?thesis by blast
qed

lemma recommending_tags_again_creates_nothing_witness:
  "\<exists>m s1. createRecommendedTags 1 id (ideal_tags (=)) [] = Some (Inr m, s1) \<and>
    createRecommendedTags 1 id (ideal_tags (=)) s1 = Some (Inr (no_summary\<lparr>su_existing := length recommendedTags\<rparr>), s1)"
proof -
  have "length ([] :: jsstr list) + length recommendedTags < 100 * 1" by (simp add: recommendedTags_def)
  from recommending_tags_again_creates_nothing [OF this] show ?thesis .
qed

lemma platformCategory_js: "platformCategory (js k) = map_of platform_table k"
proof -
  have "map_of (map (\<lambda>(k, c). (js k, c)) xs) (js k) = map_of xs k" for xs :: "(string \<times> DirectoryCategory) list"
    by (induction xs) (auto simp: js_inj)
  then show ?thesis by (simp add: platformCategory_def)
qed

definition slug_text :: "string \<times> string \<times> jsstr \<times> jsstr option \<Rightarrow> string" where
  "slug_text t = map (\<lambda>x. if x = CHR ''_'' then CHR ''-'' else x) (fst t @ ''-'' @ fst (snd t))"

lemma slugs_differ: "distinct (map slug_text recommendedDirectoryTemplates)"
  by code_simp

lemma templates_known: "list_all (\<lambda>t. map_of platform_table (fst t) \<noteq> None) recommendedDirectoryTemplates"
  by code_simp

lemma artwork_known: "list_all (\<lambda>t. map_of platform_table (fst t) \<noteq> None) artwork_table"
  by code_simp

text \<open>The tables fit together: each recommended directory has a slug of its own, is for a platform with a category, and every
  platform with a picture has one too.\<close>

theorem catalog_tables_agree:
  "distinct (map (\<lambda>t. di_slug (recommended_input t)) recommendedDirectoryTemplates) \<and>
   list_all (\<lambda>t. platformCategory (di_platform (recommended_input t)) \<noteq> None) recommendedDirectoryTemplates \<and>
   list_all (\<lambda>t. platformCategory (js (fst t)) \<noteq> None) artwork_table"
proof -
  have "di_slug (recommended_input t) = js (slug_text t)" "di_platform (recommended_input t) = js (fst t)" for t
    by (simp_all add: recommended_input_def slug_of_def slug_text_def split: prod.split)
  moreover have "distinct (map js (map slug_text recommendedDirectoryTemplates))"
    using slugs_differ by (simp only: distinct_map [of js]) (simp add: inj_on_def js_inj)
  ultimately show ?thesis using templates_known artwork_known by (simp add: platformCategory_js comp_def)
qed

end
