(* ===== verification/Game_Editor.thy ===== *)
theory Game_Editor
  imports Prelude
begin

text \<open>
  The panel that edits values of a running game: \<open>web/features/player/game-editor-panel.tsx\<close> without its rendering. The
  Provider's editor answers requests for categories, pages of entries and changes in any order. A listed entry carries
  the category and the filter of the request that brought it, which the code does not keep. After an event the panel
  renders: when category, group or search changed, its effect queues one microtask.
\<close>

section \<open>Data\<close>

datatype edit_value = NumberValue rat | TextValue jsstr | BooleanValue bool | NoValue

datatype edit_type = NumberType | TextType | BooleanType | UnsupportedType

record edit_entry =
  ee_id :: jsstr
  ee_value :: edit_value
  ee_type :: edit_type
  ee_min :: "rat option"
  ee_max :: "rat option"

definition EDITOR_PAGE_SIZE :: nat where "EDITOR_PAGE_SIZE = 40"

record load_op =
  lo_sequence :: nat
  lo_category :: jsstr
  lo_filter :: jsstr
  lo_page :: nat

text \<open>A change in flight, with what its closure read; \<open>so_refresh\<close> once it reads the list again.\<close>

record save_op =
  so_sequence :: nat
  so_active :: jsstr
  so_category :: jsstr
  so_search :: jsstr
  so_refresh :: bool

datatype editor_error = NoError | CategoriesFailed | ReadFailed | RefreshFailed | SaveFailed

record editor_panel =
  ge_waiting :: bool
  ge_categories :: "(jsstr \<times> jsstr list option) list"
  ge_category :: jsstr
  ge_group :: jsstr
  ge_query :: jsstr
  ge_search :: jsstr
  ge_searchOpen :: bool
  ge_entries :: "((jsstr \<times> jsstr) \<times> edit_entry) list"
  ge_next :: "nat option"
  ge_loading :: bool
  ge_showLoading :: bool
  ge_loadingMore :: bool
  ge_pageError :: bool
  ge_error :: editor_error
  ge_notice :: bool
  ge_sequence :: nat
  ge_requested :: "(jsstr \<times> jsstr \<times> nat) option"
  ge_loads :: "load_op list"
  ge_saves :: "save_op list"
  ge_due :: bool

definition editor_initial :: editor_panel where
  "editor_initial = \<lparr>ge_waiting = True, ge_categories = [], ge_category = [], ge_group = [], ge_query = [], ge_search = [],
     ge_searchOpen = False, ge_entries = [], ge_next = None, ge_loading = True, ge_showLoading = False, ge_loadingMore = False,
     ge_pageError = False, ge_error = NoError, ge_notice = False, ge_sequence = 0, ge_requested = None, ge_loads = [],
     ge_saves = [], ge_due = False\<rparr>"

definition resolveActiveCategory :: "jsstr \<Rightarrow> jsstr list option \<Rightarrow> jsstr \<Rightarrow> jsstr" where
  "resolveActiveCategory category groups selectedGroup =
     (case groups of
        None \<Rightarrow> category
      | Some gs \<Rightarrow> if selectedGroup \<noteq> [] then selectedGroup else (case gs of [] \<Rightarrow> [] | g # _ \<Rightarrow> g))"

definition groups_of :: "editor_panel \<Rightarrow> jsstr list option" where
  "groups_of s = (case find (\<lambda>c. fst c = ge_category s) (ge_categories s) of Some c \<Rightarrow> snd c | None \<Rightarrow> None)"

definition activeCategory :: "editor_panel \<Rightarrow> jsstr" where
  "activeCategory s = resolveActiveCategory (ge_category s) (groups_of s) (ge_group s)"

definition self_switches :: jsstr where "self_switches = js ''self_switches''"

section \<open>Reading\<close>

definition load_entries :: "jsstr \<Rightarrow> jsstr \<Rightarrow> nat \<Rightarrow> editor_panel \<Rightarrow> editor_panel" where
  "load_entries selected search page s =
     (let s1 = s\<lparr>ge_sequence := Suc (ge_sequence s), ge_pageError := False, ge_error := NoError,
            ge_loads := ge_loads s @ [\<lparr>lo_sequence = Suc (ge_sequence s), lo_category = selected, lo_filter = search, lo_page = page\<rparr>]\<rparr> in
      if page = 0 then s1\<lparr>ge_requested := None, ge_loading := True, ge_showLoading := False\<rparr>
      else s1\<lparr>ge_loadingMore := True\<rparr>)"

text \<open>The timer of 180 ms of a first page.\<close>

definition loading_shown :: "nat \<Rightarrow> editor_panel \<Rightarrow> editor_panel" where
  "loading_shown k s =
     (case item_at (ge_loads s) k of
        Some op \<Rightarrow> if lo_page op = 0 \<and> lo_sequence op = ge_sequence s then s\<lparr>ge_showLoading := True\<rparr> else s
      | None \<Rightarrow> s)"

definition load_answered :: "nat \<Rightarrow> (edit_entry list \<times> nat option) option \<Rightarrow> editor_panel \<Rightarrow> editor_panel" where
  "load_answered k r s =
     (case item_at (ge_loads s) k of
        None \<Rightarrow> s
      | Some op \<Rightarrow>
          (let s1 = s\<lparr>ge_loads := remove_at k (ge_loads s)\<rparr> in
           if lo_sequence op \<noteq> ge_sequence s then s1
           else
             (let s2 = (case r of
                  Some (entries, after) \<Rightarrow>
                    s1\<lparr>ge_entries := (if lo_page op = 0 then [] else ge_entries s) @ map (Pair (lo_category op, lo_filter op)) entries,
                       ge_next := after\<rparr>
                | None \<Rightarrow>
                    if lo_page op = 0 then s1\<lparr>ge_entries := [], ge_next := None, ge_error := ReadFailed\<rparr>
                    else s1\<lparr>ge_pageError := True\<rparr>) in
              s2\<lparr>ge_loading := False, ge_showLoading := False, ge_loadingMore := False\<rparr>)))"

definition categories_loaded :: "(jsstr \<times> jsstr list option) list option \<Rightarrow> editor_panel \<Rightarrow> editor_panel" where
  "categories_loaded r s =
     (if \<not> ge_waiting s then s
      else case r of
        None \<Rightarrow> s\<lparr>ge_waiting := False, ge_error := CategoriesFailed, ge_loading := False\<rparr>
      | Some cats \<Rightarrow> s\<lparr>ge_waiting := False, ge_categories := cats, ge_category := (case cats of [] \<Rightarrow> [] | c # _ \<Rightarrow> fst c),
          ge_loading := (if cats = [] then False else ge_loading s)\<rparr>)"

text \<open>The queued microtask.\<close>

definition read_due :: "editor_panel \<Rightarrow> editor_panel" where
  "read_due s =
     (if \<not> ge_due s then s
      else if activeCategory s \<noteq> [] \<and> ge_category s \<noteq> self_switches
      then load_entries (activeCategory s) (ge_search s) 0 (s\<lparr>ge_due := False\<rparr>)
      else s\<lparr>ge_due := False, ge_loading := False\<rparr>)"

text \<open>The observer of the end of the list, which exists only under its guard.\<close>

definition more_seen :: "editor_panel \<Rightarrow> editor_panel" where
  "more_seen s =
     (case ge_next s of
        None \<Rightarrow> s
      | Some offset \<Rightarrow>
          if activeCategory s = [] \<or> ge_loading s \<or> ge_loadingMore s \<or> ge_pageError s then s
          else if ge_requested s = Some (activeCategory s, ge_search s, offset) then s
          else load_entries (activeCategory s) (ge_search s) offset
            (s\<lparr>ge_requested := Some (activeCategory s, ge_search s, offset)\<rparr>))"

text \<open>The button of a failed page, which is shown only then.\<close>

definition retry_page :: "editor_panel \<Rightarrow> editor_panel" where
  "retry_page s =
     (case ge_next s of
        None \<Rightarrow> s
      | Some offset \<Rightarrow>
          if ge_loading s \<or> ge_loadingMore s \<or> \<not> ge_pageError s then s
          else load_entries (activeCategory s) (ge_search s) offset (s\<lparr>ge_requested := None\<rparr>))"

definition refresh_list :: "editor_panel \<Rightarrow> editor_panel" where
  "refresh_list s = (if activeCategory s \<noteq> [] then load_entries (activeCategory s) (ge_search s) 0 s else s)"

section \<open>Choosing\<close>

definition chooseCategory :: "jsstr \<Rightarrow> editor_panel \<Rightarrow> editor_panel" where
  "chooseCategory c s =
     (if c = ge_category s then s
      else s\<lparr>ge_sequence := Suc (ge_sequence s), ge_category := c, ge_group := [], ge_entries := [], ge_loading := True,
             ge_showLoading := False, ge_next := None, ge_requested := None, ge_query := [], ge_search := [],
             ge_searchOpen := False, ge_notice := False\<rparr>)"

definition chooseGroup :: "jsstr \<Rightarrow> editor_panel \<Rightarrow> editor_panel" where
  "chooseGroup g s =
     (if g = activeCategory s then s
      else s\<lparr>ge_sequence := Suc (ge_sequence s), ge_requested := None, ge_group := g, ge_entries := [], ge_next := None,
             ge_loading := True, ge_showLoading := False, ge_query := [], ge_search := [], ge_searchOpen := False,
             ge_notice := False\<rparr>)"

definition changeSearch :: "jsstr \<Rightarrow> editor_panel \<Rightarrow> editor_panel" where
  "changeSearch v s =
     s\<lparr>ge_sequence := Suc (ge_sequence s), ge_requested := None, ge_entries := [], ge_next := None, ge_loading := True,
       ge_showLoading := False, ge_search := v\<rparr>"

definition submitSearch :: "editor_panel \<Rightarrow> editor_panel" where
  "submitSearch s =
     (if ge_search s = js_trim (ge_query s) then load_entries (activeCategory s) (ge_search s) 0 s
      else changeSearch (js_trim (ge_query s)) s)"

definition toggleSearch :: "editor_panel \<Rightarrow> editor_panel" where
  "toggleSearch s =
     (let s' = (if ge_searchOpen s \<and> ge_search s \<noteq> [] then changeSearch [] (s\<lparr>ge_query := []\<rparr>) else s) in
      s'\<lparr>ge_searchOpen := \<not> ge_searchOpen s\<rparr>)"

definition clear_search :: "editor_panel \<Rightarrow> editor_panel" where
  "clear_search s = changeSearch [] (s\<lparr>ge_query := []\<rparr>)"

section \<open>Changing\<close>

definition save_starts :: "editor_panel \<Rightarrow> editor_panel" where
  "save_starts s =
     s\<lparr>ge_saves := ge_saves s @ [\<lparr>so_sequence = ge_sequence s, so_active = activeCategory s, so_category = ge_category s,
         so_search = ge_search s, so_refresh = False\<rparr>]\<rparr>"

definition apply_change :: "save_op \<Rightarrow> edit_entry \<Rightarrow> editor_panel \<Rightarrow> editor_panel" where
  "apply_change op updated s =
     (let s1 = s\<lparr>ge_error := NoError, ge_notice := True\<rparr> in
      if so_category op = js ''classes''
      then s1\<lparr>ge_entries := map (\<lambda>(o', e). (o', e\<lparr>ee_value := BooleanValue (ee_id e = ee_id updated)\<rparr>)) (ge_entries s)\<rparr>
      else
        (let s2 = s1\<lparr>ge_entries := map (\<lambda>(o', e). if ee_id e = ee_id updated then ((so_active op, so_search op), updated) else (o', e))
               (ge_entries s)\<rparr> in
         if so_category op = js ''actors'' then load_entries (so_active op) (so_search op) 0 s2 else s2))"

text \<open>The answer to a change; a change of the party reads entries and categories again.\<close>

definition save_answered :: "nat \<Rightarrow> edit_entry option \<Rightarrow> editor_panel \<Rightarrow> editor_panel" where
  "save_answered k r s =
     (case item_at (ge_saves s) k of
        None \<Rightarrow> s
      | Some op \<Rightarrow>
          if so_refresh op then s
          else
            (let s1 = s\<lparr>ge_saves := remove_at k (ge_saves s)\<rparr> in
             case r of
               None \<Rightarrow> s1\<lparr>ge_notice := False, ge_error := SaveFailed\<rparr>
             | Some updated \<Rightarrow>
                 if so_sequence op \<noteq> ge_sequence s then s1
                 else if so_category op = js ''party''
                 then s\<lparr>ge_error := NoError, ge_notice := True, ge_saves := (ge_saves s)[k := op\<lparr>so_refresh := True\<rparr>]\<rparr>
                 else apply_change op updated s1))"

definition party_answered ::
  "nat \<Rightarrow> ((edit_entry list \<times> nat option) \<times> (jsstr \<times> jsstr list option) list) option \<Rightarrow> editor_panel \<Rightarrow> editor_panel" where
  "party_answered k r s =
     (case item_at (ge_saves s) k of
        None \<Rightarrow> s
      | Some op \<Rightarrow>
          if \<not> so_refresh op then s
          else
            (let s1 = s\<lparr>ge_saves := remove_at k (ge_saves s)\<rparr> in
             case r of
               None \<Rightarrow> s1\<lparr>ge_error := RefreshFailed\<rparr>
             | Some ((entries, after), cats) \<Rightarrow>
                 if so_sequence op \<noteq> ge_sequence s then s1
                 else s1\<lparr>ge_entries := map (Pair (so_active op, so_search op)) entries, ge_next := after, ge_categories := cats\<rparr>))"

section \<open>The panel\<close>

datatype editor_event =
    CategoriesLoaded "(jsstr \<times> jsstr list option) list option"
  | ReadDue
  | LoadingTimer nat
  | LoadAnswered nat "(edit_entry list \<times> nat option) option"
  | MoreSeen
  | RetryPage
  | RefreshList
  | ChooseCategory jsstr
  | ChooseGroup jsstr
  | TypeQuery jsstr
  | SubmitSearch
  | ToggleSearch
  | ClearSearch
  | SaveStarts
  | SaveAnswered nat "edit_entry option"
  | PartyAnswered nat "((edit_entry list \<times> nat option) \<times> (jsstr \<times> jsstr list option) list) option"
  | NoticeEnds

text \<open>The rendering offers the listed categories, and search and rows only in a category.\<close>

definition editor_react :: "editor_event \<Rightarrow> editor_panel \<Rightarrow> editor_panel" where
  "editor_react e s =
     (case e of
        CategoriesLoaded r \<Rightarrow> categories_loaded r s
      | ReadDue \<Rightarrow> read_due s
      | LoadingTimer k \<Rightarrow> loading_shown k s
      | LoadAnswered k r \<Rightarrow> load_answered k r s
      | MoreSeen \<Rightarrow> more_seen s
      | RetryPage \<Rightarrow> retry_page s
      | RefreshList \<Rightarrow> refresh_list s
      | ChooseCategory c \<Rightarrow> if c \<in> fst ` set (ge_categories s) then chooseCategory c s else s
      | ChooseGroup g \<Rightarrow> chooseGroup g s
      | TypeQuery q \<Rightarrow> s\<lparr>ge_query := q\<rparr>
      | SubmitSearch \<Rightarrow> if ge_category s \<noteq> [] then submitSearch s else s
      | ToggleSearch \<Rightarrow> if ge_category s \<noteq> [] then toggleSearch s else s
      | ClearSearch \<Rightarrow> if ge_category s \<noteq> [] then clear_search s else s
      | SaveStarts \<Rightarrow> if ge_category s \<noteq> [] then save_starts s else s
      | SaveAnswered k r \<Rightarrow> save_answered k r s
      | PartyAnswered k r \<Rightarrow> party_answered k r s
      | NoticeEnds \<Rightarrow> s\<lparr>ge_notice := False\<rparr>)"

text \<open>The render and its effect: a changed dependency cancels the queued microtask and queues another.\<close>

definition editor_deps :: "editor_panel \<Rightarrow> jsstr \<times> jsstr \<times> jsstr" where
  "editor_deps s = (activeCategory s, ge_category s, ge_search s)"

definition editor_step :: "editor_event \<Rightarrow> editor_panel \<Rightarrow> editor_panel" where
  "editor_step e s =
     (let s' = editor_react e s in
      if editor_deps s' = editor_deps s then s'
      else s'\<lparr>ge_due := ((activeCategory s' \<noteq> [] \<and> ge_category s' \<noteq> self_switches) \<or> ge_category s' \<noteq> [])\<rparr>)"

text \<open>The entries on the screen: the list shows none while it loads, and the switches have a list of their own.\<close>

definition listed_entries :: "editor_panel \<Rightarrow> ((jsstr \<times> jsstr) \<times> edit_entry) list" where
  "listed_entries s = (if ge_loading s \<or> ge_category s = self_switches \<or> groups_of s = Some [] then [] else ge_entries s)"

section \<open>Rows\<close>

text \<open>\<open>validNumericDraft\<close>; \<open>number\<close> is the conversion \<open>Number\<close> of a text.\<close>

definition validNumericDraft :: "(jsstr \<Rightarrow> jsnum) \<Rightarrow> edit_entry \<Rightarrow> jsstr \<Rightarrow> bool" where
  "validNumericDraft number e draft \<longleftrightarrow>
     js_trim draft \<noteq> [] \<and> safe_integer (number draft) \<and>
     (case ee_min e of None \<Rightarrow> True | Some m \<Rightarrow> num_le (Fin m) (number draft)) \<and>
     (case ee_max e of None \<Rightarrow> True | Some m \<Rightarrow> num_le (number draft) (Fin m))"

text \<open>What a scalar row submits: nothing, a number or a text.\<close>

definition submit_row :: "(jsstr \<Rightarrow> jsnum) \<Rightarrow> edit_entry \<Rightarrow> jsstr \<Rightarrow> (jsnum + jsstr) option" where
  "submit_row number e draft =
     (if ee_type e = NumberType then (if validNumericDraft number e draft then Some (Inl (number draft)) else None)
      else Some (Inr draft))"

text \<open>The actions of a party row that are enabled: join, up, down and out, each with the position it saves.\<close>

definition party_actions :: "bool \<Rightarrow> rat option \<Rightarrow> rat \<Rightarrow> rat list" where
  "party_actions pending mx position =
     (let top = (case mx of Some m \<Rightarrow> m | None \<Rightarrow> 1) in
      if pending then []
      else if position = 0 then [top]
      else (if position \<le> 1 then [] else [position - 1]) @ (if top \<le> position then [] else [position + 1]) @
           (if top \<le> 1 then [] else [0]))"

definition boolean_saves :: "jsstr \<Rightarrow> bool \<Rightarrow> bool \<Rightarrow> bool option" where
  "boolean_saves category pending current =
     (if pending \<or> (category = js ''classes'' \<and> current) then None
      else Some (if category = js ''classes'' then True else \<not> current))"

text \<open>The tab that a key moves to.\<close>

definition group_key :: "jsstr \<Rightarrow> nat \<Rightarrow> nat \<Rightarrow> nat option" where
  "group_key key i n =
     (if key = js ''Home'' then Some 0
      else if key = js ''End'' then (if n = 0 then None else Some (n - 1))
      else if key = js ''ArrowRight'' then Some (nat ((int i + 1 + int n) mod int n))
      else if key = js ''ArrowLeft'' then Some (nat ((int i - 1 + int n) mod int n))
      else None)"

section \<open>No entry of another list\<close>

definition seqs_ok :: "editor_panel \<Rightarrow> bool" where
  "seqs_ok s \<longleftrightarrow> distinct (map lo_sequence (ge_loads s)) \<and> (\<forall>op \<in> set (ge_loads s). lo_sequence op \<le> ge_sequence s) \<and>
     (\<forall>op \<in> set (ge_saves s). so_sequence op \<le> ge_sequence s)"

definition reading_first :: "editor_panel \<Rightarrow> bool" where
  "reading_first s \<longleftrightarrow> ge_loading s \<and> (\<exists>op \<in> set (ge_loads s). lo_sequence op = ge_sequence s \<and> lo_page op = 0)"

definition own_entries :: "editor_panel \<Rightarrow> bool" where
  "own_entries s \<longleftrightarrow> (\<forall>e \<in> set (ge_entries s). fst e = (activeCategory s, ge_search s))"

definition own_ops :: "editor_panel \<Rightarrow> bool" where
  "own_ops s \<longleftrightarrow>
     (\<forall>op \<in> set (ge_loads s). lo_sequence op = ge_sequence s \<longrightarrow> (lo_category op, lo_filter op) = (activeCategory s, ge_search s)) \<and>
     (\<forall>op \<in> set (ge_saves s). so_sequence op = ge_sequence s \<longrightarrow> (so_active op, so_search op) = (activeCategory s, ge_search s))"

definition settled_list :: "editor_panel \<Rightarrow> bool" where
  "settled_list s \<longleftrightarrow> \<not> ge_due s \<and> activeCategory s \<noteq> [] \<and> ge_category s \<noteq> self_switches"

definition editor_inv :: "editor_panel \<Rightarrow> bool" where
  "editor_inv s \<longleftrightarrow> seqs_ok s \<and> (settled_list s \<longrightarrow> own_ops s \<and> (reading_first s \<or> own_entries s))"

lemmas editor_views = activeCategory_def groups_of_def

lemma load_views [simp]:
  "activeCategory (load_entries c f n s) = activeCategory s" "ge_category (load_entries c f n s) = ge_category s"
  "ge_search (load_entries c f n s) = ge_search s" "ge_due (load_entries c f n s) = ge_due s"
  "ge_entries (load_entries c f n s) = ge_entries s" "ge_saves (load_entries c f n s) = ge_saves s"
  "ge_sequence (load_entries c f n s) = Suc (ge_sequence s)"
  "ge_loads (load_entries c f n s) = ge_loads s @ [\<lparr>lo_sequence = Suc (ge_sequence s), lo_category = c, lo_filter = f, lo_page = n\<rparr>]"
  "n = 0 \<Longrightarrow> ge_loading (load_entries c f n s)"
  by (simp_all add: load_entries_def editor_views Let_def)

lemma seqs_load: "seqs_ok s \<Longrightarrow> seqs_ok (load_entries c f n s)"
  by (force simp: seqs_ok_def)

lemma fresh_ops:
  assumes "seqs_ok s" "ge_sequence s' = Suc (ge_sequence s)" "set (ge_loads s') \<subseteq> set (ge_loads s)" "set (ge_saves s') \<subseteq> set (ge_saves s)"
  shows "own_ops s'"
  unfolding own_ops_def
proof (intro conjI ballI impI)
  fix op assume op: "op \<in> set (ge_loads s')" "lo_sequence op = ge_sequence s'"
  then have "op \<in> set (ge_loads s)" using assms(3) by blast
  then have "lo_sequence op \<le> ge_sequence s" using assms(1) by (simp add: seqs_ok_def)
  with op assms(2) show "(lo_category op, lo_filter op) = (activeCategory s', ge_search s')" by simp
next
  fix op assume op: "op \<in> set (ge_saves s')" "so_sequence op = ge_sequence s'"
  then have "op \<in> set (ge_saves s)" using assms(4) by blast
  then have "so_sequence op \<le> ge_sequence s" using assms(1) by (simp add: seqs_ok_def)
  with op assms(2) show "(so_active op, so_search op) = (activeCategory s', ge_search s')" by simp
qed

lemma settled_load [simp]: "settled_list (load_entries c f n s) = settled_list s"
  by (simp add: settled_list_def)

lemma load_own_ops: "seqs_ok s \<Longrightarrow> own_ops (load_entries (activeCategory s) (ge_search s) n s)"
  by (force simp: own_ops_def seqs_ok_def)

lemma load_inv:
  assumes "seqs_ok s" "c = activeCategory s" "f = ge_search s" "n = 0 \<or> own_entries s"
  shows "editor_inv (load_entries c f n s)"
proof -
  have "reading_first (load_entries c f n s) \<or> own_entries (load_entries c f n s)"
    using assms(4) by (auto simp: reading_first_def own_entries_def)
  then show ?thesis using assms seqs_load load_own_ops by (simp add: editor_inv_def)
qed

text \<open>Updates of other fields; changes in flight may end or go on.\<close>

definition same_list :: "editor_panel \<Rightarrow> editor_panel \<Rightarrow> bool" where
  "same_list s t \<longleftrightarrow> editor_deps t = editor_deps s \<and> ge_due t = ge_due s \<and> ge_entries t = ge_entries s \<and>
     ge_loads t = ge_loads s \<and> ge_sequence t = ge_sequence s \<and> (ge_loading s \<longrightarrow> ge_loading t) \<and>
     (\<forall>op \<in> set (ge_saves t). \<exists>op' \<in> set (ge_saves s). so_sequence op' = so_sequence op \<and> so_active op' = so_active op \<and>
       so_search op' = so_search op)"

lemma same_list_inv: "same_list s t \<Longrightarrow> editor_inv s \<Longrightarrow> editor_inv t"
proof -
  assume t: "same_list s t" and s: "editor_inv s"
  have "seqs_ok t" using t s by (fastforce simp: same_list_def editor_inv_def seqs_ok_def)
  moreover have "own_ops t" if "own_ops s" using t that by (fastforce simp: same_list_def own_ops_def editor_deps_def)
  ultimately show ?thesis using t s
    by (auto simp: same_list_def editor_inv_def settled_list_def reading_first_def own_entries_def editor_deps_def)
qed

lemma emptied_inv:
  assumes "seqs_ok s" "ge_sequence t = Suc (ge_sequence s)" "ge_loads t = ge_loads s" "ge_saves t = ge_saves s" "ge_entries t = []"
  shows "editor_inv t"
proof -
  have "own_ops t" using assms by (intro fresh_ops) auto
  moreover have "seqs_ok t" using assms by (force simp: seqs_ok_def)
  ultimately show ?thesis using assms(5) by (simp add: editor_inv_def own_entries_def)
qed

definition idle_start :: "editor_panel \<Rightarrow> bool" where
  "idle_start s \<longleftrightarrow> (ge_waiting s \<longrightarrow> ge_categories s = [] \<and> ge_category s = [] \<and> ge_saves s = [])"

lemma unsettled_inv: "seqs_ok s \<Longrightarrow> \<not> settled_list s \<Longrightarrow> editor_inv s"
  by (simp add: editor_inv_def)

lemma load_answered_inv:
  assumes "editor_inv s"
  shows "editor_inv (load_answered k r s)"
proof (cases "item_at (ge_loads s) k")
  case None
  then show ?thesis using assms by (simp add: load_answered_def)
next
  case (Some op)
  let ?t = "load_answered k r s"
  have ok: "seqs_ok s" using assms by (simp add: editor_inv_def)
  have rest: "distinct (map lo_sequence (remove_at k (ge_loads s)))"
    "\<And>op'. op' \<in> set (remove_at k (ge_loads s)) \<Longrightarrow> lo_sequence op' \<noteq> lo_sequence op"
    using ok Some remove_at_distinct [of lo_sequence "ge_loads s" k op] by (auto simp: seqs_ok_def)
  have t: "ge_loads ?t = remove_at k (ge_loads s)" "ge_saves ?t = ge_saves s" "ge_sequence ?t = ge_sequence s" "editor_deps ?t = editor_deps s"
    "ge_due ?t = ge_due s"
    using Some by (auto simp: load_answered_def Let_def editor_deps_def editor_views split: option.split)
  have "seqs_ok ?t" using ok rest by (auto simp: seqs_ok_def t dest: remove_at_set)
  moreover have "own_ops ?t" if "own_ops s" using that t by (auto simp: own_ops_def editor_deps_def dest: remove_at_set)
  moreover have "reading_first ?t \<or> own_entries ?t" if i: "own_ops s" "reading_first s \<or> own_entries s"
  proof (cases "lo_sequence op = ge_sequence s")
    case False
    then have same: "ge_loading ?t = ge_loading s" "ge_entries ?t = ge_entries s" using Some by (simp_all add: load_answered_def)
    have "reading_first ?t" if f: "reading_first s"
    proof -
      obtain x where x: "x \<in> set (ge_loads s)" "lo_sequence x = ge_sequence s" "lo_page x = 0" using f by (auto simp: reading_first_def)
      then have "x \<noteq> op" using False by auto
      then have "x \<in> set (remove_at k (ge_loads s))" using x(1) Some
        by (metis (no_types, lifting) Un_iff id_take_nth_drop item_at_Some remove_at_def set_ConsD set_append)
      then show ?thesis using x f same by (auto simp: reading_first_def t)
    qed
    then show ?thesis using i same t by (auto simp: own_entries_def editor_deps_def)
  next
    case True
    have "(lo_category op, lo_filter op) = (activeCategory s, ge_search s)"
      using i(1) True item_at_mem [OF Some] by (simp add: own_ops_def)
    moreover have "own_entries s" if "lo_page op \<noteq> 0"
    proof -
      have "\<not> reading_first s"
      proof
        assume "reading_first s"
        then obtain x where "x \<in> set (ge_loads s)" "lo_sequence x = ge_sequence s" "lo_page x = 0" by (auto simp: reading_first_def)
        then have "x = op" using ok True item_at_mem [OF Some] by (auto simp: seqs_ok_def distinct_map inj_on_def)
        then show False using \<open>lo_page x = 0\<close> that by simp
      qed
      then show ?thesis using i(2) by blast
    qed
    ultimately have "own_entries ?t" using Some True t
      by (auto simp: own_entries_def load_answered_def Let_def editor_deps_def split: option.split)
    then show ?thesis ..
  qed
  ultimately show ?thesis using assms t by (auto simp: editor_inv_def settled_list_def editor_deps_def)
qed

lemma apply_change_inv:
  assumes "editor_inv s" "settled_list s \<Longrightarrow> (so_active op, so_search op) = (activeCategory s, ge_search s)"
  shows "editor_inv (apply_change op updated s)"
proof -
  have retag: "editor_inv (s\<lparr>ge_error := NoError, ge_notice := True, ge_entries := es\<rparr>)"
    if "own_entries s \<Longrightarrow> settled_list s \<Longrightarrow> \<forall>e \<in> set es. fst e = (activeCategory s, ge_search s)" for es
    using assms(1) that by (auto simp: editor_inv_def seqs_ok_def settled_list_def own_ops_def reading_first_def own_entries_def editor_views)
  show ?thesis
  proof (cases "so_category op = js ''classes''")
    case True
    then show ?thesis unfolding apply_change_def Let_def
      by (simp, intro retag) (auto simp: own_entries_def)
  next
    case False
    let ?s = "s\<lparr>ge_error := NoError, ge_notice := True, ge_entries :=
      map (\<lambda>(o', e). if ee_id e = ee_id updated then ((so_active op, so_search op), updated) else (o', e)) (ge_entries s)\<rparr>"
    have inv: "editor_inv ?s" by (rule retag) (use assms(2) in \<open>auto simp: own_entries_def\<close>)
    have "editor_inv (load_entries (so_active op) (so_search op) 0 ?s)"
    proof (cases "settled_list s")
      case True
      then show ?thesis using inv assms(2) by (intro load_inv) (auto simp: editor_inv_def editor_views)
    next
      case False
      then have "\<not> settled_list ?s" by (simp add: settled_list_def editor_views)
      then have "\<not> settled_list (load_entries (so_active op) (so_search op) 0 ?s)" by simp
      then show ?thesis using inv by (intro unsettled_inv seqs_load) (simp_all add: editor_inv_def)
    qed
    then show ?thesis using False inv by (simp add: apply_change_def Let_def)
  qed
qed

lemma saves_less_inv: "editor_inv s \<Longrightarrow> editor_inv (s\<lparr>ge_saves := remove_at k (ge_saves s), ge_notice := n, ge_error := e\<rparr>)"
  by (rule same_list_inv [rotated]) (auto simp: same_list_def editor_deps_def editor_views dest!: remove_at_set)

lemma save_inv: "editor_inv s \<Longrightarrow> editor_inv (save_answered k r s)"
proof (cases "item_at (ge_saves s) k")
  case None
  then show "editor_inv s \<Longrightarrow> ?thesis" by (simp add: save_answered_def)
next
  case (Some op)
  assume inv: "editor_inv s"
  let ?s = "s\<lparr>ge_saves := remove_at k (ge_saves s)\<rparr>"
  have less: "editor_inv ?s" using saves_less_inv [OF inv, where k = k and n = "ge_notice s" and e = "ge_error s"] by simp
  have own: "(so_active op, so_search op) = (activeCategory ?s, ge_search ?s)" if "so_sequence op = ge_sequence s" "settled_list ?s"
    using inv that item_at_mem [OF Some] by (auto simp: editor_inv_def own_ops_def settled_list_def editor_views)
  have "editor_inv (s\<lparr>ge_error := NoError, ge_notice := True, ge_saves := (ge_saves s)[k := op\<lparr>so_refresh := True\<rparr>]\<rparr>)"
    by (rule same_list_inv [OF _ inv]) (use item_at_mem [OF Some] in
      \<open>auto simp: same_list_def editor_deps_def editor_views dest!: set_update_subset_insert [THEN subsetD]\<close>)
  then show ?thesis using Some inv less saves_less_inv [OF inv] apply_change_inv [OF less own]
    by (auto simp: save_answered_def Let_def split: option.split)
qed

lemma party_inv: "editor_inv s \<Longrightarrow> editor_deps (party_answered k r s) = editor_deps s \<Longrightarrow> editor_inv (party_answered k r s)"
  and party_seqs: "editor_inv s \<Longrightarrow> seqs_ok (party_answered k r s)"
proof -
  assume inv: "editor_inv s"
  have less: "editor_inv (s\<lparr>ge_saves := remove_at k (ge_saves s)\<rparr>)" "editor_inv (s\<lparr>ge_saves := remove_at k (ge_saves s), ge_error := RefreshFailed\<rparr>)"
    using saves_less_inv [OF inv, where k = k and n = "ge_notice s" and e = "ge_error s"] saves_less_inv [OF inv, where k = k and n = "ge_notice s" and e = RefreshFailed] by simp_all
  show "seqs_ok (party_answered k r s)"
    using inv less by (auto simp: party_answered_def Let_def editor_inv_def seqs_ok_def dest: remove_at_set split: option.split)
  assume deps: "editor_deps (party_answered k r s) = editor_deps s"
  have "party_answered k r s \<in> {s, s\<lparr>ge_saves := remove_at k (ge_saves s)\<rparr>, s\<lparr>ge_saves := remove_at k (ge_saves s), ge_error := RefreshFailed\<rparr>} \<or>
    (\<exists>op entries after cats. item_at (ge_saves s) k = Some op \<and> so_sequence op = ge_sequence s \<and> so_refresh op \<and>
      r = Some ((entries, after), cats))"
    by (cases "item_at (ge_saves s) k"; cases r) (auto simp: party_answered_def Let_def split: if_splits)
  then consider "party_answered k r s \<in> {s, s\<lparr>ge_saves := remove_at k (ge_saves s)\<rparr>, s\<lparr>ge_saves := remove_at k (ge_saves s), ge_error := RefreshFailed\<rparr>}"
    | op entries after cats where "item_at (ge_saves s) k = Some op" "so_sequence op = ge_sequence s"
      "party_answered k r s = s\<lparr>ge_saves := remove_at k (ge_saves s), ge_entries := map (Pair (so_active op, so_search op)) entries,
         ge_next := after, ge_categories := cats\<rparr>"
    by (auto simp: party_answered_def)
  then show "editor_inv (party_answered k r s)"
  proof cases
    case 1
    then show ?thesis using inv less by auto
  next
    case 2
    show ?thesis
    proof (cases "settled_list s")
      case True
      then have "(so_active op, so_search op) = (activeCategory s, ge_search s)" "own_ops s"
        using inv 2(2) item_at_mem [OF 2(1)] by (auto simp: editor_inv_def own_ops_def)
      then have "own_entries (party_answered k r s)" "own_ops (party_answered k r s)"
        using deps by (auto simp: own_entries_def own_ops_def editor_deps_def 2(3) dest!: remove_at_set)
      then show ?thesis using \<open>seqs_ok (party_answered k r s)\<close> by (simp add: editor_inv_def)
    next
      case False
      then have "\<not> settled_list (party_answered k r s)" using deps by (auto simp: settled_list_def editor_deps_def 2(3))
      then show ?thesis using \<open>seqs_ok (party_answered k r s)\<close> by (rule unsettled_inv [rotated])
    qed
  qed
qed

text \<open>A step keeps the sequences, and as long as the dependencies of the effect stay, the whole invariant.\<close>

lemma react_inv:
  assumes "editor_inv s" "idle_start s"
  shows "seqs_ok (editor_react e s) \<and> (editor_deps (editor_react e s) = editor_deps s \<longrightarrow> editor_inv (editor_react e s))"
proof -
  have ok: "seqs_ok s" using assms(1) by (simp add: editor_inv_def)
  have whole: ?thesis if "editor_inv (editor_react e s)" using that by (simp add: editor_inv_def)
  have load: "editor_inv (load_entries (activeCategory s) (ge_search s) 0 s)" using ok by (intro load_inv) simp_all
  have same: "editor_inv t" if "same_list s t" for t using that assms(1) by (rule same_list_inv)
  have more: "editor_inv (load_entries (activeCategory s) (ge_search s) n (s\<lparr>ge_requested := q\<rparr>))" if "\<not> ge_loading s" for n q
  proof (cases "settled_list s")
    case True
    then have "own_entries s" using assms(1) that by (auto simp: editor_inv_def reading_first_def)
    then show ?thesis using ok by (intro load_inv) (auto simp: own_entries_def seqs_ok_def editor_views)
  next
    case False
    then have "\<not> settled_list (load_entries (activeCategory s) (ge_search s) n (s\<lparr>ge_requested := q\<rparr>))"
      by (simp only: settled_load) (simp add: settled_list_def editor_views)
    then show ?thesis using ok by (intro unsettled_inv seqs_load) (simp_all add: seqs_ok_def)
  qed
  show ?thesis
  proof (cases e)
    case (CategoriesLoaded r)
    then show ?thesis using assms ok
      by (auto simp: editor_react_def categories_loaded_def idle_start_def editor_inv_def settled_list_def editor_deps_def editor_views
          resolveActiveCategory_def seqs_ok_def split: option.splits)
  next
    case ReadDue
    have "seqs_ok (s\<lparr>ge_due := False\<rparr>)" using ok by (simp add: seqs_ok_def)
    then have "editor_inv (load_entries (activeCategory s) (ge_search s) 0 (s\<lparr>ge_due := False\<rparr>))"
      by (intro load_inv) (simp_all add: editor_views)
    moreover have "editor_inv (s\<lparr>ge_due := False, ge_loading := False\<rparr>)" if "\<not> (activeCategory s \<noteq> [] \<and> ge_category s \<noteq> self_switches)"
      using that ok by (intro unsettled_inv) (auto simp: seqs_ok_def settled_list_def editor_views)
    ultimately show ?thesis using assms(1) by (intro whole) (auto simp: ReadDue editor_react_def read_due_def)
  next
    case (LoadingTimer k)
    then show ?thesis using assms(1)
      by (intro whole) (auto simp: editor_react_def loading_shown_def same_list_def editor_deps_def editor_views
          intro!: same split: option.split)
  next
    case (ChooseCategory c)
    then show ?thesis using assms(1)
      by (intro whole) (auto simp: editor_react_def chooseCategory_def intro!: emptied_inv [OF ok])
  next
    case (ChooseGroup g)
    then show ?thesis using assms(1)
      by (intro whole) (auto simp: editor_react_def chooseGroup_def intro!: emptied_inv [OF ok])
  next
    case SubmitSearch
    have "editor_inv (changeSearch v s)" for v by (rule emptied_inv [OF ok]) (simp_all add: changeSearch_def)
    then have "editor_inv (submitSearch s)" using load by (auto simp: submitSearch_def simp del: load_views)
    then show ?thesis using assms(1) by (intro whole) (simp add: SubmitSearch editor_react_def)
  next
    case ToggleSearch
    have "editor_inv (s\<lparr>ge_searchOpen := b\<rparr>)" for b by (rule same) (auto simp: same_list_def editor_deps_def editor_views)
    then show ?thesis using ToggleSearch assms(1)
      by (intro whole) (auto simp: editor_react_def toggleSearch_def changeSearch_def Let_def intro!: emptied_inv [OF ok])
  next
    case SaveStarts
    let ?t = "save_starts s"
    have "seqs_ok ?t" using ok by (auto simp: save_starts_def seqs_ok_def)
    moreover have "own_ops s \<Longrightarrow> own_ops ?t" by (auto simp: save_starts_def own_ops_def editor_views)
    ultimately have "editor_inv ?t" using assms(1)
      by (auto simp: editor_inv_def settled_list_def save_starts_def reading_first_def own_entries_def editor_views)
    then show ?thesis using assms(1) by (intro whole) (simp add: SaveStarts editor_react_def)
  next
    case (PartyAnswered k r)
    then show ?thesis using party_inv party_seqs assms(1) by (simp add: editor_react_def)
  next
    case MoreSeen
    then show ?thesis using assms(1) more by (intro whole) (auto simp: editor_react_def more_seen_def simp del: load_views split: option.split)
  next
    case RetryPage
    have "editor_inv (load_entries (activeCategory s) (ge_search s) n (s\<lparr>ge_requested := None\<rparr>))" if "\<not> ge_loading s" for n
      using more [OF that] .
    then show ?thesis using assms(1)
      by (intro whole) (auto simp: RetryPage editor_react_def retry_page_def simp del: load_views split: option.split)
  next
    case RefreshList
    then show ?thesis using assms(1) load by (intro whole) (simp add: editor_react_def refresh_list_def)
  next
    case ClearSearch
    have "editor_inv (clear_search s)" by (rule emptied_inv [OF ok]) (simp_all add: clear_search_def changeSearch_def)
    then show ?thesis using assms(1) by (intro whole) (simp add: ClearSearch editor_react_def)
  next
    case (TypeQuery q)
    have "editor_inv (s\<lparr>ge_query := q\<rparr>)" by (rule same) (simp add: same_list_def editor_deps_def editor_views, blast)
    then show ?thesis by (intro whole) (simp add: TypeQuery editor_react_def)
  next
    case NoticeEnds
    have "editor_inv (s\<lparr>ge_notice := False\<rparr>)" by (rule same) (simp add: same_list_def editor_deps_def editor_views, blast)
    then show ?thesis by (intro whole) (simp add: NoticeEnds editor_react_def)
  next
    case (LoadAnswered k r)
    then show ?thesis using load_answered_inv [OF assms(1)] by (intro whole) (simp add: editor_react_def)
  next
    case (SaveAnswered k r)
    then show ?thesis using save_inv [OF assms(1)] by (intro whole) (simp add: editor_react_def)
  qed
qed

lemma idle_step: "idle_start s \<Longrightarrow> idle_start (editor_react e s)"
  by (cases e)
    (auto simp: idle_start_def editor_react_def categories_loaded_def read_due_def load_entries_def loading_shown_def load_answered_def
      more_seen_def retry_page_def refresh_list_def chooseCategory_def chooseGroup_def changeSearch_def submitSearch_def toggleSearch_def
      clear_search_def save_starts_def save_answered_def party_answered_def apply_change_def Let_def item_at_def split: option.split list.split)

lemma step_inv:
  assumes "editor_inv s" "idle_start s"
  shows "editor_inv (editor_step e s) \<and> idle_start (editor_step e s)"
proof (cases "editor_deps (editor_react e s) = editor_deps s")
  case True
  then show ?thesis using react_inv [OF assms, of e] idle_step [OF assms(2), of e] by (simp add: editor_step_def)
next
  case False
  have "seqs_ok (editor_step e s)" using react_inv [OF assms, of e] False by (auto simp: editor_step_def Let_def seqs_ok_def)
  moreover have "\<not> settled_list (editor_step e s)" using False by (auto simp: editor_step_def Let_def settled_list_def editor_views)
  ultimately show ?thesis using idle_step [OF assms(2), of e] False
    by (auto intro: unsettled_inv simp: editor_step_def Let_def idle_start_def)
qed

lemma run_inv: "editor_inv (fold editor_step es editor_initial) \<and> idle_start (fold editor_step es editor_initial)"
proof (induction es rule: rev_induct)
  case Nil
  have "activeCategory editor_initial = []" by (simp add: editor_initial_def editor_views resolveActiveCategory_def)
  then show ?case by (simp add: editor_inv_def seqs_ok_def settled_list_def idle_start_def) (simp add: editor_initial_def)
next
  case (snoc e es)
  then show ?case using step_inv by simp
qed

definition own_list :: "editor_panel \<Rightarrow> bool" where
  "own_list s \<longleftrightarrow> ge_due s \<or> activeCategory s = [] \<or> list_all (\<lambda>e. fst e = (activeCategory s, ge_search s)) (listed_entries s)"


text \<open>
  A change of a party member reads the first page again, sets the list to it and the next page to the one after, but
  keeps \<open>requestedPage\<close>: when the second page had been read before, it is never asked for again.
\<close>

definition party_entry :: edit_entry where
  "party_entry = \<lparr>ee_id = js ''1'', ee_value = NumberValue 1, ee_type = NumberType, ee_min = None, ee_max = None\<rparr>"

definition party_run :: "editor_event list" where
  "party_run =
     [CategoriesLoaded (Some [(js ''party'', None)]), ReadDue, LoadAnswered 0 (Some ([party_entry], Some 40)), MoreSeen,
      LoadAnswered 0 (Some ([party_entry], None)), SaveStarts, SaveAnswered 0 (Some party_entry),
      PartyAnswered 0 (Some (([party_entry], Some 40), [(js ''party'', None)])), MoreSeen]"

lemma party_refresh_blocks_next_page:
  "(let s = fold editor_step party_run editor_initial in
    (ge_next s, length (listed_entries s), ge_loads s, ge_loadingMore s)) = (Some 40, 1, [], False)"
  by code_simp

end
