(* ===== verification/Game_Scan.thy ===== *)
theory Game_Scan
  imports Prelude
begin

text \<open>
  The page that scans sources: \<open>web/features/scans/game-scan.tsx\<close> with the picker of a server directory
  (\<open>source-picker.tsx\<close>), the mapping of collections (\<open>collection-mapping.tsx\<close>), finished uploads (\<open>map\<close> and \<open>uploaded\<close> of
  \<open>browser-uploads.tsx\<close>) and the scope of a BIOS scan (\<open>bios-scan.tsx\<close>). Requests may be answered in any order.
\<close>

section \<open>The picker\<close>

text \<open>\<open>path.replace(/\/+$/, "").split("/").slice(0, -1).join("/") || "/"\<close>\<close>

definition parent_path :: "jsstr \<Rightarrow> jsstr" where
  "parent_path path =
     (let stripped = rev (dropWhile (\<lambda>c. c = 0x2F) (rev path));
          up = join_with [0x2F] (butlast (split_on 0x2F stripped)) in
      if up = [] then js ''/'' else up)"

definition absolute :: "jsstr \<Rightarrow> bool" where
  "absolute path \<longleftrightarrow> starts_with path (js ''/'')"

section \<open>State\<close>

record source_mapping =
  sm_sourceKey :: jsstr
  sm_directory :: jsstr
  sm_tagIds :: "jsstr list"

datatype scan_source = FromPath jsstr | FromUpload jsstr

record scan_request =
  sr_source :: scan_source
  sr_format :: jsstr
  sr_mappings :: "source_mapping list"

datatype scan_failure = BadRequest | OtherScanFailure

text \<open>
  A collection is its key here. \<open>gs_inspects\<close>, \<open>gs_maps\<close> and \<open>gs_starts\<close> are the requests in flight with what their closures
  read; \<open>gs_origin\<close> and \<open>gs_log\<close> are histories that nothing reads: where the listed collections were read from, and every scan
  that was asked for, with the collections that were listed and their origin.
\<close>

record game_scan =
  gs_selecting :: bool
  gs_pending :: bool
  gs_upload :: "(jsstr \<times> nat) option"
  gs_path :: jsstr
  gs_format :: jsstr
  gs_entries :: "jsstr list"
  gs_mappings :: "source_mapping list"
  gs_error :: bool
  gs_busy :: bool
  gs_inspects :: "(jsstr \<times> jsstr) list"
  gs_maps :: "(jsstr \<times> jsstr \<times> nat) list"
  gs_starts :: "scan_request list"
  gs_origin :: "scan_source \<times> jsstr"
  gs_log :: "(scan_request \<times> jsstr list \<times> scan_source \<times> jsstr) list"

definition scan_page_initial :: game_scan where
  "scan_page_initial = \<lparr>gs_selecting = False, gs_pending = False, gs_upload = None, gs_path = js ''/'', gs_format = [], gs_entries = [],
     gs_mappings = [], gs_error = False, gs_busy = False, gs_inspects = [], gs_maps = [], gs_starts = [],
     gs_origin = (FromPath [], []), gs_log = []\<rparr>"

section \<open>Operations\<close>

definition reportFailure :: "scan_failure \<Rightarrow> game_scan \<Rightarrow> game_scan" where
  "reportFailure f s = (if f = BadRequest then s\<lparr>gs_error := True\<rparr> else s)"

definition showCollections :: "scan_source \<times> jsstr \<Rightarrow> jsstr list \<Rightarrow> game_scan \<Rightarrow> game_scan" where
  "showCollections origin items s =
     s\<lparr>gs_entries := items, gs_mappings := map (\<lambda>k. \<lparr>sm_sourceKey = k, sm_directory = [], sm_tagIds = []\<rparr>) items, gs_origin := origin\<rparr>"

definition source_uploaded :: "jsstr \<Rightarrow> jsstr \<Rightarrow> nat \<Rightarrow> jsstr list \<Rightarrow> game_scan \<Rightarrow> game_scan" where
  "source_uploaded i fmt files items s =
     showCollections (FromUpload i, fmt) items (s\<lparr>gs_format := fmt, gs_upload := Some (i, files), gs_error := False\<rparr>)"

definition changeSource :: "jsstr \<Rightarrow> game_scan \<Rightarrow> game_scan" where
  "changeSource path s = s\<lparr>gs_path := path, gs_entries := [], gs_mappings := []\<rparr>"

definition open_picker :: "game_scan \<Rightarrow> game_scan" where
  "open_picker s =
     s\<lparr>gs_format := [], gs_entries := [], gs_mappings := [], gs_error := False, gs_selecting := True, gs_pending := False\<rparr>"

text \<open>The picker's own navigation, by a typed path, a listed directory or the parent.\<close>

definition navigate_source :: "jsstr \<Rightarrow> game_scan \<Rightarrow> game_scan" where
  "navigate_source path s = changeSource path (s\<lparr>gs_pending := False\<rparr>)"

definition inspect_starts :: "game_scan \<Rightarrow> game_scan" where
  "inspect_starts s =
     (if gs_format s = [] then s
      else s\<lparr>gs_busy := True, gs_error := False, gs_inspects := gs_inspects s @ [(gs_path s, gs_format s)]\<rparr>)"

definition inspect_answered :: "nat \<Rightarrow> scan_failure + jsstr list \<Rightarrow> game_scan \<Rightarrow> game_scan" where
  "inspect_answered k r s =
     (case item_at (gs_inspects s) k of
        None \<Rightarrow> s
      | Some (path, fmt) \<Rightarrow>
          (let s1 = s\<lparr>gs_inspects := remove_at k (gs_inspects s)\<rparr>;
               s2 = (case r of
                   Inr items \<Rightarrow> (showCollections (FromPath path, fmt) items (s1\<lparr>gs_upload := None\<rparr>))\<lparr>gs_selecting := False\<rparr>
                 | Inl f \<Rightarrow> reportFailure f s1) in
           s2\<lparr>gs_busy := False\<rparr>))"

definition map_upload :: "jsstr \<Rightarrow> jsstr \<Rightarrow> nat \<Rightarrow> game_scan \<Rightarrow> game_scan" where
  "map_upload i fmt files s = s\<lparr>gs_busy := True, gs_maps := gs_maps s @ [(i, fmt, files)]\<rparr>"

definition map_answered :: "nat \<Rightarrow> scan_failure + jsstr list \<Rightarrow> game_scan \<Rightarrow> game_scan" where
  "map_answered k r s =
     (case item_at (gs_maps s) k of
        None \<Rightarrow> s
      | Some (i, fmt, files) \<Rightarrow>
          (let s1 = s\<lparr>gs_maps := remove_at k (gs_maps s)\<rparr>;
               s2 = (case r of Inr items \<Rightarrow> source_uploaded i fmt files items s1 | Inl f \<Rightarrow> reportFailure f s1) in
           s2\<lparr>gs_busy := False\<rparr>))"

definition change_directory :: "nat \<Rightarrow> jsstr \<Rightarrow> source_mapping list \<Rightarrow> source_mapping list" where
  "change_directory i d ms = (case item_at ms i of Some m \<Rightarrow> ms[i := m\<lparr>sm_directory := d\<rparr>] | None \<Rightarrow> ms)"

definition change_tag :: "nat \<Rightarrow> jsstr \<Rightarrow> bool \<Rightarrow> source_mapping list \<Rightarrow> source_mapping list" where
  "change_tag i t checked ms =
     (case item_at ms i of
        Some m \<Rightarrow> ms[i := m\<lparr>sm_tagIds := (if checked then sm_tagIds m @ [t] else filter (\<lambda>x. x \<noteq> t) (sm_tagIds m))\<rparr>]
      | None \<Rightarrow> ms)"

definition scan_starts :: "game_scan \<Rightarrow> game_scan" where
  "scan_starts s =
     (if gs_format s = [] then s
      else
        (let r = \<lparr>sr_source = (case gs_upload s of Some (i, n) \<Rightarrow> FromUpload i | None \<Rightarrow> FromPath (gs_path s)),
                  sr_format = gs_format s, sr_mappings = gs_mappings s\<rparr> in
         s\<lparr>gs_busy := True, gs_error := False, gs_starts := gs_starts s @ [r], gs_log := gs_log s @ [(r, gs_entries s, gs_origin s)]\<rparr>))"

definition scan_start_answered :: "nat \<Rightarrow> scan_failure option \<Rightarrow> game_scan \<Rightarrow> game_scan" where
  "scan_start_answered k r s =
     (case item_at (gs_starts s) k of
        None \<Rightarrow> s
      | Some q \<Rightarrow>
          (let s1 = s\<lparr>gs_starts := remove_at k (gs_starts s)\<rparr>;
               s2 = (case r of None \<Rightarrow> s1 | Some f \<Rightarrow> reportFailure f s1) in
           s2\<lparr>gs_busy := False\<rparr>))"

section \<open>The page\<close>

datatype scan_page_event =
    OpenPicker
  | ClosePicker
  | NavigateSource jsstr
  | TypeSource jsstr
  | ChangeFormat jsstr
  | InspectClick
  | InspectAnswered nat "scan_failure + jsstr list"
  | MapUpload jsstr jsstr nat
  | MapAnswered nat "scan_failure + jsstr list"
  | SheetUploaded jsstr jsstr nat "jsstr list"
  | SetDirectory nat jsstr
  | SetTag nat jsstr bool
  | StartClick
  | StartAnswered nat "scan_failure option"

definition can_inspect :: "game_scan \<Rightarrow> bool" where
  "can_inspect s \<longleftrightarrow> gs_selecting s \<and> gs_format s \<noteq> [] \<and> \<not> gs_pending s \<and> absolute (gs_path s) \<and> \<not> gs_busy s"

definition can_start :: "game_scan \<Rightarrow> bool" where
  "can_start s \<longleftrightarrow> gs_entries s \<noteq> [] \<and> gs_format s \<noteq> [] \<and> \<not> gs_busy s \<and> list_all (\<lambda>m. sm_directory m \<noteq> []) (gs_mappings s)"

text \<open>The controls that are rendered and enabled.\<close>

definition scan_page_step :: "scan_page_event \<Rightarrow> game_scan \<Rightarrow> game_scan" where
  "scan_page_step e s =
     (case e of
        OpenPicker \<Rightarrow> open_picker s
      | ClosePicker \<Rightarrow> if gs_selecting s \<and> \<not> gs_busy s then s\<lparr>gs_selecting := False\<rparr> else s
      | NavigateSource p \<Rightarrow> if gs_selecting s \<and> absolute p then navigate_source p s else s
      | TypeSource draft \<Rightarrow> if gs_selecting s then s\<lparr>gs_pending := (draft \<noteq> gs_path s)\<rparr> else s
      | ChangeFormat f \<Rightarrow> if gs_selecting s \<and> \<not> gs_busy s then s\<lparr>gs_format := f, gs_error := False\<rparr> else s
      | InspectClick \<Rightarrow> if can_inspect s then inspect_starts s else s
      | InspectAnswered k r \<Rightarrow> inspect_answered k r s
      | MapUpload i f n \<Rightarrow> map_upload i f n s
      | MapAnswered k r \<Rightarrow> map_answered k r s
      | SheetUploaded i f n items \<Rightarrow> source_uploaded i f n items s
      | SetDirectory i d \<Rightarrow> s\<lparr>gs_mappings := change_directory i d (gs_mappings s)\<rparr>
      | SetTag i t c \<Rightarrow> s\<lparr>gs_mappings := change_tag i t c (gs_mappings s)\<rparr>
      | StartClick \<Rightarrow> if can_start s then scan_starts s else s
      | StartAnswered k r \<Rightarrow> scan_start_answered k r s)"

section \<open>The scope of a BIOS scan\<close>

record bios_scan =
  bs_path :: jsstr
  bs_pending :: bool
  bs_platforms :: "jsstr list"
  bs_cores :: "jsstr list"
  bs_error :: bool
  bs_busy :: bool

definition bios_ready :: "bios_scan \<Rightarrow> bool" where
  "bios_ready s \<longleftrightarrow> \<not> (bs_busy s \<or> bs_pending s \<or> \<not> absolute (bs_path s) \<or> (bs_platforms s = [] \<and> bs_cores s = []))"

definition all_selected :: "jsstr list \<Rightarrow> jsstr list \<Rightarrow> bool" where
  "all_selected items selected \<longleftrightarrow> 0 < length items \<and> length (filter (\<lambda>i. i \<in> set selected) items) = length items"

definition partially_selected :: "jsstr list \<Rightarrow> jsstr list \<Rightarrow> bool" where
  "partially_selected items selected \<longleftrightarrow>
     0 < length (filter (\<lambda>i. i \<in> set selected) items) \<and> \<not> all_selected items selected"

definition select_all :: "jsstr list \<Rightarrow> jsstr list \<Rightarrow> jsstr list" where
  "select_all items selected = (if all_selected items selected then [] else items)"

definition select_one :: "jsstr \<Rightarrow> bool \<Rightarrow> jsstr list \<Rightarrow> jsstr list" where
  "select_one i checked selected = (if checked then selected @ [i] else filter (\<lambda>x. x \<noteq> i) selected)"

lemma select_all_toggles: "items \<noteq> [] \<Longrightarrow> all_selected items (select_all items sel) \<longleftrightarrow> \<not> all_selected items sel"
  by (auto simp: select_all_def all_selected_def)

section \<open>What is scanned\<close>

definition aligned :: "game_scan \<Rightarrow> bool" where
  "aligned s \<longleftrightarrow> map sm_sourceKey (gs_mappings s) = gs_entries s"

text \<open>A request maps the listed collections, each once and in their order, to a directory.\<close>

definition complete_request :: "scan_request \<times> jsstr list \<times> scan_source \<times> jsstr \<Rightarrow> bool" where
  "complete_request x = (case x of (q, listed, origin) \<Rightarrow>
     listed \<noteq> [] \<and> map sm_sourceKey (sr_mappings q) = listed \<and> list_all (\<lambda>m. sm_directory m \<noteq> []) (sr_mappings q))"

lemma change_keys [simp]:
  "map sm_sourceKey (change_directory i d ms) = map sm_sourceKey ms" "map sm_sourceKey (change_tag i t c ms) = map sm_sourceKey ms"
  by (auto simp: change_directory_def change_tag_def map_update_same split: option.split)

lemmas scan_defs = scan_page_step_def reportFailure_def showCollections_def source_uploaded_def changeSource_def open_picker_def
  navigate_source_def inspect_starts_def inspect_answered_def map_upload_def map_answered_def scan_starts_def scan_start_answered_def Let_def

lemma scan_page_aligned:
  "aligned s \<Longrightarrow> list_all complete_request (gs_log s) \<Longrightarrow>
   aligned (scan_page_step e s) \<and> list_all complete_request (gs_log (scan_page_step e s))"
  by (cases e) (auto simp: scan_defs aligned_def complete_request_def can_start_def o_def split: option.split sum.split)

text \<open>
  A scan is only ever asked for with the collections that the page lists, each of them mapped once and to a game
  directory.
\<close>
theorem scan_maps_every_collection:
  "list_all complete_request (gs_log (fold scan_page_step es scan_page_initial))"
proof -
  have "aligned (fold scan_page_step es scan_page_initial) \<and> list_all complete_request (gs_log (fold scan_page_step es scan_page_initial))"
    by (induction es rule: rev_induct) (simp_all add: scan_page_aligned, simp add: scan_page_initial_def aligned_def)
  then show ?thesis ..
qed

section \<open>Which source is scanned\<close>

definition source_of :: "game_scan \<Rightarrow> scan_source" where
  "source_of s = (case gs_upload s of Some (i, n) \<Rightarrow> FromUpload i | None \<Rightarrow> FromPath (gs_path s))"

text \<open>Nothing else is picked or shown while a source is read, and the format of listed collections stays.\<close>

definition calm :: "game_scan \<Rightarrow> scan_page_event \<Rightarrow> bool" where
  "calm s e = (case e of
     NavigateSource p \<Rightarrow> gs_inspects s = []
   | OpenPicker \<Rightarrow> gs_inspects s = []
   | MapAnswered k r \<Rightarrow> gs_inspects s = []
   | SheetUploaded i f n items \<Rightarrow> gs_inspects s = []
   | ChangeFormat f \<Rightarrow> gs_inspects s = [] \<and> gs_entries s = []
   | _ \<Rightarrow> True)"

primrec calm_run :: "scan_page_event list \<Rightarrow> game_scan \<Rightarrow> bool" where
  "calm_run [] s = True"
| "calm_run (e # es) s = (calm s e \<and> calm_run es (scan_page_step e s))"

definition scans_origin :: "scan_request \<times> jsstr list \<times> scan_source \<times> jsstr \<Rightarrow> bool" where
  "scans_origin x = (case x of (q, listed, origin) \<Rightarrow> (sr_source q, sr_format q) = origin)"

definition origin_inv :: "game_scan \<Rightarrow> bool" where
  "origin_inv s \<longleftrightarrow> (gs_entries s \<noteq> [] \<longrightarrow> gs_origin s = (source_of s, gs_format s)) \<and>
     (\<forall>x \<in> set (gs_inspects s). x = (gs_path s, gs_format s)) \<and> list_all scans_origin (gs_log s)"

lemma inspect_origin: "origin_inv s \<Longrightarrow> origin_inv (inspect_answered k r s)"
proof (cases "item_at (gs_inspects s) k")
  case (Some x)
  assume "origin_inv s"
  moreover from this have "x = (gs_path s, gs_format s)" using Some nth_mem [of k "gs_inspects s"]
    by (simp add: origin_inv_def item_at_Some)
  ultimately show ?thesis using Some
    by (auto simp: scan_defs origin_inv_def source_of_def dest: remove_at_set split: option.split sum.split)
qed (simp add: inspect_answered_def)

lemma origin_step: "origin_inv s \<Longrightarrow> calm s e \<Longrightarrow> origin_inv (scan_page_step e s)"
proof (cases e)
  case (InspectAnswered k r)
  then show "origin_inv s \<Longrightarrow> ?thesis" by (simp add: inspect_origin scan_page_step_def)
qed (auto simp: scan_defs origin_inv_def source_of_def calm_def can_start_def scans_origin_def item_at_def
    dest: remove_at_set split: option.splits sum.split prod.split if_splits)


definition usual_scan :: "scan_page_event list" where
  "usual_scan = [OpenPicker, NavigateSource (js ''/games''), ChangeFormat (js ''files''), InspectClick,
     InspectAnswered 0 (Inr [js ''c'']), SetDirectory 0 (js ''d''), StartClick]"


text \<open>
  The picker stays usable while a source is read. A directory that is entered meanwhile empties the list, the answer fills it
  again with the collections of the first directory, and the scan is asked for with the second one.
\<close>

definition hasty_scan :: "scan_page_event list" where
  "hasty_scan = [OpenPicker, NavigateSource (js ''/games''), ChangeFormat (js ''files''), InspectClick, NavigateSource (js ''/other''),
     InspectAnswered 0 (Inr [js ''c'']), SetDirectory 0 (js ''d''), StartClick]"

lemma other_directory_is_scanned:
  "map (\<lambda>(q, listed, origin). (sr_source q, fst origin)) (gs_log (fold scan_page_step hasty_scan scan_page_initial)) =
   [(FromPath (js ''/other''), FromPath (js ''/games''))]"
  by code_simp

end
