(* ===== verification/Upload_Sheet.thy ===== *)
theory Upload_Sheet
  imports Upload_Properties Upload_Files
begin

text \<open>
  The sheet that uploads games from the browser: \<open>web/features/scans/upload-sheet.tsx\<close> with \<open>openUpload\<close> and \<open>cancelUpload\<close> of
  \<open>upload-transfer.ts\<close>. A file is its size; the transfer itself is the one of \<open>Upload_Transfer\<close> and ends here with one
  event. A selection that is still being read (\<open>ss_drops\<close>) keeps what the closure of its render saw.
\<close>

section \<open>State\<close>

record upload_session =
  us_id :: jsstr
  us_format :: jsstr
  us_files :: "upload_file list"

datatype sheet_phase = SelectPhase | UploadingPhase | UploadedPhase

datatype run_stage = OpeningUpload | Transferring upload_session | Inspecting upload_session

text \<open>A click on start: the format, the entries and the session of its render, and its abort controller.\<close>

record sheet_run =
  ru_format :: jsstr
  ru_entries :: "upload_entry list"
  ru_session :: "upload_session option"
  ru_aborted :: bool
  ru_stage :: run_stage

datatype sheet_effect =
    DeclaresUpload jsstr
  | SendsFiles upload_session "upload_entry option list"
  | TransferredUpload jsstr
  | CancelsUpload jsstr
  | HandsOn jsstr jsstr nat
  | ClosesSheet

record upload_sheet =
  ss_resume :: "upload_session option"
  ss_format :: jsstr
  ss_entries :: "upload_entry list"
  ss_eachFile :: "bool option"
  ss_phase :: sheet_phase
  ss_session :: "upload_session option"
  ss_error :: bool
  ss_run :: "sheet_run option"
  ss_drops :: "upload_session option list"
  ss_retries :: "(jsstr \<times> jsstr \<times> nat) list"
  ss_cancelling :: bool
  ss_closed :: bool
  ss_log :: "sheet_effect list"

definition sheet_initial :: "upload_session option \<Rightarrow> upload_sheet" where
  "sheet_initial resume =
     \<lparr>ss_resume = resume, ss_format = (case resume of Some r \<Rightarrow> us_format r | None \<Rightarrow> []), ss_entries = [], ss_eachFile = None,
      ss_phase = SelectPhase, ss_session = resume, ss_error = False, ss_run = None, ss_drops = [], ss_retries = [],
      ss_cancelling = False, ss_closed = False, ss_log = []\<rparr>"

section \<open>The selection\<close>

text \<open>\<open>useLooseSelection\<close>: whether the folder is taken apart, and what is uploaded.\<close>

definition loose_folder :: "jsstr \<Rightarrow> upload_entry list \<Rightarrow> jsstr" where
  "loose_folder fmt entries = (if fmt = js ''files'' then singleFolder entries else [])"

definition loose_unwrap :: "jsstr \<Rightarrow> upload_entry list \<Rightarrow> bool option \<Rightarrow> bool" where
  "loose_unwrap fmt entries eachFile \<longleftrightarrow>
     loose_folder fmt entries \<noteq> [] \<and>
     (case eachFile of Some b \<Rightarrow> b | None \<Rightarrow> looksLikeLooseFolder entries (loose_folder fmt entries))"

definition useLooseSelection :: "jsstr \<Rightarrow> upload_entry list \<Rightarrow> bool option \<Rightarrow> upload_entry list" where
  "useLooseSelection fmt entries eachFile =
     (if loose_unwrap fmt entries eachFile then unwrapFolder entries (loose_folder fmt entries) else entries)"

definition upload_entries :: "upload_sheet \<Rightarrow> upload_entry list" where
  "upload_entries s = useLooseSelection (ss_format s) (ss_entries s) (ss_eachFile s)"

text \<open>\<open>Inr n\<close>: the \<open>n\<close> original files have to be chosen again.\<close>

definition selectionProblem :: "upload_entry list \<Rightarrow> upload_session option \<Rightarrow> (problem + nat) option" where
  "selectionProblem entries resume =
     (case uploadProblem entries of
        Some p \<Rightarrow> Some (Inl p)
      | None \<Rightarrow>
          (case resume of
             None \<Rightarrow> None
           | Some r \<Rightarrow> if entries = [] \<or> matchesUpload entries (us_files r) then None else Some (Inr (length (us_files r)))))"

definition sheet_problem :: "upload_sheet \<Rightarrow> (problem + nat) option" where
  "sheet_problem s = selectionProblem (upload_entries s) (ss_resume s)"

definition sheet_says :: "sheet_effect list \<Rightarrow> upload_sheet \<Rightarrow> upload_sheet" where
  "sheet_says es s = s\<lparr>ss_log := ss_log s @ es\<rparr>"

text \<open>\<open>held\<close> is the session that the closure saw.\<close>

definition replaceSelection :: "upload_session option \<Rightarrow> (upload_entry list \<Rightarrow> upload_entry list) \<Rightarrow> upload_sheet \<Rightarrow> upload_sheet" where
  "replaceSelection held f s =
     (let s1 = (case held of
          Some u \<Rightarrow> if Some (us_id u) \<noteq> map_option us_id (ss_resume s) then sheet_says [CancelsUpload (us_id u)] (s\<lparr>ss_session := None\<rparr>) else s
        | None \<Rightarrow> s) in
      s1\<lparr>ss_entries := f (ss_entries s), ss_error := False\<rparr>)"

section \<open>Uploading\<close>

definition sheet_starts :: "upload_sheet \<Rightarrow> upload_sheet" where
  "sheet_starts s =
     (if ss_format s = [] \<or> sheet_problem s \<noteq> None then s
      else s\<lparr>ss_run := Some \<lparr>ru_format = ss_format s, ru_entries = upload_entries s, ru_session = ss_session s, ru_aborted = False,
               ru_stage = OpeningUpload\<rparr>,
             ss_phase := UploadingPhase, ss_error := False\<rparr>)"

text \<open>Whether \<open>openUpload\<close> asks for the session it has or declares another.\<close>

definition reopens :: "sheet_run \<Rightarrow> bool" where
  "reopens r = (case ru_session r of Some u \<Rightarrow> matchesUpload (ru_entries r) (us_files u) | None \<Rightarrow> False)"

definition run_fails :: "sheet_run \<Rightarrow> sheet_phase \<Rightarrow> upload_sheet \<Rightarrow> upload_sheet" where
  "run_fails r phase s =
     (let s1 = s\<lparr>ss_run := None\<rparr> in if ru_aborted r then s1 else s1\<lparr>ss_phase := phase, ss_error := True\<rparr>)"

definition upload_opened :: "upload_session option \<Rightarrow> upload_sheet \<Rightarrow> upload_sheet" where
  "upload_opened answer s =
     (case ss_run s of
        None \<Rightarrow> s
      | Some r \<Rightarrow>
          if ru_stage r \<noteq> OpeningUpload then s
          else (case answer of
              None \<Rightarrow> run_fails r SelectPhase s
            | Some u \<Rightarrow>
                sheet_says ((if reopens r then [] else [DeclaresUpload (us_id u)]) @ [SendsFiles u (session_entries (ru_entries r) (us_files u))])
                  (s\<lparr>ss_session := Some u, ss_run := Some (r\<lparr>ru_stage := Transferring u\<rparr>)\<rparr>)))"

definition transfer_ended :: "bool \<Rightarrow> upload_sheet \<Rightarrow> upload_sheet" where
  "transfer_ended ok s =
     (case ss_run s of
        None \<Rightarrow> s
      | Some r \<Rightarrow>
          (case ru_stage r of
             Transferring u \<Rightarrow>
               if ok
               then sheet_says [TransferredUpload (us_id u)]
                      (s\<lparr>ss_phase := UploadedPhase, ss_run := Some (r\<lparr>ru_stage := Inspecting u\<rparr>)\<rparr>)
               else run_fails r SelectPhase s
           | _ \<Rightarrow> s))"

text \<open>Handing on closes the sheet.\<close>

definition close_sheet :: "upload_sheet \<Rightarrow> upload_sheet" where
  "close_sheet s =
     sheet_says [ClosesSheet] (s\<lparr>ss_closed := True, ss_run := map_option (\<lambda>r. r\<lparr>ru_aborted := True\<rparr>) (ss_run s)\<rparr>)"

definition hand_on :: "jsstr \<Rightarrow> jsstr \<Rightarrow> nat \<Rightarrow> upload_sheet \<Rightarrow> upload_sheet" where
  "hand_on i fmt n s = close_sheet (sheet_says [HandsOn i fmt n] s)"

definition run_inspected :: "bool \<Rightarrow> upload_sheet \<Rightarrow> upload_sheet" where
  "run_inspected ok s =
     (case ss_run s of
        None \<Rightarrow> s
      | Some r \<Rightarrow>
          (case ru_stage r of
             Inspecting u \<Rightarrow>
               if ok then hand_on (us_id u) (ru_format r) (length (us_files u)) (s\<lparr>ss_run := None\<rparr>)
               else run_fails r UploadedPhase s
           | _ \<Rightarrow> s))"

definition retryInspect :: "upload_sheet \<Rightarrow> upload_sheet" where
  "retryInspect s =
     (case ss_session s of
        None \<Rightarrow> s
      | Some u \<Rightarrow>
          if ss_format s = [] then s
          else s\<lparr>ss_error := False, ss_retries := ss_retries s @ [(us_id u, ss_format s, length (us_files u))]\<rparr>)"

definition retry_answered :: "nat \<Rightarrow> bool \<Rightarrow> upload_sheet \<Rightarrow> upload_sheet" where
  "retry_answered k ok s =
     (case item_at (ss_retries s) k of
        None \<Rightarrow> s
      | Some (i, fmt, n) \<Rightarrow>
          (let s1 = s\<lparr>ss_retries := remove_at k (ss_retries s)\<rparr> in if ok then hand_on i fmt n s1 else s1\<lparr>ss_error := True\<rparr>))"

text \<open>\<open>abandon\<close>: the sheet closes when the request to cancel is answered, or at once without a session.\<close>

definition abandon :: "upload_sheet \<Rightarrow> upload_sheet" where
  "abandon s =
     (let s1 = s\<lparr>ss_run := map_option (\<lambda>r. r\<lparr>ru_aborted := True\<rparr>) (ss_run s)\<rparr> in
      case ss_session s of
        Some u \<Rightarrow> sheet_says [CancelsUpload (us_id u)] (s1\<lparr>ss_cancelling := True\<rparr>)
      | None \<Rightarrow> close_sheet s1)"

definition uploading :: "upload_sheet \<Rightarrow> bool" where
  "uploading s \<longleftrightarrow> ss_phase s = UploadingPhase"

definition cancel_click :: "upload_sheet \<Rightarrow> upload_sheet" where
  "cancel_click s = (if ss_session s \<noteq> None \<or> uploading s then abandon s else close_sheet s)"

section \<open>The sheet\<close>

datatype sheet_event =
    SheetFormat jsstr
  | AddFiles "upload_entry list"
  | DropStarts
  | DropRead nat "upload_entry list option"
  | ClearFiles
  | LooseChoice bool
  | StartUpload
  | UploadOpened "upload_session option"
  | TransferEnds bool
  | RunInspected bool
  | RetryInspect
  | RetryAnswered nat bool
  | CancelClick
  | CancelAnswered
  | CloseSheet

definition drop_read :: "(jsstr \<Rightarrow> jsstr \<Rightarrow> bool) \<Rightarrow> nat \<Rightarrow> upload_entry list option \<Rightarrow> upload_sheet \<Rightarrow> upload_sheet" where
  "drop_read le k r s =
     (case item_at (ss_drops s) k of
        None \<Rightarrow> s
      | Some held \<Rightarrow>
          (let s1 = s\<lparr>ss_drops := remove_at k (ss_drops s)\<rparr> in
           case r of None \<Rightarrow> s1 | Some added \<Rightarrow> replaceSelection held (\<lambda>es. mergeEntries le es added) s1))"

text \<open>Controls work while the sheet is open and enabled; answers arrive also later.\<close>

definition sheet_step :: "(jsstr \<Rightarrow> jsstr \<Rightarrow> bool) \<Rightarrow> sheet_event \<Rightarrow> upload_sheet \<Rightarrow> upload_sheet" where
  "sheet_step le e s =
     (case e of
        UploadOpened r \<Rightarrow> upload_opened r s
      | TransferEnds ok \<Rightarrow> transfer_ended ok s
      | RunInspected ok \<Rightarrow> run_inspected ok s
      | RetryAnswered k ok \<Rightarrow> retry_answered k ok s
      | DropRead k r \<Rightarrow> drop_read le k r s
      | CancelAnswered \<Rightarrow> if ss_cancelling s then close_sheet (s\<lparr>ss_cancelling := False\<rparr>) else s
      | _ \<Rightarrow>
          if ss_closed s then s
          else (case e of
              SheetFormat f \<Rightarrow> if uploading s then s else s\<lparr>ss_format := f, ss_error := False\<rparr>
            | AddFiles added \<Rightarrow> if ss_phase s = SelectPhase then replaceSelection (ss_session s) (\<lambda>es. mergeEntries le es added) s else s
            | DropStarts \<Rightarrow> if ss_phase s = SelectPhase then s\<lparr>ss_drops := ss_drops s @ [ss_session s]\<rparr> else s
            | ClearFiles \<Rightarrow> if ss_phase s = SelectPhase \<and> ss_entries s \<noteq> [] then replaceSelection (ss_session s) (\<lambda>es. []) s else s
            | LooseChoice b \<Rightarrow>
                if ss_phase s = SelectPhase \<and> loose_folder (ss_format s) (ss_entries s) \<noteq> [] then s\<lparr>ss_eachFile := Some b\<rparr> else s
            | StartUpload \<Rightarrow> if ss_phase s = SelectPhase then sheet_starts s else s
            | RetryInspect \<Rightarrow> if ss_phase s = UploadedPhase \<and> sheet_problem s = None then retryInspect s else s
            | CancelClick \<Rightarrow> cancel_click s
            | CloseSheet \<Rightarrow> if uploading s then s else close_sheet s
            | _ \<Rightarrow> s))"

section \<open>What is sent\<close>

definition declared_of :: "upload_session \<Rightarrow> upload_entry list" where
  "declared_of u = map (\<lambda>f. (up_path f, up_sizeBytes f)) (us_files u)"

lemma declared_keys [simp]: "map fst (declared_of u) = map up_path (us_files u)"
  by (simp add: declared_of_def o_def)

lemma matching_entries:
  assumes "distinct (map fst es)" "distinct (map fst (declared_of u))" "matchesUpload es (us_files u)"
  shows "set es = set (declared_of u)"
proof (rule card_subset_eq)
  have declared: "amap_from up_path up_sizeBytes (us_files u) = declared_of u"
    using assms(2) by (simp add: amap_from_distinct declared_of_def o_def)
  show "set es \<subseteq> set (declared_of u)"
    using assms(3) by (auto simp: matchesUpload_def declared Let_def list_all_iff dest: map_of_SomeD)
  have "distinct es" "distinct (declared_of u)" using assms(1,2) distinct_map by blast+
  then show "card (set es) = card (set (declared_of u))"
    using assms(3) by (simp add: matchesUpload_def declared Let_def distinct_card)
qed simp

lemma entries_sent:
  assumes "distinct (map fst es)" "set es = set (declared_of u)"
  shows "session_entries es (us_files u) = map Some (declared_of u)"
proof -
  have "map_of (map (\<lambda>e. (fst e, e)) es) (up_path f) = Some (up_path f, up_sizeBytes f)" if "f \<in> set (us_files u)" for f
  proof -
    have "(up_path f, up_sizeBytes f) \<in> set es" using that assms(2) by (auto simp: declared_of_def)
    then have "(up_path f, (up_path f, up_sizeBytes f)) \<in> set (map (\<lambda>e. (fst e, e)) es)" by force
    moreover have "distinct (map fst (map (\<lambda>e. (fst e, e)) es))" using assms(1) by (simp add: o_def)
    ultimately show ?thesis by (rule map_of_is_SomeI [rotated])
  qed
  then show ?thesis using assms(1) by (simp add: session_entries_def amap_from_distinct declared_of_def)
qed

text \<open>
  The server answers an upload that it declares with the files it was given, and one that it has with the same files as
  before.
\<close>

definition honest_answer :: "upload_sheet \<Rightarrow> sheet_event \<Rightarrow> bool" where
  "honest_answer s e =
     (case e of
        UploadOpened (Some u) \<Rightarrow>
          (case ss_run s of
             Some r \<Rightarrow> declared_of u = (if reopens r then declared_of (the (ru_session r)) else ru_entries r)
           | None \<Rightarrow> True)
      | _ \<Rightarrow> True)"

primrec honest_run :: "(jsstr \<Rightarrow> jsstr \<Rightarrow> bool) \<Rightarrow> sheet_event list \<Rightarrow> upload_sheet \<Rightarrow> bool" where
  "honest_run le [] s = True"
| "honest_run le (e # es) s = (honest_answer s e \<and> honest_run le es (sheet_step le e s))"

definition proper_session :: "upload_session option \<Rightarrow> bool" where
  "proper_session u = (case u of Some x \<Rightarrow> distinct (map fst (declared_of x)) | None \<Rightarrow> True)"

definition sends_declared :: "sheet_effect \<Rightarrow> bool" where
  "sends_declared e = (case e of SendsFiles u es \<Rightarrow> es = map Some (declared_of u) | _ \<Rightarrow> True)"

definition sheet_sound :: "upload_sheet \<Rightarrow> bool" where
  "sheet_sound s \<longleftrightarrow> proper_session (ss_session s) \<and>
     (case ss_run s of Some r \<Rightarrow> distinct (map fst (ru_entries r)) \<and> proper_session (ru_session r) | None \<Rightarrow> True) \<and>
     list_all sends_declared (ss_log s)"

lemma proper_simps [simp]: "proper_session None" "proper_session (Some u) \<longleftrightarrow> distinct (map up_path (us_files u))"
  by (simp_all add: proper_session_def)

lemmas sheet_defs = sheet_step_def upload_opened_def transfer_ended_def run_inspected_def retry_answered_def drop_read_def close_sheet_def
  hand_on_def run_fails_def sheet_says_def replaceSelection_def sheet_starts_def retryInspect_def cancel_click_def abandon_def Let_def

lemma opened_sound:
  assumes "sheet_sound s" "honest_answer s (UploadOpened a)"
  shows "sheet_sound (upload_opened a s)"
proof -
  have "declared_of u = es' \<Longrightarrow> distinct (map fst es) \<Longrightarrow> set es = set es' \<Longrightarrow> session_entries es (us_files u) = map Some es'" for u es es'
    using entries_sent by blast
  show ?thesis
  proof (cases "ss_run s")
    case (Some r)
    show ?thesis
    proof (cases "ru_stage r = OpeningUpload \<and> a \<noteq> None")
      case True
      then obtain u where a: "a = Some u" by blast
      have ok: "distinct (map fst (ru_entries r))" "proper_session (ru_session r)" using assms(1) Some by (simp_all add: sheet_sound_def)
      have files: "declared_of u = (if reopens r then declared_of (the (ru_session r)) else ru_entries r)"
        using assms(2) Some by (simp add: honest_answer_def a)
      have "set (ru_entries r) = set (declared_of u) \<and> distinct (map fst (declared_of u))"
      proof (cases "reopens r")
        case True
        then obtain v where v: "ru_session r = Some v" "matchesUpload (ru_entries r) (us_files v)"
          by (auto simp: reopens_def split: option.splits)
        then show ?thesis using True files ok matching_entries [of "ru_entries r" v] by simp
      qed (use files ok in simp)
      then show ?thesis using True Some a ok assms(1) entries_sent [of "ru_entries r" u]
        by (simp add: upload_opened_def sheet_says_def sheet_sound_def sends_declared_def)
    qed (use assms(1) Some in \<open>auto simp: upload_opened_def run_fails_def sheet_sound_def Let_def\<close>)
  qed (use assms(1) in \<open>simp add: upload_opened_def\<close>)
qed

lemma sheet_sound_step: "sheet_sound s \<Longrightarrow> honest_answer s e \<Longrightarrow> sheet_sound (sheet_step le e s)"
proof (cases e)
  case (UploadOpened a)
  then show "sheet_sound s \<Longrightarrow> honest_answer s e \<Longrightarrow> ?thesis" by (simp add: sheet_step_def opened_sound)
next
  case StartUpload
  then show "sheet_sound s \<Longrightarrow> ?thesis"
    using upload_check_exact [of "upload_entries s"]
    by (auto simp: sheet_step_def sheet_starts_def sheet_problem_def selectionProblem_def acceptable_def sheet_sound_def split: option.splits)
qed (auto simp: sheet_defs sheet_sound_def sends_declared_def split: option.split run_stage.split)

text \<open>
  C21. Every transfer sends exactly the files that its upload declares, in the order of the upload, with their sizes: no declared
  file is missing, whether the upload is new, goes on after a failure or is taken up from another session.
\<close>
theorem uploads_send_declared_files:
  "proper_session resume \<Longrightarrow> honest_run le es (sheet_initial resume) \<Longrightarrow>
   list_all sends_declared (ss_log (fold (sheet_step le) es (sheet_initial resume)))"
proof -
  have "honest_run le es s \<Longrightarrow> sheet_sound s \<Longrightarrow> sheet_sound (fold (sheet_step le) es s)" for s
    by (induction es arbitrary: s) (simp_all add: sheet_sound_step)
  then show "proper_session resume \<Longrightarrow> honest_run le es (sheet_initial resume) \<Longrightarrow>
    list_all sends_declared (ss_log (fold (sheet_step le) es (sheet_initial resume)))"
    by (simp add: sheet_sound_def sheet_initial_def)
qed

text \<open>The limits as integers, for evaluation.\<close>

lemma upload_safePath_code [code]:
  "upload_safePath path \<longleftrightarrow> path \<noteq> [] \<and> int (length path) \<le> 1024 \<and> 0x5C \<notin> set path \<and> 0 \<notin> set path \<and>
     int (length (split_on (of_char CHR ''/'') path)) \<le> 25 \<and>
     list_all (\<lambda>part. part \<noteq> [] \<and> part \<noteq> js ''.'' \<and> part \<noteq> js ''..'') (split_on (of_char CHR ''/'') path)"
  by (simp add: upload_safePath_def limit_depth_def Upload_Transfer.slash_def)

lemma scan_entries_code [code]:
  "scan_entries [] paths amount = Inr (paths, amount)"
  "scan_entries (e # es) paths amount =
     (if 4294967296 < int (snd e) then Inl (FileTooLarge (fst e))
      else if \<not> upload_safePath (fst e) then Inl (UnsafePath (fst e))
      else if fst e \<in> set paths then Inl (DuplicatePath (fst e))
      else scan_entries es (paths @ [fst e]) (amount + snd e))"
  by (simp_all add: limit_file_bytes_def)

lemma uploadProblem_code [code]:
  "uploadProblem entries =
     (if entries = [] then Some NothingSelected
      else if 50000 < int (length entries) then Some TooManyFiles
      else case scan_entries entries [] 0 of
        Inl p \<Rightarrow> Some p
      | Inr (paths, amount) \<Rightarrow>
          (case first_clash (set paths) paths of
             Some f \<Rightarrow> Some (FileAndFolder f)
           | None \<Rightarrow> if 21474836480 < int amount then Some SelectionTooLarge else None))"
  by (simp add: uploadProblem_def limit_files_def limit_total_bytes_def split: sum.split prod.split option.split)

text \<open>A folder is dropped, sent, fails once and goes on.\<close>

definition demo_session :: "nat \<Rightarrow> upload_session" where
  "demo_session n = \<lparr>us_id = js ''u1'', us_format = js ''files'',
     us_files = [\<lparr>up_path = js ''a.nes'', up_sizeBytes = 3, up_receivedBytes = n\<rparr>]\<rparr>"

definition demo_upload :: "sheet_event list" where
  "demo_upload = [SheetFormat (js ''files''), AddFiles [(js ''a.nes'', 3)], StartUpload, UploadOpened (Some (demo_session 0)), TransferEnds False,
     StartUpload, UploadOpened (Some (demo_session 2)), TransferEnds True, RunInspected True]"

lemma uploads_send_declared_files_witness:
  "list_all sends_declared (ss_log (fold (sheet_step (\<lambda>a b. True)) demo_upload (sheet_initial None))) \<and>
   length (filter (\<lambda>e. case e of SendsFiles u es \<Rightarrow> True | _ \<Rightarrow> False) (ss_log (fold (sheet_step (\<lambda>a b. True)) demo_upload (sheet_initial None)))) = 2"
proof -
  have honest: "honest_run (\<lambda>a b. True) demo_upload (sheet_initial None)" by code_simp
  have "length (filter (\<lambda>e. case e of SendsFiles u es \<Rightarrow> True | _ \<Rightarrow> False)
    (ss_log (fold (sheet_step (\<lambda>a b. True)) demo_upload (sheet_initial None)))) = 2" by code_simp
  with uploads_send_declared_files [OF proper_simps(1) honest] show ?thesis by simp
qed

section \<open>What is handed on\<close>

definition transferred :: "upload_sheet \<Rightarrow> jsstr \<Rightarrow> bool" where
  "transferred s i \<longleftrightarrow> TransferredUpload i \<in> set (ss_log s)"

definition handed_complete :: "upload_sheet \<Rightarrow> bool" where
  "handed_complete s \<longleftrightarrow> (\<forall>i fmt n. HandsOn i fmt n \<in> set (ss_log s) \<longrightarrow> transferred s i)"

definition stage_sound :: "upload_sheet \<Rightarrow> bool" where
  "stage_sound s \<longleftrightarrow>
     (case ss_run s of
        None \<Rightarrow> True
      | Some r \<Rightarrow>
          (case ru_stage r of
             OpeningUpload \<Rightarrow> ss_phase s = UploadingPhase
           | Transferring u \<Rightarrow> ss_phase s = UploadingPhase \<and> ss_session s \<in> {None, Some u}
           | Inspecting u \<Rightarrow> ss_phase s = UploadedPhase \<and> transferred s (us_id u)))"

definition handed_inv :: "upload_sheet \<Rightarrow> bool" where
  "handed_inv s \<longleftrightarrow> handed_complete s \<and> stage_sound s \<and>
     (ss_phase s = UploadedPhase \<longrightarrow> (case ss_session s of Some u \<Rightarrow> transferred s (us_id u) | None \<Rightarrow> True)) \<and>
     list_all (\<lambda>x. transferred s (fst x)) (ss_retries s)"

lemmas handed_defs = handed_inv_def handed_complete_def stage_sound_def transferred_def list_all_iff

lemma handed_abort: "handed_inv s \<Longrightarrow> handed_inv (s\<lparr>ss_run := map_option (\<lambda>r. r\<lparr>ru_aborted := True\<rparr>) (ss_run s)\<rparr>)"
  by (auto simp: handed_defs split: option.splits run_stage.splits)

lemma handed_say: "handed_inv s \<Longrightarrow> \<forall>i fmt n. HandsOn i fmt n \<in> set new \<longrightarrow> transferred s i \<Longrightarrow> handed_inv (sheet_says new s)"
  by (auto simp: handed_defs sheet_says_def split: option.splits run_stage.splits; blast)

lemma handed_close: "handed_inv s \<Longrightarrow> handed_inv (close_sheet s)"
  by (auto simp: handed_defs close_sheet_def sheet_says_def split: option.splits run_stage.splits)

lemma handed_hand_on: "handed_inv s \<Longrightarrow> transferred s i \<Longrightarrow> handed_inv (hand_on i fmt n s)"
  unfolding hand_on_def by (intro handed_close handed_say) auto

lemma handed_replace: "handed_inv s \<Longrightarrow> handed_inv (replaceSelection held f s)"
  by (auto simp: handed_defs replaceSelection_def sheet_says_def Let_def split: option.splits run_stage.splits)

lemma handed_abandon: "handed_inv s \<Longrightarrow> handed_inv (abandon s)"
  unfolding abandon_def Let_def
  by (auto split: option.split intro!: handed_say handed_close handed_abort) (auto simp: handed_defs split: option.splits run_stage.splits)

lemma handed_opened: "handed_inv s \<Longrightarrow> handed_inv (upload_opened a s)"
  by (auto simp: handed_defs upload_opened_def sheet_says_def run_fails_def Let_def split: option.splits run_stage.splits)

lemma handed_transfer: "handed_inv s \<Longrightarrow> handed_inv (transfer_ended ok s)"
  by (auto simp: handed_defs transfer_ended_def sheet_says_def run_fails_def Let_def split: option.splits run_stage.splits)

lemma handed_inspected: "handed_inv s \<Longrightarrow> handed_inv (run_inspected ok s)"
  unfolding run_inspected_def
  by (auto split: option.split run_stage.split intro!: handed_hand_on)
    (auto simp: handed_defs run_fails_def Let_def split: option.splits run_stage.splits)

lemma handed_retry: "handed_inv s \<Longrightarrow> handed_inv (retry_answered k ok s)"
proof (cases "item_at (ss_retries s) k")
  case (Some x)
  assume s: "handed_inv s"
  then have x: "transferred s (fst x)" using Some nth_mem [of k "ss_retries s"] by (auto simp: handed_inv_def list_all_iff item_at_Some)
  have "handed_inv (s\<lparr>ss_retries := remove_at k (ss_retries s), ss_error := b\<rparr>)" for b
    using s by (auto simp: handed_defs dest: remove_at_set split: option.splits run_stage.splits)
  from this [of "ss_error s"] this [of True] show ?thesis using Some x
    by (auto simp: retry_answered_def Let_def transferred_def intro!: handed_hand_on split: prod.split)
qed (simp add: retry_answered_def)

lemma handed_drop: "handed_inv s \<Longrightarrow> handed_inv (drop_read le k r s)"
proof -
  assume s: "handed_inv s"
  have "handed_inv (s\<lparr>ss_drops := ds\<rparr>)" for ds using s by (auto simp: handed_defs split: option.splits run_stage.splits)
  then show ?thesis using s by (auto simp: drop_read_def Let_def intro!: handed_replace split: option.split)
qed

lemma handed_step: "handed_inv s \<Longrightarrow> handed_inv (sheet_step le e s)"
proof (cases e)
  case CancelAnswered
  assume s: "handed_inv s"
  then have "handed_inv (s\<lparr>ss_cancelling := False\<rparr>)" by (auto simp: handed_defs split: option.splits run_stage.splits)
  then show ?thesis using s by (simp add: CancelAnswered sheet_step_def handed_close)
next
  case RetryInspect
  then show "handed_inv s \<Longrightarrow> ?thesis"
    by (auto simp: sheet_step_def retryInspect_def handed_defs split: option.splits run_stage.splits)
next
  case StartUpload
  then show "handed_inv s \<Longrightarrow> ?thesis"
    by (auto simp: sheet_step_def sheet_starts_def handed_defs split: option.splits run_stage.splits)
qed (auto simp: sheet_step_def cancel_click_def handed_close handed_abandon handed_replace handed_opened handed_transfer handed_inspected
    handed_retry handed_drop, auto simp: handed_defs split: option.splits run_stage.splits)

text \<open>
  What the sheet hands on for mapping was transferred completely, whether it is read at once or by a later retry, and
  whatever happens to the selection meanwhile.
\<close>
theorem mapped_upload_is_complete: "handed_complete (fold (sheet_step le) es (sheet_initial resume))"
proof -
  have "handed_inv (fold (sheet_step le) es (sheet_initial resume))"
  proof (induction es rule: rev_induct)
    case Nil
    show ?case by (simp add: sheet_initial_def handed_inv_def handed_complete_def stage_sound_def)
  qed (simp add: handed_step)
  then show ?thesis by (simp add: handed_inv_def)
qed

section \<open>Uploads that are left behind\<close>

definition lost_uploads :: "upload_sheet \<Rightarrow> jsstr list" where
  "lost_uploads s = List.map_filter (\<lambda>e. case e of
       DeclaresUpload i \<Rightarrow> if CancelsUpload i \<in> set (ss_log s) \<or> Some i = map_option us_id (ss_session s) then None else Some i
     | _ \<Rightarrow> None) (ss_log s)"

text \<open>
  A changed selection releases its session, but a folder that is taken apart differently changes the upload without it, and so
  does a drop whose reading began before the session: the next start declares another upload and the first keeps its slot.
\<close>

definition other_session :: upload_session where
  "other_session = \<lparr>us_id = js ''u2'', us_format = js ''files'', us_files = []\<rparr>"

lemma loose_choice_leaves_upload:
  "lost_uploads (fold (sheet_step (\<lambda>a b. True))
     [SheetFormat (js ''files''), AddFiles [(js ''d/a.nes'', 3)], StartUpload, UploadOpened (Some (demo_session 0)), TransferEnds False,
      LooseChoice False, StartUpload, UploadOpened (Some other_session)] (sheet_initial None)) = [js ''u1'']"
  by code_simp

lemma late_drop_leaves_upload:
  "lost_uploads (fold (sheet_step (\<lambda>a b. True))
     [SheetFormat (js ''files''), AddFiles [(js ''a.nes'', 3)], DropStarts, StartUpload, UploadOpened (Some (demo_session 0)),
      DropRead 0 (Some [(js ''b.nes'', 4)]), TransferEnds False, StartUpload, UploadOpened (Some other_session)] (sheet_initial None)) = [js ''u1'']"
  by code_simp

text \<open>Cancelling while the upload is being declared closes the sheet; the answer declares an upload that nothing cancels.\<close>

lemma cancel_while_opening_leaves_upload:
  "(let s = fold (sheet_step (\<lambda>a b. True))
     [SheetFormat (js ''files''), AddFiles [(js ''a.nes'', 3)], StartUpload, CancelClick, UploadOpened (Some (demo_session 0)),
      TransferEnds False] (sheet_initial None) in (ss_closed s, ss_run s, CancelsUpload (js ''u1'') \<in> set (ss_log s), DeclaresUpload (js ''u1'') \<in> set (ss_log s))) =
   (True, None, False, True)"
  by code_simp

text \<open>Cancelling while the collections are read deletes the upload, and a successful answer still hands it on.\<close>

lemma cancelled_upload_is_handed_on:
  "ss_log (fold (sheet_step (\<lambda>a b. True))
     [SheetFormat (js ''files''), AddFiles [(js ''a.nes'', 3)], StartUpload, UploadOpened (Some (demo_session 0)), TransferEnds True,
      CancelClick, RunInspected True] (sheet_initial None)) =
   [DeclaresUpload (js ''u1''), SendsFiles (demo_session 0) [Some (js ''a.nes'', 3)], TransferredUpload (js ''u1''), CancelsUpload (js ''u1''),
    HandsOn (js ''u1'') (js ''files'') 1, ClosesSheet]"
  by code_simp

end
