(* ===== verification/Library_Query.thy ===== *)
theory Library_Query
  imports Json_Value
begin

text \<open>
  Asking the server: the client of \<open>web/lib/api/client.ts\<close> (write token, errors, results), the filters of a list and their address
  (\<open>web/features/library/use-library-query.ts\<close>), the requests of \<open>web/features/library/api.ts\<close> and of immersive mode
  (\<open>web/features/immersive/immersive-data.ts\<close>). Address and query are lists of parameters; their encoding is the browser's.
\<close>

section \<open>\<open>client.ts\<close>\<close>

text \<open>The message of an \<open>ApiError\<close>; \<open>None\<close> is the fixed text about data that changed meanwhile.\<close>

record api_error =
  ae_code :: jsstr
  ae_message :: "jsstr option"
  ae_status :: nat

definition technical_messages :: "jsstr list" where
  "technical_messages = [[], js ''VERSION_CONFLICT'', js ''version conflict'', js ''Item changed; refresh and try again'']"

definition ApiError :: "jsstr \<Rightarrow> jsstr \<Rightarrow> nat \<Rightarrow> api_error" where
  "ApiError code msg status =
     \<lparr>ae_code = code, ae_message = (if code = js ''VERSION_CONFLICT'' \<and> msg \<in> set technical_messages then None else Some msg),
      ae_status = status\<rparr>"

text \<open>The texts of the client itself.\<close>

definition no_result_text :: jsstr where
  "no_result_text = [0x670D, 0x52A1, 0x672A, 0x8FD4, 0x56DE, 0x7ED3, 0x679C, 0x3002]"

definition request_failed_text :: jsstr where
  "request_failed_text = [0x8BF7, 0x6C42, 0x5931, 0x8D25, 0xFF0C, 0x8BF7, 0x91CD, 0x8BD5, 0x3002]"

text \<open>\<open>result\<close>, for data and error of the generated client and the status of its response.\<close>

definition api_result :: "'a option \<Rightarrow> (jsstr \<times> jsstr) option \<Rightarrow> nat \<Rightarrow> api_error + 'a" where
  "api_result data err status =
     (case err of
        Some (code, msg) \<Rightarrow> Inl (ApiError code msg status)
      | None \<Rightarrow> (case data of None \<Rightarrow> Inl (ApiError (js ''EMPTY_RESPONSE'') no_result_text status) | Some d \<Rightarrow> Inr d))"

text \<open>\<open>"code" in payload\<close> also sees inherited properties, as \<open>jget\<close> does.\<close>

definition readError :: "jval \<Rightarrow> jsstr \<times> jsstr" where
  "readError payload =
     (case payload of
        JObj p own \<Rightarrow>
          (case (jget payload (js ''code''), jget payload (js ''message'')) of
             (Some (JStr c), Some (JStr m)) \<Rightarrow> (c, m)
           | _ \<Rightarrow> (js ''REQUEST_FAILED'', request_failed_text))
      | _ \<Rightarrow> (js ''REQUEST_FAILED'', request_failed_text))"

definition writeHeaders :: "jsstr \<Rightarrow> (jsstr \<times> jsstr) list" where
  "writeHeaders token = (if token \<noteq> [] then [(js ''X-Retrom-Csrf'', token)] else [])"

text \<open>The header that a request of the generated client gets.\<close>

definition onRequest :: "jsstr \<Rightarrow> jsstr \<Rightarrow> jsstr option" where
  "onRequest token meth = (if meth \<in> set (map js [''GET'', ''HEAD'', ''OPTIONS'']) then None else Some token)"

datatype upload_failure = UploadNetwork | UploadUnreadable | UploadRefused api_error

text \<open>\<open>upload\<close>: the answer is a status and the parsed body, \<open>None\<close> when it is no JSON.\<close>

definition upload_result :: "(nat \<times> jval option) option \<Rightarrow> upload_failure + jval" where
  "upload_result answer =
     (case answer of
        None \<Rightarrow> Inl UploadNetwork
      | Some (status, body) \<Rightarrow>
          (case body of
             None \<Rightarrow> Inl UploadUnreadable
           | Some payload \<Rightarrow>
               if 200 \<le> status \<and> status < 300 then Inr payload
               else (case readError payload of (c, m) \<Rightarrow> Inl (UploadRefused (ApiError c m status)))))"

section \<open>Filters and their address\<close>

record list_filters =
  lf_q :: "jsstr option"
  lf_platformInstanceId :: "jsstr option"
  lf_platformId :: "jsstr option"
  lf_tagId :: "jsstr option"
  lf_folderId :: "jsstr option"
  lf_offset :: "jsstr option"
  lf_sort :: "jsstr option"
  lf_scanId :: "jsstr option"

datatype list_sort = ByTitle | ByRecent

record filter_values =
  fv_q :: jsstr
  fv_directory :: jsstr
  fv_platform :: jsstr
  fv_tag :: jsstr
  fv_folder :: jsstr
  fv_sort :: list_sort
  fv_offset :: jsnum

definition or_empty :: "jsstr option \<Rightarrow> jsstr" where
  "or_empty x = (case x of Some s \<Rightarrow> s | None \<Rightarrow> [])"

definition sort_name :: "list_sort \<Rightarrow> jsstr" where
  "sort_name s = (case s of ByTitle \<Rightarrow> js ''title'' | ByRecent \<Rightarrow> js ''recent'')"

text \<open>\<open>Math.max(0, Number(text) || 0)\<close>; \<open>number\<close> is \<open>Number\<close>.\<close>

definition page_offset :: "(jsstr \<Rightarrow> jsnum) \<Rightarrow> jsstr option \<Rightarrow> jsnum" where
  "page_offset number x =
     (case x of
        None \<Rightarrow> Fin 0
      | Some s \<Rightarrow> (case number s of Fin q \<Rightarrow> Fin (max 0 q) | PosInf \<Rightarrow> PosInf | NegInf \<Rightarrow> Fin 0 | NaN \<Rightarrow> Fin 0))"

definition initial_filters :: "(jsstr \<Rightarrow> jsnum) \<Rightarrow> list_filters \<Rightarrow> filter_values" where
  "initial_filters number i =
     \<lparr>fv_q = or_empty (lf_q i), fv_directory = or_empty (lf_platformInstanceId i), fv_platform = or_empty (lf_platformId i),
      fv_tag = or_empty (lf_tagId i), fv_folder = or_empty (lf_folderId i),
      fv_sort = (if lf_sort i = Some (js ''recent'') then ByRecent else ByTitle), fv_offset = page_offset number (lf_offset i)\<rparr>"

text \<open>The parameters of the address that \<open>update\<close> goes to; \<open>print\<close> is \<open>String\<close> of a number.\<close>

definition list_address :: "(jsnum \<Rightarrow> jsstr) \<Rightarrow> jsstr \<Rightarrow> jsstr option \<Rightarrow> filter_values \<Rightarrow> (jsstr \<times> jsstr) list" where
  "list_address print pathname scanId v =
     filter (\<lambda>(k, x). x \<noteq> [])
       [(js ''q'', fv_q v), (js ''platformInstanceId'', fv_directory v), (js ''platformId'', fv_platform v), (js ''tagId'', fv_tag v),
        (js ''folderId'', fv_folder v), (js ''sort'', sort_name (fv_sort v)),
        (js ''offset'', if fv_offset v \<in> {Fin 0, NaN} then [] else print (fv_offset v))] @
     (if pathname = js ''/admin/reviews'' \<and> or_empty scanId \<noteq> [] then [(js ''scanId'', or_empty scanId)] else [])"

definition update_filters :: "(filter_values \<Rightarrow> filter_values) \<Rightarrow> bool \<Rightarrow> filter_values \<Rightarrow> filter_values" where
  "update_filters changes resetPage v = (let next' = changes v in if resetPage then next'\<lparr>fv_offset := Fin 0\<rparr> else next')"

text \<open>The filters that a page reads from the parameters of its address.\<close>

definition read_filters :: "(jsstr \<times> jsstr) list \<Rightarrow> list_filters" where
  "read_filters ps =
     \<lparr>lf_q = map_of ps (js ''q''), lf_platformInstanceId = map_of ps (js ''platformInstanceId''), lf_platformId = map_of ps (js ''platformId''),
      lf_tagId = map_of ps (js ''tagId''), lf_folderId = map_of ps (js ''folderId''), lf_offset = map_of ps (js ''offset''),
      lf_sort = map_of ps (js ''sort''), lf_scanId = map_of ps (js ''scanId'')\<rparr>"

section \<open>Requests\<close>

record game_query =
  gq_q :: jsstr
  gq_platformInstanceId :: "jsstr option"
  gq_platformId :: "jsstr option"
  gq_tagId :: "jsstr option"
  gq_folderId :: "jsstr option"
  gq_unclassified :: "bool option"
  gq_offset :: jsnum
  gq_limit :: nat
  gq_sort :: "list_sort option"

definition given :: "jsstr \<Rightarrow> jsstr option" where
  "given s = (if s = [] then None else Some s)"

definition folder_query :: "jsstr \<Rightarrow> jsstr option \<times> bool option" where
  "folder_query folder =
     (if folder \<noteq> [] \<and> folder \<noteq> js ''unclassified'' then Some folder else None,
      if folder = js ''unclassified'' then Some True else None)"

definition gameQuery :: "filter_values \<Rightarrow> game_query" where
  "gameQuery v =
     \<lparr>gq_q = fv_q v, gq_platformInstanceId = given (fv_directory v), gq_platformId = given (fv_platform v), gq_tagId = given (fv_tag v),
      gq_folderId = fst (folder_query (fv_folder v)), gq_unclassified = snd (folder_query (fv_folder v)),
      gq_offset = fv_offset v, gq_limit = 24, gq_sort = Some (fv_sort v)\<rparr>"

datatype list_kind = LibraryKind | FavoritesKind | AdminKind | ReviewKind

definition games_path :: "list_kind \<Rightarrow> jsstr" where
  "games_path kind =
     (case kind of
        FavoritesKind \<Rightarrow> js ''/api/v1/favorites''
      | AdminKind \<Rightarrow> js ''/api/v1/admin/games''
      | ReviewKind \<Rightarrow> js ''/api/v1/admin/reviews''
      | LibraryKind \<Rightarrow> js ''/api/v1/games'')"

datatype detail_mode = UserMode | AdminMode | ReviewMode

definition detail_path :: "detail_mode \<Rightarrow> jsstr" where
  "detail_path mode =
     (case mode of
        AdminMode \<Rightarrow> js ''/api/v1/admin/games/{gameId}''
      | ReviewMode \<Rightarrow> js ''/api/v1/admin/reviews/{gameId}''
      | UserMode \<Rightarrow> js ''/api/v1/games/{gameId}'')"

text \<open>\<open>toggleFavorite\<close>: the method, the game and the folders of a \<open>PUT\<close>; the outcome of the answer.\<close>

definition favorite_request :: "jsstr \<Rightarrow> bool \<Rightarrow> jsstr list \<Rightarrow> jsstr \<times> jsstr \<times> jsstr list option" where
  "favorite_request gameId favorite folderIds =
     (if favorite then (js ''PUT'', gameId, Some folderIds) else (js ''DELETE'', gameId, None))"

section \<open>Immersive mode\<close>

datatype immersive_view = PlatformsView | GamesView | FavoritesView | SavesView | RecentView

text \<open>What \<open>loadEntries\<close> asks for: nothing, groups of saves, recent games, or a list of games.\<close>

datatype entries_request =
    NoEntries
  | SaveGroups nat nat
  | RecentGames nat nat
  | GameList list_kind game_query

definition loadEntries :: "immersive_view \<Rightarrow> jsstr option \<Rightarrow> jsstr \<Rightarrow> nat \<Rightarrow> nat \<Rightarrow> entries_request" where
  "loadEntries view directory folder offset limit =
     (case view of
        PlatformsView \<Rightarrow> NoEntries
      | SavesView \<Rightarrow> SaveGroups offset limit
      | RecentView \<Rightarrow> RecentGames offset limit
      | _ \<Rightarrow> GameList (if view = FavoritesView then FavoritesKind else LibraryKind)
          \<lparr>gq_q = [], gq_platformInstanceId = (if view = GamesView then directory else None), gq_platformId = None, gq_tagId = None,
           gq_folderId = fst (folder_query folder), gq_unclassified = snd (folder_query folder),
           gq_offset = Fin (of_nat offset), gq_limit = limit, gq_sort = None\<rparr>)"

text \<open>\<open>loadLetters\<close>: the list of letters, with directory, folder and the unclassified.\<close>

definition loadLetters :: "immersive_view \<Rightarrow> jsstr option \<Rightarrow> jsstr \<Rightarrow> (jsstr \<times> jsstr option \<times> jsstr option \<times> bool option) option" where
  "loadLetters view directory folder =
     (if view \<notin> {GamesView, FavoritesView} then None
      else Some (if view = GamesView then js ''/api/v1/games/letters'' else js ''/api/v1/favorites/letters'',
        if view = GamesView then directory else None, fst (folder_query folder), snd (folder_query folder)))"

text \<open>\<open>platformCode\<close>: the words of a name are runs of ASCII letters, digits and hyphens that do not begin with a hyphen.\<close>

definition ascii_digit :: "code_unit \<Rightarrow> bool" where "ascii_digit c \<longleftrightarrow> 0x30 \<le> c \<and> c \<le> 0x39"
definition ascii_upper :: "code_unit \<Rightarrow> bool" where "ascii_upper c \<longleftrightarrow> 0x41 \<le> c \<and> c \<le> 0x5A"
definition ascii_letter :: "code_unit \<Rightarrow> bool" where "ascii_letter c \<longleftrightarrow> ascii_upper c \<or> (0x61 \<le> c \<and> c \<le> 0x7A)"
definition word_unit :: "code_unit \<Rightarrow> bool" where "word_unit c \<longleftrightarrow> ascii_letter c \<or> ascii_digit c \<or> c = 0x2D"

function ascii_words :: "jsstr \<Rightarrow> jsstr list" where
  "ascii_words [] = []"
| "ascii_words (c # cs) =
     (if word_unit c \<and> c \<noteq> 0x2D then (c # takeWhile word_unit cs) # ascii_words (dropWhile word_unit cs) else ascii_words cs)"
  by pat_completeness auto
termination by (relation "measure length") (auto simp: le_imp_less_Suc length_dropWhile_le)

definition abbreviate :: "(jsstr \<Rightarrow> jsstr) \<Rightarrow> jsstr \<Rightarrow> jsstr" where
  "abbreviate upper w =
     (if (2 \<le> length w \<and> list_all (\<lambda>c. ascii_upper c \<or> ascii_digit c \<or> c = 0x2D) w) \<or> (w \<noteq> [] \<and> ascii_digit (hd w))
      then upper w else upper (take 1 w))"

definition platformCode :: "(jsstr \<Rightarrow> jsstr) \<Rightarrow> jsstr \<Rightarrow> jsstr \<Rightarrow> jsstr" where
  "platformCode upper name platformId =
     (let i = upper platformId;
          base = (if ends_with name [0x6E38, 0x620F] then take (length name - 2) name else name);
          ws = ascii_words base;
          short = (if length ws = 1 then upper (hd ws) else concat (map (abbreviate upper) ws)) in
      if 2 \<le> length short \<and> length i = length short + 1 \<and> starts_with i short then short else i)"

record immersive_destination =
  de_id :: jsstr
  de_name :: jsstr
  de_code :: jsstr
  de_view :: immersive_view
  de_directoryId :: "jsstr option"
  de_count :: nat

definition libraryDestinations :: "immersive_destination list" where
  "libraryDestinations =
     [\<lparr>de_id = js ''all'', de_name = [0x5168, 0x90E8, 0x6E38, 0x620F], de_code = js ''ALL'', de_view = GamesView, de_directoryId = None, de_count = 0\<rparr>,
      \<lparr>de_id = js ''recent'', de_name = [0x6700, 0x8FD1, 0x6E38, 0x73A9], de_code = js ''RECENT'', de_view = RecentView, de_directoryId = None, de_count = 0\<rparr>,
      \<lparr>de_id = js ''favorites'', de_name = [0x6536, 0x85CF, 0x6E38, 0x620F], de_code = js ''FAV'', de_view = FavoritesView, de_directoryId = None, de_count = 0\<rparr>,
      \<lparr>de_id = js ''saves'', de_name = [0x6211, 0x7684, 0x5B58, 0x6863], de_code = js ''SAVES'', de_view = SavesView, de_directoryId = None, de_count = 0\<rparr>]"

text \<open>\<open>loadDestinations\<close> from the totals of the four lists and the directories: id, name, platform and number of games.\<close>

definition loadDestinations :: "(jsstr \<Rightarrow> jsstr) \<Rightarrow> nat list \<Rightarrow> (jsstr \<times> jsstr \<times> jsstr \<times> nat) list \<Rightarrow> immersive_destination list" where
  "loadDestinations upper totals directories =
     (let libraries = map2 (\<lambda>d n. d\<lparr>de_count := n\<rparr>) libraryDestinations totals in
      if de_count (hd libraries) = 0 then []
      else libraries @ map (\<lambda>(i, n, p, c). \<lparr>de_id = i, de_name = n, de_code = platformCode upper n p, de_view = GamesView,
             de_directoryId = Some i, de_count = c\<rparr>) (filter (\<lambda>(i, n, p, c). 0 < c) directories))"

section \<open>Properties\<close>

lemma conflict_text_is_replaced:
  "ae_code (ApiError code m status) = js ''VERSION_CONFLICT'' \<Longrightarrow>
   case ae_message (ApiError code m status) of None \<Rightarrow> True | Some t \<Rightarrow> t \<notin> set technical_messages"
  by (simp add: ApiError_def)

lemma folder_query_exclusive: "fst (folder_query f) = None \<or> snd (folder_query f) = None"
  by (simp add: folder_query_def js_def)

text \<open>
  The keys of an address are different, so a parameter is found exactly where it was put, unless it was empty.
\<close>

lemma map_of_filter_nonempty:
  "distinct (map fst ps) \<Longrightarrow> map_of (filter (\<lambda>(k, x). x \<noteq> []) ps) k = Option.bind (map_of ps k) given"
  by (induction ps) (auto simp: given_def map_of_eq_None_iff image_iff split: if_splits)

text \<open>No upload is accepted with a refused status, and no refused one without the code and the text of its error.\<close>

lemma upload_accepted_iff:
  "(upload_result answer = Inr payload) = (\<exists>status. answer = Some (status, Some payload) \<and> 200 \<le> status \<and> status < 300)"
  by (auto simp: upload_result_def split: option.splits if_splits prod.splits)

lemma list_address_parameters:
  "read_filters (list_address print path scanId v) =
     \<lparr>lf_q = given (fv_q v), lf_platformInstanceId = given (fv_directory v), lf_platformId = given (fv_platform v),
       lf_tagId = given (fv_tag v), lf_folderId = given (fv_folder v),
       lf_offset = given (if fv_offset v \<in> {Fin 0, NaN} then [] else print (fv_offset v)),
       lf_sort = Some (sort_name (fv_sort v)),
       lf_scanId = (if path = js ''/admin/reviews'' then given (or_empty scanId) else None)\<rparr>"
proof -
  have s: "sort_name (fv_sort v) \<noteq> []" by (simp add: sort_name_def js_def split: list_sort.split)
  define A where "A = [(js ''q'', fv_q v), (js ''platformInstanceId'', fv_directory v), (js ''platformId'', fv_platform v), (js ''tagId'', fv_tag v),
        (js ''folderId'', fv_folder v), (js ''sort'', sort_name (fv_sort v)),
        (js ''offset'', if fv_offset v \<in> {Fin 0, NaN} then [] else print (fv_offset v))]"
  define B where "B = (if path = js ''/admin/reviews'' \<and> or_empty scanId \<noteq> [] then [(js ''scanId'', or_empty scanId)] else [])"
  have d: "distinct (map fst A)" by (simp add: A_def js_def)
  have la: "list_address print path scanId v = filter (\<lambda>(k, x). x \<noteq> []) A @ B"
    unfolding A_def B_def list_address_def by (rule refl)
  have disj: "map_of B k = None \<or> Option.bind (map_of A k) given = None" for k
    by (cases "k = js ''scanId''") (simp_all add: A_def B_def js_def)
  have m: "map_of (list_address print path scanId v) k = (case map_of B k of None \<Rightarrow> Option.bind (map_of A k) given | r \<Rightarrow> r)" for k
    unfolding la map_of_append map_add_def map_of_filter_nonempty [OF d] using disj [of k] by (cases "map_of B k") (auto split: option.splits)
  have A: "map_of A (js ''q'') = Some (fv_q v)" "map_of A (js ''platformInstanceId'') = Some (fv_directory v)"
    "map_of A (js ''platformId'') = Some (fv_platform v)" "map_of A (js ''tagId'') = Some (fv_tag v)"
    "map_of A (js ''folderId'') = Some (fv_folder v)" "map_of A (js ''sort'') = Some (sort_name (fv_sort v))"
    "map_of A (js ''offset'') = Some (if fv_offset v \<in> {Fin 0, NaN} then [] else print (fv_offset v))" "map_of A (js ''scanId'') = None"
    by (simp_all add: A_def js_def)
  have B: "map_of B (js ''q'') = None" "map_of B (js ''platformInstanceId'') = None" "map_of B (js ''platformId'') = None"
    "map_of B (js ''tagId'') = None" "map_of B (js ''folderId'') = None" "map_of B (js ''sort'') = None" "map_of B (js ''offset'') = None"
    "map_of B (js ''scanId'') = (if path = js ''/admin/reviews'' \<and> or_empty scanId \<noteq> [] then Some (or_empty scanId) else None)"
    by (simp_all add: B_def js_def)
  show ?thesis
    unfolding read_filters_def m A B by (simp add: given_def s)
qed

text \<open>The code of a platform is its id in capitals, or that without the last character.\<close>

theorem platform_code_is_its_id:
  "platformCode upper name i \<in> {upper i, butlast (upper i)}"
proof -
  have "short = butlast l" if p: "starts_with l short" and n: "length l = length short + 1" for l short :: jsstr
  proof -
    obtain r where r: "l = short @ r" using p starts_with_iff [of l short] by blast
    then show ?thesis using n by (cases r) (simp_all add: butlast_append)
  qed
  then show ?thesis by (simp add: platformCode_def Let_def)
qed

text \<open>C17. A list that is opened again from the address of its filters has the same filters, and so asks for the same page.\<close>

theorem address_keeps_filters:
  assumes "fv_offset v = Fin q" "0 \<le> q" "number (print (Fin q)) = Fin q" "number [] = Fin 0"
  shows "initial_filters number (read_filters (list_address print path scanId v)) = v"
proof -
  have "print (Fin q) \<noteq> []" if "q \<noteq> 0"
    using assms(3,4) that by auto
  then show ?thesis
    using assms
    by (cases "fv_sort v"; cases "q = 0")
      (auto intro!: filter_values.equality simp: list_address_parameters given_def initial_filters_def Let_def or_empty_def page_offset_def sort_name_def js_def)
qed

theorem address_keeps_filters_witness:
  "let v = \<lparr>fv_q = js ''mario'', fv_directory = [], fv_platform = js ''nes'', fv_tag = [], fv_folder = [], fv_sort = ByRecent, fv_offset = Fin 24\<rparr> in
   initial_filters (\<lambda>s. if s = js ''24'' then Fin 24 else Fin 0) (read_filters (list_address (\<lambda>_. js ''24'') (js ''/library'') None v)) = v"
  unfolding Let_def by (rule address_keeps_filters) (simp_all add: js_def)

end
