(* ===== verification/Player_Fullscreen.thy ===== *)
theory Player_Fullscreen
  imports Player_Pause
begin

text \<open>
  Who put the browser into fullscreen and who takes it out again: the presentations of
  \<open>web/features/player/player-fullscreen.ts\<close>, the hook of \<open>use-player-presentation.ts\<close>, the toggle of
  \<open>player-fullscreen-control.tsx\<close> and the launch of \<open>launch-button.tsx\<close> with its \<open>restore-confirmation.tsx\<close>.
\<close>

section \<open>Presentations\<close>

text \<open>Which element fills the screen: the document's own (\<open>Root\<close>) or another.\<close>

datatype screen_element = Root | OtherElement

text \<open>
  The awaits of \<open>enter\<close>. \<open>Locking\<close> keeps whether this call entered fullscreen; \<open>Departing\<close> waits for the exit that a
  stopped presentation asks for.
\<close>

datatype enter_stage = Requesting | Departing | Locking bool

text \<open>
  \<open>pr_enter\<close> is \<open>pending\<close>. The last two fields are a log: \<open>restore\<close> was called; fullscreen was granted to this presentation,
  and since then it was neither left nor asked to be left.
\<close>

record presentation =
  pr_previous :: "screen_element option"
  pr_locked :: bool
  pr_stopped :: bool
  pr_enter :: "enter_stage option"
  pr_restored :: bool
  pr_holds :: bool

text \<open>What the device offers: \<open>fullscreenEnabled\<close> with \<open>requestFullscreen\<close>, \<open>orientation.lock\<close>, and the window that tells a phone.\<close>

record device =
  dv_fullscreen :: bool
  dv_lock :: bool
  dv_window :: browser_window

text \<open>Who waits for an exit: the \<open>enter\<close> or the \<open>restore\<close> of a presentation, or the toggle.\<close>

datatype exit_caller = ExitOfEnter nat | ExitOfRestore nat | ExitOfToggle

text \<open>
  \<open>sc_answers\<close> logs the answers of \<open>requestFullscreen\<close>, true where it is an element; \<open>sc_unlocks\<close> counts calls of \<open>unlock\<close>.
\<close>

record screen =
  fullscreenElement :: "screen_element option"
  sc_scopes :: "presentation list"
  sc_current :: "nat option"
  sc_exits :: "exit_caller list"
  sc_answers :: "(nat \<times> bool) list"
  sc_unlocks :: nat

definition screen_initial :: "screen_element option \<Rightarrow> screen" where
  "screen_initial e =
     \<lparr>fullscreenElement = e, sc_scopes = [], sc_current = None, sc_exits = [], sc_answers = [], sc_unlocks = 0\<rparr>"

definition new_presentation :: "screen_element option \<Rightarrow> presentation" where
  "new_presentation e =
     \<lparr>pr_previous = e, pr_locked = False, pr_stopped = False, pr_enter = None, pr_restored = False, pr_holds = False\<rparr>"

text \<open>The new presentation is the last one.\<close>

definition beginPlayerPresentation :: "screen \<Rightarrow> screen" where
  "beginPlayerPresentation s =
     s\<lparr>sc_scopes := sc_scopes s @ [new_presentation (fullscreenElement s)], sc_current := Some (length (sc_scopes s))\<rparr>"

definition acquirePlayerPresentation :: "screen \<Rightarrow> screen" where
  "acquirePlayerPresentation s =
     (case sc_current s of
        None \<Rightarrow> beginPlayerPresentation s
      | Some i \<Rightarrow> if pr_stopped (sc_scopes s ! i) then beginPlayerPresentation s else s)"

definition update_scope :: "nat \<Rightarrow> (presentation \<Rightarrow> presentation) \<Rightarrow> screen \<Rightarrow> screen" where
  "update_scope i f s = (if i < length (sc_scopes s) then s\<lparr>sc_scopes := (sc_scopes s)[i := f (sc_scopes s ! i)]\<rparr> else s)"

text \<open>The screen shows another element; where it is not the document's, nobody holds fullscreen.\<close>

definition show_element :: "screen_element option \<Rightarrow> screen \<Rightarrow> screen" where
  "show_element e s =
     s\<lparr>fullscreenElement := e, sc_scopes := map (\<lambda>p. p\<lparr>pr_holds := (pr_holds p \<and> e = Some Root)\<rparr>) (sc_scopes s)\<rparr>"

definition may_restore :: "nat \<Rightarrow> screen \<Rightarrow> bool" where
  "may_restore i s \<longleftrightarrow>
     sc_current s = Some i \<and> pr_previous (sc_scopes s ! i) = None \<and> fullscreenElement s = Some Root"

definition ask_exit :: "exit_caller \<Rightarrow> screen \<Rightarrow> screen" where
  "ask_exit c s =
     s\<lparr>sc_exits := sc_exits s @ [c], sc_scopes := map (\<lambda>p. p\<lparr>pr_holds := False\<rparr>) (sc_scopes s)\<rparr>"

definition restoreFullscreen :: "exit_caller \<Rightarrow> nat \<Rightarrow> screen \<Rightarrow> screen" where
  "restoreFullscreen c i s = (if may_restore i s then ask_exit c s else s)"

text \<open>\<open>enter\<close> ends: its answer, and \<open>pending\<close> is cleared.\<close>

definition enter_ends :: "nat \<Rightarrow> bool \<Rightarrow> screen \<Rightarrow> screen" where
  "enter_ends i entered s = (update_scope i (\<lambda>p. p\<lparr>pr_enter := None\<rparr>) s)\<lparr>sc_answers := sc_answers s @ [(i, entered)]\<rparr>"

text \<open>\<open>enter\<close> from the check of \<open>stopped\<close> on.\<close>

definition enter_goes_on :: "device \<Rightarrow> nat \<Rightarrow> bool \<Rightarrow> screen \<Rightarrow> screen" where
  "enter_goes_on dv i entered s =
     (if pr_stopped (sc_scopes s ! i) then
        (if may_restore i s then restoreFullscreen (ExitOfEnter i) i (update_scope i (\<lambda>p. p\<lparr>pr_enter := Some Departing\<rparr>) s)
         else enter_ends i False s)
      else if phoneLandscape (dv_window dv) \<noteq> None \<and> dv_lock dv then
        update_scope i (\<lambda>p. p\<lparr>pr_locked := True, pr_enter := Some (Locking entered)\<rparr>) s
      else enter_ends i entered s)"

definition enter_starts :: "device \<Rightarrow> nat \<Rightarrow> screen \<Rightarrow> screen" where
  "enter_starts dv i s =
     (if fullscreenElement s = None then
        (if \<not> dv_fullscreen dv then enter_ends i False s
         else update_scope i (\<lambda>p. p\<lparr>pr_enter := Some Requesting\<rparr>) s)
      else enter_goes_on dv i False s)"

text \<open>A stopped presentation answers at once, and one that is busy gives the promise it has.\<close>

definition requestFullscreen :: "device \<Rightarrow> nat \<Rightarrow> screen \<Rightarrow> screen" where
  "requestFullscreen dv i s =
     (if length (sc_scopes s) \<le> i then s
      else if pr_stopped (sc_scopes s ! i) then s\<lparr>sc_answers := sc_answers s @ [(i, False)]\<rparr>
      else if pr_enter (sc_scopes s ! i) \<noteq> None then s
      else enter_starts dv i s)"

definition requestPlayerFullscreen :: "device \<Rightarrow> screen \<Rightarrow> screen" where
  "requestPlayerFullscreen dv s =
     (let s' = (if sc_current s = None then beginPlayerPresentation s else s) in requestFullscreen dv (the (sc_current s')) s')"

definition stop_scope :: "nat \<Rightarrow> screen \<Rightarrow> screen" where
  "stop_scope i s = update_scope i (\<lambda>p. p\<lparr>pr_stopped := True\<rparr>) s"

definition restore_scope :: "nat \<Rightarrow> screen \<Rightarrow> screen" where
  "restore_scope i s =
     (let s1 = update_scope i (\<lambda>p. p\<lparr>pr_stopped := True, pr_restored := True\<rparr>) s in
      if sc_current s1 \<noteq> Some i then s1
      else let s2 = (if pr_locked (sc_scopes s1 ! i)
                     then (update_scope i (\<lambda>p. p\<lparr>pr_locked := False\<rparr>) s1)\<lparr>sc_unlocks := sc_unlocks s1 + 1\<rparr> else s1) in
      restoreFullscreen (ExitOfRestore i) i s2)"

text \<open>\<open>toggle\<close> of the control in the toolbar.\<close>

definition toggle_fullscreen :: "device \<Rightarrow> screen \<Rightarrow> screen" where
  "toggle_fullscreen dv s =
     (if fullscreenElement s \<noteq> None then ask_exit ExitOfToggle s else requestPlayerFullscreen dv s)"

text \<open>
  Calls of the application, and what the browser does: it grants or denies a request, an exit succeeds or not, the
  orientation is locked (or refused, or three seconds pass), the user leaves or another script shows an element.
\<close>

datatype screen_event =
    Begin
  | Acquire
  | RequestBy nat
  | StopScope nat
  | RestoreScope nat
  | Toggle
  | Granted nat
  | Denied nat
  | LockSettled nat
  | ExitSettled nat bool
  | Shown "screen_element option"

definition enter_is :: "nat \<Rightarrow> enter_stage \<Rightarrow> screen \<Rightarrow> bool" where
  "enter_is i g s \<longleftrightarrow> i < length (sc_scopes s) \<and> pr_enter (sc_scopes s ! i) = Some g"

definition exit_settled :: "nat \<Rightarrow> bool \<Rightarrow> screen \<Rightarrow> screen" where
  "exit_settled k ok s =
     (if length (sc_exits s) \<le> k then s
      else let s1 = (if ok then show_element None s else s)\<lparr>sc_exits := remove_at k (sc_exits s)\<rparr> in
      case sc_exits s ! k of
        ExitOfEnter i \<Rightarrow> if enter_is i Departing s1 then enter_ends i False s1 else s1
      | _ \<Rightarrow> s1)"

definition lock_settled :: "nat \<Rightarrow> screen \<Rightarrow> screen" where
  "lock_settled i s =
     (if length (sc_scopes s) \<le> i then s
      else case pr_enter (sc_scopes s ! i) of
        Some (Locking entered) \<Rightarrow> enter_ends i (entered \<and> \<not> pr_stopped (sc_scopes s ! i)) s
      | _ \<Rightarrow> s)"

definition screen_step :: "device \<Rightarrow> screen_event \<Rightarrow> screen \<Rightarrow> screen" where
  "screen_step dv e s =
     (case e of
        Begin \<Rightarrow> beginPlayerPresentation s
      | Acquire \<Rightarrow> acquirePlayerPresentation s
      | RequestBy i \<Rightarrow> requestFullscreen dv i s
      | StopScope i \<Rightarrow> stop_scope i s
      | RestoreScope i \<Rightarrow> restore_scope i s
      | Toggle \<Rightarrow> toggle_fullscreen dv s
      | Granted i \<Rightarrow>
          if enter_is i Requesting s
          then enter_goes_on dv i True (update_scope i (\<lambda>p. p\<lparr>pr_holds := True\<rparr>) (show_element (Some Root) s)) else s
      | Denied i \<Rightarrow> if enter_is i Requesting s then enter_ends i False s else s
      | LockSettled i \<Rightarrow> lock_settled i s
      | ExitSettled k ok \<Rightarrow> exit_settled k ok s
      | Shown el \<Rightarrow> show_element el s)"

definition screen_run :: "device \<Rightarrow> screen_event list \<Rightarrow> screen \<Rightarrow> screen" where
  "screen_run dv es s = fold (screen_step dv) es s"

section \<open>\<open>usePlayerPresentation\<close>\<close>

text \<open>
  The hook acts on the screen. \<open>hk_operation\<close> is set while the request that \<open>retry\<close> made is under way; the microtasks that it
  queues are events of their own (\<open>HookMicrotask\<close> for \<open>setPending\<close>, \<open>HookDeparts\<close> for the departure after a cleanup).
\<close>

record presentation_hook =
  hk_attempted :: bool
  hk_pending :: bool
  hk_active :: bool
  hk_session :: "nat option"
  hk_operation :: bool
  hk_screen :: screen

record hook_input =
  hi_phone :: bool
  hi_known :: bool
  hi_blocked :: bool
  hi_hidden :: bool

definition session_stopped :: "presentation_hook \<Rightarrow> bool" where
  "session_stopped h =
     (case hk_session h of None \<Rightarrow> True | Some i \<Rightarrow> pr_stopped (sc_scopes (hk_screen h) ! i))"

definition hook_retry :: "device \<Rightarrow> hook_input \<Rightarrow> presentation_hook \<Rightarrow> presentation_hook" where
  "hook_retry dv inp h =
     (if \<not> hk_active h \<or> session_stopped h \<or> \<not> hi_phone inp \<or> \<not> hi_known inp \<or> hi_hidden inp \<or> hk_operation h \<or>
         (fullscreenElement (hk_screen h) \<noteq> None \<and> \<not> hi_blocked inp) then h
      else h\<lparr>hk_screen := requestFullscreen dv (the (hk_session h)) (hk_screen h), hk_operation := True\<rparr>)"

text \<open>The request of the hook ended.\<close>

definition hook_request_ends :: "presentation_hook \<Rightarrow> presentation_hook" where
  "hook_request_ends h =
     (let h1 = h\<lparr>hk_operation := False\<rparr> in if hk_active h1 then h1\<lparr>hk_attempted := True, hk_pending := False\<rparr> else h1)"

definition hook_mounts :: "presentation_hook \<Rightarrow> presentation_hook" where
  "hook_mounts h =
     (let s = acquirePlayerPresentation (hk_screen h) in h\<lparr>hk_active := True, hk_screen := s, hk_session := sc_current s\<rparr>)"

datatype hook_event =
    HookMounts
  | HookCleanup
  | HookDeparts nat
  | HookRetry hook_input
  | HookMicrotask
  | HookRequestEnds
  | HookStop
  | HookRestore
  | HookScreen screen_event

definition hook_step :: "device \<Rightarrow> hook_event \<Rightarrow> presentation_hook \<Rightarrow> presentation_hook" where
  "hook_step dv e h =
     (case e of
        HookMounts \<Rightarrow> hook_mounts h
      | HookCleanup \<Rightarrow> h\<lparr>hk_active := False\<rparr>
      | HookDeparts i \<Rightarrow> if hk_active h then h else h\<lparr>hk_screen := restore_scope i (hk_screen h)\<rparr>
      | HookRetry inp \<Rightarrow> hook_retry dv inp h
      | HookMicrotask \<Rightarrow> if hk_active h \<and> hk_operation h then h\<lparr>hk_pending := True\<rparr> else h
      | HookRequestEnds \<Rightarrow>
          if hk_operation h \<and> pr_enter (sc_scopes (hk_screen h) ! the (hk_session h)) = None then hook_request_ends h else h
      | HookStop \<Rightarrow> h\<lparr>hk_active := False,
          hk_screen := (case hk_session h of None \<Rightarrow> hk_screen h | Some i \<Rightarrow> stop_scope i (hk_screen h))\<rparr>
      | HookRestore \<Rightarrow> (case hk_session h of None \<Rightarrow> h | Some i \<Rightarrow> h\<lparr>hk_screen := restore_scope i (hk_screen h)\<rparr>)
      | HookScreen ev \<Rightarrow> h\<lparr>hk_screen := screen_step dv ev (hk_screen h)\<rparr>)"

definition hook_attempting :: "hook_input \<Rightarrow> presentation_hook \<Rightarrow> bool" where
  "hook_attempting inp h \<longleftrightarrow> hi_phone inp \<and> hi_known inp \<and> (\<not> hk_attempted h \<or> hk_pending h)"

section \<open>Fullscreen ends with the presentation that entered it\<close>

text \<open>
  Only a restored presentation that is still the current one and that found the screen free owes its end; the others leave
  the screen to whoever came before or after them.
\<close>

definition scope_ok :: "screen \<Rightarrow> nat \<Rightarrow> presentation \<Rightarrow> bool" where
  "scope_ok s i p \<longleftrightarrow>
     (pr_restored p \<longrightarrow> pr_stopped p) \<and> (pr_holds p \<longrightarrow> fullscreenElement s = Some Root) \<and>
     (sc_current s = Some i \<and> pr_restored p \<longrightarrow> \<not> pr_locked p \<and> (pr_previous p = None \<longrightarrow> \<not> pr_holds p))"

definition screen_ok :: "screen \<Rightarrow> bool" where
  "screen_ok s \<longleftrightarrow>
     (\<forall>i. sc_current s = Some i \<longrightarrow> i < length (sc_scopes s)) \<and> (\<forall>i<length (sc_scopes s). scope_ok s i (sc_scopes s ! i))"

lemma update_scope_simps [simp]:
  "fullscreenElement (update_scope i f s) = fullscreenElement s"
  "sc_current (update_scope i f s) = sc_current s"
  "sc_exits (update_scope i f s) = sc_exits s"
  "length (sc_scopes (update_scope i f s)) = length (sc_scopes s)"
  "j < length (sc_scopes s) \<Longrightarrow> sc_scopes (update_scope i f s) ! j = (if j = i then f (sc_scopes s ! j) else sc_scopes s ! j)"
  by (auto simp: update_scope_def)

lemma update_ok: "screen_ok s \<Longrightarrow> (\<And>p. scope_ok s i p \<Longrightarrow> scope_ok s i (f p)) \<Longrightarrow> screen_ok (update_scope i f s)"
  by (auto simp: screen_ok_def scope_ok_def)

lemma enter_ends_ok: "screen_ok s \<Longrightarrow> screen_ok (enter_ends i b s)"
  by (auto simp: enter_ends_def screen_ok_def scope_ok_def)

lemma ask_exit_ok: "screen_ok s \<Longrightarrow> screen_ok (ask_exit c s)"
  by (auto simp: ask_exit_def screen_ok_def scope_ok_def)

lemma show_ok: "screen_ok s \<Longrightarrow> screen_ok (show_element e s)"
  by (auto simp: show_element_def screen_ok_def scope_ok_def)

lemma new_scope_ok: "screen_ok s \<Longrightarrow> screen_ok (beginPlayerPresentation s)"
  by (auto simp: beginPlayerPresentation_def new_presentation_def screen_ok_def scope_ok_def nth_append less_Suc_eq)

text \<open>\<open>enter\<close> goes on with fullscreen that it was just given: the sound state is reached again when the exit is asked for.\<close>

lemma granted_ok:
  assumes "screen_ok s" "i < length (sc_scopes s)" "fullscreenElement s = Some Root"
  shows "screen_ok (enter_goes_on dv i True (update_scope i (\<lambda>p. p\<lparr>pr_holds := True\<rparr>) s))"
proof -
  let ?s = "update_scope i (\<lambda>p. p\<lparr>pr_holds := True\<rparr>) s"
  have o: "scope_ok s j (sc_scopes s ! j)" if "j < length (sc_scopes s)" for j using assms(1) that by (simp add: screen_ok_def)
  have c: "sc_current s = Some k \<Longrightarrow> k < length (sc_scopes s)" for k using assms(1) by (simp add: screen_ok_def)
  show ?thesis
  proof (cases "pr_stopped (sc_scopes s ! i)")
    case False
    then have "\<not> pr_restored (sc_scopes s ! i)" using o [OF assms(2)] by (auto simp: scope_ok_def)
    then have "screen_ok ?s" using o c assms(2,3) by (auto simp: screen_ok_def scope_ok_def)
    then show ?thesis using False \<open>\<not> pr_restored (sc_scopes s ! i)\<close> assms(2)
      by (auto simp: enter_goes_on_def intro!: enter_ends_ok) (auto simp: screen_ok_def scope_ok_def)
  next
    case True
    show ?thesis
    proof (cases "may_restore i ?s")
      case True
      then show ?thesis using \<open>pr_stopped (sc_scopes s ! i)\<close> assms o c
        by (simp add: enter_goes_on_def restoreFullscreen_def may_restore_def) (auto simp: ask_exit_def screen_ok_def scope_ok_def)
    next
      case False
      then have "sc_current s \<noteq> Some i \<or> pr_previous (sc_scopes s ! i) \<noteq> None" using assms(2,3) by (auto simp: may_restore_def)
      then have "screen_ok ?s" using o c assms(2,3) by (auto simp: screen_ok_def scope_ok_def)
      then show ?thesis using False True assms(2) by (simp add: enter_goes_on_def enter_ends_ok)
    qed
  qed
qed

lemma goes_on_ok:
  assumes "screen_ok s" "i < length (sc_scopes s)" "\<not> pr_stopped (sc_scopes s ! i)"
  shows "screen_ok (enter_goes_on dv i b s)"
proof -
  have "\<not> pr_restored (sc_scopes s ! i)" using assms by (auto simp: screen_ok_def scope_ok_def)
  then show ?thesis using assms
    by (auto simp: enter_goes_on_def intro!: enter_ends_ok) (auto simp: screen_ok_def scope_ok_def)
qed

lemma request_ok: "screen_ok s \<Longrightarrow> screen_ok (requestFullscreen dv i s)"
  by (auto simp: requestFullscreen_def enter_starts_def intro!: goes_on_ok enter_ends_ok update_ok) (auto simp: screen_ok_def scope_ok_def)

lemma restore_ok:
  assumes "screen_ok s"
  shows "screen_ok (restore_scope i s)"
proof -
  have c: "sc_current s = Some k \<Longrightarrow> k < length (sc_scopes s)" for k using assms by (simp add: screen_ok_def)
  have o: "scope_ok s j (sc_scopes s ! j)" if "j < length (sc_scopes s)" for j using assms that by (simp add: screen_ok_def)
  show ?thesis
  proof (cases "sc_current s = Some i")
    case False
    then show ?thesis using c o by (auto simp: restore_scope_def Let_def screen_ok_def scope_ok_def)
  next
    case True
    then show ?thesis using c o
      by (auto simp: restore_scope_def Let_def restoreFullscreen_def may_restore_def ask_exit_def screen_ok_def scope_ok_def)
  qed
qed

lemma exits_ok: "screen_ok s \<Longrightarrow> screen_ok (s\<lparr>sc_exits := es\<rparr>)"
  by (simp add: screen_ok_def scope_ok_def)

lemma answers_ok: "screen_ok s \<Longrightarrow> screen_ok (s\<lparr>sc_answers := as\<rparr>)"
  by (simp add: screen_ok_def scope_ok_def)

lemma exit_settled_ok:
  assumes "screen_ok s"
  shows "screen_ok (exit_settled k ok s)"
proof -
  have "screen_ok ((if ok then show_element None s else s)\<lparr>sc_exits := remove_at k (sc_exits s)\<rparr>)"
    using assms by (auto intro!: exits_ok show_ok)
  then show ?thesis
    using assms by (auto simp: exit_settled_def Let_def intro!: enter_ends_ok split: exit_caller.split)
qed

lemma lock_settled_ok: "screen_ok s \<Longrightarrow> screen_ok (lock_settled i s)"
  by (auto simp: lock_settled_def intro!: enter_ends_ok split: option.split enter_stage.split)

lemma stop_ok: "screen_ok s \<Longrightarrow> screen_ok (stop_scope i s)"
  unfolding stop_scope_def by (rule update_ok) (auto simp: scope_ok_def)

lemma acquire_ok: "screen_ok s \<Longrightarrow> screen_ok (acquirePlayerPresentation s)"
  by (auto simp: acquirePlayerPresentation_def new_scope_ok split: option.split)

lemma toggle_ok: "screen_ok s \<Longrightarrow> screen_ok (toggle_fullscreen dv s)"
  by (auto simp: toggle_fullscreen_def requestPlayerFullscreen_def Let_def intro!: ask_exit_ok request_ok new_scope_ok)

lemma screen_ok_step: "screen_ok s \<Longrightarrow> screen_ok (screen_step dv e s)"
proof (cases e)
  case (Granted i)
  assume "screen_ok s"
  then show ?thesis using Granted granted_ok [of "show_element (Some Root) s" i dv] show_ok [of s "Some Root"]
    by (simp add: screen_step_def enter_is_def show_element_def)
qed (simp_all add: screen_step_def new_scope_ok acquire_ok request_ok stop_ok restore_ok toggle_ok lock_settled_ok exit_settled_ok show_ok enter_ends_ok)

lemma screen_initial_ok: "screen_ok (screen_initial e)"
  by (simp add: screen_ok_def screen_initial_def)

lemma screen_ok_run: "screen_ok s \<Longrightarrow> screen_ok (screen_run dv es s)"
  unfolding screen_run_def by (induction es arbitrary: s) (simp_all add: screen_ok_step)


definition example_device :: device where
  "example_device = \<lparr>dv_fullscreen = True, dv_lock = False,
     dv_window = \<lparr>bw_mobile = Some False, bw_userAgent = [], bw_screen = None, bw_angle = None, bw_landscape = True\<rparr>\<rparr>"

lemmas screen_run_simps = screen_run_def screen_step_def screen_initial_def beginPlayerPresentation_def new_presentation_def
  requestFullscreen_def enter_starts_def example_device_def update_scope_def restore_scope_def Let_def may_restore_def restoreFullscreen_def
  enter_is_def enter_goes_on_def show_element_def ask_exit_def enter_ends_def exit_settled_def remove_at_def phoneLandscape_def


text \<open>
  A presentation that begins while the exit of the last one is still under way takes the fullscreen that is about to end for
  the state it found: when it is restored itself, the page stays in the fullscreen that it entered.
\<close>

lemma early_begin_keeps_fullscreen:
  "let s = screen_run example_device
       [Begin, RequestBy 0, Granted 0, RestoreScope 0, Begin, ExitSettled 0 True, RequestBy 1, Granted 1, RestoreScope 1] (screen_initial None) in
   fullscreenElement s = Some Root \<and> pr_holds (sc_scopes s ! 1) \<and> sc_exits s = []"
  by (simp add: screen_run_simps)

end
