(* ===== verification/Launch_Button.thy ===== *)
theory Launch_Button
  imports Player_Fullscreen
begin

text \<open>
  The button that starts a game (\<open>web/features/player/launch-button.tsx\<close>) with its own confirmation
  (\<open>restore-confirmation.tsx\<close>), on the screen of \<open>Player_Fullscreen\<close>. A run is its id and whether the server warns about its
  save; the confirmation that immersive mode may put in place of the button's is not modelled.
\<close>

section \<open>The state\<close>

type_synonym game_run = "nat \<times> bool"

text \<open>The awaits of \<open>launch\<close>.\<close>

datatype launch_stage =
    LaunchIdle
  | AskingFirst
  | Creating
  | AwaitingScreen game_run
  | GivingBack game_run
  | AskingAgain game_run
  | Removing game_run
  | EnteringAgain game_run
  | Failing
  | Launched game_run

text \<open>
  \<open>la_open\<close> and \<open>la_waits\<close> are \<open>open\<close> and \<open>pending\<close> of the confirmation. Logs: the runs that were created, those whose removal
  was asked for, and the answers of the confirmation since the click.
\<close>

record launch =
  la_stage :: launch_stage
  la_busy :: bool
  la_presentation :: "nat option"
  la_screen :: screen
  la_open :: bool
  la_waits :: bool
  la_mounted :: bool
  la_created :: "game_run list"
  la_removed :: "game_run list"
  la_answers :: "bool list"
  la_notices :: nat

definition launch_initial :: "screen \<Rightarrow> launch" where
  "launch_initial s =
     \<lparr>la_stage = LaunchIdle, la_busy = False, la_presentation = None, la_screen = s, la_open = False, la_waits = False,
      la_mounted = True, la_created = [], la_removed = [], la_answers = [], la_notices = 0\<rparr>"

section \<open>The steps\<close>

definition request_confirmation :: "launch \<Rightarrow> launch" where
  "request_confirmation l = l\<lparr>la_waits := True, la_open := la_mounted l\<rparr>"

definition begin_and_request :: "device \<Rightarrow> launch \<Rightarrow> launch" where
  "begin_and_request dv l =
     (let s = beginPlayerPresentation (la_screen l); i = the (sc_current s) in
      l\<lparr>la_presentation := Some i, la_screen := requestFullscreen dv i s\<rparr>)"

definition give_back :: "launch \<Rightarrow> launch" where
  "give_back l = l\<lparr>la_screen := restore_scope (the (la_presentation l)) (la_screen l)\<rparr>"

definition launch_goes :: "device \<Rightarrow> launch \<Rightarrow> launch" where
  "launch_goes dv l = (begin_and_request dv (l\<lparr>la_busy := True\<rparr>))\<lparr>la_stage := Creating\<rparr>"

text \<open>\<open>warned\<close>: the page itself knows of the warning, so the user is asked before the run is created.\<close>

definition launch_click :: "device \<Rightarrow> bool \<Rightarrow> launch \<Rightarrow> launch" where
  "launch_click dv warned l =
     (if la_busy l \<or> la_open l then l
      else if warned then (request_confirmation l)\<lparr>la_stage := AskingFirst, la_answers := []\<rparr>
      else launch_goes dv (l\<lparr>la_answers := []\<rparr>))"

definition launch_fails :: "launch \<Rightarrow> launch" where
  "launch_fails l = (give_back l)\<lparr>la_stage := Failing\<rparr>"

text \<open>The answer of the confirmation goes on where \<open>launch\<close> waits for it.\<close>

definition confirmation_answered :: "device \<Rightarrow> bool \<Rightarrow> launch \<Rightarrow> launch" where
  "confirmation_answered dv c l =
     (let l1 = l\<lparr>la_waits := False, la_open := False, la_answers := la_answers l @ [c]\<rparr> in
      case la_stage l1 of
        AskingFirst \<Rightarrow> if c then launch_goes dv l1 else l1\<lparr>la_stage := LaunchIdle\<rparr>
      | AskingAgain r \<Rightarrow>
          if c then (begin_and_request dv l1)\<lparr>la_stage := EnteringAgain r\<rparr>
          else l1\<lparr>la_stage := Removing r, la_removed := la_removed l1 @ [r]\<rparr>
      | _ \<Rightarrow> l1)"

definition screen_ready :: "launch \<Rightarrow> bool" where
  "screen_ready l \<longleftrightarrow> pr_enter (sc_scopes (la_screen l) ! the (la_presentation l)) = None"

definition given_back :: "launch \<Rightarrow> bool" where
  "given_back l \<longleftrightarrow> ExitOfRestore (the (la_presentation l)) \<notin> set (sc_exits (la_screen l))"

text \<open>
  The outside: a click, the answer of the user, the page goes away, the answers of the server (\<open>None\<close> is an error), the promises
  of the presentation, and all that happens to the screen.
\<close>

datatype launch_event =
    LaunchClick
  | Answer bool
  | PageGoes
  | Created "game_run option"
  | ScreenReady
  | GivenBack
  | RemoveAnswered bool
  | ScreenEvent screen_event

definition launch_step :: "device \<Rightarrow> bool \<Rightarrow> launch_event \<Rightarrow> launch \<Rightarrow> launch" where
  "launch_step dv warned e l =
     (case e of
        LaunchClick \<Rightarrow> if la_mounted l then launch_click dv warned l else l
      | Answer c \<Rightarrow> if la_open l \<and> la_waits l then confirmation_answered dv c l else l
      | PageGoes \<Rightarrow>
          let l1 = l\<lparr>la_mounted := False, la_open := False\<rparr> in
          if la_mounted l \<and> la_waits l then confirmation_answered dv False l1 else l1
      | Created answer \<Rightarrow>
          if la_stage l \<noteq> Creating then l
          else (case answer of None \<Rightarrow> launch_fails l
                | Some r \<Rightarrow> l\<lparr>la_stage := AwaitingScreen r, la_created := la_created l @ [r]\<rparr>)
      | ScreenReady \<Rightarrow>
          if \<not> screen_ready l then l
          else (case la_stage l of
                  AwaitingScreen r \<Rightarrow>
                    if snd r \<and> \<not> warned then (give_back l)\<lparr>la_stage := GivingBack r\<rparr> else l\<lparr>la_stage := Launched r\<rparr>
                | EnteringAgain r \<Rightarrow> l\<lparr>la_stage := Launched r\<rparr>
                | _ \<Rightarrow> l)
      | GivenBack \<Rightarrow>
          if \<not> given_back l then l
          else (case la_stage l of
                  GivingBack r \<Rightarrow> (request_confirmation l)\<lparr>la_stage := AskingAgain r\<rparr>
                | Failing \<Rightarrow> l\<lparr>la_stage := LaunchIdle, la_busy := False, la_notices := la_notices l + 1\<rparr>
                | _ \<Rightarrow> l)
      | RemoveAnswered ok \<Rightarrow>
          (case la_stage l of
             Removing r \<Rightarrow> if ok then l\<lparr>la_stage := LaunchIdle, la_busy := False\<rparr> else launch_fails l
           | _ \<Rightarrow> l)
      | ScreenEvent ev \<Rightarrow> l\<lparr>la_screen := screen_step dv ev (la_screen l)\<rparr>)"

definition launch_run :: "device \<Rightarrow> bool \<Rightarrow> launch_event list \<Rightarrow> launch \<Rightarrow> launch" where
  "launch_run dv warned es l = fold (launch_step dv warned) es l"

section \<open>What a launch leaves behind\<close>

text \<open>No operation of the screen forgets a presentation, or that it was restored.\<close>

definition keeps_restored :: "screen \<Rightarrow> screen \<Rightarrow> bool" where
  "keeps_restored s s' \<longleftrightarrow>
     length (sc_scopes s) \<le> length (sc_scopes s') \<and>
     (\<forall>i<length (sc_scopes s). pr_restored (sc_scopes s ! i) \<longrightarrow> pr_restored (sc_scopes s' ! i))"

lemma keeps_trans: "keeps_restored s t \<Longrightarrow> keeps_restored t u \<Longrightarrow> keeps_restored s u"
  by (auto simp: keeps_restored_def)

lemma keeps_update [simp]: "(\<And>p. pr_restored p \<Longrightarrow> pr_restored (f p)) \<Longrightarrow> keeps_restored s (update_scope i f s)"
  by (auto simp: keeps_restored_def)

lemma keeps_simps [simp]:
  "keeps_restored s s"
  "keeps_restored s (s'\<lparr>sc_exits := x\<rparr>) = keeps_restored s s'"
  "keeps_restored s (s'\<lparr>sc_answers := y\<rparr>) = keeps_restored s s'"
  "keeps_restored s (s'\<lparr>sc_unlocks := n\<rparr>) = keeps_restored s s'"
  "keeps_restored s (show_element e s)"
  "keeps_restored s (ask_exit c s)"
  "keeps_restored s (beginPlayerPresentation s)"
  "keeps_restored s (enter_ends i b s)"
  by (auto simp: keeps_restored_def show_element_def ask_exit_def beginPlayerPresentation_def enter_ends_def nth_append)

lemma keeps_restoreFullscreen [simp]: "keeps_restored s (restoreFullscreen c i s)"
  by (simp add: restoreFullscreen_def)

lemma keeps_goes_on [simp]: "keeps_restored s (enter_goes_on dv i b s)"
  by (auto simp: enter_goes_on_def intro: keeps_trans [OF keeps_update keeps_restoreFullscreen])

lemma keeps_request [simp]: "keeps_restored s (requestFullscreen dv i s)"
  by (auto simp: requestFullscreen_def enter_starts_def)

lemma keeps_restore_scope [simp]: "keeps_restored s (restore_scope i s)"
proof -
  define s1 where "s1 = update_scope i (\<lambda>p. p\<lparr>pr_stopped := True, pr_restored := True\<rparr>) s"
  define s2 where "s2 = (if pr_locked (sc_scopes s1 ! i)
    then (update_scope i (\<lambda>p. p\<lparr>pr_locked := False\<rparr>) s1)\<lparr>sc_unlocks := sc_unlocks s1 + 1\<rparr> else s1)"
  have "keeps_restored s s1" "keeps_restored s1 s2" by (simp_all add: s1_def s2_def)
  then show ?thesis
    using keeps_restoreFullscreen [of s2 "ExitOfRestore i" i] keeps_trans
    by (auto simp: restore_scope_def Let_def s1_def [symmetric] s2_def [symmetric])
qed

lemma keeps_step [simp]: "keeps_restored s (screen_step dv e s)"
proof (cases e)
  case (Granted i)
  have "keeps_restored s (update_scope i (\<lambda>p. p\<lparr>pr_holds := True\<rparr>) (show_element (Some Root) s))"
    by (rule keeps_trans [OF _ keeps_update]) simp_all
  then show ?thesis using Granted keeps_trans [OF _ keeps_goes_on] by (simp add: screen_step_def)
next
  case Toggle
  then show ?thesis using keeps_trans [OF _ keeps_request, of s "beginPlayerPresentation s"]
    by (simp add: screen_step_def toggle_fullscreen_def requestPlayerFullscreen_def Let_def)
next
  case (ExitSettled k ok)
  have "keeps_restored s (enter_ends j False (s'\<lparr>sc_exits := x\<rparr>))" if "keeps_restored s s'" for j s' x
    using that by (rule keeps_trans) (auto simp: keeps_restored_def enter_ends_def)
  then show ?thesis using ExitSettled by (simp add: screen_step_def exit_settled_def Let_def split: exit_caller.split)
qed (auto simp: screen_step_def acquirePlayerPresentation_def stop_scope_def lock_settled_def split: option.split enter_stage.split)

lemma restore_marks: "i < length (sc_scopes s) \<Longrightarrow> pr_restored (sc_scopes (restore_scope i s) ! i)"
proof -
  assume i: "i < length (sc_scopes s)"
  define s1 where "s1 = update_scope i (\<lambda>p. p\<lparr>pr_stopped := True, pr_restored := True\<rparr>) s"
  define s2 where "s2 = (if pr_locked (sc_scopes s1 ! i)
    then (update_scope i (\<lambda>p. p\<lparr>pr_locked := False\<rparr>) s1)\<lparr>sc_unlocks := sc_unlocks s1 + 1\<rparr> else s1)"
  have "i < length (sc_scopes s1)" "pr_restored (sc_scopes s1 ! i)" using i by (simp_all add: s1_def)
  moreover have "keeps_restored s1 (restoreFullscreen (ExitOfRestore i) i s2)"
    by (rule keeps_trans [OF _ keeps_restoreFullscreen]) (simp add: s2_def)
  ultimately show ?thesis
    by (auto simp: restore_scope_def Let_def s1_def [symmetric] s2_def [symmetric] keeps_restored_def)
qed

text \<open>The run that a launch is working on, and whether its presentation was given back.\<close>

definition held_runs :: "launch_stage \<Rightarrow> game_run list" where
  "held_runs g =
     (case g of
        AwaitingScreen r \<Rightarrow> [r] | GivingBack r \<Rightarrow> [r] | AskingAgain r \<Rightarrow> [r] | EnteringAgain r \<Rightarrow> [r] | Launched r \<Rightarrow> [r]
      | _ \<Rightarrow> [])"

definition own_presentation :: "launch_stage \<Rightarrow> bool" where
  "own_presentation g \<longleftrightarrow> (case g of LaunchIdle \<Rightarrow> False | AskingFirst \<Rightarrow> False | _ \<Rightarrow> True)"

definition presented :: "launch_stage \<Rightarrow> bool" where
  "presented g \<longleftrightarrow>
     (case g of Creating \<Rightarrow> True | AwaitingScreen r \<Rightarrow> True | EnteringAgain r \<Rightarrow> True | Launched r \<Rightarrow> True | _ \<Rightarrow> False)"

definition well_presented :: "launch_stage \<Rightarrow> screen \<Rightarrow> nat option \<Rightarrow> bool" where
  "well_presented g s p \<longleftrightarrow>
     (case p of None \<Rightarrow> True
      | Some i \<Rightarrow> i < length (sc_scopes s) \<and> (\<not> presented g \<longrightarrow> pr_restored (sc_scopes s ! i)))"

text \<open>A launch that goes on although its save may not fit has the consent of the user.\<close>

definition consented :: "bool \<Rightarrow> launch_stage \<Rightarrow> bool list \<Rightarrow> bool" where
  "consented warned g answers \<longleftrightarrow>
     (case g of
        Creating \<Rightarrow> warned \<longrightarrow> True \<in> set answers
      | AwaitingScreen r \<Rightarrow> warned \<longrightarrow> True \<in> set answers
      | EnteringAgain r \<Rightarrow> True \<in> set answers
      | Launched r \<Rightarrow> warned \<or> snd r \<longrightarrow> True \<in> set answers
      | _ \<Rightarrow> True)"

definition launch_ok :: "bool \<Rightarrow> launch \<Rightarrow> bool" where
  "launch_ok warned l \<longleftrightarrow>
     screen_ok (la_screen l) \<and> la_created l = la_removed l @ held_runs (la_stage l) \<and> consented warned (la_stage l) (la_answers l) \<and>
     (own_presentation (la_stage l) \<longrightarrow> la_presentation l \<noteq> None \<and> la_busy l) \<and>
     well_presented (la_stage l) (la_screen l) (la_presentation l) \<and>
     (la_mounted l \<and> la_stage l = AskingFirst \<longrightarrow> la_open l)"

lemmas stage_defs = held_runs_def own_presentation_def presented_def consented_def well_presented_def

lemma presented_simps [simp]:
  "\<not> presented LaunchIdle" "\<not> presented AskingFirst" "presented Creating" "presented (AwaitingScreen r)" "\<not> presented (GivingBack r)"
  "\<not> presented (AskingAgain r)" "\<not> presented (Removing r)" "presented (EnteringAgain r)" "\<not> presented Failing" "presented (Launched r)"
  by (simp_all add: presented_def)

lemma presented_on: "well_presented g s p \<Longrightarrow> (presented g \<Longrightarrow> presented g') \<Longrightarrow> well_presented g' s p"
  by (auto simp: well_presented_def split: option.splits)

lemma ok_screen:
  assumes "launch_ok warned l" "screen_ok s" "keeps_restored (la_screen l) s"
  shows "launch_ok warned (l\<lparr>la_screen := s\<rparr>)"
  using assms by (auto simp: launch_ok_def keeps_restored_def well_presented_def split: option.splits)

lemma begun:
  assumes "screen_ok (la_screen l)" "l' = begin_and_request dv l"
  shows "screen_ok (la_screen l') \<and> (\<exists>i. la_presentation l' = Some i \<and> i < length (sc_scopes (la_screen l')))"
proof -
  let ?s = "beginPlayerPresentation (la_screen l)"
  have "length (sc_scopes (la_screen l)) < length (sc_scopes ?s)" "sc_current ?s = Some (length (sc_scopes (la_screen l)))"
    by (simp_all add: beginPlayerPresentation_def)
  moreover have "keeps_restored ?s (requestFullscreen dv i ?s)" for i by simp
  ultimately show ?thesis
    using assms by (auto simp: begin_and_request_def Let_def new_scope_ok request_ok keeps_restored_def intro: less_le_trans)
qed

lemma begun_simps [simp]:
  "la_stage (begin_and_request dv l) = la_stage l" "la_created (begin_and_request dv l) = la_created l"
  "la_removed (begin_and_request dv l) = la_removed l" "la_answers (begin_and_request dv l) = la_answers l"
  "la_mounted (begin_and_request dv l) = la_mounted l" "la_open (begin_and_request dv l) = la_open l"
  "la_busy (begin_and_request dv l) = la_busy l"
  by (simp_all add: begin_and_request_def Let_def)

lemma given_simps [simp]:
  "la_stage (give_back l) = la_stage l" "la_created (give_back l) = la_created l"
  "la_removed (give_back l) = la_removed l" "la_answers (give_back l) = la_answers l"
  "la_mounted (give_back l) = la_mounted l" "la_open (give_back l) = la_open l"
  "la_busy (give_back l) = la_busy l" "la_presentation (give_back l) = la_presentation l"
  by (simp_all add: give_back_def)

lemma given_ok:
  assumes "launch_ok warned l" "la_presentation l = Some i"
  shows "screen_ok (la_screen (give_back l))" "i < length (sc_scopes (la_screen (give_back l)))"
    "pr_restored (sc_scopes (la_screen (give_back l)) ! i)"
proof -
  have "screen_ok (la_screen l)" "i < length (sc_scopes (la_screen l))" using assms by (auto simp: launch_ok_def well_presented_def)
  then show "screen_ok (la_screen (give_back l))" "i < length (sc_scopes (la_screen (give_back l)))"
    "pr_restored (sc_scopes (la_screen (give_back l)) ! i)"
    using assms(2) restore_ok restore_marks keeps_restore_scope [of "la_screen l" i] by (auto simp: give_back_def keeps_restored_def)
qed

lemma goes_ok:
  assumes "screen_ok (la_screen l)" "la_created l = la_removed l" "warned \<Longrightarrow> True \<in> set (la_answers l)"
  shows "launch_ok warned (launch_goes dv l)"
proof -
  let ?l = "begin_and_request dv (l\<lparr>la_busy := True\<rparr>)"
  obtain i where "screen_ok (la_screen ?l)" "la_presentation ?l = Some i" "i < length (sc_scopes (la_screen ?l))"
    using begun [OF _ refl, of "l\<lparr>la_busy := True\<rparr>" dv] assms(1) by auto
  then show ?thesis using assms(2,3) by (simp add: launch_goes_def launch_ok_def stage_defs)
qed

lemma again_ok:
  assumes "screen_ok (la_screen l)" "la_created l = la_removed l @ [r]" "True \<in> set (la_answers l)" "la_busy l"
  shows "launch_ok warned ((begin_and_request dv l)\<lparr>la_stage := EnteringAgain r\<rparr>)"
proof -
  obtain i where "screen_ok (la_screen (begin_and_request dv l))" "la_presentation (begin_and_request dv l) = Some i"
    "i < length (sc_scopes (la_screen (begin_and_request dv l)))"
    using begun [OF assms(1) refl, of dv] by auto
  then show ?thesis using assms by (simp add: launch_ok_def stage_defs)
qed

lemma fails_ok:
  assumes "launch_ok warned l" "la_stage l = Creating \<or> (\<exists>r. la_stage l = Removing r)"
  shows "launch_ok warned (launch_fails l)"
proof -
  obtain i where i: "la_presentation l = Some i" using assms by (auto simp: launch_ok_def own_presentation_def)
  then show ?thesis using assms given_ok [OF assms(1) i]
    by (auto simp: launch_fails_def launch_ok_def stage_defs)
qed

lemma consented_more: "consented warned g as \<Longrightarrow> consented warned g (as @ [c])"
  by (auto simp: consented_def split: launch_stage.splits)

lemma consented_free: "\<not> presented g \<Longrightarrow> consented warned g as"
  by (auto simp: consented_def presented_def split: launch_stage.splits)

lemma noted_ok:
  assumes "launch_ok warned l" "la_stage l \<noteq> AskingFirst"
  shows "launch_ok warned (l\<lparr>la_waits := w, la_open := o', la_answers := la_answers l @ [c]\<rparr>)"
  using assms by (auto simp: launch_ok_def consented_more)

lemma answered_ok:
  assumes "launch_ok warned l"
  shows "launch_ok warned (confirmation_answered dv c l)"
proof -
  define l1 where "l1 = l\<lparr>la_waits := False, la_open := False, la_answers := la_answers l @ [c]\<rparr>"
  have l1: "la_stage l1 = la_stage l" "la_screen l1 = la_screen l" "la_created l1 = la_created l" "la_removed l1 = la_removed l"
    "la_busy l1 = la_busy l" "la_answers l1 = la_answers l @ [c]" "la_presentation l1 = la_presentation l"
    by (simp_all add: l1_def)
  have eq: "confirmation_answered dv c l =
     (case la_stage l1 of
        AskingFirst \<Rightarrow> if c then launch_goes dv l1 else l1\<lparr>la_stage := LaunchIdle\<rparr>
      | AskingAgain r \<Rightarrow>
          if c then (begin_and_request dv l1)\<lparr>la_stage := EnteringAgain r\<rparr>
          else l1\<lparr>la_stage := Removing r, la_removed := la_removed l1 @ [r]\<rparr>
      | _ \<Rightarrow> l1)" unfolding confirmation_answered_def Let_def l1_def by (rule refl)
  consider "la_stage l = AskingFirst" | r where "la_stage l = AskingAgain r" | "la_stage l \<noteq> AskingFirst" "\<And>r. la_stage l \<noteq> AskingAgain r"
    by blast
  then show ?thesis
  proof cases
    case 1
    then have p: "screen_ok (la_screen l)" "la_created l = la_removed l" "well_presented LaunchIdle (la_screen l) (la_presentation l)"
      using assms by (auto simp: launch_ok_def held_runs_def intro: presented_on)
    then have "launch_ok warned (launch_goes dv l1)" if c using that by (intro goes_ok) (simp_all add: l1)
    moreover have "launch_ok warned (l1\<lparr>la_stage := LaunchIdle\<rparr>)"
      using p by (simp add: launch_ok_def l1 held_runs_def own_presentation_def consented_free)
    ultimately show ?thesis using 1 by (simp add: eq l1)
  next
    case 2
    have "launch_ok warned ((begin_and_request dv l1)\<lparr>la_stage := EnteringAgain r\<rparr>)" if c
      by (rule again_ok) (use 2 assms that in \<open>simp_all add: l1 launch_ok_def held_runs_def own_presentation_def\<close>)
    moreover have "launch_ok warned (l1\<lparr>la_stage := Removing r, la_removed := la_removed l1 @ [r]\<rparr>)"
      using 2 assms by (auto simp: l1 launch_ok_def held_runs_def own_presentation_def consented_free intro: presented_on)
    ultimately show ?thesis using 2 by (simp add: eq l1)
  next
    case 3
    then have "confirmation_answered dv c l = l1" by (simp add: eq l1 split: launch_stage.split)
    then show ?thesis using noted_ok [OF assms 3(1)] by (simp add: l1_def)
  qed
qed

lemma launch_ok_step: "launch_ok warned l \<Longrightarrow> launch_ok warned (launch_step dv warned e l)"
proof (cases e)
  case LaunchClick
  assume l: "launch_ok warned l"
  have "launch_ok warned (launch_click dv warned l)" if m: "la_mounted l"
  proof (cases "la_busy l \<or> la_open l")
    case False
    then have s: "la_stage l = LaunchIdle" using l m by (auto simp: launch_ok_def own_presentation_def split: launch_stage.splits)
    then have "screen_ok (la_screen l)" "la_created l = la_removed l" "well_presented AskingFirst (la_screen l) (la_presentation l)"
      using l by (auto simp: launch_ok_def held_runs_def intro: presented_on)
    then show ?thesis using False m
      by (auto simp: launch_click_def intro!: goes_ok)
        (simp add: request_confirmation_def launch_ok_def held_runs_def own_presentation_def consented_free)
  qed (auto simp: launch_click_def l)
  then show ?thesis using LaunchClick l by (simp add: launch_step_def)
next
  case (Answer c)
  assume "launch_ok warned l"
  then show ?thesis using Answer by (simp add: launch_step_def answered_ok)
next
  case PageGoes
  assume l: "launch_ok warned l"
  then have "launch_ok warned (l\<lparr>la_mounted := False, la_open := False\<rparr>)" by (simp add: launch_ok_def)
  then show ?thesis using PageGoes by (simp add: launch_step_def Let_def answered_ok)
next
  case (Created answer)
  assume l: "launch_ok warned l"
  then show ?thesis using Created fails_ok [OF l]
    by (auto simp: launch_step_def split: option.split) (auto simp: launch_ok_def held_runs_def own_presentation_def consented_def intro: presented_on)
next
  case ScreenReady
  assume l: "launch_ok warned l"
  have "launch_ok warned ((give_back l)\<lparr>la_stage := GivingBack r\<rparr>)" if s: "la_stage l = AwaitingScreen r" for r
  proof -
    obtain i where "la_presentation l = Some i" using l s by (auto simp: launch_ok_def own_presentation_def)
    then show ?thesis using given_ok [OF l] l s by (auto simp: launch_ok_def stage_defs)
  qed
  then show ?thesis using ScreenReady l
    by (auto simp: launch_step_def split: launch_stage.split) (auto simp: launch_ok_def held_runs_def own_presentation_def consented_def intro: presented_on)
next
  case GivenBack
  assume "launch_ok warned l"
  then show ?thesis using GivenBack
    by (auto simp: launch_step_def request_confirmation_def split: launch_stage.split) (auto simp: launch_ok_def held_runs_def own_presentation_def consented_def intro: presented_on)
next
  case (RemoveAnswered ok)
  assume l: "launch_ok warned l"
  then show ?thesis using RemoveAnswered fails_ok [OF l]
    by (auto simp: launch_step_def split: launch_stage.split) (auto simp: launch_ok_def held_runs_def own_presentation_def consented_def intro: presented_on)
next
  case (ScreenEvent ev)
  assume l: "launch_ok warned l"
  then have "launch_ok warned (l\<lparr>la_screen := screen_step dv ev (la_screen l)\<rparr>)"
    by (intro ok_screen) (simp_all add: launch_ok_def screen_ok_step)
  then show ?thesis using ScreenEvent by (simp add: launch_step_def)
qed

lemma launch_ok_run: "launch_ok warned l \<Longrightarrow> launch_ok warned (launch_run dv warned es l)"
  unfolding launch_run_def by (induction es arbitrary: l) (simp_all add: launch_ok_step)

lemma launch_ok_initial: "launch_ok warned (launch_initial (screen_run dv es (screen_initial e)))"
  by (simp add: launch_ok_def launch_initial_def held_runs_def own_presentation_def consented_free well_presented_def
      screen_ok_run [OF screen_initial_ok])


text \<open>A save that may not fit its core is only loaded with the consent of the user, whether the page or the server warned.\<close>

theorem old_save_needs_consent:
  assumes "l = launch_run dv warned es (launch_initial (screen_run dv es0 (screen_initial e)))" "la_stage l = Launched r" "warned \<or> snd r"
  shows "True \<in> set (la_answers l)"
proof -
  have "launch_ok warned l" unfolding assms(1) by (rule launch_ok_run [OF launch_ok_initial])
  then show ?thesis using assms(2,3) by (auto simp: launch_ok_def consented_def)
qed

definition refused_launch :: "launch_event list" where
  "refused_launch =
     [LaunchClick, ScreenEvent (Granted 0), Created (Some (7, True)), ScreenReady, ScreenEvent (ExitSettled 0 True), GivenBack, Answer False,
      RemoveAnswered True]"

definition granted_launch :: "launch_event list" where
  "granted_launch =
     [LaunchClick, ScreenEvent (Granted 0), Created (Some (7, True)), ScreenReady, ScreenEvent (ExitSettled 0 True), GivenBack, Answer True,
      ScreenEvent (Granted 1), ScreenReady]"

lemmas launch_run_simps = launch_run_def launch_step_def launch_initial_def launch_click_def launch_goes_def begin_and_request_def
  confirmation_answered_def request_confirmation_def give_back_def screen_ready_def given_back_def screen_run_simps

lemma refused_ends:
  "la_stage (launch_run example_device False refused_launch (launch_initial (screen_run example_device [] (screen_initial None)))) = LaunchIdle"
  "la_created (launch_run example_device False refused_launch (launch_initial (screen_run example_device [] (screen_initial None)))) = [(7, True)]"
  by (simp_all add: refused_launch_def launch_run_simps)

lemma granted_ends:
  "la_stage (launch_run example_device False granted_launch (launch_initial (screen_run example_device [] (screen_initial None)))) = Launched (7, True)"
  by (simp add: granted_launch_def launch_run_simps)


theorem old_save_needs_consent_witness:
  "True \<in> set (la_answers (launch_run example_device False granted_launch (launch_initial (screen_run example_device [] (screen_initial None)))))"
  by (rule old_save_needs_consent [OF refl granted_ends]) simp

text \<open>
  The page of the button may be left while the run is being created. When the server then warns, the button of the page that is
  gone asks once more; no dialogue is shown, nobody answers, and the run is neither played nor removed.
\<close>

lemma unmounted_stays:
  "\<not> la_mounted l \<Longrightarrow> \<not> la_open l \<Longrightarrow> la_stage l = AskingAgain r \<Longrightarrow>
   la_stage (launch_run dv warned es l) = AskingAgain r \<and> la_removed (launch_run dv warned es l) = la_removed l"
proof (induction es arbitrary: l)
  case (Cons e es)
  have "\<not> la_mounted (launch_step dv warned e l) \<and> \<not> la_open (launch_step dv warned e l) \<and>
    la_stage (launch_step dv warned e l) = AskingAgain r \<and> la_removed (launch_step dv warned e l) = la_removed l"
    using Cons.prems by (cases e) (auto simp: launch_step_def Let_def)
  then show ?case using Cons.IH by (simp add: launch_run_def)
qed (simp add: launch_run_def)

lemma left_page_keeps_run:
  "let l = launch_run example_device False
       ([LaunchClick, PageGoes, ScreenEvent (Denied 0), Created (Some (7, True)), ScreenReady, GivenBack] @ es)
       (launch_initial (screen_initial None)) in
   la_stage l = AskingAgain (7, True) \<and> la_removed l = []"
proof -
  let ?l = "launch_run example_device False
       [LaunchClick, PageGoes, ScreenEvent (Denied 0), Created (Some (7, True)), ScreenReady, GivenBack] (launch_initial (screen_initial None))"
  have "\<not> la_mounted ?l" "\<not> la_open ?l" "la_stage ?l = AskingAgain (7, True)" "la_removed ?l = []"
    by (simp_all add: launch_run_simps)
  then show ?thesis using unmounted_stays [of ?l "(7, True)" example_device False es]
    by (simp add: launch_run_def Let_def)
qed

end
