(* ===== verification/Runtime_Config.thy ===== *)
theory Runtime_Config
  imports Json_Value
begin

text \<open>
  How an administrator configures the run of a game: the options a target declares and their fields
  (\<open>web/features/games/runtime-option-fields.tsx\<close>), the configuration and its edits (\<open>runtime-config-editor.tsx\<close>,
  \<open>scummvm-selection.tsx\<close>, \<open>launch-scheme-selector.tsx\<close>, \<open>arcade-parent-files.tsx\<close>), the searches of
  \<open>rom-set-selector.tsx\<close> and \<open>dos-entry-selector.tsx\<close> and the request of \<open>game-editor.tsx\<close>. An edit builds the new configuration
  from the one its closure saw; where it waits for the server first, that one may be old. The key \<open>__proto__\<close> of an option is
  not covered.
\<close>

section \<open>Option descriptors\<close>

record option_descriptor =
  od_key :: jsstr
  od_label :: jsstr
  od_type :: jval
  od_required :: bool
  od_choices :: "jsstr list"
  od_minimum :: "jsnum option"
  od_maximum :: "jsnum option"

definition jfield :: "jval option \<Rightarrow> string \<Rightarrow> jval option" where
  "jfield v k = (case v of Some (JObj p ps) \<Rightarrow> jget (JObj p ps) (js k) | _ \<Rightarrow> None)"

definition string_array :: "jval \<Rightarrow> bool" where
  "string_array v \<longleftrightarrow>
     is_record (Some v) \<and> jfield (Some v) ''type'' = Some (jstr ''array'') \<and> is_record (jfield (Some v) ''items'') \<and>
     jfield (jfield (Some v) ''items'') ''type'' = Some (jstr ''string'')"

definition number_field :: "jval \<Rightarrow> string \<Rightarrow> jsnum option" where
  "number_field v k = (case jfield (Some v) k of Some (JNum x) \<Rightarrow> Some x | _ \<Rightarrow> None)"

text \<open>
  One property of a schema: \<open>None\<close> where \<open>String\<close> throws, no descriptor where the type is not offered. \<open>labels\<close> is the table
  \<open>optionLabels\<close> of translated names.
\<close>

definition option_descriptors_of :: "host \<Rightarrow> (jsstr \<Rightarrow> jsstr option) \<Rightarrow> jval list \<Rightarrow> jsstr \<times> jval \<Rightarrow> option_descriptor list option" where
  "option_descriptors_of H labels required kv =
     (case kv of (key, value) \<Rightarrow>
        let descriptor =
          \<lparr>od_key = key,
           od_label = (case jfield (Some value) ''title'' of Some (JStr t) \<Rightarrow> t | _ \<Rightarrow> (case labels key of Some l \<Rightarrow> l | None \<Rightarrow> key)),
           od_type = (if string_array value then jstr ''string-array'' else the (jfield (Some value) ''type'')),
           od_required = (JStr key \<in> set required),
           od_choices = (case jfield (Some value) ''enum'' of
              Some (JArr xs) \<Rightarrow> concat (map (\<lambda>x. case x of JStr s \<Rightarrow> [s] | _ \<Rightarrow> []) xs) | _ \<Rightarrow> []),
           od_minimum = number_field value ''minimum'', od_maximum = number_field value ''maximum''\<rparr> in
        if \<not> is_record (Some value) then Some []
        else if string_array value then Some [descriptor]
        else (case js_String_opt H (jfield (Some value) ''type'') of
                None \<Rightarrow> None
              | Some t \<Rightarrow> Some (if t \<in> set (map js [''string'', ''integer'', ''boolean'']) then [descriptor] else [])))"

fun all_descriptors :: "host \<Rightarrow> (jsstr \<Rightarrow> jsstr option) \<Rightarrow> jval list \<Rightarrow> (jsstr \<times> jval) list \<Rightarrow> option_descriptor list option" where
  "all_descriptors H labels required [] = Some []"
| "all_descriptors H labels required (kv # kvs) =
     (case option_descriptors_of H labels required kv of
        None \<Rightarrow> None
      | Some ds \<Rightarrow> map_option (\<lambda>es. ds @ es) (all_descriptors H labels required kvs))"

definition optionDescriptors :: "host \<Rightarrow> (jsstr \<Rightarrow> jsstr option) \<Rightarrow> jval \<Rightarrow> option_descriptor list option" where
  "optionDescriptors H labels schema =
     (case jfield (Some schema) ''properties'' of
        Some (JObj p ps) \<Rightarrow>
          all_descriptors H labels (case jfield (Some schema) ''required'' of Some (JArr xs) \<Rightarrow> xs | _ \<Rightarrow> []) ps
      | _ \<Rightarrow> Some [])"

section \<open>Option fields\<close>

type_synonym option_values = "(jsstr, jval) amap"

text \<open>\<open>split(/\r?\n/u)\<close>: a line feed takes the carriage return before it along.\<close>

definition drop_return :: "jsstr \<Rightarrow> jsstr" where
  "drop_return l = (if l \<noteq> [] \<and> last l = 13 then butlast l else l)"

definition text_lines :: "jsstr \<Rightarrow> jsstr list" where
  "text_lines t = (let ls = split_on 10 t in map drop_return (butlast ls) @ [last ls])"

text \<open>What a field hands over: a text, or the state of a box.\<close>

datatype field_value = FieldText jsstr | FieldBox bool

text \<open>\<open>number\<close> is \<open>Number\<close>; for the types that no field of texts has, the value is stored as it is.\<close>

definition put_option :: "(jsstr \<Rightarrow> jsnum) \<Rightarrow> option_descriptor \<Rightarrow> field_value \<Rightarrow> option_values \<Rightarrow> option_values" where
  "put_option number field v options =
     (case v of
        FieldText t \<Rightarrow>
          if t = [] then amap_del (od_key field) options
          else amap_put (od_key field)
            (if od_type field = jstr ''string-array'' then JArr (map JStr (filter (\<lambda>i. i \<noteq> []) (text_lines t)))
             else if od_type field = jstr ''integer'' then JNum (number t) else JStr t) options
      | FieldBox b \<Rightarrow>
          amap_put (od_key field)
            (if od_type field = jstr ''string-array'' then JArr [JStr (if b then js ''true'' else js ''false'')]
             else if od_type field = jstr ''integer'' then JNum (Fin (if b then 1 else 0)) else JBool b) options)"

text \<open>What \<open>StringArrayField\<close> shows: the draft while it has the focus, otherwise the items, one to a line.\<close>

definition item_text :: "jval \<Rightarrow> jsstr" where
  "item_text x = (case x of JStr s \<Rightarrow> s | _ \<Rightarrow> [])"

definition shown_items :: "jsstr option \<Rightarrow> jval option \<Rightarrow> jsstr" where
  "shown_items draft v =
     (case draft of
        Some d \<Rightarrow> d
      | None \<Rightarrow> (case v of Some (JArr xs) \<Rightarrow> join_with [10] (map item_text xs) | _ \<Rightarrow> []))"

section \<open>The configuration\<close>

record runtime_content =
  ct_kind :: jsstr
  ct_engine :: "jsstr option"
  ct_entryFile :: "jsstr option"
  ct_entryPath :: "jsstr option"

record core_options =
  co_options :: "option_values option"
  co_romSet :: "jsstr option"
  co_parentFiles :: "jsstr list option"

record runtime_config =
  rt_content :: runtime_content
  rt_cores :: "(jsstr, core_options) amap option"

definition no_core_options :: core_options where
  "no_core_options = \<lparr>co_options = None, co_romSet = None, co_parentFiles = None\<rparr>"

definition core_settings :: "jsstr \<Rightarrow> runtime_config \<Rightarrow> core_options" where
  "core_settings coreId v =
     (case Option.bind (rt_cores v) (\<lambda>m. map_of m coreId) of Some c \<Rightarrow> c | None \<Rightarrow> no_core_options)"

definition options_of :: "core_options \<Rightarrow> option_values" where
  "options_of c = (case co_options c of Some m \<Rightarrow> m | None \<Rightarrow> [])"

datatype content_key = EntryFile | EntryPath | Engine

definition text_or_none :: "jsstr \<Rightarrow> jsstr option" where
  "text_or_none t = (if t = [] then None else Some t)"

definition edit_content :: "content_key \<Rightarrow> jsstr \<Rightarrow> runtime_config \<Rightarrow> runtime_config" where
  "edit_content k t v =
     v\<lparr>rt_content :=
        (case k of
           EntryFile \<Rightarrow> (rt_content v)\<lparr>ct_entryFile := text_or_none t\<rparr>
         | EntryPath \<Rightarrow> (rt_content v)\<lparr>ct_entryPath := text_or_none t\<rparr>
         | Engine \<Rightarrow> (rt_content v)\<lparr>ct_engine := text_or_none t\<rparr>)\<rparr>"

definition updateCore :: "jsstr \<Rightarrow> core_options \<Rightarrow> runtime_config \<Rightarrow> runtime_config" where
  "updateCore coreId next' v =
     v\<lparr>rt_cores := Some (amap_put coreId next' (case rt_cores v of Some m \<Rightarrow> m | None \<Rightarrow> []))\<rparr>"

text \<open>The edits of the fields below the core; a ROM set of \<open>None\<close> is chosen by name again.\<close>

definition set_core_options :: "jsstr \<Rightarrow> option_values \<Rightarrow> runtime_config \<Rightarrow> runtime_config" where
  "set_core_options coreId os v = updateCore coreId ((core_settings coreId v)\<lparr>co_options := Some os\<rparr>) v"

definition set_rom_set :: "jsstr \<Rightarrow> jsstr option \<Rightarrow> runtime_config \<Rightarrow> runtime_config" where
  "set_rom_set coreId r v =
     updateCore coreId ((core_settings coreId v)\<lparr>co_romSet := (case r of Some s \<Rightarrow> text_or_none s | None \<Rightarrow> None)\<rparr>) v"

definition set_parent_files :: "jsstr \<Rightarrow> jsstr list \<Rightarrow> runtime_config \<Rightarrow> runtime_config" where
  "set_parent_files coreId fs v = updateCore coreId ((core_settings coreId v)\<lparr>co_parentFiles := Some fs\<rparr>) v"

definition runtimeSelectionChanged :: "runtime_config option \<Rightarrow> runtime_config \<Rightarrow> jsstr \<Rightarrow> bool" where
  "runtimeSelectionChanged saved current coreId =
     (case saved of
        None \<Rightarrow> False
      | Some s \<Rightarrow> ct_entryFile (rt_content s) \<noteq> ct_entryFile (rt_content current) \<or>
          co_romSet (core_settings coreId s) \<noteq> co_romSet (core_settings coreId current))"

text \<open>The binding of the chosen core decides about the fields: the key of the machine and of the overlay may be hidden.\<close>

definition shown_fields :: "bool \<Rightarrow> jsstr \<Rightarrow> bool \<Rightarrow> option_descriptor list \<Rightarrow> option_descriptor list" where
  "shown_fields romSetSelection kind hasLaunchOptions descriptors =
     filter (\<lambda>f. (\<not> romSetSelection \<or> od_key f \<noteq> js ''machine'') \<and>
       \<not> (kind = js ''KIRIKIRI_PROJECT'' \<and> hasLaunchOptions \<and> od_key f = js ''overlayRoot'')) descriptors"

text \<open>The files that may be chosen as parents; \<open>lower\<close> folds ASCII capitals.\<close>

definition parent_choices :: "(jsstr \<Rightarrow> jsstr) \<Rightarrow> jsstr option \<Rightarrow> jsstr list \<Rightarrow> jsstr list" where
  "parent_choices lower entryFile files = filter (\<lambda>f. Some f \<noteq> entryFile \<and> ends_with (lower f) (js ''.zip'')) files"

section \<open>The editor\<close>

text \<open>
  A candidate of ScummVM: its id, whether something blocks it, its options. \<open>ce_asked\<close> is the configuration and the core that the
  closure of a running identification saw.
\<close>

record candidate =
  cd_id :: jsstr
  cd_blocked :: bool
  cd_options :: option_values

record config_editor =
  ce_value :: runtime_config
  ce_coreId :: jsstr
  ce_candidates :: "candidate list option"
  ce_selected :: jsstr
  ce_asked :: "(runtime_config \<times> jsstr) option"

definition candidate_with :: "jsstr \<Rightarrow> candidate list option \<Rightarrow> candidate option" where
  "candidate_with i cs = (case cs of None \<Rightarrow> None | Some l \<Rightarrow> find (\<lambda>c. cd_id c = i) l)"

definition choose_candidate :: "jsstr \<Rightarrow> candidate list option \<Rightarrow> runtime_config \<times> jsstr \<Rightarrow> config_editor \<Rightarrow> config_editor" where
  "choose_candidate i cs seen s =
     (case candidate_with i cs of
        None \<Rightarrow> s
      | Some c \<Rightarrow>
          if cd_blocked c then s
          else s\<lparr>ce_selected := i, ce_value := set_core_options (snd seen) (cd_options c) (fst seen)\<rparr>)"

text \<open>Edits, and the answer of an identification: the candidates with the id of the automatic choice.\<close>

datatype config_event =
    EditContent content_key jsstr
  | ChangeCore jsstr
  | SetOption option_descriptor field_value
  | ChooseRomSet "jsstr option"
  | ChooseParents "jsstr list"
  | ChooseScheme runtime_config
  | Identify
  | Identified "(candidate list \<times> jsstr option) option"
  | ChooseCandidate jsstr

definition config_step :: "(jsstr \<Rightarrow> jsnum) \<Rightarrow> config_event \<Rightarrow> config_editor \<Rightarrow> config_editor" where
  "config_step number e s =
     (let v = ce_value s; c = ce_coreId s in
      case e of
        EditContent k t \<Rightarrow> s\<lparr>ce_value := edit_content k t v\<rparr>
      | ChangeCore c' \<Rightarrow> s\<lparr>ce_coreId := c'\<rparr>
      | SetOption f x \<Rightarrow> s\<lparr>ce_value := set_core_options c (put_option number f x (options_of (core_settings c v))) v\<rparr>
      | ChooseRomSet r \<Rightarrow> s\<lparr>ce_value := set_rom_set c r v\<rparr>
      | ChooseParents fs \<Rightarrow> s\<lparr>ce_value := set_parent_files c fs v\<rparr>
      | ChooseScheme v' \<Rightarrow> s\<lparr>ce_value := v'\<rparr>
      | Identify \<Rightarrow> if ce_asked s = None then s\<lparr>ce_asked := Some (v, c)\<rparr> else s
      | Identified answer \<Rightarrow>
          (case ce_asked s of
             None \<Rightarrow> s
           | Some seen \<Rightarrow>
               let s1 = s\<lparr>ce_asked := None\<rparr> in
               (case answer of
                  None \<Rightarrow> s1
                | Some (cs, automatic) \<Rightarrow>
                    let s2 = s1\<lparr>ce_candidates := Some cs\<rparr> in
                    (case automatic of
                       Some i \<Rightarrow> if i = [] then s2 else choose_candidate i (Some cs) seen s2
                     | None \<Rightarrow> s2)))
      | ChooseCandidate i \<Rightarrow> choose_candidate i (ce_candidates s) (v, c) s)"

section \<open>Searches in a list\<close>

text \<open>
  The keys of both search fields move the active entry between the first and the last and choose it; \<open>cb_text\<close> is what is typed.
\<close>

record combo_box =
  cb_open :: bool
  cb_text :: jsstr
  cb_active :: nat

datatype combo_key = EscapeKey | DownKey | UpKey | EnterKey

definition combo_close :: "combo_box \<Rightarrow> combo_box" where
  "combo_close b = b\<lparr>cb_open := False, cb_text := []\<rparr>"

definition combo_key_down :: "'a list \<Rightarrow> combo_key \<Rightarrow> combo_box \<Rightarrow> combo_box \<times> 'a option" where
  "combo_key_down entries k b =
     (case k of
        EscapeKey \<Rightarrow> (combo_close b, None)
      | DownKey \<Rightarrow> (b\<lparr>cb_open := True, cb_active := nat (max 0 (min (int (length entries) - 1) (int (cb_active b) + 1)))\<rparr>, None)
      | UpKey \<Rightarrow> (b\<lparr>cb_open := True, cb_active := nat (max 0 (min (int (length entries) - 1) (int (cb_active b) - 1)))\<rparr>, None)
      | EnterKey \<Rightarrow>
          if cb_open b \<and> cb_active b < length entries then (combo_close b, Some (entries ! cb_active b)) else (b, None))"

text \<open>\<open>dos-entry-selector.tsx\<close>: the programs whose path contains what is typed, after the entry of the core's own menu.\<close>

definition dos_options :: "(jsstr \<Rightarrow> jsstr) \<Rightarrow> jsstr \<Rightarrow> jsstr list option \<Rightarrow> jsstr \<Rightarrow> jsstr list" where
  "dos_options lower coreMenu entries q =
     filter (\<lambda>p. includes_str (lower (if p \<noteq> [] then p else coreMenu)) (lower q))
       ([] # (case entries of Some es \<Rightarrow> es | None \<Rightarrow> []))"

definition dos_invalid :: "jsstr list option \<Rightarrow> jsstr \<Rightarrow> bool" where
  "dos_invalid entries v \<longleftrightarrow> v \<noteq> [] \<and> (case entries of None \<Rightarrow> False | Some es \<Rightarrow> v \<notin> set es)"

text \<open>\<open>rom-set-selector.tsx\<close>: a page of the DAT with its digest, the selected set, its entries and their number.\<close>

record rom_page =
  rp_digest :: jsstr
  rp_selected :: "jsstr option"
  rp_entries :: "jsstr list"
  rp_total :: nat

text \<open>
  The page that was read last for the query, the offset and the value; another of them is another loader, whose data is not there
  yet (\<open>Resources\<close>). Two logs: the pages with the query they answered, and what was chosen with the text it was chosen for.
\<close>

record rom_search =
  rs_box :: combo_box
  rs_query :: jsstr
  rs_offset :: nat
  rs_value :: "jsstr option"
  rs_data :: "rom_page option"
  rs_answers :: "(jsstr \<times> rom_page) list"
  rs_picked :: "(jsstr \<times> jsstr) list"

definition rom_page_size :: nat where
  "rom_page_size = 30"

definition rom_initial :: "jsstr option \<Rightarrow> rom_search" where
  "rom_initial v =
     \<lparr>rs_box = \<lparr>cb_open = False, cb_text = [], cb_active = 0\<rparr>, rs_query = [], rs_offset = 0, rs_value = v, rs_data = None, rs_answers = [], rs_picked = []\<rparr>"

definition searchStatus :: "jsstr \<Rightarrow> rom_search \<Rightarrow> jsstr list \<times> bool \<times> bool" where
  "searchStatus digest s =
     (let mismatch = (case rs_data s of Some d \<Rightarrow> rp_digest d \<noteq> digest | None \<Rightarrow> False) in
      (if mismatch \<or> cb_text (rs_box s) \<noteq> rs_query s then [] else (case rs_data s of Some d \<Rightarrow> rp_entries d | None \<Rightarrow> []),
       rs_value s \<notin> {None, Some []} \<and> (case rs_data s of Some d \<Rightarrow> rp_selected d = None | None \<Rightarrow> False), mismatch))"

definition rom_look :: "jsstr \<Rightarrow> nat \<Rightarrow> jsstr option \<Rightarrow> rom_search \<Rightarrow> rom_search" where
  "rom_look q off v s =
     s\<lparr>rs_query := q, rs_offset := off, rs_value := v,
       rs_data := (if q = rs_query s \<and> off = rs_offset s \<and> v = rs_value s then rs_data s else None)\<rparr>"

definition rom_chosen :: "jsstr option \<Rightarrow> rom_search \<Rightarrow> rom_search" where
  "rom_chosen r s =
     (rom_look (rs_query s) (rs_offset s) r s)
       \<lparr>rs_box := combo_close (rs_box s), rs_picked := (case r of Some n \<Rightarrow> rs_picked s @ [(cb_text (rs_box s), n)] | None \<Rightarrow> rs_picked s)\<rparr>"

datatype rom_event =
    RomFocus
  | RomType jsstr
  | RomTimer
  | RomKey combo_key
  | RomClick nat
  | RomPage nat
  | RomBlur
  | RomRematch
  | RomAnswer rom_page

definition rom_step :: "jsstr \<Rightarrow> rom_event \<Rightarrow> rom_search \<Rightarrow> rom_search" where
  "rom_step digest e s =
     (let entries = fst (searchStatus digest s); b = rs_box s in
      case e of
        RomFocus \<Rightarrow> s\<lparr>rs_box := b\<lparr>cb_open := True, cb_text := [], cb_active := 0\<rparr>\<rparr>
      | RomType t \<Rightarrow> s\<lparr>rs_box := b\<lparr>cb_open := True, cb_text := t\<rparr>\<rparr>
      | RomTimer \<Rightarrow> (rom_look (cb_text b) 0 (rs_value s) s)\<lparr>rs_box := b\<lparr>cb_active := 0\<rparr>\<rparr>
      | RomKey k \<Rightarrow>
          (case combo_key_down entries k b of
             (b', None) \<Rightarrow> s\<lparr>rs_box := b'\<rparr>
           | (b', Some n) \<Rightarrow> rom_chosen (Some n) s)
      | RomClick i \<Rightarrow> if cb_open b \<and> i < length entries then rom_chosen (Some (entries ! i)) s else s
      | RomPage off \<Rightarrow> (rom_look (rs_query s) off (rs_value s) s)\<lparr>rs_box := b\<lparr>cb_active := 0\<rparr>\<rparr>
      | RomBlur \<Rightarrow> s\<lparr>rs_box := combo_close b\<rparr>
      | RomRematch \<Rightarrow> rom_chosen None s
      | RomAnswer d \<Rightarrow> s\<lparr>rs_data := Some d, rs_answers := rs_answers s @ [(rs_query s, d)]\<rparr>)"

section \<open>The request of the editor\<close>

definition optionalInteger :: "(jsstr \<Rightarrow> jsnum) \<Rightarrow> jsstr option \<Rightarrow> jsnum option" where
  "optionalInteger number v =
     (case v of None \<Rightarrow> None | Some t \<Rightarrow> if js_trim t = [] then None else Some (number t))"

definition optional_text :: "jsstr option \<Rightarrow> jsstr option" where
  "optional_text v = (case v of None \<Rightarrow> None | Some t \<Rightarrow> if js_trim t = [] then None else Some (js_trim t))"

text \<open>The request that \<open>submit\<close> sends, from the entries of the form and the state of the editor.\<close>

record game_write =
  gw_version :: nat
  gw_directory :: jsstr
  gw_title :: jsstr
  gw_sortName :: jsstr
  gw_texts :: "jsstr list"
  gw_players :: "jsstr option"
  gw_releaseYear :: "jsnum option"
  gw_tagIds :: "jsstr list"
  gw_runtimeConfig :: runtime_config

definition form_text :: "(jsstr \<Rightarrow> jsstr option) \<Rightarrow> string \<Rightarrow> jsstr" where
  "form_text form k = (case form (js k) of Some t \<Rightarrow> t | None \<Rightarrow> js ''null'')"

definition game_write_request :: "(jsstr \<Rightarrow> jsnum) \<Rightarrow> (jsstr \<Rightarrow> jsstr option) \<Rightarrow> nat \<Rightarrow> jsstr list \<Rightarrow> runtime_config \<Rightarrow> game_write" where
  "game_write_request number form version tags config =
     \<lparr>gw_version = version, gw_directory = form_text form ''directory'', gw_title = form_text form ''title'',
      gw_sortName = (case form (js ''sortName'') of Some t \<Rightarrow> js_trim t | None \<Rightarrow> []),
      gw_texts = map (form_text form) [''description'', ''developer'', ''publisher'', ''genre''],
      gw_players = optional_text (form (js ''players'')), gw_releaseYear = optionalInteger number (form (js ''releaseYear'')),
      gw_tagIds = tags, gw_runtimeConfig = config\<rparr>"

section \<open>A chosen ROM set was listed\<close>

text \<open>Everything chosen is an entry of a page that the server sent for the text that was typed.\<close>

definition picks_listed :: "rom_search \<Rightarrow> bool" where
  "picks_listed s \<longleftrightarrow> list_all (\<lambda>(t, n). list_ex (\<lambda>(q, d). q = t \<and> n \<in> set (rp_entries d)) (rs_answers s)) (rs_picked s)"

definition rom_ok :: "rom_search \<Rightarrow> bool" where
  "rom_ok s \<longleftrightarrow> picks_listed s \<and> (case rs_data s of None \<Rightarrow> True | Some d \<Rightarrow> (rs_query s, d) \<in> set (rs_answers s))"

lemma combo_choice: "combo_key_down entries k b = (b', Some n) \<Longrightarrow> n \<in> set entries"
  by (auto simp: combo_key_down_def split: combo_key.splits if_splits)

lemma listed_data:
  "n \<in> set (fst (searchStatus digest s)) \<Longrightarrow> \<exists>d. rs_data s = Some d \<and> n \<in> set (rp_entries d) \<and> cb_text (rs_box s) = rs_query s"
  by (auto simp: searchStatus_def Let_def split: if_splits option.splits)

lemma rom_look_ok: "rom_ok s \<Longrightarrow> rom_ok (rom_look q off v s)"
  by (auto simp: rom_ok_def rom_look_def picks_listed_def split: option.splits)

lemma rom_box_ok: "rom_ok s \<Longrightarrow> rom_ok (s\<lparr>rs_box := b\<rparr>)"
  by (simp add: rom_ok_def picks_listed_def split: option.splits)

lemma rom_chosen_ok:
  assumes "rom_ok s" "n \<in> set (fst (searchStatus digest s))"
  shows "rom_ok (rom_chosen (Some n) s)"
proof -
  obtain d where "rs_data s = Some d" "n \<in> set (rp_entries d)" "cb_text (rs_box s) = rs_query s"
    using listed_data [OF assms(2)] by blast
  then show ?thesis using assms(1)
    by (auto simp: rom_ok_def rom_chosen_def rom_look_def picks_listed_def list_ex_iff split: option.splits)
qed

lemma rom_ok_step: "rom_ok s \<Longrightarrow> rom_ok (rom_step digest e s)"
proof (cases e)
  case (RomKey k)
  assume "rom_ok s"
  then show ?thesis using RomKey
    by (auto simp: rom_step_def Let_def rom_box_ok split: prod.split option.split dest!: combo_choice intro: rom_chosen_ok)
next
  case RomRematch
  assume "rom_ok s"
  then show ?thesis using RomRematch
    by (auto simp: rom_step_def rom_chosen_def rom_look_def rom_ok_def picks_listed_def split: option.splits if_splits)
next
  case (RomAnswer d)
  assume "rom_ok s"
  then show ?thesis using RomAnswer
    by (auto simp: rom_step_def Let_def rom_ok_def picks_listed_def list_all_iff)
qed (auto simp: rom_step_def Let_def intro: rom_box_ok rom_look_ok rom_chosen_ok nth_mem)

text \<open>A ROM set is only chosen from entries that the server listed for the text that is typed, whatever was typed and paged meanwhile.\<close>

theorem chosen_set_was_listed:
  "picks_listed (fold (rom_step digest) es (rom_initial v))"
proof -
  have "rom_ok (fold (rom_step digest) es s)" if "rom_ok s" for s
    using that by (induction es arbitrary: s) (simp_all add: rom_ok_step)
  moreover have "rom_ok (rom_initial v)" by (simp add: rom_ok_def rom_initial_def picks_listed_def)
  ultimately show ?thesis by (simp add: rom_ok_def)
qed

section \<open>Edits keep what they do not name\<close>

definition stored_option :: "jsstr \<Rightarrow> jsstr \<Rightarrow> runtime_config \<Rightarrow> jval option" where
  "stored_option coreId k v = map_of (options_of (core_settings coreId v)) k"

lemma core_settings_update: "core_settings c (updateCore c' o' v) = (if c = c' then o' else core_settings c v)"
  by (simp add: core_settings_def updateCore_def split: option.split)

lemma content_keeps_options: "stored_option c k (edit_content ck t v) = stored_option c k v"
  by (simp add: stored_option_def edit_content_def core_settings_def)

lemma core_edits_keep_options:
  "stored_option c k (set_rom_set c' r v) = stored_option c k v"
  "stored_option c k (set_parent_files c' fs v) = stored_option c k v"
  by (simp_all add: stored_option_def set_rom_set_def set_parent_files_def core_settings_update options_of_def)

text \<open>
  An option that was set is the one that is stored, and every edit made in place, of whatever field, leaves all other options of
  all cores as they are.
\<close>

theorem edit_changes_one_option:
  assumes "e \<in> {EditContent ck t, ChangeCore c', SetOption f x, ChooseRomSet r, ChooseParents fs, Identify}"
  shows "stored_option c k (ce_value (config_step number e s)) =
    (if e = SetOption f x \<and> c = ce_coreId s \<and> k = od_key f
     then map_of (put_option number f x []) k else stored_option c k (ce_value s))"
proof -
  have put: "map_of (put_option number f x m) (od_key f) = map_of (put_option number f x []) (od_key f)"
    "k \<noteq> od_key f \<Longrightarrow> map_of (put_option number f x m) k = map_of m k" for m
    by (simp_all add: put_option_def amap_get_del split: field_value.split)
  have "stored_option c k (set_core_options c' (put_option number f x (options_of (core_settings c' v))) v) =
    (if c = c' \<and> k = od_key f then map_of (put_option number f x []) k else stored_option c k v)" for c' v
    using put by (simp add: stored_option_def set_core_options_def core_settings_update options_of_def)
  then show ?thesis using assms
    by (auto simp: config_step_def Let_def content_keeps_options core_edits_keep_options)
qed

theorem edit_changes_one_option_witness:
  "let f = \<lparr>od_key = js ''gameId'', od_label = [], od_type = jstr ''string'', od_required = True, od_choices = [], od_minimum = None, od_maximum = None\<rparr>;
       v = \<lparr>rt_content = \<lparr>ct_kind = js ''SCUMMVM_PROJECT'', ct_engine = None, ct_entryFile = None, ct_entryPath = None\<rparr>, rt_cores = None\<rparr>;
       s = \<lparr>ce_value = v, ce_coreId = js ''scummvm'', ce_candidates = None, ce_selected = [], ce_asked = None\<rparr> in
   stored_option (js ''scummvm'') (js ''gameId'') (ce_value (config_step (\<lambda>_. NaN) (SetOption f (FieldText (js ''monkey''))) s)) = Some (jstr ''monkey'')"
  unfolding Let_def
  by (subst edit_changes_one_option [where ck = EntryFile and t = "[]" and c' = "[]" and r = None and fs = "[]", OF insertI2 [OF insertI2 [OF insertI1]]])
    (simp add: put_option_def jstr_def js_def)

text \<open>
  An identification fills in the configuration that it saw when it began: what was set meanwhile, here an option of another core, is
  lost when its answer chooses a game by itself.
\<close>

definition example_field :: "string \<Rightarrow> option_descriptor" where
  "example_field k =
     \<lparr>od_key = js k, od_label = js k, od_type = jstr ''string'', od_required = False, od_choices = [], od_minimum = None, od_maximum = None\<rparr>"

definition example_editor :: config_editor where
  "example_editor =
     \<lparr>ce_value = \<lparr>rt_content = \<lparr>ct_kind = js ''SCUMMVM_PROJECT'', ct_engine = None, ct_entryFile = None, ct_entryPath = None\<rparr>, rt_cores = None\<rparr>,
      ce_coreId = js ''a'', ce_candidates = None, ce_selected = [], ce_asked = None\<rparr>"

lemma identification_drops_edits:
  "let s = fold (config_step number)
       [Identify, ChangeCore (js ''b''), SetOption (example_field ''language'') (FieldText (js ''de''))] example_editor;
     s' = config_step number (Identified (Some ([\<lparr>cd_id = js ''m'', cd_blocked = False, cd_options = []\<rparr>], Some (js ''m'')))) s in
   stored_option (js ''b'') (js ''language'') (ce_value s) = Some (jstr ''de'') \<and>
   stored_option (js ''b'') (js ''language'') (ce_value s') = None"
  by (simp add: config_step_def example_editor_def example_field_def Let_def stored_option_def core_settings_def options_of_def set_core_options_def
      updateCore_def put_option_def choose_candidate_def candidate_with_def no_core_options_def js_def jstr_def)

section \<open>Lists of texts\<close>

text \<open>
  A field of texts that is left shows one item to a line, and entering what it shows stores the same items; a text area gives
  no carriage returns.
\<close>

theorem shown_items_are_stored:
  assumes "13 \<notin> set t" "od_type f = jstr ''string-array''"
    and "map_of (put_option number f (FieldText t) m) (od_key f) = Some v" "shown_items None (Some v) \<noteq> []"
  shows "map_of (put_option number f (FieldText (shown_items None (Some v))) m') (od_key f) = Some v"
proof -
  have plain: "text_lines u = split_on 10 u" if "13 \<notin> set u" for u
  proof -
    have "drop_return l = l" if "l \<in> set (split_on 10 u)" for l
      using split_on_units [OF that] \<open>13 \<notin> set u\<close> last_in_set by (fastforce simp: drop_return_def)
    then have "map drop_return (butlast (split_on 10 u)) = butlast (split_on 10 u)"
      by (auto intro!: map_idI dest: in_set_butlastD)
    then show ?thesis by (simp add: text_lines_def Let_def)
  qed
  define items where "items = filter (\<lambda>i. i \<noteq> []) (split_on 10 t)"
  have t: "t \<noteq> []" using assms(3) by (auto simp: put_option_def amap_get_del)
  then have v: "v = JArr (map JStr items)" using assms(1-3) by (simp add: put_option_def plain items_def)
  then have u: "shown_items None (Some v) = join_with [10] items" by (simp add: shown_items_def item_text_def comp_def)
  then have "items \<noteq> []" using assms(4) by auto
  moreover have "\<forall>w \<in> set items. 10 \<notin> set w" by (auto simp: items_def dest: split_on_no_sep)
  ultimately have "split_on 10 (join_with [10] items) = items" by (rule split_join)
  moreover have "13 \<notin> set (join_with [10] items)"
    using assms(1) split_on_units [of _ 10 t 13] by (auto dest!: join_units simp: items_def)
  ultimately show ?thesis using assms(2,4) u v by (simp add: put_option_def plain items_def)
qed

theorem shown_items_are_stored_witness:
  "let f = (example_field ''extra'')\<lparr>od_type := jstr ''string-array''\<rparr>; v = JArr [JStr [97], JStr [98]] in
   map_of (put_option (\<lambda>_. NaN) f (FieldText (shown_items None (Some v))) []) (od_key f) = Some v"
  unfolding Let_def
  by (rule shown_items_are_stored [where t = "[97, 10, 10, 98]" and m = "[]"])
    (simp_all add: put_option_def text_lines_def drop_return_def shown_items_def item_text_def)

end
