(* ===== verification/Favorites.thy ===== *)
theory Favorites
  imports Library_Query "HOL-Library.Multiset"
begin

text \<open>
  The favorites of a user (\<open>web/features/favorites/\<close>): the library with its selection and its batches
  (\<open>favorite-library.tsx\<close>), the dialogue that files games into folders (\<open>favorite-collection-dialog.tsx\<close>), the folders
  (\<open>folder-manager.tsx\<close>) and the panel that floats (\<open>floating-folder-panel.tsx\<close>). A game is its id; the server keeps the folders
  of each favorite, and every request reaches it on its own.
\<close>

section \<open>The server\<close>

text \<open>The folders of each favorite; a request removes a game or files it into folders.\<close>

type_synonym favorites = "(jsstr, jsstr list) amap"

datatype favorite_call = Unfavorite jsstr | FileInto jsstr "jsstr list"

definition apply_call :: "favorite_call \<Rightarrow> favorites \<Rightarrow> favorites" where
  "apply_call c m = (case c of Unfavorite g \<Rightarrow> amap_del g m | FileInto g fs \<Rightarrow> amap_put g fs m)"

section \<open>The library\<close>

text \<open>What \<open>Promise.all\<close> of a batch waits for: the requests on their way, and whether one of them has failed.\<close>

datatype batch_kind = RemoveGames | ClearFolders | SaveFolders

record batch =
  bt_kind :: batch_kind
  bt_calls :: "favorite_call list"
  bt_open :: "favorite_call list"
  bt_settled :: bool

text \<open>A notice names the batch that it reports, by its number.\<close>

datatype favorite_notice = BatchDone nat | BatchFailed nat

text \<open>
  \<open>fl_organizing\<close> is the dialogue with the games it files, and, once they are loaded, the folders each of them is in and the
  folders that are checked. \<open>fl_applied\<close> logs the requests that succeeded, with the number of their batch.
\<close>

record collection_dialog =
  cl_ids :: "jsstr list"
  cl_details :: "(jsstr \<times> jsstr list) list option"
  cl_checked :: "jsstr list"
  cl_busy :: bool

record favorite_library =
  fl_query :: jsstr
  fl_folder :: jsstr
  fl_sort :: list_sort
  fl_selecting :: bool
  fl_selected :: "jsstr list"
  fl_organizing :: "collection_dialog option"
  fl_removing :: "jsstr list option"
  fl_busy :: bool
  fl_revision :: nat
  fl_reloads :: nat
  fl_batches :: "batch list"
  fl_notices :: "favorite_notice list"
  fl_applied :: "(nat \<times> favorite_call) list"
  fl_server :: favorites

definition favorites_initial :: "list_filters \<Rightarrow> favorites \<Rightarrow> favorite_library" where
  "favorites_initial i m =
     \<lparr>fl_query = or_empty (lf_q i), fl_folder = or_empty (lf_folderId i), fl_sort = ByRecent, fl_selecting = False, fl_selected = [],
      fl_organizing = None, fl_removing = None, fl_busy = False, fl_revision = 0, fl_reloads = 0, fl_batches = [], fl_notices = [], fl_applied = [],
      fl_server = m\<rparr>"

text \<open>The page that the loader asks for.\<close>

definition favorites_query :: "favorite_library \<Rightarrow> nat \<Rightarrow> nat \<Rightarrow> game_query" where
  "favorites_query s offset limit =
     \<lparr>gq_q = fl_query s, gq_platformInstanceId = None, gq_platformId = None, gq_tagId = None,
      gq_folderId = fst (folder_query (fl_folder s)), gq_unclassified = snd (folder_query (fl_folder s)),
      gq_offset = Fin (of_nat offset), gq_limit = limit, gq_sort = Some (fl_sort s)\<rparr>"

definition favorites_changed :: "favorite_library \<Rightarrow> favorite_library" where
  "favorites_changed s =
     s\<lparr>fl_reloads := fl_reloads s + 1, fl_revision := fl_revision s + 1, fl_selected := [], fl_selecting := False,
       fl_organizing := None, fl_removing := None\<rparr>"

text \<open>\<open>filter\<close>: the parameters of the address; the selection is dropped.\<close>

definition favorites_address :: "jsstr option \<Rightarrow> jsstr option \<Rightarrow> favorite_library \<Rightarrow> (jsstr \<times> jsstr) list" where
  "favorites_address q folder s =
     filter (\<lambda>(k, v). v \<noteq> [])
       [(js ''q'', case q of Some t \<Rightarrow> t | None \<Rightarrow> fl_query s), (js ''folderId'', case folder of Some f \<Rightarrow> f | None \<Rightarrow> fl_folder s)]"

definition choose_game :: "jsstr \<Rightarrow> favorite_library \<Rightarrow> favorite_library" where
  "choose_game g s =
     s\<lparr>fl_selected := (if g \<in> set (fl_selected s) then filter (\<lambda>x. x \<noteq> g) (fl_selected s) else fl_selected s @ [g])\<rparr>"

definition send_batch :: "batch_kind \<Rightarrow> favorite_call list \<Rightarrow> favorite_library \<Rightarrow> favorite_library" where
  "send_batch k cs s =
     s\<lparr>fl_batches := fl_batches s @ [\<lparr>bt_kind = k, bt_calls = cs, bt_open = cs, bt_settled = False\<rparr>]\<rparr>"

definition remove_games :: "jsstr list \<Rightarrow> favorite_library \<Rightarrow> favorite_library" where
  "remove_games ids s = send_batch RemoveGames (map Unfavorite ids) (s\<lparr>fl_busy := True\<rparr>)"

definition clearFolders :: "favorite_library \<Rightarrow> favorite_library" where
  "clearFolders s = send_batch ClearFolders (map (\<lambda>g. FileInto g []) (fl_selected s)) (s\<lparr>fl_busy := True\<rparr>)"

text \<open>\<open>save\<close> of the dialogue: one game gets exactly the checked folders, several games get them on top of their own.\<close>

definition folders_to_save :: "nat \<Rightarrow> jsstr list \<Rightarrow> jsstr list \<Rightarrow> jsstr list" where
  "folders_to_save n checked own = (if n = 1 then checked else rev (remdups (rev (own @ checked))))"

definition save_collection :: "collection_dialog \<Rightarrow> (jsstr \<times> jsstr list) list \<Rightarrow> favorite_call list" where
  "save_collection d details = map (\<lambda>(g, own). FileInto g (folders_to_save (length (cl_ids d)) (cl_checked d) own)) details"

definition organize :: "jsstr list \<Rightarrow> favorite_library \<Rightarrow> favorite_library" where
  "organize ids s = s\<lparr>fl_organizing := Some \<lparr>cl_ids = ids, cl_details = None, cl_checked = [], cl_busy = False\<rparr>\<rparr>"

text \<open>The folders and the games of the dialogue are loaded; for one game its folders are checked.\<close>

definition details_loaded :: "(jsstr \<times> jsstr list) list \<Rightarrow> favorite_library \<Rightarrow> favorite_library" where
  "details_loaded ds s =
     (case fl_organizing s of
        Some d \<Rightarrow>
          if cl_details d = None \<and> map fst ds = cl_ids d
          then s\<lparr>fl_organizing := Some (d\<lparr>cl_details := Some ds, cl_checked := (if length (cl_ids d) = 1 then snd (hd ds) else [])\<rparr>)\<rparr>
          else s
      | None \<Rightarrow> s)"

definition check_folder :: "jsstr \<Rightarrow> bool \<Rightarrow> favorite_library \<Rightarrow> favorite_library" where
  "check_folder f on s =
     (case fl_organizing s of
        Some d \<Rightarrow> s\<lparr>fl_organizing := Some (d\<lparr>cl_checked := (if on then cl_checked d @ [f] else filter (\<lambda>x. x \<noteq> f) (cl_checked d))\<rparr>)\<rparr>
      | None \<Rightarrow> s)"

definition collection_saved :: "favorite_library \<Rightarrow> favorite_library" where
  "collection_saved s =
     (case fl_organizing s of
        Some d \<Rightarrow>
          (case cl_details d of
             Some ds \<Rightarrow> if cl_busy d then s
               else send_batch SaveFolders (save_collection d ds) (s\<lparr>fl_organizing := Some (d\<lparr>cl_busy := True\<rparr>)\<rparr>)
           | None \<Rightarrow> s)
      | None \<Rightarrow> s)"

text \<open>
  The end of \<open>Promise.all\<close>: at the first failure, or when every request has succeeded. What is still on its way then is
  not waited for, but reaches the server all the same.
\<close>

definition dialog_free :: "favorite_library \<Rightarrow> favorite_library" where
  "dialog_free s = s\<lparr>fl_organizing := map_option (\<lambda>d. d\<lparr>cl_busy := False\<rparr>) (fl_organizing s)\<rparr>"

definition batch_succeeds :: "nat \<Rightarrow> batch \<Rightarrow> favorite_library \<Rightarrow> favorite_library" where
  "batch_succeeds k b s =
     (let s1 = favorites_changed (s\<lparr>fl_notices := fl_notices s @ [BatchDone k]\<rparr>) in
      if bt_kind b = SaveFolders then s1 else s1\<lparr>fl_busy := False\<rparr>)"

definition batch_fails :: "nat \<Rightarrow> batch \<Rightarrow> favorite_library \<Rightarrow> favorite_library" where
  "batch_fails k b s =
     (let s1 = s\<lparr>fl_notices := fl_notices s @ [BatchFailed k]\<rparr> in
      if bt_kind b = SaveFolders then dialog_free s1
      else s1\<lparr>fl_reloads := fl_reloads s1 + 1, fl_busy := False\<rparr>)"

definition call_answered :: "nat \<Rightarrow> nat \<Rightarrow> bool \<Rightarrow> favorite_library \<Rightarrow> favorite_library" where
  "call_answered k j ok s =
     (if length (fl_batches s) \<le> k then s
      else let b = fl_batches s ! k in
      if length (bt_open b) \<le> j then s
      else let b1 = b\<lparr>bt_open := remove_at j (bt_open b), bt_settled := bt_settled b \<or> \<not> ok \<or> remove_at j (bt_open b) = []\<rparr>;
               s1 = s\<lparr>fl_batches := (fl_batches s)[k := b1],
                      fl_server := (if ok then apply_call (bt_open b ! j) (fl_server s) else fl_server s),
                      fl_applied := (if ok then fl_applied s @ [(k, bt_open b ! j)] else fl_applied s)\<rparr> in
      if bt_settled b then s1
      else if \<not> ok then batch_fails k b1 s1
      else if bt_open b1 = [] then batch_succeeds k b1 s1
      else s1)"

text \<open>An empty batch ends at once.\<close>

definition empty_batch_ends :: "nat \<Rightarrow> favorite_library \<Rightarrow> favorite_library" where
  "empty_batch_ends k s =
     (if length (fl_batches s) \<le> k then s
      else let b = fl_batches s ! k in
      if bt_calls b \<noteq> [] \<or> bt_settled b then s
      else batch_succeeds k b (s\<lparr>fl_batches := (fl_batches s)[k := b\<lparr>bt_settled := True\<rparr>]\<rparr>))"

datatype favorite_event =
    TypeQuery jsstr
  | SelectFolder jsstr
  | ChangeSort list_sort
  | ToggleSelecting
  | ChooseGame jsstr
  | ChooseLoaded "jsstr list"
  | OrganizeOne jsstr
  | OrganizeSelected
  | RemoveOne jsstr
  | AskRemove
  | ConfirmRemove
  | CancelRemove
  | ClearSelected
  | DetailsLoaded "(jsstr \<times> jsstr list) list"
  | CheckFolder jsstr bool
  | SaveCollection
  | CloseCollection
  | CallAnswered nat nat bool
  | EmptyBatchEnds nat

text \<open>The buttons of a batch are enabled while games are selected and nothing is busy.\<close>

definition batch_enabled :: "favorite_library \<Rightarrow> bool" where
  "batch_enabled s \<longleftrightarrow> fl_selecting s \<and> fl_selected s \<noteq> [] \<and> \<not> fl_busy s"

definition favorite_step :: "favorite_event \<Rightarrow> favorite_library \<Rightarrow> favorite_library" where
  "favorite_step e s =
     (case e of
        TypeQuery q \<Rightarrow> s\<lparr>fl_query := q, fl_selected := []\<rparr>
      | SelectFolder f \<Rightarrow> s\<lparr>fl_folder := f, fl_selected := []\<rparr>
      | ChangeSort o' \<Rightarrow> s\<lparr>fl_sort := o', fl_selected := []\<rparr>
      | ToggleSelecting \<Rightarrow> s\<lparr>fl_selecting := \<not> fl_selecting s, fl_selected := []\<rparr>
      | ChooseGame g \<Rightarrow> choose_game g s
      | ChooseLoaded gs \<Rightarrow> s\<lparr>fl_selected := gs\<rparr>
      | OrganizeOne g \<Rightarrow> organize [g] s
      | OrganizeSelected \<Rightarrow> if batch_enabled s then organize (fl_selected s) s else s
      | RemoveOne g \<Rightarrow> remove_games [g] s
      | AskRemove \<Rightarrow> if batch_enabled s then s\<lparr>fl_removing := Some (fl_selected s)\<rparr> else s
      | ConfirmRemove \<Rightarrow> (case fl_removing s of Some ids \<Rightarrow> if fl_busy s then s else remove_games ids s | None \<Rightarrow> s)
      | CancelRemove \<Rightarrow> if fl_busy s then s else s\<lparr>fl_removing := None\<rparr>
      | ClearSelected \<Rightarrow> if batch_enabled s then clearFolders s else s
      | DetailsLoaded ds \<Rightarrow> details_loaded ds s
      | CheckFolder f on \<Rightarrow> check_folder f on s
      | SaveCollection \<Rightarrow> collection_saved s
      | CloseCollection \<Rightarrow>
          (case fl_organizing s of Some d \<Rightarrow> if cl_busy d then s else s\<lparr>fl_organizing := None\<rparr> | None \<Rightarrow> s)
      | CallAnswered k j ok \<Rightarrow> call_answered k j ok s
      | EmptyBatchEnds k \<Rightarrow> empty_batch_ends k s)"

section \<open>Folders\<close>

text \<open>A folder is its id, its name and its version; \<open>fm_editing\<close> is \<open>Some None\<close> for a new one.\<close>

type_synonym folder = "jsstr \<times> jsstr \<times> nat"

datatype folder_request = CreateFolder jsstr | RenameFolder jsstr jsstr nat | DeleteFolder jsstr

record folder_manager =
  fm_editing :: "folder option option"
  fm_deleting :: "folder option"
  fm_name :: jsstr
  fm_busy :: bool
  fm_sent :: "folder_request list"
  fm_selected :: jsstr
  fm_reloads :: nat

definition edit_folder :: "folder option \<Rightarrow> folder_manager \<Rightarrow> folder_manager" where
  "edit_folder f m = m\<lparr>fm_name := (case f of Some (i, n, v) \<Rightarrow> n | None \<Rightarrow> []), fm_editing := Some f\<rparr>"

text \<open>The button of the dialogue is enabled while the trimmed name is not empty and nothing is busy.\<close>

definition save_folder :: "folder_manager \<Rightarrow> folder_manager" where
  "save_folder m =
     (case fm_editing m of
        None \<Rightarrow> m
      | Some f \<Rightarrow>
          if fm_busy m \<or> js_trim (fm_name m) = [] then m
          else m\<lparr>fm_busy := True,
             fm_sent := fm_sent m @
               [case f of None \<Rightarrow> CreateFolder (js_trim (fm_name m)) | Some (i, n, v) \<Rightarrow> RenameFolder i (js_trim (fm_name m)) v]\<rparr>)"

definition remove_folder :: "folder_manager \<Rightarrow> folder_manager" where
  "remove_folder m =
     (case fm_deleting m of
        None \<Rightarrow> m
      | Some (i, n, v) \<Rightarrow> if fm_busy m then m else m\<lparr>fm_busy := True, fm_sent := fm_sent m @ [DeleteFolder i]\<rparr>)"

definition folder_saved :: "bool \<Rightarrow> folder_manager \<Rightarrow> folder_manager" where
  "folder_saved ok m = (if ok then m\<lparr>fm_editing := None, fm_reloads := fm_reloads m + 1\<rparr> else m)\<lparr>fm_busy := False\<rparr>"

definition folder_removed :: "bool \<Rightarrow> folder_manager \<Rightarrow> folder_manager" where
  "folder_removed ok m =
     (if ok then m\<lparr>fm_deleting := None, fm_selected := [], fm_reloads := fm_reloads m + 1\<rparr> else m)\<lparr>fm_busy := False\<rparr>"

section \<open>The floating panel\<close>

text \<open>Sizes and positions in pixels.\<close>

record panel_bounds =
  pb_left :: rat
  pb_top :: rat
  pb_width :: rat
  pb_height :: rat

record floating_panel =
  pl_drag :: "(rat \<times> rat \<times> rat \<times> rat) option"
  pl_position :: "(rat \<times> rat) option"
  pl_collapsed :: bool

definition panel_move :: "rat \<times> rat \<Rightarrow> panel_bounds option \<Rightarrow> rat \<Rightarrow> rat \<Rightarrow> floating_panel \<Rightarrow> floating_panel" where
  "panel_move screen_size bounds x y p =
     (case bounds of
        None \<Rightarrow> p
      | Some b \<Rightarrow>
          p\<lparr>pl_position := Some (max 8 (min (fst screen_size - pb_width b - 8) x), max 8 (min (snd screen_size - pb_height b - 8) y))\<rparr>)"

definition panel_begin :: "panel_bounds option \<Rightarrow> rat \<Rightarrow> rat \<Rightarrow> floating_panel \<Rightarrow> floating_panel" where
  "panel_begin bounds x y p =
     (case bounds of None \<Rightarrow> p | Some b \<Rightarrow> p\<lparr>pl_drag := Some (x, y, pb_left b, pb_top b)\<rparr>)"

definition panel_update :: "rat \<times> rat \<Rightarrow> panel_bounds option \<Rightarrow> rat \<Rightarrow> rat \<Rightarrow> floating_panel \<Rightarrow> floating_panel" where
  "panel_update screen_size bounds x y p =
     (case pl_drag p of None \<Rightarrow> p | Some (x0, y0, l, t) \<Rightarrow> panel_move screen_size bounds (l + x - x0) (t + y - y0) p)"

datatype arrow_key = ArrowLeft | ArrowRight | ArrowUp | ArrowDown

definition arrow_delta :: "arrow_key \<Rightarrow> rat \<times> rat" where
  "arrow_delta k =
     (case k of ArrowLeft \<Rightarrow> (-20, 0) | ArrowRight \<Rightarrow> (20, 0) | ArrowUp \<Rightarrow> (0, -20) | ArrowDown \<Rightarrow> (0, 20))"

definition panel_key :: "rat \<times> rat \<Rightarrow> panel_bounds option \<Rightarrow> arrow_key option \<Rightarrow> floating_panel \<Rightarrow> floating_panel" where
  "panel_key screen_size bounds key p =
     (case (key, bounds) of
        (Some k, Some b) \<Rightarrow> panel_move screen_size bounds (pb_left b + fst (arrow_delta k)) (pb_top b + snd (arrow_delta k)) p
      | _ \<Rightarrow> p)"

section \<open>What is reported was done\<close>

definition applied_of :: "nat \<Rightarrow> favorite_library \<Rightarrow> favorite_call list" where
  "applied_of k s = map snd (filter (\<lambda>p. fst p = k) (fl_applied s))"

definition notices_of :: "nat \<Rightarrow> favorite_library \<Rightarrow> favorite_notice list" where
  "notices_of k s = filter (\<lambda>n. n \<in> {BatchDone k, BatchFailed k}) (fl_notices s)"

text \<open>A batch reports once: success when all its requests were applied, or failure; before that its requests are applied or on their way.\<close>

definition batch_ok :: "nat \<Rightarrow> favorite_library \<Rightarrow> batch \<Rightarrow> bool" where
  "batch_ok k s b \<longleftrightarrow>
     (if bt_settled b
      then notices_of k s = [BatchDone k] \<and> mset (applied_of k s) = mset (bt_calls b) \<and> bt_open b = [] \<or> notices_of k s = [BatchFailed k]
      else notices_of k s = [] \<and> mset (applied_of k s) + mset (bt_open b) = mset (bt_calls b))"

definition batches_ok :: "favorite_library \<Rightarrow> bool" where
  "batches_ok s \<longleftrightarrow>
     (\<forall>k. if k < length (fl_batches s) then batch_ok k s (fl_batches s ! k) else applied_of k s = [] \<and> notices_of k s = [])"

lemma logs_same:
  "fl_applied s' = fl_applied s \<Longrightarrow> applied_of k s' = applied_of k s"
  "fl_notices s' = fl_notices s \<Longrightarrow> notices_of k s' = notices_of k s"
  by (simp_all add: applied_of_def notices_of_def)

lemma batch_ok_logs: "fl_applied s' = fl_applied s \<Longrightarrow> fl_notices s' = fl_notices s \<Longrightarrow> batch_ok k s' b = batch_ok k s b"
  by (simp add: batch_ok_def logs_same [of s' s])

lemma batches_same:
  "batches_ok s \<Longrightarrow> fl_batches s' = fl_batches s \<Longrightarrow> fl_applied s' = fl_applied s \<Longrightarrow> fl_notices s' = fl_notices s \<Longrightarrow> batches_ok s'"
  by (simp add: batches_ok_def batch_ok_logs [of s' s] logs_same [of s' s])

lemma send_ok:
  assumes "batches_ok s"
  shows "batches_ok (send_batch k cs s)"
proof -
  let ?s = "send_batch k cs s"
  let ?b = "\<lparr>bt_kind = k, bt_calls = cs, bt_open = cs, bt_settled = False\<rparr>"
  have l: "fl_applied ?s = fl_applied s" "fl_notices ?s = fl_notices s" "fl_batches ?s = fl_batches s @ [?b]" by (simp_all add: send_batch_def)
  have "applied_of (length (fl_batches s)) s = [] \<and> notices_of (length (fl_batches s)) s = []"
    using assms by (auto simp: batches_ok_def dest: spec [of _ "length (fl_batches s)"])
  then have "batch_ok (length (fl_batches s)) s ?b" by (simp add: batch_ok_def)
  then show ?thesis using assms
    by (simp add: batches_ok_def batch_ok_logs [of ?s s] logs_same [of ?s s] l nth_append) (metis less_SucE less_Suc_eq)
qed

lemma mset_remove_at: "j < length xs \<Longrightarrow> add_mset (xs ! j) (mset (remove_at j xs)) = mset xs"
proof -
  assume "j < length xs"
  then have "xs = take j xs @ xs ! j # drop (Suc j) xs" by (rule id_take_nth_drop)
  then have "mset xs = mset (take j xs) + mset (xs ! j # drop (Suc j) xs)" by (metis mset_append)
  then show ?thesis by (simp add: remove_at_def)
qed

lemma reports_simps [simp]:
  "fl_batches (batch_succeeds k b s) = fl_batches s" "fl_applied (batch_succeeds k b s) = fl_applied s"
  "fl_notices (batch_succeeds k b s) = fl_notices s @ [BatchDone k]"
  "fl_batches (batch_fails k b s) = fl_batches s" "fl_applied (batch_fails k b s) = fl_applied s"
  "fl_notices (batch_fails k b s) = fl_notices s @ [BatchFailed k]"
  by (simp_all add: batch_succeeds_def batch_fails_def favorites_changed_def dialog_free_def Let_def)

text \<open>One batch changes, the others are left as they are.\<close>

lemma batch_changes:
  assumes "batches_ok s" "k < length (fl_batches s)" "fl_batches s' = (fl_batches s)[k := b]" "batch_ok k s' b"
    and "\<And>i. i \<noteq> k \<Longrightarrow> applied_of i s' = applied_of i s \<and> notices_of i s' = notices_of i s"
  shows "batches_ok s'"
  unfolding batches_ok_def
proof
  fix i
  show "if i < length (fl_batches s') then batch_ok i s' (fl_batches s' ! i) else applied_of i s' = [] \<and> notices_of i s' = []"
    using assms(1) assms(2-4) assms(5) [of i] by (cases "i = k") (auto simp: batches_ok_def batch_ok_def split: if_splits)
qed

lemma answered_batches_ok:
  assumes "batches_ok s"
  shows "batches_ok (call_answered k j ok s)"
proof (cases "k < length (fl_batches s) \<and> j < length (bt_open (fl_batches s ! k))")
  case False
  then show ?thesis using assms by (auto simp: call_answered_def Let_def)
next
  case True
  let ?b = "fl_batches s ! k"
  define t where "t = call_answered k j ok s"
  let ?o = "remove_at j (bt_open ?b)"
  let ?b1 = "?b\<lparr>bt_open := ?o, bt_settled := bt_settled ?b \<or> \<not> ok \<or> ?o = []\<rparr>"
  have b: "batch_ok k s ?b" using assms True by (auto simp: batches_ok_def)
  have m: "add_mset (bt_open ?b ! j) (mset ?o) = mset (bt_open ?b)" using True by (simp add: mset_remove_at)
  have ch: "fl_batches t = (fl_batches s)[k := ?b1]" "fl_applied t = fl_applied s @ (if ok then [(k, bt_open ?b ! j)] else [])"
    "fl_notices t = fl_notices s @ (if bt_settled ?b then [] else if \<not> ok then [BatchFailed k] else if ?o = [] then [BatchDone k] else [])"
    using True by (auto simp: t_def call_answered_def Let_def)
  have l: "applied_of k t = applied_of k s @ (if ok then [bt_open ?b ! j] else [])"
    "notices_of k t = notices_of k s @ (if bt_settled ?b then [] else if \<not> ok then [BatchFailed k] else if ?o = [] then [BatchDone k] else [])"
    unfolding applied_of_def notices_of_def ch by simp_all
  have n: "bt_open ?b \<noteq> []" using True by auto
  have "batch_ok k t ?b1"
  proof (cases "bt_settled ?b")
    case True
    then show ?thesis using b n by (simp add: batch_ok_def l)
  next
    case False
    then have "notices_of k s = []" "mset (applied_of k s) + mset (bt_open ?b) = mset (bt_calls ?b)" using b by (simp_all add: batch_ok_def)
    then show ?thesis using False by (auto simp: batch_ok_def l m [symmetric])
  qed
  moreover have "applied_of i t = applied_of i s \<and> notices_of i t = notices_of i s" if "i \<noteq> k" for i
    using that by (simp add: applied_of_def notices_of_def ch)
  ultimately show ?thesis using True unfolding t_def [symmetric] by (intro batch_changes [OF assms _ ch(1)]) auto
qed

lemma empty_ends_ok:
  assumes "batches_ok s"
  shows "batches_ok (empty_batch_ends k s)"
proof (cases "k < length (fl_batches s) \<and> bt_calls (fl_batches s ! k) = [] \<and> \<not> bt_settled (fl_batches s ! k)")
  case True
  let ?b = "fl_batches s ! k" and ?s = "empty_batch_ends k s"
  have b: "batch_ok k s ?b" using assms True by (auto simp: batches_ok_def)
  have ch: "fl_batches ?s = (fl_batches s)[k := ?b\<lparr>bt_settled := True\<rparr>]" "fl_applied ?s = fl_applied s" "fl_notices ?s = fl_notices s @ [BatchDone k]"
    using True by (auto simp: empty_batch_ends_def Let_def)
  have "batch_ok k ?s (?b\<lparr>bt_settled := True\<rparr>)"
    using b True by (auto simp: batch_ok_def applied_of_def notices_of_def ch)
  moreover have "applied_of i ?s = applied_of i s \<and> notices_of i ?s = notices_of i s" if "i \<noteq> k" for i
    using that by (simp add: applied_of_def notices_of_def ch)
  ultimately show ?thesis using True by (intro batch_changes [OF assms _ ch(1)]) auto
qed (use assms in \<open>auto simp: empty_batch_ends_def Let_def\<close>)

lemma batches_ok_step: "batches_ok s \<Longrightarrow> batches_ok (favorite_step e s)"
  by (cases e)
    (auto simp: favorite_step_def choose_game_def organize_def remove_games_def clearFolders_def details_loaded_def check_folder_def
      collection_saved_def answered_batches_ok empty_ends_ok intro!: send_ok intro: batches_same split: option.split)

lemma batches_ok_run: "batches_ok s \<Longrightarrow> batches_ok (fold favorite_step es s)"
  by (induction es arbitrary: s) (simp_all add: batches_ok_step)

text \<open>C26. A batch is only reported as done when each of its requests was applied, and no batch is reported twice.\<close>

theorem reported_batch_was_applied:
  assumes "s = fold favorite_step es (favorites_initial i m)" "BatchDone k \<in> set (fl_notices s)"
  shows "k < length (fl_batches s) \<and> mset (applied_of k s) = mset (bt_calls (fl_batches s ! k)) \<and> notices_of k s = [BatchDone k]"
proof -
  have "batches_ok s" unfolding assms(1)
    by (rule batches_ok_run) (simp add: batches_ok_def favorites_initial_def applied_of_def notices_of_def)
  then have ok: "if k < length (fl_batches s) then batch_ok k s (fl_batches s ! k) else applied_of k s = [] \<and> notices_of k s = []"
    by (simp add: batches_ok_def)
  have "BatchDone k \<in> set (notices_of k s)" using assms(2) by (simp add: notices_of_def)
  then show ?thesis using ok by (auto simp: batch_ok_def split: if_splits)
qed

lemmas favorite_simps = favorite_step_def favorites_initial_def send_batch_def remove_games_def clearFolders_def call_answered_def
  batch_succeeds_def batch_fails_def favorites_changed_def batch_enabled_def choose_game_def remove_at_def Let_def

theorem reported_batch_was_applied_witness:
  "let s = fold favorite_step [RemoveOne [97], CallAnswered 0 0 True] (favorites_initial (read_filters []) [([97], []), ([98], [])]) in
   applied_of 0 s = [Unfavorite [97]] \<and> notices_of 0 s = [BatchDone 0]"
proof -
  define s where "s = fold favorite_step [RemoveOne [97], CallAnswered 0 0 True] (favorites_initial (read_filters []) [([97], []), ([98], [])])"
  have "BatchDone 0 \<in> set (fl_notices s)" "applied_of 0 s = [Unfavorite [97]]"
    by (simp_all add: s_def favorite_simps applied_of_def)
  then have "applied_of 0 s = [Unfavorite [97]] \<and> notices_of 0 s = [BatchDone 0]" using reported_batch_was_applied [OF s_def] by simp
  then show ?thesis unfolding Let_def s_def .
qed

text \<open>
  Where removing several games fails in part, the games stay selected. Clearing their folders next files every one of them again,
  so that the game that was removed is a favorite once more.
\<close>

lemma partly_removed_comes_back:
  "let s = fold favorite_step
       [ToggleSelecting, ChooseGame [97], ChooseGame [98], AskRemove, ConfirmRemove, CallAnswered 0 0 True, CallAnswered 0 0 False,
        CancelRemove] (favorites_initial (read_filters []) [([97], []), ([98], [])]) in
   map_of (fl_server s) [97] = None \<and> fl_selected s = [[97], [98]] \<and>
   map_of (fl_server (fold favorite_step [ClearSelected, CallAnswered 1 0 True] s)) [97] = Some []"
  by (simp add: favorite_simps apply_call_def amap_del_def)

section \<open>Filing and moving\<close>

text \<open>Filing several games takes none of them out of a folder, filing one gives it the checked folders.\<close>

definition files_well :: "collection_dialog \<Rightarrow> jsstr \<times> jsstr list \<Rightarrow> favorite_call \<Rightarrow> bool" where
  "files_well d gf c =
     (case c of
        FileInto g fs \<Rightarrow> g = fst gf \<and>
          (if length (cl_ids d) = 1 then fs = cl_checked d else distinct fs \<and> set fs = set (snd gf) \<union> set (cl_checked d))
      | Unfavorite g \<Rightarrow> False)"

text \<open>Each game of the dialogue is filed once: several keep their folders and gain the checked ones, a single one gets exactly these.\<close>

theorem filing_keeps_folders:
  "list_all2 (files_well d) details (save_collection d details)"
  unfolding save_collection_def
  by (rule list_all2_all_nthI) (auto simp: files_well_def folders_to_save_def split: prod.split)

text \<open>A panel that fits the window stays inside it, eight pixels from its edges.\<close>

definition panel_inside :: "rat \<times> rat \<Rightarrow> panel_bounds \<Rightarrow> floating_panel \<Rightarrow> bool" where
  "panel_inside screen_size b p \<longleftrightarrow>
     (case pl_position p of
        None \<Rightarrow> True
      | Some (l, t) \<Rightarrow> 8 \<le> l \<and> 8 \<le> t \<and> l + pb_width b + 8 \<le> fst screen_size \<and> t + pb_height b + 8 \<le> snd screen_size)"

lemma panel_stays_inside:
  assumes "pb_width b + 16 \<le> fst screen_size" "pb_height b + 16 \<le> snd screen_size" "panel_inside screen_size b p"
  shows "panel_inside screen_size b (panel_update screen_size (Some b) x y p)"
    and "panel_inside screen_size b (panel_key screen_size (Some b) key p)"
  using assms by (auto simp: panel_inside_def panel_update_def panel_key_def panel_move_def split: option.splits)

end
