(* ===== verification/Self_Switches.thy ===== *)
theory Self_Switches
  imports Prelude
begin

text \<open>
  The self switches of a running game (\<open>web/features/player/game-editor-self-switches.tsx\<close>): a picker of maps, the events of the
  chosen map in pages, and the switches that are turned. Both lists number their reads, and an answer with an older number is dropped.
  The effect that reads the events anew runs before the next input, so it is part of the step that changed its dependencies.
\<close>

section \<open>The state\<close>

datatype switch_key = KeyA | KeyB | KeyC | KeyD

text \<open>A map is its id and its name; an event is its id and the switches that are on. A page has items and the next offset.\<close>

type_synonym edit_map = "nat \<times> jsstr"
type_synonym edit_event = "nat \<times> switch_key list"

record maps_page =
  mp_maps :: "edit_map list"
  mp_next :: "nat option"
  mp_currentId :: nat
  mp_currentName :: jsstr

text \<open>Reads and writes under way: number, what is asked for and the offset; map, event, key and the value to set.\<close>

record maps_read =
  mr_sequence :: nat
  mr_filter :: jsstr
  mr_offset :: nat

record events_read =
  er_sequence :: nat
  er_map :: nat
  er_filter :: jsstr
  er_offset :: nat

record switch_write =
  sv_map :: nat
  sv_event :: nat
  sv_key :: switch_key
  sv_on :: bool

text \<open>Each listed event is kept with the map and the filter of the page it came from; the code does not read them, nor the logs of what
  was sent and of the events that were listed, with their map.\<close>

record switch_panel =
  sw_currentMapId :: nat
  sw_mapId :: nat
  sw_mapName :: jsstr
  sw_mapOpen :: bool
  sw_mapQuery :: jsstr
  sw_maps :: "edit_map list"
  sw_mapNext :: "nat option"
  sw_mapBusy :: bool
  sw_mapError :: bool
  sw_events :: "((nat \<times> jsstr) \<times> edit_event) list"
  sw_eventNext :: "nat option"
  sw_eventBusy :: bool
  sw_eventError :: bool
  sw_searchOpen :: bool
  sw_query :: jsstr
  sw_search :: jsstr
  sw_saveError :: bool
  sw_mapSequence :: nat
  sw_eventSequence :: nat
  sw_pendingMap :: "nat option"
  sw_pendingEvent :: "nat option"
  sw_selected :: nat
  sw_mapReads :: "maps_read list"
  sw_eventReads :: "events_read list"
  sw_writes :: "switch_write list"
  sw_sent :: "switch_write list"
  sw_seen :: "(nat \<times> nat) list"
  sw_notices :: nat

definition switches_initial :: switch_panel where
  "switches_initial =
     \<lparr>sw_currentMapId = 0, sw_mapId = 0, sw_mapName = [], sw_mapOpen = False, sw_mapQuery = [], sw_maps = [], sw_mapNext = None,
      sw_mapBusy = False, sw_mapError = False, sw_events = [], sw_eventNext = None, sw_eventBusy = True, sw_eventError = False,
      sw_searchOpen = False, sw_query = [], sw_search = [], sw_saveError = False, sw_mapSequence = 0, sw_eventSequence = 0,
      sw_pendingMap = None, sw_pendingEvent = None, sw_selected = 0, sw_mapReads = [], sw_eventReads = [], sw_writes = [], sw_sent = [], sw_seen = [],
      sw_notices = 0\<rparr>"

section \<open>Reading\<close>

definition loadMaps :: "jsstr \<Rightarrow> nat \<Rightarrow> switch_panel \<Rightarrow> switch_panel" where
  "loadMaps q offset s =
     (if offset \<noteq> 0 \<and> sw_pendingMap s = Some offset then s
      else let n = (if offset \<noteq> 0 then sw_mapSequence s else sw_mapSequence s + 1);
               s1 = s\<lparr>sw_mapSequence := n, sw_pendingMap := (if offset = 0 then None else Some offset), sw_mapBusy := True, sw_mapError := False,
                      sw_mapReads := sw_mapReads s @ [\<lparr>mr_sequence = n, mr_filter = q, mr_offset = offset\<rparr>]\<rparr> in
      if offset = 0 then s1\<lparr>sw_maps := [], sw_mapNext := None\<rparr> else s1)"

definition loadEvents :: "nat \<Rightarrow> jsstr \<Rightarrow> nat \<Rightarrow> switch_panel \<Rightarrow> switch_panel" where
  "loadEvents m q offset s =
     (if offset \<noteq> 0 \<and> sw_pendingEvent s = Some offset then s
      else let n = (if offset \<noteq> 0 then sw_eventSequence s else sw_eventSequence s + 1);
               s1 = s\<lparr>sw_eventSequence := n, sw_pendingEvent := (if offset = 0 then None else Some offset), sw_eventBusy := True,
                      sw_eventError := False, sw_saveError := False,
                      sw_eventReads := sw_eventReads s @ [\<lparr>er_sequence = n, er_map = m, er_filter = q, er_offset = offset\<rparr>]\<rparr> in
      if offset = 0 then s1\<lparr>sw_events := [], sw_eventNext := None\<rparr> else s1)"

text \<open>The effect on \<open>mapId\<close> and \<open>search\<close>: \<open>s\<close> is the state before, \<open>t\<close> after the change.\<close>

definition events_effect :: "switch_panel \<Rightarrow> switch_panel \<Rightarrow> switch_panel" where
  "events_effect s t =
     (if (sw_mapId t, sw_search t) \<noteq> (sw_mapId s, sw_search s) \<and> sw_mapId t \<noteq> 0 then loadEvents (sw_mapId t) (sw_search t) 0 t else t)"

definition maps_answered :: "nat \<Rightarrow> maps_page option \<Rightarrow> switch_panel \<Rightarrow> switch_panel" where
  "maps_answered k r s =
     (if length (sw_mapReads s) \<le> k then s
      else let op = sw_mapReads s ! k; s1 = s\<lparr>sw_mapReads := remove_at k (sw_mapReads s)\<rparr> in
      if mr_sequence op \<noteq> sw_mapSequence s then s1
      else case r of
        None \<Rightarrow> s1\<lparr>sw_mapError := True, sw_pendingMap := None, sw_mapBusy := False\<rparr>
      | Some p \<Rightarrow>
          events_effect s1 (s1\<lparr>sw_selected := (if sw_selected s1 = 0 then mp_currentId p else sw_selected s1), sw_currentMapId := mp_currentId p,
            sw_mapId := (if sw_mapId s1 = 0 then mp_currentId p else sw_mapId s1),
            sw_mapName := (if sw_mapName s1 = [] then mp_currentName p else sw_mapName s1),
            sw_maps := (if mr_offset op = 0 then mp_maps p else sw_maps s1 @ mp_maps p), sw_mapNext := mp_next p,
            sw_pendingMap := None, sw_mapBusy := False\<rparr>))"

definition events_answered :: "nat \<Rightarrow> (edit_event list \<times> nat option) option \<Rightarrow> switch_panel \<Rightarrow> switch_panel" where
  "events_answered k r s =
     (if length (sw_eventReads s) \<le> k then s
      else let op = sw_eventReads s ! k; s1 = s\<lparr>sw_eventReads := remove_at k (sw_eventReads s)\<rparr> in
      if er_sequence op \<noteq> sw_eventSequence s then s1
      else case r of
        None \<Rightarrow> s1\<lparr>sw_eventError := True, sw_pendingEvent := None, sw_eventBusy := False\<rparr>
      | Some (es, next') \<Rightarrow>
          let rows = map (\<lambda>e. ((er_map op, er_filter op), e)) es in
          s1\<lparr>sw_events := (if er_offset op = 0 then rows else sw_events s1 @ rows), sw_eventNext := next',
             sw_pendingEvent := None, sw_eventBusy := False, sw_seen := sw_seen s1 @ map (\<lambda>e. (er_map op, fst e)) es\<rparr>)"

section \<open>Choosing and turning\<close>

definition chooseMap :: "edit_map \<Rightarrow> switch_panel \<Rightarrow> switch_panel" where
  "chooseMap m s =
     (let t = s\<lparr>sw_selected := fst m, sw_mapId := fst m, sw_mapName := snd m, sw_mapOpen := False, sw_mapQuery := [], sw_search := [],
               sw_query := [], sw_searchOpen := False, sw_saveError := False\<rparr> in
      events_effect s (if sw_mapQuery s = [] then t else loadMaps [] 0 t))"

text \<open>A switch is turned on the map of the panel; the answer changes the row of its event while that map is still chosen.\<close>

definition toggle_switch :: "edit_event \<Rightarrow> switch_key \<Rightarrow> switch_panel \<Rightarrow> switch_panel" where
  "toggle_switch e k s =
     (let w = \<lparr>sv_map = sw_mapId s, sv_event = fst e, sv_key = k, sv_on = (k \<notin> set (snd e))\<rparr> in
      s\<lparr>sw_writes := sw_writes s @ [w], sw_sent := sw_sent s @ [w]\<rparr>)"

definition toggle_answered :: "nat \<Rightarrow> edit_event option \<Rightarrow> switch_panel \<Rightarrow> switch_panel" where
  "toggle_answered k r s =
     (if length (sw_writes s) \<le> k then s
      else let w = sw_writes s ! k; s1 = s\<lparr>sw_writes := remove_at k (sw_writes s)\<rparr> in
      case r of
        None \<Rightarrow> if sw_selected s = sv_map w then s1\<lparr>sw_saveError := True\<rparr> else s1
      | Some e \<Rightarrow>
          (if sw_selected s = sv_map w
           then s1\<lparr>sw_events := map (\<lambda>(o', row). (o', if fst row = fst e then e else row)) (sw_events s1), sw_saveError := False\<rparr>
           else s1)\<lparr>sw_notices := sw_notices s + 1\<rparr>)"

definition more_events :: "switch_panel \<Rightarrow> switch_panel" where
  "more_events s =
     (case sw_eventNext s of
        Some n \<Rightarrow> if sw_eventBusy s \<or> sw_eventError s then s else loadEvents (sw_mapId s) (sw_search s) n s
      | None \<Rightarrow> s)"

definition change_switch_search :: "jsstr \<Rightarrow> switch_panel \<Rightarrow> switch_panel" where
  "change_switch_search q s = events_effect s (s\<lparr>sw_search := q\<rparr>)"

definition submit_switch_search :: "switch_panel \<Rightarrow> switch_panel" where
  "submit_switch_search s =
     (let q = js_trim (sw_query s) in
      if q = sw_search s then loadEvents (sw_mapId s) q 0 s else change_switch_search q s)"

definition toggle_switch_search :: "switch_panel \<Rightarrow> switch_panel" where
  "toggle_switch_search s =
     (if sw_searchOpen s then change_switch_search [] (s\<lparr>sw_searchOpen := False, sw_query := []\<rparr>) else s\<lparr>sw_searchOpen := True\<rparr>)"

datatype switch_event =
    PanelOpens
  | MapsAnswered nat "maps_page option"
  | EventsAnswered nat "(edit_event list \<times> nat option) option"
  | TypeMapQuery jsstr
  | MapScrolled
  | RetryMaps
  | PickMap edit_map
  | EventsScrolled
  | RetryEvents
  | RefreshEvents
  | TypeSwitchQuery jsstr
  | SubmitSwitchSearch
  | ClearSwitchSearch
  | ToggleSwitchSearch
  | TurnSwitch nat switch_key
  | SwitchTurned nat "edit_event option"

definition switch_step :: "switch_event \<Rightarrow> switch_panel \<Rightarrow> switch_panel" where
  "switch_step e s =
     (case e of
        PanelOpens \<Rightarrow> loadMaps (sw_mapQuery s) 0 s
      | MapsAnswered k r \<Rightarrow> maps_answered k r s
      | EventsAnswered k r \<Rightarrow> events_answered k r s
      | TypeMapQuery q \<Rightarrow> if q = sw_mapQuery s then s else loadMaps q 0 (s\<lparr>sw_mapQuery := q\<rparr>)
      | MapScrolled \<Rightarrow> (case sw_mapNext s of Some n \<Rightarrow> if sw_mapBusy s then s else loadMaps (sw_mapQuery s) n s | None \<Rightarrow> s)
      | RetryMaps \<Rightarrow> loadMaps (sw_mapQuery s) (case sw_mapNext s of Some n \<Rightarrow> n | None \<Rightarrow> 0) s
      | PickMap m \<Rightarrow> if m \<in> set (sw_maps s) then chooseMap m s else s
      | EventsScrolled \<Rightarrow> more_events s
      | RetryEvents \<Rightarrow> loadEvents (sw_mapId s) (sw_search s) (length (sw_events s)) s
      | RefreshEvents \<Rightarrow> if sw_mapId s = 0 then s else loadEvents (sw_mapId s) (sw_search s) 0 s
      | TypeSwitchQuery q \<Rightarrow> s\<lparr>sw_query := q\<rparr>
      | SubmitSwitchSearch \<Rightarrow> submit_switch_search s
      | ClearSwitchSearch \<Rightarrow> change_switch_search [] (s\<lparr>sw_query := []\<rparr>)
      | ToggleSwitchSearch \<Rightarrow> toggle_switch_search s
      | TurnSwitch i k \<Rightarrow> if i < length (sw_events s) then toggle_switch (snd (sw_events s ! i)) k s else s
      | SwitchTurned k r \<Rightarrow> toggle_answered k r s)"

section \<open>The listed events belong to the chosen map\<close>

text \<open>
  Map numbers begin with 1, so no page of maps contains the number 0 (the mark for no map).
\<close>

definition numbered_page :: "switch_event \<Rightarrow> bool" where
  "numbered_page e \<longleftrightarrow> (case e of MapsAnswered k (Some p) \<Rightarrow> 0 \<notin> fst ` set (mp_maps p) | _ \<Rightarrow> True)"

definition switches_ok :: "switch_panel \<Rightarrow> bool" where
  "switches_ok s \<longleftrightarrow>
     (\<forall>r \<in> set (sw_events s). fst (fst r) = sw_mapId s \<and> (sw_mapId s \<noteq> 0 \<longrightarrow> snd (fst r) = sw_search s) \<and>
        (sw_mapId s, fst (snd r)) \<in> set (sw_seen s)) \<and>
     (\<forall>op \<in> set (sw_eventReads s). er_sequence op \<le> sw_eventSequence s \<and>
        (er_sequence op = sw_eventSequence s \<longrightarrow> er_map op = sw_mapId s \<and> (sw_mapId s \<noteq> 0 \<longrightarrow> er_filter op = sw_search s))) \<and>
     (\<forall>w \<in> set (sw_sent s). (sv_map w, sv_event w) \<in> set (sw_seen s)) \<and>
     0 \<notin> fst ` set (sw_maps s)"

lemma loadMaps_ok: "switches_ok s \<Longrightarrow> switches_ok (loadMaps q n s)"
  by (auto simp: loadMaps_def Let_def switches_ok_def)

lemma loadEvents_ok:
  assumes "switches_ok s"
  shows "switches_ok (loadEvents (sw_mapId s) (sw_search s) n s)"
  using assms by (auto simp: loadEvents_def Let_def switches_ok_def dest: le_SucI)

text \<open>A change of the map or the search is made good by the effect; without a map only the search can have changed.\<close>

lemma effect_ok:
  assumes "switches_ok s" "sw_eventReads t = sw_eventReads s" "sw_eventSequence t = sw_eventSequence s" "sw_events t = sw_events s"
    "sw_seen t = sw_seen s" "sw_sent t = sw_sent s" "0 \<notin> fst ` set (sw_maps t)" "sw_mapId t = 0 \<Longrightarrow> sw_mapId s = 0"
  shows "switches_ok (events_effect s t)"
proof (cases "(sw_mapId t, sw_search t) \<noteq> (sw_mapId s, sw_search s) \<and> sw_mapId t \<noteq> 0")
  case True
  have "er_sequence op \<le> Suc (sw_eventSequence s) \<and> er_sequence op \<noteq> Suc (sw_eventSequence s)" if "op \<in> set (sw_eventReads s)" for op
    using assms(1) that by (force simp: switches_ok_def)
  then show ?thesis using True assms by (auto simp: events_effect_def loadEvents_def Let_def switches_ok_def)
next
  case False
  then have "events_effect s t = t" "sw_mapId t = sw_mapId s" "sw_mapId s \<noteq> 0 \<Longrightarrow> sw_search t = sw_search s" using assms(8) by (auto simp: events_effect_def)
  then show ?thesis using assms(1-7) by (auto simp: switches_ok_def)
qed

lemma maps_answered_ok:
  assumes "switches_ok s" "numbered_page (MapsAnswered k r)"
  shows "switches_ok (maps_answered k r s)"
proof (cases "k < length (sw_mapReads s) \<and> mr_sequence (sw_mapReads s ! k) = sw_mapSequence s")
  case True
  let ?s = "s\<lparr>sw_mapReads := remove_at k (sw_mapReads s)\<rparr>"
  have ok: "switches_ok ?s" "0 \<notin> fst ` set (sw_maps s)" using assms(1) by (simp_all add: switches_ok_def)
  show ?thesis
  proof (cases r)
    case (Some p)
    then have "0 \<notin> fst ` set (mp_maps p)" using assms(2) by (simp add: numbered_page_def)
    then have m: "0 \<notin> fst ` set (if mr_offset (sw_mapReads s ! k) = 0 then mp_maps p else sw_maps ?s @ mp_maps p)"
      using ok(2) by (simp add: image_Un)
    define t where "t = ?s\<lparr>sw_selected := (if sw_selected ?s = 0 then mp_currentId p else sw_selected ?s), sw_currentMapId := mp_currentId p,
      sw_mapId := (if sw_mapId ?s = 0 then mp_currentId p else sw_mapId ?s), sw_mapName := (if sw_mapName ?s = [] then mp_currentName p else sw_mapName ?s),
      sw_maps := (if mr_offset (sw_mapReads s ! k) = 0 then mp_maps p else sw_maps ?s @ mp_maps p), sw_mapNext := mp_next p,
      sw_pendingMap := None, sw_mapBusy := False\<rparr>"
    have "maps_answered k r s = events_effect ?s t" using True Some by (simp add: maps_answered_def t_def Let_def)
    moreover have "switches_ok (events_effect ?s t)"
      by (rule effect_ok [OF ok(1)]) (use m in \<open>simp_all add: t_def split: if_splits\<close>)
    ultimately show ?thesis by simp
  qed (use True ok in \<open>simp add: maps_answered_def Let_def switches_ok_def\<close>)
qed (use assms(1) in \<open>auto simp: maps_answered_def Let_def switches_ok_def\<close>)

lemma events_answered_ok:
  assumes "switches_ok s"
  shows "switches_ok (events_answered k r s)"
proof (cases "k < length (sw_eventReads s)")
  case True
  let ?op = "sw_eventReads s ! k" and ?s = "s\<lparr>sw_eventReads := remove_at k (sw_eventReads s)\<rparr>"
  have ok: "switches_ok ?s" using assms by (auto simp: switches_ok_def dest: remove_at_set)
  have "?op \<in> set (sw_eventReads s)" using True by simp
  then have op: "er_sequence ?op = sw_eventSequence s \<Longrightarrow> er_map ?op = sw_mapId s \<and> (sw_mapId s \<noteq> 0 \<longrightarrow> er_filter ?op = sw_search s)"
    using assms by (auto simp: switches_ok_def)
  show ?thesis
    using ok op True by (auto simp: events_answered_def Let_def split: option.split) (auto simp: switches_ok_def)
qed (use assms in \<open>simp add: events_answered_def\<close>)

lemma chooseMap_ok:
  assumes "switches_ok s" "m \<in> set (sw_maps s)"
  shows "switches_ok (chooseMap m s)"
proof -
  have "fst m \<noteq> 0" "0 \<notin> fst ` set (sw_maps s)" using assms by (auto simp: switches_ok_def)
  then show ?thesis unfolding chooseMap_def Let_def
    by (intro effect_ok [OF assms(1)]) (auto simp: loadMaps_def Let_def split: if_splits)
qed

lemma turned_ok:
  assumes "switches_ok s"
  shows "switches_ok (toggle_answered k r s)"
proof (cases r)
  case (Some e)
  have "switches_ok (s\<lparr>sw_events := map (\<lambda>(o', row). (o', if fst row = fst e then e else row)) (sw_events s)\<rparr>)"
    using assms by (fastforce simp: switches_ok_def)
  then show ?thesis using assms Some by (auto simp: toggle_answered_def Let_def switches_ok_def)
qed (use assms in \<open>simp add: toggle_answered_def Let_def switches_ok_def\<close>)

lemma turn_ok:
  assumes "switches_ok s" "i < length (sw_events s)"
  shows "switches_ok (toggle_switch (snd (sw_events s ! i)) k s)"
proof -
  have "sw_events s ! i \<in> set (sw_events s)" using assms(2) by simp
  then show ?thesis using assms(1) by (auto simp: toggle_switch_def Let_def switches_ok_def)
qed

lemma switches_same: "switches_ok s \<Longrightarrow> switches_ok (s\<lparr>sw_query := q\<rparr>)" "switches_ok s \<Longrightarrow> switches_ok (s\<lparr>sw_mapQuery := q\<rparr>)"
  "switches_ok s \<Longrightarrow> switches_ok (s\<lparr>sw_searchOpen := b\<rparr>)"
  by (simp_all add: switches_ok_def)

lemma search_ok: "switches_ok s \<Longrightarrow> switches_ok (change_switch_search q s)"
  unfolding change_switch_search_def by (rule effect_ok) (auto simp: switches_ok_def)

lemma switches_ok_step: "switches_ok s \<Longrightarrow> numbered_page e \<Longrightarrow> switches_ok (switch_step e s)"
  by (cases e) (auto simp: switch_step_def more_events_def submit_switch_search_def toggle_switch_search_def Let_def
      intro!: loadMaps_ok loadEvents_ok maps_answered_ok events_answered_ok chooseMap_ok turned_ok turn_ok switches_same search_ok
      split: option.split)

lemma switches_ok_run: "switches_ok s \<Longrightarrow> list_all numbered_page es \<Longrightarrow> switches_ok (fold switch_step es s)"
  by (induction es arbitrary: s) (simp_all add: switches_ok_step)

text \<open>
  C28. The listed events are those of the chosen map under the search in force, and a switch is only turned on the map whose page
  listed its event, whatever maps, searches and answers come in between.
\<close>

theorem switches_turn_on_their_map:
  assumes "list_all numbered_page es" "s = fold switch_step es switches_initial"
  shows "(\<forall>w \<in> set (sw_sent s). (sv_map w, sv_event w) \<in> set (sw_seen s)) \<and>
    (sw_mapId s \<noteq> 0 \<longrightarrow> (\<forall>r \<in> set (sw_events s). fst r = (sw_mapId s, sw_search s)))"
proof -
  have "switches_ok switches_initial" by (simp add: switches_ok_def switches_initial_def)
  then have "switches_ok s" unfolding assms(2) using assms(1) by (rule switches_ok_run)
  then show ?thesis by (auto simp: switches_ok_def prod_eq_iff)
qed

definition example_maps :: maps_page where
  "example_maps = \<lparr>mp_maps = [(3, [97]), (4, [98])], mp_next = None, mp_currentId = 3, mp_currentName = [97]\<rparr>"

text \<open>An answer for the map that was left arrives last and is dropped.\<close>

theorem switches_turn_on_their_map_witness:
  "let s = fold switch_step
       [PanelOpens, MapsAnswered 0 (Some example_maps), PickMap (4, [98]), EventsAnswered 1 (Some ([(7, [])], None)),
        EventsAnswered 0 (Some ([(5, [])], None)), TurnSwitch 0 KeyB] switches_initial in
   sw_events s = [((4, []), (7, []))] \<and> map sv_map (sw_sent s) = [4] \<and>
   (\<forall>w \<in> set (sw_sent s). (sv_map w, sv_event w) \<in> set (sw_seen s))"
proof -
  let ?es = "[PanelOpens, MapsAnswered 0 (Some example_maps), PickMap (4, [98]), EventsAnswered 1 (Some ([(7, [])], None)),
    EventsAnswered 0 (Some ([(5, [])], None)), TurnSwitch 0 KeyB]"
  have "list_all numbered_page ?es" by (simp add: numbered_page_def example_maps_def)
  from switches_turn_on_their_map [OF this refl]
  have "\<forall>w \<in> set (sw_sent (fold switch_step ?es switches_initial)). (sv_map w, sv_event w) \<in> set (sw_seen (fold switch_step ?es switches_initial))" by blast
  moreover have "sw_events (fold switch_step ?es switches_initial) = [((4, []), (7, []))]" "map sv_map (sw_sent (fold switch_step ?es switches_initial)) = [4]"
    by (simp_all add: switch_step_def switches_initial_def loadMaps_def maps_answered_def events_effect_def loadEvents_def chooseMap_def
        events_answered_def toggle_switch_def example_maps_def remove_at_def Let_def)
  ultimately show ?thesis by (simp only: Let_def)
qed

end
