(* ===== verification/Immersive_Audio.thy ===== *)
theory Immersive_Audio
  imports Prelude
begin

text \<open>
  The background music of immersive mode (\<open>web/features/immersive/use-immersive-background-audio.ts\<close>). Attempts to play are
  numbered; a pause makes the running ones invalid. \<open>volume\<close> is a number of percent here, only its being zero matters.
\<close>

datatype bgm_state = BgmPlaying | BgmPaused | BgmBlocked

text \<open>What a timer of no delay does that an effect of the preferences has set.\<close>

datatype bgm_timer = TimerPauses | TimerRetries

text \<open>\<open>bg_plays\<close> are the attempts whose \<open>play()\<close> has not answered; \<open>bg_resume\<close>: the listeners for a key or a pointer are there.\<close>

record background_audio =
  bg_mounted :: bool
  bg_volume :: nat
  bg_muted :: bool
  bg_hidden :: bool
  bg_attempt :: nat
  bg_state :: bgm_state
  bg_plays :: "nat list"
  bg_timer :: "bgm_timer option"

definition audio_initial :: "bool \<Rightarrow> background_audio" where
  "audio_initial hidden =
     \<lparr>bg_mounted = True, bg_volume = 100, bg_muted = False, bg_hidden = hidden, bg_attempt = 0, bg_state = BgmPaused, bg_plays = [], bg_timer = None\<rparr>"

definition bgm_silent :: "background_audio \<Rightarrow> bool" where
  "bgm_silent s \<longleftrightarrow> bg_muted s \<or> bg_volume s = 0 \<or> bg_hidden s"

definition bgm_retry :: "background_audio \<Rightarrow> background_audio" where
  "bgm_retry s =
     (if \<not> bg_mounted s \<or> bgm_silent s then s\<lparr>bg_state := BgmPaused\<rparr>
      else s\<lparr>bg_attempt := bg_attempt s + 1, bg_plays := bg_plays s @ [bg_attempt s + 1]\<rparr>)"

definition play_answered :: "nat \<Rightarrow> bool \<Rightarrow> background_audio \<Rightarrow> background_audio" where
  "play_answered k ok s =
     (if length (bg_plays s) \<le> k then s
      else let s1 = s\<lparr>bg_plays := remove_at k (bg_plays s)\<rparr> in
      if bg_plays s ! k = bg_attempt s then s1\<lparr>bg_state := (if ok then BgmPlaying else BgmBlocked)\<rparr> else s1)"

definition invalidateAttempts :: "background_audio \<Rightarrow> background_audio" where
  "invalidateAttempts s = s\<lparr>bg_attempt := bg_attempt s + 1\<rparr>"

text \<open>The effect of the preferences; the cleanup of the last one has cleared its timer.\<close>

definition preferences_effect :: "nat \<Rightarrow> bool \<Rightarrow> background_audio \<Rightarrow> background_audio" where
  "preferences_effect v m s =
     (let s1 = s\<lparr>bg_volume := v, bg_muted := m\<rparr> in
      if bgm_silent s1 then (invalidateAttempts s1)\<lparr>bg_timer := Some TimerPauses\<rparr> else s1\<lparr>bg_timer := Some TimerRetries\<rparr>)"

definition visibility_changed :: "bool \<Rightarrow> background_audio \<Rightarrow> background_audio" where
  "visibility_changed hidden s =
     (let s1 = s\<lparr>bg_hidden := hidden\<rparr> in
      if hidden then (invalidateAttempts s1)\<lparr>bg_state := BgmPaused\<rparr>
      else if \<not> bg_muted s1 \<and> 0 < bg_volume s1 then bgm_retry s1
      else s1)"

datatype bgm_event =
    PreferencesChange nat bool
  | VisibilityChanges bool
  | BgmTimer
  | PlayAnswered nat bool
  | BgmInput
  | MarkBlocked
  | BgmRetry
  | BgmUnmounts

definition bgm_step :: "bgm_event \<Rightarrow> background_audio \<Rightarrow> background_audio" where
  "bgm_step e s =
     (case e of
        PreferencesChange v m \<Rightarrow> if bg_mounted s then preferences_effect v m s else s
      | VisibilityChanges h \<Rightarrow> if bg_mounted s then visibility_changed h s else s\<lparr>bg_hidden := h\<rparr>
      | BgmTimer \<Rightarrow>
          (case bg_timer s of
             None \<Rightarrow> s
           | Some TimerPauses \<Rightarrow> s\<lparr>bg_timer := None, bg_state := BgmPaused\<rparr>
           | Some TimerRetries \<Rightarrow> bgm_retry (s\<lparr>bg_timer := None\<rparr>))
      | PlayAnswered k ok \<Rightarrow> play_answered k ok s
      | BgmInput \<Rightarrow> if bg_state s = BgmBlocked \<and> bg_mounted s then bgm_retry s else s
      | MarkBlocked \<Rightarrow> s\<lparr>bg_state := BgmBlocked\<rparr>
      | BgmRetry \<Rightarrow> bgm_retry s
      | BgmUnmounts \<Rightarrow> (invalidateAttempts s)\<lparr>bg_mounted := False, bg_timer := None\<rparr>)"

text \<open>Music is only shown as playing while it can be heard, or the timer that will show it as paused is already set.\<close>

definition bgm_honest :: "background_audio \<Rightarrow> bool" where
  "bgm_honest s \<longleftrightarrow> bg_state s = BgmPlaying \<longrightarrow> \<not> bg_mounted s \<or> \<not> bgm_silent s \<or> bg_timer s = Some TimerPauses"

definition bgm_ok :: "background_audio \<Rightarrow> bool" where
  "bgm_ok s \<longleftrightarrow>
     bgm_honest s \<and> list_all (\<lambda>k. k \<le> bg_attempt s) (bg_plays s) \<and>
     (bg_mounted s \<and> bgm_silent s \<longrightarrow> bg_attempt s \<notin> set (bg_plays s)) \<and> (bg_timer s \<noteq> None \<longrightarrow> bg_mounted s)"

lemma plays_less: "list_all (\<lambda>k. k \<le> n) ps \<Longrightarrow> Suc n \<notin> set ps"
  by (auto simp: list_all_iff)

lemma plays_more: "list_all (\<lambda>k. k \<le> n) ps \<Longrightarrow> list_all (\<lambda>k. k \<le> Suc n) ps"
  by (auto simp: list_all_iff)

lemma bgm_retry_ok: "bgm_ok s \<Longrightarrow> bgm_ok (bgm_retry s)"
  by (auto simp: bgm_ok_def bgm_honest_def bgm_retry_def bgm_silent_def plays_more)

lemma bgm_ok_step: "bgm_ok s \<Longrightarrow> bgm_ok (bgm_step e s)"
proof (cases e)
  case (PlayAnswered k ok)
  assume s: "bgm_ok s"
  have rest: "list_all (\<lambda>k. k \<le> n) (remove_at k ps)" if "list_all (\<lambda>k. k \<le> n) ps" for n k and ps :: "nat list"
    using that by (auto simp: list_all_iff dest: remove_at_set)
  have gone: "x \<notin> set (remove_at k ps)" if "x \<notin> set ps" for x k and ps :: "nat list" using that by (blast dest: remove_at_set)
  show ?thesis
  proof (cases "k < length (bg_plays s)")
    case True
    then have "bg_plays s ! k \<in> set (bg_plays s)" by simp
    then have "bg_plays s ! k = bg_attempt s \<Longrightarrow> \<not> (bg_mounted s \<and> bgm_silent s)" using s by (auto simp: bgm_ok_def)
    then show ?thesis using PlayAnswered s True
      by (auto simp: bgm_step_def play_answered_def Let_def bgm_ok_def bgm_honest_def bgm_silent_def rest gone)
  qed (use PlayAnswered s in \<open>simp add: bgm_step_def play_answered_def\<close>)
qed (auto simp: bgm_step_def preferences_effect_def visibility_changed_def invalidateAttempts_def Let_def bgm_ok_def bgm_honest_def bgm_silent_def
    bgm_retry_def plays_less plays_more split: option.split bgm_timer.split)

text \<open>However the preferences, the visibility of the page and the answers of the browser follow each other, music that cannot be heard is not shown as playing.\<close>

theorem music_is_shown_honestly:
  "bgm_honest (fold bgm_step es (audio_initial hidden))"
proof -
  have "bgm_ok (fold bgm_step es s)" if "bgm_ok s" for s
    using that by (induction es arbitrary: s) (simp_all add: bgm_ok_step)
  moreover have "bgm_ok (audio_initial hidden)" by (simp add: bgm_ok_def bgm_honest_def audio_initial_def)
  ultimately show ?thesis by (simp add: bgm_ok_def)
qed

end
