(* ===== verification/Managers.thy ===== *)
theory Managers
  imports Library_Query
begin

text \<open>
  The pages on which an administrator manages directories (\<open>web/features/directories/directory-manager.tsx\<close>), users
  (\<open>web/features/accounts/user-manager.tsx\<close>, \<open>user-forms.tsx\<close>), invitations (\<open>account-link-list.tsx\<close>) and tags
  (\<open>web/features/tags/tag-manager.tsx\<close>). A button is part of the step it starts: where it is disabled, nothing happens.
\<close>

section \<open>Removing an item of a list\<close>

text \<open>The dialogue of all four pages: what is to be removed, whether a request is under way, and what was asked for.\<close>

record 'a removal =
  rm_target :: "'a option"
  rm_busy :: bool
  rm_sent :: "'a list"
  rm_reloads :: nat

definition no_removal :: "'a removal" where
  "no_removal = \<lparr>rm_target = None, rm_busy = False, rm_sent = [], rm_reloads = 0\<rparr>"

definition removal_confirmed :: "'a removal \<Rightarrow> 'a removal" where
  "removal_confirmed r =
     (case rm_target r of
        None \<Rightarrow> r
      | Some x \<Rightarrow> if rm_busy r then r else r\<lparr>rm_busy := True, rm_sent := rm_sent r @ [x]\<rparr>)"

definition removal_answered :: "bool \<Rightarrow> 'a removal \<Rightarrow> 'a removal" where
  "removal_answered ok r =
     (if \<not> rm_busy r then r
      else (if ok then r\<lparr>rm_target := None, rm_reloads := rm_reloads r + 1\<rparr> else r)\<lparr>rm_busy := False\<rparr>)"

definition removal_cancelled :: "'a removal \<Rightarrow> 'a removal" where
  "removal_cancelled r = (if rm_busy r then r else r\<lparr>rm_target := None\<rparr>)"

section \<open>Pages of a list\<close>

text \<open>The buttons below a list that shows \<open>shown\<close> items from \<open>offset\<close>: whether they are there, and which are enabled.\<close>

definition pager_shown :: "nat \<Rightarrow> nat \<Rightarrow> bool" where
  "pager_shown limit amount \<longleftrightarrow> limit < amount"

definition link_next_enabled :: "nat \<Rightarrow> nat \<Rightarrow> nat \<Rightarrow> bool" where
  "link_next_enabled offset shown amount \<longleftrightarrow> offset + shown < amount"

definition tag_next_enabled :: "nat \<Rightarrow> nat \<Rightarrow> bool" where
  "tag_next_enabled offset amount \<longleftrightarrow> offset + 100 < amount"

datatype link_status = LinkActive | LinkConsumed | LinkRevoked | LinkExpired

text \<open>The list of links: its filter, its offset and the removal; \<open>al_links\<close> are the links of the server.\<close>

record link_list =
  al_status :: "link_status option"
  al_offset :: nat
  al_removal :: "nat removal"
  al_links :: "(nat \<times> link_status) list"

definition link_list_initial :: "(nat \<times> link_status) list \<Rightarrow> link_list" where
  "link_list_initial ls = \<lparr>al_status = Some LinkActive, al_offset = 0, al_removal = no_removal, al_links = ls\<rparr>"

text \<open>What the list shows of the server: the items of its page and their number.\<close>

definition listed_links :: "link_list \<Rightarrow> (nat \<times> link_status) list" where
  "listed_links s = filter (\<lambda>l. case al_status s of None \<Rightarrow> True | Some t \<Rightarrow> snd l = t) (al_links s)"

definition link_page :: "link_list \<Rightarrow> (nat \<times> link_status) list \<times> nat" where
  "link_page s = (take 24 (drop (al_offset s) (listed_links s)), length (listed_links s))"

datatype link_event = FilterLinks "link_status option" | PreviousLinks | NextLinks | AskRevoke nat | ConfirmRevoke | RevokeAnswered bool | CancelRevoke

definition link_step :: "link_event \<Rightarrow> link_list \<Rightarrow> link_list" where
  "link_step e s =
     (case link_page s of (items, amount) \<Rightarrow>
      case e of
        FilterLinks t \<Rightarrow> s\<lparr>al_status := t, al_offset := 0\<rparr>
      | PreviousLinks \<Rightarrow> if pager_shown 24 amount \<and> al_offset s \<noteq> 0 then s\<lparr>al_offset := al_offset s - 24\<rparr> else s
      | NextLinks \<Rightarrow> if pager_shown 24 amount \<and> link_next_enabled (al_offset s) (length items) amount then s\<lparr>al_offset := al_offset s + 24\<rparr> else s
      | AskRevoke i \<Rightarrow> if (i, LinkActive) \<in> set items then s\<lparr>al_removal := (al_removal s)\<lparr>rm_target := Some i\<rparr>\<rparr> else s
      | ConfirmRevoke \<Rightarrow> s\<lparr>al_removal := removal_confirmed (al_removal s)\<rparr>
      | RevokeAnswered ok \<Rightarrow>
          s\<lparr>al_links := (if ok \<and> rm_busy (al_removal s)
              then map (\<lambda>l. if Some (fst l) = rm_target (al_removal s) then (fst l, LinkRevoked) else l) (al_links s) else al_links s),
             al_removal := removal_answered ok (al_removal s)\<rparr>
      | CancelRevoke \<Rightarrow> s\<lparr>al_removal := removal_cancelled (al_removal s)\<rparr>)"

section \<open>Tags\<close>

type_synonym managed_tag = "nat \<times> jsstr \<times> nat"

datatype tag_request = CreateTag jsstr | RenameTag nat jsstr nat

record tag_manager =
  tm_query :: jsstr
  tm_draft :: jsstr
  tm_offset :: nat
  tm_editing :: "managed_tag option option"
  tm_name :: jsstr
  tm_confirmName :: jsstr
  tm_busy :: bool
  tm_removal :: "managed_tag removal"
  tm_sent :: "tag_request list"
  tm_reloads :: nat

definition edit_tag :: "managed_tag option \<Rightarrow> tag_manager \<Rightarrow> tag_manager" where
  "edit_tag t m = m\<lparr>tm_name := (case t of Some (i, n, v) \<Rightarrow> n | None \<Rightarrow> []), tm_editing := Some t\<rparr>"

definition can_save_tag :: "tag_manager \<Rightarrow> bool" where
  "can_save_tag m \<longleftrightarrow> \<not> tm_busy m \<and> js_trim (tm_name m) \<noteq> [] \<and> code_points (tm_name m) \<le> 40"

definition save_tag :: "tag_manager \<Rightarrow> tag_manager" where
  "save_tag m =
     (case tm_editing m of
        None \<Rightarrow> m
      | Some t \<Rightarrow>
          if \<not> can_save_tag m then m
          else m\<lparr>tm_busy := True,
             tm_sent := tm_sent m @ [case t of None \<Rightarrow> CreateTag (js_trim (tm_name m)) | Some (i, n, v) \<Rightarrow> RenameTag i (js_trim (tm_name m)) v]\<rparr>)"

text \<open>A new tag keeps the editor open for the next one.\<close>

definition tag_saved :: "bool \<Rightarrow> tag_manager \<Rightarrow> tag_manager" where
  "tag_saved ok m =
     (if \<not> tm_busy m then m
      else (if \<not> ok then m
            else if tm_editing m = Some None then m\<lparr>tm_name := [], tm_reloads := tm_reloads m + 1\<rparr>
            else m\<lparr>tm_editing := None, tm_reloads := tm_reloads m + 1\<rparr>)\<lparr>tm_busy := False\<rparr>)"

text \<open>Removing asks for the whole name.\<close>

definition remove_tag :: "tag_manager \<Rightarrow> tag_manager" where
  "remove_tag m =
     (case rm_target (tm_removal m) of
        None \<Rightarrow> m
      | Some (i, n, v) \<Rightarrow> if tm_confirmName m = n then m\<lparr>tm_removal := removal_confirmed (tm_removal m)\<rparr> else m)"

section \<open>Users\<close>

datatype user_role = AdminRole | UserRole

datatype user_status = UserActive | UserDisabled | UserDeleted

record user =
  us_id :: nat
  us_displayName :: jsstr
  us_role :: user_role
  us_status :: user_status
  us_version :: nat

datatype user_request =
    Invite user_role nat
  | ResetLink nat
  | SaveUser user
  | DeleteUser user
  | RevokeLink nat nat

text \<open>\<open>um_flight\<close> is the request under way; \<open>busy\<close> is that there is one. A link is its id and its version.\<close>

record user_manager =
  um_q :: jsstr
  um_offset :: nat
  um_editing :: "user option"
  um_deleting :: "user option"
  um_link :: "(nat \<times> nat) option"
  um_inviting :: bool
  um_error :: bool
  um_flight :: "user_request option"
  um_sent :: "user_request list"
  um_linkRevision :: nat
  um_reloads :: nat

definition users_initial :: user_manager where
  "users_initial =
     \<lparr>um_q = [], um_offset = 0, um_editing = None, um_deleting = None, um_link = None, um_inviting = False, um_error = False,
      um_flight = None, um_sent = [], um_linkRevision = 0, um_reloads = 0\<rparr>"

definition send_user_request :: "user_request \<Rightarrow> user_manager \<Rightarrow> user_manager" where
  "send_user_request r m =
     (if um_flight m \<noteq> None then m else m\<lparr>um_flight := Some r, um_error := False, um_sent := um_sent m @ [r]\<rparr>)"

definition unavailable :: "nat \<Rightarrow> user \<Rightarrow> bool" where
  "unavailable self u \<longleftrightarrow> us_id u = self \<or> us_status u = UserDeleted"

text \<open>The answer: \<open>Inr\<close> has the link of an invitation or a reset, \<open>Inl\<close> the status of the error.\<close>

definition user_answered :: "nat + (nat \<times> nat) \<Rightarrow> user_manager \<Rightarrow> user_manager" where
  "user_answered a m =
     (case um_flight m of
        None \<Rightarrow> m
      | Some r \<Rightarrow>
          let m1 = m\<lparr>um_flight := None\<rparr> in
          (case a of
             Inl status \<Rightarrow> if status = 400 then m1\<lparr>um_error := True\<rparr> else m1
           | Inr l \<Rightarrow>
               (case r of
                  Invite role hours \<Rightarrow> m1\<lparr>um_link := Some l, um_inviting := False, um_linkRevision := um_linkRevision m1 + 1\<rparr>
                | ResetLink i \<Rightarrow> m1\<lparr>um_link := Some l, um_editing := None, um_linkRevision := um_linkRevision m1 + 1\<rparr>
                | SaveUser u \<Rightarrow> m1\<lparr>um_editing := None, um_reloads := um_reloads m1 + 1\<rparr>
                | DeleteUser u \<Rightarrow> m1\<lparr>um_deleting := None, um_editing := None, um_reloads := um_reloads m1 + 1\<rparr>
                | RevokeLink i v \<Rightarrow> m1\<lparr>um_link := None, um_linkRevision := um_linkRevision m1 + 1\<rparr>)))"

datatype user_event =
    SearchUsers jsstr
  | PageUsers nat
  | OpenInvite
  | CloseInvite
  | SubmitInvite user_role nat
  | OpenUser user
  | EditName jsstr
  | EditRole user_role
  | EditStatus bool
  | SubmitUser
  | SubmitReset
  | AskDelete
  | CancelDelete
  | ConfirmDelete
  | CloseUser
  | RevokeShown
  | CloseLink
  | UserAnswered "nat + (nat \<times> nat)"

definition edit_user :: "nat \<Rightarrow> (user \<Rightarrow> user) \<Rightarrow> user_manager \<Rightarrow> user_manager" where
  "edit_user self f m =
     (case um_editing m of
        None \<Rightarrow> m
      | Some u \<Rightarrow> if um_flight m \<noteq> None \<or> unavailable self u then m else m\<lparr>um_editing := Some (f u)\<rparr>)"

definition user_step :: "nat \<Rightarrow> user_event \<Rightarrow> user_manager \<Rightarrow> user_manager" where
  "user_step self e m =
     (let idle = (um_flight m = None) in
      case e of
        SearchUsers t \<Rightarrow> m\<lparr>um_q := t, um_offset := 0\<rparr>
      | PageUsers n \<Rightarrow> m\<lparr>um_offset := n\<rparr>
      | OpenInvite \<Rightarrow> m\<lparr>um_error := False, um_inviting := True\<rparr>
      | CloseInvite \<Rightarrow> if idle then m\<lparr>um_inviting := False\<rparr> else m
      | SubmitInvite role hours \<Rightarrow> if um_inviting m then send_user_request (Invite role hours) m else m
      | OpenUser u \<Rightarrow> m\<lparr>um_error := False, um_editing := Some u\<rparr>
      | EditName t \<Rightarrow> edit_user self (\<lambda>u. u\<lparr>us_displayName := t\<rparr>) m
      | EditRole r \<Rightarrow> edit_user self (\<lambda>u. u\<lparr>us_role := r\<rparr>) m
      | EditStatus on \<Rightarrow> edit_user self (\<lambda>u. u\<lparr>us_status := (if on then UserActive else UserDisabled)\<rparr>) m
      | SubmitUser \<Rightarrow> (case um_editing m of Some u \<Rightarrow> if unavailable self u then m else send_user_request (SaveUser u) m | None \<Rightarrow> m)
      | SubmitReset \<Rightarrow> (case um_editing m of Some u \<Rightarrow> if us_status u = UserDeleted then m else send_user_request (ResetLink (us_id u)) m | None \<Rightarrow> m)
      | AskDelete \<Rightarrow>
          (case um_editing m of
             Some u \<Rightarrow> if \<not> idle \<or> unavailable self u then m else m\<lparr>um_error := False, um_deleting := Some u\<rparr>
           | None \<Rightarrow> m)
      | CancelDelete \<Rightarrow> if idle then m\<lparr>um_deleting := None\<rparr> else m
      | ConfirmDelete \<Rightarrow> (case um_deleting m of Some u \<Rightarrow> send_user_request (DeleteUser u) m | None \<Rightarrow> m)
      | CloseUser \<Rightarrow> if idle then m\<lparr>um_editing := None\<rparr> else m
      | RevokeShown \<Rightarrow> (case um_link m of Some (i, v) \<Rightarrow> send_user_request (RevokeLink i v) m | None \<Rightarrow> m)
      | CloseLink \<Rightarrow> if idle then m\<lparr>um_link := None\<rparr> else m
      | UserAnswered a \<Rightarrow> user_answered a m)"

section \<open>Directories\<close>

text \<open>The catalog: the platforms, and each core with the platforms it supports. A directory is given by what the form reads of it.\<close>

record core_catalog =
  cc_platforms :: "jsstr list"
  cc_cores :: "(jsstr \<times> jsstr list) list"

record directory_form =
  df_platform :: jsstr
  df_cores :: "jsstr list"
  df_defaultCore :: jsstr
  df_name :: jsstr
  df_error :: bool
  df_busy :: bool
  df_sent :: "(jsstr \<times> jsstr list \<times> jsstr) list"

definition first_core :: "core_catalog \<Rightarrow> jsstr \<Rightarrow> jsstr" where
  "first_core c p = (case find (\<lambda>k. p \<in> set (snd k)) (cc_cores c) of Some k \<Rightarrow> fst k | None \<Rightarrow> [])"

text \<open>\<open>initialValues\<close>, for a new directory and for one with its platform, cores, default core and name.\<close>

definition form_initial :: "core_catalog \<Rightarrow> (jsstr \<times> jsstr list \<times> jsstr \<times> jsstr) option \<Rightarrow> directory_form" where
  "form_initial c d =
     (case d of
        Some (p, cores, def', name) \<Rightarrow>
          \<lparr>df_platform = p, df_cores = cores, df_defaultCore = def', df_name = name, df_error = False, df_busy = False, df_sent = []\<rparr>
      | None \<Rightarrow>
          let p = (case cc_platforms c of [] \<Rightarrow> [] | q # _ \<Rightarrow> q); k = first_core c p in
          \<lparr>df_platform = p, df_cores = (if k = [] then [] else [k]), df_defaultCore = k, df_name = [], df_error = False, df_busy = False,
           df_sent = []\<rparr>)"

definition available_cores :: "core_catalog \<Rightarrow> jsstr \<Rightarrow> jsstr list" where
  "available_cores c p = map fst (filter (\<lambda>k. p \<in> set (snd k)) (cc_cores c))"

definition choose_platform :: "core_catalog \<Rightarrow> jsstr \<Rightarrow> directory_form \<Rightarrow> directory_form" where
  "choose_platform c p f =
     (let k = first_core c p in f\<lparr>df_platform := p, df_cores := (if k = [] then [] else [k]), df_defaultCore := k\<rparr>)"

text \<open>The list of default cores begins with an empty choice.\<close>

definition choose_default :: "core_catalog \<Rightarrow> jsstr \<Rightarrow> directory_form \<Rightarrow> directory_form" where
  "choose_default c k f =
     (if k \<in> set ([] # available_cores c (df_platform f))
      then f\<lparr>df_defaultCore := k, df_cores := (if k \<in> set (df_cores f) then df_cores f else df_cores f @ [k])\<rparr> else f)"

definition toggle_core :: "core_catalog \<Rightarrow> jsstr \<Rightarrow> directory_form \<Rightarrow> directory_form" where
  "toggle_core c k f =
     (if k \<in> set (available_cores c (df_platform f)) \<and> k \<noteq> df_defaultCore f
      then f\<lparr>df_cores := (if k \<in> set (df_cores f) then filter (\<lambda>x. x \<noteq> k) (df_cores f) else df_cores f @ [k])\<rparr> else f)"

definition can_submit :: "directory_form \<Rightarrow> bool" where
  "can_submit f \<longleftrightarrow> \<not> df_busy f \<and> df_cores f \<noteq> [] \<and> df_defaultCore f \<in> set (df_cores f)"

datatype directory_event =
    ChoosePlatform jsstr
  | ChooseDefault jsstr
  | ToggleCore jsstr
  | NameDirectory jsstr
  | SubmitDirectory
  | DirectoryAnswered "nat option"

definition directory_step :: "core_catalog \<Rightarrow> directory_event \<Rightarrow> directory_form \<Rightarrow> directory_form" where
  "directory_step c e f =
     (case e of
        ChoosePlatform p \<Rightarrow> if p \<in> set (cc_platforms c) then choose_platform c p f else f
      | ChooseDefault k \<Rightarrow> choose_default c k f
      | ToggleCore k \<Rightarrow> toggle_core c k f
      | NameDirectory n \<Rightarrow> f\<lparr>df_name := n\<rparr>
      | SubmitDirectory \<Rightarrow>
          if can_submit f
          then f\<lparr>df_busy := True, df_error := False, df_sent := df_sent f @ [(df_platform f, df_cores f, df_defaultCore f)]\<rparr> else f
      | DirectoryAnswered failure \<Rightarrow> if df_busy f then f\<lparr>df_busy := False, df_error := (failure = Some 400)\<rparr> else f)"

section \<open>The own account\<close>

text \<open>A request that changes or removes an account, and not the own one.\<close>

definition spares :: "nat \<Rightarrow> user_request \<Rightarrow> bool" where
  "spares self r \<longleftrightarrow> (case r of SaveUser u \<Rightarrow> us_id u \<noteq> self | DeleteUser u \<Rightarrow> us_id u \<noteq> self | _ \<Rightarrow> True)"

definition users_ok :: "nat \<Rightarrow> user_manager \<Rightarrow> bool" where
  "users_ok self m \<longleftrightarrow> list_all (spares self) (um_sent m) \<and> (case um_deleting m of None \<Rightarrow> True | Some u \<Rightarrow> us_id u \<noteq> self)"

lemma sent_user_ok: "users_ok self m \<Longrightarrow> spares self r \<Longrightarrow> users_ok self (send_user_request r m)"
  by (auto simp: users_ok_def send_user_request_def split: option.splits)

lemma answered_user_ok: "users_ok self m \<Longrightarrow> users_ok self (user_answered a m)"
  by (auto simp: users_ok_def user_answered_def Let_def split: option.split sum.split user_request.split)

lemma users_ok_step: "users_ok self m \<Longrightarrow> users_ok self (user_step self e m)"
proof (cases e)
  case ConfirmDelete
  assume "users_ok self m"
  then show ?thesis using ConfirmDelete
    by (auto simp: user_step_def Let_def intro!: sent_user_ok split: option.split) (simp add: users_ok_def spares_def)
next
  case (UserAnswered a)
  assume "users_ok self m"
  then show ?thesis using UserAnswered answered_user_ok by (simp add: user_step_def)
qed (auto simp: user_step_def Let_def edit_user_def unavailable_def spares_def intro!: sent_user_ok split: option.split,
    auto simp: users_ok_def split: option.splits)

text \<open>No request of the page changes or removes the account of the administrator who uses it.\<close>

theorem own_account_is_spared:
  "list_all (spares self) (um_sent (fold (user_step self) es users_initial))"
proof -
  have "users_ok self (fold (user_step self) es m)" if "users_ok self m" for m
    using that by (induction es arbitrary: m) (simp_all add: users_ok_step)
  moreover have "users_ok self users_initial" by (simp add: users_ok_def users_initial_def)
  ultimately show ?thesis by (simp add: users_ok_def)
qed

section \<open>Directories are well formed\<close>

definition well_formed :: "core_catalog \<Rightarrow> jsstr \<times> jsstr list \<times> jsstr \<Rightarrow> bool" where
  "well_formed c b =
     (case b of (p, cores, def') \<Rightarrow> distinct cores \<and> set cores \<subseteq> set (available_cores c p) \<and> def' \<in> set cores)"

definition form_ok :: "core_catalog \<Rightarrow> directory_form \<Rightarrow> bool" where
  "form_ok c f \<longleftrightarrow>
     distinct (df_cores f) \<and> set (df_cores f) \<subseteq> set (available_cores c (df_platform f)) \<and> list_all (well_formed c) (df_sent f)"

lemma first_core_available: "first_core c p = [] \<or> first_core c p \<in> set (available_cores c p)"
  by (auto simp: first_core_def available_cores_def find_Some_iff image_iff split: option.split)
    (metis nth_mem fst_conv snd_conv)

lemma form_ok_step:
  assumes "form_ok c f" "e \<noteq> ChooseDefault []"
  shows "form_ok c (directory_step c e f)"
  using assms first_core_available [of c]
  by (cases e) (auto simp: directory_step_def choose_platform_def choose_default_def toggle_core_def can_submit_def form_ok_def well_formed_def Let_def)

lemma form_ok_run: "form_ok c f \<Longrightarrow> ChooseDefault [] \<notin> set es \<Longrightarrow> form_ok c (fold (directory_step c) es f)"
  by (induction es arbitrary: f) (auto simp: form_ok_step)

text \<open>
  A new directory is only sent with different cores of its platform, the default core among them, as long as the empty choice of
  a default core was not used.
\<close>

theorem new_directory_is_well_formed:
  assumes "ChooseDefault [] \<notin> set es"
  shows "list_all (well_formed c) (df_sent (fold (directory_step c) es (form_initial c None)))"
proof -
  have "form_ok c (form_initial c None)"
    using first_core_available [of c] by (auto simp: form_ok_def form_initial_def Let_def)
  then show ?thesis using form_ok_run [OF _ assms] by (simp add: form_ok_def)
qed

definition example_catalog :: core_catalog where
  "example_catalog = \<lparr>cc_platforms = [js ''gba'', js ''nes''], cc_cores = [(js ''mgba'', [js ''gba'']), (js ''fceumm'', [js ''nes'']), (js ''nestopia'', [js ''nes''])]\<rparr>"

lemmas directory_simps = form_initial_def directory_step_def choose_platform_def choose_default_def toggle_core_def can_submit_def
  first_core_def available_cores_def example_catalog_def Let_def js_def

theorem new_directory_is_well_formed_witness:
  "let f = fold (directory_step example_catalog) [ChoosePlatform (js ''nes''), ChooseDefault (js ''nestopia''), SubmitDirectory]
       (form_initial example_catalog None) in
   df_sent f = [(js ''nes'', [js ''fceumm'', js ''nestopia''], js ''nestopia'')] \<and> list_all (well_formed example_catalog) (df_sent f)"
  using new_directory_is_well_formed [of "[ChoosePlatform (js ''nes''), ChooseDefault (js ''nestopia''), SubmitDirectory]" example_catalog]
  by (simp add: directory_simps)

text \<open>The empty choice is taken into the list of cores, and only another platform takes it out again; the list can be sent with it.\<close>

lemma empty_core_stays:
  "[] \<in> set (df_cores f) \<Longrightarrow> [] \<notin> set (available_cores c (df_platform f)) \<Longrightarrow> \<forall>p. ChoosePlatform p \<notin> set es \<Longrightarrow>
   [] \<in> set (df_cores (fold (directory_step c) es f))"
proof (induction es arbitrary: f)
  case (Cons e es)
  have "[] \<in> set (df_cores (directory_step c e f)) \<and> df_platform (directory_step c e f) = df_platform f"
    using Cons.prems by (cases e) (auto simp: directory_step_def choose_default_def toggle_core_def)
  then show ?case using Cons by simp
qed simp

lemma empty_core_is_sent:
  "df_sent (fold (directory_step example_catalog) [ChooseDefault [], ChooseDefault (js ''mgba''), SubmitDirectory] (form_initial example_catalog None)) =
    [(js ''gba'', [js ''mgba'', []], js ''mgba'')]"
  by (simp add: directory_simps)

section \<open>The last item of a page\<close>

text \<open>
  When the only link of the last page is revoked, its page is empty; if the others fill the pages before it exactly, the buttons that
  lead back to them are gone as well.
\<close>

lemma last_link_hides_the_others:
  "let s = fold link_step [NextLinks, AskRevoke 24, ConfirmRevoke, RevokeAnswered True] (link_list_initial (map (\<lambda>i. (i, LinkActive)) [0..<25])) in
   link_page s = ([], 24) \<and> \<not> pager_shown 24 24 \<and> fold link_step [PreviousLinks, PreviousLinks] s = s"
  by (simp add: link_step_def link_list_initial_def link_page_def listed_links_def pager_shown_def link_next_enabled_def no_removal_def
      removal_confirmed_def removal_answered_def upt_conv_Cons Let_def)

end
