(* ===== verification/Player_Aids.thy ===== *)
theory Player_Aids
  imports Provider_Contract
begin

text \<open>
  The small hooks around a running game (\<open>web/features/player\<close>): the bar of controls that fades (\<open>use-player-hud.ts\<close>), the shortcuts a
  runtime passes on (\<open>use-runtime-shortcuts.ts\<close>), the measured frame rate (\<open>player-debug.ts\<close>), the on-screen gamepad
  (\<open>use-player-touch-gamepad.ts\<close>), the volume (\<open>use-player-volume.ts\<close>), the panels for which the game is paused
  (\<open>use-player-settings.ts\<close>, \<open>use-player-editor.ts\<close>) and the cover taken in a review (\<open>use-review-cover.ts\<close>).
\<close>

definition playable :: "RuntimeStateV1 \<Rightarrow> bool" where
  "playable st \<longleftrightarrow> st = RUNNING \<or> st = PAUSED"

section \<open>The bar of controls\<close>

text \<open>\<open>hu_display\<close> is the last state that was not a checkpoint; \<open>hu_timer\<close>: the timer that hides the bar is set.\<close>

record player_hud =
  hu_display :: RuntimeStateV1
  hu_pinned :: bool
  hu_desktop :: bool
  hu_revealed :: bool
  hu_hovered :: bool
  hu_focused :: bool
  hu_revision :: nat
  hu_dismissed :: bool
  hu_touch :: bool
  hu_timer :: bool

definition hud_held :: "player_hud \<Rightarrow> bool" where
  "hud_held s \<longleftrightarrow>
     (hu_display s \<noteq> RUNNING \<and> \<not> (hu_desktop s \<and> hu_display s = PAUSED)) \<or> hu_pinned s \<or> hu_hovered s \<or> hu_focused s \<or>
     (\<not> hu_desktop s \<and> hu_touch s)"

definition hud_visible :: "player_hud \<Rightarrow> bool" where
  "hud_visible s \<longleftrightarrow>
     hu_pinned s \<or> (hu_display s \<noteq> RUNNING \<and> hu_display s \<noteq> PAUSED) \<or> (\<not> hu_dismissed s \<and> (hud_held s \<or> hu_revealed s))"

text \<open>The effect on \<open>held\<close> and \<open>revision\<close>: its cleanup clears the timer, and a bar that nothing holds gets a new one.\<close>

definition hud_effect :: "player_hud \<Rightarrow> player_hud \<Rightarrow> player_hud" where
  "hud_effect s t = (if (hud_held t, hu_revision t) \<noteq> (hud_held s, hu_revision s) then t\<lparr>hu_timer := \<not> hud_held t\<rparr> else t)"

definition hud_initial :: "RuntimeStateV1 \<Rightarrow> bool \<Rightarrow> bool \<Rightarrow> player_hud" where
  "hud_initial st pinned desktop =
     (let s = \<lparr>hu_display = st, hu_pinned = pinned, hu_desktop = desktop, hu_revealed = True, hu_hovered = False, hu_focused = False,
               hu_revision = 0, hu_dismissed = False, hu_touch = False, hu_timer = False\<rparr> in
      s\<lparr>hu_timer := \<not> hud_held s\<rparr>)"

definition display_state :: "RuntimeStateV1 \<Rightarrow> player_hud \<Rightarrow> player_hud" where
  "display_state st s = (if st = CHECKPOINTING then s else s\<lparr>hu_display := st\<rparr>)"

definition show_hud :: "player_hud \<Rightarrow> player_hud" where
  "show_hud s = s\<lparr>hu_dismissed := False, hu_touch := True, hu_revealed := True, hu_revision := hu_revision s + 1\<rparr>"

definition hover_hud :: "bool \<Rightarrow> player_hud \<Rightarrow> player_hud" where
  "hover_hud v s =
     (if \<not> hu_desktop s then s
      else (if v then s\<lparr>hu_dismissed := False, hu_hovered := True\<rparr> else s\<lparr>hu_hovered := False, hu_revealed := False\<rparr>))"

definition hide_hud :: "player_hud \<Rightarrow> player_hud" where
  "hide_hud s = s\<lparr>hu_revealed := False, hu_hovered := False, hu_focused := False, hu_touch := False, hu_dismissed := True\<rparr>"

definition focus_hud :: "bool \<Rightarrow> player_hud \<Rightarrow> player_hud" where
  "focus_hud v s = s\<lparr>hu_focused := v, hu_dismissed := (if v then False else hu_dismissed s)\<rparr>"

datatype hud_event =
    HudState RuntimeStateV1
  | HudPinned bool
  | HudPointer bool
  | HudShow
  | HudHover bool
  | HudHide
  | HudFocus bool
  | HudTimer

definition hud_step :: "hud_event \<Rightarrow> player_hud \<Rightarrow> player_hud" where
  "hud_step e s =
     hud_effect s
       (case e of
          HudState st \<Rightarrow> display_state st s
        | HudPinned b \<Rightarrow> s\<lparr>hu_pinned := b\<rparr>
        | HudPointer b \<Rightarrow> s\<lparr>hu_desktop := b\<rparr>
        | HudShow \<Rightarrow> show_hud s
        | HudHover b \<Rightarrow> hover_hud b s
        | HudHide \<Rightarrow> hide_hud s
        | HudFocus b \<Rightarrow> focus_hud b s
        | HudTimer \<Rightarrow> if hu_timer s then s\<lparr>hu_revealed := False, hu_timer := False\<rparr> else s)"

text \<open>A bar that is shown is held, or the timer is set that will hide it; and a checkpoint neither shows nor hides it.\<close>

definition hud_fades :: "player_hud \<Rightarrow> bool" where
  "hud_fades s \<longleftrightarrow> (hud_visible s \<longrightarrow> hud_held s \<or> hu_timer s) \<and> hud_step (HudState CHECKPOINTING) s = s"

definition hud_ok :: "player_hud \<Rightarrow> bool" where
  "hud_ok s \<longleftrightarrow> (hud_held s \<longrightarrow> \<not> hu_timer s) \<and> (\<not> hud_held s \<and> hu_revealed s \<longrightarrow> hu_timer s)"

lemma held_timer [simp]: "hud_held (s\<lparr>hu_timer := b\<rparr>) = hud_held s" "hud_held (s\<lparr>hu_revealed := b\<rparr>) = hud_held s"
  by (simp_all add: hud_held_def)

lemma visible_unheld: "hud_visible s \<Longrightarrow> \<not> hud_held s \<Longrightarrow> hu_revealed s"
  unfolding hud_visible_def hud_held_def by blast

lemma hud_effect_ok:
  assumes "hud_ok s" "hu_timer t = hu_timer s" "hu_revealed t \<Longrightarrow> hu_revealed s \<or> hu_revision t \<noteq> hu_revision s"
  shows "hud_ok (hud_effect s t)"
  using assms by (cases "hud_held s"; cases "hud_held t") (auto simp: hud_ok_def hud_effect_def)

lemma hud_ok_step:
  assumes "hud_ok s"
  shows "hud_ok (hud_step e s)"
proof (cases e)
  case HudTimer
  then show ?thesis using assms by (auto simp: hud_step_def hud_effect_def hud_ok_def)
qed (use assms in \<open>auto simp: hud_step_def display_state_def show_hud_def hover_hud_def hide_hud_def focus_hud_def intro!: hud_effect_ok\<close>)

text \<open>Whatever happens to it, a bar of controls that is shown without anything holding it is about to fade, and a checkpoint does not bring it up.\<close>

theorem controls_fade:
  "hud_fades (fold hud_step es (hud_initial st pinned desktop))"
proof -
  have "hud_ok (fold hud_step es s)" if "hud_ok s" for s
    using that by (induction es arbitrary: s) (simp_all add: hud_ok_step)
  moreover have "hud_ok (s\<lparr>hu_timer := \<not> hud_held s\<rparr>)" for s by (simp add: hud_ok_def)
  then have "hud_ok (hud_initial st pinned desktop)" unfolding hud_initial_def Let_def .
  ultimately have "hud_ok (fold hud_step es (hud_initial st pinned desktop))" .
  then show ?thesis
    by (auto simp: hud_fades_def hud_ok_def hud_step_def hud_effect_def display_state_def dest: visible_unheld)
qed

section \<open>Shortcuts of the runtime\<close>

datatype host_shortcut = MenuShortcut | PauseShortcut

datatype shortcut_call = OpenMenu | TogglePause

definition receive_shortcut :: "host_shortcut set \<Rightarrow> bool \<Rightarrow> bool \<Rightarrow> host_shortcut \<Rightarrow> shortcut_call option" where
  "receive_shortcut allowed immersive suppressed k =
     (if suppressed \<or> k \<notin> allowed then None
      else if k = MenuShortcut then Some OpenMenu
      else if \<not> immersive then Some TogglePause else None)"

text \<open>The subscription only passes on what arrives while the runtime says it can be played.\<close>

definition shortcut_event :: "RuntimeStateV1 \<Rightarrow> RuntimeStateV1 \<Rightarrow> host_shortcut set \<Rightarrow> bool \<Rightarrow> bool \<Rightarrow> host_shortcut \<Rightarrow> shortcut_call option" where
  "shortcut_event state now allowed immersive suppressed k =
     (if playable state \<and> playable now then receive_shortcut allowed immersive suppressed k else None)"

datatype menu_key = KeyMenuM | KeyEscape

text \<open>What the runtime is told to watch for: a key for the menu, and whether for the pause key.\<close>

definition shortcut_policy :: "host_shortcut set \<Rightarrow> bool \<Rightarrow> bool \<Rightarrow> (menu_key option \<times> bool) option" where
  "shortcut_policy allowed immersive suppressed =
     (if suppressed then None
      else Some (if MenuShortcut \<in> allowed then Some (if immersive then KeyMenuM else KeyEscape) else None,
                 \<not> immersive \<and> PauseShortcut \<in> allowed))"

definition policy_sent :: "RuntimeStateV1 \<Rightarrow> RuntimeStateV1 \<Rightarrow> host_shortcut set \<Rightarrow> bool \<Rightarrow> bool \<Rightarrow> (menu_key option \<times> bool) option option" where
  "policy_sent state now allowed immersive suppressed =
     (if playable state \<and> playable now then Some (shortcut_policy allowed immersive suppressed) else None)"

definition policy_grants :: "(menu_key option \<times> bool) option \<Rightarrow> host_shortcut \<Rightarrow> bool" where
  "policy_grants p k = (case p of None \<Rightarrow> False | Some (menu, pause) \<Rightarrow> (case k of MenuShortcut \<Rightarrow> menu \<noteq> None | PauseShortcut \<Rightarrow> pause))"

text \<open>The page acts on a shortcut of the runtime exactly when the policy it gives to the runtime in the same state asks for it.\<close>

theorem shortcuts_follow_their_policy:
  "(shortcut_event state now allowed immersive suppressed k \<noteq> None) =
    (case policy_sent state now allowed immersive suppressed of None \<Rightarrow> False | Some p \<Rightarrow> policy_grants p k)"
  by (cases k) (auto simp: shortcut_event_def policy_sent_def receive_shortcut_def shortcut_policy_def policy_grants_def)

section \<open>The measured frame rate\<close>

text \<open>Times and counts are rationals; a count that is no finite number of zero or more is none.\<close>

definition bounded_number :: "jsnum option \<Rightarrow> rat option" where
  "bounded_number v = (case v of Some (Fin r) \<Rightarrow> if 0 \<le> r then Some r else None | _ \<Rightarrow> None)"

definition js_round :: "rat \<Rightarrow> int" where
  "js_round r = \<lfloor>r + 1 / 2\<rfloor>"

definition sampledFPS :: "(rat option \<times> rat) option \<Rightarrow> rat option \<Rightarrow> rat \<Rightarrow> rat option" where
  "sampledFPS previous count at' =
     (case (previous, count) of
        (Some (Some before, t), Some n) \<Rightarrow>
          if at' - t \<le> 0 \<or> n - before < 0 then None else Some (of_int (js_round ((n - before) * 1000 / (at' - t) * 10)) / 10)
      | _ \<Rightarrow> None)"

record debug_metrics =
  dm_fps :: "rat option"
  dm_frameCount :: "rat option"
  dm_canvas :: "rat option \<times> rat option"
  dm_viewport :: "int \<times> int"
  dm_pixelRatio :: rat

definition canvas_side :: "jsnum option \<Rightarrow> rat option" where
  "canvas_side v = (case bounded_number v of Some r \<Rightarrow> if 0 < r then Some r else None | None \<Rightarrow> None)"

text \<open>\<open>count\<close> is what the runtime answers, \<open>None\<close> when there is none or it throws.\<close>

definition sample_metrics ::
  "jsnum option \<Rightarrow> jsnum option \<times> jsnum option \<Rightarrow> (rat option \<times> rat) option \<Rightarrow> rat \<Rightarrow> rat \<times> rat \<times> rat \<Rightarrow> debug_metrics \<times> (rat option \<times> rat)" where
  "sample_metrics count canvas previous at' viewport =
     (let n = bounded_number count in
      case viewport of (w, h, ratio) \<Rightarrow>
      (\<lparr>dm_fps = sampledFPS previous n at', dm_frameCount = n, dm_canvas = (canvas_side (fst canvas), canvas_side (snd canvas)),
        dm_viewport = (max 0 (js_round w), max 0 (js_round h)), dm_pixelRatio = max 0 ratio\<rparr>, (n, at')))"

text \<open>Two samples in order give the rate between them to a tenth, and never a negative one.\<close>

theorem frame_rate_is_measured:
  assumes "(m1, s1) = sample_metrics c1 v1 p t1 w1" "(m2, s2) = sample_metrics c2 v2 (Some s1) t2 w2" "dm_fps m2 = Some f"
  shows "\<exists>a b. dm_frameCount m1 = Some a \<and> dm_frameCount m2 = Some b \<and> a \<le> b \<and> t1 < t2 \<and> 0 \<le> f \<and>
    \<bar>f - (b - a) * 1000 / (t2 - t1)\<bar> \<le> 1 / 20"
proof -
  have close: "0 \<le> of_int (js_round (x * 10)) / (10 :: rat) \<and> \<bar>of_int (js_round (x * 10)) / 10 - x\<bar> \<le> (1 / 20 :: rat)" if "0 \<le> x" for x :: rat
  proof -
    have "0 \<le> js_round (x * 10)" using that by (simp add: js_round_def)
    moreover have "x * 10 - 1 / 2 \<le> of_int (js_round (x * 10))" "of_int (js_round (x * 10)) \<le> x * 10 + 1 / 2"
      unfolding js_round_def by linarith+
    ultimately have "0 \<le> of_int (js_round (x * 10)) / (10 :: rat)" "of_int (js_round (x * 10)) / 10 - x \<le> 1 / 20"
      "- (of_int (js_round (x * 10)) / 10 - x) \<le> 1 / 20" by simp_all
    then show ?thesis by (simp only: abs_le_iff)
  qed
  obtain a b where n: "dm_frameCount m1 = Some a" "dm_frameCount m2 = Some b"
    and f: "t1 < t2" "a \<le> b" "f = of_int (js_round ((b - a) * 1000 / (t2 - t1) * 10)) / 10"
    using assms by (cases w1; cases w2) (auto simp: sample_metrics_def Let_def sampledFPS_def split: option.splits if_splits)
  have "0 \<le> (b - a) * 1000 / (t2 - t1)" using f by simp
  from close [OF this] show ?thesis using n f by (metis (no_types))
qed

theorem frame_rate_is_measured_witness:
  "let (m1, s1) = sample_metrics (Some (Fin 100)) (None, None) None 1000 (800, 600, 1);
       (m2, s2) = sample_metrics (Some (Fin 160)) (None, None) (Some s1) 2000 (800, 600, 1) in
   dm_fps m2 = Some 60 \<and> \<bar>60 - (160 - 100) * 1000 / (2000 - 1000)\<bar> \<le> (1 / 20 :: rat)"
  using frame_rate_is_measured [of _ _ "Some (Fin 100)" "(None, None)" None 1000 "(800, 600, 1)" _ _ "Some (Fin 160)" "(None, None)" 2000 "(800, 600, 1)" 60]
  by (simp add: sample_metrics_def Let_def sampledFPS_def bounded_number_def js_round_def floor_eq_iff)

section \<open>The on-screen gamepad\<close>

text \<open>\<open>tp_controls\<close>: the runtime has such a gamepad, and whether it is shown. \<open>tp_flight\<close> is the value of \<open>setEnabled\<close> that has not answered,
  \<open>tp_preference\<close> what the storage of the browser holds for the core.\<close>

record touch_pad =
  tp_controls :: "bool option"
  tp_flight :: "bool option"
  tp_sent :: "bool list"
  tp_preference :: "bool option"
  tp_changes :: nat
  tp_errors :: nat

definition touch_value :: "RuntimeStateV1 \<Rightarrow> touch_pad \<Rightarrow> bool option" where
  "touch_value st s = (if playable st \<or> st = CHECKPOINTING then tp_controls s else None)"

definition toggle_pad :: "touch_pad \<Rightarrow> touch_pad" where
  "toggle_pad s =
     (case tp_controls s of
        None \<Rightarrow> s
      | Some shown \<Rightarrow> if tp_flight s \<noteq> None then s else s\<lparr>tp_flight := Some (\<not> shown), tp_sent := tp_sent s @ [\<not> shown]\<rparr>)"

text \<open>\<open>writable\<close>: the storage of the browser can be written; where it cannot, the choice still holds.\<close>

definition pad_answered :: "bool \<Rightarrow> bool \<Rightarrow> touch_pad \<Rightarrow> touch_pad" where
  "pad_answered ok writable s =
     (case tp_flight s of
        None \<Rightarrow> s
      | Some v \<Rightarrow>
          (if ok then s\<lparr>tp_preference := (if writable then Some v else tp_preference s), tp_changes := tp_changes s + 1\<rparr>
           else s\<lparr>tp_errors := tp_errors s + 1\<rparr>)\<lparr>tp_flight := None\<rparr>)"

datatype pad_event = PadToggle | PadAnswered bool bool | PadChanges "bool option"

definition pad_step :: "pad_event \<Rightarrow> touch_pad \<Rightarrow> touch_pad" where
  "pad_step e s =
     (case e of PadToggle \<Rightarrow> toggle_pad s | PadAnswered ok writable \<Rightarrow> pad_answered ok writable s | PadChanges c \<Rightarrow> s\<lparr>tp_controls := c\<rparr>)"

definition pad_initial :: "bool option \<Rightarrow> touch_pad" where
  "pad_initial c = \<lparr>tp_controls = c, tp_flight = None, tp_sent = [], tp_preference = None, tp_changes = 0, tp_errors = 0\<rparr>"

text \<open>Every request has one answer before the next is made: the requests are the changes, the errors and the one under way.\<close>

lemma pad_requests_in_turn:
  "s = fold pad_step es (pad_initial c) \<Longrightarrow> length (tp_sent s) = tp_changes s + tp_errors s + (if tp_flight s = None then 0 else 1)"
proof -
  have "length (tp_sent (fold pad_step es s)) = tp_changes (fold pad_step es s) + tp_errors (fold pad_step es s) + (if tp_flight (fold pad_step es s) = None then 0 else 1)"
    if "length (tp_sent s) = tp_changes s + tp_errors s + (if tp_flight s = None then 0 else 1)" for s
    using that
  proof (induction es arbitrary: s)
    case (Cons e es)
    have "length (tp_sent (pad_step e s)) = tp_changes (pad_step e s) + tp_errors (pad_step e s) + (if tp_flight (pad_step e s) = None then 0 else 1)"
      using Cons.prems by (auto simp: pad_step_def toggle_pad_def pad_answered_def split: pad_event.split option.split)
    then show ?case using Cons.IH by simp
  qed simp
  then show "s = fold pad_step es (pad_initial c) \<Longrightarrow> ?thesis" by (simp add: pad_initial_def)
qed

section \<open>The volume\<close>

text \<open>Runtimes are numbered; \<open>vo_flights\<close> are the calls that have not answered. A volume is a number of percent.\<close>

record volume_aid =
  vo_state :: RuntimeStateV1
  vo_runtime :: "(nat \<times> bool) option"
  vo_volume :: nat
  vo_applied :: "(nat \<times> nat) option"
  vo_calls :: "(nat \<times> nat) list"
  vo_flights :: nat
  vo_errors :: nat
  vo_saved :: "(nat \<times> bool) list"

definition volume_initial :: "bool \<Rightarrow> nat \<times> bool \<Rightarrow> RuntimeStateV1 \<Rightarrow> volume_aid" where
  "volume_initial immersive preference st =
     \<lparr>vo_state = st, vo_runtime = None, vo_volume = (if immersive then if snd preference then 0 else fst preference else 100), vo_applied = None,
      vo_calls = [], vo_flights = 0, vo_errors = 0, vo_saved = []\<rparr>"

text \<open>The effect on the state and the volume; a runtime is given with whether its volume can be set.\<close>

definition volume_effect :: "volume_aid \<Rightarrow> volume_aid" where
  "volume_effect s =
     (case vo_runtime s of
        Some (i, True) \<Rightarrow>
          if \<not> playable (vo_state s) \<or> vo_applied s = Some (i, vo_volume s) then s
          else s\<lparr>vo_applied := Some (i, vo_volume s), vo_calls := vo_calls s @ [(i, vo_volume s)], vo_flights := vo_flights s + 1\<rparr>
      | _ \<Rightarrow> s)"

definition change_volume :: "bool \<Rightarrow> nat \<Rightarrow> volume_aid \<Rightarrow> volume_aid" where
  "change_volume immersive v s =
     (let t = s\<lparr>vo_volume := v, vo_saved := (if immersive then vo_saved s @ [(v, v = 0)] else vo_saved s)\<rparr> in
      if v = vo_volume s then t else volume_effect t)"

datatype volume_event = VolumeState RuntimeStateV1 "(nat \<times> bool) option" | VolumeChange nat | VolumeAnswered bool

definition volume_step :: "bool \<Rightarrow> volume_event \<Rightarrow> volume_aid \<Rightarrow> volume_aid" where
  "volume_step immersive e s =
     (case e of
        VolumeState st r \<Rightarrow> (let t = s\<lparr>vo_state := st, vo_runtime := r\<rparr> in if st = vo_state s then t else volume_effect t)
      | VolumeChange v \<Rightarrow> change_volume immersive v s
      | VolumeAnswered ok \<Rightarrow>
          if vo_flights s = 0 then s
          else (if ok then s else s\<lparr>vo_applied := None, vo_errors := vo_errors s + 1\<rparr>)\<lparr>vo_flights := vo_flights s - 1\<rparr>)"

definition volume_ok :: "volume_aid \<Rightarrow> bool" where
  "volume_ok s \<longleftrightarrow> (case vo_applied s of None \<Rightarrow> True | Some p \<Rightarrow> vo_calls s \<noteq> [] \<and> last (vo_calls s) = p)"

text \<open>What the page takes as applied is what it asked for last; so a volume that is set back is asked for again.\<close>

lemma volume_applied_is_last: "volume_ok (fold (volume_step immersive) es (volume_initial immersive preference st))"
proof -
  have "volume_ok (volume_step immersive e s)" if "volume_ok s" for e s
    using that by (auto simp: volume_ok_def volume_step_def volume_effect_def change_volume_def Let_def split: volume_event.split option.splits bool.splits)
  then have "volume_ok (fold (volume_step immersive) es s)" if "volume_ok s" for s
    using that by (induction es arbitrary: s) simp_all
  then show ?thesis by (simp add: volume_ok_def volume_initial_def)
qed

section \<open>Panels for which the game is paused\<close>

text \<open>What the code reads of the runtime when a panel is asked for: its state, whether it can pause, whether it has an editor.\<close>

record panel_view =
  pv_state :: RuntimeStateV1
  pv_pause :: bool
  pv_editor :: bool

datatype panel_kind = SettingsPanel | EditorPanel

text \<open>\<open>pp_pauses\<close> are the calls of \<open>pause()\<close> under way and the panels that wait for them; only the editor has a mark against a second one.\<close>

record player_panels =
  pp_settings :: bool
  pp_editor :: bool
  pp_opening :: bool
  pp_pauses :: "panel_kind list"
  pp_errors :: nat

definition panels_initial :: player_panels where
  "panels_initial = \<lparr>pp_settings = False, pp_editor = False, pp_opening = False, pp_pauses = [], pp_errors = 0\<rparr>"

definition open_panel :: "panel_kind \<Rightarrow> player_panels \<Rightarrow> player_panels" where
  "open_panel k s = (case k of SettingsPanel \<Rightarrow> s\<lparr>pp_settings := True\<rparr> | EditorPanel \<Rightarrow> s\<lparr>pp_editor := True, pp_opening := False\<rparr>)"

definition pause_for :: "panel_kind \<Rightarrow> panel_view \<Rightarrow> player_panels \<Rightarrow> player_panels" where
  "pause_for k v s = (if pv_state v = RUNNING \<and> pv_pause v then s\<lparr>pp_pauses := pp_pauses s @ [k]\<rparr> else open_panel k s)"

definition show_settings :: "panel_view \<Rightarrow> player_panels \<Rightarrow> player_panels" where
  "show_settings v s = (if playable (pv_state v) then pause_for SettingsPanel v s else s)"

text \<open>The editor is that of the last render, in whose state \<open>state\<close> it was looked for.\<close>

definition show_editor :: "RuntimeStateV1 \<Rightarrow> panel_view \<Rightarrow> player_panels \<Rightarrow> player_panels" where
  "show_editor state v s =
     (if \<not> (playable state \<and> pv_editor v) \<or> pp_opening s then s else pause_for EditorPanel v (s\<lparr>pp_opening := True\<rparr>))"

definition pause_answered :: "nat \<Rightarrow> bool \<Rightarrow> player_panels \<Rightarrow> player_panels" where
  "pause_answered i ok s =
     (if length (pp_pauses s) \<le> i then s
      else let k = pp_pauses s ! i; t = s\<lparr>pp_pauses := remove_at i (pp_pauses s)\<rparr> in
      if ok then open_panel k t else t\<lparr>pp_errors := pp_errors s + 1, pp_opening := (if k = EditorPanel then False else pp_opening s)\<rparr>)"

datatype panel_event =
    AskSettings panel_view
  | AskEditor RuntimeStateV1 panel_view
  | PauseAnswered nat bool
  | SettingsClosed
  | EditorClosed

definition panel_step :: "panel_event \<Rightarrow> player_panels \<Rightarrow> player_panels" where
  "panel_step e s =
     (case e of
        AskSettings v \<Rightarrow> show_settings v s
      | AskEditor st v \<Rightarrow> show_editor st v s
      | PauseAnswered i ok \<Rightarrow> pause_answered i ok s
      | SettingsClosed \<Rightarrow> s\<lparr>pp_settings := False\<rparr>
      | EditorClosed \<Rightarrow> s\<lparr>pp_editor := False\<rparr>)"

lemma count_remove_at: "i < length xs \<Longrightarrow> count_list (remove_at i xs) x = count_list xs x - (if xs ! i = x then 1 else 0)"
proof -
  assume i: "i < length xs"
  have "count_list xs x = count_list (take i xs) x + count_list (xs ! i # drop (Suc i) xs) x"
    using i by (metis append_take_drop_id Cons_nth_drop_Suc count_list_append)
  then show ?thesis by (simp add: remove_at_def)
qed

text \<open>The editor waits for one pause at a time, and its button is only held back while that pause is under way, failures included.\<close>

lemma editor_waits_once:
  "count_list (pp_pauses (fold panel_step es panels_initial)) EditorPanel = (if pp_opening (fold panel_step es panels_initial) then 1 else 0)"
proof -
  let ?ok = "\<lambda>s. count_list (pp_pauses s) EditorPanel = (if pp_opening s then 1 else 0)"
  have answer: "?ok (pause_answered i ok s)" if "?ok s" for i ok s
  proof (cases "i < length (pp_pauses s)")
    case True
    then show ?thesis using that
      by (cases "pp_pauses s ! i")
        (auto simp: pause_answered_def open_panel_def Let_def count_remove_at simp del: count_list_0_iff split: if_splits)
  qed (use that in \<open>simp add: pause_answered_def\<close>)
  have "?ok (panel_step e s)" if "?ok s" for e s
    using that by (cases e) (auto simp: panel_step_def show_settings_def show_editor_def pause_for_def open_panel_def answer split: if_splits)
  then have "?ok (fold panel_step es s)" if "?ok s" for s using that by (induction es arbitrary: s) simp_all
  then show ?thesis by (simp add: panels_initial_def)
qed

section \<open>The cover taken in a review\<close>

datatype cover_call = TakeScreenshot | ReadReview | UploadCover nat

text \<open>The answers: whether there is a screenshot, the version of the game, whether the upload went well. The result is the calls and the
  tone of the notice, \<open>None\<close> where nothing is done.\<close>

definition save_cover :: "bool \<Rightarrow> bool \<Rightarrow> bool \<Rightarrow> nat option \<Rightarrow> bool \<Rightarrow> cover_call list \<times> bool option" where
  "save_cover runtime review screenshot detail uploaded =
     (if \<not> runtime \<or> \<not> review then ([], None)
      else if \<not> screenshot then ([TakeScreenshot], Some False)
      else case detail of
        None \<Rightarrow> ([TakeScreenshot, ReadReview], Some False)
      | Some v \<Rightarrow> ([TakeScreenshot, ReadReview, UploadCover v], Some uploaded))"

lemma cover_notice_is_true: "snd (save_cover runtime review screenshot detail uploaded) = Some True \<longleftrightarrow>
  uploaded \<and> (\<exists>v. UploadCover v \<in> set (fst (save_cover runtime review screenshot detail uploaded)))"
  by (auto simp: save_cover_def split: option.split)

end
