(* ===== verification/Save_Library.thy ===== *)
theory Save_Library
  imports Prelude
begin

text \<open>
  The page of the saves (\<open>web/features/saves\<close>): its filters (\<open>save-filters.tsx\<close>, \<open>save-game-filter.tsx\<close>, \<open>save-manager.tsx\<close>), the groups by
  game (\<open>save-groups.tsx\<close>), the card of a save with its menu and dialogue (\<open>save-card.tsx\<close>), the save shown at the top
  (\<open>save-featured.tsx\<close>), the drafts that wait (\<open>draft-recovery.tsx\<close> of the player), and the query of the games played last
  (\<open>web/features/recent/recent-history.tsx\<close>).
\<close>

section \<open>Filters and queries\<close>

datatype save_kind = CheckpointSave | GameSave

datatype save_sort = SortRecent | SortTitle

record save_filters =
  sf_q :: jsstr
  sf_gameId :: jsstr
  sf_kind :: "save_kind option"
  sf_sort :: save_sort

definition filters_initial :: "jsstr \<Rightarrow> save_filters" where
  "filters_initial gameId = \<lparr>sf_q = [], sf_gameId = gameId, sf_kind = None, sf_sort = SortRecent\<rparr>"

text \<open>The value of a choice is a text; one that is not listed counts as the first choice.\<close>

definition saveKind :: "jsstr \<Rightarrow> save_kind option" where
  "saveKind v = (if v = js ''game_save'' then Some GameSave else if v = js ''checkpoint'' then Some CheckpointSave else None)"

definition kind_text :: "save_kind option \<Rightarrow> jsstr" where
  "kind_text k = (case k of None \<Rightarrow> [] | Some GameSave \<Rightarrow> js ''game_save'' | Some CheckpointSave \<Rightarrow> js ''checkpoint'')"

definition save_sort_of :: "jsstr \<Rightarrow> save_sort" where
  "save_sort_of v = (if v = js ''title'' then SortTitle else SortRecent)"

datatype filter_change = ChangeQuery jsstr | ChangeGame jsstr | ChangeKind jsstr | ChangeSort jsstr

definition change_filters :: "filter_change \<Rightarrow> save_filters \<Rightarrow> save_filters" where
  "change_filters c f =
     (case c of
        ChangeQuery q \<Rightarrow> f\<lparr>sf_q := q\<rparr>
      | ChangeGame g \<Rightarrow> f\<lparr>sf_gameId := g\<rparr>
      | ChangeKind v \<Rightarrow> f\<lparr>sf_kind := saveKind v\<rparr>
      | ChangeSort v \<Rightarrow> f\<lparr>sf_sort := save_sort_of v\<rparr>)"

text \<open>The query of a page: an empty choice is not sent.\<close>

record saves_query =
  sq_q :: jsstr
  sq_gameId :: "jsstr option"
  sq_kind :: "save_kind option"
  sq_sort :: save_sort
  sq_offset :: nat
  sq_limit :: nat

definition saves_query_of :: "save_filters \<Rightarrow> nat \<Rightarrow> nat \<Rightarrow> saves_query" where
  "saves_query_of f offset limit =
     \<lparr>sq_q = sf_q f, sq_gameId = (if sf_gameId f = [] then None else Some (sf_gameId f)), sq_kind = sf_kind f, sq_sort = sf_sort f,
      sq_offset = offset, sq_limit = limit\<rparr>"

lemma kind_text_back: "saveKind (kind_text k) = k"
  by (cases k) (auto simp: saveKind_def kind_text_def js_eval split: save_kind.split)

text \<open>The games played last: the day is the number of days since 1970 of the chosen date, whose time the code reads as UTC.\<close>

record recent_query =
  rq_q :: jsstr
  rq_directory :: "jsstr option"
  rq_sort :: save_sort
  rq_afterMs :: "int option"
  rq_offset :: nat
  rq_limit :: nat

definition recent_query_of :: "jsstr \<Rightarrow> jsstr \<Rightarrow> save_sort \<Rightarrow> int option \<Rightarrow> nat \<Rightarrow> nat \<Rightarrow> recent_query" where
  "recent_query_of q directory sort' day offset limit =
     \<lparr>rq_q = q, rq_directory = (if directory = [] then None else Some directory), rq_sort = sort',
      rq_afterMs = map_option (\<lambda>d. d * 86400000) day, rq_offset = offset, rq_limit = limit\<rparr>"

text \<open>Where the clock is eight hours ahead of UTC, a game played in the morning of the chosen day is left out.\<close>

lemma morning_is_left_out:
  assumes "local_time = 5 * 3600000 + day * 86400000" "utc = local_time - 8 * 3600000"
  shows "case rq_afterMs (recent_query_of q d sort' (Some day) 0 n) of Some t \<Rightarrow> utc < t | None \<Rightarrow> False"
  using assms by (simp add: recent_query_of_def)

section \<open>The choice of a game\<close>

text \<open>Games are their id and their title. \<open>games\<close> is the page that is loaded, \<open>selected\<close> the game of the filter once it is loaded.\<close>

record game_filter =
  gf_search :: jsstr
  gf_open :: bool
  gf_offset :: nat

definition game_options :: "(jsstr \<times> jsstr) list \<Rightarrow> (jsstr \<times> jsstr) option \<Rightarrow> (jsstr, jsstr) amap" where
  "game_options games selected =
     (let m = amap_from fst snd games in case selected of None \<Rightarrow> m | Some g \<Rightarrow> amap_put (fst g) (snd g) m)"

text \<open>The values of the choices: none, the game of the filter where it is not listed, and the games.\<close>

definition game_choices :: "jsstr \<Rightarrow> (jsstr \<times> jsstr) list \<Rightarrow> (jsstr \<times> jsstr) option \<Rightarrow> jsstr list" where
  "game_choices gameId games selected =
     [[]] @ (if gameId \<noteq> [] \<and> \<not> amap_has (game_options games selected) gameId then [gameId] else []) @ amap_keys (game_options games selected)"

datatype filter_event = TypeGame jsstr | OpenGames | CloseGames | PickGame jsstr | PreviousGames | NextGames "nat option"

text \<open>The step gives the new state and the game that is handed on; \<open>NextGames\<close> has the number of games of the page that is loaded.\<close>

definition filter_step :: "filter_event \<Rightarrow> game_filter \<Rightarrow> game_filter \<times> jsstr option" where
  "filter_step e s =
     (case e of
        TypeGame t \<Rightarrow> (s\<lparr>gf_search := t, gf_offset := 0\<rparr>, None)
      | OpenGames \<Rightarrow> (s\<lparr>gf_open := True\<rparr>, None)
      | CloseGames \<Rightarrow> (s\<lparr>gf_open := False\<rparr>, None)
      | PickGame g \<Rightarrow> (s\<lparr>gf_open := False\<rparr>, Some g)
      | PreviousGames \<Rightarrow> (s\<lparr>gf_offset := gf_offset s - 20\<rparr>, None)
      | NextGames t \<Rightarrow>
          (case t of
             Some n \<Rightarrow> if n \<le> gf_offset s + 20 then (s, None) else (s\<lparr>gf_offset := gf_offset s + 20\<rparr>, None)
           | None \<Rightarrow> (s, None)))"

text \<open>The game of the filter can always be seen in its field, and no game is listed twice.\<close>

lemma filter_game_is_a_choice:
  "gameId \<in> set (game_choices gameId games selected)" "distinct (tl (game_choices gameId games selected))"
proof -
  have "amap_ok (amap_from fst snd games)" unfolding amap_from_put_all by (rule am.ok_put_all) simp
  then have ok: "amap_ok (game_options games selected)"
    by (auto simp: game_options_def Let_def intro: am.ok_put split: option.split)
  have has: "amap_has m k \<longleftrightarrow> k \<in> set (amap_keys m)" for m :: "(jsstr, jsstr) amap" and k by (auto simp: amap_has_iff amap_keys_dom)
  show "gameId \<in> set (game_choices gameId games selected)" by (auto simp: game_choices_def has)
  show "distinct (tl (game_choices gameId games selected))" using ok by (auto simp: game_choices_def has amap_ok_def)
qed

section \<open>Groups\<close>

record library_save =
  ls_id :: nat
  ls_game :: nat
  ls_name :: jsstr
  ls_version :: nat
  ls_createdAt :: nat
  ls_updatedAt :: nat
  ls_restorable :: bool

definition add_to_group :: "library_save \<Rightarrow> (nat, library_save list) amap \<Rightarrow> (nat, library_save list) amap" where
  "add_to_group s m = amap_put (ls_game s) ((case map_of m (ls_game s) of Some g \<Rightarrow> g | None \<Rightarrow> []) @ [s]) m"

definition save_groups :: "library_save list \<Rightarrow> (nat, library_save list) amap" where
  "save_groups saves = fold add_to_group saves []"

definition group_latest :: "library_save list \<Rightarrow> nat" where
  "group_latest items = Max (ls_createdAt ` set items)"

text \<open>What a list of saves has of a game.\<close>

definition saves_of :: "nat \<Rightarrow> library_save list \<Rightarrow> library_save list" where
  "saves_of g saves = filter (\<lambda>s. ls_game s = g) saves"

lemma group_step:
  assumes "amap_ok m" "\<And>g. map_of m g = (if saves_of g xs = [] then None else Some (saves_of g xs))"
  shows "amap_ok (add_to_group s m) \<and>
    (\<forall>g. map_of (add_to_group s m) g = (if saves_of g (xs @ [s]) = [] then None else Some (saves_of g (xs @ [s]))))"
  using assms by (auto simp: add_to_group_def saves_of_def am.ok_put)

text \<open>Every save is shown once: each game with saves has one group, and it holds exactly the saves of that game in their order.\<close>

theorem groups_hold_every_save:
  "distinct (amap_keys (save_groups saves)) \<and>
   map_of (save_groups saves) g = (if saves_of g saves = [] then None else Some (saves_of g saves))"
proof -
  have "amap_ok (save_groups saves) \<and>
      (\<forall>g. map_of (save_groups saves) g = (if saves_of g saves = [] then None else Some (saves_of g saves)))"
  proof (induction saves rule: rev_induct)
    case (snoc s xs)
    then show ?case using group_step [of "save_groups xs" xs s] by (simp add: save_groups_def)
  qed (simp add: save_groups_def saves_of_def)
  then show ?thesis by (simp add: amap_ok_def)
qed

section \<open>The save at the top\<close>

definition featured_save :: "library_save list \<Rightarrow> library_save option" where
  "featured_save items = find ls_restorable items"

text \<open>
  It is announced as the save made last. It is so while the list is ordered by time; in the order of the titles it is the first save of
  the first title.
\<close>

lemma featured_is_latest:
  "sorted_wrt (\<lambda>a b. ls_updatedAt b \<le> ls_updatedAt a) items \<Longrightarrow> featured_save items = Some s \<Longrightarrow> t \<in> set items \<Longrightarrow> ls_restorable t \<Longrightarrow>
   ls_updatedAt t \<le> ls_updatedAt s"
  by (induction items) (auto simp: featured_save_def split: if_splits)

definition example_save :: "nat \<Rightarrow> nat \<Rightarrow> nat \<Rightarrow> library_save" where
  "example_save i g t = \<lparr>ls_id = i, ls_game = g, ls_name = [], ls_version = 1, ls_createdAt = t, ls_updatedAt = t, ls_restorable = True\<rparr>"

lemma featured_is_not_latest:
  "featured_save [example_save 1 1 10, example_save 2 2 20] = Some (example_save 1 1 10)"
  by (simp add: featured_save_def example_save_def)

section \<open>The card of a save\<close>

datatype card_dialog = RenameDialog | DeleteDialog

datatype card_request = RenameSave nat nat jsstr | DeleteSave nat nat

text \<open>\<open>cd_flight\<close> is the request under way. The dialogue is modal and locked while there is one; the menu lies below it.\<close>

record save_card =
  cd_dialog :: "card_dialog option"
  cd_menu :: bool
  cd_name :: jsstr
  cd_flight :: "card_request option"
  cd_sent :: "card_request list"
  cd_changes :: nat

definition card_initial :: "library_save \<Rightarrow> save_card" where
  "card_initial s = \<lparr>cd_dialog = None, cd_menu = False, cd_name = ls_name s, cd_flight = None, cd_sent = [], cd_changes = 0\<rparr>"

definition card_mutate :: "library_save \<Rightarrow> save_card \<Rightarrow> save_card" where
  "card_mutate s c =
     (case cd_dialog c of
        None \<Rightarrow> c
      | Some d \<Rightarrow>
          if cd_flight c \<noteq> None then c
          else let r = (if d = DeleteDialog then DeleteSave (ls_id s) (ls_version s) else RenameSave (ls_id s) (ls_version s) (cd_name c)) in
          c\<lparr>cd_flight := Some r, cd_sent := cd_sent c @ [r]\<rparr>)"

definition card_answered :: "bool \<Rightarrow> save_card \<Rightarrow> save_card" where
  "card_answered ok c =
     (if cd_flight c = None then c
      else (if ok then c\<lparr>cd_dialog := None, cd_changes := cd_changes c + 1\<rparr> else c)\<lparr>cd_flight := None\<rparr>)"

datatype card_event =
    ToggleCardMenu
  | PressOutside
  | CardEscape
  | ChooseDialog card_dialog
  | TypeSaveName jsstr
  | ConfirmCard
  | CancelCard
  | CardAnswered bool

definition card_step :: "library_save \<Rightarrow> card_event \<Rightarrow> save_card \<Rightarrow> save_card" where
  "card_step s e c =
     (case e of
        ToggleCardMenu \<Rightarrow> if cd_dialog c = None then c\<lparr>cd_menu := \<not> cd_menu c\<rparr> else c
      | PressOutside \<Rightarrow> c\<lparr>cd_menu := False\<rparr>
      | CardEscape \<Rightarrow> c\<lparr>cd_menu := False\<rparr>
      | ChooseDialog d \<Rightarrow> if cd_menu c then c\<lparr>cd_menu := False, cd_dialog := Some d\<rparr> else c
      | TypeSaveName t \<Rightarrow> if cd_dialog c = Some RenameDialog then c\<lparr>cd_name := t\<rparr> else c
      | ConfirmCard \<Rightarrow> card_mutate s c
      | CancelCard \<Rightarrow> if cd_flight c = None then c\<lparr>cd_dialog := None\<rparr> else c
      | CardAnswered ok \<Rightarrow> card_answered ok c)"

text \<open>A request under way is the one its dialogue announces, and a save is only deleted from the dialogue that asks for it.\<close>

definition card_request_fits :: "card_dialog option \<Rightarrow> card_request \<Rightarrow> bool" where
  "card_request_fits d r \<longleftrightarrow> (case r of DeleteSave i v \<Rightarrow> d = Some DeleteDialog | RenameSave i v n \<Rightarrow> d = Some RenameDialog)"

definition card_ok :: "library_save \<Rightarrow> save_card \<Rightarrow> bool" where
  "card_ok s c \<longleftrightarrow>
     (case cd_flight c of None \<Rightarrow> True | Some r \<Rightarrow> card_request_fits (cd_dialog c) r \<and> cd_sent c \<noteq> [] \<and> last (cd_sent c) = r) \<and>
     (cd_menu c \<longrightarrow> cd_dialog c = None)"

lemma not_delete [simp]: "d \<noteq> DeleteDialog \<longleftrightarrow> d = RenameDialog"
  by (cases d) simp_all

lemma card_ok_step: "card_ok s c \<Longrightarrow> card_ok s (card_step s e c)"
  by (cases e)
    (auto simp: card_ok_def card_step_def card_mutate_def card_answered_def card_request_fits_def Let_def
      split: option.splits card_request.splits)

text \<open>Through menus, cancelled dialogues and failed requests, a request of a card that is under way is the one its open dialogue announces.\<close>

theorem card_does_what_it_asks:
  "card_ok s (fold (card_step s) es (card_initial s))"
proof -
  have "card_ok s (fold (card_step s) es c)" if "card_ok s c" for c
    using that by (induction es arbitrary: c) (simp_all add: card_ok_step)
  then show ?thesis by (simp add: card_ok_def card_initial_def)
qed

text \<open>A name that was typed and cancelled is still there when the dialogue is opened again.\<close>

lemma cancelled_name_stays:
  "cd_name (fold (card_step s) [ToggleCardMenu, ChooseDialog RenameDialog, TypeSaveName n, CancelCard, ToggleCardMenu, ChooseDialog RenameDialog] (card_initial s)) = n"
  by (simp add: card_step_def card_initial_def)

section \<open>Drafts that wait\<close>

text \<open>A draft is its id and whether it can no longer be sent again.\<close>

record draft_page =
  dp_error :: bool
  dp_busy :: bool
  dp_deleting :: "nat option"
  dp_reloads :: nat
  dp_removals :: "nat list"

datatype draft_event = RetryDraft nat bool | RetryAnswered bool | AskDiscard nat | CancelDiscard | ConfirmDiscard | DiscardAnswered nat bool

text \<open>\<open>shown_drafts\<close>: the drafts of the user, or those of one game.\<close>

definition shown_drafts :: "nat option \<Rightarrow> (nat \<times> nat) list \<Rightarrow> (nat \<times> nat) list" where
  "shown_drafts game ds = filter (\<lambda>d. case game of None \<Rightarrow> True | Some g \<Rightarrow> snd d = g) ds"

definition draft_step :: "draft_event \<Rightarrow> draft_page \<Rightarrow> draft_page" where
  "draft_step e s =
     (case e of
        RetryDraft i broken \<Rightarrow> if dp_busy s \<or> broken then s else s\<lparr>dp_busy := True\<rparr>
      | RetryAnswered ok \<Rightarrow> if \<not> dp_busy s then s else s\<lparr>dp_busy := False, dp_error := \<not> ok, dp_reloads := dp_reloads s + 1\<rparr>
      | AskDiscard i \<Rightarrow> s\<lparr>dp_deleting := Some i\<rparr>
      | CancelDiscard \<Rightarrow> s\<lparr>dp_deleting := None\<rparr>
      | ConfirmDiscard \<Rightarrow> (case dp_deleting s of None \<Rightarrow> s | Some i \<Rightarrow> s\<lparr>dp_removals := dp_removals s @ [i]\<rparr>)
      | DiscardAnswered k ok \<Rightarrow>
          if length (dp_removals s) \<le> k then s
          else let t = s\<lparr>dp_removals := remove_at k (dp_removals s)\<rparr> in
          if ok then t\<lparr>dp_deleting := None, dp_reloads := dp_reloads s + 1\<rparr> else t)"

text \<open>A draft that cannot be removed leaves the page as it was: the dialogue stays open and nothing is said.\<close>

lemma failed_discard_is_silent:
  assumes "dp_deleting s = Some i" "dp_removals s = []"
  shows "fold draft_step [ConfirmDiscard, DiscardAnswered 0 False] s = s"
  using assms by (simp add: draft_step_def remove_at_def)

end
