(* ===== verification/Account_Page.thy ===== *)
theory Account_Page
  imports Prelude
begin

text \<open>
  Accounts: who is signed in (\<open>web/features/auth/auth-provider.tsx\<close>), the forms that sign in (\<open>auth-form.tsx\<close>), the password and the storage
  of the own account (\<open>web/features/accounts/account-page.tsx\<close>, \<open>use-browser-storage.ts\<close>), and the update of the installed application
  (\<open>web/features/pwa/pwa-provider.tsx\<close>, \<open>use-installation.ts\<close>).
\<close>

section \<open>Who is signed in\<close>

text \<open>An account is its user, if there is one, whether the server is initialized, and the token that signs requests.\<close>

record account_context =
  ac_user :: "nat option"
  ac_initialized :: bool
  ac_csrfToken :: jsstr

text \<open>\<open>au_token\<close> is the token of the API client, \<open>au_reads\<close> and \<open>au_logouts\<close> count the calls under way.\<close>

record auth_state =
  au_context :: "account_context option"
  au_error :: bool
  au_token :: jsstr
  au_reads :: nat
  au_logouts :: nat

definition auth_initial :: auth_state where
  "auth_initial = \<lparr>au_context = None, au_error = False, au_token = [], au_reads = 0, au_logouts = 0\<rparr>"

definition accept_context :: "account_context \<Rightarrow> auth_state \<Rightarrow> auth_state" where
  "accept_context c s = s\<lparr>au_token := ac_csrfToken c, au_context := Some c, au_error := False\<rparr>"

definition refresh_auth :: "auth_state \<Rightarrow> auth_state" where
  "refresh_auth s = s\<lparr>au_reads := au_reads s + 1\<rparr>"

definition context_answered :: "account_context option \<Rightarrow> auth_state \<Rightarrow> auth_state" where
  "context_answered r s =
     (if au_reads s = 0 then s
      else (case r of Some c \<Rightarrow> accept_context c s | None \<Rightarrow> s\<lparr>au_error := True\<rparr>)\<lparr>au_reads := au_reads s - 1\<rparr>)"

text \<open>A logout is answered, refused by the server, or lost in the network; a lost one rejects the promise and nothing else happens.\<close>

datatype logout_answer = LogoutDone | LogoutRefused | LogoutLost

definition logout_answered :: "logout_answer \<Rightarrow> auth_state \<Rightarrow> auth_state" where
  "logout_answered a s =
     (if au_logouts s = 0 then s
      else let t = s\<lparr>au_logouts := au_logouts s - 1\<rparr> in
      case a of LogoutDone \<Rightarrow> refresh_auth t | LogoutRefused \<Rightarrow> t\<lparr>au_error := True\<rparr> | LogoutLost \<Rightarrow> t)"

section \<open>The forms that sign in\<close>

datatype auth_mode = LoginMode | SetupMode | RegisterMode | ResetMode

record auth_fields =
  fi_username :: jsstr
  fi_password :: jsstr
  fi_displayName :: jsstr

datatype auth_request =
    LoginRequest jsstr jsstr
  | InitializeRequest jsstr jsstr jsstr
  | InvitationRequest jsstr jsstr jsstr jsstr
  | ResetRequest jsstr jsstr

definition auth_request_of :: "auth_mode \<Rightarrow> jsstr \<Rightarrow> auth_fields \<Rightarrow> auth_request" where
  "auth_request_of mode token f =
     (case mode of
        LoginMode \<Rightarrow> LoginRequest (fi_username f) (fi_password f)
      | SetupMode \<Rightarrow> InitializeRequest (fi_username f) (fi_password f) (fi_displayName f)
      | RegisterMode \<Rightarrow> InvitationRequest (fi_username f) (fi_password f) (fi_displayName f) token
      | ResetMode \<Rightarrow> ResetRequest token (fi_password f))"

datatype auth_failure = ApiFailure nat jsstr jsstr | ErrorFailure jsstr | OtherFailure

datatype auth_message = WrongPassword | MessageOf jsstr | RequestFailed

definition authFailureMessage :: "auth_failure \<Rightarrow> bool \<Rightarrow> auth_message" where
  "authFailureMessage failure login =
     (case failure of
        ApiFailure status code m \<Rightarrow> if login \<and> status = 401 \<and> code = js ''AUTHENTICATION_REQUIRED'' then WrongPassword else MessageOf m
      | ErrorFailure m \<Rightarrow> MessageOf m
      | OtherFailure \<Rightarrow> RequestFailed)"

record auth_form =
  af_auth :: auth_state
  af_error :: "auth_message option"
  af_busy :: bool
  af_complete :: bool
  af_sent :: "auth_request list"

definition submit_auth :: "auth_mode \<Rightarrow> jsstr \<Rightarrow> auth_fields \<Rightarrow> auth_form \<Rightarrow> auth_form" where
  "submit_auth mode token f s =
     (if af_busy s \<or> af_complete s then s
      else s\<lparr>af_busy := True, af_error := None, af_sent := af_sent s @ [auth_request_of mode token f]\<rparr>)"

text \<open>The answer: the account that was signed in (not used by a reset), or the failure.\<close>

definition auth_answered :: "auth_mode \<Rightarrow> auth_failure + account_context \<Rightarrow> auth_form \<Rightarrow> auth_form" where
  "auth_answered mode r s =
     (if \<not> af_busy s then s
      else (case r of
              Inl failure \<Rightarrow> s\<lparr>af_error := Some (authFailureMessage failure (mode = LoginMode))\<rparr>
            | Inr c \<Rightarrow> if mode = ResetMode then s\<lparr>af_complete := True\<rparr> else s\<lparr>af_auth := accept_context c (af_auth s)\<rparr>)\<lparr>af_busy := False\<rparr>)"

datatype auth_event =
    AuthRefresh
  | ContextAnswered "account_context option"
  | AuthSubmit auth_fields
  | AuthAnswered "auth_failure + account_context"
  | AuthLogout
  | LogoutAnswered logout_answer

definition auth_step :: "auth_mode \<Rightarrow> jsstr \<Rightarrow> auth_event \<Rightarrow> auth_form \<Rightarrow> auth_form" where
  "auth_step mode token e s =
     (case e of
        AuthRefresh \<Rightarrow> s\<lparr>af_auth := refresh_auth (af_auth s)\<rparr>
      | ContextAnswered r \<Rightarrow> s\<lparr>af_auth := context_answered r (af_auth s)\<rparr>
      | AuthSubmit f \<Rightarrow> submit_auth mode token f s
      | AuthAnswered r \<Rightarrow> auth_answered mode r s
      | AuthLogout \<Rightarrow> s\<lparr>af_auth := (af_auth s)\<lparr>au_logouts := au_logouts (af_auth s) + 1\<rparr>\<rparr>
      | LogoutAnswered a \<Rightarrow> s\<lparr>af_auth := logout_answered a (af_auth s)\<rparr>)"

definition auth_form_initial :: auth_form where
  "auth_form_initial = \<lparr>af_auth = auth_initial, af_error = None, af_busy = False, af_complete = False, af_sent = []\<rparr>"

text \<open>Requests are signed for the account that is shown.\<close>

definition signed_as_shown :: "auth_state \<Rightarrow> bool" where
  "signed_as_shown s \<longleftrightarrow> (case au_context s of None \<Rightarrow> au_token s = [] | Some c \<Rightarrow> au_token s = ac_csrfToken c)"

lemma signed_step: "signed_as_shown (af_auth s) \<Longrightarrow> signed_as_shown (af_auth (auth_step mode token e s))"
  by (cases e)
    (auto simp: auth_step_def signed_as_shown_def refresh_auth_def context_answered_def accept_context_def submit_auth_def auth_answered_def
      logout_answered_def Let_def split: option.splits sum.split logout_answer.split)

text \<open>Through refreshes, forms and logouts that overlap, the client signs its requests with the token of the account that the page shows.\<close>

theorem token_is_of_the_account:
  "signed_as_shown (af_auth (fold (auth_step mode token) es auth_form_initial))"
proof -
  have "signed_as_shown (af_auth (fold (auth_step mode token) es s))" if "signed_as_shown (af_auth s)" for s
    using that by (induction es arbitrary: s) (simp_all add: signed_step)
  then show ?thesis by (simp add: signed_as_shown_def auth_form_initial_def auth_initial_def)
qed

text \<open>A logout that the network loses leaves everything as it was, without a message.\<close>

lemma lost_logout_is_silent:
  "au_logouts (af_auth s) = 0 \<Longrightarrow> fold (auth_step mode token) [AuthLogout, LogoutAnswered LogoutLost] s = s"
  by (simp add: auth_step_def logout_answered_def)

section \<open>The password\<close>

record password_form =
  pf_error :: bool
  pf_busy :: bool
  pf_sent :: "(jsstr \<times> jsstr) list"
  pf_resets :: nat

definition submit_password :: "jsstr \<Rightarrow> jsstr \<Rightarrow> jsstr \<Rightarrow> password_form \<Rightarrow> password_form" where
  "submit_password current new confirmation s =
     (if pf_busy s then s
      else if new \<noteq> confirmation then s\<lparr>pf_error := True\<rparr>
      else s\<lparr>pf_error := False, pf_busy := True, pf_sent := pf_sent s @ [(current, new)]\<rparr>)"

text \<open>The answer is \<open>None\<close>, or the status of the error; only one of 400 is shown at the form.\<close>

definition password_answered :: "nat option \<Rightarrow> password_form \<Rightarrow> password_form" where
  "password_answered failure s =
     (if \<not> pf_busy s then s
      else (case failure of
              None \<Rightarrow> s\<lparr>pf_resets := pf_resets s + 1\<rparr>
            | Some status \<Rightarrow> if status = 400 then s\<lparr>pf_error := True\<rparr> else s)\<lparr>pf_busy := False\<rparr>)"

section \<open>The storage of the browser\<close>

datatype storage_busy = Refreshing | Clearing

datatype storage_op = ReadStorage | ClearStorage

text \<open>Controllers are numbered; \<open>st_flights\<close> are the operations under way with their controller. \<open>st_cache\<close> has the number of cached objects,
  \<open>st_message\<close> whether there is a message.\<close>

record storage_page =
  st_mounted :: bool
  st_usage :: "nat option"
  st_cache :: "nat option"
  st_errors :: "bool \<times> bool"
  st_busy :: "storage_busy option"
  st_message :: bool
  st_task :: "nat option"
  st_manager :: bool
  st_aborted :: "nat list"
  st_flights :: "(nat \<times> storage_op) list"
  st_next :: nat

definition begin_task :: "storage_busy \<Rightarrow> storage_op \<Rightarrow> storage_page \<Rightarrow> storage_page" where
  "begin_task b op s =
     s\<lparr>st_task := Some (st_next s), st_busy := Some b, st_flights := st_flights s @ [(st_next s, op)], st_next := st_next s + 1\<rparr>"

definition refresh_storage :: "storage_page \<Rightarrow> storage_page" where
  "refresh_storage s = (if st_task s \<noteq> None then s else begin_task Refreshing ReadStorage s)"

text \<open>The page as its effect leaves it when it is mounted.\<close>

definition storage_initial :: storage_page where
  "storage_initial =
     refresh_storage \<lparr>st_mounted = True, st_usage = None, st_cache = None, st_errors = (False, False), st_busy = Some Refreshing,
       st_message = False, st_task = None, st_manager = False, st_aborted = [], st_flights = [], st_next = 0\<rparr>"

definition release_task :: "nat \<Rightarrow> storage_page \<Rightarrow> storage_page" where
  "release_task c s = (if st_task s = Some c then s\<lparr>st_task := None, st_busy := None\<rparr> else s)"

text \<open>\<open>update\<close> and the end of \<open>refresh\<close>: both readings have settled; \<open>loaded\<close> tells whether the manager was loaded for it.\<close>

definition read_storage :: "nat \<Rightarrow> nat option \<Rightarrow> nat option \<Rightarrow> bool \<Rightarrow> storage_page \<Rightarrow> storage_page" where
  "read_storage c usage cache loaded s =
     release_task c
       (let t = s\<lparr>st_manager := st_manager s \<or> loaded\<rparr> in
        if c \<in> set (st_aborted s) then t
        else t\<lparr>st_usage := usage, st_cache := cache, st_errors := (usage = None, cache = None)\<rparr>)"

definition clear_storage :: "storage_page \<Rightarrow> storage_page" where
  "clear_storage s =
     (if st_task s \<noteq> None \<or> \<not> st_manager s then s else (begin_task Clearing ClearStorage s)\<lparr>st_message := True\<rparr>)"

text \<open>However the clearing ended, the one that is still the task reads the storage anew.\<close>

definition clear_ended :: "nat \<Rightarrow> storage_page \<Rightarrow> storage_page" where
  "clear_ended c s = (if st_task s = Some c then begin_task Refreshing ReadStorage (s\<lparr>st_message := True\<rparr>) else s)"

definition operation_ended :: "nat \<Rightarrow> nat option \<Rightarrow> nat option \<Rightarrow> bool \<Rightarrow> storage_page \<Rightarrow> storage_page" where
  "operation_ended k usage cache loaded s =
     (if length (st_flights s) \<le> k then s
      else let t = s\<lparr>st_flights := remove_at k (st_flights s)\<rparr> in
      case st_flights s ! k of
        (c, ReadStorage) \<Rightarrow> read_storage c usage cache loaded t
      | (c, ClearStorage) \<Rightarrow> clear_ended c t)"

definition abort_task :: "storage_page \<Rightarrow> storage_page" where
  "abort_task s = (case st_task s of None \<Rightarrow> s | Some c \<Rightarrow> s\<lparr>st_aborted := st_aborted s @ [c]\<rparr>)"

datatype storage_event =
    AskRefresh
  | AskClear
  | StopClear
  | OperationEnds nat "nat option" "nat option" bool
  | StorageUnmounts

definition storage_step :: "storage_event \<Rightarrow> storage_page \<Rightarrow> storage_page" where
  "storage_step e s =
     (case e of
        AskRefresh \<Rightarrow> if st_mounted s then refresh_storage s else s
      | AskClear \<Rightarrow> if st_mounted s then clear_storage s else s
      | StopClear \<Rightarrow> if st_busy s = Some Clearing then abort_task s else s
      | OperationEnds k usage cache loaded \<Rightarrow> operation_ended k usage cache loaded s
      | StorageUnmounts \<Rightarrow> (abort_task s)\<lparr>st_task := None, st_manager := False, st_mounted := False\<rparr>)"

text \<open>The page is busy exactly while an operation is under way whose end releases it or begins the next one.\<close>

definition storage_live :: "storage_page \<Rightarrow> bool" where
  "storage_live s \<longleftrightarrow>
     (case st_task s of
        None \<Rightarrow> st_mounted s \<longrightarrow> st_busy s = None
      | Some c \<Rightarrow>
          ((c, ReadStorage) \<in> set (st_flights s) \<and> st_busy s = Some Refreshing) \<or>
          ((c, ClearStorage) \<in> set (st_flights s) \<and> st_busy s = Some Clearing))"

definition storage_ok :: "storage_page \<Rightarrow> bool" where
  "storage_ok s \<longleftrightarrow> storage_live s \<and> distinct (map fst (st_flights s)) \<and> (\<forall>f \<in> set (st_flights s). fst f < st_next s)"

lemma begin_task_ok:
  assumes "distinct (map fst (st_flights s))" "\<forall>f \<in> set (st_flights s). fst f < st_next s"
  shows "storage_ok (begin_task Refreshing ReadStorage s)" "storage_ok (begin_task Clearing ClearStorage s)"
  using assms by (auto simp: storage_ok_def storage_live_def begin_task_def less_Suc_eq)

lemma remove_flight:
  assumes "k < length fs" "distinct (map fst fs)" "f \<in> set fs" "fst f \<noteq> fst (fs ! k)"
  shows "f \<in> set (remove_at k fs)"
proof -
  have "fs = take k fs @ fs ! k # drop (Suc k) fs" using assms(1) by (rule id_take_nth_drop)
  then have "f \<in> set (take k fs) \<or> f = fs ! k \<or> f \<in> set (drop (Suc k) fs)" using assms(3) by (metis Un_iff set_ConsD set_append)
  then show ?thesis using assms(4) by (auto simp: remove_at_def)
qed

lemma operation_ended_ok:
  assumes "storage_ok s"
  shows "storage_ok (operation_ended k usage cache loaded s)"
proof (cases "k < length (st_flights s)")
  case True
  obtain c op where f: "st_flights s ! k = (c, op)" by (cases "st_flights s ! k")
  let ?fs = "remove_at k (st_flights s)"
  have fs: "distinct (map fst ?fs)" "\<forall>g \<in> set ?fs. fst g < st_next s"
    using assms True remove_at_distinct(1) [of fst "st_flights s" k] by (auto simp: storage_ok_def item_at_Some dest: remove_at_set)
  have stays: "g \<in> set ?fs" if "g \<in> set (st_flights s)" "fst g \<noteq> c" for g
    using remove_flight [OF True _ that(1)] that(2) assms f by (simp add: storage_ok_def)
  show ?thesis
  proof (cases "st_task s = Some c")
    case c: True
    then show ?thesis using True f fs
      by (cases op) (auto simp: operation_ended_def read_storage_def clear_ended_def release_task_def Let_def storage_ok_def storage_live_def
        begin_task_def less_Suc_eq)
  next
    case False
    have other: "storage_ok u"
      if "st_task u = st_task s" "st_busy u = st_busy s" "st_mounted u = st_mounted s" "st_flights u = ?fs" "st_next u = st_next s" for u
      using assms that stays False fs by (fastforce simp: storage_ok_def storage_live_def split: option.splits)
    show ?thesis using True f False
      by (cases op) (auto simp: operation_ended_def read_storage_def clear_ended_def release_task_def Let_def intro!: other)
  qed
qed (use assms in \<open>simp add: operation_ended_def\<close>)

lemma storage_ok_step: "storage_ok s \<Longrightarrow> storage_ok (storage_step e s)"
proof (cases e)
  case (OperationEnds k usage cache loaded)
  assume "storage_ok s"
  then show ?thesis using OperationEnds operation_ended_ok by (simp add: storage_step_def)
qed (auto simp: storage_step_def refresh_storage_def clear_storage_def abort_task_def storage_ok_def storage_live_def begin_task_def less_Suc_eq
    split: option.splits)

text \<open>C29. Whatever is refreshed, cleared and stopped in whatever order, the page is only busy while an operation is under way whose end it waits for.\<close>

theorem storage_page_is_released:
  "storage_live (fold storage_step es storage_initial)"
proof -
  have "storage_ok (fold storage_step es s)" if "storage_ok s" for s
    using that by (induction es arbitrary: s) (simp_all add: storage_ok_step)
  moreover have "storage_ok storage_initial"
    by (simp add: storage_ok_def storage_live_def storage_initial_def refresh_storage_def begin_task_def)
  ultimately show ?thesis by (simp add: storage_ok_def)
qed

section \<open>The update of the application\<close>

datatype apply_result = ApplyPlaying | ApplyReady | ApplyFailed

text \<open>A path is given by its segments, the text between the slashes; the root has one empty segment.\<close>

definition game_path :: "jsstr list \<Rightarrow> bool" where
  "game_path p \<longleftrightarrow> (case p of [] \<Rightarrow> False | a # _ \<Rightarrow> a = js ''play'' \<or> a = js ''immersive'')"

text \<open>\<open>up_observer\<close>: there is a worker that can be asked. \<open>up_reloads\<close> are the paths at which the page was loaded anew.\<close>

record update_page =
  up_observer :: bool
  up_updating :: bool
  up_message :: bool
  up_calls :: nat
  up_reloads :: "jsstr list list"

definition applyUpdate :: "update_page \<Rightarrow> update_page" where
  "applyUpdate s =
     (if \<not> up_observer s \<or> up_updating s then s else s\<lparr>up_updating := True, up_message := False, up_calls := up_calls s + 1\<rparr>)"

definition update_answered :: "apply_result \<Rightarrow> jsstr list \<Rightarrow> update_page \<Rightarrow> update_page" where
  "update_answered r path s =
     (if \<not> up_updating s then s
      else (case r of
              ApplyFailed \<Rightarrow> s\<lparr>up_message := True\<rparr>
            | ApplyPlaying \<Rightarrow> s\<lparr>up_message := True\<rparr>
            | ApplyReady \<Rightarrow> if game_path path then s\<lparr>up_message := True\<rparr> else s\<lparr>up_reloads := up_reloads s @ [path]\<rparr>)\<lparr>up_updating := False\<rparr>)"

definition checkUpdate :: "update_page \<Rightarrow> update_page" where
  "checkUpdate s = s\<lparr>up_message := False\<rparr>"

datatype app_update_event = ApplyUpdate | UpdateAnswered apply_result "jsstr list" | CheckUpdate | ObserverGone

definition app_update_step :: "app_update_event \<Rightarrow> update_page \<Rightarrow> update_page" where
  "app_update_step e s =
     (case e of
        ApplyUpdate \<Rightarrow> applyUpdate s
      | UpdateAnswered r path \<Rightarrow> update_answered r path s
      | CheckUpdate \<Rightarrow> checkUpdate s
      | ObserverGone \<Rightarrow> s\<lparr>up_observer := False\<rparr>)"

definition update_initial :: "bool \<Rightarrow> update_page" where
  "update_initial worker = \<lparr>up_observer = worker, up_updating = False, up_message = False, up_calls = 0, up_reloads = []\<rparr>"

definition no_game_reloaded :: "update_page \<Rightarrow> bool" where
  "no_game_reloaded s \<longleftrightarrow> list_all (\<lambda>p. \<not> game_path p) (up_reloads s) \<and> length (up_reloads s) + (if up_updating s then 1 else 0) \<le> up_calls s"

text \<open>An update never loads a page anew on which a game may run, and each that was asked for loads it at most once.\<close>

theorem update_spares_games:
  "no_game_reloaded (fold app_update_step es (update_initial worker))"
proof -
  have "no_game_reloaded (app_update_step e s)" if "no_game_reloaded s" for e s
    using that by (auto simp: no_game_reloaded_def app_update_step_def applyUpdate_def update_answered_def checkUpdate_def
        split: app_update_event.split apply_result.split if_splits)
  then have "no_game_reloaded (fold app_update_step es s)" if "no_game_reloaded s" for s
    using that by (induction es arbitrary: s) simp_all
  then show ?thesis by (simp add: no_game_reloaded_def update_initial_def)
qed

section \<open>Installing the application\<close>

text \<open>Prompts are numbered. \<open>io_flight\<close> is the prompt that is shown, \<open>io_appWindow\<close> \<open>None\<close> until the first look.\<close>

record installation =
  io_installed :: bool
  io_appWindow :: "bool option"
  io_prompt :: "nat option"
  io_flight :: "nat option"
  io_message :: bool

definition installation_initial :: installation where
  "installation_initial = \<lparr>io_installed = False, io_appWindow = None, io_prompt = None, io_flight = None, io_message = False\<rparr>"

datatype installation_event = DisplayMode bool | PromptAvailable nat | AppInstalled | Install | InstallAnswered

definition installation_step :: "installation_event \<Rightarrow> installation \<Rightarrow> installation" where
  "installation_step e s =
     (case e of
        DisplayMode standalone \<Rightarrow> s\<lparr>io_installed := io_installed s \<or> standalone, io_appWindow := Some (io_appWindow s = Some True \<or> standalone)\<rparr>
      | PromptAvailable p \<Rightarrow> s\<lparr>io_prompt := Some p, io_message := False\<rparr>
      | AppInstalled \<Rightarrow> s\<lparr>io_installed := True, io_prompt := None, io_message := False\<rparr>
      | Install \<Rightarrow> (case io_prompt s of None \<Rightarrow> s | Some p \<Rightarrow> if io_flight s \<noteq> None then s else s\<lparr>io_flight := Some p\<rparr>)
      | InstallAnswered \<Rightarrow> if io_flight s = None then s else s\<lparr>io_message := True, io_prompt := None, io_flight := None\<rparr>)"

text \<open>A window of the application stays one, whatever fullscreen does to the display mode.\<close>

lemma app_window_stays:
  "io_appWindow s = Some True \<Longrightarrow> io_installed s \<Longrightarrow>
   io_appWindow (fold installation_step es s) = Some True \<and> io_installed (fold installation_step es s)"
proof (induction es arbitrary: s)
  case (Cons e es)
  have "io_appWindow (installation_step e s) = Some True \<and> io_installed (installation_step e s)"
    using Cons.prems by (cases e) (auto simp: installation_step_def split: option.split)
  then show ?case using Cons.IH by simp
qed simp

end
