(* ===== verification/Entry_Dialog.thy ===== *)
theory Entry_Dialog
  imports Gamepad_Properties
begin

text \<open>
  The dialogue that a gamepad opens on an ordinary page to enter immersive mode (\<open>web/features/immersive/entry-dialog.tsx\<close>). A button
  of a standard gamepad claims it and opens the dialogue, which stays locked until that gamepad was released; after a cancel the same
  gamepad has to be released for half a second before it can open the dialogue again. Where the focus goes is left to the dialogue
  layer (\<open>Modal_Focus\<close>), the notices are left out.
\<close>

section \<open>The state\<close>

datatype entry_mode = EntryIdle | EntryLocked | EntryReady | EntryCooldown | EntryNavigating

datatype entry_choice = ChooseCancel | ChooseEnter

text \<open>
  The code does not read the last three: the frames that the input model was given since its last reset, and those frames at each entry
  and at each end of a cooldown in which the gamepad was still there.
\<close>

record entry_dialog =
  en_open :: bool
  en_ready :: bool
  en_mode :: entry_mode
  en_selection :: entry_choice
  en_cooldownPad :: "int option"
  en_claim :: claim
  en_navigation :: navigation
  en_active :: "int option"
  en_frames :: "frame list"
  en_entries :: "frame list list"
  en_cooled :: "frame list list"

definition entry_initial :: "int option \<Rightarrow> entry_dialog" where
  "entry_initial active =
     \<lparr>en_open = False, en_ready = False, en_mode = EntryIdle, en_selection = ChooseCancel, en_cooldownPad = None, en_claim = [],
      en_navigation = new_navigation False, en_active = active, en_frames = [], en_entries = [], en_cooled = []\<rparr>"

section \<open>Choosing, cancelling, entering\<close>

definition selectedFromAction :: "action \<Rightarrow> entry_choice \<Rightarrow> entry_choice" where
  "selectedFromAction a c = (if a = Move DLeft then ChooseCancel else if a = Move DRight then ChooseEnter else c)"

definition reset_input :: "rat \<Rightarrow> entry_dialog \<Rightarrow> entry_dialog" where
  "reset_input d s = s\<lparr>en_navigation := nav_reset d (en_navigation s), en_frames := []\<rparr>"

definition entry_cancel :: "entry_dialog \<Rightarrow> entry_dialog" where
  "entry_cancel s =
     (if en_mode s = EntryIdle \<or> en_mode s = EntryCooldown then s
      else (reset_input 500 s)\<lparr>en_cooldownPad := en_active s, en_active := None, en_mode := EntryCooldown, en_open := False,
             en_ready := False, en_selection := ChooseCancel\<rparr>)"

definition entry_enter :: "entry_dialog \<Rightarrow> entry_dialog" where
  "entry_enter s =
     (if en_mode s \<noteq> EntryReady then s
      else s\<lparr>en_mode := EntryNavigating, en_open := False, en_entries := en_entries s @ [en_frames s]\<rparr>)"

definition entry_confirm :: "entry_dialog \<Rightarrow> entry_dialog" where
  "entry_confirm s = (if en_selection s = ChooseEnter then entry_enter s else entry_cancel s)"

primrec handle_actions :: "action list \<Rightarrow> entry_dialog \<Rightarrow> entry_dialog" where
  "handle_actions [] s = s"
| "handle_actions (a # as) s =
     (if a = Cancel then entry_cancel s
      else let t = s\<lparr>en_selection := selectedFromAction a (en_selection s)\<rparr> in
      if a = Confirm then entry_confirm t else handle_actions as t)"

section \<open>Frames\<close>

definition standard_pad :: "int option \<Rightarrow> gamepad list \<Rightarrow> gamepad option" where
  "standard_pad i gs =
     (case find (\<lambda>g. Some (index g) = i) gs of Some g \<Rightarrow> if isStandardGamepad g then Some g else None | None \<Rightarrow> None)"

definition discover :: "gamepad list \<Rightarrow> entry_dialog \<Rightarrow> entry_dialog" where
  "discover gs s =
     (case claim_update gs (en_claim s) of ((claimed, unsupported), c) \<Rightarrow>
        (case claimed of
           None \<Rightarrow> s\<lparr>en_claim := c\<rparr>
         | Some i \<Rightarrow>
             (reset_input 120 (s\<lparr>en_claim := c\<rparr>))\<lparr>en_active := Some i, en_selection := ChooseCancel, en_mode := EntryLocked, en_open := True\<rparr>))"

text \<open>A frame for the input model.\<close>

definition read_input :: "gamepad option \<Rightarrow> rat \<Rightarrow> entry_dialog \<Rightarrow> entry_dialog" where
  "read_input g t s = s\<lparr>en_navigation := snd (nav_update g t (en_navigation s)), en_frames := en_frames s @ [(g, t)]\<rparr>"

definition coolDown :: "gamepad list \<Rightarrow> rat \<Rightarrow> entry_dialog \<Rightarrow> entry_dialog" where
  "coolDown gs t s =
     (let g = standard_pad (en_cooldownPad s) gs; u = read_input g t s in
      if \<not> neutralReady (fst (nav_update g t (en_navigation s))) \<and> g \<noteq> None then u
      else u\<lparr>en_mode := EntryIdle, en_cooldownPad := None, en_claim := claim_reset gs,
             en_cooled := (if g = None then en_cooled u else en_cooled u @ [en_frames u])\<rparr>)"

definition updateDialog :: "gamepad list \<Rightarrow> rat \<Rightarrow> entry_dialog \<Rightarrow> entry_dialog" where
  "updateDialog gs t s =
     (case standard_pad (en_active s) gs of
        None \<Rightarrow> s\<lparr>en_active := None, en_mode := EntryIdle, en_open := False, en_ready := False, en_claim := claim_reset gs\<rparr>
      | Some g \<Rightarrow>
          let r = fst (nav_update (Some g) t (en_navigation s)); u = read_input (Some g) t s;
              v = (if en_mode u = EntryLocked \<and> neutralReady r then u\<lparr>en_mode := EntryReady, en_ready := True\<rparr> else u) in
          if en_mode v = EntryReady then handle_actions (actions r) v else v)"

definition onFrame :: "bool \<Rightarrow> gamepad list \<Rightarrow> rat \<Rightarrow> entry_dialog \<Rightarrow> entry_dialog" where
  "onFrame suspended gs t s =
     (if en_mode s = EntryNavigating then s
      else if suspended then
        let u = reset_input (if en_mode s = EntryCooldown then 500 else 120) s in
        if en_mode s = EntryReady then u\<lparr>en_mode := EntryLocked, en_ready := False\<rparr> else u
      else if en_mode s = EntryIdle then discover gs s
      else if en_mode s = EntryCooldown then coolDown gs t s
      else updateDialog gs t s)"

section \<open>Keys and pointer\<close>

datatype dialog_key = EscapeKey | LeftKey | RightKey | TabKey bool | EnterKey | OtherKey

definition entry_key_down :: "dialog_key \<Rightarrow> entry_dialog \<Rightarrow> entry_dialog" where
  "entry_key_down k s =
     (if \<not> en_open s then s
      else if k = EscapeKey then entry_cancel s
      else if \<not> en_ready s then s
      else case k of
        LeftKey \<Rightarrow> s\<lparr>en_selection := ChooseCancel\<rparr>
      | RightKey \<Rightarrow> s\<lparr>en_selection := ChooseEnter\<rparr>
      | TabKey shift \<Rightarrow>
          s\<lparr>en_selection := (if shift then ChooseCancel else if en_selection s = ChooseCancel then ChooseEnter else ChooseCancel)\<rparr>
      | EnterKey \<Rightarrow> entry_confirm s
      | _ \<Rightarrow> s)"

text \<open>The buttons are disabled until the dialogue is ready.\<close>

datatype entry_event =
    EntryFrame bool "gamepad list" rat
  | EntryKey dialog_key
  | PressBackdrop
  | FocusChoice entry_choice
  | ClickChoice entry_choice

definition entry_step :: "entry_event \<Rightarrow> entry_dialog \<Rightarrow> entry_dialog" where
  "entry_step e s =
     (case e of
        EntryFrame suspended gs t \<Rightarrow> onFrame suspended gs t s
      | EntryKey k \<Rightarrow> entry_key_down k s
      | PressBackdrop \<Rightarrow> if en_open s then entry_cancel s else s
      | FocusChoice c \<Rightarrow> if en_open s \<and> en_ready s then s\<lparr>en_selection := c\<rparr> else s
      | ClickChoice c \<Rightarrow> if en_open s \<and> en_ready s then (if c = ChooseEnter then entry_enter s else entry_cancel s) else s)"

section \<open>No press is used twice\<close>

definition released_first :: "entry_dialog \<Rightarrow> bool" where
  "released_first s \<longleftrightarrow> list_all (released_for 120) (en_entries s) \<and> list_all (released_for 500) (en_cooled s)"

definition entry_ok :: "entry_dialog \<Rightarrow> bool" where
  "entry_ok s \<longleftrightarrow>
     gate_inv (neutralDelayMs (en_navigation s)) False (en_frames s) (en_navigation s) \<and>
     (en_mode s = EntryLocked \<or> en_mode s = EntryReady \<longrightarrow> neutralDelayMs (en_navigation s) = 120) \<and>
     (en_mode s = EntryCooldown \<longrightarrow> neutralDelayMs (en_navigation s) = 500) \<and>
     (en_mode s = EntryReady \<longrightarrow> armed (en_navigation s)) \<and> released_first s"

lemma reset_gate: "gate_inv d' False fs m \<Longrightarrow> gate_inv d False [] (nav_reset d m)"
  by (simp add: gate_inv_def nav_reset_def)

lemma reset_delay [simp]: "neutralDelayMs (nav_reset d m) = d"
  by (simp add: nav_reset_def)

lemma update_delay: "gate_inv d allow fs m \<Longrightarrow> neutralDelayMs (snd (nav_update g t m)) = d"
  using gate_inv_step [of d allow fs m g t] by (simp add: gate_inv_def)

lemma ready_armed: "neutralReady (fst (nav_update g t m)) \<Longrightarrow> armed (snd (nav_update g t m))"
  by (auto simp: nav_update_def Let_def split: option.splits prod.splits if_splits)
    (metis actionsFor_keeps(1) snd_conv)+

lemma stays_armed: "armed m \<Longrightarrow> isStandardGamepad g \<Longrightarrow> armed (snd (nav_update (Some g) t m))"
  by (simp add: nav_update_gate(1) gate_def)

lemma standard_pad_standard: "standard_pad i gs = Some g \<Longrightarrow> isStandardGamepad g"
  by (auto simp: standard_pad_def split: option.splits if_splits)

lemma cancel_ok: "entry_ok s \<Longrightarrow> entry_ok (entry_cancel s)"
  by (auto simp: entry_ok_def entry_cancel_def reset_input_def released_first_def intro: reset_gate)

lemma enter_ok: "entry_ok s \<Longrightarrow> entry_ok (entry_enter s)"
  by (auto simp: entry_ok_def entry_enter_def released_first_def gate_inv_def)

lemma selection_ok [simp]: "entry_ok (s\<lparr>en_selection := c\<rparr>) = entry_ok s"
  by (simp add: entry_ok_def released_first_def)

lemma confirm_ok: "entry_ok s \<Longrightarrow> entry_ok (entry_confirm s)"
  by (simp add: entry_confirm_def cancel_ok enter_ok)

lemma actions_ok: "entry_ok s \<Longrightarrow> entry_ok (handle_actions as s)"
  by (induction as arbitrary: s) (simp_all add: Let_def cancel_ok confirm_ok)

lemma discover_ok: "entry_ok s \<Longrightarrow> entry_ok (discover gs s)"
  by (auto simp: discover_def entry_ok_def reset_input_def released_first_def intro: reset_gate split: prod.split option.split)

lemma read_gate:
  "entry_ok s \<Longrightarrow> gate_inv (neutralDelayMs (en_navigation s)) False (en_frames s @ [(g, t)]) (snd (nav_update g t (en_navigation s)))"
  by (simp add: entry_ok_def gate_inv_step)

lemma read_delay: "entry_ok s \<Longrightarrow> neutralDelayMs (snd (nav_update g t (en_navigation s))) = neutralDelayMs (en_navigation s)"
  unfolding entry_ok_def by (blast intro: update_delay)

lemma coolDown_ok:
  assumes "entry_ok s" "en_mode s = EntryCooldown"
  shows "entry_ok (coolDown gs t s)"
proof -
  let ?g = "standard_pad (en_cooldownPad s) gs"
  have "gate_inv 500 False (en_frames s @ [(?g, t)]) (snd (nav_update ?g t (en_navigation s)))"
    using read_gate [OF assms(1), of ?g t] assms by (simp add: entry_ok_def)
  moreover from this have "released_for 500 (en_frames s @ [(?g, t)])" if "neutralReady (fst (nav_update ?g t (en_navigation s)))"
    using ready_armed [OF that] by (simp add: gate_inv_def)
  ultimately show ?thesis using assms read_delay [OF assms(1), of ?g t]
    by (auto simp: coolDown_def read_input_def Let_def entry_ok_def released_first_def)
qed

lemma updateDialog_ok:
  assumes "entry_ok s" "en_mode s = EntryLocked \<or> en_mode s = EntryReady"
  shows "entry_ok (updateDialog gs t s)"
proof (cases "standard_pad (en_active s) gs")
  case None
  then show ?thesis using assms(1) by (simp add: updateDialog_def entry_ok_def released_first_def)
next
  case (Some g)
  let ?n = "snd (nav_update (Some g) t (en_navigation s))" and ?u = "read_input (Some g) t s"
  let ?v = "if en_mode ?u = EntryLocked \<and> neutralReady (fst (nav_update (Some g) t (en_navigation s)))
    then ?u\<lparr>en_mode := EntryReady, en_ready := True\<rparr> else ?u"
  have "armed ?n" if "en_mode s = EntryReady"
    using that assms(1) stays_armed standard_pad_standard [OF Some] by (simp add: entry_ok_def)
  moreover note ready_armed [of "Some g" t "en_navigation s"]
  ultimately have "entry_ok ?v" using read_gate [OF assms(1), of "Some g" t] read_delay [OF assms(1), of "Some g" t] assms
    by (auto simp: entry_ok_def read_input_def released_first_def)
  then show ?thesis using Some actions_ok by (simp add: updateDialog_def Let_def)
qed

lemma frame_ok:
  assumes "entry_ok s"
  shows "entry_ok (onFrame suspended gs t s)"
proof (cases "en_mode s")
  case EntryCooldown
  then show ?thesis using assms coolDown_ok [OF assms]
    by (auto simp: onFrame_def reset_input_def entry_ok_def released_first_def Let_def intro: reset_gate)
qed (use assms in \<open>auto simp: onFrame_def reset_input_def Let_def intro!: discover_ok updateDialog_ok\<close>,
    auto simp: entry_ok_def released_first_def intro: reset_gate)

lemma entry_ok_step: "entry_ok s \<Longrightarrow> entry_ok (entry_step e s)"
  by (cases e) (auto simp: entry_step_def entry_key_down_def cancel_ok enter_ok confirm_ok frame_ok split: dialog_key.split)

lemma entry_ok_run: "entry_ok s \<Longrightarrow> entry_ok (fold entry_step es s)"
  by (induction es arbitrary: s) (simp_all add: entry_ok_step)


text \<open>The dialogue can be entered: a press claims the gamepad, then it is released, moved to the right and pressed again.\<close>

lemma entry_possible:
  "en_mode (fold entry_step [EntryFrame False [pad []] 0, EntryFrame False [pad [0]] 10, EntryFrame False [pad []] 20, EntryFrame False [pad []] 150,
     EntryFrame False [pad [15]] 160, EntryFrame False [pad []] 170, EntryFrame False [pad [0]] 180] (entry_initial None)) = EntryNavigating"
  by code_simp

end
