(* ===== verification/Game_Page.thy ===== *)
theory Game_Page
  imports Runtime_Lifecycle
begin

text \<open>
  The page of a game (\<open>web/features/games\<close>): how its content is loaded (\<open>content-loading.ts\<close>, \<open>detail-launch.tsx\<close>), what an administrator
  decides about it (\<open>game-detail.tsx\<close>, \<open>admin-game-detail.tsx\<close>, \<open>game-management.tsx\<close>) and its media (\<open>game-media-editor.tsx\<close>).
\<close>

section \<open>How the content is loaded\<close>

record core_binding =
  cb_coreId :: jsstr
  cb_contentKinds :: "jsstr list"
  cb_engine :: "jsstr option"
  cb_providerId :: jsstr
  cb_targetId :: jsstr

text \<open>A provider is its id and its targets, a target its id and its capabilities, which are any JSON value.\<close>

record runtime_catalog =
  rc_bindings :: "core_binding list"
  rc_providers :: "(jsstr \<times> (jsstr \<times> jval) list) list"

datatype loading_capability = OnDemandAndPreload | PreloadOnly

definition binding_fits :: "jsstr \<Rightarrow> jsstr \<Rightarrow> jsstr option \<Rightarrow> core_binding \<Rightarrow> bool" where
  "binding_fits coreId kind engine b \<longleftrightarrow>
     cb_coreId b = coreId \<and> kind \<in> set (cb_contentKinds b) \<and> (engine = None \<or> engine = Some [] \<or> cb_engine b = engine)"

definition target_capabilities :: "runtime_catalog option \<Rightarrow> jsstr \<Rightarrow> jsstr \<Rightarrow> jsstr option \<Rightarrow> jval option" where
  "target_capabilities catalog coreId kind engine =
     (case catalog of
        None \<Rightarrow> None
      | Some c \<Rightarrow>
          (case find (binding_fits coreId kind engine) (rc_bindings c) of
             None \<Rightarrow> None
           | Some b \<Rightarrow>
               (case find (\<lambda>p. fst p = cb_providerId b) (rc_providers c) of
                  None \<Rightarrow> None
                | Some p \<Rightarrow> map_option snd (find (\<lambda>t. fst t = cb_targetId b) (snd p)))))"

definition loading_of :: "jval \<Rightarrow> loading_capability option" where
  "loading_of capabilities =
     (case capabilities of
        JObj p ps \<Rightarrow>
          if fld capabilities ''contentLoading'' = Some (JStr (js ''ON_DEMAND_AND_PRELOAD'')) then Some OnDemandAndPreload
          else if fld capabilities ''contentLoading'' = Some (JStr (js ''PRELOAD_ONLY'')) then Some PreloadOnly else None
      | _ \<Rightarrow> None)"

definition targetContentLoading :: "runtime_catalog option \<Rightarrow> jsstr \<Rightarrow> jsstr \<Rightarrow> jsstr option \<Rightarrow> loading_capability option" where
  "targetContentLoading catalog coreId kind engine =
     (case target_capabilities catalog coreId kind engine of None \<Rightarrow> None | Some c \<Rightarrow> loading_of c)"

text \<open>The field of the page: the value it shows, and whether another can be chosen.\<close>

definition shown_loading :: "loading_capability option \<Rightarrow> content_loading \<Rightarrow> content_loading" where
  "shown_loading capability v = (if capability = Some PreloadOnly then PRELOAD else v)"

definition loading_choosable :: "loading_capability option \<Rightarrow> bool" where
  "loading_choosable capability \<longleftrightarrow> \<not> (capability = None \<or> capability = Some PreloadOnly)"

text \<open>
  Where the catalog has the capabilities of the launch, the page shows the way of loading that the host will then ask the Provider
  for, although the two read it from different documents and the page hands on the value that was chosen before.
\<close>

theorem shown_loading_is_used:
  assumes "target_capabilities catalog coreId kind engine = Some (capabilities_part envelope)" "capabilities_part envelope = JObj p ps"
  shows "shown_loading (targetContentLoading catalog coreId kind engine) v = host_content_loading envelope v"
  using assms by (auto simp: targetContentLoading_def loading_of_def shown_loading_def host_content_loading_def js_inj)

definition catalog_with :: "jval \<Rightarrow> runtime_catalog" where
  "catalog_with capabilities =
     \<lparr>rc_bindings = [\<lparr>cb_coreId = [1], cb_contentKinds = [[2]], cb_engine = None, cb_providerId = [3], cb_targetId = [4]\<rparr>],
      rc_providers = [([3], [([4], capabilities)])]\<rparr>"

definition launch_with :: "jval \<Rightarrow> jval" where
  "launch_with capabilities = jo [(''runtime'', jo [(''capabilities'', capabilities)])]"

lemma example_capabilities: "capabilities_part (launch_with c) = c"
  by (simp add: capabilities_part_def runtime_part_def launch_with_def fld_jo)

theorem shown_loading_is_used_witness:
  "let c = jo [(''contentLoading'', JStr (js ''PRELOAD_ONLY''))] in
   shown_loading (targetContentLoading (Some (catalog_with c)) [1] [2] None) ON_DEMAND = host_content_loading (launch_with c) ON_DEMAND \<and>
   host_content_loading (launch_with c) ON_DEMAND = PRELOAD"
proof -
  let ?c = "jo [(''contentLoading'', JStr (js ''PRELOAD_ONLY''))]"
  have "target_capabilities (Some (catalog_with ?c)) [1] [2] None = Some (capabilities_part (launch_with ?c))"
    by (simp add: target_capabilities_def catalog_with_def binding_fits_def example_capabilities)
  moreover have "capabilities_part (launch_with ?c) = JObj None [(js ''contentLoading'', JStr (js ''PRELOAD_ONLY''))]"
    by (simp add: example_capabilities jo_def)
  ultimately have "shown_loading (targetContentLoading (Some (catalog_with ?c)) [1] [2] None) ON_DEMAND = host_content_loading (launch_with ?c) ON_DEMAND"
    by (rule shown_loading_is_used)
  then show ?thesis by (simp add: host_content_loading_def example_capabilities fld_jo)
qed

section \<open>Starting the game\<close>

text \<open>A save is its id, its core and whether it can be restored.\<close>

type_synonym page_save = "nat \<times> jsstr \<times> bool"

record launch_offer =
  lo_core :: jsstr
  lo_save :: "nat option"
  lo_review :: bool
  lo_primary :: bool

definition latest_restorable :: "page_save list \<Rightarrow> page_save option" where
  "latest_restorable saves = find (\<lambda>s. snd (snd s)) saves"

definition start_offer :: "bool \<Rightarrow> jsstr \<Rightarrow> page_save list \<Rightarrow> launch_offer" where
  "start_offer review core saves =
     \<lparr>lo_core = core, lo_save = None, lo_review = review, lo_primary = (latest_restorable saves = None \<or> review)\<rparr>"

definition resume_offer :: "bool \<Rightarrow> page_save list \<Rightarrow> launch_offer option" where
  "resume_offer review saves =
     (case latest_restorable saves of
        Some (i, core, r) \<Rightarrow> if review then None else Some \<lparr>lo_core = core, lo_save = Some i, lo_review = False, lo_primary = True\<rparr>
      | None \<Rightarrow> None)"

text \<open>The core of the administrator's page: the chosen one while the game has it.\<close>

definition detail_core :: "jsstr list \<Rightarrow> jsstr \<Rightarrow> jsstr \<Rightarrow> jsstr" where
  "detail_core cores default' selected = (if selected \<in> set cores then selected else default')"

text \<open>Of the offers exactly one is the first choice.\<close>

lemma one_primary_offer: "lo_primary (start_offer review core saves) \<longleftrightarrow> resume_offer review saves = None"
  by (auto simp: start_offer_def resume_offer_def split: option.split)

section \<open>Deciding about a game\<close>

datatype game_decision = ApproveGame "jsstr option" | DiscardGame | WithdrawGame

datatype game_request = DecideGame game_decision nat | FavoriteGame bool | NextReview

datatype game_target = ReviewOf nat | ReviewList

text \<open>
  The detail that is loaded: version, favorite, published. \<open>gp_flight\<close> is the call under way, which is what \<open>busy\<close> stands for. The logs of
  requests, of decisions that were made and of pages that were gone to are not read by the code.
\<close>

record game_page =
  gp_detail :: "(nat \<times> bool \<times> bool) option"
  gp_flight :: "game_request option"
  gp_reloads :: nat
  gp_warned :: bool
  gp_sent :: "game_request list"
  gp_decided :: "game_decision list"
  gp_targets :: "game_target list"

definition game_page_initial :: game_page where
  "game_page_initial =
     \<lparr>gp_detail = None, gp_flight = None, gp_reloads = 0, gp_warned = False, gp_sent = [], gp_decided = [], gp_targets = []\<rparr>"

definition send_game :: "game_request \<Rightarrow> game_page \<Rightarrow> game_page" where
  "send_game r s = s\<lparr>gp_flight := Some r, gp_sent := gp_sent s @ [r]\<rparr>"

definition review_game :: "game_decision \<Rightarrow> game_page \<Rightarrow> game_page" where
  "review_game d s =
     (case gp_detail s of
        None \<Rightarrow> s
      | Some (v, f, p) \<Rightarrow> if gp_flight s \<noteq> None then s else send_game (DecideGame d v) s)"

text \<open>\<open>manager\<close>: an administrator who is not in a window of the installed application.\<close>

definition can_withdraw :: "bool \<Rightarrow> game_page \<Rightarrow> bool" where
  "can_withdraw manager s \<longleftrightarrow> manager \<and> (case gp_detail s of Some (v, f, p) \<Rightarrow> p | None \<Rightarrow> False)"

definition withdraw_game :: "bool \<Rightarrow> game_page \<Rightarrow> game_page" where
  "withdraw_game manager s = (if can_withdraw manager s then review_game WithdrawGame s else s)"

definition favorite_game :: "game_page \<Rightarrow> game_page" where
  "favorite_game s =
     (case gp_detail s of
        None \<Rightarrow> s
      | Some (v, f, p) \<Rightarrow> if gp_flight s \<noteq> None then s else send_game (FavoriteGame (\<not> f)) s)"

definition go_to :: "game_target \<Rightarrow> game_page \<Rightarrow> game_page" where
  "go_to t s = s\<lparr>gp_targets := gp_targets s @ [t], gp_flight := None\<rparr>"

text \<open>The answer to a decision or a favorite.\<close>

definition game_answered :: "nat \<Rightarrow> bool \<Rightarrow> game_page \<Rightarrow> game_page" where
  "game_answered gameId ok s =
     (case gp_flight s of
        Some (DecideGame d v) \<Rightarrow>
          if \<not> ok then s\<lparr>gp_flight := None, gp_reloads := gp_reloads s + 1\<rparr>
          else let t = s\<lparr>gp_decided := gp_decided s @ [d]\<rparr> in
          (case d of
             ApproveGame c \<Rightarrow> send_game NextReview t
           | DiscardGame \<Rightarrow> go_to ReviewList t
           | WithdrawGame \<Rightarrow> go_to (ReviewOf gameId) t)
      | Some (FavoriteGame v) \<Rightarrow> if ok then s\<lparr>gp_flight := None, gp_reloads := gp_reloads s + 1\<rparr> else s\<lparr>gp_flight := None\<rparr>
      | _ \<Rightarrow> s)"

text \<open>\<open>nextReview\<close>: the first pending game, if it could be read and there is one.\<close>

definition next_answered :: "nat option option \<Rightarrow> game_page \<Rightarrow> game_page" where
  "next_answered r s =
     (if gp_flight s \<noteq> Some NextReview then s
      else case r of
        None \<Rightarrow> go_to ReviewList (s\<lparr>gp_warned := True\<rparr>)
      | Some None \<Rightarrow> go_to ReviewList s
      | Some (Some i) \<Rightarrow> go_to (ReviewOf i) s)"

datatype game_event =
    GameLoaded "(nat \<times> bool \<times> bool) option"
  | ReviewGame "jsstr option"
  | DiscardReview
  | WithdrawReview bool
  | ToggleGame
  | GameAnswered bool
  | NextAnswered "nat option option"

definition game_step :: "nat \<Rightarrow> game_event \<Rightarrow> game_page \<Rightarrow> game_page" where
  "game_step gameId e s =
     (case e of
        GameLoaded d \<Rightarrow> s\<lparr>gp_detail := d\<rparr>
      | ReviewGame c \<Rightarrow> review_game (ApproveGame c) s
      | DiscardReview \<Rightarrow> review_game DiscardGame s
      | WithdrawReview manager \<Rightarrow> withdraw_game manager s
      | ToggleGame \<Rightarrow> favorite_game s
      | GameAnswered ok \<Rightarrow> game_answered gameId ok s
      | NextAnswered r \<Rightarrow> next_answered r s)"

text \<open>Where a decision leads: a withdrawn game to its own review, a discarded one to the list, an approved one on.\<close>

definition leads_to :: "nat \<Rightarrow> game_decision \<Rightarrow> game_target \<Rightarrow> bool" where
  "leads_to gameId d t \<longleftrightarrow> (case d of ApproveGame c \<Rightarrow> True | DiscardGame \<Rightarrow> t = ReviewList | WithdrawGame \<Rightarrow> t = ReviewOf gameId)"

text \<open>Every decision that the server made leads away once; only the approval made last may still look for the next review.\<close>

definition decisions_lead_away :: "nat \<Rightarrow> game_page \<Rightarrow> bool" where
  "decisions_lead_away gameId s \<longleftrightarrow>
     (if gp_flight s = Some NextReview
      then gp_decided s \<noteq> [] \<and> (\<exists>c. last (gp_decided s) = ApproveGame c) \<and> list_all2 (leads_to gameId) (butlast (gp_decided s)) (gp_targets s)
      else list_all2 (leads_to gameId) (gp_decided s) (gp_targets s))"

lemma decision_step: "decisions_lead_away g s \<Longrightarrow> decisions_lead_away g (game_step g e s)"
proof (cases e)
  case (GameAnswered ok)
  assume "decisions_lead_away g s"
  then show ?thesis using GameAnswered
    by (cases "gp_flight s")
      (auto simp: game_step_def game_answered_def send_game_def go_to_def decisions_lead_away_def leads_to_def Let_def list_all2_appendI
        split: game_request.split game_decision.split)
next
  case (NextAnswered r)
  assume s: "decisions_lead_away g s"
  show ?thesis
  proof (cases "gp_flight s = Some NextReview")
    case True
    then obtain c where d: "gp_decided s = butlast (gp_decided s) @ [ApproveGame c]"
      and ts: "list_all2 (leads_to g) (butlast (gp_decided s)) (gp_targets s)"
      using s by (metis append_butlast_last_id decisions_lead_away_def)
    have "list_all2 (leads_to g) (gp_decided s) (gp_targets s @ [t])" for t
      by (subst d) (rule list_all2_appendI [OF ts], simp add: leads_to_def)
    then show ?thesis using NextAnswered True
      by (auto simp: game_step_def next_answered_def go_to_def decisions_lead_away_def split: option.split)
  qed (use NextAnswered s in \<open>simp add: game_step_def next_answered_def\<close>)
qed (auto simp: game_step_def review_game_def withdraw_game_def favorite_game_def send_game_def decisions_lead_away_def split: option.split)

text \<open>The page is left once for every decision that the server made and never otherwise, and it goes where that decision belongs.\<close>

theorem page_is_left_by_decisions:
  "decisions_lead_away gameId (fold (game_step gameId) es game_page_initial)"
proof -
  have "decisions_lead_away gameId (fold (game_step gameId) es s)" if "decisions_lead_away gameId s" for s
    using that by (induction es arbitrary: s) (simp_all add: decision_step)
  then show ?thesis by (simp add: decisions_lead_away_def game_page_initial_def)
qed

section \<open>Media\<close>

datatype media_kind = CoverMedia | VideoMedia | ScreenshotMedia

datatype media_request = SendMedia media_kind nat | RemoveMedia nat nat

text \<open>A game has media (id and kind) and a version; a successful request asks the page to load it anew.\<close>

record media_editor =
  me_kind :: media_kind
  me_removing :: "nat option"
  me_flight :: "media_request option"
  me_sent :: "media_request list"
  me_changes :: nat

definition selected_media :: "(nat \<times> media_kind) list \<Rightarrow> media_editor \<Rightarrow> nat option" where
  "selected_media media s = map_option fst (find (\<lambda>m. snd m = me_kind s) media)"

definition send_media :: "nat \<Rightarrow> media_editor \<Rightarrow> media_editor" where
  "send_media version s =
     (if me_flight s \<noteq> None \<or> me_kind s = ScreenshotMedia then s
      else s\<lparr>me_flight := Some (SendMedia (me_kind s) version), me_sent := me_sent s @ [SendMedia (me_kind s) version]\<rparr>)"

definition ask_remove_media :: "(nat \<times> media_kind) list \<Rightarrow> media_editor \<Rightarrow> media_editor" where
  "ask_remove_media media s =
     (case selected_media media s of None \<Rightarrow> s | Some i \<Rightarrow> if me_flight s \<noteq> None then s else s\<lparr>me_removing := Some i\<rparr>)"

definition remove_media :: "nat \<Rightarrow> media_editor \<Rightarrow> media_editor" where
  "remove_media version s =
     (case me_removing s of
        None \<Rightarrow> s
      | Some i \<Rightarrow>
          if me_flight s \<noteq> None then s
          else s\<lparr>me_flight := Some (RemoveMedia i version), me_sent := me_sent s @ [RemoveMedia i version]\<rparr>)"

definition media_answered :: "bool \<Rightarrow> media_editor \<Rightarrow> media_editor" where
  "media_answered ok s =
     (case me_flight s of
        None \<Rightarrow> s
      | Some r \<Rightarrow>
          let t = s\<lparr>me_flight := None\<rparr> in
          if \<not> ok then t
          else (case r of SendMedia k v \<Rightarrow> t | RemoveMedia i v \<Rightarrow> t\<lparr>me_removing := None\<rparr>)\<lparr>me_changes := me_changes s + 1\<rparr>)"

datatype media_event =
    ShowMedia media_kind
  | PickMedia nat
  | AskRemoveMedia "(nat \<times> media_kind) list"
  | CancelRemoveMedia
  | ConfirmRemoveMedia nat
  | MediaAnswered bool

definition media_step :: "media_event \<Rightarrow> media_editor \<Rightarrow> media_editor" where
  "media_step e s =
     (case e of
        ShowMedia k \<Rightarrow> s\<lparr>me_kind := k\<rparr>
      | PickMedia version \<Rightarrow> send_media version s
      | AskRemoveMedia media \<Rightarrow> ask_remove_media media s
      | CancelRemoveMedia \<Rightarrow> if me_flight s = None then s\<lparr>me_removing := None\<rparr> else s
      | ConfirmRemoveMedia version \<Rightarrow> remove_media version s
      | MediaAnswered ok \<Rightarrow> media_answered ok s)"

text \<open>A screenshot is only ever removed: none is sent from this page.\<close>

lemma no_screenshot_is_sent:
  "SendMedia ScreenshotMedia v \<notin> set (me_sent s) \<Longrightarrow> SendMedia ScreenshotMedia v \<notin> set (me_sent (fold media_step es s))"
proof (induction es arbitrary: s)
  case (Cons e es)
  have "SendMedia ScreenshotMedia v \<notin> set (me_sent (media_step e s))"
    using Cons.prems by (cases e) (auto simp: media_step_def send_media_def ask_remove_media_def remove_media_def media_answered_def Let_def
      split: option.split media_request.split)
  then show ?case using Cons.IH by simp
qed simp

end
