(* ===== verification/Browse_Lists.thy ===== *)
theory Browse_Lists
  imports Catalog "HOL-Library.Multiset"
begin

text \<open>
  Lists that an administrator looks through: the directories by category (\<open>web/features/directories/directory-list.tsx\<close>) with the menu
  of each (\<open>directory-menu.tsx\<close>), the files that runtimes need (\<open>web/features/bios/bios-list.tsx\<close>, \<open>bios-manager.tsx\<close>) and the uploads
  that were left (\<open>web/features/scans/pending-uploads.tsx\<close>). \<open>fold_case\<close> is \<open>toLocaleLowerCase\<close>, a parameter.
\<close>

section \<open>Directories by category\<close>

record listed_directory =
  ld_id :: nat
  ld_platformId :: jsstr
  ld_enabled :: bool
  ld_name :: jsstr
  ld_description :: jsstr
  ld_slug :: jsstr

text \<open>The filters; an empty text and \<open>None\<close> mean all.\<close>

record directory_filters =
  dl_query :: jsstr
  dl_platform :: jsstr
  dl_status :: "bool option"
  dl_open :: "DirectoryCategory list"

definition directory_text :: "listed_directory \<Rightarrow> jsstr" where
  "directory_text d = join_with [32] [ld_name d, ld_description d, ld_slug d, ld_platformId d]"

definition matched_directories :: "(jsstr \<Rightarrow> jsstr) \<Rightarrow> directory_filters \<Rightarrow> listed_directory list \<Rightarrow> listed_directory list" where
  "matched_directories fold_case f ds =
     filter (\<lambda>d. (dl_platform f = [] \<or> ld_platformId d = dl_platform f) \<and>
       (case dl_status f of None \<Rightarrow> True | Some b \<Rightarrow> ld_enabled d = b) \<and> includes_str (fold_case (directory_text d)) (fold_case (dl_query f))) ds"

definition in_category :: "DirectoryCategory \<Rightarrow> listed_directory list \<Rightarrow> listed_directory list" where
  "in_category c ds = filter (\<lambda>d. categoryForPlatform (Some (ld_platformId d)) = Some c) ds"

definition directory_groups :: "(jsstr \<Rightarrow> jsstr) \<Rightarrow> directory_filters \<Rightarrow> listed_directory list \<Rightarrow> (DirectoryCategory \<times> listed_directory list) list" where
  "directory_groups fold_case f ds =
     filter (\<lambda>g. snd g \<noteq> []) (map (\<lambda>c. (fst c, in_category (fst c) (matched_directories fold_case f ds))) directoryCategories)"

definition toggle_group :: "DirectoryCategory \<Rightarrow> directory_filters \<Rightarrow> directory_filters" where
  "toggle_group c f = f\<lparr>dl_open := (if c \<in> set (dl_open f) then filter (\<lambda>x. x \<noteq> c) (dl_open f) else dl_open f @ [c])\<rparr>"

definition open_all :: "(jsstr \<Rightarrow> jsstr) \<Rightarrow> listed_directory list \<Rightarrow> directory_filters \<Rightarrow> directory_filters" where
  "open_all fold_case ds f = f\<lparr>dl_open := map fst (directory_groups fold_case f ds)\<rparr>"

definition close_all :: "directory_filters \<Rightarrow> directory_filters" where
  "close_all f = f\<lparr>dl_open := []\<rparr>"

text \<open>What is on the page: the directories of the groups that are open.\<close>

definition visible_directories :: "(jsstr \<Rightarrow> jsstr) \<Rightarrow> directory_filters \<Rightarrow> listed_directory list \<Rightarrow> listed_directory list" where
  "visible_directories fold_case f ds = concat (map snd (filter (\<lambda>g. fst g \<in> set (dl_open f)) (directory_groups fold_case f ds)))"

text \<open>A directory whose platform is one of the names of \<open>Object.prototype\<close> has no category (\<open>Catalog\<close>).\<close>

definition categorised :: "listed_directory \<Rightarrow> bool" where
  "categorised d \<longleftrightarrow> categoryForPlatform (Some (ld_platformId d)) \<noteq> None"

lemma categories_listed: "set (map fst directoryCategories) = UNIV" "distinct (map fst directoryCategories)"
proof -
  have "c \<in> set (map fst directoryCategories)" for c by (cases c) (simp_all add: directoryCategories_def)
  then show "set (map fst directoryCategories) = UNIV" by blast
  show "distinct (map fst directoryCategories)" by (simp add: directoryCategories_def)
qed

lemma concat_nonempty: "concat (map snd (filter (\<lambda>g. snd g \<noteq> []) gs)) = concat (map snd gs)"
  by (induction gs) auto

lemma grouped_mset:
  "distinct cs \<Longrightarrow> mset (concat (map (\<lambda>c. in_category c ds) cs)) =
     mset (filter (\<lambda>d. case categoryForPlatform (Some (ld_platformId d)) of None \<Rightarrow> False | Some c \<Rightarrow> c \<in> set cs) ds)"
proof (induction cs)
  case (Cons c cs)
  have split: "mset (filter P ds) + mset (filter Q ds) = mset (filter (\<lambda>d. P d \<or> Q d) ds)" if "\<And>d. \<not> (P d \<and> Q d)" for P Q :: "listed_directory \<Rightarrow> bool"
    using that by (induction ds) auto
  have eq: "(\<lambda>d. categoryForPlatform (Some (ld_platformId d)) = Some c \<or>
        (case categoryForPlatform (Some (ld_platformId d)) of None \<Rightarrow> False | Some c \<Rightarrow> c \<in> set cs)) =
      (\<lambda>d. case categoryForPlatform (Some (ld_platformId d)) of None \<Rightarrow> False | Some x \<Rightarrow> x \<in> set (c # cs))"
    by (auto split: option.split)
  have "mset (concat (map (\<lambda>c. in_category c ds) (c # cs))) = mset (in_category c ds) +
      mset (filter (\<lambda>d. case categoryForPlatform (Some (ld_platformId d)) of None \<Rightarrow> False | Some c \<Rightarrow> c \<in> set cs) ds)"
    using Cons by simp
  also have "\<dots> = mset (filter (\<lambda>d. case categoryForPlatform (Some (ld_platformId d)) of None \<Rightarrow> False | Some x \<Rightarrow> x \<in> set (c # cs)) ds)"
    unfolding in_category_def eq [symmetric] by (rule split) (use Cons.prems in \<open>auto split: option.splits\<close>)
  finally show ?case .
qed (auto split: option.split)

text \<open>
  C34. Opening all groups shows every directory that matches the filters once, whatever the search and whatever was open, unless its
  platform has no category.
\<close>

theorem open_all_shows_each_match:
  "mset (visible_directories fold_case (open_all fold_case ds f) ds) = mset (filter categorised (matched_directories fold_case f ds))"
proof -
  let ?m = "matched_directories fold_case f ds" and ?g = "directory_groups fold_case f ds"
  have same: "directory_groups fold_case (open_all fold_case ds f) ds = ?g"
    by (simp add: directory_groups_def matched_directories_def open_all_def)
  have "filter (\<lambda>g. fst g \<in> set (dl_open (open_all fold_case ds f))) ?g = ?g"
    by (auto simp: filter_id_conv open_all_def)
  then have "visible_directories fold_case (open_all fold_case ds f) ds = concat (map snd ?g)"
    by (simp only: visible_directories_def same)
  also have "\<dots> = concat (map (\<lambda>c. in_category c ?m) (map fst directoryCategories))"
    by (simp add: directory_groups_def concat_nonempty comp_def)
  finally have "visible_directories fold_case (open_all fold_case ds f) ds = concat (map (\<lambda>c. in_category c ?m) (map fst directoryCategories))" .
  then have "mset (visible_directories fold_case (open_all fold_case ds f) ds) =
      mset (filter (\<lambda>d. case categoryForPlatform (Some (ld_platformId d)) of None \<Rightarrow> False | Some c \<Rightarrow> c \<in> set (map fst directoryCategories)) ?m)"
    by (simp only: grouped_mset [OF categories_listed(2)])
  also have "\<dots> = mset (filter categorised ?m)"
    by (simp only: categories_listed(1)) (rule arg_cong [of _ _ mset], rule filter_cong, auto simp: categorised_def split: option.split)
  finally show ?thesis .
qed

section \<open>The menu of a directory\<close>

text \<open>Lengths are integers of pixels. The place of one side of the menu: wished for, its size, the size of the window.\<close>

definition menu_place :: "int \<Rightarrow> int \<Rightarrow> int \<Rightarrow> int" where
  "menu_place wished box window = max 8 (min wished (window - box - 8))"

definition menu_position :: "int \<times> int \<Rightarrow> int \<times> int \<Rightarrow> int \<times> int \<Rightarrow> int \<times> int" where
  "menu_position anchor box window =
     (menu_place (fst anchor - fst box) (fst box) (fst window), menu_place (snd anchor + 6) (snd box) (snd window))"

text \<open>A menu that fits into the window with its margins is placed inside it, wherever its button is.\<close>

theorem menu_stays_in_window:
  assumes "fst box + 16 \<le> fst window" "snd box + 16 \<le> snd window"
  shows "8 \<le> fst (menu_position anchor box window) \<and> fst (menu_position anchor box window) + fst box \<le> fst window - 8 \<and>
    8 \<le> snd (menu_position anchor box window) \<and> snd (menu_position anchor box window) + snd box \<le> snd window - 8"
  using assms by (auto simp: menu_position_def menu_place_def)

theorem menu_stays_in_window_witness:
  "menu_position (790, 590) (180, 90) (800, 600) = (610, 502) \<and> 610 + 180 \<le> 800 - (8 :: int)"
  using menu_stays_in_window [of "(180, 90)" "(800, 600)" "(790, 590)"] by (simp add: menu_position_def menu_place_def)

datatype menu_move = MenuDown | MenuUp | MenuHome | MenuEnd

text \<open>The button that gets the focus, of \<open>n\<close> that are enabled; \<open>None\<close> before: none of them had it.\<close>

definition menu_focus :: "menu_move \<Rightarrow> nat option \<Rightarrow> nat \<Rightarrow> int" where
  "menu_focus m i n =
     (let index = (case i of Some k \<Rightarrow> int k | None \<Rightarrow> -1) in
      case m of
        MenuHome \<Rightarrow> 0
      | MenuEnd \<Rightarrow> int n - 1
      | MenuDown \<Rightarrow> (index + 1 + int n) mod int n
      | MenuUp \<Rightarrow> (index - 1 + int n) mod int n)"

lemma menu_focus_inside: "0 < n \<Longrightarrow> 0 \<le> menu_focus m i n \<and> menu_focus m i n < int n"
  by (auto simp: menu_focus_def Let_def split: menu_move.split)

section \<open>Files that runtimes need\<close>

datatype verification_status = ValidFile | InvalidFile | IncompleteFile

record bios_item =
  bi_key :: jsstr
  bi_name :: jsstr
  bi_filename :: jsstr
  bi_coreIds :: "jsstr list"
  bi_required :: bool
  bi_installed :: bool
  bi_verification :: "verification_status option"

definition needsAttention :: "bios_item \<Rightarrow> bool" where
  "needsAttention i \<longleftrightarrow> (bi_required i \<and> \<not> bi_installed i) \<or> (bi_verification i \<noteq> None \<and> bi_verification i \<noteq> Some ValidFile)"

datatype bios_label = CannotVerify | MembersIncomplete | Installed | FileMissing

definition installationLabel :: "bios_item \<Rightarrow> bios_label" where
  "installationLabel i =
     (if bi_verification i = Some InvalidFile then CannotVerify
      else if bi_verification i = Some IncompleteFile then MembersIncomplete
      else if bi_installed i then Installed else FileMissing)"

record bios_filters =
  bf_query :: jsstr
  bf_core :: jsstr
  bf_state :: "bool option"
  bf_required :: "bool option"

definition matched_bios :: "(jsstr \<Rightarrow> jsstr) \<Rightarrow> bios_filters \<Rightarrow> bios_item list \<Rightarrow> bios_item list" where
  "matched_bios fold_case f items =
     filter (\<lambda>i. (bf_core f = [] \<or> bf_core f \<in> set (bi_coreIds i)) \<and> (case bf_state f of None \<Rightarrow> True | Some b \<Rightarrow> bi_installed i = b) \<and>
       (case bf_required f of None \<Rightarrow> True | Some b \<Rightarrow> bi_required i = b) \<and>
       includes_str (fold_case (join_with [32] [bi_name i, bi_filename i, join_with [32] (bi_coreIds i)])) (fold_case (bf_query f))) items"

definition bios_groups :: "(jsstr \<Rightarrow> jsstr) \<Rightarrow> bios_filters \<Rightarrow> bios_item list \<Rightarrow> bios_item list \<times> bios_item list" where
  "bios_groups fold_case f items =
     (filter needsAttention (matched_bios fold_case f items), filter (\<lambda>i. \<not> needsAttention i) (matched_bios fold_case f items))"

text \<open>Each file that matches is in one of the two groups, and one that is said to be fine is not in the group of those that need attention.\<close>

lemma attention_label: "needsAttention i \<Longrightarrow> installationLabel i \<noteq> Installed"
  by (cases "bi_verification i"; cases "the (bi_verification i)") (auto simp: needsAttention_def installationLabel_def)

lemma bios_groups_split:
  "mset (fst (bios_groups fold_case f items)) + mset (snd (bios_groups fold_case f items)) = mset (matched_bios fold_case f items)"
  "i \<in> set (fst (bios_groups fold_case f items)) \<Longrightarrow> installationLabel i \<noteq> Installed"
proof -
  have "mset (filter P xs) + mset (filter (\<lambda>x. \<not> P x) xs) = mset xs" for P and xs :: "bios_item list" by (induction xs) auto
  then show "mset (fst (bios_groups fold_case f items)) + mset (snd (bios_groups fold_case f items)) = mset (matched_bios fold_case f items)"
    by (simp add: bios_groups_def)
  show "i \<in> set (fst (bios_groups fold_case f items)) \<Longrightarrow> installationLabel i \<noteq> Installed"
    by (simp add: bios_groups_def attention_label)
qed

section \<open>Uploads that were left\<close>

text \<open>\<open>pu_busy\<close> is the upload that is being given up; \<open>pu_flights\<close> are the requests under way.\<close>

record pending_uploads =
  pu_items :: "(nat \<times> bool) list"
  pu_busy :: "nat option"
  pu_flights :: "nat list"
  pu_reloads :: nat
  pu_opened :: "nat list"

definition abandon_upload :: "nat \<Rightarrow> pending_uploads \<Rightarrow> pending_uploads" where
  "abandon_upload i s =
     (if i \<notin> fst ` set (pu_items s) \<or> pu_busy s = Some i then s else s\<lparr>pu_busy := Some i, pu_flights := pu_flights s @ [i]\<rparr>)"

definition abandon_answered :: "nat \<Rightarrow> pending_uploads \<Rightarrow> pending_uploads" where
  "abandon_answered k s =
     (if length (pu_flights s) \<le> k then s
      else s\<lparr>pu_flights := remove_at k (pu_flights s), pu_busy := None, pu_reloads := pu_reloads s + 1\<rparr>)"

text \<open>Going on with an upload: mapping one that is complete, resuming another where uploads are allowed.\<close>

definition open_upload :: "bool \<Rightarrow> nat \<Rightarrow> pending_uploads \<Rightarrow> pending_uploads" where
  "open_upload canUpload i s =
     (if pu_busy s = None \<and> ((i, True) \<in> set (pu_items s) \<or> (canUpload \<and> (i, False) \<in> set (pu_items s)))
      then s\<lparr>pu_opened := pu_opened s @ [i]\<rparr> else s)"

datatype upload_list_event = AbandonUpload nat | AbandonAnswered nat | OpenUpload nat | UploadsLoaded "(nat \<times> bool) list"

definition upload_list_step :: "bool \<Rightarrow> upload_list_event \<Rightarrow> pending_uploads \<Rightarrow> pending_uploads" where
  "upload_list_step canUpload e s =
     (case e of
        AbandonUpload i \<Rightarrow> abandon_upload i s
      | AbandonAnswered k \<Rightarrow> abandon_answered k s
      | OpenUpload i \<Rightarrow> open_upload canUpload i s
      | UploadsLoaded is \<Rightarrow> s\<lparr>pu_items := is\<rparr>)"

text \<open>
  The mark is one for all uploads: when two are given up and the first request is answered, the second can be opened although it is
  still being removed.
\<close>

lemma removed_upload_is_opened:
  "let s = fold (upload_list_step True) [AbandonUpload 1, AbandonUpload 2, AbandonAnswered 0, OpenUpload 2]
       \<lparr>pu_items = [(1, True), (2, True)], pu_busy = None, pu_flights = [], pu_reloads = 0, pu_opened = []\<rparr> in
   pu_flights s = [2] \<and> pu_opened s = [2]"
  by (simp add: upload_list_step_def abandon_upload_def abandon_answered_def open_upload_def remove_at_def)

end
