(* ===== verification/Player_Shell.thy ===== *)
theory Player_Shell
  imports Provider_Contract
begin

text \<open>
  What the shell of the player keeps itself (\<open>web/features/player/player-shell.tsx\<close>): which layers are open and what that means for the
  input, the menu and the choice of a save, the end of a game that left final data, and the start from such data. The parts it puts
  together have theories of their own (\<open>Player_Session\<close>, \<open>Save_Session\<close>, \<open>Player_Exit\<close>, \<open>Player_Pause\<close>, \<open>Player_Controls\<close>, \<open>Player_Aids\<close>).
\<close>

section \<open>Layers\<close>

text \<open>The layers of the page: the exit dialogue is open, or active without being open yet.\<close>

record player_layers =
  pl_exitOpen :: bool
  pl_exitActive :: bool
  pl_menu :: bool
  pl_saveChoice :: bool
  pl_settings :: bool
  pl_debug :: bool
  pl_editor :: bool
  pl_editorPending :: bool
  pl_blocked :: bool

record overlay_state =
  ov_dialogOpen :: bool
  ov_suppressInput :: bool
  ov_pinned :: bool
  ov_surfaceDismissible :: bool

definition playerOverlayState :: "player_layers \<Rightarrow> overlay_state" where
  "playerOverlayState l =
     (let dialog = pl_exitActive l \<or> pl_saveChoice l \<or> pl_editor l in
      \<lparr>ov_dialogOpen = dialog,
       ov_suppressInput = pl_blocked l \<or> dialog \<or> pl_menu l \<or> pl_settings l \<or> pl_editorPending l,
       ov_pinned = pl_exitOpen l \<or> pl_menu l \<or> pl_saveChoice l \<or> pl_settings l \<or> pl_debug l \<or> pl_editor l,
       ov_surfaceDismissible = \<not> dialog \<and> \<not> pl_settings l \<and> \<not> pl_debug l \<and> \<not> pl_blocked l\<rparr>)"

definition playerHudPinned :: "bool \<Rightarrow> overlay_state \<Rightarrow> bool \<Rightarrow> bool" where
  "playerHudPinned desktopPointer o' settings = (if desktopPointer then ov_dialogOpen o' \<or> settings else ov_pinned o')"

text \<open>Whatever takes the keys from the game, apart from the debug panel, also keeps the bar of controls, unless the mouse is used; and a click on the game only closes the menu.\<close>

lemma overlay_laws:
  "ov_surfaceDismissible (playerOverlayState l) \<Longrightarrow> ov_suppressInput (playerOverlayState l) \<Longrightarrow> pl_menu l \<or> pl_editorPending l"
  "pl_exitOpen l \<longrightarrow> pl_exitActive l \<Longrightarrow> ov_pinned (playerOverlayState l) \<Longrightarrow> ov_suppressInput (playerOverlayState l) \<or> pl_debug l"
  by (auto simp: playerOverlayState_def Let_def)

section \<open>The volume button\<close>

text \<open>The volume in percent and the one to go back to.\<close>

definition toggle_mute :: "nat \<times> nat \<Rightarrow> nat \<times> nat" where
  "toggle_mute v = (if fst v \<noteq> 0 then (0, fst v) else (snd v, snd v))"

lemma mute_and_back: "fst v \<noteq> 0 \<Longrightarrow> fst (toggle_mute (toggle_mute v)) = fst v"
  by (simp add: toggle_mute_def)

section \<open>The end of a game and its start from final data\<close>

text \<open>
  Snapshots are numbered. \<open>sh_commits\<close> are those whose \<open>commit\<close> has not answered. The code does not read the last four: the snapshots
  that were committed, the requests to leave, the captures that were asked for (with the save that was chosen) and the errors.
\<close>

record player_shell =
  sh_menu :: bool
  sh_saveChoice :: bool
  sh_restore :: "nat option"
  sh_exitSnapshot :: "nat option"
  sh_commits :: "nat list"
  sh_committed :: "nat list"
  sh_exits :: nat
  sh_captures :: "(bool \<times> nat option) list"
  sh_errors :: nat

definition shell_initial :: player_shell where
  "shell_initial =
     \<lparr>sh_menu = False, sh_saveChoice = False, sh_restore = None, sh_exitSnapshot = None, sh_commits = [], sh_committed = [], sh_exits = 0,
      sh_captures = [], sh_errors = 0\<rparr>"

definition request_exit :: "nat option \<Rightarrow> player_shell \<Rightarrow> player_shell" where
  "request_exit snapshot s =
     (case snapshot of None \<Rightarrow> s\<lparr>sh_exits := sh_exits s + 1\<rparr> | Some n \<Rightarrow> s\<lparr>sh_commits := sh_commits s @ [n]\<rparr>)"

text \<open>A commit answers whether it kept the data (\<open>Some\<close>) or fails (\<open>None\<close>); either way the player is asked to leave.\<close>

definition commit_answered :: "nat \<Rightarrow> bool option \<Rightarrow> player_shell \<Rightarrow> player_shell" where
  "commit_answered k r s =
     (if length (sh_commits s) \<le> k then s
      else let n = sh_commits s ! k; t = s\<lparr>sh_commits := remove_at k (sh_commits s), sh_exits := sh_exits s + 1\<rparr> in
      case r of
        Some True \<Rightarrow> t\<lparr>sh_exitSnapshot := Some n, sh_committed := sh_committed s @ [n]\<rparr>
      | Some False \<Rightarrow> t
      | None \<Rightarrow> t\<lparr>sh_errors := sh_errors s + 1\<rparr>)"

text \<open>Whether the game can be started again: it left data, it has ended, nothing waits to be saved, and this is no review.\<close>

definition restart_offered :: "RuntimeStateV1 \<Rightarrow> bool \<Rightarrow> bool \<Rightarrow> player_shell \<Rightarrow> bool" where
  "restart_offered current draft review s \<longleftrightarrow> sh_exitSnapshot s \<noteq> None \<and> current = EXITED \<and> \<not> draft \<and> \<not> review"

text \<open>\<open>dismissed\<close>: the exit dialogue let itself be closed.\<close>

definition restart_game :: "RuntimeStateV1 \<Rightarrow> bool \<Rightarrow> bool \<Rightarrow> bool \<Rightarrow> player_shell \<Rightarrow> player_shell" where
  "restart_game current draft review dismissed s =
     (if restart_offered current draft review s \<and> dismissed then s\<lparr>sh_exitSnapshot := None, sh_restore := sh_exitSnapshot s\<rparr> else s)"

definition shell_ready :: "RuntimeStateV1 option \<Rightarrow> bool" where
  "shell_ready st \<longleftrightarrow> st = Some RUNNING \<or> st = Some PAUSED"

text \<open>The save button, after the game was paused: a save that the game has already lets the player choose.\<close>

definition save_pressed :: "RuntimeStateV1 option \<Rightarrow> bool \<Rightarrow> bool \<Rightarrow> bool \<Rightarrow> player_shell \<Rightarrow> player_shell" where
  "save_pressed st native review current s =
     (if \<not> shell_ready st then s
      else if \<not> native \<and> \<not> review \<and> current then s\<lparr>sh_saveChoice := True\<rparr>
      else s\<lparr>sh_captures := sh_captures s @ [(native, None)]\<rparr>)"

definition save_chosen :: "RuntimeStateV1 option \<Rightarrow> nat option \<Rightarrow> player_shell \<Rightarrow> player_shell" where
  "save_chosen st save s =
     (let t = s\<lparr>sh_saveChoice := False\<rparr> in if shell_ready st then t\<lparr>sh_captures := sh_captures t @ [(False, save)]\<rparr> else t)"

definition show_menu :: "bool \<Rightarrow> player_shell \<Rightarrow> player_shell" where
  "show_menu immersive s = (if immersive then (request_exit None s)\<lparr>sh_menu := False\<rparr> else s\<lparr>sh_menu := \<not> sh_menu s\<rparr>)"

text \<open>What the pause button asks of the runtime: \<open>Some True\<close> resumes, \<open>Some False\<close> pauses.\<close>

definition pause_call :: "bool \<Rightarrow> RuntimeStateV1 option \<Rightarrow> bool option" where
  "pause_call blocked st = (if blocked \<or> \<not> shell_ready st then None else Some (st = Some PAUSED))"

text \<open>A page that still has something to save asks before it is closed.\<close>

definition unload_guarded :: "bool \<Rightarrow> bool \<Rightarrow> bool" where
  "unload_guarded draft busy \<longleftrightarrow> draft \<or> busy"

text \<open>The preview of a review is numbered like the other snapshots.\<close>

datatype player_shell_event =
    GameEnds "nat option"
  | CommitAnswers nat "bool option"
  | RestartGame RuntimeStateV1 bool bool bool
  | RestorePreview nat
  | PressSave "RuntimeStateV1 option" bool bool bool
  | ChooseSave "RuntimeStateV1 option" "nat option"
  | CloseSaveChoice
  | PressMenu bool
  | LeaveFromMenu
  | ResumeFromSurface

definition player_shell_step :: "player_shell_event \<Rightarrow> player_shell \<Rightarrow> player_shell" where
  "player_shell_step e s =
     (case e of
        GameEnds n \<Rightarrow> request_exit n s
      | CommitAnswers k r \<Rightarrow> commit_answered k r s
      | RestartGame current draft review dismissed \<Rightarrow> restart_game current draft review dismissed s
      | RestorePreview n \<Rightarrow> s\<lparr>sh_restore := Some n\<rparr>
      | PressSave st native review current \<Rightarrow> save_pressed st native review current s
      | ChooseSave st save \<Rightarrow> save_chosen st save s
      | CloseSaveChoice \<Rightarrow> s\<lparr>sh_saveChoice := False\<rparr>
      | PressMenu immersive \<Rightarrow> show_menu immersive s
      | LeaveFromMenu \<Rightarrow> (request_exit None s)\<lparr>sh_menu := False\<rparr>
      | ResumeFromSurface \<Rightarrow> s\<lparr>sh_menu := False\<rparr>)"

text \<open>The previews that were restored in a list of events.\<close>

definition previews :: "player_shell_event list \<Rightarrow> nat set" where
  "previews es = {n. RestorePreview n \<in> set es}"

definition kept_data :: "nat set \<Rightarrow> player_shell \<Rightarrow> bool" where
  "kept_data P s \<longleftrightarrow>
     (case sh_restore s of None \<Rightarrow> True | Some n \<Rightarrow> n \<in> set (sh_committed s) \<union> P) \<and>
     (case sh_exitSnapshot s of None \<Rightarrow> True | Some n \<Rightarrow> n \<in> set (sh_committed s))"

lemma restart_kept_step:
  assumes "kept_data P s" "\<forall>n. e = RestorePreview n \<longrightarrow> n \<in> P"
  shows "kept_data P (player_shell_step e s)"
  using assms
  by (cases e)
    (auto simp: kept_data_def player_shell_step_def request_exit_def commit_answered_def restart_game_def restart_offered_def save_pressed_def
      save_chosen_def show_menu_def Let_def split: option.splits bool.splits)

lemma kept_run: "kept_data P s \<Longrightarrow> previews es \<subseteq> P \<Longrightarrow> kept_data P (fold player_shell_step es s)"
proof (induction es arbitrary: s)
  case (Cons e es)
  have "\<forall>n. e = RestorePreview n \<longrightarrow> n \<in> P" "previews es \<subseteq> P" using Cons.prems(2) by (auto simp: previews_def)
  then show ?case using Cons restart_kept_step by simp
qed simp


text \<open>Every end of a game asks to leave, even when its data could not be kept.\<close>

lemma ends_ask_to_leave:
  "sh_exits (fold player_shell_step [GameEnds (Some n), CommitAnswers (length (sh_commits s)) r] s) = sh_exits s + 1"
  by (simp add: player_shell_step_def request_exit_def commit_answered_def Let_def split: option.split bool.split)

end
