(* ===== verification/Spec2Isabelle.thy ===== *)
theory Spec2Isabelle
  imports Pwa_Properties Browser_Storage Infinite_List Window_Properties Review_Properties Upload_Properties Dispatcher_Properties Launch_Properties Runtime_Frames Runtime_Lifecycle Gamepad_Properties
    Chord_Detector Startup_Properties Content_Requests Content_Properties Save_Properties Session_Properties Site_Properties Player_Exit Player_Session Modal_Focus Content_Replacement Player_Pause Upload_Files Resources Save_Selection
    Player_Controls Immersive_Shell Catalog Game_Editor Game_Scan Upload_Sheet Library_Query Launch_Button Runtime_Config Favorites Self_Switches Immersive_Audio Managers Player_Aids Save_Library Account_Page
    Entry_Dialog Game_Page Browse_Lists Player_Shell
begin

text \<open>
  Retrom is a self-hosted game library: a Go server keeps games, saves and uploads, and a web client
  (\<open>web/\<close>, TypeScript) browses the library and runs the games. The server describes a launch in one JSON envelope; the
  client checks it, loads the Provider module that it names, gives that module a host of isolated frames in which
  the game runs, answers the game's requests for content through a service worker, and carries saves back to the
  server through drafts in the browser. This library models the client: every paragraph names a part, its
  theories and the files under \<open>src/web\<close> that they follow. Definitions keep the names of the source where Isabelle allows.

  \<^bold>\<open>Conventions.\<close> A JavaScript string is a list of 16-bit code units (\<open>jsstr\<close> of \<open>Prelude\<close>), bytes are \<open>8 word\<close>, a \<open>Map\<close> is
  an association list in insertion order (\<open>amap\<close>), an exception or a rejected promise is \<open>Inl\<close> or \<open>None\<close>. A callback
  with awaits is cut at them: one operation per stretch that runs without interruption, the events of the outside
  world (answers, timers, messages, clicks) are a \<open>datatype\<close>, and one step function applies an event to the state, so
  a theorem over all lists of events is a theorem over all interleavings. Fields named as a log record what the code
  did (calls, messages, navigation) and are never read by it. Functions of the browser and of third-party code are
  parameters, and what a proof needs of them is a named hypothesis or a locale that is interpreted on the model.

  \<^bold>\<open>Reading a launch.\<close> \<open>Js_Regex\<close> has the character classes of the patterns, \<open>Json_Value\<close> the values, \<open>Canonical_Json\<close> the
  strict reader of \<open>features/player/runtime/canonical-json.ts\<close>, \<open>Provider_Contract\<close> the types of
  \<open>generated/provider-module-v1.ts\<close>, \<open>contract.ts\<close> and \<open>errors.ts\<close> as predicates on values, \<open>Envelope\<close> all checks of
  \<open>envelope.ts\<close>. \<open>Json_Roundtrip\<close> and \<open>Envelope_Laws\<close> hold the lemmas and \<open>Launch_Properties\<close> the theorems: the reader ends on
  every input within its fuel (the length of the text plus one; every recursive call consumes a unit or lowers the
  depth), reads back what it prints, and an accepted envelope has the types the Provider is promised.

  \<^bold>\<open>Running it.\<close> \<open>Provider_Dispatcher\<close> (\<open>provider-dispatcher.ts\<close>; theorems in \<open>Dispatcher_Properties\<close>) verifies and imports the
  module; \<open>Runtime_Frames\<close> (\<open>blank-frame.ts\<close>, \<open>isolated-frame.ts\<close>, \<open>runtime-host.ts\<close>) and \<open>Runtime_Lifecycle\<close>
  (\<open>runtime-host.ts\<close>, \<open>dispose-runtime.ts\<close>, \<open>wait-native-save.ts\<close>) give it its host. \<open>Player_Session\<close>
  (\<open>use-player-session.ts\<close>, \<open>leave\<close> of \<open>player-shell.tsx\<close>) starts, feeds and disposes of one attempt after another;
  \<open>Player_Exit\<close> (\<open>use-player-exit.ts\<close>) is the dialogue that leaves a game; \<open>Player_Pause\<close> (\<open>player-orientation.ts\<close>,
  \<open>use-player-orientation.ts\<close>, \<open>use-player-surface-pause.ts\<close>) the two queues that pause it; \<open>Startup_Timeline\<close> and
  \<open>Startup_Properties\<close> the list of start tasks (\<open>startup-task-model.ts\<close>, \<open>startup-task-motion.ts\<close>, \<open>startup-label.ts\<close>,
  \<open>runtime-failure-message.ts\<close>). \<open>Gamepad_Input\<close>, \<open>Gamepad_Properties\<close> and \<open>Chord_Detector\<close> read gamepads (\<open>input-model.ts\<close>,
  \<open>active-gamepad.ts\<close>, \<open>gamepad-source.ts\<close>, \<open>immersive-controls.ts\<close>), \<open>Player_Controls\<close> turns keys and buttons into menus
  of the player (\<open>use-player-controls.ts\<close>, \<open>player-menu-navigation.ts\<close>), \<open>Immersive_Shell\<close> does so for immersive mode
  (\<open>use-navigation.ts\<close>, \<open>system-menu-model.ts\<close>, \<open>use-immersive-system-menu.ts\<close>, \<open>immersive-audio-preferences.ts\<close>, the
  dispatch of \<open>immersive-shell.tsx\<close>): no press is heard by two surfaces. \<open>Game_Editor\<close> (\<open>game-editor-panel.tsx\<close>) edits values
  of a running game; its invariant says that no answer to an old request is shown. \<open>Player_Fullscreen\<close>
  (\<open>player-fullscreen.ts\<close>, \<open>use-player-presentation.ts\<close>, \<open>player-fullscreen-control.tsx\<close>) says who put the browser into fullscreen, and
  \<open>Launch_Button\<close> (\<open>launch-button.tsx\<close>, \<open>restore-confirmation.tsx\<close>) starts a run on it and cleans up when that fails.
  \<open>Runtime_Config\<close> (\<open>runtime-option-fields.tsx\<close>, \<open>runtime-config-editor.tsx\<close>, the selectors of \<open>features/games\<close>) edits how a game runs.
  \<open>Player_Shell\<close> (\<open>player-shell.tsx\<close>) is what the shell around these hooks keeps itself, \<open>Player_Aids\<close> (\<open>use-player-hud.ts\<close>,
  \<open>use-runtime-shortcuts.ts\<close>, \<open>player-debug.ts\<close> and others) its small hooks, and \<open>Entry_Dialog\<close> (\<open>entry-dialog.tsx\<close>) the dialogue that a
  gamepad opens on an ordinary page: no press is used twice.

  \<^bold>\<open>Content.\<close> The service worker \<open>public/runtime-isolation/service-worker.js\<close> limits how many requests run at once
  (\<open>Content_Slots\<close>, refined to one bounded line of waiting calls), asks the page for
  content and reconnects (\<open>Content_Requests\<close>), and serves ranges, streams and the entry document (\<open>Content_Serving\<close>,
  \<open>Content_Properties\<close>). Its five retries make at most six requests. \<open>Content_Replacement\<close> is the page of
  \<open>use-content-replacement.ts\<close> that follows a replacement of game content.

  \<^bold>\<open>Saves.\<close> \<open>Save_Drafts\<close> and \<open>Save_Properties\<close> (\<open>save-drafts.ts\<close>, \<open>draft-upload.ts\<close>) store, upload and renew drafts with every
  failure of storage and network; \<open>Save_Session\<close> and \<open>Session_Properties\<close> (\<open>use-save-session.ts\<close>) decide when to capture and
  prove that no progress is lost while a draft can be kept; \<open>Save_Selection\<close> (\<open>use-save-selection.ts\<close>) chooses a save to
  play, with fuel one above the length of the list, since every page read before the end has a save.

  \<^bold>\<open>Uploads and review.\<close> \<open>Upload_Files\<close> (\<open>upload-files.ts\<close>) makes the selection, \<open>Upload_Transfer\<close> and \<open>Upload_Properties\<close>
  (\<open>upload-transfer.ts\<close>) send it with several workers against the append operation of the server
  (\<open>internal/storage/uploads.go\<close>, the only Go code modelled); \<open>Review_Approval\<close> and \<open>Review_Properties\<close>
  (\<open>review-approval.ts\<close>) publish the games of a review. Both end: \<open>transfer_work\<close> and \<open>run_work\<close> are measures that every
  step lowers. \<open>Upload_Sheet\<close> (\<open>upload-sheet.tsx\<close>) is the dialogue around the transfer and \<open>Game_Scan\<close> (\<open>game-scan.tsx\<close>, its picker and
  mapping) the page that inspects a source and starts a scan.

  \<^bold>\<open>Lists and pages.\<close> \<open>Paging\<close>, \<open>Entry_Window\<close>, \<open>Window_Properties\<close> (\<open>use-entry-window.ts\<close>, \<open>list-jump.ts\<close>,
  \<open>use-list-navigation.ts\<close>) show a window of a long list; \<open>Infinite_List\<close> (\<open>use-infinite-resource.ts\<close>) a list that grows;
  \<open>Resources\<close> (\<open>use-resource.ts\<close>, \<open>use-scan-polling.ts\<close>) the data of a page. \<open>Site_Paths\<close> and \<open>Site_Properties\<close>
  (\<open>return-path.ts\<close>, \<open>app-shell.tsx\<close>, \<open>proxy.ts\<close>, \<open>runtime-frame-sources.ts\<close>) guard the pages and their content policy;
  \<open>Modal_Focus\<close> (\<open>modal-focus.ts\<close>) keeps the focus in the top dialogue. \<open>Catalog\<close>
  has the tables of platforms and recommendations and the two runs that create what is recommended.
  \<open>Library_Query\<close> (\<open>client.ts\<close>, \<open>use-library-query.ts\<close>, \<open>library/api.ts\<close>, \<open>immersive-data.ts\<close>) has the errors of the API client,
  the filters of a list, their address and the requests. \<open>Favorites\<close> (\<open>features/favorites\<close>) has the batches of the favorites.
  \<open>Managers\<close> holds the pages of an administrator (\<open>directory-manager.tsx\<close>, \<open>user-manager.tsx\<close>, \<open>user-forms.tsx\<close>, \<open>account-link-list.tsx\<close>, \<open>tag-manager.tsx\<close>),
  \<open>Self_Switches\<close> (\<open>game-editor-self-switches.tsx\<close>) the switches of a running game and \<open>Immersive_Audio\<close>
  (\<open>use-immersive-background-audio.ts\<close>) the music of immersive mode.
  \<open>Save_Library\<close> (\<open>features/saves\<close>, \<open>draft-recovery.tsx\<close>, \<open>recent-history.tsx\<close>) has the page of the saves, \<open>Game_Page\<close> (\<open>game-detail.tsx\<close>,
  \<open>detail-launch.tsx\<close>, \<open>content-loading.ts\<close>, \<open>game-media-editor.tsx\<close>) the page of a game, \<open>Account_Page\<close> (\<open>features/auth\<close>,
  \<open>account-page.tsx\<close>, \<open>use-browser-storage.ts\<close>, \<open>pwa-provider.tsx\<close>, \<open>use-installation.ts\<close>) signing in, the own account and the update, and
  \<open>Browse_Lists\<close> (\<open>directory-list.tsx\<close>, \<open>directory-menu.tsx\<close>, \<open>bios-list.tsx\<close>, \<open>pending-uploads.tsx\<close>) the lists of an administrator.

  \<^bold>\<open>The installed application.\<close> \<open>Pwa_Worker\<close> and \<open>Pwa_Properties\<close> (\<open>features/pwa/service-worker.js\<close>, \<open>worker-client.ts\<close>) keep
  the caches and announce updates; \<open>Browser_Storage\<close> (\<open>browser-storage.ts\<close>) reports and clears storage.

  \<^bold>\<open>Interfaces.\<close> A contract that several proofs rest on is a locale, interpreted on the definitions of the code:
  \<open>waiting_line\<close> (\<open>Content_Slots\<close>) on the slots of the content worker, \<open>ordered_map\<close> (\<open>Prelude\<close>) on the association lists
  that stand for a \<open>Map\<close>, \<open>comparator\<close> (\<open>Prelude\<close>) on the orders that gamepads and drafts are sorted by.

  \<^bold>\<open>Not modelled.\<close> The server (\<open>internal/\<close>, \<open>cmd/\<close>), apart from the append operation above, the database migrations, the
  scripts and the container files: another language and another program. Components that only render (most \<open>.tsx\<close>
  files), style sheets, icons and texts: their content is markup. Generated code (the API schema; of the Provider
  types, those no modelled code reads). Tests and build configuration. Within the modelled files: numbers are
  rationals or integers where the code has doubles, so rounding and negative zero are not covered; one step stands for
  one \<open>sendChunk\<close> and for one transaction of a store; timers that only fade a hint, the texts of messages (flags here)
  and the labels a session gives to its start tasks are left out.
\<close>

end
